(* ===== verification/HS_Prelude.thy ===== *)
theory HS_Prelude
  imports Main "HOL-Library.Word" "HOL-Library.Code_Target_Numeral" "HOL-Library.Char_ord" "HOL-Library.List_Lexorder"
begin

text \<open>
  The vocabulary shared by every component of the development: Go strings as byte lists,
  the operations of package \<open>strings\<close>, \<open>strconv\<close> and \<open>unicode/utf8\<close> that the sources call,
  fixed-width integers, Go's \<open>(value, error)\<close> results as sums, and the lemma collections
  (\<open>go_defs\<close>, \<open>res_simps\<close>) through which the component theories automate.
\<close>

section \<open>Lemma collections\<close>

named_theorems go_defs \<open>definitions of constants, unfolded when a closed term is evaluated\<close>
named_theorems res_simps \<open>how results of fallible operations decompose\<close>
named_theorems len_simps \<open>length facts of parsers and trimmers\<close>

section \<open>Bytes, results, integers\<close>

text \<open>A Go string is a sequence of bytes, and so is a list of \<open>char\<close>.\<close>

type_synonym bytes = string

abbreviation bv :: "char \<Rightarrow> nat" where
  "bv c \<equiv> of_char c"

text \<open>A function with Go result \<open>(T, error)\<close> returns \<open>Inl e\<close> for an error.\<close>

type_synonym ('e, 'a) result = "'e + 'a"

definition bind_res :: "('e, 'a) result \<Rightarrow> ('a \<Rightarrow> ('e, 'b) result) \<Rightarrow> ('e, 'b) result" where
  "bind_res r f = (case r of Inl e \<Rightarrow> Inl e | Inr a \<Rightarrow> f a)"

lemma bind_res_simps [simp]:
  "bind_res (Inl e) f = Inl e"
  "bind_res (Inr a) f = f a"
  by (simp_all add: bind_res_def)

lemma bind_res_eq_Inr [res_simps]:
  "bind_res r f = Inr b \<longleftrightarrow> (\<exists>a. r = Inr a \<and> f a = Inr b)"
  by (cases r) auto

lemma bind_res_eq_Inl [res_simps]:
  "bind_res r f = Inl e \<longleftrightarrow> r = Inl e \<or> (\<exists>a. r = Inr a \<and> f a = Inl e)"
  by (cases r) auto

lemma sum_cases_Inr [res_simps]: "(case r of Inl e \<Rightarrow> Inl (h e) | Inr a \<Rightarrow> f a) = Inr b \<longleftrightarrow>
    (\<exists>a. r = Inr a \<and> f a = Inr b)"
  by (cases r) auto

text \<open>The range of Go's \<open>int\<close> and \<open>int64\<close> on the supported (64-bit) platforms.\<close>

definition int64_min :: int where "int64_min = - 9223372036854775808"
definition int64_max :: int where "int64_max = 9223372036854775807"

definition in_int64 :: "int \<Rightarrow> bool" where
  "in_int64 n \<longleftrightarrow> int64_min \<le> n \<and> n \<le> int64_max"

text \<open>What an \<open>int64\<close> holds after an operation whose mathematical result is \<open>n\<close>.\<close>

definition wrap64 :: "int \<Rightarrow> int" where
  "wrap64 n = sint (word_of_int n :: 64 word)"

lemma wrap64_mod: "wrap64 n = (n + 9223372036854775808) mod 18446744073709551616 - 9223372036854775808"
proof -
  have "wrap64 n = signed_take_bit 63 n"
    by (simp add: wrap64_def sint_sbintrunc')
  also have "\<dots> = (n + 2 ^ 63) mod 2 ^ 64 - 2 ^ 63"
    by (simp add: signed_take_bit_eq_take_bit_shift take_bit_eq_mod)
  finally show ?thesis by simp
qed

lemma wrap64_id: "in_int64 n \<Longrightarrow> wrap64 n = n"
  by (simp add: wrap64_mod in_int64_def int64_min_def int64_max_def)

lemma wrap64_range: "in_int64 (wrap64 n)"
  using pos_mod_bound [of 18446744073709551616 "n + 9223372036854775808"]
    pos_mod_sign [of 18446744073709551616 "n + 9223372036854775808"]
  unfolding wrap64_mod in_int64_def int64_min_def int64_max_def by linarith

section \<open>Integer division\<close>

lemma int_le_div_iff: "0 < k \<Longrightarrow> a \<le> t div k \<longleftrightarrow> a * k \<le> (t :: int)"
proof
  assume "0 < k" and "a \<le> t div k"
  then have "a * k \<le> t div k * k" by simp
  also have "\<dots> \<le> t" using \<open>0 < k\<close> pos_mod_sign [of k t] div_mult_mod_eq [of t k] by linarith
  finally show "a * k \<le> t" .
next
  assume "0 < k" and "a * k \<le> t"
  then have "a * k div k \<le> t div k" by (intro zdiv_mono1)
  with \<open>0 < k\<close> show "a \<le> t div k" by simp
qed

lemma int_div_less_iff: "0 < k \<Longrightarrow> t div k < a \<longleftrightarrow> t < a * (k :: int)"
  using int_le_div_iff [of k a t] by linarith

lemma int_div_eq_iff: "0 < k \<Longrightarrow> t div k = a \<longleftrightarrow> a * k \<le> t \<and> t < (a + 1) * (k :: int)"
  using int_le_div_iff [of k a t] int_div_less_iff [of k t "a + 1"] by linarith

section \<open>Lists\<close>

lemma list_all2_elem: "list_all2 P xs ys \<Longrightarrow> x \<in> set xs \<Longrightarrow> \<exists>y. P x y"
  by (induction rule: list_all2_induct) auto

end
