(* ===== verification/Go_Strings.thy ===== *)
theory Go_Strings
  imports HS_Prelude
begin

text \<open>
  The parts of Go's \<open>strings\<close>, \<open>strconv\<close> and \<open>unicode/utf8\<close> packages the sources call, over byte
  strings: UTF-8 decoding and validity, prefix and substring tests, trimming and field
  splitting by Unicode white space, \<open>Cut\<close>, \<open>Split\<close>, \<open>Atoi\<close> and \<open>Itoa\<close>.
\<close>

section \<open>UTF-8\<close>

definition cont_byte :: "char \<Rightarrow> bool" where
  "cont_byte c \<longleftrightarrow> 128 \<le> bv c \<and> bv c < 192"

text \<open>The width of the rune a string starts with, 0 when its first byte starts no valid one
  (\<open>utf8.DecodeRune\<close> answers \<open>(RuneError, 1)\<close> there) and when the string is empty.\<close>

definition lead2 :: "char \<Rightarrow> char \<Rightarrow> bool" where
  "lead2 a b \<longleftrightarrow> 194 \<le> bv a \<and> bv a < 224 \<and> cont_byte b"

definition lead3 :: "char \<Rightarrow> char \<Rightarrow> char \<Rightarrow> bool" where
  "lead3 a b c \<longleftrightarrow> 224 \<le> bv a \<and> bv a < 240 \<and> cont_byte b \<and> cont_byte c \<and>
     (bv a = 224 \<longrightarrow> 160 \<le> bv b) \<and> (bv a = 237 \<longrightarrow> bv b < 160)"

definition lead4 :: "char \<Rightarrow> char \<Rightarrow> char \<Rightarrow> char \<Rightarrow> bool" where
  "lead4 a b c d \<longleftrightarrow> 240 \<le> bv a \<and> bv a < 245 \<and> cont_byte b \<and> cont_byte c \<and> cont_byte d \<and>
     (bv a = 240 \<longrightarrow> 144 \<le> bv b) \<and> (bv a = 244 \<longrightarrow> bv b < 144)"

fun rune_width :: "bytes \<Rightarrow> nat" where
  "rune_width [] = 0"
| "rune_width (a # s) =
     (if bv a < 128 then 1
      else case s of [] \<Rightarrow> 0 | b # s \<Rightarrow>
        if lead2 a b then 2
        else case s of [] \<Rightarrow> 0 | c # s \<Rightarrow>
          if lead3 a b c then 3
          else case s of [] \<Rightarrow> 0 | d # s \<Rightarrow> if lead4 a b c d then 4 else 0)"

text \<open>\<open>utf8.DecodeRune\<close>: the code point, U+FFFD where the bytes are not a rune.\<close>

definition rune_error :: nat where "rune_error = 65533"

definition decode_rune :: "bytes \<Rightarrow> nat" where
  "decode_rune s =
     (case (rune_width s, map bv s) of
        (Suc 0, a # _) \<Rightarrow> a
      | (Suc (Suc 0), a # b # _) \<Rightarrow> (a - 192) * 64 + (b - 128)
      | (Suc (Suc (Suc 0)), a # b # c # _) \<Rightarrow> (a - 224) * 4096 + (b - 128) * 64 + (c - 128)
      | (Suc (Suc (Suc (Suc 0))), a # b # c # d # _) \<Rightarrow>
          (a - 240) * 262144 + (b - 128) * 4096 + (c - 128) * 64 + (d - 128)
      | _ \<Rightarrow> rune_error)"

text \<open>\<open>utf8.AppendRune\<close>: surrogates and values past U+10FFFF are written as U+FFFD.\<close>

definition encode_rune :: "nat \<Rightarrow> bytes" where
  "encode_rune r =
     (let r = (if (55296 \<le> r \<and> r < 57344) \<or> 1114111 < r then rune_error else r)
      in if r < 128 then [char_of r]
         else if r < 2048 then [char_of (192 + r div 64), char_of (128 + r mod 64)]
         else if r < 65536 then
           [char_of (224 + r div 4096), char_of (128 + r div 64 mod 64), char_of (128 + r mod 64)]
         else [char_of (240 + r div 262144), char_of (128 + r div 4096 mod 64),
               char_of (128 + r div 64 mod 64), char_of (128 + r mod 64)])"

text \<open>\<open>utf8.ValidString\<close>.\<close>

fun utf8_valid :: "bytes \<Rightarrow> bool" where
  "utf8_valid [] = True"
| "utf8_valid (c # cs) =
     (let w = rune_width (c # cs) in 0 < w \<and> utf8_valid (drop (w - 1) cs))"

text \<open>A string as the sequence of its runes, each still encoded; an invalid byte stands alone,
  which is how \<open>range\<close> over a string and \<open>utf8.DecodeLastRune\<close> see it.\<close>

fun runes :: "bytes \<Rightarrow> bytes list" where
  "runes [] = []"
| "runes (c # cs) = (let w = max 1 (rune_width (c # cs)) in take w (c # cs) # runes (drop (w - 1) cs))"

lemma concat_runes [simp]: "concat (runes s) = s"
proof (induction s rule: runes.induct)
  case (2 c cs)
  let ?w = "max 1 (rune_width (c # cs))"
  have "take ?w (c # cs) @ drop (?w - 1) cs = c # cs"
    by (cases ?w) (simp_all add: append_take_drop_id)
  then show ?case using "2" by (simp add: Let_def)
qed simp

lemma rune_width_le [simp]: "rune_width s \<le> length s"
  by (cases s) (auto split: list.splits)

lemma rune_width_le4: "rune_width s \<le> 4"
  by (cases s) (auto split: list.splits)

text \<open>Only the bytes of the rune itself decide its width.\<close>

lemma rune_width_append: "0 < rune_width s \<Longrightarrow> rune_width (s @ t) = rune_width s"
  by (cases s) (auto split: list.splits if_splits)

lemma rune_width_take: "rune_width s = w \<Longrightarrow> 0 < w \<Longrightarrow> rune_width (take w s @ t) = w"
  by (cases s) (auto split: list.splits if_splits simp: numeral_2_eq_2 numeral_3_eq_3 eval_nat_numeral)

lemma lead_high:
  "lead2 a b \<Longrightarrow> 128 \<le> bv a \<and> 128 \<le> bv b"
  "lead3 a b c \<Longrightarrow> 128 \<le> bv a \<and> 128 \<le> bv b \<and> 128 \<le> bv c"
  "lead4 a b c d \<Longrightarrow> 128 \<le> bv a \<and> 128 \<le> bv b \<and> 128 \<le> bv c \<and> 128 \<le> bv d"
  by (auto simp: lead2_def lead3_def lead4_def cont_byte_def)

text \<open>Every byte of a rune wider than one byte is outside ASCII.\<close>

lemma multibyte_high: "1 < rune_width s \<Longrightarrow> \<forall>c \<in> set (take (rune_width s) s). 128 \<le> bv c"
  by (cases s) (auto split: list.splits if_splits dest: lead_high simp: eval_nat_numeral)

lemma rune_width_ascii: "bv c < 128 \<Longrightarrow> rune_width (c # cs) = 1"
  by simp

lemma rune_width_high: "128 \<le> bv c \<Longrightarrow> rune_width (c # cs) \<noteq> 1"
  by (auto split: list.splits)

lemma rune_width_gt1: "128 \<le> bv c \<Longrightarrow> 0 < rune_width (c # cs) \<Longrightarrow> 1 < rune_width (c # cs)"
  using rune_width_high [of c cs] by linarith

lemma utf8_valid_ascii: "\<forall>c \<in> set s. bv c < 128 \<Longrightarrow> utf8_valid s"
  by (induction s) (auto simp: Let_def)

declare rune_width.simps(2) [simp del]
declare rune_width_ascii [simp]

section \<open>Package strings\<close>

definition has_prefix :: "bytes \<Rightarrow> bytes \<Rightarrow> bool" where
  "has_prefix s p \<longleftrightarrow> take (length p) s = p"

definition has_suffix :: "bytes \<Rightarrow> bytes \<Rightarrow> bool" where
  "has_suffix s p \<longleftrightarrow> has_prefix (rev s) (rev p)"

fun contains :: "bytes \<Rightarrow> bytes \<Rightarrow> bool" where
  "contains [] p = (p = [])"
| "contains (c # cs) p = (has_prefix (c # cs) p \<or> contains cs p)"

text \<open>\<open>unicode.IsSpace\<close> on one encoded rune: the six ASCII spaces, U+0085, U+00A0, U+1680,
  U+2000 to U+200A, U+2028, U+2029, U+202F, U+205F and U+3000.\<close>

definition space_runes :: "bytes list" where
  "space_runes = [
     [CHR 0x09], [CHR 0x0A], [CHR 0x0B], [CHR 0x0C], [CHR 0x0D], [CHR 0x20],
     [CHR 0xC2, CHR 0x85], [CHR 0xC2, CHR 0xA0], [CHR 0xE1, CHR 0x9A, CHR 0x80],
     [CHR 0xE2, CHR 0x80, CHR 0x80], [CHR 0xE2, CHR 0x80, CHR 0x81], [CHR 0xE2, CHR 0x80, CHR 0x82],
     [CHR 0xE2, CHR 0x80, CHR 0x83], [CHR 0xE2, CHR 0x80, CHR 0x84], [CHR 0xE2, CHR 0x80, CHR 0x85],
     [CHR 0xE2, CHR 0x80, CHR 0x86], [CHR 0xE2, CHR 0x80, CHR 0x87], [CHR 0xE2, CHR 0x80, CHR 0x88],
     [CHR 0xE2, CHR 0x80, CHR 0x89], [CHR 0xE2, CHR 0x80, CHR 0x8A], [CHR 0xE2, CHR 0x80, CHR 0xA8],
     [CHR 0xE2, CHR 0x80, CHR 0xA9], [CHR 0xE2, CHR 0x80, CHR 0xAF], [CHR 0xE2, CHR 0x81, CHR 0x9F],
     [CHR 0xE3, CHR 0x80, CHR 0x80]]"

definition is_space_rune :: "bytes \<Rightarrow> bool" where
  "is_space_rune r \<longleftrightarrow> r \<in> set space_runes"

definition trim_space :: "bytes \<Rightarrow> bytes" where
  "trim_space s =
     concat (rev (dropWhile is_space_rune (rev (dropWhile is_space_rune (runes s)))))"

fun fields_of :: "bytes list \<Rightarrow> bytes \<Rightarrow> bytes list" where
  "fields_of [] acc = (if acc = [] then [] else [acc])"
| "fields_of (r # rs) acc =
     (if is_space_rune r then (if acc = [] then fields_of rs [] else acc # fields_of rs [])
      else fields_of rs (acc @ r))"

text \<open>\<open>strings.Fields\<close>.\<close>

definition str_fields :: "bytes \<Rightarrow> bytes list" where
  "str_fields s = fields_of (runes s) []"

text \<open>\<open>strings.Cut\<close> and \<open>strings.Split\<close> around a one-byte separator.\<close>

fun cut :: "char \<Rightarrow> bytes \<Rightarrow> bytes \<times> bytes \<times> bool" where
  "cut sep [] = ([], [], False)"
| "cut sep (c # cs) =
     (if c = sep then ([], cs, True)
      else case cut sep cs of (a, b, ok) \<Rightarrow> (c # a, b, ok))"

fun split_on :: "char \<Rightarrow> bytes \<Rightarrow> bytes list" where
  "split_on sep [] = [[]]"
| "split_on sep (c # cs) =
     (if c = sep then [] # split_on sep cs
      else case split_on sep cs of [] \<Rightarrow> [[c]] | p # ps \<Rightarrow> (c # p) # ps)"

text \<open>\<open>strings.ToLower\<close> on one encoded rune. Of the runes outside ASCII only U+0130 and U+212A
  have an ASCII lower case; the others keep being non-ASCII, so that leaving them as they are
  is the same to every caller, which compare the result with ASCII words.\<close>

definition lower_rune :: "bytes \<Rightarrow> bytes" where
  "lower_rune r =
     (let n = decode_rune r in
      if 65 \<le> n \<and> n \<le> 90 then [char_of (n + 32)]
      else if n = 304 then ''i'' else if n = 8490 then ''k'' else r)"

definition to_lower :: "bytes \<Rightarrow> bytes" where
  "to_lower s = concat (map lower_rune (runes s))"

lemma cut_length [len_simps]: "cut sep s = (a, b, True) \<Longrightarrow> length s = length a + length b + 1"
  by (induction s arbitrary: a) (auto split: if_splits prod.splits)

lemma cut_append: "sep \<notin> set a \<Longrightarrow> cut sep (a @ sep # b) = (a, b, True)"
  by (induction a) auto

section \<open>Package strconv\<close>

definition is_digit :: "char \<Rightarrow> bool" where
  "is_digit c \<longleftrightarrow> 48 \<le> bv c \<and> bv c \<le> 57"

definition digits_val :: "bytes \<Rightarrow> int" where
  "digits_val s = foldl (\<lambda>n c. 10 * n + (int (bv c) - 48)) 0 s"

text \<open>\<open>strconv.Atoi\<close> and \<open>strconv.ParseInt(s, 10, 64)\<close>: an optional sign, at least one decimal
  digit and nothing else, in the range of \<open>int64\<close>.\<close>

definition parse_int64 :: "bytes \<Rightarrow> int option" where
  "parse_int64 s =
     (let (neg, ds) = (case s of [] \<Rightarrow> (False, [])
                       | c # cs \<Rightarrow> if c = CHR ''-'' then (True, cs)
                                  else if c = CHR ''+'' then (False, cs) else (False, s));
          n = (if neg then - digits_val ds else digits_val ds)
      in if ds \<noteq> [] \<and> list_all is_digit ds \<and> in_int64 n then Some n else None)"

fun nat_digits :: "nat \<Rightarrow> bytes" where
  "nat_digits n = (if n < 10 then [char_of (48 + n)] else nat_digits (n div 10) @ [char_of (48 + n mod 10)])"

declare nat_digits.simps [simp del]

text \<open>\<open>strconv.Itoa\<close>.\<close>

definition itoa :: "int \<Rightarrow> bytes" where
  "itoa n = (if n < 0 then CHR ''-'' # nat_digits (nat (- n)) else nat_digits (nat n))"

lemma bv_digit [simp]: "n < 10 \<Longrightarrow> bv (char_of (48 + n)) = 48 + n"
  by simp

lemma nat_digits_digits: "list_all is_digit (nat_digits n) \<and> nat_digits n \<noteq> []"
proof (induction n rule: nat_digits.induct)
  case (1 n)
  have "n mod 10 \<le> 9" by presburger
  with "1" show ?case by (simp add: nat_digits.simps [of n] is_digit_def)
qed

lemma digits_val_snoc: "digits_val (s @ [c]) = 10 * digits_val s + (int (bv c) - 48)"
  by (simp add: digits_val_def)

lemma digits_val_nat_digits [simp]: "digits_val (nat_digits n) = int n"
proof (induction n rule: nat_digits.induct)
  case (1 n)
  show ?case
  proof (cases "n < 10")
    case True
    then show ?thesis by (simp add: nat_digits.simps [of n] digits_val_def)
  next
    case False
    have "int n = 10 * int (n div 10) + int (n mod 10)"
      by presburger
    with False "1" show ?thesis
      by (simp add: nat_digits.simps [of n] digits_val_snoc)
  qed
qed

lemma of_char_Char_zero: "bv (CHR ''0'') = 48"
  by simp

lemma nat_digits_head_pos: "0 < n \<Longrightarrow> hd (nat_digits n) \<noteq> CHR ''0''"
proof (induction n rule: nat_digits.induct)
  case (1 n)
  show ?case
  proof (cases "n < 10")
    case True
    with "1.prems" have "bv (char_of (48 + n) :: char) \<noteq> 48" by simp
    then have "char_of (48 + n) \<noteq> CHR ''0''" by (metis of_char_Char_zero)
    with True show ?thesis by (simp add: nat_digits.simps [of n])
  next
    case False
    then have "0 < n div 10" by (simp add: div_greater_zero_iff)
    moreover have "nat_digits (n div 10) \<noteq> []" using nat_digits_digits by blast
    ultimately show ?thesis using "1.IH" [OF False] False by (simp add: nat_digits.simps [of n])
  qed
qed

lemma nat_digits_head: "hd (nat_digits n) \<noteq> CHR ''0'' \<or> length (nat_digits n) = 1"
  using nat_digits_head_pos [of n] by (cases "n = 0") (simp_all add: nat_digits.simps [of 0])

lemma nat_digits_length: "length (nat_digits n) \<le> Suc n"
proof (induction n rule: nat_digits.induct)
  case (1 n)
  have "\<not> n < 10 \<Longrightarrow> Suc (n div 10) \<le> n" by presburger
  with "1" show ?case by (cases "n < 10") (simp_all add: nat_digits.simps [of n])
qed

text \<open>\<open>Atoi\<close> inverts \<open>Itoa\<close>.\<close>

lemma parse_int64_itoa: "in_int64 n \<Longrightarrow> parse_int64 (itoa n) = Some n"
proof -
  assume n: "in_int64 n"
  have d: "list_all is_digit (nat_digits m)" "nat_digits m \<noteq> []" for m
    using nat_digits_digits [of m] by auto
  have h: "hd (nat_digits m) \<noteq> CHR ''-'' \<and> hd (nat_digits m) \<noteq> CHR ''+''" for m
    using d [of m] by (cases "nat_digits m") (auto simp: is_digit_def)
  show ?thesis
  proof (cases "n < 0")
    case True
    with n d [of "nat (- n)"] show ?thesis by (simp add: itoa_def parse_int64_def)
  next
    case False
    have v: "digits_val (nat_digits (nat n)) = n" using False by simp
    obtain a r where ar: "nat_digits (nat n) = a # r" using d(2) [of "nat n"] by (cases "nat_digits (nat n)") auto
    with n False d [of "nat n"] h [of "nat n"] v show ?thesis
      by (simp add: itoa_def parse_int64_def Let_def)
  qed
qed

end
