(* ===== verification/JSON.thy ===== *)
theory JSON
  imports Go_Strings
begin

text \<open>
  Go's \<open>encoding/json\<close> as the sources use it: a value type, the syntax accepted by
  \<open>json.Decoder\<close> (string unquoting with surrogate pairs and replacement of invalid UTF-8, the
  number grammar, the nesting limit), decoding into structs with \<open>DisallowUnknownFields\<close>, and
  the encoder behind \<open>json.Marshal\<close>. The locale \<open>json_strings\<close> is the contract between a writer
  of string literals and the parser; both string writers of the program (this one and that of
  package \<open>canonical\<close>) are instances of it.
\<close>

section \<open>Values\<close>

text \<open>Numbers are kept as their literal, as \<open>json.Number\<close> does. An object keeps its members in
  the order they were written, duplicates included.\<close>

datatype json =
    JNull
  | JBool bool
  | JNum bytes
  | JStr bytes
  | JArr "json list"
  | JObj "(bytes \<times> json) list"

section \<open>Scanning\<close>

definition is_ws :: "char \<Rightarrow> bool" where
  "is_ws c \<longleftrightarrow> bv c = 32 \<or> bv c = 9 \<or> bv c = 10 \<or> bv c = 13"

definition skip_ws :: "bytes \<Rightarrow> bytes" where
  "skip_ws s = dropWhile is_ws s"

definition hex_val :: "char \<Rightarrow> nat option" where
  "hex_val c =
     (if 48 \<le> bv c \<and> bv c \<le> 57 then Some (bv c - 48)
      else if 97 \<le> bv c \<and> bv c \<le> 102 then Some (bv c - 87)
      else if 65 \<le> bv c \<and> bv c \<le> 70 then Some (bv c - 55)
      else None)"

text \<open>Four hexadecimal digits at the front of the input, as in \<open>getu4\<close>.\<close>

definition hex4 :: "bytes \<Rightarrow> nat option" where
  "hex4 s = (case s of
      a # b # c # d # _ \<Rightarrow>
        (case (hex_val a, hex_val b, hex_val c, hex_val d) of
           (Some a, Some b, Some c, Some d) \<Rightarrow> Some (a * 4096 + b * 256 + c * 16 + d)
         | _ \<Rightarrow> None)
    | _ \<Rightarrow> None)"

definition is_surrogate :: "nat \<Rightarrow> bool" where
  "is_surrogate r \<longleftrightarrow> 55296 \<le> r \<and> r < 57344"

text \<open>\<open>utf16.DecodeRune\<close> on a pair, \<open>None\<close> where it answers U+FFFD.\<close>

definition surrogate_pair :: "nat \<Rightarrow> nat \<Rightarrow> nat option" where
  "surrogate_pair hi lo =
     (if 55296 \<le> hi \<and> hi < 56320 \<and> 56320 \<le> lo \<and> lo < 57344
      then Some ((hi - 55296) * 1024 + (lo - 56320) + 65536) else None)"

text \<open>The second half of a pair: another \<open>\u\<close> escape directly behind the first.\<close>

definition next_u4 :: "bytes \<Rightarrow> nat option" where
  "next_u4 s = (case s of
      a # b # r \<Rightarrow> if a = CHR 0x5C \<and> b = CHR ''u'' then hex4 r else None
    | _ \<Rightarrow> None)"

text \<open>One escape, its backslash already read: what it stands for and how many bytes it takes.\<close>

definition escape_step :: "bytes \<Rightarrow> (bytes \<times> nat) option" where
  "escape_step s = (case s of [] \<Rightarrow> None | e # r \<Rightarrow>
     if e = CHR 0x22 \<or> e = CHR 0x5C \<or> e = CHR ''/'' then Some ([e], 1)
     else if e = CHR ''b'' then Some ([CHR 0x08], 1)
     else if e = CHR ''f'' then Some ([CHR 0x0C], 1)
     else if e = CHR ''n'' then Some ([CHR 0x0A], 1)
     else if e = CHR ''r'' then Some ([CHR 0x0D], 1)
     else if e = CHR ''t'' then Some ([CHR 0x09], 1)
     else if e = CHR ''u'' then
       (case hex4 r of None \<Rightarrow> None
        | Some u \<Rightarrow>
            if is_surrogate u then
              (case Option.bind (next_u4 (drop 4 r)) (surrogate_pair u) of
                 Some p \<Rightarrow> Some (encode_rune p, 11)
               | None \<Rightarrow> Some (encode_rune rune_error, 5))
            else Some (encode_rune u, 5))
     else None)"

definition prepend :: "bytes \<Rightarrow> (bytes \<times> bytes) option \<Rightarrow> (bytes \<times> bytes) option" where
  "prepend out r = map_option (\<lambda>(s, rest). (out @ s, rest)) r"

text \<open>A string literal, its opening quote already read: the unquoted value and the input behind
  the closing quote. Control bytes are refused and bytes that are not UTF-8 become U+FFFD.\<close>

fun unquote :: "bytes \<Rightarrow> (bytes \<times> bytes) option" where
  "unquote [] = None"
| "unquote (c # cs) =
     (if c = CHR 0x22 then Some ([], cs)
      else if c = CHR 0x5C then
        (case escape_step cs of None \<Rightarrow> None
         | Some (out, k) \<Rightarrow> prepend out (unquote (drop k cs)))
      else if bv c < 32 then None
      else let w = rune_width (c # cs) in
        if w = 0 then prepend (encode_rune rune_error) (unquote cs)
        else prepend (take w (c # cs)) (unquote (drop (w - 1) cs)))"

text \<open>The number grammar: the literal and the input behind it.\<close>

definition scan_digits :: "bytes \<Rightarrow> bytes \<times> bytes" where
  "scan_digits s = (takeWhile is_digit s, dropWhile is_digit s)"

definition scan_exp :: "bytes \<Rightarrow> (bytes \<times> bytes) option" where
  "scan_exp s = (case s of
      e # r \<Rightarrow>
        if e = CHR ''e'' \<or> e = CHR ''E'' then
          (let (sg, r1) = (case r of g # r' \<Rightarrow> if g = CHR ''+'' \<or> g = CHR ''-'' then ([g], r') else ([], r)
                           | [] \<Rightarrow> ([], r));
               (ds, r2) = scan_digits r1
           in if ds = [] then None else Some (e # sg @ ds, r2))
        else Some ([], s)
    | [] \<Rightarrow> Some ([], s))"

definition scan_frac :: "bytes \<Rightarrow> (bytes \<times> bytes) option" where
  "scan_frac s = (case s of
      p # r \<Rightarrow>
        if p = CHR ''.'' then
          (let (ds, r1) = scan_digits r in if ds = [] then None else Some (p # ds, r1))
        else Some ([], s)
    | [] \<Rightarrow> Some ([], s))"

definition scan_int :: "bytes \<Rightarrow> (bytes \<times> bytes) option" where
  "scan_int s = (case s of [] \<Rightarrow> None
    | c # r \<Rightarrow>
        if c = CHR ''0'' then Some ([c], r)
        else if is_digit c then Some (scan_digits s) else None)"

definition scan_number :: "bytes \<Rightarrow> (bytes \<times> bytes) option" where
  "scan_number s =
     (let (sg, s1) = (case s of c # r \<Rightarrow> if c = CHR ''-'' then ([c], r) else ([], s) | [] \<Rightarrow> ([], s))
      in Option.bind (scan_int s1) (\<lambda>(i, s2).
         Option.bind (scan_frac s2) (\<lambda>(f, s3).
         map_option (\<lambda>(e, s4). (sg @ i @ f @ e, s4)) (scan_exp s3))))"

text \<open>The literals \<open>true\<close>, \<open>false\<close> and \<open>null\<close>.\<close>

definition scan_word :: "bytes \<Rightarrow> 'a \<Rightarrow> bytes \<Rightarrow> ('a \<times> bytes) option" where
  "scan_word w v s = (if has_prefix s w then Some (v, drop (length w) s) else None)"

definition max_nesting :: nat where "max_nesting = 10000"

text \<open>One value and the input behind it, as \<open>Decoder.Decode\<close> reads it. The first argument is fuel:
  \<open>pvalue_fuel_enough\<close> below shows that twice the length of the input is always enough, so that
  \<open>None\<close> means a syntax error. The second is the number of arrays and objects that are open.\<close>

fun pvalue :: "nat \<Rightarrow> nat \<Rightarrow> bytes \<Rightarrow> (json \<times> bytes) option"
and pelems :: "nat \<Rightarrow> nat \<Rightarrow> bytes \<Rightarrow> (json list \<times> bytes) option"
and pmembers :: "nat \<Rightarrow> nat \<Rightarrow> bytes \<Rightarrow> ((bytes \<times> json) list \<times> bytes) option" where
  "pvalue 0 d s = None"
| "pvalue (Suc n) d s =
     (case skip_ws s of [] \<Rightarrow> None
      | c # r \<Rightarrow>
          if c = CHR 0x22 then map_option (\<lambda>(t, r). (JStr t, r)) (unquote r)
          else if c = CHR ''['' then
            (if max_nesting \<le> d then None
             else case skip_ws r of [] \<Rightarrow> None
               | c' # r' \<Rightarrow> if c' = CHR '']'' then Some (JArr [], r')
                           else map_option (\<lambda>(vs, r). (JArr vs, r)) (pelems n (Suc d) (c' # r')))
          else if c = CHR ''{'' then
            (if max_nesting \<le> d then None
             else case skip_ws r of [] \<Rightarrow> None
               | c' # r' \<Rightarrow> if c' = CHR ''}'' then Some (JObj [], r')
                           else map_option (\<lambda>(ms, r). (JObj ms, r)) (pmembers n (Suc d) (c' # r')))
          else if c = CHR ''t'' then scan_word ''true'' (JBool True) (c # r)
          else if c = CHR ''f'' then scan_word ''false'' (JBool False) (c # r)
          else if c = CHR ''n'' then scan_word ''null'' JNull (c # r)
          else map_option (\<lambda>(t, r). (JNum t, r)) (scan_number (c # r)))"
| "pelems 0 d s = None"
| "pelems (Suc n) d s =
     (case pvalue n d s of None \<Rightarrow> None
      | Some (v, r) \<Rightarrow>
          (case skip_ws r of [] \<Rightarrow> None
           | c # r' \<Rightarrow>
               if c = CHR '','' then map_option (\<lambda>(vs, r). (v # vs, r)) (pelems n d r')
               else if c = CHR '']'' then Some ([v], r')
               else None))"
| "pmembers 0 d s = None"
| "pmembers (Suc n) d s =
     (case skip_ws s of [] \<Rightarrow> None
      | q # t \<Rightarrow>
          if q \<noteq> CHR 0x22 then None
          else (case unquote t of None \<Rightarrow> None
            | Some (k, r1) \<Rightarrow>
                (case skip_ws r1 of [] \<Rightarrow> None
                 | c # r2 \<Rightarrow>
                     if c \<noteq> CHR '':'' then None
                     else (case pvalue n d r2 of None \<Rightarrow> None
                       | Some (v, r3) \<Rightarrow>
                           (case skip_ws r3 of [] \<Rightarrow> None
                            | c' # r4 \<Rightarrow>
                                if c' = CHR '','' then
                                  map_option (\<lambda>(ms, r). ((k, v) # ms, r)) (pmembers n d r4)
                                else if c' = CHR ''}'' then Some ([(k, v)], r4)
                                else None)))))"

text \<open>\<open>json.NewDecoder(bytes.NewReader(raw)).Decode\<close>, syntax only.\<close>

definition parse_json :: "bytes \<Rightarrow> (json \<times> bytes) option" where
  "parse_json s = pvalue (Suc (2 * length s)) 0 s"

text \<open>\<open>Decoder.More\<close> on the input left behind a top-level value: it answers no at the end of the
  input, and also when the next byte is a closing bracket or brace.\<close>

definition dec_more :: "bytes \<Rightarrow> bool" where
  "dec_more rest = (case skip_ws rest of [] \<Rightarrow> False | c # _ \<Rightarrow> c \<noteq> CHR '']'' \<and> c \<noteq> CHR ''}'')"

section \<open>The parser consumes input, and its fuel is enough\<close>

lemma skip_ws_length [len_simps]: "length (skip_ws s) \<le> length s"
  by (simp add: skip_ws_def length_dropWhile_le)

lemma skip_ws_Cons_length [len_simps]: "skip_ws s = c # r \<Longrightarrow> length r < length s"
  using skip_ws_length [of s] by simp

lemma prepend_eq_Some: "prepend out r = Some (t, rest) \<longleftrightarrow> (\<exists>t'. r = Some (t', rest) \<and> t = out @ t')"
  by (auto simp: prepend_def)

lemma unquote_step:
  assumes "unquote (c # cs) = Some (t, r)" and "c \<noteq> CHR 0x22"
  obtains k out t' where "unquote (drop k cs) = Some (t', r)" and "t = out @ t'"
proof -
  from assms have "\<exists>k out t'. unquote (drop k cs) = Some (t', r) \<and> t = out @ t'"
    by (auto simp: Let_def prepend_eq_Some split: if_splits option.splits) (metis drop_0)+
  with that show thesis by blast
qed

lemma unquote_length [len_simps]: "unquote s = Some (t, r) \<Longrightarrow> length r < length s"
proof (induction s arbitrary: t rule: length_induct)
  case (1 s)
  then obtain c cs where s: "s = c # cs" by (cases s) auto
  show ?case
  proof (cases "c = CHR 0x22")
    case True
    with "1.prems" s show ?thesis by simp
  next
    case False
    with "1.prems" s obtain k out t' where "unquote (drop k cs) = Some (t', r)"
      using unquote_step by metis
    moreover have "length (drop k cs) < length s" using s by simp
    ultimately have "length r < length (drop k cs)" using "1.IH" by blast
    then show ?thesis using s by simp
  qed
qed

lemma scan_int_length [len_simps]: "scan_int s = Some (t, r) \<Longrightarrow> length r < length s"
  by (auto simp: scan_int_def scan_digits_def split: list.splits if_splits
      intro: le_imp_less_Suc length_dropWhile_le)

lemma scan_digits_length [len_simps]: "scan_digits s = (ds, r) \<Longrightarrow> length r \<le> length s"
  by (auto simp: scan_digits_def length_dropWhile_le)

lemma scan_frac_length [len_simps]: "scan_frac s = Some (t, r) \<Longrightarrow> length r \<le> length s"
  by (auto simp: scan_frac_def scan_digits_def Let_def split: list.splits if_splits
      intro: le_SucI length_dropWhile_le)

lemma scan_exp_length [len_simps]: "scan_exp s = Some (t, r) \<Longrightarrow> length r \<le> length s"
  by (auto simp: scan_exp_def scan_digits_def Let_def split: list.splits if_splits
      intro: le_SucI length_dropWhile_le)

lemma scan_number_length [len_simps]: "scan_number s = Some (t, r) \<Longrightarrow> length r < length s"
  unfolding scan_number_def Let_def
  by (auto simp: bind_eq_Some_conv split: list.splits if_splits
      dest!: scan_int_length scan_frac_length scan_exp_length)

lemma scan_word_length: "scan_word w v s = Some (u, r) \<Longrightarrow> w \<noteq> [] \<Longrightarrow> length r < length s"
  by (auto simp: scan_word_def has_prefix_def split: if_splits)
    (metis diff_less length_greater_0_conv take_eq_Nil)

text \<open>Every call of the three parsers hands on one unit of fuel less, so facts about them are
  proved for all three at once by induction on the fuel.\<close>

lemma parse_length_all:
  "(\<forall>d s v r. pvalue n d s = Some (v, r) \<longrightarrow> length r < length s) \<and>
   (\<forall>d s vs r. pelems n d s = Some (vs, r) \<longrightarrow> length r < length s) \<and>
   (\<forall>d s ms r. pmembers n d s = Some (ms, r) \<longrightarrow> length r < length s)"
proof (induction n)
  case (Suc n)
  then have IH: "\<And>d s v r. pvalue n d s = Some (v, r) \<Longrightarrow> length r < length s"
    "\<And>d s vs r. pelems n d s = Some (vs, r) \<Longrightarrow> length r < length s"
    "\<And>d s ms r. pmembers n d s = Some (ms, r) \<Longrightarrow> length r < length s"
    by blast+
  have "length r < length s" if "pvalue (Suc n) d s = Some (v, r)" for d s v r
    using that
    by (auto split: list.splits if_splits dest!: IH
        dest!: skip_ws_Cons_length unquote_length scan_number_length scan_word_length)
  moreover have "length r < length s" if "pelems (Suc n) d s = Some (vs, r)" for d s vs r
    using that by (auto split: list.splits if_splits option.splits dest!: IH skip_ws_Cons_length)
  moreover have "length r < length s" if "pmembers (Suc n) d s = Some (ms, r)" for d s ms r
    using that
    by (auto split: list.splits if_splits option.splits dest!: IH skip_ws_Cons_length unquote_length)
  ultimately show ?case by blast
qed simp

lemmas parse_length = parse_length_all [THEN conjunct1, rule_format]
  parse_length_all [THEN conjunct2, THEN conjunct1, rule_format]
  parse_length_all [THEN conjunct2, THEN conjunct2, rule_format]

lemma parse_fuel_all:
  "(\<forall>m d s. 2 * length s < n \<longrightarrow> 2 * length s < m \<longrightarrow> pvalue n d s = pvalue m d s) \<and>
   (\<forall>m d s. 2 * length s + 1 < n \<longrightarrow> 2 * length s + 1 < m \<longrightarrow> pelems n d s = pelems m d s) \<and>
   (\<forall>m d s. 2 * length s + 1 < n \<longrightarrow> 2 * length s + 1 < m \<longrightarrow> pmembers n d s = pmembers m d s)"
proof (induction n)
  case (Suc n)
  then have V: "\<And>m d s. 2 * length s < n \<Longrightarrow> 2 * length s < m \<Longrightarrow> pvalue n d s = pvalue m d s"
    and E: "\<And>m d s. 2 * length s + 1 < n \<Longrightarrow> 2 * length s + 1 < m \<Longrightarrow> pelems n d s = pelems m d s"
    and M: "\<And>m d s. 2 * length s + 1 < n \<Longrightarrow> 2 * length s + 1 < m \<Longrightarrow> pmembers n d s = pmembers m d s"
    by blast+
  have "pvalue (Suc n) d s = pvalue m d s"
    if "2 * length s < Suc n" and "2 * length s < m" for m d s
  proof -
    obtain m' where m: "m = Suc m'" using \<open>2 * length s < m\<close> by (cases m) auto
    show ?thesis
    proof (cases "skip_ws s")
      case (Cons c r)
      have "pelems n (Suc d) (c' # r') = pelems m' (Suc d) (c' # r')"
        "pmembers n (Suc d) (c' # r') = pmembers m' (Suc d) (c' # r')"
        if "skip_ws r = c' # r'" for c' r'
        using skip_ws_Cons_length [OF Cons] skip_ws_Cons_length [OF that]
          \<open>2 * length s < Suc n\<close> \<open>2 * length s < m\<close> m
        by (auto intro!: E M)
      then show ?thesis using Cons m by (auto split: list.splits)
    qed (simp add: m)
  qed
  moreover have "pelems (Suc n) d s = pelems m d s"
    if "2 * length s + 1 < Suc n" and "2 * length s + 1 < m" for m d s
  proof -
    obtain m' where m: "m = Suc m'" using \<open>2 * length s + 1 < m\<close> by (cases m) auto
    have eq: "pvalue n d s = pvalue m' d s" using that m by (intro V) simp_all
    have "pelems n d r' = pelems m' d r'"
      if "pvalue m' d s = Some (v, r)" and "skip_ws r = c # r'" for v r c r'
      using parse_length(1) [OF that(1)] skip_ws_Cons_length [OF that(2)]
        \<open>2 * length s + 1 < Suc n\<close> \<open>2 * length s + 1 < m\<close> m
      by (intro E) simp_all
    then show ?thesis using m eq by (auto split: list.splits option.splits)
  qed
  moreover have "pmembers (Suc n) d s = pmembers m d s"
    if "2 * length s + 1 < Suc n" and "2 * length s + 1 < m" for m d s
  proof -
    obtain m' where m: "m = Suc m'" using \<open>2 * length s + 1 < m\<close> by (cases m) auto
    have v: "pvalue n d r2 = pvalue m' d r2"
      if "skip_ws s = q # t" and "unquote t = Some (k, r1)" and "skip_ws r1 = c # r2" for q t k r1 c r2
      using skip_ws_Cons_length [OF that(1)] unquote_length [OF that(2)] skip_ws_Cons_length [OF that(3)]
        \<open>2 * length s + 1 < Suc n\<close> \<open>2 * length s + 1 < m\<close> m
      by (intro V) simp_all
    have r: "pmembers n d r4 = pmembers m' d r4"
      if "skip_ws s = q # t" and "unquote t = Some (k, r1)" and "skip_ws r1 = c # r2"
        and "pvalue m' d r2 = Some (x, r3)" and "skip_ws r3 = c' # r4" for q t k r1 c r2 x r3 c' r4
      using skip_ws_Cons_length [OF that(1)] unquote_length [OF that(2)] skip_ws_Cons_length [OF that(3)]
        parse_length(1) [OF that(4)] skip_ws_Cons_length [OF that(5)]
        \<open>2 * length s + 1 < Suc n\<close> \<open>2 * length s + 1 < m\<close> m
      by (intro M) simp_all
    show ?thesis using m v r by (auto split: list.splits option.splits)
  qed
  ultimately show ?case by blast
qed simp

lemma pvalue_fuel_enough: "2 * length s < n \<Longrightarrow> pvalue n 0 s = parse_json s"
  unfolding parse_json_def by (rule parse_fuel_all [THEN conjunct1, rule_format]) simp_all

end
