(* ===== verification/JSON_Write.thy ===== *)
theory JSON_Write
  imports JSON
begin

text \<open>
  Writing JSON. A writer of values is given by how it writes string literals and numbers; objects
  are written with their keys in byte order. The contract between a writer and the parser of
  \<open>JSON\<close> is stated as locales: \<open>json_strings\<close> for the writer of one rune inside a
  literal, \<open>json_codec\<close> for the writer of whole values. Inside them the parser is shown
  to read back what was written. \<open>json_marshal\<close> is Go's \<open>json.Marshal\<close> on decoded values, the
  first instance of the contract.
\<close>

section \<open>Runes inside a string literal\<close>

definition valid_rune :: "bytes \<Rightarrow> bool" where
  "valid_rune r \<longleftrightarrow> r \<noteq> [] \<and> rune_width r = length r"

definition clean_rune :: "bytes \<Rightarrow> bytes" where
  "clean_rune r = (if rune_width r = 0 then encode_rune rune_error else r)"

text \<open>A string with every byte that is not part of a rune replaced by U+FFFD.\<close>

definition sanitize :: "bytes \<Rightarrow> bytes" where
  "sanitize s = concat (map clean_rune (runes s))"

lemma runes_shape: "r \<in> set (runes s) \<Longrightarrow> valid_rune r \<or> (\<exists>c. r = [c] \<and> 128 \<le> bv c)"
proof (induction s rule: runes.induct)
  case (2 c cs)
  let ?w = "rune_width (c # cs)"
  have head: "valid_rune (take (max 1 ?w) (c # cs)) \<or> (\<exists>c'. take (max 1 ?w) (c # cs) = [c'] \<and> 128 \<le> bv c')"
  proof (cases "?w = 0")
    case True
    then have "128 \<le> bv c" using rune_width_ascii [of c cs] by (metis not_le zero_neq_one)
    with True show ?thesis by simp
  next
    case False
    have "rune_width (take ?w (c # cs) @ []) = ?w"
      by (rule rune_width_take) (use False in simp_all)
    with False show ?thesis
      using rune_width_le [of "c # cs"] by (simp add: valid_rune_def max_def min_def)
  qed
  with "2" show ?case by (auto simp: Let_def)
qed simp

lemma runes_valid: "utf8_valid s \<Longrightarrow> r \<in> set (runes s) \<Longrightarrow> valid_rune r"
proof (induction s rule: runes.induct)
  case (2 c cs)
  let ?w = "rune_width (c # cs)"
  from "2.prems"(1) have w: "0 < ?w" and v: "utf8_valid (drop (?w - 1) cs)"
    by (auto simp: Let_def)
  have "rune_width (take ?w (c # cs) @ []) = ?w"
    by (rule rune_width_take) (use w in simp_all)
  then have "valid_rune (take ?w (c # cs))"
    using w rune_width_le [of "c # cs"] by (simp add: valid_rune_def min_def)
  with "2" v w show ?case by (auto simp: Let_def max_def split: if_splits)
qed simp

lemma clean_valid_rune [simp]: "valid_rune r \<Longrightarrow> clean_rune r = r"
  by (auto simp: valid_rune_def clean_rune_def)

lemma sanitize_valid: "utf8_valid s \<Longrightarrow> sanitize s = s"
  using runes_valid [of s] by (simp add: sanitize_def cong: map_cong)

lemma utf8_valid_rune_append: "valid_rune r \<Longrightarrow> utf8_valid (r @ t) = utf8_valid t"
proof -
  assume r: "valid_rune r"
  then obtain c cs where "r = c # cs" by (cases r) (auto simp: valid_rune_def)
  moreover have "rune_width (r @ t) = length r"
    using r rune_width_append [of r t] by (auto simp: valid_rune_def)
  ultimately show ?thesis by (simp add: Let_def)
qed

lemma utf8_valid_concat: "\<forall>r \<in> set rs. valid_rune r \<Longrightarrow> utf8_valid (concat rs)"
  by (induction rs) (simp_all add: utf8_valid_rune_append)

lemma valid_rune_error: "valid_rune (encode_rune rune_error)"
  by (simp add: valid_rune_def encode_rune_def rune_error_def rune_width.simps lead2_def lead3_def cont_byte_def)

lemma utf8_valid_sanitize: "utf8_valid (sanitize s)"
  unfolding sanitize_def
proof (rule utf8_valid_concat, rule ballI)
  fix r assume "r \<in> set (map clean_rune (runes s))"
  then obtain r' where r': "r' \<in> set (runes s)" "r = clean_rune r'" by auto
  show "valid_rune r"
  proof (cases "rune_width r' = 0")
    case True
    then show ?thesis using r'(2) valid_rune_error by (simp add: clean_rune_def)
  next
    case False
    from runes_shape [OF r'(1)] have "valid_rune r'"
    proof (elim disjE exE conjE)
      fix c assume c: "r' = [c]" "128 \<le> bv c"
      have "rune_width [c] = 1" using False rune_width_le [of "[c]"] c(1) by simp
      with rune_width_high [OF c(2), of "[]"] show ?thesis by simp
    qed
    then show ?thesis using r'(2) by simp
  qed
qed

lemma sanitize_idem [simp]: "sanitize (sanitize s) = sanitize s"
  by (rule sanitize_valid) (rule utf8_valid_sanitize)

text \<open>How the parser reads what a writer may write for one rune.\<close>

lemma unquote_ascii:
  "32 \<le> bv c \<Longrightarrow> bv c < 128 \<Longrightarrow> c \<noteq> CHR 0x22 \<Longrightarrow> c \<noteq> CHR 0x5C \<Longrightarrow>
   unquote (c # t) = prepend [c] (unquote t)"
  by (simp add: Let_def)

lemma unquote_multibyte:
  assumes "valid_rune r" and "128 \<le> bv (hd r)"
  shows "unquote (r @ t) = prepend r (unquote t)"
proof -
  obtain c cs where r: "r = c # cs" using assms(1) by (cases r) (auto simp: valid_rune_def)
  have w: "rune_width (c # cs @ t) = Suc (length cs)"
    using assms(1) r rune_width_append [of "c # cs" t] by (simp add: valid_rune_def)
  have "c \<noteq> CHR 0x22" "c \<noteq> CHR 0x5C" "\<not> bv c < 32" using assms(2) r by auto
  with w show ?thesis by (simp add: r Let_def)
qed

lemma valid_rune_cases:
  assumes "valid_rune r"
  obtains (ascii) c where "r = [c]" "bv c < 128" | (multi) "128 \<le> bv (hd r)"
proof (cases r)
  case (Cons c cs)
  show thesis
  proof (cases "bv c < 128")
    case True
    with assms Cons have "r = [c]" by (simp add: valid_rune_def)
    then show thesis using True by (rule ascii)
  qed (use Cons multi in simp)
qed (use assms in \<open>simp add: valid_rune_def\<close>)

definition hex_digit :: "nat \<Rightarrow> char" where
  "hex_digit n = ''0123456789abcdef'' ! n"

lemma hex_val_digit [simp]: "n < 16 \<Longrightarrow> hex_val (hex_digit n) = Some n"
proof -
  have "\<forall>n \<in> {..<16}. hex_val (hex_digit n) = Some n"
    by (simp add: lessThan_nat_numeral lessThan_Suc hex_val_def hex_digit_def)
  then show "n < 16 \<Longrightarrow> hex_val (hex_digit n) = Some n" by simp
qed

text \<open>The six-byte escape of a code point below U+10000, as \<open>fmt.Fprintf(buf, "\u%04x", r)\<close>.\<close>

definition u_escape :: "nat \<Rightarrow> bytes" where
  "u_escape r = [CHR 0x5C, CHR ''u'', hex_digit (r div 4096 mod 16), hex_digit (r div 256 mod 16),
     hex_digit (r div 16 mod 16), hex_digit (r mod 16)]"

lemma nibbles:
  "r div 4096 * 4096 + r div 256 mod 16 * 256 + r div 16 mod 16 * 16 + r mod 16 = (r :: nat)"
proof -
  have "r = r div 16 * 16 + r mod 16" by simp
  moreover have "r div 16 = r div 256 * 16 + r div 16 mod 16"
    using div_mult_mod_eq [of "r div 16" 16] by (simp flip: div_mult2_eq)
  moreover have "r div 256 = r div 4096 * 16 + r div 256 mod 16"
    using div_mult_mod_eq [of "r div 256" 16] by (simp flip: div_mult2_eq)
  ultimately show ?thesis by linarith
qed

lemma escape_step_u:
  assumes "r < 65536" and "\<not> is_surrogate r"
  shows "escape_step (tl (u_escape r) @ t) = Some (encode_rune r, 5)"
proof -
  have "hex4 (drop 2 (u_escape r) @ t) = Some r"
    using assms(1) by (simp add: u_escape_def hex4_def nibbles)
  with assms(2) show ?thesis by (simp add: escape_step_def u_escape_def)
qed

lemma unquote_u_escape:
  assumes "r < 65536" and "\<not> is_surrogate r"
  shows "unquote (u_escape r @ t) = prepend (encode_rune r) (unquote t)"
proof -
  obtain a b c d where u: "u_escape r = CHR 0x5C # CHR ''u'' # [a, b, c, d]"
    by (simp add: u_escape_def)
  have "escape_step (CHR ''u'' # [a, b, c, d] @ t) = Some (encode_rune r, 5)"
    using escape_step_u [OF assms, of t] by (simp add: u)
  then show ?thesis by (simp add: u)
qed

lemma encode_rune_ascii: "bv c < 128 \<Longrightarrow> encode_rune (bv c) = [c]"
  by (simp add: encode_rune_def Let_def)

section \<open>The contract of a string writer\<close>

locale json_strings =
  fixes wr :: "bytes \<Rightarrow> bytes"
  assumes wr_valid: "valid_rune r \<Longrightarrow> unquote (wr r @ t) = prepend r (unquote t)"
    and wr_invalid: "128 \<le> bv c \<Longrightarrow> rune_width [c] = 0 \<Longrightarrow>
      unquote (wr [c] @ t) = prepend (encode_rune rune_error) (unquote t)"
begin

lemma wr_rune: "r \<in> set (runes s) \<Longrightarrow> unquote (wr r @ t) = prepend (clean_rune r) (unquote t)"
proof -
  assume "r \<in> set (runes s)"
  then consider "valid_rune r" | c where "r = [c]" "128 \<le> bv c" "\<not> valid_rune r"
    using runes_shape by blast
  then show ?thesis
  proof cases
    case 1
    then show ?thesis by (simp add: wr_valid)
  next
    case (2 c)
    then have "rune_width [c] = 0"
      using rune_width_le [of "[c]"] rune_width_high [of c "[]"] by simp
    with "2" show ?thesis by (simp add: wr_invalid clean_rune_def)
  qed
qed

lemma unquote_concat:
  "(\<forall>r \<in> set rs. \<forall>t. unquote (wr r @ t) = prepend (clean_rune r) (unquote t)) \<Longrightarrow>
   unquote (concat (map wr rs) @ CHR 0x22 # rest) = Some (concat (map clean_rune rs), rest)"
  by (induction rs) (auto simp: prepend_def)

text \<open>A literal is read back as the string it was written for, invalid bytes replaced.\<close>

lemma unquote_literal:
  "unquote (concat (map wr (runes s)) @ CHR 0x22 # rest) = Some (sanitize s, rest)"
  using unquote_concat [of "runes s" rest] wr_rune by (simp add: sanitize_def)

end

section \<open>Writing values\<close>

fun join :: "char \<Rightarrow> bytes list \<Rightarrow> bytes" where
  "join sep [] = []"
| "join sep [x] = x"
| "join sep (x # y # xs) = x @ sep # join sep (y # xs)"

text \<open>The results of a list of steps, or the first error.\<close>

fun seq_res :: "('e, 'a) result list \<Rightarrow> ('e, 'a list) result" where
  "seq_res [] = Inr []"
| "seq_res (r # rs) = bind_res r (\<lambda>a. bind_res (seq_res rs) (\<lambda>as. Inr (a # as)))"

lemma seq_res_Inr [res_simps]:
  "seq_res rs = Inr as \<longleftrightarrow> list_all2 (\<lambda>r a. r = Inr a) rs as"
proof (induction rs arbitrary: as)
  case Nil
  show ?case by auto
next
  case (Cons r rs)
  then show ?case by (cases r) (auto simp: bind_res_eq_Inr list_all2_Cons1)
qed

text \<open>A value through writers of strings and of numbers; an object's keys in byte order.\<close>

function write_json ::
  "(bytes \<Rightarrow> ('e, bytes) result) \<Rightarrow> (bytes \<Rightarrow> ('e, bytes) result) \<Rightarrow> json \<Rightarrow> ('e, bytes) result" where
  "write_json wstr wnum JNull = Inr ''null''"
| "write_json wstr wnum (JBool b) = Inr (if b then ''true'' else ''false'')"
| "write_json wstr wnum (JNum n) = wnum n"
| "write_json wstr wnum (JStr s) = wstr s"
| "write_json wstr wnum (JArr vs) =
     bind_res (seq_res (map (write_json wstr wnum) vs))
       (\<lambda>ps. Inr (CHR ''['' # join (CHR '','') ps @ [CHR '']'']))"
| "write_json wstr wnum (JObj ms) =
     bind_res (seq_res (map (\<lambda>(k, v). bind_res (wstr k) (\<lambda>ks.
           bind_res (write_json wstr wnum v) (\<lambda>vs. Inr (ks @ CHR '':'' # vs)))) (sort_key fst ms)))
       (\<lambda>ps. Inr (CHR ''{'' # join (CHR '','') ps @ [CHR ''}'']))"
  by pat_completeness auto
termination
  by (relation "measure (\<lambda>(_, _, v). size v)")
    (auto simp: less_Suc_eq_le intro: size_list_estimation' trans_le_add1 elim!: size_list_estimation)

section \<open>Numbers in context\<close>

text \<open>Input that cannot be read as the rest of a number standing before it.\<close>

definition delim :: "bytes \<Rightarrow> bool" where
  "delim rest = (case rest of [] \<Rightarrow> True
     | c # _ \<Rightarrow> \<not> is_digit c \<and> c \<noteq> CHR ''.'' \<and> c \<noteq> CHR ''e'' \<and> c \<noteq> CHR ''E'')"

definition number_literal :: "bytes \<Rightarrow> bool" where
  "number_literal s \<longleftrightarrow> scan_number s = Some (s, [])"

lemma delim_digits: "delim rest \<Longrightarrow> takeWhile is_digit rest = [] \<and> dropWhile is_digit rest = rest"
  by (auto simp: delim_def split: list.splits)

lemma scan_digits_append:
  "delim rest \<Longrightarrow> scan_digits (s @ rest) = (fst (scan_digits s), snd (scan_digits s) @ rest)"
  by (induction s) (auto simp: scan_digits_def delim_digits)

lemma scan_int_append:
  "scan_int s = Some (i, r) \<Longrightarrow> delim rest \<Longrightarrow> scan_int (s @ rest) = Some (i, r @ rest)"
  using scan_digits_append [of rest s]
  by (cases s) (auto simp: scan_int_def split: if_splits)

lemma scan_frac_append:
  "scan_frac s = Some (i, r) \<Longrightarrow> delim rest \<Longrightarrow> scan_frac (s @ rest) = Some (i, r @ rest)"
proof (cases s)
  case Nil
  then show "scan_frac s = Some (i, r) \<Longrightarrow> delim rest \<Longrightarrow> ?thesis"
    by (auto simp: scan_frac_def delim_def split: list.splits)
next
  case (Cons c cs)
  then show "scan_frac s = Some (i, r) \<Longrightarrow> delim rest \<Longrightarrow> ?thesis"
    using scan_digits_append [of rest cs]
    by (auto simp: scan_frac_def Let_def split: if_splits prod.splits)
qed

lemma scan_exp_append:
  "scan_exp s = Some (i, r) \<Longrightarrow> delim rest \<Longrightarrow> scan_exp (s @ rest) = Some (i, r @ rest)"
proof (cases s)
  case Nil
  then show "scan_exp s = Some (i, r) \<Longrightarrow> delim rest \<Longrightarrow> ?thesis"
    by (auto simp: scan_exp_def delim_def split: list.splits)
next
  case (Cons c cs)
  then show "scan_exp s = Some (i, r) \<Longrightarrow> delim rest \<Longrightarrow> ?thesis"
    using scan_digits_append [of rest cs] scan_digits_append [of rest "tl cs"]
    by (cases cs) (auto simp: scan_exp_def Let_def scan_digits_def split: if_splits prod.splits)
qed

lemma scan_number_append:
  assumes "scan_number s = Some (t, r)" and "delim rest"
  shows "scan_number (s @ rest) = Some (t, r @ rest)"
proof -
  obtain sg s1 where sg: "(case s of c # r \<Rightarrow> if c = CHR ''-'' then ([c], r) else ([], s) | [] \<Rightarrow> ([], s)) = (sg, s1)"
    by fastforce
  then have "s \<noteq> []" using assms(1) by (auto simp: scan_number_def scan_int_def)
  with sg have sg': "(case s @ rest of c # r \<Rightarrow> if c = CHR ''-'' then ([c], r) else ([], s @ rest)
      | [] \<Rightarrow> ([], s @ rest)) = (sg, s1 @ rest)"
    by (cases s) (auto split: if_splits)
  from assms(1) sg obtain i f e s2 s3 where
    "scan_int s1 = Some (i, s2)" "scan_frac s2 = Some (f, s3)" "scan_exp s3 = Some (e, r)" "t = sg @ i @ f @ e"
    by (auto simp: scan_number_def bind_eq_Some_conv)
  with assms(2) have "scan_int (s1 @ rest) = Some (i, s2 @ rest)" "scan_frac (s2 @ rest) = Some (f, s3 @ rest)"
    "scan_exp (s3 @ rest) = Some (e, r @ rest)"
    by (simp_all add: scan_int_append scan_frac_append scan_exp_append)
  with sg' \<open>t = sg @ i @ f @ e\<close> show ?thesis by (simp add: scan_number_def)
qed

lemma number_literal_head:
  "number_literal s \<Longrightarrow> \<exists>c r. s = c # r \<and> (c = CHR ''-'' \<or> is_digit c)"
  by (cases s) (auto simp: number_literal_def scan_number_def scan_int_def is_digit_def
      split: if_splits list.splits)

lemma number_literal_int:
  assumes "ds \<noteq> []" and "list_all is_digit ds" and "hd ds \<noteq> CHR ''0'' \<or> length ds = 1"
  shows "number_literal ds" "number_literal (CHR ''-'' # ds)"
proof -
  obtain c r where ds: "ds = c # r" using assms(1) by (cases ds) auto
  have all: "takeWhile is_digit ds = ds" "dropWhile is_digit ds = []"
    using assms(2) by (auto simp: list_all_iff takeWhile_eq_all_conv dropWhile_eq_Nil_conv)
  have c: "is_digit c" using assms(2) ds by simp
  then have nm: "c \<noteq> CHR ''-''" by (auto simp: is_digit_def)
  have "scan_int ds = Some (ds, [])"
  proof (cases "c = CHR ''0''")
    case True
    with assms(3) ds show ?thesis by (simp add: scan_int_def)
  next
    case False
    with c all show ?thesis by (simp add: scan_int_def ds scan_digits_def)
  qed
  then show "number_literal ds" "number_literal (CHR ''-'' # ds)"
    using nm by (simp_all add: number_literal_def scan_number_def ds scan_frac_def scan_exp_def)
qed

lemma number_literal_itoa: "number_literal (itoa n)"
proof -
  have "list_all is_digit (nat_digits m)" "nat_digits m \<noteq> []"
    "hd (nat_digits m) \<noteq> CHR ''0'' \<or> length (nat_digits m) = 1" for m
    using nat_digits_digits [of m] nat_digits_head [of m] by auto
  then show ?thesis unfolding itoa_def by (simp add: number_literal_int)
qed

section \<open>The contract of a writer of values\<close>

text \<open>What a written value is read back as: keys in byte order, strings without invalid bytes.\<close>

function read_back :: "json \<Rightarrow> json" where
  "read_back JNull = JNull"
| "read_back (JBool b) = JBool b"
| "read_back (JNum n) = JNum n"
| "read_back (JStr s) = JStr (sanitize s)"
| "read_back (JArr vs) = JArr (map read_back vs)"
| "read_back (JObj ms) = JObj (map (\<lambda>(k, v). (sanitize k, read_back v)) (sort_key fst ms))"
  by pat_completeness auto
termination
  by (relation "measure size")
    (auto simp: less_Suc_eq_le intro: size_list_estimation' trans_le_add1 elim!: size_list_estimation)

text \<open>How many arrays and objects of a value are open at once.\<close>

function jdepth :: "json \<Rightarrow> nat" where
  "jdepth (JArr vs) = Suc (foldr max (map jdepth vs) 0)"
| "jdepth (JObj ms) = Suc (foldr max (map (\<lambda>(k, v). jdepth v) ms) 0)"
| "jdepth JNull = 0"
| "jdepth (JBool b) = 0"
| "jdepth (JNum n) = 0"
| "jdepth (JStr s) = 0"
  by pat_completeness auto
termination
  by (relation "measure size")
    (auto simp: less_Suc_eq_le intro: size_list_estimation' trans_le_add1 elim!: size_list_estimation)

lemma foldr_max_ge: "x \<in> set xs \<Longrightarrow> x \<le> foldr max xs (0 :: nat)"
  by (induction xs) auto

lemma jdepth_elem: "v \<in> set vs \<Longrightarrow> jdepth v < jdepth (JArr vs)"
  by (simp add: less_Suc_eq_le foldr_max_ge)

lemma jdepth_member: "(k, v) \<in> set ms \<Longrightarrow> jdepth v < jdepth (JObj ms)"
  by (force simp: less_Suc_eq_le intro: foldr_max_ge)

text \<open>With enough fuel the three parsers answer \<open>r\<close>.\<close>

definition ev_value :: "nat \<Rightarrow> bytes \<Rightarrow> json \<times> bytes \<Rightarrow> bool" where
  "ev_value d s r \<longleftrightarrow> (\<exists>N. \<forall>n \<ge> N. pvalue n d s = Some r)"

definition ev_elems :: "nat \<Rightarrow> bytes \<Rightarrow> json list \<times> bytes \<Rightarrow> bool" where
  "ev_elems d s r \<longleftrightarrow> (\<exists>N. \<forall>n \<ge> N. pelems n d s = Some r)"

definition ev_members :: "nat \<Rightarrow> bytes \<Rightarrow> (bytes \<times> json) list \<times> bytes \<Rightarrow> bool" where
  "ev_members d s r \<longleftrightarrow> (\<exists>N. \<forall>n \<ge> N. pmembers n d s = Some r)"

lemma skip_ws_nonspace [simp]: "\<not> is_ws c \<Longrightarrow> skip_ws (c # s) = c # s"
  by (simp add: skip_ws_def)

lemma is_ws_punct [simp]: "\<not> is_ws CHR 0x22" "\<not> is_ws (CHR '','')" "\<not> is_ws (CHR '':'')"
  "\<not> is_ws (CHR '']'')" "\<not> is_ws (CHR ''}'')" "\<not> is_ws (CHR ''['')" "\<not> is_ws (CHR ''{'')"
  "\<not> is_ws (CHR ''t'')" "\<not> is_ws (CHR ''f'')" "\<not> is_ws (CHR ''n'')"
  by (simp_all add: is_ws_def)

lemma ev_valueI:
  assumes "\<And>n. N \<le> n \<Longrightarrow> pvalue (Suc n) d s = Some r"
  shows "ev_value d s r"
  unfolding ev_value_def
proof (intro exI allI impI)
  fix n assume "Suc N \<le> n"
  then show "pvalue n d s = Some r" using assms [of "n - 1"] by (cases n) auto
qed

lemma ev_elems_last:
  assumes "ev_value d s (v, CHR '']'' # rest)"
  shows "ev_elems d s ([v], rest)"
proof -
  from assms obtain N where "\<And>n. N \<le> n \<Longrightarrow> pvalue n d s = Some (v, CHR '']'' # rest)"
    unfolding ev_value_def by blast
  then have "pelems n d s = Some ([v], rest)" if "Suc N \<le> n" for n
    using that by (cases n) auto
  then show ?thesis unfolding ev_elems_def by blast
qed

lemma ev_elems_step:
  assumes "ev_value d s (v, CHR '','' # s')" and "ev_elems d s' (vs, rest)"
  shows "ev_elems d s (v # vs, rest)"
proof -
  from assms obtain N M where "\<And>n. N \<le> n \<Longrightarrow> pvalue n d s = Some (v, CHR '','' # s')"
    and "\<And>n. M \<le> n \<Longrightarrow> pelems n d s' = Some (vs, rest)"
    unfolding ev_value_def ev_elems_def by blast
  then have "pelems n d s = Some (v # vs, rest)" if "Suc (max N M) \<le> n" for n
    using that by (cases n) auto
  then show ?thesis unfolding ev_elems_def by blast
qed

lemma ev_members_last:
  assumes "unquote t = Some (k, CHR '':'' # s)" and "ev_value d s (v, CHR ''}'' # rest)"
  shows "ev_members d (CHR 0x22 # t) ([(k, v)], rest)"
proof -
  from assms(2) obtain N where "\<And>n. N \<le> n \<Longrightarrow> pvalue n d s = Some (v, CHR ''}'' # rest)"
    unfolding ev_value_def by blast
  then have "pmembers n d (CHR 0x22 # t) = Some ([(k, v)], rest)" if "Suc N \<le> n" for n
    using that assms(1) by (cases n) auto
  then show ?thesis unfolding ev_members_def by blast
qed

lemma ev_members_step:
  assumes "unquote t = Some (k, CHR '':'' # s)" and "ev_value d s (v, CHR '','' # s')"
    and "ev_members d s' (ms, rest)"
  shows "ev_members d (CHR 0x22 # t) ((k, v) # ms, rest)"
proof -
  from assms(2,3) obtain N M where "\<And>n. N \<le> n \<Longrightarrow> pvalue n d s = Some (v, CHR '','' # s')"
    and "\<And>n. M \<le> n \<Longrightarrow> pmembers n d s' = Some (ms, rest)"
    unfolding ev_value_def ev_members_def by blast
  then have "pmembers n d (CHR 0x22 # t) = Some ((k, v) # ms, rest)" if "Suc (max N M) \<le> n" for n
    using that assms(1) by (cases n) auto
  then show ?thesis unfolding ev_members_def by blast
qed

lemma ev_value_array:
  assumes "ev_elems (Suc d) s (vs, rest)" and "d < max_nesting"
    and "s = c # s'" and "\<not> is_ws c" and "c \<noteq> CHR '']''"
  shows "ev_value d (CHR ''['' # s) (JArr vs, rest)"
proof -
  from assms(1) obtain N where "\<And>n. N \<le> n \<Longrightarrow> pelems n (Suc d) s = Some (vs, rest)"
    unfolding ev_elems_def by blast
  then show ?thesis by (intro ev_valueI [of N]) (use assms in auto)
qed

lemma ev_value_object:
  assumes "ev_members (Suc d) s (ms, rest)" and "d < max_nesting"
    and "s = c # s'" and "\<not> is_ws c" and "c \<noteq> CHR ''}''"
  shows "ev_value d (CHR ''{'' # s) (JObj ms, rest)"
proof -
  from assms(1) obtain N where "\<And>n. N \<le> n \<Longrightarrow> pmembers n (Suc d) s = Some (ms, rest)"
    unfolding ev_members_def by blast
  then show ?thesis by (intro ev_valueI [of N]) (use assms in auto)
qed

lemma ev_value_empty:
  "d < max_nesting \<Longrightarrow> ev_value d (CHR ''['' # CHR '']'' # rest) (JArr [], rest)"
  "d < max_nesting \<Longrightarrow> ev_value d (CHR ''{'' # CHR ''}'' # rest) (JObj [], rest)"
  by (rule ev_valueI [of 0], simp)+

lemma ev_value_number:
  assumes "number_literal s" and "delim rest"
  shows "ev_value d (s @ rest) (JNum s, rest)"
proof (rule ev_valueI [of 0])
  fix n
  obtain c r where s: "s = c # r" and c: "c = CHR ''-'' \<or> is_digit c"
    using number_literal_head [OF assms(1)] by blast
  have "scan_number (s @ rest) = Some (s, rest)"
    using scan_number_append [OF assms(1)[unfolded number_literal_def] assms(2)] by simp
  moreover have "\<not> is_ws c" "c \<noteq> CHR 0x22" "c \<noteq> CHR ''[''" "c \<noteq> CHR ''{''" "c \<noteq> CHR ''t''"
      "c \<noteq> CHR ''f''" "c \<noteq> CHR ''n''"
    using c by (auto simp: is_digit_def is_ws_def)
  ultimately show "pvalue (Suc n) d (s @ rest) = Some (JNum s, rest)" by (simp add: s)
qed

lemma parse_json_ev: "ev_value 0 s r \<Longrightarrow> parse_json s = Some r"
proof -
  assume "ev_value 0 s r"
  then obtain N where "\<And>n. N \<le> n \<Longrightarrow> pvalue n 0 s = Some r" unfolding ev_value_def by blast
  then have "pvalue (max N (Suc (2 * length s))) 0 s = Some r" by simp
  then show ?thesis using pvalue_fuel_enough [of s "max N (Suc (2 * length s))"] by simp
qed

section \<open>What the parser guarantees of a value\<close>

text \<open>A predicate on a value and on every value inside it.\<close>

fun json_all :: "(json \<Rightarrow> bool) \<Rightarrow> json \<Rightarrow> bool" where
  "json_all P (JArr vs) = (P (JArr vs) \<and> list_all (json_all P) vs)"
| "json_all P (JObj ms) = (P (JObj ms) \<and> list_all (\<lambda>(k, v). json_all P v) ms)"
| "json_all P v = P v"

definition num_ok :: "json \<Rightarrow> bool" where
  "num_ok v = (case v of JNum n \<Rightarrow> number_literal n | _ \<Rightarrow> True)"

definition keys_ok :: "json \<Rightarrow> bool" where
  "keys_ok v = (case v of JObj ms \<Rightarrow> distinct (map fst ms) | _ \<Rightarrow> True)"

lemma num_ok_simps [simp]:
  "num_ok JNull" "num_ok (JBool b)" "num_ok (JStr s)" "num_ok (JArr vs)" "num_ok (JObj ms)"
  "num_ok (JNum n) = number_literal n"
  by (simp_all add: num_ok_def)

lemma keys_ok_simps [simp]:
  "keys_ok JNull" "keys_ok (JBool b)" "keys_ok (JStr s)" "keys_ok (JArr vs)" "keys_ok (JNum n)"
  "keys_ok (JObj ms) = distinct (map fst ms)"
  by (simp_all add: keys_ok_def)

text \<open>A scanned part of a number is scanned again as itself in front of what can follow it.\<close>

definition no_digit :: "bytes \<Rightarrow> bool" where
  "no_digit u = (case u of [] \<Rightarrow> True | c # _ \<Rightarrow> \<not> is_digit c)"

lemma scan_digits_self:
  "scan_digits s = (ds, r) \<Longrightarrow> no_digit u \<Longrightarrow> scan_digits (ds @ u) = (ds, u)"
proof -
  assume "scan_digits s = (ds, r)" and u: "no_digit u"
  then have "\<forall>c \<in> set ds. is_digit c" by (auto simp: scan_digits_def dest: set_takeWhileD)
  moreover have "takeWhile is_digit u = []" "dropWhile is_digit u = u"
    using u by (auto simp: no_digit_def split: list.splits)
  ultimately show ?thesis by (simp add: scan_digits_def)
qed

lemma scan_int_self: "scan_int s = Some (i, r) \<Longrightarrow> no_digit u \<Longrightarrow> scan_int (i @ u) = Some (i, u)"
proof (cases s)
  case (Cons c cs)
  assume *: "scan_int s = Some (i, r)" and u: "no_digit u"
  show ?thesis
  proof (cases "c = CHR ''0''")
    case True
    with * Cons show ?thesis by (auto simp: scan_int_def)
  next
    case False
    with * Cons have "is_digit c" and sd: "scan_digits s = (i, r)" by (auto simp: scan_int_def split: if_splits)
    then obtain i' where "i = c # i'" using Cons by (auto simp: scan_digits_def)
    with scan_digits_self [OF sd u] False \<open>is_digit c\<close> show ?thesis by (simp add: scan_int_def)
  qed
qed (simp add: scan_int_def)

lemma scan_frac_self:
  "scan_frac s = Some (f, r) \<Longrightarrow> no_digit u \<Longrightarrow> (u \<noteq> [] \<Longrightarrow> hd u \<noteq> CHR ''.'') \<Longrightarrow>
   scan_frac (f @ u) = Some (f, u) \<and> (f = [] \<or> hd f = CHR ''.'')"
proof (cases s)
  case (Cons c cs)
  assume *: "scan_frac s = Some (f, r)" and u: "no_digit u" "u \<noteq> [] \<Longrightarrow> hd u \<noteq> CHR ''.''"
  show ?thesis
  proof (cases "c = CHR ''.''")
    case True
    with * Cons obtain ds where f: "f = c # ds" and sd: "scan_digits cs = (ds, r)" and "ds \<noteq> []"
      by (auto simp: scan_frac_def Let_def split: if_splits prod.splits)
    with scan_digits_self [OF sd u(1)] True show ?thesis by (simp add: scan_frac_def)
  next
    case False
    with * Cons have "f = []" by (simp add: scan_frac_def)
    with u show ?thesis by (cases u) (auto simp: scan_frac_def)
  qed
qed (auto simp: scan_frac_def split: list.splits)

lemma scan_exp_self:
  assumes "scan_exp s = Some (e, r)"
  shows "scan_exp e = Some (e, []) \<and> (e = [] \<or> hd e = CHR ''e'' \<or> hd e = CHR ''E'')"
proof (cases s)
  case (Cons c cs)
  show ?thesis
  proof (cases "c = CHR ''e'' \<or> c = CHR ''E''")
    case True
    obtain sg r1 where sg: "(case cs of g # r' \<Rightarrow> if g = CHR ''+'' \<or> g = CHR ''-'' then ([g], r') else ([], cs)
        | [] \<Rightarrow> ([], cs)) = (sg, r1)" by fastforce
    from assms True Cons sg obtain ds where e: "e = c # sg @ ds" and sd: "scan_digits r1 = (ds, r)" and "ds \<noteq> []"
      by (auto simp: scan_exp_def Let_def split: if_splits prod.splits)
    have "\<forall>x \<in> set ds. is_digit x" using sd by (auto simp: scan_digits_def dest: set_takeWhileD)
    then have "is_digit (hd ds)" using \<open>ds \<noteq> []\<close> by simp
    then have "(case sg @ ds of g # r' \<Rightarrow> if g = CHR ''+'' \<or> g = CHR ''-'' then ([g], r') else ([], sg @ ds)
        | [] \<Rightarrow> ([], sg @ ds)) = (sg, ds)"
      using sg \<open>ds \<noteq> []\<close> by (cases ds) (auto simp: is_digit_def split: list.splits if_splits)
    with scan_digits_self [OF sd, of "[]"] e True \<open>ds \<noteq> []\<close> show ?thesis
      by (simp add: scan_exp_def no_digit_def)
  next
    case False
    with assms Cons show ?thesis by (simp add: scan_exp_def)
  qed
qed (use assms in \<open>simp add: scan_exp_def\<close>)

lemma scan_number_literal:
  assumes "scan_number s = Some (t, r)"
  shows "number_literal t"
proof -
  obtain sg s1 where sg: "(case s of c # r \<Rightarrow> if c = CHR ''-'' then ([c], r) else ([], s) | [] \<Rightarrow> ([], s)) = (sg, s1)"
    by fastforce
  with assms obtain i f e s2 s3 where i: "scan_int s1 = Some (i, s2)" and f: "scan_frac s2 = Some (f, s3)"
    and e: "scan_exp s3 = Some (e, r)" and t: "t = sg @ i @ f @ e"
    by (auto simp: scan_number_def bind_eq_Some_conv)
  note e' = scan_exp_self [OF e]
  have f': "scan_frac (f @ e) = Some (f, e) \<and> (f = [] \<or> hd f = CHR ''.'')"
    by (rule scan_frac_self [OF f]) (use e' in \<open>auto simp: no_digit_def is_digit_def split: list.splits\<close>)
  have i': "scan_int (i @ f @ e) = Some (i, f @ e)"
    by (rule scan_int_self [OF i])
      (use e' f' in \<open>cases f; cases e; auto simp: no_digit_def is_digit_def\<close>)
  have "i \<noteq> [] \<and> hd i \<noteq> CHR ''-''"
    using i by (cases s1) (auto simp: scan_int_def scan_digits_def is_digit_def split: if_splits)
  then have "(case t of c # r \<Rightarrow> if c = CHR ''-'' then ([c], r) else ([], t) | [] \<Rightarrow> ([], t)) = (sg, i @ f @ e)"
    using sg t by (cases i) (auto split: list.splits if_splits)
  with i' f' e' have "scan_number t = Some (sg @ i @ f @ e, [])" by (simp add: scan_number_def)
  with t show ?thesis by (simp add: number_literal_def)
qed

lemma foldr_max_le: "foldr max xs (0 :: nat) \<le> m \<longleftrightarrow> (\<forall>x \<in> set xs. x \<le> m)"
  by (induction xs) auto

lemma parse_value_ok_all:
  "(\<forall>d s v r. pvalue n d s = Some (v, r) \<longrightarrow> d \<le> max_nesting \<longrightarrow> json_all num_ok v \<and> d + jdepth v \<le> max_nesting) \<and>
   (\<forall>d s vs r. pelems n d s = Some (vs, r) \<longrightarrow> d \<le> max_nesting \<longrightarrow>
      (\<forall>v \<in> set vs. json_all num_ok v \<and> d + jdepth v \<le> max_nesting)) \<and>
   (\<forall>d s ms r. pmembers n d s = Some (ms, r) \<longrightarrow> d \<le> max_nesting \<longrightarrow>
      (\<forall>(k, v) \<in> set ms. json_all num_ok v \<and> d + jdepth v \<le> max_nesting))"
proof (induction n)
  case (Suc n)
  then have V: "\<And>d s v r. pvalue n d s = Some (v, r) \<Longrightarrow> d \<le> max_nesting \<Longrightarrow> json_all num_ok v \<and> d + jdepth v \<le> max_nesting"
    and E: "\<And>d s vs r v. pelems n d s = Some (vs, r) \<Longrightarrow> d \<le> max_nesting \<Longrightarrow> v \<in> set vs \<Longrightarrow>
      json_all num_ok v \<and> d + jdepth v \<le> max_nesting"
    and M: "\<And>d s ms r k v. pmembers n d s = Some (ms, r) \<Longrightarrow> d \<le> max_nesting \<Longrightarrow> (k, v) \<in> set ms \<Longrightarrow>
      json_all num_ok v \<and> d + jdepth v \<le> max_nesting"
    by blast+
  have arr: "json_all num_ok (JArr vs) \<and> d + jdepth (JArr vs) \<le> max_nesting"
    if "pelems n (Suc d) s = Some (vs, r)" and "\<not> max_nesting \<le> d" for d s vs r
    using E [OF that(1)] that(2) foldr_max_le [of "map jdepth vs" "max_nesting - Suc d"]
    by (fastforce simp: list_all_iff)
  have obj: "json_all num_ok (JObj ms) \<and> d + jdepth (JObj ms) \<le> max_nesting"
    if "pmembers n (Suc d) s = Some (ms, r)" and "\<not> max_nesting \<le> d" for d s ms r
    using M [OF that(1)] that(2) foldr_max_le [of "map (\<lambda>(k, v). jdepth v) ms" "max_nesting - Suc d"]
    by (fastforce simp: list_all_iff)
  have "json_all num_ok v \<and> d + jdepth v \<le> max_nesting"
    if "pvalue (Suc n) d s = Some (v, r)" and "d \<le> max_nesting" for d s v r
    using that
    by (auto simp del: json_all.simps(1,2) jdepth.simps(1,2) simp: scan_word_def scan_number_literal
        json_all.simps(1) [of _ "[]"] json_all.simps(2) [of _ "[]"]
        jdepth.simps(1) [of "[]"] jdepth.simps(2) [of "[]"]
        split: list.splits if_splits dest: arr obj)
  moreover have "\<forall>v \<in> set vs. json_all num_ok v \<and> d + jdepth v \<le> max_nesting"
    if "pelems (Suc n) d s = Some (vs, r)" and "d \<le> max_nesting" for d s vs r
    using that by (auto split: list.splits if_splits option.splits) (use V E in blast)+
  moreover have "\<forall>(k, v) \<in> set ms. json_all num_ok v \<and> d + jdepth v \<le> max_nesting"
    if "pmembers (Suc n) d s = Some (ms, r)" and "d \<le> max_nesting" for d s ms r
    using that by (auto split: list.splits if_splits option.splits) (use V M in blast)+
  ultimately show ?case by blast
qed simp

lemma parse_json_ok: "parse_json s = Some (v, r) \<Longrightarrow> json_all num_ok v \<and> jdepth v \<le> max_nesting"
  using parse_value_ok_all [THEN conjunct1, rule_format, of "Suc (2 * length s)" 0 s v r]
  by (simp add: parse_json_def)

locale json_codec = json_strings wr
  for wr :: "bytes \<Rightarrow> bytes" +
  fixes wstr :: "bytes \<Rightarrow> ('e, bytes) result"
    and wnum :: "bytes \<Rightarrow> ('e, bytes) result"
  assumes wstr_form: "wstr s = Inr t \<Longrightarrow> t = CHR 0x22 # concat (map wr (runes s)) @ [CHR 0x22]"
    and wnum_form: "wnum s = Inr t \<Longrightarrow> t = s \<and> number_literal s"
begin

lemma wstr_read: "wstr s = Inr t \<Longrightarrow> \<exists>u. t = CHR 0x22 # u \<and> unquote (u @ rest) = Some (sanitize s, rest)"
  using unquote_literal [of s rest] by (auto dest: wstr_form)

lemma write_head:
  assumes "write_json wstr wnum v = Inr out"
  shows "\<exists>c u. out = c # u \<and> \<not> is_ws c \<and> c \<noteq> CHR '']''"
proof (cases v)
  case (JNum n)
  with assms have "number_literal out" using wnum_form [of n out] by simp
  then obtain c r where "out = c # r" "c = CHR ''-'' \<or> is_digit c" using number_literal_head by blast
  then show ?thesis by (auto simp: is_ws_def is_digit_def)
next
  case (JStr s)
  with assms show ?thesis using wstr_form [of s out] by simp
next
  case (JArr vs)
  with assms obtain u where "out = CHR ''['' # u" by (auto simp: bind_res_eq_Inr)
  then show ?thesis by simp
next
  case (JObj ms)
  with assms obtain u where "out = CHR ''{'' # u" by (auto simp: bind_res_eq_Inr)
  then show ?thesis by simp
next
  case (JBool b)
  with assms have "out = ''true'' \<or> out = ''false''" by (simp split: if_splits)
  then show ?thesis by (elim disjE) simp_all
next
  case JNull
  with assms have "out = ''null''" by simp
  then show ?thesis by simp
qed

lemma elems_read:
  assumes "list_all2 (\<lambda>v p. \<forall>rest. delim rest \<longrightarrow> ev_value d (p @ rest) (read_back v, rest)) vs ps"
    and "vs \<noteq> []"
  shows "ev_elems d (join (CHR '','') ps @ CHR '']'' # rest) (map read_back vs, rest)"
  using assms
proof (induction vs ps rule: list_all2_induct)
  case (Cons v vs p ps)
  have comma: "delim (CHR '','' # x)" and close: "delim (CHR '']'' # x)" for x
    by (simp_all add: delim_def is_digit_def)
  show ?case
  proof (cases ps)
    case Nil
    with Cons show ?thesis by (auto simp: close intro!: ev_elems_last)
  next
    case (Cons q qs)
    with Cons.IH Cons.hyps show ?thesis by (auto simp: comma list_all2_Cons2 intro!: ev_elems_step)
  qed
qed simp

lemma members_read:
  assumes "list_all2 (\<lambda>(k, v) p. \<exists>ks vs. wstr k = Inr ks \<and> p = ks @ CHR '':'' # vs \<and>
      (\<forall>rest. delim rest \<longrightarrow> ev_value d (vs @ rest) (read_back v, rest))) ms ps"
    and "ms \<noteq> []"
  shows "ev_members d (join (CHR '','') ps @ CHR ''}'' # rest)
    (map (\<lambda>(k, v). (sanitize k, read_back v)) ms, rest)"
  using assms
proof (induction ms ps rule: list_all2_induct)
  case (Cons m ms p ps)
  obtain k v where m: "m = (k, v)" by fastforce
  from Cons.hyps(1) m obtain ks vs where ks: "wstr k = Inr ks" and p: "p = ks @ CHR '':'' # vs"
    and v: "\<And>rest. delim rest \<Longrightarrow> ev_value d (vs @ rest) (read_back v, rest)" by auto
  have comma: "delim (CHR '','' # x)" and close: "delim (CHR ''}'' # x)" for x
    by (simp_all add: delim_def is_digit_def)
  obtain u where u: "ks = CHR 0x22 # u" "\<And>rest. unquote (u @ rest) = Some (sanitize k, rest)"
    using wstr_form [OF ks] unquote_literal [of k] by auto
  show ?case
  proof (cases ps)
    case Nil
    with Cons.hyps have "ms = []" by simp
    with Nil show ?thesis by (auto simp: m p u close intro!: ev_members_last v)
  next
    case (Cons q qs)
    with Cons.IH Cons.hyps(2) show ?thesis
      by (auto simp: m p u comma list_all2_Cons2 intro!: ev_members_step v)
  qed
qed simp

text \<open>The parser reads back every value a writer wrote, whatever stands behind it.\<close>

lemma write_parse:
  "write_json wstr wnum v = Inr out \<Longrightarrow> d + jdepth v \<le> max_nesting \<Longrightarrow> delim rest \<Longrightarrow>
   ev_value d (out @ rest) (read_back v, rest)"
proof (induction v arbitrary: out d rest rule: read_back.induct)
  case 1
  then show ?case by (auto intro!: ev_valueI [of 0] simp: scan_word_def has_prefix_def)
next
  case (2 b)
  then show ?case by (auto intro!: ev_valueI [of 0] simp: scan_word_def has_prefix_def)
next
  case (3 n)
  then show ?case by (auto dest!: wnum_form intro: ev_value_number)
next
  case (4 s)
  then show ?case using wstr_read [of s out rest] by (auto intro!: ev_valueI [of 0])
next
  case (5 vs)
  then obtain ps where ps: "list_all2 (\<lambda>v p. write_json wstr wnum v = Inr p) vs ps"
    and out: "out = CHR ''['' # join (CHR '','') ps @ [CHR '']'']"
    by (auto simp: bind_res_eq_Inr seq_res_Inr list_all2_map1)
  have d: "d < max_nesting" using "5.prems"(2) by simp
  show ?case
  proof (cases "vs = []")
    case True
    with ps out d show ?thesis by (simp add: ev_value_empty)
  next
    case False
    have "list_all2 (\<lambda>v p. \<forall>rest. delim rest \<longrightarrow> ev_value (Suc d) (p @ rest) (read_back v, rest)) vs ps"
    proof (rule list.rel_mono_strong [OF ps])
      fix v p assume "v \<in> set vs" and "write_json wstr wnum v = Inr p"
      then show "\<forall>rest. delim rest \<longrightarrow> ev_value (Suc d) (p @ rest) (read_back v, rest)"
        using "5.IH" "5.prems"(2) jdepth_elem [of v vs] by auto
    qed
    then have *: "ev_elems (Suc d) (join (CHR '','') ps @ CHR '']'' # rest) (map read_back vs, rest)"
      using False by (rule elems_read)
    obtain p ps' where p: "ps = p # ps'" and "write_json wstr wnum (hd vs) = Inr p"
      using ps False by (cases ps; cases vs) auto
    then obtain c u where "p = c # u" "\<not> is_ws c" "c \<noteq> CHR '']''" using write_head by blast
    then show ?thesis using ev_value_array [OF * d, of c] p out by (cases ps') auto
  qed
next
  case (6 ms)
  let ?ms = "sort_key fst ms"
  from "6.prems"(1) obtain ps where ps: "list_all2 (\<lambda>(k, v) p. \<exists>ks vs. wstr k = Inr ks \<and>
        write_json wstr wnum v = Inr vs \<and> ks @ CHR '':'' # vs = p) ?ms ps"
    and out: "out = CHR ''{'' # join (CHR '','') ps @ [CHR ''}'']"
    by (auto simp: bind_res_eq_Inr seq_res_Inr list_all2_map1 case_prod_unfold)
  have d: "d < max_nesting" using "6.prems"(2) by simp
  show ?case
  proof (cases "ms = []")
    case True
    with ps out d show ?thesis by (simp add: ev_value_empty)
  next
    case False
    then have ne: "?ms \<noteq> []" by (metis length_0_conv length_sort)
    have "list_all2 (\<lambda>(k, v) p. \<exists>ks vs. wstr k = Inr ks \<and> p = ks @ CHR '':'' # vs \<and>
      (\<forall>rest. delim rest \<longrightarrow> ev_value (Suc d) (vs @ rest) (read_back v, rest))) ?ms ps"
    proof (rule list.rel_mono_strong [OF ps], clarify)
      fix k v ks vs assume kv: "(k, v) \<in> set ?ms" and "wstr k = Inr ks" and w: "write_json wstr wnum v = Inr vs"
      moreover have "Suc d + jdepth v \<le> max_nesting"
        using "6.prems"(2) jdepth_member [of k v ms] kv by simp
      ultimately show "\<exists>ks' vs'. wstr k = Inr ks' \<and> ks @ CHR '':'' # vs = ks' @ CHR '':'' # vs' \<and>
          (\<forall>rest. delim rest \<longrightarrow> ev_value (Suc d) (vs' @ rest) (read_back v, rest))"
        using "6.IH" [OF kv refl w] by blast
    qed
    then have *: "ev_members (Suc d) (join (CHR '','') ps @ CHR ''}'' # rest)
        (map (\<lambda>(k, v). (sanitize k, read_back v)) ?ms, rest)"
      using ne by (rule members_read)
    obtain k v ms' p ps' ks vs where "?ms = (k, v) # ms'" and p: "ps = p # ps'" and "wstr k = Inr ks" "p = ks @ CHR '':'' # vs"
      using ps ne by (cases ps; cases ?ms) auto
    moreover from this have "ks = CHR 0x22 # concat (map wr (runes k)) @ [CHR 0x22]" using wstr_form by blast
    ultimately have "\<exists>u. join (CHR '','') ps = CHR 0x22 # u" by (cases ps') auto
    then show ?thesis using ev_value_object [OF * d, of "CHR 0x22"] out by auto
  qed
qed

corollary write_parse_json:
  "write_json wstr wnum v = Inr out \<Longrightarrow> jdepth v \<le> max_nesting \<Longrightarrow> delim rest \<Longrightarrow>
   parse_json (out @ rest) = Some (read_back v, rest)"
  by (rule parse_json_ev) (rule write_parse, simp_all)

end

section \<open>json.Marshal\<close>

text \<open>One rune inside a literal written by \<open>encoding/json\<close> with its default HTML escaping: the
  structural characters and control characters, \<open><\<close>, \<open>>\<close>, \<open>&\<close>, U+2028 and U+2029 are escaped, an
  invalid byte is written as an escaped U+FFFD.\<close>

definition short_escapes :: "(char \<times> bytes) list" where
  "short_escapes = [(CHR 0x22, [CHR 0x5C, CHR 0x22]), (CHR 0x5C, [CHR 0x5C, CHR 0x5C]),
     (CHR 0x0A, [CHR 0x5C, CHR ''n'']), (CHR 0x0D, [CHR 0x5C, CHR ''r'']),
     (CHR 0x09, [CHR 0x5C, CHR ''t'']), (CHR 0x08, [CHR 0x5C, CHR ''b'']),
     (CHR 0x0C, [CHR 0x5C, CHR ''f''])]"

definition marshal_rune :: "bytes \<Rightarrow> bytes" where
  "marshal_rune r = (case r of
      [c] \<Rightarrow> (case map_of short_escapes c of Some e \<Rightarrow> e
             | None \<Rightarrow> if bv c < 32 \<or> c = CHR ''<'' \<or> c = CHR ''>'' \<or> c = CHR ''&'' then u_escape (bv c)
                       else if 128 \<le> bv c then u_escape rune_error else [c])
    | _ \<Rightarrow> if r = encode_rune 8232 then u_escape 8232
           else if r = encode_rune 8233 then u_escape 8233 else r)"

definition marshal_string :: "bytes \<Rightarrow> ('e, bytes) result" where
  "marshal_string s = Inr (CHR 0x22 # concat (map marshal_rune (runes s)) @ [CHR 0x22])"

datatype marshal_error = InvalidNumber bytes

definition marshal_number :: "bytes \<Rightarrow> (marshal_error, bytes) result" where
  "marshal_number n = (if number_literal n then Inr n else Inl (InvalidNumber n))"

text \<open>\<open>json.Marshal\<close> of a value held as \<open>map[string]any\<close>, \<open>[]any\<close>, \<open>string\<close>, \<open>bool\<close>, a number or nil.\<close>

definition json_marshal :: "json \<Rightarrow> (marshal_error, bytes) result" where
  "json_marshal = write_json marshal_string marshal_number"

lemma unquote_short_escape:
  "map_of short_escapes c = Some e \<Longrightarrow> unquote (e @ t) = prepend [c] (unquote t)"
  by (auto simp: short_escapes_def escape_step_def split: if_splits)

lemma short_escapes_None:
  "map_of short_escapes c = None \<Longrightarrow> c \<noteq> CHR 0x22 \<and> c \<noteq> CHR 0x5C"
  by (auto simp: short_escapes_def split: if_splits)

lemma short_escapes_low: "map_of short_escapes c = Some e \<Longrightarrow> bv c < 128"
  by (auto simp: short_escapes_def split: if_splits)

lemma short_escapes_high [simp]: "128 \<le> bv c \<Longrightarrow> map_of short_escapes c = None"
  using short_escapes_low [of c] by (cases "map_of short_escapes c") auto

lemma unquote_control:
  "bv c < 128 \<Longrightarrow> unquote (u_escape (bv c) @ t) = prepend [c] (unquote t)"
  using unquote_u_escape [of "bv c" t] by (simp add: is_surrogate_def encode_rune_ascii)

interpretation marshal: json_strings marshal_rune
proof
  fix r t assume "valid_rune r"
  then show "unquote (marshal_rune r @ t) = prepend r (unquote t)"
  proof (cases rule: valid_rune_cases)
    case (ascii c)
    show ?thesis
    proof (cases "map_of short_escapes c")
      case None
      then have "marshal_rune [c] = u_escape (bv c) \<or> marshal_rune [c] = [c] \<and> 32 \<le> bv c"
        using ascii by (simp add: marshal_rune_def)
      with ascii None show ?thesis
        using short_escapes_None [of c] unquote_control [of c t] unquote_ascii [of c t] by auto
    next
      case (Some e)
      with ascii show ?thesis by (simp add: marshal_rune_def unquote_short_escape)
    qed
  next
    case multi
    have "r \<noteq> [c]" for c
      using multi \<open>valid_rune r\<close> rune_width_high [of c "[]"] by (cases "r = [c]") (simp_all add: valid_rune_def)
    then obtain a b rs where r: "r = a # b # rs"
      using \<open>valid_rune r\<close> by (metis neq_Nil_conv valid_rune_def)
    have "marshal_rune r = (if r = encode_rune 8232 then u_escape 8232
        else if r = encode_rune 8233 then u_escape 8233 else r)"
      unfolding r by (simp add: marshal_rune_def)
    then show ?thesis
      using unquote_multibyte [OF \<open>valid_rune r\<close> multi, of t]
      by (simp add: unquote_u_escape is_surrogate_def)
  qed
next
  fix c t assume "128 \<le> bv c"
  then show "unquote (marshal_rune [c] @ t) = prepend (encode_rune rune_error) (unquote t)"
    by (auto simp: marshal_rune_def unquote_u_escape is_surrogate_def rune_error_def)
qed

interpretation marshal: json_codec marshal_rune marshal_string marshal_number
  by unfold_locales (auto simp: marshal_string_def marshal_number_def split: if_splits)

text \<open>What the agent re-encodes of a job's parameters is read as those parameters.\<close>

lemma json_marshal_parse:
  "json_marshal v = Inr out \<Longrightarrow> jdepth v \<le> max_nesting \<Longrightarrow> parse_json out = Some (read_back v, [])"
  using marshal.write_parse_json [of v out "[]"] by (simp add: json_marshal_def delim_def)

section \<open>Plain strings\<close>

text \<open>Printable ASCII that no JSON writer escapes.\<close>

definition plain_char :: "char \<Rightarrow> bool" where
  "plain_char c \<longleftrightarrow> 32 \<le> bv c \<and> bv c < 127 \<and>
     c \<noteq> CHR 0x22 \<and> c \<noteq> CHR 0x5C \<and> c \<noteq> CHR ''<'' \<and> c \<noteq> CHR ''>'' \<and> c \<noteq> CHR ''&''"

lemma plain_char_ascii: "plain_char c \<Longrightarrow> bv c < 128"
  by (simp add: plain_char_def)

lemma plain_ascii: "list_all plain_char s \<Longrightarrow> \<forall>c \<in> set s. bv c < 128"
  by (simp add: list_all_iff plain_char_ascii)

lemma runes_ascii: "\<forall>c \<in> set s. bv c < 128 \<Longrightarrow> runes s = map (\<lambda>c. [c]) s"
  by (induction s) (simp_all add: Let_def)

lemma plain_not_short: "plain_char c \<Longrightarrow> map_of short_escapes c = None"
  unfolding map_of_eq_None_iff
proof
  assume p: "plain_char c" and "c \<in> fst ` set short_escapes"
  then have "c \<in> {CHR 0x22, CHR 0x5C, CHR 0x0A, CHR 0x0D, CHR 0x09, CHR 0x08, CHR 0x0C}"
    by (simp add: short_escapes_def)
  with p show False unfolding plain_char_def by (elim insertE) simp_all
qed

lemma marshal_plain_rune: "plain_char c \<Longrightarrow> marshal_rune [c] = [c]"
  by (simp add: marshal_rune_def plain_not_short) (simp add: plain_char_def)

lemma marshal_plain:
  assumes "list_all plain_char s"
  shows "marshal_string s = Inr (CHR 0x22 # s @ [CHR 0x22])"
proof -
  have "map marshal_rune (runes s) = map (\<lambda>c. [c]) s"
    unfolding runes_ascii [OF plain_ascii [OF assms]]
    using assms by (simp add: list_all_iff marshal_plain_rune)
  moreover have "concat (map (\<lambda>c. [c]) s) = s" by (induction s) simp_all
  ultimately show ?thesis unfolding marshal_string_def by (simp only:)
qed

lemma sanitize_plain: "list_all plain_char s \<Longrightarrow> sanitize s = s"
  by (intro sanitize_valid utf8_valid_ascii plain_ascii)

lemma trim_space_nonempty:
  assumes "bv c < 128" and "\<not> is_space_rune [c]"
  shows "trim_space (c # s) \<noteq> []"
proof -
  have r: "runes (c # s) = [c] # runes s" using assms(1) by (simp add: Let_def)
  have d: "dropWhile is_space_rune ([c] # runes s) = [c] # runes s" using assms(2) by simp
  have "[c] \<in> set (dropWhile is_space_rune (xs @ [[c]]))" for xs
    using assms(2) by (induction xs) simp_all
  then have "[c] \<in> set (rev (dropWhile is_space_rune (rev ([c] # runes s))))" by simp
  then show ?thesis unfolding trim_space_def r d by (metis concat_eq_Nil_conv list.discI)
qed

end
