(* ===== verification/Canonical.thy ===== *)
theory Canonical
  imports JSON_Write
begin

text \<open>
  Package \<open>internal/canonical\<close>: the one encoding both sides of the protocol sign and digest.
  \<open>Normalize\<close> and \<open>Marshal\<close> are modelled with every error they return. The lemmas show that the
  form is a fixed point of its own normalisation and that it determines the value it encodes,
  which is what makes a signature over it a signature over the value.
\<close>

section \<open>The encoder\<close>

datatype canonical_error =
    ErrFloat bytes              \<comment> \<open>a number with a fraction or an exponent\<close>
  | ErrNotInteger bytes         \<comment> \<open>an integer outside \<open>int64\<close>\<close>
  | ErrInvalidUTF8
  | ErrSyntax                   \<comment> \<open>\<open>json.Decoder\<close> refused the input\<close>
  | ErrTrailing                 \<comment> \<open>data after the value\<close>
  | ErrMarshal marshal_error

definition writeNumber :: "bytes \<Rightarrow> (canonical_error, bytes) result" where
  "writeNumber n =
     (if list_ex (\<lambda>c. c \<in> {CHR ''.'', CHR ''e'', CHR ''E''}) n then Inl (ErrFloat n)
      else case parse_int64 n of None \<Rightarrow> Inl (ErrNotInteger n) | Some _ \<Rightarrow> Inr n)"

text \<open>One rune of the loop of \<open>writeString\<close>. An invalid byte is seen as U+FFFD by the loop; the
  validity check in front of it means that does not happen.\<close>

definition writeRune :: "bytes \<Rightarrow> bytes" where
  "writeRune r = (case r of
      [c] \<Rightarrow> (case map_of short_escapes c of Some e \<Rightarrow> e
             | None \<Rightarrow> if bv c < 32 then u_escape (bv c)
                       else if 128 \<le> bv c then encode_rune rune_error else [c])
    | _ \<Rightarrow> r)"

definition writeString :: "bytes \<Rightarrow> (canonical_error, bytes) result" where
  "writeString s =
     (if \<not> utf8_valid s then Inl ErrInvalidUTF8
      else Inr (CHR 0x22 # concat (map writeRune (runes s)) @ [CHR 0x22]))"

definition write_value :: "json \<Rightarrow> (canonical_error, bytes) result" where
  "write_value = write_json writeString writeNumber"

text \<open>Decoding into \<open>any\<close> with \<open>UseNumber\<close>: an object becomes a map, so that the last of several
  members with the same key stays. A map is an association list with distinct keys.\<close>

fun map_put :: "'k \<Rightarrow> 'v \<Rightarrow> ('k \<times> 'v) list \<Rightarrow> ('k \<times> 'v) list" where
  "map_put k v [] = [(k, v)]"
| "map_put k v ((k', v') # ms) = (if k' = k then (k, v) # ms else (k', v') # map_put k v ms)"

definition map_of_members :: "('k \<times> 'v) list \<Rightarrow> ('k \<times> 'v) list" where
  "map_of_members ms = foldl (\<lambda>acc (k, v). map_put k v acc) [] ms"

fun decode_any :: "json \<Rightarrow> json" where
  "decode_any (JArr vs) = JArr (map decode_any vs)"
| "decode_any (JObj ms) = JObj (map_of_members (map (\<lambda>(k, v). (k, decode_any v)) ms))"
| "decode_any v = v"

definition Normalize :: "bytes \<Rightarrow> (canonical_error, bytes) result" where
  "Normalize raw = (case parse_json raw of
      None \<Rightarrow> Inl ErrSyntax
    | Some (v, rest) \<Rightarrow> if dec_more rest then Inl ErrTrailing else write_value (decode_any v))"

text \<open>\<open>Marshal\<close> of a value built from \<open>map[string]any\<close>, slices, strings, integers and booleans.\<close>

definition Marshal :: "json \<Rightarrow> (canonical_error, bytes) result" where
  "Marshal v = (case json_marshal v of Inl e \<Rightarrow> Inl (ErrMarshal e) | Inr first \<Rightarrow> Normalize first)"

text \<open>The digests; the hash function and its hexadecimal text are the standard library's.\<close>

definition DigestPrefix :: bytes where "DigestPrefix = ''sha256:''"

definition DigestBytes :: "(bytes \<Rightarrow> bytes) \<Rightarrow> bytes \<Rightarrow> bytes" where
  "DigestBytes sha256_hex b = DigestPrefix @ sha256_hex b"

definition Digest :: "(bytes \<Rightarrow> bytes) \<Rightarrow> json \<Rightarrow> (canonical_error, bytes) result" where
  "Digest sha256_hex v = bind_res (Marshal v) (\<lambda>raw. Inr (DigestBytes sha256_hex raw))"

definition SaltedDigest :: "(bytes \<Rightarrow> bytes) \<Rightarrow> bytes \<Rightarrow> bytes \<Rightarrow> bytes" where
  "SaltedDigest sha256_hex salt value = DigestPrefix @ sha256_hex (salt @ value)"

section \<open>The encoder meets the contract of the JSON writers\<close>

text \<open>The numbers that reach \<open>writeNumber\<close> are JSON numbers, because a decoder produced them.\<close>

definition writeNumber' :: "bytes \<Rightarrow> (canonical_error, bytes) result" where
  "writeNumber' n = (if number_literal n then writeNumber n else Inl ErrSyntax)"

interpretation canon: json_strings writeRune
proof
  fix r t assume "valid_rune r"
  then show "unquote (writeRune r @ t) = prepend r (unquote t)"
  proof (cases rule: valid_rune_cases)
    case (ascii c)
    show ?thesis
    proof (cases "map_of short_escapes c")
      case None
      then have "writeRune [c] = u_escape (bv c) \<or> writeRune [c] = [c] \<and> 32 \<le> bv c"
        using ascii by (simp add: writeRune_def)
      with ascii None show ?thesis
        using short_escapes_None [of c] unquote_control [of c t] unquote_ascii [of c t] by auto
    next
      case (Some e)
      with ascii show ?thesis by (simp add: writeRune_def unquote_short_escape)
    qed
  next
    case multi
    have "r \<noteq> [c]" for c
      using multi \<open>valid_rune r\<close> rune_width_high [of c "[]"] by (cases "r = [c]") (simp_all add: valid_rune_def)
    then obtain a b rs where r: "r = a # b # rs"
      using \<open>valid_rune r\<close> by (metis neq_Nil_conv valid_rune_def)
    have "writeRune r = r" unfolding r by (simp add: writeRune_def)
    then show ?thesis using unquote_multibyte [OF \<open>valid_rune r\<close> multi, of t] by simp
  qed
next
  fix c t assume c: "128 \<le> bv c"
  have "unquote (encode_rune rune_error @ t) = prepend (encode_rune rune_error) (unquote t)"
    by (rule unquote_multibyte)
      (simp_all add: valid_rune_def encode_rune_def rune_error_def rune_width.simps lead2_def lead3_def cont_byte_def)
  with c show "unquote (writeRune [c] @ t) = prepend (encode_rune rune_error) (unquote t)"
    by (simp add: writeRune_def)
qed

interpretation canon: json_codec writeRune writeString writeNumber'
  by unfold_locales
    (auto simp: writeString_def writeNumber'_def writeNumber_def split: if_splits option.splits)

lemma write_value_literals:
  "json_all num_ok v \<Longrightarrow> write_value v = write_json writeString writeNumber' v"
  unfolding write_value_def
proof (induction v rule: read_back.induct)
  case (3 n)
  then show ?case by (simp add: writeNumber'_def)
next
  case (5 vs)
  then have "map (write_json writeString writeNumber) vs = map (write_json writeString writeNumber') vs"
    by (simp add: list_all_iff)
  then show ?case by (simp only: write_json.simps)
next
  case (6 ms)
  have "write_json writeString writeNumber v = write_json writeString writeNumber' v"
    if "(k, v) \<in> set (sort_key fst ms)" for k v
    by (rule "6.IH" [OF that refl]) (use that "6.prems" in \<open>auto simp: list_all_iff\<close>)
  then have "map (\<lambda>(k, v). bind_res (writeString k) (\<lambda>ks. bind_res (write_json writeString writeNumber v)
        (\<lambda>vs. Inr (ks @ CHR '':'' # vs)))) (sort_key fst ms) =
      map (\<lambda>(k, v). bind_res (writeString k) (\<lambda>ks. bind_res (write_json writeString writeNumber' v)
        (\<lambda>vs. Inr (ks @ CHR '':'' # vs)))) (sort_key fst ms)"
    by (intro map_cong refl) (auto simp del: set_sort)
  then show ?case by (simp only: write_json.simps)
qed simp_all

section \<open>A value is read back from its canonical form\<close>

lemma write_value_parse:
  assumes "write_value v = Inr out" and "json_all num_ok v" and "jdepth v \<le> max_nesting"
  shows "parse_json out = Some (read_back v, [])"
  using canon.write_parse_json [of v out "[]"] assms by (simp add: write_value_literals delim_def)

lemma writeString_valid: "writeString s = Inr t \<Longrightarrow> sanitize s = s"
  by (auto simp: writeString_def sanitize_valid split: if_splits)

lemma sorted_key_map_id:
  "sort_key fst (sort_key fst ms) = sort_key fst ms"
  by (rule sort_key_id_if_sorted) (rule sorted_sort_key)

text \<open>Writing what was read back writes the same bytes.\<close>

lemma write_value_read_back: "write_value v = Inr out \<Longrightarrow> write_value (read_back v) = Inr out"
  unfolding write_value_def
proof (induction v arbitrary: out rule: read_back.induct)
  case (4 s)
  then show ?case by (simp add: writeString_valid)
next
  case (5 vs)
  then obtain ps where ps: "list_all2 (\<lambda>v p. write_json writeString writeNumber v = Inr p) vs ps"
    and out: "out = CHR ''['' # join (CHR '','') ps @ [CHR '']'']"
    by (auto simp: bind_res_eq_Inr seq_res_Inr list_all2_map1)
  have "list_all2 (\<lambda>v p. write_json writeString writeNumber (read_back v) = Inr p) vs ps"
    using ps by (rule list.rel_mono_strong) (use "5.IH" in blast)
  then show ?case by (auto simp: bind_res_eq_Inr seq_res_Inr list_all2_map1 out)
next
  case (6 ms)
  let ?ms = "sort_key fst ms"
  from "6.prems" obtain ps where ps: "list_all2 (\<lambda>(k, v) p. \<exists>ks vs. writeString k = Inr ks \<and>
        write_json writeString writeNumber v = Inr vs \<and> ks @ CHR '':'' # vs = p) ?ms ps"
    and out: "out = CHR ''{'' # join (CHR '','') ps @ [CHR ''}'']"
    by (auto simp: bind_res_eq_Inr seq_res_Inr list_all2_map1 case_prod_unfold)
  have keys: "sanitize k = k" if "(k, v) \<in> set ms" for k v
    using list_all2_elem [OF ps, of "(k, v)"] that by (auto dest: writeString_valid)
  have sorted: "sort_key fst (map (\<lambda>(k, v). (sanitize k, read_back v)) ?ms) = map (\<lambda>(k, v). (k, read_back v)) ?ms"
    (is "sort_key fst ?l = ?r")
  proof -
    have eq: "?l = ?r" by (rule map_cong) (auto dest: keys)
    have "map fst ?r = map fst ?ms" by (simp add: case_prod_unfold comp_def)
    then have "sorted (map fst ?r)" by (simp only: sorted_sort_key)
    then show ?thesis unfolding eq by (rule sort_key_id_if_sorted)
  qed
  have "list_all2 (\<lambda>(k, v) p. \<exists>ks vs. writeString k = Inr ks \<and>
        write_json writeString writeNumber (read_back v) = Inr vs \<and> ks @ CHR '':'' # vs = p) ?ms ps"
    using ps by (rule list.rel_mono_strong) (use "6.IH" in fastforce)
  then show ?case
    unfolding read_back.simps write_json.simps sorted
    by (auto simp: bind_res_eq_Inr seq_res_Inr list_all2_map1 case_prod_unfold out)
qed simp_all


section \<open>Decoding into maps\<close>

lemma map_put_keys: "set (map fst (map_put k v ms)) = insert k (set (map fst ms))"
  by (induction k v ms rule: map_put.induct) (simp_all add: insert_commute)

lemma map_put_distinct: "distinct (map fst ms) \<Longrightarrow> distinct (map fst (map_put k v ms))"
proof (induction ms)
  case (Cons m ms)
  then show ?case
    using map_put_keys [of k v ms] by (cases m) (auto simp flip: set_map)
qed simp

lemma map_put_set: "set (map_put k v ms) \<subseteq> insert (k, v) (set ms)"
  by (induction k v ms rule: map_put.induct) (auto split: if_splits)

lemma map_put_new: "k \<notin> set (map fst ms) \<Longrightarrow> map_put k v ms = ms @ [(k, v)]"
  by (induction ms) auto

lemma map_of_map_put: "map_of (map_put k v ms) = (map_of ms)(k \<mapsto> v)"
  by (induction ms) auto

lemma map_of_members_invariant:
  assumes "distinct (map fst acc)"
  shows "distinct (map fst (foldl (\<lambda>acc (k, v). map_put k v acc) acc ms)) \<and>
    set (foldl (\<lambda>acc (k, v). map_put k v acc) acc ms) \<subseteq> set acc \<union> set ms"
  using assms
proof (induction ms arbitrary: acc)
  case (Cons m ms)
  obtain k v where m: "m = (k, v)" by (cases m)
  show ?case
    using Cons.IH [of "map_put k v acc"] map_put_distinct [OF Cons.prems, of k v] map_put_set [of k v acc]
    by (auto simp: m)
qed simp

lemma map_of_members_distinct [simp]: "distinct (map fst (map_of_members ms))"
  and map_of_members_set: "set (map_of_members ms) \<subseteq> set ms"
  using map_of_members_invariant [of "[]" ms] by (simp_all add: map_of_members_def)

lemma map_of_members_id: "distinct (map fst ms) \<Longrightarrow> map_of_members ms = ms"
proof -
  have "foldl (\<lambda>acc (k, v). map_put k v acc) acc ms = acc @ ms"
    if "distinct (map fst (acc @ ms))" for acc using that
  proof (induction ms arbitrary: acc)
    case (Cons m ms)
    then show ?case by (cases m) (auto simp: map_put_new)
  qed simp
  from this [of "[]"] show "distinct (map fst ms) \<Longrightarrow> ?thesis" by (simp add: map_of_members_def)
qed

text \<open>The last member of a key is the one that stays.\<close>

lemma map_of_members_last: "map_of (map_of_members ms) = map_of (rev ms)"
proof -
  have "map_of (foldl (\<lambda>acc (k, v). map_put k v acc) acc ms) = map_of acc ++ map_of (rev ms)" for acc
    by (induction ms arbitrary: acc) (auto simp: map_of_map_put)
  from this [of "[]"] show ?thesis by (simp add: map_of_members_def)
qed

lemma decode_any_ok:
  "json_all num_ok v \<Longrightarrow> json_all num_ok (decode_any v) \<and> json_all keys_ok (decode_any v) \<and>
   jdepth (decode_any v) \<le> jdepth v"
proof (induction v rule: decode_any.induct)
  case (1 vs)
  have "jdepth (decode_any v) \<le> foldr max (map jdepth vs) 0" if "v \<in> set vs" for v
    using "1.IH" [OF that] "1.prems" that foldr_max_ge [of "jdepth v" "map jdepth vs"]
    by (simp add: list_all_iff)
  with "1" show ?case by (simp add: list_all_iff foldr_max_le)
next
  case (2 ms)
  let ?ds = "map (\<lambda>(k, v). (k, decode_any v)) ms"
  have mem: "json_all num_ok (decode_any v) \<and> json_all keys_ok (decode_any v) \<and>
      jdepth (decode_any v) \<le> foldr max (map (\<lambda>(k, v). jdepth v) ms) 0" if "(k, v) \<in> set ms" for k v
    using "2.IH" [OF that refl] "2.prems" that foldr_max_ge [of "jdepth v" "map (\<lambda>(k, v). jdepth v) ms"]
    by (force simp: list_all_iff)
  have "\<forall>(k, w) \<in> set (map_of_members ?ds). json_all num_ok w \<and> json_all keys_ok w \<and>
      jdepth w \<le> foldr max (map (\<lambda>(k, v). jdepth v) ms) 0"
    using map_of_members_set [of ?ds] mem by fastforce
  then show ?case by (auto simp: list_all_iff foldr_max_le)
qed simp_all

lemma decode_any_id: "json_all keys_ok v \<Longrightarrow> decode_any v = v"
proof (induction v rule: decode_any.induct)
  case (1 vs)
  then show ?case by (simp add: list_all_iff map_idI)
next
  case (2 ms)
  have "map (\<lambda>(k, v). (k, decode_any v)) ms = ms"
    by (rule map_idI) (use "2" in \<open>auto simp: list_all_iff\<close>)
  with "2.prems" show ?case by (simp add: map_of_members_id)
qed simp_all

lemma read_back_keys_ok:
  "write_value v = Inr out \<Longrightarrow> json_all keys_ok v \<Longrightarrow> json_all keys_ok (read_back v)"
  unfolding write_value_def
proof (induction v arbitrary: out rule: read_back.induct)
  case (5 vs)
  from "5.prems"(1) obtain ps where "list_all2 (\<lambda>v p. write_json writeString writeNumber v = Inr p) vs ps"
    by (auto simp: bind_res_eq_Inr seq_res_Inr list_all2_map1)
  note w = list_all2_elem [OF this]
  with "5" show ?case by (fastforce simp: list_all_iff)
next
  case (6 ms)
  from "6.prems"(1) obtain ps where "list_all2 (\<lambda>(k, v) p. \<exists>ks vs. writeString k = Inr ks \<and>
        write_json writeString writeNumber v = Inr vs \<and> ks @ CHR '':'' # vs = p) (sort_key fst ms) ps"
    by (auto simp: bind_res_eq_Inr seq_res_Inr list_all2_map1 case_prod_unfold)
  note w = list_all2_elem [OF this]
  have ok: "sanitize k = k \<and> json_all keys_ok (read_back v)" if "(k, v) \<in> set ms" for k v
    using w [of "(k, v)"] "6.IH" [of "(k, v)" k v] "6.prems"(2) that
    by (auto simp: list_all_iff dest: writeString_valid)
  have "map fst (map (\<lambda>(k, v). (sanitize k, read_back v)) (sort_key fst ms)) = map fst (sort_key fst ms)"
    using ok by auto
  moreover have "distinct (map fst (sort_key fst ms))"
    using "6.prems"(2) by (simp add: distinct_map)
  ultimately have "distinct (map fst (map (\<lambda>(k, v). (sanitize k, read_back v)) (sort_key fst ms)))"
    by (simp only:)
  then show ?case
    unfolding read_back.simps json_all.simps keys_ok_simps using ok by (auto simp: list_all_iff)
qed simp_all

section \<open>The properties of the canonical form\<close>

text \<open>What \<open>Normalize\<close> does on each input, in terms of the decoded value.\<close>

lemma Normalize_Inr:
  "Normalize raw = Inr out \<longleftrightarrow>
   (\<exists>v rest. parse_json raw = Some (v, rest) \<and> \<not> dec_more rest \<and> write_value (decode_any v) = Inr out)"
  by (auto simp: Normalize_def split: option.splits)

text \<open>The decoded value of an accepted input, and how its canonical form reads back.\<close>

lemma Normalize_read_back:
  assumes "Normalize raw = Inr out"
  obtains v rest where "parse_json raw = Some (v, rest)" "write_value (decode_any v) = Inr out"
    "parse_json out = Some (read_back (decode_any v), [])"
    "json_all keys_ok (read_back (decode_any v))"
proof -
  obtain v rest where v: "parse_json raw = Some (v, rest)" and w: "write_value (decode_any v) = Inr out"
    using assms unfolding Normalize_Inr by blast
  from parse_json_ok [OF v] decode_any_ok [of v]
  have ok: "json_all num_ok (decode_any v)" "json_all keys_ok (decode_any v)"
    "jdepth (decode_any v) \<le> max_nesting" by auto
  from that [OF v w write_value_parse [OF w ok(1,3)] read_back_keys_ok [OF w ok(2)]]
  show thesis .
qed

text \<open>A canonical form is its own canonical form, so that normalising a payload on
  the operator's machine, the server and the agent gives one and the same byte string.\<close>

theorem Normalize_idempotent:
  assumes "Normalize raw = Inr out"
  shows "Normalize out = Inr out"
proof -
  from assms obtain v rest where w: "write_value (decode_any v) = Inr out"
    and p: "parse_json out = Some (read_back (decode_any v), [])"
    and k: "json_all keys_ok (read_back (decode_any v))"
    by (rule Normalize_read_back)
  have "write_value (decode_any (read_back (decode_any v))) = Inr out"
    unfolding decode_any_id [OF k] by (rule write_value_read_back [OF w])
  with p show ?thesis unfolding Normalize_Inr by (auto simp: dec_more_def skip_ws_def)
qed

theorem Normalize_idempotent_witness:
  "Normalize ''{\"b\":[2,-3],\"a\":{}}'' = Inr ''{\"a\":{},\"b\":[2,-3]}'' \<and>
   Normalize ''{\"a\":{},\"b\":[2,-3]}'' = Inr ''{\"a\":{},\"b\":[2,-3]}''"
proof -
  have "Normalize ''{\"b\":[2,-3],\"a\":{}}'' = Inr ''{\"a\":{},\"b\":[2,-3]}''" by code_simp
  from this Normalize_idempotent [OF this] show ?thesis by (rule conjI)
qed

text \<open>Property C32: two inputs with the same canonical form decode to the same value, up to the order
  of an object's keys: nothing but key order and layout is lost, so a digest of the form commits to
  the value.\<close>

theorem Normalize_determines_value:
  assumes "Normalize a = Inr out" and "Normalize b = Inr out"
  shows "\<exists>v w ra rb. parse_json a = Some (v, ra) \<and> parse_json b = Some (w, rb) \<and>
    read_back (decode_any v) = read_back (decode_any w)"
proof -
  from assms(1) obtain v ra where v: "parse_json a = Some (v, ra)"
    and p: "parse_json out = Some (read_back (decode_any v), [])" by (rule Normalize_read_back)
  from assms(2) obtain w rb where w: "parse_json b = Some (w, rb)"
    and q: "parse_json out = Some (read_back (decode_any w), [])" by (rule Normalize_read_back)
  from p q have "read_back (decode_any v) = read_back (decode_any w)" by simp
  with v w show ?thesis by blast
qed

theorem Normalize_determines_value_witness:
  "Normalize ''{\"b\": 1, \"a\":[]}'' = Inr ''{\"a\":[],\"b\":1}'' \<and>
   (\<exists>v w ra rb. parse_json ''{\"b\": 1, \"a\":[]}'' = Some (v, ra) \<and> parse_json ''{\"a\":[],\"b\":1}'' = Some (w, rb) \<and>
    read_back (decode_any v) = read_back (decode_any w))"
proof -
  have a: "Normalize ''{\"b\": 1, \"a\":[]}'' = Inr ''{\"a\":[],\"b\":1}''" by code_simp
  have b: "Normalize ''{\"a\":[],\"b\":1}'' = Inr ''{\"a\":[],\"b\":1}''" by code_simp
  from a Normalize_determines_value [OF a b] show ?thesis by (rule conjI)
qed

text \<open>\<open>Marshal\<close> is the encoder on the value \<open>json.Marshal\<close> was given, its strings made valid.\<close>

lemma Marshal_Inr:
  assumes "jdepth v \<le> max_nesting"
  shows "Marshal v = Inr out \<longleftrightarrow>
    (\<exists>first. json_marshal v = Inr first) \<and> write_value (decode_any (read_back v)) = Inr out"
proof (cases "json_marshal v")
  case (Inr first)
  then show ?thesis
    using json_marshal_parse [OF Inr assms]
    by (auto simp: Marshal_def Normalize_def dec_more_def skip_ws_def)
qed (simp add: Marshal_def)

text \<open>What a signature over \<open>Marshal v\<close> binds.\<close>

lemma Marshal_determines:
  assumes "Marshal v = Inr out" and "Marshal w = Inr out"
    and "jdepth v \<le> max_nesting" and "jdepth w \<le> max_nesting"
  shows "read_back (decode_any (read_back v)) = read_back (decode_any (read_back w))"
proof -
  have rb: "parse_json out = Some (read_back (decode_any (read_back u)), [])"
    if u: "Marshal u = Inr out" and d: "jdepth u \<le> max_nesting" for u
  proof -
    from u d obtain first where f: "json_marshal u = Inr first"
      and w: "write_value (decode_any (read_back u)) = Inr out"
      using Marshal_Inr [OF d, of out] by blast
    from parse_json_ok [OF json_marshal_parse [OF f d]] decode_any_ok [of "read_back u"]
    show ?thesis by (intro write_value_parse [OF w]) auto
  qed
  from rb [OF assms(1,3)] rb [OF assms(2,4)] show ?thesis by simp
qed

text \<open>The values the encoder accepts: integers of 64 bits, and strings and keys of valid UTF-8.\<close>

definition canonical_ok :: "json \<Rightarrow> bool" where
  "canonical_ok v = (case v of
      JNum n \<Rightarrow> parse_int64 n \<noteq> None \<and> \<not> list_ex (\<lambda>c. c \<in> {CHR ''.'', CHR ''e'', CHR ''E''}) n
    | JStr s \<Rightarrow> utf8_valid s
    | JObj ms \<Rightarrow> list_all (\<lambda>(k, _). utf8_valid k) ms
    | _ \<Rightarrow> True)"

lemma canonical_ok_simps [simp]:
  "canonical_ok JNull" "canonical_ok (JBool b)" "canonical_ok (JArr vs)"
  "canonical_ok (JStr s) = utf8_valid s"
  "canonical_ok (JObj ms) = (\<forall>(k, v) \<in> set ms. utf8_valid k)"
  by (auto simp: canonical_ok_def list_all_iff)

lemma writeString_Inr: "(\<exists>t. writeString s = Inr t) \<longleftrightarrow> utf8_valid s"
  by (simp add: writeString_def)

lemma writeNumber_Inr: "(\<exists>t. writeNumber n = Inr t) \<longleftrightarrow> canonical_ok (JNum n)"
  by (auto simp: writeNumber_def canonical_ok_def split: option.splits)

lemma seq_res_ex: "(\<exists>as. seq_res rs = Inr as) \<longleftrightarrow> (\<forall>r \<in> set rs. \<exists>a. r = Inr a)"
  by (induction rs) (auto simp: bind_res_eq_Inr)

text \<open>The encoder answers for a value exactly when every number in it is an integer of 64
  bits written without fraction and exponent and every string and key is valid UTF-8; for any
  other value it returns an error and no bytes.\<close>

theorem write_value_total: "(\<exists>out. write_value v = Inr out) \<longleftrightarrow> json_all canonical_ok v"
  unfolding write_value_def
proof (induction v rule: read_back.induct)
  case (3 n)
  show ?case using writeNumber_Inr [of n] by simp
next
  case (4 s)
  show ?case using writeString_Inr [of s] by simp
next
  case (5 vs)
  have "(\<exists>out. write_json writeString writeNumber (JArr vs) = Inr out) \<longleftrightarrow>
      (\<exists>ps. seq_res (map (write_json writeString writeNumber) vs) = Inr ps)"
    by (auto simp: bind_res_eq_Inr)
  also have "\<dots> \<longleftrightarrow> (\<forall>v \<in> set vs. \<exists>p. write_json writeString writeNumber v = Inr p)"
    by (simp add: seq_res_ex)
  finally show ?case using "5.IH" by (simp add: list_all_iff)
next
  case (6 ms)
  have IH: "(\<exists>p. write_json writeString writeNumber (snd m) = Inr p) \<longleftrightarrow> json_all canonical_ok (snd m)"
    if "m \<in> set ms" for m
    by (rule "6.IH" [of m "fst m"]) (use that in simp_all)
  let ?w = "\<lambda>(k, v). bind_res (writeString k) (\<lambda>ks. bind_res (write_json writeString writeNumber v)
     (\<lambda>vs. Inr (ks @ CHR '':'' # vs)))"
  have "(\<exists>out. write_json writeString writeNumber (JObj ms) = Inr out) \<longleftrightarrow>
      (\<exists>ps. seq_res (map ?w (sort_key fst ms)) = Inr ps)"
    by (auto simp: bind_res_eq_Inr)
  also have "\<dots> \<longleftrightarrow> (\<forall>(k, v) \<in> set ms. (\<exists>t. writeString k = Inr t) \<and>
      (\<exists>p. write_json writeString writeNumber v = Inr p))"
    by (simp add: seq_res_ex case_prod_unfold bind_res_eq_Inr) blast
  also have "\<dots> \<longleftrightarrow> (\<forall>(k, v) \<in> set ms. utf8_valid k \<and> json_all canonical_ok v)"
    using IH by (auto simp: writeString_Inr case_prod_unfold)
  finally show ?case by (auto simp: list_all_iff)
qed simp_all

end
