(* ===== verification/Base64.thy ===== *)
theory Base64
  imports HS_Prelude
begin

text \<open>
  Go's \<open>encoding/base64\<close> as the sources use it: \<open>StdEncoding\<close>, with padding and not strict. The decoder
  skips carriage returns and line feeds wherever they stand and does not look at the bits behind
  the last byte, so that a byte string has more than one accepted spelling; the encoder writes one
  of them.
\<close>

section \<open>The alphabet\<close>

definition b64_char :: "nat \<Rightarrow> char" where
  "b64_char v = char_of
     (if v < 26 then v + 65 else if v < 52 then v + 71 else if v < 62 then v - 4
      else if v = 62 then 43 else 47)"

definition b64_val :: "char \<Rightarrow> nat option" where
  "b64_val c = (let n = bv c in
     if 65 \<le> n \<and> n \<le> 90 then Some (n - 65) else if 97 \<le> n \<and> n \<le> 122 then Some (n - 71)
     else if 48 \<le> n \<and> n \<le> 57 then Some (n + 4) else if n = 43 then Some 62
     else if n = 47 then Some 63 else None)"

definition pad :: char where [go_defs]: "pad = CHR ''=''"

lemma b64_val_char: "v < 64 \<Longrightarrow> b64_val (b64_char v) = Some v"
  by (auto simp: b64_val_def b64_char_def Let_def of_char_of)

lemma b64_val_pad [simp]: "b64_val pad = None"
  by (simp add: b64_val_def pad_def Let_def)

lemma b64_val_less: "b64_val c = Some v \<Longrightarrow> v < 64"
  by (auto simp: b64_val_def Let_def split: if_splits)

section \<open>Encoding and decoding\<close>

text \<open>Three bytes as four digits, and back; the last group is padded.\<close>

fun b64_encode :: "bytes \<Rightarrow> bytes" where
  "b64_encode [] = []"
| "b64_encode [a] = [b64_char (bv a div 4), b64_char (bv a mod 4 * 16), pad, pad]"
| "b64_encode [a, b] =
     [b64_char (bv a div 4), b64_char (bv a mod 4 * 16 + bv b div 16), b64_char (bv b mod 16 * 4), pad]"
| "b64_encode (a # b # c # rest) =
     b64_char (bv a div 4) # b64_char (bv a mod 4 * 16 + bv b div 16) #
     b64_char (bv b mod 16 * 4 + bv c div 64) # b64_char (bv c mod 64) # b64_encode rest"

definition byte1 :: "nat \<Rightarrow> nat \<Rightarrow> char" where "byte1 v w = char_of (v * 4 + w div 16)"
definition byte2 :: "nat \<Rightarrow> nat \<Rightarrow> char" where "byte2 v w = char_of (v mod 16 * 16 + w div 4)"
definition byte3 :: "nat \<Rightarrow> nat \<Rightarrow> char" where "byte3 v w = char_of (v mod 4 * 64 + w)"

fun b64_quanta :: "bytes \<Rightarrow> bytes option" where
  "b64_quanta [] = Some []"
| "b64_quanta (a # b # c # d # rest) =
     (case (b64_val a, b64_val b) of
        (Some v, Some w) \<Rightarrow>
          (if c = pad then (if d = pad \<and> rest = [] then Some [byte1 v w] else None)
           else case b64_val c of
             None \<Rightarrow> None
           | Some x \<Rightarrow>
               (if d = pad then (if rest = [] then Some [byte1 v w, byte2 w x] else None)
                else case b64_val d of
                  None \<Rightarrow> None
                | Some y \<Rightarrow> map_option (\<lambda>out. byte1 v w # byte2 w x # byte3 x y # out) (b64_quanta rest)))
      | _ \<Rightarrow> None)"
| "b64_quanta _ = None"

definition b64_newline :: "char \<Rightarrow> bool" where
  "b64_newline c \<longleftrightarrow> c = CHR 0x0A \<or> c = CHR 0x0D"

definition base64_decode :: "bytes \<Rightarrow> bytes option" where
  "base64_decode s = b64_quanta (filter (\<lambda>c. \<not> b64_newline c) s)"

section \<open>The round trip\<close>

lemma bv_less [simp]: "bv c < 256"
  using of_char_mod_256 [of c, where ?'a = nat] by (metis mod_less_divisor zero_less_numeral)

lemma bv_div: "bv b div 16 < 16" "bv c div 64 < 4"
  using bv_less [of b] bv_less [of c] by linarith+

lemma b64_char_ne:
  assumes "v < 64"
  shows "b64_char v \<noteq> pad" "\<not> b64_newline (b64_char v)"
  using b64_val_char [OF assms] by (auto simp: b64_newline_def b64_val_def pad_def Let_def)

lemma digits_bounds:
  "bv a div 4 < 64" "bv a mod 4 * 16 < 64" "bv a mod 4 * 16 + bv b div 16 < 64"
  "bv b mod 16 * 4 < 64" "bv b mod 16 * 4 + bv c div 64 < 64" "bv c mod 64 < 64"
  using bv_less [of a] bv_less [of b] bv_less [of c] by linarith+

lemma byte1_join: "w < 16 \<Longrightarrow> byte1 (bv a div 4) (bv a mod 4 * 16 + w) = a"
  by (simp add: byte1_def)

lemma byte2_join: "w < 4 \<Longrightarrow> byte2 (v * 16 + bv b div 16) (bv b mod 16 * 4 + w) = b"
proof -
  assume "w < 4"
  then have "(v * 16 + bv b div 16) mod 16 * 16 + (bv b mod 16 * 4 + w) div 4 = bv b"
    using bv_div(1) [of b] by simp
  then show ?thesis by (simp add: byte2_def)
qed

lemma byte3_join: "byte3 (v * 4 + bv c div 64) (bv c mod 64) = c"
proof -
  have "(v * 4 + bv c div 64) mod 4 * 64 + bv c mod 64 = bv c" using bv_div(2) [of c] by simp
  then show ?thesis by (simp add: byte3_def)
qed

lemmas b64_simps = b64_val_char b64_char_ne digits_bounds byte1_join byte2_join byte3_join

lemma b64_quanta_encode: "b64_quanta (b64_encode s) = Some s"
proof (induction s rule: b64_encode.induct)
  case (2 a)
  show ?case using byte1_join [of 0 a] by (simp add: b64_simps)
next
  case (3 a b)
  show ?case using byte1_join [of "bv b div 16" a] byte2_join [of 0 "bv a mod 4" b] by (simp add: b64_simps bv_div)
next
  case (4 a b c rest)
  then show ?case
    using byte1_join [of "bv b div 16" a] byte2_join [of "bv c div 64" "bv a mod 4" b]
      byte3_join [of "bv b mod 16" c] by (simp add: b64_simps bv_div)
qed simp

lemma pad_no_newline [simp]: "\<not> b64_newline pad"
  by (simp add: b64_newline_def pad_def)

lemma b64_encode_no_newline: "filter (\<lambda>c. \<not> b64_newline c) (b64_encode s) = b64_encode s"
  by (induction s rule: b64_encode.induct) (simp_all add: b64_simps)

lemma base64_roundtrip: "base64_decode (b64_encode s) = Some s"
  by (simp add: base64_decode_def b64_encode_no_newline b64_quanta_encode)

lemma base64_decode_newline: "base64_decode (c # s) = base64_decode s" if "b64_newline c"
  using that by (simp add: base64_decode_def)

end
