(* ===== verification/Signing.thy ===== *)
theory Signing
  imports Canonical Base64
begin

text \<open>
  Package \<open>internal/signing\<close>: public keys, the trusted-signers file and verification against a set of
  keys. The primitives (Ed25519, ECDSA, SHA-256) and the decoders of key encodings are arguments,
  bundled in the record \<open>crypto\<close>; what the package does around them is modelled.
\<close>

section \<open>Keys\<close>

type_synonym algorithm = bytes

definition Ed25519 :: algorithm where [go_defs]: "Ed25519 = ''ed25519''"
definition ECDSAP256 :: algorithm where [go_defs]: "ECDSAP256 = ''ecdsa-p256''"

definition alg_Valid :: "algorithm \<Rightarrow> bool" where
  "alg_Valid a \<longleftrightarrow> a = Ed25519 \<or> a = ECDSAP256"

text \<open>A \<open>crypto.PublicKey\<close> by its dynamic type; an ECDSA key names its curve.\<close>

datatype crypto_key = EdKey bytes | EcKey bytes bytes | OtherKey bytes

record crypto =
  ed25519_verify :: "bytes \<Rightarrow> bytes \<Rightarrow> bytes \<Rightarrow> bool"
  ecdsa_verify :: "bytes \<Rightarrow> bytes \<Rightarrow> bytes \<Rightarrow> bytes \<Rightarrow> bool"
  sha256 :: "bytes \<Rightarrow> bytes"
  ssh_parse :: "bytes \<Rightarrow> crypto_key option"
  pkix_parse :: "bytes \<Rightarrow> crypto_key option"

record public_key =
  Algorithm :: algorithm
  KeyID :: bytes
  Backend :: bytes
  Key :: crypto_key
  Encoded :: bytes

definition key_Verify :: "crypto \<Rightarrow> public_key \<Rightarrow> bytes \<Rightarrow> bytes \<Rightarrow> bool" where
  "key_Verify cr k payload sig = (case Key k of
      EdKey raw \<Rightarrow> ed25519_verify cr raw payload sig
    | EcKey curve pt \<Rightarrow> ecdsa_verify cr curve pt (sha256 cr payload) sig
    | OtherKey _ \<Rightarrow> False)"

datatype signing_error =
    ErrUnknownAlgorithm algorithm | NotBase64 | KeyMismatch algorithm | WrongCurve algorithm bytes | KeyForm algorithm
  | TooFewFields nat nat | TooManyFields nat | DuplicateKeyID nat bytes nat | LineError nat signing_error
  | ReadFailed | ErrNoTrustedSigners | ErrNoTrustedSigner nat

definition matchAlgorithm :: "algorithm \<Rightarrow> crypto_key \<Rightarrow> (signing_error, crypto_key) result" where
  "matchAlgorithm alg key =
     (if alg = Ed25519 then (case key of EdKey raw \<Rightarrow> Inr (EdKey raw) | _ \<Rightarrow> Inl (KeyMismatch alg))
      else if alg = ECDSAP256 then
        (case key of
           EcKey curve pt \<Rightarrow> if curve \<noteq> ''P-256'' then Inl (WrongCurve alg curve) else Inr (EcKey curve pt)
         | _ \<Rightarrow> Inl (KeyMismatch alg))
      else Inl (ErrUnknownAlgorithm alg))"

definition ParsePublicKey :: "crypto \<Rightarrow> algorithm \<Rightarrow> bytes \<Rightarrow> (signing_error, crypto_key) result" where
  "ParsePublicKey cr alg encoded =
     (if \<not> alg_Valid alg then Inl (ErrUnknownAlgorithm alg)
      else case base64_decode encoded of
        None \<Rightarrow> Inl NotBase64
      | Some raw \<Rightarrow>
          (case ssh_parse cr raw of
             Some key \<Rightarrow> matchAlgorithm alg key
           | None \<Rightarrow>
               (case pkix_parse cr raw of
                  Some key \<Rightarrow> matchAlgorithm alg key
                | None \<Rightarrow>
                    if alg = Ed25519 \<and> length raw = 32 then Inr (EdKey raw) else Inl (KeyForm alg))))"

section \<open>The trusted-signers file\<close>

text \<open>\<open>bufio.ScanLines\<close>: lines without their end, the last one only when it is not empty.\<close>

definition drop_cr :: "bytes \<Rightarrow> bytes" where
  "drop_cr l = (if l \<noteq> [] \<and> last l = CHR 0x0D then butlast l else l)"

definition scan_lines :: "bytes \<Rightarrow> bytes list" where
  "scan_lines s = (let ls = split_on (CHR 0x0A) s in if last ls = [] then butlast ls else ls)"

definition max_line :: nat where [go_defs]: "max_line = 1048576"

text \<open>One line: nothing for a blank or comment line, else its entry.\<close>

definition parse_signer :: "crypto \<Rightarrow> nat \<Rightarrow> bytes \<Rightarrow> (signing_error, public_key option) result" where
  "parse_signer cr line raw =
     (let t = trim_space (drop_cr raw) in
      if t = [] \<or> has_prefix t ''#'' then Inr None
      else let fs = str_fields t in
        if length fs < 3 then Inl (TooFewFields line (length fs))
        else if 4 < length fs then Inl (TooManyFields line)
        else case ParsePublicKey cr (fs ! 0) (fs ! 1) of
          Inl e \<Rightarrow> Inl (LineError line e)
        | Inr key \<Rightarrow> Inr (Some \<lparr>Algorithm = fs ! 0, KeyID = fs ! 2,
            Backend = (if length fs = 4 then fs ! 3 else []), Key = key, Encoded = fs ! 1\<rparr>))"

fun parse_signer_lines ::
  "crypto \<Rightarrow> nat \<Rightarrow> (bytes \<times> nat) list \<Rightarrow> public_key list \<Rightarrow> bytes list \<Rightarrow> (signing_error, public_key list) result" where
  "parse_signer_lines cr line seen keys [] = Inr keys"
| "parse_signer_lines cr line seen keys (l # ls) =
     (if max_line \<le> length l then Inl ReadFailed
      else case parse_signer cr line l of
        Inl e \<Rightarrow> Inl e
      | Inr None \<Rightarrow> parse_signer_lines cr (Suc line) seen keys ls
      | Inr (Some k) \<Rightarrow>
          (case map_of seen (KeyID k) of
             Some first \<Rightarrow> Inl (DuplicateKeyID line (KeyID k) first)
           | None \<Rightarrow> parse_signer_lines cr (Suc line) ((KeyID k, line) # seen) (keys @ [k]) ls))"

record signer_set =
  keys :: "public_key list"
  set_source :: bytes

definition ParseSigners :: "crypto \<Rightarrow> bytes \<Rightarrow> bytes \<Rightarrow> (signing_error, signer_set) result" where
  "ParseSigners cr contents src =
     bind_res (parse_signer_lines cr 1 [] [] (scan_lines contents)) (\<lambda>ks. Inr \<lparr>keys = ks, set_source = src\<rparr>)"

text \<open>What opening the file gives; \<open>LoadSignersFrom\<close> answers a set also with an error.\<close>

datatype signers_file = SignersAbsent | SignersUnreadable | SignersText bytes

definition LoadSignersFrom :: "crypto \<Rightarrow> bytes \<Rightarrow> signers_file \<Rightarrow> signer_set option \<times> signing_error option" where
  "LoadSignersFrom cr path f = (case f of
      SignersAbsent \<Rightarrow> (Some \<lparr>keys = [], set_source = path @ '' (absent)''\<rparr>, None)
    | SignersUnreadable \<Rightarrow> (Some \<lparr>keys = [], set_source = path\<rparr>, Some ReadFailed)
    | SignersText t \<Rightarrow>
        (case ParseSigners cr t path of Inl e \<Rightarrow> (None, Some e) | Inr s \<Rightarrow> (Some s, None)))"

section \<open>Sets of keys\<close>

text \<open>A \<open>*SignerSet\<close>; \<open>None\<close> is nil.\<close>

definition set_Keys :: "signer_set option \<Rightarrow> public_key list" where
  "set_Keys s = (case s of None \<Rightarrow> [] | Some s \<Rightarrow> keys s)"

definition set_Empty :: "signer_set option \<Rightarrow> bool" where
  "set_Empty s \<longleftrightarrow> s = None \<or> set_Keys s = []"

definition set_Len :: "signer_set option \<Rightarrow> nat" where
  "set_Len s = length (set_Keys s)"

definition set_Source :: "signer_set option \<Rightarrow> bytes" where
  "set_Source s = (case s of None \<Rightarrow> ''none'' | Some s \<Rightarrow> set_source s)"

definition set_Verify :: "crypto \<Rightarrow> signer_set option \<Rightarrow> bytes \<Rightarrow> bytes \<Rightarrow> (signing_error, public_key) result" where
  "set_Verify cr s payload sig =
     (if set_Empty s then Inl ErrNoTrustedSigners
      else case find (\<lambda>k. key_Verify cr k payload sig) (set_Keys s) of
        Some k \<Rightarrow> Inr k
      | None \<Rightarrow> Inl (ErrNoTrustedSigner (set_Len s)))"

definition set_Digest :: "(bytes \<Rightarrow> bytes) \<Rightarrow> signer_set option \<Rightarrow> (canonical_error, bytes) result" where
  "set_Digest sha256_hex s =
     Digest sha256_hex (JArr (map JStr (sort (map (\<lambda>k. Algorithm k @ '' '' @ Encoded k @ '' '' @ KeyID k) (set_Keys s)))))"

section \<open>Properties\<close>

lemma matchAlgorithm_type:
  "matchAlgorithm alg key = Inr k \<Longrightarrow> k = key \<and> (alg = Ed25519 \<and> (\<exists>raw. k = EdKey raw) \<or> alg = ECDSAP256 \<and> (\<exists>pt. k = EcKey ''P-256'' pt))"
  by (auto simp: matchAlgorithm_def split: if_splits crypto_key.splits)

lemma ParsePublicKey_type:
  "ParsePublicKey cr alg enc = Inr k \<Longrightarrow>
   alg = Ed25519 \<and> (\<exists>raw. k = EdKey raw) \<or> alg = ECDSAP256 \<and> (\<exists>pt. k = EcKey ''P-256'' pt)"
  by (auto simp: ParsePublicKey_def split: if_splits option.splits dest!: matchAlgorithm_type)

definition key_ok :: "public_key \<Rightarrow> bool" where
  "key_ok k \<longleftrightarrow> Algorithm k = Ed25519 \<and> (\<exists>raw. Key k = EdKey raw) \<or>
     Algorithm k = ECDSAP256 \<and> (\<exists>pt. Key k = EcKey ''P-256'' pt)"

lemma parse_signer_ok: "parse_signer cr n l = Inr (Some k) \<Longrightarrow> key_ok k"
  by (auto simp: parse_signer_def Let_def key_ok_def split: if_splits sum.splits dest!: ParsePublicKey_type)

lemma parse_signer_lines_ok:
  assumes "parse_signer_lines cr n seen ks ls = Inr ks'" and "map fst seen = rev (map KeyID ks)"
    and "distinct (map KeyID ks)" and "list_all key_ok ks"
  shows "distinct (map KeyID ks') \<and> list_all key_ok ks' \<and> (\<exists>more. ks' = ks @ more)"
  using assms
proof (induction ls arbitrary: n seen ks)
  case (Cons l ls)
  show ?case
  proof (cases "parse_signer cr n l")
    case (Inr r)
    show ?thesis
    proof (cases r)
      case None
      with Cons Inr show ?thesis by (auto split: if_splits)
    next
      case (Some k)
      with Cons.prems Inr have new: "map_of seen (KeyID k) = None"
        and rest: "parse_signer_lines cr (Suc n) ((KeyID k, n) # seen) (ks @ [k]) ls = Inr ks'"
        by (auto split: if_splits option.splits)
      have "KeyID k \<notin> set (map KeyID ks)"
        using new Cons.prems(2) by (metis map_of_eq_None_iff list.set_map set_rev)
      with Cons.IH [OF rest] Cons.prems(2,3,4) parse_signer_ok [of cr n l k] Inr Some show ?thesis by auto
    qed
  qed (use Cons.prems in \<open>auto split: if_splits\<close>)
qed simp

text \<open>A trusted-signers file that parses yields keys whose identifiers are all different
  and whose type is the algorithm their line names, on the curve P-256 where it is ECDSA; one bad
  line refuses the whole file.\<close>

theorem ParseSigners_sound:
  assumes "ParseSigners cr contents src = Inr s"
  shows "distinct (map KeyID (keys s)) \<and> list_all key_ok (keys s) \<and> set_source s = src"
  using assms parse_signer_lines_ok [of cr 1 "[]" "[]" "scan_lines contents"]
  by (auto simp: ParseSigners_def bind_res_eq_Inr)

definition toy_crypto :: crypto where
  "toy_crypto = \<lparr>ed25519_verify = (\<lambda>k p s. s = k @ p), ecdsa_verify = (\<lambda>c k d s. s = k @ d), sha256 = (\<lambda>b. b),
     ssh_parse = (\<lambda>b. Some (EdKey b)), pkix_parse = (\<lambda>_. None)\<rparr>"

theorem ParseSigners_sound_witness:
  "\<exists>s. ParseSigners toy_crypto (''# ops'' @ [CHR 0x0A] @ ''ed25519 YWxwaGEh alice yubikey'' @ [CHR 0x0A] @ ''ed25519 YnJhdm8/ bob'') ''f'' = Inr s \<and>
     map KeyID (keys s) = [''alice'', ''bob''] \<and> list_all key_ok (keys s)"
proof -
  let ?t = "''# ops'' @ [CHR 0x0A] @ ''ed25519 YWxwaGEh alice yubikey'' @ [CHR 0x0A] @ ''ed25519 YnJhdm8/ bob''"
  have "ParseSigners toy_crypto ?t ''f'' = Inr \<lparr>keys = [
      \<lparr>Algorithm = ''ed25519'', KeyID = ''alice'', Backend = ''yubikey'', Key = EdKey ''alpha!'', Encoded = ''YWxwaGEh''\<rparr>,
      \<lparr>Algorithm = ''ed25519'', KeyID = ''bob'', Backend = [], Key = EdKey ''bravo?'', Encoded = ''YnJhdm8/''\<rparr>], set_source = ''f''\<rparr>"
    by code_simp
  from this ParseSigners_sound [OF this] show ?thesis by auto
qed

lemma set_Verify_Inr: "set_Verify cr s payload sig = Inr k \<Longrightarrow> k \<in> set (set_Keys s) \<and> key_Verify cr k payload sig"
  by (auto simp: set_Verify_def find_Some_iff split: if_splits option.splits)

lemma set_Verify_complete:
  "(\<exists>k. set_Verify cr s payload sig = Inr k) \<longleftrightarrow> (\<exists>k \<in> set (set_Keys s). key_Verify cr k payload sig)"
proof -
  have "set_Empty s \<longleftrightarrow> set_Keys s = []" by (auto simp: set_Empty_def set_Keys_def)
  then show ?thesis
    by (auto simp: set_Verify_def find_None_iff split: option.splits) (auto simp: find_Some_iff)
qed

text \<open>Verification against a set succeeds exactly when one of its keys verifies, and the
  key it answers is such a key; an empty set and a nil one verify nothing.\<close>

theorem set_Verify_iff:
  "((\<exists>k. set_Verify cr s payload sig = Inr k) \<longleftrightarrow> (\<exists>k \<in> set (set_Keys s). key_Verify cr k payload sig)) \<and>
   (set_Empty s \<longleftrightarrow> set_Keys s = [])"
  using set_Verify_complete [of cr s payload sig] by (auto simp: set_Empty_def set_Keys_def)

end
