(* ===== verification/GoTime.thy ===== *)
theory GoTime
  imports HS_Prelude
begin

text \<open>
  Go's package \<open>time\<close> as the sources use it. An instant (\<open>time.Time\<close>) is the number of nanoseconds
  since 1 January of year 1, UTC, so that Go's zero value is 0; a \<open>time.Duration\<close> is a number of
  nanoseconds in \<open>int64\<close>. A calendar date is its day number. A location is the offset in force
  before its first transition and the list of its transitions; locations themselves come from the
  time zone database of the host and are arguments of the model.
\<close>

section \<open>Instants and durations\<close>

type_synonym instant = int
type_synonym duration = int

definition Second :: duration where [go_defs]: "Second = 1000000000"
definition Minute :: duration where [go_defs]: "Minute = 60000000000"

text \<open>\<open>t.Sub(u)\<close> saturates at the ends of \<open>int64\<close>; \<open>Duration(n) * unit\<close> wraps.\<close>

definition time_sub :: "instant \<Rightarrow> instant \<Rightarrow> duration" where
  "time_sub t u = max int64_min (min int64_max (t - u))"

definition duration_mul :: "int \<Rightarrow> duration \<Rightarrow> duration" where
  "duration_mul n d = wrap64 (n * d)"

lemma time_sub_pos: "0 < time_sub t u \<longleftrightarrow> u < t"
  by (auto simp: time_sub_def int64_min_def int64_max_def)

lemma time_sub_gt: "in_int64 d \<Longrightarrow> d < int64_max \<Longrightarrow> d < time_sub t u \<longleftrightarrow> d < t - u"
  by (auto simp: time_sub_def in_int64_def int64_min_def int64_max_def)

section \<open>Locations\<close>

record location =
  first_offset :: int
  transitions :: "(int \<times> int) list"

definition UTC :: location where [go_defs]: "UTC = \<lparr>first_offset = 0, transitions = []\<rparr>"

text \<open>\<open>Location.lookup\<close>: the offset in force at a second, and the interval of seconds in which it is
  (\<open>None\<close> for no bound).\<close>

fun lookup_from :: "int \<Rightarrow> int option \<Rightarrow> (int \<times> int) list \<Rightarrow> int \<Rightarrow> int \<times> int option \<times> int option" where
  "lookup_from off st [] sec = (off, st, None)"
| "lookup_from off st ((tx, off') # txs) sec =
     (if sec < tx then (off, st, Some tx) else lookup_from off' (Some tx) txs sec)"

definition lookup :: "location \<Rightarrow> int \<Rightarrow> int \<times> int option \<times> int option" where
  "lookup loc sec = lookup_from (first_offset loc) None (transitions loc) sec"

definition offset_at :: "location \<Rightarrow> int \<Rightarrow> int" where
  "offset_at loc sec = fst (lookup loc sec)"

section \<open>Wall clocks\<close>

text \<open>The day number and the second of the day an instant shows in a location.\<close>

definition wall :: "location \<Rightarrow> instant \<Rightarrow> int" where
  "wall loc t = t div Second + offset_at loc (t div Second)"

definition day_of :: "location \<Rightarrow> instant \<Rightarrow> int" where
  "day_of loc t = wall loc t div 86400"

definition sec_of_day :: "location \<Rightarrow> instant \<Rightarrow> int" where
  "sec_of_day loc t = wall loc t mod 86400"

text \<open>\<open>Weekday\<close>: Sunday is 0; 1 January of year 1 was a Monday.\<close>

definition weekday :: "int \<Rightarrow> nat" where
  "weekday day = nat ((day + 1) mod 7)"

text \<open>\<open>time.Date\<close> on a day number, a second of the day and nanoseconds: the wall clock is first read
  as if it were UTC to guess the offset, and the guess is corrected once.\<close>

definition go_date :: "location \<Rightarrow> int \<Rightarrow> int \<Rightarrow> int \<Rightarrow> instant" where
  "go_date loc day sec ns =
     (let u = day * 86400 + sec;
          (off, st, en) = lookup loc u;
          utc = u - off;
          outside = (case st of None \<Rightarrow> False | Some s \<Rightarrow> utc < s) \<or>
                    (case en of None \<Rightarrow> False | Some e \<Rightarrow> e \<le> utc);
          off' = (if off \<noteq> 0 \<and> outside then offset_at loc utc else off)
      in (u - off') * Second + ns)"

text \<open>\<open>t.In(loc).AddDate(0, 0, n)\<close>.\<close>

definition add_days :: "location \<Rightarrow> instant \<Rightarrow> int \<Rightarrow> instant" where
  "add_days loc t n = go_date loc (day_of loc t + n) (sec_of_day loc t) (t mod Second)"

section \<open>Zones with one offset\<close>

text \<open>In a zone without transitions the wall clock is the instant shifted.\<close>

definition fixed_zone :: "location \<Rightarrow> bool" where
  "fixed_zone loc \<longleftrightarrow> transitions loc = []"

lemma fixed_zone_UTC [simp]: "fixed_zone UTC"
  by (simp add: fixed_zone_def UTC_def)

lemma offset_fixed: "fixed_zone loc \<Longrightarrow> offset_at loc s = first_offset loc"
  by (simp add: fixed_zone_def offset_at_def lookup_def)

lemma go_date_fixed:
  "fixed_zone loc \<Longrightarrow> go_date loc day sec ns = (day * 86400 + sec - first_offset loc) * Second + ns"
  by (simp add: fixed_zone_def go_date_def lookup_def Let_def)

lemma add_days_fixed:
  assumes "fixed_zone loc"
  shows "add_days loc t n = t + n * 86400 * Second"
proof -
  have "(day_of loc t + n) * 86400 + sec_of_day loc t = wall loc t + n * 86400"
    by (simp add: day_of_def sec_of_day_def algebra_simps)
  also have "\<dots> = t div Second + first_offset loc + n * 86400"
    by (simp add: wall_def offset_fixed [OF assms])
  finally have "add_days loc t n = (t div Second + n * 86400) * Second + t mod Second"
    by (simp add: add_days_def go_date_fixed [OF assms])
  also have "\<dots> = t + n * 86400 * Second"
    by (simp add: algebra_simps)
  finally show ?thesis .
qed

lemma day_of_fixed_shift:
  assumes "fixed_zone loc"
  shows "day_of loc (t + n * 86400 * Second) = day_of loc t + n"
proof -
  have "(t + n * 86400 * Second) div Second = t div Second + n * 86400"
    using div_mult_self1 [of Second t "n * 86400"] by (simp add: Second_def algebra_simps)
  then have "wall loc (t + n * 86400 * Second) = wall loc t + n * 86400"
    by (simp add: wall_def offset_fixed [OF assms])
  then show ?thesis by (simp add: day_of_def)
qed

text \<open>The day an instant falls on, by the opening and closing instants of the day.\<close>

lemma day_of_fixed_iff:
  assumes "fixed_zone loc"
  shows "day_of loc t = d \<longleftrightarrow>
    go_date loc d 0 0 \<le> t \<and> t < go_date loc d 0 0 + 86400 * Second"
proof -
  have eq: "wall loc t = t div Second + first_offset loc"
    by (simp add: wall_def offset_fixed [OF assms])
  have "day_of loc t = d \<longleftrightarrow> d * 86400 \<le> wall loc t \<and> wall loc t < d * 86400 + 86400"
    unfolding day_of_def by (simp add: int_div_eq_iff algebra_simps)
  also have "\<dots> \<longleftrightarrow> d * 86400 - first_offset loc \<le> t div Second \<and> t div Second < d * 86400 - first_offset loc + 86400"
    using eq by linarith
  also have "\<dots> \<longleftrightarrow> (d * 86400 - first_offset loc) * Second \<le> t \<and> t < (d * 86400 - first_offset loc) * Second + 86400 * Second"
    using int_le_div_iff [of Second "d * 86400 - first_offset loc" t]
      int_div_less_iff [of Second t "d * 86400 - first_offset loc + 86400"]
    by (simp add: Second_def distrib_right left_diff_distrib)
  finally show ?thesis by (simp add: go_date_fixed [OF assms])
qed

lemma weekday_less: "weekday d < 7"
  by (simp add: weekday_def nat_less_iff)

end
