(* ===== verification/Files.thy ===== *)
theory Files
  imports HS_Prelude
begin

text \<open>
  \<open>internal/agent/state.go\<close>: the two ways the agent writes a file. The model of the file system keeps, for
  every path, what a running process sees and what the directory on disk says, each with a flag
  whether the contents were synced; a crash leaves for every path either of the two, and arbitrary
  contents where they were not synced. A write is its sequence of system calls, any of which can
  fail and between any two of which the machine can stop. What \<open>rename\<close> and \<open>link\<close> share is the
  locale \<open>publisher\<close>.
\<close>

section \<open>File systems\<close>

type_synonym path = bytes

text \<open>The contents of a file, and whether they are on stable storage.\<close>

type_synonym entry = "bytes \<times> bool"

record fs =
  live :: "path \<rightharpoonup> entry"
  disk :: "path \<rightharpoonup> entry"

datatype fs_op =
    CreateTemp path | Chmod path | WriteTemp path bytes | Fsync path | CloseFile path
  | Rename path path | Link path path | FsyncDir

fun exec_op :: "fs_op \<Rightarrow> fs \<Rightarrow> fs option" where
  "exec_op (CreateTemp p) s = (if live s p \<noteq> None then None else Some (s\<lparr>live := (live s)(p \<mapsto> ([], False))\<rparr>))"
| "exec_op (Chmod p) s = Some s"
| "exec_op (WriteTemp p d) s = Some (s\<lparr>live := (live s)(p \<mapsto> (d, False))\<rparr>)"
| "exec_op (Fsync p) s = Some (s\<lparr>live := (live s)(p := map_option (\<lambda>(c, _). (c, True)) (live s p))\<rparr>)"
| "exec_op (CloseFile p) s = Some s"
| "exec_op (Rename p q) s = Some (s\<lparr>live := (live s)(p := None, q := live s p)\<rparr>)"
| "exec_op (Link p q) s = (if live s q \<noteq> None then None else Some (s\<lparr>live := (live s)(q := live s p)\<rparr>))"
| "exec_op FsyncDir s = Some (s\<lparr>disk := live s\<rparr>)"

text \<open>What a reader finds after the machine stopped.\<close>

definition crash_entry :: "(path \<rightharpoonup> entry) \<Rightarrow> (path \<rightharpoonup> bytes) \<Rightarrow> path \<Rightarrow> bool" where
  "crash_entry m d p = (case m p of
      None \<Rightarrow> d p = None | Some (c, synced) \<Rightarrow> if synced then d p = Some c else d p \<noteq> None)"

definition crash :: "fs \<Rightarrow> (path \<rightharpoonup> bytes) \<Rightarrow> bool" where
  "crash s d \<longleftrightarrow> (\<forall>p. crash_entry (live s) d p \<or> crash_entry (disk s) d p)"

section \<open>Sequences of system calls\<close>

text \<open>\<open>fault\<close> is the index of the call that fails, if one does.\<close>

fun run_ops :: "nat option \<Rightarrow> fs_op list \<Rightarrow> fs \<Rightarrow> (fs_op, unit) result \<times> fs" where
  "run_ops fault [] s = (Inr (), s)"
| "run_ops fault (op # ops) s =
     (if fault = Some 0 then (Inl op, s)
      else case exec_op op s of
        None \<Rightarrow> (Inl op, s)
      | Some s' \<Rightarrow> run_ops (map_option (\<lambda>n. n - 1) fault) ops s')"

text \<open>The states the machine can stop in.\<close>

fun visited :: "nat option \<Rightarrow> fs_op list \<Rightarrow> fs \<Rightarrow> fs list" where
  "visited fault [] s = [s]"
| "visited fault (op # ops) s =
     s # (if fault = Some 0 then []
          else case exec_op op s of None \<Rightarrow> [] | Some s' \<Rightarrow> visited (map_option (\<lambda>n. n - 1) fault) ops s')"

definition write_ops :: "(path \<Rightarrow> path \<Rightarrow> fs_op) \<Rightarrow> path \<Rightarrow> path \<Rightarrow> bytes \<Rightarrow> fs_op list" where
  "write_ops publish tmp p d =
     [CreateTemp tmp, Chmod tmp, WriteTemp tmp d, Fsync tmp, CloseFile tmp, publish tmp p, FsyncDir]"

lemma length_write_ops [simp]: "length (write_ops publish tmp p d) = 7"
  by (simp add: write_ops_def)

text \<open>The deferred removal of the temporary file.\<close>

definition remove_temp :: "path \<Rightarrow> (fs_op, unit) result \<times> fs \<Rightarrow> (fs_op, unit) result \<times> fs" where
  "remove_temp tmp rs = (case rs of (r, s) \<Rightarrow>
     if r = Inl (CreateTemp tmp) then (r, s) else (r, s\<lparr>live := (live s)(tmp := None)\<rparr>))"

definition WriteFileAtomic :: "nat option \<Rightarrow> path \<Rightarrow> path \<Rightarrow> bytes \<Rightarrow> fs \<Rightarrow> (fs_op, unit) result \<times> fs" where
  "WriteFileAtomic fault tmp p d s = remove_temp tmp (run_ops fault (write_ops Rename tmp p d) s)"

definition WriteFileExclusive :: "nat option \<Rightarrow> path \<Rightarrow> path \<Rightarrow> bytes \<Rightarrow> fs \<Rightarrow> (fs_op, unit) result \<times> fs" where
  "WriteFileExclusive fault tmp p d s = remove_temp tmp (run_ops fault (write_ops Link tmp p d) s)"

section \<open>Invariants along a sequence\<close>

text \<open>\<open>I i\<close> holds before call \<open>i\<close>; every call that succeeds leads from one to the next.\<close>

definition carries :: "(nat \<Rightarrow> fs \<Rightarrow> bool) \<Rightarrow> nat \<Rightarrow> fs_op list \<Rightarrow> bool" where
  "carries I k ops \<longleftrightarrow> (\<forall>i < length ops. \<forall>s s'. I (k + i) s \<longrightarrow> exec_op (ops ! i) s = Some s' \<longrightarrow> I (Suc (k + i)) s')"

lemma carries_Cons: "carries I k (op # ops) \<longleftrightarrow>
    (\<forall>s s'. I k s \<longrightarrow> exec_op op s = Some s' \<longrightarrow> I (Suc k) s') \<and> carries I (Suc k) ops"
  unfolding carries_def by (auto simp: nth_Cons less_Suc_eq_0_disj split: nat.splits)

lemma visited_carries:
  "carries I k ops \<Longrightarrow> I k s \<Longrightarrow> x \<in> set (visited fault ops s) \<Longrightarrow> \<exists>i. k \<le> i \<and> i \<le> k + length ops \<and> I i x"
proof (induction ops arbitrary: k s fault)
  case (Cons op ops)
  then consider "x = s" | s' where "exec_op op s = Some s'" "x \<in> set (visited (map_option (\<lambda>n. n - 1) fault) ops s')"
    by (cases "exec_op op s") (auto split: if_splits)
  then show ?case
  proof cases
    case 2
    with Cons.prems have "I (Suc k) s'" "carries I (Suc k) ops" by (auto simp: carries_Cons)
    from Cons.IH [OF this(2,1) 2(2)] obtain i where "Suc k \<le> i" "i \<le> Suc k + length ops" "I i x" by blast
    then show ?thesis by (intro exI [of _ i]) simp
  qed (use Cons.prems in auto)
qed auto

lemma run_ops_carries:
  "carries I k ops \<Longrightarrow> I k s \<Longrightarrow> run_ops fault ops s = (r, x) \<Longrightarrow>
   r = Inr () \<and> I (k + length ops) x \<or> (\<exists>i < length ops. r = Inl (ops ! i) \<and> I (k + i) x)"
proof (induction ops arbitrary: k s fault)
  case (Cons op ops)
  show ?case
  proof (cases "fault = Some 0 \<or> exec_op op s = None")
    case True
    with Cons.prems have "r = Inl op \<and> I k x" by (auto split: if_splits)
    then show ?thesis by (intro disjI2 exI [of _ 0]) simp
  next
    case False
    then obtain s' where s': "exec_op op s = Some s'" by blast
    with Cons.prems have "I (Suc k) s'" "carries I (Suc k) ops" by (auto simp: carries_Cons)
    from Cons.IH [OF this(2,1), of "map_option (\<lambda>n. n - 1) fault"] Cons.prems(3) s' False
    show ?thesis by fastforce
  qed
qed simp

section \<open>What publishing a temporary file guarantees\<close>

text \<open>At a path the file system is either as it was or holds the new contents, synced.\<close>

definition old_or_new :: "fs \<Rightarrow> path \<Rightarrow> bytes \<Rightarrow> fs \<Rightarrow> bool" where
  "old_or_new s0 p d s \<longleftrightarrow>
     live s p = live s0 p \<and> disk s p = disk s0 p \<or>
     live s p = Some (d, True) \<and> disk s p = disk s0 p \<or>
     live s p = Some (d, True) \<and> disk s p = Some (d, True)"

text \<open>The state before each call of a write.\<close>

definition write_inv :: "fs \<Rightarrow> path \<Rightarrow> path \<Rightarrow> bytes \<Rightarrow> nat \<Rightarrow> fs \<Rightarrow> bool" where
  "write_inv s0 tmp p d i s \<longleftrightarrow> (\<forall>q. q \<noteq> tmp \<and> q \<noteq> p \<longrightarrow> live s q = live s0 q) \<and>
     (i \<le> 5 \<longrightarrow> live s p = live s0 p \<and> disk s = disk s0) \<and>
     (i = 3 \<longrightarrow> live s tmp = Some (d, False)) \<and> (i = 4 \<or> i = 5 \<longrightarrow> live s tmp = Some (d, True)) \<and>
     (i = 6 \<longrightarrow> live s p = Some (d, True) \<and> disk s = disk s0) \<and>
     (i = 7 \<longrightarrow> live s p = Some (d, True) \<and> disk s p = Some (d, True))"

lemma write_inv_old_or_new: "i \<le> 7 \<Longrightarrow> write_inv s0 tmp p d i s \<Longrightarrow> old_or_new s0 p d s"
  by (cases "i \<le> 5"; cases "i = 6") (auto simp: write_inv_def old_or_new_def le_Suc_eq numeral_eq_Suc)

locale publisher =
  fixes publish :: "path \<Rightarrow> path \<Rightarrow> fs_op"
  assumes publish_moves: "exec_op (publish tmp p) s = Some s' \<Longrightarrow> tmp \<noteq> p \<Longrightarrow>
      live s' p = live s tmp \<and> disk s' = disk s \<and> (\<forall>q. q \<noteq> p \<and> q \<noteq> tmp \<longrightarrow> live s' q = live s q)"
    and publish_not_sync: "publish tmp p \<noteq> FsyncDir"
begin

lemma write_carries:
  assumes "tmp \<noteq> p"
  shows "carries (write_inv s0 tmp p d) 0 (write_ops publish tmp p d)"
  unfolding write_ops_def carries_Cons
  using assms by (auto simp: write_inv_def carries_def split: if_splits dest: publish_moves)

lemma write_inv_start: "write_inv s0 tmp p d 0 s0"
  by (simp add: write_inv_def)

text \<open>In every state the write passes through, the path is as it was or new.\<close>

lemma write_visits:
  assumes "tmp \<noteq> p" and "s \<in> set (visited fault (write_ops publish tmp p d) s0)"
  shows "old_or_new s0 p d s"
  using visited_carries [OF write_carries [OF assms(1)] write_inv_start assms(2)] write_inv_old_or_new
  by auto

lemma write_ops_sync: "i < 7 \<Longrightarrow> write_ops publish tmp p d ! i = FsyncDir \<longleftrightarrow> i = 6"
  using publish_not_sync by (auto simp: write_ops_def less_Suc_eq eval_nat_numeral)

lemma write_result:
  assumes "tmp \<noteq> p" and "run_ops fault (write_ops publish tmp p d) s0 = (r, s)"
  shows "\<forall>q. q \<noteq> tmp \<and> q \<noteq> p \<longrightarrow> live s q = live s0 q"
    and "r = Inr () \<Longrightarrow> live s p = Some (d, True) \<and> disk s p = Some (d, True)"
    and "r = Inl FsyncDir \<Longrightarrow> live s p = Some (d, True) \<and> disk s p = disk s0 p"
    and "r \<noteq> Inr () \<Longrightarrow> r \<noteq> Inl FsyncDir \<Longrightarrow> live s p = live s0 p \<and> disk s p = disk s0 p"
proof -
  consider "r = Inr ()" "write_inv s0 tmp p d 7 s"
    | i where "i < 7" "r = Inl (write_ops publish tmp p d ! i)" "write_inv s0 tmp p d i s"
    using run_ops_carries [OF write_carries [OF assms(1)] write_inv_start assms(2)] by auto
  then have "(\<forall>q. q \<noteq> tmp \<and> q \<noteq> p \<longrightarrow> live s q = live s0 q) \<and>
      (r = Inr () \<longrightarrow> live s p = Some (d, True) \<and> disk s p = Some (d, True)) \<and>
      (r = Inl FsyncDir \<longrightarrow> live s p = Some (d, True) \<and> disk s p = disk s0 p) \<and>
      (r \<noteq> Inr () \<and> r \<noteq> Inl FsyncDir \<longrightarrow> live s p = live s0 p \<and> disk s p = disk s0 p)"
  proof cases
    case (2 i)
    then show ?thesis using write_ops_sync [of i] by (cases "i = 6") (auto simp: write_inv_def)
  qed (simp add: write_inv_def)
  then show "\<forall>q. q \<noteq> tmp \<and> q \<noteq> p \<longrightarrow> live s q = live s0 q"
    "r = Inr () \<Longrightarrow> live s p = Some (d, True) \<and> disk s p = Some (d, True)"
    "r = Inl FsyncDir \<Longrightarrow> live s p = Some (d, True) \<and> disk s p = disk s0 p"
    "r \<noteq> Inr () \<Longrightarrow> r \<noteq> Inl FsyncDir \<Longrightarrow> live s p = live s0 p \<and> disk s p = disk s0 p" by blast+
qed

end

interpretation renaming: publisher Rename
  by unfold_locales auto

interpretation linking: publisher Link
  by unfold_locales (auto split: if_splits)

text \<open>A crash of such a state: the old contents or the new ones, never a part of either.\<close>

definition settled :: "fs \<Rightarrow> path \<Rightarrow> bool" where
  "settled s p \<longleftrightarrow> disk s p = live s p \<and> (case live s p of None \<Rightarrow> True | Some (_, synced) \<Rightarrow> synced)"

lemma crash_old_or_new:
  assumes "settled s0 p" and "old_or_new s0 p d s" and "crash s x"
  shows "x p = map_option fst (live s0 p) \<or> x p = Some d"
proof -
  from assms(3) have c: "crash_entry (live s) x p \<or> crash_entry (disk s) x p" by (simp add: crash_def)
  have new: "x p = Some d" if "m p = Some (d, True)" "crash_entry m x p" for m
    using that by (simp add: crash_entry_def)
  have old: "x p = map_option fst (live s0 p)" if "m p = live s0 p" "crash_entry m x p" for m
    using that assms(1) by (auto simp: crash_entry_def settled_def split: option.splits if_splits)
  from assms(1) have "disk s0 p = live s0 p" by (simp add: settled_def)
  with assms(2) c new [of "live s"] new [of "disk s"] old [of "live s"] old [of "disk s"] show ?thesis
    by (auto simp: old_or_new_def)
qed

section \<open>Properties\<close>

text \<open>Property C25: an atomic write is never half done. Whichever call fails and wherever the machine
  stops, a reader finds the old file or the whole of the new one; when the write reports success
  the new one is there after any crash; and when it reports a failure, the file is unchanged or the
  failure was that of syncing the directory. No other file but the temporary one is touched.\<close>

theorem WriteFileAtomic_safe:
  assumes "tmp \<noteq> p" and "settled s0 p"
  shows "(\<forall>s \<in> set (visited fault (write_ops Rename tmp p d) s0). \<forall>x. crash s x \<longrightarrow>
       x p = map_option fst (live s0 p) \<or> x p = Some d) \<and>
    (\<forall>r s. WriteFileAtomic fault tmp p d s0 = (r, s) \<longrightarrow>
       (r = Inr () \<longrightarrow> live s p = Some (d, True) \<and> (\<forall>x. crash s x \<longrightarrow> x p = Some d)) \<and>
       (r \<noteq> Inr () \<longrightarrow> live s p = live s0 p \<or> r = Inl FsyncDir \<and> live s p = Some (d, True)) \<and>
       (\<forall>q. q \<noteq> tmp \<and> q \<noteq> p \<longrightarrow> live s q = live s0 q))"
proof (intro conjI ballI allI impI)
  fix s x
  assume "s \<in> set (visited fault (write_ops Rename tmp p d) s0)" and "crash s x"
  then show "x p = map_option fst (live s0 p) \<or> x p = Some d"
    using crash_old_or_new [OF assms(2) renaming.write_visits [OF assms(1)]] by blast
next
  fix r s
  assume w: "WriteFileAtomic fault tmp p d s0 = (r, s)"
  obtain s1 where s1: "run_ops fault (write_ops Rename tmp p d) s0 = (r, s1)"
    "live s p = live s1 p" "disk s p = disk s1 p" "\<And>q. q \<noteq> tmp \<Longrightarrow> live s q = live s1 q"
    using w assms(1) by (cases "run_ops fault (write_ops Rename tmp p d) s0")
      (auto simp: WriteFileAtomic_def remove_temp_def split: if_splits)
  note res = renaming.write_result [OF assms(1) s1(1)]
  show "live s p = Some (d, True)" if "r = Inr ()" using res(2) [OF that] s1 by simp
  show "x p = Some d" if "r = Inr ()" "crash s x" for x
  proof -
    from that(2) have "crash_entry (live s) x p \<or> crash_entry (disk s) x p" by (simp add: crash_def)
    with res(2) [OF that(1)] s1 show ?thesis by (auto simp: crash_entry_def)
  qed
  show "live s p = live s0 p \<or> r = Inl FsyncDir \<and> live s p = Some (d, True)" if "r \<noteq> Inr ()"
    using res(3,4) that s1 by auto
  show "live s q = live s0 q" if "q \<noteq> tmp \<and> q \<noteq> p" for q using res(1) s1(4) that by simp
qed

definition sample_fs :: fs where
  "sample_fs = \<lparr>live = Map.empty(''agent.pem'' \<mapsto> (''old'', True)), disk = Map.empty(''agent.pem'' \<mapsto> (''old'', True))\<rparr>"

theorem WriteFileAtomic_safe_witness:
  "fst (WriteFileAtomic None ''.hostseal-1'' ''agent.pem'' ''new'' sample_fs) = Inr () \<and>
   live (snd (WriteFileAtomic None ''.hostseal-1'' ''agent.pem'' ''new'' sample_fs)) ''agent.pem'' = Some (''new'', True)"
proof -
  let ?w = "WriteFileAtomic None ''.hostseal-1'' ''agent.pem'' ''new'' sample_fs"
  have "fst ?w = Inr ()" by (simp add: WriteFileAtomic_def remove_temp_def write_ops_def sample_fs_def)
  moreover have "settled sample_fs ''agent.pem''" by (simp add: settled_def sample_fs_def)
  ultimately show ?thesis
    using WriteFileAtomic_safe [of "''.hostseal-1''" "''agent.pem''" sample_fs None "''new''"] by (cases ?w) simp
qed

text \<open>An exclusive write never replaces a file: where the path already holds one, the write
  fails and the file stays as it was in every state and after every crash; and of two writers that
  run one after the other only the first can succeed.\<close>

theorem WriteFileExclusive_once:
  assumes "tmp \<noteq> p" and "tmp' \<noteq> p" and "tmp' \<noteq> tmp"
    and "WriteFileExclusive fault tmp p d s0 = (Inr (), s)" and "WriteFileExclusive fault' tmp' p d' s = (r, s')"
  shows "r \<noteq> Inr () \<and> live s' p = Some (d, True) \<and> (\<forall>x. crash s' x \<longrightarrow> x p = Some d)"
proof -
  obtain s1 where s1: "run_ops fault (write_ops Link tmp p d) s0 = (Inr (), s1)" "live s p = live s1 p" "disk s p = disk s1 p"
    using assms(1,4) by (cases "run_ops fault (write_ops Link tmp p d) s0")
      (auto simp: WriteFileExclusive_def remove_temp_def split: if_splits)
  have lv: "live s p = Some (d, True)" "disk s p = Some (d, True)"
    using linking.write_result(2) [OF assms(1) s1(1)] s1 by simp_all
  obtain s2 where s2: "run_ops fault' (write_ops Link tmp' p d') s = (r, s2)" "live s' p = live s2 p" "disk s' p = disk s2 p"
    using assms(2,5) by (cases "run_ops fault' (write_ops Link tmp' p d') s")
      (auto simp: WriteFileExclusive_def remove_temp_def split: if_splits)
  have "carries (\<lambda>i x. i \<le> 5 \<and> live x p = Some (d, True)) 0 (write_ops Link tmp' p d')"
    unfolding write_ops_def carries_Cons using assms(2) by (auto simp: carries_def split: if_splits)
  from run_ops_carries [OF this _ s2(1)] lv have "r \<noteq> Inr () \<and> r \<noteq> Inl FsyncDir"
    using linking.write_ops_sync [of _ tmp' p d'] by auto
  with linking.write_result(4) [OF assms(2) s2(1)] lv s2 have f: "r \<noteq> Inr ()" "live s' p = Some (d, True)" "disk s' p = Some (d, True)"
    by auto
  have "x p = Some d" if "crash s' x" for x
  proof -
    from that have "crash_entry (live s') x p \<or> crash_entry (disk s') x p" by (simp add: crash_def)
    with f show ?thesis by (auto simp: crash_entry_def)
  qed
  with f show ?thesis by blast
qed

theorem WriteFileExclusive_once_witness:
  "fst (WriteFileExclusive None ''t2'' ''record'' ''b'' (snd (WriteFileExclusive None ''t1'' ''record'' ''a'' sample_fs))) \<noteq> Inr ()"
proof -
  let ?w = "WriteFileExclusive None ''t1'' ''record'' ''a'' sample_fs"
  have w: "?w = (Inr (), snd ?w)"
    by (simp add: WriteFileExclusive_def remove_temp_def write_ops_def sample_fs_def)
  show ?thesis
    using WriteFileExclusive_once [OF _ _ _ w, of "''t2''" None "''b''"]
    by (cases "WriteFileExclusive None ''t2'' ''record'' ''b'' (snd ?w)") simp
qed

section \<open>What callers see\<close>

text \<open>The three outcomes of an atomic write, as the callers' models use them.\<close>

datatype write_outcome = WriteOK | WriteFailed | WriteUnsynced

definition outcome_of :: "(fs_op, unit) result \<Rightarrow> write_outcome" where
  "outcome_of r = (case r of Inr _ \<Rightarrow> WriteOK | Inl op \<Rightarrow> if op = FsyncDir then WriteUnsynced else WriteFailed)"

lemma outcome_contents:
  assumes "tmp \<noteq> p" and "WriteFileAtomic fault tmp p d s0 = (r, s)"
  shows "map_option fst (live s p) = (if outcome_of r = WriteFailed then map_option fst (live s0 p) else Some d)"
proof -
  obtain s1 where s1: "run_ops fault (write_ops Rename tmp p d) s0 = (r, s1)" "live s p = live s1 p"
    using assms by (cases "run_ops fault (write_ops Rename tmp p d) s0")
      (auto simp: WriteFileAtomic_def remove_temp_def split: if_splits)
  show ?thesis
    using renaming.write_result(2-4) [OF assms(1) s1(1)] s1(2) by (auto simp: outcome_of_def split: sum.splits)
qed

end
