(* ===== verification/Nonces.thy ===== *)
theory Nonces
  imports GoTime Go_Strings Files
begin

text \<open>
  \<open>internal/agent/nonces.go\<close>: the persistent record of the nonces of signed jobs. The model keeps the
  map in memory and the file beside each other; time passes, jobs are checked, writes may fail
  and the agent may be restarted at any point, as the step relation \<open>nonce_step\<close> says. The invariant
  shows that a nonce, once accepted, is not accepted again before the expiry it was recorded with.
\<close>

section \<open>The store\<close>

type_synonym nonces = "bytes \<rightharpoonup> instant"

datatype nonce_file = NoncesAbsent | NoncesUnreadable | NoncesCorrupt | NoncesSaved nonces

definition prune :: "instant \<Rightarrow> nonces \<Rightarrow> nonces" where
  "prune now m = (\<lambda>n. case m n of None \<Rightarrow> None | Some e \<Rightarrow> if now < e then Some e else None)"

definition LoadNonceStore :: "nonce_file \<Rightarrow> instant \<Rightarrow> nonces option" where
  "LoadNonceStore f now = (case f of
      NoncesAbsent \<Rightarrow> Some Map.empty
    | NoncesUnreadable \<Rightarrow> None
    | NoncesCorrupt \<Rightarrow> None
    | NoncesSaved m \<Rightarrow> Some (prune now m))"

datatype nonce_error = NonceMissing | NonceNoExpiry | NonceWrite

record nonce_state =
  seen :: nonces
  saved :: nonce_file

text \<open>\<open>Check\<close>: \<open>now\<close> is its own reading of the clock, \<open>written\<close> the outcome of the atomic write. (The
  encoding before it cannot fail: it is that of times which were decoded from the wire.)\<close>

definition Check :: "nonce_state \<Rightarrow> bytes \<Rightarrow> instant \<Rightarrow> instant \<Rightarrow> write_outcome \<Rightarrow> (nonce_error + bool) \<times> nonce_state" where
  "Check st nonce expiresAt now written =
     (if nonce = [] then (Inl NonceMissing, st)
      else if expiresAt = 0 then (Inl NonceNoExpiry, st)
      else if seen st nonce \<noteq> None then (Inr True, st)
      else let m = (prune now (seen st))(nonce \<mapsto> expiresAt) in
        case written of
          WriteOK \<Rightarrow> (Inr False, \<lparr>seen = m, saved = NoncesSaved m\<rparr>)
        | WriteFailed \<Rightarrow> (Inl NonceWrite, st\<lparr>seen := m(nonce := None)\<rparr>)
        | WriteUnsynced \<Rightarrow> (Inl NonceWrite, \<lparr>seen = m(nonce := None), saved = NoncesSaved m\<rparr>))"

section \<open>Runs of the store\<close>

text \<open>A configuration: the store, the clock, and the acceptances so far (nonce and recorded expiry with
  the time \<open>Check\<close> read).\<close>

record nonce_run =
  store :: nonce_state
  clock :: instant
  accepted :: "(bytes \<times> instant \<times> instant) list"

inductive nonce_step :: "nonce_run \<Rightarrow> nonce_run \<Rightarrow> bool" where
  tick: "clock c \<le> t \<Longrightarrow> nonce_step c (c\<lparr>clock := t\<rparr>)"
| check_fresh: "Check (store c) n e (clock c) w = (Inr False, st) \<Longrightarrow>
    nonce_step c (c\<lparr>store := st, accepted := (n, e, clock c) # accepted c\<rparr>)"
| check_other: "Check (store c) n e (clock c) w = (r, st) \<Longrightarrow> r \<noteq> Inr False \<Longrightarrow> nonce_step c (c\<lparr>store := st\<rparr>)"
| restart: "LoadNonceStore (saved (store c)) (clock c) = Some m \<Longrightarrow>
    nonce_step c (c\<lparr>store := (store c)\<lparr>seen := m\<rparr>\<rparr>)"

inductive nonce_reach :: "nonce_run \<Rightarrow> nonce_run \<Rightarrow> bool" for c0 where
  start: "nonce_reach c0 c0"
| step: "nonce_reach c0 c \<Longrightarrow> nonce_step c c' \<Longrightarrow> nonce_reach c0 c'"

text \<open>Every acceptance whose recorded expiry lies ahead is still known, in memory and on disk; and the
  same nonce was accepted twice only when the first record had expired by then.\<close>

definition known :: "nonce_file \<Rightarrow> bytes \<Rightarrow> instant \<Rightarrow> bool" where
  "known f n e \<longleftrightarrow> (\<exists>m. f = NoncesSaved m \<and> m n = Some e)"

fun no_replay :: "(bytes \<times> instant \<times> instant) list \<Rightarrow> bool" where
  "no_replay [] = True"
| "no_replay ((n, e, t) # as) = ((\<forall>(n', e', t') \<in> set as. n' = n \<longrightarrow> e' \<le> t) \<and> no_replay as)"

definition nonce_inv :: "nonce_run \<Rightarrow> bool" where
  "nonce_inv c \<longleftrightarrow> no_replay (accepted c) \<and>
     (\<forall>(n, e, t) \<in> set (accepted c). t \<le> clock c \<and>
        (clock c < e \<longrightarrow> seen (store c) n = Some e \<and> known (saved (store c)) n e))"

lemma prune_keeps: "m n = Some e \<Longrightarrow> now < e \<Longrightarrow> prune now m n = Some e"
  by (simp add: prune_def)

lemma Check_fresh_iff:
  "Check st n e now w = (Inr False, st') \<longleftrightarrow>
   n \<noteq> [] \<and> e \<noteq> 0 \<and> seen st n = None \<and> w = WriteOK \<and>
   st' = \<lparr>seen = (prune now (seen st))(n \<mapsto> e), saved = NoncesSaved ((prune now (seen st))(n \<mapsto> e))\<rparr>"
  by (cases w) (auto simp: Check_def Let_def)

text \<open>A check that accepts nothing leaves what it knew about the future.\<close>

lemma Check_other_keeps:
  assumes "Check st n e now w = (r, st')" and "r \<noteq> Inr False" and "seen st k = Some x" and "now < x"
  shows "seen st' k = Some x \<and> (saved st' = saved st \<or> known (saved st') k x)"
  using assms by (auto simp: Check_def Let_def prune_keeps known_def split: if_splits write_outcome.splits)

lemma nonce_inv_fresh:
  assumes inv: "nonce_inv c" and ch: "Check (store c) n e (clock c) w = (Inr False, st)"
  shows "nonce_inv (c\<lparr>store := st, accepted := (n, e, clock c) # accepted c\<rparr>)"
proof -
  from ch have new: "seen (store c) n = None" and st: "seen st = (prune (clock c) (seen (store c)))(n \<mapsto> e)"
    "saved st = NoncesSaved (seen st)" by (auto simp: Check_fresh_iff)
  have old: "e' \<le> clock c" if "(n, e', t') \<in> set (accepted c)" for e' t'
    using inv that new by (fastforce simp: nonce_inv_def)
  have keep: "seen st k = Some x \<and> known (saved st) k x"
    if "(k, x, t) \<in> set (accepted c)" "clock c < x" for k x t
  proof -
    from inv that have "seen (store c) k = Some x" by (fastforce simp: nonce_inv_def)
    moreover have "k \<noteq> n" using old that by fastforce
    ultimately show ?thesis using st that(2) by (auto simp: known_def prune_keeps)
  qed
  show ?thesis
    using inv old keep st by (fastforce simp: nonce_inv_def known_def)
qed

lemma nonce_inv_step:
  assumes "nonce_step c c'" and "nonce_inv c"
  shows "nonce_inv c'"
  using assms(1)
proof cases
  case (tick t)
  with assms(2) show ?thesis by (fastforce simp: nonce_inv_def)
next
  case (check_fresh n e w st)
  with nonce_inv_fresh [OF assms(2)] show ?thesis by simp
next
  case (check_other n e w r st)
  have "seen st k = Some x \<and> known (saved st) k x"
    if "seen (store c) k = Some x" "known (saved (store c)) k x" "clock c < x" for k x
    using Check_other_keeps [OF check_other(2,3) that(1,3)] that(2) by auto
  with assms(2) check_other(1) show ?thesis by (fastforce simp: nonce_inv_def)
next
  case (restart m)
  have "m k = Some x" if "known (saved (store c)) k x" "clock c < x" for k x
    using restart(2) that by (auto simp: LoadNonceStore_def known_def prune_keeps)
  with assms(2) restart(1) show ?thesis by (fastforce simp: nonce_inv_def)
qed

lemma nonce_inv_reach: "nonce_reach c0 c \<Longrightarrow> nonce_inv c0 \<Longrightarrow> nonce_inv c"
  by (induction rule: nonce_reach.induct) (auto dest: nonce_inv_step)

definition fresh_run :: "instant \<Rightarrow> nonce_run" where
  "fresh_run t = \<lparr>store = \<lparr>seen = Map.empty, saved = NoncesAbsent\<rparr>, clock = t, accepted = []\<rparr>"

text \<open>Replay is refused until the recorded expiry: in every run of the store, with any
  interleaving of checks, failed writes, restarts and the passing of time, whenever a nonce is
  accepted a second time, the record of the first acceptance had expired by then.\<close>

theorem nonce_never_replayed:
  assumes "nonce_reach (fresh_run t0) c"
  shows "no_replay (accepted c)"
  using nonce_inv_reach [OF assms] by (simp add: nonce_inv_def fresh_run_def)

text \<open>A run: a nonce is accepted, the agent restarts, the record expires and the nonce is accepted
  again.\<close>

definition sample_seen :: "instant \<Rightarrow> nonce_state" where
  "sample_seen e = \<lparr>seen = Map.empty(''n1'' \<mapsto> e), saved = NoncesSaved (Map.empty(''n1'' \<mapsto> e))\<rparr>"

lemma sample_run:
  "nonce_reach (fresh_run 10)
     \<lparr>store = sample_seen 90, clock = 50, accepted = [(''n1'', 90, 50), (''n1'', 50, 10)]\<rparr>"
proof -
  let ?c1 = "\<lparr>store = sample_seen 50, clock = 10, accepted = [(''n1'', 50, 10)]\<rparr>"
  let ?c2 = "\<lparr>store = (sample_seen 50)\<lparr>seen := Map.empty\<rparr>, clock = 50, accepted = [(''n1'', 50, 10)]\<rparr>"
  have "nonce_step (fresh_run 10) ?c1"
    using check_fresh [of "fresh_run 10" "''n1''" 50 WriteOK "sample_seen 50"]
    by (simp add: fresh_run_def sample_seen_def Check_fresh_iff prune_def)
  moreover have "nonce_step ?c1 (?c1\<lparr>clock := 50\<rparr>)"
    by (rule tick) simp
  moreover have "nonce_step (?c1\<lparr>clock := 50\<rparr>) ?c2"
    using restart [of "?c1\<lparr>clock := 50\<rparr>" Map.empty]
    by (simp add: sample_seen_def LoadNonceStore_def prune_def fun_eq_iff)
  moreover have "nonce_step ?c2 \<lparr>store = sample_seen 90, clock = 50, accepted = [(''n1'', 90, 50), (''n1'', 50, 10)]\<rparr>"
    using check_fresh [of ?c2 "''n1''" 90 WriteOK "sample_seen 90"]
    by (simp add: sample_seen_def Check_fresh_iff prune_def)
  ultimately show ?thesis
    by (intro nonce_reach.step [OF nonce_reach.step [OF nonce_reach.step [OF nonce_reach.step [OF nonce_reach.start]]]])
qed

theorem nonce_never_replayed_witness:
  "no_replay [(''n1'', 90, 50), (''n1'', 50, 10)] \<and> \<not> no_replay [(''n1'', 90, 49), (''n1'', 50, 10)]"
  using nonce_never_replayed [OF sample_run] by simp

end
