(* ===== verification/JSON_Struct.thy ===== *)
theory JSON_Struct
  imports JSON_Write
begin

text \<open>
  Decoding a JSON value into a Go struct the way \<open>encoding/json\<close> does it: a member goes to the
  field of exactly its name or, failing that, of its name with case folded; \<open>null\<close> stores
  nothing; a later member overwrites an earlier one; the first error is kept and returned when
  the whole object has been walked. The struct is a record of the model and each field a
  function that stores a value into it.
\<close>

section \<open>Fields\<close>

datatype decode_error =
    DecSyntax                  \<comment> \<open>not a JSON value\<close>
  | DecType                    \<comment> \<open>\<open>UnmarshalTypeError\<close>\<close>
  | DecUnknownField bytes      \<comment> \<open>refused by \<open>DisallowUnknownFields\<close>\<close>

type_synonym 'a field = "bytes \<times> (json \<Rightarrow> 'a \<Rightarrow> (decode_error, 'a) result)"

definition store_string :: "(bytes \<Rightarrow> 'a \<Rightarrow> 'a) \<Rightarrow> json \<Rightarrow> 'a \<Rightarrow> (decode_error, 'a) result" where
  "store_string upd v st = (case v of JStr s \<Rightarrow> Inr (upd s st) | JNull \<Rightarrow> Inr st | _ \<Rightarrow> Inl DecType)"

definition store_bool :: "(bool \<Rightarrow> 'a \<Rightarrow> 'a) \<Rightarrow> json \<Rightarrow> 'a \<Rightarrow> (decode_error, 'a) result" where
  "store_bool upd v st = (case v of JBool b \<Rightarrow> Inr (upd b st) | JNull \<Rightarrow> Inr st | _ \<Rightarrow> Inl DecType)"

definition store_int :: "(int \<Rightarrow> 'a \<Rightarrow> 'a) \<Rightarrow> json \<Rightarrow> 'a \<Rightarrow> (decode_error, 'a) result" where
  "store_int upd v st = (case v of
      JNum n \<Rightarrow> (case parse_int64 n of Some i \<Rightarrow> Inr (upd i st) | None \<Rightarrow> Inl DecType)
    | JNull \<Rightarrow> Inr st
    | _ \<Rightarrow> Inl DecType)"

text \<open>\<open>foldName\<close>: ASCII letters in upper case, and the two runes outside ASCII that fold to one.\<close>

definition fold_rune :: "bytes \<Rightarrow> bytes" where
  "fold_rune r =
     (if r = [CHR 0xC5, CHR 0xBF] then ''S''
      else if r = [CHR 0xE2, CHR 0x84, CHR 0xAA] then ''K''
      else case r of [c] \<Rightarrow> if 97 \<le> bv c \<and> bv c \<le> 122 then [char_of (bv c - 32)] else [c] | _ \<Rightarrow> r)"

definition fold_name :: "bytes \<Rightarrow> bytes" where
  "fold_name s = concat (map fold_rune (runes s))"

definition find_field :: "'a field list \<Rightarrow> bytes \<Rightarrow> (json \<Rightarrow> 'a \<Rightarrow> (decode_error, 'a) result) option" where
  "find_field fs k = (case map_of fs k of
      Some f \<Rightarrow> Some f
    | None \<Rightarrow> map_option snd (find (\<lambda>(n, _). fold_name n = fold_name k) fs))"

section \<open>Objects\<close>

text \<open>\<open>saveError\<close> keeps the first error.\<close>

definition save_error :: "decode_error \<Rightarrow> decode_error option \<Rightarrow> decode_error option" where
  "save_error e saved = (case saved of None \<Rightarrow> Some e | Some e0 \<Rightarrow> Some e0)"

fun decode_members :: "bool \<Rightarrow> 'a field list \<Rightarrow> (bytes \<times> json) list \<Rightarrow> decode_error option \<Rightarrow> 'a \<Rightarrow>
    decode_error option \<times> 'a" where
  "decode_members strict fs [] saved st = (saved, st)"
| "decode_members strict fs ((k, v) # ms) saved st =
     (case find_field fs k of
        None \<Rightarrow> decode_members strict fs ms (if strict then save_error (DecUnknownField k) saved else saved) st
      | Some f \<Rightarrow>
          (case f v st of
             Inl e \<Rightarrow> decode_members strict fs ms (save_error e saved) st
           | Inr st' \<Rightarrow> decode_members strict fs ms saved st'))"

definition decode_struct :: "bool \<Rightarrow> 'a field list \<Rightarrow> json \<Rightarrow> 'a \<Rightarrow> (decode_error, 'a) result" where
  "decode_struct strict fs v st = (case v of
      JNull \<Rightarrow> Inr st
    | JObj ms \<Rightarrow> (case decode_members strict fs ms None st of (None, st') \<Rightarrow> Inr st' | (Some e, _) \<Rightarrow> Inl e)
    | _ \<Rightarrow> Inl DecType)"

section \<open>What a decoded struct came from\<close>

lemma decode_members_saved:
  "fst (decode_members strict fs ms (Some e) st) = Some e"
  by (induction ms arbitrary: st) (auto simp: save_error_def split: option.splits sum.splits)

text \<open>A strict decode that succeeds knew every field it was given.\<close>

lemma decode_members_known:
  "decode_members True fs ms None st = (None, st') \<Longrightarrow> (k, v) \<in> set ms \<Longrightarrow> find_field fs k \<noteq> None"
proof (induction ms arbitrary: st)
  case (Cons m ms)
  obtain k' v' where m: "m = (k', v')" by (cases m)
  have "fst (decode_members True fs ms (Some e) st) \<noteq> None" for e st
    by (simp add: decode_members_saved)
  with Cons m show ?case
    by (auto simp: save_error_def split: option.splits sum.splits) (metis fst_conv option.distinct(1))+
qed simp

lemma decode_struct_no_fields:
  "decode_struct True [] v st = Inr st' \<longleftrightarrow> st' = st \<and> (v = JNull \<or> v = JObj [])"
proof
  assume *: "decode_struct True [] v st = Inr st'"
  show "st' = st \<and> (v = JNull \<or> v = JObj [])"
  proof (cases v)
    case (JObj ms)
    have "ms = []"
    proof (rule ccontr)
      assume "ms \<noteq> []"
      then obtain k u where "(k, u) \<in> set ms" by (cases ms) auto
      with * JObj show False
        using decode_members_known [of "[]" ms st _ k u]
        by (auto simp: decode_struct_def find_field_def split: prod.splits option.splits)
    qed
    with * JObj show ?thesis by (simp add: decode_struct_def)
  qed (use * in \<open>auto simp: decode_struct_def\<close>)
qed (auto simp: decode_struct_def)

end
