(* ===== verification/Intent.thy ===== *)
theory Intent
  imports JSON_Struct
begin

text \<open>
  Package \<open>internal/intent\<close>: the closed catalogue of operations, their authorisation classes, the
  strict decoders and validators of their parameters, and the profiles a host may run. The
  lemmas show what a decoded parameter set guarantees to the layers behind it, that decoding
  inverts encoding, and what separates the routine tier from the destructive one.
\<close>

section \<open>Names and classes\<close>

type_synonym name = bytes

definition FactsCollect :: name where [go_defs]: "FactsCollect = ''facts.collect''"
definition PackagesListUpgradable :: name where [go_defs]: "PackagesListUpgradable = ''packages.listUpgradable''"
definition ServicesList :: name where [go_defs]: "ServicesList = ''services.list''"
definition RebootCheckRequired :: name where [go_defs]: "RebootCheckRequired = ''reboot.checkRequired''"
definition PackagesApplySecurity :: name where [go_defs]: "PackagesApplySecurity = ''packages.applySecurity''"
definition PackagesApplyAll :: name where [go_defs]: "PackagesApplyAll = ''packages.applyAll''"
definition ServiceStart :: name where [go_defs]: "ServiceStart = ''service.start''"
definition ServiceStop :: name where [go_defs]: "ServiceStop = ''service.stop''"
definition ServiceRestart :: name where [go_defs]: "ServiceRestart = ''service.restart''"
definition HostReboot :: name where [go_defs]: "HostReboot = ''host.reboot''"

text \<open>The names, for proofs that look a name up.\<close>

named_theorems intent_names
lemmas [intent_names] = FactsCollect_def PackagesListUpgradable_def ServicesList_def
  RebootCheckRequired_def PackagesApplySecurity_def PackagesApplyAll_def ServiceStart_def
  ServiceStop_def ServiceRestart_def HostReboot_def

type_synonym iclass = bytes

definition ClassRead :: iclass where [go_defs]: "ClassRead = ''read''"
definition ClassRoutine :: iclass where [go_defs]: "ClassRoutine = ''routine''"
definition ClassDestructive :: iclass where [go_defs]: "ClassDestructive = ''destructive''"

definition Privileged :: "iclass \<Rightarrow> bool" where
  "Privileged c \<longleftrightarrow> c = ClassRoutine \<or> c = ClassDestructive"

definition RequiresOfflineSignature :: "iclass \<Rightarrow> bool" where
  "RequiresOfflineSignature c \<longleftrightarrow> c = ClassDestructive"

definition RequiresOnlineSignature :: "iclass \<Rightarrow> bool" where
  "RequiresOnlineSignature c \<longleftrightarrow> c = ClassRoutine"

definition class_Valid :: "iclass \<Rightarrow> bool" where
  "class_Valid c \<longleftrightarrow> c = ClassRead \<or> c = ClassRoutine \<or> c = ClassDestructive"

section \<open>Parameters\<close>

datatype params =
    NoParams name
  | UnitParams name bytes
  | ApplyParams name bool
  | RebootParams name int bytes

fun params_Intent :: "params \<Rightarrow> name" where
  "params_Intent (NoParams n) = n"
| "params_Intent (UnitParams n u) = n"
| "params_Intent (ApplyParams n r) = n"
| "params_Intent (RebootParams n d m) = n"

text \<open>\<open>%q\<close> of a message is the message in quotes: \<open>messagePattern\<close> admits no byte that is escaped.\<close>

fun Describe :: "params \<Rightarrow> bytes" where
  "Describe (NoParams n) = n"
| "Describe (UnitParams n u) = n @ '' '' @ u"
| "Describe (ApplyParams n r) = (if r then n @ '' (reboot if required)'' else n)"
| "Describe (RebootParams n d m) =
     n @ (if 0 < d then '' in '' @ itoa d @ ''s'' else []) @
     (if m \<noteq> [] then '' (\"'' @ m @ ''\")'' else [])"

datatype params_error =
    ParamsTooLarge nat
  | ParamsDecode decode_error
  | ErrUnknownField bytes
  | TrailingData
  | UnitRequired | UnitTooLong nat | UnitHyphen | UnitDot | UnitDotDot | UnitPattern bytes
  | DelayRange int | MessageHyphen bytes | MessagePattern

definition maxParamsBytes :: nat where [go_defs]: "maxParamsBytes = 8192"

definition wrap_decode :: "decode_error \<Rightarrow> params_error" where
  "wrap_decode e = (case e of DecUnknownField k \<Rightarrow> ErrUnknownField k | _ \<Rightarrow> ParamsDecode e)"

text \<open>\<open>strictUnmarshal(raw, dst)\<close>, with \<open>dst\<close> given by its fields and its value before the call.\<close>

definition strictUnmarshal :: "'a field list \<Rightarrow> 'a \<Rightarrow> bytes \<Rightarrow> (params_error, 'a) result" where
  "strictUnmarshal fs st raw =
     (if maxParamsBytes < length raw then Inl (ParamsTooLarge (length raw))
      else let raw' = (if trim_space raw = [] then ''{}'' else raw) in
        case parse_json raw' of
          None \<Rightarrow> Inl (ParamsDecode DecSyntax)
        | Some (v, rest) \<Rightarrow>
            (case decode_struct True fs v st of
               Inl e \<Rightarrow> Inl (wrap_decode e)
             | Inr st' \<Rightarrow> if dec_more rest then Inl TrailingData else Inr st'))"

section \<open>Validators\<close>

definition unit_char :: "char \<Rightarrow> bool" where
  "unit_char c \<longleftrightarrow> 97 \<le> bv c \<and> bv c \<le> 122 \<or> 65 \<le> bv c \<and> bv c \<le> 90 \<or> is_digit c \<or> c \<in> set ''@._-''"

definition unit_suffixes :: "bytes list" where
  "unit_suffixes = [''.service'', ''.socket'', ''.timer'']"

text \<open>\<^verbatim>\<open>^[a-zA-Z0-9@._-]+\.(service|socket|timer)$\<close>\<close>

definition unitPattern :: "bytes \<Rightarrow> bool" where
  "unitPattern u \<longleftrightarrow> list_ex (\<lambda>suf. has_suffix u suf \<and>
      (let stem = take (length u - length suf) u in stem \<noteq> [] \<and> list_all unit_char stem))
    unit_suffixes"

definition message_char :: "char \<Rightarrow> bool" where
  "message_char c \<longleftrightarrow> 97 \<le> bv c \<and> bv c \<le> 122 \<or> 65 \<le> bv c \<and> bv c \<le> 90 \<or> is_digit c \<or> c \<in> set '' .,:_-''"

text \<open>\<^verbatim>\<open>^[A-Za-z0-9 .,:_-]{0,200}$\<close>\<close>

definition messagePattern :: "bytes \<Rightarrow> bool" where
  "messagePattern m \<longleftrightarrow> length m \<le> 200 \<and> list_all message_char m"

definition validateUnit :: "bytes \<Rightarrow> (params_error, unit) result" where
  "validateUnit u =
     (if u = [] then Inl UnitRequired
      else if 255 < length u then Inl (UnitTooLong (length u))
      else if has_prefix u ''-'' then Inl UnitHyphen
      else if has_prefix u ''.'' then Inl UnitDot
      else if contains u ''..'' then Inl UnitDotDot
      else if \<not> unitPattern u then Inl (UnitPattern u)
      else Inr ())"

section \<open>Decoders\<close>

definition decodeEmpty :: "name \<Rightarrow> bytes \<Rightarrow> (params_error, params) result" where
  "decodeEmpty n raw = bind_res (strictUnmarshal [] () raw) (\<lambda>_. Inr (NoParams n))"

record unit_wire = w_unit :: bytes

definition unit_fields :: "unit_wire field list" where
  "unit_fields = [(''unit'', store_string (\<lambda>s w. w\<lparr>w_unit := s\<rparr>))]"

definition decodeUnit :: "name \<Rightarrow> bytes \<Rightarrow> (params_error, params) result" where
  "decodeUnit n raw =
     bind_res (strictUnmarshal unit_fields \<lparr>w_unit = []\<rparr> raw) (\<lambda>w.
     bind_res (validateUnit (w_unit w)) (\<lambda>_. Inr (UnitParams n (w_unit w))))"

record apply_wire = w_reboot :: bool

definition apply_fields :: "apply_wire field list" where
  "apply_fields = [(''rebootIfRequired'', store_bool (\<lambda>b w. w\<lparr>w_reboot := b\<rparr>))]"

definition decodeApplyAll :: "bytes \<Rightarrow> (params_error, params) result" where
  "decodeApplyAll raw =
     bind_res (strictUnmarshal apply_fields \<lparr>w_reboot = False\<rparr> raw) (\<lambda>w.
     Inr (ApplyParams PackagesApplyAll (w_reboot w)))"

definition decodeApplySecurity :: "bytes \<Rightarrow> (params_error, params) result" where
  "decodeApplySecurity raw =
     bind_res (strictUnmarshal [] () raw) (\<lambda>_. Inr (ApplyParams PackagesApplySecurity False))"

record reboot_wire = w_delay :: int  w_message :: bytes

definition reboot_fields :: "reboot_wire field list" where
  "reboot_fields = [
     (''delaySeconds'', store_int (\<lambda>i w. w\<lparr>w_delay := i\<rparr>)),
     (''message'', store_string (\<lambda>s w. w\<lparr>w_message := s\<rparr>))]"

definition decodeReboot :: "name \<Rightarrow> bytes \<Rightarrow> (params_error, params) result" where
  "decodeReboot n raw =
     bind_res (strictUnmarshal reboot_fields \<lparr>w_delay = 0, w_message = []\<rparr> raw) (\<lambda>w.
       if w_delay w < 0 \<or> 3600 < w_delay w then Inl (DelayRange (w_delay w))
       else if has_prefix (w_message w) ''-'' then Inl (MessageHyphen (w_message w))
       else if \<not> messagePattern (w_message w) then Inl MessagePattern
       else Inr (RebootParams n (w_delay w) (w_message w)))"

section \<open>The catalogue\<close>

record spec =
  spec_Name :: name
  Class :: iclass
  Summary :: bytes
  Implemented :: bool
  spec_MayNotReturn :: bool
  spec_Decode :: "bytes \<Rightarrow> (params_error, params) result"

definition mk_spec :: "name \<Rightarrow> iclass \<Rightarrow> bytes \<Rightarrow> bool \<Rightarrow> (bytes \<Rightarrow> (params_error, params) result) \<Rightarrow> name \<times> spec" where
  "mk_spec n c sm mnr d = (n, \<lparr>spec_Name = n, Class = c, Summary = sm, Implemented = True,
     spec_MayNotReturn = mnr, spec_Decode = d\<rparr>)"

definition catalogue :: "(name \<times> spec) list" where
  "catalogue = [
     mk_spec FactsCollect ClassRead ''Collect host inventory'' False (decodeEmpty FactsCollect),
     mk_spec PackagesListUpgradable ClassRead ''List upgradable packages, security separated from regular''
       False (decodeEmpty PackagesListUpgradable),
     mk_spec ServicesList ClassRead ''List systemd unit state'' False (decodeEmpty ServicesList),
     mk_spec RebootCheckRequired ClassRead
       ''Check whether a reboot is required and which services need restarting''
       False (decodeEmpty RebootCheckRequired),
     mk_spec PackagesApplySecurity ClassRoutine ''Apply security updates, subject to local policy''
       False decodeApplySecurity,
     mk_spec PackagesApplyAll ClassDestructive ''Apply all available updates, subject to local policy''
       False decodeApplyAll,
     mk_spec ServiceStart ClassDestructive ''Start a systemd unit on the policy's restartable list''
       False (decodeUnit ServiceStart),
     mk_spec ServiceStop ClassDestructive ''Stop a systemd unit on the policy's restartable list''
       False (decodeUnit ServiceStop),
     mk_spec ServiceRestart ClassDestructive ''Restart a systemd unit on the policy's restartable list''
       False (decodeUnit ServiceRestart),
     mk_spec HostReboot ClassDestructive ''Reboot the host, subject to the policy's reboot rule''
       True (decodeReboot HostReboot)]"

definition Lookup :: "name \<Rightarrow> spec option" where
  "Lookup n = map_of catalogue n"

definition Has :: "name \<Rightarrow> bool" where
  "Has n \<longleftrightarrow> map_of catalogue n \<noteq> None"

definition All_specs :: "spec list" where
  "All_specs = sort_key spec_Name (map snd catalogue)"

definition Names :: "name list" where
  "Names = sort (map fst catalogue)"

definition MayNotReturn :: "spec \<Rightarrow> params \<Rightarrow> bool" where
  "MayNotReturn s p \<longleftrightarrow> spec_MayNotReturn s \<or> (case p of ApplyParams _ r \<Rightarrow> r | _ \<Rightarrow> False)"

datatype intent_error = UnknownIntent name | BadParams name params_error

definition Decode :: "name \<Rightarrow> bytes \<Rightarrow> (intent_error, spec \<times> params) result" where
  "Decode n raw = (case Lookup n of
      None \<Rightarrow> Inl (UnknownIntent n)
    | Some s \<Rightarrow> (case spec_Decode s raw of Inl e \<Rightarrow> Inl (BadParams n e) | Inr p \<Rightarrow> Inr (s, p)))"

section \<open>Profiles and refusals\<close>

type_synonym profile = bytes

definition ProfileLinux :: profile where [go_defs]: "ProfileLinux = ''linux''"
definition ProfileWindowsReadOnly :: profile where [go_defs]: "ProfileWindowsReadOnly = ''windows-read-only''"

definition profiles :: "(profile \<times> name list) list" where
  "profiles = [
     (ProfileLinux, [FactsCollect, PackagesListUpgradable, ServicesList, RebootCheckRequired,
        PackagesApplySecurity, PackagesApplyAll, ServiceStart, ServiceStop, ServiceRestart, HostReboot]),
     (ProfileWindowsReadOnly, [FactsCollect, PackagesListUpgradable, ServicesList, RebootCheckRequired])]"

definition ValidProfile :: "profile \<Rightarrow> bool" where
  "ValidProfile p \<longleftrightarrow> map_of profiles p \<noteq> None"

definition InProfile :: "profile \<Rightarrow> name \<Rightarrow> bool" where
  "InProfile p n = (case map_of profiles p of None \<Rightarrow> False | Some ms \<Rightarrow> n \<in> set ms)"

definition ProfileMembers :: "profile \<Rightarrow> name list" where
  "ProfileMembers p = sort (case map_of profiles p of None \<Rightarrow> [] | Some ms \<Rightarrow> ms)"

definition Profiles :: "profile list" where
  "Profiles = sort (map fst profiles)"

definition Refused :: "name list" where
  "Refused = [''shell.exec'', ''script.run'', ''file.write'', ''apt.addRepository'', ''user.create'',
     ''ssh.authorizedKeys.add'', ''agent.updateFromURL'']"

definition executionShapedFragments :: "bytes list" where
  "executionShapedFragments = [''exec'', ''shell'', ''script'', ''command'', ''cmd'', ''eval'', ''spawn'',
     ''system'', ''bash'', ''powershell'', ''invoke'', ''plugin'', ''download'', ''upload'', ''fetch'',
     ''url'', ''chroot'', ''sudo'', ''setuid'', ''authorizedkeys'', ''addrepo'', ''writefile'', ''filewrite'']"

section \<open>What the catalogue says\<close>

lemma catalogue_keys: "map fst catalogue = [FactsCollect, PackagesListUpgradable, ServicesList,
    RebootCheckRequired, PackagesApplySecurity, PackagesApplyAll, ServiceStart, ServiceStop,
    ServiceRestart, HostReboot]"
  by (simp add: catalogue_def mk_spec_def)

lemma catalogue_distinct: "distinct (map fst catalogue)"
  unfolding catalogue_keys by (simp add: intent_names)

lemma Lookup_in: "Lookup n = Some s \<longleftrightarrow> (n, s) \<in> set catalogue"
  by (simp add: Lookup_def catalogue_distinct)

lemma spec_Name_Lookup: "Lookup n = Some s \<Longrightarrow> spec_Name s = n"
  unfolding Lookup_in catalogue_def mk_spec_def by auto

lemma Lookup_Implemented: "Lookup n = Some s \<Longrightarrow> Implemented s"
  unfolding Lookup_in catalogue_def mk_spec_def by auto

lemma Lookup_cases:
  assumes "Lookup n = Some s"
  obtains (read) "n \<in> {FactsCollect, PackagesListUpgradable, ServicesList, RebootCheckRequired}"
      "Class s = ClassRead" "spec_Decode s = decodeEmpty n" "\<not> spec_MayNotReturn s"
  | (security) "n = PackagesApplySecurity" "Class s = ClassRoutine" "spec_Decode s = decodeApplySecurity"
      "\<not> spec_MayNotReturn s"
  | (all) "n = PackagesApplyAll" "Class s = ClassDestructive" "spec_Decode s = decodeApplyAll"
      "\<not> spec_MayNotReturn s"
  | (service) "n \<in> {ServiceStart, ServiceStop, ServiceRestart}" "Class s = ClassDestructive"
      "spec_Decode s = decodeUnit n" "\<not> spec_MayNotReturn s"
  | (reboot) "n = HostReboot" "Class s = ClassDestructive" "spec_Decode s = decodeReboot n"
      "spec_MayNotReturn s"
  using assms unfolding Lookup_in catalogue_def mk_spec_def by auto

lemma class_distinct [simp]:
  "ClassRead \<noteq> ClassRoutine" "ClassRoutine \<noteq> ClassRead" "ClassRead \<noteq> ClassDestructive"
  "ClassDestructive \<noteq> ClassRead" "ClassRoutine \<noteq> ClassDestructive" "ClassDestructive \<noteq> ClassRoutine"
  by (simp_all add: ClassRead_def ClassRoutine_def ClassDestructive_def)

text \<open>What a validated parameter set guarantees to the code that acts on it.\<close>

definition unit_safe :: "bytes \<Rightarrow> bool" where
  "unit_safe u \<longleftrightarrow> u \<noteq> [] \<and> length u \<le> 255 \<and> hd u \<noteq> CHR ''-'' \<and> hd u \<noteq> CHR ''.'' \<and>
     \<not> contains u ''..'' \<and> list_all unit_char u \<and>
     (\<exists>suf \<in> set unit_suffixes. has_suffix u suf)"

fun params_ok :: "params \<Rightarrow> bool" where
  "params_ok (NoParams n) = (n \<in> {FactsCollect, PackagesListUpgradable, ServicesList, RebootCheckRequired})"
| "params_ok (UnitParams n u) = (n \<in> {ServiceStart, ServiceStop, ServiceRestart} \<and> unit_safe u)"
| "params_ok (ApplyParams n r) = (n = PackagesApplyAll \<or> n = PackagesApplySecurity \<and> \<not> r)"
| "params_ok (RebootParams n d m) = (n = HostReboot \<and> 0 \<le> d \<and> d \<le> 3600 \<and> messagePattern m \<and>
     (m = [] \<or> hd m \<noteq> CHR ''-''))"

lemma has_prefix_one: "has_prefix s [c] \<longleftrightarrow> s \<noteq> [] \<and> hd s = c"
  by (cases s) (auto simp: has_prefix_def)

lemma has_suffix_split:
  assumes "has_suffix s suf"
  shows "s = take (length s - length suf) s @ suf"
proof -
  have "take (length suf) (rev s) = rev suf" using assms by (simp add: has_suffix_def has_prefix_def)
  then have "drop (length s - length suf) s = suf"
    by (metis length_rev rev_rev_ident rev_take)
  then show ?thesis by (metis append_take_drop_id)
qed

lemma unitPattern_elim:
  assumes "unitPattern u"
  obtains suf where "suf \<in> set unit_suffixes" "has_suffix u suf"
    "list_all unit_char (take (length u - length suf) u)"
  using assms by (auto simp: unitPattern_def Let_def list_ex_iff)

lemma unit_suffixes_chars: "suf \<in> set unit_suffixes \<Longrightarrow> list_all unit_char suf"
  by (auto simp: unit_suffixes_def unit_char_def)

lemma unitPattern_chars: "unitPattern u \<Longrightarrow> list_all unit_char u"
  using has_suffix_split unit_suffixes_chars by (metis list_all_append unitPattern_elim)

lemma validateUnit_safe: "validateUnit u = Inr () \<Longrightarrow> unit_safe u"
  using unitPattern_chars [of u] unitPattern_elim [of u]
  by (auto simp: validateUnit_def unit_safe_def has_prefix_one split: if_splits)

lemma unit_safe_pattern: "unit_safe u \<Longrightarrow> unitPattern u"
proof -
  assume u: "unit_safe u"
  then obtain suf where suf: "suf \<in> set unit_suffixes" "has_suffix u suf" by (auto simp: unit_safe_def)
  let ?stem = "take (length u - length suf) u"
  have split: "u = ?stem @ suf" by (rule has_suffix_split [OF suf(2)])
  have "suf \<noteq> [] \<and> hd suf = CHR ''.''" using suf(1) by (auto simp: unit_suffixes_def)
  with u split have "?stem \<noteq> []" by (auto simp: unit_safe_def)
  moreover have "list_all unit_char ?stem"
    using u split by (metis list_all_append unit_safe_def)
  ultimately show ?thesis using suf by (auto simp: unitPattern_def Let_def list_ex_iff)
qed

lemma validateUnit_iff: "validateUnit u = Inr () \<longleftrightarrow> unit_safe u"
proof
  assume u: "unit_safe u"
  then have "unitPattern u" by (rule unit_safe_pattern)
  with u show "validateUnit u = Inr ()" by (simp add: validateUnit_def unit_safe_def has_prefix_one)
qed (rule validateUnit_safe)

lemma Decode_Inr: "Decode n raw = Inr (s, p) \<longleftrightarrow> Lookup n = Some s \<and> spec_Decode s raw = Inr p"
  by (auto simp: Decode_def split: option.splits sum.splits)

lemma Decode_ok:
  assumes "Decode n raw = Inr (s, p)"
  shows "params_Intent p = n \<and> params_ok p"
proof -
  from assms have "Lookup n = Some s" and d: "spec_Decode s raw = Inr p" by (simp_all add: Decode_Inr)
  from this(1) show ?thesis
  proof (cases rule: Lookup_cases)
    case read
    with d show ?thesis by (auto simp: decodeEmpty_def res_simps)
  next
    case security
    with d show ?thesis by (auto simp: decodeApplySecurity_def res_simps)
  next
    case all
    with d show ?thesis by (auto simp: decodeApplyAll_def res_simps)
  next
    case service
    with d show ?thesis by (auto simp: decodeUnit_def res_simps validateUnit_safe)
  next
    case reboot
    with d show ?thesis by (auto simp: decodeReboot_def res_simps has_prefix_one split: if_splits)
  qed
qed

section \<open>Properties of the decoders\<close>

text \<open>Property C30: parameters that decode belong to the intent they were decoded for and are inside
  its validator: a unit name is a plain name of at most 255 bytes with one of the three suffixes,
  without a leading hyphen or dot and without \<open>..\<close>; a delay is at most an hour; a message is at most
  200 plain characters and does not begin with a hyphen.\<close>

theorem Decode_validates:
  assumes "Decode n raw = Inr (s, p)"
  shows "Lookup n = Some s \<and> params_Intent p = n \<and> params_ok p"
  using assms Decode_ok [OF assms] by (simp add: Decode_Inr)

theorem Decode_validates_witness:
  "\<exists>s. Decode ServiceRestart ''{\"unit\":\"nginx.service\"}'' = Inr (s, UnitParams ServiceRestart ''nginx.service'') \<and>
    params_ok (UnitParams ServiceRestart ''nginx.service'')"
proof -
  have "decodeUnit ServiceRestart ''{\"unit\":\"nginx.service\"}'' = Inr (UnitParams ServiceRestart ''nginx.service'')"
    by code_simp
  then obtain s where "Decode ServiceRestart ''{\"unit\":\"nginx.service\"}'' =
      Inr (s, UnitParams ServiceRestart ''nginx.service'')"
    by (simp add: Decode_def Lookup_def catalogue_def mk_spec_def intent_names)
  with Decode_validates [OF this] show ?thesis by blast
qed

text \<open>Nothing the control plane can authorise with its own online key takes the host
  away: an intent of the routine class decodes only to parameters for which \<open>MayNotReturn\<close> is
  false, whatever bytes it arrives with. A reboot is reachable only through intents that need an
  offline signature.\<close>

theorem online_key_cannot_reboot:
  assumes "Decode n raw = Inr (s, p)" and "MayNotReturn s p"
  shows "RequiresOfflineSignature (Class s) \<and> \<not> RequiresOnlineSignature (Class s) \<and>
    (n = HostReboot \<or> n = PackagesApplyAll)"
proof -
  from assms(1) have "Lookup n = Some s" and d: "spec_Decode s raw = Inr p" by (simp_all add: Decode_Inr)
  from this(1) show ?thesis
  proof (cases rule: Lookup_cases)
    case read
    with d assms(2) show ?thesis by (auto simp: MayNotReturn_def decodeEmpty_def res_simps)
  next
    case security
    with d assms(2) show ?thesis by (auto simp: MayNotReturn_def decodeApplySecurity_def res_simps)
  next
    case service
    with d assms(2) show ?thesis by (auto simp: MayNotReturn_def decodeUnit_def res_simps)
  qed (simp_all add: RequiresOfflineSignature_def RequiresOnlineSignature_def)
qed

theorem online_key_cannot_reboot_witness:
  "\<exists>s. Decode PackagesApplyAll ''{\"rebootIfRequired\":true}'' = Inr (s, ApplyParams PackagesApplyAll True) \<and>
    RequiresOfflineSignature (Class s)"
proof -
  have "decodeApplyAll ''{\"rebootIfRequired\":true}'' = Inr (ApplyParams PackagesApplyAll True)"
    by code_simp
  then obtain s where d: "Decode PackagesApplyAll ''{\"rebootIfRequired\":true}'' =
      Inr (s, ApplyParams PackagesApplyAll True)"
    by (simp add: Decode_def Lookup_def catalogue_def mk_spec_def intent_names)
  have "MayNotReturn s (ApplyParams PackagesApplyAll True)" by (simp add: MayNotReturn_def)
  from d online_key_cannot_reboot [OF d this] show ?thesis by blast
qed

text \<open>The catalogue is what its documentation promises: ten members in the order of their
  names, none of them refused and none with a name shaped like execution; every member of every
  profile is in the catalogue, the Linux profile is all of it and the Windows profile holds
  read members only.\<close>

theorem catalogue_guarantees:
  "Names = [''facts.collect'', ''host.reboot'', ''packages.applyAll'', ''packages.applySecurity'',
     ''packages.listUpgradable'', ''reboot.checkRequired'', ''service.restart'', ''service.start'',
     ''service.stop'', ''services.list''] \<and>
   list_all (\<lambda>n. n \<notin> set Names) Refused \<and>
   list_all (\<lambda>n. list_all (\<lambda>f. \<not> contains (to_lower n) f) executionShapedFragments) Names \<and>
   ProfileMembers ProfileLinux = Names \<and>
   list_all (\<lambda>n. map_option Class (Lookup n) = Some ClassRead) (ProfileMembers ProfileWindowsReadOnly)"
  by code_simp

section \<open>Encoding inverts decoding\<close>

text \<open>The object a tool writes for a parameter set: the helpers' command lines build it with
  \<open>json.Marshal\<close>.\<close>

fun params_json :: "params \<Rightarrow> json" where
  "params_json (NoParams n) = JObj []"
| "params_json (UnitParams n u) = JObj [(''unit'', JStr u)]"
| "params_json (ApplyParams n r) = (if n = PackagesApplyAll then JObj [(''rebootIfRequired'', JBool r)] else JObj [])"
| "params_json (RebootParams n d m) = JObj [(''delaySeconds'', JNum (itoa d)), (''message'', JStr m)]"

lemma unit_char_plain: "unit_char c \<Longrightarrow> plain_char c"
  unfolding unit_char_def is_digit_def
proof (elim disjE conjE)
  assume "c \<in> set ''@._-''"
  then have "c \<in> {CHR ''@'', CHR ''.'', CHR ''_'', CHR ''-''}" by simp
  then show ?thesis unfolding plain_char_def by (elim insertE) simp_all
qed (unfold plain_char_def, safe, simp_all)

lemma message_char_plain: "message_char c \<Longrightarrow> plain_char c"
  unfolding message_char_def is_digit_def
proof (elim disjE conjE)
  assume "c \<in> set '' .,:_-''"
  then have "c \<in> {CHR '' '', CHR ''.'', CHR '','', CHR '':'', CHR ''_'', CHR ''-''}" by simp
  then show ?thesis unfolding plain_char_def by (elim insertE) simp_all
qed (unfold plain_char_def, safe, simp_all)

lemma plain_strings:
  "unit_safe u \<Longrightarrow> list_all plain_char u"
  "messagePattern m \<Longrightarrow> list_all plain_char m"
  by (auto simp: unit_safe_def messagePattern_def list_all_iff unit_char_plain message_char_plain)

text \<open>A small object that \<open>json.Marshal\<close> wrote reaches the struct as it was.\<close>

lemma strictUnmarshal_marshal:
  assumes "json_marshal (JObj ms) = Inr raw" and "length raw \<le> maxParamsBytes"
    and "jdepth (JObj ms) \<le> max_nesting" and "decode_struct True fs (read_back (JObj ms)) st = Inr st'"
  shows "strictUnmarshal fs st raw = Inr st'"
proof -
  obtain raw' where raw: "raw = CHR ''{'' # raw'"
    using assms(1) by (auto simp: json_marshal_def res_simps)
  have "trim_space raw \<noteq> []"
    unfolding raw by (rule trim_space_nonempty) (simp_all add: is_space_rune_def space_runes_def)
  with assms(2,4) json_marshal_parse [OF assms(1,3)] show ?thesis
    by (simp add: strictUnmarshal_def dec_more_def skip_ws_def)
qed

lemma marshal_literals [simp]:
  "marshal_string ''unit'' = Inr ''\"unit\"''"
  "marshal_string ''rebootIfRequired'' = Inr ''\"rebootIfRequired\"''"
  "marshal_string ''delaySeconds'' = Inr ''\"delaySeconds\"''"
  "marshal_string ''message'' = Inr ''\"message\"''"
  by (simp_all add: marshal_plain plain_char_def)

lemma sanitize_literals [simp]:
  "sanitize ''unit'' = ''unit''" "sanitize ''rebootIfRequired'' = ''rebootIfRequired''"
  "sanitize ''delaySeconds'' = ''delaySeconds''" "sanitize ''message'' = ''message''"
  by (simp_all add: sanitize_plain plain_char_def)

lemma sorted_reboot [simp]: "sort_key fst [(''delaySeconds'', a), (''message'', b)] = [(''delaySeconds'', a), (''message'', b)]"
  by (simp add: less_eq_char_def less_char_def)

lemma find_field_literals [simp]:
  "find_field unit_fields ''unit'' = Some (store_string (\<lambda>s w. w\<lparr>w_unit := s\<rparr>))"
  "find_field apply_fields ''rebootIfRequired'' = Some (store_bool (\<lambda>b w. w\<lparr>w_reboot := b\<rparr>))"
  "find_field reboot_fields ''delaySeconds'' = Some (store_int (\<lambda>i w. w\<lparr>w_delay := i\<rparr>))"
  "find_field reboot_fields ''message'' = Some (store_string (\<lambda>s w. w\<lparr>w_message := s\<rparr>))"
  by (simp_all add: find_field_def unit_fields_def apply_fields_def reboot_fields_def)

lemma decodeEmpty_roundtrip: "decodeEmpty n ''{}'' = Inr (NoParams n)" "decodeApplySecurity ''{}'' = Inr (ApplyParams PackagesApplySecurity False)"
  using strictUnmarshal_marshal [of "[]" "''{}''" "[]" "()" "()"]
  by (simp_all add: decodeEmpty_def decodeApplySecurity_def json_marshal_def maxParamsBytes_def max_nesting_def
      decode_struct_def)

lemma decodeUnit_roundtrip:
  assumes "unit_safe u"
  shows "decodeUnit n (''{\"unit\":\"'' @ u @ ''\"}'') = Inr (UnitParams n u)"
proof -
  have p: "list_all plain_char u" by (rule plain_strings(1) [OF assms])
  have "strictUnmarshal unit_fields \<lparr>w_unit = []\<rparr> (''{\"unit\":\"'' @ u @ ''\"}'') = Inr \<lparr>w_unit = u\<rparr>"
    by (rule strictUnmarshal_marshal [of "[(''unit'', JStr u)]"])
      (use assms in \<open>simp_all add: json_marshal_def marshal_plain [OF p] sanitize_plain [OF p] unit_safe_def
        maxParamsBytes_def max_nesting_def decode_struct_def store_string_def\<close>)
  with assms show ?thesis by (simp add: decodeUnit_def validateUnit_iff [THEN iffD2])
qed

lemma decodeApplyAll_roundtrip:
  "decodeApplyAll (if r then ''{\"rebootIfRequired\":true}'' else ''{\"rebootIfRequired\":false}'') =
   Inr (ApplyParams PackagesApplyAll r)"
proof -
  have "strictUnmarshal apply_fields \<lparr>w_reboot = False\<rparr>
      (if r then ''{\"rebootIfRequired\":true}'' else ''{\"rebootIfRequired\":false}'') = Inr \<lparr>w_reboot = r\<rparr>"
    by (rule strictUnmarshal_marshal [of "[(''rebootIfRequired'', JBool r)]"])
      (simp_all add: json_marshal_def maxParamsBytes_def max_nesting_def decode_struct_def store_bool_def)
  then show ?thesis by (simp add: decodeApplyAll_def)
qed

lemma decodeReboot_roundtrip:
  assumes "params_ok (RebootParams n d m)"
  shows "decodeReboot n (''{\"delaySeconds\":'' @ itoa d @ '',\"message\":\"'' @ m @ ''\"}'') = Inr (RebootParams n d m)"
proof -
  have p: "list_all plain_char m" by (rule plain_strings(2)) (use assms in simp)
  have d: "0 \<le> d" "d \<le> 3600" using assms by simp_all
  then have len: "length (itoa d) \<le> 3601" using nat_digits_length [of "nat d"] by (simp add: itoa_def)
  have i: "parse_int64 (itoa d) = Some d"
    using d by (intro parse_int64_itoa) (simp add: in_int64_def int64_min_def int64_max_def)
  have "strictUnmarshal reboot_fields \<lparr>w_delay = 0, w_message = []\<rparr>
      (''{\"delaySeconds\":'' @ itoa d @ '',\"message\":\"'' @ m @ ''\"}'') = Inr \<lparr>w_delay = d, w_message = m\<rparr>"
    by (rule strictUnmarshal_marshal [of "[(''delaySeconds'', JNum (itoa d)), (''message'', JStr m)]"])
      (use assms len in \<open>simp_all add: json_marshal_def marshal_plain [OF p] marshal_number_def number_literal_itoa
        sanitize_plain [OF p] maxParamsBytes_def max_nesting_def decode_struct_def store_string_def store_int_def
        messagePattern_def i\<close>)
  with assms show ?thesis by (auto simp: decodeReboot_def has_prefix_one)
qed

text \<open>The decoder a name leads to.\<close>

lemma Lookup_decoder:
  assumes "Lookup n = Some s"
  shows "spec_Decode s =
    (if n \<in> {FactsCollect, PackagesListUpgradable, ServicesList, RebootCheckRequired} then decodeEmpty n
     else if n = PackagesApplySecurity then decodeApplySecurity
     else if n = PackagesApplyAll then decodeApplyAll
     else if n = HostReboot then decodeReboot n else decodeUnit n)"
  using assms by (cases rule: Lookup_cases) (auto simp: intent_names)

lemma Decode_via:
  assumes "n \<in> set (map fst catalogue)"
  shows "\<exists>s. Decode n raw =
    (case (if n \<in> {FactsCollect, PackagesListUpgradable, ServicesList, RebootCheckRequired} then decodeEmpty n
     else if n = PackagesApplySecurity then decodeApplySecurity
     else if n = PackagesApplyAll then decodeApplyAll
     else if n = HostReboot then decodeReboot n else decodeUnit n) raw of
       Inl e \<Rightarrow> Inl (BadParams n e) | Inr p \<Rightarrow> Inr (s, p))"
proof -
  obtain s where s: "Lookup n = Some s" using assms by (auto simp: Lookup_def dest!: weak_map_of_SomeI)
  then show ?thesis unfolding Decode_def s option.case Lookup_decoder [OF s, symmetric] by blast
qed

text \<open>Property C31: decoding inverts encoding: for every parameter set inside the validators, what
  \<open>json.Marshal\<close> writes for it decodes, under its intent, to exactly that parameter set.\<close>

theorem params_roundtrip:
  assumes "params_ok p"
  shows "\<exists>raw s. json_marshal (params_json p) = Inr raw \<and> Decode (params_Intent p) raw = Inr (s, p)"
proof (cases p)
  case (NoParams n)
  with assms have "\<exists>s. Decode n ''{}'' = Inr (s, p)"
    using Decode_via [of n "''{}''"] by (simp add: catalogue_keys decodeEmpty_roundtrip) blast
  with NoParams show ?thesis by (simp add: json_marshal_def)
next
  case (UnitParams n u)
  with assms have u: "unit_safe u" and n: "n = ServiceStart \<or> n = ServiceStop \<or> n = ServiceRestart" by auto
  have "\<exists>s. Decode n (''{\"unit\":\"'' @ u @ ''\"}'') = Inr (s, p)"
    using Decode_via [of n "''{\"unit\":\"'' @ u @ ''\"}''"] n
    by (elim disjE) (simp_all add: catalogue_keys intent_names decodeUnit_roundtrip [OF u, simplified] UnitParams)
  with UnitParams show ?thesis
    by (simp add: json_marshal_def marshal_plain [OF plain_strings(1) [OF u]])
next
  case (ApplyParams n r)
  show ?thesis
  proof (cases "n = PackagesApplyAll")
    case True
    with ApplyParams show ?thesis
      using Decode_via [of n "''{\"rebootIfRequired\":true}''"] Decode_via [of n "''{\"rebootIfRequired\":false}''"]
        decodeApplyAll_roundtrip [of r]
      by (cases r) (simp_all add: json_marshal_def catalogue_keys intent_names)
  next
    case False
    with ApplyParams assms have "n = PackagesApplySecurity" "r = False" by auto
    with ApplyParams show ?thesis
      using Decode_via [of n "''{}''"] decodeEmpty_roundtrip(2) by (simp add: json_marshal_def catalogue_keys intent_names)
  qed
next
  case (RebootParams n d m)
  with assms have m: "messagePattern m" and n: "n = HostReboot" and ok: "params_ok (RebootParams n d m)" by simp_all
  let ?raw = "''{\"delaySeconds\":'' @ itoa d @ '',\"message\":\"'' @ m @ ''\"}''"
  have "\<exists>s. Decode n ?raw = Inr (s, p)"
    using Decode_via [of n ?raw] decodeReboot_roundtrip [OF ok] n RebootParams
    by (simp add: catalogue_keys intent_names)
  with RebootParams show ?thesis
    by (simp add: json_marshal_def marshal_plain [OF plain_strings(2) [OF m]]
        marshal_number_def number_literal_itoa)
qed

theorem params_roundtrip_witness:
  "params_ok (RebootParams HostReboot 60 ''kernel update'') \<and>
   (\<exists>raw s. json_marshal (params_json (RebootParams HostReboot 60 ''kernel update'')) = Inr raw \<and>
      Decode HostReboot raw = Inr (s, RebootParams HostReboot 60 ''kernel update''))"
proof -
  have "params_ok (RebootParams HostReboot 60 ''kernel update'')" by code_simp
  with params_roundtrip [OF this] show ?thesis by simp
qed

text \<open>Trailing data is not always refused, contrary to the comment of \<open>strictUnmarshal\<close>:
  \<open>Decoder.More\<close> answers no in front of a closing bracket or brace, so that bytes behind one pass
  the check, while any other trailing byte is refused.\<close>

theorem strictUnmarshal_trailing:
  "decodeEmpty FactsCollect ''{}} rm -rf'' = Inr (NoParams FactsCollect) \<and>
   decodeEmpty FactsCollect ''{}]'' = Inr (NoParams FactsCollect) \<and>
   decodeEmpty FactsCollect ''{} {}'' = Inl TrailingData"
  by code_simp

end
