(* ===== verification/Window.thy ===== *)
theory Window
  imports GoTime Go_Strings
begin

text \<open>
  \<open>internal/policy/window.go\<close>: weekly maintenance windows. \<open>ParseWindow\<close> and its parts are modelled
  with each of their errors; \<open>Contains\<close> and \<open>NextOpen\<close> run over the model of package \<open>time\<close>. The
  specification is \<open>open_at\<close>: an instant is inside a window when some day on which it opens has
  its opening at or before the instant and less than the window's length before it.
\<close>

section \<open>The data\<close>

record window =
  always :: bool
  days :: "bool list"            \<comment> \<open>\<open>[7]bool\<close>, indexed by weekday\<close>
  startMinutes :: int
  lengthMinutes :: int
  loc :: "location option"       \<comment> \<open>\<open>None\<close> is Go's nil\<close>
  wtext :: bytes

definition zero_window :: window where
  "zero_window = \<lparr>always = False, days = replicate 7 False, startMinutes = 0, lengthMinutes = 0,
     loc = None, wtext = []\<rparr>"

datatype window_error =
    WindowForm bytes | NotAWeekday bytes | NoDays bytes | NotARange bytes | NotAClock bytes
  | HourRange bytes | MinuteRange bytes | EqualStartEnd bytes

definition weekdayNames :: "(bytes \<times> nat) list" where
  "weekdayNames = [
     (''sun'', 0), (''sunday'', 0), (''mon'', 1), (''monday'', 1), (''tue'', 2), (''tuesday'', 2),
     (''wed'', 3), (''wednesday'', 3), (''thu'', 4), (''thursday'', 4), (''fri'', 5), (''friday'', 5),
     (''sat'', 6), (''saturday'', 6)]"

section \<open>Parsing\<close>

text \<open>The loop \<open>for d := start; ; d = (d + 1) % 7\<close>, which sets days until it reaches \<open>end\<close>.\<close>

function set_range :: "nat \<Rightarrow> nat \<Rightarrow> bool list \<Rightarrow> bool list" where
  "set_range d e ds =
     (if d = e \<or> 7 \<le> d \<or> 7 \<le> e then ds[d := True] else set_range ((d + 1) mod 7) e (ds[d := True]))"
  by pat_completeness auto
termination
proof (relation "measure (\<lambda>(d, e, _). if d \<le> e then e - d else e + 7 - d)")
  fix d e :: nat and ds :: "bool list"
  assume "\<not> (d = e \<or> 7 \<le> d \<or> 7 \<le> e)"
  then show "(((d + 1) mod 7, e, ds[d := True]), d, e, ds) \<in>
      measure (\<lambda>(d, e, _). if d \<le> e then e - d else e + 7 - d)"
    by (cases "d = 6") auto
qed simp

declare set_range.simps [simp del]

text \<open>One iteration of the loop over the comma-separated parts.\<close>

definition parse_part :: "bytes \<Rightarrow> bool list \<Rightarrow> (window_error, bool list) result" where
  "parse_part part0 ds =
     (let part = trim_space part0 in
      if part = [] then Inr ds
      else let (from, to, isRange) = cut (CHR ''-'') part in
        case map_of weekdayNames (trim_space from) of
          None \<Rightarrow> Inl (NotAWeekday from)
        | Some start \<Rightarrow>
            if \<not> isRange then Inr (ds[start := True])
            else case map_of weekdayNames (trim_space to) of
                None \<Rightarrow> Inl (NotAWeekday to)
              | Some to_day \<Rightarrow> Inr (set_range start to_day ds))"

fun parse_parts :: "bytes list \<Rightarrow> bool list \<Rightarrow> (window_error, bool list) result" where
  "parse_parts [] ds = Inr ds"
| "parse_parts (p # ps) ds = bind_res (parse_part p ds) (parse_parts ps)"

definition parseDays :: "bytes \<Rightarrow> (window_error, bool list) result" where
  "parseDays spec =
     (let lower = to_lower (trim_space spec) in
      if lower \<in> {''daily'', ''any'', ''*'', ''everyday''} then Inr (replicate 7 True)
      else bind_res (parse_parts (split_on (CHR '','') lower) (replicate 7 False))
        (\<lambda>ds. if True \<in> set ds then Inr ds else Inl (NoDays spec)))"

definition parseClock :: "bytes \<Rightarrow> (window_error, int) result" where
  "parseClock s0 =
     (let s = trim_space s0; (hh, mm, ok) = cut (CHR '':'') s in
      if \<not> ok then Inl (NotAClock s)
      else case parse_int64 hh of
        None \<Rightarrow> Inl (HourRange s)
      | Some h \<Rightarrow>
          if h < 0 \<or> 23 < h then Inl (HourRange s)
          else case parse_int64 mm of
            None \<Rightarrow> Inl (MinuteRange s)
          | Some m \<Rightarrow> if m < 0 \<or> 59 < m then Inl (MinuteRange s) else Inr (h * 60 + m))"

definition parseTimeRange :: "bytes \<Rightarrow> (window_error, int \<times> int) result" where
  "parseTimeRange spec =
     (let (from, to, ok) = cut (CHR ''-'') spec in
      if \<not> ok then Inl (NotARange spec)
      else bind_res (parseClock from) (\<lambda>start.
           bind_res (parseClock to) (\<lambda>stop. Inr (start, stop))))"

definition ParseWindow :: "bytes \<Rightarrow> location option \<Rightarrow> (window_error, window) result" where
  "ParseWindow spec0 loc0 =
     (let l = (case loc0 of None \<Rightarrow> UTC | Some l \<Rightarrow> l); spec = trim_space spec0 in
      if spec = [] then
        Inr \<lparr>always = True, days = replicate 7 False, startMinutes = 0, lengthMinutes = 0,
             loc = Some l, wtext = []\<rparr>
      else bind_res
        (case str_fields spec of
           [ts] \<Rightarrow> Inr (''daily'', ts)
         | [ds, ts] \<Rightarrow> Inr (ds, ts)
         | _ \<Rightarrow> Inl (WindowForm spec))
        (\<lambda>(dayspec, timespec).
          bind_res (parseDays dayspec) (\<lambda>ds.
          bind_res (parseTimeRange timespec) (\<lambda>(start, stop).
            if start = stop \<and> start \<noteq> 0 then Inl (EqualStartEnd timespec)
            else let len = stop - start; len = (if len \<le> 0 then len + 24 * 60 else len) in
              Inr \<lparr>always = False, days = ds, startMinutes = start, lengthMinutes = len,
                   loc = Some l, wtext = spec\<rparr>))))"

section \<open>Evaluation\<close>

definition window_Always :: "window \<Rightarrow> bool" where
  "window_Always w = always w"

definition window_String :: "window \<Rightarrow> bytes" where
  "window_String w = (if always w \<or> wtext w = [] then ''always'' else wtext w)"

definition window_loc :: "window \<Rightarrow> location" where
  "window_loc w = (case loc w of None \<Rightarrow> UTC | Some l \<Rightarrow> l)"

text \<open>The opening of the window on a day, \<open>time.Date(y, m, d, start/60, start%60, 0, 0, loc)\<close>.\<close>

definition open_instant :: "window \<Rightarrow> int \<Rightarrow> instant" where
  "open_instant w day = go_date (window_loc w) day (startMinutes w div 60 * 3600 + startMinutes w mod 60 * 60) 0"

definition window_length :: "window \<Rightarrow> duration" where
  "window_length w = duration_mul (lengthMinutes w) Minute"

text \<open>The body of the loop of \<open>Contains\<close>, for one day offset.\<close>

definition contains_on :: "window \<Rightarrow> instant \<Rightarrow> int \<Rightarrow> bool" where
  "contains_on w t dayOffset =
     (let day = day_of (window_loc w) (add_days (window_loc w) t dayOffset) in
      days w ! weekday day \<and> open_instant w day \<le> t \<and> t < open_instant w day + window_length w)"

definition Contains :: "window \<Rightarrow> instant \<Rightarrow> bool" where
  "Contains w t \<longleftrightarrow> always w \<or> list_ex (contains_on w t) [0, - 1]"

fun next_open_from :: "window \<Rightarrow> instant \<Rightarrow> int list \<Rightarrow> instant" where
  "next_open_from w t [] = 0"
| "next_open_from w t (k # ks) =
     (let day = day_of (window_loc w) (add_days (window_loc w) t k) in
      if \<not> days w ! weekday day then next_open_from w t ks
      else if t \<le> open_instant w day then open_instant w day
      else next_open_from w t ks)"

definition NextOpen :: "window \<Rightarrow> instant \<Rightarrow> instant" where
  "NextOpen w t =
     (if always w then t else if Contains w t then t
      else next_open_from w t [0, 1, 2, 3, 4, 5, 6, 7])"

section \<open>What parsing guarantees\<close>

definition window_wf :: "window \<Rightarrow> bool" where
  "window_wf w \<longleftrightarrow> length (days w) = 7 \<and>
     (always w \<or> True \<in> set (days w) \<and> 0 \<le> startMinutes w \<and> startMinutes w < 1440 \<and>
        0 < lengthMinutes w \<and> lengthMinutes w \<le> 1440)"

lemma set_range_length [simp]: "length (set_range d e ds) = length ds"
  by (induction d e ds rule: set_range.induct) (simp add: set_range.simps)

lemma parse_part_length: "parse_part p ds = Inr ds' \<Longrightarrow> length ds' = length ds"
  by (auto simp: parse_part_def Let_def split: if_splits option.splits prod.splits)

lemma parse_parts_length: "parse_parts ps ds = Inr ds' \<Longrightarrow> length ds' = length ds"
  by (induction ps arbitrary: ds) (auto simp: res_simps dest: parse_part_length)

lemma parseDays_ok: "parseDays spec = Inr ds \<Longrightarrow> length ds = 7 \<and> True \<in> set ds"
  by (auto simp: parseDays_def Let_def res_simps dest!: parse_parts_length split: if_splits)

lemma parseClock_bounds: "parseClock s = Inr m \<Longrightarrow> 0 \<le> m \<and> m < 1440"
  by (auto simp: parseClock_def Let_def split: if_splits option.splits prod.splits)

lemma parseTimeRange_bounds:
  "parseTimeRange s = Inr (a, b) \<Longrightarrow> 0 \<le> a \<and> a < 1440 \<and> 0 \<le> b \<and> b < 1440"
  by (auto simp: parseTimeRange_def Let_def res_simps dest: parseClock_bounds split: if_splits prod.splits)

text \<open>The two ways in which a specification is accepted.\<close>

lemma ParseWindow_elim:
  assumes "ParseWindow spec l = Inr w"
  obtains (empty) "w = \<lparr>always = True, days = replicate 7 False, startMinutes = 0, lengthMinutes = 0,
        loc = Some (case l of None \<Rightarrow> UTC | Some l \<Rightarrow> l), wtext = []\<rparr>" "trim_space spec = []"
  | (spec) ds ts start stop where "parseDays ds = Inr (days w)" "parseTimeRange ts = Inr (start, stop)"
      "start \<noteq> stop \<or> start = 0" "\<not> always w" "startMinutes w = start"
      "lengthMinutes w = (if stop \<le> start then stop - start + 1440 else stop - start)"
      "loc w = Some (case l of None \<Rightarrow> UTC | Some l \<Rightarrow> l)" "wtext w = trim_space spec"
proof (cases "trim_space spec = []")
  case True
  with assms show thesis by (intro empty) (auto simp: ParseWindow_def Let_def)
next
  case False
  then obtain ds ts days' start stop where "parseDays ds = Inr days'"
    "parseTimeRange ts = Inr (start, stop)" "start \<noteq> stop \<or> start = 0"
    "w = \<lparr>always = False, days = days', startMinutes = start,
        lengthMinutes = (if stop \<le> start then stop - start + 1440 else stop - start),
        loc = Some (case l of None \<Rightarrow> UTC | Some l \<Rightarrow> l), wtext = trim_space spec\<rparr>"
    using assms unfolding ParseWindow_def Let_def
    by (auto simp: bind_res_eq_Inr split: if_splits prod.splits)
  then show thesis by (intro spec [of ds ts start stop]) auto
qed

text \<open>Every window that parses is well formed: seven day flags with at least one set,
  an opening within the day and a length between one minute and twenty-four hours, unless it is
  the window that is always open.\<close>

theorem ParseWindow_wf:
  assumes "ParseWindow spec l = Inr w"
  shows "window_wf w"
  using assms
proof (cases rule: ParseWindow_elim)
  case (spec ds ts start stop)
  with parseDays_ok [OF spec(1)] parseTimeRange_bounds [OF spec(2)] show ?thesis
    by (auto simp: window_wf_def)
qed (simp add: window_wf_def)

theorem ParseWindow_wf_witness:
  "\<exists>w. ParseWindow ''Fri-Mon 22:00-02:00'' None = Inr w \<and> lengthMinutes w = 240 \<and> window_wf w"
proof -
  have "isl (ParseWindow ''Fri-Mon 22:00-02:00'' None) = False \<and>
      lengthMinutes (projr (ParseWindow ''Fri-Mon 22:00-02:00'' None)) = 240" by code_simp
  then obtain w where w: "ParseWindow ''Fri-Mon 22:00-02:00'' None = Inr w" "lengthMinutes w = 240"
    by (cases "ParseWindow ''Fri-Mon 22:00-02:00'' None") auto
  with ParseWindow_wf [OF w(1)] show ?thesis by blast
qed

section \<open>What evaluation guarantees\<close>

text \<open>The specification: some day on which the window opens has opened it and not closed it yet.\<close>

definition open_at :: "window \<Rightarrow> instant \<Rightarrow> bool" where
  "open_at w t \<longleftrightarrow> always w \<or>
     (\<exists>day. days w ! weekday day \<and> open_instant w day \<le> t \<and> t < open_instant w day + window_length w)"

text \<open>In every zone, daylight saving included, an instant that \<open>Contains\<close> accepts is inside.\<close>

lemma Contains_sound: "Contains w t \<Longrightarrow> open_at w t"
  by (auto simp: Contains_def contains_on_def open_at_def Let_def)

lemma window_length_wf:
  "window_wf w \<Longrightarrow> \<not> always w \<Longrightarrow> window_length w = lengthMinutes w * Minute"
  unfolding window_length_def duration_mul_def window_wf_def
  by (intro wrap64_id) (simp add: in_int64_def int64_min_def int64_max_def Minute_def)

lemma open_instant_fixed:
  assumes "fixed_zone (window_loc w)"
  shows "open_instant w d = go_date (window_loc w) d 0 0 + startMinutes w * Minute"
proof -
  have "startMinutes w div 60 * 3600 + startMinutes w mod 60 * 60 = startMinutes w * 60"
    by presburger
  then show ?thesis
    by (simp add: open_instant_def go_date_fixed [OF assms] Second_def Minute_def algebra_simps)
qed

lemma open_instant_step:
  assumes "fixed_zone (window_loc w)"
  shows "open_instant w (d + k) = open_instant w d + k * 86400 * Second"
  by (simp add: open_instant_fixed [OF assms] go_date_fixed [OF assms] algebra_simps)

lemma day_offset_fixed:
  "fixed_zone (window_loc w) \<Longrightarrow> day_of (window_loc w) (add_days (window_loc w) t k) = day_of (window_loc w) t + k"
  by (simp add: add_days_fixed day_of_fixed_shift)

text \<open>Zones with transitions: all offsets lie between two bounds.\<close>

definition offsets_within :: "int \<Rightarrow> int \<Rightarrow> location \<Rightarrow> bool" where
  "offsets_within lo hi l \<longleftrightarrow> (\<forall>off \<in> insert (first_offset l) (snd ` set (transitions l)). lo \<le> off \<and> off \<le> hi)"

lemma lookup_from_offset: "fst (lookup_from off st txs sec) \<in> insert off (snd ` set txs)"
proof (induction txs arbitrary: off st)
  case (Cons x txs)
  obtain tx off' where x: "x = (tx, off')" by (cases x)
  with Cons.IH [of off' "Some tx"] show ?case by auto
qed simp

lemma offset_within: "offsets_within lo hi l \<Longrightarrow> lo \<le> offset_at l sec \<and> offset_at l sec \<le> hi"
  using lookup_from_offset [of "first_offset l" None "transitions l" sec] unfolding offsets_within_def offset_at_def lookup_def
  by blast

lemma go_date_offset:
  assumes "offsets_within lo hi l"
  obtains off where "lo \<le> off" "off \<le> hi" "go_date l day sec ns = (day * 86400 + sec - off) * Second + ns"
proof -
  let ?u = "day * 86400 + sec"
  obtain off st en where l: "lookup l ?u = (off, st, en)" by (metis prod_cases3)
  then have "off = offset_at l ?u" by (simp add: offset_at_def)
  with offset_within [OF assms] have off: "lo \<le> off" "off \<le> hi" by simp_all
  define off' where "off' = (if off \<noteq> 0 \<and> ((case st of None \<Rightarrow> False | Some s \<Rightarrow> ?u - off < s) \<or>
      (case en of None \<Rightarrow> False | Some e \<Rightarrow> e \<le> ?u - off)) then offset_at l (?u - off) else off)"
  then have off': "off' = off \<or> off' = offset_at l (?u - off)" "go_date l day sec ns = (?u - off') * Second + ns"
    by (simp, simp add: go_date_def l Let_def)
  with off offset_within [OF assms, of "?u - off"] show thesis by (intro that [of off']) auto
qed

text \<open>No change of the clock by \<open>hi - lo\<close> seconds moves an opening into the day before, or a closing past the next day;
  and the day before an instant, at its time of day, exists.\<close>

definition clear_of_changes :: "int \<Rightarrow> int \<Rightarrow> window \<Rightarrow> bool" where
  "clear_of_changes lo hi w \<longleftrightarrow> offsets_within lo hi (window_loc w) \<and>
     hi - lo \<le> startMinutes w * 60 \<and> (startMinutes w + lengthMinutes w) * 60 + (hi - lo) \<le> 2 * 86400"

definition yesterday_exists :: "location \<Rightarrow> instant \<Rightarrow> bool" where
  "yesterday_exists l t \<longleftrightarrow> (\<forall>k \<in> {0, - 1}. day_of l (add_days l t k) = day_of l t + k)"

text \<open>Only today's and yesterday's openings can be the one in force.\<close>

lemma open_day_near:
  assumes wf: "window_wf w" "\<not> always w" and cl: "clear_of_changes lo hi w"
    and "open_instant w d \<le> t" and "t < open_instant w d + window_length w"
  shows "d = day_of (window_loc w) t \<or> d = day_of (window_loc w) t - 1"
proof -
  have zone: "offsets_within lo hi (window_loc w)" using cl by (simp add: clear_of_changes_def)
  have minutes: "startMinutes w div 60 * 3600 + startMinutes w mod 60 * 60 = startMinutes w * 60" by presburger
  obtain off where off: "lo \<le> off" "off \<le> hi"
    "open_instant w d = (d * 86400 + startMinutes w * 60 - off) * Second"
    unfolding open_instant_def minutes
    by (rule go_date_offset [OF zone, of d "startMinutes w * 60" 0]) (simp only: add_0_right)
  let ?s = "t div Second"
  have t: "?s * Second \<le> t" "t < (?s + 1) * Second"
    using div_mult_mod_eq [of t Second] pos_mod_bound [of Second t] pos_mod_sign [of Second t]
    by (simp_all add: Second_def)
  have len: "window_length w = lengthMinutes w * 60 * Second"
    by (simp add: window_length_wf [OF wf] Minute_def Second_def)
  have "d * 86400 + startMinutes w * 60 - off < ?s + 1" "?s < d * 86400 + startMinutes w * 60 - off + lengthMinutes w * 60"
    using assms(4,5) t unfolding off(3) len by (simp_all add: Second_def)
  moreover have "lo \<le> offset_at (window_loc w) ?s \<and> offset_at (window_loc w) ?s \<le> hi" by (rule offset_within [OF zone])
  moreover have "hi - lo \<le> startMinutes w * 60" "startMinutes w * 60 + lengthMinutes w * 60 + (hi - lo) \<le> 2 * 86400"
    using cl by (simp_all add: clear_of_changes_def)
  ultimately have "d * 86400 \<le> wall (window_loc w) t" "wall (window_loc w) t < d * 86400 + 2 * 86400"
    using off(1,2) unfolding wall_def by linarith+
  then have "d \<le> day_of (window_loc w) t" "day_of (window_loc w) t < d + 2" unfolding day_of_def by linarith+
  then show ?thesis by linarith
qed

lemma Contains_exact:
  assumes "window_wf w" and "always w \<or> clear_of_changes lo hi w \<and> yesterday_exists (window_loc w) t"
  shows "Contains w t \<longleftrightarrow> open_at w t"
proof
  assume o: "open_at w t"
  show "Contains w t"
  proof (cases "always w")
    case False
    with o obtain d where d: "days w ! weekday d" "open_instant w d \<le> t"
      "t < open_instant w d + window_length w" by (auto simp: open_at_def)
    from False assms(2) have cl: "clear_of_changes lo hi w" and y: "yesterday_exists (window_loc w) t" by simp_all
    from open_day_near [OF assms(1) False cl d(2,3)] d y show ?thesis
      by (auto simp: Contains_def contains_on_def Let_def yesterday_exists_def)
  qed (simp add: Contains_def)
qed (rule Contains_sound)

text \<open>A zone with one offset is clear of changes.\<close>

lemma clear_fixed:
  assumes "window_wf w" "\<not> always w" "fixed_zone (window_loc w)"
  shows "clear_of_changes (first_offset (window_loc w)) (first_offset (window_loc w)) w"
    "yesterday_exists (window_loc w) t"
  using assms by (simp_all add: clear_of_changes_def offsets_within_def fixed_zone_def [symmetric] window_wf_def yesterday_exists_def
      day_offset_fixed) (simp add: fixed_zone_def)

lemma Contains_open_at:
  assumes "window_wf w" and "fixed_zone (window_loc w)"
  shows "Contains w t \<longleftrightarrow> open_at w t"
  using Contains_exact [OF assms(1)] clear_fixed [OF assms(1) _ assms(2)] by blast

text \<open>Property C29: in any zone, clock changes included, \<open>Contains\<close> is exactly the specification for a well-formed
  window that opens and closes far enough from the ends of its days that no clock change of the zone can carry
  it over them, at an instant whose time of day existed the day before: looking at today's and yesterday's openings
  misses none, those that cross midnight included. In a zone of one offset every window that parses is such
  a window.\<close>

theorem Contains_iff_open_at:
  assumes "window_wf w" and "clear_of_changes lo hi w" and "yesterday_exists (window_loc w) t"
  shows "Contains w t \<longleftrightarrow> open_at w t"
  using Contains_exact [OF assms(1)] assms(2,3) by blast

text \<open>Saturday 22:00 to 02:00, UTC. Day 6 of the calendar was a Sunday.\<close>

definition saturday_night :: window where
  "saturday_night = \<lparr>always = False, days = [False, False, False, False, False, False, True],
     startMinutes = 1320, lengthMinutes = 240, loc = None, wtext = ''Sat 22:00-02:00''\<rparr>"

lemma saturday_night_wf: "window_wf saturday_night" "fixed_zone (window_loc saturday_night)"
  by (simp_all add: saturday_night_def window_wf_def window_loc_def)

text \<open>Central Europe in the spring of 2026: the clock goes from 02:00 to 03:00 on Sunday 29 March, at 01:00 UTC; in
  autumn it goes back. And the window of the documentation, \<open>Sun 03:00-05:00\<close>.\<close>

definition central_europe :: location where
  "central_europe = \<lparr>first_offset = 3600, transitions = [(739703 * 86400 + 3600, 7200), (739913 * 86400 + 3600, 3600)]\<rparr>"

definition sunday_morning :: window where
  "sunday_morning = \<lparr>always = False, days = [True, False, False, False, False, False, False],
     startMinutes = 180, lengthMinutes = 120, loc = Some central_europe, wtext = ''Sun 03:00-05:00''\<rparr>"

theorem Contains_iff_open_at_witness:
  "(Contains sunday_morning ((739703 * 86400 + 3600) * Second) \<longleftrightarrow> open_at sunday_morning ((739703 * 86400 + 3600) * Second)) \<and>
   Contains sunday_morning ((739703 * 86400 + 3600) * Second) \<and>
   (Contains sunday_morning ((739703 * 86400 + 3 * 3600) * Second) \<longleftrightarrow> open_at sunday_morning ((739703 * 86400 + 3 * 3600) * Second)) \<and>
   \<not> Contains sunday_morning ((739703 * 86400 + 3 * 3600) * Second) \<and> \<not> Contains sunday_morning ((739703 * 86400 + 3599) * Second)"
proof -
  have wf: "window_wf sunday_morning" by (simp add: sunday_morning_def window_wf_def)
  have cl: "clear_of_changes 3600 7200 sunday_morning"
    by (simp add: clear_of_changes_def sunday_morning_def offsets_within_def window_loc_def central_europe_def)
  have y: "yesterday_exists (window_loc sunday_morning) ((739703 * 86400 + 3600) * Second)"
    "yesterday_exists (window_loc sunday_morning) ((739703 * 86400 + 3 * 3600) * Second)" by code_simp+
  have "Contains sunday_morning ((739703 * 86400 + 3600) * Second)" "\<not> Contains sunday_morning ((739703 * 86400 + 3 * 3600) * Second)"
    "\<not> Contains sunday_morning ((739703 * 86400 + 3599) * Second)" by code_simp+
  with Contains_iff_open_at [OF wf cl y(1)] Contains_iff_open_at [OF wf cl y(2)] show ?thesis by blast
qed

text \<open>The condition is needed. A window of a minute less than a day that opens at 23:30 on the eve of the lost hour is
  open for 1439 minutes, until 00:29 on Monday, and \<open>Contains\<close> no longer sees it at 00:15.\<close>

theorem clock_change_cuts_a_long_window:
  "let w = sunday_morning\<lparr>days := [False, False, False, False, False, False, True], startMinutes := 1410, lengthMinutes := 1439\<rparr>;
       t = (739703 * 86400 + 22 * 3600 + 900) * Second
   in window_wf w \<and> open_at w t \<and> \<not> Contains w t"
proof -
  let ?w = "sunday_morning\<lparr>days := [False, False, False, False, False, False, True], startMinutes := 1410, lengthMinutes := 1439\<rparr>"
  let ?t = "(739703 * 86400 + 22 * 3600 + 900) * Second"
  have "window_wf ?w" by (simp add: sunday_morning_def window_wf_def)
  moreover have "days ?w ! weekday 739702 \<and> open_instant ?w 739702 \<le> ?t \<and> ?t < open_instant ?w 739702 + window_length ?w" by code_simp
  then have "open_at ?w ?t" unfolding open_at_def by blast
  moreover have "\<not> Contains ?w ?t" by code_simp
  ultimately show ?thesis by (simp add: Let_def)
qed

text \<open>The loop of \<open>NextOpen\<close> stops at the first day that opens the window from now on.\<close>

definition opens_on :: "window \<Rightarrow> instant \<Rightarrow> int \<Rightarrow> bool" where
  "opens_on w t k \<longleftrightarrow> days w ! weekday (day_of (window_loc w) t + k) \<and>
     t \<le> open_instant w (day_of (window_loc w) t + k)"

lemma next_open_from_find:
  assumes "fixed_zone (window_loc w)"
  shows "next_open_from w t ks =
    (case find (opens_on w t) ks of None \<Rightarrow> 0 | Some k \<Rightarrow> open_instant w (day_of (window_loc w) t + k))"
  by (induction ks) (auto simp: Let_def day_offset_fixed [OF assms(1)] opens_on_def)

lemma weekday_reached:
  assumes "n < 7"
  shows "\<exists>k \<in> {1..7}. weekday (d + k) = n"
proof -
  define q where "q = (d + 1) div 7"
  define m where "m = (d + 1) mod 7"
  have d: "d + 1 = 7 * q + m" by (simp add: q_def m_def)
  have m: "0 \<le> m" "m < 7" by (simp_all add: m_def)
  define k where "k = (if m < int n then int n - m else int n - m + 7)"
  have "d + k + 1 = int n + 7 * (if m < int n then q else q + 1)" using d by (simp add: k_def)
  then have "(d + k + 1) mod 7 = int n" using assms by simp
  then have "weekday (d + k) = n" by (simp add: weekday_def)
  moreover have "k \<in> {1..7}" using m assms by (simp add: k_def)
  ultimately show ?thesis by blast
qed

lemma open_instant_less:
  assumes "fixed_zone (window_loc w)" and "open_instant w d < open_instant w e"
  shows "d < e"
  using assms(2) open_instant_step [OF assms(1), of d "e - d"] by (simp add: Second_def)

lemma open_day_after:
  assumes wf: "window_wf w" "\<not> always w" and fz: "fixed_zone (window_loc w)" and "t < open_instant w d"
  shows "day_of (window_loc w) t \<le> d"
proof -
  let ?D = "day_of (window_loc w) t"
  have "go_date (window_loc w) ?D 0 0 \<le> t" using day_of_fixed_iff [OF fz, of t ?D] by simp
  moreover have "open_instant w d < go_date (window_loc w) d 0 0 + 86400 * Second"
    using wf by (simp add: open_instant_fixed [OF fz] window_wf_def Minute_def Second_def)
  moreover have "go_date (window_loc w) ?D 0 0 - go_date (window_loc w) d 0 0 = (?D - d) * (86400 * Second)"
    by (simp add: go_date_fixed [OF fz] algebra_simps)
  ultimately have "(?D - d) * (86400 * Second) < 86400 * Second" using assms(4) by linarith
  then show ?thesis by (simp add: Second_def)
qed

lemma opens_within_a_week:
  assumes "window_wf w" and "\<not> always w" and fz: "fixed_zone (window_loc w)"
  shows "\<exists>k \<in> {1..7}. opens_on w t k"
proof -
  let ?D = "day_of (window_loc w) t"
  obtain n where n: "n < 7" "days w ! n" using assms(1,2) by (auto simp: window_wf_def in_set_conv_nth)
  from weekday_reached [OF n(1), of ?D] obtain k where k: "k \<in> {1..7}" "weekday (?D + k) = n" by blast
  have "t < go_date (window_loc w) ?D 0 0 + 86400 * Second"
    using day_of_fixed_iff [OF fz, of t ?D] by simp
  moreover have "0 \<le> startMinutes w * Minute" using assms(1,2) by (simp add: window_wf_def Minute_def)
  moreover have "86400 * Second \<le> k * 86400 * Second" using k(1) by (simp add: Second_def)
  ultimately have "t \<le> open_instant w (?D + k)"
    using open_instant_step [OF fz, of ?D k] open_instant_fixed [OF fz, of ?D] by linarith
  with k n show ?thesis by (auto simp: opens_on_def)
qed

lemma next_open_first:
  assumes "window_wf w" and "\<not> always w" and fz: "fixed_zone (window_loc w)"
  obtains k where "next_open_from w t [0, 1, 2, 3, 4, 5, 6, 7] = open_instant w (day_of (window_loc w) t + k)"
    "opens_on w t k" "\<And>j. 0 \<le> j \<Longrightarrow> j < k \<Longrightarrow> \<not> opens_on w t j"
proof -
  let ?ks = "map int [0..<8]"
  have ks: "[0, 1, 2, 3, 4, 5, 6, 7] = ?ks" by (simp add: upt_rec)
  from opens_within_a_week [OF assms] obtain k where "k \<in> {1..7}" "opens_on w t k" by blast
  then have "opens_on w t (?ks ! nat k)" "nat k < 8" by (auto simp: nth_append)
  then have "find (opens_on w t) ?ks \<noteq> None" by (auto simp: find_None_iff image_iff Bex_def)
  then obtain k' where k': "find (opens_on w t) ?ks = Some k'" by blast
  then obtain i where "i < length ?ks" "opens_on w t k'" "k' = ?ks ! i"
    "\<forall>j < i. \<not> opens_on w t (?ks ! j)"
    using iffD1 [OF find_Some_iff k'] by metis
  with k' have i: "find (opens_on w t) ?ks = Some (int i)" "opens_on w t (int i)" "i < 8"
    "\<And>j. j < i \<Longrightarrow> \<not> opens_on w t (?ks ! j)"
    by (simp_all del: upt_rec_numeral)
  have "next_open_from w t ?ks = open_instant w (day_of (window_loc w) t + int i)"
    by (simp only: next_open_from_find [OF fz] i option.case)
  moreover have "\<not> opens_on w t j" if "0 \<le> j" "j < int i" for j
    using i(3) i(4) [of "nat j"] that by (simp del: upt_rec_numeral)
  ultimately show thesis using that i(2) ks by metis
qed

text \<open>\<open>NextOpen\<close> finds the next opening: what it returns is not before the given time,
  lies inside the window, and no instant from the given time up to it does. Its loop over eight
  days is long enough, so the zero time is never the answer.\<close>

theorem NextOpen_first:
  assumes wf: "window_wf w" and fz: "fixed_zone (window_loc w)"
  shows "t \<le> NextOpen w t \<and> open_at w (NextOpen w t) \<and> (\<forall>u. t \<le> u \<and> u < NextOpen w t \<longrightarrow> \<not> open_at w u)"
proof (cases "Contains w t")
  case True
  then show ?thesis using Contains_sound [of w t] by (auto simp: NextOpen_def)
next
  case False
  let ?D = "day_of (window_loc w) t"
  have na: "\<not> always w" using False by (simp add: Contains_def)
  obtain k where k: "NextOpen w t = open_instant w (?D + k)" "opens_on w t k"
    "\<And>j. 0 \<le> j \<Longrightarrow> j < k \<Longrightarrow> \<not> opens_on w t j"
    using next_open_first [OF wf na fz, of t] False na by (auto simp: NextOpen_def)
  have len: "0 < window_length w"
    using wf na by (auto simp: window_length_wf window_wf_def Minute_def)
  have "\<not> open_at w u" if u: "t \<le> u" "u < NextOpen w t" for u
  proof
    assume "open_at w u"
    with na obtain d where d: "days w ! weekday d" "open_instant w d \<le> u" "u < open_instant w d + window_length w"
      by (auto simp: open_at_def)
    have "t < open_instant w d"
    proof (rule ccontr)
      assume "\<not> t < open_instant w d"
      with d u(1) have "open_at w t" by (auto simp: open_at_def)
      with False Contains_open_at [OF wf fz] show False by simp
    qed
    moreover have "open_instant w d < open_instant w (?D + k)" using d(2) u(2) k(1) by linarith
    ultimately have d2: "opens_on w t (d - ?D)" "d - ?D < k"
      using d(1) open_instant_less [OF fz, of d "?D + k"] by (auto simp: opens_on_def)
    with open_day_after [OF wf na fz \<open>t < open_instant w d\<close>] k(3) [of "d - ?D"] show False by simp
  qed
  with k len show ?thesis by (auto simp: opens_on_def open_at_def)
qed

theorem NextOpen_first_witness:
  "NextOpen saturday_night (2 * 86400 * Second) = (5 * 24 + 22) * 3600 * Second \<and>
   open_at saturday_night (NextOpen saturday_night (2 * 86400 * Second))"
proof -
  have "NextOpen saturday_night (2 * 86400 * Second) = (5 * 24 + 22) * 3600 * Second" by code_simp
  with NextOpen_first [OF saturday_night_wf, of "2 * 86400 * Second"] show ?thesis by blast
qed

end
