(* ===== verification/Glob.thy ===== *)
theory Glob
  imports Go_Strings
begin

text \<open>
  Go's \<open>path/filepath.Match\<close> on a system whose separator is a slash: the shell patterns of
  \<open>services.restartable\<close> and \<open>services.watched\<close>. \<open>None\<close> is \<open>ErrBadPattern\<close>.
\<close>

section \<open>Chunks\<close>

text \<open>\<open>scanChunk\<close>: leading stars, then the pattern up to the next star outside brackets.\<close>

fun scan_plain :: "bool \<Rightarrow> bytes \<Rightarrow> bytes \<times> bytes" where
  "scan_plain inrange [] = ([], [])"
| "scan_plain inrange (c # cs) =
     (if c = CHR 0x5C then
        (case cs of [] \<Rightarrow> ([c], [])
         | d # ds \<Rightarrow> (case scan_plain inrange ds of (a, b) \<Rightarrow> (c # d # a, b)))
      else if c = CHR ''*'' \<and> \<not> inrange then ([], c # cs)
      else (case scan_plain (if c = CHR ''['' then True else if c = CHR '']'' then False else inrange) cs of
              (a, b) \<Rightarrow> (c # a, b)))"

definition scanChunk :: "bytes \<Rightarrow> bool \<times> bytes \<times> bytes" where
  "scanChunk pat =
     (let rest = dropWhile (\<lambda>c. c = CHR ''*'') pat; (chunk, pat') = scan_plain False rest
      in (pat \<noteq> rest, chunk, pat'))"

text \<open>\<open>getEsc\<close>: one character of a class.\<close>

definition getEsc :: "bytes \<Rightarrow> (nat \<times> bytes) option" where
  "getEsc chunk = (case chunk of [] \<Rightarrow> None
    | c # cs \<Rightarrow>
        if c = CHR ''-'' \<or> c = CHR '']'' then None
        else let s = (if c = CHR 0x5C then cs else chunk); w = rune_width s in
          if s = [] \<or> w = 0 \<or> drop w s = [] then None
          else Some (decode_rune s, drop w s))"

lemma getEsc_length [len_simps]: "getEsc chunk = Some (r, rest) \<Longrightarrow> length rest < length chunk"
  by (auto simp: getEsc_def Let_def split: list.splits if_splits)

text \<open>One range, \<open>lo\<close> or \<open>lo-hi\<close>.\<close>

definition get_range :: "bytes \<Rightarrow> (nat \<times> nat \<times> bytes) option" where
  "get_range chunk = (case getEsc chunk of None \<Rightarrow> None
    | Some (lo, rest) \<Rightarrow>
        if rest \<noteq> [] \<and> hd rest = CHR ''-''
        then map_option (\<lambda>(hi, rest'). (lo, hi, rest')) (getEsc (tl rest))
        else Some (lo, lo, rest))"

lemma get_range_length [len_simps]: "get_range chunk = Some (lo, hi, rest) \<Longrightarrow> length rest < length chunk"
  by (fastforce simp: get_range_def split: option.splits if_splits dest: getEsc_length)

text \<open>The ranges of a class up to its bracket: whether one holds \<open>r\<close>, and the pattern behind it.\<close>

function match_ranges :: "nat \<Rightarrow> bool \<Rightarrow> bool \<Rightarrow> bytes \<Rightarrow> (bool \<times> bytes) option" where
  "match_ranges r first m chunk =
     (if \<not> first \<and> chunk \<noteq> [] \<and> hd chunk = CHR '']'' then Some (m, tl chunk)
      else case get_range chunk of None \<Rightarrow> None
        | Some (lo, hi, rest) \<Rightarrow> match_ranges r False (m \<or> (lo \<le> r \<and> r \<le> hi)) rest)"
  by pat_completeness auto
termination
  by (relation "measure (\<lambda>(_, _, _, chunk). length chunk)") (auto dest: get_range_length)

declare match_ranges.simps [simp del]

lemma match_ranges_length [len_simps]:
  "match_ranges r first m chunk = Some (b, rest) \<Longrightarrow> length rest \<le> length chunk"
proof (induction r first m chunk rule: match_ranges.induct)
  case (1 r first m chunk)
  note eq = "1.prems" [unfolded match_ranges.simps [of r first m chunk]]
  show ?case
  proof (cases "\<not> first \<and> chunk \<noteq> [] \<and> hd chunk = CHR '']''")
    case True
    with eq show ?thesis by auto
  next
    case False
    with eq obtain lo hi rest' where g: "get_range chunk = Some (lo, hi, rest')"
      and "match_ranges r False (m \<or> (lo \<le> r \<and> r \<le> hi)) rest' = Some (b, rest)"
      by (auto split: option.splits)
    with "1.IH" [OF False g refl refl] get_range_length [OF g] show ?thesis by simp
  qed
qed

text \<open>\<open>matchChunk\<close>. After a failure the rest of the chunk is still checked for its syntax.\<close>

function matchChunk_from :: "bool \<Rightarrow> bytes \<Rightarrow> bytes \<Rightarrow> (bytes \<times> bool) option" where
  "matchChunk_from failed0 [] s = Some (if failed0 then ([], False) else (s, True))"
| "matchChunk_from failed0 (c # chunk) s =
     (let failed = (failed0 \<or> s = []) in
      if c = CHR ''['' then
        (let r = (if failed then 0 else decode_rune s);
             s' = (if failed then s else drop (max 1 (rune_width s)) s);
             negated = (chunk \<noteq> [] \<and> hd chunk = CHR ''^'');
             chunk' = (if negated then tl chunk else chunk)
         in case match_ranges r True False chunk' of None \<Rightarrow> None
            | Some (m, rest) \<Rightarrow> matchChunk_from (failed \<or> m = negated) rest s')
      else if c = CHR ''?'' then
        matchChunk_from (failed \<or> hd s = CHR ''/'') chunk
          (if failed then s else drop (max 1 (rune_width s)) s)
      else if c = CHR 0x5C then
        (case chunk of [] \<Rightarrow> None
         | d # ds \<Rightarrow> matchChunk_from (failed \<or> d \<noteq> hd s) ds (if failed then s else tl s))
      else matchChunk_from (failed \<or> c \<noteq> hd s) chunk (if failed then s else tl s))"
  by pat_completeness auto
termination
  by (relation "measure (\<lambda>(_, chunk, _). length chunk)")
    (auto simp: Let_def less_Suc_eq_le split: if_splits dest!: match_ranges_length intro: le_trans)

definition matchChunk :: "bytes \<Rightarrow> bytes \<Rightarrow> (bytes \<times> bool) option" where
  "matchChunk chunk s = matchChunk_from False chunk s"

section \<open>Match\<close>

text \<open>The loop that skips bytes behind a star, not past a separator: the rest of the name where the
  chunk matched, \<open>Some None\<close> when it matched nowhere.\<close>

fun skip_match :: "bytes \<Rightarrow> bool \<Rightarrow> bytes \<Rightarrow> bytes option option" where
  "skip_match chunk final [] = Some None"
| "skip_match chunk final (c # cs) =
     (if c = CHR ''/'' then Some None
      else case matchChunk chunk cs of
        None \<Rightarrow> None
      | Some (t, ok) \<Rightarrow>
          if ok \<and> \<not> (final \<and> t \<noteq> []) then Some (Some t) else skip_match chunk final cs)"

lemma scan_plain_length: "scan_plain b p = (x, y) \<Longrightarrow> length x + length y = length p"
  by (induction b p arbitrary: x y rule: scan_plain.induct) (auto split: if_splits list.splits prod.splits)

lemma scan_plain_empty: "scan_plain False (c # cs) = (x, y) \<Longrightarrow> c \<noteq> CHR ''*'' \<Longrightarrow> x \<noteq> []"
  by (auto split: if_splits list.splits prod.splits)

lemma scanChunk_length [len_simps]:
  assumes "scanChunk p = (star, chunk, rest)" and "p \<noteq> []"
  shows "length rest < length p"
proof -
  let ?q = "dropWhile (\<lambda>c. c = CHR ''*'') p"
  from assms(1) have sp: "scan_plain False ?q = (chunk, rest)" by (auto simp: scanChunk_def Let_def split: prod.splits)
  show ?thesis
  proof (cases p)
    case (Cons c cs)
    show ?thesis
    proof (cases "c = CHR ''*''")
      case True
      then have "?q = dropWhile (\<lambda>c. c = CHR ''*'') cs" using Cons by simp
      then show ?thesis
        using scan_plain_length [OF sp] length_dropWhile_le [of "\<lambda>c. c = CHR ''*''" cs] Cons by simp
    next
      case False
      with Cons sp scan_plain_empty [of c cs chunk rest] have "chunk \<noteq> []" by auto
      then show ?thesis using scan_plain_length [OF sp] Cons False by (cases chunk) auto
    qed
  qed (use assms in simp)
qed

text \<open>Before answering no, the rest of the pattern is checked for its syntax.\<close>

function check_rest :: "bytes \<Rightarrow> bool option" where
  "check_rest pat =
     (if pat = [] then Some False
      else case scanChunk pat of (star, chunk, pat') \<Rightarrow>
        if matchChunk chunk [] = None then None else check_rest pat')"
  by pat_completeness auto
termination by (relation "measure length") (auto dest: scanChunk_length [OF sym])

function glob_match :: "bytes \<Rightarrow> bytes \<Rightarrow> bool option" where
  "glob_match pat name =
     (if pat = [] then Some (name = [])
      else case scanChunk pat of (star, chunk, pat') \<Rightarrow>
        if star \<and> chunk = [] then Some (CHR ''/'' \<notin> set name)
        else case matchChunk chunk name of
          None \<Rightarrow> None
        | Some (t, ok) \<Rightarrow>
            if ok \<and> (t = [] \<or> pat' \<noteq> []) then glob_match pat' t
            else if star then
              (case skip_match chunk (pat' = []) name of
                 None \<Rightarrow> None
               | Some (Some t') \<Rightarrow> glob_match pat' t'
               | Some None \<Rightarrow> check_rest pat')
            else check_rest pat')"
  by pat_completeness auto
termination by (relation "measure (\<lambda>(pat, _). length pat)") (auto dest: scanChunk_length [OF sym])

declare check_rest.simps [simp del] glob_match.simps [simp del] matchChunk_from.simps(2) [simp del]

section \<open>Patterns without special characters\<close>

definition literal_char :: "char \<Rightarrow> bool" where
  "literal_char c \<longleftrightarrow> c \<notin> {CHR ''*'', CHR ''?'', CHR ''['', CHR 0x5C}"

lemma scan_plain_literal: "list_all literal_char p \<Longrightarrow> scan_plain False p = (p, [])"
  by (induction p) (auto simp: literal_char_def)

lemma scanChunk_literal:
  assumes "list_all literal_char p"
  shows "scanChunk p = (False, p, [])"
proof -
  have "dropWhile (\<lambda>c. c = CHR ''*'') p = p"
    using assms by (cases p) (auto simp: literal_char_def)
  with scan_plain_literal [OF assms] show ?thesis by (simp add: scanChunk_def)
qed

lemma matchChunk_failed: "list_all literal_char p \<Longrightarrow> matchChunk_from True p s = Some ([], False)"
  by (induction p) (auto simp: literal_char_def matchChunk_from.simps(2) Let_def)

lemma matchChunk_literal:
  "list_all literal_char p \<Longrightarrow>
   matchChunk_from False p s = (if has_prefix s p then Some (drop (length p) s, True) else Some ([], False))"
proof (induction p arbitrary: s)
  case (Cons c p)
  then have p: "list_all literal_char p" and "literal_char c" by simp_all
  then have c: "c \<noteq> CHR ''[''" "c \<noteq> CHR ''?''" "c \<noteq> CHR 0x5C" by (simp_all add: literal_char_def)
  from Cons.IH [OF p] matchChunk_failed [OF p] c show ?case
    by (cases s; cases "c = hd s") (auto simp: matchChunk_from.simps(2) Let_def has_prefix_def)
qed (simp add: has_prefix_def)

text \<open>A pattern without special characters matches itself and nothing else.\<close>

lemma glob_literal:
  assumes "list_all literal_char p"
  shows "glob_match p s = Some (s = p)"
proof (cases "p = []")
  case False
  have nil: "check_rest [] = Some False" "glob_match [] [] = Some True"
    by (simp_all add: check_rest.simps glob_match.simps)
  have "drop (length p) s = [] \<and> has_prefix s p \<longleftrightarrow> s = p"
    by (metis append_Nil2 append_take_drop_id drop_all has_prefix_def le_refl take_all)
  with False nil show ?thesis
    by (subst glob_match.simps)
      (auto simp: scanChunk_literal [OF assms] matchChunk_def matchChunk_literal [OF assms] has_prefix_def)
qed (simp add: glob_match.simps)

end
