(* ===== verification/Policy.thy ===== *)
theory Policy
  imports Intent Window Glob
begin

text \<open>
  \<open>internal/policy\<close>: the policy a host bounds the control plane with. Loading (\<open>LoadFrom\<close>, \<open>Parse\<close>,
  \<open>validate\<close>) always yields a policy and falls closed; \<open>Decide\<close> is the one decision every privileged
  job passes, in the agent and again in the root helper. The TOML decoder is a third-party
  package and the time zone database a file of the host: both are arguments.
\<close>

section \<open>Levels and modes\<close>

type_synonym allow = bytes

definition AllowNone :: allow where [go_defs]: "AllowNone = ''none''"
definition AllowSecurity :: allow where [go_defs]: "AllowSecurity = ''security''"
definition AllowAll :: allow where [go_defs]: "AllowAll = ''all''"

definition allow_rank :: "allow \<Rightarrow> int" where
  "allow_rank a = (if a = AllowNone then 0 else if a = AllowSecurity then 1 else if a = AllowAll then 2 else - 1)"

definition allow_Valid :: "allow \<Rightarrow> bool" where
  "allow_Valid a \<longleftrightarrow> 0 \<le> allow_rank a"

definition allow_Min :: "allow \<Rightarrow> allow \<Rightarrow> allow" where
  "allow_Min a b =
     (let a' = (if allow_rank b < allow_rank a then b else a)
      in if \<not> allow_Valid a' then AllowNone else a')"

type_synonym reboot_mode = bytes

definition RebootNever :: reboot_mode where [go_defs]: "RebootNever = ''never''"
definition RebootWindow :: reboot_mode where [go_defs]: "RebootWindow = ''window''"

definition reboot_Valid :: "reboot_mode \<Rightarrow> bool" where
  "reboot_Valid r \<longleftrightarrow> r = RebootNever \<or> r = RebootWindow"

section \<open>The policy file\<close>

record updates =
  Allow :: allow
  AutoApply :: bool
  Scan :: bool
  u_Window :: bytes
  Timezone :: bytes
  Reboot :: reboot_mode

record services =
  Restartable :: "bytes list"
  Watched :: "bytes list"

record policy =
  Updates :: updates
  Services :: services
  Containers_Report :: bool
  Network_Report :: bool
  Resources_Report :: bool
  MaxJobAgeSeconds :: int
  p_window :: window
  p_source :: bytes

definition Path :: bytes where [go_defs]: "Path = ''/etc/hostseal/policy.toml''"
definition PausedPath :: bytes where [go_defs]: "PausedPath = ''/etc/hostseal/paused''"

datatype policy_error =
    BadAllow allow | BadReboot reboot_mode | RebootNeedsWindow | BadTimezone bytes
  | BadWindow window_error | BadMaxJobAge int | BadRestartable bytes | BadWatched bytes
  | UnknownKeys "bytes list" | TomlError bytes

text \<open>The time zone database of the host, by zone name; \<open>LoadLocation\<close> answers UTC itself.\<close>

type_synonym zoneinfo = "bytes \<Rightarrow> location option"

definition LoadLocation :: "zoneinfo \<Rightarrow> bytes \<Rightarrow> location option" where
  "LoadLocation zi n = (if n = [] \<or> n = ''UTC'' then Some UTC else zi n)"

text \<open>\<open>validate\<close>, which also fills in the time zone and the parsed window.\<close>

definition validate :: "zoneinfo \<Rightarrow> policy \<Rightarrow> (policy_error, policy) result" where
  "validate zi p =
     (let u = Updates p in
      if \<not> allow_Valid (Allow u) then Inl (BadAllow (Allow u))
      else if \<not> reboot_Valid (Reboot u) then Inl (BadReboot (Reboot u))
      else if Reboot u = RebootWindow \<and> trim_space (u_Window u) = [] then Inl RebootNeedsWindow
      else let tz = (if Timezone u = [] then ''UTC'' else Timezone u); p1 = p\<lparr>Updates := u\<lparr>Timezone := tz\<rparr>\<rparr> in
        case LoadLocation zi tz of None \<Rightarrow> Inl (BadTimezone tz)
        | Some l \<Rightarrow>
            (case ParseWindow (u_Window u) (Some l) of Inl e \<Rightarrow> Inl (BadWindow e)
             | Inr w \<Rightarrow>
                 if MaxJobAgeSeconds p \<le> 0 then Inl (BadMaxJobAge (MaxJobAgeSeconds p))
                 else case find (\<lambda>pat. glob_match pat ''probe.service'' = None) (Restartable (Services p)) of
                   Some pat \<Rightarrow> Inl (BadRestartable pat)
                 | None \<Rightarrow>
                     (case find (\<lambda>pat. glob_match pat ''probe.service'' = None) (Watched (Services p)) of
                        Some pat \<Rightarrow> Inl (BadWatched pat)
                      | None \<Rightarrow> Inr (p1\<lparr>p_window := w\<rparr>))))"

definition default_raw :: policy where
  "default_raw = \<lparr>
     Updates = \<lparr>Allow = AllowSecurity, AutoApply = True, Scan = True, u_Window = [], Timezone = ''UTC'',
       Reboot = RebootNever\<rparr>,
     Services = \<lparr>Restartable = [], Watched = []\<rparr>,
     Containers_Report = False, Network_Report = True, Resources_Report = True,
     MaxJobAgeSeconds = 900, p_window = zero_window, p_source = ''built-in default''\<rparr>"

definition closed_raw :: policy where
  "closed_raw = \<lparr>
     Updates = \<lparr>Allow = AllowNone, AutoApply = False, Scan = False, u_Window = [], Timezone = ''UTC'',
       Reboot = RebootNever\<rparr>,
     Services = \<lparr>Restartable = [], Watched = []\<rparr>,
     Containers_Report = False, Network_Report = False, Resources_Report = False,
     MaxJobAgeSeconds = 900, p_window = zero_window, p_source = ''closed (policy could not be loaded)''\<rparr>"

text \<open>\<open>Default\<close> and \<open>Closed\<close> panic when their policy does not validate; it always does
  (\<open>default_validates\<close>), so the branch for the panic is never taken.\<close>

definition Default :: "zoneinfo \<Rightarrow> policy" where
  "Default zi = (case validate zi default_raw of Inr p \<Rightarrow> p | Inl e \<Rightarrow> default_raw)"

definition Closed :: "zoneinfo \<Rightarrow> policy" where
  "Closed zi = (case validate zi closed_raw of Inr p \<Rightarrow> p | Inl e \<Rightarrow> closed_raw)"

text \<open>\<open>toml.Decode\<close> over a policy: an error, or the policy and the keys that were not decoded.\<close>

type_synonym toml_decoder = "bytes \<Rightarrow> policy \<Rightarrow> (bytes, policy \<times> bytes list) result"

definition Parse :: "toml_decoder \<Rightarrow> zoneinfo \<Rightarrow> bytes \<Rightarrow> policy \<times> policy_error option" where
  "Parse toml zi raw = (case toml raw (Default zi) of
      Inl e \<Rightarrow> (Closed zi, Some (TomlError e))
    | Inr (p, undecoded) \<Rightarrow>
        if undecoded \<noteq> [] then (Closed zi, Some (UnknownKeys undecoded))
        else (case validate zi p of Inl e \<Rightarrow> (Closed zi, Some e) | Inr p' \<Rightarrow> (p', None)))"

text \<open>What reading the file gives.\<close>

datatype file_read = NotExist | ReadError | Contents bytes

datatype load_error = ErrNoPolicyFile | ErrReading | ErrParsing policy_error

definition LoadFrom :: "toml_decoder \<Rightarrow> zoneinfo \<Rightarrow> bytes \<Rightarrow> file_read \<Rightarrow> policy \<times> load_error option" where
  "LoadFrom toml zi path rd = (case rd of
      NotExist \<Rightarrow> ((Default zi)\<lparr>p_source := path @ '' (absent)''\<rparr>, Some ErrNoPolicyFile)
    | ReadError \<Rightarrow> (Closed zi, Some ErrReading)
    | Contents raw \<Rightarrow>
        (case Parse toml zi raw of
           (_, Some e) \<Rightarrow> (Closed zi, Some (ErrParsing e))
         | (p, None) \<Rightarrow> (p\<lparr>p_source := path\<rparr>, None)))"

definition Load :: "toml_decoder \<Rightarrow> zoneinfo \<Rightarrow> file_read \<Rightarrow> policy \<times> load_error option" where
  "Load toml zi rd = LoadFrom toml zi Path rd"

definition RestartableAllows :: "policy \<Rightarrow> bytes \<Rightarrow> bool" where
  "RestartableAllows p u = list_ex (\<lambda>pat. glob_match pat u = Some True) (Restartable (Services p))"

section \<open>Decisions\<close>

record request =
  req_Intent :: name
  req_Params :: "params option"    \<comment> \<open>\<open>None\<close> is a nil interface\<close>
  IssuedAt :: instant

record env =
  Now :: instant
  Paused :: bool

type_synonym code = bytes

definition CodePaused :: code where [go_defs]: "CodePaused = ''paused''"
definition CodeExpired :: code where [go_defs]: "CodeExpired = ''expired''"
definition CodeUpdatesNotAllowed :: code where [go_defs]: "CodeUpdatesNotAllowed = ''updates_not_allowed''"
definition CodeUnitNotRestartable :: code where [go_defs]: "CodeUnitNotRestartable = ''unit_not_restartable''"
definition CodeRebootNotAllowed :: code where [go_defs]: "CodeRebootNotAllowed = ''reboot_not_allowed''"
definition CodeOutsideWindow :: code where [go_defs]: "CodeOutsideWindow = ''outside_window''"
definition CodeUnknownIntent :: code where [go_defs]: "CodeUnknownIntent = ''unknown_intent''"
definition CodePolicyUnreadable :: code where [go_defs]: "CodePolicyUnreadable = ''policy_unreadable''"
definition CodeAllowed :: code where [go_defs]: "CodeAllowed = ''allowed''"

text \<open>The explanation that comes with a decision, with the values its text names.\<close>

datatype reason =
    RPaused bytes | RNotInCatalogue name | RReadOnly | RTooOld duration int
  | RNeedsUnit name | RUnitNotMatched bytes "bytes list" | RUnitMatched bytes | RNoRule name
  | RNotUpdate name | RNeedsAllow name allow allow | RUpdatesAllow allow
  | RRebootIs reboot_mode | ROutsideWindow bytes bytes "instant option" | RInsideWindow bytes bytes
  | RFollowUp reason | RDecode intent_error | RLoad load_error

record decision =
  Allowed :: bool
  Code :: code
  Reason :: reason
  EffectiveAllow :: allow

definition refuse :: "code \<Rightarrow> reason \<Rightarrow> decision" where
  "refuse c r = \<lparr>Allowed = False, Code = c, Reason = r, EffectiveAllow = []\<rparr>"

definition permit :: "reason \<Rightarrow> decision" where
  "permit r = \<lparr>Allowed = True, Code = CodeAllowed, Reason = r, EffectiveAllow = []\<rparr>"

definition decision_Error :: "decision \<Rightarrow> (code \<times> reason) option" where
  "decision_Error d = (if Allowed d then None else Some (Code d, Reason d))"

definition requestedAllow :: "name \<Rightarrow> allow \<times> bool" where
  "requestedAllow n = (if n = PackagesApplySecurity then (AllowSecurity, True)
     else if n = PackagesApplyAll then (AllowAll, True) else (AllowNone, False))"

definition decideReboot :: "policy \<Rightarrow> env \<Rightarrow> decision" where
  "decideReboot p env =
     (if Reboot (Updates p) \<noteq> RebootWindow then refuse CodeRebootNotAllowed (RRebootIs (Reboot (Updates p)))
      else if \<not> Contains (p_window p) (Now env) then
        let next_open = NextOpen (p_window p) (Now env) in
        refuse CodeOutsideWindow (ROutsideWindow (window_String (p_window p)) (Timezone (Updates p))
          (if next_open = 0 then None else Some next_open))
      else permit (RInsideWindow (window_String (p_window p)) (Timezone (Updates p))))"

definition decideUpdate :: "policy \<Rightarrow> request \<Rightarrow> env \<Rightarrow> decision" where
  "decideUpdate p req env =
     (case requestedAllow (req_Intent req) of (wanted, ok) \<Rightarrow>
      if \<not> ok then refuse CodeUnknownIntent (RNotUpdate (req_Intent req))
      else let effective = allow_Min wanted (Allow (Updates p)) in
        if effective \<noteq> wanted then
          (refuse CodeUpdatesNotAllowed (RNeedsAllow (req_Intent req) wanted (Allow (Updates p))))
            \<lparr>EffectiveAllow := effective\<rparr>
        else let d = decideReboot p env in
          if (case req_Params req of Some (ApplyParams _ r) \<Rightarrow> r | _ \<Rightarrow> False) \<and> \<not> Allowed d then
            d\<lparr>EffectiveAllow := effective, Reason := RFollowUp (Reason d)\<rparr>
          else (permit (RUpdatesAllow (Allow (Updates p))))\<lparr>EffectiveAllow := effective\<rparr>)"

text \<open>The age check: \<open>Duration(MaxJobAgeSeconds) * time.Second\<close> is an \<open>int64\<close> product.\<close>

definition maxAge :: "policy \<Rightarrow> duration" where
  "maxAge p = duration_mul (MaxJobAgeSeconds p) Second"

text \<open>The switch over the privileged intents.\<close>

definition decide_switch :: "policy \<Rightarrow> request \<Rightarrow> env \<Rightarrow> decision" where
  "decide_switch p req env =
     (let n = req_Intent req in
      if n \<in> {PackagesApplySecurity, PackagesApplyAll} then decideUpdate p req env
      else if n \<in> {ServiceStart, ServiceStop, ServiceRestart} then
        (case req_Params req of
           Some (UnitParams _ u) \<Rightarrow>
             if \<not> RestartableAllows p u
             then refuse CodeUnitNotRestartable (RUnitNotMatched u (Restartable (Services p)))
             else permit (RUnitMatched u)
         | _ \<Rightarrow> refuse CodeUnitNotRestartable (RNeedsUnit n))
      else if n = HostReboot then decideReboot p env
      else refuse CodeUnknownIntent (RNoRule n))"

definition Decide :: "policy \<Rightarrow> request \<Rightarrow> env \<Rightarrow> decision" where
  "Decide p req env =
     (if Paused env then refuse CodePaused (RPaused PausedPath)
      else case Lookup (req_Intent req) of
        None \<Rightarrow> refuse CodeUnknownIntent (RNotInCatalogue (req_Intent req))
      | Some s \<Rightarrow>
          if \<not> Privileged (Class s) then permit RReadOnly
          else if IssuedAt req \<noteq> 0 \<and> maxAge p < time_sub (Now env) (IssuedAt req) then
            refuse CodeExpired (RTooOld (time_sub (Now env) (IssuedAt req)) (MaxJobAgeSeconds p))
          else decide_switch p req env)"

section \<open>The levels form a minimum\<close>

lemma allow_distinct [simp]:
  "AllowNone \<noteq> AllowSecurity" "AllowSecurity \<noteq> AllowNone" "AllowNone \<noteq> AllowAll" "AllowAll \<noteq> AllowNone"
  "AllowSecurity \<noteq> AllowAll" "AllowAll \<noteq> AllowSecurity" "RebootNever \<noteq> RebootWindow" "RebootWindow \<noteq> RebootNever"
  by (simp_all add: AllowNone_def AllowSecurity_def AllowAll_def RebootNever_def RebootWindow_def)

lemma allow_rank_simps [simp]:
  "allow_rank AllowNone = 0" "allow_rank AllowSecurity = 1" "allow_rank AllowAll = 2"
  by (simp_all add: allow_rank_def)

lemma allow_rank_inj: "allow_rank a = allow_rank b \<Longrightarrow> 0 \<le> allow_rank a \<Longrightarrow> a = b"
  by (auto simp: allow_rank_def split: if_splits)

lemma allow_rank_low: "- 1 \<le> allow_rank a"
  by (simp add: allow_rank_def)

lemma allow_Min_rank: "allow_rank (allow_Min a b) = max 0 (min (allow_rank a) (allow_rank b))"
  using allow_rank_low [of a] allow_rank_low [of b] by (auto simp: allow_Min_def allow_Valid_def Let_def)

text \<open>\<open>Min\<close> is never the maximum: the level it returns is a defined one and ranks as the
  lower of the two, an unrecognised value counting as \<open>none\<close>. It is therefore commutative and
  associative, so that clamping twice, in the agent and in the helper, is clamping once.\<close>

theorem allow_Min_meet:
  "allow_Valid (allow_Min a b) \<and>
   allow_rank (allow_Min a b) = max 0 (min (allow_rank a) (allow_rank b)) \<and>
   allow_Min a b = allow_Min b a \<and>
   allow_Min (allow_Min a b) c = allow_Min a (allow_Min b c)"
proof -
  have eq: "x = y" if "allow_rank x = allow_rank y" "0 \<le> allow_rank x" for x y
    using that by (rule allow_rank_inj)
  have "allow_Min a b = allow_Min b a" by (rule eq) (simp_all add: allow_Min_rank min.commute)
  moreover have "allow_Min (allow_Min a b) c = allow_Min a (allow_Min b c)"
    by (rule eq) (simp_all add: allow_Min_rank max_def min_def)
  ultimately show ?thesis by (simp add: allow_Min_rank allow_Valid_def)
qed

section \<open>Loading always yields a valid policy\<close>

definition policy_wf :: "policy \<Rightarrow> bool" where
  "policy_wf p \<longleftrightarrow> allow_Valid (Allow (Updates p)) \<and> reboot_Valid (Reboot (Updates p)) \<and>
     window_wf (p_window p) \<and> (Reboot (Updates p) = RebootWindow \<longrightarrow> \<not> always (p_window p)) \<and>
     0 < MaxJobAgeSeconds p \<and>
     list_all (\<lambda>pat. glob_match pat ''probe.service'' \<noteq> None) (Restartable (Services p))"

lemma ParseWindow_always: "ParseWindow spec l = Inr w \<Longrightarrow> always w \<longleftrightarrow> trim_space spec = []"
  by (auto simp: ParseWindow_def Let_def bind_res_eq_Inr split: if_splits)

lemma validate_wf: "validate zi p = Inr q \<Longrightarrow> policy_wf q"
proof -
  assume v: "validate zi p = Inr q"
  then obtain l w where w: "ParseWindow (u_Window (Updates p)) (Some l) = Inr w" and "p_window q = w"
    "allow_Valid (Allow (Updates q))" "reboot_Valid (Reboot (Updates q))" "0 < MaxJobAgeSeconds q"
    "Reboot (Updates q) = RebootWindow \<longrightarrow> trim_space (u_Window (Updates p)) \<noteq> []"
    "find (\<lambda>pat. glob_match pat ''probe.service'' = None) (Restartable (Services q)) = None"
    by (auto simp: validate_def Let_def split: if_splits option.splits sum.splits)
  moreover from w have "window_wf w"
    by (cases rule: ParseWindow_elim) (auto simp: window_wf_def dest!: parseDays_ok parseTimeRange_bounds)
  ultimately show ?thesis
    using ParseWindow_always [OF w] by (simp add: policy_wf_def find_None_iff list_all_iff)
qed

lemma default_validates: "\<exists>p. validate zi default_raw = Inr p" "\<exists>p. validate zi closed_raw = Inr p"
  by (simp_all add: validate_def default_raw_def closed_raw_def allow_Valid_def reboot_Valid_def
      LoadLocation_def ParseWindow_def trim_space_def)

lemma default_wf: "policy_wf (Default zi)" "policy_wf (Closed zi)"
  using default_validates [of zi] by (auto simp: Default_def Closed_def dest: validate_wf)

lemma Closed_fields: "Allow (Updates (Closed zi)) = AllowNone" "Reboot (Updates (Closed zi)) = RebootNever"
  "Restartable (Services (Closed zi)) = []"
  using default_validates(2) [of zi]
  by (auto simp: Closed_def validate_def closed_raw_def Let_def split: if_splits option.splits sum.splits)

lemma policy_wf_source [simp]: "policy_wf (p\<lparr>p_source := x\<rparr>) = policy_wf p"
  by (simp add: policy_wf_def)

lemma Parse_wf: "policy_wf (fst (Parse toml zi raw))"
  using default_wf [of zi] by (auto simp: Parse_def split: sum.splits dest: validate_wf)

lemma LoadFrom_wf: "policy_wf (fst (LoadFrom toml zi path rd))"
  using default_wf [of zi] Parse_wf [of toml zi]
  by (auto simp: LoadFrom_def split: file_read.splits prod.splits option.splits) (metis fst_conv)

text \<open>Loading yields a valid policy whatever the file holds and whatever the decoder
  makes of it, and a policy that permits reboots never comes with a window that is always open.\<close>

theorem Load_valid:
  "policy_wf (fst (Load toml zi rd)) \<and>
   \<not> (Reboot (Updates (fst (Load toml zi rd))) = RebootWindow \<and> always (p_window (fst (Load toml zi rd))))"
  using LoadFrom_wf [of toml zi Path rd] by (auto simp: Load_def policy_wf_def)

section \<open>What Decide permits\<close>

definition age_ok :: "policy \<Rightarrow> request \<Rightarrow> env \<Rightarrow> bool" where
  "age_ok p req env \<longleftrightarrow> IssuedAt req = 0 \<or> time_sub (Now env) (IssuedAt req) \<le> maxAge p"

definition reboot_ok :: "policy \<Rightarrow> env \<Rightarrow> bool" where
  "reboot_ok p env \<longleftrightarrow> Reboot (Updates p) = RebootWindow \<and> Contains (p_window p) (Now env)"

definition wants_reboot :: "request \<Rightarrow> bool" where
  "wants_reboot req \<longleftrightarrow> (\<exists>n. req_Params req = Some (ApplyParams n True))"

lemma decideReboot_allowed [simp]: "Allowed (decideReboot p env) \<longleftrightarrow> reboot_ok p env"
  by (simp add: decideReboot_def reboot_ok_def refuse_def permit_def Let_def)

lemma wants_reboot_case: "(case req_Params req of Some (ApplyParams _ r) \<Rightarrow> r | _ \<Rightarrow> False) \<longleftrightarrow> wants_reboot req"
  by (auto simp: wants_reboot_def split: option.splits params.splits)

lemma allow_Min_eq: "0 < allow_rank a \<Longrightarrow> allow_Min a b = a \<longleftrightarrow> allow_rank a \<le> allow_rank b"
  using allow_rank_low [of b] by (auto simp: allow_Min_def allow_Valid_def Let_def)

lemma decideUpdate_allowed:
  "Allowed (decideUpdate p req env) \<longleftrightarrow>
   (req_Intent req = PackagesApplySecurity \<and> 1 \<le> allow_rank (Allow (Updates p)) \<or>
    req_Intent req = PackagesApplyAll \<and> Allow (Updates p) = AllowAll) \<and>
   (wants_reboot req \<longrightarrow> reboot_ok p env)"
proof -
  have all: "2 \<le> allow_rank (Allow (Updates p)) \<longleftrightarrow> Allow (Updates p) = AllowAll"
    by (auto simp: allow_rank_def)
  have ne: "PackagesApplyAll \<noteq> PackagesApplySecurity" by (simp add: intent_names)
  show ?thesis
    using ne unfolding decideUpdate_def wants_reboot_case requestedAllow_def
    by (auto simp: Let_def allow_Min_eq all refuse_def permit_def)
qed

text \<open>The contract of \<open>Decide\<close>, read off the documentation of the policy file.\<close>

definition permitted :: "policy \<Rightarrow> request \<Rightarrow> env \<Rightarrow> bool" where
  "permitted p req env \<longleftrightarrow>
     (let n = req_Intent req; u = Updates p in
      n = PackagesApplySecurity \<and> (Allow u = AllowSecurity \<or> Allow u = AllowAll) \<and> (wants_reboot req \<longrightarrow> reboot_ok p env) \<or>
      n = PackagesApplyAll \<and> Allow u = AllowAll \<and> (wants_reboot req \<longrightarrow> reboot_ok p env) \<or>
      n \<in> {ServiceStart, ServiceStop, ServiceRestart} \<and>
        (\<exists>m un. req_Params req = Some (UnitParams m un) \<and>
           (\<exists>pat \<in> set (Restartable (Services p)). glob_match pat un = Some True)) \<or>
      n = HostReboot \<and> reboot_ok p env)"

lemma RestartableAllows_iff:
  "RestartableAllows p u \<longleftrightarrow> (\<exists>pat \<in> set (Restartable (Services p)). glob_match pat u = Some True)"
  by (simp add: RestartableAllows_def list_ex_iff)

lemma rank_positive: "1 \<le> allow_rank a \<longleftrightarrow> a = AllowSecurity \<or> a = AllowAll"
  by (auto simp: allow_rank_def)

lemma decide_service_allowed:
  "Allowed (case req_Params req of
      Some (UnitParams _ u) \<Rightarrow> if \<not> RestartableAllows p u
        then refuse CodeUnitNotRestartable (RUnitNotMatched u (Restartable (Services p))) else permit (RUnitMatched u)
    | _ \<Rightarrow> refuse CodeUnitNotRestartable (RNeedsUnit n)) \<longleftrightarrow>
   (\<exists>m un. req_Params req = Some (UnitParams m un) \<and> RestartableAllows p un)"
  by (auto simp: refuse_def permit_def split: option.splits params.splits)

lemma decide_switch_allowed: "Allowed (decide_switch p req env) \<longleftrightarrow> permitted p req env"
  unfolding decide_switch_def permitted_def Let_def
  by (auto simp: decide_service_allowed decideUpdate_allowed rank_positive RestartableAllows_iff
      refuse_def [of CodeUnknownIntent] intent_names)

lemma class_cases: "Lookup n = Some s \<Longrightarrow> Class s = ClassRead \<longleftrightarrow> \<not> Privileged (Class s)"
  by (erule Lookup_cases) (simp_all add: Privileged_def)

lemma Decide_Allowed:
  "Allowed (Decide p req env) \<longleftrightarrow> \<not> Paused env \<and>
     (\<exists>s. Lookup (req_Intent req) = Some s \<and>
        (Class s = ClassRead \<or> Privileged (Class s) \<and> age_ok p req env \<and> permitted p req env))"
proof (cases "Lookup (req_Intent req)")
  case None
  then show ?thesis by (simp add: Decide_def refuse_def)
next
  case (Some s)
  then show ?thesis
    by (auto simp: Decide_def class_cases [OF Some] age_ok_def decide_switch_allowed [symmetric]
        refuse_def permit_def not_less)
qed

section \<open>Properties of the decision\<close>

text \<open>Property C27: \<open>Decide\<close> implements its contract: a request is permitted exactly when the host is
  not paused, the intent is in the catalogue, and it is either read-only or young enough and
  inside what the policy file says for its intent. Everything else is refused.\<close>

theorem Decide_contract:
  "Allowed (Decide p req env) \<longleftrightarrow> \<not> Paused env \<and>
     (\<exists>s. Lookup (req_Intent req) = Some s \<and>
        (Class s = ClassRead \<or> Privileged (Class s) \<and> age_ok p req env \<and> permitted p req env))"
  by (rule Decide_Allowed)

text \<open>How two policies compare: the first grants no level, mode, unit or age the second does not.\<close>

definition policy_tighter :: "policy \<Rightarrow> policy \<Rightarrow> bool" where
  "policy_tighter p q \<longleftrightarrow> allow_rank (Allow (Updates p)) \<le> allow_rank (Allow (Updates q)) \<and>
     (Reboot (Updates p) = RebootWindow \<longrightarrow> Reboot (Updates q) = RebootWindow \<and> p_window p = p_window q) \<and>
     set (Restartable (Services p)) \<subseteq> set (Restartable (Services q)) \<and> maxAge p \<le> maxAge q"

lemma reboot_ok_mono: "policy_tighter p q \<Longrightarrow> reboot_ok p env \<Longrightarrow> reboot_ok q env"
  by (auto simp: policy_tighter_def reboot_ok_def)

lemma permitted_mono:
  assumes "policy_tighter p q" and "permitted p req env"
  shows "permitted q req env"
proof -
  have r: "reboot_ok p env \<Longrightarrow> reboot_ok q env" by (rule reboot_ok_mono [OF assms(1)])
  have a: "Allow (Updates p) = AllowAll \<Longrightarrow> Allow (Updates q) = AllowAll"
    "Allow (Updates p) = AllowSecurity \<Longrightarrow> Allow (Updates q) = AllowSecurity \<or> Allow (Updates q) = AllowAll"
    using assms(1) by (auto simp: policy_tighter_def allow_rank_def split: if_splits)
  have s: "set (Restartable (Services p)) \<subseteq> set (Restartable (Services q))"
    using assms(1) by (simp add: policy_tighter_def)
  show ?thesis using assms(2) r a s unfolding permitted_def Let_def by blast
qed

text \<open>Tightening a policy never permits more: what a tighter policy allows, the wider
  one allows at the same time and for the same request.\<close>

theorem Decide_monotone:
  assumes "policy_tighter p q" and "Allowed (Decide p req env)"
  shows "Allowed (Decide q req env)"
proof -
  have "age_ok p req env \<Longrightarrow> age_ok q req env" using assms(1) by (auto simp: age_ok_def policy_tighter_def)
  with assms(2) permitted_mono [OF assms(1)] show ?thesis unfolding Decide_Allowed by blast
qed

definition sample_policy :: "bytes list \<Rightarrow> policy" where
  "sample_policy units = default_raw\<lparr>Services := \<lparr>Restartable = units, Watched = []\<rparr>\<rparr>"

definition sample_request :: request where
  "sample_request = \<lparr>req_Intent = ServiceRestart, req_Params = Some (UnitParams ServiceRestart ''nginx.service''),
     IssuedAt = 0\<rparr>"

lemma sample_allowed:
  "Allowed (Decide (sample_policy [''nginx.*'']) sample_request \<lparr>Now = 0, Paused = False\<rparr>)"
  by code_simp

theorem Decide_monotone_witness:
  "policy_tighter (sample_policy [''nginx.*'']) (sample_policy [''cron.service'', ''nginx.*'']) \<and>
   Allowed (Decide (sample_policy [''cron.service'', ''nginx.*'']) sample_request \<lparr>Now = 0, Paused = False\<rparr>)"
proof -
  have t: "policy_tighter (sample_policy [''nginx.*'']) (sample_policy [''cron.service'', ''nginx.*''])"
    by (simp add: policy_tighter_def sample_policy_def maxAge_def)
  from t Decide_monotone [OF t sample_allowed] show ?thesis by (rule conjI)
qed

text \<open>Property C28: loading fails closed: when the policy file exists but cannot be read, decoded or
  validated, the policy in force refuses every privileged request.\<close>

theorem Load_fails_closed:
  assumes "Load toml zi rd = (p, Some e)" and "e \<noteq> ErrNoPolicyFile"
    and "Lookup (req_Intent req) = Some s" and "Privileged (Class s)"
  shows "\<not> Allowed (Decide p req env)"
proof -
  have p: "p = Closed zi"
    using assms(1,2) by (auto simp: Load_def LoadFrom_def split: file_read.splits prod.splits option.splits)
  have "\<not> permitted (Closed zi) req env"
    by (auto simp: permitted_def Closed_fields reboot_ok_def Let_def)
  moreover have "Class s \<noteq> ClassRead" using class_cases [OF assms(3)] assms(4) by simp
  ultimately show ?thesis using assms(3) unfolding p Decide_Allowed by auto
qed

theorem Load_fails_closed_witness:
  "\<not> Allowed (Decide (fst (Load (\<lambda>raw p. Inl raw) (\<lambda>_. None) (Contents ''allow = [''))) sample_request
      \<lparr>Now = 0, Paused = False\<rparr>)"
proof -
  let ?l = "Load (\<lambda>raw p. Inl raw) (\<lambda>_. None) (Contents ''allow = ['')"
  have l: "?l = (fst ?l, Some (ErrParsing (TomlError ''allow = ['')))"
    by (simp add: Load_def LoadFrom_def Parse_def)
  obtain s where s: "Lookup (req_Intent sample_request) = Some s" "Privileged (Class s)"
    by (simp add: sample_request_def Lookup_def catalogue_def mk_spec_def intent_names Privileged_def)
  show ?thesis by (rule Load_fails_closed [OF l _ s]) simp
qed

text \<open>With a limit of at most 9223372036 seconds, a privileged request with a time of
  issue is permitted only while no more than the limit has passed since.\<close>

theorem Decide_age:
  assumes "MaxJobAgeSeconds p \<le> 9223372036" and "0 < MaxJobAgeSeconds p" and "IssuedAt req \<noteq> 0"
    and "Lookup (req_Intent req) = Some s" and "Privileged (Class s)" and "Allowed (Decide p req env)"
  shows "Now env - IssuedAt req \<le> MaxJobAgeSeconds p * Second"
proof -
  have "in_int64 (MaxJobAgeSeconds p * Second)" "MaxJobAgeSeconds p * Second < int64_max"
    using assms(1,2) by (auto simp: in_int64_def int64_min_def int64_max_def Second_def)
  then have "maxAge p = MaxJobAgeSeconds p * Second" by (simp add: maxAge_def duration_mul_def wrap64_id)
  moreover have "Class s \<noteq> ClassRead" using class_cases [OF assms(4)] assms(5) by simp
  with assms(3,4,6) have "time_sub (Now env) (IssuedAt req) \<le> maxAge p"
    by (auto simp: Decide_Allowed age_ok_def)
  ultimately show ?thesis
    using time_sub_gt [of "maxAge p" "Now env" "IssuedAt req"] \<open>in_int64 _\<close> \<open>_ < int64_max\<close> by fastforce
qed

theorem Decide_age_witness:
  "Allowed (Decide (sample_policy [''nginx.*'']) (sample_request\<lparr>IssuedAt := Second\<rparr>) \<lparr>Now = 901 * Second, Paused = False\<rparr>) \<and>
   901 * Second - Second \<le> 900 * Second"
proof -
  have a: "Allowed (Decide (sample_policy [''nginx.*'']) (sample_request\<lparr>IssuedAt := Second\<rparr>) \<lparr>Now = 901 * Second, Paused = False\<rparr>)"
    by code_simp
  obtain s where s: "Lookup (req_Intent (sample_request\<lparr>IssuedAt := Second\<rparr>)) = Some s" "Privileged (Class s)"
    by (simp add: sample_request_def Lookup_def catalogue_def mk_spec_def intent_names Privileged_def)
  from a Decide_age [OF _ _ _ s a] show ?thesis
    by (simp add: sample_policy_def default_raw_def Second_def)
qed

text \<open>The age limit is an \<open>int64\<close> number of nanoseconds, and a limit that validates can
  wrap to a negative one: with \<open>max_job_age_seconds = 9223372037\<close> a job is refused as expired at
  the very instant it was issued.\<close>

theorem maxAge_wraps:
  "(\<exists>p. validate zi (default_raw\<lparr>MaxJobAgeSeconds := 9223372037\<rparr>) = Inr p \<and>
     Code (Decide p (sample_request\<lparr>IssuedAt := t\<rparr>) \<lparr>Now = t, Paused = False\<rparr>) =
       (if t = 0 then CodeUnitNotRestartable else CodeExpired)) \<and>
   maxAge (default_raw\<lparr>MaxJobAgeSeconds := 9223372037\<rparr>) = - 9223372036709551616"
proof -
  have w: "maxAge (default_raw\<lparr>MaxJobAgeSeconds := 9223372037\<rparr>) = - 9223372036709551616"
    by (simp add: maxAge_def duration_mul_def wrap64_mod Second_def)
  obtain p where p: "validate zi (default_raw\<lparr>MaxJobAgeSeconds := 9223372037\<rparr>) = Inr p"
    and m: "MaxJobAgeSeconds p = 9223372037" and r: "Services p = \<lparr>Restartable = [], Watched = []\<rparr>"
    by (simp add: validate_def default_raw_def allow_Valid_def reboot_Valid_def LoadLocation_def
        ParseWindow_def trim_space_def)
  have "maxAge p = - 9223372036709551616" using w m by (simp add: maxAge_def)
  moreover obtain s where "Lookup ServiceRestart = Some s" "Privileged (Class s)"
    by (simp add: Lookup_def catalogue_def mk_spec_def intent_names Privileged_def)
  ultimately have "Code (Decide p (sample_request\<lparr>IssuedAt := t\<rparr>) \<lparr>Now = t, Paused = False\<rparr>) =
      (if t = 0 then CodeUnitNotRestartable else CodeExpired)"
    by (simp add: Decide_def sample_request_def time_sub_def int64_min_def int64_max_def refuse_def
        decide_switch_def RestartableAllows_def r intent_names)
  with p w show ?thesis by blast
qed

end
