(* ===== verification/Protocol.thy ===== *)
theory Protocol
  imports Canonical GoTime
begin

text \<open>
  Package \<open>internal/protocol\<close>: the messages of the wire protocol that the agent acts on, the
  payload a job's signature covers, the shape of identifiers and the bounds both sides keep.
\<close>

section \<open>Limits\<close>

definition MaxJobOutputBytes :: nat where [go_defs]: "MaxJobOutputBytes = 65536"
definition MinHeartbeatSeconds :: int where [go_defs]: "MinHeartbeatSeconds = 15"
definition MaxHeartbeatSeconds :: int where [go_defs]: "MaxHeartbeatSeconds = 3600"
definition MaxClockSkewSeconds :: int where [go_defs]: "MaxClockSkewSeconds = 300"
definition MaxJobIDBytes :: nat where [go_defs]: "MaxJobIDBytes = 64"
definition MaxHostIDBytes :: nat where [go_defs]: "MaxHostIDBytes = 64"

definition ClampHeartbeatSeconds :: "int \<Rightarrow> int" where
  "ClampHeartbeatSeconds n =
     (if n < MinHeartbeatSeconds then MinHeartbeatSeconds
      else if MaxHeartbeatSeconds < n then MaxHeartbeatSeconds else n)"

definition TruncateOutput :: "bytes \<Rightarrow> bytes \<times> bool" where
  "TruncateOutput s =
     (if length s \<le> MaxJobOutputBytes then (s, False) else (drop (length s - MaxJobOutputBytes) s, True))"

section \<open>Identifiers\<close>

definition id_char :: "char \<Rightarrow> bool" where
  "id_char c \<longleftrightarrow> is_digit c \<or> 65 \<le> bv c \<and> bv c \<le> 90 \<or> 97 \<le> bv c \<and> bv c \<le> 122"

text \<open>\<^verbatim>\<open>^[0-9A-Za-z]+$\<close>\<close>

definition jobIDPattern :: "bytes \<Rightarrow> bool" where
  "jobIDPattern s \<longleftrightarrow> s \<noteq> [] \<and> list_all id_char s"

definition ValidJobID :: "bytes \<Rightarrow> bool" where
  "ValidJobID i \<longleftrightarrow> i \<noteq> [] \<and> length i \<le> MaxJobIDBytes \<and> jobIDPattern i"

definition ValidHostID :: "bytes \<Rightarrow> bool" where
  "ValidHostID i \<longleftrightarrow> i \<noteq> [] \<and> length i \<le> MaxHostIDBytes \<and> jobIDPattern i"

section \<open>Statuses\<close>

definition StatusSucceeded :: bytes where [go_defs]: "StatusSucceeded = ''succeeded''"
definition StatusFailed :: bytes where [go_defs]: "StatusFailed = ''failed''"
definition StatusRefusedByPolicy :: bytes where [go_defs]: "StatusRefusedByPolicy = ''refused_by_policy''"
definition StatusRefusedUnsigned :: bytes where [go_defs]: "StatusRefusedUnsigned = ''refused_unsigned''"
definition StatusRefusedClockSkew :: bytes where [go_defs]: "StatusRefusedClockSkew = ''refused_clock_skew''"
definition StatusUnsupportedIntent :: bytes where [go_defs]: "StatusUnsupportedIntent = ''unsupported_intent''"
definition StatusExpired :: bytes where [go_defs]: "StatusExpired = ''expired''"

definition statuses :: "bytes list" where
  "statuses = [StatusSucceeded, StatusFailed, StatusRefusedByPolicy, StatusRefusedUnsigned,
     StatusRefusedClockSkew, StatusUnsupportedIntent, StatusExpired]"

definition ValidStatus :: "bytes \<Rightarrow> bool" where
  "ValidStatus s \<longleftrightarrow> s \<in> set statuses"

section \<open>Times on the wire\<close>

text \<open>\<open>t.UTC().Format(time.RFC3339)\<close>: the civil date of a day number, the year first, then the
  month from the day of the year.\<close>

definition year_yday :: "int \<Rightarrow> int \<times> int" where
  "year_yday d =
     (let n400 = d div 146097; d1 = d mod 146097;
          n100 = d1 div 36524; n100 = n100 - n100 div 4; d2 = d1 - 36524 * n100;
          n4 = d2 div 1461; d3 = d2 - 1461 * n4;
          n1 = d3 div 365; n1 = n1 - n1 div 4; d4 = d3 - 365 * n1
      in (400 * n400 + 100 * n100 + 4 * n4 + n1 + 1, d4))"

definition leap_year :: "int \<Rightarrow> bool" where
  "leap_year y \<longleftrightarrow> y mod 4 = 0 \<and> (y mod 100 \<noteq> 0 \<or> y mod 400 = 0)"

fun month_day :: "int list \<Rightarrow> int \<Rightarrow> int \<Rightarrow> int \<times> int" where
  "month_day [] m d = (m, d + 1)"
| "month_day (len # lens) m d = (if d < len then (m, d + 1) else month_day lens (m + 1) (d - len))"

definition civil_date :: "int \<Rightarrow> int \<times> int \<times> int" where
  "civil_date d =
     (case year_yday d of (y, yd) \<Rightarrow>
      case month_day [31, if leap_year y then 29 else 28, 31, 30, 31, 30, 31, 31, 30, 31, 30, 31] 1 yd of
        (m, md) \<Rightarrow> (y, m, md))"

text \<open>\<open>appendInt\<close>: a number padded with zeros to a width.\<close>

definition append_int :: "int \<Rightarrow> nat \<Rightarrow> bytes" where
  "append_int n w =
     (let ds = nat_digits (nat (abs n))
      in (if n < 0 then ''-'' else []) @ replicate (w - length ds) (CHR ''0'') @ ds)"

definition format_rfc3339 :: "instant \<Rightarrow> bytes" where
  "format_rfc3339 t =
     (let sec = t div Second; day = sec div 86400; s = sec mod 86400 in
      case civil_date day of (y, m, d) \<Rightarrow>
        append_int y 4 @ ''-'' @ append_int m 2 @ ''-'' @ append_int d 2 @ ''T'' @
        append_int (s div 3600) 2 @ '':'' @ append_int (s div 60 mod 60) 2 @ '':'' @
        append_int (s mod 60) 2 @ ''Z'')"

section \<open>Messages\<close>

text \<open>A job. Its parameters are a \<open>map[string]any\<close> (\<open>None\<close> is nil); a number in it is the literal
  that \<open>json.Marshal\<close> writes for the \<open>float64\<close> it was decoded to.\<close>

record job =
  ID :: bytes
  job_Intent :: bytes
  job_Params :: "(bytes \<times> json) list option"
  job_Class :: bytes
  job_IssuedAt :: instant
  NotBefore :: instant
  NotAfter :: instant
  Nonce :: bytes
  Signature :: bytes
  SignerKeyID :: bytes
  SignerAlgorithm :: bytes

definition SignedPayload :: "job \<Rightarrow> bytes \<Rightarrow> json" where
  "SignedPayload j hostID = JObj [
     (''jobId'', JStr (ID j)),
     (''hostId'', JStr hostID),
     (''intent'', JStr (job_Intent j)),
     (''params'', JObj (case job_Params j of None \<Rightarrow> [] | Some ps \<Rightarrow> ps)),
     (''notBefore'', JStr (format_rfc3339 (NotBefore j))),
     (''notAfter'', JStr (format_rfc3339 (NotAfter j))),
     (''nonce'', JStr (Nonce j))]"

record bootstrap =
  bs_Name :: bytes
  bs_Version :: int
  bs_Body :: bytes
  bs_Signature :: bytes
  bs_SignerKeyID :: bytes

definition bootstrap_SignedPayload :: "bootstrap \<Rightarrow> json" where
  "bootstrap_SignedPayload b = JObj [(''name'', JStr (bs_Name b)), (''body'', JStr (bs_Body b))]"

text \<open>A result; the error it reports is a value of the reporting component's error type.\<close>

record 'e result_request =
  JobID :: bytes
  Status :: bytes
  StartedAt :: instant
  FinishedAt :: instant
  res_ExitCode :: int
  Output :: bytes
  OutputTruncated :: bool
  Result :: "json option"
  res_Error :: "'e option"

section \<open>Properties\<close>

text \<open>The heartbeat interval an agent uses lies between fifteen seconds and an hour, and
  an interval already inside is kept.\<close>

theorem ClampHeartbeatSeconds_bounds:
  "15 \<le> ClampHeartbeatSeconds n \<and> ClampHeartbeatSeconds n \<le> 3600 \<and>
   (ClampHeartbeatSeconds n = n \<longleftrightarrow> 15 \<le> n \<and> n \<le> 3600)"
  by (auto simp: ClampHeartbeatSeconds_def MinHeartbeatSeconds_def MaxHeartbeatSeconds_def)

lemma TruncateOutput_suffix:
  "TruncateOutput s = (out, was_cut) \<Longrightarrow> (\<exists>pre. s = pre @ out \<and> (was_cut \<longleftrightarrow> pre \<noteq> [])) \<and> length out = min (length s) 65536"
  by (auto simp: TruncateOutput_def MaxJobOutputBytes_def split: if_splits
      intro: exI [of _ "take (length s - 65536) s"])

lemma TruncateOutput_idem: "TruncateOutput (fst (TruncateOutput s)) = (fst (TruncateOutput s), False)"
  by (simp add: TruncateOutput_def)

text \<open>Truncating keeps the end of the output, exactly as much of it as fits, says so when
  it cut anything, and cuts nothing the second time, so that the agent can truncate again what the
  helper truncated.\<close>

theorem TruncateOutput_tail:
  "\<exists>pre. s = pre @ fst (TruncateOutput s) \<and> snd (TruncateOutput s) = (pre \<noteq> []) \<and>
     length (fst (TruncateOutput s)) = min (length s) 65536 \<and>
     TruncateOutput (fst (TruncateOutput s)) = (fst (TruncateOutput s), False)"
  using TruncateOutput_suffix [of s] TruncateOutput_idem [of s] by (cases "TruncateOutput s") auto

section \<open>A formatted time determines its second\<close>

lemma month_day_split:
  "month_day lens m d = (m', d') \<Longrightarrow> \<exists>k \<le> length lens. m' = m + int k \<and> d = sum_list (take k lens) + d' - 1"
proof (induction lens m d rule: month_day.induct)
  case (2 len lens m d)
  show ?case
  proof (cases "d < len")
    case True
    with 2 show ?thesis by (intro exI [of _ 0]) simp
  next
    case False
    with 2 obtain k where "k \<le> length lens" "m' = m + 1 + int k" "d - len = sum_list (take k lens) + d' - 1" by auto
    then show ?thesis by (intro exI [of _ "Suc k"]) simp
  qed
qed simp

lemma month_day_range:
  "month_day lens m d = (m', d') \<Longrightarrow> 0 \<le> d \<Longrightarrow> \<forall>l \<in> set lens. l \<le> 31 \<Longrightarrow> d < sum_list lens + 31 \<Longrightarrow> 1 \<le> d' \<and> d' \<le> 31"
  by (induction lens m d rule: month_day.induct) (auto split: if_splits)

text \<open>A quotient of four counts as three: the last year of a period has a day more.\<close>

lemma quotient_capped:
  assumes "0 \<le> x" "x \<le> 4 * b" "(0 :: int) < b"
  shows "0 \<le> x div b - x div b div 4 \<and> x div b - x div b div 4 \<le> 3 \<and>
    0 \<le> x - b * (x div b - x div b div 4) \<and> x - b * (x div b - x div b div 4) \<le> b"
proof -
  define q r where "q = x div b" and "r = x mod b"
  have x: "x = b * q + r" "0 \<le> r" "r < b" using assms(3) by (simp_all add: q_def r_def)
  have q: "0 \<le> q" using assms by (simp add: q_def pos_imp_zdiv_nonneg_iff)
  have "b * q \<le> b * 4" using x assms(2) by linarith
  then have q4: "q \<le> 4" using assms(3) by simp
  show ?thesis
  proof (cases "q = 4")
    case True
    with x assms(2) show ?thesis by (simp add: q_def [symmetric])
  next
    case False
    with q q4 have "q div 4 = 0" by simp
    with x q q4 False show ?thesis by (simp add: q_def [symmetric])
  qed
qed

lemma year_yday_split:
  assumes "year_yday d = (y, yd)"
  obtains n400 n100 n4 n1 where "y = 400 * n400 + 100 * n100 + 4 * n4 + n1 + 1"
    "d = 146097 * n400 + 36524 * n100 + 1461 * n4 + 365 * n1 + yd" "0 \<le> n100" "n100 \<le> 3" "0 \<le> n4" "n4 \<le> 24"
    "0 \<le> n1" "n1 \<le> 3" "0 \<le> yd" "yd \<le> 365"
proof -
  define a where "a = d mod 146097"
  define c where "c = a div 36524 - a div 36524 div 4"
  define e where "e = a - 36524 * c"
  define f where "f = e div 1461"
  define g where "g = e - 1461 * f"
  define i where "i = g div 365 - g div 365 div 4"
  have "year_yday d = (400 * (d div 146097) + 100 * c + 4 * f + i + 1, g - 365 * i)"
    by (simp only: year_yday_def Let_def a_def c_def e_def f_def g_def i_def)
  with assms have y: "y = 400 * (d div 146097) + 100 * c + 4 * f + i + 1" "yd = g - 365 * i"
    by (metis prod.inject)+
  have a: "0 \<le> a" "a < 146097" by (simp_all add: a_def)
  then have c: "0 \<le> c" "c \<le> 3" "0 \<le> e" "e \<le> 36524"
    using quotient_capped [of a 36524] by (simp_all add: c_def e_def)
  then have g: "0 \<le> f" "f \<le> 24" "0 \<le> g" "g \<le> 1460" unfolding f_def g_def by linarith+
  then have i: "0 \<le> i" "i \<le> 3" "0 \<le> g - 365 * i" "g - 365 * i \<le> 365"
    using quotient_capped [of g 365] by (simp_all add: i_def)
  have "d = 146097 * (d div 146097) + a" by (simp add: a_def)
  then have "d = 146097 * (d div 146097) + 36524 * c + 1461 * f + 365 * i + yd"
    unfolding y(2) by (simp add: g_def e_def)
  then show thesis using that y c g i by blast
qed

lemma year_yday_inj:
  assumes "year_yday d = (y, yd)" "year_yday d' = (y, yd)"
  shows "d = d'"
proof -
  from year_yday_split [OF assms(1)] obtain a b c e where
    1: "y = 400 * a + 100 * b + 4 * c + e + 1" "d = 146097 * a + 36524 * b + 1461 * c + 365 * e + yd"
       "0 \<le> b" "b \<le> 3" "0 \<le> c" "c \<le> 24" "0 \<le> e" "e \<le> 3" by metis
  from year_yday_split [OF assms(2)] obtain a' b' c' e' where
    2: "y = 400 * a' + 100 * b' + 4 * c' + e' + 1" "d' = 146097 * a' + 36524 * b' + 1461 * c' + 365 * e' + yd"
       "0 \<le> b'" "b' \<le> 3" "0 \<le> c'" "c' \<le> 24" "0 \<le> e'" "e' \<le> 3" by metis
  have "a = a'" using 1(1,3-) 2(1,3-) by linarith
  moreover from this have "b = b'" using 1(1,3-) 2(1,3-) by linarith
  moreover from calculation have "c = c'" using 1(1,3-) 2(1,3-) by linarith
  moreover from calculation have "e = e'" using 1(1) 2(1) by linarith
  ultimately show ?thesis using 1(2) 2(2) by simp
qed

lemma civil_date_range:
  assumes "civil_date d = (y, m, md)"
  shows "1 \<le> m \<and> m \<le> 13 \<and> 1 \<le> md \<and> md \<le> 31"
proof -
  let ?lens = "[31, if leap_year y then 29 else 28, 31, 30, 31, 30, 31, 31, 30, 31, 30, 31] :: int list"
  obtain yd where y: "year_yday d = (y, yd)" "month_day ?lens 1 yd = (m, md)"
    using assms by (auto simp: civil_date_def split: prod.splits)
  from year_yday_split [OF y(1)] have yd: "0 \<le> yd" "yd \<le> 365" by metis+
  from month_day_split [OF y(2)] have "1 \<le> m \<and> m \<le> 13" by auto
  moreover have "1 \<le> md \<and> md \<le> 31" by (rule month_day_range [OF y(2) yd(1)]) (use yd in auto)
  ultimately show ?thesis by blast
qed

lemma civil_date_inj:
  assumes "civil_date d = civil_date d'"
  shows "d = d'"
proof -
  obtain y m md where c: "civil_date d = (y, m, md)" by (cases "civil_date d")
  let ?lens = "[31, if leap_year y then 29 else 28, 31, 30, 31, 30, 31, 31, 30, 31, 30, 31] :: int list"
  obtain yd yd' where y: "year_yday d = (y, yd)" "month_day ?lens 1 yd = (m, md)"
    "year_yday d' = (y, yd')" "month_day ?lens 1 yd' = (m, md)"
    using c c [unfolded assms] by (auto simp: civil_date_def split: prod.splits)
  from month_day_split [OF y(2)] month_day_split [OF y(4)] have "yd = yd'" by force
  with y(1,3) show ?thesis by (metis year_yday_inj)
qed


lemma digits_val_zeros: "digits_val (replicate k (CHR ''0'') @ ds) = digits_val ds"
  by (induction k) (simp_all add: digits_val_def)

lemma append_int_split:
  "\<exists>ds. append_int n w = (if n < 0 then ''-'' else []) @ ds \<and> digits_val ds = abs n \<and> CHR ''-'' \<notin> set ds"
proof -
  have "CHR ''-'' \<notin> set (nat_digits (nat (abs n)))"
    using nat_digits_digits [of "nat (abs n)"] by (auto simp: list_all_iff is_digit_def)
  then show ?thesis by (simp add: append_int_def Let_def digits_val_zeros)
qed

lemma append_int_inj:
  assumes "append_int n w = append_int n' w'"
  shows "n = n'"
proof -
  obtain ds where ds: "append_int n w = (if n < 0 then ''-'' else []) @ ds" "digits_val ds = abs n" "CHR ''-'' \<notin> set ds"
    using append_int_split by blast
  obtain ds' where ds': "append_int n' w' = (if n' < 0 then ''-'' else []) @ ds'" "digits_val ds' = abs n'" "CHR ''-'' \<notin> set ds'"
    using append_int_split by blast
  have "(if n < 0 then ''-'' else []) @ ds = (if n' < 0 then ''-'' else []) @ ds'" using assms ds(1) ds'(1) by simp
  with ds(3) ds'(3) have "(n < 0 \<longleftrightarrow> n' < 0) \<and> ds = ds'" by (cases "n < 0"; cases "n' < 0") auto
  with ds(2) ds'(2) show ?thesis by auto
qed

lemma append_int_two: "0 \<le> n \<Longrightarrow> n < 100 \<Longrightarrow> length (append_int n 2) = 2"
proof -
  assume n: "0 \<le> n" "n < 100"
  have "length (nat_digits (nat n)) \<le> 2"
  proof (cases "nat n < 10")
    case True
    then show ?thesis by (simp add: nat_digits.simps [of "nat n"])
  next
    case False
    moreover have "nat n div 10 < 10" using n by linarith
    ultimately show ?thesis by (simp add: nat_digits.simps [of "nat n"] nat_digits.simps [of "nat n div 10"])
  qed
  with n show ?thesis by (simp add: append_int_def Let_def)
qed

text \<open>Only the year has a length of its own, and it stands first.\<close>

lemma format_rfc3339_inj:
  assumes "format_rfc3339 t = format_rfc3339 t'"
  shows "t div Second = t' div Second"
proof -
  define s s' where "s = t div Second mod 86400" and "s' = t' div Second mod 86400"
  obtain y m d y' m' d' where c: "civil_date (t div Second div 86400) = (y, m, d)" "civil_date (t' div Second div 86400) = (y', m', d')"
    by (metis prod_cases3)
  note r = civil_date_range [OF c(1)] civil_date_range [OF c(2)]
  have s: "0 \<le> s" "s < 86400" "0 \<le> s'" "s' < 86400" by (simp_all add: s_def s'_def)
  then have q: "0 \<le> s div 3600" "s div 3600 < 100" "0 \<le> s' div 3600" "s' div 3600 < 100" by auto
  have l: "length (append_int n 2) = 2" if "n \<in> {m, m', d, d', s div 3600, s' div 3600, s div 60 mod 60, s' div 60 mod 60, s mod 60, s' mod 60}" for n
  proof (rule append_int_two)
    show "0 \<le> n" using that r q by auto
    show "n < 100" using that r q pos_mod_bound [of 60 "s div 60"] pos_mod_bound [of 60 "s' div 60"] pos_mod_bound [of 60 s] pos_mod_bound [of 60 s'] by auto
  qed
  have "append_int y 4 @ ''-'' @ append_int m 2 @ ''-'' @ append_int d 2 @ ''T'' @ append_int (s div 3600) 2 @ '':'' @
      append_int (s div 60 mod 60) 2 @ '':'' @ append_int (s mod 60) 2 @ ''Z'' =
    append_int y' 4 @ ''-'' @ append_int m' 2 @ ''-'' @ append_int d' 2 @ ''T'' @ append_int (s' div 3600) 2 @ '':'' @
      append_int (s' div 60 mod 60) 2 @ '':'' @ append_int (s' mod 60) 2 @ ''Z''"
    using assms c by (simp add: format_rfc3339_def Let_def s_def s'_def)
  then have "append_int y 4 = append_int y' 4 \<and> append_int m 2 = append_int m' 2 \<and> append_int d 2 = append_int d' 2 \<and>
      append_int (s div 3600) 2 = append_int (s' div 3600) 2 \<and> append_int (s div 60 mod 60) 2 = append_int (s' div 60 mod 60) 2 \<and>
      append_int (s mod 60) 2 = append_int (s' mod 60) 2"
    by (simp add: l append_eq_append_conv)
  then have eq: "y = y'" "m = m'" "d = d'" "s div 3600 = s' div 3600" "s div 60 mod 60 = s' div 60 mod 60" "s mod 60 = s' mod 60"
    by (auto dest: append_int_inj)
  have parts: "x = 3600 * (x div 3600) + 60 * (x div 60 mod 60) + x mod 60" for x :: int
  proof -
    have "x div 3600 = x div 60 div 60" by (simp add: zdiv_zmult2_eq [symmetric])
    then show ?thesis using div_mult_mod_eq [of x 60] div_mult_mod_eq [of "x div 60" 60] by linarith
  qed
  have "s = s'" by (rule trans [OF parts [of s, unfolded eq(4-6)] parts [of s', symmetric]])
  moreover have "t div Second div 86400 = t' div Second div 86400" using c eq(1-3) by (intro civil_date_inj) simp
  moreover have "x = x div 86400 * 86400 + x mod 86400" for x :: int by (simp only: div_mult_mod_eq)
  ultimately show ?thesis unfolding s_def s'_def by metis
qed

section \<open>What a job's signature covers\<close>

lemma payload_sorted:
  "sort_key fst [(''jobId'', a), (''hostId'', b), (''intent'', c), (''params'', d), (''notBefore'', e),
      (''notAfter'', f), (''nonce'', g)] =
   [(''hostId'', b), (''intent'', c), (''jobId'', a), (''nonce'', g), (''notAfter'', f), (''notBefore'', e),
      (''params'', d)]"
  "sort_key fst [(''hostId'', b), (''intent'', c), (''jobId'', a), (''nonce'', g), (''notAfter'', f),
      (''notBefore'', e), (''params'', d)] =
   [(''hostId'', b), (''intent'', c), (''jobId'', a), (''nonce'', g), (''notAfter'', f), (''notBefore'', e),
      (''params'', d)]"
  by (simp_all add: less_eq_char_def less_char_def)

lemma payload_keys [simp]:
  "sanitize ''jobId'' = ''jobId''" "sanitize ''hostId'' = ''hostId''" "sanitize ''intent'' = ''intent''"
  "sanitize ''params'' = ''params''" "sanitize ''notBefore'' = ''notBefore''" "sanitize ''notAfter'' = ''notAfter''"
  "sanitize ''nonce'' = ''nonce''"
  by (simp_all add: sanitize_plain plain_char_def)

text \<open>The parameters as both sides of the signature see them: strings made valid, the last of several
  equal keys, keys in order.\<close>

definition canonical_params :: "job \<Rightarrow> json" where
  "canonical_params j =
     read_back (decode_any (read_back (JObj (case job_Params j of None \<Rightarrow> [] | Some ps \<Rightarrow> ps))))"

lemma payload_read_back:
  "read_back (decode_any (read_back (SignedPayload j h))) = JObj [
     (''hostId'', JStr (sanitize h)), (''intent'', JStr (sanitize (job_Intent j))),
     (''jobId'', JStr (sanitize (ID j))), (''nonce'', JStr (sanitize (Nonce j))),
     (''notAfter'', JStr (sanitize (format_rfc3339 (NotAfter j)))),
     (''notBefore'', JStr (sanitize (format_rfc3339 (NotBefore j)))),
     (''params'', canonical_params j)]"
  unfolding SignedPayload_def read_back.simps(6) payload_sorted(1)
  by (simp add: map_of_members_id payload_sorted(2) canonical_params_def del: sort_key_simps)

lemma digit_plain: "is_digit c \<Longrightarrow> plain_char c"
  unfolding is_digit_def plain_char_def by (elim conjE, intro conjI notI) simp_all

lemma append_int_plain: "list_all plain_char (append_int n w)"
proof -
  have "list_all plain_char (nat_digits m)" for m
    using nat_digits_digits [of m] by (auto simp: list_all_iff digit_plain)
  moreover have z: "plain_char (CHR ''0'')" "plain_char (CHR ''-'')" by (simp_all add: plain_char_def)
  moreover have "list_all plain_char (replicate k (CHR ''0''))" for k
    using z by (induction k) simp_all
  ultimately show ?thesis by (simp add: append_int_def Let_def)
qed

lemma format_rfc3339_plain: "sanitize (format_rfc3339 t) = format_rfc3339 t"
  by (rule sanitize_plain)
    (simp add: format_rfc3339_def Let_def append_int_plain plain_char_def split: prod.split)

text \<open>Two deliveries that agree on everything a signature covers.\<close>

definition same_content :: "job \<Rightarrow> bytes \<Rightarrow> job \<Rightarrow> bytes \<Rightarrow> bool" where
  "same_content j h j' h' \<longleftrightarrow> sanitize h = sanitize h' \<and> sanitize (ID j) = sanitize (ID j') \<and>
    sanitize (job_Intent j) = sanitize (job_Intent j') \<and> sanitize (Nonce j) = sanitize (Nonce j') \<and>
    format_rfc3339 (NotBefore j) = format_rfc3339 (NotBefore j') \<and>
    format_rfc3339 (NotAfter j) = format_rfc3339 (NotAfter j') \<and> canonical_params j = canonical_params j'"

lemma payload_same_content:
  assumes "Marshal (SignedPayload j h) = Inr out" and "Marshal (SignedPayload j' h') = Inr out"
    and "jdepth (SignedPayload j h) \<le> max_nesting" and "jdepth (SignedPayload j' h') \<le> max_nesting"
  shows "same_content j h j' h'"
  using Marshal_determines [OF assms] unfolding payload_read_back format_rfc3339_plain same_content_def by simp

text \<open>Property C33: a signature over the canonical payload binds the job: two jobs with the same payload
  bytes are for the same host, have the same identifier, intent and nonce (up to the replacement
  of bytes that are not UTF-8), windows that begin and end in the same second, and the same parameters.\<close>

theorem SignedPayload_binds:
  assumes "Marshal (SignedPayload j h) = Inr out" and "Marshal (SignedPayload j' h') = Inr out"
    and "jdepth (SignedPayload j h) \<le> max_nesting" and "jdepth (SignedPayload j' h') \<le> max_nesting"
  shows "sanitize h = sanitize h' \<and> sanitize (ID j) = sanitize (ID j') \<and>
    sanitize (job_Intent j) = sanitize (job_Intent j') \<and> sanitize (Nonce j) = sanitize (Nonce j') \<and>
    NotBefore j div Second = NotBefore j' div Second \<and> NotAfter j div Second = NotAfter j' div Second \<and>
    canonical_params j = canonical_params j'"
  using payload_same_content [OF assms] format_rfc3339_inj unfolding same_content_def by blast

definition sample_job :: job where
  "sample_job = \<lparr>ID = ''J1'', job_Intent = ''host.reboot'', job_Params = Some [(''delaySeconds'', JNum ''60'')],
     job_Class = ''destructive'', job_IssuedAt = 0, NotBefore = 63902908799 * Second, NotAfter = 63902909799 * Second,
     Nonce = ''n1'', Signature = ''c2ln'', SignerKeyID = [], SignerAlgorithm = []\<rparr>"

lemma sample_payload:
  "Marshal (SignedPayload sample_job ''H1'') =
   Inr (''{\"hostId\":\"H1\",\"intent\":\"host.reboot\",\"jobId\":\"J1\",\"nonce\":\"n1\",'' @
     ''\"notAfter\":\"2026-01-02T00:16:39Z\",\"notBefore\":\"2026-01-01T23:59:59Z\",\"params\":{\"delaySeconds\":60}}'')"
  by code_simp

theorem SignedPayload_binds_witness:
  "\<exists>out. Marshal (SignedPayload sample_job ''H1'') = Inr out \<and>
     Marshal (SignedPayload (sample_job\<lparr>job_Class := ''read''\<rparr>) ''H1'') = Inr out \<and>
     canonical_params sample_job = canonical_params (sample_job\<lparr>job_Class := ''read''\<rparr>)"
proof -
  let ?j = "sample_job\<lparr>job_Class := ''read''\<rparr>"
  have same: "SignedPayload ?j ''H1'' = SignedPayload sample_job ''H1''" by (simp add: SignedPayload_def)
  have d: "jdepth (SignedPayload sample_job ''H1'') \<le> max_nesting" by code_simp
  from SignedPayload_binds [OF sample_payload sample_payload [folded same] d d [folded same]]
  show ?thesis using sample_payload same by auto
qed

end
