(* ===== verification/Acceptance.thy ===== *)
theory Acceptance
  imports Signing Nonces Policy Protocol
begin

text \<open>
  \<open>internal/agent/execute.go\<close>, the first half: which jobs the agent accepts. The two signature checks
  verify against different anchors; what they share is the locale \<open>trust_anchor\<close>, which both
  interpret. \<open>accept\<close> is the sequence of \<open>docs/PROTOCOL.md\<close> in the order of the source: catalogue,
  profile, clock, window, signature, replay, policy.
\<close>

section \<open>Signatures\<close>

datatype verify_error =
    NoKeys name | NoSignature | SignatureNotBase64 | PayloadNotCanonical canonical_error
  | NotVerified signing_error | SignerMismatch bytes bytes

definition decodeSignature :: "bytes \<Rightarrow> (verify_error, bytes) result" where
  "decodeSignature encoded =
     (if encoded = [] then Inl NoSignature
      else case base64_decode encoded of None \<Rightarrow> Inl SignatureNotBase64 | Some raw \<Rightarrow> Inr raw)"

definition verifyOfflineSignature ::
  "crypto \<Rightarrow> job \<Rightarrow> bytes \<Rightarrow> signer_set option \<Rightarrow> (verify_error, unit) result" where
  "verifyOfflineSignature cr j hostID signers =
     (if set_Empty signers then Inl (NoKeys (job_Intent j))
      else case decodeSignature (Signature j) of
        Inl e \<Rightarrow> Inl e
      | Inr signature \<Rightarrow>
          (case Marshal (SignedPayload j hostID) of
             Inl e \<Rightarrow> Inl (PayloadNotCanonical e)
           | Inr payload \<Rightarrow>
               (case set_Verify cr signers payload signature of
                  Inl e \<Rightarrow> Inl (NotVerified e)
                | Inr key \<Rightarrow>
                    if SignerKeyID j \<noteq> [] \<and> SignerKeyID j \<noteq> KeyID key
                    then Inl (SignerMismatch (SignerKeyID j) (KeyID key)) else Inr ())))"

definition verifyOnlineSignature ::
  "crypto \<Rightarrow> job \<Rightarrow> bytes \<Rightarrow> signer_set option \<Rightarrow> (verify_error, unit) result" where
  "verifyOnlineSignature cr j hostID online =
     (if set_Empty online then Inl (NoKeys (job_Intent j))
      else case decodeSignature (Signature j) of
        Inl e \<Rightarrow> Inl e
      | Inr signature \<Rightarrow>
          (case Marshal (SignedPayload j hostID) of
             Inl e \<Rightarrow> Inl (PayloadNotCanonical e)
           | Inr payload \<Rightarrow>
               (case set_Verify cr online payload signature of
                  Inl e \<Rightarrow> Inl (NotVerified e)
                | Inr key \<Rightarrow>
                    if SignerKeyID j \<noteq> [] \<and> SignerKeyID j \<noteq> KeyID key
                    then Inl (SignerMismatch (SignerKeyID j) (KeyID key)) else Inr ())))"

section \<open>Acceptance\<close>

definition effectiveIssueTime :: "job \<Rightarrow> instant" where
  "effectiveIssueTime j = (if Signature j \<noteq> [] \<and> NotBefore j \<noteq> 0 then NotBefore j else job_IssuedAt j)"

text \<open>The negation of an \<open>int64\<close> wraps at the least one.\<close>

definition absDuration :: "duration \<Rightarrow> duration" where
  "absDuration d = (if d < 0 then wrap64 (- d) else d)"

datatype reject =
    ParamsNotEncoded | IntentRefused name intent_error | NotInProfile name profile | NotImplemented name
  | ClockSkewed duration | WindowNotOpen | WindowClosed | SignatureRefused verify_error
  | NoStartTime | NoExpiry | ReplayStoreUnusable nonce_error | NonceUsed | PolicyRefused reason

record accepted_job =
  acc_spec :: spec
  acc_params :: params
  acc_raw :: bytes

text \<open>What \<open>accept\<close> reads beside its arguments: the build's profile, the clock as the nonce store reads
  it, the outcome of the store's write, and the pause marker.\<close>

record accept_env =
  ae_profile :: profile
  ae_check_now :: instant
  ae_written :: write_outcome
  ae_paused :: bool

definition job_params_json :: "job \<Rightarrow> json" where
  "job_params_json j = (case job_Params j of None \<Rightarrow> JNull | Some ps \<Rightarrow> JObj ps)"

text \<open>Steps 4 and 4a.\<close>

definition check_signature ::
  "crypto \<Rightarrow> job \<Rightarrow> bytes \<Rightarrow> signer_set option \<Rightarrow> signer_set option \<Rightarrow> spec \<Rightarrow> (bytes \<times> reject, unit) result" where
  "check_signature cr j hostID signers online s =
     bind_res
       (if RequiresOfflineSignature (Class s) then
          (case verifyOfflineSignature cr j hostID signers of
             Inl e \<Rightarrow> Inl (StatusRefusedUnsigned, SignatureRefused e) | Inr _ \<Rightarrow> Inr ())
        else if RequiresOnlineSignature (Class s) then
          (case verifyOnlineSignature cr j hostID online of
             Inl e \<Rightarrow> Inl (StatusRefusedUnsigned, SignatureRefused e) | Inr _ \<Rightarrow> Inr ())
        else Inr ())
       (\<lambda>_. if Signature j \<noteq> [] \<and> Privileged (Class s) then
               (if NotBefore j = 0 then Inl (StatusRefusedUnsigned, NoStartTime)
                else if NotAfter j = 0 then Inl (StatusRefusedUnsigned, NoExpiry)
                else Inr ())
             else Inr ())"

text \<open>Steps 1 to 3.\<close>

definition check_job ::
  "accept_env \<Rightarrow> job \<Rightarrow> duration \<Rightarrow> instant \<Rightarrow> (bytes \<times> reject, accepted_job) result" where
  "check_job ae j clockOffset now = (case json_marshal (job_params_json j) of
      Inl _ \<Rightarrow> Inl (StatusFailed, ParamsNotEncoded)
    | Inr rawParams \<Rightarrow>
        (case Decode (job_Intent j) rawParams of
           Inl e \<Rightarrow> Inl (StatusUnsupportedIntent, IntentRefused (job_Intent j) e)
         | Inr (s, ps) \<Rightarrow>
             if \<not> InProfile (ae_profile ae) (spec_Name s) then
               Inl (StatusUnsupportedIntent, NotInProfile (spec_Name s) (ae_profile ae))
             else if \<not> Implemented s then Inl (StatusUnsupportedIntent, NotImplemented (spec_Name s))
             else if Privileged (Class s) \<and> MaxClockSkewSeconds * Second < absDuration clockOffset then
               Inl (StatusRefusedClockSkew, ClockSkewed clockOffset)
             else if NotBefore j \<noteq> 0 \<and> now < NotBefore j then Inl (StatusExpired, WindowNotOpen)
             else if NotAfter j \<noteq> 0 \<and> NotAfter j < now then Inl (StatusExpired, WindowClosed)
             else Inr \<lparr>acc_spec = s, acc_params = ps, acc_raw = rawParams\<rparr>))"

text \<open>Step 5: the store's answer and the store.\<close>

definition check_replay ::
  "accept_env \<Rightarrow> nonce_state \<Rightarrow> job \<Rightarrow> spec \<Rightarrow> (bytes \<times> reject, unit) result \<times> nonce_state" where
  "check_replay ae st j s =
     (if Signature j \<noteq> [] \<and> Privileged (Class s) then
        (case Check st (Nonce j) (NotAfter j) (ae_check_now ae) (ae_written ae) of
           (Inl e, st') \<Rightarrow> (Inl (StatusFailed, ReplayStoreUnusable e), st')
         | (Inr used, st') \<Rightarrow>
             (if used then Inl (StatusRefusedUnsigned, NonceUsed) else Inr (), st'))
      else (Inr (), st))"

text \<open>Step 6.\<close>

definition check_policy ::
  "accept_env \<Rightarrow> policy \<Rightarrow> job \<Rightarrow> instant \<Rightarrow> accepted_job \<Rightarrow> (bytes \<times> reject, accepted_job) result" where
  "check_policy ae p j now a =
     (let d = Decide p \<lparr>req_Intent = spec_Name (acc_spec a), req_Params = Some (acc_params a),
                        IssuedAt = effectiveIssueTime j\<rparr> \<lparr>Now = now, Paused = ae_paused ae\<rparr>
      in if \<not> Allowed d then
           Inl (if Code d = CodeExpired then StatusExpired else StatusRefusedByPolicy, PolicyRefused (Reason d))
         else Inr a)"

definition accept ::
  "crypto \<Rightarrow> accept_env \<Rightarrow> job \<Rightarrow> bytes \<Rightarrow> policy \<Rightarrow> signer_set option \<Rightarrow> signer_set option \<Rightarrow> nonce_state \<Rightarrow>
   duration \<Rightarrow> instant \<Rightarrow> (bytes \<times> reject, accepted_job) result \<times> nonce_state" where
  "accept cr ae j hostID p signers online st clockOffset now = (case check_job ae j clockOffset now of
      Inl r \<Rightarrow> (Inl r, st)
    | Inr a \<Rightarrow>
        (case check_signature cr j hostID signers online (acc_spec a) of
           Inl r \<Rightarrow> (Inl r, st)
         | Inr _ \<Rightarrow>
             (case check_replay ae st j (acc_spec a) of
                (Inl r, st') \<Rightarrow> (Inl r, st')
              | (Inr _, st') \<Rightarrow> (check_policy ae p j now a, st'))))"

section \<open>Trust anchors\<close>

text \<open>A job is authorised by a set of keys when one of them verifies its signature over the canonical
  payload for this host, and the job names no other signer.\<close>

definition authorised_by :: "crypto \<Rightarrow> job \<Rightarrow> bytes \<Rightarrow> signer_set option \<Rightarrow> bool" where
  "authorised_by cr j h s \<longleftrightarrow> (\<exists>k \<in> set (set_Keys s). \<exists>payload sig.
     decodeSignature (Signature j) = Inr sig \<and> Marshal (SignedPayload j h) = Inr payload \<and>
     key_Verify cr k payload sig \<and> (SignerKeyID j = [] \<or> SignerKeyID j = KeyID k))"

text \<open>The keys of a set sign only what their holder approved: the documented property of a signature
  scheme, as a relation between the keys of a set and the payloads that were signed.\<close>

definition signs_only :: "crypto \<Rightarrow> signer_set option \<Rightarrow> bytes set \<Rightarrow> bool" where
  "signs_only cr s issued \<longleftrightarrow>
     (\<forall>k \<in> set (set_Keys s). \<forall>payload sig. key_Verify cr k payload sig \<longrightarrow> payload \<in> issued)"

locale trust_anchor =
  fixes verify :: "crypto \<Rightarrow> job \<Rightarrow> bytes \<Rightarrow> signer_set option \<Rightarrow> (verify_error, unit) result"
  assumes verify_sound: "verify cr j h s = Inr u \<Longrightarrow> authorised_by cr j h s"
    and verify_payload: "SignedPayload j' h = SignedPayload j h \<Longrightarrow> Signature j' = Signature j \<Longrightarrow>
      SignerKeyID j' = SignerKeyID j \<Longrightarrow> verify cr j h s = Inr u \<Longrightarrow> verify cr j' h s = Inr u"
begin

lemma verified_signature: "verify cr j h s = Inr u \<Longrightarrow> Signature j \<noteq> []"
  by (auto dest!: verify_sound simp: authorised_by_def decodeSignature_def)

lemma verified_not_empty: "verify cr j h s = Inr u \<Longrightarrow> \<not> set_Empty s"
  by (auto dest!: verify_sound simp: authorised_by_def set_Empty_def set_Keys_def split: option.splits)

text \<open>What verified was approved: the approved job has the content of the delivered one.\<close>

lemma verified_approved:
  assumes "verify cr j h s = Inr u" and "signs_only cr s issued" and "jdepth (SignedPayload j h) \<le> max_nesting"
    and issued: "\<And>p. p \<in> issued \<Longrightarrow> \<exists>(j0, h0) \<in> approved.
      Marshal (SignedPayload j0 h0) = Inr p \<and> jdepth (SignedPayload j0 h0) \<le> max_nesting"
  shows "\<exists>(j0, h0) \<in> approved. same_content j h j0 h0"
proof -
  obtain p where p: "Marshal (SignedPayload j h) = Inr p" "p \<in> issued"
    using verify_sound [OF assms(1)] assms(2) by (auto simp: authorised_by_def signs_only_def)
  from issued [OF p(2)] obtain j0 h0 where "(j0, h0) \<in> approved"
    "Marshal (SignedPayload j0 h0) = Inr p" "jdepth (SignedPayload j0 h0) \<le> max_nesting" by auto
  with payload_same_content [OF p(1) _ assms(3)] show ?thesis by blast
qed

end

interpretation offline: trust_anchor verifyOfflineSignature
proof unfold_locales
  show "verifyOfflineSignature cr j h s = Inr u \<Longrightarrow> authorised_by cr j h s" for cr j h s u
    by (auto simp: verifyOfflineSignature_def authorised_by_def dest!: set_Verify_Inr split: if_splits sum.splits)
  show "SignedPayload j' h = SignedPayload j h \<Longrightarrow> Signature j' = Signature j \<Longrightarrow> SignerKeyID j' = SignerKeyID j \<Longrightarrow>
      verifyOfflineSignature cr j h s = Inr u \<Longrightarrow> verifyOfflineSignature cr j' h s = Inr u" for j' h j cr s u
    by (cases "set_Empty s") (simp_all add: verifyOfflineSignature_def cong: sum.case_cong if_cong)
qed

interpretation online: trust_anchor verifyOnlineSignature
proof unfold_locales
  show "verifyOnlineSignature cr j h s = Inr u \<Longrightarrow> authorised_by cr j h s" for cr j h s u
    by (auto simp: verifyOnlineSignature_def authorised_by_def dest!: set_Verify_Inr split: if_splits sum.splits)
  show "SignedPayload j' h = SignedPayload j h \<Longrightarrow> Signature j' = Signature j \<Longrightarrow> SignerKeyID j' = SignerKeyID j \<Longrightarrow>
      verifyOnlineSignature cr j h s = Inr u \<Longrightarrow> verifyOnlineSignature cr j' h s = Inr u" for j' h j cr s u
    by (cases "set_Empty s") (simp_all add: verifyOnlineSignature_def cong: sum.case_cong if_cong)
qed

section \<open>What acceptance implies\<close>

lemma accept_Inr:
  assumes "accept cr ae j h p signers online st off now = (Inr a, st')"
  shows "check_job ae j off now = Inr a" and "check_signature cr j h signers online (acc_spec a) = Inr ()"
    and "check_replay ae st j (acc_spec a) = (Inr (), st')" and "check_policy ae p j now a = Inr a"
  using assms by (auto simp: accept_def check_policy_def Let_def split: sum.splits prod.splits if_splits)

lemma check_job_Inr:
  assumes "check_job ae j off now = Inr a"
  shows "Decode (job_Intent j) (acc_raw a) = Inr (acc_spec a, acc_params a)"
    and "json_marshal (job_params_json j) = Inr (acc_raw a)"
    and "InProfile (ae_profile ae) (job_Intent j)"
    and "Privileged (Class (acc_spec a)) \<Longrightarrow> absDuration off \<le> MaxClockSkewSeconds * Second"
    and "NotBefore j \<noteq> 0 \<Longrightarrow> NotBefore j \<le> now" and "NotAfter j \<noteq> 0 \<Longrightarrow> now \<le> NotAfter j"
  using assms by (auto simp: check_job_def Decode_Inr spec_Name_Lookup split: sum.splits if_splits)

text \<open>Where the bound on the clock holds: everywhere but at the least duration.\<close>

lemma absDuration_bound:
  assumes "absDuration off \<le> k" and "in_int64 off" and "off \<noteq> int64_min"
  shows "\<bar>off\<bar> \<le> k"
proof (cases "off < 0")
  case True
  with assms have "in_int64 (- off)" by (simp add: in_int64_def int64_min_def int64_max_def)
  with True assms show ?thesis by (simp add: absDuration_def wrap64_id)
qed (use assms in \<open>simp add: absDuration_def\<close>)

lemma anchor_cases: "Lookup n = Some s \<Longrightarrow> Privileged (Class s) \<Longrightarrow>
    Class s = ClassDestructive \<and> RequiresOfflineSignature (Class s) \<or>
    Class s = ClassRoutine \<and> RequiresOnlineSignature (Class s) \<and> \<not> RequiresOfflineSignature (Class s)"
  by (auto simp: Privileged_def RequiresOfflineSignature_def RequiresOnlineSignature_def ClassRoutine_def ClassDestructive_def)

definition anchor_for :: "spec \<Rightarrow> signer_set option \<Rightarrow> signer_set option \<Rightarrow> signer_set option" where
  "anchor_for s signers online = (if Class s = ClassDestructive then signers else online)"

lemma accept_signature:
  assumes "accept cr ae j h p signers online st off now = (Inr a, st')" and "Privileged (Class (acc_spec a))"
  shows "authorised_by cr j h (anchor_for (acc_spec a) signers online)" and "Signature j \<noteq> []"
    and "NotBefore j \<noteq> 0" and "NotAfter j \<noteq> 0"
proof -
  note acc = accept_Inr [OF assms(1)]
  have "Lookup (job_Intent j) = Some (acc_spec a)"
    using check_job_Inr(1) [OF acc(1)] by (simp add: Decode_Inr)
  from anchor_cases [OF this assms(2)] acc(2) show auth: "authorised_by cr j h (anchor_for (acc_spec a) signers online)"
    by (auto simp: check_signature_def anchor_for_def bind_res_eq_Inr ClassRoutine_def ClassDestructive_def
        dest: offline.verify_sound online.verify_sound split: sum.splits if_splits)
  then show sig: "Signature j \<noteq> []" by (auto simp: authorised_by_def decodeSignature_def)
  show "NotBefore j \<noteq> 0" "NotAfter j \<noteq> 0"
    using acc(2) sig assms(2) by (auto simp: check_signature_def bind_res_eq_Inr split: if_splits)
qed

lemma accept_facts:
  assumes "accept cr ae j h p signers online st off now = (Inr a, st')" and "Privileged (Class (acc_spec a))"
  shows "Decode (job_Intent j) (acc_raw a) = Inr (acc_spec a, acc_params a)"
    and "authorised_by cr j h (anchor_for (acc_spec a) signers online)"
    and "NotBefore j \<le> now" and "now \<le> NotAfter j"
    and "in_int64 off \<Longrightarrow> off \<noteq> int64_min \<Longrightarrow> \<bar>off\<bar> \<le> 300 * Second"
    and "Check st (Nonce j) (NotAfter j) (ae_check_now ae) (ae_written ae) = (Inr False, st')"
    and "seen st (Nonce j) = None" and "seen st' (Nonce j) = Some (NotAfter j)" and "saved st' = NoncesSaved (seen st')"
    and "effectiveIssueTime j = NotBefore j"
    and "Allowed (Decide p \<lparr>req_Intent = job_Intent j, req_Params = Some (acc_params a), IssuedAt = NotBefore j\<rparr>
      \<lparr>Now = now, Paused = ae_paused ae\<rparr>)"
proof -
  note acc = accept_Inr [OF assms(1)] and sig = accept_signature [OF assms]
  note job = check_job_Inr [OF acc(1)]
  show "Decode (job_Intent j) (acc_raw a) = Inr (acc_spec a, acc_params a)"
    "authorised_by cr j h (anchor_for (acc_spec a) signers online)" "NotBefore j \<le> now" "now \<le> NotAfter j"
    using job sig by simp_all
  show iss: "effectiveIssueTime j = NotBefore j" using sig by (simp add: effectiveIssueTime_def)
  have n: "spec_Name (acc_spec a) = job_Intent j" using job(1) by (simp add: Decode_Inr spec_Name_Lookup)
  show ck: "Check st (Nonce j) (NotAfter j) (ae_check_now ae) (ae_written ae) = (Inr False, st')"
    using acc(3) sig(2) assms(2) by (auto simp: check_replay_def split: sum.splits prod.splits if_splits)
  then show "seen st (Nonce j) = None" "seen st' (Nonce j) = Some (NotAfter j)" "saved st' = NoncesSaved (seen st')"
    by (auto simp: Check_fresh_iff)
  show "in_int64 off \<Longrightarrow> off \<noteq> int64_min \<Longrightarrow> \<bar>off\<bar> \<le> 300 * Second"
    using absDuration_bound [OF job(4) [OF assms(2)]] by (simp add: MaxClockSkewSeconds_def)
  show "Allowed (Decide p \<lparr>req_Intent = job_Intent j, req_Params = Some (acc_params a), IssuedAt = NotBefore j\<rparr>
      \<lparr>Now = now, Paused = ae_paused ae\<rparr>)"
    using acc(4) n iss by (auto simp: check_policy_def Let_def split: if_splits)
qed

text \<open>What the agent accepts of the privileged classes: the job decodes against the
  agent's own catalogue, carries a signature that a key of the anchor of its class verifies over
  the canonical payload for this host (the host's own trusted signers for a destructive intent,
  the control plane's key for a routine one), has a start and an end, and the local clock lies
  between them; its nonce was not known and is recorded, in memory and on disk, before the answer;
  and the local policy permits it, its age counted from the signed start.\<close>

theorem accept_privileged:
  assumes "accept cr ae j h p signers online st off now = (Inr a, st')" and "Privileged (Class (acc_spec a))"
  shows "Decode (job_Intent j) (acc_raw a) = Inr (acc_spec a, acc_params a) \<and>
    authorised_by cr j h (if Class (acc_spec a) = ClassDestructive then signers else online) \<and>
    NotBefore j \<noteq> 0 \<and> NotAfter j \<noteq> 0 \<and> NotBefore j \<le> now \<and> now \<le> NotAfter j \<and>
    (in_int64 off \<and> off \<noteq> int64_min \<longrightarrow> \<bar>off\<bar> \<le> 300 * Second) \<and>
    seen st (Nonce j) = None \<and> seen st' (Nonce j) = Some (NotAfter j) \<and> saved st' = NoncesSaved (seen st') \<and>
    Allowed (Decide p \<lparr>req_Intent = job_Intent j, req_Params = Some (acc_params a), IssuedAt = NotBefore j\<rparr>
      \<lparr>Now = now, Paused = ae_paused ae\<rparr>)"
  using accept_facts [OF assms] accept_signature(3,4) [OF assms] by (simp add: anchor_for_def)

lemma accept_offline:
  assumes "accept cr ae j h p signers online st off now = (Inr a, st')" and "Class (acc_spec a) = ClassDestructive"
  shows "verifyOfflineSignature cr j h signers = Inr ()"
  using accept_Inr(2) [OF assms(1)] assms(2)
  by (auto simp: check_signature_def bind_res_eq_Inr RequiresOfflineSignature_def split: sum.splits if_splits)

text \<open>The steps put together again, for a destructive job.\<close>

lemma check_job_ok:
  assumes "json_marshal (job_params_json j) = Inr raw" and "Decode (job_Intent j) raw = Inr (s, ps)"
    and "InProfile (ae_profile ae) (job_Intent j)" and "NotBefore j \<le> now" and "now \<le> NotAfter j"
  shows "check_job ae j 0 now = Inr \<lparr>acc_spec = s, acc_params = ps, acc_raw = raw\<rparr>"
proof -
  from assms(2) have "Lookup (job_Intent j) = Some s" by (simp add: Decode_Inr)
  then have "spec_Name s = job_Intent j" "Implemented s"
    by (simp_all add: spec_Name_Lookup Lookup_Implemented)
  with assms show ?thesis
    by (simp add: check_job_def absDuration_def MaxClockSkewSeconds_def Second_def)
qed

lemma accept_destructive:
  assumes "check_job ae j off now = Inr a" and "Class (acc_spec a) = ClassDestructive"
    and "verifyOfflineSignature cr j h signers = Inr ()" and "NotBefore j \<noteq> 0" and "NotAfter j \<noteq> 0"
    and "Check st (Nonce j) (NotAfter j) (ae_check_now ae) (ae_written ae) = (Inr False, st')"
    and "Allowed (Decide p \<lparr>req_Intent = job_Intent j, req_Params = Some (acc_params a), IssuedAt = NotBefore j\<rparr>
      \<lparr>Now = now, Paused = ae_paused ae\<rparr>)"
  shows "accept cr ae j h p signers online st off now = (Inr a, st')"
proof -
  have "spec_Name (acc_spec a) = job_Intent j"
    using check_job_Inr(1) [OF assms(1)] by (simp add: Decode_Inr spec_Name_Lookup)
  with assms offline.verified_signature [OF assms(3)] show ?thesis
    by (simp add: accept_def check_signature_def check_replay_def check_policy_def effectiveIssueTime_def
        RequiresOfflineSignature_def Privileged_def Let_def)
qed

section \<open>A signed job\<close>

text \<open>A restart of nginx, valid for ten minutes and signed with the key \<open>ops\<close>.\<close>

definition restart_job :: job where
  "restart_job = \<lparr>ID = ''J7'', job_Intent = ServiceRestart, job_Params = Some [(''unit'', JStr ''nginx.service'')],
     job_Class = ''read'', job_IssuedAt = 0, NotBefore = 63902908799 * Second, NotAfter = 63902909399 * Second,
     Nonce = ''n7'', Signature = [], SignerKeyID = ''ops'', SignerAlgorithm = []\<rparr>"

definition sample_payload_of :: "job \<Rightarrow> bytes" where
  "sample_payload_of j = (case Marshal (SignedPayload j ''H1'') of Inr p \<Rightarrow> p | Inl _ \<Rightarrow> [])"

definition signed_with :: "bytes \<Rightarrow> job \<Rightarrow> job" where
  "signed_with key j = j\<lparr>Signature := b64_encode (key @ sample_payload_of j)\<rparr>"

text \<open>A scheme in which only some payloads have a signature, and the one for this job alone.\<close>

definition signing_only :: "(bytes \<Rightarrow> bool) \<Rightarrow> crypto" where
  "signing_only P = toy_crypto\<lparr>ed25519_verify := \<lambda>k p sig. sig = k @ p \<and> P p\<rparr>"

definition ops_crypto :: crypto where
  "ops_crypto = signing_only (\<lambda>p. p = sample_payload_of restart_job)"

definition ops_keys :: "signer_set option" where
  "ops_keys = Some \<lparr>keys = [\<lparr>Algorithm = Ed25519, KeyID = ''ops'', Backend = [], Key = EdKey ''ops'', Encoded = ''b3Bz''\<rparr>],
     set_source = ''trusted-signers''\<rparr>"

definition sample_env :: "instant \<Rightarrow> accept_env" where
  "sample_env t = \<lparr>ae_profile = ProfileLinux, ae_check_now = t, ae_written = WriteOK, ae_paused = False\<rparr>"

definition no_nonces :: nonce_state where
  "no_nonces = \<lparr>seen = Map.empty, saved = NoncesAbsent\<rparr>"

abbreviation accept_sample :: "job \<Rightarrow> signer_set option \<Rightarrow> signer_set option \<Rightarrow> nonce_state \<Rightarrow> instant \<Rightarrow>
    (bytes \<times> reject, accepted_job) result \<times> nonce_state" where
  "accept_sample j signers online st t \<equiv>
     accept ops_crypto (sample_env t) j ''H1'' (sample_policy [''nginx.*'']) signers online st 0 t"

definition restart_accepted :: accepted_job where
  "restart_accepted = \<lparr>acc_spec = the (Lookup ServiceRestart), acc_params = UnitParams ServiceRestart ''nginx.service'',
     acc_raw = ''{\"unit\":\"nginx.service\"}''\<rparr>"

definition day1 :: instant where "day1 = 63902909000 * Second"

lemma signed_with_simps [simp]:
  "SignedPayload (signed_with k j) h = SignedPayload j h" "SignerKeyID (signed_with k j) = SignerKeyID j"
  "Nonce (signed_with k j) = Nonce j" "NotAfter (signed_with k j) = NotAfter j" "NotBefore (signed_with k j) = NotBefore j"
  "job_Intent (signed_with k j) = job_Intent j" "job_Params (signed_with k j) = job_Params j"
  by (simp_all add: signed_with_def SignedPayload_def)

lemma b64_encode_Nil [simp]: "b64_encode s = [] \<longleftrightarrow> s = []"
  by (cases s rule: b64_encode.cases) simp_all

lemma signed_with_Signature: "k \<noteq> [] \<Longrightarrow> decodeSignature (Signature (signed_with k j)) = Inr (k @ sample_payload_of j)"
  by (simp add: signed_with_def decodeSignature_def base64_roundtrip)

lemma ops_verifies:
  assumes "Marshal (SignedPayload j ''H1'') = Inr p" and "P p" and "SignerKeyID j = ''ops''"
  shows "verifyOfflineSignature (signing_only P) (signed_with ''ops'' j) ''H1'' ops_keys = Inr ()"
  using assms
  by (simp add: verifyOfflineSignature_def signed_with_Signature sample_payload_of_def ops_keys_def set_Verify_def
      set_Empty_def set_Keys_def key_Verify_def signing_only_def)

lemma restart_payload:
  "Marshal (SignedPayload restart_job ''H1'') =
   Inr (''{\"hostId\":\"H1\",\"intent\":\"service.restart\",\"jobId\":\"J7\",\"nonce\":\"n7\",'' @
     ''\"notAfter\":\"2026-01-02T00:09:59Z\",\"notBefore\":\"2026-01-01T23:59:59Z\",\"params\":{\"unit\":\"nginx.service\"}}'')"
  by code_simp

lemma restart_allowed:
  assumes "b = 63902908799 * Second" and "b \<le> t" and "t \<le> b + 900 * Second"
  shows "Allowed (Decide (sample_policy [''nginx.*'']) \<lparr>req_Intent = ServiceRestart,
      req_Params = Some (UnitParams ServiceRestart ''nginx.service''), IssuedAt = b\<rparr> \<lparr>Now = t, Paused = False\<rparr>)"
proof -
  let ?req = "\<lparr>req_Intent = ServiceRestart, req_Params = Some (UnitParams ServiceRestart ''nginx.service''), IssuedAt = b\<rparr>"
  obtain s where s: "Lookup ServiceRestart = Some s" "Privileged (Class s)"
    by (simp add: Lookup_def catalogue_def mk_spec_def intent_names Privileged_def)
  have "glob_match ''nginx.*'' ''nginx.service'' = Some True" by code_simp
  then have "permitted (sample_policy [''nginx.*'']) ?req \<lparr>Now = t, Paused = False\<rparr>"
    by (simp add: permitted_def sample_policy_def)
  moreover have "age_ok (sample_policy [''nginx.*'']) ?req \<lparr>Now = t, Paused = False\<rparr>"
    using assms by (simp add: age_ok_def sample_policy_def maxAge_def default_raw_def
        duration_mul_def wrap64_mod time_sub_def int64_min_def int64_max_def Second_def)
  ultimately show ?thesis using s by (simp add: Decide_Allowed)
qed

lemma restart_decodes:
  "json_marshal (JObj [(''unit'', JStr ''nginx.service'')]) = Inr ''{\"unit\":\"nginx.service\"}''"
  "Decode ServiceRestart ''{\"unit\":\"nginx.service\"}'' = Inr (acc_spec restart_accepted, acc_params restart_accepted)"
  "Class (acc_spec restart_accepted) = ClassDestructive"
proof -
  have "decodeUnit ServiceRestart ''{\"unit\":\"nginx.service\"}'' = Inr (UnitParams ServiceRestart ''nginx.service'')"
    by code_simp
  then obtain s where "Decode ServiceRestart ''{\"unit\":\"nginx.service\"}'' = Inr (s, UnitParams ServiceRestart ''nginx.service'')"
    using Decode_via [of ServiceRestart "''{\"unit\":\"nginx.service\"}''"] by (auto simp: catalogue_keys intent_names)
  then show "Decode ServiceRestart ''{\"unit\":\"nginx.service\"}'' = Inr (acc_spec restart_accepted, acc_params restart_accepted)"
    by (simp add: Decode_Inr restart_accepted_def)
  show "json_marshal (JObj [(''unit'', JStr ''nginx.service'')]) = Inr ''{\"unit\":\"nginx.service\"}''" by code_simp
  show "Class (acc_spec restart_accepted) = ClassDestructive"
    by (simp add: restart_accepted_def Lookup_def catalogue_def mk_spec_def intent_names)
qed

text \<open>A delivery of the restart signed by \<open>ops\<close>, at an instant of its window and with its nonce unknown.\<close>

lemma restart_accept:
  assumes "SignedPayload j ''H1'' = SignedPayload restart_job ''H1''" and "job_Params j = job_Params restart_job"
    and "SignerKeyID j = ''ops''" and "job_Intent j = ServiceRestart" and "Nonce j = ''n7''"
    and "NotBefore j = 63902908799 * Second" and "NotBefore j \<le> t" and "t \<le> NotAfter j"
    and "t \<le> NotBefore j + 900 * Second" and "seen st ''n7'' = None"
  shows "accept_sample (signed_with ''ops'' j) ops_keys online st t =
    (Inr restart_accepted, let m = (prune t (seen st))(''n7'' \<mapsto> NotAfter j) in \<lparr>seen = m, saved = NoncesSaved m\<rparr>)"
proof (rule accept_destructive)
  have "InProfile ProfileLinux ServiceRestart" by code_simp
  then have "check_job (sample_env t) (signed_with ''ops'' j) 0 t =
      Inr \<lparr>acc_spec = acc_spec restart_accepted, acc_params = acc_params restart_accepted, acc_raw = ''{\"unit\":\"nginx.service\"}''\<rparr>"
    using assms restart_decodes by (intro check_job_ok) (simp_all add: job_params_json_def restart_job_def sample_env_def)
  then show "check_job (sample_env t) (signed_with ''ops'' j) 0 t = Inr restart_accepted"
    by (simp add: restart_accepted_def)
  show "verifyOfflineSignature ops_crypto (signed_with ''ops'' j) ''H1'' ops_keys = Inr ()"
    unfolding ops_crypto_def using assms restart_payload by (intro ops_verifies) (simp_all add: sample_payload_of_def)
  show "NotAfter (signed_with ''ops'' j) \<noteq> 0" using assms by (simp add: Second_def)
  then show "Check st (Nonce (signed_with ''ops'' j)) (NotAfter (signed_with ''ops'' j)) (ae_check_now (sample_env t))
      (ae_written (sample_env t)) =
    (Inr False, let m = (prune t (seen st))(''n7'' \<mapsto> NotAfter j) in \<lparr>seen = m, saved = NoncesSaved m\<rparr>)"
    using assms by (simp add: Check_def sample_env_def Let_def)
qed (use assms restart_decodes(3) restart_allowed in \<open>simp_all add: restart_accepted_def sample_env_def Second_def\<close>)

theorem accept_privileged_witness:
  "\<exists>st'. accept_sample (signed_with ''ops'' restart_job) ops_keys None no_nonces day1 = (Inr restart_accepted, st') \<and>
     authorised_by ops_crypto (signed_with ''ops'' restart_job) ''H1'' ops_keys \<and> seen st' ''n7'' = Some (63902909399 * Second)"
proof -
  have acc: "accept_sample (signed_with ''ops'' restart_job) ops_keys None no_nonces day1 =
      (Inr restart_accepted, let m = (prune day1 (seen no_nonces))(''n7'' \<mapsto> NotAfter restart_job) in \<lparr>seen = m, saved = NoncesSaved m\<rparr>)"
    by (rule restart_accept) (simp_all add: restart_job_def day1_def Second_def no_nonces_def)
  note cl = restart_decodes(3)
  then have "Privileged (Class (acc_spec restart_accepted))" by (simp add: Privileged_def)
  from accept_privileged [OF acc this] acc show ?thesis by (auto simp: cl restart_job_def)
qed

text \<open>No destructive job runs that its signer did not approve. When the keys of the host's
  trusted signers verify only payloads that were signed, and whoever holds them signs only payloads
  of approved jobs, every destructive job the agent accepts agrees with an approved one on host,
  identifier, intent, nonce, parameters and, to the second, window, whatever the control plane
  delivers and whatever its own key signed.\<close>

theorem destructive_job_approved:
  assumes "accept cr ae j h p signers online st off now = (Inr a, st')" and "Class (acc_spec a) = ClassDestructive"
    and "signs_only cr signers issued"
    and "\<forall>q \<in> issued. \<exists>(j0, h0) \<in> approved.
      Marshal (SignedPayload j0 h0) = Inr q \<and> jdepth (SignedPayload j0 h0) \<le> max_nesting"
    and "jdepth (SignedPayload j h) \<le> max_nesting"
  shows "\<exists>(j0, h0) \<in> approved. same_content j h j0 h0"
  using offline.verified_approved [OF accept_offline [OF assms(1,2)] assms(3,5), of approved] assms(4) by blast

theorem destructive_job_approved_witness:
  "\<exists>(j0, h0) \<in> {(restart_job, ''H1'')}. same_content (signed_with ''ops'' restart_job) ''H1'' j0 h0"
proof -
  have acc: "accept_sample (signed_with ''ops'' restart_job) ops_keys None no_nonces day1 =
      (Inr restart_accepted, let m = (prune day1 (seen no_nonces))(''n7'' \<mapsto> NotAfter restart_job) in \<lparr>seen = m, saved = NoncesSaved m\<rparr>)"
    by (rule restart_accept) (simp_all add: restart_job_def day1_def Second_def no_nonces_def)
  note cl = restart_decodes(3)
  have only: "signs_only ops_crypto ops_keys {sample_payload_of restart_job}"
    by (simp add: signs_only_def ops_keys_def set_Keys_def key_Verify_def ops_crypto_def signing_only_def)
  have d: "jdepth (SignedPayload restart_job ''H1'') \<le> max_nesting" by code_simp
  show ?thesis
    by (rule destructive_job_approved [OF acc cl only]) (use restart_payload d in \<open>simp_all add: sample_payload_of_def\<close>)
qed

section \<open>The clock and the signature's encoding\<close>

lemma check_job_offset: "absDuration off \<le> MaxClockSkewSeconds * Second \<Longrightarrow> check_job ae j off now = check_job ae j 0 now"
proof -
  have "absDuration 0 \<le> MaxClockSkewSeconds * Second"
    by (simp add: absDuration_def MaxClockSkewSeconds_def Second_def)
  then show "absDuration off \<le> MaxClockSkewSeconds * Second \<Longrightarrow> check_job ae j off now = check_job ae j 0 now"
    by (auto simp: check_job_def not_less split: sum.split)
qed

text \<open>The refusal on a skewed clock has a hole at the end of the scale. The offset is the
  saturating difference of two times; for a server time more than 292 years ahead it is the least
  \<open>int64\<close>, whose negation is itself, so that \<open>absDuration\<close> is negative, no skew is seen, and the job is
  checked as if both clocks agreed.\<close>

theorem clock_skew_overflow:
  "absDuration (time_sub now (now + 9223372036854775808)) < 0 \<and>
   check_job ae j (time_sub now (now + 9223372036854775808)) now = check_job ae j 0 now"
proof -
  have t: "time_sub now (now + 9223372036854775808) = int64_min"
    by (simp add: time_sub_def int64_min_def int64_max_def)
  have a: "absDuration int64_min = int64_min" by (simp add: absDuration_def int64_min_def wrap64_mod)
  have "int64_min \<le> MaxClockSkewSeconds * Second" "int64_min < 0"
    by (simp_all add: MaxClockSkewSeconds_def Second_def int64_min_def)
  with check_job_offset [of int64_min] show ?thesis unfolding t a by simp
qed

text \<open>A signature decodes from the text the encoder writes for it, and not from that text
  alone, contrary to the comment of \<open>decodeSignature\<close>: line breaks anywhere are skipped, and the bits
  behind the last byte are not looked at.\<close>

theorem decodeSignature_spellings:
  "(sig \<noteq> [] \<longrightarrow> decodeSignature (b64_encode sig) = Inr sig \<and> decodeSignature (CHR 0x0A # b64_encode sig) = Inr sig) \<and>
   decodeSignature ''AA=='' = decodeSignature ''AB==''"
proof -
  have "decodeSignature ''AA=='' = decodeSignature ''AB==''" by code_simp
  then show ?thesis
    by (simp add: decodeSignature_def base64_roundtrip base64_decode_newline b64_newline_def)
qed

theorem decodeSignature_spellings_witness:
  "decodeSignature (b64_encode ''sig'') = Inr ''sig'' \<and> decodeSignature (CHR 0x0A # b64_encode ''sig'') = Inr ''sig''"
  using decodeSignature_spellings [of "''sig''"] by simp

end
