(* ===== verification/Privsep.thy ===== *)
theory Privsep
  imports Intent GoTime "HOL-Library.Word"
begin

text \<open>
  Package \<open>internal/privsep\<close>: the only route from the unprivileged agent to root. It is a closed table
  from intents to three sockets, a peer check by user id, a bounded request and one reply. The
  bytes on the socket are decoded by \<open>encoding/json\<close>; that decoder is an argument here, with the
  input it leaves behind.
\<close>

section \<open>Endpoints\<close>

definition ApplyUpdatesSocket :: bytes where [go_defs]: "ApplyUpdatesSocket = ''/run/hostseal/apply-updates.sock''"
definition RestartUnitSocket :: bytes where [go_defs]: "RestartUnitSocket = ''/run/hostseal/restart-unit.sock''"
definition RebootHostSocket :: bytes where [go_defs]: "RebootHostSocket = ''/run/hostseal/reboot-host.sock''"

definition endpoints :: "(name \<times> bytes) list" where
  "endpoints = [
     (PackagesApplySecurity, ApplyUpdatesSocket), (PackagesApplyAll, ApplyUpdatesSocket),
     (ServiceStart, RestartUnitSocket), (ServiceStop, RestartUnitSocket), (ServiceRestart, RestartUnitSocket),
     (HostReboot, RebootHostSocket)]"

definition Endpoint :: "name \<Rightarrow> bytes option" where
  "Endpoint n = map_of endpoints n"

definition Endpoints :: "bytes list" where
  "Endpoints = rev (remdups (rev [ApplyUpdatesSocket, RestartUnitSocket, RebootHostSocket]))"

definition MaxRequestBytes :: nat where [go_defs]: "MaxRequestBytes = 65536"
definition MaxResponseBytes :: nat where [go_defs]: "MaxResponseBytes = 1048576"

definition ExitOK :: int where [go_defs]: "ExitOK = 0"
definition ExitUsage :: int where [go_defs]: "ExitUsage = 2"
definition ExitRefused :: int where [go_defs]: "ExitRefused = 3"
definition ExitNotImplemented :: int where [go_defs]: "ExitNotImplemented = 4"
definition ExitFailed :: int where [go_defs]: "ExitFailed = 5"

record priv_request =
  pr_JobID :: bytes
  pr_Intent :: name
  pr_Params :: bytes
  pr_IssuedAt :: instant

record 'e response =
  rs_ExitCode :: int
  rs_Output :: bytes
  rs_OutputTruncated :: bool
  rs_Error :: "'e option"

section \<open>The server side\<close>

record peer =
  UID :: "32 word"
  GID :: "32 word"
  PID :: "32 word"

datatype serve_error =
    PeerUnknown | ErrPeerRefused peer "32 word" | RequestRead | RequestTooLarge
  | RequestDecode | RequestTrailing

definition CheckPeer :: "peer \<Rightarrow> 32 word \<Rightarrow> (serve_error, unit) result" where
  "CheckPeer p agentUID =
     (if UID p = 0 \<or> UID p = agentUID then Inr () else Inl (ErrPeerRefused p agentUID))"

text \<open>\<open>readRequest\<close>: at most one byte past the limit is read from the connection.\<close>

definition readRequest ::
  "(bytes \<Rightarrow> (priv_request \<times> bytes) option) \<Rightarrow> bytes option \<Rightarrow> (serve_error, priv_request) result" where
  "readRequest dec input = (case input of
      None \<Rightarrow> Inl RequestRead
    | Some stream \<Rightarrow>
        let raw = take (MaxRequestBytes + 1) stream in
        if MaxRequestBytes < length raw then Inl RequestTooLarge
        else case dec raw of
          None \<Rightarrow> Inl RequestDecode
        | Some (req, rest) \<Rightarrow> if dec_more rest then Inl RequestTrailing else Inr req)"

text \<open>\<open>ServeConn\<close>: the reply, or the error that ends the connection without one, and what the handler
  did. \<open>peer\<close> is what the kernel says of the other end.\<close>

definition ServeConn ::
  "(bytes \<Rightarrow> (priv_request \<times> bytes) option) \<Rightarrow> peer option \<Rightarrow> bytes option \<Rightarrow> 32 word \<Rightarrow>
   (priv_request \<Rightarrow> 'r \<times> 'eff list) \<Rightarrow> (serve_error, 'r) result \<times> 'eff list" where
  "ServeConn dec peer input agentUID h = (case peer of
      None \<Rightarrow> (Inl PeerUnknown, [])
    | Some p \<Rightarrow>
        (case CheckPeer p agentUID of
           Inl e \<Rightarrow> (Inl e, [])
         | Inr _ \<Rightarrow>
             (case readRequest dec input of
                Inl e \<Rightarrow> (Inl e, [])
              | Inr req \<Rightarrow> (case h req of (resp, effs) \<Rightarrow> (Inr resp, effs)))))"

section \<open>The client side\<close>

datatype invoke_error = ErrNoEndpoint name | ErrUnreachable bytes | InvokeFailed

text \<open>\<open>Invoke\<close>: \<open>call\<close> is one exchange with the helper behind a socket.\<close>

definition Invoke ::
  "(bytes \<Rightarrow> priv_request \<Rightarrow> (invoke_error, 'e response) result) \<Rightarrow> priv_request \<Rightarrow> (invoke_error, 'e response) result" where
  "Invoke call req = (case Endpoint (pr_Intent req) of
      None \<Rightarrow> Inl (ErrNoEndpoint (pr_Intent req))
    | Some path \<Rightarrow> call path req)"

definition InvokeFor :: "name \<Rightarrow> duration" where
  "InvokeFor n = (if n = PackagesApplySecurity \<or> n = PackagesApplyAll then 45 * Minute else 2 * Minute)"

section \<open>Properties\<close>

lemma Endpoint_privileged: "(\<exists>path. Endpoint n = Some path) \<longleftrightarrow> (\<exists>s. Lookup n = Some s \<and> Privileged (Class s))"
proof
  assume "\<exists>path. Endpoint n = Some path"
  then have n: "n \<in> {PackagesApplySecurity, PackagesApplyAll, ServiceStart, ServiceStop, ServiceRestart, HostReboot}"
    by (auto simp: Endpoint_def endpoints_def split: if_splits)
  then have "n \<in> set (map fst catalogue)" by (auto simp: catalogue_keys)
  then obtain s where s: "Lookup n = Some s" by (auto simp: Lookup_def dest!: weak_map_of_SomeI)
  then have "Privileged (Class s)"
    by (cases rule: Lookup_cases) (use n in \<open>auto simp: Privileged_def intent_names\<close>)
  with s show "\<exists>s. Lookup n = Some s \<and> Privileged (Class s)" by blast
next
  assume "\<exists>s. Lookup n = Some s \<and> Privileged (Class s)"
  then obtain s where "Lookup n = Some s" "Privileged (Class s)" by blast
  then show "\<exists>path. Endpoint n = Some path"
    by (cases rule: Lookup_cases) (auto simp: Privileged_def Endpoint_def endpoints_def intent_names)
qed

text \<open>Exactly the privileged members of the catalogue have a helper: an intent outside the
  catalogue or of the read class cannot be sent to root, and no privileged one is without a route.\<close>

theorem endpoints_complete:
  "(Endpoint n = None) = (\<nexists>s. Lookup n = Some s \<and> Privileged (Class s)) \<and>
   set (map snd endpoints) = set Endpoints \<and> length Endpoints = 3"
proof -
  have "(Endpoint n = None) = (\<nexists>s. Lookup n = Some s \<and> Privileged (Class s))"
    using Endpoint_privileged [of n] by auto
  moreover have "set (map snd endpoints) = set Endpoints \<and> length Endpoints = 3"
    by (auto simp: endpoints_def Endpoints_def go_defs)
  ultimately show ?thesis by simp
qed

text \<open>A helper does nothing for a process that is neither root nor the agent, nothing for
  a request it could not read whole, and never reads more than its limit.\<close>

theorem ServeConn_guarded:
  assumes "ServeConn dec peer input agentUID h = (r, effs)" and "effs \<noteq> [] \<or> (\<exists>resp. r = Inr resp)"
  shows "\<exists>p stream req rest. peer = Some p \<and> (UID p = 0 \<or> UID p = agentUID) \<and> input = Some stream \<and>
    length stream \<le> MaxRequestBytes \<and> dec stream = Some (req, rest) \<and> \<not> dec_more rest \<and> effs = snd (h req)"
  using assms
  by (auto simp: ServeConn_def CheckPeer_def readRequest_def Let_def MaxRequestBytes_def
      split: option.splits if_splits sum.splits prod.splits)

theorem ServeConn_guarded_witness:
  "ServeConn (\<lambda>raw. Some (\<lparr>pr_JobID = [], pr_Intent = HostReboot, pr_Params = raw, pr_IssuedAt = 0\<rparr>, []))
      (Some \<lparr>UID = 1000, GID = 1000, PID = 7\<rparr>) (Some ''{}'') 1000 (\<lambda>req. (ExitOK, [pr_Intent req])) = (Inr ExitOK, [HostReboot]) \<and>
   (\<exists>p stream. p = \<lparr>UID = 1000, GID = 1000, PID = 7\<rparr> \<and> stream = ''{}'' \<and> length stream \<le> MaxRequestBytes)"
proof -
  let ?dec = "\<lambda>raw. Some (\<lparr>pr_JobID = [], pr_Intent = HostReboot, pr_Params = raw, pr_IssuedAt = 0\<rparr>, [])"
  have r: "ServeConn ?dec (Some \<lparr>UID = 1000, GID = 1000, PID = 7\<rparr>) (Some ''{}'') 1000 (\<lambda>req. (ExitOK, [pr_Intent req])) =
      (Inr ExitOK, [HostReboot])"
    by (simp add: ServeConn_def CheckPeer_def readRequest_def MaxRequestBytes_def dec_more_def skip_ws_def)
  from ServeConn_guarded [OF r] r show ?thesis by auto
qed

end
