(* ===== verification/Run.thy ===== *)
theory Run
  imports GoTime Go_Strings
begin

text \<open>
  Package \<open>internal/run\<close>: the allowlist every external process passes, the environment and directory
  it is given, and the bound on what is captured of its output. What a process does is an
  argument of the model; what is started, and with what, is recorded as effects.
\<close>

section \<open>Programs\<close>

type_synonym program = bytes

definition AptGet :: program where [go_defs]: "AptGet = ''/usr/bin/apt-get''"
definition UnattendedUpgrade :: program where [go_defs]: "UnattendedUpgrade = ''/usr/bin/unattended-upgrade''"
definition Needrestart :: program where [go_defs]: "Needrestart = ''/usr/sbin/needrestart''"
definition Pro :: program where [go_defs]: "Pro = ''/usr/bin/pro''"
definition Shutdown :: program where [go_defs]: "Shutdown = ''/usr/sbin/shutdown''"
definition CloudInit :: program where [go_defs]: "CloudInit = ''/usr/bin/cloud-init''"
definition UpdateScan :: program where [go_defs]: "UpdateScan =
  ''C:'' @ [CHR 0x5C] @ ''Program Files'' @ [CHR 0x5C] @ ''HostSeal'' @ [CHR 0x5C] @ ''hostseal-update-scan.exe''"

definition run_allowed :: "program list" where
  "run_allowed = [AptGet, UnattendedUpgrade, Needrestart, Pro, Shutdown, CloudInit, UpdateScan]"

definition DefaultTimeout :: duration where [go_defs]: "DefaultTimeout = 2 * Minute"
definition MaxOutputBytes :: nat where [go_defs]: "MaxOutputBytes = 8388608"

section \<open>Bounded output\<close>

text \<open>\<open>limitedWriter.Write\<close> on the buffer it holds; it always reports the whole length as written.\<close>

definition limited_write :: "nat \<Rightarrow> bytes \<Rightarrow> bytes \<Rightarrow> bytes" where
  "limited_write limit buf p =
     (if length buf < limit then
        (if limit - length buf < length p then buf @ take (limit - length buf) p else buf @ p)
      else buf)"

definition captured :: "nat \<Rightarrow> bytes list \<Rightarrow> bytes" where
  "captured limit chunks = foldl (limited_write limit) [] chunks"

section \<open>Running a program\<close>

record run_result =
  Stdout :: bytes
  Stderr :: bytes
  ExitCode :: int

record options =
  Timeout :: duration
  Env :: "bytes list option"      \<comment> \<open>\<open>None\<close> is nil\<close>
  Dir :: bytes

definition zero_options :: options where
  "zero_options = \<lparr>Timeout = 0, Env = None, Dir = []\<rparr>"

text \<open>A process that was started: what it wrote, its exit status, and whether \<open>Run\<close> returned an
  error with or without the deadline having passed.\<close>

datatype proc_end = Finished | DeadlineExceeded | ProcessError

record process =
  writes_out :: "bytes list"
  writes_err :: "bytes list"
  exit_status :: int
  ended :: proc_end

datatype run_error = ErrNotAllowed program | RunTimedOut program duration | RunFailed program

text \<open>What a helper does to the host: a process it started (program, arguments, environment,
  directory, deadline) or a request it sent to systemd.\<close>

datatype effect =
    Exec program "bytes list" "bytes list" bytes duration
  | UnitJob bytes bytes bytes     \<comment> \<open>verb, unit, job mode\<close>

type_synonym proc_world = "effect \<Rightarrow> process"

definition CommandWith ::
  "proc_world \<Rightarrow> options \<Rightarrow> program \<Rightarrow> bytes list \<Rightarrow> run_result option \<times> run_error option \<times> effect list" where
  "CommandWith w opts p args =
     (if p \<notin> set run_allowed then (None, Some (ErrNotAllowed p), [])
      else let tmo = (if Timeout opts \<le> 0 then DefaultTimeout else Timeout opts);
               envs = (case Env opts of None \<Rightarrow> [''PATH=/usr/sbin:/usr/bin:/sbin:/bin'', ''LC_ALL=C.UTF-8'']
                       | Some e \<Rightarrow> e);
               dir = (if Dir opts = [] then ''/'' else Dir opts);
               eff = Exec p args envs dir tmo;
               proc = w eff;
               res = \<lparr>Stdout = captured MaxOutputBytes (writes_out proc),
                      Stderr = captured MaxOutputBytes (writes_err proc), ExitCode = exit_status proc\<rparr>
           in (Some res,
               (case ended proc of Finished \<Rightarrow> None
                | DeadlineExceeded \<Rightarrow> Some (RunTimedOut p tmo)
                | ProcessError \<Rightarrow> Some (RunFailed p)),
               [eff]))"

definition Command ::
  "proc_world \<Rightarrow> program \<Rightarrow> bytes list \<Rightarrow> run_result option \<times> run_error option \<times> effect list" where
  "Command w p args = CommandWith w zero_options p args"

definition Allowlist :: "program list" where
  "Allowlist = run_allowed"

section \<open>Properties\<close>

lemma limited_write_take:
  "length buf \<le> limit \<Longrightarrow> limited_write limit buf p = take limit (buf @ p)"
  by (auto simp: limited_write_def)

lemma take_take_append: "take n (take n xs @ ys) = take n (xs @ ys)"
  by (cases "length xs \<le> n") simp_all

lemma captured_take_from:
  "length buf \<le> limit \<Longrightarrow> foldl (limited_write limit) buf chunks = take limit (buf @ concat chunks)"
proof (induction chunks arbitrary: buf)
  case (Cons p ps)
  have "foldl (limited_write limit) buf (p # ps) = foldl (limited_write limit) (take limit (buf @ p)) ps"
    by (simp only: foldl.simps limited_write_take [OF Cons.prems])
  also have "\<dots> = take limit (take limit (buf @ p) @ concat ps)"
    by (rule Cons.IH) simp
  finally show ?case by (simp only: take_take_append concat.simps append_assoc)
qed simp

text \<open>The capture of a program's output is the first eight megabytes of what it wrote,
  however it cut its writes: nothing is lost before the bound and nothing kept behind it.\<close>

theorem captured_take: "captured MaxOutputBytes chunks = take MaxOutputBytes (concat chunks)"
  using captured_take_from [of "[]" MaxOutputBytes chunks] by (simp add: captured_def)

lemma CommandWith_effects:
  "CommandWith w opts p args = (r, e, effs) \<Longrightarrow>
   effs = [] \<and> p \<notin> set run_allowed \<and> e = Some (ErrNotAllowed p) \<or>
   p \<in> set run_allowed \<and> (\<exists>envs dir tmo. effs = [Exec p args envs dir tmo] \<and> 0 < tmo \<and>
     envs = (case Env opts of None \<Rightarrow> [''PATH=/usr/sbin:/usr/bin:/sbin:/bin'', ''LC_ALL=C.UTF-8''] | Some x \<Rightarrow> x))"
  by (auto simp: CommandWith_def Let_def DefaultTimeout_def Minute_def split: if_splits)

text \<open>A program outside the allowlist is never started, and one inside it is started with
  exactly the given arguments, a replaced environment and a deadline.\<close>

theorem CommandWith_allowlist:
  assumes "CommandWith w opts p args = (r, e, effs)"
  shows "(p \<notin> set Allowlist \<longrightarrow> effs = [] \<and> r = None \<and> e = Some (ErrNotAllowed p)) \<and>
    (\<forall>eff \<in> set effs. \<exists>envs dir tmo. eff = Exec p args envs dir tmo \<and> p \<in> set Allowlist \<and> 0 < tmo)"
  using CommandWith_effects [OF assms] assms
  by (auto simp: Allowlist_def CommandWith_def)

theorem CommandWith_allowlist_witness:
  "\<forall>w. CommandWith w zero_options ''/bin/sh'' [''-c'', ''id''] = (None, Some (ErrNotAllowed ''/bin/sh''), [])"
proof
  fix w
  have "''/bin/sh'' \<notin> set Allowlist" by (simp add: Allowlist_def run_allowed_def go_defs)
  then show "CommandWith w zero_options ''/bin/sh'' [''-c'', ''id''] = (None, Some (ErrNotAllowed ''/bin/sh''), [])"
    using CommandWith_allowlist [of w zero_options "''/bin/sh''" "[''-c'', ''id'']"]
    by (cases "CommandWith w zero_options ''/bin/sh'' [''-c'', ''id'']") simp
qed

end
