(* ===== verification/Helper.thy ===== *)
theory Helper
  imports Policy Privsep Run Protocol
begin

text \<open>
  \<open>internal/helper\<close> and the three root helpers under \<open>helpers/\<close>. A helper authorises a request
  against the policy file as it stands, performs it and answers; what it does to the host is
  returned as effects. The contract of an executor is the locale \<open>executor\<close>: whatever it does is
  allowed by its own parameters. The locale's lemmas say what must have been authorised before
  anything was done, and each of the three helpers is an instance.
\<close>

section \<open>Authorisation\<close>

text \<open>What a helper sees of the host when it decides: the decoders, the policy file, the clock and
  the pause marker.\<close>

record host_view =
  hv_toml :: toml_decoder
  hv_zoneinfo :: zoneinfo
  hv_policy :: file_read
  hv_now :: instant
  hv_paused :: bool

definition Authorise ::
  "host_view \<Rightarrow> priv_request \<Rightarrow> decision \<times> params option \<times> intent_error option" where
  "Authorise hv req = (case Decode (pr_Intent req) (pr_Params req) of
      Inl e \<Rightarrow> (refuse CodeUnknownIntent (RDecode e), None, Some e)
    | Inr (s, ps) \<Rightarrow>
        (case Load (hv_toml hv) (hv_zoneinfo hv) (hv_policy hv) of (p, err) \<Rightarrow>
         (case err of
            Some e \<Rightarrow>
              if e \<noteq> ErrNoPolicyFile then (refuse CodePolicyUnreadable (RLoad e), Some ps, None)
              else (Decide p \<lparr>req_Intent = spec_Name s, req_Params = Some ps, IssuedAt = pr_IssuedAt req\<rparr>
                      \<lparr>Now = hv_now hv, Paused = hv_paused hv\<rparr>, Some ps, None)
          | None \<Rightarrow>
              (Decide p \<lparr>req_Intent = spec_Name s, req_Params = Some ps, IssuedAt = pr_IssuedAt req\<rparr>
                 \<lparr>Now = hv_now hv, Paused = hv_paused hv\<rparr>, Some ps, None))))"

section \<open>Performing a request\<close>

record helper_job =
  hj_ID :: bytes
  hj_Intent :: name
  hj_Params :: params

datatype exec_error =
    WrongParams name
  | UpdateFailed name "run_error option"      \<comment> \<open>\<open>None\<close>: not an update intent\<close>
  | RoutineReboot name
  | NotIdentified | Inconclusive bytes | PolicyReread load_error | RebootDecode intent_error
  | RebootRefused "code \<times> reason" | RebootNotScheduled run_error
  | NoDBus | NotUnitOperation name | UnitCall bytes bytes | UnitResult bytes bytes bytes | UnitTimeout bytes bytes
  | RebootFailed bytes run_error

datatype helper_error =
    NotRouted name | OtherHelper name bytes | BadRequest intent_error
  | Refusal "code \<times> reason" | NoExecutor name bytes | ExecFailed exec_error

type_synonym exec_result = "bytes \<times> exec_error option \<times> effect list"

record helper =
  Component :: bytes
  Socket :: bytes
  Execute :: "(helper_job \<Rightarrow> exec_result) option"

definition fail :: "int \<Rightarrow> helper_error \<Rightarrow> helper_error response \<times> effect list" where
  "fail code e = (\<lparr>rs_ExitCode = code, rs_Output = [], rs_OutputTruncated = False, rs_Error = Some e\<rparr>, [])"

definition Perform :: "helper \<Rightarrow> host_view \<Rightarrow> priv_request \<Rightarrow> helper_error response \<times> effect list" where
  "Perform h hv req = (case Endpoint (pr_Intent req) of
      None \<Rightarrow> fail ExitUsage (NotRouted (pr_Intent req))
    | Some endpoint \<Rightarrow>
        if endpoint \<noteq> Socket h then fail ExitUsage (OtherHelper (pr_Intent req) endpoint)
        else (case Authorise hv req of
            (_, _, Some e) \<Rightarrow> fail ExitUsage (BadRequest e)
          | (d, None, None) \<Rightarrow> fail ExitRefused (Refusal (Code d, Reason d))
          | (d, Some ps, None) \<Rightarrow>
              if \<not> Allowed d then fail ExitRefused (Refusal (Code d, Reason d))
              else (case Execute h of
                  None \<Rightarrow> fail ExitNotImplemented (NoExecutor (pr_Intent req) (Describe ps))
                | Some ex \<Rightarrow>
                    (case ex \<lparr>hj_ID = pr_JobID req, hj_Intent = pr_Intent req, hj_Params = ps\<rparr> of
                       (output, execErr, effs) \<Rightarrow>
                         (case TruncateOutput output of (truncated, wasCut) \<Rightarrow>
                            (\<lparr>rs_ExitCode = (case execErr of None \<Rightarrow> ExitOK | Some _ \<Rightarrow> ExitFailed),
                              rs_Output = truncated, rs_OutputTruncated = wasCut,
                              rs_Error = map_option ExecFailed execErr\<rparr>, effs))))))"

section \<open>What authorisation means\<close>

text \<open>The policy in force is the one just read, or the default when there is no file.\<close>

definition policy_in_force :: "host_view \<Rightarrow> policy option" where
  "policy_in_force hv = (case Load (hv_toml hv) (hv_zoneinfo hv) (hv_policy hv) of
      (p, None) \<Rightarrow> Some p | (p, Some e) \<Rightarrow> if e = ErrNoPolicyFile then Some p else None)"

lemma Authorise_eq:
  assumes "Decode (pr_Intent req) (pr_Params req) = Inr (s, ps)"
    and "snd (Load (hv_toml hv) (hv_zoneinfo hv) (hv_policy hv)) \<in> {None, Some ErrNoPolicyFile}"
  shows "Authorise hv req = (Decide (fst (Load (hv_toml hv) (hv_zoneinfo hv) (hv_policy hv)))
      \<lparr>req_Intent = pr_Intent req, req_Params = Some ps, IssuedAt = pr_IssuedAt req\<rparr>
      \<lparr>Now = hv_now hv, Paused = hv_paused hv\<rparr>, Some ps, None)"
proof -
  have "spec_Name s = pr_Intent req" using assms(1) by (simp add: Decode_Inr spec_Name_Lookup)
  with assms show ?thesis
    by (cases "Load (hv_toml hv) (hv_zoneinfo hv) (hv_policy hv)") (auto simp: Authorise_def)
qed

lemma Perform_eq:
  assumes "Authorise hv req = (d, Some ps, None)" and "Allowed d" and "Endpoint (pr_Intent req) = Some (Socket h)"
    and "Execute h = Some ex"
  shows "snd (Perform h hv req) = snd (snd (ex \<lparr>hj_ID = pr_JobID req, hj_Intent = pr_Intent req, hj_Params = ps\<rparr>))"
  using assms by (simp add: Perform_def case_prod_unfold)

lemma Authorise_allowed:
  assumes "Authorise hv req = (d, ps, e)" and "Allowed d"
  obtains s p where "Decode (pr_Intent req) (pr_Params req) = Inr (s, the ps)" "ps \<noteq> None" "e = None"
    "policy_in_force hv = Some p"
    "Allowed (Decide p \<lparr>req_Intent = pr_Intent req, req_Params = ps, IssuedAt = pr_IssuedAt req\<rparr>
       \<lparr>Now = hv_now hv, Paused = hv_paused hv\<rparr>)"
proof -
  obtain s q where dec: "Decode (pr_Intent req) (pr_Params req) = Inr (s, q)"
    using assms by (auto simp: Authorise_def refuse_def split: sum.splits)
  then have n: "spec_Name s = pr_Intent req" by (simp add: Decode_Inr spec_Name_Lookup)
  show thesis
    by (rule that [of s "fst (Load (hv_toml hv) (hv_zoneinfo hv) (hv_policy hv))"])
      (use assms dec n in \<open>auto simp: Authorise_def refuse_def policy_in_force_def
        split: prod.splits option.splits if_splits\<close>)
qed

lemma policy_in_force_wf: "policy_in_force hv = Some p \<Longrightarrow> policy_wf p"
  using LoadFrom_wf [of "hv_toml hv" "hv_zoneinfo hv" Path "hv_policy hv"]
  by (auto simp: policy_in_force_def Load_def split: prod.splits option.splits if_splits)

section \<open>The contract of an executor\<close>

locale executor =
  fixes exec :: "helper_job \<Rightarrow> exec_result"
    and may :: "name \<Rightarrow> params \<Rightarrow> effect \<Rightarrow> bool"
  assumes exec_may: "exec job = (out, err, effs) \<Longrightarrow> eff \<in> set effs \<Longrightarrow> may (hj_Intent job) (hj_Params job) eff"
begin

text \<open>Anything a helper does was asked for through its own socket, decoded, permitted by the policy
  as the helper read it, and is allowed by the decoded parameters.\<close>

lemma effect_authorised:
  assumes "Perform h hv req = (resp, effs)" and "Execute h = Some exec" and "eff \<in> set effs"
  shows "\<exists>s ps p. Endpoint (pr_Intent req) = Some (Socket h) \<and>
    Decode (pr_Intent req) (pr_Params req) = Inr (s, ps) \<and> policy_in_force hv = Some p \<and>
    Allowed (Decide p \<lparr>req_Intent = pr_Intent req, req_Params = Some ps, IssuedAt = pr_IssuedAt req\<rparr>
      \<lparr>Now = hv_now hv, Paused = hv_paused hv\<rparr>) \<and> may (pr_Intent req) ps eff"
proof -
  obtain d q e where a: "Authorise hv req = (d, q, e)" by (cases "Authorise hv req")
  with assms have "Endpoint (pr_Intent req) = Some (Socket h)" and e: "e = None" and "Allowed d" "q \<noteq> None"
    and x: "\<exists>out err. exec \<lparr>hj_ID = pr_JobID req, hj_Intent = pr_Intent req, hj_Params = the q\<rparr> = (out, err, effs)"
    by (auto simp: Perform_def fail_def split: option.splits if_splits prod.splits)
  moreover from x have "may (pr_Intent req) (the q) eff" using exec_may assms(3) by fastforce
  ultimately show ?thesis using Authorise_allowed [OF a] by (metis option.collapse)
qed

text \<open>A refusal changes nothing and is told apart from a failure.\<close>

lemma refused_no_effect:
  assumes "Perform h hv req = (resp, effs)" and "rs_ExitCode resp \<in> {ExitUsage, ExitRefused, ExitNotImplemented}"
    and "Execute h = Some exec"
  shows "effs = []"
  using assms
  by (auto simp: Perform_def fail_def ExitOK_def ExitFailed_def ExitUsage_def ExitRefused_def ExitNotImplemented_def
      split: option.splits if_splits prod.splits)

end

end
