(* ===== verification/Executors.thy ===== *)
theory Executors
  imports Helper
begin

text \<open>
  The three root helpers: \<open>helpers/apply-updates\<close>, \<open>helpers/restart-unit\<close> and \<open>helpers/reboot-host\<close>.
  Each is a function from a job to its output, its error and its effects; the parts of the host it
  asks (processes, systemd over D-Bus, the reboot signal, the policy file read a second time) are
  arguments. Every one is an instance of the contract \<open>executor\<close>.
\<close>

section \<open>The host as the executors see it\<close>

record world =
  proc :: proc_world
  apt_conf :: bool                       \<comment> \<open>\<open>os.Stat(AptConfigPath)\<close> succeeds\<close>
  identified :: bool                     \<comment> \<open>\<open>platform.Detect\<close> succeeds\<close>
  reboot_Conclusive :: bool
  reboot_Required :: bool
  reboot_Source :: bytes
  later :: host_view                     \<comment> \<open>policy, clock and marker after the update\<close>
  dbus :: bool
  unit_accepted :: "bytes \<Rightarrow> bytes \<Rightarrow> bool"
  unit_finished :: "bytes option"        \<comment> \<open>\<open>None\<close>: not within the deadline\<close>

definition AptConfigPath :: bytes where [go_defs]: "AptConfigPath = ''/usr/share/hostseal/apt.conf''"
definition updateTimeout :: duration where [go_defs]: "updateTimeout = 40 * Minute"

definition commandOutput :: "run_result option \<Rightarrow> bytes" where
  "commandOutput res = (case res of None \<Rightarrow> []
    | Some r \<Rightarrow>
        Stdout r @
        (if Stderr r = [] then []
         else (if Stdout r \<noteq> [] \<and> last (Stdout r) \<noteq> CHR 0x0A then [CHR 0x0A] else []) @ Stderr r))"

section \<open>apply-updates\<close>

definition updateEnv :: "bytes list" where
  "updateEnv = [''PATH=/usr/sbin:/usr/bin:/sbin:/bin'', ''LC_ALL=C.UTF-8'', ''DEBIAN_FRONTEND=noninteractive'',
     ''APT_CONFIG='' @ AptConfigPath]"

definition updateCommand :: "name \<Rightarrow> (program \<times> bytes list) option" where
  "updateCommand n =
     (if n = PackagesApplySecurity then Some (UnattendedUpgrade, [''--verbose''])
      else if n = PackagesApplyAll then
        Some (AptGet, [''--yes'', ''--quiet'', ''-o'', ''Dpkg::Options::=--force-confdef'',
          ''-o'', ''Dpkg::Options::=--force-confold'', ''-o'', ''DPkg::Lock::Timeout=600'', ''dist-upgrade''])
      else None)"

definition runUpdate :: "world \<Rightarrow> name \<Rightarrow> run_result option \<times> exec_error option \<times> effect list" where
  "runUpdate w n = (case updateCommand n of
      None \<Rightarrow> (None, Some (UpdateFailed n None), [])
    | Some (p, args) \<Rightarrow>
        (case CommandWith (proc w) \<lparr>Timeout = updateTimeout, Env = Some updateEnv, Dir = []\<rparr> p args of
           (res, err, effs) \<Rightarrow> (res, map_option (\<lambda>e. UpdateFailed n (Some e)) err, effs)))"

definition reboot_note :: bytes where
  "reboot_note = ''hostseal: rebooting after applying updates''"

text \<open>The decision about the follow-up reboot, made again after the updates.\<close>

definition follow_up :: "host_view \<Rightarrow> (exec_error, unit) result" where
  "follow_up hv = (case Load (hv_toml hv) (hv_zoneinfo hv) (hv_policy hv) of (p, err) \<Rightarrow>
      (case (case err of None \<Rightarrow> None | Some e \<Rightarrow> if e = ErrNoPolicyFile then None else Some e) of
         Some e \<Rightarrow> Inl (PolicyReread e)
       | None \<Rightarrow>
           (case Decode HostReboot ''{}'' of
              Inl e \<Rightarrow> Inl (RebootDecode e)
            | Inr (_, ps) \<Rightarrow>
                let d = Decide p \<lparr>req_Intent = HostReboot, req_Params = Some ps, IssuedAt = 0\<rparr>
                          \<lparr>Now = hv_now hv, Paused = hv_paused hv\<rparr>
                in if Allowed d then Inr () else Inl (RebootRefused (Code d, Reason d)))))"

definition rebootIfRequired :: "world \<Rightarrow> bytes \<Rightarrow> exec_result" where
  "rebootIfRequired w jobID =
     (if \<not> identified w then ([], Some NotIdentified, [])
      else if \<not> reboot_Conclusive w then ([], Some (Inconclusive (reboot_Source w)), [])
      else if \<not> reboot_Required w then (''no reboot was required ('' @ reboot_Source w @ '')'', None, [])
      else case follow_up (later w) of
        Inl e \<Rightarrow> ([], Some e, [])
      | Inr _ \<Rightarrow>
          (case Command (proc w) Shutdown [''-r'', ''--'', ''now'', reboot_note] of
             (res, Some e, effs) \<Rightarrow> (commandOutput res, Some (RebootNotScheduled e), effs)
           | (res, None, effs) \<Rightarrow>
               (''a reboot was required and has been scheduled (job '' @ jobID @ '')'' @ [CHR 0x0A] @ commandOutput res,
                None, effs)))"

definition apt_warning :: bytes where
  "apt_warning = ''warning: '' @ AptConfigPath @ '' is missing, so packages whose conffiles have been edited '' @
     ''locally may be held back'' @ [CHR 0x0A]"

definition apply_updates :: "world \<Rightarrow> helper_job \<Rightarrow> exec_result" where
  "apply_updates w job = (case hj_Params job of
      ApplyParams _ rebootIf \<Rightarrow>
        (case runUpdate w (hj_Intent job) of (res, err, effs) \<Rightarrow>
         let report = (if apt_conf w then [] else apt_warning) @ commandOutput res in
         case err of
           Some e \<Rightarrow> (report, Some e, effs)
         | None \<Rightarrow>
             if \<not> rebootIf then (report, None, effs)
             else if hj_Intent job = PackagesApplySecurity then (report, Some (RoutineReboot (hj_Intent job)), effs)
             else (case rebootIfRequired w (hj_ID job) of
                     (note, err', effs') \<Rightarrow> (report @ [CHR 0x0A] @ note, err', effs @ effs')))
    | _ \<Rightarrow> ([], Some (WrongParams (hj_Intent job)), []))"

section \<open>restart-unit\<close>

definition verb :: "name \<Rightarrow> bytes" where
  "verb n = (if n = ServiceStart then ''start'' else if n = ServiceStop then ''stop''
     else if n = ServiceRestart then ''restart'' else n)"

definition jobMode :: bytes where [go_defs]: "jobMode = ''replace''"

definition act :: "world \<Rightarrow> helper_job \<Rightarrow> exec_result" where
  "act w job = (case hj_Params job of
      UnitParams _ u \<Rightarrow>
        let n = hj_Intent job; v = verb n in
        if \<not> dbus w then ([], Some NoDBus, [])
        else if n \<notin> {ServiceStart, ServiceStop, ServiceRestart} then ([], Some (NotUnitOperation n), [])
        else if \<not> unit_accepted w v u then ([], Some (UnitCall v u), [UnitJob v u jobMode])
        else (case unit_finished w of
            None \<Rightarrow> ([], Some (UnitTimeout v u), [UnitJob v u jobMode])
          | Some r \<Rightarrow>
              if r \<noteq> ''done''
              then (''systemd reported \"'' @ r @ ''\"'', Some (UnitResult v u r), [UnitJob v u jobMode])
              else (v @ '' '' @ u @ '': done'', None, [UnitJob v u jobMode]))
    | _ \<Rightarrow> ([], Some (WrongParams (hj_Intent job)), []))"

section \<open>reboot-host\<close>

definition shutdownTime :: "int \<Rightarrow> bytes" where
  "shutdownTime delaySeconds =
     (if delaySeconds \<le> 0 then ''now'' else ''+'' @ itoa ((delaySeconds + 59) div 60))"

definition rebootArgs :: "int \<Rightarrow> bytes \<Rightarrow> bytes list" where
  "rebootArgs delaySeconds msg =
     [''-r'', ''--'', shutdownTime delaySeconds] @ (if msg \<noteq> [] then [msg] else [])"

definition reboot_output :: "run_result option \<Rightarrow> bytes" where
  "reboot_output res = (case res of None \<Rightarrow> []
    | Some r \<Rightarrow> trim_space (Stdout r @
        (if Stderr r = [] then [] else (if Stdout r \<noteq> [] then [CHR 0x0A] else []) @ Stderr r)))"

definition reboot :: "world \<Rightarrow> helper_job \<Rightarrow> exec_result" where
  "reboot w job = (case hj_Params job of
      RebootParams _ delay msg \<Rightarrow>
        (case Command (proc w) Shutdown (rebootArgs delay msg) of
           (res, Some e, effs) \<Rightarrow> (reboot_output res, Some (RebootFailed (shutdownTime delay) e), effs)
         | (res, None, effs) \<Rightarrow>
             (trim_space (''reboot scheduled for '' @ shutdownTime delay @
                (if msg \<noteq> [] then '' with the wall message \"'' @ msg @ ''\"'' else []) @
                (if 0 < delay \<and> delay mod 60 \<noteq> 0
                 then '' ('' @ itoa delay @ ''s was asked for; shutdown(8) has no seconds, so it was rounded up)'' else []) @
                [CHR 0x0A] @ reboot_output res), None, effs))
    | _ \<Rightarrow> ([], Some (WrongParams (hj_Intent job)), []))"

definition apply_helper :: "world \<Rightarrow> helper" where
  "apply_helper w = \<lparr>Component = ''apply-updates'', Socket = ApplyUpdatesSocket, Execute = Some (apply_updates w)\<rparr>"

definition unit_helper :: "world \<Rightarrow> helper" where
  "unit_helper w = \<lparr>Component = ''restart-unit'', Socket = RestartUnitSocket, Execute = Some (act w)\<rparr>"

definition reboot_helper :: "world \<Rightarrow> helper" where
  "reboot_helper w = \<lparr>Component = ''reboot-host'', Socket = RebootHostSocket, Execute = Some (reboot w)\<rparr>"

section \<open>The executors meet the contract\<close>

text \<open>What each may do, given the intent and the parameters of its job.\<close>

definition may_apply :: "world \<Rightarrow> name \<Rightarrow> params \<Rightarrow> effect \<Rightarrow> bool" where
  "may_apply w n ps eff \<longleftrightarrow>
     (\<exists>p args envs dir tmo. eff = Exec p args envs dir tmo \<and>
        (updateCommand n = Some (p, args) \<or>
         p = Shutdown \<and> args = [''-r'', ''--'', ''now'', reboot_note] \<and> n \<noteq> PackagesApplySecurity \<and>
           (\<exists>m. ps = ApplyParams m True) \<and> follow_up (later w) = Inr ()))"

definition may_act :: "name \<Rightarrow> params \<Rightarrow> effect \<Rightarrow> bool" where
  "may_act n ps eff \<longleftrightarrow> (\<exists>m u. ps = UnitParams m u \<and> n \<in> {ServiceStart, ServiceStop, ServiceRestart} \<and>
     eff = UnitJob (verb n) u jobMode)"

definition may_reboot :: "name \<Rightarrow> params \<Rightarrow> effect \<Rightarrow> bool" where
  "may_reboot n ps eff \<longleftrightarrow> (\<exists>m delay msg envs dir tmo. ps = RebootParams m delay msg \<and>
     eff = Exec Shutdown (rebootArgs delay msg) envs dir tmo)"

lemma Command_effects:
  "Command w p args = (r, e, effs) \<Longrightarrow> eff \<in> set effs \<Longrightarrow> \<exists>envs dir tmo. eff = Exec p args envs dir tmo"
  by (auto simp: Command_def dest!: CommandWith_effects)

lemma runUpdate_effects:
  "runUpdate w n = (r, e, effs) \<Longrightarrow> eff \<in> set effs \<Longrightarrow>
   \<exists>p args envs dir tmo. updateCommand n = Some (p, args) \<and> eff = Exec p args envs dir tmo"
  by (auto simp: runUpdate_def split: option.splits prod.splits dest!: CommandWith_effects)

lemma rebootIfRequired_effects:
  "rebootIfRequired w i = (out, err, effs) \<Longrightarrow> eff \<in> set effs \<Longrightarrow> follow_up (later w) = Inr () \<and>
   (\<exists>envs dir tmo. eff = Exec Shutdown [''-r'', ''--'', ''now'', reboot_note] envs dir tmo)"
  by (auto simp: rebootIfRequired_def split: if_splits sum.splits prod.splits option.splits dest!: Command_effects)

interpretation updating: executor "apply_updates w" "may_apply w" for w
proof
  fix job out err effs eff
  assume *: "apply_updates w job = (out, err, effs)" and eff: "eff \<in> set effs"
  then obtain m r where ps: "hj_Params job = ApplyParams m r"
    by (cases "hj_Params job") (auto simp: apply_updates_def)
  obtain res e1 effs1 where u: "runUpdate w (hj_Intent job) = (res, e1, effs1)" by (cases "runUpdate w (hj_Intent job)")
  obtain nt e2 effs2 where r: "rebootIfRequired w (hj_ID job) = (nt, e2, effs2)" by (cases "rebootIfRequired w (hj_ID job)")
  have "effs = effs1 \<or> effs = effs1 @ effs2 \<and> hj_Intent job \<noteq> PackagesApplySecurity \<and> r"
    using * by (auto simp: apply_updates_def ps u r Let_def split: option.splits if_splits)
  with eff show "may_apply w (hj_Intent job) (hj_Params job) eff"
    using runUpdate_effects [OF u, of eff] rebootIfRequired_effects [OF r, of eff] ps
    unfolding may_apply_def by auto
qed

interpretation acting: executor "act w" may_act for w
  by unfold_locales
    (auto simp: act_def may_act_def Let_def split: params.splits if_splits option.splits)

interpretation rebooting: executor "reboot w" may_reboot for w
proof
  fix job out err effs eff
  assume "reboot w job = (out, err, effs)" and "eff \<in> set effs"
  then show "may_reboot (hj_Intent job) (hj_Params job) eff"
    by (auto simp: reboot_def may_reboot_def split: params.splits prod.splits option.splits dest!: Command_effects)
qed

section \<open>What the helpers can do to a host\<close>

text \<open>The request a helper decided on.\<close>

abbreviation decided :: "priv_request \<Rightarrow> params \<Rightarrow> request" where
  "decided req ps \<equiv> \<lparr>req_Intent = pr_Intent req, req_Params = Some ps, IssuedAt = pr_IssuedAt req\<rparr>"

abbreviation seen_env :: "host_view \<Rightarrow> env" where
  "seen_env hv \<equiv> \<lparr>Now = hv_now hv, Paused = hv_paused hv\<rparr>"

lemma Endpoint_inv:
  "Endpoint n = Some ApplyUpdatesSocket \<Longrightarrow> n = PackagesApplySecurity \<or> n = PackagesApplyAll"
  "Endpoint n = Some RestartUnitSocket \<Longrightarrow> n = ServiceStart \<or> n = ServiceStop \<or> n = ServiceRestart"
  "Endpoint n = Some RebootHostSocket \<Longrightarrow> n = HostReboot"
  by (auto simp: Endpoint_def endpoints_def ApplyUpdatesSocket_def RestartUnitSocket_def RebootHostSocket_def
      split: if_splits)

lemma Decide_privileged:
  assumes "Allowed (Decide p req env)" and "Endpoint (req_Intent req) = Some path"
  shows "\<not> Paused env \<and> age_ok p req env \<and> permitted p req env"
proof -
  from assms(2) obtain s where s: "Lookup (req_Intent req) = Some s" "Privileged (Class s)"
    using Endpoint_privileged by blast
  with assms(1) class_cases [OF s(1)] show ?thesis by (auto simp: Decide_Allowed)
qed

lemma Decide_permits:
  assumes "permitted p req env" and "age_ok p req env" and "\<not> Paused env" and "Endpoint (req_Intent req) \<noteq> None"
  shows "Allowed (Decide p req env)"
proof -
  from assms(4) obtain s where "Lookup (req_Intent req) = Some s" "Privileged (Class s)"
    using Endpoint_privileged by blast
  with assms show ?thesis by (auto simp: Decide_Allowed)
qed

text \<open>The unit helper acts on a unit only when the host's policy, as the helper just read
  it, lists a pattern that matches the unit's name, the host is not paused and the name passed
  the validator; what it asks of systemd is exactly the operation of the intent.\<close>

theorem unit_effect_permitted:
  assumes "Perform (unit_helper w) hv req = (resp, effs)" and "eff \<in> set effs"
  shows "\<exists>p u. policy_in_force hv = Some p \<and> \<not> hv_paused hv \<and> RestartableAllows p u \<and> unit_safe u \<and>
    pr_Intent req \<in> {ServiceStart, ServiceStop, ServiceRestart} \<and> eff = UnitJob (verb (pr_Intent req)) u ''replace''"
proof -
  have ex: "Execute (unit_helper w) = Some (act w)" by (simp add: unit_helper_def)
  from acting.effect_authorised [OF assms(1) ex assms(2)] obtain s ps p where
    ep: "Endpoint (pr_Intent req) = Some RestartUnitSocket" and d: "Decode (pr_Intent req) (pr_Params req) = Inr (s, ps)"
    and pol: "policy_in_force hv = Some p" and al: "Allowed (Decide p (decided req ps) (seen_env hv))"
    and m: "may_act (pr_Intent req) ps eff" by (auto simp: unit_helper_def)
  from m obtain n u where u: "ps = UnitParams n u" "eff = UnitJob (verb (pr_Intent req)) u jobMode"
    by (auto simp: may_act_def)
  from Decide_privileged [OF al] ep have "permitted p (decided req ps) (seen_env hv)" and np: "\<not> hv_paused hv"
    by auto
  moreover have n: "pr_Intent req \<in> {ServiceStart, ServiceStop, ServiceRestart}"
    using Endpoint_inv(2) [OF ep] by simp
  ultimately have "RestartableAllows p u"
    using u(1) by (auto simp: permitted_def RestartableAllows_iff intent_names Let_def)
  moreover have "unit_safe u" using Decode_ok [OF d] u(1) by simp
  ultimately show ?thesis using pol np n u(2) by (auto simp: jobMode_def)
qed

definition sample_world :: world where
  "sample_world = \<lparr>proc = (\<lambda>_. \<lparr>writes_out = [], writes_err = [], exit_status = 0, ended = Finished\<rparr>),
     apt_conf = True, identified = True, reboot_Conclusive = True, reboot_Required = True, reboot_Source = [],
     later = \<lparr>hv_toml = (\<lambda>_ p. Inr (p, [])), hv_zoneinfo = (\<lambda>_. None), hv_policy = NotExist, hv_now = 0, hv_paused = False\<rparr>,
     dbus = True, unit_accepted = (\<lambda>_ _. True), unit_finished = Some ''done''\<rparr>"

text \<open>A host whose policy file permits one unit and reboots on Saturday night.\<close>

definition sample_view :: "instant \<Rightarrow> host_view" where
  "sample_view t = \<lparr>hv_toml = (\<lambda>_ p. Inr (p\<lparr>Updates := (Updates p)\<lparr>u_Window := ''Sat 22:00-02:00'', Reboot := RebootWindow\<rparr>,
       Services := \<lparr>Restartable = [''nginx.service''], Watched = []\<rparr>\<rparr>, [])), hv_zoneinfo = (\<lambda>_. None),
     hv_policy = Contents [], hv_now = t, hv_paused = False\<rparr>"

definition sample_restart :: priv_request where
  "sample_restart = \<lparr>pr_JobID = ''J1'', pr_Intent = ServiceRestart, pr_Params = ''{\"unit\":\"nginx.service\"}'', pr_IssuedAt = 0\<rparr>"

definition sample_in_force :: policy where
  "sample_in_force = default_raw\<lparr>
     Updates := (Updates default_raw)\<lparr>u_Window := ''Sat 22:00-02:00'', Reboot := RebootWindow\<rparr>,
     Services := \<lparr>Restartable = [''nginx.service''], Watched = []\<rparr>,
     p_window := \<lparr>always = False, days = [False, False, False, False, False, False, True],
       startMinutes = 1320, lengthMinutes = 240, loc = Some UTC, wtext = ''Sat 22:00-02:00''\<rparr>,
     p_source := Path\<rparr>"

lemma sample_load: "Load (hv_toml (sample_view t)) (hv_zoneinfo (sample_view t)) (hv_policy (sample_view t)) = (sample_in_force, None)"
proof -
  have "Load (hv_toml (sample_view 0)) (hv_zoneinfo (sample_view 0)) (hv_policy (sample_view 0)) = (sample_in_force, None)"
    by code_simp
  then show ?thesis by (simp add: sample_view_def)
qed

lemma sample_restart_effects:
  "snd (Perform (unit_helper sample_world) (sample_view 1) sample_restart) = [UnitJob ''restart'' ''nginx.service'' ''replace'']"
proof -
  have "decodeUnit ServiceRestart ''{\"unit\":\"nginx.service\"}'' = Inr (UnitParams ServiceRestart ''nginx.service'')"
    by code_simp
  then obtain s where "Decode (pr_Intent sample_restart) (pr_Params sample_restart) = Inr (s, UnitParams ServiceRestart ''nginx.service'')"
    using Decode_via [of ServiceRestart "''{\"unit\":\"nginx.service\"}''"]
    by (auto simp: sample_restart_def catalogue_keys intent_names)
  note a = Authorise_eq [OF this, of "sample_view 1"]
  have d: "Allowed (Decide sample_in_force
      (decided sample_restart (UnitParams ServiceRestart ''nginx.service'')) (seen_env (sample_view 1)))"
  proof (rule Decide_permits)
    have "RestartableAllows sample_in_force ''nginx.service''" by code_simp
    then show "permitted sample_in_force (decided sample_restart (UnitParams ServiceRestart ''nginx.service''))
        (seen_env (sample_view 1))"
      by (simp add: permitted_def RestartableAllows_iff sample_restart_def Let_def)
  qed (simp_all add: sample_restart_def sample_view_def age_ok_def Endpoint_def endpoints_def intent_names)
  from Perform_eq [OF a, of "unit_helper sample_world" "act sample_world"] d show ?thesis
    by (simp add: sample_load unit_helper_def sample_restart_def Endpoint_def endpoints_def intent_names act_def sample_world_def
        verb_def jobMode_def)
qed

theorem unit_effect_permitted_witness:
  "snd (Perform (unit_helper sample_world) (sample_view 1) sample_restart) = [UnitJob ''restart'' ''nginx.service'' ''replace''] \<and>
   (\<exists>p. policy_in_force (sample_view 1) = Some p \<and> RestartableAllows p ''nginx.service'')"
proof -
  let ?r = "Perform (unit_helper sample_world) (sample_view 1) sample_restart"
  note e = sample_restart_effects
  have "?r = (fst ?r, [UnitJob ''restart'' ''nginx.service'' ''replace''])" using e by (cases ?r) simp
  from unit_effect_permitted [OF this, of "UnitJob ''restart'' ''nginx.service'' ''replace''"] e
  show ?thesis by auto
qed

lemma shutdownTime_safe: "shutdownTime d \<noteq> [] \<and> hd (shutdownTime d) \<noteq> CHR ''-''"
  by (simp add: shutdownTime_def)

lemma reboot_permitted_open:
  "policy_in_force hv = Some p \<Longrightarrow> reboot_ok p (seen_env hv) \<Longrightarrow>
   Reboot (Updates p) = RebootWindow \<and> \<not> always (p_window p) \<and> open_at (p_window p) (hv_now hv)"
  using policy_in_force_wf [of hv p] by (auto simp: reboot_ok_def policy_wf_def dest: Contains_sound)

text \<open>The reboot helper starts \<open>shutdown\<close> only when the policy it just read says
  \<open>reboot = "window"\<close>, has a window that is not always open and the clock is inside it, and the host
  is not paused. The arguments are \<open>-r\<close>, \<open>--\<close>, a time within the hour and at most one message, and
  nothing behind \<open>--\<close> begins with a hyphen.\<close>

theorem reboot_effect_permitted:
  assumes "Perform (reboot_helper w) hv req = (resp, effs)" and "eff \<in> set effs"
  shows "\<exists>p rest envs dir tmo. policy_in_force hv = Some p \<and> \<not> hv_paused hv \<and>
    Reboot (Updates p) = RebootWindow \<and> \<not> always (p_window p) \<and> open_at (p_window p) (hv_now hv) \<and>
    pr_Intent req = HostReboot \<and> eff = Exec Shutdown ([''-r'', ''--''] @ rest) envs dir tmo \<and>
    length rest \<le> 2 \<and> list_all (\<lambda>a. hd a \<noteq> CHR ''-'') rest"
proof -
  have ex: "Execute (reboot_helper w) = Some (reboot w)" by (simp add: reboot_helper_def)
  from rebooting.effect_authorised [OF assms(1) ex assms(2)] obtain s ps p where
    ep: "Endpoint (pr_Intent req) = Some RebootHostSocket" and d: "Decode (pr_Intent req) (pr_Params req) = Inr (s, ps)"
    and pol: "policy_in_force hv = Some p" and al: "Allowed (Decide p (decided req ps) (seen_env hv))"
    and m: "may_reboot (pr_Intent req) ps eff" by (auto simp: reboot_helper_def)
  from m obtain n delay msg envs dir tmo where r: "ps = RebootParams n delay msg"
    "eff = Exec Shutdown (rebootArgs delay msg) envs dir tmo" by (auto simp: may_reboot_def)
  have n: "pr_Intent req = HostReboot" by (rule Endpoint_inv(3) [OF ep])
  from Decide_privileged [OF al] ep have perm: "permitted p (decided req ps) (seen_env hv)" and np: "\<not> hv_paused hv"
    by auto
  from perm n have "reboot_ok p (seen_env hv)" by (auto simp: permitted_def Let_def intent_names)
  note w = reboot_permitted_open [OF pol this]
  from Decode_ok [OF d] r(1) have "msg = [] \<or> hd msg \<noteq> CHR ''-''" by simp
  then have "list_all (\<lambda>a. hd a \<noteq> CHR ''-'') (drop 2 (rebootArgs delay msg))"
    using shutdownTime_safe [of delay] by (auto simp: rebootArgs_def)
  moreover have "rebootArgs delay msg = [''-r'', ''--''] @ drop 2 (rebootArgs delay msg)"
    "length (drop 2 (rebootArgs delay msg)) \<le> 2" by (simp_all add: rebootArgs_def)
  ultimately show ?thesis using pol np w n r(2) by metis
qed

definition sample_reboot :: "bytes \<Rightarrow> priv_request" where
  "sample_reboot ps = \<lparr>pr_JobID = ''J2'', pr_Intent = HostReboot, pr_Params = ps, pr_IssuedAt = 0\<rparr>"

text \<open>One second before the window of the sample policy closes, early on a Sunday.\<close>

definition last_second :: instant where
  "last_second = (6 * 86400 + 2 * 3600 - 1) * Second"

lemma sample_reboot_effects:
  assumes "decodeReboot HostReboot raw = Inr (RebootParams HostReboot delay msg)"
    and "iss = 0 \<or> last_second - 900 * Second \<le> iss \<and> iss \<le> last_second"
  shows "snd (Perform (reboot_helper sample_world) (sample_view last_second) ((sample_reboot raw)\<lparr>pr_IssuedAt := iss\<rparr>)) =
    [Exec Shutdown (rebootArgs delay msg) [''PATH=/usr/sbin:/usr/bin:/sbin:/bin'', ''LC_ALL=C.UTF-8''] ''/'' DefaultTimeout]"
proof -
  let ?req = "(sample_reboot raw)\<lparr>pr_IssuedAt := iss\<rparr>"
  obtain s where "Decode (pr_Intent ?req) (pr_Params ?req) = Inr (s, RebootParams HostReboot delay msg)"
    using Decode_via [of HostReboot raw] assms(1) by (auto simp: sample_reboot_def catalogue_keys intent_names)
  note a = Authorise_eq [OF this, of "sample_view last_second"]
  have d: "Allowed (Decide sample_in_force (decided ?req (RebootParams HostReboot delay msg)) (seen_env (sample_view last_second)))"
  proof (rule Decide_permits)
    have "Contains (p_window sample_in_force) last_second" by code_simp
    moreover have "Reboot (Updates sample_in_force) = RebootWindow" by (simp add: sample_in_force_def)
    ultimately show "permitted sample_in_force (decided ?req (RebootParams HostReboot delay msg)) (seen_env (sample_view last_second))"
      by (simp add: permitted_def reboot_ok_def sample_reboot_def Let_def sample_view_def)
    show "age_ok sample_in_force (decided ?req (RebootParams HostReboot delay msg)) (seen_env (sample_view last_second))"
      using assms(2) by (auto simp: age_ok_def maxAge_def sample_in_force_def default_raw_def duration_mul_def wrap64_mod
          time_sub_def int64_min_def int64_max_def Second_def sample_view_def)
  qed (simp_all add: sample_reboot_def sample_view_def Endpoint_def endpoints_def intent_names)
  have "Shutdown \<in> set run_allowed" by (simp add: run_allowed_def)
  with Perform_eq [OF a, of "reboot_helper sample_world" "reboot sample_world"] d show ?thesis
    by (simp add: sample_load reboot_helper_def sample_reboot_def Endpoint_def endpoints_def intent_names reboot_def
        sample_world_def Command_def CommandWith_def zero_options_def)
qed

lemmas sample_reboot_now = sample_reboot_effects [where iss = 0, unfolded sample_reboot_def priv_request.simps, folded sample_reboot_def]

theorem reboot_effect_permitted_witness:
  "\<exists>eff p. snd (Perform (reboot_helper sample_world) (sample_view last_second) (sample_reboot ''{}'')) = [eff] \<and>
     policy_in_force (sample_view last_second) = Some p \<and> open_at (p_window p) last_second"
proof -
  let ?r = "Perform (reboot_helper sample_world) (sample_view last_second) (sample_reboot ''{}'')"
  have "decodeReboot HostReboot ''{}'' = Inr (RebootParams HostReboot 0 [])" by code_simp
  note e = sample_reboot_now [OF this, simplified]
  then obtain eff where eff: "snd ?r = [eff]" by simp
  then have "?r = (fst ?r, [eff])" by (cases ?r) simp
  from reboot_effect_permitted [OF this, of eff] eff show ?thesis by (auto simp: sample_view_def)
qed

text \<open>The window is checked when the reboot is scheduled, not for the time it is scheduled
  for: a request that arrives one second before the window closes and asks for a delay of an
  hour is permitted, \<open>shutdown\<close> is told to wait sixty minutes, and the host goes down at an instant
  that is outside the window.\<close>

theorem delayed_reboot_leaves_window:
  "\<exists>p envs dir tmo.
     snd (Perform (reboot_helper sample_world) (sample_view last_second) (sample_reboot ''{\"delaySeconds\":3600}'')) =
       [Exec Shutdown [''-r'', ''--'', ''+60''] envs dir tmo] \<and>
     policy_in_force (sample_view last_second) = Some p \<and> \<not> open_at (p_window p) (last_second + 3600 * Second)"
proof -
  have "decodeReboot HostReboot ''{\"delaySeconds\":3600}'' = Inr (RebootParams HostReboot 3600 [])" by code_simp
  note e = sample_reboot_now [OF this, simplified]
  have args: "rebootArgs 3600 [] = [''-r'', ''--'', ''+60'']" by code_simp
  have p: "policy_in_force (sample_view last_second) = Some sample_in_force"
    by (simp add: policy_in_force_def sample_load)
  have "\<not> Contains (p_window sample_in_force) (last_second + 3600 * Second)" by code_simp
  moreover have "window_wf (p_window sample_in_force)" "fixed_zone (window_loc (p_window sample_in_force))"
    by (simp_all add: sample_in_force_def window_wf_def window_loc_def)
  ultimately have "\<not> open_at (p_window sample_in_force) (last_second + 3600 * Second)"
    using Contains_open_at by blast
  with e args p show ?thesis by auto
qed

lemma follow_up_ok:
  assumes "follow_up hv = Inr ()"
  shows "\<exists>p. policy_in_force hv = Some p \<and> \<not> hv_paused hv \<and> reboot_ok p (seen_env hv)"
proof -
  obtain p err where l: "Load (hv_toml hv) (hv_zoneinfo hv) (hv_policy hv) = (p, err)" by fastforce
  from assms l have pol: "policy_in_force hv = Some p"
    by (auto simp: follow_up_def policy_in_force_def split: option.splits if_splits)
  from assms l obtain ps where al: "Allowed (Decide p \<lparr>req_Intent = HostReboot, req_Params = Some ps, IssuedAt = 0\<rparr> (seen_env hv))"
    by (auto simp: follow_up_def Let_def split: option.splits if_splits sum.splits)
  have "Endpoint HostReboot = Some RebootHostSocket" by (simp add: Endpoint_def endpoints_def intent_names)
  with Decide_privileged [OF al] have "\<not> hv_paused hv" "reboot_ok p (seen_env hv)"
    by (auto simp: permitted_def Let_def intent_names)
  with pol show ?thesis by blast
qed

text \<open>The update helper runs exactly the command of the intent it was permitted: security
  updates through \<open>unattended-upgrade\<close>, all updates through \<open>apt-get\<close>, and only where the policy's level
  reaches that far. It reboots only for \<open>packages.applyAll\<close> with a follow-up asked for, and only when
  the policy permitted a reboot both before the update and, read again, after it.\<close>

theorem update_effect_permitted:
  assumes "Perform (apply_helper w) hv req = (resp, effs)" and "eff \<in> set effs"
  shows "\<exists>p prog args envs dir tmo. policy_in_force hv = Some p \<and> \<not> hv_paused hv \<and> eff = Exec prog args envs dir tmo \<and>
    ((pr_Intent req = PackagesApplySecurity \<and> prog = UnattendedUpgrade \<and> args = [''--verbose''] \<and>
        Allow (Updates p) \<in> {AllowSecurity, AllowAll}) \<or>
     (pr_Intent req = PackagesApplyAll \<and> prog = AptGet \<and> last args = ''dist-upgrade'' \<and> Allow (Updates p) = AllowAll) \<or>
     (pr_Intent req = PackagesApplyAll \<and> prog = Shutdown \<and> args = [''-r'', ''--'', ''now'', reboot_note] \<and>
        reboot_ok p (seen_env hv) \<and>
        (\<exists>p'. policy_in_force (later w) = Some p' \<and> \<not> hv_paused (later w) \<and> reboot_ok p' (seen_env (later w)))))"
proof -
  have ex: "Execute (apply_helper w) = Some (apply_updates w)" by (simp add: apply_helper_def)
  from updating.effect_authorised [OF assms(1) ex assms(2)] obtain s ps p where
    ep: "Endpoint (pr_Intent req) = Some ApplyUpdatesSocket"
    and pol: "policy_in_force hv = Some p" and al: "Allowed (Decide p (decided req ps) (seen_env hv))"
    and m: "may_apply w (pr_Intent req) ps eff" by (auto simp: apply_helper_def)
  from Decide_privileged [OF al] ep have perm: "permitted p (decided req ps) (seen_env hv)" and np: "\<not> hv_paused hv"
    by auto
  from m obtain prog args envs dir tmo where eff: "eff = Exec prog args envs dir tmo" and
    c: "updateCommand (pr_Intent req) = Some (prog, args) \<or>
      prog = Shutdown \<and> args = [''-r'', ''--'', ''now'', reboot_note] \<and> pr_Intent req \<noteq> PackagesApplySecurity \<and>
      (\<exists>m. ps = ApplyParams m True) \<and> follow_up (later w) = Inr ()"
    by (auto simp: may_apply_def)
  have ne: "PackagesApplyAll \<noteq> PackagesApplySecurity" "PackagesApplySecurity \<noteq> PackagesApplyAll"
    "PackagesApplyAll \<notin> {ServiceStart, ServiceStop, ServiceRestart, HostReboot}"
    "PackagesApplySecurity \<notin> {ServiceStart, ServiceStop, ServiceRestart, HostReboot}"
    by (simp_all add: intent_names)
  from c show ?thesis
  proof
    assume "updateCommand (pr_Intent req) = Some (prog, args)"
    with perm ne pol np eff show ?thesis
      by (auto simp: updateCommand_def permitted_def Let_def split: if_splits)
  next
    assume r: "prog = Shutdown \<and> args = [''-r'', ''--'', ''now'', reboot_note] \<and> pr_Intent req \<noteq> PackagesApplySecurity \<and>
      (\<exists>m. ps = ApplyParams m True) \<and> follow_up (later w) = Inr ()"
    then have n: "pr_Intent req = PackagesApplyAll" using Endpoint_inv(1) [OF ep] by auto
    from r have "wants_reboot (decided req ps)" by (auto simp: wants_reboot_def)
    with perm n ne have "reboot_ok p (seen_env hv)" by (auto simp: permitted_def Let_def)
    with follow_up_ok [of "later w"] r n pol np eff show ?thesis by blast
  qed
qed

definition sample_security :: priv_request where
  "sample_security = \<lparr>pr_JobID = ''J3'', pr_Intent = PackagesApplySecurity, pr_Params = ''{}'', pr_IssuedAt = 0\<rparr>"

lemma sample_security_effects:
  "snd (Perform (apply_helper sample_world) (sample_view 1) sample_security) =
   [Exec UnattendedUpgrade [''--verbose''] updateEnv ''/'' updateTimeout]"
proof -
  obtain s where "Decode (pr_Intent sample_security) (pr_Params sample_security) = Inr (s, ApplyParams PackagesApplySecurity False)"
    using Decode_via [of PackagesApplySecurity "''{}''"] decodeEmpty_roundtrip(2)
    by (auto simp: sample_security_def catalogue_keys intent_names)
  note a = Authorise_eq [OF this, of "sample_view 1"]
  have d: "Allowed (Decide sample_in_force
      (decided sample_security (ApplyParams PackagesApplySecurity False)) (seen_env (sample_view 1)))"
    by (rule Decide_permits)
      (simp_all add: permitted_def wants_reboot_def sample_security_def sample_in_force_def default_raw_def
        sample_view_def age_ok_def Endpoint_def endpoints_def intent_names)
  have "UnattendedUpgrade \<in> set run_allowed" by (simp add: run_allowed_def)
  with Perform_eq [OF a, of "apply_helper sample_world" "apply_updates sample_world"] d show ?thesis
    by (simp add: sample_load apply_helper_def sample_security_def Endpoint_def endpoints_def intent_names
        apply_updates_def runUpdate_def updateCommand_def sample_world_def CommandWith_def updateTimeout_def Minute_def)
qed

theorem update_effect_permitted_witness:
  "\<exists>eff p. snd (Perform (apply_helper sample_world) (sample_view 1) sample_security) = [eff] \<and>
     policy_in_force (sample_view 1) = Some p \<and> eff = Exec UnattendedUpgrade [''--verbose''] updateEnv ''/'' updateTimeout"
proof -
  let ?r = "Perform (apply_helper sample_world) (sample_view 1) sample_security"
  let ?e = "Exec UnattendedUpgrade [''--verbose''] updateEnv ''/'' updateTimeout"
  have "?r = (fst ?r, [?e])" using sample_security_effects by (cases ?r) simp
  from update_effect_permitted [OF this, of ?e] sample_security_effects show ?thesis by auto
qed

text \<open>The time \<open>shutdown\<close> is given is the delay rounded up to whole minutes: never earlier
  than asked for, less than a minute later, and at most an hour for a delay that decodes.\<close>

theorem shutdownTime_rounds_up:
  assumes "0 < delay" and "delay \<le> 3600"
  shows "\<exists>m. shutdownTime delay = ''+'' @ itoa m \<and> delay \<le> 60 * m \<and> 60 * m < delay + 60 \<and> m \<le> 60"
proof -
  have "60 * ((delay + 59) div 60) + (delay + 59) mod 60 = delay + 59" by simp
  moreover have "0 \<le> (delay + 59) mod 60" "(delay + 59) mod 60 < 60" by simp_all
  ultimately have "delay \<le> 60 * ((delay + 59) div 60)" "60 * ((delay + 59) div 60) < delay + 60" "(delay + 59) div 60 \<le> 60"
    using assms by linarith+
  with assms show ?thesis by (auto simp: shutdownTime_def)
qed

theorem shutdownTime_rounds_up_witness:
  "\<exists>m. shutdownTime 61 = ''+'' @ itoa m \<and> (61 :: int) \<le> 60 * m \<and> 60 * m < 61 + 60 \<and> m \<le> 60"
  using shutdownTime_rounds_up [of 61] by simp

section \<open>The command lines\<close>

text \<open>The request each \<open>main\<close> builds from its flags; \<open>None\<close> is a usage error. \<open>issued\<close> is the parsed
  \<open>--issued-at\<close>.\<close>

definition ParamsJSON :: "json \<Rightarrow> bytes option" where
  "ParamsJSON fs = (case json_marshal fs of Inl _ \<Rightarrow> None | Inr raw \<Rightarrow> Some raw)"

definition apply_main :: "bytes \<Rightarrow> bytes \<Rightarrow> bool \<Rightarrow> instant \<Rightarrow> priv_request option" where
  "apply_main intentName jobID rebootFlag issued =
     (if intentName \<noteq> PackagesApplySecurity \<and> intentName \<noteq> PackagesApplyAll then None
      else map_option (\<lambda>raw. \<lparr>pr_JobID = jobID, pr_Intent = intentName, pr_Params = raw, pr_IssuedAt = issued\<rparr>)
        (ParamsJSON (JObj [(''rebootIfRequired'', JBool rebootFlag)])))"

definition actions :: "(bytes \<times> name) list" where
  "actions = [(''start'', ServiceStart), (''stop'', ServiceStop), (''restart'', ServiceRestart)]"

definition unit_main :: "bytes \<Rightarrow> bytes \<Rightarrow> bytes \<Rightarrow> instant \<Rightarrow> priv_request option" where
  "unit_main action un jobID issued = (case map_of actions action of
      None \<Rightarrow> None
    | Some n \<Rightarrow> map_option (\<lambda>raw. \<lparr>pr_JobID = jobID, pr_Intent = n, pr_Params = raw, pr_IssuedAt = issued\<rparr>)
        (ParamsJSON (JObj [(''unit'', JStr un)])))"

definition reboot_main :: "int \<Rightarrow> bytes \<Rightarrow> bytes \<Rightarrow> instant \<Rightarrow> priv_request option" where
  "reboot_main delay msg jobID issued =
     map_option (\<lambda>raw. \<lparr>pr_JobID = jobID, pr_Intent = HostReboot, pr_Params = raw, pr_IssuedAt = issued\<rparr>)
       (ParamsJSON (JObj [(''delaySeconds'', JNum (itoa delay)), (''message'', JStr msg)]))"

text \<open>The update helper's own command line cannot apply security updates: it always writes
  the field \<open>rebootIfRequired\<close>, which the decoder of \<open>packages.applySecurity\<close> refuses, so that every
  such invocation ends as a usage error with nothing done, whatever the policy says.\<close>

theorem apply_main_security_refused:
  "\<exists>req. apply_main PackagesApplySecurity jobID r issued = Some req \<and>
     Perform (apply_helper w) hv req =
       fail ExitUsage (BadRequest (BadParams PackagesApplySecurity (ErrUnknownField ''rebootIfRequired'')))"
proof -
  let ?raw = "if r then ''{\"rebootIfRequired\":true}'' else ''{\"rebootIfRequired\":false}''"
  have j: "json_marshal (JObj [(''rebootIfRequired'', JBool r)]) = Inr ?raw"
    by (cases r) (simp_all add: json_marshal_def)
  have "decodeApplySecurity ''{\"rebootIfRequired\":true}'' = Inl (ErrUnknownField ''rebootIfRequired'')"
    "decodeApplySecurity ''{\"rebootIfRequired\":false}'' = Inl (ErrUnknownField ''rebootIfRequired'')" by code_simp+
  then have "decodeApplySecurity ?raw = Inl (ErrUnknownField ''rebootIfRequired'')" by simp
  then have "Decode PackagesApplySecurity ?raw = Inl (BadParams PackagesApplySecurity (ErrUnknownField ''rebootIfRequired''))"
    using Decode_via [of PackagesApplySecurity ?raw] by (auto simp: catalogue_keys intent_names)
  moreover have "Endpoint PackagesApplySecurity = Some ApplyUpdatesSocket" by (simp add: Endpoint_def endpoints_def)
  ultimately show ?thesis
    using j by (simp add: apply_main_def ParamsJSON_def Perform_def apply_helper_def Authorise_def)
qed

end
