(* ===== verification/Runner.thy ===== *)
theory Runner
  imports Acceptance Executors
begin

text \<open>
  \<open>internal/agent/execute.go\<close>, the second half: running a job. What a job does is returned as a list of
  events in the order in which they happen: the provisional result written to disk, the request
  handed to a root helper, and what that helper did to the host.
\<close>

section \<open>Read-only intents\<close>

datatype read_error = Interrupted bytes | CollectFailed bytes | NoReadExecutor name

text \<open>The collectors, by the intent that runs them; what they read is the operating system's.\<close>

record platform =
  Gather :: "policy \<Rightarrow> (read_error, json) result"
  UpgradableSummary :: "(read_error, json) result"
  ListUnits :: "(read_error, json \<times> bool) result"
  RebootRequired :: "(read_error, json) result"

definition Execute_read :: "platform \<Rightarrow> spec \<Rightarrow> policy \<Rightarrow> (read_error, json) result" where
  "Execute_read plat s p =
     (if spec_Name s = FactsCollect then Gather plat p
      else if spec_Name s = PackagesListUpgradable then UpgradableSummary plat
      else if spec_Name s = ServicesList then
        bind_res (ListUnits plat) (\<lambda>(units, cut). Inr (JObj [(''services'', units), (''truncated'', JBool cut)]))
      else if spec_Name s = RebootCheckRequired then RebootRequired plat
      else Inl (NoReadExecutor (spec_Name s)))"

section \<open>The runner\<close>

datatype run_failure =
    JobRefused reject | NoSpool | SpoolFailed | NoRoute | InvokeError invoke_error
  | HelperError helper_error | JobInterrupted read_error | ReadError read_error

type_synonym job_result = "run_failure result_request"

datatype event =
    SpoolAttempt job_result
  | HelperCall priv_request
  | HostEffect effect

text \<open>\<open>Spool\<close> answers whether the result is on disk; \<open>Elevate\<close> is the invoker with what the helper does.\<close>

record runner =
  HostID :: bytes
  run_Policy :: policy
  Signers :: "signer_set option"
  Online :: "signer_set option"
  Nonces_of :: nonce_state
  Platform :: platform
  Elevate :: "(priv_request \<Rightarrow> (invoke_error, helper_error response) result \<times> effect list) option"
  ClockOffset :: duration
  Spool :: "(job_result \<Rightarrow> bool) option"

definition statusForExit :: "int \<Rightarrow> bytes" where
  "statusForExit code =
     (if code = ExitOK then StatusSucceeded
      else if code = ExitRefused then StatusRefusedByPolicy
      else if code = ExitNotImplemented then StatusUnsupportedIntent
      else StatusFailed)"

definition new_result :: "bytes \<Rightarrow> instant \<Rightarrow> job_result" where
  "new_result i started = \<lparr>JobID = i, Status = [], StartedAt = started, FinishedAt = 0, res_ExitCode = 0,
     Output = [], OutputTruncated = False, Result = None, res_Error = None\<rparr>"

definition elevate :: "runner \<Rightarrow> job \<Rightarrow> accepted_job \<Rightarrow> job_result \<Rightarrow> instant \<Rightarrow> job_result \<times> event list" where
  "elevate r j a result finished = (case Elevate r of
      None \<Rightarrow> (result\<lparr>Status := StatusFailed, res_Error := Some NoRoute, FinishedAt := finished\<rparr>, [])
    | Some invoke \<Rightarrow>
        let req = \<lparr>pr_JobID = ID j, pr_Intent = spec_Name (acc_spec a), pr_Params = acc_raw a,
                   pr_IssuedAt = effectiveIssueTime j\<rparr>;
            (answer, effs) = invoke req;
            events = HelperCall req # map HostEffect effs
        in (case answer of
              Inl e \<Rightarrow> (result\<lparr>FinishedAt := finished, Status := StatusFailed, res_Error := Some (InvokeError e)\<rparr>, events)
            | Inr resp \<Rightarrow>
                (case TruncateOutput (rs_Output resp) of (out, was_cut) \<Rightarrow>
                   (result\<lparr>FinishedAt := finished, res_ExitCode := rs_ExitCode resp,
                      res_Error := map_option HelperError (rs_Error resp),
                      Status := statusForExit (rs_ExitCode resp),
                      Output := out, OutputTruncated := was_cut \<or> rs_OutputTruncated resp\<rparr>, events))))"

definition provisional_note :: "name \<Rightarrow> bytes" where
  "provisional_note n = ''This result was written and fsynced before the operation began, because '' @ n @
     '' can complete by the host disappearing. If the host came back and the operation had failed, a later result replaced this one.''"

definition provisional :: "job_result \<Rightarrow> spec \<Rightarrow> instant \<Rightarrow> job_result" where
  "provisional result s started =
     result\<lparr>Status := StatusSucceeded, FinishedAt := started, Output := provisional_note (spec_Name s)\<rparr>"

text \<open>The read-only branch of \<open>Run\<close>.\<close>

definition run_read :: "runner \<Rightarrow> accepted_job \<Rightarrow> job_result \<Rightarrow> instant \<Rightarrow> job_result" where
  "run_read r a result finished = (case Execute_read (Platform r) (acc_spec a) (run_Policy r) of
      Inl e \<Rightarrow> result\<lparr>FinishedAt := finished, Status := StatusFailed,
        res_Error := Some (case e of Interrupted _ \<Rightarrow> JobInterrupted e | _ \<Rightarrow> ReadError e)\<rparr>
    | Inr out \<Rightarrow> result\<lparr>FinishedAt := finished, Status := StatusSucceeded, Result := Some out\<rparr>)"

definition run_accepted :: "runner \<Rightarrow> job \<Rightarrow> accepted_job \<Rightarrow> job_result \<Rightarrow> instant \<Rightarrow> job_result \<times> event list" where
  "run_accepted r j a result finished =
     (if Privileged (Class (acc_spec a)) then elevate r j a result finished
      else (run_read r a result finished, []))"

text \<open>\<open>Run\<close>: the result, the nonce store afterwards, and the events. \<open>started\<close> and \<open>finished\<close> are its readings
  of the clock.\<close>

definition Run :: "crypto \<Rightarrow> accept_env \<Rightarrow> runner \<Rightarrow> job \<Rightarrow> instant \<Rightarrow> instant \<Rightarrow> job_result \<times> nonce_state \<times> event list" where
  "Run cr ae r j started finished =
     (let result = new_result (ID j) started in
      case accept cr ae j (HostID r) (run_Policy r) (Signers r) (Online r) (Nonces_of r) (ClockOffset r) started of
        (Inl (status, reason), st) \<Rightarrow>
          (result\<lparr>Status := status, res_Error := Some (JobRefused reason), FinishedAt := finished\<rparr>, st, [])
      | (Inr a, st) \<Rightarrow>
          if MayNotReturn (acc_spec a) (acc_params a) then
            (case Spool r of
               None \<Rightarrow> (result\<lparr>Status := StatusFailed, res_Error := Some NoSpool, FinishedAt := finished\<rparr>, st, [])
             | Some spool \<Rightarrow>
                 let prov = provisional result (acc_spec a) started in
                 if \<not> spool prov then
                   (result\<lparr>Status := StatusFailed, res_Error := Some SpoolFailed, FinishedAt := finished\<rparr>, st, [SpoolAttempt prov])
                 else (case run_accepted r j a result finished of (res, evs) \<Rightarrow> (res, st, SpoolAttempt prov # evs)))
          else (case run_accepted r j a result finished of (res, evs) \<Rightarrow> (res, st, evs)))"

section \<open>The shape of a run\<close>

abbreviation request_of :: "job \<Rightarrow> accepted_job \<Rightarrow> priv_request" where
  "request_of j a \<equiv> \<lparr>pr_JobID = ID j, pr_Intent = spec_Name (acc_spec a), pr_Params = acc_raw a,
     pr_IssuedAt = effectiveIssueTime j\<rparr>"

abbreviation accepts :: "crypto \<Rightarrow> accept_env \<Rightarrow> runner \<Rightarrow> job \<Rightarrow> instant \<Rightarrow> (bytes \<times> reject, accepted_job) result \<times> nonce_state" where
  "accepts cr ae r j started \<equiv>
     accept cr ae j (HostID r) (run_Policy r) (Signers r) (Online r) (Nonces_of r) (ClockOffset r) started"

lemma elevate_events:
  "snd (elevate r j a result finished) = (case Elevate r of None \<Rightarrow> []
     | Some invoke \<Rightarrow> HelperCall (request_of j a) # map HostEffect (snd (invoke (request_of j a))))"
  by (auto simp: elevate_def Let_def split: option.splits prod.splits sum.splits)

text \<open>Whatever reaches a helper, or the host through one, was accepted, and where it may not return its
  provisional result was on disk before.\<close>

lemma Run_call:
  assumes "Run cr ae r j started finished = (res, st, evs)"
    and "HelperCall req \<in> set evs \<or> HostEffect eff \<in> set evs"
  obtains a invoke where "accepts cr ae r j started = (Inr a, st)" "Privileged (Class (acc_spec a))"
    "Elevate r = Some invoke"
    "evs = (if MayNotReturn (acc_spec a) (acc_params a)
            then [SpoolAttempt (provisional (new_result (ID j) started) (acc_spec a) started)] else []) @
       HelperCall (request_of j a) # map HostEffect (snd (invoke (request_of j a)))"
    "MayNotReturn (acc_spec a) (acc_params a) \<longrightarrow>
       (\<exists>sp. Spool r = Some sp \<and> sp (provisional (new_result (ID j) started) (acc_spec a) started))"
proof -
  obtain a where a: "accepts cr ae r j started = (Inr a, st)"
    using assms by (auto simp: Run_def Let_def split: sum.splits prod.splits if_splits option.splits)
  have ev: "snd (run_accepted r j a (new_result (ID j) started) finished) \<noteq> [] \<Longrightarrow>
      Privileged (Class (acc_spec a)) \<and> (\<exists>invoke. Elevate r = Some invoke \<and>
        snd (run_accepted r j a (new_result (ID j) started) finished) =
          HelperCall (request_of j a) # map HostEffect (snd (invoke (request_of j a))))"
    by (auto simp: run_accepted_def elevate_events split: if_splits option.splits)
  have split: "evs = (if MayNotReturn (acc_spec a) (acc_params a)
      then [SpoolAttempt (provisional (new_result (ID j) started) (acc_spec a) started)] else []) @
        snd (run_accepted r j a (new_result (ID j) started) finished) \<and>
      snd (run_accepted r j a (new_result (ID j) started) finished) \<noteq> [] \<and>
      (MayNotReturn (acc_spec a) (acc_params a) \<longrightarrow>
       (\<exists>sp. Spool r = Some sp \<and> sp (provisional (new_result (ID j) started) (acc_spec a) started)))"
    using assms a by (auto simp: Run_def Let_def split: prod.splits if_splits option.splits)
  with ev obtain invoke where "Elevate r = Some invoke" "Privileged (Class (acc_spec a))"
    "snd (run_accepted r j a (new_result (ID j) started) finished) =
       HelperCall (request_of j a) # map HostEffect (snd (invoke (request_of j a)))" by blast
  with a split show thesis by (intro that [of a invoke]) auto
qed

section \<open>Properties of a run\<close>

lemma statuses_valid [simp]:
  "ValidStatus StatusSucceeded" "ValidStatus StatusFailed" "ValidStatus StatusRefusedByPolicy"
  "ValidStatus StatusRefusedUnsigned" "ValidStatus StatusRefusedClockSkew" "ValidStatus StatusUnsupportedIntent"
  "ValidStatus StatusExpired"
  by (simp_all add: ValidStatus_def statuses_def)

lemma accept_status:
  assumes "accept cr ae j h p signers online st off now = (Inl (status, reason), st')"
  shows "ValidStatus status \<and> status \<noteq> StatusSucceeded"
proof -
  have "status \<in> {StatusFailed, StatusRefusedByPolicy, StatusRefusedUnsigned, StatusRefusedClockSkew,
      StatusUnsupportedIntent, StatusExpired}"
    using assms
    by (auto simp: accept_def check_job_def check_signature_def check_replay_def check_policy_def Let_def bind_res_eq_Inl
        split: sum.splits prod.splits if_splits)
  then show ?thesis by (auto simp: go_defs intro: statuses_valid [unfolded go_defs])
qed

lemma elevate_result:
  assumes "ValidStatus (Status result) \<or> Status result = []" and "length (Output result) \<le> 65536"
  shows "ValidStatus (Status (fst (elevate r j a result finished))) \<and> JobID (fst (elevate r j a result finished)) = JobID result \<and>
    length (Output (fst (elevate r j a result finished))) \<le> 65536"
  using assms
  by (auto simp: elevate_def statusForExit_def Let_def dest!: TruncateOutput_suffix split: option.splits prod.splits sum.splits)

text \<open>Every job ends in a result: the result names the job, has one of the statuses of the
  protocol and an output within the server's limit; and a job that was not accepted had no effect
  of any kind and is not reported as succeeded.\<close>

theorem Run_reports:
  assumes "Run cr ae r j started finished = (res, st, evs)"
  shows "JobID res = ID j \<and> ValidStatus (Status res) \<and> length (Output res) \<le> 65536 \<and>
    (\<forall>status reason. fst (accepts cr ae r j started) = Inl (status, reason) \<longrightarrow>
       evs = [] \<and> Status res = status \<and> status \<noteq> StatusSucceeded)"
proof (cases "accepts cr ae r j started")
  case (Pair ans st1)
  show ?thesis
  proof (cases ans)
    case (Inl e)
    with Pair assms accept_status [of cr ae j _ _ _ _ _ _ _ "fst e" "snd e"] show ?thesis
      by (cases e) (auto simp: Run_def Let_def new_result_def)
  next
    case (Inr a)
    have el: "ValidStatus (Status (fst (elevate r j a (new_result (ID j) started) finished))) \<and>
        JobID (fst (elevate r j a (new_result (ID j) started) finished)) = ID j \<and>
        length (Output (fst (elevate r j a (new_result (ID j) started) finished))) \<le> 65536"
      using elevate_result [of "new_result (ID j) started" r j a finished] by (simp add: new_result_def)
    have rd: "ValidStatus (Status (run_read r a (new_result (ID j) started) finished)) \<and>
        JobID (run_read r a (new_result (ID j) started) finished) = ID j \<and>
        Output (run_read r a (new_result (ID j) started) finished) = []"
      by (simp add: run_read_def new_result_def split: sum.split)
    from Pair Inr assms el rd show ?thesis
      by (auto simp: Run_def Let_def run_accepted_def new_result_def split: prod.splits if_splits option.splits)
  qed
qed

text \<open>A request that decodes to parameters that may not return comes right after the result was written.\<close>

lemma call_after_spool:
  assumes "Run cr ae r j started finished = (res, st, evs)" and "HelperCall req \<in> set evs"
    and "Decode (pr_Intent req) (pr_Params req) = Inr (s, ps)" and "MayNotReturn s ps"
  shows "\<exists>prov sp effs. evs = SpoolAttempt prov # HelperCall req # map HostEffect effs \<and> Spool r = Some sp \<and> sp prov \<and>
    JobID prov = ID j \<and> Status prov = StatusSucceeded"
proof -
  have "HelperCall req \<in> set evs \<or> HostEffect eff \<in> set evs" for eff using assms(2) by simp
  then obtain a invoke where a: "accepts cr ae r j started = (Inr a, st)"
    and "Privileged (Class (acc_spec a))" "Elevate r = Some invoke" and evs: "evs = (if MayNotReturn (acc_spec a) (acc_params a)
            then [SpoolAttempt (provisional (new_result (ID j) started) (acc_spec a) started)] else []) @
       HelperCall (request_of j a) # map HostEffect (snd (invoke (request_of j a)))"
    and sp: "MayNotReturn (acc_spec a) (acc_params a) \<longrightarrow>
       (\<exists>sp. Spool r = Some sp \<and> sp (provisional (new_result (ID j) started) (acc_spec a) started))"
    by (rule Run_call [OF assms(1)])
  have req: "req = request_of j a" using assms(2) evs by (auto split: if_splits)
  have "Decode (job_Intent j) (acc_raw a) = Inr (acc_spec a, acc_params a)"
    using check_job_Inr(1) [OF accept_Inr(1) [OF a]] .
  with assms(3) req have same: "s = acc_spec a" "ps = acc_params a"
    by (auto simp: Decode_Inr spec_Name_Lookup)
  with evs req sp assms(4) show ?thesis by (auto simp: provisional_def new_result_def)
qed

text \<open>What may take the host away is on disk first: before a request that decodes to
  parameters that may not return is handed to a helper, a result for the job was written, and the
  write succeeded.\<close>

theorem spool_before_invoke:
  assumes "Run cr ae r j started finished = (res, st, evs)" and "evs = before @ HelperCall req # after"
    and "Decode (pr_Intent req) (pr_Params req) = Inr (s, ps)" and "MayNotReturn s ps"
  shows "\<exists>prov sp. before = [SpoolAttempt prov] \<and> Spool r = Some sp \<and> sp prov \<and>
    JobID prov = ID j \<and> Status prov = StatusSucceeded"
proof -
  have "HelperCall req \<in> set evs" using assms(2) by simp
  from call_after_spool [OF assms(1) this assms(3,4)] obtain prov sp effs where
    p: "evs = SpoolAttempt prov # HelperCall req # map HostEffect effs" "Spool r = Some sp" "sp prov"
      "JobID prov = ID j" "Status prov = StatusSucceeded" by blast
  with assms(2) have "before = [SpoolAttempt prov]"
    by (cases before) (auto simp: append_eq_Cons_conv map_eq_append_conv Cons_eq_append_conv)
  with p show ?thesis by blast
qed

section \<open>A reboot, run\<close>

definition reboot_job :: job where
  "reboot_job = \<lparr>ID = ''J2'', job_Intent = HostReboot, job_Params = None, job_Class = ''read'', job_IssuedAt = 0,
     NotBefore = last_second - 60 * Second, NotAfter = last_second + 60 * Second, Nonce = ''n2'',
     Signature = [], SignerKeyID = ''ops'', SignerAlgorithm = []\<rparr>"

definition sample_platform :: platform where
  "sample_platform = \<lparr>Gather = (\<lambda>_. Inr (JObj [])), UpgradableSummary = Inr (JArr []), ListUnits = Inr (JArr [], False),
     RebootRequired = Inr (JBool False)\<rparr>"

definition sample_runner :: "(priv_request \<Rightarrow> (invoke_error, helper_error response) result \<times> effect list) \<Rightarrow> runner" where
  "sample_runner ivk = \<lparr>HostID = ''H1'', run_Policy = sample_in_force, Signers = ops_keys, Online = None,
     Nonces_of = no_nonces, Platform = sample_platform, Elevate = Some ivk, ClockOffset = 0, Spool = Some (\<lambda>_. True)\<rparr>"

lemma reboot_payload: "\<exists>p. Marshal (SignedPayload reboot_job ''H1'') = Inr p"
proof -
  have "Marshal (SignedPayload reboot_job ''H1'') = Inr (sample_payload_of reboot_job)" by code_simp
  then show ?thesis by blast
qed

abbreviation reboot_crypto :: crypto where
  "reboot_crypto \<equiv> signing_only (\<lambda>p. p = sample_payload_of reboot_job)"

text \<open>The parameters of the job are absent, so that \<open>null\<close> is what is decoded.\<close>

lemma reboot_accept:
  obtains s st where
    "accepts reboot_crypto (sample_env last_second) (sample_runner ivk) (signed_with ''ops'' reboot_job) last_second =
      (Inr \<lparr>acc_spec = s, acc_params = RebootParams HostReboot 0 [], acc_raw = ''null''\<rparr>, st)"
    "Lookup HostReboot = Some s" "Decode HostReboot ''null'' = Inr (s, RebootParams HostReboot 0 [])"
    "Privileged (Class s)" "MayNotReturn s (RebootParams HostReboot 0 [])"
proof -
  let ?j = "signed_with ''ops'' reboot_job" and ?e = "sample_env last_second"
  have "decodeReboot HostReboot ''null'' = Inr (RebootParams HostReboot 0 [])" by code_simp
  then obtain s where dec: "Decode HostReboot ''null'' = Inr (s, RebootParams HostReboot 0 [])"
    using Decode_via [of HostReboot "''null''"] by (auto simp: catalogue_keys intent_names)
  then have lk: "Lookup HostReboot = Some s" by (simp add: Decode_Inr)
  then have cl: "Class s = ClassDestructive" "MayNotReturn s (RebootParams HostReboot 0 [])"
    by (cases rule: Lookup_cases; simp add: intent_names MayNotReturn_def)+
  let ?a = "\<lparr>acc_spec = s, acc_params = RebootParams HostReboot 0 [], acc_raw = ''null''\<rparr>"
  let ?st = "\<lparr>seen = Map.empty(''n2'' \<mapsto> NotAfter reboot_job), saved = NoncesSaved (Map.empty(''n2'' \<mapsto> NotAfter reboot_job))\<rparr>"
  have raw: "json_marshal (job_params_json ?j) = Inr ''null''"
  proof -
    have "json_marshal JNull = Inr ''null''" by code_simp
    then show ?thesis by (simp add: job_params_json_def reboot_job_def)
  qed
  have prof: "InProfile ProfileLinux HostReboot" by code_simp
  have "accepts reboot_crypto ?e (sample_runner ivk) ?j last_second = (Inr ?a, ?st)"
    unfolding sample_runner_def runner.simps
  proof (rule accept_destructive)
    show "check_job ?e ?j 0 last_second = Inr ?a"
      by (rule check_job_ok) (use raw dec prof in \<open>simp_all add: reboot_job_def sample_env_def Second_def\<close>)
    show "verifyOfflineSignature reboot_crypto ?j ''H1'' ops_keys = Inr ()"
      using reboot_payload by (auto intro!: ops_verifies simp: reboot_job_def sample_payload_of_def)
    show "Check no_nonces (Nonce ?j) (NotAfter ?j) (ae_check_now ?e) (ae_written ?e) = (Inr False, ?st)"
      by (simp add: Check_def no_nonces_def reboot_job_def sample_env_def last_second_def Second_def prune_def Let_def)
    have "Contains (p_window sample_in_force) last_second" by code_simp
    moreover have "Reboot (Updates sample_in_force) = RebootWindow" by (simp add: sample_in_force_def)
    ultimately show "Allowed (Decide sample_in_force \<lparr>req_Intent = job_Intent ?j, req_Params = Some (acc_params ?a),
        IssuedAt = NotBefore ?j\<rparr> \<lparr>Now = last_second, Paused = ae_paused ?e\<rparr>)"
      by (intro Decide_permits)
        (simp_all add: permitted_def reboot_ok_def reboot_job_def sample_env_def age_ok_def maxAge_def sample_in_force_def
          default_raw_def duration_mul_def wrap64_mod time_sub_def int64_min_def int64_max_def Second_def last_second_def
          Endpoint_def endpoints_def intent_names)
  qed (use cl in \<open>simp_all add: reboot_job_def last_second_def Second_def\<close>)
  with lk dec cl show thesis by (intro that) (auto simp: Privileged_def)
qed

lemma reboot_run:
  obtains res st prov s where
    "Run reboot_crypto (sample_env last_second) (sample_runner ivk) (signed_with ''ops'' reboot_job) last_second t =
      (res, st, SpoolAttempt prov # HelperCall \<lparr>pr_JobID = ''J2'', pr_Intent = HostReboot, pr_Params = ''null'',
          pr_IssuedAt = NotBefore reboot_job\<rparr> #
        map HostEffect (snd (ivk \<lparr>pr_JobID = ''J2'', pr_Intent = HostReboot, pr_Params = ''null'',
          pr_IssuedAt = NotBefore reboot_job\<rparr>)))"
    "Decode HostReboot ''null'' = Inr (s, RebootParams HostReboot 0 [])" "MayNotReturn s (RebootParams HostReboot 0 [])"
proof -
  let ?j = "signed_with ''ops'' reboot_job"
  have nb: "NotBefore reboot_job \<noteq> 0" by (simp add: reboot_job_def last_second_def Second_def)
  have j: "ID ?j = ''J2''" "effectiveIssueTime ?j = NotBefore reboot_job"
    using nb by (simp_all add: effectiveIssueTime_def signed_with_def reboot_job_def)
  show thesis
  proof (rule reboot_accept [of ivk])
    fix s st
    assume a: "accepts reboot_crypto (sample_env last_second) (sample_runner ivk) ?j last_second =
        (Inr \<lparr>acc_spec = s, acc_params = RebootParams HostReboot 0 [], acc_raw = ''null''\<rparr>, st)"
      and s: "Lookup HostReboot = Some s" "Decode HostReboot ''null'' = Inr (s, RebootParams HostReboot 0 [])"
        "Privileged (Class s)" "MayNotReturn s (RebootParams HostReboot 0 [])"
    have n: "spec_Name s = HostReboot" using s(1) by (rule spec_Name_Lookup)
    let ?a = "\<lparr>acc_spec = s, acc_params = RebootParams HostReboot 0 [], acc_raw = ''null''\<rparr>"
    obtain res evs where e: "elevate (sample_runner ivk) ?j ?a (new_result ''J2'' last_second) t = (res, evs)" by fastforce
    have "evs = HelperCall \<lparr>pr_JobID = ''J2'', pr_Intent = HostReboot, pr_Params = ''null'', pr_IssuedAt = NotBefore reboot_job\<rparr> #
        map HostEffect (snd (ivk \<lparr>pr_JobID = ''J2'', pr_Intent = HostReboot, pr_Params = ''null'', pr_IssuedAt = NotBefore reboot_job\<rparr>))"
      using elevate_events [of "sample_runner ivk" ?j ?a "new_result ''J2'' last_second" t] e j n by (simp add: sample_runner_def)
    moreover have "Spool (sample_runner ivk) = Some (\<lambda>_. True)" by (simp add: sample_runner_def)
    ultimately show thesis
      using a s e j by (intro that [of res st "provisional (new_result ''J2'' last_second) s last_second" s])
        (simp_all add: Run_def run_accepted_def Let_def)
  qed
qed

theorem spool_before_invoke_witness:
  "\<exists>res st prov req. Run reboot_crypto (sample_env last_second) (sample_runner (\<lambda>_. (Inl InvokeFailed, [])))
      (signed_with ''ops'' reboot_job) last_second last_second = (res, st, [SpoolAttempt prov, HelperCall req]) \<and>
     JobID prov = ''J2'' \<and> Status prov = StatusSucceeded"
proof (rule reboot_run [of "\<lambda>_. (Inl InvokeFailed, [])" last_second])
  fix res st prov s
  let ?run = "Run reboot_crypto (sample_env last_second) (sample_runner (\<lambda>_. (Inl InvokeFailed, [])))
      (signed_with ''ops'' reboot_job) last_second last_second"
  let ?req = "\<lparr>pr_JobID = ''J2'', pr_Intent = HostReboot, pr_Params = ''null'', pr_IssuedAt = NotBefore reboot_job\<rparr>"
  assume "?run = (res, st, SpoolAttempt prov # HelperCall ?req # map HostEffect (snd (Inl InvokeFailed, [])))"
    and d: "Decode HostReboot ''null'' = Inr (s, RebootParams HostReboot 0 [])" "MayNotReturn s (RebootParams HostReboot 0 [])"
  then have r: "?run = (res, st, [SpoolAttempt prov, HelperCall ?req])" by simp
  have j: "ID (signed_with ''ops'' reboot_job) = ''J2''" by (simp add: signed_with_def reboot_job_def)
  from spool_before_invoke [OF r, of "[SpoolAttempt prov]" ?req "[]"] d j
  have "JobID prov = ''J2'' \<and> Status prov = StatusSucceeded" by auto
  with r show ?thesis by blast
qed

theorem Run_reports_witness:
  "\<exists>res st. Run reboot_crypto (sample_env 1) (sample_runner (\<lambda>_. (Inl InvokeFailed, [])))
      (reboot_job\<lparr>job_Intent := ''shell.exec''\<rparr>) 1 2 = (res, st, []) \<and> JobID res = ''J2'' \<and> Status res = StatusUnsupportedIntent"
proof -
  let ?j = "reboot_job\<lparr>job_Intent := ''shell.exec''\<rparr>" and ?r = "sample_runner (\<lambda>_. (Inl InvokeFailed, []))"
  have "json_marshal JNull = Inr ''null''" by code_simp
  moreover have "Lookup ''shell.exec'' = None" by code_simp
  ultimately have a: "accepts reboot_crypto (sample_env 1) ?r ?j 1 =
      (Inl (StatusUnsupportedIntent, IntentRefused ''shell.exec'' (UnknownIntent ''shell.exec'')), no_nonces)"
    by (simp add: accept_def check_job_def job_params_json_def reboot_job_def Decode_def sample_runner_def)
  obtain res st evs where r: "Run reboot_crypto (sample_env 1) ?r ?j 1 2 = (res, st, evs)" by (metis prod_cases3)
  from Run_reports [OF r] a r show ?thesis by (auto simp: reboot_job_def)
qed

end
