(* ===== verification/Replay.thy ===== *)
theory Replay
  imports Acceptance "HOL-Library.Sublist"
begin

text \<open>
  Replay across the life of an agent. The agent's configuration is the nonce store with its clock, as in
  \<open>Nonces\<close>, and the privileged jobs it accepted, newest first. Jobs of any content arrive in any order, the
  policy and the trust anchors may change between them, and the agent may be restarted at any point.
  Every step is simulated by steps of the nonce store, whose invariant then bounds what can be
  accepted twice.
\<close>

section \<open>Runs of the agent\<close>

text \<open>An accepted job with the instants at which its window and its nonce were checked.\<close>

type_synonym acceptance = "job \<times> instant \<times> instant"

record agent_cfg =
  ag_run :: nonce_run
  ag_done :: "acceptance list"

definition record_of :: "acceptance \<Rightarrow> bytes \<times> instant \<times> instant" where
  "record_of x = (case x of (j, now, t) \<Rightarrow> (Nonce j, NotAfter j, t))"

definition privileged_acceptance :: "(bytes \<times> reject, accepted_job) result \<Rightarrow> bool" where
  "privileged_acceptance ans = (case ans of Inl _ \<Rightarrow> False | Inr a \<Rightarrow> Privileged (Class (acc_spec a)))"

text \<open>What \<open>accept\<close> does to the nonce store, seen as a run of the store.\<close>

definition after_accept :: "nonce_run \<Rightarrow> nonce_state \<Rightarrow> instant \<Rightarrow> job \<Rightarrow> nonce_run" where
  "after_accept c st t j =
     (if seen (store c) (Nonce j) = None \<and> seen st (Nonce j) \<noteq> None
      then c\<lparr>clock := t, store := st, accepted := (Nonce j, NotAfter j, t) # accepted c\<rparr>
      else c\<lparr>clock := t, store := st\<rparr>)"

inductive agent_step :: "crypto \<Rightarrow> bytes \<Rightarrow> agent_cfg \<Rightarrow> agent_cfg \<Rightarrow> bool" for cr hostID where
  wait: "clock (ag_run c) \<le> t \<Longrightarrow> agent_step cr hostID c (c\<lparr>ag_run := (ag_run c)\<lparr>clock := t\<rparr>\<rparr>)"
| job: "accept cr ae j hostID p signers online (store (ag_run c)) off (clock (ag_run c)) = (ans, st) \<Longrightarrow>
    clock (ag_run c) \<le> ae_check_now ae \<Longrightarrow>
    agent_step cr hostID c \<lparr>ag_run = after_accept (ag_run c) st (ae_check_now ae) j,
      ag_done = (if privileged_acceptance ans then [(j, clock (ag_run c), ae_check_now ae)] else []) @ ag_done c\<rparr>"
| restart: "LoadNonceStore (saved (store (ag_run c))) (clock (ag_run c)) = Some m \<Longrightarrow>
    agent_step cr hostID c (c\<lparr>ag_run := (ag_run c)\<lparr>store := (store (ag_run c))\<lparr>seen := m\<rparr>\<rparr>\<rparr>)"

inductive agent_reach :: "crypto \<Rightarrow> bytes \<Rightarrow> agent_cfg \<Rightarrow> agent_cfg \<Rightarrow> bool" for cr hostID c0 where
  here: "agent_reach cr hostID c0 c0"
| more: "agent_reach cr hostID c0 c \<Longrightarrow> agent_step cr hostID c c' \<Longrightarrow> agent_reach cr hostID c0 c'"

section \<open>The simulation\<close>

lemma accept_store:
  assumes "accept cr ae j h p signers online st off now = (ans, st')"
  shows "st' = st \<or> (\<exists>r. Check st (Nonce j) (NotAfter j) (ae_check_now ae) (ae_written ae) = (r, st'))"
  using assms by (auto simp: accept_def check_replay_def split: sum.splits prod.splits if_splits)

lemma Check_learns:
  assumes "Check st n e now w = (r, st')" and "seen st n = None" and "seen st' n \<noteq> None"
  shows "r = Inr False"
  using assms by (cases w) (auto simp: Check_def prune_def Let_def split: if_splits)

lemma Check_forgets:
  assumes "Check st n e now w = (r, st')" and "\<not> (seen st n = None \<and> seen st' n \<noteq> None)"
  shows "r \<noteq> Inr False"
  using assms by (auto simp: Check_fresh_iff)

text \<open>Processing a job is the passing of time and at most one check.\<close>

lemma after_accept_reach:
  assumes "accept cr ae j h p signers online (store c) off now = (ans, st)" and "clock c \<le> ae_check_now ae"
  shows "nonce_reach c (after_accept c st (ae_check_now ae) j)"
proof -
  let ?c = "c\<lparr>clock := ae_check_now ae\<rparr>"
  have t: "nonce_reach c ?c"
    using nonce_reach.step [OF nonce_reach.start nonce_step.tick [OF assms(2)]] .
  from accept_store [OF assms(1)] show ?thesis
  proof
    assume "st = store c"
    then have "after_accept c st (ae_check_now ae) j = ?c" by (auto simp: after_accept_def)
    with t show ?thesis by simp
  next
    assume "\<exists>r. Check (store c) (Nonce j) (NotAfter j) (ae_check_now ae) (ae_written ae) = (r, st)"
    then obtain r where ck: "Check (store ?c) (Nonce j) (NotAfter j) (clock ?c) (ae_written ae) = (r, st)" by auto
    have "nonce_step ?c (after_accept c st (ae_check_now ae) j)"
    proof (cases "seen (store c) (Nonce j) = None \<and> seen st (Nonce j) \<noteq> None")
      case True
      then have "r = Inr False" using Check_learns [OF ck] by simp
      with nonce_step.check_fresh [of ?c "Nonce j" "NotAfter j" "ae_written ae" st] ck True show ?thesis
        by (simp add: after_accept_def)
    next
      case False
      then have "r \<noteq> Inr False" using Check_forgets [OF ck] by simp
      from nonce_step.check_other [OF ck this] False show ?thesis by (auto simp: after_accept_def)
    qed
    with t show ?thesis by (rule nonce_reach.step)
  qed
qed

lemma nonce_reach_trans: "nonce_reach b c \<Longrightarrow> nonce_reach a b \<Longrightarrow> nonce_reach a c"
  by (induction rule: nonce_reach.induct) (auto intro: nonce_reach.step)

lemma agent_step_simulated: "agent_step cr h c c' \<Longrightarrow> nonce_reach (ag_run c) (ag_run c')"
  by (induction rule: agent_step.induct)
    (auto intro: after_accept_reach nonce_reach.step [OF nonce_reach.start] nonce_step.intros)

text \<open>Every accepted job is one of the store's acceptances, in the same order.\<close>

lemma agent_step_done:
  assumes "agent_step cr h c c'" and "subseq (map record_of (ag_done c)) (accepted (ag_run c))"
  shows "subseq (map record_of (ag_done c')) (accepted (ag_run c'))"
  using assms(1)
proof cases
  case (job ae j p signers online off ans st)
  show ?thesis
  proof (cases "privileged_acceptance ans")
    case True
    then obtain a where "ans = Inr a" "Privileged (Class (acc_spec a))"
      by (auto simp: privileged_acceptance_def split: sum.splits)
    with job accept_facts(7,8) [of cr ae j h p signers online _ off _ a st]
    have "seen (store (ag_run c)) (Nonce j) = None" "seen st (Nonce j) \<noteq> None" by auto
    with job True assms(2) show ?thesis by (simp add: after_accept_def record_of_def)
  next
    case False
    with job assms(2) show ?thesis by (auto simp: after_accept_def)
  qed
qed (use assms(2) in auto)

definition fresh_agent :: "instant \<Rightarrow> agent_cfg" where
  "fresh_agent t = \<lparr>ag_run = fresh_run t, ag_done = []\<rparr>"

lemma agent_reach_inv:
  assumes "agent_reach cr h (fresh_agent t0) c"
  shows "nonce_reach (fresh_run t0) (ag_run c) \<and> subseq (map record_of (ag_done c)) (accepted (ag_run c)) \<and>
    (\<forall>(j, now, t) \<in> set (ag_done c). now \<le> NotAfter j)"
  using assms
proof (induction rule: agent_reach.induct)
  case here
  show ?case by (simp add: fresh_agent_def nonce_reach.start)
next
  case (more c c')
  have "\<forall>(j, now, t) \<in> set (ag_done c'). now \<le> NotAfter j"
    using more.hyps(2)
  proof cases
    case (job ae j p signers online off ans st)
    then show ?thesis
      using more.IH accept_facts(4) [of cr ae j h p signers online _ off _ _ st]
      by (auto simp: privileged_acceptance_def split: sum.splits)
  qed (use more.IH in auto)
  with more agent_step_simulated [OF more.hyps(2)] agent_step_done [OF more.hyps(2)] show ?case
    by (blast intro: nonce_reach_trans)
qed

lemma subseq_subset: "subseq xs ys \<Longrightarrow> set xs \<subseteq> set ys"
  by (auto elim: list_emb_set)

lemma no_replay_subseq: "subseq xs ys \<Longrightarrow> no_replay ys \<Longrightarrow> no_replay xs"
proof (induction rule: list_emb.induct)
  case (list_emb_Cons2 x y xs ys)
  then show ?case using subseq_subset [of xs ys] by (cases x; cases y) auto
qed (auto elim: no_replay.elims)

lemma no_replay_nth: "no_replay (xs @ (n, e2, t2) # ys @ (n, e1, t1) # zs) \<Longrightarrow> e1 \<le> t2"
  by (induction xs) auto

section \<open>Properties\<close>

text \<open>Property C4: over the whole life of an agent, through restarts and whatever arrives, when two
  accepted privileged jobs carry the same nonce, the earlier one had expired when the nonce of the later
  one was checked. In particular a job delivered again unchanged is accepted again only if its expiry falls
  between the two readings of the clock that one acceptance makes.\<close>

theorem signed_job_runs_once:
  assumes "agent_reach cr h (fresh_agent t0) c"
    and "ag_done c = xs @ (j2, now2, t2) # ys @ (j1, now1, t1) # zs" and "Nonce j2 = Nonce j1"
  shows "NotAfter j1 \<le> t2 \<and> (NotAfter j2 = NotAfter j1 \<longrightarrow> now2 \<le> NotAfter j1 \<and> NotAfter j1 \<le> t2)"
proof -
  from agent_reach_inv [OF assms(1)] have n: "nonce_reach (fresh_run t0) (ag_run c)"
    "subseq (map record_of (ag_done c)) (accepted (ag_run c))" and w: "\<forall>(j, now, t) \<in> set (ag_done c). now \<le> NotAfter j"
    by auto
  from nonce_inv_reach [OF n(1)] have "no_replay (accepted (ag_run c))"
    by (simp add: nonce_inv_def fresh_run_def)
  from no_replay_subseq [OF n(2) this] assms(2,3)
  have "no_replay (map record_of xs @ (Nonce j1, NotAfter j2, t2) # map record_of ys @ (Nonce j1, NotAfter j1, t1) # map record_of zs)"
    by (simp add: record_of_def)
  then have "NotAfter j1 \<le> t2" by (rule no_replay_nth)
  moreover have "now2 \<le> NotAfter j2" using w assms(2) by auto
  ultimately show ?thesis by simp
qed

text \<open>The restart of \<open>restart_job\<close>, delivered with its expiry changed inside the same second: the signature
  covers the expiry to the second only.\<close>

definition redelivered :: job where
  "redelivered = restart_job\<lparr>NotAfter := 63902909399 * Second + 500000000\<rparr>"

lemma redelivered_payload: "SignedPayload redelivered h = SignedPayload restart_job h"
proof -
  have "(63902909399 * Second + 500000000) div Second = (63902909399 * Second) div Second" by (simp add: Second_def)
  then show ?thesis by (simp add: redelivered_def restart_job_def SignedPayload_def format_rfc3339_def)
qed

definition expiry :: instant where "expiry = 63902909399 * Second"

abbreviation remembered :: "instant \<Rightarrow> nonce_state" where
  "remembered e \<equiv> \<lparr>seen = Map.empty(''n7'' \<mapsto> e), saved = NoncesSaved (Map.empty(''n7'' \<mapsto> e))\<rparr>"

lemma first_delivery:
  "accept_sample (signed_with ''ops'' restart_job) ops_keys None no_nonces day1 = (Inr restart_accepted, remembered expiry)"
  using restart_accept [of restart_job day1 no_nonces None]
  by (simp add: restart_job_def day1_def Second_def no_nonces_def expiry_def Let_def prune_def)

lemma second_delivery:
  "accept_sample (signed_with ''ops'' redelivered) ops_keys None \<lparr>seen = Map.empty, saved = NoncesSaved (Map.empty(''n7'' \<mapsto> expiry))\<rparr>
     (expiry + 250000000) = (Inr restart_accepted, remembered (expiry + 500000000))"
  using restart_accept [of redelivered "expiry + 250000000" "\<lparr>seen = Map.empty, saved = NoncesSaved (Map.empty(''n7'' \<mapsto> expiry))\<rparr>" None,
      OF redelivered_payload]
  by (simp add: redelivered_def restart_job_def Second_def expiry_def Let_def prune_def)

lemma replayed_run:
  "agent_reach ops_crypto ''H1'' (fresh_agent day1)
     \<lparr>ag_run = \<lparr>store = remembered (expiry + 500000000), clock = expiry + 250000000,
        accepted = [(''n7'', expiry + 500000000, expiry + 250000000), (''n7'', expiry, day1)]\<rparr>,
      ag_done = [(signed_with ''ops'' redelivered, expiry + 250000000, expiry + 250000000), (signed_with ''ops'' restart_job, day1, day1)]\<rparr>"
proof -
  have priv: "Privileged (Class (acc_spec restart_accepted))" using restart_decodes(3) by (simp add: Privileged_def)
  let ?d1 = "[(signed_with ''ops'' restart_job, day1, day1)]"
  let ?c1 = "\<lparr>ag_run = \<lparr>store = remembered expiry, clock = day1, accepted = [(''n7'', expiry, day1)]\<rparr>, ag_done = ?d1\<rparr>"
  let ?c2 = "\<lparr>ag_run = \<lparr>store = remembered expiry, clock = expiry + 250000000, accepted = [(''n7'', expiry, day1)]\<rparr>, ag_done = ?d1\<rparr>"
  let ?c3 = "\<lparr>ag_run = \<lparr>store = \<lparr>seen = Map.empty, saved = NoncesSaved (Map.empty(''n7'' \<mapsto> expiry))\<rparr>,
      clock = expiry + 250000000, accepted = [(''n7'', expiry, day1)]\<rparr>, ag_done = ?d1\<rparr>"
  have e: "day1 \<le> expiry + 250000000" by (simp add: day1_def expiry_def Second_def)
  have "agent_step ops_crypto ''H1'' (fresh_agent day1) ?c1"
    using agent_step.job [of ops_crypto "sample_env day1" "signed_with ''ops'' restart_job" "''H1''" "sample_policy [''nginx.*'']" ops_keys None
        "fresh_agent day1" 0 "Inr restart_accepted" "remembered expiry"] first_delivery priv
    by (simp add: fresh_agent_def fresh_run_def no_nonces_def sample_env_def after_accept_def privileged_acceptance_def
        restart_job_def expiry_def)
  moreover have "agent_step ops_crypto ''H1'' ?c1 ?c2"
    using agent_step.wait [of ?c1 "expiry + 250000000" ops_crypto "''H1''"] e by simp
  moreover have "agent_step ops_crypto ''H1'' ?c2 ?c3"
    using agent_step.restart [of ?c2 Map.empty ops_crypto "''H1''"]
    by (simp add: LoadNonceStore_def prune_def fun_eq_iff)
  moreover have "agent_step ops_crypto ''H1'' ?c3
     \<lparr>ag_run = \<lparr>store = remembered (expiry + 500000000), clock = expiry + 250000000,
        accepted = [(''n7'', expiry + 500000000, expiry + 250000000), (''n7'', expiry, day1)]\<rparr>,
      ag_done = (signed_with ''ops'' redelivered, expiry + 250000000, expiry + 250000000) # ?d1\<rparr>"
    using agent_step.job [of ops_crypto "sample_env (expiry + 250000000)" "signed_with ''ops'' redelivered" "''H1''"
        "sample_policy [''nginx.*'']" ops_keys None ?c3 0 "Inr restart_accepted" "remembered (expiry + 500000000)"] second_delivery priv
    by (simp add: sample_env_def after_accept_def privileged_acceptance_def redelivered_def restart_job_def expiry_def)
  ultimately show ?thesis
    by (intro agent_reach.more [OF agent_reach.more [OF agent_reach.more [OF agent_reach.more [OF agent_reach.here]]]])
qed

theorem signed_job_runs_once_witness:
  "NotAfter (signed_with ''ops'' restart_job) \<le> expiry + 250000000"
  using signed_job_runs_once [OF replayed_run, of "[]" "signed_with ''ops'' redelivered" "expiry + 250000000"
      "expiry + 250000000" "[]" "signed_with ''ops'' restart_job" day1 day1 "[]"]
  by (simp add: redelivered_def restart_job_def)

text \<open>One signature can be used twice. The signed payload has the expiry to the second, the nonce
  record expires at the delivered one: a control plane that delivers a signed job again with its expiry moved
  by a fraction of a second, after the record has lapsed and while the moved expiry lies ahead, has it
  accepted a second time with the same signature.\<close>

theorem subsecond_replay:
  "\<exists>c j1 j2. agent_reach ops_crypto ''H1'' (fresh_agent day1) c \<and> map fst (ag_done c) = [j2, j1] \<and>
     Signature j2 = Signature j1 \<and> SignedPayload j2 ''H1'' = SignedPayload j1 ''H1'' \<and> Nonce j2 = Nonce j1"
proof -
  have "Signature (signed_with ''ops'' redelivered) = Signature (signed_with ''ops'' restart_job)"
    using redelivered_payload [of "''H1''"] by (simp add: signed_with_def sample_payload_of_def)
  moreover have "Nonce redelivered = Nonce restart_job" by (simp add: redelivered_def)
  ultimately show ?thesis using replayed_run redelivered_payload [of "''H1''"]
    by (intro exI conjI) (assumption | simp)+
qed

end
