(* ===== verification/GoMap.thy ===== *)
theory GoMap
  imports HS_Prelude "HOL-Library.DAList" "HOL-Library.Multiset"
begin

text \<open>
  Go's maps and \<open>sort.Slice\<close>, as the store uses them. A map is an association list with distinct
  keys (\<open>alist\<close> of the library); the order of the list is the order a \<open>range\<close> loop meets the entries
  in, which Go leaves open. A loop that deletes entries is \<open>sweep\<close>, one that rewrites them is
  \<open>rewrite\<close>, one that counts or collects them works on \<open>entries\<close>. The part of a map a tenant
  owns is \<open>owned\<close>, and the laws of \<open>owned\<close> are what the isolation proofs rest on.
\<close>

section \<open>Maps\<close>

type_synonym ('k, 'v) gomap = "('k, 'v) alist"

abbreviation get :: "('k, 'v) gomap \<Rightarrow> 'k \<Rightarrow> 'v option" where
  "get \<equiv> DAList.lookup"

abbreviation put :: "'k \<Rightarrow> 'v \<Rightarrow> ('k, 'v) gomap \<Rightarrow> ('k, 'v) gomap" where
  "put \<equiv> DAList.update"

abbreviation del :: "'k \<Rightarrow> ('k, 'v) gomap \<Rightarrow> ('k, 'v) gomap" where
  "del \<equiv> DAList.delete"

abbreviation entries :: "('k, 'v) gomap \<Rightarrow> ('k \<times> 'v) list" where
  "entries \<equiv> DAList.impl_of"

abbreviation no_entries :: "('k, 'v) gomap" where
  "no_entries \<equiv> DAList.empty"

text \<open>A loop that deletes every entry satisfying a condition.\<close>

definition sweep :: "('k \<Rightarrow> 'v \<Rightarrow> bool) \<Rightarrow> ('k, 'v) gomap \<Rightarrow> ('k, 'v) gomap" where
  "sweep P m = DAList.filter (\<lambda>(k, v). \<not> P k v) m"

text \<open>A loop that replaces the value of every entry.\<close>

lift_definition rewrite :: "('k \<Rightarrow> 'v \<Rightarrow> 'v) \<Rightarrow> ('k, 'v) gomap \<Rightarrow> ('k, 'v) gomap"
  is AList.map_ran
  by (simp add: distinct_map_ran)

text \<open>How many entries a counting loop counts, and whether some entry satisfies a condition.\<close>

definition count_if :: "('k \<Rightarrow> 'v \<Rightarrow> bool) \<Rightarrow> ('k, 'v) gomap \<Rightarrow> nat" where
  "count_if P m = length (List.filter (\<lambda>(k, v). P k v) (entries m))"

definition any_entry :: "('k \<Rightarrow> 'v \<Rightarrow> bool) \<Rightarrow> ('k, 'v) gomap \<Rightarrow> bool" where
  "any_entry P m \<longleftrightarrow> list_ex (\<lambda>(k, v). P k v) (entries m)"

text \<open>The entry a loop returns that stops at the first entry satisfying a condition.\<close>

definition first_entry :: "('k \<Rightarrow> 'v \<Rightarrow> bool) \<Rightarrow> ('k, 'v) gomap \<Rightarrow> 'v option" where
  "first_entry P m = map_option snd (List.find (\<lambda>(k, v). P k v) (entries m))"

text \<open>The values a collecting loop collects.\<close>

definition collect_if :: "('k \<Rightarrow> 'v \<Rightarrow> bool) \<Rightarrow> ('k, 'v) gomap \<Rightarrow> 'v list" where
  "collect_if P m = List.map snd (List.filter (\<lambda>(k, v). P k v) (entries m))"

lemma get_iff: "get m k = Some v \<longleftrightarrow> (k, v) \<in> set (entries m)"
  by transfer (simp add: map_of_eq_Some_iff)

lemma entries_put: "entries (put k v m) = AList.update k v (entries m)"
  by transfer simp

lemma get_put: "get (put k v m) k' = (if k' = k then Some v else get m k')"
  by (simp add: lookup_update)

lemma map_of_sweep: "distinct (map fst xs) \<Longrightarrow>
    map_of (List.filter (\<lambda>(k, v). \<not> P k v) xs) k =
    (case map_of xs k of None \<Rightarrow> None | Some v \<Rightarrow> if P k v then None else Some v)"
proof (induction xs)
  case (Cons e xs)
  obtain k' v where "e = (k', v)" by (cases e)
  moreover have "k' = k \<Longrightarrow> map_of xs k = None"
    using Cons.prems \<open>e = (k', v)\<close> by (auto simp: map_of_eq_None_iff)
  ultimately show ?case using Cons by (cases "k' = k") simp_all
qed simp

lemma get_sweep: "get (sweep P m) k =
    (case get m k of None \<Rightarrow> None | Some v \<Rightarrow> if P k v then None else Some v)"
  unfolding sweep_def DAList.lookup.rep_eq DAList.filter.rep_eq by (rule map_of_sweep) simp

lemma get_rewrite: "get (rewrite f m) k = map_option (f k) (get m k)"
  by transfer (rule map_ran_conv)

lemma get_sweep_Some: "get (sweep P m) k = Some v \<longleftrightarrow> get m k = Some v \<and> \<not> P k v"
  by (auto simp: get_sweep split: option.splits)

lemma any_entry_iff: "any_entry P m \<longleftrightarrow> (\<exists>k v. get m k = Some v \<and> P k v)"
  by (auto simp: any_entry_def list_ex_iff get_iff)

lemma first_entry_Some: "first_entry P m = Some v \<Longrightarrow> \<exists>k. get m k = Some v \<and> P k v"
  by (auto simp: first_entry_def find_Some_iff get_iff) (metis nth_mem)

lemma first_entry_None: "first_entry P m = None \<longleftrightarrow> \<not> any_entry P m"
  by (auto simp: first_entry_def find_None_iff any_entry_def list_ex_iff)

lemma first_entry_unique:
  assumes "get m k = Some v" "P k v"
    and unique: "\<And>k' v'. get m k' = Some v' \<Longrightarrow> P k' v' \<Longrightarrow> k' = k"
  shows "first_entry P m = Some v"
proof (cases "first_entry P m")
  case None
  with assms(1,2) show ?thesis by (auto simp: first_entry_None any_entry_iff)
next
  case (Some v')
  then obtain k' where "get m k' = Some v'" "P k' v'" using first_entry_Some by fast
  with unique assms(1) Some show ?thesis by force
qed

lemma set_collect_if: "set (collect_if P m) = {v. \<exists>k. get m k = Some v \<and> P k v}"
  by (force simp: collect_if_def get_iff)

lemma count_if_card: "count_if P m = card {k. \<exists>v. get m k = Some v \<and> P k v}"
proof -
  have "distinct (map fst (List.filter (\<lambda>(k, v). P k v) (entries m)))"
    by (rule distinct_map_fst_filter) simp
  then have "count_if P m = card (set (map fst (List.filter (\<lambda>(k, v). P k v) (entries m))))"
    unfolding count_if_def by (metis distinct_card length_map)
  also have "set (map fst (List.filter (\<lambda>(k, v). P k v) (entries m))) = {k. \<exists>v. get m k = Some v \<and> P k v}"
    by (force simp: get_iff)
  finally show ?thesis .
qed

lemma finite_counted: "finite {k. \<exists>v. get m k = Some v \<and> P k v}"
proof (rule finite_subset)
  show "{k. \<exists>v. get m k = Some v \<and> P k v} \<subseteq> fst ` set (entries m)" by (force simp: get_iff)
qed simp

lemma count_if_mono:
  assumes "\<And>k v. get m k = Some v \<Longrightarrow> P k v \<Longrightarrow> \<exists>v'. get m' k = Some v' \<and> Q k v'"
  shows "count_if P m \<le> count_if Q m'"
  unfolding count_if_card by (rule card_mono [OF finite_counted]) (use assms in blast)

lemma count_if_put_le: "count_if P (put k v m) \<le> Suc (count_if P m)"
proof -
  have "{k'. \<exists>v'. get (put k v m) k' = Some v' \<and> P k' v'} \<subseteq>
        insert k {k'. \<exists>v'. get m k' = Some v' \<and> P k' v'}"
    by (auto simp: get_put)
  then have "count_if P (put k v m) \<le> card (insert k {k'. \<exists>v'. get m k' = Some v' \<and> P k' v'})"
    unfolding count_if_card by (rule card_mono [OF finite.insertI [OF finite_counted]])
  also have "\<dots> \<le> Suc (count_if P m)"
    unfolding count_if_card by (rule card_insert_le_m1) auto
  finally show ?thesis .
qed

section \<open>The owned part of a map\<close>

definition owned :: "('k \<Rightarrow> 'v \<Rightarrow> bool) \<Rightarrow> ('k, 'v) gomap \<Rightarrow> ('k \<rightharpoonup> 'v)" where
  "owned P m = (\<lambda>k. case get m k of None \<Rightarrow> None | Some v \<Rightarrow> if P k v then Some v else None)"

lemma owned_Some: "owned P m k = Some v \<longleftrightarrow> get m k = Some v \<and> P k v"
  by (auto simp: owned_def split: option.splits)

lemma owned_eq_iff:
  "owned P m = owned P m' \<longleftrightarrow> (\<forall>k v. P k v \<longrightarrow> get m k = Some v \<longleftrightarrow> get m' k = Some v)"
proof
  assume eq: "\<forall>k v. P k v \<longrightarrow> get m k = Some v \<longleftrightarrow> get m' k = Some v"
  show "owned P m = owned P m'"
  proof
    fix k
    show "owned P m k = owned P m' k"
      using eq by (cases "owned P m k"; cases "owned P m' k") (metis owned_Some option.distinct(1) option.inject)+
  qed
qed (metis owned_Some)

lemma owned_put_other:
  "\<not> P k v \<Longrightarrow> (\<And>w. get m k = Some w \<Longrightarrow> \<not> P k w) \<Longrightarrow> owned P (put k v m) = owned P m"
  by (auto simp: owned_def get_put fun_eq_iff split: option.splits)

lemma owned_del_other:
  "(\<And>w. get m k = Some w \<Longrightarrow> \<not> P k w) \<Longrightarrow> owned P (del k m) = owned P m"
  by (auto simp: owned_def fun_eq_iff split: option.splits)

lemma owned_sweep_other:
  "(\<And>k v. get m k = Some v \<Longrightarrow> Q k v \<Longrightarrow> \<not> P k v) \<Longrightarrow> owned P (sweep Q m) = owned P m"
  by (auto simp: owned_def get_sweep fun_eq_iff split: option.splits)

lemma owned_rewrite_other:
  "(\<And>k v. get m k = Some v \<Longrightarrow> P k (f k v) \<longleftrightarrow> P k v) \<Longrightarrow>
   (\<And>k v. get m k = Some v \<Longrightarrow> P k v \<Longrightarrow> f k v = v) \<Longrightarrow> owned P (rewrite f m) = owned P m"
  by (auto simp: owned_def get_rewrite fun_eq_iff split: option.splits)

lemmas owned_other = owned_put_other owned_del_other owned_sweep_other owned_rewrite_other

lemma owned_sweep_all: "(\<And>k v. P k v \<Longrightarrow> Q k v) \<Longrightarrow> owned P (sweep Q m) = Map.empty"
  by (auto simp: owned_def get_sweep fun_eq_iff split: option.splits)

text \<open>What a loop over the owned entries sees is determined by the owned part.\<close>

lemma any_entry_owned:
  "(\<And>k v. Q k v \<Longrightarrow> P k v) \<Longrightarrow> owned P m = owned P m' \<Longrightarrow> any_entry Q m = any_entry Q m'"
  unfolding any_entry_iff owned_eq_iff by metis

lemma count_if_owned:
  "(\<And>k v. Q k v \<Longrightarrow> P k v) \<Longrightarrow> owned P m = owned P m' \<Longrightarrow> count_if Q m = count_if Q m'"
  unfolding count_if_card owned_eq_iff by metis

lemma mset_collect_owned:
  assumes "\<And>k v. Q k v \<Longrightarrow> P k v" "owned P m = owned P m'"
  shows "mset (collect_if Q m) = mset (collect_if Q m')"
proof -
  have distinct: "distinct (List.filter (\<lambda>(k, v). Q k v) (entries x))" for x :: "('a, 'b) gomap"
    using impl_of_distinct [of x] by (intro distinct_filter) (simp add: distinct_map)
  have "set (List.filter (\<lambda>(k, v). Q k v) (entries m)) = set (List.filter (\<lambda>(k, v). Q k v) (entries m'))"
    using assms unfolding owned_eq_iff by (auto simp: get_iff)
  then have "mset (List.filter (\<lambda>(k, v). Q k v) (entries m)) = mset (List.filter (\<lambda>(k, v). Q k v) (entries m'))"
    using distinct set_eq_iff_mset_eq_distinct by blast
  then show ?thesis unfolding collect_if_def mset_map by simp
qed

section \<open>Sorting\<close>

text \<open>\<open>sort.Slice\<close> and \<open>sort.SliceStable\<close> with a \<open>less\<close> function: insertion, which keeps the order of
  elements neither of which is less.\<close>

fun insort_by :: "('a \<Rightarrow> 'a \<Rightarrow> bool) \<Rightarrow> 'a \<Rightarrow> 'a list \<Rightarrow> 'a list" where
  "insort_by lt x [] = [x]"
| "insort_by lt x (y # ys) = (if lt y x then y # insort_by lt x ys else x # y # ys)"

definition sort_by :: "('a \<Rightarrow> 'a \<Rightarrow> bool) \<Rightarrow> 'a list \<Rightarrow> 'a list" where
  "sort_by lt xs = foldr (insort_by lt) xs []"

lemma mset_insort_by [simp]: "mset (insort_by lt x xs) = add_mset x (mset xs)"
  by (induction xs) auto

lemma mset_sort_by [simp]: "mset (sort_by lt xs) = mset xs"
  by (induction xs) (auto simp: sort_by_def)

lemma set_sort_by [simp]: "set (sort_by lt xs) = set xs"
  by (metis mset_sort_by set_mset_mset)

lemma length_sort_by [simp]: "length (sort_by lt xs) = length xs"
  by (metis mset_sort_by size_mset)

text \<open>A strict order that compares any two different elements.\<close>

definition strict_total :: "('a \<Rightarrow> 'a \<Rightarrow> bool) \<Rightarrow> 'a set \<Rightarrow> bool" where
  "strict_total lt A \<longleftrightarrow>
     (\<forall>x\<in>A. \<not> lt x x) \<and>
     (\<forall>x\<in>A. \<forall>y\<in>A. \<forall>z\<in>A. lt x y \<longrightarrow> lt y z \<longrightarrow> lt x z) \<and>
     (\<forall>x\<in>A. \<forall>y\<in>A. x \<noteq> y \<longrightarrow> lt x y \<or> lt y x)"

abbreviation in_order :: "('a \<Rightarrow> 'a \<Rightarrow> bool) \<Rightarrow> 'a list \<Rightarrow> bool" where
  "in_order lt \<equiv> sorted_wrt (\<lambda>x y. \<not> lt y x)"

lemma strict_total_subset: "strict_total lt A \<Longrightarrow> B \<subseteq> A \<Longrightarrow> strict_total lt B"
  unfolding strict_total_def by blast

lemma strict_totalD:
  assumes "strict_total lt A" "x \<in> A" "y \<in> A"
  shows "\<not> (lt x y \<and> lt y x)" "\<not> lt x y \<Longrightarrow> \<not> lt y x \<Longrightarrow> x = y"
    "z \<in> A \<Longrightarrow> \<not> lt y x \<Longrightarrow> \<not> lt z y \<Longrightarrow> \<not> lt z x"
  using assms unfolding strict_total_def by metis+

lemma in_order_insort_by:
  assumes "in_order lt xs" "strict_total lt (insert x (set xs))"
  shows "in_order lt (insort_by lt x xs)"
  using assms
proof (induction xs)
  case Nil
  show ?case by simp
next
  case (Cons y ys)
  have tot: "strict_total lt (insert x (set ys))"
    by (rule strict_total_subset [OF Cons.prems(2)]) auto
  have ins: "set (insort_by lt x ys) = insert x (set ys)"
    by (metis mset_insort_by set_mset_mset set_mset_add_mset_insert)
  show ?case
  proof (cases "lt y x")
    case True
    then have "\<not> lt x y" using strict_totalD(1) [OF Cons.prems(2), of x y] by auto
    with True Cons tot ins show ?thesis by auto
  next
    case False
    have "\<not> lt z x" if "z \<in> set ys" for z
      using strict_totalD(3) [OF Cons.prems(2), of x y z] False Cons.prems(1) that by auto
    with False Cons.prems show ?thesis by auto
  qed
qed

lemma in_order_sort_by: "strict_total lt (set xs) \<Longrightarrow> in_order lt (sort_by lt xs)"
proof (induction xs)
  case Nil
  show ?case by (simp add: sort_by_def)
next
  case (Cons x xs)
  then have "in_order lt (sort_by lt xs)"
    using strict_total_subset [of lt "set (x # xs)" "set xs"] by auto
  moreover have "strict_total lt (insert x (set (sort_by lt xs)))" using Cons.prems by simp
  ultimately show ?case by (simp add: sort_by_def in_order_insort_by)
qed

lemma in_order_unique:
  "in_order lt xs \<Longrightarrow> in_order lt ys \<Longrightarrow> mset xs = mset ys \<Longrightarrow> strict_total lt (set xs) \<Longrightarrow> xs = ys"
proof (induction xs arbitrary: ys)
  case Nil
  then show ?case by simp
next
  case (Cons x xs)
  from Cons.prems(3) obtain y ys' where ys: "ys = y # ys'" by (cases ys) auto
  have sets: "set (x # xs) = set (y # ys')" using Cons.prems(3) ys mset_eq_setD by blast
  have xy: "x = y"
  proof (rule ccontr)
    assume "x \<noteq> y"
    with sets have "x \<in> set ys'" "y \<in> set xs" by auto
    with Cons.prems(1,2) ys have "\<not> lt y x" "\<not> lt x y" by auto
    moreover have "x \<in> set (x # xs)" "y \<in> set (x # xs)" using sets by auto
    ultimately show False using strict_totalD(2) [OF Cons.prems(4)] \<open>x \<noteq> y\<close> by blast
  qed
  have "xs = ys'"
  proof (rule Cons.IH)
    show "strict_total lt (set xs)" by (rule strict_total_subset [OF Cons.prems(4)]) auto
  qed (use Cons.prems ys xy in auto)
  with xy ys show ?case by simp
qed

text \<open>Whatever order the map is met in, the sorted slice is the same.\<close>

lemma sort_by_determined:
  assumes "mset xs = mset ys" "strict_total lt (set xs)"
  shows "sort_by lt xs = sort_by lt ys"
proof (rule in_order_unique)
  have "set xs = set ys" using assms(1) mset_eq_setD by blast
  with assms(2) show "in_order lt (sort_by lt xs)" "in_order lt (sort_by lt ys)"
    "strict_total lt (set (sort_by lt xs))"
    by (auto intro: in_order_sort_by)
qed (use assms(1) in simp)

text \<open>The order on a pair of keys: a time, ascending or descending, then a string.\<close>

lemma strict_total_keys:
  fixes f :: "'a \<Rightarrow> 'k :: linorder" and g :: "'a \<Rightarrow> 'l :: linorder"
  assumes "inj_on g A"
  shows "strict_total (\<lambda>x y. if f x \<noteq> f y then f x < f y else g x < g y) A"
    and "strict_total (\<lambda>x y. if f x \<noteq> f y then f y < f x else g x < g y) A"
    and "strict_total (\<lambda>x y. if f x \<noteq> f y then f y < f x else g y < g x) A"
  using assms unfolding strict_total_def inj_on_def by (auto split: if_splits) (metis linorder_neqE)+

end
