(* ===== verification/Store.thy ===== *)
theory Store
  imports GoMap GoTime Protocol
begin

text \<open>
  The vocabulary of \<open>internal/store\<close>: its records with their methods (\<open>store.go\<close>) and the state of
  the in-memory store (\<open>memory.go\<close>). A time is an instant, the zero instant is Go's zero time; what
  a Go pointer leaves out is an option. A channel is a number: the store makes channel \<open>n\<close> as the
  \<open>n\<close>-th, and remembers which are closed, so that closing one twice (a panic in Go) is visible.
\<close>

section \<open>Errors\<close>

type_synonym tenant_id = bytes

datatype store_error =
    ErrNotFound
  | ErrConflict
  | ErrTooManyCertificates
  | ErrTokenUnusable
  | ErrHostLimitReached
  | ErrUnknownTenant tenant_id
  | ErrTenantNeedsID
  | ErrUnknownApprovalMode bytes
  | ErrCertificateNamesHost bytes bytes bytes
  | ErrCertificateTenant tenant_id tenant_id
  | ErrCertificateHostMissing bytes bytes tenant_id
  | ErrShareLimit

text \<open>\<open>errors.Is(err, ErrConflict)\<close>: the share limit wraps the sentinel.\<close>

definition is_conflict :: "store_error \<Rightarrow> bool" where
  "is_conflict e \<longleftrightarrow> e = ErrConflict \<or> e = ErrShareLimit"

definition is_zero :: "instant \<Rightarrow> bool" where
  "is_zero t \<longleftrightarrow> t = 0"

section \<open>Enrolment tokens, hosts, certificates\<close>

record enrollment_token =
  et_Hash :: bytes
  et_Label :: bytes
  et_Group :: bytes
  et_Bootstrap :: bytes
  et_CreatedAt :: instant
  et_ExpiresAt :: instant
  et_ConsumedAt :: instant
  et_ConsumedByHost :: bytes

definition token_Usable :: "enrollment_token \<Rightarrow> instant \<Rightarrow> bool" where
  "token_Usable t now \<longleftrightarrow> is_zero (et_ConsumedAt t) \<and> now < et_ExpiresAt t"

record host =
  h_ID :: bytes
  h_Hostname :: bytes
  h_MachineIDHash :: bytes
  h_Group :: bytes
  h_AgentVersion :: bytes
  h_EnrolledAt :: instant
  h_LastSeen :: instant
  h_BootID :: bytes
  h_UptimeSeconds :: int
  h_ClockOffsetSeconds :: int
  h_Paused :: bool
  h_FactsDigest :: bytes
  h_PolicyDigest :: bytes
  h_SignersDigest :: bytes
  h_Facts :: bytes
  h_Policy :: bytes
  h_Signers :: bytes
  h_Revoked :: bool

text \<open>\<open>Duration(n) * time.Second * 3\<close> wraps; \<open>now.Sub\<close> saturates.\<close>

definition host_Online :: "host \<Rightarrow> instant \<Rightarrow> int \<Rightarrow> bool" where
  "host_Online h now heartbeatSeconds \<longleftrightarrow>
     (if is_zero (h_LastSeen h) then False
      else let grace = duration_mul 3 (duration_mul heartbeatSeconds Second)
           in time_sub now (h_LastSeen h) < grace)"

record heartbeat_update =
  u_AgentVersion :: bytes
  u_BootID :: bytes
  u_UptimeSeconds :: int
  u_ClockOffsetSeconds :: int
  u_Paused :: bool
  u_LastSeen :: instant

record host_counts =
  Total :: nat
  Active :: nat

record certificate =
  c_Fingerprint :: bytes
  c_HostID :: bytes
  c_TenantID :: tenant_id
  c_Serial :: bytes
  c_IssuedAt :: instant
  c_NotAfter :: instant
  c_Revoked :: bool
  c_RevokedAt :: instant
  c_SupersededAt :: instant

record renewal =
  Replacement :: certificate
  Presented :: bytes
  SupersedeAt :: instant
  MaxLive :: int
  r_Now :: instant

section \<open>Tenants\<close>

definition ApprovalNone :: bytes where [go_defs]: "ApprovalNone = ''none''"
definition ApprovalSelf :: bytes where [go_defs]: "ApprovalSelf = ''self''"
definition ApprovalSecondPerson :: bytes where [go_defs]: "ApprovalSecondPerson = ''second_person''"

definition mode_Valid :: "bytes \<Rightarrow> bool" where
  "mode_Valid m \<longleftrightarrow> m = ApprovalNone \<or> m = ApprovalSelf \<or> m = ApprovalSecondPerson"

definition RequiresApproval :: "bytes \<Rightarrow> bool" where
  "RequiresApproval m \<longleftrightarrow> m = ApprovalSelf \<or> m = ApprovalSecondPerson"

definition RequiresDistinctOperator :: "bytes \<Rightarrow> bool" where
  "RequiresDistinctOperator m \<longleftrightarrow> m = ApprovalSecondPerson"

record tenant =
  t_ID :: tenant_id
  t_Slug :: bytes
  t_DisplayName :: bytes
  t_CreatedAt :: instant
  t_ApprovalMode :: bytes
  t_WebhookURL :: bytes
  t_HostLimit :: "int option"
  t_Suspended :: bool

record tenant_patch =
  p_DisplayName :: "bytes option"
  p_ApprovalMode :: "bytes option"
  p_WebhookURL :: "bytes option"
  p_HostLimit :: "int option"
  p_SetHostLimit :: bool
  p_Suspended :: "bool option"

section \<open>Jobs\<close>

record new_job =
  n_Job :: job
  n_HostID :: bytes
  n_CreatedBy :: bytes
  n_ApprovalRequired :: bool
  n_ApprovalDistinctOperator :: bool

record job_record =
  j_Job :: job
  j_HostID :: bytes
  j_CreatedAt :: instant
  j_CreatedBy :: bytes
  j_ApprovalRequired :: bool
  j_ApprovalDistinctOperator :: bool
  j_ApprovedAt :: instant
  j_ApprovedBy :: bytes
  j_ClaimedAt :: instant
  j_CompletedAt :: instant
  j_Result :: "bytes result_request option"

definition AwaitingApproval :: "job_record \<Rightarrow> bool" where
  "AwaitingApproval r \<longleftrightarrow> j_ApprovalRequired r \<and> is_zero (j_ApprovedAt r)"

definition Claimable :: "job_record \<Rightarrow> bool" where
  "Claimable r \<longleftrightarrow>
     (if \<not> is_zero (j_ClaimedAt r) \<or> \<not> is_zero (j_CompletedAt r) then False else \<not> AwaitingApproval r)"

record job_filter =
  f_HostID :: bytes
  f_Limit :: int
  f_AwaitingApproval :: bool

definition DefaultJobLimit :: int where [go_defs]: "DefaultJobLimit = 100"
definition MaxJobLimit :: int where [go_defs]: "MaxJobLimit = 500"

definition clampJobLimit :: "int \<Rightarrow> int" where
  "clampJobLimit n =
     (if n \<le> 0 then DefaultJobLimit else if n > MaxJobLimit then MaxJobLimit else n)"

section \<open>Templates, events, alerts\<close>

record template_version =
  tv_Name :: bytes
  tv_Version :: int
  tv_BodySealed :: bytes
  tv_Signature :: bytes
  tv_SignerKeyID :: bytes
  tv_SignerAlgorithm :: bytes
  tv_CreatedAt :: instant
  tv_CreatedBy :: bytes

definition template_Signed :: "template_version \<Rightarrow> bool" where
  "template_Signed t \<longleftrightarrow> tv_Signature t \<noteq> [] \<and> tv_SignerKeyID t \<noteq> [] \<and> tv_SignerAlgorithm t \<noteq> []"

record template_summary =
  ts_Name :: bytes
  ts_LatestVersion :: int
  ts_CreatedAt :: instant
  ts_CreatedBy :: bytes
  ts_Signed :: bool
  ts_SignerKeyID :: bytes
  ts_SignerAlgorithm :: bytes
  ts_Archived :: bool
  ts_ArchivedAt :: instant
  ts_ArchivedBy :: bytes

record template_revision =
  tr_Version :: int
  tr_CreatedAt :: instant
  tr_CreatedBy :: bytes
  tr_Signed :: bool
  tr_SignerKeyID :: bytes
  tr_SignerAlgorithm :: bytes

record template_archival =
  ta_Name :: bytes
  ta_ArchivedAt :: instant
  ta_ArchivedBy :: bytes

definition Archived :: "template_archival \<Rightarrow> bool" where
  "Archived a \<longleftrightarrow> \<not> is_zero (ta_ArchivedAt a)"

record event =
  e_ID :: bytes
  e_Kind :: bytes
  e_HostID :: bytes
  e_Hostname :: bytes
  e_Summary :: bytes
  e_At :: instant
  e_Detail :: "(bytes \<times> json) list"

record event_filter =
  ef_Kind :: bytes
  ef_Limit :: int

definition DefaultEventLimit :: int where [go_defs]: "DefaultEventLimit = 100"
definition MaxEventLimit :: int where [go_defs]: "MaxEventLimit = 500"
definition MaxEventsPerTenant :: nat where [go_defs]: "MaxEventsPerTenant = 1000"

record unit_transition =
  ut_HostID :: bytes
  ut_Unit :: bytes
  ut_From :: bytes
  ut_To :: bytes
  ut_At :: instant

definition MaxUnitTransitionsPerHost :: nat where [go_defs]: "MaxUnitTransitionsPerHost = 500"

definition ConditionHostSilent :: bytes where [go_defs]: "ConditionHostSilent = ''host_silent''"
definition ConditionSecurityUpdates :: bytes where [go_defs]: "ConditionSecurityUpdates = ''security_updates''"
definition ConditionSecurityUpdatesAge :: bytes where [go_defs]:
  "ConditionSecurityUpdatesAge = ''security_updates_age''"
definition ConditionRebootRequired :: bytes where [go_defs]: "ConditionRebootRequired = ''reboot_required''"
definition ConditionUnitFailed :: bytes where [go_defs]: "ConditionUnitFailed = ''unit_failed''"
definition ConditionJobFailed :: bytes where [go_defs]: "ConditionJobFailed = ''job_failed''"

definition condition_Valid :: "bytes \<Rightarrow> bool" where
  "condition_Valid c \<longleftrightarrow> c = ConditionHostSilent \<or> c = ConditionSecurityUpdates \<or>
     c = ConditionSecurityUpdatesAge \<or> c = ConditionRebootRequired \<or> c = ConditionUnitFailed \<or>
     c = ConditionJobFailed"

definition MeasuredInDays :: "bytes \<Rightarrow> bool" where
  "MeasuredInDays c \<longleftrightarrow> c = ConditionRebootRequired \<or> c = ConditionSecurityUpdatesAge"

definition Evaluated :: "bytes \<Rightarrow> bool" where
  "Evaluated c \<longleftrightarrow> c = ConditionHostSilent \<or> c = ConditionSecurityUpdates \<or>
     c = ConditionSecurityUpdatesAge \<or> c = ConditionRebootRequired"

record alert_rule =
  ar_ID :: bytes
  ar_Condition :: bytes
  ar_Threshold :: int
  ar_CooldownSeconds :: int
  ar_EmailTo :: "bytes list"
  ar_Enabled :: bool
  ar_CreatedAt :: instant
  ar_CreatedBy :: bytes
  ar_LastDeliveryAt :: instant
  ar_LastDeliveryError :: bytes

record alert_key =
  ak_RuleID :: bytes
  ak_HostID :: bytes
  ak_Subject :: bytes

record alert_state =
  as_Key :: alert_key
  as_Firing :: bool
  as_Since :: instant
  as_LastNotified :: instant

section \<open>Accounts, sessions, shares\<close>

record account =
  a_ID :: bytes
  a_TenantID :: tenant_id
  a_Email :: bytes
  a_EmailKey :: bytes
  a_DisplayName :: bytes
  a_PasswordHash :: bytes
  a_CreatedAt :: instant
  a_LastSignedInAt :: instant

record session_row =
  s_TokenHash :: bytes
  s_AccountID :: bytes
  s_CreatedAt :: instant
  s_ExpiresAt :: instant
  s_LastUsedAt :: instant
  s_UserAgent :: bytes
  s_Source :: bytes

definition session_Valid :: "session_row \<Rightarrow> instant \<Rightarrow> bool" where
  "session_Valid s now \<longleftrightarrow> now < s_ExpiresAt s"

record api_token =
  at_Hash :: bytes
  at_AccountID :: bytes
  at_Label :: bytes
  at_CreatedAt :: instant
  at_ExpiresAt :: instant
  at_LastUsedAt :: instant

definition api_Usable :: "api_token \<Rightarrow> instant \<Rightarrow> bool" where
  "api_Usable t now \<longleftrightarrow> is_zero (at_ExpiresAt t) \<or> now < at_ExpiresAt t"

record wallboard_share =
  w_ID :: bytes
  w_SecretHash :: bytes
  w_PasswordHash :: bytes
  w_Label :: bytes
  w_CreatedAt :: instant
  w_CreatedBy :: bytes
  w_ExpiresAt :: instant
  w_LastSeenAt :: instant

definition share_Live :: "wallboard_share \<Rightarrow> instant \<Rightarrow> bool" where
  "share_Live s now \<longleftrightarrow> now < w_ExpiresAt s"

definition MaxWallboardSharesPerTenant :: nat where [go_defs]: "MaxWallboardSharesPerTenant = 20"

section \<open>The in-memory store\<close>

text \<open>The composite keys (\<open>jobKey\<close>, \<open>queueKey\<close>, \<open>ruleKey\<close> and so on) are pairs with the tenant
  first; a row that carries its tenant beside the record is a pair with the tenant second.\<close>

type_synonym job_key = "tenant_id \<times> bytes"
type_synonym queue_key = "tenant_id \<times> bytes"
type_synonym host_row = "host \<times> tenant_id"
type_synonym token_row = "enrollment_token \<times> tenant_id"
type_synonym template_key = "tenant_id \<times> bytes \<times> int"
type_synonym template_name_key = "tenant_id \<times> bytes"
type_synonym event_row = "event \<times> tenant_id"
type_synonym transition_row = "unit_transition \<times> tenant_id"
type_synonym rule_key = "tenant_id \<times> bytes"
type_synonym state_key = "tenant_id \<times> alert_key"
type_synonym share_row = "wallboard_share \<times> tenant_id"

record memory =
  m_tenants :: "(tenant_id, tenant) gomap"
  m_tokens :: "(bytes, token_row) gomap"
  m_hosts :: "(bytes, host_row) gomap"
  m_certs :: "(bytes, certificate) gomap"
  m_jobs :: "(queue_key, job list) gomap"
  m_records :: "(job_key, job_record) gomap"
  m_results :: "(job_key, bytes result_request) gomap"
  m_waiters :: "(bytes, nat list) gomap"
  m_channels :: nat
  m_closed :: "nat list"
  m_templates :: "(template_key, template_version) gomap"
  m_archivedTemplates :: "(template_name_key, template_archival) gomap"
  m_events :: "event_row list"
  m_transitions :: "transition_row list"
  m_rules :: "(rule_key, alert_rule) gomap"
  m_states :: "(state_key, alert_state) gomap"
  m_accounts :: "(bytes, account) gomap"
  m_sessions :: "(bytes, session_row) gomap"
  m_apiTokens :: "(bytes, api_token) gomap"
  m_shares :: "(bytes, share_row) gomap"

definition DefaultTenant :: tenant_id where [go_defs]: "DefaultTenant = ''default''"

definition NewMemory :: "instant \<Rightarrow> memory" where
  "NewMemory now =
     \<lparr>m_tenants = put DefaultTenant
        \<lparr>t_ID = DefaultTenant, t_Slug = ''default'', t_DisplayName = ''Default'', t_CreatedAt = now,
         t_ApprovalMode = ApprovalNone, t_WebhookURL = [], t_HostLimit = None, t_Suspended = False\<rparr>
        no_entries,
      m_tokens = no_entries, m_hosts = no_entries, m_certs = no_entries, m_jobs = no_entries,
      m_records = no_entries, m_results = no_entries, m_waiters = no_entries, m_channels = 0,
      m_closed = [], m_templates = no_entries, m_archivedTemplates = no_entries, m_events = [],
      m_transitions = [], m_rules = no_entries, m_states = no_entries, m_accounts = no_entries,
      m_sessions = no_entries, m_apiTokens = no_entries, m_shares = no_entries\<rparr>"

end
