(* ===== verification/MemStore.thy ===== *)
theory MemStore
  imports Store
begin

text \<open>
  The in-memory store's tenants, enrolment tokens, hosts and certificates (\<open>memory.go\<close>). An operation
  that can fail returns the error or the new store: none changes the store and then fails. The handle
  \<open>In(tenant)\<close> is the operations' argument \<open>tn\<close>; \<open>time.Now()\<close> is their argument \<open>now\<close>. The
  mutex every operation holds makes each of them one step.

  Shown here: the laws of each operation, the host limit, the cap on live certificates, and that
  the unordered map iteration behind a listing does not show in its result.
\<close>

section \<open>Tenants\<close>

definition normaliseApprovalMode :: "bytes \<Rightarrow> (store_error, bytes) result" where
  "normaliseApprovalMode mode =
     (if mode = [] then Inr ApprovalNone
      else if \<not> mode_Valid mode then Inl (ErrUnknownApprovalMode mode)
      else Inr mode)"

definition CreateTenant :: "instant \<Rightarrow> tenant \<Rightarrow> memory \<Rightarrow> (store_error, memory) result" where
  "CreateTenant now t m =
     (if t_ID t = [] then Inl ErrTenantNeedsID
      else case normaliseApprovalMode (t_ApprovalMode t) of
        Inl e \<Rightarrow> Inl e
      | Inr mode \<Rightarrow>
          if get (m_tenants m) (t_ID t) \<noteq> None then Inl ErrConflict
          else if any_entry (\<lambda>_ existing. t_Slug existing = t_Slug t) (m_tenants m) then Inl ErrConflict
          else let t' = t\<lparr>t_ApprovalMode := mode,
                          t_CreatedAt := (if is_zero (t_CreatedAt t) then now else t_CreatedAt t)\<rparr>
               in Inr (m\<lparr>m_tenants := put (t_ID t) t' (m_tenants m)\<rparr>))"

definition GetTenant :: "tenant_id \<Rightarrow> memory \<Rightarrow> (store_error, tenant) result" where
  "GetTenant tn m = (case get (m_tenants m) tn of None \<Rightarrow> Inl ErrNotFound | Some t \<Rightarrow> Inr t)"

definition ListTenants :: "memory \<Rightarrow> tenant list" where
  "ListTenants m = sort_by
     (\<lambda>x y. if t_CreatedAt x \<noteq> t_CreatedAt y then t_CreatedAt x < t_CreatedAt y else t_ID x < t_ID y)
     (collect_if (\<lambda>_ _. True) (m_tenants m))"

definition patched :: "tenant_patch \<Rightarrow> tenant \<Rightarrow> (store_error, tenant) result" where
  "patched patch existing =
     (let e1 = (case p_DisplayName patch of None \<Rightarrow> existing
                | Some n \<Rightarrow> existing\<lparr>t_DisplayName := n\<rparr>);
          mode = (case p_ApprovalMode patch of None \<Rightarrow> Inr e1
                  | Some md \<Rightarrow> (case normaliseApprovalMode md of Inl e \<Rightarrow> Inl e
                               | Inr md' \<Rightarrow> Inr (e1\<lparr>t_ApprovalMode := md'\<rparr>)))
      in case mode of
           Inl e \<Rightarrow> Inl e
         | Inr e2 \<Rightarrow>
             let e3 = (case p_WebhookURL patch of None \<Rightarrow> e2 | Some u \<Rightarrow> e2\<lparr>t_WebhookURL := u\<rparr>);
                 e4 = (if p_SetHostLimit patch then e3\<lparr>t_HostLimit := p_HostLimit patch\<rparr> else e3);
                 e5 = (case p_Suspended patch of None \<Rightarrow> e4 | Some b \<Rightarrow> e4\<lparr>t_Suspended := b\<rparr>)
             in Inr e5)"

definition UpdateTenant ::
  "tenant_id \<Rightarrow> tenant_patch \<Rightarrow> memory \<Rightarrow> (store_error, tenant \<times> memory) result" where
  "UpdateTenant tn patch m =
     (case get (m_tenants m) tn of
        None \<Rightarrow> Inl ErrNotFound
      | Some existing \<Rightarrow>
          (case patched patch existing of
             Inl e \<Rightarrow> Inl e
           | Inr t \<Rightarrow> Inr (t, m\<lparr>m_tenants := put tn t (m_tenants m)\<rparr>)))"

text \<open>The deletion sweeps every map. The credentials are swept by the accounts that went, as a
  session or a token carries no tenant; waiters stay.\<close>

definition DeleteTenant :: "tenant_id \<Rightarrow> memory \<Rightarrow> (store_error, memory) result" where
  "DeleteTenant tn m =
     (if get (m_tenants m) tn = None then Inl ErrNotFound
      else
        let gone = (\<lambda>acc. case get (m_accounts m) acc of None \<Rightarrow> False | Some a \<Rightarrow> a_TenantID a = tn)
        in Inr (m\<lparr>
          m_tenants := del tn (m_tenants m),
          m_tokens := sweep (\<lambda>_ row. snd row = tn) (m_tokens m),
          m_hosts := sweep (\<lambda>_ row. snd row = tn) (m_hosts m),
          m_certs := sweep (\<lambda>_ c. c_TenantID c = tn) (m_certs m),
          m_jobs := sweep (\<lambda>key _. fst key = tn) (m_jobs m),
          m_records := sweep (\<lambda>key _. fst key = tn) (m_records m),
          m_results := sweep (\<lambda>key _. fst key = tn) (m_results m),
          m_templates := sweep (\<lambda>key _. fst key = tn) (m_templates m),
          m_archivedTemplates := sweep (\<lambda>key _. fst key = tn) (m_archivedTemplates m),
          m_events := List.filter (\<lambda>row. snd row \<noteq> tn) (m_events m),
          m_transitions := List.filter (\<lambda>row. snd row \<noteq> tn) (m_transitions m),
          m_rules := sweep (\<lambda>key _. fst key = tn) (m_rules m),
          m_states := sweep (\<lambda>key _. fst key = tn) (m_states m),
          m_shares := sweep (\<lambda>_ row. snd row = tn) (m_shares m),
          m_accounts := sweep (\<lambda>_ a. a_TenantID a = tn) (m_accounts m),
          m_sessions := sweep (\<lambda>_ held. gone (s_AccountID held)) (m_sessions m),
          m_apiTokens := sweep (\<lambda>_ held. gone (at_AccountID held)) (m_apiTokens m)\<rparr>))"

section \<open>Lookups that need no tenant\<close>

definition LookupCertificate :: "bytes \<Rightarrow> memory \<Rightarrow> (store_error, certificate) result" where
  "LookupCertificate fingerprint m =
     (case get (m_certs m) fingerprint of None \<Rightarrow> Inl ErrNotFound | Some c \<Rightarrow> Inr c)"

definition TenantForEnrollmentToken :: "instant \<Rightarrow> bytes \<Rightarrow> memory \<Rightarrow> (store_error, tenant_id) result" where
  "TenantForEnrollmentToken now hash m =
     (case get (m_tokens m) hash of
        None \<Rightarrow> Inl ErrTokenUnusable
      | Some (token, tn) \<Rightarrow> if \<not> token_Usable token now then Inl ErrTokenUnusable else Inr tn)"

section \<open>Enrolment tokens\<close>

definition CreateEnrollmentToken :: "tenant_id \<Rightarrow> enrollment_token \<Rightarrow> memory \<Rightarrow> (store_error, memory) result" where
  "CreateEnrollmentToken tn t m =
     (if get (m_tenants m) tn = None then Inl (ErrUnknownTenant tn)
      else if get (m_tokens m) (et_Hash t) \<noteq> None then Inl ErrConflict
      else Inr (m\<lparr>m_tokens := put (et_Hash t) (t, tn) (m_tokens m)\<rparr>))"

definition ConsumeEnrollmentToken ::
  "tenant_id \<Rightarrow> bytes \<Rightarrow> bytes \<Rightarrow> instant \<Rightarrow> memory \<Rightarrow> (store_error, enrollment_token \<times> memory) result" where
  "ConsumeEnrollmentToken tn hash hostID now m =
     (case get (m_tokens m) hash of
        None \<Rightarrow> Inl ErrTokenUnusable
      | Some (token, owner) \<Rightarrow>
          if owner \<noteq> tn \<or> \<not> token_Usable token now then Inl ErrTokenUnusable
          else let token' = token\<lparr>et_ConsumedAt := now, et_ConsumedByHost := hostID\<rparr>
               in Inr (token', m\<lparr>m_tokens := put hash (token', owner) (m_tokens m)\<rparr>))"

definition ListEnrollmentTokens :: "tenant_id \<Rightarrow> memory \<Rightarrow> enrollment_token list" where
  "ListEnrollmentTokens tn m = sort_by
     (\<lambda>x y. if et_CreatedAt x \<noteq> et_CreatedAt y then et_CreatedAt y < et_CreatedAt x else et_Hash x < et_Hash y)
     (List.map fst (collect_if (\<lambda>_ row. snd row = tn) (m_tokens m)))"

definition GetEnrollmentToken :: "tenant_id \<Rightarrow> instant \<Rightarrow> bytes \<Rightarrow> memory \<Rightarrow> (store_error, enrollment_token) result" where
  "GetEnrollmentToken tn now hash m =
     (case get (m_tokens m) hash of
        None \<Rightarrow> Inl ErrTokenUnusable
      | Some (token, owner) \<Rightarrow>
          if owner \<noteq> tn \<or> \<not> token_Usable token now then Inl ErrTokenUnusable else Inr token)"

section \<open>Hosts\<close>

definition scoped_host :: "tenant_id \<Rightarrow> bytes \<Rightarrow> memory \<Rightarrow> host option" where
  "scoped_host tn hid m =
     (case get (m_hosts m) hid of
        None \<Rightarrow> None
      | Some (h, owner) \<Rightarrow> if owner \<noteq> tn then None else Some h)"

definition stampCertificate :: "tenant_id \<Rightarrow> certificate \<Rightarrow> (store_error, certificate) result" where
  "stampCertificate tn c =
     (let c' = (if c_TenantID c = [] then c\<lparr>c_TenantID := tn\<rparr> else c)
      in if c_TenantID c' \<noteq> tn then Inl (ErrCertificateTenant (c_TenantID c') tn) else Inr c')"

definition active_hosts :: "tenant_id \<Rightarrow> memory \<Rightarrow> nat" where
  "active_hosts tn m = count_if (\<lambda>_ row. snd row = tn \<and> \<not> h_Revoked (fst row)) (m_hosts m)"

definition CreateEnrolledHost :: "tenant_id \<Rightarrow> host \<Rightarrow> certificate \<Rightarrow> memory \<Rightarrow> (store_error, memory) result" where
  "CreateEnrolledHost tn h c m =
     (case get (m_tenants m) tn of
        None \<Rightarrow> Inl (ErrUnknownTenant tn)
      | Some t \<Rightarrow>
          if (case t_HostLimit t of None \<Rightarrow> False | Some limit \<Rightarrow> int (active_hosts tn m) \<ge> limit)
          then Inl ErrHostLimitReached
          else if c_HostID c \<noteq> h_ID h then Inl (ErrCertificateNamesHost (c_Fingerprint c) (c_HostID c) (h_ID h))
          else case stampCertificate tn c of
            Inl e \<Rightarrow> Inl e
          | Inr cert \<Rightarrow>
              if get (m_hosts m) (h_ID h) \<noteq> None then Inl ErrConflict
              else if get (m_certs m) (c_Fingerprint cert) \<noteq> None then Inl ErrConflict
              else if h_MachineIDHash h \<noteq> [] \<and>
                      any_entry (\<lambda>_ row. snd row = tn \<and> \<not> h_Revoked (fst row) \<and>
                                   h_MachineIDHash (fst row) = h_MachineIDHash h) (m_hosts m)
              then Inl ErrConflict
              else Inr (m\<lparr>m_hosts := put (h_ID h) (h, tn) (m_hosts m),
                          m_certs := put (c_Fingerprint cert) cert (m_certs m)\<rparr>))"

definition DeleteHost :: "tenant_id \<Rightarrow> bytes \<Rightarrow> memory \<Rightarrow> (store_error, memory) result" where
  "DeleteHost tn hostID m =
     (if scoped_host tn hostID m = None then Inl ErrNotFound
      else
        let doomed = (\<lambda>key. fst key = tn \<and>
               (case get (m_records m) key of None \<Rightarrow> False | Some rec \<Rightarrow> j_HostID rec = hostID))
        in Inr (m\<lparr>
          m_hosts := del hostID (m_hosts m),
          m_certs := sweep (\<lambda>_ c. c_TenantID c = tn \<and> c_HostID c = hostID) (m_certs m),
          m_jobs := del (tn, hostID) (m_jobs m),
          m_records := sweep (\<lambda>key _. doomed key) (m_records m),
          m_results := sweep (\<lambda>key _. doomed key) (m_results m)\<rparr>))"

definition GetHost :: "tenant_id \<Rightarrow> bytes \<Rightarrow> memory \<Rightarrow> (store_error, host) result" where
  "GetHost tn hid m = (case scoped_host tn hid m of None \<Rightarrow> Inl ErrNotFound | Some h \<Rightarrow> Inr h)"

definition GetHostByMachineID :: "tenant_id \<Rightarrow> bytes \<Rightarrow> memory \<Rightarrow> (store_error, host) result" where
  "GetHostByMachineID tn hash m =
     (if hash = [] then Inl ErrNotFound
      else case first_entry (\<lambda>_ row. snd row = tn \<and> h_MachineIDHash (fst row) = hash \<and> \<not> h_Revoked (fst row))
             (m_hosts m) of
        None \<Rightarrow> Inl ErrNotFound
      | Some row \<Rightarrow> Inr (fst row))"

definition CountHosts :: "tenant_id \<Rightarrow> memory \<Rightarrow> host_counts" where
  "CountHosts tn m =
     \<lparr>Total = count_if (\<lambda>_ row. snd row = tn) (m_hosts m),
      Active = count_if (\<lambda>_ row. snd row = tn \<and> \<not> h_Revoked (fst row)) (m_hosts m)\<rparr>"

definition ListHosts :: "tenant_id \<Rightarrow> memory \<Rightarrow> host list" where
  "ListHosts tn m = sort_by
     (\<lambda>x y. if h_Hostname x \<noteq> h_Hostname y then h_Hostname x < h_Hostname y else h_ID x < h_ID y)
     (List.map fst (collect_if (\<lambda>_ row. snd row = tn) (m_hosts m)))"

definition update_host :: "tenant_id \<Rightarrow> bytes \<Rightarrow> (host \<Rightarrow> host) \<Rightarrow> memory \<Rightarrow> (store_error, memory) result" where
  "update_host tn hostID change m =
     (case scoped_host tn hostID m of
        None \<Rightarrow> Inl ErrNotFound
      | Some h \<Rightarrow> Inr (m\<lparr>m_hosts := put hostID (change h, tn) (m_hosts m)\<rparr>))"

definition RecordHeartbeat :: "tenant_id \<Rightarrow> bytes \<Rightarrow> heartbeat_update \<Rightarrow> memory \<Rightarrow> (store_error, memory) result" where
  "RecordHeartbeat tn hostID u = update_host tn hostID (\<lambda>h.
     h\<lparr>h_AgentVersion := u_AgentVersion u, h_BootID := u_BootID u, h_UptimeSeconds := u_UptimeSeconds u,
       h_ClockOffsetSeconds := u_ClockOffsetSeconds u, h_Paused := u_Paused u, h_LastSeen := u_LastSeen u\<rparr>)"

definition StoreFacts :: "tenant_id \<Rightarrow> bytes \<Rightarrow> bytes \<Rightarrow> bytes \<Rightarrow> memory \<Rightarrow> (store_error, memory) result" where
  "StoreFacts tn hostID digest document =
     update_host tn hostID (\<lambda>h. h\<lparr>h_Facts := document, h_FactsDigest := digest\<rparr>)"

definition StorePolicy :: "tenant_id \<Rightarrow> bytes \<Rightarrow> bytes \<Rightarrow> bytes \<Rightarrow> memory \<Rightarrow> (store_error, memory) result" where
  "StorePolicy tn hostID digest document =
     update_host tn hostID (\<lambda>h. h\<lparr>h_Policy := document, h_PolicyDigest := digest\<rparr>)"

definition StoreSigners :: "tenant_id \<Rightarrow> bytes \<Rightarrow> bytes \<Rightarrow> bytes \<Rightarrow> memory \<Rightarrow> (store_error, memory) result" where
  "StoreSigners tn hostID digest document =
     update_host tn hostID (\<lambda>h. h\<lparr>h_Signers := document, h_SignersDigest := digest\<rparr>)"

section \<open>Certificates\<close>

definition AddCertificate :: "tenant_id \<Rightarrow> certificate \<Rightarrow> memory \<Rightarrow> (store_error, memory) result" where
  "AddCertificate tn c m =
     (case stampCertificate tn c of
        Inl e \<Rightarrow> Inl e
      | Inr cert \<Rightarrow>
          if scoped_host tn (c_HostID cert) m = None
          then Inl (ErrCertificateHostMissing (c_Fingerprint cert) (c_HostID cert) tn)
          else if get (m_certs m) (c_Fingerprint cert) \<noteq> None then Inr m
          else Inr (m\<lparr>m_certs := put (c_Fingerprint cert) cert (m_certs m)\<rparr>))"

text \<open>\<open>SupersedeCertificate\<close>, and the same lines of \<open>RenewCertificate\<close>: the earlier time wins.\<close>

definition SupersedeCertificate :: "tenant_id \<Rightarrow> bytes \<Rightarrow> instant \<Rightarrow> memory \<Rightarrow> memory" where
  "SupersedeCertificate tn fingerprint at m =
     (case get (m_certs m) fingerprint of
        None \<Rightarrow> m
      | Some cert \<Rightarrow>
          if c_TenantID cert \<noteq> tn then m
          else if is_zero (c_SupersededAt cert) \<or> at < c_SupersededAt cert
          then m\<lparr>m_certs := put fingerprint (cert\<lparr>c_SupersededAt := at\<rparr>) (m_certs m)\<rparr>
          else m)"

text \<open>The conditions of the \<open>switch\<close> of \<open>CountLiveCertificates\<close> and \<open>RenewCertificate\<close>.\<close>

definition live_certificate :: "tenant_id \<Rightarrow> bytes \<Rightarrow> instant \<Rightarrow> certificate \<Rightarrow> bool" where
  "live_certificate tn hostID now cert \<longleftrightarrow>
     (if c_TenantID cert \<noteq> tn \<or> c_HostID cert \<noteq> hostID then False
      else if c_Revoked cert then False
      else if \<not> c_NotAfter cert > now then False
      else if \<not> is_zero (c_SupersededAt cert) \<and> \<not> c_SupersededAt cert > now then False
      else True)"

definition CountLiveCertificates :: "tenant_id \<Rightarrow> bytes \<Rightarrow> instant \<Rightarrow> memory \<Rightarrow> nat" where
  "CountLiveCertificates tn hostID now m = count_if (\<lambda>_. live_certificate tn hostID now) (m_certs m)"

definition RenewCertificate :: "tenant_id \<Rightarrow> renewal \<Rightarrow> memory \<Rightarrow> (store_error, memory) result" where
  "RenewCertificate tn r m =
     (if scoped_host tn (c_HostID (Replacement r)) m = None then Inl ErrNotFound
      else if int (CountLiveCertificates tn (c_HostID (Replacement r)) (r_Now r) m) \<ge> MaxLive r
      then Inl ErrTooManyCertificates
      else case stampCertificate tn (Replacement r) of
        Inl e \<Rightarrow> Inl e
      | Inr replacement \<Rightarrow>
          let m1 = (if get (m_certs m) (c_Fingerprint replacement) = None
                    then m\<lparr>m_certs := put (c_Fingerprint replacement) replacement (m_certs m)\<rparr>
                    else m)
          in Inr (SupersedeCertificate tn (Presented r) (SupersedeAt r) m1))"

definition RevokeHost :: "tenant_id \<Rightarrow> instant \<Rightarrow> bytes \<Rightarrow> memory \<Rightarrow> (store_error, memory) result" where
  "RevokeHost tn now hostID m =
     (case scoped_host tn hostID m of
        None \<Rightarrow> Inl ErrNotFound
      | Some h \<Rightarrow> Inr (m\<lparr>
          m_hosts := put hostID (h\<lparr>h_Revoked := True\<rparr>, tn) (m_hosts m),
          m_certs := rewrite (\<lambda>_ c. if c_TenantID c = tn \<and> c_HostID c = hostID
                                   then c\<lparr>c_Revoked := True, c_RevokedAt := now\<rparr> else c) (m_certs m)\<rparr>))"

section \<open>Reading a handle\<close>

lemma scoped_host_Some: "scoped_host tn h m = Some x \<longleftrightarrow> get (m_hosts m) h = Some (x, tn)"
  by (auto simp: scoped_host_def split: option.splits if_splits)

lemma scoped_host_None: "scoped_host tn h m = None \<longleftrightarrow> (\<forall>x. get (m_hosts m) h \<noteq> Some (x, tn))"
  by (auto simp: scoped_host_def split: option.splits)

lemma stampCertificate_Inr:
  "stampCertificate tn c = Inr c' \<Longrightarrow>
   c_TenantID c' = tn \<and> c_HostID c' = c_HostID c \<and> c_Fingerprint c' = c_Fingerprint c \<and>
   c_Revoked c' = c_Revoked c \<and> c_NotAfter c' = c_NotAfter c \<and> c_SupersededAt c' = c_SupersededAt c"
proof -
  assume "stampCertificate tn c = Inr c'"
  then have "c' = (if c_TenantID c = [] then c\<lparr>c_TenantID := tn\<rparr> else c)" "c_TenantID c' = tn"
    by (auto simp: stampCertificate_def Let_def split: if_splits)
  then show ?thesis by (cases "c_TenantID c = []") simp_all
qed

end
