(* ===== verification/JobStore.thy ===== *)
theory JobStore
  imports MemStore
begin

text \<open>
  The job queue of the in-memory store (\<open>memory.go\<close>): subscriptions, creation, approval, claiming and
  results. The queue (\<open>m_jobs\<close>), the history (\<open>m_records\<close>) and the results are three maps; the
  invariant \<open>jobs_inv\<close> says how they hang together: a job is in the queue of its host exactly when
  its record is claimable, so the queue decides as the \<open>WHERE\<close> clause of the shipped store does.
\<close>

section \<open>Waking long polls\<close>

text \<open>\<open>close\<close> panics (\<open>None\<close>) on a channel that is closed already.\<close>

fun close_all :: "nat list \<Rightarrow> memory \<Rightarrow> memory option" where
  "close_all [] m = Some m"
| "close_all (w # ws) m =
     (if w \<in> set (m_closed m) then None else close_all ws (m\<lparr>m_closed := w # m_closed m\<rparr>))"

definition waiting_in :: "(bytes, nat list) gomap \<Rightarrow> bytes \<Rightarrow> nat list" where
  "waiting_in waiters hostID = (case get waiters hostID of None \<Rightarrow> [] | Some ws \<Rightarrow> ws)"

abbreviation waiting :: "memory \<Rightarrow> bytes \<Rightarrow> nat list" where
  "waiting m \<equiv> waiting_in (m_waiters m)"

definition Subscribe :: "bytes \<Rightarrow> memory \<Rightarrow> nat \<times> memory" where
  "Subscribe hostID m =
     (let wake = m_channels m
      in (wake, m\<lparr>m_channels := Suc wake,
                  m_waiters := put hostID (waiting m hostID @ [wake]) (m_waiters m)\<rparr>))"

definition removeWaiter :: "bytes \<Rightarrow> nat \<Rightarrow> memory \<Rightarrow> memory" where
  "removeWaiter hostID wake m =
     (let ws = waiting m hostID;
          m1 = (if wake \<in> set ws then m\<lparr>m_waiters := put hostID (remove1 wake ws) (m_waiters m)\<rparr> else m)
      in if waiting m1 hostID = [] then m1\<lparr>m_waiters := del hostID (m_waiters m1)\<rparr> else m1)"

definition takeWaiters :: "bytes \<Rightarrow> memory \<Rightarrow> nat list \<times> memory" where
  "takeWaiters hostID m = (waiting m hostID, m\<lparr>m_waiters := del hostID (m_waiters m)\<rparr>)"

section \<open>Creating and approving\<close>

definition queue_of :: "(queue_key, job list) gomap \<Rightarrow> queue_key \<Rightarrow> job list" where
  "queue_of q key = (case get q key of None \<Rightarrow> [] | Some js \<Rightarrow> js)"

text \<open>Both \<open>CreateJob\<close> and \<open>ApproveJob\<close> end by appending to the host's queue and waking its polls.\<close>

definition enqueue_and_wake :: "tenant_id \<Rightarrow> bytes \<Rightarrow> job \<Rightarrow> memory \<Rightarrow> memory option" where
  "enqueue_and_wake tn hostID job m =
     (let queue = (tn, hostID);
          m1 = m\<lparr>m_jobs := put queue (queue_of (m_jobs m) queue @ [job]) (m_jobs m)\<rparr>;
          (waiters, m2) = takeWaiters hostID m1
      in close_all waiters m2)"

definition job_entry :: "new_job \<Rightarrow> job_record" where
  "job_entry j =
     \<lparr>j_Job = n_Job j, j_HostID = n_HostID j, j_CreatedAt = job_IssuedAt (n_Job j), j_CreatedBy = n_CreatedBy j,
      j_ApprovalRequired = n_ApprovalRequired j, j_ApprovalDistinctOperator = n_ApprovalDistinctOperator j,
      j_ApprovedAt = 0, j_ApprovedBy = [], j_ClaimedAt = 0, j_CompletedAt = 0, j_Result = None\<rparr>"

definition CreateJob :: "tenant_id \<Rightarrow> new_job \<Rightarrow> memory \<Rightarrow> (store_error, memory) result option" where
  "CreateJob tn j m =
     (if scoped_host tn (n_HostID j) m = None then Some (Inl ErrNotFound)
      else
        let key = (tn, ID (n_Job j)) in
        if get (m_records m) key \<noteq> None then Some (Inl ErrConflict)
        else if Signature (n_Job j) \<noteq> [] \<and>
                any_entry (\<lambda>other prev. fst other = tn \<and> j_HostID prev = n_HostID j \<and>
                    Nonce (j_Job prev) = Nonce (n_Job j) \<and> Signature (j_Job prev) \<noteq> []) (m_records m)
        then Some (Inl ErrConflict)
        else
          let m1 = m\<lparr>m_records := put key (job_entry j) (m_records m)\<rparr>
          in if n_ApprovalRequired j then Some (Inr m1)
             else map_option Inr (enqueue_and_wake tn (n_HostID j) (n_Job j) m1))"

text \<open>The helper \<open>Enqueue\<close> of the tests ignores what \<open>CreateJob\<close> returns.\<close>

definition Enqueue :: "tenant_id \<Rightarrow> bytes \<Rightarrow> job \<Rightarrow> memory \<Rightarrow> memory option" where
  "Enqueue tn hostID job m =
     map_option (\<lambda>r. case r of Inl _ \<Rightarrow> m | Inr m' \<Rightarrow> m')
       (CreateJob tn \<lparr>n_Job = job, n_HostID = hostID, n_CreatedBy = [], n_ApprovalRequired = False,
                      n_ApprovalDistinctOperator = False\<rparr> m)"

definition ApproveJob :: "tenant_id \<Rightarrow> bytes \<Rightarrow> bytes \<Rightarrow> instant \<Rightarrow> memory \<Rightarrow> (store_error, memory) result option" where
  "ApproveJob tn jobID approver now m =
     (let key = (tn, jobID) in
      case get (m_records m) key of
        None \<Rightarrow> Some (Inl ErrNotFound)
      | Some rec \<Rightarrow>
          if \<not> j_ApprovalRequired rec \<or> \<not> is_zero (j_ApprovedAt rec) \<or>
             (j_ApprovalDistinctOperator rec \<and> j_CreatedBy rec = approver)
          then Some (Inl ErrConflict)
          else
            let rec' = rec\<lparr>j_ApprovedAt := now, j_ApprovedBy := approver\<rparr>;
                m1 = m\<lparr>m_records := put key rec' (m_records m)\<rparr>
            in map_option Inr (enqueue_and_wake tn (j_HostID rec') (j_Job rec') m1))"

section \<open>Reading\<close>

definition withResult :: "memory \<Rightarrow> job_key \<Rightarrow> job_record \<Rightarrow> job_record" where
  "withResult m key rec =
     (case get (m_results m) key of None \<Rightarrow> rec | Some result \<Rightarrow> rec\<lparr>j_Result := Some result\<rparr>)"

definition GetJob :: "tenant_id \<Rightarrow> bytes \<Rightarrow> memory \<Rightarrow> (store_error, job_record) result" where
  "GetJob tn jobID m =
     (case get (m_records m) (tn, jobID) of
        None \<Rightarrow> Inl ErrNotFound
      | Some rec \<Rightarrow> Inr (withResult m (tn, jobID) rec))"

definition listed :: "tenant_id \<Rightarrow> job_filter \<Rightarrow> job_key \<Rightarrow> job_record \<Rightarrow> bool" where
  "listed tn f key rec \<longleftrightarrow>
     fst key = tn \<and> (f_HostID f = [] \<or> j_HostID rec = f_HostID f) \<and>
     (f_AwaitingApproval f \<longrightarrow> AwaitingApproval rec)"

definition newer_job :: "job_record \<Rightarrow> job_record \<Rightarrow> bool" where
  "newer_job x y \<longleftrightarrow>
     (if j_CreatedAt x \<noteq> j_CreatedAt y then j_CreatedAt y < j_CreatedAt x else ID (j_Job y) < ID (j_Job x))"

definition ListJobs :: "tenant_id \<Rightarrow> job_filter \<Rightarrow> memory \<Rightarrow> job_record list" where
  "ListJobs tn f m =
     take (nat (clampJobLimit (f_Limit f)))
       (sort_by newer_job
          (List.map (\<lambda>(key, rec). withResult m key rec)
             (List.filter (\<lambda>(key, rec). listed tn f key rec) (entries (m_records m)))))"

text \<open>The helper \<open>Result\<close> of the tests.\<close>

definition stored_Result :: "tenant_id \<Rightarrow> bytes \<Rightarrow> memory \<Rightarrow> bytes result_request option" where
  "stored_Result tn jobID m = get (m_results m) (tn, jobID)"

section \<open>Claiming and reporting\<close>

fun claim_loop :: "int \<Rightarrow> instant \<Rightarrow> job list \<Rightarrow> job list \<Rightarrow> job list \<Rightarrow> job list \<times> job list" where
  "claim_loop limit now [] claimed deferred = (claimed, deferred)"
| "claim_loop limit now (job # pending) claimed deferred =
     (if int (length claimed) < limit \<and> \<not> NotBefore job > now
      then claim_loop limit now pending (claimed @ [job]) deferred
      else claim_loop limit now pending claimed (deferred @ [job]))"

definition stamp_claimed :: "tenant_id \<Rightarrow> instant \<Rightarrow> (job_key, job_record) gomap \<Rightarrow> job \<Rightarrow> (job_key, job_record) gomap" where
  "stamp_claimed tn now recs job =
     (case get recs (tn, ID job) of
        None \<Rightarrow> recs
      | Some rec \<Rightarrow> put (tn, ID job) (rec\<lparr>j_ClaimedAt := now\<rparr>) recs)"

definition ClaimJobs :: "tenant_id \<Rightarrow> instant \<Rightarrow> bytes \<Rightarrow> int \<Rightarrow> memory \<Rightarrow> job list \<times> memory" where
  "ClaimJobs tn now hostID lim m =
     (let limit = (if lim \<le> 0 then 10 else lim);
          queue = (tn, hostID);
          pending = queue_of (m_jobs m) queue
      in if pending = [] then ([], m)
         else
           let (claimed, deferred) = claim_loop limit now pending [] []
           in if claimed = [] then ([], m)
              else (claimed, m\<lparr>
                m_jobs := (if deferred = [] then del queue (m_jobs m) else put queue deferred (m_jobs m)),
                m_records := foldl (stamp_claimed tn now) (m_records m) claimed\<rparr>))"

definition RecordResult ::
  "tenant_id \<Rightarrow> instant \<Rightarrow> bytes \<Rightarrow> bytes result_request \<Rightarrow> memory \<Rightarrow> (store_error, bool \<times> memory) result" where
  "RecordResult tn now hostID r m =
     (let key = (tn, JobID r) in
      case get (m_records m) key of
        None \<Rightarrow> Inl ErrNotFound
      | Some rec \<Rightarrow>
          if j_HostID rec \<noteq> hostID \<or> is_zero (j_ClaimedAt rec) then Inl ErrNotFound
          else if get (m_results m) key \<noteq> None then Inr (False, m)
          else Inr (True, m\<lparr>m_results := put key r (m_results m),
                            m_records := put key (rec\<lparr>j_CompletedAt := now\<rparr>) (m_records m)\<rparr>))"

section \<open>How the maps hang together\<close>

definition record_ok :: "job_key \<Rightarrow> job_record \<Rightarrow> bool" where
  "record_ok key r \<longleftrightarrow>
     ID (j_Job r) = snd key \<and> j_Result r = None \<and>
     (j_CompletedAt r \<noteq> 0 \<longrightarrow> j_ClaimedAt r \<noteq> 0) \<and>
     (j_ClaimedAt r \<noteq> 0 \<longrightarrow> \<not> AwaitingApproval r) \<and>
     (j_ApprovedAt r \<noteq> 0 \<longrightarrow> j_ApprovalRequired r) \<and>
     (j_ApprovedAt r \<noteq> 0 \<and> j_ApprovalDistinctOperator r \<longrightarrow> j_ApprovedBy r \<noteq> j_CreatedBy r)"

definition signed_once :: "(job_key, job_record) gomap \<Rightarrow> bool" where
  "signed_once recs \<longleftrightarrow>
     (\<forall>tn i i' r r'. get recs (tn, i) = Some r \<and> get recs (tn, i') = Some r' \<and>
        j_HostID r = j_HostID r' \<and> Nonce (j_Job r) = Nonce (j_Job r') \<and>
        Signature (j_Job r) \<noteq> [] \<and> Signature (j_Job r') \<noteq> [] \<longrightarrow> i = i')"

definition jobs_inv ::
  "(queue_key, job list) gomap \<Rightarrow> (job_key, job_record) gomap \<Rightarrow> (job_key, bytes result_request) gomap \<Rightarrow> bool" where
  "jobs_inv q recs res \<longleftrightarrow>
     (\<forall>key r. get recs key = Some r \<longrightarrow> record_ok key r) \<and>
     (\<forall>tn h. distinct (List.map ID (queue_of q (tn, h)))) \<and>
     (\<forall>tn h j. j \<in> set (queue_of q (tn, h)) \<longleftrightarrow>
        (\<exists>r. get recs (tn, ID j) = Some r \<and> j_Job r = j \<and> j_HostID r = h \<and> Claimable r)) \<and>
     (\<forall>key. get res key \<noteq> None \<longleftrightarrow> (\<exists>r. get recs key = Some r \<and> j_CompletedAt r \<noteq> 0)) \<and>
     signed_once recs"

abbreviation jobs_ok :: "memory \<Rightarrow> bool" where
  "jobs_ok m \<equiv> jobs_inv (m_jobs m) (m_records m) (m_results m)"

subsection \<open>What the steps do to the maps\<close>

lemma queue_of_put: "queue_of (put k v q) k' = (if k' = k then v else queue_of q k')"
  by (simp add: queue_of_def get_put)

lemma queue_of_del: "queue_of (del k q) k' = (if k' = k then [] else queue_of q k')"
  by (simp add: queue_of_def)

lemma queue_of_sweep: "queue_of (sweep (\<lambda>k _. P k) q) k = (if P k then [] else queue_of q k)"
  by (auto simp: queue_of_def get_sweep split: option.splits)

lemmas queue_simps = queue_of_put queue_of_del queue_of_sweep

lemma close_all_Some: "close_all ws m = Some m' \<Longrightarrow> m' = m\<lparr>m_closed := rev ws @ m_closed m\<rparr>"
  by (induction ws m rule: close_all.induct) (auto split: if_splits)

lemma enqueue_and_wake_Some:
  "enqueue_and_wake tn h j m = Some m' \<Longrightarrow>
   m' = m\<lparr>m_jobs := put (tn, h) (queue_of (m_jobs m) (tn, h) @ [j]) (m_jobs m),
          m_waiters := del h (m_waiters m), m_closed := rev (waiting m h) @ m_closed m\<rparr>"
  by (auto simp: enqueue_and_wake_def takeWaiters_def Let_def waiting_in_def dest!: close_all_Some)

lemma CreateJob_Inr:
  assumes "CreateJob tn j m = Some (Inr m')"
  obtains "scoped_host tn (n_HostID j) m \<noteq> None" "get (m_records m) (tn, ID (n_Job j)) = None"
    "\<And>i r. Signature (n_Job j) \<noteq> [] \<Longrightarrow> get (m_records m) (tn, i) = Some r \<Longrightarrow> j_HostID r = n_HostID j \<Longrightarrow>
       Signature (j_Job r) \<noteq> [] \<Longrightarrow> Nonce (j_Job r) \<noteq> Nonce (n_Job j)"
    "m_records m' = put (tn, ID (n_Job j)) (job_entry j) (m_records m)"
    "m_results m' = m_results m"
    "m_jobs m' = (if n_ApprovalRequired j then m_jobs m
       else put (tn, n_HostID j) (queue_of (m_jobs m) (tn, n_HostID j) @ [n_Job j]) (m_jobs m))"
  by (rule that; use assms in
      \<open>auto simp: CreateJob_def Let_def any_entry_iff split: if_splits dest!: enqueue_and_wake_Some\<close>)

lemma ApproveJob_Inr:
  assumes "ApproveJob tn i approver now m = Some (Inr m')"
  obtains rec where "get (m_records m) (tn, i) = Some rec" "AwaitingApproval rec"
    "j_ApprovalDistinctOperator rec \<longrightarrow> approver \<noteq> j_CreatedBy rec"
    "m_records m' = put (tn, i) (rec\<lparr>j_ApprovedAt := now, j_ApprovedBy := approver\<rparr>) (m_records m)"
    "m_results m' = m_results m"
    "m_jobs m' = put (tn, j_HostID rec) (queue_of (m_jobs m) (tn, j_HostID rec) @ [j_Job rec]) (m_jobs m)"
proof (cases "get (m_records m) (tn, i)")
  case None
  with assms show ?thesis by (simp add: ApproveJob_def)
next
  case (Some rec)
  show ?thesis
    by (rule that [OF Some]; use assms Some in
        \<open>auto simp: ApproveJob_def Let_def AwaitingApproval_def is_zero_def split: if_splits dest!: enqueue_and_wake_Some\<close>)
qed

lemma RecordResult_Inr:
  assumes "RecordResult tn now h r m = Inr (first, m')"
  obtains rec where "get (m_records m) (tn, JobID r) = Some rec" "j_HostID rec = h" "j_ClaimedAt rec \<noteq> 0"
    "m_jobs m' = m_jobs m"
    "first \<longleftrightarrow> get (m_results m) (tn, JobID r) = None"
    "\<not> first \<longrightarrow> m' = m"
    "first \<longrightarrow> m_results m' = put (tn, JobID r) r (m_results m) \<and>
       m_records m' = put (tn, JobID r) (rec\<lparr>j_CompletedAt := now\<rparr>) (m_records m)"
proof (cases "get (m_records m) (tn, JobID r)")
  case None
  with assms show ?thesis by (simp add: RecordResult_def)
next
  case (Some rec)
  show ?thesis
    by (rule that [OF Some]; use assms Some in \<open>auto simp: RecordResult_def Let_def is_zero_def split: if_splits\<close>)
qed

subsection \<open>The claiming loop\<close>

lemma claim_loop_split:
  "claim_loop limit now pending c d = (claimed, deferred) \<Longrightarrow>
   \<exists>cs ds. claimed = c @ cs \<and> deferred = d @ ds \<and> mset cs + mset ds = mset pending \<and>
     (\<forall>j\<in>set cs. NotBefore j \<le> now) \<and> int (length claimed) \<le> max (int (length c)) limit \<and>
     (int (length claimed) < limit \<longrightarrow> (\<forall>j\<in>set ds. now < NotBefore j))"
proof (induction limit now pending c d rule: claim_loop.induct)
  case (1 limit now c d)
  then show ?case by auto
next
  case (2 limit now job pending c d)
  show ?case
  proof (cases "int (length c) < limit \<and> \<not> NotBefore job > now")
    case True
    with 2 obtain cs ds where "claimed = (c @ [job]) @ cs" "deferred = d @ ds" "mset cs + mset ds = mset pending"
      "\<forall>j\<in>set cs. NotBefore j \<le> now" "int (length claimed) \<le> max (int (length (c @ [job]))) limit"
      "int (length claimed) < limit \<longrightarrow> (\<forall>j\<in>set ds. now < NotBefore j)" by auto
    with True show ?thesis by (intro exI [of _ "job # cs"] exI [of _ ds]) auto
  next
    case False
    with 2 obtain cs ds where *: "claimed = c @ cs" "deferred = (d @ [job]) @ ds" "mset cs + mset ds = mset pending"
      "\<forall>j\<in>set cs. NotBefore j \<le> now" "int (length claimed) \<le> max (int (length c)) limit"
      "int (length claimed) < limit \<longrightarrow> (\<forall>j\<in>set ds. now < NotBefore j)" by auto
    with False show ?thesis by (intro exI [of _ cs] exI [of _ "job # ds"]) auto
  qed
qed

lemma get_stamped:
  "get (foldl (stamp_claimed tn now) recs js) key =
     (if fst key = tn \<and> snd key \<in> ID ` set js
      then map_option (\<lambda>r. r\<lparr>j_ClaimedAt := now\<rparr>) (get recs key) else get recs key)"
proof (induction js arbitrary: recs)
  case (Cons j js)
  have "get (stamp_claimed tn now recs j) key =
     (if fst key = tn \<and> snd key = ID j then map_option (\<lambda>r. r\<lparr>j_ClaimedAt := now\<rparr>) (get recs key) else get recs key)"
    by (cases key) (auto simp: stamp_claimed_def get_put split: option.splits)
  then show ?case
    unfolding foldl_Cons Cons.IH by (cases "get recs key") auto
qed simp

lemma ClaimJobs_cases:
  assumes "ClaimJobs tn now h lim m = (claimed, m')"
  obtains (none) "claimed = []" "m' = m"
      "\<forall>j\<in>set (queue_of (m_jobs m) (tn, h)). now < NotBefore j"
    | (some) deferred where "claimed \<noteq> []" "mset claimed + mset deferred = mset (queue_of (m_jobs m) (tn, h))"
      "\<forall>j\<in>set claimed. NotBefore j \<le> now" "int (length claimed) \<le> (if lim \<le> 0 then 10 else lim)"
      "int (length claimed) < (if lim \<le> 0 then 10 else lim) \<longrightarrow> (\<forall>j\<in>set deferred. now < NotBefore j)"
      "\<And>key. queue_of (m_jobs m') key = (if key = (tn, h) then deferred else queue_of (m_jobs m) key)"
      "m_records m' = foldl (stamp_claimed tn now) (m_records m) claimed" "m_results m' = m_results m"
proof -
  define limit where "limit = (if lim \<le> 0 then 10 else lim)"
  obtain c d where cd: "claim_loop limit now (queue_of (m_jobs m) (tn, h)) [] [] = (c, d)" by fastforce
  have split: "mset c + mset d = mset (queue_of (m_jobs m) (tn, h))" "\<forall>j\<in>set c. NotBefore j \<le> now"
    "int (length c) \<le> limit" "int (length c) < limit \<longrightarrow> (\<forall>j\<in>set d. now < NotBefore j)"
    using claim_loop_split [OF cd] by (auto simp: limit_def split: if_splits)
  have pos: "0 < limit" by (simp add: limit_def)
  show ?thesis
  proof (cases "c = []")
    case True
    then have "claimed = []" "m' = m"
      using assms cd by (auto simp: ClaimJobs_def Let_def limit_def [symmetric] split: if_splits)
    with none split pos True show ?thesis using mset_eq_setD by fastforce
  next
    case False
    with split(1) have ne: "queue_of (m_jobs m) (tn, h) \<noteq> []" by auto
    from False assms cd ne have "claimed = c" and m': "m' = m\<lparr>
        m_jobs := (if d = [] then del (tn, h) (m_jobs m) else put (tn, h) d (m_jobs m)),
        m_records := foldl (stamp_claimed tn now) (m_records m) c\<rparr>"
      by (auto simp: ClaimJobs_def Let_def limit_def [symmetric])
    show ?thesis
      by (rule some [of d]; (use False split \<open>claimed = c\<close> in \<open>simp add: m' queue_simps flip: limit_def\<close>)?)
  qed
qed


subsection \<open>The invariant\<close>

lemma signed_onceD:
  "signed_once recs \<Longrightarrow> get recs (tn, i) = Some r \<Longrightarrow> get recs (tn, i') = Some r' \<Longrightarrow> j_HostID r = j_HostID r' \<Longrightarrow>
   Nonce (j_Job r) = Nonce (j_Job r') \<Longrightarrow> Signature (j_Job r) \<noteq> [] \<Longrightarrow> Signature (j_Job r') \<noteq> [] \<Longrightarrow> i = i'"
  unfolding signed_once_def by blast

lemma signed_once_mono:
  assumes once: "signed_once recs"
    and keep: "\<And>key r'. get recs' key = Some r' \<Longrightarrow>
      \<exists>r. get recs key = Some r \<and> j_Job r = j_Job r' \<and> j_HostID r = j_HostID r'"
  shows "signed_once recs'"
  unfolding signed_once_def
proof (intro allI impI, elim conjE)
  fix tn i i' r r'
  assume "get recs' (tn, i) = Some r" "get recs' (tn, i') = Some r'"
  then obtain q q' where "get recs (tn, i) = Some q" "j_Job q = j_Job r" "j_HostID q = j_HostID r"
    "get recs (tn, i') = Some q'" "j_Job q' = j_Job r'" "j_HostID q' = j_HostID r'"
    using keep by blast
  moreover assume "j_HostID r = j_HostID r'" "Nonce (j_Job r) = Nonce (j_Job r')"
    "Signature (j_Job r) \<noteq> []" "Signature (j_Job r') \<noteq> []"
  ultimately show "i = i'" using signed_onceD [OF once, of tn i q i' q'] by simp
qed

lemma signed_once_put:
  assumes once: "signed_once recs"
    and fresh: "\<And>a q. Signature (j_Job r) \<noteq> [] \<Longrightarrow> get recs (tn, a) = Some q \<Longrightarrow> j_HostID q = j_HostID r \<Longrightarrow>
      Signature (j_Job q) \<noteq> [] \<Longrightarrow> Nonce (j_Job q) \<noteq> Nonce (j_Job r)"
  shows "signed_once (put (tn, i) r recs)"
  unfolding signed_once_def
proof (intro allI impI, elim conjE)
  fix t a b x y
  assume "get (put (tn, i) r recs) (t, a) = Some x" "get (put (tn, i) r recs) (t, b) = Some y"
    "j_HostID x = j_HostID y" "Nonce (j_Job x) = Nonce (j_Job y)" "Signature (j_Job x) \<noteq> []" "Signature (j_Job y) \<noteq> []"
  then show "a = b"
    using signed_onceD [OF once, of t a x b y] fresh [of a x] fresh [of b y] by (auto simp: get_put split: if_splits)
qed

lemma jobs_invD:
  assumes "jobs_inv q recs res"
  shows "get recs key = Some r \<Longrightarrow> record_ok key r"
    and "distinct (List.map ID (queue_of q k))"
    and "j \<in> set (queue_of q (tn, h)) \<longleftrightarrow>
        (\<exists>r. get recs (tn, ID j) = Some r \<and> j_Job r = j \<and> j_HostID r = h \<and> Claimable r)"
    and "get res key \<noteq> None \<longleftrightarrow> (\<exists>r. get recs key = Some r \<and> j_CompletedAt r \<noteq> 0)"
    and "signed_once recs"
  using assms unfolding jobs_inv_def by (blast | metis surj_pair)+

lemma jobs_inv_NewMemory: "jobs_ok (NewMemory now)"
  by (simp add: NewMemory_def jobs_inv_def signed_once_def queue_of_def)

lemma jobs_inv_CreateJob:
  assumes inv: "jobs_ok m" and step: "CreateJob tn j m = Some (Inr m')"
  shows "jobs_ok m'"
proof -
  note I = jobs_invD [OF inv]
  let ?i = "ID (n_Job j)" and ?r = "job_entry j"
  from step show ?thesis
  proof (rule CreateJob_Inr)
    assume fresh: "get (m_records m) (tn, ?i) = None"
      and nonce: "\<And>i r. Signature (n_Job j) \<noteq> [] \<Longrightarrow> get (m_records m) (tn, i) = Some r \<Longrightarrow> j_HostID r = n_HostID j \<Longrightarrow>
       Signature (j_Job r) \<noteq> [] \<Longrightarrow> Nonce (j_Job r) \<noteq> Nonce (n_Job j)"
      and recs: "m_records m' = put (tn, ?i) ?r (m_records m)" and res: "m_results m' = m_results m"
      and q: "m_jobs m' = (if n_ApprovalRequired j then m_jobs m
        else put (tn, n_HostID j) (queue_of (m_jobs m) (tn, n_HostID j) @ [n_Job j]) (m_jobs m))"
    have entry: "record_ok (tn, ?i) ?r" "Claimable ?r \<longleftrightarrow> \<not> n_ApprovalRequired j" "j_CompletedAt ?r = 0"
      "j_Job ?r = n_Job j" "j_HostID ?r = n_HostID j"
      by (auto simp: record_ok_def job_entry_def Claimable_def AwaitingApproval_def is_zero_def)
    have unqueued: "x \<notin> set (queue_of (m_jobs m) (tn, h))" if "ID x = ?i" for x h
      using I(3) [of x tn h] fresh that by simp
    have nores: "get (m_results m) (tn, ?i) = None" using I(4) [of "(tn, ?i)"] fresh by auto
    show ?thesis
      unfolding jobs_inv_def recs res
    proof (intro conjI allI impI)
      show "record_ok key r" if "get (put (tn, ?i) ?r (m_records m)) key = Some r" for key r
        using that entry(1) I(1) by (auto simp: get_put split: if_splits)
      show "distinct (List.map ID (queue_of (m_jobs m') (t, h)))" for t h
        using I(2) [of "(t, h)"] unqueued by (auto simp: q queue_simps)
      show "x \<in> set (queue_of (m_jobs m') (t, h)) \<longleftrightarrow>
          (\<exists>r. get (put (tn, ?i) ?r (m_records m)) (t, ID x) = Some r \<and> j_Job r = x \<and> j_HostID r = h \<and> Claimable r)"
        for t h x
        using I(3) [of x t h] unqueued [of x h] entry by (auto simp: q queue_simps get_put)
      show "(get (m_results m) key \<noteq> None) = (\<exists>r. get (put (tn, ?i) ?r (m_records m)) key = Some r \<and> j_CompletedAt r \<noteq> 0)"
        for key
        using I(4) [of key] nores entry(3) by (auto simp: get_put)
      show "signed_once (put (tn, ?i) ?r (m_records m))"
        by (rule signed_once_put [OF I(5)]) (use nonce entry(4,5) in auto)
    qed
  qed
qed

lemma jobs_inv_ApproveJob:
  assumes inv: "jobs_ok m" and "now \<noteq> 0" and step: "ApproveJob tn i approver now m = Some (Inr m')"
  shows "jobs_ok m'"
proof -
  note I = jobs_invD [OF inv]
  from step obtain rec where rec: "get (m_records m) (tn, i) = Some rec" and waiting: "AwaitingApproval rec"
    and distinct: "j_ApprovalDistinctOperator rec \<longrightarrow> approver \<noteq> j_CreatedBy rec"
    and recs: "m_records m' = put (tn, i) (rec\<lparr>j_ApprovedAt := now, j_ApprovedBy := approver\<rparr>) (m_records m)"
    and res: "m_results m' = m_results m"
    and q: "m_jobs m' = put (tn, j_HostID rec) (queue_of (m_jobs m) (tn, j_HostID rec) @ [j_Job rec]) (m_jobs m)"
    by (rule ApproveJob_Inr)
  let ?r = "rec\<lparr>j_ApprovedAt := now, j_ApprovedBy := approver\<rparr>"
  from I(1) [OF rec] have old: "ID (j_Job rec) = i" "j_ClaimedAt rec = 0" "j_CompletedAt rec = 0"
    using waiting by (auto simp: record_ok_def)
  have new: "record_ok (tn, i) ?r" "Claimable ?r"
    using I(1) [OF rec] old waiting distinct \<open>now \<noteq> 0\<close>
    by (auto simp: record_ok_def AwaitingApproval_def Claimable_def is_zero_def)
  have unqueued: "x \<notin> set (queue_of (m_jobs m) (tn, h))" if "ID x = i" for x h
    using I(3) [of x tn h] rec that waiting by (auto simp: Claimable_def)
  show ?thesis
    unfolding jobs_inv_def recs res
  proof (intro conjI allI impI)
    show "record_ok key r" if "get (put (tn, i) ?r (m_records m)) key = Some r" for key r
      using that new(1) I(1) by (auto simp: get_put split: if_splits)
    show "distinct (List.map ID (queue_of (m_jobs m') (t, h)))" for t h
      using I(2) [of "(t, h)"] unqueued old(1) by (auto simp: q queue_simps)
    show "x \<in> set (queue_of (m_jobs m') (t, h)) \<longleftrightarrow>
        (\<exists>r. get (put (tn, i) ?r (m_records m)) (t, ID x) = Some r \<and> j_Job r = x \<and> j_HostID r = h \<and> Claimable r)"
      for t h x
      using I(3) [of x t h] unqueued [of x h] old(1) new(2) by (auto simp: q queue_simps get_put)
    show "(get (m_results m) key \<noteq> None) = (\<exists>r. get (put (tn, i) ?r (m_records m)) key = Some r \<and> j_CompletedAt r \<noteq> 0)"
      for key
      using I(4) [of key] rec old(3) by (auto simp: get_put)
    show "signed_once (put (tn, i) ?r (m_records m))"
      by (rule signed_once_mono [OF I(5)]) (use rec in \<open>auto simp: get_put split: if_splits\<close>)
  qed
qed

lemma jobs_inv_RecordResult:
  assumes inv: "jobs_ok m" and "now \<noteq> 0" and step: "RecordResult tn now h r m = Inr (first, m')"
  shows "jobs_ok m'"
proof -
  note I = jobs_invD [OF inv]
  from step obtain rec where rec: "get (m_records m) (tn, JobID r) = Some rec" "j_ClaimedAt rec \<noteq> 0"
    and q: "m_jobs m' = m_jobs m" and same: "\<not> first \<longrightarrow> m' = m"
    and new: "first \<longrightarrow> m_results m' = put (tn, JobID r) r (m_results m) \<and>
       m_records m' = put (tn, JobID r) (rec\<lparr>j_CompletedAt := now\<rparr>) (m_records m)"
    by (rule RecordResult_Inr)
  show ?thesis
  proof (cases first)
    case False
    with same inv show ?thesis by simp
  next
    case True
    let ?k = "(tn, JobID r)" and ?r = "rec\<lparr>j_CompletedAt := now\<rparr>"
    from True new have res: "m_results m' = put ?k r (m_results m)" and recs: "m_records m' = put ?k ?r (m_records m)"
      by auto
    have ok: "record_ok ?k ?r" using I(1) [OF rec(1)] rec(2) by (auto simp: record_ok_def AwaitingApproval_def)
    have "\<not> Claimable rec" "\<not> Claimable ?r" using rec(2) by (auto simp: Claimable_def is_zero_def)
    show ?thesis
      unfolding jobs_inv_def recs res q
    proof (intro conjI allI impI)
      show "record_ok key x" if "get (put ?k ?r (m_records m)) key = Some x" for key x
        using that ok I(1) by (auto simp: get_put split: if_splits)
      show "distinct (List.map ID (queue_of (m_jobs m) (t, h)))" for t h by (rule I(2))
      show "x \<in> set (queue_of (m_jobs m) (t, h)) \<longleftrightarrow>
          (\<exists>r. get (put ?k ?r (m_records m)) (t, ID x) = Some r \<and> j_Job r = x \<and> j_HostID r = h \<and> Claimable r)"
        for t h x
        using I(3) [of x t h] rec(1) \<open>\<not> Claimable rec\<close> \<open>\<not> Claimable ?r\<close> by (auto simp: get_put)
      show "(get (put ?k r (m_results m)) key \<noteq> None) = (\<exists>r. get (put ?k ?r (m_records m)) key = Some r \<and> j_CompletedAt r \<noteq> 0)"
        for key
        using I(4) [of key] \<open>now \<noteq> 0\<close> by (auto simp: get_put)
      show "signed_once (put ?k ?r (m_records m))"
        by (rule signed_once_mono [OF I(5)]) (use rec(1) in \<open>auto simp: get_put split: if_splits\<close>)
    qed
  qed
qed

lemma jobs_inv_ClaimJobs:
  assumes inv: "jobs_ok m" and "now \<noteq> 0" and step: "ClaimJobs tn now h lim m = (claimed, m')"
  shows "jobs_ok m'"
  using step
proof (cases rule: ClaimJobs_cases)
  case none
  with inv show ?thesis by simp
next
  case (some deferred)
  note I = jobs_invD [OF inv]
  let ?recs = "foldl (stamp_claimed tn now) (m_records m) claimed"
  have dist: "distinct (List.map ID (claimed @ deferred))"
    using I(2) [of "(tn, h)"] some(2) by (metis distinct_map mset_append mset_eq_setD mset_eq_imp_distinct_iff)
  have sets: "set (queue_of (m_jobs m) (tn, h)) = set claimed \<union> set deferred"
    using some(2) by (metis mset_append mset_eq_setD set_append)
  have claimed: "get (m_records m) (tn, ID j) = Some r \<Longrightarrow> j \<in> set claimed \<Longrightarrow>
      j_Job r = j \<and> j_HostID r = h \<and> Claimable r" for j r
    using I(3) [of j tn h] sets by auto
  show ?thesis
    unfolding jobs_inv_def some(7,8)
  proof (intro conjI allI impI)
    show "record_ok key r" if "get ?recs key = Some r" for key r
    proof (cases "fst key = tn \<and> snd key \<in> ID ` set claimed")
      case True
      with that obtain r0 j where r0: "get (m_records m) key = Some r0" "r = r0\<lparr>j_ClaimedAt := now\<rparr>"
        "key = (tn, ID j)" "j \<in> set claimed" by (cases key) (auto simp: get_stamped)
      with claimed [of j r0] I(1) [OF r0(1)] \<open>now \<noteq> 0\<close> show ?thesis
        by (auto simp: record_ok_def Claimable_def AwaitingApproval_def is_zero_def split: if_splits)
    next
      case False
      with that I(1) show ?thesis by (auto simp: get_stamped)
    qed
    show "distinct (List.map ID (queue_of (m_jobs m') (t, h')))" for t h'
      using I(2) [of "(t, h')"] dist by (simp add: some(6))
    show "x \<in> set (queue_of (m_jobs m') (t, h')) \<longleftrightarrow>
        (\<exists>r. get ?recs (t, ID x) = Some r \<and> j_Job r = x \<and> j_HostID r = h' \<and> Claimable r)" for t h' x
    proof (cases "t = tn \<and> ID x \<in> ID ` set claimed")
      case True
      then obtain j where j: "t = tn" "ID x = ID j" "j \<in> set claimed" by auto
      have "x \<notin> set (queue_of (m_jobs m') (t, h'))"
      proof
        assume "x \<in> set (queue_of (m_jobs m') (t, h'))"
        then have "x \<in> set deferred \<or> h' \<noteq> h \<and> x \<in> set (queue_of (m_jobs m) (tn, h'))"
          using j(1) by (auto simp: some(6) split: if_splits)
        then show False
        proof
          assume "x \<in> set deferred"
          with j dist show False by force
        next
          assume "h' \<noteq> h \<and> x \<in> set (queue_of (m_jobs m) (tn, h'))"
          with I(3) [of x tn h'] claimed [of j] j show False by auto
        qed
      qed
      moreover have "\<not> Claimable (r\<lparr>j_ClaimedAt := now\<rparr>)" for r
        using \<open>now \<noteq> 0\<close> by (simp add: Claimable_def is_zero_def)
      ultimately show ?thesis using True by (auto simp: get_stamped)
    next
      case False
      then have "x \<in> set (queue_of (m_jobs m') (t, h')) \<longleftrightarrow> x \<in> set (queue_of (m_jobs m) (t, h'))"
        using sets by (auto simp: some(6))
      with False I(3) [of x t h'] show ?thesis by (auto simp: get_stamped)
    qed
    show "(get (m_results m) key \<noteq> None) = (\<exists>r. get ?recs key = Some r \<and> j_CompletedAt r \<noteq> 0)" for key
      using I(4) [of key] by (cases "get (m_records m) key") (auto simp: get_stamped)
    show "signed_once ?recs"
      by (rule signed_once_mono [OF I(5)]) (auto simp: get_stamped split: if_splits)
  qed
qed

lemma jobs_inv_DeleteHost:
  assumes inv: "jobs_ok m" and step: "DeleteHost tn h m = Inr m'"
  shows "jobs_ok m'"
proof -
  note I = jobs_invD [OF inv]
  define doomed where "doomed = (\<lambda>key. fst key = tn \<and>
     (case get (m_records m) key of None \<Rightarrow> False | Some rec \<Rightarrow> j_HostID rec = h))"
  from step have q: "m_jobs m' = del (tn, h) (m_jobs m)"
    and recs: "m_records m' = sweep (\<lambda>key _. doomed key) (m_records m)"
    and res: "m_results m' = sweep (\<lambda>key _. doomed key) (m_results m)"
    by (auto simp: DeleteHost_def Let_def doomed_def split: if_splits)
  have kept: "get (sweep (\<lambda>key _. doomed key) (m_records m)) key = Some r \<longleftrightarrow>
      get (m_records m) key = Some r \<and> \<not> (fst key = tn \<and> j_HostID r = h)" for key r
    by (auto simp: get_sweep_Some doomed_def)
  show ?thesis
    unfolding jobs_inv_def recs res q
  proof (intro conjI allI impI)
    show "(get (sweep (\<lambda>key _. doomed key) (m_results m)) key \<noteq> None) =
        (\<exists>r. get (sweep (\<lambda>key _. doomed key) (m_records m)) key = Some r \<and> j_CompletedAt r \<noteq> 0)" for key
      using I(4) [of key] by (auto simp: get_sweep split: option.splits)
    show "signed_once (sweep (\<lambda>key _. doomed key) (m_records m))"
      by (rule signed_once_mono [OF I(5)]) (auto simp: kept)
  qed (use I in \<open>auto simp: kept queue_simps\<close>)
qed

lemma jobs_inv_DeleteTenant:
  assumes inv: "jobs_ok m" and step: "DeleteTenant tn m = Inr m'"
  shows "jobs_ok m'"
proof -
  note I = jobs_invD [OF inv]
  from step have q: "m_jobs m' = sweep (\<lambda>key _. fst key = tn) (m_jobs m)"
    and recs: "m_records m' = sweep (\<lambda>key _. fst key = tn) (m_records m)"
    and res: "m_results m' = sweep (\<lambda>key _. fst key = tn) (m_results m)"
    by (auto simp: DeleteTenant_def Let_def split: if_splits)
  show ?thesis
    unfolding jobs_inv_def recs res q
  proof (intro conjI allI impI)
    show "(get (sweep (\<lambda>key _. fst key = tn) (m_results m)) key \<noteq> None) =
        (\<exists>r. get (sweep (\<lambda>key _. fst key = tn) (m_records m)) key = Some r \<and> j_CompletedAt r \<noteq> 0)" for key
      using I(4) [of key] by (auto simp: get_sweep split: option.splits)
    show "signed_once (sweep (\<lambda>key _. fst key = tn) (m_records m))"
      by (rule signed_once_mono [OF I(5)]) (auto simp: get_sweep_Some)
  qed (use I in \<open>auto simp: get_sweep_Some queue_simps\<close>)
qed

section \<open>Channels\<close>

text \<open>A waiting channel is open, and waits for one host, once: closing the waiters of a host cannot
  panic.\<close>

definition waiters_inv :: "(bytes, nat list) gomap \<Rightarrow> nat \<Rightarrow> nat list \<Rightarrow> bool" where
  "waiters_inv waiters made closed \<longleftrightarrow>
     (\<forall>h w. w \<in> set (waiting_in waiters h) \<longrightarrow> w < made \<and> w \<notin> set closed) \<and>
     (\<forall>h. distinct (waiting_in waiters h)) \<and>
     (\<forall>h h' w. w \<in> set (waiting_in waiters h) \<longrightarrow> w \<in> set (waiting_in waiters h') \<longrightarrow> h = h') \<and>
     (\<forall>w\<in>set closed. w < made)"

abbreviation waiters_ok :: "memory \<Rightarrow> bool" where
  "waiters_ok m \<equiv> waiters_inv (m_waiters m) (m_channels m) (m_closed m)"

lemma close_all_open:
  "distinct ws \<Longrightarrow> set ws \<inter> set (m_closed m) = {} \<Longrightarrow> close_all ws m = Some (m\<lparr>m_closed := rev ws @ m_closed m\<rparr>)"
  by (induction ws arbitrary: m) auto

lemma enqueue_and_wake_open:
  assumes "waiters_ok m"
  shows "enqueue_and_wake tn h j m =
    Some (m\<lparr>m_jobs := put (tn, h) (queue_of (m_jobs m) (tn, h) @ [j]) (m_jobs m),
            m_waiters := del h (m_waiters m), m_closed := rev (waiting m h) @ m_closed m\<rparr>)"
proof -
  have "distinct (waiting m h)" "set (waiting m h) \<inter> set (m_closed m) = {}"
    using assms by (auto simp: waiters_inv_def)
  then show ?thesis
    by (simp add: enqueue_and_wake_def takeWaiters_def Let_def close_all_open waiting_in_def)
qed

lemma waiters_ok_enqueue:
  assumes "waiters_ok m" "enqueue_and_wake tn h j m = Some m'"
  shows "waiters_ok m'"
proof -
  have w: "waiting m' h' = (if h' = h then [] else waiting m h')" for h'
    using enqueue_and_wake_Some [OF assms(2)] by (simp add: waiting_in_def)
  have c: "m_closed m' = rev (waiting m h) @ m_closed m" "m_channels m' = m_channels m"
    using enqueue_and_wake_Some [OF assms(2)] by simp_all
  show ?thesis
    using assms(1) unfolding waiters_inv_def w c by auto
qed

lemma waiters_ok_CreateJob:
  assumes ok: "waiters_ok m"
  shows "CreateJob tn j m \<noteq> None" "CreateJob tn j m = Some (Inr m') \<Longrightarrow> waiters_ok m'"
proof -
  have ok': "waiters_ok (m\<lparr>m_records := x\<rparr>)" for x using ok by simp
  show "CreateJob tn j m \<noteq> None" by (simp add: CreateJob_def Let_def enqueue_and_wake_open [OF ok'])
  show "waiters_ok m'" if "CreateJob tn j m = Some (Inr m')"
    using that ok waiters_ok_enqueue [OF ok'] by (auto simp: CreateJob_def Let_def split: if_splits)
qed

lemma waiters_ok_ApproveJob:
  assumes ok: "waiters_ok m"
  shows "ApproveJob tn i approver now m \<noteq> None" "ApproveJob tn i approver now m = Some (Inr m') \<Longrightarrow> waiters_ok m'"
proof -
  have ok': "waiters_ok (m\<lparr>m_records := x\<rparr>)" for x using ok by simp
  show "ApproveJob tn i approver now m \<noteq> None"
    by (cases "get (m_records m) (tn, i)") (simp_all add: ApproveJob_def Let_def enqueue_and_wake_open [OF ok'])
  show "waiters_ok m'" if "ApproveJob tn i approver now m = Some (Inr m')"
    using that waiters_ok_enqueue [OF ok']
    by (cases "get (m_records m) (tn, i)") (auto simp: ApproveJob_def Let_def split: if_splits)
qed

lemma waiting_Subscribe:
  "waiting (snd (Subscribe h m)) h' = (if h' = h then waiting m h @ [m_channels m] else waiting m h')"
  by (simp add: Subscribe_def Let_def waiting_in_def get_put)

lemma waiters_ok_Subscribe: "waiters_ok m \<Longrightarrow> waiters_ok (snd (Subscribe h m))"
proof -
  assume ok: "waiters_ok m"
  have same: "m_closed (snd (Subscribe h m)) = m_closed m"
    "m_channels (snd (Subscribe h m)) = Suc (m_channels m)"
    by (simp_all add: Subscribe_def Let_def)
  show ?thesis
    using ok unfolding waiters_inv_def waiting_Subscribe same by (auto simp: less_Suc_eq)
qed

lemma waiting_removeWaiter:
  "waiting (removeWaiter h w m) h' = (if h' = h then remove1 w (waiting m h) else waiting m h')"
  by (auto simp: removeWaiter_def Let_def waiting_in_def get_put remove1_idem split: option.splits)

lemma waiters_ok_removeWaiter: "waiters_ok m \<Longrightarrow> waiters_ok (removeWaiter h w m)"
proof -
  assume ok: "waiters_ok m"
  have same: "m_closed (removeWaiter h w m) = m_closed m" "m_channels (removeWaiter h w m) = m_channels m"
    by (simp_all add: removeWaiter_def Let_def)
  show ?thesis
    using ok unfolding waiters_inv_def waiting_removeWaiter same
    by (auto dest: in_set_remove1 [THEN iffD1, rotated] notin_set_remove1 split: if_splits)
qed

section \<open>Delivery\<close>

text \<open>The polls of one host, at the times of the list.\<close>

fun polls :: "tenant_id \<Rightarrow> bytes \<Rightarrow> int \<Rightarrow> instant list \<Rightarrow> memory \<Rightarrow> job list \<times> memory" where
  "polls tn h lim [] m = ([], m)"
| "polls tn h lim (now # nows) m =
     (let (js, m1) = ClaimJobs tn now h lim m;
          (js', m2) = polls tn h lim nows m1
      in (js @ js', m2))"

text \<open>A poll delivers every due job of the queue, or takes something from it.\<close>

lemma ClaimJobs_progress:
  assumes "ClaimJobs tn now h lim m = (claimed, m')" "j \<in> set (queue_of (m_jobs m) (tn, h))" "NotBefore j \<le> now"
  shows "j \<in> set claimed \<or> j \<in> set (queue_of (m_jobs m') (tn, h)) \<and>
    length (queue_of (m_jobs m') (tn, h)) < length (queue_of (m_jobs m) (tn, h))"
  using assms(1)
proof (cases rule: ClaimJobs_cases)
  case none
  with assms show ?thesis by force
next
  case (some deferred)
  have "length claimed + length deferred = length (queue_of (m_jobs m) (tn, h))"
    using some(2) by (metis size_mset size_union)
  moreover have "0 < length claimed" using some(1) by simp
  ultimately have "length deferred < length (queue_of (m_jobs m) (tn, h))" by linarith
  moreover have "j \<in> set claimed \<or> j \<in> set deferred"
    using some(2) assms(2) by (metis mset_append mset_eq_setD set_append Un_iff)
  ultimately show ?thesis by (auto simp: some(6))
qed

lemma polls_deliver:
  assumes "j \<in> set (queue_of (m_jobs m) (tn, h))" "length (queue_of (m_jobs m) (tn, h)) \<le> length nows"
    "\<forall>now\<in>set nows. NotBefore j \<le> now"
  shows "j \<in> set (fst (polls tn h lim nows m))"
  using assms
proof (induction nows arbitrary: m)
  case Nil
  then show ?case by simp
next
  case (Cons now nows)
  obtain js m1 where claim: "ClaimJobs tn now h lim m = (js, m1)" by fastforce
  show ?case
  proof (cases "j \<in> set js")
    case True
    with claim show ?thesis by (simp add: split_beta)
  next
    case False
    with ClaimJobs_progress [OF claim, of j] Cons.prems have "j \<in> set (queue_of (m_jobs m1) (tn, h))"
      "length (queue_of (m_jobs m1) (tn, h)) \<le> length nows" by auto
    with Cons.IH [of m1] Cons.prems(3) claim show ?thesis by (simp add: split_beta)
  qed
qed

end
