(* ===== verification/AccountStore.thy ===== *)
theory AccountStore
  imports Store
begin

text \<open>
  Accounts, browser sessions and API tokens of the in-memory store (\<open>memory_accounts.go\<close>). The
  platform handle is the one with the empty tenant. A session and a token belong to an account, and
  through it to a tenant; \<open>credentials_ok\<close> says that none outlives its account.
\<close>

section \<open>Lookups before any scope is known\<close>

definition AccountByEmail :: "bytes \<Rightarrow> memory \<Rightarrow> (store_error, account) result" where
  "AccountByEmail emailKey m =
     (case first_entry (\<lambda>_ a. a_EmailKey a = emailKey) (m_accounts m) of
        None \<Rightarrow> Inl ErrNotFound | Some a \<Rightarrow> Inr a)"

definition SessionByToken :: "bytes \<Rightarrow> memory \<Rightarrow> (store_error, session_row \<times> account) result" where
  "SessionByToken tokenHash m =
     (case get (m_sessions m) tokenHash of
        None \<Rightarrow> Inl ErrNotFound
      | Some held \<Rightarrow>
          (case get (m_accounts m) (s_AccountID held) of
             None \<Rightarrow> Inl ErrNotFound | Some account \<Rightarrow> Inr (held, account)))"

definition APITokenByHash :: "bytes \<Rightarrow> memory \<Rightarrow> (store_error, api_token \<times> account) result" where
  "APITokenByHash hash m =
     (case get (m_apiTokens m) hash of
        None \<Rightarrow> Inl ErrNotFound
      | Some held \<Rightarrow>
          (case get (m_accounts m) (at_AccountID held) of
             None \<Rightarrow> Inl ErrNotFound | Some account \<Rightarrow> Inr (held, account)))"

section \<open>Accounts\<close>

definition CreateAccount :: "tenant_id \<Rightarrow> instant \<Rightarrow> account \<Rightarrow> memory \<Rightarrow> (store_error, memory) result" where
  "CreateAccount tn now a m =
     (if tn \<noteq> [] \<and> get (m_tenants m) tn = None then Inl (ErrUnknownTenant tn)
      else if get (m_accounts m) (a_ID a) \<noteq> None then Inl ErrConflict
      else if any_entry (\<lambda>_ held. a_EmailKey held = a_EmailKey a) (m_accounts m) then Inl ErrConflict
      else let a' = a\<lparr>a_TenantID := tn,
                      a_CreatedAt := (if is_zero (a_CreatedAt a) then now else a_CreatedAt a)\<rparr>
           in Inr (m\<lparr>m_accounts := put (a_ID a) a' (m_accounts m)\<rparr>))"

definition scoped_account :: "tenant_id \<Rightarrow> bytes \<Rightarrow> memory \<Rightarrow> account option" where
  "scoped_account tn i m =
     (case get (m_accounts m) i of
        None \<Rightarrow> None | Some a \<Rightarrow> if a_TenantID a \<noteq> tn then None else Some a)"

definition GetAccount :: "tenant_id \<Rightarrow> bytes \<Rightarrow> memory \<Rightarrow> (store_error, account) result" where
  "GetAccount tn i m = (case scoped_account tn i m of None \<Rightarrow> Inl ErrNotFound | Some a \<Rightarrow> Inr a)"

definition ListAccounts :: "tenant_id \<Rightarrow> memory \<Rightarrow> account list" where
  "ListAccounts tn m = sort_by
     (\<lambda>x y. if a_CreatedAt x \<noteq> a_CreatedAt y then a_CreatedAt x < a_CreatedAt y else a_ID x < a_ID y)
     (collect_if (\<lambda>_ a. a_TenantID a = tn) (m_accounts m))"

definition updateAccount :: "tenant_id \<Rightarrow> bytes \<Rightarrow> (account \<Rightarrow> account) \<Rightarrow> memory \<Rightarrow> (store_error, memory) result" where
  "updateAccount tn i change m =
     (case scoped_account tn i m of
        None \<Rightarrow> Inl ErrNotFound
      | Some a \<Rightarrow> Inr (m\<lparr>m_accounts := put i (change a) (m_accounts m)\<rparr>))"

definition UpdateAccountPassword :: "tenant_id \<Rightarrow> bytes \<Rightarrow> bytes \<Rightarrow> memory \<Rightarrow> (store_error, memory) result" where
  "UpdateAccountPassword tn i passwordHash = updateAccount tn i (\<lambda>a. a\<lparr>a_PasswordHash := passwordHash\<rparr>)"

definition RecordAccountSignIn :: "tenant_id \<Rightarrow> bytes \<Rightarrow> instant \<Rightarrow> memory \<Rightarrow> (store_error, memory) result" where
  "RecordAccountSignIn tn i at = updateAccount tn i (\<lambda>a. a\<lparr>a_LastSignedInAt := at\<rparr>)"

definition DeleteAccount :: "tenant_id \<Rightarrow> bytes \<Rightarrow> memory \<Rightarrow> (store_error, memory) result" where
  "DeleteAccount tn i m =
     (if scoped_account tn i m = None then Inl ErrNotFound
      else Inr (m\<lparr>m_accounts := del i (m_accounts m),
                  m_sessions := sweep (\<lambda>_ held. s_AccountID held = i) (m_sessions m),
                  m_apiTokens := sweep (\<lambda>_ held. at_AccountID held = i) (m_apiTokens m)\<rparr>))"

section \<open>Sessions\<close>

definition CreateSession :: "tenant_id \<Rightarrow> session_row \<Rightarrow> memory \<Rightarrow> (store_error, memory) result" where
  "CreateSession tn s m =
     (if scoped_account tn (s_AccountID s) m = None then Inl ErrNotFound
      else
        let cleared = sweep (\<lambda>_ held. s_AccountID held = s_AccountID s \<and> \<not> session_Valid held (s_CreatedAt s))
                        (m_sessions m)
        in Inr (m\<lparr>m_sessions := put (s_TokenHash s) s cleared\<rparr>))"

definition ListSessions :: "tenant_id \<Rightarrow> bytes \<Rightarrow> memory \<Rightarrow> (store_error, session_row list) result" where
  "ListSessions tn accountID m =
     (if scoped_account tn accountID m = None then Inl ErrNotFound
      else Inr (sort_by
        (\<lambda>x y. if s_CreatedAt x \<noteq> s_CreatedAt y then s_CreatedAt y < s_CreatedAt x else s_TokenHash x < s_TokenHash y)
        (collect_if (\<lambda>_ held. s_AccountID held = accountID) (m_sessions m))))"

definition TouchSession ::
  "tenant_id \<Rightarrow> bytes \<Rightarrow> bytes \<Rightarrow> instant \<Rightarrow> instant \<Rightarrow> memory \<Rightarrow> (store_error, memory) result" where
  "TouchSession tn accountID tokenHash expiresAt usedAt m =
     (if scoped_account tn accountID m = None then Inl ErrNotFound
      else case get (m_sessions m) tokenHash of
        None \<Rightarrow> Inl ErrNotFound
      | Some held \<Rightarrow>
          if s_AccountID held \<noteq> accountID then Inl ErrNotFound
          else Inr (m\<lparr>m_sessions := put tokenHash (held\<lparr>s_ExpiresAt := expiresAt, s_LastUsedAt := usedAt\<rparr>)
                                     (m_sessions m)\<rparr>))"

definition DeleteSession :: "tenant_id \<Rightarrow> bytes \<Rightarrow> bytes \<Rightarrow> memory \<Rightarrow> (store_error, memory) result" where
  "DeleteSession tn accountID tokenHash m =
     (if scoped_account tn accountID m = None then Inl ErrNotFound
      else case get (m_sessions m) tokenHash of
        None \<Rightarrow> Inr m
      | Some held \<Rightarrow>
          if s_AccountID held = accountID then Inr (m\<lparr>m_sessions := del tokenHash (m_sessions m)\<rparr>) else Inr m)"

definition DeleteSessionsFor :: "tenant_id \<Rightarrow> bytes \<Rightarrow> memory \<Rightarrow> (store_error, nat \<times> memory) result" where
  "DeleteSessionsFor tn accountID m =
     (if scoped_account tn accountID m = None then Inl ErrNotFound
      else Inr (count_if (\<lambda>_ held. s_AccountID held = accountID) (m_sessions m),
                m\<lparr>m_sessions := sweep (\<lambda>_ held. s_AccountID held = accountID) (m_sessions m)\<rparr>))"

section \<open>API tokens\<close>

definition CreateAPIToken :: "tenant_id \<Rightarrow> api_token \<Rightarrow> memory \<Rightarrow> (store_error, memory) result" where
  "CreateAPIToken tn t m =
     (if scoped_account tn (at_AccountID t) m = None then Inl ErrNotFound
      else if get (m_apiTokens m) (at_Hash t) \<noteq> None then Inl ErrConflict
      else Inr (m\<lparr>m_apiTokens := put (at_Hash t) t (m_apiTokens m)\<rparr>))"

definition ListAPITokens :: "tenant_id \<Rightarrow> bytes \<Rightarrow> memory \<Rightarrow> (store_error, api_token list) result" where
  "ListAPITokens tn accountID m =
     (if scoped_account tn accountID m = None then Inl ErrNotFound
      else Inr (sort_by
        (\<lambda>x y. if at_CreatedAt x \<noteq> at_CreatedAt y then at_CreatedAt y < at_CreatedAt x else at_Hash x < at_Hash y)
        (collect_if (\<lambda>_ held. at_AccountID held = accountID) (m_apiTokens m))))"

definition TouchAPIToken :: "tenant_id \<Rightarrow> bytes \<Rightarrow> bytes \<Rightarrow> instant \<Rightarrow> memory \<Rightarrow> (store_error, memory) result" where
  "TouchAPIToken tn accountID hash usedAt m =
     (if scoped_account tn accountID m = None then Inl ErrNotFound
      else case get (m_apiTokens m) hash of
        None \<Rightarrow> Inl ErrNotFound
      | Some held \<Rightarrow>
          if at_AccountID held \<noteq> accountID then Inl ErrNotFound
          else Inr (m\<lparr>m_apiTokens := put hash (held\<lparr>at_LastUsedAt := usedAt\<rparr>) (m_apiTokens m)\<rparr>))"

definition DeleteAPIToken :: "tenant_id \<Rightarrow> bytes \<Rightarrow> bytes \<Rightarrow> memory \<Rightarrow> (store_error, memory) result" where
  "DeleteAPIToken tn accountID hash m =
     (if scoped_account tn accountID m = None then Inl ErrNotFound
      else case get (m_apiTokens m) hash of
        None \<Rightarrow> Inl ErrNotFound
      | Some held \<Rightarrow>
          if at_AccountID held \<noteq> accountID then Inl ErrNotFound
          else Inr (m\<lparr>m_apiTokens := del hash (m_apiTokens m)\<rparr>))"

lemma scoped_account_Some:
  "scoped_account tn i m = Some a \<longleftrightarrow> get (m_accounts m) i = Some a \<and> a_TenantID a = tn"
  by (auto simp: scoped_account_def split: option.splits if_splits)

end
