(* ===== verification/FleetStore.thy ===== *)
theory FleetStore
  imports MemStore
begin

text \<open>
  What the in-memory store keeps about a fleet beside its hosts and jobs: events, unit transitions and
  alerts (\<open>memory_observability.go\<close>), provisioning templates (\<open>memory_templates.go\<close>) and published
  wallboards (\<open>memory_wallboard.go\<close>). Shown here: the eviction keeps the newest rows and no other
  fleet's, a template version once written is never overwritten, and an alert is claimed at most once
  per cooldown.
\<close>

section \<open>Events and transitions\<close>

definition clampEventLimit :: "int \<Rightarrow> int" where
  "clampEventLimit n =
     (if n \<le> 0 then DefaultEventLimit else if n > MaxEventLimit then MaxEventLimit else n)"

text \<open>The loop that drops the first \<open>n\<close> rows of those meant.\<close>

fun drop_mine :: "('a \<Rightarrow> bool) \<Rightarrow> nat \<Rightarrow> 'a list \<Rightarrow> 'a list" where
  "drop_mine P n [] = []"
| "drop_mine P n (row # rows) =
     (if P row \<and> n > 0 then drop_mine P (n - 1) rows else row # drop_mine P n rows)"

definition evict :: "('a \<Rightarrow> bool) \<Rightarrow> nat \<Rightarrow> 'a list \<Rightarrow> 'a list" where
  "evict P limit rows =
     (let mine = length (List.filter P rows)
      in if mine > limit then drop_mine P (mine - limit) rows else rows)"

definition RecordEvent :: "tenant_id \<Rightarrow> event \<Rightarrow> memory \<Rightarrow> (store_error, memory) result" where
  "RecordEvent tn e m =
     (if get (m_tenants m) tn = None then Inl (ErrUnknownTenant tn)
      else Inr (m\<lparr>m_events := evict (\<lambda>row. snd row = tn) MaxEventsPerTenant (m_events m @ [(e, tn)])\<rparr>))"

definition ListEvents :: "tenant_id \<Rightarrow> event_filter \<Rightarrow> memory \<Rightarrow> event list" where
  "ListEvents tn f m =
     take (nat (clampEventLimit (ef_Limit f)))
       (sort_by (\<lambda>x y. if e_At x \<noteq> e_At y then e_At y < e_At x else e_ID y < e_ID x)
         (List.map fst (List.filter (\<lambda>row. snd row = tn \<and> (ef_Kind f = [] \<or> e_Kind (fst row) = ef_Kind f))
           (m_events m))))"

definition of_host :: "tenant_id \<Rightarrow> bytes \<Rightarrow> transition_row \<Rightarrow> bool" where
  "of_host tn hostID row \<longleftrightarrow> snd row = tn \<and> ut_HostID (fst row) = hostID"

definition RecordUnitTransitions ::
  "tenant_id \<Rightarrow> bytes \<Rightarrow> unit_transition list \<Rightarrow> memory \<Rightarrow> (store_error, memory) result" where
  "RecordUnitTransitions tn hostID trs m =
     (if trs = [] then Inr m
      else if scoped_host tn hostID m = None then Inl (ErrUnknownTenant tn)
      else Inr (m\<lparr>m_transitions := evict (of_host tn hostID) MaxUnitTransitionsPerHost
                    (m_transitions m @ List.map (\<lambda>tr. (tr\<lparr>ut_HostID := hostID\<rparr>, tn)) trs)\<rparr>))"

definition ListUnitTransitions :: "tenant_id \<Rightarrow> bytes \<Rightarrow> int \<Rightarrow> memory \<Rightarrow> unit_transition list" where
  "ListUnitTransitions tn hostID lim m =
     (let limit = (if lim \<le> 0 \<or> lim > int MaxUnitTransitionsPerHost then MaxUnitTransitionsPerHost else nat lim)
      in take limit (sort_by (\<lambda>x y. ut_At y < ut_At x)
           (List.map fst (List.filter (of_host tn hostID) (m_transitions m)))))"

section \<open>Alerts\<close>

definition CreateAlertRule :: "tenant_id \<Rightarrow> alert_rule \<Rightarrow> memory \<Rightarrow> (store_error, memory) result" where
  "CreateAlertRule tn r m =
     (if get (m_tenants m) tn = None then Inl (ErrUnknownTenant tn)
      else if get (m_rules m) (tn, ar_ID r) \<noteq> None then Inl ErrConflict
      else Inr (m\<lparr>m_rules := put (tn, ar_ID r) r (m_rules m)\<rparr>))"

definition ListAlertRules :: "tenant_id \<Rightarrow> memory \<Rightarrow> alert_rule list" where
  "ListAlertRules tn m = sort_by
     (\<lambda>x y. if ar_CreatedAt x \<noteq> ar_CreatedAt y then ar_CreatedAt x < ar_CreatedAt y else ar_ID x < ar_ID y)
     (collect_if (\<lambda>key _. fst key = tn) (m_rules m))"

definition UpdateAlertRule :: "tenant_id \<Rightarrow> alert_rule \<Rightarrow> memory \<Rightarrow> (store_error, memory) result" where
  "UpdateAlertRule tn r m =
     (case get (m_rules m) (tn, ar_ID r) of
        None \<Rightarrow> Inl ErrNotFound
      | Some held \<Rightarrow> Inr (m\<lparr>m_rules := put (tn, ar_ID r)
          (held\<lparr>ar_Threshold := ar_Threshold r, ar_CooldownSeconds := ar_CooldownSeconds r,
                ar_EmailTo := ar_EmailTo r, ar_Enabled := ar_Enabled r\<rparr>) (m_rules m)\<rparr>))"

definition RecordAlertDelivery :: "tenant_id \<Rightarrow> bytes \<Rightarrow> instant \<Rightarrow> bytes \<Rightarrow> memory \<Rightarrow> memory" where
  "RecordAlertDelivery tn ruleID at failure m =
     (case get (m_rules m) (tn, ruleID) of
        None \<Rightarrow> m
      | Some held \<Rightarrow> m\<lparr>m_rules := put (tn, ruleID)
          (held\<lparr>ar_LastDeliveryAt := at, ar_LastDeliveryError := failure\<rparr>) (m_rules m)\<rparr>)"

definition DeleteAlertRule :: "tenant_id \<Rightarrow> bytes \<Rightarrow> memory \<Rightarrow> (store_error, memory) result" where
  "DeleteAlertRule tn i m =
     (if get (m_rules m) (tn, i) = None then Inl ErrNotFound
      else Inr (m\<lparr>m_rules := del (tn, i) (m_rules m),
                  m_states := sweep (\<lambda>sk _. fst sk = tn \<and> ak_RuleID (snd sk) = i) (m_states m)\<rparr>))"

definition alert_before :: "alert_state \<Rightarrow> alert_state \<Rightarrow> bool" where
  "alert_before x y \<longleftrightarrow>
     (if ak_RuleID (as_Key x) \<noteq> ak_RuleID (as_Key y) then ak_RuleID (as_Key x) < ak_RuleID (as_Key y)
      else if ak_HostID (as_Key x) \<noteq> ak_HostID (as_Key y) then ak_HostID (as_Key x) < ak_HostID (as_Key y)
      else ak_Subject (as_Key x) < ak_Subject (as_Key y))"

definition ListAlertStates :: "tenant_id \<Rightarrow> memory \<Rightarrow> alert_state list" where
  "ListAlertStates tn m = sort_by alert_before (collect_if (\<lambda>key _. fst key = tn) (m_states m))"

definition UpsertAlertState :: "tenant_id \<Rightarrow> alert_state \<Rightarrow> memory \<Rightarrow> (store_error, memory) result" where
  "UpsertAlertState tn st m =
     (if get (m_rules m) (tn, ak_RuleID (as_Key st)) = None then Inl (ErrUnknownTenant tn)
      else Inr (m\<lparr>m_states := put (tn, as_Key st) st (m_states m)\<rparr>))"

definition ReleaseAlertFiring :: "tenant_id \<Rightarrow> alert_key \<Rightarrow> memory \<Rightarrow> bool \<times> memory" where
  "ReleaseAlertFiring tn key m =
     (case get (m_states m) (tn, key) of
        None \<Rightarrow> (False, m)
      | Some held \<Rightarrow>
          if \<not> as_Firing held then (False, m)
          else (True, m\<lparr>m_states := put (tn, key) (held\<lparr>as_Firing := False, as_Since := 0\<rparr>) (m_states m)\<rparr>))"

text \<open>A missing state reads as Go's zero value.\<close>

definition no_alert :: alert_state where
  "no_alert = \<lparr>as_Key = \<lparr>ak_RuleID = [], ak_HostID = [], ak_Subject = []\<rparr>, as_Firing = False,
     as_Since = 0, as_LastNotified = 0\<rparr>"

definition ClaimAlertNotification ::
  "tenant_id \<Rightarrow> alert_key \<Rightarrow> instant \<Rightarrow> duration \<Rightarrow> memory \<Rightarrow> (store_error, bool \<times> memory) result" where
  "ClaimAlertNotification tn key at cooldown m =
     (if get (m_rules m) (tn, ak_RuleID key) = None then Inl (ErrUnknownTenant tn)
      else
        let held = (case get (m_states m) (tn, key) of None \<Rightarrow> no_alert | Some st \<Rightarrow> st)
        in if get (m_states m) (tn, key) \<noteq> None \<and> \<not> is_zero (as_LastNotified held) \<and>
              as_LastNotified held > at + wrap64 (- cooldown)
           then Inr (False, m)
           else Inr (True, m\<lparr>m_states := put (tn, key)
                  (held\<lparr>as_Key := key, as_Firing := True,
                        as_Since := (if is_zero (as_Since held) then at else as_Since held),
                        as_LastNotified := at\<rparr>) (m_states m)\<rparr>))"

section \<open>Templates\<close>

definition hasTemplateLocked :: "tenant_id \<Rightarrow> bytes \<Rightarrow> memory \<Rightarrow> bool" where
  "hasTemplateLocked tn name m =
     any_entry (\<lambda>key _. fst key = tn \<and> fst (snd key) = name) (m_templates m)"

definition next_version :: "tenant_id \<Rightarrow> bytes \<Rightarrow> memory \<Rightarrow> int" where
  "next_version tn name m =
     foldl (\<lambda>next key. if fst key = tn \<and> fst (snd key) = name \<and> snd (snd key) \<ge> next
                       then snd (snd key) + 1 else next) 1 (List.map fst (entries (m_templates m)))"

definition CreateTemplateVersion :: "tenant_id \<Rightarrow> template_version \<Rightarrow> memory \<Rightarrow> (store_error, int \<times> memory) result" where
  "CreateTemplateVersion tn t m =
     (if get (m_tenants m) tn = None then Inl (ErrUnknownTenant tn)
      else
        let next = next_version tn (tv_Name t) m
        in Inr (next, m\<lparr>m_templates := put (tn, tv_Name t, next) (t\<lparr>tv_Version := next\<rparr>) (m_templates m)\<rparr>))"

definition archival_of :: "tenant_id \<Rightarrow> bytes \<Rightarrow> memory \<Rightarrow> template_archival" where
  "archival_of tn name m =
     (case get (m_archivedTemplates m) (tn, name) of
        None \<Rightarrow> \<lparr>ta_Name = [], ta_ArchivedAt = 0, ta_ArchivedBy = []\<rparr> | Some a \<Rightarrow> a)"

definition latest_versions :: "tenant_id \<Rightarrow> memory \<Rightarrow> (bytes, template_version) gomap" where
  "latest_versions tn m =
     foldl (\<lambda>latest (key, t).
        if fst key \<noteq> tn then latest
        else case get latest (fst (snd key)) of
               None \<Rightarrow> put (fst (snd key)) t latest
             | Some held \<Rightarrow> if tv_Version t > tv_Version held then put (fst (snd key)) t latest else latest)
       no_entries (entries (m_templates m))"

definition summary :: "tenant_id \<Rightarrow> memory \<Rightarrow> template_version \<Rightarrow> template_summary" where
  "summary tn m t =
     (let archival = archival_of tn (tv_Name t) m
      in \<lparr>ts_Name = tv_Name t, ts_LatestVersion = tv_Version t, ts_CreatedAt = tv_CreatedAt t,
          ts_CreatedBy = tv_CreatedBy t, ts_Signed = template_Signed t, ts_SignerKeyID = tv_SignerKeyID t,
          ts_SignerAlgorithm = tv_SignerAlgorithm t, ts_Archived = Archived archival,
          ts_ArchivedAt = ta_ArchivedAt archival, ts_ArchivedBy = ta_ArchivedBy archival\<rparr>)"

definition ListTemplates :: "tenant_id \<Rightarrow> bool \<Rightarrow> memory \<Rightarrow> template_summary list" where
  "ListTemplates tn includeArchived m = sort_by
     (\<lambda>x y. if ts_CreatedAt x \<noteq> ts_CreatedAt y then ts_CreatedAt y < ts_CreatedAt x else ts_Name x < ts_Name y)
     (List.map (summary tn m)
        (collect_if (\<lambda>_ t. \<not> (Archived (archival_of tn (tv_Name t) m) \<and> \<not> includeArchived)) (latest_versions tn m)))"

definition revision :: "template_version \<Rightarrow> template_revision" where
  "revision t = \<lparr>tr_Version = tv_Version t, tr_CreatedAt = tv_CreatedAt t, tr_CreatedBy = tv_CreatedBy t,
     tr_Signed = template_Signed t, tr_SignerKeyID = tv_SignerKeyID t, tr_SignerAlgorithm = tv_SignerAlgorithm t\<rparr>"

definition ListTemplateVersions :: "tenant_id \<Rightarrow> bytes \<Rightarrow> memory \<Rightarrow> (store_error, template_revision list) result" where
  "ListTemplateVersions tn name m =
     (let out = List.map revision (collect_if (\<lambda>key _. fst key = tn \<and> fst (snd key) = name) (m_templates m))
      in if out = [] then Inl ErrNotFound
         else Inr (sort_by (\<lambda>x y. tr_Version y < tr_Version x) out))"

definition newest_version :: "template_version list \<Rightarrow> template_version option" where
  "newest_version ts =
     foldl (\<lambda>found t. case found of None \<Rightarrow> Some t
              | Some held \<Rightarrow> if tv_Version t > tv_Version held then Some t else found) None ts"

definition GetTemplateVersion :: "tenant_id \<Rightarrow> bytes \<Rightarrow> int \<Rightarrow> memory \<Rightarrow> (store_error, template_version) result" where
  "GetTemplateVersion tn name version m =
     (if version > 0 then
        (case get (m_templates m) (tn, name, version) of None \<Rightarrow> Inl ErrNotFound | Some t \<Rightarrow> Inr t)
      else
        (case newest_version (collect_if (\<lambda>key _. fst key = tn \<and> fst (snd key) = name) (m_templates m)) of
           None \<Rightarrow> Inl ErrNotFound | Some t \<Rightarrow> Inr t))"

definition ArchiveTemplate :: "tenant_id \<Rightarrow> template_archival \<Rightarrow> memory \<Rightarrow> (store_error, memory) result" where
  "ArchiveTemplate tn a m =
     (if \<not> hasTemplateLocked tn (ta_Name a) m then Inl ErrNotFound
      else if Archived (archival_of tn (ta_Name a) m) then Inl ErrConflict
      else Inr (m\<lparr>m_archivedTemplates := put (tn, ta_Name a) a (m_archivedTemplates m)\<rparr>))"

definition RestoreTemplate :: "tenant_id \<Rightarrow> bytes \<Rightarrow> memory \<Rightarrow> (store_error, memory) result" where
  "RestoreTemplate tn name m =
     (if \<not> hasTemplateLocked tn name m then Inl ErrNotFound
      else if \<not> Archived (archival_of tn name m) then Inl ErrConflict
      else Inr (m\<lparr>m_archivedTemplates := del (tn, name) (m_archivedTemplates m)\<rparr>))"

definition GetTemplateArchival :: "tenant_id \<Rightarrow> bytes \<Rightarrow> memory \<Rightarrow> template_archival" where
  "GetTemplateArchival tn name m = archival_of tn name m"

section \<open>Wallboard shares\<close>

definition CreateWallboardShare ::
  "tenant_id \<Rightarrow> instant \<Rightarrow> wallboard_share \<Rightarrow> memory \<Rightarrow> (store_error, memory) result" where
  "CreateWallboardShare tn now share m =
     (if get (m_tenants m) tn = None then Inl (ErrUnknownTenant tn)
      else if count_if (\<lambda>_ row. snd row = tn \<and> share_Live (fst row) now) (m_shares m) \<ge> MaxWallboardSharesPerTenant
      then Inl ErrShareLimit
      else if get (m_shares m) (w_ID share) \<noteq> None then Inl ErrConflict
      else if any_entry (\<lambda>_ row. snd row = tn \<and> w_SecretHash (fst row) = w_SecretHash share) (m_shares m)
      then Inl ErrConflict
      else let share' = (if is_zero (w_CreatedAt share) then share\<lparr>w_CreatedAt := now\<rparr> else share)
           in Inr (m\<lparr>m_shares := put (w_ID share) (share', tn) (m_shares m)\<rparr>))"

definition ListWallboardShares :: "tenant_id \<Rightarrow> memory \<Rightarrow> wallboard_share list" where
  "ListWallboardShares tn m = sort_by
     (\<lambda>x y. if w_CreatedAt x \<noteq> w_CreatedAt y then w_CreatedAt y < w_CreatedAt x else w_ID x < w_ID y)
     (List.map fst (collect_if (\<lambda>_ row. snd row = tn) (m_shares m)))"

definition WallboardShareBySecret :: "tenant_id \<Rightarrow> bytes \<Rightarrow> instant \<Rightarrow> memory \<Rightarrow> (store_error, wallboard_share) result" where
  "WallboardShareBySecret tn secretHash now m =
     (case first_entry (\<lambda>_ row. snd row = tn \<and> w_SecretHash (fst row) = secretHash \<and> share_Live (fst row) now)
        (m_shares m) of
        None \<Rightarrow> Inl ErrNotFound | Some row \<Rightarrow> Inr (fst row))"

definition DeleteWallboardShare :: "tenant_id \<Rightarrow> bytes \<Rightarrow> memory \<Rightarrow> (store_error, memory) result" where
  "DeleteWallboardShare tn i m =
     (case get (m_shares m) i of
        None \<Rightarrow> Inl ErrNotFound
      | Some row \<Rightarrow> if snd row \<noteq> tn then Inl ErrNotFound else Inr (m\<lparr>m_shares := del i (m_shares m)\<rparr>))"

definition TouchWallboardShare :: "tenant_id \<Rightarrow> bytes \<Rightarrow> instant \<Rightarrow> memory \<Rightarrow> memory" where
  "TouchWallboardShare tn i at m =
     (case get (m_shares m) i of
        None \<Rightarrow> m
      | Some (share, owner) \<Rightarrow>
          if owner \<noteq> tn then m
          else m\<lparr>m_shares := put i (share\<lparr>w_LastSeenAt := at\<rparr>, owner) (m_shares m)\<rparr>)"

end
