(* ===== verification/Tenancy.thy ===== *)
theory Tenancy
  imports JobStore AccountStore FleetStore
begin

text \<open>
  Tenant isolation of the in-memory store. Tenants share every map, so isolation is what the
  operations filter and stamp, nothing else. What a tenant owns is \<open>view_of\<close>; \<open>scoped_step s\<close> is
  one call of a state-changing operation of \<open>Scoped\<close> on the handle of tenant \<open>s\<close>, labelled with the
  jobs it hands out; the lemmas \<open>iso_\<close> say of each operation that it leaves every other tenant's view
  alone. Subscriptions are not part of a view: they carry no data.
\<close>

section \<open>What a tenant owns\<close>

text \<open>A session or a token belongs to the tenant of its account.\<close>

definition acct_tenant :: "memory \<Rightarrow> bytes \<Rightarrow> tenant_id option" where
  "acct_tenant m i = map_option a_TenantID (get (m_accounts m) i)"

record view =
  v_tenant :: "tenant option"
  v_tokens :: "bytes \<rightharpoonup> token_row"
  v_hosts :: "bytes \<rightharpoonup> host_row"
  v_certs :: "bytes \<rightharpoonup> certificate"
  v_jobs :: "queue_key \<rightharpoonup> job list"
  v_records :: "job_key \<rightharpoonup> job_record"
  v_results :: "job_key \<rightharpoonup> bytes result_request"
  v_templates :: "template_key \<rightharpoonup> template_version"
  v_archivedTemplates :: "template_name_key \<rightharpoonup> template_archival"
  v_events :: "event_row list"
  v_transitions :: "transition_row list"
  v_rules :: "rule_key \<rightharpoonup> alert_rule"
  v_states :: "state_key \<rightharpoonup> alert_state"
  v_accounts :: "bytes \<rightharpoonup> account"
  v_sessions :: "bytes \<rightharpoonup> session_row"
  v_apiTokens :: "bytes \<rightharpoonup> api_token"
  v_shares :: "bytes \<rightharpoonup> share_row"

definition view_of :: "tenant_id \<Rightarrow> memory \<Rightarrow> view" where
  "view_of t m =
     \<lparr>v_tenant = get (m_tenants m) t,
      v_tokens = owned (\<lambda>_ row. snd row = t) (m_tokens m),
      v_hosts = owned (\<lambda>_ row. snd row = t) (m_hosts m),
      v_certs = owned (\<lambda>_ c. c_TenantID c = t) (m_certs m),
      v_jobs = owned (\<lambda>key _. fst key = t) (m_jobs m),
      v_records = owned (\<lambda>key _. fst key = t) (m_records m),
      v_results = owned (\<lambda>key _. fst key = t) (m_results m),
      v_templates = owned (\<lambda>key _. fst key = t) (m_templates m),
      v_archivedTemplates = owned (\<lambda>key _. fst key = t) (m_archivedTemplates m),
      v_events = List.filter (\<lambda>row. snd row = t) (m_events m),
      v_transitions = List.filter (\<lambda>row. snd row = t) (m_transitions m),
      v_rules = owned (\<lambda>key _. fst key = t) (m_rules m),
      v_states = owned (\<lambda>key _. fst key = t) (m_states m),
      v_accounts = owned (\<lambda>_ a. a_TenantID a = t) (m_accounts m),
      v_sessions = owned (\<lambda>_ held. acct_tenant m (s_AccountID held) = Some t) (m_sessions m),
      v_apiTokens = owned (\<lambda>_ held. acct_tenant m (at_AccountID held) = Some t) (m_apiTokens m),
      v_shares = owned (\<lambda>_ row. snd row = t) (m_shares m)\<rparr>"

section \<open>Every operation respects the views of others\<close>

lemma acct_tenant_iff: "acct_tenant m i = Some t \<longleftrightarrow> (\<exists>a. get (m_accounts m) i = Some a \<and> a_TenantID a = t)"
  by (auto simp: acct_tenant_def)

lemma rows_other: "s \<noteq> t \<Longrightarrow> snd row \<noteq> s \<and> snd row = t \<longleftrightarrow> snd row = t"
  by auto

lemmas iso = view_of_def acct_tenant_iff scoped_host_Some scoped_account_Some get_put get_sweep_Some rows_other

lemma iso_CreateTenant: "CreateTenant now x m = Inr m' \<Longrightarrow> t_ID x \<noteq> t \<Longrightarrow> view_of t m' = view_of t m"
  by (auto simp: CreateTenant_def Let_def iso get_put split: if_splits sum.splits intro!: owned_other)

lemma iso_UpdateTenant: "UpdateTenant s patch m = Inr (x, m') \<Longrightarrow> s \<noteq> t \<Longrightarrow> view_of t m' = view_of t m"
  by (auto simp: UpdateTenant_def iso get_put split: option.splits sum.splits intro!: owned_other)

lemma iso_CreateEnrollmentToken:
  "CreateEnrollmentToken s x m = Inr m' \<Longrightarrow> s \<noteq> t \<Longrightarrow> view_of t m' = view_of t m"
  by (auto simp: CreateEnrollmentToken_def iso split: if_splits intro!: owned_other)

lemma iso_ConsumeEnrollmentToken:
  "ConsumeEnrollmentToken s hash h now m = Inr (x, m') \<Longrightarrow> s \<noteq> t \<Longrightarrow> view_of t m' = view_of t m"
  by (auto simp: ConsumeEnrollmentToken_def Let_def iso split: if_splits option.splits intro!: owned_other)

lemma iso_CreateEnrolledHost:
  "CreateEnrolledHost s h c m = Inr m' \<Longrightarrow> s \<noteq> t \<Longrightarrow> view_of t m' = view_of t m"
  by (auto simp: CreateEnrolledHost_def iso split: if_splits option.splits sum.splits intro!: owned_other dest!: stampCertificate_Inr)

lemma iso_DeleteHost: "DeleteHost s h m = Inr m' \<Longrightarrow> s \<noteq> t \<Longrightarrow> view_of t m' = view_of t m"
  by (auto simp: DeleteHost_def Let_def iso split: if_splits intro!: owned_other)

lemma iso_update_host: "update_host s h f m = Inr m' \<Longrightarrow> s \<noteq> t \<Longrightarrow> view_of t m' = view_of t m"
  by (cases "scoped_host s h m") (auto simp: update_host_def iso intro!: owned_other)

lemma iso_host_updates:
  "RecordHeartbeat s h u m = Inr m' \<Longrightarrow> s \<noteq> t \<Longrightarrow> view_of t m' = view_of t m"
  "StoreFacts s h digest document m = Inr m' \<Longrightarrow> s \<noteq> t \<Longrightarrow> view_of t m' = view_of t m"
  "StorePolicy s h digest document m = Inr m' \<Longrightarrow> s \<noteq> t \<Longrightarrow> view_of t m' = view_of t m"
  "StoreSigners s h digest document m = Inr m' \<Longrightarrow> s \<noteq> t \<Longrightarrow> view_of t m' = view_of t m"
  by (simp_all add: RecordHeartbeat_def StoreFacts_def StorePolicy_def StoreSigners_def iso_update_host)

lemma iso_AddCertificate: "AddCertificate s c m = Inr m' \<Longrightarrow> s \<noteq> t \<Longrightarrow> view_of t m' = view_of t m"
  by (auto simp: AddCertificate_def iso split: if_splits sum.splits intro!: owned_other dest!: stampCertificate_Inr)

lemma iso_SupersedeCertificate: "s \<noteq> t \<Longrightarrow> view_of t (SupersedeCertificate s fp at m) = view_of t m"
  by (cases "get (m_certs m) fp") (auto simp: SupersedeCertificate_def iso intro!: owned_other)

lemma iso_RenewCertificate: "RenewCertificate s r m = Inr m' \<Longrightarrow> s \<noteq> t \<Longrightarrow> view_of t m' = view_of t m"
  by (auto simp: RenewCertificate_def Let_def iso_SupersedeCertificate split: if_splits sum.splits dest!: stampCertificate_Inr)
    (auto simp: iso intro!: owned_other)

lemma iso_RevokeHost: "RevokeHost s now h m = Inr m' \<Longrightarrow> s \<noteq> t \<Longrightarrow> view_of t m' = view_of t m"
  by (cases "scoped_host s h m") (auto simp: RevokeHost_def iso intro!: owned_other)

lemma iso_DeleteTenant: "DeleteTenant s m = Inr m' \<Longrightarrow> s \<noteq> t \<Longrightarrow> view_of t m' = view_of t m"
proof -
  assume step: "DeleteTenant s m = Inr m'" and other: "s \<noteq> t"
  have gone: "acct_tenant m' i = Some t \<longleftrightarrow> acct_tenant m i = Some t" for i
    using step other by (auto simp: DeleteTenant_def Let_def acct_tenant_iff get_sweep_Some split: if_splits)
  show ?thesis
    unfolding view_of_def gone using step other
    by (auto simp: DeleteTenant_def Let_def rows_other acct_tenant_iff split: if_splits intro!: owned_other)
qed

lemma iso_enqueue:
  "enqueue_and_wake s h j m = Some m' \<Longrightarrow> s \<noteq> t \<Longrightarrow> view_of t m' = view_of t m"
  by (auto simp: iso dest!: enqueue_and_wake_Some intro!: owned_other)

lemma view_of_records: "s \<noteq> t \<Longrightarrow> view_of t (m\<lparr>m_records := put (s, i) r (m_records m)\<rparr>) = view_of t m"
  by (auto simp: iso intro!: owned_other)

lemma iso_CreateJob: "CreateJob s j m = Some (Inr m') \<Longrightarrow> s \<noteq> t \<Longrightarrow> view_of t m' = view_of t m"
  by (auto simp: CreateJob_def Let_def view_of_records split: if_splits dest!: iso_enqueue)

lemma iso_ApproveJob: "ApproveJob s i approver now m = Some (Inr m') \<Longrightarrow> s \<noteq> t \<Longrightarrow> view_of t m' = view_of t m"
  by (cases "get (m_records m) (s, i)")
    (auto simp: ApproveJob_def Let_def view_of_records split: if_splits dest!: iso_enqueue)

lemma iso_ClaimJobs: "ClaimJobs s now h lim m = (js, m') \<Longrightarrow> s \<noteq> t \<Longrightarrow> view_of t m' = view_of t m"
proof -
  assume step: "ClaimJobs s now h lim m = (js, m')" and other: "s \<noteq> t"
  have stamped: "owned (\<lambda>key _. fst key = t) (foldl (stamp_claimed s now) recs cs) = owned (\<lambda>key _. fst key = t) recs"
    for recs cs
    using other by (auto simp: owned_def get_stamped fun_eq_iff split: option.splits)
  show ?thesis
    using step other
    by (auto simp: ClaimJobs_def Let_def iso stamped split: if_splits prod.splits intro!: owned_other)
qed

lemma iso_RecordResult: "RecordResult s now h r m = Inr (b, m') \<Longrightarrow> s \<noteq> t \<Longrightarrow> view_of t m' = view_of t m"
  by (cases "get (m_records m) (s, JobID r)")
    (auto simp: RecordResult_def Let_def iso split: if_splits intro!: owned_other)

lemma iso_waiters: "view_of t (m\<lparr>m_waiters := w, m_channels := n\<rparr>) = view_of t m" "view_of t (m\<lparr>m_waiters := w\<rparr>) = view_of t m"
  by (simp_all add: view_of_def acct_tenant_def)

subsection \<open>Accounts\<close>

lemma iso_accounts:
  assumes "\<And>i. acct_tenant m' i = Some t \<longleftrightarrow> acct_tenant m i = Some t"
    and "owned (\<lambda>_ a. a_TenantID a = t) (m_accounts m') = owned (\<lambda>_ a. a_TenantID a = t) (m_accounts m)"
    and "owned (\<lambda>_ held. acct_tenant m (s_AccountID held) = Some t) (m_sessions m') =
         owned (\<lambda>_ held. acct_tenant m (s_AccountID held) = Some t) (m_sessions m)"
    and "owned (\<lambda>_ held. acct_tenant m (at_AccountID held) = Some t) (m_apiTokens m') =
         owned (\<lambda>_ held. acct_tenant m (at_AccountID held) = Some t) (m_apiTokens m)"
    and "m' = m\<lparr>m_accounts := m_accounts m', m_sessions := m_sessions m', m_apiTokens := m_apiTokens m'\<rparr>"
  shows "view_of t m' = view_of t m"
  using assms(1-4) by (subst assms(5)) (simp add: view_of_def acct_tenant_def)

lemma iso_CreateAccount: "CreateAccount s now a m = Inr m' \<Longrightarrow> s \<noteq> t \<Longrightarrow> view_of t m' = view_of t m"
  by (rule iso_accounts)
    (auto simp: CreateAccount_def Let_def acct_tenant_iff get_put split: if_splits intro!: owned_other)

lemma iso_updateAccount:
  "updateAccount s i f m = Inr m' \<Longrightarrow> (\<And>a. a_TenantID (f a) = a_TenantID a) \<Longrightarrow> s \<noteq> t \<Longrightarrow> view_of t m' = view_of t m"
  by (cases "scoped_account s i m"; rule iso_accounts)
    (auto simp: updateAccount_def acct_tenant_iff scoped_account_Some get_put split: if_splits intro!: owned_other)

lemma iso_account_updates:
  "UpdateAccountPassword s i pw m = Inr m' \<Longrightarrow> s \<noteq> t \<Longrightarrow> view_of t m' = view_of t m"
  "RecordAccountSignIn s i at m = Inr m' \<Longrightarrow> s \<noteq> t \<Longrightarrow> view_of t m' = view_of t m"
  by (simp_all add: UpdateAccountPassword_def RecordAccountSignIn_def iso_updateAccount)

lemma iso_DeleteAccount: "DeleteAccount s i m = Inr m' \<Longrightarrow> s \<noteq> t \<Longrightarrow> view_of t m' = view_of t m"
  by (rule iso_accounts)
    (auto simp: DeleteAccount_def acct_tenant_iff scoped_account_Some split: if_splits intro!: owned_other)

text \<open>\<open>CreateSession\<close> replaces whatever the map holds under the hash: a session of another tenant, should it have that
  hash, is lost to it, and nothing else is.\<close>

definition sessions_apart :: "tenant_id \<Rightarrow> (bytes \<Rightarrow> bool) \<Rightarrow> memory \<Rightarrow> memory \<Rightarrow> bool" where
  "sessions_apart t lost m m' \<longleftrightarrow>
     view_of t m' = (view_of t m)\<lparr>v_sessions := v_sessions (view_of t m')\<rparr> \<and>
     (\<forall>hash. v_sessions (view_of t m') hash = v_sessions (view_of t m) hash \<or>
       v_sessions (view_of t m') hash = None \<and> lost hash)"

lemma apart_same: "view_of t m' = view_of t m \<Longrightarrow> sessions_apart t lost m m'"
  by (simp add: sessions_apart_def)

lemma apart_CreateSession:
  assumes "CreateSession s x m = Inr m'" "s \<noteq> t"
  shows "sessions_apart t (\<lambda>hash. hash = s_TokenHash x) m m'"
proof -
  from assms(1) obtain a where a: "get (m_accounts m) (s_AccountID x) = Some a" "a_TenantID a = s"
    and m': "m' = m\<lparr>m_sessions := put (s_TokenHash x) x
      (sweep (\<lambda>_ held. s_AccountID held = s_AccountID x \<and> \<not> session_Valid held (s_CreatedAt x)) (m_sessions m))\<rparr>"
    by (auto simp: CreateSession_def Let_def scoped_account_Some split: if_splits)
  have "acct_tenant m' i = acct_tenant m i" for i by (simp add: acct_tenant_def m')
  then have rest: "view_of t m' = (view_of t m)\<lparr>v_sessions := v_sessions (view_of t m')\<rparr>" by (simp add: view_of_def m')
  have "v_sessions (view_of t m') hash = v_sessions (view_of t m) hash \<or> v_sessions (view_of t m') hash = None \<and> hash = s_TokenHash x" for hash
    using a assms(2) by (auto simp: view_of_def owned_def m' acct_tenant_def get_put get_sweep split: option.splits)
  with rest show ?thesis by (simp add: sessions_apart_def)
qed

lemma iso_TouchSession: "TouchSession s i h e u m = Inr m' \<Longrightarrow> s \<noteq> t \<Longrightarrow> view_of t m' = view_of t m"
  by (cases "get (m_sessions m) h") (auto simp: TouchSession_def iso split: if_splits intro!: owned_other)

lemma iso_DeleteSession: "DeleteSession s i h m = Inr m' \<Longrightarrow> s \<noteq> t \<Longrightarrow> view_of t m' = view_of t m"
  by (cases "get (m_sessions m) h") (auto simp: DeleteSession_def iso split: if_splits intro!: owned_other)

lemma iso_DeleteSessionsFor: "DeleteSessionsFor s i m = Inr (n, m') \<Longrightarrow> s \<noteq> t \<Longrightarrow> view_of t m' = view_of t m"
  by (auto simp: DeleteSessionsFor_def iso split: if_splits intro!: owned_other)

lemma iso_CreateAPIToken: "CreateAPIToken s x m = Inr m' \<Longrightarrow> s \<noteq> t \<Longrightarrow> view_of t m' = view_of t m"
  by (auto simp: CreateAPIToken_def iso split: if_splits intro!: owned_other)

lemma iso_TouchAPIToken: "TouchAPIToken s i h u m = Inr m' \<Longrightarrow> s \<noteq> t \<Longrightarrow> view_of t m' = view_of t m"
  by (cases "get (m_apiTokens m) h") (auto simp: TouchAPIToken_def iso split: if_splits intro!: owned_other)

lemma iso_DeleteAPIToken: "DeleteAPIToken s i h m = Inr m' \<Longrightarrow> s \<noteq> t \<Longrightarrow> view_of t m' = view_of t m"
  by (cases "get (m_apiTokens m) h") (auto simp: DeleteAPIToken_def iso split: if_splits intro!: owned_other)

subsection \<open>Events, alerts, templates, shares\<close>

lemma filter_drop_mine: "(\<And>x. Q x \<Longrightarrow> \<not> P x) \<Longrightarrow> List.filter Q (drop_mine P n xs) = List.filter Q xs"
  by (induction P n xs rule: drop_mine.induct) auto

lemma filter_evict_other: "(\<And>x. Q x \<Longrightarrow> \<not> P x) \<Longrightarrow> List.filter Q (evict P n xs) = List.filter Q xs"
  by (simp add: evict_def Let_def filter_drop_mine)

lemma iso_RecordEvent: "RecordEvent s e m = Inr m' \<Longrightarrow> s \<noteq> t \<Longrightarrow> view_of t m' = view_of t m"
  by (auto simp: RecordEvent_def iso filter_evict_other split: if_splits)

lemma iso_RecordUnitTransitions:
  "RecordUnitTransitions s h trs m = Inr m' \<Longrightarrow> s \<noteq> t \<Longrightarrow> view_of t m' = view_of t m"
proof -
  assume step: "RecordUnitTransitions s h trs m = Inr m'" and other: "s \<noteq> t"
  have "List.filter (\<lambda>row. snd row = t) (evict (of_host s h) n xs) = List.filter (\<lambda>row. snd row = t) xs" for n xs
    by (rule filter_evict_other) (use other in \<open>auto simp: of_host_def\<close>)
  with step other show ?thesis
    by (auto simp: RecordUnitTransitions_def iso filter_map comp_def split: if_splits)
qed

lemma iso_CreateAlertRule: "CreateAlertRule s r m = Inr m' \<Longrightarrow> s \<noteq> t \<Longrightarrow> view_of t m' = view_of t m"
  by (auto simp: CreateAlertRule_def iso split: if_splits intro!: owned_other)

lemma iso_UpdateAlertRule: "UpdateAlertRule s r m = Inr m' \<Longrightarrow> s \<noteq> t \<Longrightarrow> view_of t m' = view_of t m"
  by (auto simp: UpdateAlertRule_def iso split: option.splits intro!: owned_other)

lemma iso_RecordAlertDelivery: "s \<noteq> t \<Longrightarrow> view_of t (RecordAlertDelivery s i at f m) = view_of t m"
  by (cases "get (m_rules m) (s, i)") (auto simp: RecordAlertDelivery_def iso intro!: owned_other)

lemma iso_DeleteAlertRule: "DeleteAlertRule s i m = Inr m' \<Longrightarrow> s \<noteq> t \<Longrightarrow> view_of t m' = view_of t m"
  by (auto simp: DeleteAlertRule_def iso split: if_splits intro!: owned_other)

lemma iso_UpsertAlertState: "UpsertAlertState s st m = Inr m' \<Longrightarrow> s \<noteq> t \<Longrightarrow> view_of t m' = view_of t m"
  by (auto simp: UpsertAlertState_def iso split: if_splits intro!: owned_other)

lemma iso_ReleaseAlertFiring: "ReleaseAlertFiring s k m = (b, m') \<Longrightarrow> s \<noteq> t \<Longrightarrow> view_of t m' = view_of t m"
  by (cases "get (m_states m) (s, k)") (auto simp: ReleaseAlertFiring_def iso split: if_splits intro!: owned_other)

lemma iso_ClaimAlertNotification:
  "ClaimAlertNotification s k at c m = Inr (b, m') \<Longrightarrow> s \<noteq> t \<Longrightarrow> view_of t m' = view_of t m"
  by (auto simp: ClaimAlertNotification_def Let_def iso split: if_splits intro!: owned_other)

lemma iso_CreateTemplateVersion:
  "CreateTemplateVersion s x m = Inr (n, m') \<Longrightarrow> s \<noteq> t \<Longrightarrow> view_of t m' = view_of t m"
  by (auto simp: CreateTemplateVersion_def Let_def iso split: if_splits intro!: owned_other)

lemma iso_ArchiveTemplate: "ArchiveTemplate s a m = Inr m' \<Longrightarrow> s \<noteq> t \<Longrightarrow> view_of t m' = view_of t m"
  by (auto simp: ArchiveTemplate_def iso split: if_splits intro!: owned_other)

lemma iso_RestoreTemplate: "RestoreTemplate s n m = Inr m' \<Longrightarrow> s \<noteq> t \<Longrightarrow> view_of t m' = view_of t m"
  by (auto simp: RestoreTemplate_def iso split: if_splits intro!: owned_other)

lemma iso_CreateWallboardShare: "CreateWallboardShare s now w m = Inr m' \<Longrightarrow> s \<noteq> t \<Longrightarrow> view_of t m' = view_of t m"
  by (auto simp: CreateWallboardShare_def Let_def iso split: if_splits intro!: owned_other)

lemma iso_DeleteWallboardShare: "DeleteWallboardShare s i m = Inr m' \<Longrightarrow> s \<noteq> t \<Longrightarrow> view_of t m' = view_of t m"
  by (auto simp: DeleteWallboardShare_def iso split: if_splits option.splits intro!: owned_other)

lemma iso_TouchWallboardShare: "s \<noteq> t \<Longrightarrow> view_of t (TouchWallboardShare s i at m) = view_of t m"
  by (auto simp: TouchWallboardShare_def iso split: option.splits intro!: owned_other)

section \<open>The steps of the store\<close>

text \<open>The clock of the server is past Go's zero time. \<open>CreateSession\<close> replaces whatever the map holds
  under the new session's hash, so a new session's hash (of 256 random bits) must not be that of
  another account's session.\<close>

inductive scoped_step :: "tenant_id \<Rightarrow> (bytes \<times> job) list \<Rightarrow> memory \<Rightarrow> memory \<Rightarrow> bool" for s where
  create_token: "CreateEnrollmentToken s x m = Inr m' \<Longrightarrow> scoped_step s [] m m'"
| consume_token: "ConsumeEnrollmentToken s hash h now m = Inr (x, m') \<Longrightarrow> scoped_step s [] m m'"
| enrol: "CreateEnrolledHost s h c m = Inr m' \<Longrightarrow> scoped_step s [] m m'"
| delete_host: "DeleteHost s h m = Inr m' \<Longrightarrow> scoped_step s [] m m'"
| heartbeat: "RecordHeartbeat s h u m = Inr m' \<Longrightarrow> scoped_step s [] m m'"
| facts: "StoreFacts s h digest document m = Inr m' \<Longrightarrow> scoped_step s [] m m'"
| policy: "StorePolicy s h digest document m = Inr m' \<Longrightarrow> scoped_step s [] m m'"
| signers: "StoreSigners s h digest document m = Inr m' \<Longrightarrow> scoped_step s [] m m'"
| add_certificate: "AddCertificate s c m = Inr m' \<Longrightarrow> scoped_step s [] m m'"
| supersede: "scoped_step s [] m (SupersedeCertificate s fp at m)"
| renew: "RenewCertificate s r m = Inr m' \<Longrightarrow> scoped_step s [] m m'"
| revoke: "RevokeHost s now h m = Inr m' \<Longrightarrow> scoped_step s [] m m'"
| create_job: "CreateJob s j m = Some (Inr m') \<Longrightarrow> scoped_step s [] m m'"
| approve_job: "ApproveJob s i approver now m = Some (Inr m') \<Longrightarrow> now \<noteq> 0 \<Longrightarrow> scoped_step s [] m m'"
| claim_jobs: "ClaimJobs s now h lim m = (js, m') \<Longrightarrow> now \<noteq> 0 \<Longrightarrow>
    scoped_step s (List.map (\<lambda>j. (h, j)) js) m m'"
| record_result: "RecordResult s now h r m = Inr (b, m') \<Longrightarrow> now \<noteq> 0 \<Longrightarrow> scoped_step s [] m m'"
| create_account: "CreateAccount s now a m = Inr m' \<Longrightarrow> scoped_step s [] m m'"
| password: "UpdateAccountPassword s i pw m = Inr m' \<Longrightarrow> scoped_step s [] m m'"
| sign_in: "RecordAccountSignIn s i at m = Inr m' \<Longrightarrow> scoped_step s [] m m'"
| delete_account: "DeleteAccount s i m = Inr m' \<Longrightarrow> scoped_step s [] m m'"
| create_session: "CreateSession s x m = Inr m' \<Longrightarrow> scoped_step s [] m m'"
| touch_session: "TouchSession s i hash e u m = Inr m' \<Longrightarrow> scoped_step s [] m m'"
| delete_session: "DeleteSession s i hash m = Inr m' \<Longrightarrow> scoped_step s [] m m'"
| delete_sessions: "DeleteSessionsFor s i m = Inr (n, m') \<Longrightarrow> scoped_step s [] m m'"
| create_api_token: "CreateAPIToken s y m = Inr m' \<Longrightarrow> scoped_step s [] m m'"
| touch_api_token: "TouchAPIToken s i hash u m = Inr m' \<Longrightarrow> scoped_step s [] m m'"
| delete_api_token: "DeleteAPIToken s i hash m = Inr m' \<Longrightarrow> scoped_step s [] m m'"
| record_event: "RecordEvent s e m = Inr m' \<Longrightarrow> scoped_step s [] m m'"
| record_transitions: "RecordUnitTransitions s h trs m = Inr m' \<Longrightarrow> scoped_step s [] m m'"
| create_rule: "CreateAlertRule s ar m = Inr m' \<Longrightarrow> scoped_step s [] m m'"
| update_rule: "UpdateAlertRule s ar m = Inr m' \<Longrightarrow> scoped_step s [] m m'"
| alert_delivery: "scoped_step s [] m (RecordAlertDelivery s i at failure m)"
| delete_rule: "DeleteAlertRule s i m = Inr m' \<Longrightarrow> scoped_step s [] m m'"
| upsert_state: "UpsertAlertState s st m = Inr m' \<Longrightarrow> scoped_step s [] m m'"
| release_alert: "ReleaseAlertFiring s k m = (b, m') \<Longrightarrow> scoped_step s [] m m'"
| claim_alert: "ClaimAlertNotification s k at c m = Inr (b, m') \<Longrightarrow> scoped_step s [] m m'"
| create_template: "CreateTemplateVersion s tv m = Inr (v, m') \<Longrightarrow> scoped_step s [] m m'"
| archive_template: "ArchiveTemplate s ta m = Inr m' \<Longrightarrow> scoped_step s [] m m'"
| restore_template: "RestoreTemplate s name m = Inr m' \<Longrightarrow> scoped_step s [] m m'"
| create_share: "CreateWallboardShare s now w m = Inr m' \<Longrightarrow> scoped_step s [] m m'"
| delete_share: "DeleteWallboardShare s i m = Inr m' \<Longrightarrow> scoped_step s [] m m'"
| touch_share: "scoped_step s [] m (TouchWallboardShare s i at m)"

lemmas iso_steps =
  iso_CreateEnrollmentToken iso_ConsumeEnrollmentToken iso_CreateEnrolledHost iso_DeleteHost
  iso_host_updates iso_AddCertificate iso_RenewCertificate
  iso_RevokeHost iso_CreateJob iso_ApproveJob iso_ClaimJobs
  iso_RecordResult iso_CreateAccount iso_account_updates iso_DeleteAccount
  iso_TouchSession iso_DeleteSession iso_DeleteSessionsFor
  iso_CreateAPIToken iso_TouchAPIToken iso_DeleteAPIToken iso_RecordEvent
  iso_RecordUnitTransitions iso_CreateAlertRule iso_UpdateAlertRule 
  iso_DeleteAlertRule iso_UpsertAlertState iso_ReleaseAlertFiring iso_ClaimAlertNotification
  iso_CreateTemplateVersion iso_ArchiveTemplate iso_RestoreTemplate iso_CreateWallboardShare
  iso_DeleteWallboardShare 

text \<open>Property C19: a call through one tenant's handle leaves every other tenant's rows exactly as they
  were: its hosts, certificates, queue, job history, results, tokens, templates, events, alerts,
  accounts, API tokens and shares, whatever identifiers the caller supplies. Of another tenant's sessions it changes and
  adds none, and can remove at most one: that whose token hash is the one it creates a session under.\<close>

theorem tenant_isolation:
  assumes "scoped_step s ds m m'" "s \<noteq> t"
  shows "view_of t m' = (view_of t m)\<lparr>v_sessions := v_sessions (view_of t m')\<rparr> \<and>
    (\<forall>hash. v_sessions (view_of t m') hash = v_sessions (view_of t m) hash \<or>
      v_sessions (view_of t m') hash = None \<and> (\<exists>x. CreateSession s x m = Inr m' \<and> s_TokenHash x = hash))"
proof -
  note same = apart_same [unfolded sessions_apart_def, where lost = "\<lambda>hash. \<exists>x. CreateSession s x m = Inr m' \<and> s_TokenHash x = hash"]
  from assms(1) show ?thesis
  proof cases
    case (create_session x)
    then show ?thesis using apart_CreateSession [OF _ assms(2)] unfolding sessions_apart_def by blast
  qed (rule same; ((erule iso_steps, rule assms(2))
      | simp add: assms(2) iso_SupersedeCertificate iso_RecordAlertDelivery iso_TouchWallboardShare; fail))+
qed

text \<open>Tenant \<open>default\<close> issues a token while tenant \<open>acme\<close> has one.\<close>

definition demo_token :: "bytes \<Rightarrow> enrollment_token" where
  "demo_token hash = \<lparr>et_Hash = hash, et_Label = [], et_Group = [], et_Bootstrap = [], et_CreatedAt = 1,
     et_ExpiresAt = 100, et_ConsumedAt = 0, et_ConsumedByHost = []\<rparr>"

theorem tenant_isolation_witness:
  "let m = (NewMemory 1)\<lparr>m_tokens := put ''a'' (demo_token ''a'', ''acme'') no_entries\<rparr>;
       m' = m\<lparr>m_tokens := put ''d'' (demo_token ''d'', DefaultTenant) (m_tokens m)\<rparr>
   in CreateEnrollmentToken DefaultTenant (demo_token ''d'') m = Inr m' \<and> view_of ''acme'' m' = view_of ''acme'' m \<and>
      v_tokens (view_of ''acme'' m') ''a'' = Some (demo_token ''a'', ''acme'')"
proof -
  let ?m = "(NewMemory 1)\<lparr>m_tokens := put ''a'' (demo_token ''a'', ''acme'') no_entries\<rparr>"
  let ?m' = "?m\<lparr>m_tokens := put ''d'' (demo_token ''d'', DefaultTenant) (m_tokens ?m)\<rparr>"
  have step: "CreateEnrollmentToken DefaultTenant (demo_token ''d'') ?m = Inr ?m'"
    by (simp add: CreateEnrollmentToken_def NewMemory_def demo_token_def)
  from tenant_isolation [OF scoped_step.create_token [OF step], of "''acme''"]
  have "view_of ''acme'' ?m' = (view_of ''acme'' ?m)\<lparr>v_sessions := v_sessions (view_of ''acme'' ?m')\<rparr>" by (simp add: DefaultTenant_def)
  moreover have "v_sessions (view_of ''acme'' ?m') = v_sessions (view_of ''acme'' ?m)" by (simp add: view_of_def acct_tenant_def)
  ultimately have "view_of ''acme'' ?m' = view_of ''acme'' ?m" by simp
  moreover have "v_tokens (view_of ''acme'' ?m) ''a'' = Some (demo_token ''a'', ''acme'')"
    by (simp add: view_of_def owned_def)
  ultimately show ?thesis using step by (simp add: Let_def)
qed

end
