(* ===== verification/StoreRun.thy ===== *)
theory StoreRun
  imports Tenancy
begin

text \<open>
  The in-memory store as a transition system: one step is one call of the \<open>Store\<close> interface that
  changes state, labelled with the jobs it hands out (tenant, host, job). The invariant \<open>store_ok\<close>
  is what the schema's keys and foreign keys say, together with the job queue's and the channels'
  invariants; it holds in every reachable state.
\<close>

section \<open>Steps and reachable states\<close>

inductive store_step :: "(tenant_id \<times> bytes \<times> job) list \<Rightarrow> memory \<Rightarrow> memory \<Rightarrow> bool" where
  scoped: "scoped_step s ds m m' \<Longrightarrow> store_step (List.map (\<lambda>(h, j). (s, h, j)) ds) m m'"
| create_tenant: "CreateTenant now t m = Inr m' \<Longrightarrow> store_step [] m m'"
| update_tenant: "UpdateTenant tn patch m = Inr (t, m') \<Longrightarrow> store_step [] m m'"
| delete_tenant: "DeleteTenant tn m = Inr m' \<Longrightarrow> store_step [] m m'"
| subscribe: "store_step [] m (snd (Subscribe h m))"
| unsubscribe: "store_step [] m (removeWaiter h w m)"

inductive reachable :: "memory \<Rightarrow> bool" where
  new: "reachable (NewMemory now)"
| step: "reachable m \<Longrightarrow> store_step ds m m' \<Longrightarrow> reachable m'"

section \<open>The invariant of the store\<close>

definition hosts_ok :: "(tenant_id, tenant) gomap \<Rightarrow> (bytes, host_row) gomap \<Rightarrow> bool" where
  "hosts_ok ts hs \<longleftrightarrow>
     (\<forall>k h t. get hs k = Some (h, t) \<longrightarrow> h_ID h = k \<and> get ts t \<noteq> None) \<and>
     (\<forall>k k' h h' t. get hs k = Some (h, t) \<and> get hs k' = Some (h', t) \<and> \<not> h_Revoked h \<and> \<not> h_Revoked h' \<and>
        h_MachineIDHash h = h_MachineIDHash h' \<and> h_MachineIDHash h \<noteq> [] \<longrightarrow> k = k')"

definition refs_ok :: "(bytes, host_row) gomap \<Rightarrow> (bytes, certificate) gomap \<Rightarrow> (job_key, job_record) gomap \<Rightarrow> bool" where
  "refs_ok hs cs recs \<longleftrightarrow>
     (\<forall>fp c. get cs fp = Some c \<longrightarrow> c_Fingerprint c = fp \<and> (\<exists>h. get hs (c_HostID c) = Some (h, c_TenantID c))) \<and>
     (\<forall>t i r. get recs (t, i) = Some r \<longrightarrow> (\<exists>h. get hs (j_HostID r) = Some (h, t)))"

definition accounts_ok ::
  "(bytes, account) gomap \<Rightarrow> (bytes, session_row) gomap \<Rightarrow> (bytes, api_token) gomap \<Rightarrow> bool" where
  "accounts_ok as ss ks \<longleftrightarrow>
     (\<forall>i a. get as i = Some a \<longrightarrow> a_ID a = i) \<and>
     (\<forall>i j a b. get as i = Some a \<and> get as j = Some b \<and> a_EmailKey a = a_EmailKey b \<longrightarrow> i = j) \<and>
     (\<forall>h s. get ss h = Some s \<longrightarrow> get as (s_AccountID s) \<noteq> None) \<and>
     (\<forall>h k. get ks h = Some k \<longrightarrow> get as (at_AccountID k) \<noteq> None)"

definition store_ok :: "memory \<Rightarrow> bool" where
  "store_ok m \<longleftrightarrow> jobs_ok m \<and> waiters_ok m \<and> hosts_ok (m_tenants m) (m_hosts m) \<and>
     refs_ok (m_hosts m) (m_certs m) (m_records m) \<and> accounts_ok (m_accounts m) (m_sessions m) (m_apiTokens m)"

lemma store_ok_NewMemory: "store_ok (NewMemory now)"
  using jobs_inv_NewMemory [of now]
  by (simp add: store_ok_def NewMemory_def hosts_ok_def refs_ok_def accounts_ok_def waiters_inv_def waiting_in_def)

subsection \<open>Tenants, hosts, certificates\<close>

lemma hosts_ok_tenants:
  "hosts_ok ts hs \<Longrightarrow> (\<And>k h t. get hs k = Some (h, t) \<Longrightarrow> get ts t \<noteq> None \<Longrightarrow> get ts' t \<noteq> None) \<Longrightarrow> hosts_ok ts' hs"
  unfolding hosts_ok_def by blast

lemma ok_CreateTenant: "CreateTenant now t m = Inr m' \<Longrightarrow> store_ok m \<Longrightarrow> store_ok m'"
  by (auto simp: CreateTenant_def Let_def store_ok_def get_put split: if_splits sum.splits elim!: hosts_ok_tenants)

lemma ok_UpdateTenant: "UpdateTenant tn p m = Inr (t, m') \<Longrightarrow> store_ok m \<Longrightarrow> store_ok m'"
  by (auto simp: UpdateTenant_def store_ok_def get_put split: option.splits sum.splits elim!: hosts_ok_tenants)

lemma hosts_okD:
  assumes "hosts_ok ts hs"
  shows "get hs k = Some (h, t) \<Longrightarrow> h_ID h = k" "get hs k = Some (h, t) \<Longrightarrow> get ts t \<noteq> None"
    "get hs k = Some (h, t) \<Longrightarrow> get hs k' = Some (h', t) \<Longrightarrow> \<not> h_Revoked h \<Longrightarrow> \<not> h_Revoked h' \<Longrightarrow>
     h_MachineIDHash h = h_MachineIDHash h' \<Longrightarrow> h_MachineIDHash h \<noteq> [] \<Longrightarrow> k = k'"
  using assms unfolding hosts_ok_def by meson+

lemma hosts_ok_put:
  assumes ok: "hosts_ok ts hs" and "h_ID h = k" "get ts t \<noteq> None"
    and free: "\<And>k' h'. get hs k' = Some (h', t) \<Longrightarrow> \<not> h_Revoked h \<Longrightarrow> \<not> h_Revoked h' \<Longrightarrow>
      h_MachineIDHash h = h_MachineIDHash h' \<Longrightarrow> h_MachineIDHash h \<noteq> [] \<Longrightarrow> k' = k"
  shows "hosts_ok ts (put k (h, t) hs)"
  unfolding hosts_ok_def
proof (intro conjI allI impI)
  fix k1 k2 h1 h2 t'
  assume a: "get (put k (h, t) hs) k1 = Some (h1, t') \<and> get (put k (h, t) hs) k2 = Some (h2, t') \<and>
     \<not> h_Revoked h1 \<and> \<not> h_Revoked h2 \<and> h_MachineIDHash h1 = h_MachineIDHash h2 \<and> h_MachineIDHash h1 \<noteq> []"
  have "k1 = k \<Longrightarrow> h1 = h \<and> t' = t" "k1 \<noteq> k \<Longrightarrow> get hs k1 = Some (h1, t')"
    "k2 = k \<Longrightarrow> h2 = h \<and> t' = t" "k2 \<noteq> k \<Longrightarrow> get hs k2 = Some (h2, t')"
    using a by (auto simp: get_put)
  with a free hosts_okD(3) [OF ok] show "k1 = k2" by metis
next
  fix k1 h1 t'
  assume "get (put k (h, t) hs) k1 = Some (h1, t')"
  then show "h_ID h1 = k1" "get ts t' \<noteq> None"
    using hosts_okD(1,2) [OF ok, of k1 h1 t'] assms(2,3) by (cases "k1 = k"; simp add: get_put)+
qed

lemma hosts_ok_sub:
  assumes "hosts_ok ts hs" "\<And>k r. get hs' k = Some r \<Longrightarrow> get hs k = Some r"
  shows "hosts_ok ts hs'"
  unfolding hosts_ok_def using hosts_okD [OF assms(1)] assms(2) by meson

lemma hosts_ok_change:
  assumes "hosts_ok ts hs" "get hs k = Some (h, t)" "h_ID h' = h_ID h" "h_MachineIDHash h' = h_MachineIDHash h"
    "h_Revoked h \<Longrightarrow> h_Revoked h'"
  shows "hosts_ok ts (put k (h', t) hs)"
proof (rule hosts_ok_put [OF assms(1)])
  show "h_ID h' = k" "get ts t \<noteq> None" using hosts_okD(1,2) [OF assms(1,2)] assms(3) by auto
  show "k' = k" if "get hs k' = Some (h2, t)" "\<not> h_Revoked h'" "\<not> h_Revoked h2"
    "h_MachineIDHash h' = h_MachineIDHash h2" "h_MachineIDHash h' \<noteq> []" for k' h2
    using hosts_okD(3) [OF assms(1,2) that(1)] that assms(4,5) by auto
qed

lemma refs_ok_hosts:
  "refs_ok hs cs recs \<Longrightarrow> (\<And>k h t. get hs k = Some (h, t) \<Longrightarrow> \<exists>h'. get hs' k = Some (h', t)) \<Longrightarrow> refs_ok hs' cs recs"
  unfolding refs_ok_def by meson

lemma refs_okD:
  assumes "refs_ok hs cs recs"
  shows "get cs fp = Some c \<Longrightarrow> c_Fingerprint c = fp" "get cs fp = Some c \<Longrightarrow> \<exists>h. get hs (c_HostID c) = Some (h, c_TenantID c)"
    "get recs (t, i) = Some r \<Longrightarrow> \<exists>h. get hs (j_HostID r) = Some (h, t)"
  using assms unfolding refs_ok_def by meson+

lemma refs_ok_put_cert:
  "refs_ok hs cs recs \<Longrightarrow> c_Fingerprint c = fp \<Longrightarrow> get hs (c_HostID c) = Some (h, c_TenantID c) \<Longrightarrow>
   refs_ok hs (put fp c cs) recs"
  unfolding refs_ok_def get_put by auto

lemma refs_ok_put_record:
  "refs_ok hs cs recs \<Longrightarrow> get hs (j_HostID r) = Some (h, t) \<Longrightarrow> refs_ok hs cs (put (t, i) r recs)"
  unfolding refs_ok_def get_put by auto

lemma ok_update_host:
  assumes "update_host tn h f m = Inr m'" "store_ok m"
    and "\<And>x. h_ID (f x) = h_ID x \<and> h_MachineIDHash (f x) = h_MachineIDHash x \<and> h_Revoked (f x) = h_Revoked x"
  shows "store_ok m'"
proof (cases "scoped_host tn h m")
  case None
  with assms(1) show ?thesis by (simp add: update_host_def)
next
  case (Some x)
  then have x: "get (m_hosts m) h = Some (x, tn)" by (simp add: scoped_host_Some)
  have m': "m' = m\<lparr>m_hosts := put h (f x, tn) (m_hosts m)\<rparr>" using assms(1) Some by (simp add: update_host_def)
  have "hosts_ok (m_tenants m) (put h (f x, tn) (m_hosts m))"
    by (rule hosts_ok_change [OF _ x]) (use assms(2,3) in \<open>auto simp: store_ok_def\<close>)
  moreover have "refs_ok (put h (f x, tn) (m_hosts m)) (m_certs m) (m_records m)"
    by (rule refs_ok_hosts [of "m_hosts m"]) (use assms(2) x in \<open>auto simp: store_ok_def get_put\<close>)
  ultimately show ?thesis using assms(2) by (simp add: m' store_ok_def)
qed

lemma no_row: "(\<forall>a b. x \<noteq> Some (a, b)) \<longleftrightarrow> x = None"
  by (metis option.exhaust option.distinct(1) surj_pair)

lemma CreateEnrolledHost_Inr:
  assumes "CreateEnrolledHost tn h c m = Inr m'"
  obtains t cert where "get (m_tenants m) tn = Some t"
    "case t_HostLimit t of None \<Rightarrow> True | Some limit \<Rightarrow> int (active_hosts tn m) < limit"
    "c_HostID cert = h_ID h" "c_TenantID cert = tn"
    "get (m_hosts m) (h_ID h) = None" "get (m_certs m) (c_Fingerprint cert) = None"
    "h_MachineIDHash h = [] \<or> \<not> any_entry (\<lambda>_ row. snd row = tn \<and> \<not> h_Revoked (fst row) \<and>
       h_MachineIDHash (fst row) = h_MachineIDHash h) (m_hosts m)"
    "m' = m\<lparr>m_hosts := put (h_ID h) (h, tn) (m_hosts m), m_certs := put (c_Fingerprint cert) cert (m_certs m)\<rparr>"
proof (cases "get (m_tenants m) tn")
  case None
  with assms show ?thesis by (simp add: CreateEnrolledHost_def)
next
  case (Some t)
  show ?thesis
  proof (cases "stampCertificate tn c")
    case (Inl e)
    with assms Some show ?thesis by (simp add: CreateEnrolledHost_def split: if_splits)
  next
    case (Inr cert)
    have "c_HostID cert = c_HostID c" "c_TenantID cert = tn" using stampCertificate_Inr [OF Inr] by auto
    with assms Some Inr show ?thesis
      by (cases "t_HostLimit t"; intro that [of t cert]) (simp_all add: CreateEnrolledHost_def no_row split: if_splits)
  qed
qed

lemma ok_CreateEnrolledHost:
  assumes step: "CreateEnrolledHost tn h c m = Inr m'" and ok: "store_ok m"
  shows "store_ok m'"
proof -
  from step obtain t cert where t: "get (m_tenants m) tn = Some t" and c: "c_HostID cert = h_ID h" "c_TenantID cert = tn"
    and fresh: "get (m_hosts m) (h_ID h) = None"
    and machine: "h_MachineIDHash h = [] \<or> \<not> any_entry (\<lambda>_ row. snd row = tn \<and> \<not> h_Revoked (fst row) \<and>
                                   h_MachineIDHash (fst row) = h_MachineIDHash h) (m_hosts m)"
    and m': "m' = m\<lparr>m_hosts := put (h_ID h) (h, tn) (m_hosts m), m_certs := put (c_Fingerprint cert) cert (m_certs m)\<rparr>"
    by (rule CreateEnrolledHost_Inr)
  have "hosts_ok (m_tenants m) (put (h_ID h) (h, tn) (m_hosts m))"
    by (rule hosts_ok_put) (use ok t machine in \<open>auto simp: store_ok_def any_entry_iff\<close>)
  moreover have "refs_ok (put (h_ID h) (h, tn) (m_hosts m)) (m_certs m) (m_records m)"
    by (rule refs_ok_hosts [of "m_hosts m"]) (use ok fresh in \<open>auto simp: store_ok_def get_put\<close>)
  ultimately show ?thesis
    using ok c
    by (auto simp: m' store_ok_def get_put intro!: refs_ok_put_cert)
qed


lemma ok_DeleteHost:
  assumes step: "DeleteHost tn h m = Inr m'" and ok: "store_ok m"
  shows "store_ok m'"
proof -
  have jobs: "jobs_ok m'" using jobs_inv_DeleteHost step ok by (auto simp: store_ok_def)
  define doomed where "doomed = (\<lambda>key. fst key = tn \<and>
     (case get (m_records m) key of None \<Rightarrow> False | Some rec \<Rightarrow> j_HostID rec = h))"
  from step obtain x where x: "get (m_hosts m) h = Some (x, tn)"
    and m': "m' = m\<lparr>m_hosts := del h (m_hosts m),
          m_certs := sweep (\<lambda>_ c. c_TenantID c = tn \<and> c_HostID c = h) (m_certs m),
          m_jobs := del (tn, h) (m_jobs m),
          m_records := sweep (\<lambda>key _. doomed key) (m_records m),
          m_results := sweep (\<lambda>key _. doomed key) (m_results m)\<rparr>"
    by (auto simp: DeleteHost_def Let_def doomed_def scoped_host_Some split: if_splits)
  have "hosts_ok (m_tenants m) (del h (m_hosts m))"
    by (rule hosts_ok_sub [of _ "m_hosts m"]) (use ok in \<open>auto simp: store_ok_def split: if_splits\<close>)
  moreover have "refs_ok (del h (m_hosts m)) (m_certs m') (m_records m')"
    unfolding refs_ok_def
  proof (intro conjI allI impI)
    have refs: "refs_ok (m_hosts m) (m_certs m) (m_records m)" using ok by (simp add: store_ok_def)
    show "\<exists>x. get (del h (m_hosts m)) (c_HostID c) = Some (x, c_TenantID c)" "c_Fingerprint c = fp"
      if "get (m_certs m') fp = Some c" for fp c
      using refs_okD(1,2) [OF refs, of fp c] that x by (auto simp: m' get_sweep_Some)
    show "\<exists>x. get (del h (m_hosts m)) (j_HostID r) = Some (x, t)" if "get (m_records m') (t, i) = Some r" for t i r
      using refs_okD(3) [OF refs, of t i r] that x by (auto simp: m' get_sweep_Some doomed_def)
  qed
  ultimately show ?thesis using ok jobs by (simp add: store_ok_def m')
qed

lemma accounts_okD:
  assumes "accounts_ok as ss ks"
  shows "get as i = Some a \<Longrightarrow> a_ID a = i"
    "get as i = Some a \<Longrightarrow> get as j = Some b \<Longrightarrow> a_EmailKey a = a_EmailKey b \<Longrightarrow> i = j"
    "get ss h = Some s \<Longrightarrow> get as (s_AccountID s) \<noteq> None"
    "get ks h = Some k \<Longrightarrow> get as (at_AccountID k) \<noteq> None"
  using assms unfolding accounts_ok_def by meson+

lemma accounts_okI:
  assumes "\<And>i a. get as i = Some a \<Longrightarrow> a_ID a = i"
    "\<And>i j a b. get as i = Some a \<Longrightarrow> get as j = Some b \<Longrightarrow> a_EmailKey a = a_EmailKey b \<Longrightarrow> i = j"
    "\<And>h s. get ss h = Some s \<Longrightarrow> get as (s_AccountID s) \<noteq> None"
    "\<And>h k. get ks h = Some k \<Longrightarrow> get as (at_AccountID k) \<noteq> None"
  shows "accounts_ok as ss ks"
  unfolding accounts_ok_def using assms by blast

lemma refs_okI:
  assumes "\<And>fp c. get cs fp = Some c \<Longrightarrow> c_Fingerprint c = fp \<and> (\<exists>h. get hs (c_HostID c) = Some (h, c_TenantID c))"
    and "\<And>t i r. get recs (t, i) = Some r \<Longrightarrow> \<exists>h. get hs (j_HostID r) = Some (h, t)"
  shows "refs_ok hs cs recs"
  unfolding refs_ok_def using assms by simp

lemma refs_ok_certs:
  assumes "refs_ok hs cs recs" and source: "\<And>fp c'. get cs' fp = Some c' \<Longrightarrow>
    \<exists>c. get cs fp = Some c \<and> c_HostID c = c_HostID c' \<and> c_TenantID c = c_TenantID c' \<and> c_Fingerprint c = c_Fingerprint c'"
  shows "refs_ok hs cs' recs"
proof (rule refs_okI)
  fix fp c'
  assume "get cs' fp = Some c'"
  then obtain c where "get cs fp = Some c" "c_HostID c = c_HostID c'" "c_TenantID c = c_TenantID c'"
    "c_Fingerprint c = c_Fingerprint c'" using source by blast
  with refs_okD(1,2) [OF assms(1), of fp c]
  show "c_Fingerprint c' = fp \<and> (\<exists>h. get hs (c_HostID c') = Some (h, c_TenantID c'))" by simp
qed (rule refs_okD(3) [OF assms(1)])

lemma refs_ok_records:
  assumes "refs_ok hs cs recs" and source: "\<And>key r'. get recs' key = Some r' \<Longrightarrow> \<exists>r. get recs key = Some r \<and> j_HostID r = j_HostID r'"
  shows "refs_ok hs cs recs'"
proof (rule refs_okI)
  fix t i r'
  assume "get recs' (t, i) = Some r'"
  then obtain r where "get recs (t, i) = Some r" "j_HostID r = j_HostID r'" using source by blast
  with refs_okD(3) [OF assms(1), of t i r] show "\<exists>h. get hs (j_HostID r') = Some (h, t)" by simp
qed (use refs_okD(1,2) [OF assms(1)] in blast)

lemma ok_DeleteTenant:
  assumes step: "DeleteTenant tn m = Inr m'" and ok: "store_ok m"
  shows "store_ok m'"
proof -
  have jobs: "jobs_ok m'" using jobs_inv_DeleteTenant step ok by (auto simp: store_ok_def)
  define gone where "gone = (\<lambda>acc. case get (m_accounts m) acc of None \<Rightarrow> False | Some a \<Rightarrow> a_TenantID a = tn)"
  have m': "m_tenants m' = del tn (m_tenants m)" "m_hosts m' = sweep (\<lambda>_ row. snd row = tn) (m_hosts m)"
    "m_certs m' = sweep (\<lambda>_ c. c_TenantID c = tn) (m_certs m)" "m_records m' = sweep (\<lambda>key _. fst key = tn) (m_records m)"
    "m_accounts m' = sweep (\<lambda>_ a. a_TenantID a = tn) (m_accounts m)"
    "m_sessions m' = sweep (\<lambda>_ held. gone (s_AccountID held)) (m_sessions m)"
    "m_apiTokens m' = sweep (\<lambda>_ held. gone (at_AccountID held)) (m_apiTokens m)"
    "m_waiters m' = m_waiters m" "m_channels m' = m_channels m" "m_closed m' = m_closed m"
    using step by (auto simp: DeleteTenant_def Let_def gone_def split: if_splits)
  have hosts: "hosts_ok (m_tenants m) (m_hosts m)" and refs: "refs_ok (m_hosts m) (m_certs m) (m_records m)"
    and accts: "accounts_ok (m_accounts m) (m_sessions m) (m_apiTokens m)"
    using ok by (simp_all add: store_ok_def)
  have "hosts_ok (m_tenants m') (m_hosts m')"
    unfolding m'
    by (rule hosts_ok_tenants [OF hosts_ok_sub [OF hosts]])
      (use hosts_okD(2) [OF hosts] in \<open>auto simp: get_sweep_Some\<close>)
  moreover have "refs_ok (m_hosts m') (m_certs m') (m_records m')"
    unfolding refs_ok_def m' get_sweep_Some using refs_okD [OF refs] by (simp, blast)
  moreover have "accounts_ok (m_accounts m') (m_sessions m') (m_apiTokens m')"
  proof (rule accounts_okI)
    show "i = j" if "get (m_accounts m') i = Some a" "get (m_accounts m') j = Some b" "a_EmailKey a = a_EmailKey b"
      for i j a b
      using that accounts_okD(2) [OF accts, of i a j b] by (simp add: m' get_sweep_Some)
    show "get (m_accounts m') (s_AccountID x) \<noteq> None" if "get (m_sessions m') h = Some x" for h x
      using that accounts_okD(3) [OF accts, of h x] by (auto simp: m' get_sweep_Some gone_def)
    show "get (m_accounts m') (at_AccountID x) \<noteq> None" if "get (m_apiTokens m') h = Some x" for h x
      using that accounts_okD(4) [OF accts, of h x] by (auto simp: m' get_sweep_Some gone_def)
  qed (use accounts_okD(1) [OF accts] in \<open>simp add: m' get_sweep_Some\<close>)
  ultimately show ?thesis using ok jobs by (simp add: store_ok_def m')
qed

lemma ok_AddCertificate: "AddCertificate tn c m = Inr m' \<Longrightarrow> store_ok m \<Longrightarrow> store_ok m'"
  by (auto simp: AddCertificate_def scoped_host_Some store_ok_def split: if_splits sum.splits
      dest!: stampCertificate_Inr intro!: refs_ok_put_cert)

lemma ok_SupersedeCertificate: "store_ok m \<Longrightarrow> store_ok (SupersedeCertificate tn fp at m)"
  by (cases "get (m_certs m) fp")
    (auto simp: SupersedeCertificate_def store_ok_def get_put split: if_splits elim!: refs_ok_certs)

lemma ok_RenewCertificate: "RenewCertificate tn r m = Inr m' \<Longrightarrow> store_ok m \<Longrightarrow> store_ok m'"
  by (auto simp: RenewCertificate_def Let_def scoped_host_Some split: if_splits sum.splits
      dest!: stampCertificate_Inr intro!: ok_SupersedeCertificate)
    (auto simp: store_ok_def intro!: refs_ok_put_cert)

lemma ok_RevokeHost:
  assumes step: "RevokeHost tn now h m = Inr m'" and ok: "store_ok m"
  shows "store_ok m'"
proof -
  from step obtain x where x: "get (m_hosts m) h = Some (x, tn)"
    and m': "m' = m\<lparr>m_hosts := put h (x\<lparr>h_Revoked := True\<rparr>, tn) (m_hosts m),
          m_certs := rewrite (\<lambda>_ c. if c_TenantID c = tn \<and> c_HostID c = h
                                   then c\<lparr>c_Revoked := True, c_RevokedAt := now\<rparr> else c) (m_certs m)\<rparr>"
    by (cases "scoped_host tn h m") (auto simp: RevokeHost_def scoped_host_Some)
  have "hosts_ok (m_tenants m) (m_hosts m')"
    unfolding m' by (simp, rule hosts_ok_change [OF _ x]) (use ok in \<open>auto simp: store_ok_def\<close>)
  moreover have "refs_ok (m_hosts m') (m_certs m) (m_records m)"
    by (rule refs_ok_hosts [of "m_hosts m"]) (use ok x in \<open>auto simp: store_ok_def m' get_put\<close>)
  then have "refs_ok (m_hosts m') (m_certs m') (m_records m)"
    by (rule refs_ok_certs) (auto simp: m' get_rewrite split: if_splits)
  ultimately show ?thesis using ok by (simp add: store_ok_def m')
qed

subsection \<open>Jobs\<close>

lemma job_frames:
  "CreateJob tn j m = Some (Inr m') \<Longrightarrow> m_tenants m' = m_tenants m \<and> m_hosts m' = m_hosts m \<and> m_certs m' = m_certs m \<and>
     m_accounts m' = m_accounts m \<and> m_sessions m' = m_sessions m \<and> m_apiTokens m' = m_apiTokens m"
  "ApproveJob tn i approver now m = Some (Inr m') \<Longrightarrow> m_tenants m' = m_tenants m \<and> m_hosts m' = m_hosts m \<and>
     m_certs m' = m_certs m \<and> m_accounts m' = m_accounts m \<and> m_sessions m' = m_sessions m \<and> m_apiTokens m' = m_apiTokens m"
  by (auto simp: CreateJob_def Let_def split: if_splits dest!: enqueue_and_wake_Some)
    (cases "get (m_records m) (tn, i)"; auto simp: ApproveJob_def Let_def split: if_splits dest!: enqueue_and_wake_Some)+

lemma ok_CreateJob:
  assumes step: "CreateJob tn j m = Some (Inr m')" and ok: "store_ok m"
  shows "store_ok m'"
proof -
  have "jobs_ok m'" "waiters_ok m'"
    using jobs_inv_CreateJob [OF _ step] waiters_ok_CreateJob(2) [OF _ step] ok by (auto simp: store_ok_def)
  moreover have "refs_ok (m_hosts m) (m_certs m) (m_records m')"
    using step by (rule CreateJob_Inr)
      (use ok in \<open>auto simp: store_ok_def scoped_host_Some job_entry_def intro!: refs_ok_put_record\<close>)
  ultimately show ?thesis using ok job_frames(1) [OF step] by (simp add: store_ok_def)
qed

lemma ok_ApproveJob:
  assumes step: "ApproveJob tn i approver now m = Some (Inr m')" and "now \<noteq> 0" and ok: "store_ok m"
  shows "store_ok m'"
proof -
  have "jobs_ok m'" "waiters_ok m'"
    using jobs_inv_ApproveJob [OF _ \<open>now \<noteq> 0\<close> step] waiters_ok_ApproveJob(2) [OF _ step] ok by (auto simp: store_ok_def)
  moreover have "refs_ok (m_hosts m) (m_certs m) (m_records m')"
    using step by (rule ApproveJob_Inr)
      (use ok in \<open>auto simp: store_ok_def get_put split: if_splits elim!: refs_ok_records\<close>)
  ultimately show ?thesis using ok job_frames(2) [OF step] by (simp add: store_ok_def)
qed

lemma claim_frames:
  assumes "ClaimJobs tn now h lim m = (js, m')"
  shows "m_tenants m' = m_tenants m" "m_hosts m' = m_hosts m" "m_certs m' = m_certs m" "m_accounts m' = m_accounts m"
    "m_sessions m' = m_sessions m" "m_apiTokens m' = m_apiTokens m" "m_waiters m' = m_waiters m"
    "m_channels m' = m_channels m" "m_closed m' = m_closed m" "m_tokens m' = m_tokens m"
  using assms by (auto simp: ClaimJobs_def Let_def split: if_splits prod.splits)

lemma ok_ClaimJobs:
  assumes step: "ClaimJobs tn now h lim m = (js, m')" and "now \<noteq> 0" and ok: "store_ok m"
  shows "store_ok m'"
proof -
  have "jobs_ok m'" using jobs_inv_ClaimJobs [OF _ \<open>now \<noteq> 0\<close> step] ok by (auto simp: store_ok_def)
  moreover have refs: "refs_ok (m_hosts m) (m_certs m) (m_records m)" using ok by (simp add: store_ok_def)
  from step have "refs_ok (m_hosts m) (m_certs m) (m_records m')"
  proof (cases rule: ClaimJobs_cases)
    case some
    show ?thesis unfolding some(7)
      by (rule refs_ok_records [OF refs]) (auto simp: get_stamped split: if_splits)
  qed (use refs in simp)
  ultimately show ?thesis
    using ok by (simp add: store_ok_def claim_frames [OF step])
qed

lemma ok_RecordResult:
  assumes step: "RecordResult tn now h r m = Inr (b, m')" and "now \<noteq> 0" and ok: "store_ok m"
  shows "store_ok m'"
proof (cases "m' = m")
  case False
  have "jobs_ok m'" using jobs_inv_RecordResult [OF _ \<open>now \<noteq> 0\<close> step] ok by (auto simp: store_ok_def)
  moreover from step False obtain rec where rec: "get (m_records m) (tn, JobID r) = Some rec"
    and m': "m' = m\<lparr>m_results := put (tn, JobID r) r (m_results m),
                  m_records := put (tn, JobID r) (rec\<lparr>j_CompletedAt := now\<rparr>) (m_records m)\<rparr>"
    by (cases "get (m_records m) (tn, JobID r)") (auto simp: RecordResult_def Let_def split: if_splits)
  moreover have "refs_ok (m_hosts m) (m_certs m) (put (tn, JobID r) (rec\<lparr>j_CompletedAt := now\<rparr>) (m_records m))"
    by (rule refs_ok_records [of _ _ "m_records m"]) (use ok rec in \<open>auto simp: store_ok_def get_put split: if_splits\<close>)
  ultimately show ?thesis using ok by (simp add: store_ok_def)
qed (use ok in simp)

subsection \<open>Accounts\<close>

lemma ok_CreateAccount:
  assumes step: "CreateAccount tn now a m = Inr m'" and ok: "store_ok m"
  shows "store_ok m'"
proof -
  have accts: "accounts_ok (m_accounts m) (m_sessions m) (m_apiTokens m)" using ok by (simp add: store_ok_def)
  note A = accounts_okD [OF accts]
  define a' where "a' = a\<lparr>a_TenantID := tn, a_CreatedAt := (if is_zero (a_CreatedAt a) then now else a_CreatedAt a)\<rparr>"
  from step have email: "\<not> any_entry (\<lambda>_ held. a_EmailKey held = a_EmailKey a) (m_accounts m)"
    and m': "m' = m\<lparr>m_accounts := put (a_ID a) a' (m_accounts m)\<rparr>"
    by (auto simp: CreateAccount_def Let_def a'_def split: if_splits)
  have a': "a_ID a' = a_ID a" "a_EmailKey a' = a_EmailKey a" by (simp_all add: a'_def)
  have "accounts_ok (put (a_ID a) a' (m_accounts m)) (m_sessions m) (m_apiTokens m)"
  proof (rule accounts_okI)
    show "i = j" if "get (put (a_ID a) a' (m_accounts m)) i = Some x" "get (put (a_ID a) a' (m_accounts m)) j = Some y"
      "a_EmailKey x = a_EmailKey y" for i j x y
      using that A(2) [of i x j y] email a' by (auto simp: get_put any_entry_iff split: if_splits)
  qed (use A(1,3,4) a' in \<open>auto simp: get_put split: if_splits\<close>)
  then show ?thesis using ok by (simp add: m' store_ok_def)
qed

lemma ok_updateAccount:
  assumes step: "updateAccount tn i f m = Inr m'" and ok: "store_ok m"
    and keep: "\<And>a. a_ID (f a) = a_ID a" "\<And>a. a_EmailKey (f a) = a_EmailKey a"
  shows "store_ok m'"
proof -
  have accts: "accounts_ok (m_accounts m) (m_sessions m) (m_apiTokens m)" using ok by (simp add: store_ok_def)
  note A = accounts_okD [OF accts]
  from step obtain a where a: "get (m_accounts m) i = Some a" and m': "m' = m\<lparr>m_accounts := put i (f a) (m_accounts m)\<rparr>"
    by (cases "scoped_account tn i m") (auto simp: updateAccount_def scoped_account_Some)
  have "accounts_ok (put i (f a) (m_accounts m)) (m_sessions m) (m_apiTokens m)"
  proof (rule accounts_okI)
    have same: "\<exists>x0. get (m_accounts m) j = Some x0 \<and> a_EmailKey x0 = a_EmailKey x"
      if "get (put i (f a) (m_accounts m)) j = Some x" for j x
      using that a keep by (auto simp: get_put split: if_splits)
    show "j = k" if "get (put i (f a) (m_accounts m)) j = Some x" "get (put i (f a) (m_accounts m)) k = Some y"
      "a_EmailKey x = a_EmailKey y" for j k x y
      using same [OF that(1)] same [OF that(2)] that(3) A(2) by force
  qed (use A(1,3,4) a keep in \<open>auto simp: get_put split: if_splits\<close>)
  then show ?thesis using ok by (simp add: m' store_ok_def)
qed

lemma ok_DeleteAccount:
  assumes step: "DeleteAccount tn i m = Inr m'" and ok: "store_ok m"
  shows "store_ok m'"
proof -
  have accts: "accounts_ok (m_accounts m) (m_sessions m) (m_apiTokens m)" using ok by (simp add: store_ok_def)
  note A = accounts_okD [OF accts]
  have "accounts_ok (del i (m_accounts m)) (sweep (\<lambda>_ held. s_AccountID held = i) (m_sessions m))
      (sweep (\<lambda>_ held. at_AccountID held = i) (m_apiTokens m))"
    by (rule accounts_okI) (use A in \<open>auto simp: get_sweep_Some split: if_splits\<close>)
  then show ?thesis using ok step by (auto simp: DeleteAccount_def store_ok_def split: if_splits)
qed

text \<open>Sessions and tokens only ever point at an account that is there.\<close>

lemma accounts_ok_creds:
  assumes "accounts_ok as ss ks"
    and "\<And>h s. get ss' h = Some s \<Longrightarrow> get as (s_AccountID s) \<noteq> None"
    and "\<And>h k. get ks' h = Some k \<Longrightarrow> get as (at_AccountID k) \<noteq> None"
  shows "accounts_ok as ss' ks'"
  by (rule accounts_okI) (use accounts_okD(1,2) [OF assms(1)] assms(2,3) in blast)+

lemma ok_creds:
  assumes "store_ok m" "m' = m\<lparr>m_sessions := ss, m_apiTokens := ks\<rparr>"
    and "\<And>h s. get ss h = Some s \<Longrightarrow> get (m_sessions m) h = Some s \<or> get (m_accounts m) (s_AccountID s) \<noteq> None"
    and "\<And>h k. get ks h = Some k \<Longrightarrow> get (m_apiTokens m) h = Some k \<or> get (m_accounts m) (at_AccountID k) \<noteq> None"
  shows "store_ok m'"
proof -
  have accts: "accounts_ok (m_accounts m) (m_sessions m) (m_apiTokens m)" using assms(1) by (simp add: store_ok_def)
  have "accounts_ok (m_accounts m) ss ks"
    by (rule accounts_ok_creds [OF accts]) (use accounts_okD(3,4) [OF accts] assms(3,4) in blast)+
  then show ?thesis using assms(1,2) by (simp add: store_ok_def)
qed

lemma ok_CreateSession: "CreateSession tn x m = Inr m' \<Longrightarrow> store_ok m \<Longrightarrow> store_ok m'"
  by (rule ok_creds [where ss = "m_sessions m'" and ks = "m_apiTokens m'"])
    (auto simp: CreateSession_def Let_def scoped_account_Some get_put get_sweep_Some split: if_splits)

lemma ok_TouchSession: "TouchSession tn i h e u m = Inr m' \<Longrightarrow> store_ok m \<Longrightarrow> store_ok m'"
  by (cases "get (m_sessions m) h"; rule ok_creds [where ss = "m_sessions m'" and ks = "m_apiTokens m'"])
    (auto simp: TouchSession_def scoped_account_Some get_put split: if_splits)

lemma ok_DeleteSession: "DeleteSession tn i h m = Inr m' \<Longrightarrow> store_ok m \<Longrightarrow> store_ok m'"
  by (cases "get (m_sessions m) h"; rule ok_creds [where ss = "m_sessions m'" and ks = "m_apiTokens m'"])
    (auto simp: DeleteSession_def split: if_splits)

lemma ok_DeleteSessionsFor: "DeleteSessionsFor tn i m = Inr (n, m') \<Longrightarrow> store_ok m \<Longrightarrow> store_ok m'"
  by (rule ok_creds [where ss = "m_sessions m'" and ks = "m_apiTokens m'"])
    (auto simp: DeleteSessionsFor_def get_sweep_Some split: if_splits)

lemma ok_CreateAPIToken: "CreateAPIToken tn y m = Inr m' \<Longrightarrow> store_ok m \<Longrightarrow> store_ok m'"
  by (rule ok_creds [where ss = "m_sessions m'" and ks = "m_apiTokens m'"])
    (auto simp: CreateAPIToken_def scoped_account_Some get_put split: if_splits)

lemma ok_TouchAPIToken: "TouchAPIToken tn i h u m = Inr m' \<Longrightarrow> store_ok m \<Longrightarrow> store_ok m'"
  by (cases "get (m_apiTokens m) h"; rule ok_creds [where ss = "m_sessions m'" and ks = "m_apiTokens m'"])
    (auto simp: TouchAPIToken_def scoped_account_Some get_put split: if_splits)

lemma ok_DeleteAPIToken: "DeleteAPIToken tn i h m = Inr m' \<Longrightarrow> store_ok m \<Longrightarrow> store_ok m'"
  by (cases "get (m_apiTokens m) h"; rule ok_creds [where ss = "m_sessions m'" and ks = "m_apiTokens m'"])
    (auto simp: DeleteAPIToken_def split: if_splits)

subsection \<open>The rest leaves these maps alone\<close>

lemma ok_frames:
  "CreateEnrollmentToken s x m = Inr m' \<Longrightarrow> store_ok m \<Longrightarrow> store_ok m'"
  "ConsumeEnrollmentToken s hash h now m = Inr (tk, m') \<Longrightarrow> store_ok m \<Longrightarrow> store_ok m'"
  "RecordEvent s e m = Inr m' \<Longrightarrow> store_ok m \<Longrightarrow> store_ok m'"
  "RecordUnitTransitions s h trs m = Inr m' \<Longrightarrow> store_ok m \<Longrightarrow> store_ok m'"
  "CreateAlertRule s ar m = Inr m' \<Longrightarrow> store_ok m \<Longrightarrow> store_ok m'"
  "UpdateAlertRule s ar m = Inr m' \<Longrightarrow> store_ok m \<Longrightarrow> store_ok m'"
  "DeleteAlertRule s i m = Inr m' \<Longrightarrow> store_ok m \<Longrightarrow> store_ok m'"
  "UpsertAlertState s st m = Inr m' \<Longrightarrow> store_ok m \<Longrightarrow> store_ok m'"
  "ReleaseAlertFiring s k m = (b, m') \<Longrightarrow> store_ok m \<Longrightarrow> store_ok m'"
  "ClaimAlertNotification s k at c m = Inr (b, m') \<Longrightarrow> store_ok m \<Longrightarrow> store_ok m'"
  "CreateTemplateVersion s tv m = Inr (v, m') \<Longrightarrow> store_ok m \<Longrightarrow> store_ok m'"
  "ArchiveTemplate s ta m = Inr m' \<Longrightarrow> store_ok m \<Longrightarrow> store_ok m'"
  "RestoreTemplate s name m = Inr m' \<Longrightarrow> store_ok m \<Longrightarrow> store_ok m'"
  "CreateWallboardShare s now w m = Inr m' \<Longrightarrow> store_ok m \<Longrightarrow> store_ok m'"
  "DeleteWallboardShare s i m = Inr m' \<Longrightarrow> store_ok m \<Longrightarrow> store_ok m'"
  by (auto simp: store_ok_def Let_def CreateEnrollmentToken_def ConsumeEnrollmentToken_def RecordEvent_def
      RecordUnitTransitions_def CreateAlertRule_def UpdateAlertRule_def DeleteAlertRule_def UpsertAlertState_def
      ReleaseAlertFiring_def ClaimAlertNotification_def CreateTemplateVersion_def ArchiveTemplate_def
      RestoreTemplate_def CreateWallboardShare_def DeleteWallboardShare_def split: if_splits option.splits)

lemma ok_total:
  "store_ok m \<Longrightarrow> store_ok (RecordAlertDelivery s i at failure m)"
  "store_ok m \<Longrightarrow> store_ok (TouchWallboardShare s i at m)"
  "store_ok m \<Longrightarrow> store_ok (snd (Subscribe h m))"
  "store_ok m \<Longrightarrow> store_ok (removeWaiter h w m)"
  using waiters_ok_Subscribe [of m h] waiters_ok_removeWaiter [of m h w]
  by (auto simp: store_ok_def RecordAlertDelivery_def TouchWallboardShare_def split: option.splits)
    (auto simp: Subscribe_def removeWaiter_def Let_def)

lemma ok_host_updates:
  "RecordHeartbeat s h u m = Inr m' \<Longrightarrow> store_ok m \<Longrightarrow> store_ok m'"
  "StoreFacts s h digest document m = Inr m' \<Longrightarrow> store_ok m \<Longrightarrow> store_ok m'"
  "StorePolicy s h digest document m = Inr m' \<Longrightarrow> store_ok m \<Longrightarrow> store_ok m'"
  "StoreSigners s h digest document m = Inr m' \<Longrightarrow> store_ok m \<Longrightarrow> store_ok m'"
  by (auto simp: RecordHeartbeat_def StoreFacts_def StorePolicy_def StoreSigners_def elim!: ok_update_host)

lemma ok_account_updates:
  "UpdateAccountPassword s i pw m = Inr m' \<Longrightarrow> store_ok m \<Longrightarrow> store_ok m'"
  "RecordAccountSignIn s i at m = Inr m' \<Longrightarrow> store_ok m \<Longrightarrow> store_ok m'"
  by (auto simp: UpdateAccountPassword_def RecordAccountSignIn_def elim!: ok_updateAccount)

lemmas ok_steps = ok_frames ok_host_updates ok_account_updates ok_CreateEnrolledHost ok_DeleteHost ok_AddCertificate
  ok_RenewCertificate ok_RevokeHost ok_CreateJob ok_ApproveJob ok_ClaimJobs ok_RecordResult ok_CreateAccount
  ok_DeleteAccount ok_CreateSession ok_TouchSession ok_DeleteSession ok_DeleteSessionsFor ok_CreateAPIToken
  ok_TouchAPIToken ok_DeleteAPIToken ok_CreateTenant ok_UpdateTenant ok_DeleteTenant

lemma scoped_step_ok: "scoped_step s ds m m' \<Longrightarrow> store_ok m \<Longrightarrow> store_ok m'"
  by (cases rule: scoped_step.cases)
    ((erule (1) ok_steps, assumption?, assumption?) | simp add: ok_total ok_SupersedeCertificate)+

lemma store_step_ok: "store_step ds m m' \<Longrightarrow> store_ok m \<Longrightarrow> store_ok m'"
  by (cases rule: store_step.cases) (auto intro: scoped_step_ok ok_steps ok_total)

lemma reachable_ok: "reachable m \<Longrightarrow> store_ok m"
  by (induction rule: reachable.induct) (auto intro: store_ok_NewMemory store_step_ok)

end
