(* ===== verification/Delivery.thy ===== *)
theory Delivery
  imports StoreRun
begin

text \<open>
  What the job queue of the store promises: only authorised work is handed out, to the host it was
  made for, at most once; claimable work is handed out after enough polls; a result is taken from the
  host that was given the job, and the first one stays; waking the polls of a host never panics.
\<close>

section \<open>Jobs\<close>

lemma reachable_jobs: "reachable m \<Longrightarrow> jobs_ok m" "reachable m \<Longrightarrow> waiters_ok m"
  using reachable_ok by (auto simp: store_ok_def)

lemma claimed_queued:
  "ClaimJobs tn now h lim m = (claimed, m') \<Longrightarrow> j \<in> set claimed \<Longrightarrow>
   j \<in> set (queue_of (m_jobs m) (tn, h)) \<and> NotBefore j \<le> now"
  by (erule ClaimJobs_cases) (auto dest!: mset_eq_setD [of "_ @ _", simplified])

lemma claimed_authorised:
  assumes "store_ok m" "ClaimJobs tn now h lim m = (claimed, m')" "j \<in> set claimed"
  shows "NotBefore j \<le> now \<and>
    (\<exists>r. get (m_records m) (tn, ID j) = Some r \<and> j_Job r = j \<and> j_HostID r = h \<and> j_ClaimedAt r = 0 \<and>
      (j_ApprovalRequired r \<longrightarrow> j_ApprovedAt r \<noteq> 0 \<and>
        (j_ApprovalDistinctOperator r \<longrightarrow> j_ApprovedBy r \<noteq> j_CreatedBy r)))"
proof -
  have "jobs_ok m" using assms(1) by (simp add: store_ok_def)
  note I = jobs_invD [OF this]
  have q: "j \<in> set (queue_of (m_jobs m) (tn, h))" "NotBefore j \<le> now" using claimed_queued [OF assms(2,3)] by auto
  then obtain r where r: "get (m_records m) (tn, ID j) = Some r" "j_Job r = j" "j_HostID r = h" "Claimable r"
    using I(3) by blast
  with I(1) [OF r(1)] q(2) show ?thesis
    by (auto simp: record_ok_def Claimable_def AwaitingApproval_def is_zero_def split: if_splits)
qed

text \<open>Property C5: what a claim hands out was created for the claiming host in the claiming tenant, has not been handed out before, is due, and was approved where approval is required, by somebody other than its creator where a second operator is.\<close>

theorem delivered_approved:
  assumes "reachable m" "ClaimJobs tn now h lim m = (claimed, m')" "j \<in> set claimed"
  shows "NotBefore j \<le> now \<and>
    (\<exists>r. get (m_records m) (tn, ID j) = Some r \<and> j_Job r = j \<and> j_HostID r = h \<and> j_ClaimedAt r = 0 \<and>
      (j_ApprovalRequired r \<longrightarrow> j_ApprovedAt r \<noteq> 0 \<and>
        (j_ApprovalDistinctOperator r \<longrightarrow> j_ApprovedBy r \<noteq> j_CreatedBy r)))"
  by (rule claimed_authorised [OF reachable_ok [OF assms(1)] assms(2,3)])

text \<open>In every reachable state the queue of a host holds exactly the jobs whose records are claimable: the queue the in-memory store keeps by hand agrees with the condition the PostgreSQL store evaluates on its rows.\<close>

theorem queue_is_claimable:
  assumes "reachable m"
  shows "set (queue_of (m_jobs m) (tn, h)) =
    {j_Job r |r. \<exists>i. get (m_records m) (tn, i) = Some r \<and> j_HostID r = h \<and> Claimable r}"
proof -
  note I = jobs_invD [OF reachable_jobs(1) [OF assms]]
  show ?thesis
  proof (intro equalityI subsetI)
    fix j assume "j \<in> set (queue_of (m_jobs m) (tn, h))"
    then show "j \<in> {j_Job r |r. \<exists>i. get (m_records m) (tn, i) = Some r \<and> j_HostID r = h \<and> Claimable r}"
      unfolding I(3) by auto
  next
    fix j assume "j \<in> {j_Job r |r. \<exists>i. get (m_records m) (tn, i) = Some r \<and> j_HostID r = h \<and> Claimable r}"
    then obtain r i where "j = j_Job r" "get (m_records m) (tn, i) = Some r" "j_HostID r = h" "Claimable r" by blast
    moreover from this I(1) have "ID j = i" by (fastforce simp: record_ok_def)
    ultimately show "j \<in> set (queue_of (m_jobs m) (tn, h))" using I(3) by blast
  qed
qed

text \<open>Property C7: a claimable job is handed to its host after at most as many polls as its queue is long, once it is due, whatever the page size and whatever else is queued.\<close>

theorem claimable_delivered:
  assumes "reachable m" "get (m_records m) (tn, i) = Some r" "Claimable r"
    and "length (queue_of (m_jobs m) (tn, j_HostID r)) \<le> length nows" "\<forall>now\<in>set nows. NotBefore (j_Job r) \<le> now"
  shows "j_Job r \<in> set (fst (polls tn (j_HostID r) lim nows m))"
proof (rule polls_deliver)
  show "j_Job r \<in> set (queue_of (m_jobs m) (tn, j_HostID r))"
    using queue_is_claimable [OF assms(1), of tn "j_HostID r"] assms(2,3) by blast
qed (use assms(4,5) in auto)

section \<open>Which steps touch which maps\<close>

abbreviation same_jobs :: "memory \<Rightarrow> memory \<Rightarrow> bool" where
  "same_jobs m m' \<equiv> m_jobs m' = m_jobs m \<and> m_records m' = m_records m \<and> m_results m' = m_results m"

lemma host_frames:
  "CreateEnrollmentToken s x m = Inr m' \<Longrightarrow> same_jobs m m'"
  "ConsumeEnrollmentToken s hash h now m = Inr (tk, m') \<Longrightarrow> same_jobs m m'"
  "CreateEnrolledHost s hh c m = Inr m' \<Longrightarrow> same_jobs m m' \<and> m_tokens m' = m_tokens m"
  "update_host s h f m = Inr m' \<Longrightarrow> same_jobs m m' \<and> m_tokens m' = m_tokens m"
  "AddCertificate s c m = Inr m' \<Longrightarrow> same_jobs m m' \<and> m_tokens m' = m_tokens m"
  "RevokeHost s now h m = Inr m' \<Longrightarrow> same_jobs m m' \<and> m_tokens m' = m_tokens m"
  "DeleteHost s h m = Inr m' \<Longrightarrow> m_tokens m' = m_tokens m"
  by (auto simp: Let_def CreateEnrollmentToken_def ConsumeEnrollmentToken_def CreateEnrolledHost_def update_host_def
      AddCertificate_def RevokeHost_def DeleteHost_def split: if_splits option.splits sum.splits)

lemma supersede_frame:
  "m_jobs (SupersedeCertificate s fp at m) = m_jobs m" "m_records (SupersedeCertificate s fp at m) = m_records m"
  "m_results (SupersedeCertificate s fp at m) = m_results m" "m_tokens (SupersedeCertificate s fp at m) = m_tokens m"
  by (auto simp: SupersedeCertificate_def split: option.splits)

lemma renew_frame: "RenewCertificate s r m = Inr m' \<Longrightarrow> same_jobs m m' \<and> m_tokens m' = m_tokens m"
  by (auto simp: RenewCertificate_def Let_def supersede_frame split: if_splits sum.splits)

lemma account_frames:
  "CreateAccount s now a m = Inr m' \<Longrightarrow> same_jobs m m' \<and> m_tokens m' = m_tokens m"
  "updateAccount s i f m = Inr m' \<Longrightarrow> same_jobs m m' \<and> m_tokens m' = m_tokens m"
  "DeleteAccount s i m = Inr m' \<Longrightarrow> same_jobs m m' \<and> m_tokens m' = m_tokens m"
  "CreateSession s ss m = Inr m' \<Longrightarrow> same_jobs m m' \<and> m_tokens m' = m_tokens m"
  "TouchSession s i hash e u m = Inr m' \<Longrightarrow> same_jobs m m' \<and> m_tokens m' = m_tokens m"
  "DeleteSession s i hash m = Inr m' \<Longrightarrow> same_jobs m m' \<and> m_tokens m' = m_tokens m"
  "DeleteSessionsFor s i m = Inr (n, m') \<Longrightarrow> same_jobs m m' \<and> m_tokens m' = m_tokens m"
  "CreateAPIToken s y m = Inr m' \<Longrightarrow> same_jobs m m' \<and> m_tokens m' = m_tokens m"
  "TouchAPIToken s i hash u m = Inr m' \<Longrightarrow> same_jobs m m' \<and> m_tokens m' = m_tokens m"
  "DeleteAPIToken s i hash m = Inr m' \<Longrightarrow> same_jobs m m' \<and> m_tokens m' = m_tokens m"
  by (auto simp: Let_def CreateAccount_def updateAccount_def DeleteAccount_def CreateSession_def TouchSession_def
      DeleteSession_def DeleteSessionsFor_def CreateAPIToken_def TouchAPIToken_def DeleteAPIToken_def
      split: if_splits option.splits)

lemma fleet_frames:
  "RecordEvent s ev m = Inr m' \<Longrightarrow> same_jobs m m' \<and> m_tokens m' = m_tokens m"
  "RecordUnitTransitions s h trs m = Inr m' \<Longrightarrow> same_jobs m m' \<and> m_tokens m' = m_tokens m"
  "CreateAlertRule s ar m = Inr m' \<Longrightarrow> same_jobs m m' \<and> m_tokens m' = m_tokens m"
  "UpdateAlertRule s ar m = Inr m' \<Longrightarrow> same_jobs m m' \<and> m_tokens m' = m_tokens m"
  "DeleteAlertRule s i m = Inr m' \<Longrightarrow> same_jobs m m' \<and> m_tokens m' = m_tokens m"
  "UpsertAlertState s st m = Inr m' \<Longrightarrow> same_jobs m m' \<and> m_tokens m' = m_tokens m"
  "ReleaseAlertFiring s k m = (b, m') \<Longrightarrow> same_jobs m m' \<and> m_tokens m' = m_tokens m"
  "ClaimAlertNotification s k at cd m = Inr (b, m') \<Longrightarrow> same_jobs m m' \<and> m_tokens m' = m_tokens m"
  "CreateTemplateVersion s tv m = Inr (v, m') \<Longrightarrow> same_jobs m m' \<and> m_tokens m' = m_tokens m"
  "ArchiveTemplate s ta m = Inr m' \<Longrightarrow> same_jobs m m' \<and> m_tokens m' = m_tokens m"
  "RestoreTemplate s name m = Inr m' \<Longrightarrow> same_jobs m m' \<and> m_tokens m' = m_tokens m"
  "CreateWallboardShare s now w m = Inr m' \<Longrightarrow> same_jobs m m' \<and> m_tokens m' = m_tokens m"
  "DeleteWallboardShare s i m = Inr m' \<Longrightarrow> same_jobs m m' \<and> m_tokens m' = m_tokens m"
  by (auto simp: Let_def RecordEvent_def RecordUnitTransitions_def CreateAlertRule_def UpdateAlertRule_def
      DeleteAlertRule_def UpsertAlertState_def ReleaseAlertFiring_def ClaimAlertNotification_def
      CreateTemplateVersion_def ArchiveTemplate_def RestoreTemplate_def CreateWallboardShare_def
      DeleteWallboardShare_def split: if_splits option.splits)

lemma touch_frames:
  "same_jobs m (RecordAlertDelivery s i at failure m) \<and> m_tokens (RecordAlertDelivery s i at failure m) = m_tokens m"
  "same_jobs m (TouchWallboardShare s i at m) \<and> m_tokens (TouchWallboardShare s i at m) = m_tokens m"
  by (auto simp: RecordAlertDelivery_def TouchWallboardShare_def split: option.splits)

lemma update_frames:
  "RecordHeartbeat s h u m = Inr m' \<Longrightarrow> same_jobs m m' \<and> m_tokens m' = m_tokens m"
  "StoreFacts s h digest document m = Inr m' \<Longrightarrow> same_jobs m m' \<and> m_tokens m' = m_tokens m"
  "StorePolicy s h digest document m = Inr m' \<Longrightarrow> same_jobs m m' \<and> m_tokens m' = m_tokens m"
  "StoreSigners s h digest document m = Inr m' \<Longrightarrow> same_jobs m m' \<and> m_tokens m' = m_tokens m"
  "UpdateAccountPassword s i pw m = Inr m' \<Longrightarrow> same_jobs m m' \<and> m_tokens m' = m_tokens m"
  "RecordAccountSignIn s i at m = Inr m' \<Longrightarrow> same_jobs m m' \<and> m_tokens m' = m_tokens m"
  by (simp_all add: RecordHeartbeat_def StoreFacts_def StorePolicy_def StoreSigners_def UpdateAccountPassword_def
      RecordAccountSignIn_def host_frames account_frames)

lemmas step_frames = update_frames host_frames supersede_frame renew_frame account_frames fleet_frames touch_frames

text \<open>A step of a handle changes the job maps only through the job operations and \<open>DeleteHost\<close>.\<close>

lemma scoped_step_jobs:
  assumes "scoped_step s ds m m'"
  obtains (other) "ds = []" "same_jobs m m'"
  | (deleted) h where "ds = []" "DeleteHost s h m = Inr m'"
  | (created) j where "ds = []" "CreateJob s j m = Some (Inr m')"
  | (approved) i approver now where "ds = []" "now \<noteq> 0" "ApproveJob s i approver now m = Some (Inr m')"
  | (claimed) now h lim js where "ds = List.map (\<lambda>j. (h, j)) js" "now \<noteq> 0" "ClaimJobs s now h lim m = (js, m')"
  | (reported) now h r b where "ds = []" "now \<noteq> 0" "RecordResult s now h r m = Inr (b, m')"
  using assms
  by cases
    ((rule deleted, assumption, assumption) | (rule created, assumption, assumption)
      | (rule approved, assumption, assumption, assumption) | (rule claimed, assumption, assumption, assumption)
      | (rule reported, assumption, assumption, assumption)
      | (rule other, assumption, drule step_frames, blast) | (simp add: other step_frames; fail))+

section \<open>At most once\<close>

lemma store_step_jobs:
  assumes "store_step ds m m'"
  obtains (other) "ds = []" "same_jobs m m'"
  | (deleted) P where "ds = []" "m_records m' = sweep (\<lambda>key _. P key) (m_records m)"
  | (created) s j where "ds = []" "CreateJob s j m = Some (Inr m')"
  | (approved) s i approver now where "ds = []" "now \<noteq> 0" "ApproveJob s i approver now m = Some (Inr m')"
  | (claimed) s now h lim js where "ds = List.map (\<lambda>j. (s, h, j)) js" "now \<noteq> 0" "ClaimJobs s now h lim m = (js, m')"
  | (reported) s now h r b where "ds = []" "now \<noteq> 0" "RecordResult s now h r m = Inr (b, m')"
  using assms
proof cases
  case (scoped s es)
  from scoped(2) show ?thesis
  proof (cases rule: scoped_step_jobs)
    case (deleted h)
    with scoped show ?thesis
      by (intro that(2) [of "\<lambda>key. fst key = s \<and> (case get (m_records m) key of None \<Rightarrow> False | Some rec \<Rightarrow> j_HostID rec = h)"])
        (auto simp: DeleteHost_def Let_def split: if_splits)
  qed (use scoped that in \<open>auto simp: comp_def\<close>)
next
  case (delete_tenant tn)
  then show ?thesis
    by (intro that(2) [of "\<lambda>key. fst key = tn"]) (auto simp: DeleteTenant_def Let_def split: if_splits)
next
  case create_tenant
  then show ?thesis
    by (intro that(1)) (auto simp: CreateTenant_def Let_def split: if_splits sum.splits)
next
  case update_tenant
  then show ?thesis by (intro that(1)) (auto simp: UpdateTenant_def split: option.splits sum.splits)
next
  case subscribe
  then show ?thesis by (intro that(1)) (auto simp: Subscribe_def Let_def)
next
  case unsubscribe
  then show ?thesis by (intro that(1)) (auto simp: removeWaiter_def Let_def)
qed

lemma claim_stays:
  assumes "store_step ds m m'" "get (m_records m) key = Some r" "j_ClaimedAt r \<noteq> 0" "get (m_records m') key = Some r'"
  shows "j_ClaimedAt r' \<noteq> 0"
  using assms(1)
proof (cases rule: store_step_jobs)
  case (created s j)
  from created(2) show ?thesis by (rule CreateJob_Inr) (use assms in \<open>auto simp: get_put split: if_splits\<close>)
next
  case (approved s i approver now)
  from approved(3) show ?thesis by (rule ApproveJob_Inr) (use assms in \<open>auto simp: get_put split: if_splits\<close>)
next
  case (claimed s now h lim js)
  from claimed(3) show ?thesis
    by (cases rule: ClaimJobs_cases) (use assms claimed(2) in \<open>auto simp: get_stamped split: if_splits\<close>)
next
  case (reported s now h x b)
  from reported(3) show ?thesis
    by (rule RecordResult_Inr) (use assms in \<open>cases b; auto simp: get_put split: if_splits\<close>)
qed (use assms in \<open>auto simp: get_sweep_Some\<close>)

text \<open>What a record says of its origin stays as long as the record exists.\<close>

definition same_origin :: "job_record \<Rightarrow> job_record \<Rightarrow> bool" where
  "same_origin r r' \<longleftrightarrow> j_Job r' = j_Job r \<and> j_HostID r' = j_HostID r \<and> j_CreatedBy r' = j_CreatedBy r \<and>
     j_ApprovalRequired r' = j_ApprovalRequired r \<and> j_ApprovalDistinctOperator r' = j_ApprovalDistinctOperator r"

lemma origin_stays:
  assumes "store_step ds m m'" "get (m_records m) key = Some r" "get (m_records m') key = Some r'"
  shows "same_origin r r'"
  using assms(1)
proof (cases rule: store_step_jobs)
  case (created s j)
  from created(2) show ?thesis
    by (rule CreateJob_Inr) (use assms in \<open>auto simp: get_put same_origin_def split: if_splits\<close>)
next
  case (approved s i approver now)
  from approved(3) show ?thesis
    by (rule ApproveJob_Inr) (use assms in \<open>auto simp: get_put same_origin_def split: if_splits\<close>)
next
  case (claimed s now h lim js)
  from claimed(3) show ?thesis
    by (cases rule: ClaimJobs_cases) (use assms claimed(2) in \<open>auto simp: get_stamped same_origin_def split: if_splits\<close>)
next
  case (reported s now h x b)
  from reported(3) show ?thesis
    by (rule RecordResult_Inr) (use assms in \<open>cases b; auto simp: get_put same_origin_def split: if_splits\<close>)
qed (use assms in \<open>auto simp: get_sweep_Some same_origin_def\<close>)

lemma delivery:
  assumes "store_step ds m m'" "jobs_ok m"
  shows "distinct (List.map (\<lambda>(t, h, j). (t, ID j)) ds)"
    and "(t, h, j) \<in> set ds \<Longrightarrow> (\<exists>r. get (m_records m) (t, ID j) = Some r \<and> j_ClaimedAt r = 0) \<and>
      (\<exists>r. get (m_records m') (t, ID j) = Some r \<and> j_ClaimedAt r \<noteq> 0)"
  using assms(1)
proof (atomize (full), cases rule: store_step_jobs)
  case (claimed s now hh lim js)
  note I = jobs_invD [OF assms(2)]
  from claimed(3) have "distinct (List.map ID js) \<and> (\<forall>x\<in>set js. \<exists>r. get (m_records m) (s, ID x) = Some r \<and> j_ClaimedAt r = 0) \<and>
      (js = [] \<or> m_records m' = foldl (stamp_claimed s now) (m_records m) js)"
  proof (cases rule: ClaimJobs_cases)
    case (some deferred)
    have "distinct (List.map ID (js @ deferred))"
      using I(2) [of "(s, hh)"] some(2) by (metis distinct_map mset_append mset_eq_setD mset_eq_imp_distinct_iff)
    moreover have "x \<in> set (queue_of (m_jobs m) (s, hh))" if "x \<in> set js" for x
      using claimed_queued [OF claimed(3) that] by simp
    ultimately show ?thesis using I(3) some(7) by (fastforce simp: Claimable_def is_zero_def split: if_splits)
  qed simp
  moreover have "distinct (List.map (\<lambda>(t, h, j). (t, ID j)) ds) \<longleftrightarrow> distinct (List.map ID js)"
    using claimed(1) by (simp add: comp_def distinct_map inj_on_def)
  ultimately show "distinct (List.map (\<lambda>(t, h, j). (t, ID j)) ds) \<and>
     ((t, h, j) \<in> set ds \<longrightarrow> (\<exists>r. get (m_records m) (t, ID j) = Some r \<and> j_ClaimedAt r = 0) \<and>
      (\<exists>r. get (m_records m') (t, ID j) = Some r \<and> j_ClaimedAt r \<noteq> 0))"
    using claimed(1,2) by (auto simp: get_stamped)
qed simp_all

text \<open>Runs in which no job's record is deleted.\<close>

inductive run :: "(tenant_id \<times> bytes \<times> job) list \<Rightarrow> memory \<Rightarrow> memory \<Rightarrow> bool" where
  idle: "run [] m m"
| more: "run log m m' \<Longrightarrow> store_step ds m' m'' \<Longrightarrow>
    dom (get (m_records m')) \<subseteq> dom (get (m_records m'')) \<Longrightarrow> run (log @ ds) m m''"

lemma run_ok: "run log m m' \<Longrightarrow> store_ok m \<Longrightarrow> store_ok m'"
  by (induction rule: run.induct) (auto intro: store_step_ok)

lemma run_origin:
  assumes "run log m m'" "get (m_records m) key = Some r"
  shows "\<exists>r'. get (m_records m') key = Some r' \<and> same_origin r r'"
  using assms
proof (induction rule: run.induct)
  case (more log m m' ds m'')
  then obtain r' where r': "get (m_records m') key = Some r'" "same_origin r r'" by blast
  then obtain r'' where r'': "get (m_records m'') key = Some r''" using more.hyps(3) by blast
  from origin_stays [OF more.hyps(2) r'(1) r''] r'(2) r'' show ?case by (simp add: same_origin_def)
qed (simp add: same_origin_def)

lemma run_deliveries:
  assumes "run log m m'" "store_ok m"
  shows "store_ok m' \<and> distinct (List.map (\<lambda>(t, h, j). (t, ID j)) log) \<and>
    (\<forall>(t, h, j)\<in>set log. \<exists>r. get (m_records m') (t, ID j) = Some r \<and> j_ClaimedAt r \<noteq> 0)"
  using assms
proof (induction rule: run.induct)
  case (more log m m' ds m'')
  then have ok: "store_ok m'" and dist: "distinct (List.map (\<lambda>(t, h, j). (t, ID j)) log)"
    and stamped: "\<And>t h j. (t, h, j) \<in> set log \<Longrightarrow> \<exists>r. get (m_records m') (t, ID j) = Some r \<and> j_ClaimedAt r \<noteq> 0"
    by auto
  have jobs: "jobs_ok m'" using ok by (simp add: store_ok_def)
  note D = delivery [OF more.hyps(2) jobs]
  have old: "\<exists>r. get (m_records m'') (t, ID j) = Some r \<and> j_ClaimedAt r \<noteq> 0" if logged: "(t, h, j) \<in> set log" for t h j
  proof -
    obtain r where r: "get (m_records m') (t, ID j) = Some r" "j_ClaimedAt r \<noteq> 0" using stamped [OF logged] by blast
    then obtain r'' where "get (m_records m'') (t, ID j) = Some r''" using more.hyps(3) by blast
    then show ?thesis using claim_stays [OF more.hyps(2) r] by blast
  qed
  have new: "ID j' \<noteq> ID j" if "(t, h, j) \<in> set ds" "(t, h', j') \<in> set log" for t h j h' j'
    using stamped [OF that(2)] D(2) [OF that(1)] by auto
  have "distinct (List.map (\<lambda>(t, h, j). (t, ID j)) (log @ ds))"
    using dist D(1) by (auto simp: distinct_append dest: new)
  moreover have "\<forall>(t, h, j)\<in>set (log @ ds). \<exists>r. get (m_records m'') (t, ID j) = Some r \<and> j_ClaimedAt r \<noteq> 0"
    using old D(2) by (auto split: prod.splits)
  ultimately show ?case using store_step_ok [OF more.hyps(2) ok] by blast
qed simp

text \<open>Property C6: in a run of the store that deletes no job record, no job is handed out twice: the identifiers delivered within a tenant are distinct.\<close>

theorem delivered_at_most_once:
  assumes "reachable m" "run log m m'"
  shows "distinct (List.map (\<lambda>(t, h, j). (t, ID j)) log)"
  using run_deliveries [OF assms(2) reachable_ok [OF assms(1)]] by blast

text \<open>A result is accepted only from the host the job was handed to, only for a job that was handed out and not awaiting approval, and the first result recorded is the one that stays.\<close>

theorem results_from_the_claimer:
  assumes "reachable m" "RecordResult tn now h r m = Inr (first, m')"
  shows "\<exists>rec. get (m_records m) (tn, JobID r) = Some rec \<and> j_HostID rec = h \<and> j_ClaimedAt rec \<noteq> 0 \<and>
    \<not> AwaitingApproval rec \<and> (first \<longleftrightarrow> stored_Result tn (JobID r) m = None) \<and>
    stored_Result tn (JobID r) m' = (if first then Some r else stored_Result tn (JobID r) m)"
proof -
  note I = jobs_invD [OF reachable_jobs(1) [OF assms(1)]]
  from assms(2) obtain rec where rec: "get (m_records m) (tn, JobID r) = Some rec" "j_HostID rec = h" "j_ClaimedAt rec \<noteq> 0"
    and first: "first \<longleftrightarrow> get (m_results m) (tn, JobID r) = None" "\<not> first \<longrightarrow> m' = m"
      "first \<longrightarrow> m_results m' = put (tn, JobID r) r (m_results m) \<and>
        m_records m' = put (tn, JobID r) (rec\<lparr>j_CompletedAt := now\<rparr>) (m_records m)"
    by (rule RecordResult_Inr)
  moreover have "\<not> AwaitingApproval rec" using I(1) [OF rec(1)] rec(3) by (simp add: record_ok_def)
  ultimately show ?thesis by (cases first) (auto simp: stored_Result_def get_put)
qed

text \<open>Creating a job never closes a channel twice (a panic in Go), and a job created without an approval to wait for is queued and wakes every long poll waiting for its host.\<close>

theorem wakes_without_panic:
  assumes "reachable m"
  shows "\<exists>r. CreateJob tn j m = Some r \<and>
    (\<forall>m'. r = Inr m' \<and> \<not> n_ApprovalRequired j \<longrightarrow>
       waiting m' (n_HostID j) = [] \<and> set (waiting m (n_HostID j)) \<subseteq> set (m_closed m') \<and>
       n_Job j \<in> set (queue_of (m_jobs m') (tn, n_HostID j)))"
proof -
  have ok: "waiters_ok m" by (rule reachable_jobs(2) [OF assms])
  obtain r where "CreateJob tn j m = Some r" using waiters_ok_CreateJob(1) [OF ok] by blast
  then show ?thesis
    by (auto simp: CreateJob_def Let_def waiting_in_def queue_of_put split: if_splits dest!: enqueue_and_wake_Some)
qed

section \<open>A job that needs a second operator\<close>

text \<open>A host of the default tenant, a signed job that needs a second operator, and the states the store
  passes through until the job is handed out.\<close>

definition demo_host :: host where
  "demo_host = \<lparr>h_ID = ''h1'', h_Hostname = ''web'', h_MachineIDHash = ''mid'', h_Group = [], h_AgentVersion = [],
     h_EnrolledAt = 1, h_LastSeen = 0, h_BootID = [], h_UptimeSeconds = 0, h_ClockOffsetSeconds = 0, h_Paused = False,
     h_FactsDigest = [], h_PolicyDigest = [], h_SignersDigest = [], h_Facts = [], h_Policy = [], h_Signers = [],
     h_Revoked = False\<rparr>"

definition demo_cert :: certificate where
  "demo_cert = \<lparr>c_Fingerprint = ''fp'', c_HostID = ''h1'', c_TenantID = DefaultTenant, c_Serial = ''01'', c_IssuedAt = 1,
     c_NotAfter = 90, c_Revoked = False, c_RevokedAt = 0, c_SupersededAt = 0\<rparr>"

definition demo_job :: job where
  "demo_job = \<lparr>ID = ''j1'', job_Intent = ''reboot-host'', job_Params = None, job_Class = ''destructive'', job_IssuedAt = 2,
     NotBefore = 2, NotAfter = 50, Nonce = ''n1'', Signature = ''sig'', SignerKeyID = ''k1'', SignerAlgorithm = ''ed25519''\<rparr>"

definition demo_new :: new_job where
  "demo_new = \<lparr>n_Job = demo_job, n_HostID = ''h1'', n_CreatedBy = ''alice'', n_ApprovalRequired = True,
     n_ApprovalDistinctOperator = True\<rparr>"

definition demo_enrolled :: memory where
  "demo_enrolled = (NewMemory 1)\<lparr>m_hosts := put ''h1'' (demo_host, DefaultTenant) no_entries,
     m_certs := put ''fp'' demo_cert no_entries\<rparr>"

definition demo_created :: memory where
  "demo_created = demo_enrolled\<lparr>m_records := put (DefaultTenant, ''j1'') (job_entry demo_new) no_entries\<rparr>"

definition demo_approved :: memory where
  "demo_approved = demo_created\<lparr>
     m_records := put (DefaultTenant, ''j1'') ((job_entry demo_new)\<lparr>j_ApprovedAt := 3, j_ApprovedBy := ''bob''\<rparr>) no_entries,
     m_jobs := put (DefaultTenant, ''h1'') [demo_job] no_entries, m_waiters := del ''h1'' no_entries\<rparr>"

definition demo_delivered :: memory where
  "demo_delivered = snd (ClaimJobs DefaultTenant 4 ''h1'' 0 demo_approved)"

lemmas demo_defs = demo_host_def demo_cert_def demo_job_def demo_new_def NewMemory_def DefaultTenant_def job_entry_def

lemma demo_reachable: "reachable demo_enrolled" "reachable demo_created" "reachable demo_approved"
proof -
  have "CreateEnrolledHost DefaultTenant demo_host demo_cert (NewMemory 1) = Inr demo_enrolled"
    by (simp add: CreateEnrolledHost_def stampCertificate_def demo_enrolled_def demo_defs any_entry_iff)
  then show enrolled: "reachable demo_enrolled"
    by (intro reachable.step [OF reachable.new store_step.scoped [OF scoped_step.enrol]])
  have "CreateJob DefaultTenant demo_new demo_enrolled = Some (Inr demo_created)"
    by (simp add: CreateJob_def scoped_host_def demo_enrolled_def demo_created_def demo_defs any_entry_iff)
  then show created: "reachable demo_created"
    by (intro reachable.step [OF enrolled store_step.scoped [OF scoped_step.create_job]])
  have "ApproveJob DefaultTenant ''j1'' ''bob'' 3 demo_created = Some (Inr demo_approved)"
    by (simp add: ApproveJob_def enqueue_and_wake_def takeWaiters_def waiting_in_def queue_of_def is_zero_def
        demo_enrolled_def demo_created_def demo_approved_def demo_defs Let_def)
  then show "reachable demo_approved"
    by (rule reachable.step [OF created store_step.scoped [OF scoped_step.approve_job [where now = 3]]]) simp
qed

lemma demo_claim: "ClaimJobs DefaultTenant 4 ''h1'' 0 demo_approved = ([demo_job], demo_delivered)"
  by (simp add: demo_delivered_def ClaimJobs_def queue_of_def demo_approved_def demo_created_def demo_enrolled_def demo_defs Let_def)


theorem delivered_approved_witness:
  "reachable demo_approved \<and> ClaimJobs DefaultTenant 4 ''h1'' 0 demo_approved = ([demo_job], demo_delivered) \<and>
   (\<exists>r. get (m_records demo_approved) (DefaultTenant, ''j1'') = Some r \<and> j_HostID r = ''h1'' \<and> j_ApprovedAt r \<noteq> 0 \<and>
     j_ApprovedBy r \<noteq> j_CreatedBy r)"
proof -
  have "ID demo_job = ''j1''" by (simp add: demo_job_def)
  with delivered_approved [OF demo_reachable(3) demo_claim, of demo_job] obtain r where
    "get (m_records demo_approved) (DefaultTenant, ''j1'') = Some r" "j_HostID r = ''h1''"
    "j_ApprovalRequired r \<longrightarrow> j_ApprovedAt r \<noteq> 0 \<and> (j_ApprovalDistinctOperator r \<longrightarrow> j_ApprovedBy r \<noteq> j_CreatedBy r)" by auto
  moreover from this(1) have "j_ApprovalRequired r" "j_ApprovalDistinctOperator r"
    by (auto simp: demo_approved_def job_entry_def demo_new_def)
  ultimately show ?thesis using demo_reachable(3) demo_claim by simp
qed

theorem queue_is_claimable_witness:
  "reachable demo_approved \<and> demo_job \<in> {j_Job r |r. \<exists>i. get (m_records demo_approved) (DefaultTenant, i) = Some r \<and>
     j_HostID r = ''h1'' \<and> Claimable r}"
proof -
  have "demo_job \<in> set (queue_of (m_jobs demo_approved) (DefaultTenant, ''h1''))"
    by (simp add: queue_of_def demo_approved_def)
  then show ?thesis
    using queue_is_claimable [OF demo_reachable(3), of DefaultTenant "''h1''"] demo_reachable(3) by simp
qed

theorem claimable_delivered_witness:
  "reachable demo_approved \<and> demo_job \<in> set (fst (polls DefaultTenant ''h1'' 1 [4] demo_approved))"
proof -
  let ?r = "(job_entry demo_new)\<lparr>j_ApprovedAt := 3, j_ApprovedBy := ''bob''\<rparr>"
  have "get (m_records demo_approved) (DefaultTenant, ''j1'') = Some ?r" by (simp add: demo_approved_def)
  moreover have "Claimable ?r" by (simp add: Claimable_def AwaitingApproval_def is_zero_def job_entry_def)
  moreover have "j_HostID ?r = ''h1''" "j_Job ?r = demo_job" by (simp_all add: job_entry_def demo_new_def)
  ultimately show ?thesis
    using claimable_delivered [OF demo_reachable(3), of DefaultTenant "''j1''" ?r "[4]" 1] demo_reachable(3)
    by (simp add: queue_of_def demo_approved_def demo_job_def)
qed

theorem delivered_at_most_once_witness:
  "reachable demo_approved \<and> run [(DefaultTenant, ''h1'', demo_job)] demo_approved demo_delivered \<and>
   distinct (List.map (\<lambda>(t, h, j). (t, ID j)) [(DefaultTenant, ''h1'', demo_job)])"
proof -
  have step: "store_step [(DefaultTenant, ''h1'', demo_job)] demo_approved demo_delivered"
    using store_step.scoped [OF scoped_step.claim_jobs [OF demo_claim]] by simp
  have recs: "m_records demo_delivered = stamp_claimed DefaultTenant 4 (m_records demo_approved) demo_job"
    using demo_claim by (cases rule: ClaimJobs_cases) simp_all
  have "dom (get (m_records demo_approved)) \<subseteq> dom (get (m_records demo_delivered))"
    unfolding recs by (auto simp: stamp_claimed_def get_put split: option.splits)
  then have "run [(DefaultTenant, ''h1'', demo_job)] demo_approved demo_delivered"
    using run.more [OF run.idle step] by simp
  then show ?thesis using delivered_at_most_once [OF demo_reachable(3)] demo_reachable(3) by blast
qed

definition demo_result :: "bytes result_request" where
  "demo_result = \<lparr>JobID = ''j1'', Status = ''succeeded'', StartedAt = 5, FinishedAt = 6, res_ExitCode = 0, Output = [],
     OutputTruncated = False, Result = None, res_Error = None\<rparr>"

theorem results_from_the_claimer_witness:
  "reachable demo_delivered \<and> (\<exists>m'. RecordResult DefaultTenant 7 ''h1'' demo_result demo_delivered = Inr (True, m') \<and>
     stored_Result DefaultTenant ''j1'' m' = Some demo_result)"
proof -
  have reach: "reachable demo_delivered"
    by (rule reachable.step [OF demo_reachable(3) store_step.scoped [OF scoped_step.claim_jobs [OF demo_claim]]]) simp
  have recs: "m_records demo_delivered = stamp_claimed DefaultTenant 4 (m_records demo_approved) demo_job"
    "m_results demo_delivered = no_entries"
    using demo_claim by (cases rule: ClaimJobs_cases; simp add: demo_approved_def demo_created_def demo_enrolled_def NewMemory_def)+
  have "\<exists>m'. RecordResult DefaultTenant 7 ''h1'' demo_result demo_delivered = Inr (True, m')"
    by (simp add: RecordResult_def recs stamp_claimed_def demo_approved_def demo_result_def demo_job_def job_entry_def
        demo_new_def is_zero_def Let_def)
  then show ?thesis using results_from_the_claimer [OF reach] reach by (fastforce simp: demo_result_def)
qed

theorem wakes_without_panic_witness:
  "reachable demo_enrolled \<and> (\<exists>r. CreateJob DefaultTenant (demo_new\<lparr>n_ApprovalRequired := False\<rparr>) demo_enrolled = Some r)"
  using wakes_without_panic [OF demo_reachable(1)] demo_reachable(1) by blast

end
