(* ===== verification/StoreLaws.thy ===== *)
theory StoreLaws
  imports Delivery
begin

text \<open>
  Further laws of the in-memory store: deleting a tenant erases what it owned, the limits on hosts,
  certificates, events and shares hold after each operation, an enrolment token is used once, a written
  template version stays, an alert is claimed once per cooldown, and what a handle reads depends on its
  own tenant's rows only, whatever order the maps are met in.
\<close>

section \<open>Deleting a tenant\<close>

definition no_rows :: view where
  "no_rows = \<lparr>v_tenant = None, v_tokens = Map.empty, v_hosts = Map.empty, v_certs = Map.empty, v_jobs = Map.empty,
     v_records = Map.empty, v_results = Map.empty, v_templates = Map.empty, v_archivedTemplates = Map.empty,
     v_events = [], v_transitions = [], v_rules = Map.empty, v_states = Map.empty, v_accounts = Map.empty,
     v_sessions = Map.empty, v_apiTokens = Map.empty, v_shares = Map.empty\<rparr>"

lemma owned_swept: "owned (\<lambda>_ v. Q v) (sweep (\<lambda>_ v. Q v) m) = Map.empty" "owned (\<lambda>k _. P k) (sweep (\<lambda>k _. P k) m) = Map.empty"
  by (rule owned_sweep_all; assumption)+

lemma owned_nothing: "(\<And>k v. \<not> P k v) \<Longrightarrow> owned P m = Map.empty"
  by (auto simp: owned_def fun_eq_iff split: option.splits)

lemma DeleteTenant_maps:
  assumes "DeleteTenant tn m = Inr m'"
  shows "m_tenants m' = del tn (m_tenants m)"
    "m_tokens m' = sweep (\<lambda>_ row. snd row = tn) (m_tokens m)" "m_hosts m' = sweep (\<lambda>_ row. snd row = tn) (m_hosts m)"
    "m_certs m' = sweep (\<lambda>_ c. c_TenantID c = tn) (m_certs m)" "m_jobs m' = sweep (\<lambda>key _. fst key = tn) (m_jobs m)"
    "m_records m' = sweep (\<lambda>key _. fst key = tn) (m_records m)" "m_results m' = sweep (\<lambda>key _. fst key = tn) (m_results m)"
    "m_templates m' = sweep (\<lambda>key _. fst key = tn) (m_templates m)"
    "m_archivedTemplates m' = sweep (\<lambda>key _. fst key = tn) (m_archivedTemplates m)"
    "m_events m' = List.filter (\<lambda>row. snd row \<noteq> tn) (m_events m)"
    "m_transitions m' = List.filter (\<lambda>row. snd row \<noteq> tn) (m_transitions m)"
    "m_rules m' = sweep (\<lambda>key _. fst key = tn) (m_rules m)" "m_states m' = sweep (\<lambda>key _. fst key = tn) (m_states m)"
    "m_shares m' = sweep (\<lambda>_ row. snd row = tn) (m_shares m)" "m_accounts m' = sweep (\<lambda>_ a. a_TenantID a = tn) (m_accounts m)"
proof -
  have m': "m' = projr (DeleteTenant tn m)" and known: "get (m_tenants m) tn \<noteq> None"
    using assms by (simp_all add: DeleteTenant_def split: if_splits)
  note unfolded = m' DeleteTenant_def Let_def if_not_P [OF known] sum.sel
  show "m_tenants m' = del tn (m_tenants m)" unfolding unfolded by simp
  show "m_tokens m' = sweep (\<lambda>_ row. snd row = tn) (m_tokens m)" unfolding unfolded by simp
  show "m_hosts m' = sweep (\<lambda>_ row. snd row = tn) (m_hosts m)" unfolding unfolded by simp
  show "m_certs m' = sweep (\<lambda>_ c. c_TenantID c = tn) (m_certs m)" unfolding unfolded by simp
  show "m_jobs m' = sweep (\<lambda>key _. fst key = tn) (m_jobs m)" unfolding unfolded by simp
  show "m_records m' = sweep (\<lambda>key _. fst key = tn) (m_records m)" unfolding unfolded by simp
  show "m_results m' = sweep (\<lambda>key _. fst key = tn) (m_results m)" unfolding unfolded by simp
  show "m_templates m' = sweep (\<lambda>key _. fst key = tn) (m_templates m)" unfolding unfolded by simp
  show "m_archivedTemplates m' = sweep (\<lambda>key _. fst key = tn) (m_archivedTemplates m)" unfolding unfolded by simp
  show "m_events m' = List.filter (\<lambda>row. snd row \<noteq> tn) (m_events m)" unfolding unfolded by simp
  show "m_transitions m' = List.filter (\<lambda>row. snd row \<noteq> tn) (m_transitions m)" unfolding unfolded by simp
  show "m_rules m' = sweep (\<lambda>key _. fst key = tn) (m_rules m)" unfolding unfolded by simp
  show "m_states m' = sweep (\<lambda>key _. fst key = tn) (m_states m)" unfolding unfolded by simp
  show "m_shares m' = sweep (\<lambda>_ row. snd row = tn) (m_shares m)" unfolding unfolded by simp
  show "m_accounts m' = sweep (\<lambda>_ a. a_TenantID a = tn) (m_accounts m)" unfolding unfolded by simp
qed

text \<open>Property C20: deleting a tenant leaves nothing of what it owned, its accounts' sessions and tokens included, and touches no other tenant.\<close>

theorem DeleteTenant_erases:
  assumes "DeleteTenant tn m = Inr m'"
  shows "view_of tn m' = no_rows \<and> (\<forall>other. other \<noteq> tn \<longrightarrow> view_of other m' = view_of other m)"
proof -
  note maps = DeleteTenant_maps [OF assms]
  have gone: "acct_tenant m' i \<noteq> Some tn" for i
    by (simp add: acct_tenant_iff maps get_sweep_Some)
  have creds: "owned (\<lambda>_ held. acct_tenant m' (f held) = Some tn) x = Map.empty" for f and x :: "('k, 'v) gomap"
    by (rule owned_nothing) (simp add: gone)
  have "view_of tn m' = no_rows"
    unfolding view_of_def creds no_rows_def maps owned_swept by (simp add: filter_empty_conv)
  then show ?thesis by (intro conjI allI impI) (assumption, rule iso_DeleteTenant [OF assms], rule not_sym)
qed

section \<open>Limits\<close>

text \<open>An enrolment never takes the number of active hosts above the tenant's limit.\<close>

theorem CreateEnrolledHost_within_limit:
  assumes "CreateEnrolledHost tn h c m = Inr m'" "get (m_tenants m) tn = Some t" "t_HostLimit t = Some limit"
  shows "int (active_hosts tn m') \<le> limit"
  using assms(1)
proof (rule CreateEnrolledHost_Inr)
  fix t' cert
  assume "get (m_tenants m) tn = Some t'"
    "case t_HostLimit t' of None \<Rightarrow> True | Some limit \<Rightarrow> int (active_hosts tn m) < limit"
    and m': "m' = m\<lparr>m_hosts := put (h_ID h) (h, tn) (m_hosts m), m_certs := put (c_Fingerprint cert) cert (m_certs m)\<rparr>"
  then have "int (active_hosts tn m) < limit" using assms(2,3) by simp
  moreover have "active_hosts tn m' \<le> Suc (active_hosts tn m)"
    by (simp add: active_hosts_def m' count_if_put_le)
  ultimately show ?thesis by simp
qed

lemma live_superseded:
  "at \<noteq> 0 \<Longrightarrow> is_zero (c_SupersededAt c) \<or> at < c_SupersededAt c \<Longrightarrow>
   live_certificate tn h now (c\<lparr>c_SupersededAt := at\<rparr>) \<Longrightarrow> live_certificate tn h now c"
  by (simp add: live_certificate_def is_zero_def split: if_splits) linarith

lemma count_superseded:
  assumes "at \<noteq> 0"
  shows "CountLiveCertificates tn h now (SupersedeCertificate tn' fp at m) \<le> CountLiveCertificates tn h now m"
  unfolding CountLiveCertificates_def
proof (rule count_if_mono)
  fix k v
  assume v: "get (m_certs (SupersedeCertificate tn' fp at m)) k = Some v" and live: "live_certificate tn h now v"
  show "\<exists>v'. get (m_certs m) k = Some v' \<and> live_certificate tn h now v'"
  proof (cases "get (m_certs m) k = Some v")
    case False
    with v obtain c where "get (m_certs m) k = Some c" "is_zero (c_SupersededAt c) \<or> at < c_SupersededAt c"
      "v = c\<lparr>c_SupersededAt := at\<rparr>"
      by (auto simp: SupersedeCertificate_def get_put split: if_splits option.splits)
    with live live_superseded [OF assms] show ?thesis by blast
  qed (use live in blast)
qed

text \<open>After a renewal the host holds at most \<open>MaxLive\<close> certificates that could still authenticate, whatever the fingerprints and times of the request.\<close>

theorem RenewCertificate_capped:
  assumes "RenewCertificate tn r m = Inr m'" "SupersedeAt r \<noteq> 0"
  shows "int (CountLiveCertificates tn (c_HostID (Replacement r)) (r_Now r) m') \<le> MaxLive r"
proof -
  let ?h = "c_HostID (Replacement r)"
  from assms(1) have below: "int (CountLiveCertificates tn ?h (r_Now r) m) < MaxLive r"
    by (auto simp: RenewCertificate_def split: if_splits)
  from assms(1) obtain m1 where m': "m' = SupersedeCertificate tn (Presented r) (SupersedeAt r) m1"
    and "CountLiveCertificates tn ?h (r_Now r) m1 \<le> Suc (CountLiveCertificates tn ?h (r_Now r) m)"
    by (cases "stampCertificate tn (Replacement r)")
      (auto simp: RenewCertificate_def Let_def CountLiveCertificates_def count_if_put_le split: if_splits)
  then have "CountLiveCertificates tn ?h (r_Now r) m' \<le> Suc (CountLiveCertificates tn ?h (r_Now r) m)"
    using count_superseded [OF assms(2)] le_trans by blast
  with below show ?thesis by linarith
qed

subsection \<open>Evicted rows\<close>

lemma filter_drop_own: "List.filter P (drop_mine P n xs) = drop n (List.filter P xs)"
proof (induction P n xs rule: drop_mine.induct)
  case (2 P n row rows)
  then show ?case by (cases n) auto
qed simp

lemma filter_evict_own:
  "List.filter P (evict P limit xs) = drop (length (List.filter P xs) - limit) (List.filter P xs)"
  by (simp add: evict_def Let_def filter_drop_own)

text \<open>A tenant's inbox keeps its newest thousand events, in order.\<close>

theorem RecordEvent_keeps_newest:
  assumes "RecordEvent tn e m = Inr m'"
  shows "v_events (view_of tn m') =
      (let rows = v_events (view_of tn m) @ [(e, tn)] in drop (length rows - MaxEventsPerTenant) rows)"
    and "length (v_events (view_of tn m')) \<le> MaxEventsPerTenant"
  using assms by (auto simp: RecordEvent_def view_of_def filter_evict_own Let_def split: if_splits)

section \<open>Enrolment tokens\<close>

definition spent :: "bytes \<Rightarrow> memory \<Rightarrow> bool" where
  "spent hash m \<longleftrightarrow> (\<exists>tk owner. get (m_tokens m) hash = Some (tk, owner) \<and> et_ConsumedAt tk \<noteq> 0)"

lemma spent_unusable: "spent hash m \<Longrightarrow> ConsumeEnrollmentToken tn hash h now m = Inl ErrTokenUnusable"
  by (auto simp: spent_def ConsumeEnrollmentToken_def token_Usable_def is_zero_def)

lemma scoped_step_tokens:
  assumes "scoped_step s ds m m'"
  obtains (other) "m_tokens m' = m_tokens m"
  | (issued) x where "CreateEnrollmentToken s x m = Inr m'"
  | (redeemed) hash h now x where "ConsumeEnrollmentToken s hash h now m = Inr (x, m')"
proof -
  have same: "m_tokens m' = m_tokens m"
    if "CreateJob s j m = Some (Inr m') \<or> ApproveJob s i approver now m = Some (Inr m') \<or>
      ClaimJobs s now hh lim m = (js, m') \<or> RecordResult s now hh r m = Inr (b, m')" for j i approver now hh lim js r b
    using that
    by (elim disjE; cases "get (m_records m) (s, i)"; cases "get (m_records m) (s, JobID r)")
      (auto simp: CreateJob_def ApproveJob_def ClaimJobs_def RecordResult_def Let_def split: if_splits prod.splits
        dest!: enqueue_and_wake_Some)
  from assms show thesis
    by cases
      ((rule issued, assumption) | (rule redeemed, assumption)
        | (rule other, drule step_frames, blast) | (rule other, simp add: step_frames; fail)
        | (rule other, rule same, blast))+
qed

lemma spent_stays: "scoped_step s ds m m' \<Longrightarrow> spent hash m \<Longrightarrow> spent hash m'"
proof (elim scoped_step_tokens)
  assume "spent hash m" "m_tokens m' = m_tokens m"
  then show "spent hash m'" by (simp add: spent_def)
next
  fix x assume "spent hash m" "CreateEnrollmentToken s x m = Inr m'"
  then show "spent hash m'" by (auto simp: spent_def CreateEnrollmentToken_def get_put split: if_splits)
next
  fix hash' h now x assume "spent hash m" "ConsumeEnrollmentToken s hash' h now m = Inr (x, m')"
  then show "spent hash m'"
    by (cases "hash' = hash")
      (auto simp: spent_def ConsumeEnrollmentToken_def token_Usable_def is_zero_def Let_def get_put
        split: if_splits option.splits)
qed

text \<open>Any number of calls through any tenants' handles.\<close>

inductive scoped_steps :: "memory \<Rightarrow> memory \<Rightarrow> bool" where
  none: "scoped_steps m m"
| next_step: "scoped_steps m m' \<Longrightarrow> scoped_step s ds m' m'' \<Longrightarrow> scoped_steps m m''"

lemma spent_steps: "scoped_steps m m' \<Longrightarrow> spent hash m \<Longrightarrow> spent hash m'"
  by (induction rule: scoped_steps.induct) (auto intro: spent_stays)

text \<open>An enrolment token that was redeemed is refused for good: no call of any tenant makes it usable again, short of deleting the tenant.\<close>

theorem token_used_once:
  assumes "ConsumeEnrollmentToken tn hash h now m = Inr (tk, m1)" "now \<noteq> 0" "scoped_steps m1 m2"
  shows "ConsumeEnrollmentToken tn' hash h' now' m2 = Inl ErrTokenUnusable"
proof -
  have "spent hash m1"
    using assms(1,2) by (auto simp: ConsumeEnrollmentToken_def spent_def Let_def get_put split: option.splits if_splits)
  then show ?thesis by (rule spent_unusable [OF spent_steps [OF assms(3)]])
qed

section \<open>Templates and alerts\<close>

abbreviation bump :: "tenant_id \<Rightarrow> bytes \<Rightarrow> int \<Rightarrow> template_key \<Rightarrow> int" where
  "bump tn name \<equiv> \<lambda>next key. if fst key = tn \<and> fst (snd key) = name \<and> snd (snd key) \<ge> next
                       then snd (snd key) + 1 else next"

lemma foldl_bump:
  "n \<le> foldl (bump tn name) n ks \<and>
   (\<forall>key\<in>set ks. fst key = tn \<and> fst (snd key) = name \<longrightarrow> snd (snd key) < foldl (bump tn name) n ks)"
proof (induction ks arbitrary: n)
  case (Cons k ks)
  define b where "b = bump tn name n k"
  have "n \<le> b" "fst k = tn \<and> fst (snd k) = name \<longrightarrow> snd (snd k) < b" by (auto simp: b_def)
  with Cons.IH [of b] show ?case by (auto simp flip: b_def)
qed simp

lemma next_version_above:
  "get (m_templates m) (tn, name, v) = Some t \<Longrightarrow> v < next_version tn name m" "1 \<le> next_version tn name m"
  using foldl_bump [of 1 tn name "List.map fst (entries (m_templates m))"]
  by (force simp: next_version_def get_iff)+

text \<open>A new template version gets a number above all earlier ones, is read back under it, and overwrites nothing.\<close>

theorem CreateTemplateVersion_appends:
  assumes "CreateTemplateVersion tn t m = Inr (v, m')"
  shows "get (m_templates m) (tn, tv_Name t, v) = None" "0 < v"
    and "get (m_templates m) (tn, tv_Name t, w) \<noteq> None \<Longrightarrow> w < v"
    and "GetTemplateVersion tn (tv_Name t) v m' = Inr (t\<lparr>tv_Version := v\<rparr>)"
    and "get (m_templates m) key = Some old \<Longrightarrow> get (m_templates m') key = Some old"
proof -
  from assms have v: "v = next_version tn (tv_Name t) m"
    and m': "m_templates m' = put (tn, tv_Name t, v) (t\<lparr>tv_Version := v\<rparr>) (m_templates m)"
    by (auto simp: CreateTemplateVersion_def Let_def split: if_splits)
  note above = next_version_above [where tn = tn and name = "tv_Name t" and m = m, folded v]
  show fresh: "get (m_templates m) (tn, tv_Name t, v) = None" using above(1) [of v] by fastforce
  show "0 < v" using above(2) by simp
  then show "GetTemplateVersion tn (tv_Name t) v m' = Inr (t\<lparr>tv_Version := v\<rparr>)"
    by (simp add: GetTemplateVersion_def m')
  show "get (m_templates m) (tn, tv_Name t, w) \<noteq> None \<Longrightarrow> w < v" using above(1) by blast
  show "get (m_templates m) key = Some old \<Longrightarrow> get (m_templates m') key = Some old"
    using fresh by (auto simp: m' get_put)
qed

text \<open>A notification claimed at one time is refused to every later claimer until the cooldown has passed.\<close>

theorem alert_claimed_once:
  assumes "ClaimAlertNotification tn key at cooldown m = Inr (True, m')" "at \<noteq> 0"
    and "at' + wrap64 (- cooldown') < at"
  shows "ClaimAlertNotification tn key at' cooldown' m' = Inr (False, m')"
  using assms by (auto simp: ClaimAlertNotification_def Let_def is_zero_def split: if_splits)

section \<open>What a handle reads\<close>

lemma viewD:
  assumes "view_of t m = view_of t m'"
  shows "owned (\<lambda>_ row. snd row = t) (m_hosts m) = owned (\<lambda>_ row. snd row = t) (m_hosts m')"
    "owned (\<lambda>key _. fst key = t) (m_jobs m) = owned (\<lambda>key _. fst key = t) (m_jobs m')"
    "owned (\<lambda>key _. fst key = t) (m_records m) = owned (\<lambda>key _. fst key = t) (m_records m')"
    "owned (\<lambda>key _. fst key = t) (m_results m) = owned (\<lambda>key _. fst key = t) (m_results m')"
    "List.filter (\<lambda>row. snd row = t) (m_events m) = List.filter (\<lambda>row. snd row = t) (m_events m')"
  using assms by (simp_all add: view_of_def)

lemma owned_get: "owned P m = owned P m' \<Longrightarrow> (\<And>v. P k v) \<Longrightarrow> get m k = get m' k"
  unfolding owned_eq_iff by (metis option.exhaust)

lemma sorted_hosts:
  assumes "hosts_ok ts hs"
  shows "strict_total (\<lambda>x y. if h_Hostname x \<noteq> h_Hostname y then h_Hostname x < h_Hostname y else h_ID x < h_ID y)
    (set (List.map fst (collect_if (\<lambda>_ row. snd row = t) hs)))"
proof (rule strict_total_keys(1), rule inj_onI)
  fix x y
  assume "x \<in> set (List.map fst (collect_if (\<lambda>_ row. snd row = t) hs))"
    "y \<in> set (List.map fst (collect_if (\<lambda>_ row. snd row = t) hs))" "h_ID x = h_ID y"
  then obtain k k' where "get hs k = Some (x, t)" "get hs k' = Some (y, t)" by (auto simp: set_collect_if)
  with hosts_okD(1) [OF assms] \<open>h_ID x = h_ID y\<close> show "x = y" by (metis fst_conv option.inject)
qed

lemma reads_hosts:
  assumes "view_of t m = view_of t m'" "hosts_ok (m_tenants m) (m_hosts m)"
  shows "GetHost t h m = GetHost t h m'" "CountHosts t m = CountHosts t m'" "ListHosts t m = ListHosts t m'"
proof -
  note hosts = viewD(1) [OF assms(1)]
  have "scoped_host t h m = scoped_host t h m'"
    using hosts unfolding owned_eq_iff by (metis option.exhaust scoped_host_Some snd_conv)
  then show "GetHost t h m = GetHost t h m'" by (simp add: GetHost_def)
  show "CountHosts t m = CountHosts t m'"
    unfolding CountHosts_def by (intro arg_cong2 [where f = host_counts.make, unfolded host_counts.make_def]
      count_if_owned [OF _ hosts]) auto
  show "ListHosts t m = ListHosts t m'"
    unfolding ListHosts_def
    by (rule sort_by_determined [OF _ sorted_hosts [OF assms(2)]])
      (simp add: mset_collect_owned [OF _ hosts])
qed

lemma reads_jobs:
  assumes "view_of t m = view_of t m'" "jobs_ok m"
  shows "GetJob t i m = GetJob t i m'" "ListJobs t f m = ListJobs t f m'"
    "fst (ClaimJobs t now h lim m) = fst (ClaimJobs t now h lim m')"
proof -
  note view = viewD [OF assms(1)]
  have recs: "get (m_records m) (t, i) = get (m_records m') (t, i)" for i by (rule owned_get [OF view(3)]) simp
  have res: "withResult m (t, i) r = withResult m' (t, i) r" for i r
    by (simp add: withResult_def owned_get [OF view(4)])
  show "GetJob t i m = GetJob t i m'" by (simp add: GetJob_def recs res split: option.split)
  have "queue_of (m_jobs m) (t, h) = queue_of (m_jobs m') (t, h)"
    by (simp add: queue_of_def owned_get [OF view(2)])
  then show "fst (ClaimJobs t now h lim m) = fst (ClaimJobs t now h lim m')"
    by (simp add: ClaimJobs_def Let_def split_beta)
  let ?es = "\<lambda>m. List.filter (\<lambda>(key, rec). listed t f key rec) (entries (m_records m))"
  have "set (?es m) = set (?es m')" using recs by (auto simp: listed_def simp flip: get_iff)
  moreover have "distinct (?es x)" for x
    using impl_of_distinct [of "m_records x"] by (intro distinct_filter) (simp add: distinct_map)
  ultimately have "mset (?es m) = mset (?es m')" using set_eq_iff_mset_eq_distinct by blast
  then have "mset (List.map (\<lambda>(key, rec). withResult m key rec) (?es m)) =
      mset (List.map (\<lambda>(key, rec). withResult m key rec) (?es m'))" unfolding mset_map by (rule arg_cong)
  also have "List.map (\<lambda>(key, rec). withResult m key rec) (?es m') = List.map (\<lambda>(key, rec). withResult m' key rec) (?es m')"
    using res by (auto simp: listed_def)
  finally have same: "mset (List.map (\<lambda>(key, rec). withResult m key rec) (?es m)) =
      mset (List.map (\<lambda>(key, rec). withResult m' key rec) (?es m'))" .
  have "strict_total newer_job (set (List.map (\<lambda>(key, rec). withResult m key rec) (?es m)))"
    unfolding newer_job_def
  proof (rule strict_total_keys(3))
    have job: "j_Job (withResult m key r) = j_Job r" for key r by (simp add: withResult_def split: option.splits)
    show "inj_on (\<lambda>x. ID (j_Job x)) (set (List.map (\<lambda>(key, rec). withResult m key rec) (?es m)))"
      using jobs_invD(1) [OF assms(2)] by (auto simp: inj_on_def job listed_def record_ok_def simp flip: get_iff) 
  qed
  with same show "ListJobs t f m = ListJobs t f m'"
    unfolding ListJobs_def by (simp only: sort_by_determined [OF same])
qed

text \<open>What a handle reads about hosts and jobs, in what order, and what it claims, is a function of its own tenant's rows: two stores that agree on them answer alike, whatever the other tenants hold and whatever order the maps are met in.\<close>

theorem reads_confined:
  assumes "reachable m" "view_of t m = view_of t m'"
  shows "GetHost t h m = GetHost t h m' \<and> CountHosts t m = CountHosts t m' \<and> ListHosts t m = ListHosts t m' \<and>
    GetJob t i m = GetJob t i m' \<and> ListJobs t f m = ListJobs t f m' \<and>
    fst (ClaimJobs t now h lim m) = fst (ClaimJobs t now h lim m')"
  using reads_hosts [OF assms(2)] reads_jobs [OF assms(2)] reachable_ok [OF assms(1)]
  by (simp add: store_ok_def)

section \<open>What deleting a host leaves\<close>

text \<open>Deleting a host leaves its unit transitions in the in-memory store, where the schema's foreign key deletes them.\<close>

theorem DeleteHost_keeps_history:
  assumes "DeleteHost tn h m = Inr m'"
  shows "GetHost tn h m' = Inl ErrNotFound \<and> ListUnitTransitions tn h lim m' = ListUnitTransitions tn h lim m"
  using assms by (auto simp: DeleteHost_def GetHost_def scoped_host_def ListUnitTransitions_def Let_def split: if_splits)

section \<open>The laws at work\<close>

lemma entries_empty: "entries no_entries = []"
  by transfer simp

theorem DeleteTenant_erases_witness:
  "\<exists>m'. DeleteTenant DefaultTenant demo_approved = Inr m' \<and> view_of DefaultTenant m' = no_rows \<and>
     view_of DefaultTenant demo_approved \<noteq> no_rows"
proof -
  have t: "get (m_tenants demo_approved) DefaultTenant \<noteq> None"
    by (simp add: demo_approved_def demo_created_def demo_enrolled_def NewMemory_def)
  then obtain m' where m': "DeleteTenant DefaultTenant demo_approved = Inr m'" by (simp add: DeleteTenant_def Let_def)
  moreover have "view_of DefaultTenant demo_approved \<noteq> no_rows" using t by (auto simp: view_of_def no_rows_def)
  ultimately show ?thesis using DeleteTenant_erases [OF m'] by blast
qed

definition demo_renewal :: renewal where
  "demo_renewal = \<lparr>Replacement = demo_cert\<lparr>c_Fingerprint := ''fp2''\<rparr>, Presented = ''fp'', SupersedeAt = 40, MaxLive = 2,
     r_Now = 30\<rparr>"

theorem RenewCertificate_capped_witness:
  "\<exists>m'. RenewCertificate DefaultTenant demo_renewal demo_enrolled = Inr m' \<and>
     int (CountLiveCertificates DefaultTenant ''h1'' 30 m') \<le> 2"
proof -
  have "CountLiveCertificates DefaultTenant ''h1'' 30 demo_enrolled = 1"
    by (simp add: CountLiveCertificates_def count_if_def entries_put entries_empty live_certificate_def demo_enrolled_def
        demo_cert_def is_zero_def)
  then have "\<exists>m'. RenewCertificate DefaultTenant demo_renewal demo_enrolled = Inr m'"
    by (simp add: RenewCertificate_def demo_renewal_def scoped_host_def stampCertificate_def demo_enrolled_def
        demo_cert_def Let_def DefaultTenant_def)
  then obtain m' where m': "RenewCertificate DefaultTenant demo_renewal demo_enrolled = Inr m'" ..
  from RenewCertificate_capped [OF this] show ?thesis
    using m' by (auto simp: demo_renewal_def demo_cert_def)
qed

theorem token_used_once_witness:
  "\<exists>tk m1. ConsumeEnrollmentToken ''acme'' ''a'' ''h2'' 5
       ((NewMemory 1)\<lparr>m_tokens := put ''a'' (demo_token ''a'', ''acme'') no_entries\<rparr>) = Inr (tk, m1) \<and>
     ConsumeEnrollmentToken ''acme'' ''a'' ''h3'' 6 m1 = Inl ErrTokenUnusable"
proof -
  let ?m = "(NewMemory 1)\<lparr>m_tokens := put ''a'' (demo_token ''a'', ''acme'') no_entries\<rparr>"
  have "\<exists>tk m1. ConsumeEnrollmentToken ''acme'' ''a'' ''h2'' 5 ?m = Inr (tk, m1)"
    by (simp add: ConsumeEnrollmentToken_def token_Usable_def is_zero_def demo_token_def Let_def)
  then obtain tk m1 where used: "ConsumeEnrollmentToken ''acme'' ''a'' ''h2'' 5 ?m = Inr (tk, m1)" by blast
  have "ConsumeEnrollmentToken ''acme'' ''a'' ''h3'' 6 m1 = Inl ErrTokenUnusable"
    by (rule token_used_once [OF used _ scoped_steps.none]) simp
  with used show ?thesis by blast
qed

text \<open>A host of another fleet, under the same host name, does not show.\<close>

theorem reads_confined_witness:
  "let m' = demo_enrolled\<lparr>m_hosts := put ''h9'' (demo_host\<lparr>h_ID := ''h9''\<rparr>, ''acme'') (m_hosts demo_enrolled)\<rparr>
   in ListHosts DefaultTenant demo_enrolled = ListHosts DefaultTenant m' \<and> ListHosts ''acme'' m' \<noteq> []"
proof -
  let ?m = "demo_enrolled\<lparr>m_hosts := put ''h9'' (demo_host\<lparr>h_ID := ''h9''\<rparr>, ''acme'') (m_hosts demo_enrolled)\<rparr>"
  have "view_of DefaultTenant demo_enrolled = view_of DefaultTenant ?m"
    by (rule sym) (auto simp: view_of_def acct_tenant_def DefaultTenant_def demo_enrolled_def intro!: owned_other)
  from reads_confined [OF demo_reachable(1) this] have "ListHosts DefaultTenant demo_enrolled = ListHosts DefaultTenant ?m"
    by blast
  moreover have "ListHosts ''acme'' ?m \<noteq> []"
    by (simp add: ListHosts_def collect_if_def demo_enrolled_def entries_put entries_empty sort_by_def DefaultTenant_def)
  ultimately show ?thesis by (simp add: Let_def)
qed

end
