(* ===== verification/Results.thy ===== *)
theory Results
  imports Runner GoMap
begin

text \<open>
  \<open>internal/agent/results.go\<close> and the part of \<open>agent.go\<close> that uses it: the spool of job results. The model
  of the directory has what a running process sees and what is on stable storage; a file
  in it is whole, because it is written by \<open>WriteFileAtomic\<close> (theory \<open>Files\<close>). Outcomes of system calls and
  answers of the control plane are arguments. \<open>life_step\<close> is what can happen to the spool, power
  failures included; the agent's operations are runs of it, and its invariant is that a durable
  result leaves the spool only when it was acknowledged or refused for good.
\<close>

section \<open>Answers of the control plane\<close>

text \<open>The error of a request: an \<open>HTTPError\<close> with status and \<open>Retry-After\<close>, or one below HTTP. \<open>None\<close> is success.\<close>

datatype call_error = HTTPError int duration | TransportError

definition Permanent :: "int \<Rightarrow> bool" where
  "Permanent status \<longleftrightarrow> status = 400 \<or> status = 404 \<or> status = 409"

fun permanentlyRefused :: "call_error \<Rightarrow> bool" where
  "permanentlyRefused (HTTPError status _) = Permanent status"
| "permanentlyRefused TransportError = False"

fun IsUnauthorised :: "call_error \<Rightarrow> bool" where
  "IsUnauthorised (HTTPError status _) = (status = 401)"
| "IsUnauthorised TransportError = False"

fun RetryAfter :: "call_error \<Rightarrow> duration" where
  "RetryAfter (HTTPError _ after) = after"
| "RetryAfter TransportError = 0"

text \<open>The answers after which a result is not sent again.\<close>

definition settles :: "call_error option \<Rightarrow> bool" where
  "settles answer \<longleftrightarrow> (case answer of None \<Rightarrow> True | Some e \<Rightarrow> permanentlyRefused e)"

section \<open>The spool directory\<close>

record spool =
  sp_dir :: "(bytes, bytes) gomap"
  sp_disk :: "(bytes, bytes) gomap"

definition sync_dir :: "spool \<Rightarrow> spool" where
  "sync_dir sp = sp\<lparr>sp_disk := sp_dir sp\<rparr>"

text \<open>The three outcomes of \<open>WriteFileAtomic\<close>.\<close>

definition write_spool :: "write_outcome \<Rightarrow> bytes \<Rightarrow> bytes \<Rightarrow> spool \<Rightarrow> spool" where
  "write_spool w n raw sp = (case w of
      WriteFailed \<Rightarrow> sp
    | WriteUnsynced \<Rightarrow> sp\<lparr>sp_dir := put n raw (sp_dir sp)\<rparr>
    | WriteOK \<Rightarrow> sync_dir (sp\<lparr>sp_dir := put n raw (sp_dir sp)\<rparr>))"

text \<open>What \<open>jsonRecord\<close> and \<open>json.Unmarshal\<close> do with a result.\<close>

record 'e codec =
  encode :: "'e result_request \<Rightarrow> bytes option"
  decode :: "bytes \<Rightarrow> 'e result_request option"

datatype spool_error = SpoolDir | SpoolNoID | SpoolBadID bytes | SpoolEncode | SpoolWrite

text \<open>The file name in \<open>PendingResultsDir\<close>; \<open>SpoolPath_inside\<close> below shows that joining it to the directory
  stays inside.\<close>

definition SpoolPath :: "bytes \<Rightarrow> (spool_error, bytes) result" where
  "SpoolPath jobID =
     (if jobID = [] then Inl SpoolNoID
      else if \<not> ValidJobID jobID then Inl (SpoolBadID jobID)
      else Inr (jobID @ ''.json''))"

text \<open>\<open>made\<close>: whether \<open>MkdirAll\<close> succeeds; \<open>w\<close>: the outcome of the write.\<close>

definition SpoolResult :: "'e codec \<Rightarrow> bool \<Rightarrow> write_outcome \<Rightarrow> 'e result_request \<Rightarrow> spool \<Rightarrow>
    (spool_error, unit) result \<times> spool" where
  "SpoolResult cd made w result sp =
     (if \<not> made then (Inl SpoolDir, sp)
      else case SpoolPath (JobID result) of
        Inl e \<Rightarrow> (Inl e, sp)
      | Inr n \<Rightarrow> (case encode cd result of
            None \<Rightarrow> (Inl SpoolEncode, sp)
          | Some raw \<Rightarrow> (if w = WriteOK then Inr () else Inl SpoolWrite, write_spool w n raw sp)))"

section \<open>Reading the spool\<close>

datatype dir_answer = DirAbsent | DirUnreadable | DirListed

text \<open>\<open>io_read\<close> and \<open>io_discard\<close>: which files can be read, which can be removed.\<close>

record spool_io =
  io_list :: dir_answer
  io_read :: "bytes \<Rightarrow> bool"
  io_discard :: "bytes \<Rightarrow> bool"

definition listing :: "spool \<Rightarrow> bytes list" where
  "listing sp = sort (List.map fst (entries (sp_dir sp)))"

fun pending_loop :: "'e codec \<Rightarrow> spool_io \<Rightarrow> bytes list \<Rightarrow> spool \<Rightarrow> 'e result_request list \<times> spool" where
  "pending_loop cd io [] sp = ([], sp)"
| "pending_loop cd io (n # ns) sp =
     (if \<not> has_suffix n ''.json'' then pending_loop cd io ns sp
      else if \<not> io_read io n then pending_loop cd io ns sp
      else case get (sp_dir sp) n of
        None \<Rightarrow> pending_loop cd io ns sp
      | Some raw \<Rightarrow> (case decode cd raw of
          None \<Rightarrow> pending_loop cd io ns (if io_discard io n then sp\<lparr>sp_dir := del n (sp_dir sp)\<rparr> else sp)
        | Some r \<Rightarrow> (case pending_loop cd io ns sp of (rs, sp') \<Rightarrow> (r # rs, sp'))))"

definition PendingResults :: "'e codec \<Rightarrow> spool_io \<Rightarrow> spool \<Rightarrow> (spool_error, 'e result_request list) result \<times> spool" where
  "PendingResults cd io sp = (case io_list io of
      DirAbsent \<Rightarrow> (Inr [], sp)
    | DirUnreadable \<Rightarrow> (Inl SpoolDir, sp)
    | DirListed \<Rightarrow> (case pending_loop cd io (listing sp) sp of (rs, sp') \<Rightarrow> (Inr rs, sp')))"

section \<open>Delivering\<close>

text \<open>What happens at one result: whether the context has ended, the answer of the control plane, whether
  the file can be removed and the directory synced.\<close>

record deliver_io =
  io_stopped :: bool
  io_answer :: "call_error option"
  io_removed :: bool
  io_synced :: bool

text \<open>The removal after an answer that settles the result.\<close>

definition drop_spooled :: "bytes \<Rightarrow> bool \<Rightarrow> bool \<Rightarrow> spool \<Rightarrow> spool" where
  "drop_spooled jobID removed synced sp = (case SpoolPath jobID of
      Inl _ \<Rightarrow> sp
    | Inr n \<Rightarrow>
        if \<not> removed \<or> get (sp_dir sp) n = None then sp
        else (let sp' = sp\<lparr>sp_dir := del n (sp_dir sp)\<rparr> in if synced then sync_dir sp' else sp'))"

type_synonym 'e report = "'e result_request \<times> call_error option"

fun deliver_loop :: "(nat \<Rightarrow> deliver_io) \<Rightarrow> nat \<Rightarrow> 'e result_request list \<Rightarrow> spool \<Rightarrow> 'e report list \<times> spool" where
  "deliver_loop env k [] sp = ([], sp)"
| "deliver_loop env k (r # rs) sp =
     (if io_stopped (env k) then ([], sp)
      else let sp' = (if settles (io_answer (env k))
                      then drop_spooled (JobID r) (io_removed (env k)) (io_synced (env k)) sp else sp)
        in case deliver_loop env (Suc k) rs sp' of (sent, sp'') \<Rightarrow> ((r, io_answer (env k)) # sent, sp''))"

definition DeliverPending :: "'e codec \<Rightarrow> spool_io \<Rightarrow> (nat \<Rightarrow> deliver_io) \<Rightarrow> spool \<Rightarrow> 'e report list \<times> spool" where
  "DeliverPending cd io env sp = (case PendingResults cd io sp of
      (Inl _, sp') \<Rightarrow> ([], sp')
    | (Inr rs, sp') \<Rightarrow> deliver_loop env 0 rs sp')"

section \<open>Polling\<close>

text \<open>What happens around one polled job: whether the context has ended before it, what the acceptance
  reads, the clock, the two writes to the spool, the answer to the report and the removal.\<close>

record job_io =
  ji_stopped :: bool
  ji_env :: accept_env
  ji_started :: instant
  ji_finished :: instant
  ji_provisional :: "bool \<times> write_outcome"
  ji_final :: "bool \<times> write_outcome"
  ji_answer :: "call_error option"
  ji_removed :: bool

text \<open>One round of the loop in \<open>pollAndRun\<close>: the result, its events, the nonce store, and the spool
  after the provisional write, after the final one and at the end.\<close>

record polled =
  po_result :: job_result
  po_events :: "event list"
  po_nonces :: nonce_state
  po_during :: spool
  po_spooled :: spool
  po_after :: spool

definition run_polled :: "crypto \<Rightarrow> run_failure codec \<Rightarrow> runner \<Rightarrow> job \<Rightarrow> job_io \<Rightarrow> spool \<Rightarrow> polled" where
  "run_polled cr cd r j io sp =
     (let provisional_write = (\<lambda>res. SpoolResult cd (fst (ji_provisional io)) (snd (ji_provisional io)) res sp) in
      case Run cr (ji_env io) (r\<lparr>Spool := Some (\<lambda>res. fst (provisional_write res) = Inr ())\<rparr>) j
             (ji_started io) (ji_finished io) of
        (result, st, evs) \<Rightarrow>
          let sp1 = (case evs of SpoolAttempt prov # _ \<Rightarrow> snd (provisional_write prov) | _ \<Rightarrow> sp);
              sp2 = snd (SpoolResult cd (fst (ji_final io)) (snd (ji_final io)) result sp1);
              sp3 = (if settles (ji_answer io) then drop_spooled (JobID result) (ji_removed io) False sp2 else sp2)
          in \<lparr>po_result = result, po_events = evs, po_nonces = st, po_during = sp1, po_spooled = sp2, po_after = sp3\<rparr>)"

fun poll_loop :: "crypto \<Rightarrow> run_failure codec \<Rightarrow> runner \<Rightarrow> (job \<times> job_io) list \<Rightarrow> spool \<Rightarrow> polled list \<times> nonce_state \<times> spool" where
  "poll_loop cr cd r [] sp = ([], Nonces_of r, sp)"
| "poll_loop cr cd r ((j, io) # rest) sp =
     (if ji_stopped io then ([], Nonces_of r, sp)
      else let p = run_polled cr cd r j io sp in
        case poll_loop cr cd (r\<lparr>Nonces_of := po_nonces p\<rparr>) rest (po_after p) of (ps, out) \<Rightarrow> (p # ps, out))"

definition pollAndRun :: "crypto \<Rightarrow> run_failure codec \<Rightarrow> runner \<Rightarrow> (call_error, (job \<times> job_io) list) result \<Rightarrow> spool \<Rightarrow>
    polled list \<times> nonce_state \<times> spool" where
  "pollAndRun cr cd r polled sp = (case polled of
      Inl _ \<Rightarrow> ([], Nonces_of r, sp)
    | Inr jobs \<Rightarrow> poll_loop cr cd r jobs sp)"

text \<open>The fields of a round, once for all.\<close>

lemma run_polled_fields:
  fixes sp defines "attempt io cd \<equiv> (\<lambda>res. SpoolResult cd (fst (ji_provisional io)) (snd (ji_provisional io)) res sp)"
  assumes "p = run_polled cr cd r j io sp"
  shows "Run cr (ji_env io) (r\<lparr>Spool := Some (\<lambda>res. fst (attempt io cd res) = Inr ())\<rparr>) j (ji_started io) (ji_finished io) =
      (po_result p, po_nonces p, po_events p)"
    and "po_during p = (case po_events p of SpoolAttempt prov # _ \<Rightarrow> snd (attempt io cd prov) | _ \<Rightarrow> sp)"
    and "po_spooled p = snd (SpoolResult cd (fst (ji_final io)) (snd (ji_final io)) (po_result p) (po_during p))"
    and "po_after p = (if settles (ji_answer io) then drop_spooled (JobID (po_result p)) (ji_removed io) False (po_spooled p)
       else po_spooled p)"
proof -
  obtain result st evs where "Run cr (ji_env io) (r\<lparr>Spool := Some (\<lambda>res. fst (attempt io cd res) = Inr ())\<rparr>) j
      (ji_started io) (ji_finished io) = (result, st, evs)" by (rule prod_cases3)
  then show "Run cr (ji_env io) (r\<lparr>Spool := Some (\<lambda>res. fst (attempt io cd res) = Inr ())\<rparr>) j (ji_started io) (ji_finished io) =
      (po_result p, po_nonces p, po_events p)"
    "po_during p = (case po_events p of SpoolAttempt prov # _ \<Rightarrow> snd (attempt io cd prov) | _ \<Rightarrow> sp)"
    "po_spooled p = snd (SpoolResult cd (fst (ji_final io)) (snd (ji_final io)) (po_result p) (po_during p))"
    "po_after p = (if settles (ji_answer io) then drop_spooled (JobID (po_result p)) (ji_removed io) False (po_spooled p)
       else po_spooled p)"
    unfolding attempt_def by (simp_all add: assms(2) run_polled_def Let_def)
qed

section \<open>Names\<close>

lemma SpoolPath_Inr: "SpoolPath i = Inr n \<longleftrightarrow> ValidJobID i \<and> n = i @ ''.json''"
  by (auto simp: SpoolPath_def ValidJobID_def)

text \<open>An identifier the control plane chose cannot name a file outside the spool directory: it has no
  separator and is no relative name.\<close>

lemma SpoolPath_inside: "SpoolPath i = Inr n \<Longrightarrow> CHR ''/'' \<notin> set n \<and> hd n \<noteq> CHR ''.''"
  by (cases i) (auto simp: SpoolPath_Inr ValidJobID_def jobIDPattern_def id_char_def list_all_iff is_digit_def)

lemma SpoolPath_json: "SpoolPath i = Inr n \<Longrightarrow> has_suffix n ''.json''"
  by (auto simp: SpoolPath_Inr has_suffix_def has_prefix_def)

section \<open>Well-formed spools\<close>

text \<open>What the spool relies on: a result that could be encoded is read as one of the same job. The identifier of a job
  in the spool is ASCII. Nothing is said of the other fields: \<open>encoding/json\<close> replaces bytes of the output that are
  no UTF-8, and the times lose their zone.\<close>

definition codec_ok :: "'e codec \<Rightarrow> bool" where
  "codec_ok cd \<longleftrightarrow> (\<forall>r raw. ValidJobID (JobID r) \<longrightarrow> encode cd r = Some raw \<longrightarrow>
     (\<exists>r'. decode cd raw = Some r' \<and> JobID r' = JobID r))"

definition file_ok :: "'e codec \<Rightarrow> bytes \<Rightarrow> bytes \<Rightarrow> bool" where
  "file_ok cd n raw \<longleftrightarrow> (\<exists>r. decode cd raw = Some r \<and> SpoolPath (JobID r) = Inr n)"

definition spool_ok :: "'e codec \<Rightarrow> spool \<Rightarrow> bool" where
  "spool_ok cd sp \<longleftrightarrow> (\<forall>n raw. get (sp_dir sp) n = Some raw \<or> get (sp_disk sp) n = Some raw \<longrightarrow> file_ok cd n raw)"

text \<open>A file that is there and stays there when the machine stops.\<close>

definition durable :: "bytes \<Rightarrow> spool \<Rightarrow> bool" where
  "durable n sp \<longleftrightarrow> get (sp_dir sp) n \<noteq> None \<and> get (sp_disk sp) n \<noteq> None"

lemma spool_okD: "spool_ok cd sp \<Longrightarrow> get (sp_dir sp) n = Some raw \<Longrightarrow> file_ok cd n raw"
  by (simp add: spool_ok_def)

lemma encoded_file_ok: "codec_ok cd \<Longrightarrow> SpoolPath (JobID r) = Inr n \<Longrightarrow> encode cd r = Some raw \<Longrightarrow> file_ok cd n raw"
  by (fastforce simp: codec_ok_def file_ok_def SpoolPath_Inr)

lemma SpoolResult_ok:
  assumes "codec_ok cd" "spool_ok cd sp" "SpoolResult cd made w r sp = (res, sp')"
  shows "spool_ok cd sp'"
  using assms(2,3) encoded_file_ok [OF assms(1)]
  by (auto simp: SpoolResult_def write_spool_def sync_dir_def spool_ok_def get_put
      split: if_splits sum.splits option.splits write_outcome.splits)

lemma SpoolResult_durable:
  assumes "SpoolResult cd made w r sp = (res, sp')"
  shows "durable n sp \<Longrightarrow> durable n sp'"
    and "res = Inr () \<Longrightarrow> SpoolPath (JobID r) = Inr m \<Longrightarrow> durable m sp'"
  using assms
  by (auto simp: SpoolResult_def write_spool_def sync_dir_def durable_def get_put
      split: if_splits sum.splits option.splits write_outcome.splits)

lemma SpoolResult_valid: "fst (SpoolResult cd made w r sp) = Inr () \<Longrightarrow> \<exists>n. SpoolPath (JobID r) = Inr n"
  by (auto simp: SpoolResult_def split: if_splits sum.splits)

lemma drop_spooled_ok: "spool_ok cd sp \<Longrightarrow> spool_ok cd (drop_spooled i removed synced sp)"
  by (auto simp: drop_spooled_def sync_dir_def spool_ok_def lookup_delete Let_def split: sum.splits if_splits)

lemma drop_spooled_durable:
  "durable n sp \<Longrightarrow> SpoolPath i \<noteq> Inr n \<Longrightarrow> durable n (drop_spooled i removed synced sp)"
  by (auto simp: drop_spooled_def sync_dir_def durable_def lookup_delete Let_def split: sum.splits)

section \<open>Reading and delivering a well-formed spool\<close>

abbreviation spooled_at :: "'e codec \<Rightarrow> spool \<Rightarrow> bytes \<Rightarrow> 'e result_request" where
  "spooled_at cd sp n \<equiv> the (decode cd (the (get (sp_dir sp) n)))"

lemma spooled_at_ok:
  assumes "spool_ok cd sp" "get (sp_dir sp) n \<noteq> None"
  shows "decode cd (the (get (sp_dir sp) n)) = Some (spooled_at cd sp n) \<and> SpoolPath (JobID (spooled_at cd sp n)) = Inr n"
  using assms spool_okD [OF assms(1)] by (fastforce simp: file_ok_def)

lemma pending_loop_ok:
  assumes "spool_ok cd sp" "\<forall>n \<in> set ns. get (sp_dir sp) n \<noteq> None"
  shows "pending_loop cd io ns sp = (List.map (spooled_at cd sp) (List.filter (io_read io) ns), sp)"
  using assms(2)
proof (induction ns)
  case (Cons n ns)
  from Cons.prems obtain raw where raw: "get (sp_dir sp) n = Some raw" by auto
  with spool_okD [OF assms(1)] obtain r where r: "decode cd raw = Some r" "SpoolPath (JobID r) = Inr n"
    by (auto simp: file_ok_def)
  with raw Cons SpoolPath_json [OF r(2)] show ?case by simp
qed simp

lemma set_listing: "n \<in> set (listing sp) \<longleftrightarrow> get (sp_dir sp) n \<noteq> None"
  by (force simp: listing_def get_iff)

lemma PendingResults_ok:
  assumes "spool_ok cd sp"
  shows "PendingResults cd io sp = (case io_list io of
      DirAbsent \<Rightarrow> (Inr [], sp) | DirUnreadable \<Rightarrow> (Inl SpoolDir, sp)
    | DirListed \<Rightarrow> (Inr (List.map (spooled_at cd sp) (List.filter (io_read io) (listing sp))), sp))"
  using pending_loop_ok [OF assms, of "listing sp" io] set_listing [of _ sp]
  by (simp add: PendingResults_def split: dir_answer.split)

lemma deliver_loop_reports:
  "(\<And>k. \<not> io_stopped (env k)) \<Longrightarrow> List.map fst (fst (deliver_loop env k rs sp)) = rs"
  by (induction env k rs sp rule: deliver_loop.induct) (simp_all add: Let_def case_prod_beta)

section \<open>The life of the spool\<close>

text \<open>After a power failure every name has the contents it had for running processes or those on stable
  storage.\<close>

definition power_failure :: "spool \<Rightarrow> spool \<Rightarrow> bool" where
  "power_failure sp sp' \<longleftrightarrow> sp_disk sp' = sp_dir sp' \<and>
     (\<forall>n. get (sp_dir sp') n = get (sp_dir sp) n \<or> get (sp_dir sp') n = get (sp_disk sp) n)"

text \<open>The spool and what was reported so far, with the answers.\<close>

record spool_life =
  lf_spool :: spool
  lf_log :: "(bytes \<times> call_error option) list"

inductive life_step :: "'e codec \<Rightarrow> spool_life \<Rightarrow> spool_life \<Rightarrow> bool" for cd where
  spooled: "SpoolResult cd made w r (lf_spool lf) = (res, sp) \<Longrightarrow> life_step cd lf (lf\<lparr>lf_spool := sp\<rparr>)"
| unsettled: "\<not> settles a \<Longrightarrow> life_step cd lf (lf\<lparr>lf_log := (i, a) # lf_log lf\<rparr>)"
| settled: "settles a \<Longrightarrow>
    life_step cd lf \<lparr>lf_spool = drop_spooled i removed synced (lf_spool lf), lf_log = (i, a) # lf_log lf\<rparr>"
| read_spool: "PendingResults cd io (lf_spool lf) = (rs, sp) \<Longrightarrow> life_step cd lf (lf\<lparr>lf_spool := sp\<rparr>)"
| failure: "power_failure (lf_spool lf) sp \<Longrightarrow> life_step cd lf (lf\<lparr>lf_spool := sp\<rparr>)"

inductive life :: "'e codec \<Rightarrow> spool_life \<Rightarrow> spool_life \<Rightarrow> bool" for cd where
  born: "life cd lf lf"
| later: "life cd lf lf' \<Longrightarrow> life_step cd lf' lf'' \<Longrightarrow> life cd lf lf''"

lemma life_one: "life_step cd lf lf' \<Longrightarrow> life cd lf lf'"
  by (rule life.later [OF life.born])

lemma life_trans: "life cd b c \<Longrightarrow> life cd a b \<Longrightarrow> life cd a c"
  by (induction rule: life.induct) (auto intro: life.later)

text \<open>The agent's operations are lives of its spool.\<close>

lemma deliver_loop_life:
  "deliver_loop env k rs sp = (sent, sp') \<Longrightarrow>
   life cd \<lparr>lf_spool = sp, lf_log = log\<rparr>
     \<lparr>lf_spool = sp', lf_log = rev (List.map (\<lambda>(r, a). (JobID r, a)) sent) @ log\<rparr>"
proof (induction env k rs sp arbitrary: sent sp' log rule: deliver_loop.induct)
  case (1 env k sp)
  then show ?case by (simp add: life.born)
next
  case (2 env k r rs sp)
  show ?case
  proof (cases "io_stopped (env k)")
    case True
    with 2 show ?thesis by (simp add: life.born)
  next
    case False
    define sp1 where "sp1 = (if settles (io_answer (env k))
      then drop_spooled (JobID r) (io_removed (env k)) (io_synced (env k)) sp else sp)"
    obtain sent1 where rest: "deliver_loop env (Suc k) rs sp1 = (sent1, sp')" "sent = (r, io_answer (env k)) # sent1"
      using 2(2) False by (auto simp: Let_def sp1_def split: prod.splits)
    have "life_step cd \<lparr>lf_spool = sp, lf_log = log\<rparr> \<lparr>lf_spool = sp1, lf_log = (JobID r, io_answer (env k)) # log\<rparr>"
      using life_step.unsettled [of "io_answer (env k)" cd "\<lparr>lf_spool = sp, lf_log = log\<rparr>" "JobID r"]
        life_step.settled [of "io_answer (env k)" cd "\<lparr>lf_spool = sp, lf_log = log\<rparr>" "JobID r"]
      by (simp add: sp1_def)
    from life_trans [OF 2(1) [OF False sp1_def] life_one [OF this], OF rest(1)] rest(2) show ?thesis by simp
  qed
qed

lemma DeliverPending_life:
  assumes "DeliverPending cd io env sp = (sent, sp')"
  shows "life cd \<lparr>lf_spool = sp, lf_log = log\<rparr>
     \<lparr>lf_spool = sp', lf_log = rev (List.map (\<lambda>(r, a). (JobID r, a)) sent) @ log\<rparr>"
proof (cases "PendingResults cd io sp")
  case (Pair rs sp1)
  from life_step.read_spool [of cd io "\<lparr>lf_spool = sp, lf_log = log\<rparr>"] Pair
  have "life cd \<lparr>lf_spool = sp, lf_log = log\<rparr> \<lparr>lf_spool = sp1, lf_log = log\<rparr>" by (auto intro: life_one)
  with assms Pair show ?thesis
    by (cases rs) (auto simp: DeliverPending_def intro: life_trans [OF deliver_loop_life])
qed

text \<open>What a run writes to the spool before it hands the job to a helper, and all of a polled job.\<close>

lemma run_polled_life:
  assumes "p = run_polled cr cd r j io sp"
  shows "life cd \<lparr>lf_spool = sp, lf_log = log\<rparr> \<lparr>lf_spool = po_during p, lf_log = log\<rparr>"
    and "life cd \<lparr>lf_spool = po_during p, lf_log = log\<rparr>
      \<lparr>lf_spool = po_after p, lf_log = (JobID (po_result p), ji_answer io) # log\<rparr>"
proof -
  have wr: "life cd \<lparr>lf_spool = x, lf_log = log\<rparr> \<lparr>lf_spool = snd (SpoolResult cd a b q x), lf_log = log\<rparr>" for x a b q
    using life_step.spooled [of cd a b q "\<lparr>lf_spool = x, lf_log = log\<rparr>"] by (cases "SpoolResult cd a b q x") (auto intro: life_one)
  show "life cd \<lparr>lf_spool = sp, lf_log = log\<rparr> \<lparr>lf_spool = po_during p, lf_log = log\<rparr>"
    unfolding run_polled_fields(2) [OF assms] by (auto intro: wr life.born split: list.split event.split)
  note p = run_polled_fields(3,4) [OF assms]
  have "life_step cd \<lparr>lf_spool = po_spooled p, lf_log = log\<rparr>
      \<lparr>lf_spool = po_after p, lf_log = (JobID (po_result p), ji_answer io) # log\<rparr>"
    using life_step.unsettled [of "ji_answer io" cd "\<lparr>lf_spool = po_spooled p, lf_log = log\<rparr>" "JobID (po_result p)"]
      life_step.settled [of "ji_answer io" cd "\<lparr>lf_spool = po_spooled p, lf_log = log\<rparr>" "JobID (po_result p)"]
    by (simp add: p(2))
  then show "life cd \<lparr>lf_spool = po_during p, lf_log = log\<rparr>
      \<lparr>lf_spool = po_after p, lf_log = (JobID (po_result p), ji_answer io) # log\<rparr>"
    using wr [of "po_during p"] p(1) by (auto intro: life.later)
qed

section \<open>What the spool keeps\<close>

text \<open>The invariant of a life: every file decodes to a result of the job it is named after, and what was
  durable at the start is durable still or was settled.\<close>

definition life_inv :: "'e codec \<Rightarrow> bytes \<Rightarrow> spool_life \<Rightarrow> bool" where
  "life_inv cd n lf \<longleftrightarrow> spool_ok cd (lf_spool lf) \<and>
     (durable n (lf_spool lf) \<or> (\<exists>i a. (i, a) \<in> set (lf_log lf) \<and> settles a \<and> SpoolPath i = Inr n))"

lemma power_failure_ok: "power_failure sp sp' \<Longrightarrow> spool_ok cd sp \<Longrightarrow> spool_ok cd sp'"
  unfolding power_failure_def spool_ok_def by metis

lemma power_failure_durable: "power_failure sp sp' \<Longrightarrow> durable n sp \<Longrightarrow> durable n sp'"
  unfolding power_failure_def durable_def by metis

lemma PendingResults_keeps: "spool_ok cd sp \<Longrightarrow> PendingResults cd io sp = (rs, sp') \<Longrightarrow> sp' = sp"
  by (auto simp: PendingResults_ok split: dir_answer.splits)

lemma life_inv_step:
  assumes "codec_ok cd" "life_inv cd n lf" "life_step cd lf lf'"
  shows "life_inv cd n lf'"
proof -
  from assms(2) have ok: "spool_ok cd (lf_spool lf)" by (simp add: life_inv_def)
  from assms(3) show ?thesis
  proof cases
    case (spooled made w r res sp)
    with assms(2) SpoolResult_ok [OF assms(1) ok spooled(2)] SpoolResult_durable(1) [OF spooled(2)] show ?thesis
      by (auto simp: life_inv_def)
  next
    case (settled a i removed synced)
    have "spool_ok cd (lf_spool lf')" using drop_spooled_ok [OF ok] settled(1) by simp
    moreover have "durable n (lf_spool lf') \<or> (\<exists>i a. (i, a) \<in> set (lf_log lf') \<and> settles a \<and> SpoolPath i = Inr n)"
    proof (cases "SpoolPath i = Inr n")
      case True
      with settled show ?thesis by (intro disjI2 exI [of _ i] exI [of _ a]) simp
    next
      case False
      have log: "set (lf_log lf) \<subseteq> set (lf_log lf')" using settled(1) by auto
      from assms(2) have "durable n (lf_spool lf) \<or> (\<exists>i a. (i, a) \<in> set (lf_log lf) \<and> settles a \<and> SpoolPath i = Inr n)"
        by (simp add: life_inv_def)
      with drop_spooled_durable [OF _ False] log show ?thesis unfolding settled(1) spool_life.simps by blast
    qed
    ultimately show ?thesis by (simp add: life_inv_def)
  next
    case (failure sp)
    with assms(2) power_failure_ok [OF failure(2) ok] power_failure_durable [OF failure(2)] show ?thesis
      by (auto simp: life_inv_def)
  next
    case (read_spool io rs sp)
    from PendingResults_keeps [OF ok read_spool(2)] assms(2) read_spool(1) show ?thesis by (simp add: life_inv_def)
  next
    case (unsettled a i)
    with assms(2) show ?thesis by (auto simp: life_inv_def)
  qed
qed

lemma life_inv_life: "life cd lf lf' \<Longrightarrow> codec_ok cd \<Longrightarrow> life_inv cd n lf \<Longrightarrow> life_inv cd n lf'"
  by (induction rule: life.induct) (auto intro: life_inv_step)

text \<open>Property C9: a result that is durably in the spool stays there, through any reports, deliveries, rewrites and power
  failures, until the control plane acknowledged a result of that job or refused it for good.\<close>

theorem spooled_until_settled:
  assumes "codec_ok cd" "spool_ok cd (lf_spool lf)" "durable n (lf_spool lf)" "life cd lf lf'"
  shows "durable n (lf_spool lf') \<or> (\<exists>i a. (i, a) \<in> set (lf_log lf') \<and> settles a \<and> SpoolPath i = Inr n)"
  using life_inv_life [OF assms(4,1), of n] assms(2,3) by (simp add: life_inv_def)

lemma DeliverPending_reports:
  assumes "spool_ok cd sp" "io_list io = DirListed" "\<And>n. io_read io n" "\<And>k. \<not> io_stopped (env k)"
  shows "List.map fst (fst (DeliverPending cd io env sp)) = List.map (spooled_at cd sp) (listing sp)"
  using assms PendingResults_ok [OF assms(1), of io] deliver_loop_reports [OF assms(4)]
  by (simp add: DeliverPending_def)

text \<open>The next start: every file in the spool is reported once, in the order of the names, as a result of the
  job it is named after.\<close>

theorem pending_results_delivered:
  assumes "spool_ok cd sp" "io_list io = DirListed" "\<And>n. io_read io n" "\<And>k. \<not> io_stopped (env k)"
  shows "List.map (\<lambda>(r, _). SpoolPath (JobID r)) (fst (DeliverPending cd io env sp)) = List.map Inr (listing sp) \<and>
    distinct (listing sp)"
proof -
  let ?sent = "fst (DeliverPending cd io env sp)"
  have "List.map (\<lambda>(r, _). SpoolPath (JobID r)) ?sent = List.map (\<lambda>r. SpoolPath (JobID r)) (List.map fst ?sent)"
    by (simp add: case_prod_beta)
  also have "\<dots> = List.map (\<lambda>n. SpoolPath (JobID (spooled_at cd sp n))) (listing sp)"
    unfolding DeliverPending_reports [OF assms] by simp
  also have "\<dots> = List.map Inr (listing sp)"
    using spooled_at_ok [OF assms(1)] set_listing [of _ sp] by (intro map_cong) auto
  finally show ?thesis by (simp add: listing_def)
qed

section \<open>Results survive a reboot\<close>

lemma run_polled_called:
  assumes "p = run_polled cr cd r j io sp" "HelperCall req \<in> set (po_events p)"
    and "Decode (pr_Intent req) (pr_Params req) = Inr (s, ps)" "MayNotReturn s ps"
  obtains n where "SpoolPath (ID j) = Inr n" "durable n (po_during p)"
proof -
  let ?attempt = "\<lambda>res. SpoolResult cd (fst (ji_provisional io)) (snd (ji_provisional io)) res sp"
  note run = run_polled_fields(1) [OF assms(1)] and during = run_polled_fields(2) [OF assms(1)]
  from call_after_spool [OF run assms(2-4)] obtain prov evs where
    ev: "po_events p = SpoolAttempt prov # evs" "fst (?attempt prov) = Inr ()" "JobID prov = ID j" by auto
  from SpoolResult_valid [OF ev(2)] ev(3) obtain n where n: "SpoolPath (ID j) = Inr n" by auto
  obtain sp' where "?attempt prov = (Inr (), sp')" using ev(2) by (cases "?attempt prov") auto
  with SpoolResult_durable(2) [OF this] n ev during have "durable n (po_during p)" by simp
  with n show thesis by (rule that)
qed

lemma run_polled_ok:
  assumes "codec_ok cd" "spool_ok cd sp" "p = run_polled cr cd r j io sp"
  shows "spool_ok cd (po_during p)"
  unfolding run_polled_fields(2) [OF assms(3)] using SpoolResult_ok [OF assms(1,2)] assms(2)
  by (auto split: list.split event.split) (metis prod.collapse)

text \<open>Property C8: a job that may take the host away is reported. Once its request was handed to a helper, whatever
  happens to the agent afterwards (a power failure at any time, restarts, further reports and writes),
  either the control plane has answered a result of the job for good, or the next start reports one.\<close>

theorem reboot_reported:
  assumes "codec_ok cd" "spool_ok cd sp" "p = run_polled cr cd r j io sp"
    and "HelperCall req \<in> set (po_events p)" "Decode (pr_Intent req) (pr_Params req) = Inr (s, ps)" "MayNotReturn s ps"
    and "life cd \<lparr>lf_spool = po_during p, lf_log = []\<rparr> lf"
    and "io_list io' = DirListed" "\<And>n. io_read io' n" "\<And>k. \<not> io_stopped (env k)"
  shows "(\<exists>a. (ID j, a) \<in> set (lf_log lf) \<and> settles a) \<or>
    (\<exists>res a. (res, a) \<in> set (fst (DeliverPending cd io' env (lf_spool lf))) \<and> JobID res = ID j)"
proof -
  obtain n where n: "SpoolPath (ID j) = Inr n" "durable n (po_during p)"
    using run_polled_called [OF assms(3-6)] by blast
  have "life_inv cd n \<lparr>lf_spool = po_during p, lf_log = []\<rparr>"
    using run_polled_ok [OF assms(1-3)] n(2) by (simp add: life_inv_def)
  from life_inv_life [OF assms(7,1) this] have inv: "spool_ok cd (lf_spool lf)"
    "durable n (lf_spool lf) \<or> (\<exists>i a. (i, a) \<in> set (lf_log lf) \<and> settles a \<and> SpoolPath i = Inr n)"
    by (simp_all add: life_inv_def)
  have same: "i = ID j" if "SpoolPath i = Inr n" for i using that n(1) by (simp add: SpoolPath_Inr)
  from inv(2) show ?thesis
  proof
    assume "durable n (lf_spool lf)"
    then have "n \<in> set (listing (lf_spool lf))" by (simp add: set_listing durable_def)
    then have "spooled_at cd (lf_spool lf) n \<in> fst ` set (fst (DeliverPending cd io' env (lf_spool lf)))"
      unfolding set_map [symmetric] DeliverPending_reports [OF inv(1) assms(8-10)] by simp
    moreover have "JobID (spooled_at cd (lf_spool lf) n) = ID j"
      using spooled_at_ok [OF inv(1)] \<open>durable n (lf_spool lf)\<close> by (intro same) (simp add: durable_def)
    ultimately show ?thesis by force
  qed (use same in blast)
qed

section \<open>A spool at work\<close>

text \<open>A codec in the manner of \<open>jsonRecord\<close> and \<open>json.Unmarshal\<close>: the identifier, the status and the output as a JSON
  object, through the writer and the parser of theory \<open>JSON_Write\<close>. What it reads back differs from what was
  written where the output is no UTF-8.\<close>

definition result_json :: "'e result_request \<Rightarrow> json" where
  "result_json r = JObj [(''jobId'', JStr (JobID r)), (''output'', JStr (Output r)), (''status'', JStr (Status r))]"

definition result_of_json :: "json \<Rightarrow> 'e result_request option" where
  "result_of_json v = (case v of
      JObj [(_, JStr i), (_, JStr out), (_, JStr status)] \<Rightarrow>
        Some \<lparr>JobID = i, Status = status, StartedAt = 0, FinishedAt = 0, res_ExitCode = 0, Output = out,
          OutputTruncated = False, Result = None, res_Error = None\<rparr>
    | _ \<Rightarrow> None)"

definition json_results :: "'e codec" where
  "json_results = \<lparr>encode = (\<lambda>r. case json_marshal (result_json r) of Inl _ \<Rightarrow> None | Inr raw \<Rightarrow> Some raw),
     decode = (\<lambda>raw. Option.bind (parse_json raw) (\<lambda>(v, _). result_of_json v))\<rparr>"

lemma ValidJobID_plain: "ValidJobID i \<Longrightarrow> sanitize i = i"
  by (rule sanitize_plain) (auto simp: ValidJobID_def jobIDPattern_def id_char_def is_digit_def plain_char_def list_all_iff split: list.splits)

lemma json_results_encodes: "\<exists>raw. encode json_results r = Some raw"
  by (simp add: json_results_def result_json_def json_marshal_def marshal_string_def bind_res_def less_eq_char_def less_char_def)

lemma json_results_ok: "codec_ok json_results"
  unfolding codec_ok_def
proof (intro allI impI)
  fix r :: "'e result_request" and raw
  assume i: "ValidJobID (JobID r)" and "encode json_results r = Some raw"
  then have "json_marshal (result_json r) = Inr raw" by (simp add: json_results_def split: sum.splits)
  moreover have "jdepth (result_json r) \<le> max_nesting" by (simp add: result_json_def max_nesting_def)
  ultimately have "parse_json raw = Some (read_back (result_json r), [])" by (rule json_marshal_parse)
  moreover have "read_back (result_json r) = JObj [(''jobId'', JStr (sanitize (JobID r))), (''output'', JStr (sanitize (Output r))),
      (''status'', JStr (sanitize (Status r)))]"
    by (simp add: result_json_def sanitize_plain plain_char_def less_eq_char_def less_char_def)
  ultimately show "\<exists>r'. decode json_results raw = Some r' \<and> JobID r' = JobID r"
    by (simp add: json_results_def result_of_json_def ValidJobID_plain [OF i])
qed

definition empty_spool :: spool where
  "empty_spool = \<lparr>sp_dir = no_entries, sp_disk = no_entries\<rparr>"

lemma empty_spool_ok: "spool_ok cd empty_spool"
  by (simp add: spool_ok_def empty_spool_def)

definition demo_result :: "unit result_request" where
  "demo_result = \<lparr>JobID = ''J1'', Status = StatusSucceeded, StartedAt = 1, FinishedAt = 2, res_ExitCode = 0,
     Output = [], OutputTruncated = False, Result = None, res_Error = None\<rparr>"

definition demo_spool :: spool where
  "demo_spool = snd (SpoolResult json_results True WriteOK demo_result empty_spool)"

definition all_listed :: spool_io where
  "all_listed = \<lparr>io_list = DirListed, io_read = (\<lambda>_. True), io_discard = (\<lambda>_. True)\<rparr>"

definition unreachable :: deliver_io where
  "unreachable = \<lparr>io_stopped = False, io_answer = Some TransportError, io_removed = True, io_synced = True\<rparr>"

lemma valid_demo_ids: "ValidJobID ''J1''" "ValidJobID ''J2''"
  by (simp_all add: ValidJobID_def MaxJobIDBytes_def jobIDPattern_def id_char_def is_digit_def)

lemma demo_spooled: "SpoolResult json_results True WriteOK demo_result empty_spool = (Inr (), demo_spool)"
  using valid_demo_ids(1) json_results_encodes [of demo_result]
  by (auto simp: demo_spool_def SpoolResult_def SpoolPath_def demo_result_def)

lemma demo_spool_ok: "spool_ok (json_results :: unit codec) demo_spool"
  by (rule SpoolResult_ok [OF json_results_ok empty_spool_ok demo_spooled])

lemma demo_durable: "durable ''J1.json'' demo_spool"
  by (rule SpoolResult_durable(2) [OF demo_spooled refl]) (simp add: SpoolPath_Inr demo_result_def valid_demo_ids)

text \<open>A failed report, then a loss of power.\<close>

theorem spooled_until_settled_witness:
  "\<exists>lf. life (json_results :: unit codec) \<lparr>lf_spool = demo_spool, lf_log = []\<rparr> lf \<and> lf_log lf = [(''J1'', Some TransportError)] \<and>
     durable ''J1.json'' (lf_spool lf)"
proof -
  let ?a = "\<lparr>lf_spool = demo_spool, lf_log = []\<rparr>"
  let ?b = "\<lparr>lf_spool = demo_spool, lf_log = [(''J1'', Some TransportError)]\<rparr>"
  let ?c = "\<lparr>lf_spool = demo_spool\<lparr>sp_disk := sp_dir demo_spool\<rparr>, lf_log = [(''J1'', Some TransportError)]\<rparr>"
  have "life_step (json_results :: unit codec) ?a ?b"
    using life_step.unsettled [of "Some TransportError" _ ?a "''J1''"] by (simp add: settles_def)
  moreover have "life_step (json_results :: unit codec) ?b ?c"
    using life_step.failure [of ?b "demo_spool\<lparr>sp_disk := sp_dir demo_spool\<rparr>"] by (simp add: power_failure_def)
  ultimately have life: "life (json_results :: unit codec) ?a ?c" by (blast intro: life.intros)
  from spooled_until_settled [OF json_results_ok _ _ this, of "''J1.json''"] demo_spool_ok demo_durable
  have "durable ''J1.json'' (lf_spool ?c)" by (simp add: settles_def)
  with life show ?thesis by (intro exI [of _ ?c]) simp
qed

theorem pending_results_delivered_witness:
  "List.map (\<lambda>(r, _). SpoolPath (JobID r)) (fst (DeliverPending (json_results :: unit codec) all_listed (\<lambda>_. unreachable) demo_spool)) =
   [Inr ''J1.json'']"
proof -
  have "listing demo_spool = [''J1.json'']"
    using valid_demo_ids(1) json_results_encodes [of demo_result]
    by (auto simp: listing_def demo_spool_def SpoolResult_def SpoolPath_def demo_result_def write_spool_def
        sync_dir_def empty_spool_def entries_put DAList.empty.rep_eq)
  with pending_results_delivered [OF demo_spool_ok, of all_listed "\<lambda>_. unreachable"] show ?thesis
    by (simp add: all_listed_def unreachable_def)
qed

text \<open>The reboot of theory \<open>Runner\<close>, with the power lost right after the helper was called.\<close>

lemma Run_spooling:
  assumes "Run cr ae (r\<lparr>Spool := Some (\<lambda>_. True)\<rparr>) j started finished = (res, st, SpoolAttempt prov # evs)" "ok prov"
  shows "Run cr ae (r\<lparr>Spool := Some ok\<rparr>) j started finished = (res, st, SpoolAttempt prov # evs)"
proof -
  have same: "run_accepted (r\<lparr>Spool := x\<rparr>) = run_accepted r" for x
    by (intro ext) (simp add: run_accepted_def elevate_def run_read_def)
  show ?thesis using assms unfolding Run_def same
    by (auto simp: Let_def split: sum.splits prod.splits if_splits)
qed

definition demo_job_io :: "job_io" where
  "demo_job_io = \<lparr>ji_stopped = False, ji_env = sample_env last_second, ji_started = last_second, ji_finished = last_second,
     ji_provisional = (True, WriteOK), ji_final = (True, WriteFailed), ji_answer = Some TransportError, ji_removed = False\<rparr>"

theorem reboot_reported_witness:
  "let cd = json_results;
      p = run_polled reboot_crypto cd (sample_runner (\<lambda>_. (Inl InvokeFailed, []))) (signed_with ''ops'' reboot_job) demo_job_io empty_spool
    in \<exists>res a. (res, a) \<in> set (fst (DeliverPending cd all_listed (\<lambda>_. unreachable) (po_during p))) \<and> JobID res = ''J2''"
proof (rule reboot_run [of "\<lambda>_. (Inl InvokeFailed, [])" last_second])
  fix res st prov s
  let ?r = "sample_runner (\<lambda>_. (Inl InvokeFailed, []))" and ?j = "signed_with ''ops'' reboot_job"
  let ?req = "\<lparr>pr_JobID = ''J2'', pr_Intent = HostReboot, pr_Params = ''null'', pr_IssuedAt = NotBefore reboot_job\<rparr>"
  let ?cd = "json_results" and ?p = "run_polled reboot_crypto json_results (sample_runner (\<lambda>_. (Inl InvokeFailed, [])))
      (signed_with ''ops'' reboot_job) demo_job_io empty_spool"
  assume run: "Run reboot_crypto (sample_env last_second) ?r ?j last_second last_second =
      (res, st, SpoolAttempt prov # HelperCall ?req # map HostEffect (snd (Inl InvokeFailed, [])))"
    and d: "Decode HostReboot ''null'' = Inr (s, RebootParams HostReboot 0 [])" "MayNotReturn s (RebootParams HostReboot 0 [])"
  have j: "ID ?j = ''J2''" by (simp add: signed_with_def reboot_job_def)
  have "JobID prov = ''J2''"
    using call_after_spool [OF run, of ?req] d j by auto
  then have "fst (SpoolResult ?cd True WriteOK prov empty_spool) = Inr ()"
    using valid_demo_ids json_results_encodes [of prov] by (auto simp: SpoolResult_def SpoolPath_def)
  moreover have "?r\<lparr>Spool := Some (\<lambda>_. True)\<rparr> = ?r" by (simp add: sample_runner_def)
  ultimately have "po_events ?p = [SpoolAttempt prov, HelperCall ?req]"
    using run_polled_fields(1) [of ?p reboot_crypto ?cd ?r ?j demo_job_io empty_spool]
      Run_spooling [of reboot_crypto "sample_env last_second" ?r ?j last_second last_second res st prov "[HelperCall ?req]"
        "\<lambda>q. fst (SpoolResult ?cd True WriteOK q empty_spool) = Inr ()"] run
    by (simp add: demo_job_io_def)
  then have "HelperCall ?req \<in> set (po_events ?p)" by simp
  from reboot_reported [OF json_results_ok empty_spool_ok refl this _ d(2) life.born, of all_listed "\<lambda>_. unreachable"] d(1) j
  show ?thesis by (simp add: Let_def all_listed_def unreachable_def)
qed

end
