(* ===== verification/Credential.thy ===== *)
theory Credential
  imports Results Signing
begin

text \<open>
  \<open>internal/agent/credential.go\<close> and \<open>onlinekey.go\<close>: the client credential, kept as one file with the pair it
  superseded beside it, and the cached key of the control plane. Writing is a sequence of the system
  calls of theory \<open>Files\<close>; \<open>credential_visits\<close> are the states the machine can stop in, and the main
  lemma of the theory is that a usable pair can be loaded after a stop in any of them.
\<close>

section \<open>Reading and writing whole files\<close>

text \<open>\<open>os.ReadFile\<close> of a running process; a file that cannot be read counts as absent here, as it does where
  these functions read.\<close>

definition read_file :: "fs \<Rightarrow> path \<Rightarrow> bytes option" where
  "read_file s p = map_option fst (live s p)"

definition join :: "bytes \<Rightarrow> bytes \<Rightarrow> path" where
  "join dir name = dir @ ''/'' @ name"

text \<open>How one atomic write goes: the call that fails, if one does, and the name of the temporary file.\<close>

record write_io =
  wr_fault :: "nat option"
  wr_tmp :: path

definition write_file :: "write_io \<Rightarrow> path \<Rightarrow> bytes \<Rightarrow> fs \<Rightarrow> (fs_op, unit) result \<times> fs" where
  "write_file io p d s = WriteFileAtomic (wr_fault io) (wr_tmp io) p d s"

lemma write_file_result:
  assumes "wr_tmp io \<noteq> p" "write_file io p d s = (r, s')"
  shows "\<forall>q. q \<noteq> wr_tmp io \<and> q \<noteq> p \<longrightarrow> live s' q = live s q"
    and "r = Inr () \<Longrightarrow> live s' p = Some (d, True) \<and> disk s' p = Some (d, True)"
    and "r \<noteq> Inr () \<Longrightarrow> live s' p = live s p \<or> live s' p = Some (d, True)"
proof -
  obtain s1 where s1: "run_ops (wr_fault io) (write_ops Rename (wr_tmp io) p d) s = (r, s1)"
    "live s' p = live s1 p" "disk s' p = disk s1 p" "\<forall>q. q \<noteq> wr_tmp io \<longrightarrow> live s' q = live s1 q"
    using assms by (cases "run_ops (wr_fault io) (write_ops Rename (wr_tmp io) p d) s")
      (auto simp: write_file_def WriteFileAtomic_def remove_temp_def split: if_splits)
  note res = renaming.write_result [OF assms(1) s1(1)]
  show "\<forall>q. q \<noteq> wr_tmp io \<and> q \<noteq> p \<longrightarrow> live s' q = live s q" using res(1) s1(4) by simp
  show "r = Inr () \<Longrightarrow> live s' p = Some (d, True) \<and> disk s' p = Some (d, True)" using res(2) s1(2,3) by simp
  show "r \<noteq> Inr () \<Longrightarrow> live s' p = live s p \<or> live s' p = Some (d, True)" using res(3,4) s1(2) by auto
qed

text \<open>The other files while one is written: what runs sees them unchanged, and stable storage has them as it
  had or as what runs sees them.\<close>

definition beside :: "fs \<Rightarrow> path \<Rightarrow> fs \<Rightarrow> bool" where
  "beside s0 q s \<longleftrightarrow> live s q = live s0 q \<and> (disk s q = disk s0 q \<or> disk s q = live s0 q)"

lemma beside_carries:
  "q \<noteq> tmp \<Longrightarrow> q \<noteq> p \<Longrightarrow> carries (\<lambda>_. beside s0 q) 0 (write_ops Rename tmp p d)"
  unfolding write_ops_def carries_Cons by (auto simp: carries_def beside_def split: if_splits)

lemma beside_visited:
  assumes "q \<noteq> tmp" "q \<noteq> p" "s \<in> set (visited fault (write_ops Rename tmp p d) s0)"
  shows "beside s0 q s"
  using visited_carries [OF beside_carries [OF assms(1,2)] _ assms(3)] by (auto simp: beside_def)

lemma beside_written:
  assumes "q \<noteq> wr_tmp io" "q \<noteq> p" "write_file io p d s0 = (r, s)"
  shows "beside s0 q s"
proof -
  obtain s1 where s1: "run_ops (wr_fault io) (write_ops Rename (wr_tmp io) p d) s0 = (r, s1)"
    "live s q = live s1 q" "disk s q = disk s1 q"
    using assms by (cases "run_ops (wr_fault io) (write_ops Rename (wr_tmp io) p d) s0")
      (auto simp: write_file_def WriteFileAtomic_def remove_temp_def split: if_splits)
  from run_ops_carries [OF beside_carries [OF assms(1,2)] _ s1(1), of s0] s1(2,3) show ?thesis
    by (auto simp: beside_def)
qed

lemma beside_settled: "settled s0 q \<Longrightarrow> beside s0 q s \<Longrightarrow> settled s q \<and> live s q = live s0 q"
  by (auto simp: settled_def beside_def)

lemma settled_crash: "settled s q \<Longrightarrow> crash s x \<Longrightarrow> x q = read_file s q"
proof -
  assume "settled s q" "crash s x"
  then have "crash_entry (live s) x q \<or> crash_entry (disk s) x q" by (simp add: crash_def)
  with \<open>settled s q\<close> have "crash_entry (live s) x q" by (simp add: settled_def crash_entry_def)
  with \<open>settled s q\<close> show ?thesis by (auto simp: settled_def crash_entry_def read_file_def split: option.splits)
qed

section \<open>The credential\<close>

definition CredentialFile :: bytes where [go_defs]: "CredentialFile = ''agent.pem''"
definition PreviousCredentialFile :: bytes where [go_defs]: "PreviousCredentialFile = ''agent.pem.prev''"

definition with_newline :: "bytes \<Rightarrow> bytes" where
  "with_newline part = (if part \<noteq> [] \<and> last part \<noteq> CHR 0x0A then part @ [CHR 0x0A] else part)"

definition combineCredential :: "bytes \<Rightarrow> bytes \<Rightarrow> bytes" where
  "combineCredential certPEM keyPEM = concat (map with_newline [keyPEM, certPEM])"

datatype credential_error = CredentialMismatch | CredentialNotKept fs_op | CredentialNotWritten fs_op

text \<open>\<open>pair\<close> is \<open>tls.X509KeyPair\<close> of a file with itself; the two writes have an io each. The first step keeps
  the superseded pair.\<close>

definition keep_superseded :: "bytes \<Rightarrow> write_io \<Rightarrow> fs \<Rightarrow> (fs_op, unit) result \<times> fs" where
  "keep_superseded dir io s = (case read_file s (join dir CredentialFile) of
      None \<Rightarrow> (Inr (), s)
    | Some existing \<Rightarrow> if existing = [] then (Inr (), s)
        else write_file io (join dir PreviousCredentialFile) existing s)"

definition WriteCredential :: "(bytes \<Rightarrow> 'c option) \<Rightarrow> bytes \<Rightarrow> write_io \<Rightarrow> write_io \<Rightarrow> bytes \<Rightarrow> bytes \<Rightarrow> fs \<Rightarrow>
    (credential_error, unit) result \<times> fs" where
  "WriteCredential pair dir io1 io2 certPEM keyPEM s =
     (let combined = combineCredential certPEM keyPEM in
      if pair combined = None then (Inl CredentialMismatch, s)
      else case keep_superseded dir io1 s of
        (Inl op, s1) \<Rightarrow> (Inl (CredentialNotKept op), s1)
      | (Inr _, s1) \<Rightarrow> (case write_file io2 (join dir CredentialFile) combined s1 of
            (Inl op, s2) \<Rightarrow> (Inl (CredentialNotWritten op), s2)
          | (Inr _, s2) \<Rightarrow> (Inr (), s2)))"

text \<open>\<open>rd\<close> reads a file.\<close>

fun load_first :: "(bytes \<Rightarrow> 'c option) \<Rightarrow> (path \<Rightarrow> bytes option) \<Rightarrow> path list \<Rightarrow> 'c option" where
  "load_first pair rd [] = None"
| "load_first pair rd (p # ps) = (case rd p of
      None \<Rightarrow> load_first pair rd ps
    | Some raw \<Rightarrow> (case pair raw of None \<Rightarrow> load_first pair rd ps | Some cert \<Rightarrow> Some cert))"

definition LoadCredential :: "(bytes \<Rightarrow> 'c option) \<Rightarrow> bytes \<Rightarrow> (path \<Rightarrow> bytes option) \<Rightarrow> 'c option" where
  "LoadCredential pair dir rd = load_first pair rd [join dir CredentialFile, join dir PreviousCredentialFile]"

section \<open>The control plane's key\<close>

definition OnlineKeyFile :: bytes where [go_defs]: "OnlineKeyFile = ''online-key''"

datatype online_error = OnlineUnusable signing_error | OnlineNotWritten fs_op

text \<open>What there is to write, if anything.\<close>

definition online_update :: "crypto \<Rightarrow> bytes \<Rightarrow> bytes \<Rightarrow> fs \<Rightarrow> (online_error, bytes option) result" where
  "online_update cr dir raw_line s =
     (let line = trim_space raw_line in
      if line = [] then Inr None
      else case ParseSigners cr line ''the control plane'' of
        Inl e \<Rightarrow> Inl (OnlineUnusable e)
      | Inr _ \<Rightarrow>
          if map_option trim_space (read_file s (join dir OnlineKeyFile)) = Some line then Inr None
          else Inr (Some (line @ [CHR 0x0A])))"

definition StoreOnlineKey :: "crypto \<Rightarrow> bytes \<Rightarrow> write_io \<Rightarrow> bytes \<Rightarrow> fs \<Rightarrow> (online_error, unit) result \<times> fs" where
  "StoreOnlineKey cr dir io raw_line s = (case online_update cr dir raw_line s of
      Inl e \<Rightarrow> (Inl e, s)
    | Inr None \<Rightarrow> (Inr (), s)
    | Inr (Some d) \<Rightarrow> (case write_file io (join dir OnlineKeyFile) d s of
          (Inl op, s') \<Rightarrow> (Inl (OnlineNotWritten op), s')
        | (Inr _, s') \<Rightarrow> (Inr (), s')))"

text \<open>The file is absent, unreadable or has contents; an error comes with the empty set.\<close>

definition LoadOnlineKey :: "crypto \<Rightarrow> bytes \<Rightarrow> signers_file \<Rightarrow> signer_set \<times> signing_error option" where
  "LoadOnlineKey cr path f = (case f of
      SignersAbsent \<Rightarrow> (\<lparr>keys = [], set_source = []\<rparr>, None)
    | SignersUnreadable \<Rightarrow> (\<lparr>keys = [], set_source = []\<rparr>, Some ReadFailed)
    | SignersText t \<Rightarrow> (case ParseSigners cr t path of
          Inl e \<Rightarrow> (\<lparr>keys = [], set_source = []\<rparr>, Some e)
        | Inr ks \<Rightarrow> (ks, None)))"

section \<open>Renewal\<close>

text \<open>\<open>tls.X509KeyPair\<close> and the leaf's validity; \<open>fraction\<close> is the product with \<open>ca.RenewAfterFraction\<close>, which is
  taken in floating point.\<close>

record 'c certificates =
  cs_pair :: "bytes \<Rightarrow> 'c option"
  cs_leaf :: "'c \<Rightarrow> (instant \<times> instant) option"
  cs_fraction :: "duration \<Rightarrow> duration"

definition CredentialLeaf :: "'c certificates \<Rightarrow> bytes \<Rightarrow> fs \<Rightarrow> (instant \<times> instant) option" where
  "CredentialLeaf cs dir s = Option.bind (LoadCredential (cs_pair cs) dir (read_file s)) (cs_leaf cs)"

definition RenewAt :: "'c certificates \<Rightarrow> instant \<times> instant \<Rightarrow> instant" where
  "RenewAt cs leaf = (case leaf of (notBefore, notAfter) \<Rightarrow> notBefore + cs_fraction cs (time_sub notAfter notBefore))"

text \<open>What a renewal meets: the clock, the jitter, the new key with its request, the answer (certificate and
  CA bundle), and the writes.\<close>

record renew_io =
  rn_now :: instant
  rn_jitter :: duration
  rn_keyPEM :: "bytes option"
  rn_reply :: "(call_error, bytes \<times> bytes) result"
  rn_prev_io :: write_io
  rn_cur_io :: write_io
  rn_ca_io :: write_io

definition CABundleFile :: bytes where [go_defs]: "CABundleFile = ''ca.crt''"

definition renewal_due :: "'c certificates \<Rightarrow> bytes \<Rightarrow> renew_io \<Rightarrow> fs \<Rightarrow> bool" where
  "renewal_due cs dir io s = (case CredentialLeaf cs dir s of
      None \<Rightarrow> False
    | Some leaf \<Rightarrow> \<not> rn_now io < RenewAt cs leaf + rn_jitter io)"

text \<open>\<open>Client.Renew\<close>: an answer without a certificate is a failure.\<close>

definition Renew :: "(call_error, bytes \<times> bytes) result \<Rightarrow> (call_error, bytes \<times> bytes) result" where
  "Renew answer = (case answer of
      Inl e \<Rightarrow> Inl e
    | Inr (cert, ca) \<Rightarrow> if cert = [] then Inl TransportError else Inr (cert, ca))"

definition maybeRenew :: "'c certificates \<Rightarrow> bytes \<Rightarrow> renew_io \<Rightarrow> fs \<Rightarrow> fs" where
  "maybeRenew cs dir io s =
     (if \<not> renewal_due cs dir io s then s
      else case rn_keyPEM io of
        None \<Rightarrow> s
      | Some keyPEM \<Rightarrow> (case Renew (rn_reply io) of
          Inl _ \<Rightarrow> s
        | Inr (cert, ca) \<Rightarrow> (case WriteCredential (cs_pair cs) dir (rn_prev_io io) (rn_cur_io io) cert keyPEM s of
              (Inl _, s1) \<Rightarrow> s1
            | (Inr _, s1) \<Rightarrow> if ca = [] then s1 else snd (write_file (rn_ca_io io) (join dir CABundleFile) ca s1))))"

section \<open>A usable pair at every moment\<close>

lemma credential_paths:
  "join dir CredentialFile \<noteq> join dir PreviousCredentialFile"
  by (simp add: join_def go_defs)

text \<open>The states in which the machine can stop: those the two writes pass through and those after them.\<close>

definition credential_visits :: "(bytes \<Rightarrow> 'c option) \<Rightarrow> bytes \<Rightarrow> write_io \<Rightarrow> write_io \<Rightarrow> bytes \<Rightarrow> bytes \<Rightarrow> fs \<Rightarrow> fs list" where
  "credential_visits pair dir io1 io2 certPEM keyPEM s =
     (let combined = combineCredential certPEM keyPEM;
          during = (\<lambda>io p d s. visited (wr_fault io) (write_ops Rename (wr_tmp io) p d) s @ [snd (write_file io p d s)]) in
      if pair combined = None then [s]
      else (case read_file s (join dir CredentialFile) of
              None \<Rightarrow> [s] | Some existing \<Rightarrow> if existing = [] then [s] else during io1 (join dir PreviousCredentialFile) existing s) @
        (case keep_superseded dir io1 s of
           (Inl _, _) \<Rightarrow> [] | (Inr _, s1) \<Rightarrow> during io2 (join dir CredentialFile) combined s1))"

lemma load_current: "rd (join dir CredentialFile) = Some raw \<Longrightarrow> pair raw \<noteq> None \<Longrightarrow> LoadCredential pair dir rd \<noteq> None"
  by (auto simp: LoadCredential_def)

lemma write_crash:
  assumes "wr_tmp io \<noteq> p" "settled s0 p" "crash s x"
    and "s \<in> set (visited (wr_fault io) (write_ops Rename (wr_tmp io) p d) s0) \<or> s = snd (write_file io p d s0)"
  shows "x p = read_file s0 p \<or> x p = Some d"
proof -
  have "old_or_new s0 p d s"
  proof (cases "s = snd (write_file io p d s0)")
    case True
    obtain r s1 where s1: "run_ops (wr_fault io) (write_ops Rename (wr_tmp io) p d) s0 = (r, s1)" by fastforce
    with True assms(1) have "live s p = live s1 p" "disk s p = disk s1 p"
      by (auto simp: write_file_def WriteFileAtomic_def remove_temp_def split: if_splits)
    with renaming.write_result(2-4) [OF assms(1) s1] show ?thesis by (auto simp: old_or_new_def)
  next
    case False
    with assms(4) renaming.write_visits [OF assms(1)] show ?thesis by blast
  qed
  from crash_old_or_new [OF assms(2) this assms(3)] show ?thesis by (simp add: read_file_def)
qed

lemma credential_visits_cases:
  assumes "v \<in> set (credential_visits pair dir io1 io2 certPEM keyPEM s)" "read_file s (join dir CredentialFile) = Some raw"
  obtains "v = s"
  | "v \<in> set (visited (wr_fault io1) (write_ops Rename (wr_tmp io1) (join dir PreviousCredentialFile) raw) s @
        [snd (write_file io1 (join dir PreviousCredentialFile) raw s)])"
  | s1 where "keep_superseded dir io1 s = (Inr (), s1)" "pair (combineCredential certPEM keyPEM) \<noteq> None"
      "v \<in> set (visited (wr_fault io2) (write_ops Rename (wr_tmp io2) (join dir CredentialFile) (combineCredential certPEM keyPEM)) s1 @
        [snd (write_file io2 (join dir CredentialFile) (combineCredential certPEM keyPEM) s1)])"
proof -
  obtain r s1 where k: "keep_superseded dir io1 s = (r, s1)" by fastforce
  show thesis
  proof (cases r)
    case (Inl op)
    with k assms that(1,2) show thesis by (simp add: credential_visits_def Let_def split: if_splits)
  next
    case (Inr u)
    with k assms that(1,2) that(3) [of s1] show thesis
      by (simp add: credential_visits_def Let_def split: if_splits) blast+
  qed
qed

text \<open>Property C26: if \<open>agent.pem\<close> is on disk and holds a usable pair when a renewal starts, then whichever call of the
  renewal fails and wherever the machine stops, a process that runs on and one that starts after the stop both load
  a certificate with its key. (The condition is needed: \<open>renewal_can_lose_fallback\<close>.)\<close>

theorem credential_always_loadable:
  assumes tmp: "wr_tmp io1 \<notin> {join dir CredentialFile, join dir PreviousCredentialFile}"
      "wr_tmp io2 \<notin> {join dir CredentialFile, join dir PreviousCredentialFile}"
    and now: "settled s (join dir CredentialFile)" "read_file s (join dir CredentialFile) = Some raw" "pair raw \<noteq> None"
    and stop: "v \<in> set (credential_visits pair dir io1 io2 certPEM keyPEM s)" "crash v x"
  shows "LoadCredential pair dir x \<noteq> None"
proof -
  let ?cur = "join dir CredentialFile" and ?prev = "join dir PreviousCredentialFile"
  let ?new = "combineCredential certPEM keyPEM"
  have kept: "settled t ?cur \<and> read_file t ?cur = Some raw" if "beside s ?cur t" for t
    using beside_settled [OF now(1) that] now(2) by (simp add: read_file_def)
  have old: ?thesis if "settled v ?cur" "read_file v ?cur = Some raw"
    using settled_crash [OF that(1) stop(2)] that(2) now(3) by (intro load_current [of _ _ raw]) auto
  have first: ?thesis if "v \<in> set (visited (wr_fault io1) (write_ops Rename (wr_tmp io1) ?prev raw) s @
      [snd (write_file io1 ?prev raw s)])"
  proof -
    have "beside s ?cur v"
      using that beside_visited [of ?cur "wr_tmp io1" ?prev v "wr_fault io1" raw s] tmp(1) credential_paths [of dir]
        beside_written [of ?cur io1 ?prev raw s] by (cases "write_file io1 ?prev raw s") auto
    with kept old show ?thesis by blast
  qed
  have second: ?thesis if k: "keep_superseded dir io1 s = (Inr (), s1)" "pair ?new \<noteq> None" and
    v: "v \<in> set (visited (wr_fault io2) (write_ops Rename (wr_tmp io2) ?cur ?new) s1 @ [snd (write_file io2 ?cur ?new s1)])" for s1
  proof -
    have "beside s ?cur s1"
    proof (cases "raw = []")
      case True
      with k(1) now(1,2) show ?thesis by (auto simp: keep_superseded_def beside_def settled_def)
    next
      case False
      with k(1) now(2) have "write_file io1 ?prev raw s = (Inr (), s1)" by (simp add: keep_superseded_def)
      with beside_written [OF _ credential_paths this] tmp(1) show ?thesis by auto
    qed
    with kept have s1: "settled s1 ?cur" "read_file s1 ?cur = Some raw" by auto
    have "x ?cur = Some raw \<or> x ?cur = Some ?new"
      using write_crash [of io2 ?cur s1 v x ?new] tmp(2) s1 stop(2) v by auto
    then show ?thesis
      using load_current [of x dir raw pair] load_current [of x dir ?new pair] now(3) k(2) by blast
  qed
  show ?thesis
    by (rule credential_visits_cases [OF stop(1) now(2)]) (use old now(1,2) in blast, erule first, erule (2) second)
qed

section \<open>A credential at work\<close>

text \<open>Pairs are files that name them.\<close>

definition demo_pair :: "bytes \<Rightarrow> unit option" where
  "demo_pair raw = (if raw \<in> {''old'', ''key'' @ [CHR 0x0A] @ ''new'' @ [CHR 0x0A]} then Some () else None)"

definition demo_state_dir :: "(path \<rightharpoonup> entry) \<Rightarrow> fs" where
  "demo_state_dir m = \<lparr>live = m, disk = m\<rparr>"

definition demo_write :: "bytes \<Rightarrow> write_io" where
  "demo_write t = \<lparr>wr_fault = None, wr_tmp = t\<rparr>"

lemma demo_combined: "combineCredential ''new'' ''key'' = ''key'' @ [CHR 0x0A] @ ''new'' @ [CHR 0x0A]"
  by (simp add: combineCredential_def with_newline_def)

lemma demo_pair_values: "demo_pair ''old'' = Some ()" "demo_pair (combineCredential ''new'' ''key'') = Some ()"
  "demo_pair ''torn'' = None"
  by (simp_all add: demo_pair_def demo_combined)

text \<open>The machine stops right after the rename of the second write, before the directory is synced.\<close>

theorem credential_always_loadable_witness:
  "let s = demo_state_dir (Map.empty(''d/agent.pem'' \<mapsto> (''old'', True)));
       vs = credential_visits demo_pair ''d'' (demo_write ''d/t1'') (demo_write ''d/t2'') ''new'' ''key'' s
   in \<exists>v \<in> set vs. read_file v ''d/agent.pem'' = Some (combineCredential ''new'' ''key'') \<and>
     disk v ''d/agent.pem'' = Some (''old'', True) \<and> LoadCredential demo_pair ''d'' (read_file v) \<noteq> None"
proof -
  let ?s = "demo_state_dir (Map.empty(''d/agent.pem'' \<mapsto> (''old'', True)))"
  let ?vs = "credential_visits demo_pair ''d'' (demo_write ''d/t1'') (demo_write ''d/t2'') ''new'' ''key'' ?s"
  have join: "join ''d'' CredentialFile = ''d/agent.pem''" "join ''d'' PreviousCredentialFile = ''d/agent.pem.prev''"
    by (simp_all add: join_def go_defs)
  have "\<exists>v \<in> set ?vs. live v ''d/agent.pem'' = Some (combineCredential ''new'' ''key'', True) \<and>
      disk v ''d/agent.pem'' = Some (''old'', True)"
    by (simp add: credential_visits_def Let_def demo_pair_values join keep_superseded_def read_file_def demo_state_dir_def
        demo_write_def write_file_def WriteFileAtomic_def write_ops_def remove_temp_def)
  then obtain v where v: "v \<in> set ?vs" "live v ''d/agent.pem'' = Some (combineCredential ''new'' ''key'', True)"
    "disk v ''d/agent.pem'' = Some (''old'', True)" by blast
  have loads: "LoadCredential demo_pair ''d'' x \<noteq> None" if "crash v x" for x
    using that by (intro credential_always_loadable [OF _ _ _ _ _ v(1), of "''old''"])
      (simp_all add: join settled_def read_file_def demo_state_dir_def demo_write_def demo_pair_values)
  have "crash v (read_file v)"
    by (auto simp: crash_def crash_entry_def read_file_def split: option.splits)
  with loads v show ?thesis by (auto simp: Let_def read_file_def intro!: bexI [of _ v])
qed

text \<open>Where the current file is no usable pair, the step that keeps it overwrites the usable one beside it, and
  a stop before the new pair is in place leaves none.\<close>

theorem renewal_can_lose_fallback:
  "let s = demo_state_dir (Map.empty(''d/agent.pem'' \<mapsto> (''torn'', True), ''d/agent.pem.prev'' \<mapsto> (''old'', True)))
   in LoadCredential demo_pair ''d'' (read_file s) \<noteq> None \<and>
     (\<exists>v \<in> set (credential_visits demo_pair ''d'' (demo_write ''d/t1'') (demo_write ''d/t2'') ''new'' ''key'' s).
        LoadCredential demo_pair ''d'' (read_file v) = None)"
proof -
  have join: "join ''d'' CredentialFile = ''d/agent.pem''" "join ''d'' PreviousCredentialFile = ''d/agent.pem.prev''"
    by (simp_all add: join_def go_defs)
  show ?thesis
    by (simp add: Let_def credential_visits_def demo_pair_values join keep_superseded_def read_file_def demo_state_dir_def
        demo_write_def write_file_def WriteFileAtomic_def write_ops_def remove_temp_def LoadCredential_def)
qed

end
