(* ===== verification/AgentLoop.thy ===== *)
theory AgentLoop
  imports Credential
begin

text \<open>
  \<open>internal/agent/agent.go\<close> and \<open>backoff.go\<close>: pacing and the main loop. A pass of the loop is \<open>loop_pass\<close>;
  what it reads from outside (collectors, the control plane's answers, random numbers) is its
  argument. \<open>loop_reach\<close> are the states of a running agent, whatever it is told.
\<close>

section \<open>Backoff\<close>

record backoff =
  Base :: duration
  Cap :: duration
  bo_attempt :: nat

definition NewBackoff :: backoff where
  "NewBackoff = \<lparr>Base = Second, Cap = 5 * Minute, bo_attempt = 0\<rparr>"

text \<open>\<open>math.Pow(2, n)\<close> and its product with the base are exact as long as they are finite, and an infinite
  product is cut to the cap like any large one.\<close>

definition ceiling :: "backoff \<Rightarrow> duration" where
  "ceiling b = (let c = Base b * 2 ^ bo_attempt b in if c > Cap b then Cap b else c)"

text \<open>\<open>rnd c\<close> is the value of \<open>time.Duration(rand.Float64() * c)\<close>.\<close>

definition Next :: "(duration \<Rightarrow> duration) \<Rightarrow> backoff \<Rightarrow> duration \<times> backoff" where
  "Next rnd b = (rnd (ceiling b), b\<lparr>bo_attempt := Suc (bo_attempt b)\<rparr>)"

definition Reset :: "backoff \<Rightarrow> backoff" where
  "Reset b = b\<lparr>bo_attempt := 0\<rparr>"

text \<open>The fraction is a tenth or one where the agent calls it; it is given in tenths.\<close>

definition Jitter :: "(duration \<Rightarrow> duration) \<Rightarrow> duration \<Rightarrow> int \<Rightarrow> duration" where
  "Jitter rnd interval tenths =
     (if tenths \<le> 0 \<or> interval \<le> 0 then 0 else rnd (interval * tenths div 10))"

text \<open>What \<open>rand.Float64\<close>, between zero and one, guarantees of such a product.\<close>

definition uniform :: "(duration \<Rightarrow> duration) \<Rightarrow> bool" where
  "uniform rnd \<longleftrightarrow> (\<forall>c \<ge> 0. 0 \<le> rnd c \<and> rnd c \<le> c)"

section \<open>One cycle\<close>

definition DefaultHeartbeatSeconds :: int where [go_defs]: "DefaultHeartbeatSeconds = 60"

record heartbeat_response =
  ServerTime :: instant
  NextHeartbeatSeconds :: int
  WantFullReport :: bool
  WantFacts :: bool
  WantPolicy :: bool
  WantSigners :: bool
  OnlineKey :: bytes

record agent =
  ag_heartbeatSeconds :: int
  ag_clockOffset :: duration
  ag_backoff :: backoff

definition NewAgent :: agent where
  "NewAgent = \<lparr>ag_heartbeatSeconds = DefaultHeartbeatSeconds, ag_clockOffset = 0, ag_backoff = NewBackoff\<rparr>"

text \<open>What the agent takes over from a heartbeat response; \<open>now\<close> is the clock when it arrives.\<close>

definition heard :: "instant \<Rightarrow> heartbeat_response \<Rightarrow> agent \<Rightarrow> agent" where
  "heard now res a =
     (let a1 = (if ServerTime res \<noteq> 0 then a\<lparr>ag_clockOffset := time_sub now (ServerTime res)\<rparr> else a)
      in if NextHeartbeatSeconds res > 0
         then a1\<lparr>ag_heartbeatSeconds := ClampHeartbeatSeconds (NextHeartbeatSeconds res)\<rparr> else a1)"

text \<open>What a cycle meets: whether the heartbeat could be built, the control plane's answer to it, the write and
  the reading of the cached online key, the renewal, and the answer to the poll. \<open>cy_runner\<close> has what the
  cycle read before it (policy and trust anchor).\<close>

record cycle_io =
  cy_built :: bool
  cy_reply :: "(call_error, heartbeat_response) result"
  cy_now :: instant
  cy_online_io :: write_io
  cy_online_unreadable :: bool
  cy_renew :: renew_io
  cy_runner :: runner
  cy_polled :: "(call_error, (job \<times> job_io) list) result"

text \<open>What does not change while the agent runs.\<close>

record 'c installation =
  su_crypto :: crypto
  su_codec :: "run_failure codec"
  su_certificates :: "'c certificates"
  su_dir :: bytes

text \<open>What the agent keeps: its nonces, its spool and its other files.\<close>

record kept =
  kp_nonces :: nonce_state
  kp_spool :: spool
  kp_fs :: fs

definition online_file :: "bytes \<Rightarrow> bool \<Rightarrow> fs \<Rightarrow> signers_file" where
  "online_file dir unreadable s = (case read_file s (join dir OnlineKeyFile) of
      None \<Rightarrow> SignersAbsent
    | Some t \<Rightarrow> if unreadable then SignersUnreadable else SignersText t)"

text \<open>\<open>cycle\<close>: whether the next beat is full and the error, the agent, what was polled and run, and what the
  agent keeps. The error of a heartbeat that could not be built is none of HTTP.\<close>

definition cycle :: "'c installation \<Rightarrow> bool \<Rightarrow> cycle_io \<Rightarrow> kept \<Rightarrow> agent \<Rightarrow> (bool \<times> call_error option) \<times> agent \<times> polled list \<times> kept" where
  "cycle su wantFull io k a =
     (if \<not> cy_built io then ((wantFull, Some TransportError), a, [], k)
      else case cy_reply io of
        Inl e \<Rightarrow> ((wantFull, Some e), a, [], k)
      | Inr res \<Rightarrow>
          let a' = heard (cy_now io) res a;
              s1 = snd (StoreOnlineKey (su_crypto su) (su_dir su) (cy_online_io io) (OnlineKey res) (kp_fs k));
              online = fst (LoadOnlineKey (su_crypto su) (join (su_dir su) OnlineKeyFile)
                 (online_file (su_dir su) (cy_online_unreadable io) s1));
              s2 = maybeRenew (su_certificates su) (su_dir su) (cy_renew io) s1;
              r = (cy_runner io)\<lparr>Online := Some online, Nonces_of := kp_nonces k, ClockOffset := ag_clockOffset a'\<rparr>
          in case pollAndRun (su_crypto su) (su_codec su) r (cy_polled io) (kp_spool k) of (ps, nonces, sp) \<Rightarrow>
            ((WantFullReport res \<or> WantFacts res \<or> WantPolicy res \<or> WantSigners res, None), a', ps,
             \<lparr>kp_nonces = nonces, kp_spool = sp, kp_fs = s2\<rparr>))"

section \<open>The loop\<close>

datatype pause = SleepFor duration | StopForGood

definition after_cycle :: "(duration \<Rightarrow> duration) \<Rightarrow> call_error option \<Rightarrow> agent \<Rightarrow> pause \<times> agent" where
  "after_cycle rnd err a = (case err of
      None \<Rightarrow>
        let interval = duration_mul (ag_heartbeatSeconds a) Second
        in (SleepFor (interval + Jitter rnd interval 1), a\<lparr>ag_backoff := Reset (ag_backoff a)\<rparr>)
    | Some e \<Rightarrow>
        if IsUnauthorised e then (StopForGood, a)
        else case Next rnd (ag_backoff a) of (delay, b) \<Rightarrow>
          (SleepFor (if RetryAfter e > 0 then RetryAfter e else delay), a\<lparr>ag_backoff := b\<rparr>))"

text \<open>The agent between two passes: the agent, whether the next beat is full, and what it keeps.\<close>

record loop_state =
  lp_agent :: agent
  lp_wantFull :: bool
  lp_kept :: kept

definition loop_pass :: "'c installation \<Rightarrow> (duration \<Rightarrow> duration) \<Rightarrow> cycle_io \<Rightarrow> loop_state \<Rightarrow> pause \<times> polled list \<times> loop_state" where
  "loop_pass su rnd io s =
     (case cycle su (lp_wantFull s) io (lp_kept s) (lp_agent s) of
        ((want, err), a, ps, k) \<Rightarrow>
          case after_cycle rnd err a of (p, a') \<Rightarrow> (p, ps, \<lparr>lp_agent = a', lp_wantFull = want, lp_kept = k\<rparr>))"

text \<open>The start of \<open>Run\<close>: held results go out first, and the first beat is a full report.\<close>

definition loop_start :: "'c installation \<Rightarrow> spool_io \<Rightarrow> (nat \<Rightarrow> deliver_io) \<Rightarrow> kept \<Rightarrow> run_failure report list \<times> loop_state" where
  "loop_start su io env k = (case DeliverPending (su_codec su) io env (kp_spool k) of (sent, sp) \<Rightarrow>
     (sent, \<lparr>lp_agent = NewAgent, lp_wantFull = True, lp_kept = k\<lparr>kp_spool := sp\<rparr>\<rparr>))"

definition startup_jitter :: "(duration \<Rightarrow> duration) \<Rightarrow> bool \<Rightarrow> agent \<Rightarrow> duration option" where
  "startup_jitter rnd skip a =
     (if skip then None else Some (Jitter rnd (duration_mul (ag_heartbeatSeconds a) Second) 10))"

inductive loop_reach :: "'c installation \<Rightarrow> loop_state \<Rightarrow> bool" for su where
  started: "loop_start su io env k = (sent, s) \<Longrightarrow> loop_reach su s"
| passed: "loop_reach su s \<Longrightarrow> loop_pass su rnd io s = (SleepFor d, ps, s') \<Longrightarrow> loop_reach su s'"

section \<open>Small readings\<close>

fun digits_loop :: "int \<Rightarrow> bytes \<Rightarrow> int" where
  "digits_loop n [] = n"
| "digits_loop n (c # cs) =
     (if \<not> is_digit c then 0 else digits_loop (wrap64 (n * 10 + (int (bv c) - 48))) cs)"

text \<open>\<open>/proc/uptime\<close> and the boot id; \<open>None\<close> when the file cannot be read.\<close>

definition uptimeSeconds :: "bytes option \<Rightarrow> int" where
  "uptimeSeconds file_raw = (case file_raw of
      None \<Rightarrow> 0
    | Some raw \<Rightarrow> digits_loop 0 (fst (cut (CHR ''.'') (fst (cut (CHR '' '') (trim_space raw))))))"

definition bootID :: "bytes option \<Rightarrow> bytes" where
  "bootID raw = (case raw of None \<Rightarrow> [] | Some s \<Rightarrow> trim_space s)"

definition trimSlash :: "bytes \<Rightarrow> bytes" where
  "trimSlash url = rev (dropWhile (\<lambda>c. c = CHR ''/'') (rev url))"

record signer_summary =
  ss_KeyID :: bytes
  ss_Algorithm :: bytes
  ss_Backend :: bytes

definition signerViews :: "signer_set option \<Rightarrow> signer_summary list" where
  "signerViews signers = List.map (\<lambda>k. \<lparr>ss_KeyID = KeyID k, ss_Algorithm = Algorithm k, ss_Backend = Backend k\<rparr>) (set_Keys signers)"

section \<open>Pacing\<close>

definition paced :: "agent \<Rightarrow> bool" where
  "paced a \<longleftrightarrow> 15 \<le> ag_heartbeatSeconds a \<and> ag_heartbeatSeconds a \<le> 3600 \<and>
     Base (ag_backoff a) = Second \<and> Cap (ag_backoff a) = 5 * Minute"

lemma paced_NewAgent: "paced NewAgent"
  by (simp add: paced_def NewAgent_def NewBackoff_def DefaultHeartbeatSeconds_def)

lemma paced_heard: "paced a \<Longrightarrow> paced (heard now res a)"
  by (simp add: paced_def heard_def Let_def ClampHeartbeatSeconds_def MinHeartbeatSeconds_def MaxHeartbeatSeconds_def)

lemma paced_cycle: "paced a \<Longrightarrow> cycle su want io k a = (res, a', out) \<Longrightarrow> paced a'"
  using paced_heard by (auto simp: cycle_def Let_def split: if_splits sum.splits prod.splits)

lemma paced_after: "paced a \<Longrightarrow> after_cycle rnd err a = (p, a') \<Longrightarrow> paced a'"
  by (auto simp: after_cycle_def paced_def Next_def Reset_def Let_def split: option.splits if_splits)

lemma loop_pass_parts:
  assumes "loop_pass su rnd io s = (p, ps, s')"
  obtains want err a k a' where "cycle su (lp_wantFull s) io (lp_kept s) (lp_agent s) = ((want, err), a, ps, k)"
    "after_cycle rnd err a = (p, a')" "s' = \<lparr>lp_agent = a', lp_wantFull = want, lp_kept = k\<rparr>"
  using assms by (auto simp: loop_pass_def split: prod.splits)

lemma loop_reach_paced: "loop_reach su s \<Longrightarrow> paced (lp_agent s)"
proof (induction rule: loop_reach.induct)
  case (started io env k sent s)
  then show ?case using paced_NewAgent by (auto simp: loop_start_def split: prod.splits)
next
  case (passed s rnd io d ps s')
  obtain want err a k a' where c: "cycle su (lp_wantFull s) io (lp_kept s) (lp_agent s) = ((want, err), a, ps, k)"
    "after_cycle rnd err a = (SleepFor d, a')" "s' = \<lparr>lp_agent = a', lp_wantFull = want, lp_kept = k\<rparr>"
    using passed.hyps(2) by (rule loop_pass_parts)
  from paced_after [OF paced_cycle [OF passed.IH c(1)] c(2)] c(3) show ?case by simp
qed

lemma ceiling_bounds: "Base b = Second \<Longrightarrow> Cap b = 5 * Minute \<Longrightarrow> 0 \<le> ceiling b \<and> ceiling b \<le> 5 * Minute"
  by (auto simp: ceiling_def Let_def Second_def Minute_def)

lemma after_cycle_pause:
  assumes "paced a" "uniform rnd" "after_cycle rnd err a = (p, a')"
  shows "(p = StopForGood \<longleftrightarrow> (\<exists>e. err = Some e \<and> IsUnauthorised e)) \<and>
    (\<forall>d. p = SleepFor d \<longrightarrow>
      (case err of None \<Rightarrow> 15 * Second \<le> d \<and> d \<le> 3960 * Second
       | Some e \<Rightarrow> if RetryAfter e > 0 then d = RetryAfter e else 0 \<le> d \<and> d \<le> 5 * Minute))"
proof (cases err)
  case None
  have i: "duration_mul (ag_heartbeatSeconds a) Second = ag_heartbeatSeconds a * Second"
    using assms(1) by (simp add: duration_mul_def paced_def Second_def wrap64_mod)
  have "0 \<le> Jitter rnd (ag_heartbeatSeconds a * Second) 1 \<and> Jitter rnd (ag_heartbeatSeconds a * Second) 1 \<le> 360 * Second"
  proof -
    let ?c = "ag_heartbeatSeconds a * Second div 10"
    have "0 \<le> ?c" "?c \<le> 360 * Second" using assms(1) by (auto simp: paced_def Second_def)
    with assms(2) have "0 \<le> rnd ?c \<and> rnd ?c \<le> 360 * Second" by (force simp: uniform_def)
    then show ?thesis by (simp add: Jitter_def Second_def)
  qed
  with None i assms(1,3) show ?thesis
    by (auto simp: after_cycle_def Let_def paced_def Second_def)
next
  case (Some e)
  have "0 \<le> rnd (ceiling (ag_backoff a)) \<and> rnd (ceiling (ag_backoff a)) \<le> 5 * Minute"
    using ceiling_bounds [of "ag_backoff a"] assms(1,2) by (force simp: uniform_def paced_def)
  with Some assms(3) show ?thesis by (auto simp: after_cycle_def Next_def split: if_splits)
qed

text \<open>Whatever the control plane answers, the agent waits between a quarter of a minute and eleven tenths of
  an hour after a cycle that succeeded and at most five minutes after one that failed, with one
  exception: a \<open>Retry-After\<close> is obeyed whatever it says. It stops exactly when its certificate is
  rejected.\<close>

theorem pacing_clamped:
  assumes "loop_reach su s" "uniform rnd" "loop_pass su rnd io s = (p, ps, s')"
  defines "err \<equiv> snd (fst (cycle su (lp_wantFull s) io (lp_kept s) (lp_agent s)))"
  shows "(p = StopForGood \<longleftrightarrow> (\<exists>e. err = Some e \<and> IsUnauthorised e)) \<and>
    (\<forall>d. p = SleepFor d \<longrightarrow>
      (case err of None \<Rightarrow> 15 * Second \<le> d \<and> d \<le> 3960 * Second
       | Some e \<Rightarrow> if RetryAfter e > 0 then d = RetryAfter e else 0 \<le> d \<and> d \<le> 5 * Minute))"
proof -
  obtain want er a k a' where c: "cycle su (lp_wantFull s) io (lp_kept s) (lp_agent s) = ((want, er), a, ps, k)"
    "after_cycle rnd er a = (p, a')" "s' = \<lparr>lp_agent = a', lp_wantFull = want, lp_kept = k\<rparr>"
    using assms(3) by (rule loop_pass_parts)
  from after_cycle_pause [OF paced_cycle [OF loop_reach_paced [OF assms(1)] c(1)] assms(2) c(2)] c(1)
  show ?thesis by (simp add: err_def)
qed

section \<open>What is polled is run\<close>

lemma poll_loop_life:
  assumes "poll_loop cr cd r jobs sp = (ps, nonces, sp')"
  shows "\<exists>log'. life cd \<lparr>lf_spool = sp, lf_log = log\<rparr> \<lparr>lf_spool = sp', lf_log = log'\<rparr>"
  using assms
proof (induction cr cd r jobs sp arbitrary: ps nonces sp' log rule: poll_loop.induct)
  case (1 cr cd r sp)
  then show ?case by (auto intro: life.born)
next
  case (2 cr cd r j io rest sp)
  show ?case
  proof (cases "ji_stopped io")
    case True
    with 2 show ?thesis by (auto intro: life.born)
  next
    case False
    define p where "p = run_polled cr cd r j io sp"
    obtain qs where rest: "poll_loop cr cd (r\<lparr>Nonces_of := po_nonces p\<rparr>) rest (po_after p) = (qs, nonces, sp')"
      using 2(2) False by (auto simp: Let_def p_def split: prod.splits)
    note round = run_polled_life [OF p_def, of log]
    from 2(1) [OF False p_def rest, of "(JobID (po_result p), ji_answer io) # log"]
    show ?thesis using life_trans [OF _ life_trans [OF round(2,1)]] by blast
  qed
qed

lemma Run_JobID:
  assumes "Run cr ae r j started finished = (res, st, evs)"
  shows "JobID res = ID j"
  using assms
  by (auto simp: Run_def run_accepted_def elevate_def run_read_def new_result_def Let_def
      split: sum.splits prod.splits option.splits if_splits)

text \<open>Every polled job is run once and in the order received, up to the first one at which the agent was told
  to stop, and ends in a result of its own.\<close>

theorem polled_jobs_run:
  "List.map (\<lambda>p. JobID (po_result p)) (fst (poll_loop cr cd r jobs sp)) =
   List.map (\<lambda>(j, _). ID j) (takeWhile (\<lambda>(_, io). \<not> ji_stopped io) jobs)"
proof (induction cr cd r jobs sp rule: poll_loop.induct)
  case (2 cr cd r j io rest sp)
  then show ?case
    using Run_JobID [OF run_polled_fields(1) [OF refl], of cr cd r j io sp] by (simp add: Let_def case_prod_beta)
qed simp

text \<open>A control plane that is down.\<close>

definition no_write :: write_io where
  "no_write = \<lparr>wr_fault = Some 0, wr_tmp = ''t''\<rparr>"

definition no_renewal :: renew_io where
  "no_renewal = \<lparr>rn_now = 0, rn_jitter = 0, rn_keyPEM = None, rn_reply = Inl TransportError, rn_prev_io = no_write,
     rn_cur_io = no_write, rn_ca_io = no_write\<rparr>"

definition demo_cycle_io :: cycle_io where
  "demo_cycle_io = \<lparr>cy_built = True, cy_reply = Inl (HTTPError 503 0), cy_now = 0, cy_online_io = no_write,
     cy_online_unreadable = False, cy_renew = no_renewal,
     cy_runner = sample_runner (\<lambda>_. (Inl InvokeFailed, [])), cy_polled = Inr []\<rparr>"

definition demo_setup :: "unit installation" where
  "demo_setup = \<lparr>su_crypto = toy_crypto, su_codec = \<lparr>encode = (\<lambda>_. None), decode = (\<lambda>_. None)\<rparr>,
     su_certificates = \<lparr>cs_pair = demo_pair, cs_leaf = (\<lambda>_. None), cs_fraction = (\<lambda>d. d * 2 div 3)\<rparr>, su_dir = ''d''\<rparr>"

definition demo_kept :: kept where
  "demo_kept = \<lparr>kp_nonces = no_nonces, kp_spool = empty_spool, kp_fs = demo_state_dir Map.empty\<rparr>"

theorem pacing_clamped_witness:
  "\<exists>s d ps s'. loop_reach demo_setup s \<and> loop_pass demo_setup (\<lambda>c. c) demo_cycle_io s = (SleepFor d, ps, s') \<and>
     0 \<le> d \<and> d \<le> 5 * Minute"
proof -
  obtain sent s where s: "loop_start demo_setup all_listed (\<lambda>_. unreachable) demo_kept = (sent, s)" by fastforce
  have r: "loop_reach demo_setup s" by (rule loop_reach.started [OF s])
  obtain p ps s' where pass: "loop_pass demo_setup (\<lambda>c. c) demo_cycle_io s = (p, ps, s')" by (rule prod_cases3)
  have "uniform (\<lambda>c. c)" by (simp add: uniform_def)
  from pacing_clamped [OF r this pass] have "p \<noteq> StopForGood \<and> (\<forall>d. p = SleepFor d \<longrightarrow> 0 \<le> d \<and> d \<le> 5 * Minute)"
    by (simp add: cycle_def demo_cycle_io_def)
  with r pass show ?thesis by (cases p) blast+
qed

end
