(* ===== verification/Enrolment.thy ===== *)
theory Enrolment
  imports AgentLoop
begin

text \<open>
  \<open>internal/agent/enroll.go\<close>, \<open>bootstrap.go\<close> and the salt of \<open>state.go\<close>: enrolling a host, with the one template it
  may apply. An enrolment is a chain of actions on the file system of theory \<open>Files\<close>; each leaves a
  trace of what it did with the file system at that moment, so that the machine can be stopped at
  any entry. \<open>keeps\<close> and \<open>silent\<close> are the two facts about an action the proofs compose.
\<close>

section \<open>Actions\<close>

datatype enrol_event =
    Touched path                      \<comment> \<open>a state inside or after a write of this file\<close>
  | Asked bytes bytes bytes           \<comment> \<open>the request to the control plane: token, machine hash, bootstrap name\<close>
  | Shown bytes                       \<comment> \<open>the text of a template, on the terminal\<close>
  | CloudInitStage "bytes list"
  | Adopted

type_synonym trace = "(enrol_event \<times> fs) list"

datatype enrol_error =
    MissingOptions | NoStateDir | LocalUnreadable bytes | LocalDiffers path | NoDirectory path | NotWritten path fs_op
  | AnchorUnreadable signing_error | ErrNoTrustAnchor | RecordPresent | RecordUnreadable | NoKey | NoClient
  | EnrollFailed | IncompleteResponse | BadHostID bytes | NoTemplate | WrongTemplate bytes | TemplateRefused verify_error
  | CredentialFailed credential_error | StateNotEncoded | RecordNotEncoded | RecordTaken | AdoptFailed
  | CloudInitFailed "bytes list"

type_synonym 'a act = "fs \<Rightarrow> (enrol_error, 'a) result \<times> trace \<times> fs"

definition give :: "'a \<Rightarrow> 'a act" where
  "give a = (\<lambda>s. (Inr a, [], s))"

definition refuse :: "enrol_error \<Rightarrow> 'a act" where
  "refuse e = (\<lambda>s. (Inl e, [], s))"

definition and_then :: "'a act \<Rightarrow> ('a \<Rightarrow> 'b act) \<Rightarrow> 'b act" where
  "and_then m f = (\<lambda>s. case m s of
      (Inl e, tr, s1) \<Rightarrow> (Inl e, tr, s1)
    | (Inr a, tr, s1) \<Rightarrow> (case f a s1 of (r, tr', s2) \<Rightarrow> (r, tr @ tr', s2)))"

definition check :: "bool \<Rightarrow> enrol_error \<Rightarrow> unit act" where
  "check ok e = (if ok then give () else refuse e)"

text \<open>An error that is only logged, and an action that runs whether or not the one before failed.\<close>

definition tolerate :: "unit act \<Rightarrow> unit act" where
  "tolerate m = (\<lambda>s. case m s of (_, tr, s1) \<Rightarrow> (Inr (), tr, s1))"

definition finally_do :: "'a act \<Rightarrow> unit act \<Rightarrow> 'a act" where
  "finally_do m f = (\<lambda>s. case m s of (r, tr, s1) \<Rightarrow> (case f s1 of (_, tr', s2) \<Rightarrow> (r, tr @ tr', s2)))"

definition note_event :: "enrol_event \<Rightarrow> unit act" where
  "note_event e = (\<lambda>s. (Inr (), [(e, s)], s))"

definition reading :: "(fs \<Rightarrow> 'a) \<Rightarrow> 'a act" where
  "reading f = (\<lambda>s. (Inr (f s), [], s))"

section \<open>What an enrolment meets\<close>

record enroll_options =
  o_ServerURL :: bytes
  o_Token :: bytes
  o_StateDir :: bytes
  o_SignersFile :: bytes
  o_PolicyFile :: bytes
  o_Bootstrap :: bytes

record enroll_response =
  er_HostID :: bytes
  er_Certificate :: bytes
  er_CABundle :: bytes
  er_OnlineKey :: bytes
  er_Bootstrap :: "bootstrap option"

text \<open>\<open>ei_write\<close> is how each file's write goes; \<open>ei_local\<close> are the administrator's files; the encodings of the
  two records are those of \<open>encoding/json\<close>.\<close>

record enroll_io =
  ei_crypto :: crypto
  ei_pair :: "bytes \<Rightarrow> unit option"
  ei_mkdir :: "path \<Rightarrow> bool"
  ei_local :: "bytes \<Rightarrow> bytes option"
  ei_unreadable :: "path \<Rightarrow> bool"
  ei_write :: "path \<Rightarrow> write_io"
  ei_key :: "(bytes \<times> bytes) option"
  ei_machine_id :: "bytes option"
  ei_salt :: "bytes option"
  ei_sha :: "bytes \<Rightarrow> bytes"
  ei_client :: bool
  ei_reply :: "(unit, enroll_response) result"
  ei_state :: "bytes \<Rightarrow> bytes \<Rightarrow> bytes option"
  ei_record :: "bootstrap \<Rightarrow> public_key \<Rightarrow> bytes option"
  ei_remove :: "path \<Rightarrow> bool"
  ei_adopt :: "bool \<Rightarrow> bool"
  ei_procs :: proc_world

section \<open>Writing\<close>

text \<open>A write with every state it passes through.\<close>

definition put_file :: "enroll_io \<Rightarrow> path \<Rightarrow> bytes \<Rightarrow> unit act" where
  "put_file io p d = (\<lambda>s.
     let w = ei_write io p;
         during = map (\<lambda>v. (Touched p, v)) (visited (wr_fault w) (write_ops Rename (wr_tmp w) p d) s) in
     case write_file w p d s of (r, s1) \<Rightarrow>
       (case r of Inl op \<Rightarrow> Inl (NotWritten p op) | Inr _ \<Rightarrow> Inr (), during @ [(Touched p, s1)], s1))"

definition put_new_file :: "enroll_io \<Rightarrow> path \<Rightarrow> bytes \<Rightarrow> unit act" where
  "put_new_file io p d = (\<lambda>s.
     let w = ei_write io p;
         during = map (\<lambda>v. (Touched p, v)) (visited (wr_fault w) (write_ops Link (wr_tmp w) p d) s) in
     case WriteFileExclusive (wr_fault w) (wr_tmp w) p d s of (r, s1) \<Rightarrow>
       (case r of Inl (Link _ _) \<Rightarrow> Inl RecordTaken | Inl op \<Rightarrow> Inl (NotWritten p op) | Inr _ \<Rightarrow> Inr (),
        during @ [(Touched p, s1)], s1))"

definition remove_file :: "enroll_io \<Rightarrow> path \<Rightarrow> unit act" where
  "remove_file io p = (\<lambda>s. if \<not> ei_remove io p then give () s else let s1 = s\<lparr>live := (live s)(p := None)\<rparr> in (Inr (), [(Touched p, s1)], s1))"

section \<open>Local files\<close>

definition TrustedSignersPath :: path where [go_defs]: "TrustedSignersPath = ''/etc/hostseal/trusted-signers''"
definition PolicyPath :: path where [go_defs]: "PolicyPath = ''/etc/hostseal/policy.toml''"

definition installLocalFile :: "enroll_io \<Rightarrow> bytes \<Rightarrow> path \<Rightarrow> unit act" where
  "installLocalFile io src dst = (case ei_local io src of
      None \<Rightarrow> refuse (LocalUnreadable src)
    | Some body \<Rightarrow>
        and_then (reading (\<lambda>s. if ei_unreadable io dst then None else read_file s dst)) (\<lambda>existing.
        case existing of
          Some (c # cs) \<Rightarrow> if c # cs = body then give () else refuse (LocalDiffers dst)
        | _ \<Rightarrow> if \<not> ei_mkdir io dst then refuse (NoDirectory dst) else put_file io dst body))"

definition trusted_signers :: "enroll_io \<Rightarrow> fs \<Rightarrow> signer_set option \<times> signing_error option" where
  "trusted_signers io s = LoadSignersFrom (ei_crypto io) TrustedSignersPath
     (case live s TrustedSignersPath of
        None \<Rightarrow> SignersAbsent
      | Some (t, _) \<Rightarrow> if ei_unreadable io TrustedSignersPath then SignersUnreadable else SignersText t)"

section \<open>The template\<close>

definition BootstrapRecordFile :: bytes where [go_defs]: "BootstrapRecordFile = ''bootstrap-applied.json''"

definition record_path :: "enroll_options \<Rightarrow> path" where
  "record_path opts = join (o_StateDir opts) BootstrapRecordFile"

definition checkBootstrapInterlock :: "enroll_io \<Rightarrow> enroll_options \<Rightarrow> unit act" where
  "checkBootstrapInterlock io opts = (\<lambda>s.
     if ei_unreadable io (record_path opts) then refuse RecordUnreadable s
     else if live s (record_path opts) \<noteq> None then refuse RecordPresent s
     else give () s)"

definition verifyBootstrap :: "enroll_io \<Rightarrow> enroll_options \<Rightarrow> signer_set option \<Rightarrow> bootstrap \<Rightarrow> public_key act" where
  "verifyBootstrap io opts signers b =
     and_then (checkBootstrapInterlock io opts) (\<lambda>_.
     if set_Empty signers then refuse ErrNoTrustAnchor
     else case decodeSignature (bs_Signature b) of
       Inl e \<Rightarrow> refuse (TemplateRefused e)
     | Inr signature \<Rightarrow> (case Marshal (bootstrap_SignedPayload b) of
         Inl e \<Rightarrow> refuse (TemplateRefused (PayloadNotCanonical e))
       | Inr payload \<Rightarrow> (case set_Verify (ei_crypto io) signers payload signature of
           Inl e \<Rightarrow> refuse (TemplateRefused (NotVerified e))
         | Inr key \<Rightarrow> and_then (note_event (Shown (bs_Body b))) (\<lambda>_. give key))))"

definition CloudInitSeedDir :: bytes where [go_defs]: "CloudInitSeedDir = ''/var/lib/cloud/seed/nocloud''"

definition cloudInitStages :: "bytes list list" where
  "cloudInitStages = [[''init'', ''--local''], [''init''], [''modules'', ''--mode=config''], [''modules'', ''--mode=final'']]"

definition writeSeed :: "enroll_io \<Rightarrow> bytes \<Rightarrow> bytes \<Rightarrow> unit act" where
  "writeSeed io hostID body =
     (if \<not> ValidHostID hostID then refuse (BadHostID hostID)
      else if \<not> ei_mkdir io CloudInitSeedDir then refuse (NoDirectory CloudInitSeedDir)
      else and_then (put_file io (join CloudInitSeedDir ''user-data'') body) (\<lambda>_.
        put_file io (join CloudInitSeedDir ''meta-data'')
          (''instance-id: hostseal-bootstrap-'' @ hostID @ [CHR 0x0A])))"

definition removeSeed :: "enroll_io \<Rightarrow> unit act" where
  "removeSeed io = and_then (remove_file io (join CloudInitSeedDir ''user-data'')) (\<lambda>_.
     remove_file io (join CloudInitSeedDir ''meta-data''))"

text \<open>Exit status 2 of cloud-init is a recoverable error.\<close>

fun run_stages :: "proc_world \<Rightarrow> bytes list list \<Rightarrow> unit act" where
  "run_stages w [] = give ()"
| "run_stages w (args # stages) =
     and_then (note_event (CloudInitStage args)) (\<lambda>_.
     case CommandWith w (zero_options\<lparr>Timeout := 15 * Minute\<rparr>) CloudInit args of
       (res, err, _) \<Rightarrow>
         if err = None \<or> (\<exists>r. res = Some r \<and> ExitCode r = 2) then run_stages w stages
         else refuse (CloudInitFailed args))"

definition runCloudInit :: "enroll_io \<Rightarrow> unit act" where
  "runCloudInit io = run_stages (ei_procs io) cloudInitStages"

definition applyBootstrap :: "enroll_io \<Rightarrow> enroll_options \<Rightarrow> bootstrap \<Rightarrow> public_key \<Rightarrow> bytes \<Rightarrow> unit act" where
  "applyBootstrap io opts b key hostID = (case ei_record io b key of
      None \<Rightarrow> refuse RecordNotEncoded
    | Some encoded \<Rightarrow>
        and_then (put_new_file io (record_path opts) encoded) (\<lambda>_.
        finally_do (and_then (writeSeed io hostID (bs_Body b)) (\<lambda>_. runCloudInit io)) (removeSeed io)))"

section \<open>The machine's identity\<close>

definition SaltFile :: bytes where [go_defs]: "SaltFile = ''machine-id-salt''"

definition loadOrCreateSalt :: "enroll_io \<Rightarrow> path \<Rightarrow> bytes act" where
  "loadOrCreateSalt io p =
     (if ei_unreadable io p then refuse (LocalUnreadable p)
      else and_then (reading (\<lambda>s. read_file s p)) (\<lambda>raw. case raw of
          Some (c # cs) \<Rightarrow> give (c # cs)
        | _ \<Rightarrow> (case ei_salt io of
              None \<Rightarrow> refuse NoKey
            | Some salt \<Rightarrow> and_then (put_file io p (b64_encode salt)) (\<lambda>_. give (b64_encode salt)))))"

text \<open>The hash goes out empty when it cannot be made.\<close>

definition MachineIDHash :: "enroll_io \<Rightarrow> bytes \<Rightarrow> bytes act" where
  "MachineIDHash io dir = (case ei_machine_id io of
      None \<Rightarrow> give []
    | Some i \<Rightarrow> (\<lambda>s. case loadOrCreateSalt io (join dir SaltFile) s of
        (Inl _, tr, s1) \<Rightarrow> (Inr [], tr, s1)
      | (Inr salt, tr, s1) \<Rightarrow> (Inr (SaltedDigest (ei_sha io) salt (trim_space i)), tr, s1)))"

section \<open>Enrolling\<close>

definition StateFile :: bytes where [go_defs]: "StateFile = ''agent.json''"

text \<open>Everything before the request: the administrator's files, the anchor and the interlock.\<close>

definition prepare :: "enroll_io \<Rightarrow> enroll_options \<Rightarrow> (signer_set option) act" where
  "prepare io opts =
     and_then (check (o_ServerURL opts \<noteq> [] \<and> o_Token opts \<noteq> []) MissingOptions) (\<lambda>_.
     and_then (check (ei_mkdir io (o_StateDir opts)) NoStateDir) (\<lambda>_.
     and_then (if o_SignersFile opts = [] then give () else installLocalFile io (o_SignersFile opts) TrustedSignersPath) (\<lambda>_.
     and_then (if o_PolicyFile opts = [] then give () else installLocalFile io (o_PolicyFile opts) PolicyPath) (\<lambda>_.
     if o_Bootstrap opts = [] then give None
     else and_then (reading (trusted_signers io)) (\<lambda>(signers, err).
       case err of
         Some e \<Rightarrow> refuse (AnchorUnreadable e)
       | None \<Rightarrow>
           if set_Empty signers then refuse ErrNoTrustAnchor
           else and_then (checkBootstrapInterlock io opts) (\<lambda>_. give signers))))))"

definition ask :: "enroll_io \<Rightarrow> enroll_options \<Rightarrow> enroll_response act" where
  "ask io opts =
     (if ei_key io = None then refuse NoKey
      else and_then (MachineIDHash io (o_StateDir opts)) (\<lambda>machine.
        if \<not> ei_client io then refuse NoClient
        else and_then (note_event (Asked (o_Token opts) machine (o_Bootstrap opts))) (\<lambda>_.
          case ei_reply io of
            Inl _ \<Rightarrow> refuse EnrollFailed
          | Inr res \<Rightarrow>
              if er_HostID res = [] \<or> er_Certificate res = [] then refuse IncompleteResponse
              else if \<not> ValidHostID (er_HostID res) then refuse (BadHostID (er_HostID res))
              else give res)))"

text \<open>The template and the key that signed it, when one was asked for.\<close>

definition template_of :: "enroll_io \<Rightarrow> enroll_options \<Rightarrow> signer_set option \<Rightarrow> enroll_response \<Rightarrow>
    ((bootstrap \<times> public_key) option) act" where
  "template_of io opts signers res =
     (if o_Bootstrap opts = [] then give None
      else case er_Bootstrap res of
        None \<Rightarrow> refuse NoTemplate
      | Some b \<Rightarrow>
          if bs_Name b \<noteq> o_Bootstrap opts then refuse (WrongTemplate (bs_Name b))
          else and_then (verifyBootstrap io opts signers b) (\<lambda>key. give (Some (b, key))))"

definition put_credential :: "enroll_io \<Rightarrow> bytes \<Rightarrow> bytes \<Rightarrow> bytes \<Rightarrow> unit act" where
  "put_credential io dir certPEM keyPEM = (\<lambda>s.
     let cur = join dir CredentialFile;
         w1 = ei_write io (join dir PreviousCredentialFile); w2 = ei_write io cur;
         during = map (\<lambda>v. (Touched cur, v)) (credential_visits (ei_pair io) dir w1 w2 certPEM keyPEM s) in
     case WriteCredential (ei_pair io) dir w1 w2 certPEM keyPEM s of
       (Inl e, s1) \<Rightarrow> (Inl (CredentialFailed e), during, s1)
     | (Inr _, s1) \<Rightarrow> (Inr (), during, s1))"

definition put_online :: "enroll_io \<Rightarrow> bytes \<Rightarrow> bytes \<Rightarrow> unit act" where
  "put_online io dir raw_line = (\<lambda>s. case online_update (ei_crypto io) dir raw_line s of
      Inr (Some d) \<Rightarrow> tolerate (put_file io (join dir OnlineKeyFile) d) s
    | _ \<Rightarrow> give () s)"

text \<open>What the host keeps of the answer.\<close>

definition settle_in :: "enroll_io \<Rightarrow> enroll_options \<Rightarrow> enroll_response \<Rightarrow> unit act" where
  "settle_in io opts res = (let dir = o_StateDir opts in
     case ei_key io of
       None \<Rightarrow> refuse NoKey
     | Some (keyPEM, _) \<Rightarrow>
         and_then (put_credential io dir (er_Certificate res) keyPEM) (\<lambda>_.
         and_then (if er_CABundle res = [] then give () else put_file io (join dir CABundleFile) (er_CABundle res)) (\<lambda>_.
         and_then (put_online io dir (er_OnlineKey res)) (\<lambda>_.
         case ei_state io (trimSlash (o_ServerURL opts)) (er_HostID res) of
           None \<Rightarrow> refuse StateNotEncoded
         | Some raw \<Rightarrow> and_then (put_file io (join dir StateFile) raw) (\<lambda>_.
             and_then (note_event Adopted) (\<lambda>_. check (ei_adopt io False) AdoptFailed))))))"

definition Enroll :: "enroll_io \<Rightarrow> enroll_options \<Rightarrow> bytes act" where
  "Enroll io opts =
     and_then (prepare io opts) (\<lambda>signers.
     and_then (ask io opts) (\<lambda>res.
     and_then (template_of io opts signers res) (\<lambda>template.
     and_then (settle_in io opts res) (\<lambda>_.
     and_then (case template of None \<Rightarrow> give () | Some (b, key) \<Rightarrow> applyBootstrap io opts b key (er_HostID res)) (\<lambda>_.
     and_then (note_event Adopted) (\<lambda>_.
     and_then (check (ei_adopt io True) AdoptFailed) (\<lambda>_. give (er_HostID res))))))))"

section \<open>Paths\<close>

lemma join_eq:
  assumes "CHR ''/'' \<notin> set a" "CHR ''/'' \<notin> set b"
  shows "join d a = join e b \<longleftrightarrow> d = e \<and> a = b"
proof -
  have split: "takeWhile (\<lambda>c. c \<noteq> CHR ''/'') (rev (join x y)) = rev y" if "CHR ''/'' \<notin> set y" for x y
  proof -
    have "takeWhile (\<lambda>c. c \<noteq> CHR ''/'') (rev y @ CHR ''/'' # rev x) = rev y"
      using that by (subst takeWhile_append2) auto
    then show ?thesis by (simp add: join_def)
  qed
  show ?thesis
  proof
    assume j: "join d a = join e b"
    with split [OF assms(1), of d] split [OF assms(2), of e] have "a = b" by (metis rev_rev_ident)
    with j show "d = e \<and> a = b" by (simp add: join_def)
  qed simp
qed

lemma fixed_paths:
  "TrustedSignersPath = join ''/etc/hostseal'' ''trusted-signers''" "PolicyPath = join ''/etc/hostseal'' ''policy.toml''"
  by (simp_all add: go_defs join_def)

text \<open>\<open>os.CreateTemp\<close> names the temporary files \<^verbatim>\<open>.hostseal-*\<close>.\<close>

definition temps_named :: "enroll_io \<Rightarrow> bool" where
  "temps_named io \<longleftrightarrow> (\<forall>p. \<exists>d n. wr_tmp (ei_write io p) = join d (''.hostseal-'' @ n) \<and> CHR ''/'' \<notin> set n)"

lemma temp_fresh:
  assumes "temps_named io" "CHR ''/'' \<notin> set name" "hd name \<noteq> CHR ''.''" "name \<noteq> []"
  shows "wr_tmp (ei_write io p) \<noteq> join dir name"
proof -
  obtain d n where "wr_tmp (ei_write io p) = join d (''.hostseal-'' @ n)" "CHR ''/'' \<notin> set n"
    using assms(1) unfolding temps_named_def by blast
  moreover have "''.hostseal-'' @ n \<noteq> name" using assms(3) by auto
  ultimately show ?thesis using assms(2) by (simp add: join_eq)
qed

section \<open>What actions leave alone\<close>

definition same_file :: "path \<Rightarrow> fs \<Rightarrow> fs \<Rightarrow> bool" where
  "same_file q s v \<longleftrightarrow> settled v q \<and> live v q = live s q"

text \<open>An action that leaves a settled file as it is, in every state of its trace.\<close>

definition keeps :: "path \<Rightarrow> 'a act \<Rightarrow> bool" where
  "keeps q m \<longleftrightarrow> (\<forall>s r tr s'. settled s q \<longrightarrow> m s = (r, tr, s') \<longrightarrow>
     same_file q s s' \<and> (\<forall>ev \<in> set tr. same_file q s (snd ev)))"

text \<open>An action that does not run cloud-init.\<close>

definition silent :: "'a act \<Rightarrow> bool" where
  "silent m \<longleftrightarrow> (\<forall>s r tr s' ev. m s = (r, tr, s') \<longrightarrow> ev \<in> set tr \<longrightarrow> (\<forall>args. fst ev \<noteq> CloudInitStage args))"

named_theorems actions \<open>how the two facts about actions compose\<close>

lemma same_file_refl: "settled s q \<Longrightarrow> same_file q s s"
  by (simp add: same_file_def)

lemma same_file_beside: "settled s q \<Longrightarrow> beside s q v \<Longrightarrow> same_file q s v"
  by (auto simp: same_file_def dest: beside_settled)

lemma same_file_trans: "same_file q s t \<Longrightarrow> same_file q t v \<Longrightarrow> same_file q s v"
  by (simp add: same_file_def)

lemma keepsD:
  assumes "keeps q m" "settled s q" "m s = (r, tr, s')"
  shows "same_file q s s'" "ev \<in> set tr \<Longrightarrow> same_file q s (snd ev)"
  using assms unfolding keeps_def by blast+

lemma silentD: "silent m \<Longrightarrow> m s = (r, tr, s') \<Longrightarrow> (CloudInitStage args, v) \<notin> set tr"
  unfolding silent_def by fastforce

lemma and_then_cases:
  assumes "and_then m f s = (r, tr, s')"
  obtains e where "m s = (Inl e, tr, s')" "r = Inl e"
  | a tr1 s1 tr2 where "m s = (Inr a, tr1, s1)" "f a s1 = (r, tr2, s')" "tr = tr1 @ tr2"
  using assms by (auto simp: and_then_def split: prod.splits sum.splits)

lemma keeps_and_then [actions]:
  assumes "keeps q m" "\<And>a. keeps q (f a)"
  shows "keeps q (and_then m f)"
  unfolding keeps_def
proof (intro allI impI)
  fix s r tr s'
  assume s: "settled s q" and "and_then m f s = (r, tr, s')"
  from this(2) show "same_file q s s' \<and> (\<forall>ev \<in> set tr. same_file q s (snd ev))"
  proof (cases rule: and_then_cases)
    case (1 e)
    with keepsD [OF assms(1) s] show ?thesis by blast
  next
    case (2 a tr1 s1 tr2)
    note first = keepsD [OF assms(1) s 2(1)]
    then have "settled s1 q" by (simp add: same_file_def)
    note rest = keepsD [OF assms(2) this 2(2)]
    from first rest 2(3) show ?thesis by (auto intro: same_file_trans)
  qed
qed

lemma silent_and_then [actions]:
  assumes "silent m" "\<And>a. silent (f a)"
  shows "silent (and_then m f)"
  unfolding silent_def
proof (intro allI impI)
  fix s r tr s' ev args
  assume "and_then m f s = (r, tr, s')" "ev \<in> set tr"
  from this(1) show "fst ev \<noteq> CloudInitStage args"
  proof (cases rule: and_then_cases)
    case (1 e)
    with assms(1) \<open>ev \<in> set tr\<close> show ?thesis unfolding silent_def by blast
  next
    case (2 a tr1 s1 tr2)
    with \<open>ev \<in> set tr\<close> have "ev \<in> set tr1 \<or> ev \<in> set tr2" by simp
    with 2(1,2) assms show ?thesis unfolding silent_def by blast
  qed
qed

lemma simple_acts [actions]:
  "keeps q (give a)" "keeps q (refuse e)" "keeps q (reading g)" "keeps q (note_event ev)"
  "silent (give a)" "silent (refuse e)" "silent (reading g)" "(\<And>args. ev \<noteq> CloudInitStage args) \<Longrightarrow> silent (note_event ev)"
  by (auto simp: keeps_def silent_def give_def refuse_def reading_def note_event_def same_file_refl)

lemma check_acts [actions]: "keeps q (check ok e)" "silent (check ok e)"
  by (simp_all add: check_def actions)

lemma tolerate_acts [actions]: "keeps q m \<Longrightarrow> keeps q (tolerate m)" "silent m \<Longrightarrow> silent (tolerate m)"
  unfolding keeps_def silent_def tolerate_def by (auto split: prod.splits)

lemma finally_acts [actions]:
  assumes "keeps q m" "keeps q f"
  shows "keeps q (finally_do m f)"
  unfolding keeps_def
proof (intro allI impI)
  fix s r tr s'
  assume s: "settled s q" and "finally_do m f s = (r, tr, s')"
  then obtain tr1 s1 r2 tr2 where m: "m s = (r, tr1, s1)" "f s1 = (r2, tr2, s')" "tr = tr1 @ tr2"
    by (auto simp: finally_do_def split: prod.splits)
  note first = keepsD [OF assms(1) s m(1)]
  then have "settled s1 q" by (simp add: same_file_def)
  note rest = keepsD [OF assms(2) this m(2)]
  from first rest m(3) show "same_file q s s' \<and> (\<forall>ev \<in> set tr. same_file q s (snd ev))"
    by (auto intro: same_file_trans)
qed

lemma put_file_acts [actions]:
  assumes "q \<noteq> p" "q \<noteq> wr_tmp (ei_write io p)"
  shows "keeps q (put_file io p d)"
  unfolding keeps_def
proof (intro allI impI)
  fix s r tr s'
  assume s: "settled s q" and "put_file io p d s = (r, tr, s')"
  then obtain r1 where w: "write_file (ei_write io p) p d s = (r1, s')"
    and tr: "\<forall>ev \<in> set tr. snd ev = s' \<or> snd ev \<in> set (visited (wr_fault (ei_write io p)) (write_ops Rename (wr_tmp (ei_write io p)) p d) s)"
    by (auto simp: put_file_def Let_def split: prod.splits)
  show "same_file q s s' \<and> (\<forall>ev \<in> set tr. same_file q s (snd ev))"
  proof (intro conjI ballI)
    show last: "same_file q s s'" by (rule same_file_beside [OF s beside_written [OF assms(2,1) w]])
    show "same_file q s (snd ev)" if "ev \<in> set tr" for ev
      using bspec [OF tr that] last beside_visited [OF assms(2,1), of "snd ev"] same_file_beside [OF s] by metis
  qed
qed

lemma put_file_silent [actions]: "silent (put_file io p d)"
  by (auto simp: silent_def put_file_def Let_def split: prod.splits)

lemma put_new_file_silent [actions]: "silent (put_new_file io p d)"
  by (auto simp: silent_def put_new_file_def Let_def split: prod.splits)

lemma remove_file_acts [actions]: "q \<noteq> p \<Longrightarrow> keeps q (remove_file io p)" "silent (remove_file io p)"
  by (auto simp: keeps_def silent_def remove_file_def give_def Let_def same_file_def settled_def)

lemma credential_visits_same:
  assumes "q \<notin> {join dir CredentialFile, join dir PreviousCredentialFile, wr_tmp io1, wr_tmp io2}" "settled s q"
  shows "v \<in> set (credential_visits pair dir io1 io2 certPEM keyPEM s) \<Longrightarrow> same_file q s v"
    and "WriteCredential pair dir io1 io2 certPEM keyPEM s = (r, s') \<Longrightarrow> same_file q s s'"
proof -
  let ?cur = "join dir CredentialFile" and ?prev = "join dir PreviousCredentialFile" and ?new = "combineCredential certPEM keyPEM"
  have during: "same_file q t v" if "settled t q" "q \<noteq> p" "q \<noteq> wr_tmp io"
      "v \<in> set (visited (wr_fault io) (write_ops Rename (wr_tmp io) p d) t) \<or> v = snd (write_file io p d t)" for t v p d io
    using that beside_visited [OF that(3,2)] beside_written [OF that(3,2), of d t] same_file_beside [OF that(1)]
    by (cases "write_file io p d t") auto
  have kept: "same_file q s s1" if "keep_superseded dir io1 s = (r1, s1)" for r1 s1
    using that during [OF assms(2), of ?prev io1 s1] assms same_file_refl [OF assms(2)]
    by (auto simp: keep_superseded_def split: option.splits if_splits) (metis snd_conv)
  have second: "same_file q s v" if "keep_superseded dir io1 s = (r1, s1)"
      "v \<in> set (visited (wr_fault io2) (write_ops Rename (wr_tmp io2) ?cur ?new) s1) \<or> v = snd (write_file io2 ?cur ?new s1)" for r1 s1 v
  proof -
    have s1: "same_file q s s1" by (rule kept [OF that(1)])
    then have "settled s1 q" by (simp add: same_file_def)
    from during [OF this _ _ that(2)] assms(1) s1 show ?thesis by (auto intro: same_file_trans)
  qed
  show "same_file q s v" if "v \<in> set (credential_visits pair dir io1 io2 certPEM keyPEM s)"
  proof -
    obtain r1 s1 where k: "keep_superseded dir io1 s = (r1, s1)" by fastforce
    have first: "same_file q s v" if "v \<in> set (visited (wr_fault io1) (write_ops Rename (wr_tmp io1) ?prev raw) s) \<or>
        v = snd (write_file io1 ?prev raw s)" for raw
      using during [OF assms(2) _ _ that] assms(1) by auto
    from that have "v = s \<or> (\<exists>raw. v \<in> set (visited (wr_fault io1) (write_ops Rename (wr_tmp io1) ?prev raw) s) \<or>
          v = snd (write_file io1 ?prev raw s)) \<or>
        v \<in> set (visited (wr_fault io2) (write_ops Rename (wr_tmp io2) ?cur ?new) s1) \<or> v = snd (write_file io2 ?cur ?new s1)"
      by (cases r1) (auto simp: credential_visits_def Let_def k split: if_splits option.splits)
    with first second [OF k] same_file_refl [OF assms(2)] show ?thesis by blast
  qed
  show "same_file q s s'" if "WriteCredential pair dir io1 io2 certPEM keyPEM s = (r, s')"
  proof -
    obtain r1 s1 where k: "keep_superseded dir io1 s = (r1, s1)" by fastforce
    from that have "s' = s \<or> s' = s1 \<or> s' = snd (write_file io2 ?cur ?new s1)"
      by (auto simp: WriteCredential_def Let_def k split: if_splits sum.splits prod.splits)
    with second [OF k] kept [OF k] same_file_refl [OF assms(2)] show ?thesis by blast
  qed
qed

lemma put_credential_acts [actions]:
  assumes "q \<notin> {join dir CredentialFile, join dir PreviousCredentialFile}" "\<And>p. q \<noteq> wr_tmp (ei_write io p)"
  shows "keeps q (put_credential io dir certPEM keyPEM)"
  unfolding keeps_def
proof (intro allI impI)
  fix s r tr s'
  assume s: "settled s q" and act: "put_credential io dir certPEM keyPEM s = (r, tr, s')"
  let ?w1 = "ei_write io (join dir PreviousCredentialFile)" and ?w2 = "ei_write io (join dir CredentialFile)"
  from act obtain r1 where w: "WriteCredential (ei_pair io) dir ?w1 ?w2 certPEM keyPEM s = (r1, s')"
    "snd ` set tr = set (credential_visits (ei_pair io) dir ?w1 ?w2 certPEM keyPEM s)"
    by (auto simp: put_credential_def Let_def image_image split: prod.splits sum.splits)
  have q: "q \<notin> {join dir CredentialFile, join dir PreviousCredentialFile, wr_tmp ?w1, wr_tmp ?w2}" using assms by auto
  show "same_file q s s' \<and> (\<forall>ev \<in> set tr. same_file q s (snd ev))"
    using credential_visits_same [OF q s] w by blast
qed

lemma put_credential_silent [actions]: "silent (put_credential io dir certPEM keyPEM)"
  by (auto simp: silent_def put_credential_def Let_def split: prod.splits sum.splits)

lemma put_online_acts [actions]:
  "q \<noteq> join dir OnlineKeyFile \<Longrightarrow> q \<noteq> wr_tmp (ei_write io (join dir OnlineKeyFile)) \<Longrightarrow> keeps q (put_online io dir raw_line)"
  "silent (put_online io dir raw_line)"
proof -
  assume "q \<noteq> join dir OnlineKeyFile" "q \<noteq> wr_tmp (ei_write io (join dir OnlineKeyFile))"
  then have "keeps q (tolerate (put_file io (join dir OnlineKeyFile) d))" for d by (intro actions)
  then show "keeps q (put_online io dir raw_line)"
    unfolding put_online_def keeps_def by (auto simp: give_def same_file_refl split: sum.splits option.splits)
next
  have "silent (tolerate (put_file io (join dir OnlineKeyFile) d))" for d by (intro actions)
  then show "silent (put_online io dir raw_line)"
    unfolding put_online_def silent_def by (auto simp: give_def split: sum.splits option.splits)
qed

lemma run_stages_keeps [actions]: "keeps q (run_stages w stages)"
  by (induction stages) (auto intro!: actions split: prod.split)

subsection \<open>The parts of an enrolment\<close>

text \<open>The record of a template is none of the other files, and no temporary file is any of them.\<close>

lemma record_apart:
  assumes "temps_named io"
  shows "record_path opts \<noteq> wr_tmp (ei_write io p)"
    "name \<noteq> BootstrapRecordFile \<Longrightarrow> CHR ''/'' \<notin> set name \<Longrightarrow> record_path opts \<noteq> join d name"
  using temp_fresh [OF assms, of BootstrapRecordFile p "o_StateDir opts"]
  by (auto simp: record_path_def join_eq go_defs dest: not_sym)

lemma loadOrCreateSalt_acts [actions]:
  "q \<noteq> p \<Longrightarrow> q \<noteq> wr_tmp (ei_write io p) \<Longrightarrow> keeps q (loadOrCreateSalt io p)" "silent (loadOrCreateSalt io p)"
  unfolding loadOrCreateSalt_def by (auto intro!: actions split: option.split list.split)

lemma MachineIDHash_acts [actions]:
  "q \<noteq> join dir SaltFile \<Longrightarrow> q \<noteq> wr_tmp (ei_write io (join dir SaltFile)) \<Longrightarrow> keeps q (MachineIDHash io dir)"
  "silent (MachineIDHash io dir)"
proof -
  have run: "MachineIDHash io dir s = (r, tr, s') \<Longrightarrow> tr = [] \<and> s' = s \<or>
      (\<exists>r1. loadOrCreateSalt io (join dir SaltFile) s = (r1, tr, s'))" for s r tr s'
    by (auto simp: MachineIDHash_def give_def split: option.splits prod.splits sum.splits)
  show "silent (MachineIDHash io dir)"
    using silentD [OF loadOrCreateSalt_acts(2)] run unfolding silent_def by fastforce
  assume "q \<noteq> join dir SaltFile" "q \<noteq> wr_tmp (ei_write io (join dir SaltFile))"
  then have "keeps q (loadOrCreateSalt io (join dir SaltFile))" by (intro actions)
  from keepsD [OF this] run same_file_refl show "keeps q (MachineIDHash io dir)"
    unfolding keeps_def by (metis empty_iff list.set(1))
qed

lemma installLocalFile_acts [actions]:
  "q \<noteq> dst \<Longrightarrow> q \<noteq> wr_tmp (ei_write io dst) \<Longrightarrow> keeps q (installLocalFile io src dst)" "silent (installLocalFile io src dst)"
  unfolding installLocalFile_def by (auto intro!: actions split: option.split list.split)

lemma interlock_acts [actions]: "keeps q (checkBootstrapInterlock io opts)" "silent (checkBootstrapInterlock io opts)"
  unfolding checkBootstrapInterlock_def keeps_def silent_def by (auto simp: give_def refuse_def same_file_refl split: if_splits)

lemma prepare_acts:
  "temps_named io \<Longrightarrow> keeps (record_path opts) (prepare io opts)" "silent (prepare io opts)"
  unfolding prepare_def
  using record_apart(2) [where io = io and opts = opts and d = "''/etc/hostseal''" and name = "''trusted-signers''"]
    record_apart(2) [where io = io and opts = opts and d = "''/etc/hostseal''" and name = "''policy.toml''"]
  by (auto intro!: actions record_apart(1) simp: fixed_paths BootstrapRecordFile_def split: option.split)

lemma ask_acts: "temps_named io \<Longrightarrow> keeps (record_path opts) (ask io opts)" "silent (ask io opts)"
  unfolding ask_def using record_apart(2) [where name = SaltFile and d = "o_StateDir opts" and opts = opts and io = io]
  by (auto intro!: actions record_apart(1) simp: go_defs split: sum.split)

lemma verifyBootstrap_acts [actions]: "keeps q (verifyBootstrap io opts signers b)" "silent (verifyBootstrap io opts signers b)"
  unfolding verifyBootstrap_def by (auto intro!: actions split: sum.split)

lemma template_of_acts: "keeps q (template_of io opts signers res)" "silent (template_of io opts signers res)"
  unfolding template_of_def by (auto intro!: actions split: option.split)

lemma settle_in_acts:
  "temps_named io \<Longrightarrow> keeps (record_path opts) (settle_in io opts res)" "silent (settle_in io opts res)"
proof -
  assume t: "temps_named io"
  note apart = record_apart(2) [OF t, where opts = opts and d = "o_StateDir opts"]
  show "keeps (record_path opts) (settle_in io opts res)"
    unfolding settle_in_def Let_def
    using apart [where name = CredentialFile] apart [where name = PreviousCredentialFile] apart [where name = CABundleFile]
      apart [where name = OnlineKeyFile] apart [where name = StateFile]
    by (auto intro!: actions record_apart(1) [OF t] simp: go_defs split: option.split)
next
  show "silent (settle_in io opts res)"
    unfolding settle_in_def Let_def by (auto intro!: actions split: option.split)
qed

text \<open>Applying a template: the record is durable before cloud-init is started, and stays.\<close>

definition recorded :: "enroll_options \<Rightarrow> fs \<Rightarrow> bool" where
  "recorded opts s \<longleftrightarrow> settled s (record_path opts) \<and> live s (record_path opts) \<noteq> None"

lemma put_new_file_ok:
  assumes "p \<noteq> wr_tmp (ei_write io p)" "put_new_file io p d s = (Inr u, tr, s')"
  shows "live s' p = Some (d, True) \<and> disk s' p = Some (d, True)"
proof -
  let ?w = "ei_write io p"
  from assms(2) have "WriteFileExclusive (wr_fault ?w) (wr_tmp ?w) p d s = (Inr (), s')"
    by (auto simp: put_new_file_def Let_def split: prod.splits sum.splits fs_op.splits)
  then obtain s1 where "run_ops (wr_fault ?w) (write_ops Link (wr_tmp ?w) p d) s = (Inr (), s1)"
    "live s' p = live s1 p" "disk s' p = disk s1 p"
    using assms(1) by (cases "run_ops (wr_fault ?w) (write_ops Link (wr_tmp ?w) p d) s")
      (auto simp: WriteFileExclusive_def remove_temp_def split: if_splits)
  with linking.write_result(2) [OF _ this(1)] assms(1) show ?thesis by auto
qed

lemma seeding_keeps:
  assumes "temps_named io"
  shows "keeps (record_path opts) (finally_do (and_then (writeSeed io h body) (\<lambda>_. runCloudInit io)) (removeSeed io))"
  unfolding writeSeed_def runCloudInit_def removeSeed_def
  using record_apart(2) [OF assms, where name = "''user-data''" and opts = opts and d = CloudInitSeedDir]
    record_apart(2) [OF assms, where name = "''meta-data''" and opts = opts and d = CloudInitSeedDir]
  by (auto intro!: actions record_apart(1) [OF assms] simp: BootstrapRecordFile_def)

lemma applyBootstrap_recorded:
  assumes "temps_named io" "applyBootstrap io opts b key h s = (r, tr, s')"
  obtains "silent (\<lambda>_. (r, tr, s'))"
  | tr1 s1 tr2 where "tr = tr1 @ tr2" "\<And>args v. (CloudInitStage args, v) \<notin> set tr1" "recorded opts s1"
      "same_file (record_path opts) s1 s'" "\<forall>ev \<in> set tr2. same_file (record_path opts) s1 (snd ev)"
proof (cases "ei_record io b key")
  case None
  with assms(2) that(1) show thesis by (simp add: applyBootstrap_def refuse_def silent_def)
next
  case (Some encoded)
  let ?rest = "finally_do (and_then (writeSeed io h (bs_Body b)) (\<lambda>_. runCloudInit io)) (removeSeed io)"
  from assms(2) Some have "and_then (put_new_file io (record_path opts) encoded) (\<lambda>_. ?rest) s = (r, tr, s')"
    by (simp add: applyBootstrap_def)
  then show thesis
  proof (cases rule: and_then_cases)
    case (1 e)
    with silentD [OF put_new_file_silent 1(1)] that(1) show thesis by (fastforce simp: silent_def)
  next
    case (2 u tr1 s1 tr2)
    have "recorded opts s1"
      using put_new_file_ok [OF record_apart(1) [OF assms(1)] 2(1)] by (simp add: recorded_def settled_def)
    moreover from this have "settled s1 (record_path opts)" by (simp add: recorded_def)
    note keepsD [OF seeding_keeps [OF assms(1)] this 2(2)]
    ultimately show thesis using silentD [OF put_new_file_silent 2(1)] 2(3) by (intro that(2) [of tr1 tr2 s1]) auto
  qed
qed

section \<open>An enrolment, taken apart\<close>

text \<open>A stretch of a trace that leaves the record alone and runs no cloud-init.\<close>

definition quiet :: "path \<Rightarrow> fs \<Rightarrow> trace \<Rightarrow> fs \<Rightarrow> bool" where
  "quiet q s tr s' \<longleftrightarrow> (settled s q \<longrightarrow> same_file q s s' \<and> (\<forall>ev \<in> set tr. same_file q s (snd ev))) \<and>
     (\<forall>ev \<in> set tr. \<forall>args. fst ev \<noteq> CloudInitStage args)"

lemma quietI: "keeps q m \<Longrightarrow> silent m \<Longrightarrow> m s = (r, tr, s') \<Longrightarrow> quiet q s tr s'"
  unfolding quiet_def keeps_def silent_def by blast

lemma quiet_trans: "quiet q s tr1 s1 \<Longrightarrow> quiet q s1 tr2 s2 \<Longrightarrow> quiet q s (tr1 @ tr2) s2"
  unfolding quiet_def by (auto simp: same_file_def)

text \<open>Either an enrolment stays quiet, or all its parts before the template succeeded and the template is
  applied, with nothing after it but the change of ownership.\<close>

lemma Enroll_cases:
  assumes t: "temps_named io" and run: "Enroll io opts s = (r, tr, s')"
  obtains "quiet (record_path opts) s tr s'"
  | signers tr0 s0 res tr1 s1 b key tr2 s2 tr3 s3 r4 tr4 post where
      "prepare io opts s = (Inr signers, tr0, s0)" "ask io opts s0 = (Inr res, tr1, s1)"
      "template_of io opts signers res s1 = (Inr (Some (b, key)), tr2, s2)" "settle_in io opts res s2 = (Inr (), tr3, s3)"
      "applyBootstrap io opts b key (er_HostID res) s3 = (r4, tr4, s')" "tr = (tr0 @ tr1 @ tr2 @ tr3) @ tr4 @ post"
      "quiet (record_path opts) s (tr0 @ tr1 @ tr2 @ tr3) s3" "\<forall>ev \<in> set post. ev = (Adopted, s')"
proof -
  let ?q = "record_path opts"
  note p = quietI [OF prepare_acts(1) [OF t] prepare_acts(2)] and a = quietI [OF ask_acts(1) [OF t] ask_acts(2)]
    and m = quietI [OF template_of_acts] and st = quietI [OF settle_in_acts(1) [OF t] settle_in_acts(2)]
  let ?tail = "\<lambda>res. and_then (note_event Adopted) (\<lambda>_. and_then (check (ei_adopt io True) AdoptFailed) (\<lambda>_. give (er_HostID res)))"
  have tail: "s4 = s' \<and> (\<forall>ev \<in> set trx. ev = (Adopted, s'))" if "?tail res s4 = (r, trx, s')" for res s4 trx
    using that by (auto simp: and_then_def note_event_def check_def give_def refuse_def split: if_splits)
  from run[unfolded Enroll_def] show thesis
  proof (cases rule: and_then_cases)
    case (1 e) with p that(1) show thesis by blast
  next
    case (2 signers tr0 s0 x1)
    note q0 = p [OF 2(1)]
    from 2(2) show thesis
    proof (cases rule: and_then_cases)
      case (1 e) from quiet_trans [OF q0 a [OF 1(1)]] 2(3) that(1) show thesis by blast
    next
      case r2: (2 res tr1 s1 x2)
      note q1 = quiet_trans [OF q0 a [OF r2(1)]]
      from r2(2) show thesis
      proof (cases rule: and_then_cases)
        case (1 e) from quiet_trans [OF q1 m [OF 1(1)]] 2(3) r2(3) that(1) show thesis by simp
      next
        case r3: (2 tmpl tr2 s2 x3)
        note q2 = quiet_trans [OF q1 m [OF r3(1)]]
        from r3(2) show thesis
        proof (cases rule: and_then_cases)
          case (1 e) from quiet_trans [OF q2 st [OF 1(1)]] 2(3) r2(3) r3(3) that(1) show thesis by simp
        next
          case r4: (2 u tr3 s3 x4)
          note q3 = quiet_trans [OF q2 st [OF r4(1)]]
          have tr: "tr = (tr0 @ tr1 @ tr2 @ tr3) @ x4" using 2(3) r2(3) r3(3) r4(3) by simp
          show thesis
          proof (cases tmpl)
            case None
            with r4(2) have "and_then (give ()) (\<lambda>_. ?tail res) s3 = (r, x4, s')" by simp
            then have "?tail res s3 = (r, x4, s')" by (simp add: and_then_def give_def split: prod.splits)
            from tail [OF this] have "quiet ?q s3 x4 s'" by (auto simp: quiet_def same_file_refl)
            from quiet_trans [OF q3 this] tr that(1) show thesis by simp
          next
            case (Some bk)
            obtain b key where bk: "bk = (b, key)" by (cases bk)
            from r4(2) Some bk have ap: "and_then (applyBootstrap io opts b key (er_HostID res)) (\<lambda>_. ?tail res) s3 = (r, x4, s')" by simp
            have q3': "quiet ?q s (tr0 @ tr1 @ tr2 @ tr3) s3" using q3 by simp
            have mid: "template_of io opts signers res s1 = (Inr (Some (b, key)), tr2, s2)" using r3(1) Some bk by simp
            have set: "settle_in io opts res s2 = (Inr (), tr3, s3)" using r4(1) by simp
            from ap show thesis
            proof (cases rule: and_then_cases)
              case (1 e)
              show thesis by (rule that(2) [OF 2(1) r2(1) mid set 1(1) _ q3', of "[]"]) (use tr in simp_all)
            next
              case r5: (2 u tr4 s4 post)
              from tail [OF r5(2)] have s4: "s4 = s'" "\<forall>ev \<in> set post. ev = (Adopted, s')" by auto
              show thesis
                by (rule that(2) [OF 2(1) r2(1) mid set r5(1)[unfolded s4(1)] _ q3' s4(2)]) (use tr r5(3) in simp)
            qed
          qed
        qed
      qed
    qed
  qed
qed

lemma template_of_interlock:
  assumes "template_of io opts signers res s = (Inr (Some (b, key)), tr, s')"
  shows "live s (record_path opts) = None" "er_Bootstrap res = Some b" "bs_Name b = o_Bootstrap opts" "o_Bootstrap opts \<noteq> []"
    "\<exists>signature payload. decodeSignature (bs_Signature b) = Inr signature \<and> Marshal (bootstrap_SignedPayload b) = Inr payload \<and>
       set_Verify (ei_crypto io) signers payload signature = Inr key"
    "s' = s"
proof -
  note defs = template_of_def verifyBootstrap_def checkBootstrapInterlock_def and_then_def give_def refuse_def note_event_def
  show "live s (record_path opts) = None"
    using assms by (cases "live s (record_path opts)")
      (auto simp: defs split: if_splits option.splits prod.splits sum.splits)
qed (use assms in \<open>auto simp: template_of_def verifyBootstrap_def checkBootstrapInterlock_def and_then_def give_def refuse_def
    note_event_def split: if_splits option.splits prod.splits sum.splits\<close>)

lemma quietD: "quiet q s tr s' \<Longrightarrow> (CloudInitStage args, v) \<notin> set tr"
  unfolding quiet_def by fastforce

lemma Enroll_recorded:
  assumes "temps_named io" "Enroll io opts s = (r, tr, s')" "recorded opts s"
  shows "quiet (record_path opts) s tr s'"
  using assms(1,2)
proof (cases rule: Enroll_cases)
  case (2 signers tr0 s0 res tr1 s1 b key tr2 s2 tr3 s3 r4 tr4 post)
  note q = quiet_trans [OF quietI [OF prepare_acts(1) [OF assms(1)] prepare_acts(2) 2(1)]
    quietI [OF ask_acts(1) [OF assms(1)] ask_acts(2) 2(2)]]
  from q assms(3) have "live s1 (record_path opts) \<noteq> None" by (auto simp: quiet_def recorded_def same_file_def)
  with template_of_interlock(1) [OF 2(3)] show ?thesis by simp
qed

text \<open>What a trace shows up to any of its entries: once cloud-init was started, the record is there.\<close>

definition stopped_at :: "fs \<Rightarrow> trace \<Rightarrow> fs" where
  "stopped_at s pre = (if pre = [] then s else snd (last pre))"

lemma append_split: "xs @ ys = us @ vs \<Longrightarrow> (\<exists>zs. xs = us @ zs \<and> zs @ ys = vs) \<or> (\<exists>zs. xs @ zs = us)"
  by (auto simp: append_eq_append_conv2)

lemma Enroll_prefix_recorded:
  assumes t: "temps_named io" and run: "Enroll io opts s = (r, pre @ rest, s')" and ci: "(CloudInitStage args, v) \<in> set pre"
  shows "recorded opts (stopped_at s pre) \<and> recorded opts v"
  using t run
proof (cases rule: Enroll_cases)
  case 1
  from quietD [OF this, of args v] ci show ?thesis by simp
next
  case (2 signers tr0 s0 res tr1 s1 b key tr2 s2 tr3 s3 r4 tr4 post)
  let ?before = "tr0 @ tr1 @ tr2 @ tr3"
  have quiet_before: "(CloudInitStage args, v) \<notin> set ?before" for v by (rule quietD [OF 2(7)])
  have later: "\<forall>ev \<in> set post. fst ev \<noteq> CloudInitStage args" using 2(8) by auto
  from t 2(5) show ?thesis
  proof (cases rule: applyBootstrap_recorded)
    case 1
    then have "(CloudInitStage args, v) \<notin> set tr4" by (fastforce simp: silent_def)
    moreover have "(CloudInitStage args, v) \<in> set ?before \<union> set tr4 \<union> set post"
    proof -
      have "(CloudInitStage args, v) \<in> set (pre @ rest)" using ci by simp
      then show ?thesis unfolding 2(6) by simp
    qed
    ultimately show ?thesis using quiet_before [of v] later by fastforce
  next
    case ap: (2 early s4 late)
    from 2(6) ap(1) have all: "pre @ rest = (?before @ early) @ (late @ post)" by simp
    have early: "(CloudInitStage args, v) \<notin> set (?before @ early)" for v using quiet_before [of v] ap(2) [of args v] by simp
    obtain us where "pre = (?before @ early) @ us \<and> us @ rest = late @ post \<or> pre @ us = ?before @ early"
      using append_split [OF all] by blast
    then consider "pre = (?before @ early) @ us" "us @ rest = late @ post" | "pre @ us = ?before @ early" by blast
    then show ?thesis
    proof cases
      case 1
      with ci early have "us \<noteq> []" by auto
      then have pre: "pre \<noteq> []" "last pre = last us" using 1(1) by auto
      have us: "recorded opts (snd ev)" if "ev \<in> set us" for ev
      proof -
        have "ev \<in> set late \<or> ev \<in> set post" using that 1(2) by (metis Un_iff set_append)
        with ap(3-5) 2(8) show ?thesis by (auto simp: recorded_def same_file_def)
      qed
      have "(CloudInitStage args, v) \<in> set us" using ci early [of v] 1(1) by auto
      with us [OF this] us [OF last_in_set [OF \<open>us \<noteq> []\<close>]] pre show ?thesis by (simp add: stopped_at_def)
    next
      case 2
      then have "set pre \<subseteq> set (?before @ early)" by (metis set_append sup.cobounded1)
      with ci early [of v] show ?thesis by blast
    qed
  qed
qed

section \<open>At most one template in the life of a host\<close>

text \<open>A stop: the process is killed, or the machine loses power.\<close>

definition stops :: "fs \<Rightarrow> fs \<Rightarrow> bool" where
  "stops v s \<longleftrightarrow> s = v \<or> (\<exists>x. crash v x \<and> s = \<lparr>live = (\<lambda>p. map_option (\<lambda>c. (c, True)) (x p)), disk = (\<lambda>p. map_option (\<lambda>c. (c, True)) (x p))\<rparr>)"

lemma stops_recorded:
  assumes "recorded opts v" "stops v s"
  shows "recorded opts s"
  using assms(2) unfolding stops_def
proof
  assume "\<exists>x. crash v x \<and> s = \<lparr>live = (\<lambda>p. map_option (\<lambda>c. (c, True)) (x p)), disk = (\<lambda>p. map_option (\<lambda>c. (c, True)) (x p))\<rparr>"
  then obtain x where x: "crash v x" "live s = (\<lambda>p. map_option (\<lambda>c. (c, True)) (x p))" "disk s = live s" by auto
  have "x (record_path opts) = read_file v (record_path opts)"
    using settled_crash [OF _ x(1)] assms(1) by (simp add: recorded_def)
  with assms(1) x(2,3) show ?thesis by (auto simp: recorded_def settled_def read_file_def)
qed (use assms(1) in simp)

definition applied :: "trace \<Rightarrow> bool" where
  "applied tr \<longleftrightarrow> (\<exists>args v. (CloudInitStage args, v) \<in> set tr)"

text \<open>Enrolments of one host with one state directory, one after another, with whatever other options, answers and
  faults, each run to its end or stopped at
  any entry of its trace; counted are those that started cloud-init.\<close>

inductive host_life :: "bytes \<Rightarrow> fs \<Rightarrow> nat \<Rightarrow> bool" for dir where
  installed: "host_life dir s 0"
| enrolling: "host_life dir s n \<Longrightarrow> temps_named io \<Longrightarrow> o_StateDir opts = dir \<Longrightarrow> Enroll io opts s = (r, pre @ rest, s') \<Longrightarrow>
    stops (stopped_at s pre) s'' \<Longrightarrow> host_life dir s'' (if applied pre then Suc n else n)"

lemma host_life_recorded: "host_life dir s n \<Longrightarrow> n = 0 \<or> n = 1 \<and> (\<forall>opts. o_StateDir opts = dir \<longrightarrow> recorded opts s)"
proof (induction rule: host_life.induct)
  case (enrolling s n io opts r pre rest s' s'')
  have any: "recorded o1 x \<longleftrightarrow> recorded opts x" if "o_StateDir o1 = dir" for o1 x
    using that enrolling.hyps(3) by (simp add: recorded_def record_path_def)
  show ?case
  proof (cases "applied pre")
    case True
    then obtain args v where ci: "(CloudInitStage args, v) \<in> set pre" by (auto simp: applied_def)
    have "\<not> recorded opts s"
      using quietD [OF Enroll_recorded [OF enrolling.hyps(2,4)], of args v] ci by auto
    with enrolling.IH enrolling.hyps(3) have "n = 0" by blast
    moreover have "recorded opts s''"
      using Enroll_prefix_recorded [OF enrolling.hyps(2,4) ci] stops_recorded enrolling.hyps(5) by blast
    ultimately show ?thesis using True any by simp
  next
    case False
    have "recorded opts s''" if r: "recorded opts s"
    proof -
      have q: "quiet (record_path opts) s (pre @ rest) s'" by (rule Enroll_recorded [OF enrolling.hyps(2,4) r])
      have "recorded opts (stopped_at s pre)"
      proof (cases "pre = []")
        case False
        then have "last pre \<in> set (pre @ rest)" by simp
        with q r False show ?thesis by (auto simp: stopped_at_def quiet_def recorded_def same_file_def)
      qed (use r in \<open>simp add: stopped_at_def\<close>)
      with stops_recorded enrolling.hyps(5) show ?thesis by blast
    qed
    then have "recorded o1 s''" if "recorded o1 s" "o_StateDir o1 = dir" for o1 using any that by simp
    with enrolling.IH False show ?thesis by auto
  qed
qed simp

text \<open>Property C10: of the enrolments that use one state directory, run one after another, at most one starts cloud-init,
  whatever the control plane answers, which writes fail, and wherever a process is killed or the machine stops.\<close>

theorem template_at_most_once:
  assumes "host_life dir s n"
  shows "n \<le> 1"
  using host_life_recorded [OF assms] by auto

section \<open>What a template needs\<close>

lemma prepare_signers:
  assumes "prepare io opts s = (Inr signers, tr, s')" "o_Bootstrap opts \<noteq> []"
  shows "trusted_signers io s' = (signers, None)" "\<not> set_Empty signers" "live s' (record_path opts) = None"
proof -
  have lock: "checkBootstrapInterlock io opts t = (Inr u, trc, t') \<Longrightarrow> t' = t \<and> live t (record_path opts) = None" for t t' u trc
    by (cases "live t (record_path opts)") (auto simp: checkBootstrapInterlock_def give_def refuse_def split: if_splits)
  show "trusted_signers io s' = (signers, None)" "\<not> set_Empty signers" "live s' (record_path opts) = None"
    using assms lock by (auto simp: prepare_def and_then_def reading_def give_def refuse_def split: if_splits prod.splits sum.splits option.splits)
qed

lemma put_credential_ok:
  assumes "temps_named io" "put_credential io dir certPEM keyPEM s = (Inr u, tr, s')"
  shows "live s' (join dir CredentialFile) = Some (combineCredential certPEM keyPEM, True) \<and>
    settled s' (join dir CredentialFile)"
proof -
  let ?cur = "join dir CredentialFile" and ?w1 = "ei_write io (join dir PreviousCredentialFile)"
  from assms(2) obtain s1 where "write_file (ei_write io ?cur) ?cur (combineCredential certPEM keyPEM) s1 = (Inr (), s')"
    by (auto simp: put_credential_def WriteCredential_def Let_def split: if_splits prod.splits sum.splits)
  from write_file_result(2) [OF _ this] temp_fresh [OF assms(1), of CredentialFile] show ?thesis
    by (simp add: settled_def go_defs)
qed

text \<open>The credential is not touched once it is in place.\<close>

lemma credential_apart:
  assumes "temps_named io"
  shows "join dir CredentialFile \<noteq> wr_tmp (ei_write io p)"
    "name \<noteq> CredentialFile \<Longrightarrow> CHR ''/'' \<notin> set name \<Longrightarrow> join dir CredentialFile \<noteq> join d name"
  using temp_fresh [OF assms, of CredentialFile p dir] by (auto simp: join_eq go_defs dest: not_sym)

lemma settle_in_credential:
  assumes t: "temps_named io" and run: "settle_in io opts res s = (Inr u, tr, s')"
  obtains keyPEM csr where "ei_key io = Some (keyPEM, csr)"
    "live s' (join (o_StateDir opts) CredentialFile) = Some (combineCredential (er_Certificate res) keyPEM, True)"
    "settled s' (join (o_StateDir opts) CredentialFile)"
proof -
  let ?dir = "o_StateDir opts" let ?q = "join (o_StateDir opts) CredentialFile"
  from run obtain keyPEM csr where k: "ei_key io = Some (keyPEM, csr)"
    by (auto simp: settle_in_def Let_def refuse_def split: option.splits)
  define later where "later = and_then (if er_CABundle res = [] then give () else put_file io (join ?dir CABundleFile) (er_CABundle res)) (\<lambda>_.
         and_then (put_online io ?dir (er_OnlineKey res)) (\<lambda>_.
         case ei_state io (trimSlash (o_ServerURL opts)) (er_HostID res) of
           None \<Rightarrow> refuse StateNotEncoded
         | Some raw \<Rightarrow> and_then (put_file io (join ?dir StateFile) raw) (\<lambda>_.
             and_then (note_event Adopted) (\<lambda>_. check (ei_adopt io False) AdoptFailed))))"
  note apart = credential_apart(2) [OF t, where dir = ?dir and d = ?dir]
  have ne: "?q \<noteq> join ?dir CABundleFile" "?q \<noteq> join ?dir OnlineKeyFile" "?q \<noteq> join ?dir StateFile"
    by (rule apart; simp add: go_defs)+
  have keep: "keeps ?q later"
    unfolding later_def by (auto intro!: actions credential_apart(1) [OF t] simp: ne split: option.split)
  have "settle_in io opts res = and_then (put_credential io ?dir (er_Certificate res) keyPEM) (\<lambda>_. later)"
    by (simp only: settle_in_def later_def Let_def k option.case prod.case)
  with run have "and_then (put_credential io ?dir (er_Certificate res) keyPEM) (\<lambda>_. later) s = (Inr u, tr, s')" by simp
  then show thesis
  proof (cases rule: and_then_cases)
    case (2 v tr1 s1 tr2)
    note put = put_credential_ok [OF t 2(1)]
    then have "settled s1 ?q" by blast
    from keepsD(1) [OF keep this 2(2)] put show thesis by (intro that [OF k]) (simp_all add: same_file_def)
  qed simp
qed

lemma applyBootstrap_credential:
  assumes "temps_named io" "applyBootstrap io opts b key h s = (r, tr, s')" "(CloudInitStage args, v) \<in> set tr"
    and "settled s (join (o_StateDir opts) CredentialFile)"
  shows "same_file (join (o_StateDir opts) CredentialFile) s v"
proof -
  let ?q = "join (o_StateDir opts) CredentialFile"
  let ?rest = "finally_do (and_then (writeSeed io h (bs_Body b)) (\<lambda>_. runCloudInit io)) (removeSeed io)"
  note apart = credential_apart(2) [OF assms(1), where dir = "o_StateDir opts" and d = CloudInitSeedDir]
  have ne: "?q \<noteq> join CloudInitSeedDir ''user-data''" "?q \<noteq> join CloudInitSeedDir ''meta-data''"
    by (rule apart; simp add: CredentialFile_def)+
  have rest: "keeps ?q ?rest"
    unfolding writeSeed_def runCloudInit_def removeSeed_def
    by (auto intro!: actions credential_apart(1) [OF assms(1)] simp: ne)
  have new: "same_file ?q s s1" if new: "put_new_file io (record_path opts) d s = (Inr u, tr1, s1)" for d u tr1 s1
  proof -
    let ?w = "ei_write io (record_path opts)"
    from new have "WriteFileExclusive (wr_fault ?w) (wr_tmp ?w) (record_path opts) d s = (Inr (), s1)"
      by (auto simp: put_new_file_def Let_def split: prod.splits sum.splits fs_op.splits)
    moreover have "?q \<noteq> record_path opts" "?q \<noteq> wr_tmp ?w"
      using credential_apart [OF assms(1)] by (auto simp: record_path_def join_eq go_defs)
    moreover have "carries (\<lambda>_. beside s ?q) 0 (write_ops Link (wr_tmp ?w) (record_path opts) d)"
      unfolding write_ops_def carries_Cons using calculation(2,3) by (auto simp: carries_def beside_def split: if_splits)
    ultimately have "beside s ?q s1"
      by (cases "run_ops (wr_fault ?w) (write_ops Link (wr_tmp ?w) (record_path opts) d) s")
        (auto simp: WriteFileExclusive_def remove_temp_def beside_def dest!: run_ops_carries [where s = s] split: if_splits)
    then show ?thesis by (rule same_file_beside [OF assms(4)])
  qed
  from assms(2,3) obtain encoded where "and_then (put_new_file io (record_path opts) encoded) (\<lambda>_. ?rest) s = (r, tr, s')"
    by (auto simp: applyBootstrap_def refuse_def split: option.splits)
  then show ?thesis
  proof (cases rule: and_then_cases)
    case (1 e) with silentD [OF put_new_file_silent 1(1)] assms(3) show ?thesis by blast
  next
    case (2 u tr1 s1 tr2)
    note n = new [OF 2(1)]
    then have "settled s1 ?q" by (simp add: same_file_def)
    from keepsD(2) [OF rest this 2(2)] assms(3) 2(3) silentD [OF put_new_file_silent 2(1)] n
    show ?thesis by (force intro: same_file_trans)
  qed
qed

text \<open>The seed cloud-init reads: the body of the template, under an instance identifier of this host.\<close>

definition seeded :: "bytes \<Rightarrow> bytes \<Rightarrow> fs \<Rightarrow> bool" where
  "seeded hostID body s \<longleftrightarrow> settled s (join CloudInitSeedDir ''user-data'') \<and> settled s (join CloudInitSeedDir ''meta-data'') \<and>
     read_file s (join CloudInitSeedDir ''user-data'') = Some body \<and>
     read_file s (join CloudInitSeedDir ''meta-data'') = Some (''instance-id: hostseal-bootstrap-'' @ hostID @ [CHR 0x0A])"

lemma seeded_same:
  "seeded h body s \<Longrightarrow> same_file (join CloudInitSeedDir ''user-data'') s v \<Longrightarrow> same_file (join CloudInitSeedDir ''meta-data'') s v \<Longrightarrow>
    seeded h body v"
  by (simp add: seeded_def same_file_def read_file_def)

lemma put_file_ok:
  assumes "wr_tmp (ei_write io p) \<noteq> p" "put_file io p d s = (Inr u, tr, s')"
  shows "settled s' p \<and> read_file s' p = Some d"
proof -
  from assms(2) have "write_file (ei_write io p) p d s = (Inr (), s')"
    by (auto simp: put_file_def Let_def split: prod.splits sum.splits)
  from write_file_result(2) [OF assms(1) this] show ?thesis by (simp add: settled_def read_file_def)
qed

lemma writeSeed_ok:
  assumes t: "temps_named io" and run: "writeSeed io h body s = (Inr u, tr, s')"
  shows "seeded h body s'"
proof -
  let ?ud = "join CloudInitSeedDir ''user-data''" and ?md = "join CloudInitSeedDir ''meta-data''"
  have apart: "?ud \<noteq> ?md" "wr_tmp (ei_write io p) \<noteq> ?ud" "wr_tmp (ei_write io p) \<noteq> ?md" for p
    using temp_fresh [OF t, of "''user-data''" p CloudInitSeedDir] temp_fresh [OF t, of "''meta-data''" p CloudInitSeedDir]
    by (simp_all add: join_eq)
  from run have "and_then (put_file io ?ud body) (\<lambda>_. put_file io ?md (''instance-id: hostseal-bootstrap-'' @ h @ [CHR 0x0A])) s = (Inr u, tr, s')"
    by (simp add: writeSeed_def refuse_def split: if_splits)
  then show ?thesis
  proof (cases rule: and_then_cases)
    case (2 a tr1 s1 tr2)
    note ud = put_file_ok [OF apart(2) 2(1)] and md = put_file_ok [OF apart(3) 2(2)]
    have "keeps ?ud (put_file io ?md (''instance-id: hostseal-bootstrap-'' @ h @ [CHR 0x0A]))"
      by (rule put_file_acts [OF apart(1) not_sym [OF apart(2)]])
    from keepsD(1) [OF this _ 2(2)] ud md show ?thesis by (simp add: seeded_def same_file_def read_file_def)
  qed simp
qed

lemma removeSeed_silent: "silent (removeSeed io)"
  unfolding removeSeed_def by (auto intro!: actions)

lemma writeSeed_silent: "silent (writeSeed io h body)"
  unfolding writeSeed_def by (auto intro!: actions)

text \<open>A stage runs while the seed is there.\<close>

lemma applyBootstrap_seeded:
  assumes t: "temps_named io" and run: "applyBootstrap io opts b key h s = (r, tr, s')" and ev: "(CloudInitStage args, v) \<in> set tr"
  shows "seeded h (bs_Body b) v"
proof -
  let ?seed = "and_then (writeSeed io h (bs_Body b)) (\<lambda>_. runCloudInit io)"
  from run ev obtain encoded where "and_then (put_new_file io (record_path opts) encoded) (\<lambda>_. finally_do ?seed (removeSeed io)) s = (r, tr, s')"
    by (auto simp: applyBootstrap_def refuse_def split: option.splits)
  then obtain tr1 s1 tr2 where rest: "finally_do ?seed (removeSeed io) s1 = (r, tr2, s')" "(CloudInitStage args, v) \<in> set tr2"
  proof (cases rule: and_then_cases)
    case (1 e) with silentD [OF put_new_file_silent 1(1)] ev show thesis by blast
  next
    case (2 u tr1 s1 tr2) with silentD [OF put_new_file_silent 2(1)] ev show thesis by (intro that) auto
  qed
  then obtain r3 tr3 s3 r4 tr4 where seed: "?seed s1 = (r3, tr3, s3)" "removeSeed io s3 = (r4, tr4, s')" "tr2 = tr3 @ tr4"
    by (auto simp: finally_do_def split: prod.splits)
  with silentD [OF removeSeed_silent seed(2)] rest(2) have in3: "(CloudInitStage args, v) \<in> set tr3" by auto
  from seed(1) show ?thesis
  proof (cases rule: and_then_cases)
    case (1 e) with silentD [OF writeSeed_silent 1(1)] in3 show ?thesis by blast
  next
    case (2 u tr5 s5 tr6)
    with silentD [OF writeSeed_silent 2(1)] in3 have in6: "(CloudInitStage args, v) \<in> set tr6" by auto
    note ok = writeSeed_ok [OF t 2(1)]
    have keeps: "keeps q (runCloudInit io)" for q by (simp add: runCloudInit_def run_stages_keeps)
    have "same_file q s5 v" if "settled s5 q" for q using keepsD(2) [OF keeps that 2(2) in6] by simp
    with ok show ?thesis by (intro seeded_same [OF ok]) (simp_all add: seeded_def)
  qed
qed

text \<open>Property C11: what runs through cloud-init was named by the operator, is signed by a key of the file this host had
  before it spoke to the control plane, and finds the host's credential and the record of the
  template on stable storage; what lies in the seed directory when a stage of cloud-init starts is the body that was
  signed, under an instance identifier of this host.\<close>

theorem template_verified:
  assumes "temps_named io" "Enroll io opts s = (r, tr, s')" "(CloudInitStage args, v) \<in> set tr"
  shows "\<exists>signers tr0 s0 res b key signature payload keyPEM csr.
    prepare io opts s = (Inr signers, tr0, s0) \<and> trusted_signers io s0 = (signers, None) \<and>
    ei_reply io = Inr res \<and> er_Bootstrap res = Some b \<and> bs_Name b = o_Bootstrap opts \<and>
    decodeSignature (bs_Signature b) = Inr signature \<and> Marshal (bootstrap_SignedPayload b) = Inr payload \<and>
    set_Verify (ei_crypto io) signers payload signature = Inr key \<and>
    ei_key io = Some (keyPEM, csr) \<and> settled v (join (o_StateDir opts) CredentialFile) \<and>
    read_file v (join (o_StateDir opts) CredentialFile) = Some (combineCredential (er_Certificate res) keyPEM) \<and>
    recorded opts v \<and>
    read_file v (join CloudInitSeedDir ''user-data'') = Some (bs_Body b) \<and>
    read_file v (join CloudInitSeedDir ''meta-data'') = Some (''instance-id: hostseal-bootstrap-'' @ er_HostID res @ [CHR 0x0A])"
  using assms(1,2)
proof (cases rule: Enroll_cases)
  case 1
  from quietD [OF this] assms(3) show ?thesis by blast
next
  case (2 signers tr0 s0 res tr1 s1 b key tr2 s2 tr3 s3 r4 tr4 post)
  note tpl = template_of_interlock [OF 2(3)]
  have in4: "(CloudInitStage args, v) \<in> set tr4"
  proof -
    have "(CloudInitStage args, v) \<in> set (tr0 @ tr1 @ tr2 @ tr3) \<union> set tr4 \<union> set post" using assms(3) unfolding 2(6) by simp
    with quietD [OF 2(7)] 2(8) show ?thesis by auto
  qed
  obtain keyPEM csr where cred: "ei_key io = Some (keyPEM, csr)"
    "live s3 (join (o_StateDir opts) CredentialFile) = Some (combineCredential (er_Certificate res) keyPEM, True)"
    "settled s3 (join (o_StateDir opts) CredentialFile)" by (rule settle_in_credential [OF assms(1) 2(4)])
  from applyBootstrap_credential [OF assms(1) 2(5) in4 cred(3)] cred(2)
  have v: "settled v (join (o_StateDir opts) CredentialFile)"
    "read_file v (join (o_StateDir opts) CredentialFile) = Some (combineCredential (er_Certificate res) keyPEM)"
    by (simp_all add: same_file_def read_file_def)
  have "ei_reply io = Inr res"
    using 2(2) by (auto simp: ask_def and_then_def refuse_def give_def note_event_def split: if_splits prod.splits sum.splits)
  moreover have "recorded opts v"
    using Enroll_prefix_recorded [of io opts s r tr "[]" s' args v] assms by simp
  moreover have "seeded (er_HostID res) (bs_Body b) v" by (rule applyBootstrap_seeded [OF assms(1) 2(5) in4])
  ultimately show ?thesis using 2(1) prepare_signers [OF 2(1) tpl(4)] tpl(2,3,5) cred(1) v unfolding seeded_def by blast
qed

text \<open>An action that does nothing but write files.\<close>

definition local_only :: "'a act \<Rightarrow> bool" where
  "local_only m \<longleftrightarrow> (\<forall>s r tr s'. m s = (r, tr, s') \<longrightarrow> (\<forall>ev \<in> set tr. \<exists>p. fst ev = Touched p))"

lemma local_and_then:
  assumes "local_only m" "\<And>a. local_only (f a)"
  shows "local_only (and_then m f)"
  unfolding local_only_def
proof (intro allI impI)
  fix s r tr s'
  assume "and_then m f s = (r, tr, s')"
  then show "\<forall>ev \<in> set tr. \<exists>p. fst ev = Touched p"
  proof (cases rule: and_then_cases)
    case (1 e)
    with assms(1) show ?thesis unfolding local_only_def by blast
  next
    case (2 a tr1 s1 tr2)
    from assms(1) 2(1) have "\<forall>ev \<in> set tr1. \<exists>p. fst ev = Touched p" unfolding local_only_def by blast
    moreover from assms(2) 2(2) have "\<forall>ev \<in> set tr2. \<exists>p. fst ev = Touched p" unfolding local_only_def by blast
    ultimately show ?thesis using 2(3) by auto
  qed
qed

lemma local_acts:
  "local_only (give a)" "local_only (refuse e)" "local_only (reading f)" "local_only (check ok e)" "local_only (put_file io p d)"
  "local_only (checkBootstrapInterlock io opts)"
  by (auto simp: local_only_def give_def refuse_def reading_def check_def put_file_def checkBootstrapInterlock_def Let_def
      split: prod.splits if_splits)

lemma prepare_local: "local_only (prepare io opts)"
  unfolding prepare_def installLocalFile_def
  by (auto intro!: local_and_then local_acts split: option.split list.split)

text \<open>The single-use token is spent on a request for a template only when the host has a key to verify the
  template with and has applied none yet.\<close>

theorem anchor_before_token:
  assumes "Enroll io opts s = (r, tr, s')" "(Asked token machine name, v) \<in> set tr" "o_Bootstrap opts \<noteq> []"
  shows "\<exists>signers tr0 s0. prepare io opts s = (Inr signers, tr0, s0) \<and> trusted_signers io s0 = (signers, None) \<and>
    \<not> set_Empty signers \<and> live s0 (record_path opts) = None"
proof -
  have quiet_prepare: "(Asked token machine name, v) \<notin> set tr1" if "prepare io opts s = (r1, tr1, s1)" for r1 tr1 s1
    using prepare_local that unfolding local_only_def by fastforce
  from assms(1) [unfolded Enroll_def] show ?thesis
  proof (cases rule: and_then_cases)
    case (1 e) with quiet_prepare assms(2) show ?thesis by blast
  next
    case (2 signers tr0 s0 tr1)
    with prepare_signers [OF 2(1) assms(3)] show ?thesis by blast
  qed
qed

section \<open>An enrolment with a template\<close>

definition demo_template :: bootstrap where
  "demo_template = \<lparr>bs_Name = ''std'', bs_Version = 1, bs_Body = ''#cloud-config'', bs_Signature = ''QQ=='', bs_SignerKeyID = ''ops''\<rparr>"

definition demo_response :: enroll_response where
  "demo_response = \<lparr>er_HostID = ''H1'', er_Certificate = ''cert'', er_CABundle = [], er_OnlineKey = [], er_Bootstrap = Some demo_template\<rparr>"

definition demo_options :: enroll_options where
  "demo_options = \<lparr>o_ServerURL = ''https://cp'', o_Token = ''t'', o_StateDir = ''d'', o_SignersFile = [], o_PolicyFile = [], o_Bootstrap = ''std''\<rparr>"

definition demo_process :: process where
  "demo_process = \<lparr>writes_out = [], writes_err = [], exit_status = 0, ended = Finished\<rparr>"

text \<open>Every call succeeds; a signature is the letter A.\<close>

definition demo_io :: enroll_io where
  "demo_io = \<lparr>ei_crypto = toy_crypto\<lparr>ed25519_verify := \<lambda>k p sig. sig = ''A''\<rparr>, ei_pair = (\<lambda>_. Some ()), ei_mkdir = (\<lambda>_. True),
     ei_local = (\<lambda>_. None), ei_unreadable = (\<lambda>_. False), ei_write = (\<lambda>_. demo_write (join ''d'' (''.hostseal-'' @ ''1''))),
     ei_key = Some (''key'', ''csr''), ei_machine_id = None, ei_salt = None, ei_sha = (\<lambda>b. b), ei_client = True,
     ei_reply = Inr demo_response, ei_state = (\<lambda>_ _. Some ''{}''), ei_record = (\<lambda>_ _. Some ''record''), ei_remove = (\<lambda>_. True),
     ei_adopt = (\<lambda>_. True), ei_procs = (\<lambda>_. demo_process)\<rparr>"

definition demo_installed :: fs where
  "demo_installed = demo_state_dir (Map.empty(TrustedSignersPath \<mapsto> (''ed25519 YWxwaGEh alice'', True)))"

lemma demo_temps: "temps_named demo_io"
  unfolding temps_named_def demo_io_def demo_write_def
  by (intro allI exI [of _ "''d''"] exI [of _ "''1''"]) simp

text \<open>A write whose calls all succeed.\<close>

abbreviation demo_tmp :: path where "demo_tmp \<equiv> join ''d'' (''.hostseal-'' @ ''1'')"

lemma write_clean:
  assumes "wr_fault io = None" "live s (wr_tmp io) = None" "wr_tmp io \<noteq> p"
  shows "write_file io p d s = (Inr (), demo_state_dir ((live s)(p \<mapsto> (d, True))))"
  using assms
  by (simp add: write_file_def WriteFileAtomic_def write_ops_def remove_temp_def demo_state_dir_def fun_upd_twist)
    (auto simp: fun_eq_iff)

lemma put_file_clean:
  assumes "live s demo_tmp = None" "demo_tmp \<noteq> p"
  shows "\<exists>tr. put_file demo_io p d s = (Inr (), tr, demo_state_dir ((live s)(p \<mapsto> (d, True))))"
  using write_clean [of "ei_write demo_io p" s p d] assms by (simp add: put_file_def demo_io_def demo_write_def)

lemma demo_tmp_apart: "demo_tmp \<noteq> join x name" if "CHR ''/'' \<notin> set name" "hd name \<noteq> CHR ''.''" "name \<noteq> []"
  using temp_fresh [OF demo_temps that, of p x] by (simp add: demo_io_def demo_write_def)

lemma demo_anchor: "\<exists>ks. trusted_signers demo_io demo_installed = (Some \<lparr>keys = [ks], set_source = TrustedSignersPath\<rparr>, None) \<and>
    Key ks = EdKey ''alpha!''"
proof -
  have "ParseSigners (ei_crypto demo_io) ''ed25519 YWxwaGEh alice'' TrustedSignersPath = Inr \<lparr>keys = [
      \<lparr>Algorithm = ''ed25519'', KeyID = ''alice'', Backend = [], Key = EdKey ''alpha!'', Encoded = ''YWxwaGEh''\<rparr>],
      set_source = TrustedSignersPath\<rparr>" by code_simp
  then show ?thesis
    by (simp add: trusted_signers_def demo_installed_def demo_state_dir_def demo_io_def LoadSignersFrom_def)
qed

lemma demo_prepare: "\<exists>signers. prepare demo_io demo_options demo_installed = (Inr signers, [], demo_installed) \<and>
    (\<forall>payload. \<exists>key. set_Verify (ei_crypto demo_io) signers payload ''A'' = Inr key) \<and> \<not> set_Empty signers"
proof -
  obtain k where k: "trusted_signers demo_io demo_installed = (Some \<lparr>keys = [k], set_source = TrustedSignersPath\<rparr>, None)"
    "Key k = EdKey ''alpha!''" using demo_anchor by blast
  have free: "live demo_installed (record_path demo_options) = None"
    by (simp add: demo_installed_def demo_state_dir_def record_path_def fixed_paths join_eq go_defs demo_options_def)
  have free': "ei_unreadable demo_io p = False" "ei_mkdir demo_io p" for p by (simp_all add: demo_io_def)
  have ne: "\<not> set_Empty (Some \<lparr>keys = [k], set_source = TrustedSignersPath\<rparr>)"
    by (simp add: set_Empty_def set_Keys_def)
  have "prepare demo_io demo_options demo_installed =
      (Inr (Some \<lparr>keys = [k], set_source = TrustedSignersPath\<rparr>), [], demo_installed)"
    using free by (simp add: prepare_def and_then_def check_def give_def reading_def k free' ne checkBootstrapInterlock_def
        demo_options_def)
  moreover have "set_Verify (ei_crypto demo_io) (Some \<lparr>keys = [k], set_source = TrustedSignersPath\<rparr>) payload ''A'' = Inr k" for payload
    using ne by (simp add: set_Verify_def set_Keys_def key_Verify_def k(2) demo_io_def)
  ultimately show ?thesis using ne by blast
qed

lemma demo_free: "live demo_installed (join ''d'' name) = None"
  by (simp add: demo_installed_def demo_state_dir_def fixed_paths join_def)

lemma demo_ask: "ask demo_io demo_options demo_installed =
    (Inr demo_response, [(Asked ''t'' [] ''std'', demo_installed)], demo_installed)"
proof -
  have "ValidHostID ''H1''" by (simp add: ValidHostID_def MaxHostIDBytes_def jobIDPattern_def id_char_def is_digit_def)
  then show ?thesis
    by (simp add: ask_def and_then_def MachineIDHash_def give_def note_event_def demo_io_def demo_options_def demo_response_def)
qed

lemma demo_template_of:
  assumes "set_Verify (ei_crypto demo_io) signers payload ''A'' = Inr key" "\<not> set_Empty signers"
    and "Marshal (bootstrap_SignedPayload demo_template) = Inr payload"
  shows "template_of demo_io demo_options signers demo_response demo_installed =
    (Inr (Some (demo_template, key)), [(Shown ''#cloud-config'', demo_installed)], demo_installed)"
proof -
  have "decodeSignature (bs_Signature demo_template) = Inr ''A''" by code_simp
  with assms show ?thesis
    using demo_free [of BootstrapRecordFile]
    by (simp add: template_of_def verifyBootstrap_def checkBootstrapInterlock_def and_then_def give_def note_event_def
        demo_options_def demo_response_def demo_template_def record_path_def) (simp add: demo_io_def)
qed

lemma demo_settle:
  obtains tr s3 where "settle_in demo_io demo_options demo_response demo_installed = (Inr (), tr, s3)"
    "live s3 demo_tmp = None" "live s3 (record_path demo_options) = None"
proof -
  let ?cur = "join ''d'' CredentialFile" and ?st = "join ''d'' StateFile"
  let ?c = "combineCredential ''cert'' ''key''"
  have absent: "read_file demo_installed ?cur = None" by (simp add: read_file_def demo_free)
  have tmp: "demo_tmp \<noteq> ?cur" "demo_tmp \<noteq> ?st" by (rule demo_tmp_apart; simp add: go_defs)+
  define s1 where "s1 = demo_state_dir ((live demo_installed)(?cur \<mapsto> (?c, True)))"
  have "WriteCredential (ei_pair demo_io) ''d'' (ei_write demo_io (join ''d'' PreviousCredentialFile)) (ei_write demo_io ?cur)
      ''cert'' ''key'' demo_installed = (Inr (), s1)"
    using write_clean [of "ei_write demo_io ?cur" demo_installed ?cur ?c] tmp
    by (simp add: WriteCredential_def Let_def keep_superseded_def absent demo_io_def demo_write_def demo_free s1_def)
  then obtain tr1 where c: "put_credential demo_io ''d'' ''cert'' ''key'' demo_installed = (Inr (), tr1, s1)"
    by (auto simp: put_credential_def Let_def)
  have t1: "live s1 demo_tmp = None" using tmp by (simp add: s1_def demo_state_dir_def demo_free)
  define s2 where "s2 = demo_state_dir ((live s1)(?st \<mapsto> (''{}'', True)))"
  obtain tr2 where f: "put_file demo_io ?st ''{}'' s1 = (Inr (), tr2, s2)"
    using put_file_clean [OF t1 tmp(2)] by (auto simp: s2_def)
  have on: "put_online demo_io ''d'' [] s = (Inr (), [], s)" for s
    by (simp add: put_online_def online_update_def give_def Let_def trim_space_def)
  have "\<exists>tr. settle_in demo_io demo_options demo_response demo_installed = (Inr (), tr, s2)"
    using c f on
    by (simp add: settle_in_def and_then_def give_def note_event_def check_def demo_options_def demo_response_def Let_def demo_io_def)
  moreover have "live s2 demo_tmp = None" using tmp t1 by (simp add: s2_def demo_state_dir_def)
  moreover have "live s2 (record_path demo_options) = None"
    by (simp add: s2_def s1_def demo_state_dir_def record_path_def demo_options_def join_eq go_defs demo_free)
  ultimately show thesis using that by blast
qed

lemma demo_apply:
  assumes "live s demo_tmp = None" "live s (record_path demo_options) = None"
  shows "applied (fst (snd (applyBootstrap demo_io demo_options demo_template key ''H1'' s)))"
proof -
  let ?q = "record_path demo_options"
  have tmp: "demo_tmp \<noteq> ?q" "demo_tmp \<noteq> join CloudInitSeedDir ''user-data''" "demo_tmp \<noteq> join CloudInitSeedDir ''meta-data''"
    unfolding record_path_def by (rule demo_tmp_apart; simp add: go_defs)+
  have w: "ei_write demo_io p = demo_write demo_tmp" for p by (simp add: demo_io_def)
  obtain tr1 s1 where one: "put_new_file demo_io ?q ''record'' s = (Inr (), tr1, s1)" "live s1 demo_tmp = None"
    using assms tmp(1)
    by (simp add: put_new_file_def Let_def w demo_write_def WriteFileExclusive_def write_ops_def remove_temp_def)
  define s2 where "s2 = demo_state_dir ((live s1)(join CloudInitSeedDir ''user-data'' \<mapsto> (''#cloud-config'', True)))"
  from put_file_clean [OF one(2) tmp(2), of "''#cloud-config''"] obtain tr2 where
    "put_file demo_io (join CloudInitSeedDir ''user-data'') ''#cloud-config'' s1 = (Inr (), tr2, s2)" unfolding s2_def by blast
  moreover have "live s2 demo_tmp = None" using one(2) tmp(2) by (simp add: s2_def demo_state_dir_def)
  ultimately have two: "put_file demo_io (join CloudInitSeedDir ''user-data'') ''#cloud-config'' s1 = (Inr (), tr2, s2)"
    "live s2 demo_tmp = None" by blast+
  from put_file_clean [OF two(2) tmp(3)] obtain tr3 s3 where
    three: "put_file demo_io (join CloudInitSeedDir ''meta-data'') (''instance-id: hostseal-bootstrap-'' @ ''H1'' @ [CHR 0x0A]) s2 = (Inr (), tr3, s3)"
    by blast
  have v: "ValidHostID ''H1''" by (simp add: ValidHostID_def MaxHostIDBytes_def jobIDPattern_def id_char_def is_digit_def)
  have "\<exists>tr4 s4 r. runCloudInit demo_io s3 = (r, (CloudInitStage [''init'', ''--local''], s3) # tr4, s4)"
    unfolding runCloudInit_def cloudInitStages_def run_stages.simps(2) and_then_def note_event_def
    by (simp split: prod.split)
  then obtain tr4 s4 r where four: "runCloudInit demo_io s3 = (r, (CloudInitStage [''init'', ''--local''], s3) # tr4, s4)" by blast
  have seed: "writeSeed demo_io ''H1'' ''#cloud-config'' s1 = (Inr (), tr2 @ tr3, s3)"
    using two three v by (simp add: writeSeed_def and_then_def) (simp add: demo_io_def)
  have rec: "ei_record demo_io = (\<lambda>_ _. Some ''record'')" by (simp add: demo_io_def)
  have "(CloudInitStage [''init'', ''--local''], s3) \<in> set (fst (snd (applyBootstrap demo_io demo_options demo_template key ''H1'' s)))"
    using one(1) seed four
    by (simp add: applyBootstrap_def rec and_then_def finally_do_def demo_template_def split: prod.split)
  then show ?thesis unfolding applied_def by blast
qed

lemma demo_enrolled:
  obtains r tr s' where "Enroll demo_io demo_options demo_installed = (r, tr, s')" "applied tr"
    "(Asked ''t'' [] ''std'', demo_installed) \<in> set tr"
proof -
  obtain signers where p: "prepare demo_io demo_options demo_installed = (Inr signers, [], demo_installed)"
    "\<And>payload. \<exists>key. set_Verify (ei_crypto demo_io) signers payload ''A'' = Inr key" "\<not> set_Empty signers"
    using demo_prepare by blast
  have "\<exists>payload. Marshal (bootstrap_SignedPayload demo_template) = Inr payload"
    by (rule exI [of _ "''{\"body\":\"#cloud-config\",\"name\":\"std\"}''"]) code_simp
  then obtain payload key where m: "Marshal (bootstrap_SignedPayload demo_template) = Inr payload"
    "set_Verify (ei_crypto demo_io) signers payload ''A'' = Inr key" using p(2) by blast
  obtain tr3 s3 where st: "settle_in demo_io demo_options demo_response demo_installed = (Inr (), tr3, s3)"
    "live s3 demo_tmp = None" "live s3 (record_path demo_options) = None" by (rule demo_settle)
  obtain r4 tr4 s4 where ap: "applyBootstrap demo_io demo_options demo_template key ''H1'' s3 = (r4, tr4, s4)" by (rule prod_cases3)
  with demo_apply [OF st(2,3), of key] obtain args v where a: "(CloudInitStage args, v) \<in> set tr4" by (auto simp: applied_def)
  obtain r tr s' where run: "Enroll demo_io demo_options demo_installed = (r, tr, s')" by (rule prod_cases3)
  have h: "er_HostID demo_response = ''H1''" by (simp add: demo_response_def)
  from run have "set tr4 \<union> {(Asked ''t'' [] ''std'', demo_installed)} \<subseteq> set tr"
    unfolding Enroll_def and_then_def
    by (simp add: p(1) demo_ask demo_template_of [OF m(2) p(3) m(1)] st(1) ap h split: prod.splits sum.splits) auto
  with a run show thesis by (intro that) (auto simp: applied_def)
qed

text \<open>After it the host refuses every other template.\<close>

theorem template_at_most_once_witness:
  "\<exists>s. host_life ''d'' s 1 \<and> (\<forall>io. temps_named io \<longrightarrow> \<not> applied (fst (snd (Enroll io demo_options s))))"
proof -
  obtain r tr s' where run: "Enroll demo_io demo_options demo_installed = (r, tr, s')" "applied tr" by (rule demo_enrolled)
  have o: "o_StateDir demo_options = ''d''" by (simp add: demo_options_def)
  from host_life.enrolling [OF host_life.installed demo_temps o, of demo_installed r tr "[]" s' "stopped_at demo_installed tr"] run
  have once: "host_life ''d'' (stopped_at demo_installed tr) 1" by (simp add: stops_def)
  have "\<not> applied (fst (snd (Enroll io demo_options (stopped_at demo_installed tr))))" if "temps_named io" for io
  proof
    obtain r2 tr2 s2 where run2: "Enroll io demo_options (stopped_at demo_installed tr) = (r2, tr2, s2)" by (rule prod_cases3)
    assume "applied (fst (snd (Enroll io demo_options (stopped_at demo_installed tr))))"
    with run2 have "applied tr2" by simp
    with host_life.enrolling [OF once that o, of r2 tr2 "[]" s2 "stopped_at (stopped_at demo_installed tr) tr2"] run2
    have "host_life ''d'' (stopped_at (stopped_at demo_installed tr) tr2) 2" by (simp add: stops_def numeral_2_eq_2)
    from template_at_most_once [OF this] show False by simp
  qed
  with once show ?thesis by blast
qed

theorem template_verified_witness:
  "\<exists>v. read_file v (join ''d'' CredentialFile) = Some (combineCredential ''cert'' ''key'') \<and> recorded demo_options v \<and>
    read_file v (join CloudInitSeedDir ''user-data'') = Some (bs_Body demo_template)"
proof -
  obtain r tr s' where run: "Enroll demo_io demo_options demo_installed = (r, tr, s')" "applied tr" by (rule demo_enrolled)
  then obtain args v where "(CloudInitStage args, v) \<in> set tr" by (auto simp: applied_def)
  from template_verified [OF demo_temps run(1) this]
  have "read_file v (join ''d'' CredentialFile) = Some (combineCredential ''cert'' ''key'') \<and> recorded demo_options v \<and>
    read_file v (join CloudInitSeedDir ''user-data'') = Some (bs_Body demo_template)"
    by (auto simp: demo_io_def demo_response_def demo_options_def)
  then show ?thesis by blast
qed

theorem anchor_before_token_witness:
  "\<exists>signers tr0 s0. prepare demo_io demo_options demo_installed = (Inr signers, tr0, s0) \<and> \<not> set_Empty signers \<and>
     live s0 (record_path demo_options) = None"
proof -
  obtain r tr s' where run: "Enroll demo_io demo_options demo_installed = (r, tr, s')"
    "(Asked ''t'' [] ''std'', demo_installed) \<in> set tr" by (rule demo_enrolled)
  from anchor_before_token [OF run] show ?thesis by (auto simp: demo_options_def)
qed

end
