(* ===== verification/Password.thy ===== *)
theory Password
  imports Base64 Go_Strings
begin

text \<open>
  \<open>internal/auth/password.go\<close>: how a password is stored and checked. The key derivation (Argon2id) is an
  argument; what it is asked for is recorded, because its cost is what the bounds of this file bound.
\<close>

section \<open>Limits\<close>

definition MinPasswordLength :: nat where [go_defs]: "MinPasswordLength = 12"
definition MaxPasswordLength :: nat where [go_defs]: "MaxPasswordLength = 256"
definition argonVersion :: nat where [go_defs]: "argonVersion = 19"
definition argonTime :: nat where [go_defs]: "argonTime = 3"
definition argonMemory :: nat where [go_defs]: "argonMemory = 65536"
definition argonThreads :: nat where [go_defs]: "argonThreads = 4"
definition argonSaltLength :: nat where [go_defs]: "argonSaltLength = 16"
definition argonKeyLength :: nat where [go_defs]: "argonKeyLength = 32"
definition maxArgonTime :: nat where [go_defs]: "maxArgonTime = 16"
definition maxArgonMemory :: nat where [go_defs]: "maxArgonMemory = 1048576"
definition maxArgonThreads :: nat where [go_defs]: "maxArgonThreads = 16"
definition maxArgonKeyLength :: nat where [go_defs]: "maxArgonKeyLength = 64"

section \<open>Unpadded base 64\<close>

text \<open>\<open>base64.RawStdEncoding\<close>: line breaks are skipped, a padding character is an error, and a last group
  of one character is one too.\<close>

definition raw64_encode :: "bytes \<Rightarrow> bytes" where
  "raw64_encode s = filter (\<lambda>c. c \<noteq> pad) (b64_encode s)"

definition raw64_decode :: "bytes \<Rightarrow> bytes option" where
  "raw64_decode s =
     (let t = filter (\<lambda>c. \<not> b64_newline c) s
      in if pad \<in> set t \<or> length t mod 4 = 1 then None
         else b64_quanta (t @ replicate ((4 - length t mod 4) mod 4) pad))"

section \<open>Stored hashes\<close>

record argon_params =
  ap_memory :: nat
  ap_time :: nat
  ap_threads :: nat

definition encodePHC :: "argon_params \<Rightarrow> bytes \<Rightarrow> bytes \<Rightarrow> bytes" where
  "encodePHC p salt key =
     ''$argon2id$v='' @ nat_digits argonVersion @ ''$m='' @ nat_digits (ap_memory p) @ '',t='' @ nat_digits (ap_time p) @
     '',p='' @ nat_digits (ap_threads p) @ ''$'' @ raw64_encode salt @ ''$'' @ raw64_encode key"

text \<open>\<open>fmt.Sscanf(s, "v=%d", &n)\<close>: the literal, spaces that are not a line break, an optional sign, and
  the decimal digits that follow; the rest of the text is not read.\<close>

definition sscanf_version :: "bytes \<Rightarrow> int option" where
  "sscanf_version s =
     (if \<not> has_prefix s ''v='' then None
      else let t = concat (dropWhile (\<lambda>r. is_space_rune r \<and> r \<noteq> [CHR 0x0A]) (runes (drop 2 s)));
               (sgn, u) = (case t of [] \<Rightarrow> ([], t) | c # cs \<Rightarrow> if c = CHR ''-'' \<or> c = CHR ''+'' then ([c], cs) else ([], t));
               ds = takeWhile is_digit u
           in if ds = [] then None else parse_int64 (sgn @ ds))"

text \<open>\<open>strconv.ParseUint(s, 10, 32)\<close>.\<close>

definition parse_uint32 :: "bytes \<Rightarrow> nat option" where
  "parse_uint32 s =
     (if s \<noteq> [] \<and> list_all is_digit s \<and> digits_val s < 4294967296 then Some (nat (digits_val s)) else None)"

definition parseParam :: "bytes \<Rightarrow> bytes \<Rightarrow> nat \<Rightarrow> nat option" where
  "parseParam field prefix ceiling =
     (if \<not> has_prefix field prefix then None
      else case parse_uint32 (drop (length prefix) field) of
        None \<Rightarrow> None
      | Some value \<Rightarrow> if value = 0 \<or> ceiling < value then None else Some value)"

definition parsePasswordHash :: "bytes \<Rightarrow> (argon_params \<times> bytes \<times> bytes) option" where
  "parsePasswordHash encoded =
     (let parts = split_on (CHR ''$'') encoded in
      if length parts \<noteq> 6 \<or> parts ! 0 \<noteq> [] \<or> parts ! 1 \<noteq> ''argon2id'' then None
      else if sscanf_version (parts ! 2) \<noteq> Some (int argonVersion) then None
      else let params = split_on (CHR '','') (parts ! 3) in
        if length params \<noteq> 3 then None
        else case parseParam (params ! 0) ''m='' maxArgonMemory of
          None \<Rightarrow> None
        | Some memory \<Rightarrow>
            (case parseParam (params ! 1) ''t='' maxArgonTime of
               None \<Rightarrow> None
             | Some time \<Rightarrow>
                 (case parseParam (params ! 2) ''p='' maxArgonThreads of
                    None \<Rightarrow> None
                  | Some threads \<Rightarrow>
                      (case raw64_decode (parts ! 4) of
                         None \<Rightarrow> None
                       | Some salt \<Rightarrow>
                           if length salt < 8 \<or> maxArgonKeyLength < length salt then None
                           else (case raw64_decode (parts ! 5) of
                             None \<Rightarrow> None
                           | Some key \<Rightarrow>
                               if length key < 16 \<or> maxArgonKeyLength < length key then None
                               else Some (\<lparr>ap_memory = memory, ap_time = time, ap_threads = threads\<rparr>, salt, key))))))"

section \<open>Hashing and verifying\<close>

text \<open>What \<open>argon2.IDKey\<close> is asked: password, salt, costs and the length of the key.\<close>

record derivation =
  dv_password :: bytes
  dv_salt :: bytes
  dv_params :: argon_params
  dv_length :: nat

type_synonym argon = "derivation \<Rightarrow> bytes"

datatype password_error = ErrPasswordTooShort | ErrPasswordTooLong | NoRandomness

definition HashPassword :: "argon \<Rightarrow> bytes option \<Rightarrow> bytes \<Rightarrow> (password_error, bytes) result" where
  "HashPassword argon random_salt password =
     (if length (runes password) < MinPasswordLength then Inl ErrPasswordTooShort
      else if MaxPasswordLength < length password then Inl ErrPasswordTooLong
      else case random_salt of
        None \<Rightarrow> Inl NoRandomness
      | Some salt \<Rightarrow>
          let p = \<lparr>ap_memory = argonMemory, ap_time = argonTime, ap_threads = argonThreads\<rparr>;
              key = argon \<lparr>dv_password = password, dv_salt = salt, dv_params = p, dv_length = argonKeyLength\<rparr>
          in Inr (encodePHC p salt key))"

text \<open>The answer, and the derivation it took, if it took one.\<close>

definition VerifyPassword :: "argon \<Rightarrow> bytes \<Rightarrow> bytes \<Rightarrow> bool \<times> derivation option" where
  "VerifyPassword argon encoded password = (case parsePasswordHash encoded of
      None \<Rightarrow> (False, None)
    | Some (p, salt, want) \<Rightarrow>
        if MaxPasswordLength < length password then (False, None)
        else let d = \<lparr>dv_password = password, dv_salt = salt, dv_params = p, dv_length = length want\<rparr>
             in (argon d = want, Some d))"

definition NeedsRehash :: "bytes \<Rightarrow> bool" where
  "NeedsRehash encoded = (case parsePasswordHash encoded of
      None \<Rightarrow> False
    | Some (p, salt, want) \<Rightarrow>
        ap_memory p < argonMemory \<or> ap_time p < argonTime \<or> ap_threads p < argonThreads \<or> length want < argonKeyLength)"

section \<open>The round trip of a stored hash\<close>

lemma split_on_none: "sep \<notin> set s \<Longrightarrow> split_on sep s = [s]"
  by (induction s) auto

lemma split_on_append: "sep \<notin> set a \<Longrightarrow> split_on sep (a @ sep # b) = a # split_on sep b"
  by (induction a) auto

lemma raw64_length: "length (filter (\<lambda>c. c \<noteq> pad) (b64_encode s)) mod 4 \<noteq> 1 \<and>
    filter (\<lambda>c. c \<noteq> pad) (b64_encode s) @
      replicate ((4 - length (filter (\<lambda>c. c \<noteq> pad) (b64_encode s)) mod 4) mod 4) pad = b64_encode s"
  by (induction s rule: b64_encode.induct) (simp_all add: b64_simps numeral_2_eq_2)

lemma raw64_roundtrip: "raw64_decode (raw64_encode s) = Some s"
proof -
  have "filter (\<lambda>c. \<not> b64_newline c) (raw64_encode s) = raw64_encode s"
    using b64_encode_no_newline [of s] unfolding raw64_encode_def filter_filter filter_id_conv
    by (intro filter_cong) auto
  then show ?thesis
    using raw64_length [of s] by (simp add: raw64_decode_def raw64_encode_def b64_quanta_encode)
qed

lemma b64_chars: "c \<in> set (b64_encode s) \<Longrightarrow> c = pad \<or> (\<exists>v < 64. c = b64_char v)"
proof (induction s rule: b64_encode.induct)
  case (4 a b d rest)
  then show ?case using digits_bounds(1) [of a] digits_bounds(3) [of a b] digits_bounds(5) [of b d] digits_bounds(6) [of d]
    by (simp only: b64_encode.simps list.set insert_iff) blast
next
  case (3 a b)
  then show ?case using digits_bounds(1) [of a] digits_bounds(3) [of a b] digits_bounds(4) [of b]
    by (simp only: b64_encode.simps list.set insert_iff empty_iff) blast
next
  case (2 a)
  then show ?case using digits_bounds(1) [of a] digits_bounds(2) [of a]
    by (simp only: b64_encode.simps list.set insert_iff empty_iff) blast
qed simp

lemma raw64_chars: "c \<in> set (raw64_encode s) \<Longrightarrow> \<exists>v < 64. c = b64_char v"
  using b64_chars by (auto simp: raw64_encode_def)

lemma b64_char_no_sep: "v < 64 \<Longrightarrow> b64_char v \<noteq> CHR ''$''"
proof
  assume "v < 64" "b64_char v = CHR ''$''"
  then have "b64_val (CHR ''$'') = Some v" using b64_val_char by metis
  then show False by (simp add: b64_val_def)
qed

lemma digits_no_sep: "is_digit c \<Longrightarrow> c \<noteq> CHR ''$'' \<and> c \<noteq> CHR '',''"
  by (auto simp: is_digit_def)

lemma nat_digits_no_sep: "CHR ''$'' \<notin> set (nat_digits n)" "CHR '','' \<notin> set (nat_digits n)"
  using nat_digits_digits [of n] digits_no_sep by (auto simp: list_all_iff)

lemma parseParam_digits:
  assumes "0 < n" "n \<le> ceiling" "ceiling < 4294967296"
  shows "parseParam (prefix @ nat_digits n) prefix ceiling = Some n"
  using assms nat_digits_digits [of n] by (simp add: parseParam_def has_prefix_def parse_uint32_def)

lemma raw64_no_sep: "CHR ''$'' \<notin> set (raw64_encode s)"
  using raw64_chars b64_char_no_sep by metis

lemma sscanf_own_version: "sscanf_version (''v='' @ nat_digits argonVersion) = Some (int argonVersion)"
  by code_simp

text \<open>Costs that this build accepts from a stored row, and material of the lengths it accepts.\<close>

definition params_bounded :: "argon_params \<Rightarrow> bool" where
  "params_bounded p \<longleftrightarrow> 0 < ap_memory p \<and> ap_memory p \<le> maxArgonMemory \<and> 0 < ap_time p \<and> ap_time p \<le> maxArgonTime \<and>
     0 < ap_threads p \<and> ap_threads p \<le> maxArgonThreads"

definition material_bounded :: "bytes \<Rightarrow> bytes \<Rightarrow> bool" where
  "material_bounded salt key \<longleftrightarrow> 8 \<le> length salt \<and> length salt \<le> maxArgonKeyLength \<and>
     16 \<le> length key \<and> length key \<le> maxArgonKeyLength"

lemma parse_encode:
  assumes "params_bounded p" "material_bounded salt key"
  shows "parsePasswordHash (encodePHC p salt key) = Some (p, salt, key)"
proof -
  let ?ps = "''m='' @ nat_digits (ap_memory p) @ '',t='' @ nat_digits (ap_time p) @ '',p='' @ nat_digits (ap_threads p)"
  note no = nat_digits_no_sep raw64_no_sep
  have enc: "encodePHC p salt key = [] @ CHR ''$'' # ''argon2id'' @ CHR ''$'' # (''v='' @ nat_digits argonVersion) @
      CHR ''$'' # ?ps @ CHR ''$'' # raw64_encode salt @ CHR ''$'' # raw64_encode key"
    by (simp add: encodePHC_def)
  have parts: "split_on (CHR ''$'') (encodePHC p salt key) =
      [[], ''argon2id'', ''v='' @ nat_digits argonVersion, ?ps, raw64_encode salt, raw64_encode key]"
    unfolding enc
    by (subst split_on_append, simp, subst split_on_append, simp, subst split_on_append, simp add: no,
        subst split_on_append, simp add: no, subst split_on_append, simp add: no, subst split_on_none, simp_all add: no)
  have ps: "?ps = (''m='' @ nat_digits (ap_memory p)) @ CHR '','' # (''t='' @ nat_digits (ap_time p)) @
      CHR '','' # (''p='' @ nat_digits (ap_threads p))" by simp
  have params: "split_on (CHR '','') ?ps =
      [''m='' @ nat_digits (ap_memory p), ''t='' @ nat_digits (ap_time p), ''p='' @ nat_digits (ap_threads p)]"
    unfolding ps
    by (subst split_on_append, simp add: no, subst split_on_append, simp add: no, subst split_on_none, simp_all add: no)
  have "parseParam (''m='' @ nat_digits (ap_memory p)) ''m='' maxArgonMemory = Some (ap_memory p)"
    "parseParam (''t='' @ nat_digits (ap_time p)) ''t='' maxArgonTime = Some (ap_time p)"
    "parseParam (''p='' @ nat_digits (ap_threads p)) ''p='' maxArgonThreads = Some (ap_threads p)"
    using assms(1) by (intro parseParam_digits; simp add: params_bounded_def go_defs)+
  with assms(2) show ?thesis
    unfolding parsePasswordHash_def Let_def parts
    by (simp add: sscanf_own_version params raw64_roundtrip material_bounded_def not_less del: append_Cons split_on.simps)
qed

text \<open>What is stored reads back as the costs of this build, the salt and the key.\<close>

lemma stored_form:
  assumes "HashPassword argon (Some salt) password = Inr encoded" "length salt = 16"
    and "\<And>d. length (argon d) = dv_length d"
  obtains key where "parsePasswordHash encoded =
      Some (\<lparr>ap_memory = argonMemory, ap_time = argonTime, ap_threads = argonThreads\<rparr>, salt, key)" "length key = 32"
    "key = argon \<lparr>dv_password = password, dv_salt = salt,
      dv_params = \<lparr>ap_memory = argonMemory, ap_time = argonTime, ap_threads = argonThreads\<rparr>, dv_length = 32\<rparr>"
    "12 \<le> length (runes password)" "length password \<le> 256"
proof -
  let ?p = "\<lparr>ap_memory = argonMemory, ap_time = argonTime, ap_threads = argonThreads\<rparr>"
  let ?key = "argon \<lparr>dv_password = password, dv_salt = salt, dv_params = ?p, dv_length = argonKeyLength\<rparr>"
  have len: "length ?key = argonKeyLength" using assms(3) by simp
  have e: "encoded = encodePHC ?p salt ?key" "12 \<le> length (runes password)" "length password \<le> 256"
    using assms(1) by (auto simp: HashPassword_def Let_def MinPasswordLength_def MaxPasswordLength_def split: if_splits)
  have "parsePasswordHash encoded = Some (?p, salt, ?key)"
    unfolding e(1) by (rule parse_encode) (use assms(2) len in \<open>simp_all add: params_bounded_def material_bounded_def go_defs\<close>)
  with e(2,3) len show ?thesis by (intro that [of ?key]) (simp_all add: argonKeyLength_def)
qed

text \<open>A password that could be stored verifies against what was stored, by one derivation with exactly the
  costs of this build, and the stored form needs no rewriting.\<close>

theorem HashPassword_verifies:
  assumes "HashPassword argon (Some salt) password = Inr encoded" "length salt = 16"
    and "\<And>d. length (argon d) = dv_length d"
  shows "fst (VerifyPassword argon encoded password) \<and> \<not> NeedsRehash encoded \<and>
    12 \<le> length (runes password) \<and> length password \<le> 256"
proof -
  obtain key where "parsePasswordHash encoded =
      Some (\<lparr>ap_memory = argonMemory, ap_time = argonTime, ap_threads = argonThreads\<rparr>, salt, key)" "length key = 32"
    "key = argon \<lparr>dv_password = password, dv_salt = salt,
      dv_params = \<lparr>ap_memory = argonMemory, ap_time = argonTime, ap_threads = argonThreads\<rparr>, dv_length = 32\<rparr>"
    "12 \<le> length (runes password)" "length password \<le> 256"
    by (rule stored_form [OF assms])
  then show ?thesis by (simp add: VerifyPassword_def NeedsRehash_def Let_def MaxPasswordLength_def argonKeyLength_def)
qed

lemma parseParam_bound: "parseParam f pre c = Some n \<Longrightarrow> 0 < n \<and> n \<le> c"
  by (auto simp: parseParam_def split: if_splits option.splits)

lemma parsePasswordHash_bounded:
  "parsePasswordHash encoded = Some (p, salt, key) \<Longrightarrow> params_bounded p \<and> material_bounded salt key"
  by (auto simp: parsePasswordHash_def Let_def params_bounded_def material_bounded_def not_less
      dest!: parseParam_bound split: if_splits option.splits)

text \<open>Whatever the stored row holds and whatever the caller sends, the derivation asked for stays within a
  gibibyte of memory, sixteen passes, one to sixteen lanes and a key of at most 64 bytes, over at most
  256 bytes of password; a row that asks for more, or a longer password, is refused without one.\<close>

theorem verification_is_bounded:
  assumes "VerifyPassword argon encoded password = (ok, Some d)"
  shows "0 < ap_memory (dv_params d) \<and> ap_memory (dv_params d) \<le> 1048576 \<and> 0 < ap_time (dv_params d) \<and>
    ap_time (dv_params d) \<le> 16 \<and> 0 < ap_threads (dv_params d) \<and> ap_threads (dv_params d) \<le> 16 \<and>
    16 \<le> dv_length d \<and> dv_length d \<le> 64 \<and> length (dv_salt d) \<le> 64 \<and> length (dv_password d) \<le> 256"
proof -
  from assms obtain p salt want where p: "parsePasswordHash encoded = Some (p, salt, want)" and
    d: "d = \<lparr>dv_password = password, dv_salt = salt, dv_params = p, dv_length = length want\<rparr>" "length password \<le> 256"
    by (auto simp: VerifyPassword_def Let_def MaxPasswordLength_def split: option.splits if_splits)
  from parsePasswordHash_bounded [OF p] d show ?thesis
    by (simp add: params_bounded_def material_bounded_def go_defs)
qed

definition toy_argon :: argon where
  "toy_argon d = take (dv_length d) (dv_salt d @ dv_password d @ replicate (dv_length d) (CHR ''k''))"

theorem HashPassword_verifies_witness:
  "\<exists>encoded. HashPassword toy_argon (Some ''0123456789abcdef'') ''correct horse'' = Inr encoded \<and>
     fst (VerifyPassword toy_argon encoded ''correct horse'')"
proof -
  have len: "length (toy_argon d) = dv_length d" for d by (simp add: toy_argon_def)
  obtain encoded where e: "HashPassword toy_argon (Some ''0123456789abcdef'') ''correct horse'' = Inr encoded"
    by (simp add: HashPassword_def MinPasswordLength_def MaxPasswordLength_def Let_def)
  from HashPassword_verifies [OF e _ len] e show ?thesis by simp
qed

theorem verification_is_bounded_witness:
  "\<exists>d. snd (VerifyPassword toy_argon (encodePHC \<lparr>ap_memory = 64, ap_time = 1, ap_threads = 1\<rparr> ''saltsalt'' ''keykeykeykeykeyk'') ''x'') = Some d \<and>
     dv_length d \<le> 64"
proof -
  let ?e = "encodePHC \<lparr>ap_memory = 64, ap_time = 1, ap_threads = 1\<rparr> ''saltsalt'' ''keykeykeykeykeyk''"
  have "parsePasswordHash ?e = Some (\<lparr>ap_memory = 64, ap_time = 1, ap_threads = 1\<rparr>, ''saltsalt'', ''keykeykeykeykeyk'')"
    by (rule parse_encode) (simp_all add: params_bounded_def material_bounded_def go_defs)
  then obtain ok d where "VerifyPassword toy_argon ?e ''x'' = (ok, Some d)"
    by (simp add: VerifyPassword_def MaxPasswordLength_def Let_def)
  from verification_is_bounded [OF this] this show ?thesis by auto
qed

end
