(* ===== verification/Identifier.thy ===== *)
theory Identifier
  imports Protocol
begin

text \<open>
  Package \<open>internal/id\<close>: the identifiers of hosts and jobs, and \<open>internal/server/ids.go\<close>, the enrolment
  tokens that are encoded the same way. The random bytes and the clock's milliseconds are arguments.
\<close>

section \<open>Base 32\<close>

definition alphabet :: bytes where [go_defs]: "alphabet = ''0123456789ABCDEFGHJKMNPQRSTVWXYZ''"

text \<open>\<open>encoding/base32\<close> without padding: the bits of the bytes, most significant first, five to a
  character, the last character filled up with zeros.\<close>

definition byte_bits :: "char \<Rightarrow> bool list" where
  "byte_bits c = map (\<lambda>i. odd (bv c div 2 ^ i)) [7, 6, 5, 4, 3, 2, 1, 0]"

definition bits_val :: "bool list \<Rightarrow> nat" where
  "bits_val bs = foldl (\<lambda>n b. 2 * n + (if b then 1 else 0)) 0 bs"

fun quintets :: "bool list \<Rightarrow> nat list" where
  "quintets (a # b # c # d # e # rest) = bits_val [a, b, c, d, e] # quintets rest"
| "quintets bs = []"

definition fill5 :: "bool list \<Rightarrow> bool list" where
  "fill5 bs = bs @ replicate ((5 - length bs mod 5) mod 5) False"

definition Encoding :: "bytes \<Rightarrow> bytes" where
  "Encoding raw = map (\<lambda>q. alphabet ! q) (quintets (fill5 (concat (map byte_bits raw))))"

text \<open>\<open>Encoding.EncodedLen\<close>.\<close>

definition EncodedLen :: "nat \<Rightarrow> nat" where
  "EncodedLen n = n div 5 * 8 + (n mod 5 * 8 + 4) div 5"

section \<open>Identifiers\<close>

definition stamp_bytes :: "int \<Rightarrow> bytes" where
  "stamp_bytes ms = map (\<lambda>i. char_of (nat (take_bit 8 (drop_bit (8 * i) ms)))) [5, 4, 3, 2, 1, 0]"

text \<open>\<open>rand.Read\<close> fills ten bytes or fails.\<close>

definition id_New :: "int \<Rightarrow> bytes option \<Rightarrow> bytes option" where
  "id_New ms rnd = (case rnd of None \<Rightarrow> None | Some r \<Rightarrow> Some (Encoding (stamp_bytes ms @ r)))"

definition NewID :: "int \<Rightarrow> bytes option \<Rightarrow> bytes option" where
  "NewID ms rnd = id_New ms rnd"

section \<open>Enrolment tokens\<close>

definition enrollmentTokenBytes :: nat where [go_defs]: "enrollmentTokenBytes = 32"
definition enrollmentTokenPrefix :: bytes where [go_defs]: "enrollmentTokenPrefix = ''hsl_''"

definition HashToken :: "(bytes \<Rightarrow> bytes) \<Rightarrow> bytes \<Rightarrow> bytes" where
  "HashToken sha256_hex token = sha256_hex (trim_space token)"

definition NewEnrollmentToken :: "(bytes \<Rightarrow> bytes) \<Rightarrow> bytes option \<Rightarrow> (bytes \<times> bytes) option" where
  "NewEnrollmentToken sha256_hex rnd = (case rnd of
      None \<Rightarrow> None
    | Some raw \<Rightarrow> let token = enrollmentTokenPrefix @ to_lower (Encoding raw) in Some (token, HashToken sha256_hex token))"

definition EnrollmentTokenStandIn :: bytes where
  "EnrollmentTokenStandIn = enrollmentTokenPrefix @ replicate (EncodedLen enrollmentTokenBytes) (CHR ''0'')"

section \<open>The value of an encoding\<close>

text \<open>A string of digits in base \<open>B\<close>; strings of one length are ordered as their values.\<close>

definition digits_value :: "nat \<Rightarrow> nat list \<Rightarrow> nat" where
  "digits_value B ds = foldl (\<lambda>n d. B * n + d) 0 ds"

lemma foldl_digits: "foldl (\<lambda>n d. B * n + d) k ds = k * B ^ length ds + digits_value B ds"
proof (induction ds arbitrary: k rule: rev_induct)
  case (snoc d ds)
  have "digits_value B (ds @ [d]) = B * digits_value B ds + d" by (simp add: digits_value_def)
  with snoc show ?case by (simp add: algebra_simps)
qed (simp add: digits_value_def)

lemma digits_value_Cons: "digits_value B (d # ds) = d * B ^ length ds + digits_value B ds"
  using foldl_digits [of B d ds] by (simp add: digits_value_def)

lemma digits_value_append: "digits_value B (xs @ ys) = digits_value B xs * B ^ length ys + digits_value B ys"
  by (induction xs) (simp_all add: digits_value_Cons digits_value_def [of B "[]"] power_add algebra_simps)

lemma digits_value_less: "\<forall>d \<in> set ds. d < B \<Longrightarrow> digits_value B ds < B ^ length ds"
proof (induction ds)
  case (Cons d ds)
  then have "digits_value B ds < B ^ length ds" "d + 1 \<le> B" by auto
  then have "d * B ^ length ds + digits_value B ds < (d + 1) * B ^ length ds" by (simp add: algebra_simps)
  also have "\<dots> \<le> B * B ^ length ds" using \<open>d + 1 \<le> B\<close> by (rule mult_le_mono1)
  finally show ?case by (simp add: digits_value_Cons)
qed (simp add: digits_value_def)

lemma digits_order:
  assumes "length xs = length ys" "\<forall>d \<in> set xs. d < B" "\<forall>d \<in> set ys. d < B"
  shows "digits_value B xs < digits_value B ys \<longleftrightarrow> xs < ys"
  using assms
proof (induction rule: list_induct2)
  case (Cons x xs y ys)
  have less: "digits_value B xs < B ^ length xs" "digits_value B ys < B ^ length xs"
    using digits_value_less [of xs B] digits_value_less [of ys B] Cons by auto
  have lt: "a * P + u < b * P + v" if "a < b" "u < P" for a b u v P :: nat
  proof -
    have "a * P + u < (a + 1) * P" using that(2) by simp
    also have "\<dots> \<le> b * P" using that(1) by (intro mult_le_mono1) simp
    finally show ?thesis by simp
  qed
  from Cons lt [of x y "digits_value B xs" "B ^ length xs" "digits_value B ys"]
    lt [of y x "digits_value B ys" "B ^ length xs" "digits_value B xs"] less
  show ?case by (cases x y rule: linorder_cases) (auto simp: digits_value_Cons not_less_iff_gr_or_eq)
qed simp

lemma bits_val_digits: "bits_val bs = digits_value 2 (map (\<lambda>b. if b then 1 else 0) bs)"
proof -
  have "foldl (\<lambda>n b. 2 * n + (if b then 1 else 0)) k bs = foldl (\<lambda>n d. 2 * n + d) k (map (\<lambda>b. if b then 1 else 0) bs)" for k
    by (induction bs arbitrary: k) auto
  then show ?thesis by (simp add: bits_val_def digits_value_def)
qed

lemma bits_val_append: "bits_val (xs @ ys) = bits_val xs * 2 ^ length ys + bits_val ys"
  by (simp add: bits_val_digits digits_value_append)

lemma bits_val_less: "bits_val bs < 2 ^ length bs"
proof -
  have "\<forall>d \<in> set (map (\<lambda>b. if b then 1 else 0) bs). d < (2 :: nat)" by auto
  from digits_value_less [OF this] show ?thesis by (simp add: bits_val_digits)
qed

lemma quintets_props:
  assumes "5 dvd length bs"
  shows "(\<forall>q \<in> set (quintets bs). q < 32) \<and> 5 * length (quintets bs) = length bs \<and>
    digits_value 32 (quintets bs) = bits_val bs"
  using assms
proof (induction bs rule: quintets.induct)
  case (1 a b c d e rest)
  have "bits_val [a, b, c, d, e] < 32" using bits_val_less [of "[a, b, c, d, e]"] by simp
  moreover have "bits_val (a # b # c # d # e # rest) = bits_val [a, b, c, d, e] * 2 ^ length rest + bits_val rest"
    using bits_val_append [of "[a, b, c, d, e]" rest] by simp
  moreover have len: "5 dvd length rest"
    using "1.prems" dvd_add_left_iff [of 5 5 "length rest"] by (simp add: eval_nat_numeral)
  moreover have "32 ^ length (quintets rest) = (2 :: nat) ^ length rest"
    using "1.IH" [OF len] power_mult [of "2 :: nat" 5 "length (quintets rest)"] by simp
  ultimately show ?case using "1.IH" [OF len] by (auto simp: digits_value_Cons)
qed (simp_all add: digits_value_def bits_val_def, (elim dvdE, presburger)+)

lemma fill5_length: "5 dvd length (fill5 bs)"
proof -
  obtain q m where n: "length bs = m + 5 * q" "m < 5" "length bs mod 5 = m"
    using mod_mult_div_eq [of "length bs" 5] mod_less_divisor [of 5 "length bs"] by (metis zero_less_numeral)
  have "(5 - m) mod 5 = (if m = 0 then 0 else 5 - m)" using n(2) by simp
  then have "length (fill5 bs) = 5 * (q + (if m = 0 then 0 else 1))"
    unfolding fill5_def length_append length_replicate n(3) unfolding n(1) using n(2) by simp
  then show ?thesis by simp
qed

lemma low_bits: "bits_val (map (\<lambda>i. odd (n div 2 ^ i)) (rev [0..<k])) = n mod 2 ^ k"
proof (induction k)
  case (Suc k)
  have "bits_val (map (\<lambda>i. odd (n div 2 ^ i)) (rev [0..<Suc k])) = (if odd (n div 2 ^ k) then 1 else 0) * 2 ^ k + n mod 2 ^ k"
    using bits_val_append [of "[odd (n div 2 ^ k)]" "map (\<lambda>i. odd (n div 2 ^ i)) (rev [0..<k])"] Suc
    by (simp add: bits_val_def [of "[_]"])
  also have "\<dots> = n mod 2 ^ Suc k"
    using mod_mult2_eq [of n "2 ^ k" 2] by (simp add: mult.commute odd_iff_mod_2_eq_one)
  finally show ?case .
qed (simp add: bits_val_def)

lemma byte_bits_val: "bits_val (byte_bits c) = bv c"
  using low_bits [of "bv c" 8] by (simp add: byte_bits_def upt_rec)

lemma byte_bits_length [simp]: "length (byte_bits c) = 8"
  by (simp add: byte_bits_def)

lemma raw_bits: "length (concat (map byte_bits raw)) = 8 * length raw \<and>
    bits_val (concat (map byte_bits raw)) = digits_value 256 (map bv raw)"
proof (induction raw)
  case (Cons c raw)
  have "(256 :: nat) ^ length raw = 2 ^ (8 * length raw)" by (simp add: power_mult)
  with Cons show ?case by (simp add: bits_val_append byte_bits_val digits_value_Cons)
qed (simp add: bits_val_def digits_value_def)

lemma alphabet_props:
  "q < 32 \<Longrightarrow> id_char (alphabet ! q)" "q < 32 \<Longrightarrow> r < 32 \<Longrightarrow> alphabet ! q < alphabet ! r \<longleftrightarrow> q < r"
proof -
  have len: "length alphabet = 32" by (simp add: alphabet_def)
  have "list_all id_char alphabet" by code_simp
  then show "q < 32 \<Longrightarrow> id_char (alphabet ! q)" by (simp add: list_all_length len)
  have up: "sorted_wrt (<) (map of_char alphabet :: nat list)" by (simp add: alphabet_def)
  have "alphabet ! a < alphabet ! b" if "a < b" "b < 32" for a b
    using sorted_wrt_nth_less [OF up that(1)] that by (simp add: len less_char_def)
  note lt = this
  assume "q < 32" "r < 32"
  show "alphabet ! q < alphabet ! r \<longleftrightarrow> q < r"
  proof (cases q r rule: linorder_cases)
    case greater
    from lt [OF this \<open>q < 32\<close>] show ?thesis using greater by (metis order_less_asym)
  qed (use lt \<open>r < 32\<close> in blast, metis order_less_irrefl)
qed

lemma map_order:
  assumes "\<forall>q \<in> set xs. q < 32" "\<forall>q \<in> set ys. q < 32"
  shows "map (\<lambda>q. alphabet ! q) xs < map (\<lambda>q. alphabet ! q) ys \<longleftrightarrow> xs < (ys :: nat list)"
  using assms
proof (induction xs arbitrary: ys)
  case (Cons x xs)
  show ?case
  proof (cases ys)
    case (Cons y ys')
    from Cons.prems have "x < 32" "y < 32" using Cons by auto
    then have "alphabet ! x < alphabet ! y \<longleftrightarrow> x < y" "alphabet ! x = alphabet ! y \<longleftrightarrow> x = y"
      using alphabet_props(2) [of x y] alphabet_props(2) [of y x] by (cases x y rule: linorder_cases; fastforce)+
    with Cons Cons.prems Cons.IH [of ys'] show ?thesis by simp
  qed simp
qed (case_tac ys, simp_all)

text \<open>An encoding, by the number its bytes spell.\<close>

lemma Encoding_order:
  assumes "length r = length s"
  shows "Encoding r < Encoding s \<longleftrightarrow> digits_value 256 (map bv r) < digits_value 256 (map bv s)"
proof -
  let ?b = "\<lambda>raw. concat (map byte_bits raw)"
  let ?q = "\<lambda>raw. quintets (fill5 (?b raw))"
  define k where "k = (5 - 8 * length r mod 5) mod 5"
  have fill: "bits_val (fill5 (?b raw)) = digits_value 256 (map bv raw) * 2 ^ k" if "length raw = length r" for raw
  proof -
    have "bits_val (replicate n False) = 0" for n by (induction n) (simp_all add: bits_val_def)
    then show ?thesis using raw_bits [of raw] that by (simp add: fill5_def bits_val_append k_def)
  qed
  note Q = quintets_props [OF fill5_length]
  have "length (?q r) = length (?q s)"
    using Q [of "?b r"] Q [of "?b s"] raw_bits [of r] raw_bits [of s] assms by (simp add: fill5_def)
  then have "?q r < ?q s \<longleftrightarrow> digits_value 32 (?q r) < digits_value 32 (?q s)"
    using digits_order Q by metis
  also have "\<dots> \<longleftrightarrow> digits_value 256 (map bv r) < digits_value 256 (map bv s)"
    using Q [of "?b r"] Q [of "?b s"] fill [of r] fill [of s] assms by simp
  finally show ?thesis unfolding Encoding_def using map_order Q by metis
qed

lemma Encoding_valid: "length (Encoding raw) = (8 * length raw + 4) div 5 \<and> list_all id_char (Encoding raw)"
proof -
  let ?b = "concat (map byte_bits raw)"
  note Q = quintets_props [OF fill5_length, of ?b]
  have "5 * length (Encoding raw) = length (fill5 ?b)" using Q by (simp add: Encoding_def)
  moreover have "length (fill5 ?b) = 8 * length raw + (5 - 8 * length raw mod 5) mod 5"
    using raw_bits [of raw] by (simp add: fill5_def)
  ultimately obtain rest where "5 * length (Encoding raw) = 8 * length raw + rest" "rest \<le> 4" by simp
  then have "length (Encoding raw) = (8 * length raw + 4) div 5"
    by (intro div_nat_eqI [symmetric]) simp_all
  with Q show ?thesis by (auto simp: Encoding_def list_all_iff alphabet_props)
qed

section \<open>Properties\<close>

lemma stamp_value:
  assumes "0 \<le> ms" "ms < 2 ^ 48"
  shows "digits_value 256 (map bv (stamp_bytes ms)) = nat ms"
proof -
  have b: "bv (char_of (nat (take_bit 8 (drop_bit k ms)))) = nat (take_bit 8 (drop_bit k ms))" for k
    using take_bit_nonnegative [of 8 "drop_bit k ms"] take_bit_int_less_exp [of 8 "drop_bit k ms"] by (simp add: nat_less_iff)
  define a where "a = ms div 256"
  define a' where "a' = a div 256"
  define a'' where "a'' = a' div 256"
  define c where "c = a'' div 256"
  define c' where "c' = c div 256"
  have d: "ms div 256 = a" "ms div 65536 = a'" "ms div 16777216 = a''" "ms div 4294967296 = c" "ms div 1099511627776 = c'"
    by (simp_all add: a_def a'_def a''_def c_def c'_def)
  have c': "0 \<le> c'" "c' < 256" using assms by (simp_all add: d(5) [symmetric] pos_imp_zdiv_nonneg_iff int_div_less_iff)
  have parts: "256 * a + ms mod 256 = ms" "256 * a' + a mod 256 = a" "256 * a'' + a' mod 256 = a'"
    "256 * c + a'' mod 256 = a''" "256 * c' + c mod 256 = c"
    by (simp_all add: a_def a'_def a''_def c_def c'_def)
  have "int (digits_value 256 (map bv (stamp_bytes ms))) =
      256 * (256 * (256 * (256 * (256 * c' + c mod 256) + a'' mod 256) + a' mod 256) + a mod 256) + ms mod 256"
    using c' by (simp add: stamp_bytes_def b digits_value_def take_bit_eq_mod drop_bit_eq_div d)
  also have "\<dots> = ms" by (simp only: parts)
  finally have "int (digits_value 256 (map bv (stamp_bytes ms))) = ms" .
  then show ?thesis by simp
qed

lemma id_New_value:
  assumes "0 \<le> ms" "ms < 2 ^ 48" "length r = 10"
  shows "digits_value 256 (map bv (stamp_bytes ms @ r)) = nat ms * 256 ^ 10 + digits_value 256 (map bv r) \<and>
    digits_value 256 (map bv r) < 256 ^ 10"
proof -
  have "\<forall>d \<in> set (map bv r). d < 256" by auto
  from digits_value_less [OF this] stamp_value [OF assms(1,2)] assms(3) show ?thesis by (simp add: digits_value_append)
qed

text \<open>An identifier has the shape every host accepts, and of two identifiers the one made earlier is the
  smaller string, whatever their random parts.\<close>

theorem NewID_sorted:
  assumes "NewID ms (Some r) = Some i" "NewID ms' (Some r') = Some i'" "length r = 10" "length r' = 10"
    and "0 \<le> ms" "ms' < 2 ^ 48"
  shows "ValidJobID i \<and> length i = 26 \<and> (ms < ms' \<longrightarrow> i < i')"
proof (intro conjI impI)
  have i: "i = Encoding (stamp_bytes ms @ r)" "i' = Encoding (stamp_bytes ms' @ r')"
    using assms(1,2) by (simp_all add: NewID_def id_New_def)
  have len: "length (stamp_bytes m) = 6" for m by (simp add: stamp_bytes_def)
  show n: "length i = 26" using Encoding_valid [of "stamp_bytes ms @ r"] assms(3) by (simp add: i len)
  show "ValidJobID i"
    using Encoding_valid [of "stamp_bytes ms @ r"] n
    by (auto simp: i ValidJobID_def jobIDPattern_def MaxJobIDBytes_def)
  assume less: "ms < ms'"
  have "nat ms * 256 ^ 10 + digits_value 256 (map bv r) < (nat ms + 1) * 256 ^ 10"
    using id_New_value [of ms r] assms less by simp
  also have "\<dots> \<le> nat ms' * 256 ^ 10" using less assms(5) by (intro mult_le_mono1) simp
  finally have "digits_value 256 (map bv (stamp_bytes ms @ r)) < digits_value 256 (map bv (stamp_bytes ms' @ r'))"
    using id_New_value [of ms r] id_New_value [of ms' r'] assms less by linarith
  then show "i < i'" unfolding i by (subst Encoding_order) (simp_all add: len assms(3,4))
qed

theorem NewID_sorted_witness:
  "the (NewID 1700000000000 (Some (replicate 10 (CHR 0xFF)))) < the (NewID 1700000000001 (Some (replicate 10 (CHR 0x00))))"
proof -
  obtain i i' where "NewID 1700000000000 (Some (replicate 10 (CHR 0xFF))) = Some i"
      "NewID 1700000000001 (Some (replicate 10 (CHR 0x00))) = Some i'"
    by (simp add: NewID_def id_New_def)
  from this NewID_sorted [OF this] show ?thesis by simp
qed

end
