(* ===== verification/Auth.thy ===== *)
theory Auth
  imports StoreRun Password Identifier
begin

text \<open>
  Who a request is from (\<open>internal/auth\<close>): the identity and its principal (\<open>auth.go\<close>), the chain of
  providers, the sessions of local accounts (\<open>accounts.go\<close>) and the tokens of scripts (\<open>apitoken.go\<close>),
  over the in-memory store. A call of the store may also fail to get through; which do is a function of
  the operation's name. A request is what the handlers read of it.
\<close>

section \<open>Calls of the store\<close>

type_synonym reach = "bytes \<Rightarrow> bool"

datatype call_error = Refusal store_error | Unreachable

definition call :: "reach \<Rightarrow> bytes \<Rightarrow> (store_error, 'a) result \<Rightarrow> (call_error, 'a) result" where
  "call up name r = (if up name then (case r of Inl e \<Rightarrow> Inl (Refusal e) | Inr a \<Rightarrow> Inr a) else Inl Unreachable)"

text \<open>A write whose failure is only logged.\<close>

definition attempted :: "(call_error, memory) result \<Rightarrow> memory \<Rightarrow> memory" where
  "attempted r m = (case r of Inl _ \<Rightarrow> m | Inr m' \<Rightarrow> m')"

lemma call_Inr [res_simps]: "call up name r = Inr a \<longleftrightarrow> up name \<and> r = Inr a"
  by (auto simp: call_def split: sum.splits)

section \<open>Requests and identities\<close>

record http_request =
  rq_cookie :: "bytes option"       \<comment> \<open>the session cookie\<close>
  rq_session_header :: bytes
  rq_authorization :: bytes
  rq_RemoteAddr :: bytes
  rq_UserAgent :: bytes

record identity =
  id_Subject :: bytes
  id_Display :: bytes
  id_Provider :: bytes
  id_Tenant :: bytes
  id_Credential :: bytes
  id_Platform :: bool

definition Principal :: "identity \<Rightarrow> bytes" where
  "Principal i = (if id_Provider i = [] then id_Subject i else id_Provider i @ '':'' @ id_Subject i)"

definition CredentialSession :: bytes where [go_defs]: "CredentialSession = ''session''"
definition CredentialAPIToken :: bytes where [go_defs]: "CredentialAPIToken = ''api-token''"

datatype auth_error = ErrUnauthenticated | ErrUnavailable | NoToken | NotRecorded call_error

type_synonym provider = "http_request \<Rightarrow> memory \<Rightarrow> (auth_error, identity) result \<times> memory"

text \<open>Every provider is asked; the first identity is kept, and the first error that is not a refusal.\<close>

fun chain_from :: "provider list \<Rightarrow> http_request \<Rightarrow> identity option \<Rightarrow> auth_error option \<Rightarrow> memory \<Rightarrow>
    (auth_error, identity) result \<times> memory" where
  "chain_from [] r found unavailable m =
     (case found of Some i \<Rightarrow> (Inr i, m)
      | None \<Rightarrow> (case unavailable of Some e \<Rightarrow> (Inl e, m) | None \<Rightarrow> (Inl ErrUnauthenticated, m)))"
| "chain_from (p # ps) r found unavailable m = (case p r m of
      (Inr i, m') \<Rightarrow> chain_from ps r (if found = None then Some i else found) unavailable m'
    | (Inl e, m') \<Rightarrow> chain_from ps r found (if e \<noteq> ErrUnauthenticated \<and> unavailable = None then Some e else unavailable) m')"

definition chain_Authenticate :: "provider list \<Rightarrow> provider" where
  "chain_Authenticate ps r m = chain_from ps r None None m"

section \<open>Addresses, tokens and where a request is from\<close>

text \<open>\<open>strings.ToLower\<close> on whole text is a parameter: an address may hold any letter.\<close>

definition NormaliseEmail :: "(bytes \<Rightarrow> bytes) \<Rightarrow> bytes \<Rightarrow> bytes" where
  "NormaliseEmail lower email = lower (trim_space email)"

definition EmailKey :: "(bytes \<Rightarrow> bytes) \<Rightarrow> (bytes \<Rightarrow> bytes) \<Rightarrow> bytes \<Rightarrow> bytes" where
  "EmailKey sha256_hex lower email = sha256_hex (NormaliseEmail lower email)"

definition HashSessionToken :: "(bytes \<Rightarrow> bytes) \<Rightarrow> bytes \<Rightarrow> bytes" where
  "HashSessionToken sha256_hex token = sha256_hex (trim_space token)"

definition HashAPIToken :: "(bytes \<Rightarrow> bytes) \<Rightarrow> bytes \<Rightarrow> bytes" where
  "HashAPIToken sha256_hex token = sha256_hex (trim_space token)"

definition APITokenPrefix :: bytes where [go_defs]: "APITokenPrefix = ''hsl_''"

definition hex_digit :: "nat \<Rightarrow> char" where
  "hex_digit n = ''0123456789abcdef'' ! n"

definition hex_encode :: "bytes \<Rightarrow> bytes" where
  "hex_encode raw = concat (map (\<lambda>c. [hex_digit (bv c div 16), hex_digit (bv c mod 16)]) raw)"

text \<open>\<open>rand.Read\<close> fills 32 bytes or fails.\<close>

definition GenerateToken :: "bytes option \<Rightarrow> bytes option" where
  "GenerateToken rnd = map_option hex_encode rnd"

text \<open>The URL alphabet differs in two characters, and there is no padding.\<close>

definition url64_encode :: "bytes \<Rightarrow> bytes" where
  "url64_encode raw = map (\<lambda>c. if c = CHR ''+'' then CHR ''-'' else if c = CHR ''/'' then CHR ''_'' else c) (raw64_encode raw)"

definition GenerateAPIToken :: "bytes option \<Rightarrow> bytes option" where
  "GenerateAPIToken rnd = map_option (\<lambda>raw. APITokenPrefix @ url64_encode raw) rnd"

definition GeneratePassword :: "bytes option \<Rightarrow> bytes option" where
  "GeneratePassword rnd = map_option url64_encode rnd"

text \<open>\<open>net.SplitHostPort\<close>: the host of an address with a port.\<close>

definition SplitHostPort :: "bytes \<Rightarrow> bytes option" where
  "SplitHostPort s =
     (if CHR '':'' \<notin> set s then None
      else let i = length s - 1 - length (takeWhile (\<lambda>c. c \<noteq> CHR '':'') (rev s)) in
        if s ! 0 = CHR ''['' then
          (let e = length (takeWhile (\<lambda>c. c \<noteq> CHR '']'') s) in
             if e = length s \<or> Suc e \<noteq> i then None
             else if CHR ''['' \<in> set (drop 1 s) \<or> CHR '']'' \<in> set (drop (Suc e) s) then None
             else Some (take (e - 1) (drop 1 s)))
        else if CHR '':'' \<in> set (take i s) \<or> CHR ''['' \<in> set s \<or> CHR '']'' \<in> set s then None
        else Some (take i s))"

definition RequestSource :: "http_request \<Rightarrow> bytes" where
  "RequestSource r = (case SplitHostPort (rq_RemoteAddr r) of None \<Rightarrow> rq_RemoteAddr r | Some host \<Rightarrow> host)"

definition describeAgent :: "http_request \<Rightarrow> bytes" where
  "describeAgent r = (let agent = trim_space (rq_UserAgent r) in if 100 < length agent then take 100 agent else agent)"

text \<open>\<open>strings.EqualFold\<close> against a word whose letters fold to ASCII letters only.\<close>

definition bearerToken :: "http_request \<Rightarrow> bytes" where
  "bearerToken r = (case cut (CHR '' '') (rq_authorization r) of (scheme, value, found) \<Rightarrow>
      if \<not> found \<or> to_lower scheme \<noteq> ''bearer'' then [] else trim_space value)"

section \<open>Local accounts\<close>

definition DefaultSessionTTL :: duration where [go_defs]: "DefaultSessionTTL = 43200 * Second"
definition DefaultSessionMaxAge :: duration where [go_defs]: "DefaultSessionMaxAge = 604800 * Second"
definition SessionRenewAfter :: duration where [go_defs]: "SessionRenewAfter = 15 * Minute"

record accounts =
  ac_ttl :: duration
  ac_maxAge :: duration

definition NewAccounts :: "duration \<Rightarrow> duration \<Rightarrow> accounts" where
  "NewAccounts ttl maxAge =
     (let ttl = (if ttl \<le> 0 then DefaultSessionTTL else ttl);
          maxAge = (if maxAge < ttl then max DefaultSessionMaxAge ttl else maxAge)
      in \<lparr>ac_ttl = ttl, ac_maxAge = maxAge\<rparr>)"

text \<open>The parts of the standard library and of \<open>argon2\<close> that the providers rest on.\<close>

record hashing =
  hs_sha256_hex :: "bytes \<Rightarrow> bytes"
  hs_lower :: "bytes \<Rightarrow> bytes"
  hs_argon :: argon

text \<open>The platform's handle is the one with the empty tenant.\<close>

definition scopeFor :: "account \<Rightarrow> tenant_id" where
  "scopeFor a = (if a_TenantID a = [] then [] else a_TenantID a)"

definition local_account :: bytes where [go_defs]: "local_account = ''local-account''"

definition identityFor :: "(bytes \<Rightarrow> bytes) \<Rightarrow> bytes \<Rightarrow> account \<Rightarrow> identity" where
  "identityFor lower provider a =
     \<lparr>id_Subject = NormaliseEmail lower (a_Email a),
      id_Display = (if a_DisplayName a = [] then a_Email a else a_DisplayName a),
      id_Provider = provider, id_Tenant = a_TenantID a, id_Credential = [], id_Platform = (a_TenantID a = [])\<rparr>"

definition account_identity :: "(bytes \<Rightarrow> bytes) \<Rightarrow> account \<Rightarrow> identity" where
  "account_identity lower a = (identityFor lower local_account a)\<lparr>id_Credential := CredentialSession\<rparr>"

definition withinMaxAge :: "accounts \<Rightarrow> session_row \<Rightarrow> instant \<Rightarrow> bool" where
  "withinMaxAge ac s now \<longleftrightarrow> now < s_CreatedAt s + ac_maxAge ac"

definition renew :: "accounts \<Rightarrow> reach \<Rightarrow> session_row \<Rightarrow> account \<Rightarrow> instant \<Rightarrow> memory \<Rightarrow> memory" where
  "renew ac up s a now m =
     (let since = (if is_zero (s_LastUsedAt s) then s_CreatedAt s else s_LastUsedAt s) in
      if time_sub now since < SessionRenewAfter then m
      else let expires = now + ac_ttl ac;
               cap = s_CreatedAt s + ac_maxAge ac;
               expires = (if cap < expires then cap else expires)
           in attempted (call up ''TouchSession'' (TouchSession (scopeFor a) (a_ID a) (s_TokenHash s) expires now m)) m)"

definition Accounts_Authenticate :: "hashing \<Rightarrow> accounts \<Rightarrow> reach \<Rightarrow> instant \<Rightarrow> provider" where
  "Accounts_Authenticate h ac up now r m = (case rq_cookie r of
      None \<Rightarrow> (Inl ErrUnauthenticated, m)
    | Some token \<Rightarrow>
        if token = [] then (Inl ErrUnauthenticated, m)
        else if rq_session_header r = [] then (Inl ErrUnauthenticated, m)
        else case call up ''SessionByToken'' (SessionByToken (HashSessionToken (hs_sha256_hex h) token) m) of
            Inl e \<Rightarrow> (Inl (if e = Refusal ErrNotFound then ErrUnauthenticated else ErrUnavailable), m)
          | Inr (s, a) \<Rightarrow>
              if \<not> session_Valid s now \<or> \<not> withinMaxAge ac s now then (Inl ErrUnauthenticated, m)
              else (Inr (account_identity (hs_lower h) a), renew ac up s a now m))"


section \<open>Signing in and out\<close>

record cookie =
  ck_Name :: bytes
  ck_Value :: bytes
  ck_Path :: bytes
  ck_Secure :: bool
  ck_HttpOnly :: bool
  ck_Lax :: bool
  ck_Expires :: instant

definition SessionCookieName :: bytes where [go_defs]: "SessionCookieName = ''hostseal_session''"

definition session_cookie :: "bytes \<Rightarrow> instant \<Rightarrow> cookie" where
  "session_cookie v expires = \<lparr>ck_Name = SessionCookieName, ck_Value = v, ck_Path = ''/'', ck_Secure = True,
     ck_HttpOnly = True, ck_Lax = True, ck_Expires = expires\<rparr>"

text \<open>\<open>decoyHash\<close>: the hash of a token, or of a constant when there is no randomness.\<close>

definition decoyHash :: "argon \<Rightarrow> bytes option \<Rightarrow> bytes option \<Rightarrow> bytes" where
  "decoyHash argon rnd salt =
     (let token = (case GenerateToken rnd of Some t \<Rightarrow> t | None \<Rightarrow> ''hostseal-decoy-password'')
      in case HashPassword argon salt token of Inl _ \<Rightarrow> [] | Inr hashed \<Rightarrow> hashed)"

text \<open>What a sign-in answers: the identity or the error, the cookie it sets, the key derivations it cost.\<close>

record signed_in =
  si_result :: "(auth_error, identity) result"
  si_cookie :: "cookie option"
  si_derived :: "derivation list"

definition derived :: "bool \<times> derivation option \<Rightarrow> derivation list" where
  "derived v = (case snd v of None \<Rightarrow> [] | Some d \<Rightarrow> [d])"

definition rehash :: "hashing \<Rightarrow> reach \<Rightarrow> account \<Rightarrow> bytes option \<Rightarrow> bytes \<Rightarrow> memory \<Rightarrow> memory" where
  "rehash h up a salt password m =
     (if NeedsRehash (a_PasswordHash a) then
        (case HashPassword (hs_argon h) salt password of
           Inl _ \<Rightarrow> m
         | Inr hashed \<Rightarrow>
             attempted (call up ''UpdateAccountPassword'' (UpdateAccountPassword (scopeFor a) (a_ID a) hashed m)) m)
      else m)"

definition SignIn ::
  "hashing \<Rightarrow> accounts \<Rightarrow> bytes \<Rightarrow> reach \<Rightarrow> instant \<Rightarrow> bytes option \<Rightarrow> bytes option \<Rightarrow> http_request \<Rightarrow> bytes \<Rightarrow> bytes \<Rightarrow>
   memory \<Rightarrow> signed_in \<times> memory" where
  "SignIn h ac decoy up now salt rnd r email password m =
     (case call up ''AccountByEmail'' (AccountByEmail (EmailKey (hs_sha256_hex h) (hs_lower h) email) m) of
        Inl e \<Rightarrow>
          (\<lparr>si_result = Inl (if e = Refusal ErrNotFound then ErrUnauthenticated else ErrUnavailable), si_cookie = None,
            si_derived = derived (VerifyPassword (hs_argon h) decoy password)\<rparr>, m)
      | Inr a \<Rightarrow>
          (let v = VerifyPassword (hs_argon h) (a_PasswordHash a) password in
           if \<not> fst v then (\<lparr>si_result = Inl ErrUnauthenticated, si_cookie = None, si_derived = derived v\<rparr>, m)
           else let m1 = rehash h up a salt password m in
             case GenerateToken rnd of
               None \<Rightarrow> (\<lparr>si_result = Inl NoToken, si_cookie = None, si_derived = derived v\<rparr>, m1)
             | Some token \<Rightarrow>
                 (case call up ''CreateSession'' (CreateSession (scopeFor a)
                     \<lparr>s_TokenHash = HashSessionToken (hs_sha256_hex h) token, s_AccountID = a_ID a, s_CreatedAt = now,
                      s_ExpiresAt = now + ac_ttl ac, s_LastUsedAt = 0, s_UserAgent = describeAgent r,
                      s_Source = RequestSource r\<rparr> m1) of
                    Inl e \<Rightarrow> (\<lparr>si_result = Inl (NotRecorded e), si_cookie = None, si_derived = derived v\<rparr>, m1)
                  | Inr m2 \<Rightarrow>
                      (\<lparr>si_result = Inr (account_identity (hs_lower h) a),
                        si_cookie = Some (session_cookie token (now + ac_maxAge ac)), si_derived = derived v\<rparr>,
                       attempted (call up ''RecordAccountSignIn'' (RecordAccountSignIn (scopeFor a) (a_ID a) now m2)) m2))))"

definition UnixEpoch :: instant where [go_defs]: "UnixEpoch = 62135596800 * Second"

definition SignOut :: "hashing \<Rightarrow> reach \<Rightarrow> http_request \<Rightarrow> memory \<Rightarrow> call_error option \<times> cookie \<times> memory" where
  "SignOut h up r m =
     (let cleared = session_cookie [] UnixEpoch in
      case rq_cookie r of
        None \<Rightarrow> (None, cleared, m)
      | Some token \<Rightarrow>
          if token = [] then (None, cleared, m)
          else case call up ''SessionByToken'' (SessionByToken (HashSessionToken (hs_sha256_hex h) token) m) of
              Inl e \<Rightarrow> (if e = Refusal ErrNotFound then None else Some e, cleared, m)
            | Inr (s, a) \<Rightarrow>
                (case call up ''DeleteSession'' (DeleteSession (scopeFor a) (a_ID a) (s_TokenHash s) m) of
                   Inl e \<Rightarrow> (Some e, cleared, m)
                 | Inr m' \<Rightarrow> (None, cleared, m')))"

section \<open>The tokens of scripts\<close>

definition touch :: "reach \<Rightarrow> api_token \<Rightarrow> account \<Rightarrow> instant \<Rightarrow> memory \<Rightarrow> memory" where
  "touch up t a now m =
     (if time_sub now (at_LastUsedAt t) < SessionRenewAfter then m
      else attempted (call up ''TouchAPIToken'' (TouchAPIToken (scopeFor a) (a_ID a) (at_Hash t) now m)) m)"

definition token_identity :: "(bytes \<Rightarrow> bytes) \<Rightarrow> api_token \<Rightarrow> account \<Rightarrow> identity" where
  "token_identity lower t a =
     (let i = (identityFor lower local_account a)\<lparr>id_Credential := CredentialAPIToken\<rparr>;
          label = trim_space (at_Label t)
      in if label \<noteq> [] then i\<lparr>id_Display := id_Display i @ '' ('' @ label @ '')''\<rparr> else i)"

definition APITokens_Authenticate :: "hashing \<Rightarrow> reach \<Rightarrow> instant \<Rightarrow> provider" where
  "APITokens_Authenticate h up now r m =
     (let presented = bearerToken r in
      if presented = [] then (Inl ErrUnauthenticated, m)
      else case call up ''APITokenByHash'' (APITokenByHash (HashAPIToken (hs_sha256_hex h) presented) m) of
          Inl e \<Rightarrow> (Inl (if e = Refusal ErrNotFound then ErrUnauthenticated else ErrUnavailable), m)
        | Inr (t, a) \<Rightarrow>
            if \<not> api_Usable t now then (Inl ErrUnauthenticated, m)
            else (Inr (token_identity (hs_lower h) t a), touch up t a now m))"

text \<open>The chain the control plane is started with.\<close>

definition operators :: "hashing \<Rightarrow> accounts \<Rightarrow> reach \<Rightarrow> instant \<Rightarrow> provider" where
  "operators h ac up now = chain_Authenticate [Accounts_Authenticate h ac up now, APITokens_Authenticate h up now]"


section \<open>One person is one principal\<close>

text \<open>The account whose credential a request carries, in the cookie or in the header.\<close>

definition presents :: "hashing \<Rightarrow> memory \<Rightarrow> http_request \<Rightarrow> account \<Rightarrow> bool" where
  "presents h m r a \<longleftrightarrow>
     (\<exists>token s. rq_cookie r = Some token \<and> SessionByToken (HashSessionToken (hs_sha256_hex h) token) m = Inr (s, a)) \<or>
     (\<exists>t. APITokenByHash (HashAPIToken (hs_sha256_hex h) (bearerToken r)) m = Inr (t, a))"

definition stands_for :: "(bytes \<Rightarrow> bytes) \<Rightarrow> account \<Rightarrow> identity \<Rightarrow> bool" where
  "stands_for lower a i \<longleftrightarrow> id_Subject i = NormaliseEmail lower (a_Email a) \<and> id_Provider i = local_account \<and>
     id_Tenant i = a_TenantID a \<and> id_Platform i = (a_TenantID a = [])"

text \<open>Every account row's key is computed from its address, as the callers of \<open>CreateAccount\<close> do.\<close>

definition keyed_by_address :: "hashing \<Rightarrow> memory \<Rightarrow> bool" where
  "keyed_by_address h m \<longleftrightarrow> (\<forall>i a. get (m_accounts m) i = Some a \<longrightarrow>
     a_EmailKey a = EmailKey (hs_sha256_hex h) (hs_lower h) (a_Email a))"

lemma identity_stands_for:
  "stands_for lower a (account_identity lower a)" "stands_for lower a (token_identity lower t a)"
  by (simp_all add: stands_for_def account_identity_def token_identity_def identityFor_def Let_def)

lemma stands_for_Principal:
  "stands_for lower a i \<Longrightarrow> Principal i = local_account @ '':'' @ NormaliseEmail lower (a_Email a)"
  by (simp add: stands_for_def Principal_def local_account_def)

lemma Accounts_Inr:
  assumes "Accounts_Authenticate h ac up now r m = (Inr i, m')"
  obtains token s a where "rq_cookie r = Some token" "token \<noteq> []" "rq_session_header r \<noteq> []"
    "SessionByToken (HashSessionToken (hs_sha256_hex h) token) m = Inr (s, a)" "session_Valid s now"
    "withinMaxAge ac s now" "i = account_identity (hs_lower h) a" "m' = renew ac up s a now m"
proof -
  from assms obtain token s a where
    "rq_cookie r = Some token" "token \<noteq> []" "rq_session_header r \<noteq> []"
    "call up ''SessionByToken'' (SessionByToken (HashSessionToken (hs_sha256_hex h) token) m) = Inr (s, a)"
    "session_Valid s now" "withinMaxAge ac s now" "i = account_identity (hs_lower h) a" "m' = renew ac up s a now m"
    unfolding Accounts_Authenticate_def by (auto split: option.splits if_splits sum.splits prod.splits)
  then show ?thesis by (intro that [of token s a]) (simp_all add: res_simps)
qed

lemma APITokens_Inr:
  assumes "APITokens_Authenticate h up now r m = (Inr i, m')"
  obtains t a where "APITokenByHash (HashAPIToken (hs_sha256_hex h) (bearerToken r)) m = Inr (t, a)"
    "api_Usable t now" "i = token_identity (hs_lower h) t a" "m' = touch up t a now m"
proof -
  from assms obtain t a where
    "call up ''APITokenByHash'' (APITokenByHash (HashAPIToken (hs_sha256_hex h) (bearerToken r)) m) = Inr (t, a)"
    "api_Usable t now" "i = token_identity (hs_lower h) t a" "m' = touch up t a now m"
    unfolding APITokens_Authenticate_def Let_def by (auto split: if_splits sum.splits prod.splits)
  then show ?thesis by (intro that [of t a]) (simp_all add: res_simps)
qed

lemma renew_tables: "\<exists>ss. renew ac up s a now m = m\<lparr>m_sessions := ss\<rparr>"
proof -
  have "\<exists>ss. m = m\<lparr>m_sessions := ss\<rparr>" by (rule exI [of _ "m_sessions m"]) simp
  moreover have "\<exists>ss. m' = m\<lparr>m_sessions := ss\<rparr>" if "TouchSession tn i k e u m = Inr m'" for tn i k e u m'
    using that by (auto simp: TouchSession_def split: if_splits option.splits)
  ultimately show ?thesis by (auto simp: renew_def attempted_def Let_def res_simps split: sum.splits)
qed

lemma after_Accounts: "\<exists>ss. snd (Accounts_Authenticate h ac up now r m) = m\<lparr>m_sessions := ss\<rparr>"
proof -
  have "\<exists>ss. m = m\<lparr>m_sessions := ss\<rparr>" by (rule exI [of _ "m_sessions m"]) simp
  with renew_tables show ?thesis
    by (auto simp: Accounts_Authenticate_def split: option.splits if_splits sum.splits prod.splits)
qed

lemma operators_Inr:
  assumes "fst (operators h ac up now r m) = Inr i"
  obtains a where "presents h m r a" "stands_for (hs_lower h) a i"
proof -
  obtain x1 m1 where A: "Accounts_Authenticate h ac up now r m = (x1, m1)" by fastforce
  obtain x2 m2 where T: "APITokens_Authenticate h up now r m1 = (x2, m2)" by fastforce
  obtain ss where m1: "m1 = m\<lparr>m_sessions := ss\<rparr>" using after_Accounts [of h ac up now r m] A by auto
  consider "x1 = Inr i" | e where "x1 = Inl e" "x2 = Inr i"
    using assms A T by (auto simp: operators_def chain_Authenticate_def split: sum.splits if_splits option.splits)
  then show ?thesis
  proof cases
    case 1
    with A obtain token s a where "rq_cookie r = Some token"
      "SessionByToken (HashSessionToken (hs_sha256_hex h) token) m = Inr (s, a)" "i = account_identity (hs_lower h) a"
      by (auto elim: Accounts_Inr)
    then show ?thesis by (intro that [of a]) (auto simp: presents_def identity_stands_for)
  next
    case 2
    with T obtain t a where "APITokenByHash (HashAPIToken (hs_sha256_hex h) (bearerToken r)) m1 = Inr (t, a)"
      "i = token_identity (hs_lower h) t a" by (auto elim: APITokens_Inr)
    moreover have "APITokenByHash k m1 = APITokenByHash k m" for k by (simp add: m1 APITokenByHash_def split: option.splits)
    ultimately show ?thesis by (intro that [of a]) (auto simp: presents_def identity_stands_for)
  qed
qed

lemma presents_row:
  assumes "presents h m r a" "store_ok m"
  shows "get (m_accounts m) (a_ID a) = Some a"
proof -
  from assms(2) have ok: "accounts_ok (m_accounts m) (m_sessions m) (m_apiTokens m)" by (simp add: store_ok_def)
  from assms(1) obtain k where "get (m_accounts m) k = Some a"
    by (auto simp: presents_def SessionByToken_def APITokenByHash_def split: option.splits)
  with accounts_okD(1) [OF ok this] show ?thesis by simp
qed

text \<open>Two requests are recorded under one principal exactly when they present credentials of one account,
  be it a session or a token: nobody becomes a second person by minting a token, and no two accounts share
  a principal. The tenant is the account's.\<close>

theorem principal_is_account:
  assumes "store_ok m" "keyed_by_address h m"
    and "fst (operators h ac up now r1 m) = Inr i1" "fst (operators h ac up' now' r2 m) = Inr i2"
  shows "\<exists>a1 a2. presents h m r1 a1 \<and> presents h m r2 a2 \<and> (Principal i1 = Principal i2 \<longleftrightarrow> a_ID a1 = a_ID a2) \<and>
    id_Tenant i1 = a_TenantID a1 \<and> id_Tenant i2 = a_TenantID a2"
proof -
  from assms(1) have ok: "accounts_ok (m_accounts m) (m_sessions m) (m_apiTokens m)" by (simp add: store_ok_def)
  obtain a1 where a1: "presents h m r1 a1" "stands_for (hs_lower h) a1 i1" by (rule operators_Inr [OF assms(3)])
  obtain a2 where a2: "presents h m r2 a2" "stands_for (hs_lower h) a2 i2" by (rule operators_Inr [OF assms(4)])
  note rows = presents_row [OF a1(1) assms(1)] presents_row [OF a2(1) assms(1)]
  have "a_ID a1 = a_ID a2" if "NormaliseEmail (hs_lower h) (a_Email a1) = NormaliseEmail (hs_lower h) (a_Email a2)"
  proof (rule accounts_okD(2) [OF ok rows])
    from rows assms(2) have "a_EmailKey a1 = EmailKey (hs_sha256_hex h) (hs_lower h) (a_Email a1)"
      "a_EmailKey a2 = EmailKey (hs_sha256_hex h) (hs_lower h) (a_Email a2)" by (auto simp: keyed_by_address_def)
    then show "a_EmailKey a1 = a_EmailKey a2" by (simp only: EmailKey_def that)
  qed
  note same = this
  have "a_ID a1 = a_ID a2" if "Principal i1 = Principal i2"
    using that by (intro same) (simp only: stands_for_Principal [OF a1(2)] stands_for_Principal [OF a2(2)] same_append_eq)
  moreover have "Principal i1 = Principal i2" if "a_ID a1 = a_ID a2"
  proof -
    from rows(1) that have "get (m_accounts m) (a_ID a2) = Some a1" by simp
    with rows(2) have "a1 = a2" by simp
    then show ?thesis by (simp only: stands_for_Principal [OF a1(2)] stands_for_Principal [OF a2(2)])
  qed
  ultimately have "Principal i1 = Principal i2 \<longleftrightarrow> a_ID a1 = a_ID a2" by (rule iffI)
  with a1 a2 show ?thesis by (intro exI [of _ a1] exI [of _ a2]) (simp add: stands_for_def)
qed

section \<open>Signing in costs the same for everybody\<close>

definition cost :: "signed_in \<Rightarrow> (argon_params \<times> nat) list" where
  "cost si = map (\<lambda>d. (dv_params d, dv_length d)) (si_derived si)"

lemma verify_cost:
  "map (\<lambda>d. (dv_params d, dv_length d)) (derived (VerifyPassword argon encoded password)) =
    (case parsePasswordHash encoded of None \<Rightarrow> []
     | Some (p, salt, key) \<Rightarrow> if 256 < length password then [] else [(p, length key)])"
  by (auto simp: VerifyPassword_def derived_def MaxPasswordLength_def Let_def split: option.split)

text \<open>The decoy is always a hash of this build: what it hides is long enough, and not too long.\<close>

lemma hex_runes: "length (runes (hex_encode raw)) = 2 * length raw \<and> length (hex_encode raw) = 2 * length raw"
proof -
  have "list_all (\<lambda>n. bv (hex_digit n) < 128) [0..<16]" by code_simp
  then have digit: "bv (hex_digit n) < 128" if "n < 16" for n using that by (simp add: list_all_iff)
  have "bv c div 16 < 16" "bv c mod 16 < 16" for c :: char using bv_less [of c] by linarith+
  with digit have "\<forall>c \<in> set (hex_encode raw). bv c < 128" by (auto simp: hex_encode_def)
  moreover have "length (runes s) = length s" if "\<forall>c \<in> set s. bv c < 128" for s
    using that by (induction s) (simp_all add: Let_def)
  moreover have "length (hex_encode raw) = 2 * length raw" by (induction raw) (simp_all add: hex_encode_def)
  ultimately show ?thesis by simp
qed

lemma decoyHash_hashed:
  assumes "\<And>raw. drnd = Some raw \<Longrightarrow> length raw = 32"
  obtains token where "HashPassword argon (Some dsalt) token = Inr (decoyHash argon drnd (Some dsalt))"
proof -
  let ?token = "case GenerateToken drnd of Some t \<Rightarrow> t | None \<Rightarrow> ''hostseal-decoy-password''"
  have "12 \<le> length (runes ?token) \<and> length ?token \<le> 256"
  proof (cases drnd)
    case None
    have "length (runes ''hostseal-decoy-password'') = 23" by code_simp
    with None show ?thesis by (simp add: GenerateToken_def)
  next
    case (Some raw)
    with assms hex_runes [of raw] show ?thesis by (simp add: GenerateToken_def)
  qed
  then obtain e where "HashPassword argon (Some dsalt) ?token = Inr e"
    by (simp add: HashPassword_def MinPasswordLength_def MaxPasswordLength_def Let_def)
  then show thesis by (intro that [of ?token]) (simp add: decoyHash_def Let_def)
qed

text \<open>Property C24: an address nobody holds and a wrong password get the same answer and no cookie, and leave the store as
  it was, whatever hash is stored. The first always costs one key derivation with this build's parameters (none, where
  the password is over-long); the second costs the derivation its row asks for, which is the same for every
  row this build wrote. A row with older parameters costs what those say, and one that cannot be read nothing.\<close>

theorem sign_in_uniform:
  assumes len: "\<And>d. length (hs_argon h d) = dv_length d"
    and decoy: "\<And>raw. drnd = Some raw \<Longrightarrow> length raw = 32" "length dsalt = 16"
    and unknown: "AccountByEmail (EmailKey (hs_sha256_hex h) (hs_lower h) e1) m = Inl ErrNotFound"
    and known: "AccountByEmail (EmailKey (hs_sha256_hex h) (hs_lower h) e2) m = Inr a"
    and wrong: "\<not> fst (VerifyPassword (hs_argon h) (a_PasswordHash a) password)"
    and up: "up ''AccountByEmail''"
  shows "\<exists>si1 si2. SignIn h ac (decoyHash (hs_argon h) drnd (Some dsalt)) up now salt rnd r e1 password m = (si1, m) \<and>
    SignIn h ac (decoyHash (hs_argon h) drnd (Some dsalt)) up now salt rnd r e2 password m = (si2, m) \<and>
    si_result si1 = Inl ErrUnauthenticated \<and> si_result si2 = si_result si1 \<and> si_cookie si1 = None \<and> si_cookie si2 = None \<and>
    cost si1 = (if 256 < length password then []
      else [(\<lparr>ap_memory = argonMemory, ap_time = argonTime, ap_threads = argonThreads\<rparr>, 32)]) \<and>
    cost si2 = (case parsePasswordHash (a_PasswordHash a) of None \<Rightarrow> []
      | Some (p, asalt, key) \<Rightarrow> if 256 < length password then [] else [(p, length key)]) \<and>
    (\<forall>asalt apassword. length asalt = 16 \<longrightarrow> HashPassword (hs_argon h) (Some asalt) apassword = Inr (a_PasswordHash a) \<longrightarrow>
      cost si1 = cost si2)"
proof -
  let ?decoy = "decoyHash (hs_argon h) drnd (Some dsalt)"
  obtain token where "HashPassword (hs_argon h) (Some dsalt) token = Inr ?decoy" using decoyHash_hashed [OF decoy(1)] by metis
  from stored_form [OF this decoy(2) len] obtain k1 where k1: "parsePasswordHash ?decoy =
      Some (\<lparr>ap_memory = argonMemory, ap_time = argonTime, ap_threads = argonThreads\<rparr>, dsalt, k1)" "length k1 = 32" by metis
  obtain si1 where si1: "SignIn h ac ?decoy up now salt rnd r e1 password m = (si1, m)" "si_result si1 = Inl ErrUnauthenticated"
    "si_cookie si1 = None" "cost si1 = (if 256 < length password then []
      else [(\<lparr>ap_memory = argonMemory, ap_time = argonTime, ap_threads = argonThreads\<rparr>, 32)])"
    using unknown up by (simp add: SignIn_def call_def cost_def Let_def verify_cost k1)
  obtain si2 where si2: "SignIn h ac ?decoy up now salt rnd r e2 password m = (si2, m)" "si_result si2 = Inl ErrUnauthenticated"
    "si_cookie si2 = None" "cost si2 = (case parsePasswordHash (a_PasswordHash a) of None \<Rightarrow> []
      | Some (p, asalt, key) \<Rightarrow> if 256 < length password then [] else [(p, length key)])"
    using known wrong up by (simp add: SignIn_def call_def cost_def Let_def verify_cost)
  have "cost si1 = cost si2" if asalt: "length asalt = 16"
    and hashed: "HashPassword (hs_argon h) (Some asalt) apassword = Inr (a_PasswordHash a)" for asalt apassword
  proof -
    obtain k2 where "parsePasswordHash (a_PasswordHash a) =
        Some (\<lparr>ap_memory = argonMemory, ap_time = argonTime, ap_threads = argonThreads\<rparr>, asalt, k2)" "length k2 = 32"
      by (rule stored_form [OF hashed asalt len])
    then show ?thesis using si1(4) si2(4) by simp
  qed
  then show ?thesis using si1 si2 by metis
qed

section \<open>How long a sign-in lasts\<close>

fun browse :: "hashing \<Rightarrow> accounts \<Rightarrow> reach \<Rightarrow> http_request \<Rightarrow> instant list \<Rightarrow> memory \<Rightarrow>
    (auth_error, identity) result list \<times> memory" where
  "browse h ac up r [] m = ([], m)"
| "browse h ac up r (t # ts) m =
     (let (x, m1) = Accounts_Authenticate h ac up t r m; (xs, m2) = browse h ac up r ts m1 in (x # xs, m2))"

lemma time_sub_less: "time_sub t u < SessionRenewAfter \<longleftrightarrow> t - u < SessionRenewAfter"
  by (auto simp: time_sub_def SessionRenewAfter_def Minute_def int64_min_def int64_max_def)

text \<open>The state of a session created at \<open>c\<close> and last used at \<open>t\<close>.\<close>

definition alive :: "accounts \<Rightarrow> bytes \<Rightarrow> account \<Rightarrow> instant \<Rightarrow> instant \<Rightarrow> memory \<Rightarrow> bool" where
  "alive ac k a c t m \<longleftrightarrow> get (m_accounts m) (a_ID a) = Some a \<and>
     (\<exists>s since. get (m_sessions m) k = Some s \<and> s_TokenHash s = k \<and> s_AccountID s = a_ID a \<and> s_CreatedAt s = c \<and>
        since = (if is_zero (s_LastUsedAt s) then c else s_LastUsedAt s) \<and> t - since < SessionRenewAfter \<and>
        s_ExpiresAt s = min (since + ac_ttl ac) (c + ac_maxAge ac))"

lemma aliveI:
  assumes "get (m_accounts m) (a_ID a) = Some a" "get (m_sessions m) k = Some s" "s_TokenHash s = k"
    "s_AccountID s = a_ID a" "s_CreatedAt s = c" "since = (if is_zero (s_LastUsedAt s) then c else s_LastUsedAt s)"
    "t - since < SessionRenewAfter" "s_ExpiresAt s = min (since + ac_ttl ac) (c + ac_maxAge ac)"
  shows "alive ac k a c t m"
  unfolding alive_def using assms by blast

lemma alive_step:
  assumes al: "alive ac k a c t m" and c: "0 < c" "c \<le> t'"
    and t: "t' \<le> t + ac_ttl ac - SessionRenewAfter" "t' < c + ac_maxAge ac"
    and r: "rq_cookie r = Some token" "token \<noteq> []" "rq_session_header r \<noteq> []"
      "k = HashSessionToken (hs_sha256_hex h) token"
    and up: "up ''SessionByToken''" "up ''TouchSession''"
  shows "fst (Accounts_Authenticate h ac up t' r m) = Inr (account_identity (hs_lower h) a) \<and>
    alive ac k a c t' (snd (Accounts_Authenticate h ac up t' r m))"
proof -
  from al obtain s since where a: "get (m_accounts m) (a_ID a) = Some a" and
    s: "get (m_sessions m) k = Some s" "s_TokenHash s = k" "s_AccountID s = a_ID a" "s_CreatedAt s = c"
      "since = (if is_zero (s_LastUsedAt s) then c else s_LastUsedAt s)" "t - since < SessionRenewAfter"
      "s_ExpiresAt s = min (since + ac_ttl ac) (c + ac_maxAge ac)"
    unfolding alive_def by blast
  have "t' < since + ac_ttl ac" using t(1) s(6) by linarith
  with t(2) s have valid: "session_Valid s t'" "withinMaxAge ac s t'"
    by (simp_all add: session_Valid_def withinMaxAge_def)
  have by_token: "SessionByToken (HashSessionToken (hs_sha256_hex h) token) m = Inr (s, a)"
    using r(4) [symmetric] s a by (simp add: SessionByToken_def)
  have auth: "Accounts_Authenticate h ac up t' r m = (Inr (account_identity (hs_lower h) a), renew ac up s a t' m)"
    using r(1-3) up(1) valid by (simp add: Accounts_Authenticate_def by_token call_def)
  have scoped: "scoped_account (scopeFor a) (a_ID a) m = Some a" using a by (simp add: scoped_account_def scopeFor_def)
  have "alive ac k a c t' (renew ac up s a t' m)"
  proof (cases "t' - since < SessionRenewAfter")
    case True
    with s have "renew ac up s a t' m = m" by (auto simp: renew_def Let_def time_sub_less split: if_splits)
    with aliveI [OF a s(1-5) True s(7)] show ?thesis by simp
  next
    case False
    let ?s = "s\<lparr>s_ExpiresAt := min (t' + ac_ttl ac) (c + ac_maxAge ac), s_LastUsedAt := t'\<rparr>"
    have touched: "call up ''TouchSession'' (TouchSession (scopeFor a) (a_ID a) k e t' m) =
        Inr (m\<lparr>m_sessions := put k (s\<lparr>s_ExpiresAt := e, s_LastUsedAt := t'\<rparr>) (m_sessions m)\<rparr>)" for e
      using s(1,3) scoped up(2) by (simp add: call_def TouchSession_def)
    have since: "\<not> time_sub t' (if is_zero (s_LastUsedAt s) then c else s_LastUsedAt s) < SessionRenewAfter"
      using False by (simp only: time_sub_less s(5) not_False_eq_True)
    have "renew ac up s a t' m = m\<lparr>m_sessions := put k ?s (m_sessions m)\<rparr>"
      unfolding renew_def Let_def if_not_P [OF since] s(2,4) touched by (simp add: attempted_def min_def)
    then show ?thesis
      using a s c by (intro aliveI [of _ _ _ ?s _ t']) (simp_all add: get_put is_zero_def SessionRenewAfter_def Minute_def)
  qed
  with auth show ?thesis by simp
qed

text \<open>Requests that follow one another within the idle window, less what a renewal may lag behind.\<close>

fun paced :: "duration \<Rightarrow> instant \<Rightarrow> instant list \<Rightarrow> bool" where
  "paced d t [] = True"
| "paced d t (t' # ts) = (t \<le> t' \<and> t' \<le> t + d \<and> paced d t' ts)"

lemma browse_alive:
  assumes "alive ac k a c t m" "0 < c" "c \<le> t" "paced (ac_ttl ac - SessionRenewAfter) t ts"
    "list_all (\<lambda>t. t < c + ac_maxAge ac) ts"
    "rq_cookie r = Some token" "token \<noteq> []" "rq_session_header r \<noteq> []" "k = HashSessionToken (hs_sha256_hex h) token"
    "up ''SessionByToken''" "up ''TouchSession''"
  shows "list_all (\<lambda>x. x = Inr (account_identity (hs_lower h) a)) (fst (browse h ac up r ts m)) \<and>
    (\<exists>t. alive ac k a c t (snd (browse h ac up r ts m)))"
  using assms(1-5)
proof (induction ts arbitrary: t m)
  case (Cons t' ts)
  have "fst (Accounts_Authenticate h ac up t' r m) = Inr (account_identity (hs_lower h) a) \<and>
    alive ac k a c t' (snd (Accounts_Authenticate h ac up t' r m))"
    by (rule alive_step [OF Cons.prems(1,2) _ _ _ assms(6-11)]) (use Cons.prems in auto)
  moreover from this have "list_all (\<lambda>x. x = Inr (account_identity (hs_lower h) a))
      (fst (browse h ac up r ts (snd (Accounts_Authenticate h ac up t' r m)))) \<and>
    (\<exists>t. alive ac k a c t (snd (browse h ac up r ts (snd (Accounts_Authenticate h ac up t' r m)))))"
    using Cons.prems by (intro Cons.IH [of t']) auto
  ultimately show ?case by (simp add: split_def Let_def)
qed auto

lemma too_old:
  assumes "alive ac (HashSessionToken (hs_sha256_hex h) token) a c t0 m" "c + ac_maxAge ac \<le> t"
    "rq_cookie r = Some token" "up ''SessionByToken''"
  shows "fst (Accounts_Authenticate h ac up t r m) = Inl ErrUnauthenticated"
proof -
  from assms(1) obtain s where s: "get (m_accounts m) (a_ID a) = Some a"
    "get (m_sessions m) (HashSessionToken (hs_sha256_hex h) token) = Some s"
    "s_AccountID s = a_ID a" "s_CreatedAt s = c" unfolding alive_def by blast
  then have "SessionByToken (HashSessionToken (hs_sha256_hex h) token) m = Inr (s, a)"
    by (simp add: SessionByToken_def)
  moreover have "\<not> withinMaxAge ac s t" using assms(2) s(4) by (simp add: withinMaxAge_def)
  ultimately show ?thesis using assms(3,4) by (simp add: Accounts_Authenticate_def call_def)
qed

text \<open>What a sign-in may change of an account row: the stored hash and the stamp.\<close>

definition same_person :: "account \<Rightarrow> account \<Rightarrow> bool" where
  "same_person a b \<longleftrightarrow> a_ID b = a_ID a \<and> a_TenantID b = a_TenantID a \<and> a_Email b = a_Email a \<and>
     a_DisplayName b = a_DisplayName a"

lemma same_person_identity: "same_person a b \<Longrightarrow> account_identity lower b = account_identity lower a"
  by (simp add: same_person_def account_identity_def identityFor_def)

lemma attempted_update:
  assumes "get (m_accounts m) (a_ID a) = Some b" "same_person a b" "\<And>b. same_person a b \<Longrightarrow> same_person a (f b)"
  shows "\<exists>as b'. attempted (call up name (updateAccount (scopeFor a) (a_ID a) f m)) m = m\<lparr>m_accounts := as\<rparr> \<and>
    get as (a_ID a) = Some b' \<and> same_person a b'"
proof (cases "up name")
  case True
  have "scoped_account (scopeFor a) (a_ID a) m = Some b"
    using assms(1,2) by (simp add: scoped_account_def scopeFor_def same_person_def)
  with True assms show ?thesis
    by (intro exI [of _ "put (a_ID a) (f b) (m_accounts m)"] exI [of _ "f b"])
      (simp add: attempted_def call_def updateAccount_def)
next
  case False
  with assms(1,2) show ?thesis
    by (intro exI [of _ "m_accounts m"] exI [of _ b]) (simp add: attempted_def call_def)
qed

lemma after_rehash:
  assumes "get (m_accounts m) (a_ID a) = Some a"
  shows "\<exists>as b. rehash h up a salt password m = m\<lparr>m_accounts := as\<rparr> \<and> get as (a_ID a) = Some b \<and> same_person a b"
proof -
  have self: "\<exists>as b. m = m\<lparr>m_accounts := as\<rparr> \<and> get as (a_ID a) = Some b \<and> same_person a b"
    using assms by (intro exI [of _ "m_accounts m"] exI [of _ a]) (simp add: same_person_def)
  have "\<exists>as b. attempted (call up n (UpdateAccountPassword (scopeFor a) (a_ID a) hashed m)) m = m\<lparr>m_accounts := as\<rparr> \<and>
      get as (a_ID a) = Some b \<and> same_person a b" for n hashed
    unfolding UpdateAccountPassword_def
    by (rule attempted_update [OF assms]) (simp_all add: same_person_def)
  with self show ?thesis by (auto simp: rehash_def split: sum.splits)
qed

lemma SignIn_Inr:
  assumes si: "SignIn h ac decoy up now salt rnd r email password m = (si, m')" "si_result si = Inr i" and "store_ok m"
    and now: "0 < now" "0 < ac_ttl ac" "ac_ttl ac \<le> ac_maxAge ac"
  obtains token a where "si_cookie si = Some (session_cookie token (now + ac_maxAge ac))"
    "i = account_identity (hs_lower h) a" "alive ac (HashSessionToken (hs_sha256_hex h) token) a now now m'"
proof -
  from assms(3) have ok: "accounts_ok (m_accounts m) (m_sessions m) (m_apiTokens m)" by (simp add: store_ok_def)
  from si obtain a token m2 where a: "AccountByEmail (EmailKey (hs_sha256_hex h) (hs_lower h) email) m = Inr a" and
    made: "CreateSession (scopeFor a) \<lparr>s_TokenHash = HashSessionToken (hs_sha256_hex h) token, s_AccountID = a_ID a,
      s_CreatedAt = now, s_ExpiresAt = now + ac_ttl ac, s_LastUsedAt = 0, s_UserAgent = describeAgent r,
      s_Source = RequestSource r\<rparr> (rehash h up a salt password m) = Inr m2" and
    ck: "si_cookie si = Some (session_cookie token (now + ac_maxAge ac))" and i: "i = account_identity (hs_lower h) a" and
    m': "m' = attempted (call up ''RecordAccountSignIn'' (RecordAccountSignIn (scopeFor a) (a_ID a) now m2)) m2"
    unfolding SignIn_def Let_def by (auto simp: res_simps split: sum.splits if_splits option.splits)
  from a obtain k where "get (m_accounts m) k = Some a"
    by (auto simp: AccountByEmail_def dest!: first_entry_Some split: option.splits)
  with accounts_okD(1) [OF ok this] have row: "get (m_accounts m) (a_ID a) = Some a" by simp
  obtain as b where m1: "rehash h up a salt password m = m\<lparr>m_accounts := as\<rparr>" "get as (a_ID a) = Some b" "same_person a b"
    using after_rehash [OF row] by blast
  let ?k = "HashSessionToken (hs_sha256_hex h) token"
  from made obtain ss where m2: "m2 = m\<lparr>m_accounts := as, m_sessions := ss\<rparr>" and
    ss: "get ss ?k = Some \<lparr>s_TokenHash = ?k, s_AccountID = a_ID a, s_CreatedAt = now, s_ExpiresAt = now + ac_ttl ac,
      s_LastUsedAt = 0, s_UserAgent = describeAgent r, s_Source = RequestSource r\<rparr>"
    by (auto simp: CreateSession_def m1(1) Let_def get_put split: if_splits)
  have "\<exists>as' b'. m' = m2\<lparr>m_accounts := as'\<rparr> \<and> get as' (a_ID a) = Some b' \<and> same_person a b'"
    unfolding m' RecordAccountSignIn_def
    by (rule attempted_update [of _ _ b]) (use m1 in \<open>simp_all add: m2 same_person_def\<close>)
  then obtain as' b' where f: "m' = m2\<lparr>m_accounts := as'\<rparr>" "get as' (a_ID a) = Some b'" "same_person a b'" by blast
  have id': "a_ID b' = a_ID a" using f(3) by (simp add: same_person_def)
  have "alive ac ?k b' now now m'"
  proof (rule aliveI [where since = now])
    show "get (m_accounts m') (a_ID b') = Some b'" using f(1,2) id' by simp
    show "get (m_sessions m') ?k = Some \<lparr>s_TokenHash = ?k, s_AccountID = a_ID a, s_CreatedAt = now,
        s_ExpiresAt = now + ac_ttl ac, s_LastUsedAt = 0, s_UserAgent = describeAgent r, s_Source = RequestSource r\<rparr>"
      using ss by (simp add: f(1) m2)
  qed (use id' now in \<open>simp_all add: is_zero_def SessionRenewAfter_def Minute_def\<close>)
  with ck i same_person_identity [OF f(3)] show ?thesis by (intro that [of token b']) simp_all
qed

text \<open>An operator who signed in and keeps working stays signed in, as the same identity, until the sign-in is
  as old as it may get; from then on the session authenticates nobody, however it was used.\<close>

theorem working_session_survives:
  assumes "SignIn h ac decoy up now salt rnd r0 email password m = (si, m1)" "si_result si = Inr i" "store_ok m"
    and "0 < now" "0 < ac_ttl ac" "ac_ttl ac \<le> ac_maxAge ac"
    and "si_cookie si = Some c" "rq_cookie r = Some (ck_Value c)" "ck_Value c \<noteq> []" "rq_session_header r \<noteq> []"
    and "paced (ac_ttl ac - SessionRenewAfter) now ts" "list_all (\<lambda>t. t < now + ac_maxAge ac) ts"
    and "up' ''SessionByToken''" "up' ''TouchSession''"
  shows "list_all (\<lambda>x. x = Inr i) (fst (browse h ac up' r ts m1)) \<and>
    (now + ac_maxAge ac \<le> t \<longrightarrow> fst (Accounts_Authenticate h ac up' t r (snd (browse h ac up' r ts m1))) = Inl ErrUnauthenticated)"
proof -
  obtain token a where t: "si_cookie si = Some (session_cookie token (now + ac_maxAge ac))"
    "i = account_identity (hs_lower h) a" "alive ac (HashSessionToken (hs_sha256_hex h) token) a now now m1"
    by (rule SignIn_Inr [OF assms(1-6)])
  have "c = session_cookie token (now + ac_maxAge ac)" using assms(7) t(1) by simp
  then have v: "ck_Value c = token" by (simp add: session_cookie_def)
  note B = browse_alive [OF t(3) assms(4) order_refl assms(11,12) assms(8)[unfolded v] assms(9)[unfolded v] assms(10) refl assms(13,14)]
  from B obtain t' where "alive ac (HashSessionToken (hs_sha256_hex h) token) a now t' (snd (browse h ac up' r ts m1))"
    by blast
  then have "fst (Accounts_Authenticate h ac up' t r (snd (browse h ac up' r ts m1))) = Inl ErrUnauthenticated"
    if "now + ac_maxAge ac \<le> t"
    by (rule too_old [where up = up', OF _ that assms(8)[unfolded v] assms(13)])
  then show ?thesis using B t(2) by simp
qed


section \<open>Instances\<close>

definition demo_hashing :: hashing where
  "demo_hashing = \<lparr>hs_sha256_hex = (\<lambda>x. x), hs_lower = (\<lambda>x. x), hs_argon = toy_argon\<rparr>"

definition demo_hash :: "bytes \<Rightarrow> bytes" where
  "demo_hash password = (case HashPassword toy_argon (Some ''0123456789abcdef'') password of Inl _ \<Rightarrow> [] | Inr e \<Rightarrow> e)"

definition demo_account :: account where
  "demo_account = \<lparr>a_ID = ''A1'', a_TenantID = ''default'', a_Email = ''eve'', a_EmailKey = ''eve'', a_DisplayName = [],
     a_PasswordHash = demo_hash ''correct horse'', a_CreatedAt = 1, a_LastSignedInAt = 0\<rparr>"

definition demo_memory :: memory where
  "demo_memory = (NewMemory 1)\<lparr>m_accounts := put ''A1'' demo_account no_entries,
     m_sessions := put ''cookie'' \<lparr>s_TokenHash = ''cookie'', s_AccountID = ''A1'', s_CreatedAt = 1, s_ExpiresAt = 100,
       s_LastUsedAt = 0, s_UserAgent = [], s_Source = []\<rparr> no_entries,
     m_apiTokens := put ''hsl_k'' \<lparr>at_Hash = ''hsl_k'', at_AccountID = ''A1'', at_Label = ''ci'', at_CreatedAt = 1,
       at_ExpiresAt = 0, at_LastUsedAt = 0\<rparr> no_entries\<rparr>"

definition demo_request :: http_request where
  "demo_request = \<lparr>rq_cookie = Some ''cookie'', rq_session_header = ''1'', rq_authorization = [],
     rq_RemoteAddr = ''10.0.0.1:80'', rq_UserAgent = []\<rparr>"

lemma demo_ok: "store_ok demo_memory"
  using store_ok_NewMemory [of 1]
  by (simp add: store_ok_def demo_memory_def accounts_ok_def get_put demo_account_def)

lemma demo_keyed: "keyed_by_address demo_hashing demo_memory"
proof -
  have "trim_space ''eve'' = ''eve''" by code_simp
  then show ?thesis
    by (simp add: keyed_by_address_def demo_memory_def get_put demo_hashing_def EmailKey_def NormaliseEmail_def demo_account_def)
qed

lemma toy_length: "length (toy_argon d) = dv_length d"
  by (simp add: toy_argon_def)

lemma demo_stored: "HashPassword toy_argon (Some ''0123456789abcdef'') ''correct horse'' = Inr (demo_hash ''correct horse'')"
  "fst (VerifyPassword toy_argon (demo_hash ''correct horse'') ''correct horse'')"
  "\<not> NeedsRehash (demo_hash ''correct horse'')"
proof -
  obtain e where e: "HashPassword toy_argon (Some ''0123456789abcdef'') ''correct horse'' = Inr e"
    by (simp add: HashPassword_def MinPasswordLength_def MaxPasswordLength_def Let_def)
  then have d: "demo_hash ''correct horse'' = e" by (simp add: demo_hash_def)
  obtain k where k: "parsePasswordHash e =
      Some (\<lparr>ap_memory = argonMemory, ap_time = argonTime, ap_threads = argonThreads\<rparr>, ''0123456789abcdef'', k)" "length k = 32"
    "k = toy_argon \<lparr>dv_password = ''correct horse'', dv_salt = ''0123456789abcdef'',
      dv_params = \<lparr>ap_memory = argonMemory, ap_time = argonTime, ap_threads = argonThreads\<rparr>, dv_length = 32\<rparr>"
    by (rule stored_form [OF e _ toy_length]) simp
  from e d show "HashPassword toy_argon (Some ''0123456789abcdef'') ''correct horse'' = Inr (demo_hash ''correct horse'')" by simp
  show "fst (VerifyPassword toy_argon (demo_hash ''correct horse'') ''correct horse'')"
    using k by (simp add: d VerifyPassword_def Let_def MaxPasswordLength_def)
  show "\<not> NeedsRehash (demo_hash ''correct horse'')"
    using k by (simp add: d NeedsRehash_def go_defs)
qed


theorem principal_is_account_witness:
  "\<exists>i1 i2. fst (operators demo_hashing (NewAccounts 0 0) (\<lambda>_. True) 5 demo_request demo_memory) = Inr i1 \<and>
    fst (operators demo_hashing (NewAccounts 0 0) (\<lambda>_. True) 5
      (demo_request\<lparr>rq_cookie := None, rq_authorization := ''bearer hsl_k''\<rparr>) demo_memory) = Inr i2 \<and>
    id_Tenant i1 = ''default'' \<and> Principal i1 = Principal i2"
proof -
  have t: "trim_space ''cookie'' = ''cookie''" "trim_space ''hsl_k'' = ''hsl_k''" "to_lower ''bearer'' = ''bearer''"
    by code_simp+
  obtain i1 where i1: "fst (operators demo_hashing (NewAccounts 0 0) (\<lambda>_. True) 5 demo_request demo_memory) = Inr i1"
    by (simp add: operators_def chain_Authenticate_def Accounts_Authenticate_def APITokens_Authenticate_def Let_def
        demo_request_def demo_memory_def demo_hashing_def HashSessionToken_def t call_def SessionByToken_def get_put
        session_Valid_def withinMaxAge_def NewAccounts_def go_defs bearerToken_def renew_def time_sub_def int64_min_def int64_max_def
        demo_account_def split: prod.splits)
  obtain i2 where i2: "fst (operators demo_hashing (NewAccounts 0 0) (\<lambda>_. True) 5
      (demo_request\<lparr>rq_cookie := None, rq_authorization := ''bearer hsl_k''\<rparr>) demo_memory) = Inr i2"
    by (simp add: operators_def chain_Authenticate_def Accounts_Authenticate_def APITokens_Authenticate_def Let_def
        demo_request_def demo_memory_def demo_hashing_def HashAPIToken_def t call_def APITokenByHash_def get_put
        api_Usable_def is_zero_def bearerToken_def demo_account_def split: prod.splits)
  have only: "a_ID a = ''A1'' \<and> a_TenantID a = ''default''" if "presents demo_hashing demo_memory r a" for r a
    using presents_row [OF that demo_ok] by (auto simp: demo_memory_def get_put demo_account_def split: if_splits)
  show ?thesis
    using principal_is_account [OF demo_ok demo_keyed i1 i2] i1 i2 only by metis
qed


lemma demo_by_email:
  "AccountByEmail (EmailKey (hs_sha256_hex demo_hashing) (hs_lower demo_hashing) ''eve'') demo_memory = Inr demo_account"
  "AccountByEmail (EmailKey (hs_sha256_hex demo_hashing) (hs_lower demo_hashing) ''bob'') demo_memory = Inl ErrNotFound"
proof -
  have t: "trim_space ''eve'' = ''eve''" "trim_space ''bob'' = ''bob''" by code_simp+
  show "AccountByEmail (EmailKey (hs_sha256_hex demo_hashing) (hs_lower demo_hashing) ''eve'') demo_memory = Inr demo_account"
    "AccountByEmail (EmailKey (hs_sha256_hex demo_hashing) (hs_lower demo_hashing) ''bob'') demo_memory = Inl ErrNotFound"
    by (simp_all add: AccountByEmail_def EmailKey_def NormaliseEmail_def demo_hashing_def t demo_memory_def first_entry_def
        entries_put DAList.empty.rep_eq demo_account_def)
qed

theorem sign_in_uniform_witness:
  "\<exists>si1 si2. SignIn demo_hashing (NewAccounts 0 0) (decoyHash toy_argon None (Some ''0123456789abcdef'')) (\<lambda>_. True) 5 None None demo_request
      ''bob'' ''wrong'' demo_memory = (si1, demo_memory) \<and>
    SignIn demo_hashing (NewAccounts 0 0) (decoyHash toy_argon None (Some ''0123456789abcdef'')) (\<lambda>_. True) 5 None None demo_request
      ''eve'' ''wrong'' demo_memory = (si2, demo_memory) \<and> cost si1 = cost si2"
proof -
  let ?a = "\<lambda>pw. toy_argon \<lparr>dv_password = pw, dv_salt = ''0123456789abcdef'',
      dv_params = \<lparr>ap_memory = argonMemory, ap_time = argonTime, ap_threads = argonThreads\<rparr>, dv_length = 32\<rparr>"
  obtain key where k: "parsePasswordHash (demo_hash ''correct horse'') =
      Some (\<lparr>ap_memory = argonMemory, ap_time = argonTime, ap_threads = argonThreads\<rparr>, ''0123456789abcdef'', key)"
    "length key = 32" "key = ?a ''correct horse''"
    by (rule stored_form [OF demo_stored(1) _ toy_length]) simp
  have "?a ''wrong'' ! 16 \<noteq> ?a ''correct horse'' ! 16" by (simp add: toy_argon_def)
  then have "?a ''wrong'' \<noteq> key" using k(3) by auto
  then have "\<not> fst (VerifyPassword toy_argon (demo_hash ''correct horse'') ''wrong'')"
    by (simp add: VerifyPassword_def k(1,2) Let_def MaxPasswordLength_def)
  then have wrong: "\<not> fst (VerifyPassword (hs_argon demo_hashing) (a_PasswordHash demo_account) ''wrong'')"
    by (simp add: demo_hashing_def demo_account_def)
  have "HashPassword (hs_argon demo_hashing) (Some ''0123456789abcdef'') ''correct horse'' = Inr (a_PasswordHash demo_account)"
    using demo_stored(1) by (simp add: demo_hashing_def demo_account_def)
  moreover have "hs_argon demo_hashing = toy_argon" by (simp add: demo_hashing_def)
  moreover note sign_in_uniform [where h = demo_hashing and ac = "NewAccounts 0 0" and up = "\<lambda>_. True" and now = 5 and salt = None
        and rnd = None and r = demo_request and drnd = None and dsalt = "''0123456789abcdef''",
        OF _ _ _ demo_by_email(2,1) wrong]
  ultimately show ?thesis using toy_length by fastforce
qed

theorem working_session_survives_witness:
  "\<exists>i. fst (browse demo_hashing (NewAccounts 0 0) (\<lambda>_. True) (demo_request\<lparr>rq_cookie := Some ''6b''\<rparr>)
      [5 + 10 * 3600 * Second, 5 + 20 * 3600 * Second]
      (snd (SignIn demo_hashing (NewAccounts 0 0) [] (\<lambda>_. True) 5 None (Some ''k'') demo_request ''eve'' ''correct horse''
        demo_memory))) = [Inr i, Inr i] \<and> id_Subject i = ''eve''"
proof -
  let ?S = "SignIn demo_hashing (NewAccounts 0 0) [] (\<lambda>_. True) 5 None (Some ''k'') demo_request ''eve'' ''correct horse''
        demo_memory"
  have t: "trim_space ''eve'' = ''eve''" by code_simp
  have r: "rehash demo_hashing (\<lambda>_. True) demo_account None ''correct horse'' demo_memory = demo_memory"
    by (simp add: rehash_def demo_account_def demo_stored(3))
  have sc: "scoped_account (scopeFor demo_account) (a_ID demo_account) demo_memory = Some demo_account"
    by (simp add: scoped_account_def scopeFor_def demo_memory_def get_put demo_account_def)
  have v: "fst (VerifyPassword (hs_argon demo_hashing) (a_PasswordHash demo_account) ''correct horse'')"
    by (simp add: demo_hashing_def demo_account_def demo_stored(2))
  have si: "si_result (fst ?S) = Inr (account_identity (hs_lower demo_hashing) demo_account) \<and>
      si_cookie (fst ?S) = Some (session_cookie ''6b'' (5 + ac_maxAge (NewAccounts 0 0)))"
    by (simp add: SignIn_def call_def demo_by_email(1) Let_def v r GenerateToken_def hex_encode_def hex_digit_def
        CreateSession_def sc)
  have n: "ac_ttl (NewAccounts 0 0) = 43200000000000" "ac_maxAge (NewAccounts 0 0) = 604800000000000"
    by (simp_all add: NewAccounts_def go_defs)
  have "list_all (\<lambda>x. x = Inr (account_identity (hs_lower demo_hashing) demo_account))
      (fst (browse demo_hashing (NewAccounts 0 0) (\<lambda>_. True) (demo_request\<lparr>rq_cookie := Some ''6b''\<rparr>)
      [5 + 10 * 3600 * Second, 5 + 20 * 3600 * Second] (snd ?S)))"
    by (rule working_session_survives [where si = "fst ?S" and ?m1.0 = "snd ?S" and t = 0, OF _ conjunct1 [OF si] demo_ok _ _ _
          conjunct2 [OF si], THEN conjunct1])
      (auto simp: n session_cookie_def demo_request_def go_defs)
  moreover have "length (fst (browse demo_hashing (NewAccounts 0 0) (\<lambda>_. True) (demo_request\<lparr>rq_cookie := Some ''6b''\<rparr>)
      [5 + 10 * 3600 * Second, 5 + 20 * 3600 * Second] (snd ?S))) = 2"
    by (simp add: split_def Let_def)
  ultimately have "fst (browse demo_hashing (NewAccounts 0 0) (\<lambda>_. True) (demo_request\<lparr>rq_cookie := Some ''6b''\<rparr>)
      [5 + 10 * 3600 * Second, 5 + 20 * 3600 * Second] (snd ?S)) =
      [Inr (account_identity (hs_lower demo_hashing) demo_account), Inr (account_identity (hs_lower demo_hashing) demo_account)]"
    by (auto simp: length_Suc_conv numeral_2_eq_2)
  moreover have "id_Subject (account_identity (hs_lower demo_hashing) demo_account) = ''eve''"
    by (simp add: account_identity_def identityFor_def NormaliseEmail_def demo_hashing_def demo_account_def t)
  ultimately show ?thesis by (intro exI [of _ "account_identity (hs_lower demo_hashing) demo_account"] conjI)
qed

end
