(* ===== verification/Notify.thy ===== *)
theory Notify
  imports GoTime Go_Strings JSON
begin

text \<open>
  Package \<open>internal/notify\<close>: the closed vocabulary of events, the rule for webhook addresses, the bounded
  retry around a sink, and the conversation of the mail sink. What the network answers is an argument;
  the text of a mail is not modelled.
\<close>

section \<open>Kinds\<close>

type_synonym kind = bytes

definition KindHostEnrolled :: kind where [go_defs]: "KindHostEnrolled = ''host.enrolled''"
definition KindHostSilent :: kind where [go_defs]: "KindHostSilent = ''host.silent''"
definition KindHostRecovered :: kind where [go_defs]: "KindHostRecovered = ''host.recovered''"
definition KindJobCreated :: kind where [go_defs]: "KindJobCreated = ''job.created''"
definition KindJobApproved :: kind where [go_defs]: "KindJobApproved = ''job.approved''"
definition KindJobFailed :: kind where [go_defs]: "KindJobFailed = ''job.failed''"
definition KindJobExpired :: kind where [go_defs]: "KindJobExpired = ''job.expired''"
definition KindServiceFailed :: kind where [go_defs]: "KindServiceFailed = ''service.failed''"
definition KindServiceRecovered :: kind where [go_defs]: "KindServiceRecovered = ''service.recovered''"
definition KindUpdatesPending :: kind where [go_defs]: "KindUpdatesPending = ''updates.pending''"
definition KindUpdatesResolved :: kind where [go_defs]: "KindUpdatesResolved = ''updates.resolved''"
definition KindRebootOverdue :: kind where [go_defs]: "KindRebootOverdue = ''reboot.overdue''"
definition KindRebootDone :: kind where [go_defs]: "KindRebootDone = ''reboot.done''"
definition KindDeliveryFailed :: kind where [go_defs]: "KindDeliveryFailed = ''delivery.failed''"

definition Kinds :: "kind list" where
  "Kinds = [KindHostEnrolled, KindHostSilent, KindHostRecovered, KindJobCreated, KindJobApproved, KindJobFailed,
     KindJobExpired, KindServiceFailed, KindServiceRecovered, KindUpdatesPending, KindUpdatesResolved,
     KindRebootOverdue, KindRebootDone, KindDeliveryFailed]"

definition kind_Valid :: "kind \<Rightarrow> bool" where
  "kind_Valid k \<longleftrightarrow> k \<in> set Kinds"

record notification =
  ne_Kind :: kind
  ne_TenantID :: bytes
  ne_HostID :: bytes
  ne_Hostname :: bytes
  ne_Summary :: bytes
  ne_At :: instant
  ne_Detail :: "(bytes \<times> json) list"

section \<open>Webhooks\<close>

text \<open>\<open>url.Parse\<close> answers the scheme (in lower case) and the host, or an error.\<close>

datatype webhook_error = NotAURL | SchemeNotHTTPS bytes | NoHostInURL | NotAnAddress | NotResolved | LinkLocal | Redirected
  | NotEncoded | NotPosted | StatusRefused int

definition ValidateWebhookURL :: "(bytes \<Rightarrow> (bytes \<times> bytes) option) \<Rightarrow> bytes \<Rightarrow> webhook_error option" where
  "ValidateWebhookURL url_parse raw = (case url_parse raw of
      None \<Rightarrow> Some NotAURL
    | Some (scheme, host) \<Rightarrow>
        if scheme \<noteq> ''https'' then Some (SchemeNotHTTPS scheme)
        else if host = [] then Some NoHostInURL
        else None)"

text \<open>What the dialer hands to its \<open>Control\<close> function, read by \<open>net.SplitHostPort\<close> and
  \<open>netip.ParseAddr\<close>: an address by its bytes, four or sixteen.\<close>

datatype dialled = Unsplit | Unparsed | Addr4 "nat list" | Addr6 "nat list"

text \<open>\<open>netip.Addr.IsLinkLocalUnicast\<close> and \<open>IsLinkLocalMulticast\<close>; both unmap an IPv4 address that is
  written as an IPv6 one.\<close>

definition unmap4 :: "dialled \<Rightarrow> dialled" where
  "unmap4 a = (case a of
      Addr6 bs \<Rightarrow> if take 12 bs = replicate 10 0 @ [255, 255] then Addr4 (drop 12 bs) else a
    | _ \<Rightarrow> a)"

definition IsLinkLocalUnicast :: "dialled \<Rightarrow> bool" where
  "IsLinkLocalUnicast a = (case unmap4 a of
      Addr4 bs \<Rightarrow> bs ! 0 = 169 \<and> bs ! 1 = 254
    | Addr6 bs \<Rightarrow> bs ! 0 = 254 \<and> 128 \<le> bs ! 1 \<and> bs ! 1 < 192
    | _ \<Rightarrow> False)"

definition IsLinkLocalMulticast :: "dialled \<Rightarrow> bool" where
  "IsLinkLocalMulticast a = (case unmap4 a of
      Addr4 bs \<Rightarrow> bs ! 0 = 224 \<and> bs ! 1 = 0 \<and> bs ! 2 = 0
    | Addr6 bs \<Rightarrow> bs ! 0 = 255 \<and> bs ! 1 mod 16 = 2
    | _ \<Rightarrow> False)"

definition dialGuard :: "dialled \<Rightarrow> webhook_error option" where
  "dialGuard a = (case a of
      Unsplit \<Rightarrow> Some NotAnAddress
    | Unparsed \<Rightarrow> Some NotResolved
    | _ \<Rightarrow> if IsLinkLocalUnicast a \<or> IsLinkLocalMulticast a then Some LinkLocal else None)"

text \<open>What the endpoint is and does: what its name resolves to, whether it redirects, and whether a
  request reaches it and with which status it is answered.\<close>

record endpoint =
  ep_addr :: dialled
  ep_redirects :: bool
  ep_reached :: bool
  ep_status :: int

text \<open>The effect of a delivery is the request that left, if one did.\<close>

definition webhook_Deliver ::
  "(bytes \<Rightarrow> (bytes \<times> bytes) option) \<Rightarrow> (notification \<Rightarrow> bytes option) \<Rightarrow> (bytes \<Rightarrow> endpoint) \<Rightarrow> bytes \<Rightarrow> notification \<Rightarrow>
   webhook_error option \<times> (bytes \<times> bytes) list" where
  "webhook_Deliver url_parse encode net url ev = (case ValidateWebhookURL url_parse url of
      Some e \<Rightarrow> (Some e, [])
    | None \<Rightarrow>
        (case encode ev of
           None \<Rightarrow> (Some NotEncoded, [])
         | Some body \<Rightarrow>
             (case dialGuard (ep_addr (net url)) of
                Some e \<Rightarrow> (Some e, [])
              | None \<Rightarrow>
                  if \<not> ep_reached (net url) then (Some NotPosted, [])
                  else if ep_redirects (net url) then (Some Redirected, [(url, body)])
                  else if 300 \<le> ep_status (net url) then (Some (StatusRefused (ep_status (net url))), [(url, body)])
                  else (None, [(url, body)]))))"

section \<open>Retrying\<close>

definition DeliveryAttempts :: nat where [go_defs]: "DeliveryAttempts = 3"

definition deliveryBackoff :: "duration list" where
  "deliveryBackoff = [2 * Second, 6 * Second]"

datatype 'e delivery_error = FailedTimes nat 'e | GivingUp 'e

text \<open>The sink's answer to each attempt, and whether the context ends during the pause after it; the
  answer comes with the number of attempts made.\<close>

function retry_from :: "(nat \<Rightarrow> 'e option) \<Rightarrow> (nat \<Rightarrow> bool) \<Rightarrow> nat \<Rightarrow> 'e delivery_error option \<times> nat" where
  "retry_from sink cancelled attempt = (case sink attempt of
      None \<Rightarrow> (None, Suc attempt)
    | Some e \<Rightarrow>
        if DeliveryAttempts \<le> Suc attempt then (Some (FailedTimes DeliveryAttempts e), Suc attempt)
        else if cancelled attempt then (Some (GivingUp e), Suc attempt)
        else retry_from sink cancelled (Suc attempt))"
  by pat_completeness auto
termination by (relation "measure (\<lambda>(_, _, attempt). DeliveryAttempts - attempt)") auto

declare retry_from.simps [simp del]

definition DeliverWithRetry :: "(nat \<Rightarrow> 'e option) \<Rightarrow> (nat \<Rightarrow> bool) \<Rightarrow> 'e delivery_error option \<times> nat" where
  "DeliverWithRetry sink cancelled = retry_from sink cancelled 0"

lemma retry_from_result:
  assumes "attempt < DeliveryAttempts"
  shows "attempt < snd (retry_from sink c attempt) \<and> snd (retry_from sink c attempt) \<le> DeliveryAttempts \<and>
    (fst (retry_from sink c attempt) = None \<longleftrightarrow> sink (snd (retry_from sink c attempt) - 1) = None) \<and>
    (\<forall>i. attempt \<le> i \<and> i < snd (retry_from sink c attempt) - 1 \<longrightarrow> sink i \<noteq> None \<and> \<not> c i)"
  using assms
proof (induction sink c attempt rule: retry_from.induct)
  case (1 sink c attempt)
  show ?case
  proof (cases "sink attempt = None \<or> DeliveryAttempts \<le> Suc attempt \<or> c attempt")
    case True
    with "1.prems" show ?thesis
      by (auto simp: retry_from.simps [of sink c attempt] split: option.split)
  next
    case False
    then obtain e where e: "sink attempt = Some e" by auto
    have step: "retry_from sink c attempt = retry_from sink c (Suc attempt)"
      using False e by (simp add: retry_from.simps [of sink c attempt])
    have ih: "Suc attempt < snd (retry_from sink c (Suc attempt)) \<and> snd (retry_from sink c (Suc attempt)) \<le> DeliveryAttempts \<and>
        (fst (retry_from sink c (Suc attempt)) = None \<longleftrightarrow> sink (snd (retry_from sink c (Suc attempt)) - 1) = None) \<and>
        (\<forall>i. Suc attempt \<le> i \<and> i < snd (retry_from sink c (Suc attempt)) - 1 \<longrightarrow> sink i \<noteq> None \<and> \<not> c i)"
      by (rule "1.IH" [OF e]) (use False in auto)
    have "sink i \<noteq> None \<and> \<not> c i" if "attempt \<le> i" "i < snd (retry_from sink c (Suc attempt)) - 1" for i
      using that ih False e by (cases "i = attempt") auto
    with ih show ?thesis unfolding step by auto
  qed
qed

lemma DeliverWithRetry_result:
  "\<exists>n. snd (DeliverWithRetry sink c) = Suc n \<and> n < 3 \<and>
     (fst (DeliverWithRetry sink c) = None \<longleftrightarrow> sink n = None) \<and> (\<forall>i < n. sink i \<noteq> None \<and> \<not> c i) \<and>
     ((\<exists>i < 3. sink i = None \<and> (\<forall>k < i. \<not> c k)) \<longrightarrow> fst (DeliverWithRetry sink c) = None)"
proof -
  obtain n where n: "snd (DeliverWithRetry sink c) = Suc n" "n < 3"
      "fst (DeliverWithRetry sink c) = None \<longleftrightarrow> sink n = None" "\<forall>i < n. sink i \<noteq> None \<and> \<not> c i"
    using retry_from_result [of 0 sink c]
    by (intro that [of "snd (DeliverWithRetry sink c) - 1"]) (auto simp: DeliverWithRetry_def DeliveryAttempts_def)
  have "fst (DeliverWithRetry sink c) = None" if "i < 3" "sink i = None" "\<forall>k < i. \<not> c k" for i
  proof (rule ccontr)
    assume failed: "fst (DeliverWithRetry sink c) \<noteq> None"
    have "n \<le> i" using n(4) that(2) by (metis not_le)
    with failed n(3) that(2) have less: "n < i" by (cases "n = i") auto
    have c: "\<not> c n" using that(3) less by blast
    have stops: "sink n \<noteq> None \<Longrightarrow> \<not> c n \<Longrightarrow> Suc n < 3 \<Longrightarrow> n < Suc n \<Longrightarrow> retry_from sink c m = (r, Suc n) \<Longrightarrow> m \<le> n \<Longrightarrow>
        (\<forall>i. m \<le> i \<and> i < n \<longrightarrow> sink i \<noteq> None \<and> \<not> c i) \<Longrightarrow> False" for m r
    proof (induction "n - m" arbitrary: m)
      case 0
      then have "m = n" by simp
      then have "retry_from sink c (Suc n) = (r, Suc n)"
        using 0 by (auto simp: retry_from.simps [of sink c n] DeliveryAttempts_def)
      moreover have "Suc n < snd (retry_from sink c (Suc n))"
        using retry_from_result [of "Suc n" sink c] 0 by (simp add: DeliveryAttempts_def)
      ultimately show False by simp
    next
      case (Suc d)
      then have "retry_from sink c m = retry_from sink c (Suc m)"
        by (auto simp: retry_from.simps [of sink c m] DeliveryAttempts_def)
      with Suc show False by (intro Suc.hyps(1) [of "Suc m"]) auto
    qed
    show False
      by (rule stops [of 0 "fst (DeliverWithRetry sink c)"])
        (use failed n less that(1) c in \<open>auto simp: DeliverWithRetry_def prod_eq_iff\<close>)
  qed
  with n show ?thesis by auto
qed

text \<open>Property C34: a delivery ends: after at most three attempts, in a success at the first attempt that succeeds,
  or in a failure when the third one fails or the process stops.\<close>

theorem DeliverWithRetry_ends:
  "\<exists>n. snd (DeliverWithRetry sink c) = Suc n \<and> n < 3 \<and>
     (fst (DeliverWithRetry sink c) = None \<longleftrightarrow> sink n = None) \<and> (\<forall>i < n. sink i \<noteq> None \<and> \<not> c i) \<and>
     ((\<exists>i < 3. sink i = None \<and> (\<forall>k < i. \<not> c k)) \<longrightarrow> fst (DeliverWithRetry sink c) = None)"
  by (rule DeliverWithRetry_result)

theorem DeliverWithRetry_ends_witness:
  "\<exists>n. snd (DeliverWithRetry (\<lambda>i. if i = 1 then None else Some ''refused'') (\<lambda>_. False)) = Suc n \<and> n < 3 \<and>
     fst (DeliverWithRetry (\<lambda>i. if i = 1 then None else Some ''refused'') (\<lambda>_. False)) = None"
proof -
  let ?sink = "\<lambda>i::nat. if i = 1 then None else Some ''refused''" and ?c = "\<lambda>_::nat. False"
  have "\<exists>i<3. ?sink i = None \<and> (\<forall>k<i. \<not> ?c k)" by (intro exI [of _ 1]) simp
  with DeliverWithRetry_ends [of ?sink ?c] show ?thesis by blast
qed

text \<open>A request of the webhook sink leaves only for an https address with a host, never for an address of
  the link-local ranges, in whichever of its two forms the resolver writes it, at most once per attempt,
  and only to the address that was configured.\<close>

theorem webhook_confined:
  assumes "webhook_Deliver parse encode net url ev = (r, sent)" "sent \<noteq> []"
  shows "\<exists>host body. parse url = Some (''https'', host) \<and> host \<noteq> [] \<and> encode ev = Some body \<and> sent = [(url, body)] \<and>
    (\<forall>a b. ep_addr (net url) \<noteq> Addr4 [169, 254, a, b] \<and>
      ep_addr (net url) \<noteq> Addr6 [0, 0, 0, 0, 0, 0, 0, 0, 0, 0, 255, 255, 169, 254, a, b]) \<and>
    (r = None \<longleftrightarrow> \<not> ep_redirects (net url) \<and> ep_status (net url) < 300)"
proof -
  have guard: "dialGuard (ep_addr (net url)) = None" using assms
    by (auto simp: webhook_Deliver_def split: option.splits if_splits)
  have "dialGuard (Addr4 [169, 254, a, b]) \<noteq> None"
    "dialGuard (Addr6 [0, 0, 0, 0, 0, 0, 0, 0, 0, 0, 255, 255, 169, 254, a, b]) \<noteq> None" for a b
    by (simp_all add: dialGuard_def IsLinkLocalUnicast_def unmap4_def numeral_eq_Suc)
  with guard have "\<forall>a b. ep_addr (net url) \<noteq> Addr4 [169, 254, a, b] \<and>
      ep_addr (net url) \<noteq> Addr6 [0, 0, 0, 0, 0, 0, 0, 0, 0, 0, 255, 255, 169, 254, a, b]" by metis
  then show ?thesis using assms
    by (auto simp: webhook_Deliver_def ValidateWebhookURL_def split: option.splits if_splits)
qed

definition sample_event :: notification where
  "sample_event = \<lparr>ne_Kind = KindJobFailed, ne_TenantID = ''t'', ne_HostID = [], ne_Hostname = [], ne_Summary = [],
     ne_At = 0, ne_Detail = []\<rparr>"

theorem webhook_confined_witness:
  "snd (webhook_Deliver (\<lambda>_. Some (''https'', ''chat.example'')) (\<lambda>_. Some ''{}'')
     (\<lambda>_. \<lparr>ep_addr = Addr4 [10, 0, 0, 7], ep_redirects = False, ep_reached = True, ep_status = 204\<rparr>) ''https://chat.example/h''
     sample_event)
   = [(''https://chat.example/h'', ''{}'')]"
proof -
  let ?r = "webhook_Deliver (\<lambda>_. Some (''https'', ''chat.example'')) (\<lambda>_. Some ''{}'')
     (\<lambda>_. \<lparr>ep_addr = Addr4 [10, 0, 0, 7], ep_redirects = False, ep_reached = True, ep_status = 204\<rparr>) ''https://chat.example/h''
     sample_event"
  have r: "?r = (None, [(''https://chat.example/h'', ''{}'')])"
    by (simp add: webhook_Deliver_def ValidateWebhookURL_def dialGuard_def IsLinkLocalUnicast_def IsLinkLocalMulticast_def unmap4_def)
  from webhook_confined [OF r] show ?thesis by (auto simp: r)
qed

section \<open>Mail\<close>

record smtp_config =
  smtp_Host :: bytes
  smtp_Port :: int
  smtp_From :: bytes
  smtp_Username :: bytes
  smtp_Password :: bytes

definition Configured :: "smtp_config \<Rightarrow> bool" where
  "Configured c \<longleftrightarrow> smtp_Host c \<noteq> [] \<and> smtp_From c \<noteq> []"

definition implicitTLS :: "smtp_config \<Rightarrow> bool" where
  "implicitTLS c \<longleftrightarrow> smtp_Port c = 465"

text \<open>What is said to the relay. A relay answers each step with whether it went well; a recipient may be
  refused on its own.\<close>

datatype smtp_action = Dial bool | SetDeadline | Greet | StartTLS | AuthPlain bytes bytes | MailFrom bytes | RcptTo bytes
  | Data | WriteMessage notification | CloseMessage | Quit

record relay =
  rl_ok :: "smtp_action \<Rightarrow> bool"
  rl_starttls :: bool       \<comment> \<open>the relay lists the extension\<close>

datatype smtp_error = NoRelay | NoRecipients | NoStartTLS | StepFailed smtp_action

text \<open>One step after another until one fails.\<close>

fun dialogue :: "relay \<Rightarrow> smtp_action list \<Rightarrow> smtp_error option \<times> smtp_action list" where
  "dialogue r [] = (None, [])"
| "dialogue r (a # as') =
     (if rl_ok r a then (case dialogue r as' of (e, done_) \<Rightarrow> (e, a # done_)) else (Some (StepFailed a), [a]))"

definition after_step :: "smtp_error option \<times> smtp_action list \<Rightarrow> smtp_error option \<times> smtp_action list \<Rightarrow>
    smtp_error option \<times> smtp_action list" where
  "after_step x y = (case x of (Some e, said) \<Rightarrow> (Some e, said) | (None, said) \<Rightarrow> (fst y, said @ snd y))"

definition smtp_Deliver :: "smtp_config \<Rightarrow> bytes list \<Rightarrow> relay \<Rightarrow> notification \<Rightarrow> smtp_error option \<times> smtp_action list" where
  "smtp_Deliver cfg to r ev =
     (if \<not> Configured cfg then (Some NoRelay, [])
      else if to = [] then (Some NoRecipients, [])
      else after_step (dialogue r [Dial (implicitTLS cfg), SetDeadline, Greet])
        (after_step
          (if implicitTLS cfg then (None, [])
           else if \<not> rl_starttls r then (Some NoStartTLS, [])
           else dialogue r [StartTLS])
          (dialogue r
            ((if smtp_Username cfg \<noteq> [] then [AuthPlain (smtp_Username cfg) (smtp_Password cfg)] else []) @
             [MailFrom (smtp_From cfg)] @ map RcptTo to @ [Data, WriteMessage ev, CloseMessage, Quit]))))"

text \<open>Line breaks in a summary become spaces.\<close>

definition sanitizeHeader :: "bytes \<Rightarrow> bytes" where
  "sanitizeHeader s = map (\<lambda>c. if c = CHR 0x0D \<or> c = CHR 0x0A then CHR '' '' else c) s"

lemma dialogue_prefix: "\<exists>rest. as' = snd (dialogue r as') @ rest"
  by (induction as') (auto split: prod.splits)

lemma dialogue_done: "fst (dialogue r as') = None \<longleftrightarrow> (\<forall>a \<in> set as'. rl_ok r a)"
  by (induction as') (auto split: prod.splits)

lemma dialogue_all: "fst (dialogue r as') = None \<Longrightarrow> snd (dialogue r as') = as'"
  by (induction as') (auto split: prod.splits if_splits)

text \<open>All that is said to a relay that takes a mail, and when it takes it.\<close>

definition whole_conversation :: "smtp_config \<Rightarrow> bytes list \<Rightarrow> notification \<Rightarrow> smtp_action list" where
  "whole_conversation cfg to ev =
     [Dial (implicitTLS cfg), SetDeadline, Greet] @ (if implicitTLS cfg then [] else [StartTLS]) @
     (if smtp_Username cfg \<noteq> [] then [AuthPlain (smtp_Username cfg) (smtp_Password cfg)] else []) @
     [MailFrom (smtp_From cfg)] @ map RcptTo to @ [Data, WriteMessage ev, CloseMessage, Quit]"

definition takes_mail :: "relay \<Rightarrow> smtp_config \<Rightarrow> bytes list \<Rightarrow> notification \<Rightarrow> bool" where
  "takes_mail r cfg to ev \<longleftrightarrow> (implicitTLS cfg \<or> rl_starttls r) \<and> list_all (rl_ok r) (whole_conversation cfg to ev)"

lemma smtp_Deliver_takes:
  assumes "Configured cfg" "to \<noteq> []"
  shows "fst (smtp_Deliver cfg to r ev) = None \<longleftrightarrow> takes_mail r cfg to ev"
    "takes_mail r cfg to ev \<Longrightarrow> snd (smtp_Deliver cfg to r ev) = whole_conversation cfg to ev"
proof -
  define hello talk tls where "hello = [Dial (implicitTLS cfg), SetDeadline, Greet]"
    and "talk = (if smtp_Username cfg \<noteq> [] then [AuthPlain (smtp_Username cfg) (smtp_Password cfg)] else []) @
      [MailFrom (smtp_From cfg)] @ map RcptTo to @ [Data, WriteMessage ev, CloseMessage, Quit]"
    and "tls = (if implicitTLS cfg then (None, []) else if \<not> rl_starttls r then (Some NoStartTLS, []) else dialogue r [StartTLS])"
  have seq: "fst (after_step x y) = None \<longleftrightarrow> fst x = None \<and> fst y = None"
    "fst x = None \<Longrightarrow> snd (after_step x y) = snd x @ snd y" for x y
    by (auto simp: after_step_def split: prod.splits option.splits)
  have deliver: "smtp_Deliver cfg to r ev = after_step (dialogue r hello) (after_step tls (dialogue r talk))"
    using assms by (simp only: smtp_Deliver_def hello_def talk_def tls_def if_False not_True_eq_False)
  have whole: "whole_conversation cfg to ev = hello @ (if implicitTLS cfg then [] else [StartTLS]) @ talk"
    by (simp only: whole_conversation_def hello_def talk_def append_assoc)
  have tls: "fst tls = None \<longleftrightarrow> (implicitTLS cfg \<or> rl_starttls r) \<and> list_all (rl_ok r) (if implicitTLS cfg then [] else [StartTLS])"
    "fst tls = None \<Longrightarrow> snd tls = (if implicitTLS cfg then [] else [StartTLS])"
    by (simp_all add: tls_def split: if_splits)
  have "fst (dialogue r as') = None \<longleftrightarrow> list_all (rl_ok r) as'" for as' by (simp add: dialogue_done list_all_iff)
  then show all: "fst (smtp_Deliver cfg to r ev) = None \<longleftrightarrow> takes_mail r cfg to ev"
    unfolding deliver takes_mail_def whole seq tls(1) list_all_append by blast
  assume "takes_mail r cfg to ev"
  with all have "fst (dialogue r hello) = None" "fst tls = None" "fst (dialogue r talk) = None"
    unfolding deliver seq by simp_all
  then show "snd (smtp_Deliver cfg to r ev) = whole_conversation cfg to ev"
    unfolding deliver whole by (simp add: seq dialogue_all tls(2))
qed

text \<open>What an eavesdropper may not read.\<close>

fun confidential :: "smtp_action \<Rightarrow> bool" where
  "confidential (AuthPlain _ _) = True"
| "confidential (MailFrom _) = True"
| "confidential (RcptTo _) = True"
| "confidential (WriteMessage _) = True"
| "confidential _ = False"

text \<open>Credentials, recipients and the message are said only inside TLS: from the first byte on port 465,
  and otherwise only after a \<open>STARTTLS\<close> that the relay offered and completed; and a delivery that
  succeeds has named every recipient and sent the message.\<close>

theorem mail_never_in_the_clear:
  assumes "smtp_Deliver cfg to r ev = (e, said)"
  shows "(\<forall>before a rest. said = before @ a # rest \<and> confidential a \<longrightarrow>
      Dial True \<in> set before \<or> StartTLS \<in> set before \<and> rl_starttls r \<and> rl_ok r StartTLS) \<and>
    (e = None \<longrightarrow> set (map RcptTo to) \<subseteq> set said \<and> WriteMessage ev \<in> set said)"
proof -
  let ?open = "[Dial (implicitTLS cfg), SetDeadline, Greet]"
  let ?talk = "(if smtp_Username cfg \<noteq> [] then [AuthPlain (smtp_Username cfg) (smtp_Password cfg)] else []) @
             [MailFrom (smtp_From cfg)] @ map RcptTo to @ [Data, WriteMessage ev, CloseMessage, Quit]"
  have plain: "\<forall>a \<in> set ?open. \<not> confidential a" by simp
  show ?thesis
  proof (cases "Configured cfg \<and> to \<noteq> [] \<and> fst (dialogue r ?open) = None \<and>
      (implicitTLS cfg \<or> rl_starttls r \<and> rl_ok r StartTLS)")
    case False
    have "said = [] \<or> said = snd (dialogue r ?open) \<or> said = ?open @ [StartTLS]" "e \<noteq> None"
      using assms False dialogue_all [of r ?open]
      by (auto simp: smtp_Deliver_def after_step_def split: prod.splits if_splits option.splits)
    moreover have "set (snd (dialogue r ?open)) \<subseteq> set ?open"
      using dialogue_prefix [of ?open r] by (metis set_append Un_upper1)
    ultimately have "\<forall>a \<in> set said. \<not> confidential a" using plain by auto
    with \<open>e \<noteq> None\<close> show ?thesis by auto
  next
    case True
    let ?head = "?open @ (if implicitTLS cfg then [] else [StartTLS])"
    have opened: "dialogue r ?open = (None, ?open)" using True dialogue_all [of r ?open] by (simp add: prod_eq_iff del: dialogue.simps)
    have tls: "(if implicitTLS cfg then (None, []) else if \<not> rl_starttls r then (Some NoStartTLS, []) else dialogue r [StartTLS])
        = (None, if implicitTLS cfg then [] else [StartTLS])"
    proof -
      have "implicitTLS cfg \<or> rl_starttls r \<and> rl_ok r StartTLS" using True by blast
      then show ?thesis by auto
    qed
    have said: "said = ?head @ snd (dialogue r ?talk)" "e = fst (dialogue r ?talk)"
      using assms True unfolding smtp_Deliver_def opened tls by (simp_all add: after_step_def del: dialogue.simps split: prod.splits)
    have head: "\<forall>a \<in> set ?head. \<not> confidential a" by simp
    have "set ?head \<subseteq> set before" if "said = before @ a # rest" "confidential a" for before a rest
    proof -
      have "\<not> length before < length ?head"
      proof
        assume "length before < length ?head"
        then have "a = ?head ! length before" using that(1) said(1) by (metis nth_append nth_append_length)
        then show False using head that(2) \<open>length before < length ?head\<close> by (metis nth_mem)
      qed
      then have "take (length ?head) before = ?head" using that(1) said(1)
        by (metis append_eq_append_conv_if append_eq_conv_conj not_le_imp_less order_less_imp_le take_append)
      then show ?thesis by (metis set_take_subset)
    qed
    then have "Dial True \<in> set before \<or> StartTLS \<in> set before \<and> rl_starttls r \<and> rl_ok r StartTLS"
      if "said = before @ a # rest" "confidential a" for before a rest
      using that True by (cases "implicitTLS cfg") fastforce+
    moreover have "e = None \<longrightarrow> set (map RcptTo to) \<subseteq> set said \<and> WriteMessage ev \<in> set said"
      using said dialogue_all [of r ?talk] by auto
    ultimately show ?thesis by blast
  qed
qed

theorem mail_never_in_the_clear_witness:
  "fst (smtp_Deliver \<lparr>smtp_Host = ''mx'', smtp_Port = 587, smtp_From = ''a@b'', smtp_Username = ''u'', smtp_Password = ''p''\<rparr>
      [''ops@b''] \<lparr>rl_ok = (\<lambda>_. True), rl_starttls = False\<rparr> sample_event) = Some NoStartTLS \<and>
   AuthPlain ''u'' ''p'' \<notin> set (snd (smtp_Deliver \<lparr>smtp_Host = ''mx'', smtp_Port = 587, smtp_From = ''a@b'',
      smtp_Username = ''u'', smtp_Password = ''p''\<rparr> [''ops@b''] \<lparr>rl_ok = (\<lambda>_. True), rl_starttls = False\<rparr> sample_event))"
proof -
  let ?d = "smtp_Deliver \<lparr>smtp_Host = ''mx'', smtp_Port = 587, smtp_From = ''a@b'', smtp_Username = ''u'', smtp_Password = ''p''\<rparr>
      [''ops@b''] \<lparr>rl_ok = (\<lambda>_. True), rl_starttls = False\<rparr> sample_event"
  have d: "?d = (Some NoStartTLS, [Dial False, SetDeadline, Greet])"
    by (simp add: smtp_Deliver_def after_step_def Configured_def implicitTLS_def)
  have "\<not> AuthPlain ''u'' ''p'' \<in> set [Dial False, SetDeadline, Greet]" by simp
  with mail_never_in_the_clear [OF d] show ?thesis by (simp add: d)
qed

end
