(* ===== verification/Events.thy ===== *)
theory Events
  imports Notify MemStore FleetStore Identifier
begin

text \<open>
  \<open>internal/server/eventsapi.go\<close>: how an event is recorded, shown to open tabs and delivered. The state of
  the control plane is the store and what the process keeps beside it: the live streams, and the
  deliveries running detached from the request that caused them, which a shutdown drains.
\<close>

section \<open>The state of the control plane\<close>

text \<open>Work that leaves the process: an event for a tenant's webhook and the mail it routes, or the mail of
  one rule.\<close>

datatype pass = EventPass tenant_id notification | MailPass tenant_id alert_rule notification

record server =
  sv_store :: memory
  sv_streams :: "(tenant_id \<times> nat \<times> event list) list"   \<comment> \<open>tenant, channel, buffer\<close>
  sv_channels :: nat
  sv_draining :: bool
  sv_inFlight :: nat
  sv_started :: "pass list"                                \<comment> \<open>in the order they were started\<close>

definition server_of :: "memory \<Rightarrow> server" where
  "server_of m = \<lparr>sv_store = m, sv_streams = [], sv_channels = 0, sv_draining = False, sv_inFlight = 0, sv_started = []\<rparr>"

section \<open>Live streams\<close>

definition stream_buffer :: nat where [go_defs]: "stream_buffer = 16"

definition stream_subscribe :: "tenant_id \<Rightarrow> server \<Rightarrow> nat \<times> server" where
  "stream_subscribe tn s =
     (sv_channels s, s\<lparr>sv_streams := sv_streams s @ [(tn, sv_channels s, [])], sv_channels := Suc (sv_channels s)\<rparr>)"

definition stream_release :: "tenant_id \<Rightarrow> nat \<Rightarrow> server \<Rightarrow> server" where
  "stream_release tn ch s = s\<lparr>sv_streams := filter (\<lambda>(t, c, _). \<not> (t = tn \<and> c = ch)) (sv_streams s)\<rparr>"

definition broadcast :: "tenant_id \<Rightarrow> event \<Rightarrow> server \<Rightarrow> server" where
  "broadcast tn view s = s\<lparr>sv_streams := map (\<lambda>(t, c, buf).
      if t = tn \<and> length buf < stream_buffer then (t, c, buf @ [view]) else (t, c, buf)) (sv_streams s)\<rparr>"

section \<open>Recording\<close>

text \<open>\<open>record\<close>: the answer is the event with its identity, and whether it was recorded. A store that
  refuses the event is logged, and a missing identifier is empty.\<close>

definition record_event :: "tenant_id \<Rightarrow> instant \<Rightarrow> bytes option \<Rightarrow> notification \<Rightarrow> server \<Rightarrow> notification \<times> bool \<times> server" where
  "record_event tn now new_id ev0 s =
     (let ev1 = ev0\<lparr>ne_TenantID := tn\<rparr>;
          ev = (if is_zero (ne_At ev1) then ev1\<lparr>ne_At := now\<rparr> else ev1)
      in if \<not> kind_Valid (ne_Kind ev) then (ev, False, s)
         else
           let view = \<lparr>e_ID = (case new_id of None \<Rightarrow> [] | Some i \<Rightarrow> i), e_Kind = ne_Kind ev, e_HostID = ne_HostID ev,
                 e_Hostname = ne_Hostname ev, e_Summary = ne_Summary ev, e_At = ne_At ev, e_Detail = ne_Detail ev\<rparr>;
               s1 = (case RecordEvent tn view (sv_store s) of Inl _ \<Rightarrow> s | Inr m \<Rightarrow> s\<lparr>sv_store := m\<rparr>)
           in (ev, True, broadcast tn view s1))"

section \<open>Detached work\<close>

definition maxOutboundInFlight :: nat where [go_defs]: "maxOutboundInFlight = 64"

datatype not_started = Stopping | TooManyInFlight

definition detach :: "pass \<Rightarrow> server \<Rightarrow> not_started option \<times> server" where
  "detach p s =
     (if sv_draining s then (Some Stopping, s)
      else if maxOutboundInFlight \<le> sv_inFlight s then (Some TooManyInFlight, s)
      else (None, s\<lparr>sv_inFlight := Suc (sv_inFlight s), sv_started := sv_started s @ [p]\<rparr>))"

definition pass_done :: "server \<Rightarrow> server" where
  "pass_done s = s\<lparr>sv_inFlight := sv_inFlight s - 1\<rparr>"

definition start_draining :: "server \<Rightarrow> server" where
  "start_draining s = s\<lparr>sv_draining := True\<rparr>"

definition emit :: "tenant_id \<Rightarrow> instant \<Rightarrow> bytes option \<Rightarrow> notification \<Rightarrow> server \<Rightarrow> server" where
  "emit tn now new_id ev0 s =
     (case record_event tn now new_id ev0 s of (ev, recorded, s1) \<Rightarrow>
        if \<not> recorded then s1 else snd (detach (EventPass tn ev) s1))"

section \<open>Properties\<close>

lemma broadcast_store [simp]: "sv_store (broadcast tn v s) = sv_store s" "sv_draining (broadcast tn v s) = sv_draining s"
  "sv_inFlight (broadcast tn v s) = sv_inFlight s" "sv_started (broadcast tn v s) = sv_started s"
  by (simp_all add: broadcast_def)

lemma detach_store [simp]: "sv_store (snd (detach p s)) = sv_store s" "sv_streams (snd (detach p s)) = sv_streams s"
  "sv_draining (snd (detach p s)) = sv_draining s"
  by (simp_all add: detach_def)

lemma record_event_other:
  "record_event tn now i ev s = (ev', recorded, s') \<Longrightarrow> sv_draining s' = sv_draining s \<and> sv_inFlight s' = sv_inFlight s \<and>
   sv_started s' = sv_started s"
  by (auto simp: record_event_def Let_def split: if_splits sum.splits)

text \<open>What an event leaves in the store.\<close>

definition inbox_entry :: "bytes option \<Rightarrow> instant \<Rightarrow> notification \<Rightarrow> event" where
  "inbox_entry new_id now ev = \<lparr>e_ID = (case new_id of None \<Rightarrow> [] | Some i \<Rightarrow> i), e_Kind = ne_Kind ev, e_HostID = ne_HostID ev,
     e_Hostname = ne_Hostname ev, e_Summary = ne_Summary ev, e_At = (if is_zero (ne_At ev) then now else ne_At ev),
     e_Detail = ne_Detail ev\<rparr>"

lemma record_event_store:
  "sv_store (snd (snd (record_event tn now i ev s))) =
   (if kind_Valid (ne_Kind ev) then (case RecordEvent tn (inbox_entry i now ev) (sv_store s) of Inl _ \<Rightarrow> sv_store s | Inr m \<Rightarrow> m)
    else sv_store s)"
  by (auto simp: record_event_def inbox_entry_def Let_def split: sum.splits)

lemma emit_store:
  "sv_store (emit tn now i ev s) =
   (if kind_Valid (ne_Kind ev) then (case RecordEvent tn (inbox_entry i now ev) (sv_store s) of Inl _ \<Rightarrow> sv_store s | Inr m \<Rightarrow> m)
    else sv_store s)"
  using record_event_store [of tn now i ev s] by (auto simp: emit_def split: prod.splits)

lemma record_only_events:
  "RecordEvent tn e m = Inr m' \<Longrightarrow> \<exists>evs. m' = m\<lparr>m_events := evs\<rparr>"
  by (auto simp: RecordEvent_def split: if_splits)

text \<open>Emitting touches nothing of the store but the inbox.\<close>

lemma emit_frame: "\<exists>evs. sv_store (emit tn now i ev s) = (sv_store s)\<lparr>m_events := evs\<rparr>"
proof (cases "RecordEvent tn (inbox_entry i now ev) (sv_store s)")
  case (Inl e)
  then show ?thesis by (auto simp: emit_store intro: exI [of _ "m_events (sv_store s)"])
next
  case (Inr m)
  from record_only_events [OF Inr] Inr show ?thesis
    by (auto simp: emit_store intro: exI [of _ "m_events (sv_store s)"])
qed

lemma drop_mine_last: "n \<le> length (filter P rows) \<Longrightarrow> x \<in> set (drop_mine P n (rows @ [x]))"
  by (induction rows arbitrary: n) (auto split: if_splits)

lemma evict_last: "0 < limit \<Longrightarrow> e \<in> set (evict P limit (rows @ [e]))"
  by (auto simp: evict_def Let_def intro!: drop_mine_last)

text \<open>An event whose kind is in the vocabulary is in the inbox of its tenant after it was emitted, whether or
  not it could be delivered: while the process is stopping, and while the limit of deliveries is reached,
  no delivery starts, and the inbox has the event all the same. An event of any other kind changes
  nothing at all.\<close>

theorem inbox_before_delivery:
  assumes "get (m_tenants (sv_store s)) tn = Some t"
  shows "(kind_Valid (ne_Kind ev) \<longrightarrow> (inbox_entry i now ev, tn) \<in> set (m_events (sv_store (emit tn now i ev s)))) \<and>
    (\<not> kind_Valid (ne_Kind ev) \<longrightarrow> emit tn now i ev s = s) \<and>
    (sv_draining s \<or> maxOutboundInFlight \<le> sv_inFlight s \<longrightarrow> sv_started (emit tn now i ev s) = sv_started s)"
proof (intro conjI impI)
  assume "kind_Valid (ne_Kind ev)"
  then show "(inbox_entry i now ev, tn) \<in> set (m_events (sv_store (emit tn now i ev s)))"
    using assms by (simp add: emit_store RecordEvent_def MaxEventsPerTenant_def evict_last)
next
  assume "\<not> kind_Valid (ne_Kind ev)"
  then show "emit tn now i ev s = s" by (simp add: emit_def record_event_def Let_def)
next
  obtain ev' ok s' where r: "record_event tn now i ev s = (ev', ok, s')" by (metis prod.exhaust)
  assume "sv_draining s \<or> maxOutboundInFlight \<le> sv_inFlight s"
  with record_event_other [OF r] show "sv_started (emit tn now i ev s) = sv_started s"
    by (auto simp: emit_def r detach_def)
qed

lemma fold_broadcast:
  "(tn, ch, buf) \<in> set (sv_streams s) \<Longrightarrow> length buf \<le> stream_buffer \<Longrightarrow>
   (tn, ch, take stream_buffer (buf @ evs)) \<in> set (sv_streams (fold (broadcast tn) evs s))"
proof (induction evs arbitrary: buf s)
  case (Cons e evs)
  show ?case
  proof (cases "length buf < stream_buffer")
    case True
    have "(tn, ch, buf @ [e]) \<in> set (sv_streams (broadcast tn e s))"
      using Cons.prems(1) True by (force simp: broadcast_def)
    from Cons.IH [OF this] True show ?thesis by simp
  next
    case False
    have "(tn, ch, buf) \<in> set (sv_streams (broadcast tn e s))"
      using Cons.prems(1) False by (force simp: broadcast_def)
    from Cons.IH [OF this Cons.prems(2)] False show ?thesis by simp
  qed
qed simp

text \<open>A tab that does not read keeps the first events it was sent, up to its buffer, and loses every later
  one: it is the newest broadcast that is dropped.\<close>

theorem full_stream_keeps_oldest:
  "(tn, fst (stream_subscribe tn s), take 16 evs)
     \<in> set (sv_streams (fold (broadcast tn) evs (snd (stream_subscribe tn s))))"
  using fold_broadcast [of tn "sv_channels s" "[]" "snd (stream_subscribe tn s)" evs]
  by (simp add: stream_subscribe_def stream_buffer_def)

theorem inbox_before_delivery_witness:
  "(inbox_entry (Some ''e1'') 5 (sample_event\<lparr>ne_TenantID := DefaultTenant\<rparr>), DefaultTenant)
     \<in> set (m_events (sv_store (emit DefaultTenant 5 (Some ''e1'') (sample_event\<lparr>ne_TenantID := DefaultTenant\<rparr>)
        (start_draining (server_of (NewMemory 1))))))"
proof -
  have t: "\<exists>t. get (m_tenants (sv_store (start_draining (server_of (NewMemory 1))))) DefaultTenant = Some t"
    by (simp add: start_draining_def server_of_def NewMemory_def get_put)
  then obtain t where t: "get (m_tenants (sv_store (start_draining (server_of (NewMemory 1))))) DefaultTenant = Some t" ..
  have "kind_Valid (ne_Kind (sample_event\<lparr>ne_TenantID := DefaultTenant\<rparr>))"
    by (simp add: sample_event_def kind_Valid_def Kinds_def)
  with inbox_before_delivery [OF t, of "sample_event\<lparr>ne_TenantID := DefaultTenant\<rparr>" "Some ''e1''" 5]
  show ?thesis by blast
qed

end
