(* ===== verification/RateLimit.thy ===== *)
theory RateLimit
  imports Complex_Main GoTime GoMap
begin

text \<open>
  \<open>internal/server/ratelimit.go\<close>: the per-source token bucket in front of the endpoints of the control
  plane. The allowance is a \<open>float64\<close>; the operations on it are the exact ones followed by a
  rounding \<open>fl\<close>, which is an argument: \<open>ieee_rounding\<close> says what the format documents of it, that it
  is monotone and keeps the integers up to \<open>2 ^ 53\<close>.
\<close>

section \<open>Limits\<close>

definition enrollBurst :: int where [go_defs]: "enrollBurst = 20"
definition enrollRefill :: duration where [go_defs]: "enrollRefill = 3 * Second"
definition enrollIdleTTL :: duration where [go_defs]: "enrollIdleTTL = 3600 * Second"
definition renewBurst :: int where [go_defs]: "renewBurst = 5"
definition renewRefill :: duration where [go_defs]: "renewRefill = Minute"
definition maxLiveCertificatesPerHost :: int where [go_defs]: "maxLiveCertificatesPerHost = 3"
definition renewalOverlap :: duration where [go_defs]: "renewalOverlap = 172800 * Second"
definition healthBurst :: int where [go_defs]: "healthBurst = 60"
definition healthRefill :: duration where [go_defs]: "healthRefill = Second"

section \<open>The limiter\<close>

record bucket =
  tokens :: rat
  last_seen :: instant

record rate_limiter =
  buckets :: "(bytes, bucket) gomap"
  burst :: rat
  refill :: duration

definition newRateLimiter :: "(rat \<Rightarrow> rat) \<Rightarrow> int \<Rightarrow> duration \<Rightarrow> rate_limiter" where
  "newRateLimiter fl b r = \<lparr>buckets = no_entries, burst = fl (of_int b), refill = r\<rparr>"

text \<open>\<open>Duration.Seconds\<close>: the quotient and the remainder truncate towards zero.\<close>

definition Seconds :: "(rat \<Rightarrow> rat) \<Rightarrow> duration \<Rightarrow> rat" where
  "Seconds fl d =
     (let sec = (if d < 0 then - (- d div Second) else d div Second); nsec = d - sec * Second
      in fl (fl (of_int sec) + fl (fl (of_int nsec) / 1000000000)))"

definition sweep_idle :: "instant \<Rightarrow> rate_limiter \<Rightarrow> rate_limiter" where
  "sweep_idle now l =
     (if length (entries (buckets l)) < 1024 then l
      else l\<lparr>buckets := sweep (\<lambda>_ b. enrollIdleTTL < time_sub now (last_seen b)) (buckets l)\<rparr>)"

definition allow :: "(rat \<Rightarrow> rat) \<Rightarrow> bytes \<Rightarrow> instant \<Rightarrow> rate_limiter \<Rightarrow> bool \<times> rate_limiter" where
  "allow fl source now l = (case get (buckets l) source of
      None \<Rightarrow>
        (True, sweep_idle now (l\<lparr>buckets := put source \<lparr>tokens = fl (burst l - 1), last_seen = now\<rparr> (buckets l)\<rparr>))
    | Some b \<Rightarrow>
        (let t = fl (tokens b + fl (Seconds fl (time_sub now (last_seen b)) / Seconds fl (refill l)));
             t = (if burst l < t then burst l else t)
         in if t < 1 then (False, l\<lparr>buckets := put source \<lparr>tokens = t, last_seen = now\<rparr> (buckets l)\<rparr>)
            else (True, l\<lparr>buckets := put source \<lparr>tokens = fl (t - 1), last_seen = now\<rparr> (buckets l)\<rparr>)))"

definition retryAfter :: "rate_limiter \<Rightarrow> duration" where
  "retryAfter l = refill l"

section \<open>Rounding\<close>

definition ieee_rounding :: "(rat \<Rightarrow> rat) \<Rightarrow> bool" where
  "ieee_rounding fl \<longleftrightarrow> (\<forall>x y. x \<le> y \<longrightarrow> fl x \<le> fl y) \<and> (\<forall>n. \<bar>n\<bar> \<le> 2 ^ 53 \<longrightarrow> fl (of_int n) = of_int n)"

lemma fl_mono: "ieee_rounding fl \<Longrightarrow> x \<le> y \<Longrightarrow> fl x \<le> fl y"
  by (simp add: ieee_rounding_def)

lemma fl_int: "ieee_rounding fl \<Longrightarrow> \<bar>n\<bar> \<le> 9007199254740992 \<Longrightarrow> fl (of_int n) = of_int n"
  by (simp add: ieee_rounding_def)

lemma fl_le: "ieee_rounding fl \<Longrightarrow> \<bar>n\<bar> \<le> 9007199254740992 \<Longrightarrow> x \<le> of_int n \<Longrightarrow> fl x \<le> of_int n"
  using fl_mono [of fl x "of_int n"] fl_int [of fl n] by simp

lemma fl_ge: "ieee_rounding fl \<Longrightarrow> \<bar>n\<bar> \<le> 9007199254740992 \<Longrightarrow> of_int n \<le> x \<Longrightarrow> of_int n \<le> fl x"
  using fl_mono [of fl "of_int n" x] fl_int [of fl n] by simp

lemma fl_zero [simp]: "ieee_rounding fl \<Longrightarrow> fl 0 = 0"
  using fl_int [of fl 0] by simp

lemma Seconds_ge:
  assumes "ieee_rounding fl" "0 \<le> k" "k * Second \<le> d" "d \<le> int64_max"
  shows "of_int k \<le> Seconds fl d"
proof -
  let ?s = "d div Second" and ?n = "d - d div Second * Second"
  have S: "0 < Second" by (simp add: Second_def)
  have d: "0 \<le> d" using assms(2,3) S by (meson mult_nonneg_nonneg order.trans order_less_imp_le)
  have k: "k \<le> ?s" using assms(3) int_le_div_iff [OF S] by simp
  have s: "0 \<le> ?s" "?s \<le> 9223372037" using k assms(2,4) by (auto simp: Second_def int64_max_def)
  have n: "0 \<le> ?n" "?n < Second" using pos_mod_sign [OF S, of d] pos_mod_bound [OF S, of d] by (simp_all add: minus_div_mult_eq_mod)
  have "0 \<le> fl (of_int ?n)" using fl_ge [OF assms(1), of 0 "of_int ?n"] n by (simp del: of_int_diff of_int_mult)
  then have r: "0 \<le> fl (fl (of_int ?n) / 1000000000)" using fl_ge [OF assms(1), of 0 "fl (of_int ?n) / 1000000000"] by simp
  have f: "fl (of_int ?s) = of_int ?s" using fl_int [OF assms(1), of ?s] s by simp
  have "of_int k \<le> fl (of_int ?s) + fl (fl (of_int ?n) / 1000000000)"
    unfolding f using k r by (metis add.right_neutral add_mono of_int_le_iff)
  moreover have "\<bar>k\<bar> \<le> 9007199254740992" using k s assms(2) by simp
  ultimately have "of_int k \<le> fl (fl (of_int ?s) + fl (fl (of_int ?n) / 1000000000))" by (intro fl_ge [OF assms(1)])
  with d show ?thesis by (simp add: Seconds_def Let_def)
qed

lemma Seconds_whole:
  assumes "ieee_rounding fl" "0 \<le> k" "k \<le> 9223372036"
  shows "Seconds fl (k * Second) = of_int k"
  using assms fl_int [OF assms(1), of k] by (simp add: Seconds_def Second_def)

section \<open>Invariant\<close>

text \<open>A limiter as the server makes it: a burst and a refill of whole seconds, at most an hour together.\<close>

definition limiter_ok :: "rate_limiter \<Rightarrow> bool" where
  "limiter_ok l \<longleftrightarrow> (\<exists>b k. burst l = of_int b \<and> refill l = k * Second \<and> 1 \<le> b \<and> 1 \<le> k \<and> b * k \<le> 3600) \<and>
     (\<forall>s b. get (buckets l) s = Some b \<longrightarrow> 0 \<le> tokens b \<and> tokens b \<le> burst l)"

lemma limiter_ok_new:
  assumes "ieee_rounding fl" "1 \<le> b" "1 \<le> k" "b * k \<le> 3600"
  shows "limiter_ok (newRateLimiter fl b (k * Second))"
proof -
  have "b * 1 \<le> b * k" using assms(2,3) by (intro mult_left_mono) auto
  then have "\<bar>b\<bar> \<le> 9007199254740992" using assms(2,4) by linarith
  from fl_int [OF assms(1) this] assms(2-4) show ?thesis by (auto simp: limiter_ok_def newRateLimiter_def)
qed

lemma sweep_idle_cases:
  obtains "sweep_idle now l = l"
  | "sweep_idle now l = l\<lparr>buckets := sweep (\<lambda>_ b. enrollIdleTTL < time_sub now (last_seen b)) (buckets l)\<rparr>"
  by (cases "length (entries (buckets l)) < 1024") (simp_all add: sweep_idle_def)

lemma sweep_idle_get:
  "burst (sweep_idle now l) = burst l \<and> refill (sweep_idle now l) = refill l \<and>
   (get (buckets (sweep_idle now l)) s = get (buckets l) s \<or>
    get (buckets (sweep_idle now l)) s = None \<and>
    (\<exists>b. get (buckets l) s = Some b \<and> enrollIdleTTL < time_sub now (last_seen b)))"
  by (cases rule: sweep_idle_cases [of now l]) (auto simp: get_sweep split: option.splits)

lemma allow_shape:
  "burst (snd (allow fl s now l)) = burst l" "refill (snd (allow fl s now l)) = refill l"
  by (auto simp: allow_def Let_def sweep_idle_get split: option.split)

lemma allow_other:
  assumes "s' \<noteq> s"
  shows "get (buckets (snd (allow fl s now l))) s' = get (buckets l) s' \<or>
    get (buckets (snd (allow fl s now l))) s' = None"
proof (cases "get (buckets l) s")
  case None
  then show ?thesis
    using assms sweep_idle_get [of now "l\<lparr>buckets := put s \<lparr>tokens = fl (burst l - 1), last_seen = now\<rparr> (buckets l)\<rparr>" s']
    by (auto simp: allow_def get_put)
qed (use assms in \<open>auto simp: allow_def Let_def get_put\<close>)

text \<open>The allowance a known source has before the attempt is charged.\<close>

definition allowance :: "(rat \<Rightarrow> rat) \<Rightarrow> rate_limiter \<Rightarrow> bucket \<Rightarrow> instant \<Rightarrow> rat" where
  "allowance fl l b now =
     min (burst l) (fl (tokens b + fl (Seconds fl (time_sub now (last_seen b)) / Seconds fl (refill l))))"

lemma allow_known:
  assumes "get (buckets l) s = Some b"
  shows "fst (allow fl s now l) \<longleftrightarrow> 1 \<le> allowance fl l b now"
    and "get (buckets (snd (allow fl s now l))) s' =
      (if s' = s then Some \<lparr>tokens = (if 1 \<le> allowance fl l b now then fl (allowance fl l b now - 1)
                                       else allowance fl l b now), last_seen = now\<rparr>
       else get (buckets l) s')"
  using assms by (auto simp: allow_def allowance_def Let_def get_put min_def not_less)

lemma allow_new:
  assumes "get (buckets l) s = None"
  shows "fst (allow fl s now l)"
    and "get (buckets (snd (allow fl s now l))) s = Some \<lparr>tokens = fl (burst l - 1), last_seen = now\<rparr>"
  using assms
    sweep_idle_get [of now "l\<lparr>buckets := put s \<lparr>tokens = fl (burst l - 1), last_seen = now\<rparr> (buckets l)\<rparr>" s]
  by (auto simp: allow_def get_put time_sub_def enrollIdleTTL_def Second_def int64_min_def int64_max_def)

lemma time_sub_bounds: "time_sub t u \<le> int64_max"
  by (simp add: time_sub_def int64_max_def int64_min_def)

lemma limiter_okD:
  assumes "limiter_ok l"
  obtains b k where "burst l = of_int b" "refill l = k * Second" "1 \<le> b" "1 \<le> k" "b * k \<le> 3600" "b \<le> 3600" "k \<le> 3600"
proof -
  from assms obtain b k where *: "burst l = of_int b" "refill l = k * Second" "1 \<le> b" "1 \<le> k" "b * k \<le> 3600"
    by (auto simp: limiter_ok_def)
  have "b * 1 \<le> b * k" "1 * k \<le> b * k" using *(3,4) by (auto intro: mult_mono)
  then have "b \<le> 3600" "k \<le> 3600" using *(5) by linarith+
  with * show ?thesis by (rule that)
qed

text \<open>What elapses between two attempts adds at least as many attempts as refill times fit into it.\<close>

lemma refilled:
  assumes "ieee_rounding fl" "limiter_ok l" "get (buckets l) s = Some b" "0 \<le> n" "of_int n \<le> burst l"
    "n * refill l \<le> time_sub now (last_seen b)"
  shows "of_int n \<le> allowance fl l b now"
proof -
  obtain c k where c: "burst l = of_int c" "refill l = k * Second" "1 \<le> c" "1 \<le> k" "c \<le> 3600" "k \<le> 3600"
    using limiter_okD [OF assms(2)] by metis
  have t: "0 \<le> tokens b" using assms(2,3) by (auto simp: limiter_ok_def)
  have n: "n \<le> c" using assms(5) c(1) by simp
  have sec: "Seconds fl (refill l) = of_int k" using Seconds_whole [OF assms(1), of k] c by simp
  have "of_int (n * k) \<le> Seconds fl (time_sub now (last_seen b))"
    by (rule Seconds_ge [OF assms(1)]) (use assms(4,6) c time_sub_bounds in \<open>simp_all add: ac_simps\<close>)
  then have "of_int n \<le> Seconds fl (time_sub now (last_seen b)) / Seconds fl (refill l)"
    using c(4) by (simp add: sec pos_le_divide_eq)
  then have "of_int n \<le> fl (Seconds fl (time_sub now (last_seen b)) / Seconds fl (refill l))"
    by (rule fl_ge [OF assms(1), rotated]) (use n c assms(4) in simp)
  then have "of_int n \<le> tokens b + fl (Seconds fl (time_sub now (last_seen b)) / Seconds fl (refill l))" using t by simp
  then have "of_int n \<le> fl (tokens b + fl (Seconds fl (time_sub now (last_seen b)) / Seconds fl (refill l)))"
    by (rule fl_ge [OF assms(1), rotated]) (use n c assms(4) in simp)
  with assms(5) show ?thesis by (simp add: allowance_def)
qed

lemma allowance_bounds:
  assumes "ieee_rounding fl" "limiter_ok l" "get (buckets l) s = Some b" "last_seen b \<le> now"
  shows "0 \<le> allowance fl l b now" "allowance fl l b now \<le> burst l"
proof -
  obtain c where "burst l = of_int c" "1 \<le> c" using limiter_okD [OF assms(2)] by metis
  then have "of_int 0 \<le> burst l" by simp
  with refilled [OF assms(1-3), of 0 now] assms(4) show "0 \<le> allowance fl l b now"
    by (simp add: time_sub_def int64_min_def int64_max_def)
qed (simp add: allowance_def)

text \<open>Time does not run backwards between the attempts of one source.\<close>

definition after_all :: "instant \<Rightarrow> rate_limiter \<Rightarrow> bool" where
  "after_all now l \<longleftrightarrow> (\<forall>s b. get (buckets l) s = Some b \<longrightarrow> last_seen b \<le> now)"

lemma limiter_ok_allow:
  assumes "ieee_rounding fl" "limiter_ok l" "after_all now l"
  shows "limiter_ok (snd (allow fl s now l))" "after_all now (snd (allow fl s now l))"
proof -
  let ?l = "snd (allow fl s now l)"
  obtain c k where c: "burst l = of_int c" "refill l = k * Second" "1 \<le> c" "1 \<le> k" "c * k \<le> 3600" "c \<le> 3600"
    using limiter_okD [OF assms(2)] by metis
  have charge: "0 \<le> fl (t - 1) \<and> fl (t - 1) \<le> burst l" if "1 \<le> t" "t \<le> burst l" for t
    using fl_ge [OF assms(1), of 0 "t - 1"] fl_le [OF assms(1), of c "t - 1"] that c by simp
  have "0 \<le> tokens b \<and> tokens b \<le> burst l \<and> last_seen b \<le> now" if g: "get (buckets ?l) s' = Some b" for s' b
  proof (cases "s' = s")
    case True
    show ?thesis
    proof (cases "get (buckets l) s")
      case None
      then show ?thesis using g True allow_new(2) [OF None, of fl now] charge [of "burst l"] c by auto
    next
      case (Some b0)
      have "last_seen b0 \<le> now" using assms(3) Some by (simp add: after_all_def)
      note ab = allowance_bounds [OF assms(1,2) Some this]
      from g True allow_known(2) [OF Some, of fl now s] have "b =
        \<lparr>tokens = (if 1 \<le> allowance fl l b0 now then fl (allowance fl l b0 now - 1) else allowance fl l b0 now),
         last_seen = now\<rparr>" by simp
      with charge [OF _ ab(2)] ab show ?thesis by simp
    qed
  next
    case False
    then have "get (buckets l) s' = Some b" using g allow_other [OF False, of fl now l] by auto
    with assms(2,3) show ?thesis by (auto simp: limiter_ok_def after_all_def)
  qed
  with c allow_shape [of fl s now l] show "limiter_ok ?l" "after_all now ?l"
    unfolding limiter_ok_def after_all_def by (auto intro!: exI [of _ c] exI [of _ k])
qed

section \<open>Properties\<close>

text \<open>Other sources make their attempts, at these times.\<close>

fun attempts :: "(rat \<Rightarrow> rat) \<Rightarrow> (bytes \<times> instant) list \<Rightarrow> rate_limiter \<Rightarrow> bool list \<times> rate_limiter" where
  "attempts fl [] l = ([], l)"
| "attempts fl ((s, t) # rest) l =
     (let (ok, l1) = allow fl s t l; (oks, l2) = attempts fl rest l1 in (ok # oks, l2))"

lemma attempts_Cons:
  "attempts fl ((s, t) # rest) l =
     (fst (allow fl s t l) # fst (attempts fl rest (snd (allow fl s t l))), snd (attempts fl rest (snd (allow fl s t l))))"
  by (simp split: prod.split)

declare attempts.simps(2) [simp del]

lemma attempts_shape: "burst (snd (attempts fl others l)) = burst l \<and> refill (snd (attempts fl others l)) = refill l"
  by (induction others arbitrary: l) (auto simp: attempts_Cons allow_shape)

lemma attempts_other:
  "s \<notin> fst ` set others \<Longrightarrow> get (buckets (snd (attempts fl others l))) s = get (buckets l) s \<or>
     get (buckets (snd (attempts fl others l))) s = None"
proof (induction others arbitrary: l)
  case (Cons a others)
  obtain s' t where a: "a = (s', t)" by (cases a)
  have "s \<noteq> s'" using Cons.prems a by auto
  from allow_other [OF this, of fl t l] Cons.IH [of "snd (allow fl s' t l)"] Cons.prems
  show ?case by (auto simp: a attempts_Cons)
qed simp

lemma refused_bucket:
  assumes "allow fl s t l = (False, l1)"
  shows "\<exists>b. get (buckets l1) s = Some b \<and> last_seen b = t"
proof (cases "get (buckets l) s")
  case None
  with allow_new(1) [OF None, of fl t] assms show ?thesis by simp
next
  case (Some b)
  with allow_known(2) [OF Some, of fl t s] assms show ?thesis by simp
qed

text \<open>A refused source that waits as long as the refusal's \<open>Retry-After\<close> says is served, whatever other
  sources do in between and in whatever order.\<close>

theorem waiting_is_rewarded:
  assumes "ieee_rounding fl" "limiter_ok l" "after_all t l" "allow fl s t l = (False, l1)"
    and between: "attempts fl others l1 = (answers, l2)" "s \<notin> fst ` set others"
    and later: "t + retryAfter l \<le> t'"
  shows "fst (allow fl s t' l2)"
proof (cases "get (buckets l2) s")
  case None
  then show ?thesis by (rule allow_new)
next
  case (Some b)
  have ok: "limiter_ok l1" and shape: "burst l1 = burst l" "refill l1 = refill l"
    using limiter_ok_allow(1) [OF assms(1-3), of s] allow_shape [of fl s t l] assms(4) by simp_all
  have same: "get (buckets l1) s = Some b" using attempts_other [OF between(2), of fl l1] between(1) Some by auto
  then have seen: "last_seen b = t" using refused_bucket [OF assms(4)] by auto
  obtain c k where c: "burst l = of_int c" "refill l = k * Second" "1 \<le> c" "1 \<le> k" "k \<le> 3600"
    using limiter_okD [OF assms(2)] by metis
  have "1 * refill l1 \<le> time_sub t' (last_seen b)"
    using later c shape seen by (simp add: retryAfter_def time_sub_def int64_min_def int64_max_def Second_def)
  then have "1 \<le> allowance fl l1 b t'" using refilled [OF assms(1) ok same, of 1 t'] c shape by simp
  moreover have "allowance fl l2 b t' = allowance fl l1 b t'"
    using attempts_shape [of fl others l1] between(1) by (simp add: allowance_def)
  ultimately show ?thesis using allow_known(1) [OF Some, of fl t'] by simp
qed

lemma same_instant:
  assumes "ieee_rounding fl" "get (buckets l) s = Some b" "last_seen b = t" "tokens b \<le> of_int n" "0 \<le> n" "n \<le> 3600"
  shows "length (filter (\<lambda>ok. ok) (fst (attempts fl (replicate m (s, t)) l))) \<le> nat n"
  using assms(2-)
proof (induction m arbitrary: l b n)
  case (Suc m)
  obtain ok l1 where a: "allow fl s t l = (ok, l1)" by (cases "allow fl s t l")
  have zero: "Seconds fl 0 = 0" using Seconds_whole [OF assms(1), of 0] by simp
  have le: "allowance fl l b t \<le> of_int n"
    using fl_le [OF assms(1), of n "tokens b"] Suc.prems assms(1)
    by (simp add: allowance_def zero time_sub_def int64_min_def int64_max_def min_le_iff_disj)
  note known = allow_known [OF Suc.prems(1), of fl t]
  have ok: "ok \<longleftrightarrow> 1 \<le> allowance fl l b t" using known(1) a by simp
  have g: "get (buckets l1) s = Some \<lparr>tokens = (if ok then fl (allowance fl l b t - 1) else allowance fl l b t), last_seen = t\<rparr>"
    using known(2) [of s] a ok by simp
  show ?case
  proof (cases ok)
    case True
    then have one: "1 \<le> allowance fl l b t" using ok by simp
    then have n1: "1 \<le> n" using le by (metis of_int_1_le_iff order.trans)
    have "fl (allowance fl l b t - 1) \<le> of_int (n - 1)"
      by (rule fl_le [OF assms(1)]) (use le n1 Suc.prems(5) in simp_all)
    then have "length (filter (\<lambda>ok. ok) (fst (attempts fl (replicate m (s, t)) l1))) \<le> nat (n - 1)"
      by (intro Suc.IH [OF g]) (use True n1 Suc.prems(5) in simp_all)
    with True n1 show ?thesis by (simp add: a attempts_Cons)
  next
    case False
    then have "length (filter (\<lambda>ok. ok) (fst (attempts fl (replicate m (s, t)) l1))) \<le> nat n"
      by (intro Suc.IH [OF g]) (use le Suc.prems(4,5) in simp_all)
    with False show ?thesis by (simp add: a attempts_Cons)
  qed
qed simp

text \<open>However many attempts a source makes at one instant, at most the burst is served.\<close>

theorem burst_bounds_attempts:
  assumes "ieee_rounding fl" "limiter_ok l" "after_all t l"
  shows "of_nat (length (filter (\<lambda>ok. ok) (fst (attempts fl (replicate m (s, t)) l)))) \<le> burst l"
proof -
  obtain c where c: "burst l = of_int c" "1 \<le> c" "c \<le> 3600" using limiter_okD [OF assms(2)] by metis
  have bound: "length (filter (\<lambda>ok. ok) (fst (attempts fl (replicate m (s, t)) l))) \<le> nat c"
  proof (cases m)
    case 0
    then show ?thesis by simp
  next
    case (Suc m')
    obtain ok l1 where a: "allow fl s t l = (ok, l1)" by (cases "allow fl s t l")
    have ok1: "limiter_ok l1" "burst l1 = burst l"
      using limiter_ok_allow(1) [OF assms, of s] allow_shape(1) [of fl s t l] a by simp_all
    obtain b where b: "get (buckets l1) s = Some b" "last_seen b = t" "ok \<Longrightarrow> tokens b \<le> of_int (c - 1)"
        "tokens b \<le> of_int c"
    proof (cases "get (buckets l) s")
      case None
      have "fl (burst l - 1) \<le> of_int (c - 1)" by (rule fl_le [OF assms(1)]) (use c in simp_all)
      then show ?thesis using that allow_new(2) [OF None, of fl t] a by simp
    next
      case (Some b0)
      have al: "allowance fl l b0 t \<le> of_int c" using c by (simp add: allowance_def)
      have "fl (allowance fl l b0 t - 1) \<le> of_int (c - 1)" by (rule fl_le [OF assms(1)]) (use c al in simp_all)
      then show ?thesis using that allow_known(1) [OF Some, of fl t] allow_known(2) [OF Some, of fl t s] a al by (simp split: if_splits)
    qed
    have "length (filter (\<lambda>ok. ok) (fst (attempts fl (replicate m' (s, t)) l1))) \<le> nat (if ok then c - 1 else c)"
      by (rule same_instant [OF assms(1) b(1,2)]) (use b c in auto)
    with c show ?thesis by (cases ok) (simp_all add: Suc a attempts_Cons)
  qed
  then have "of_nat (length (filter (\<lambda>ok. ok) (fst (attempts fl (replicate m (s, t)) l)))) \<le> (of_nat (nat c) :: rat)" by simp
  with c show ?thesis by simp
qed

text \<open>Forgetting a source that has been idle longer than \<open>enrollIdleTTL\<close> changes nothing: its next attempt
  is answered, and charged, as if it had been remembered.\<close>

theorem forgetting_is_invisible:
  assumes "ieee_rounding fl" "limiter_ok l" "get (buckets l) s = Some b" "enrollIdleTTL < time_sub now (last_seen b)"
  shows "fst (allow fl s now l) = fst (allow fl s now (l\<lparr>buckets := del s (buckets l)\<rparr>)) \<and>
    get (buckets (snd (allow fl s now l))) s = get (buckets (snd (allow fl s now (l\<lparr>buckets := del s (buckets l)\<rparr>)))) s"
proof -
  obtain c k where c: "burst l = of_int c" "refill l = k * Second" "1 \<le> c" "1 \<le> k" "c * k \<le> 3600"
    using limiter_okD [OF assms(2)] by metis
  have gone: "get (buckets (l\<lparr>buckets := del s (buckets l)\<rparr>)) s = None" by simp
  have "c * refill l = c * k * Second" using c(2) by simp
  also have "\<dots> \<le> 3600 * Second" using c(5) by (simp add: Second_def)
  also have "\<dots> \<le> time_sub now (last_seen b)" using assms(4) by (simp add: enrollIdleTTL_def)
  finally have "of_int c \<le> allowance fl l b now"
    by (intro refilled [OF assms(1-3)]) (use c in simp_all)
  then have full: "allowance fl l b now = burst l" using c(1) by (simp add: allowance_def min_def split: if_splits)
  have one: "1 \<le> burst l" using c by simp
  show ?thesis
    using allow_known(1) [OF assms(3), of fl now] allow_known(2) [OF assms(3), of fl now s] allow_new [OF gone, of fl now] by (simp add: full one)
qed

section \<open>Witnesses\<close>

text \<open>Exact arithmetic is a rounding, and a limiter with one attempt per second, once used up.\<close>

lemma exact_rounding: "ieee_rounding (\<lambda>x. x)"
  by (simp add: ieee_rounding_def)

definition used_up :: rate_limiter where
  "used_up = snd (allow (\<lambda>x. x) ''a'' 7 (newRateLimiter (\<lambda>x. x) 1 Second))"

lemma used_up_ok: "limiter_ok used_up" "after_all 7 used_up"
proof -
  have "limiter_ok (newRateLimiter (\<lambda>x. x) 1 (1 * Second))" by (rule limiter_ok_new [OF exact_rounding]) simp_all
  moreover have "after_all 7 (newRateLimiter (\<lambda>x. x) 1 (1 * Second))" by (simp add: after_all_def newRateLimiter_def)
  ultimately show "limiter_ok used_up" "after_all 7 used_up"
    using limiter_ok_allow [OF exact_rounding] by (simp_all add: used_up_def)
qed

lemma used_up_get: "get (buckets used_up) ''a'' = Some \<lparr>tokens = 0, last_seen = 7\<rparr>" "burst used_up = 1" "refill used_up = Second"
  using allow_new(2) [of "newRateLimiter (\<lambda>x. x) 1 Second" "''a''" "\<lambda>x. x" 7] allow_shape [of "\<lambda>x. x" "''a''" 7 "newRateLimiter (\<lambda>x. x) 1 Second"]
  by (simp_all add: used_up_def newRateLimiter_def)

lemma used_up_refused: "fst (allow (\<lambda>x. x) ''a'' 7 used_up) = False"
  using allow_known(1) [OF used_up_get(1), of "\<lambda>x. x" 7]
  by (simp add: allowance_def used_up_get Seconds_def Second_def time_sub_def int64_min_def int64_max_def)

theorem waiting_is_rewarded_witness:
  "fst (allow (\<lambda>x. x) ''a'' (7 + Second)
      (snd (attempts (\<lambda>x. x) [(''b'', 8), (''c'', 9)] (snd (allow (\<lambda>x. x) ''a'' 7 used_up)))))"
proof (rule waiting_is_rewarded [OF exact_rounding used_up_ok])
  show "allow (\<lambda>x. x) ''a'' 7 used_up = (False, snd (allow (\<lambda>x. x) ''a'' 7 used_up))"
    using used_up_refused by (metis prod.collapse)
  show "7 + retryAfter used_up \<le> 7 + Second" by (simp add: retryAfter_def used_up_get)
qed (auto simp: prod_eq_iff)

theorem burst_bounds_attempts_witness:
  "of_nat (length (filter (\<lambda>ok. ok) (fst (attempts (\<lambda>x. x) (replicate 1000 (''b'', 7)) used_up)))) \<le> burst used_up"
  by (rule burst_bounds_attempts [OF exact_rounding used_up_ok])

theorem forgetting_is_invisible_witness:
  "fst (allow (\<lambda>x. x) ''a'' (4000 * Second) used_up) =
   fst (allow (\<lambda>x. x) ''a'' (4000 * Second) (used_up\<lparr>buckets := del ''a'' (buckets used_up)\<rparr>))"
proof -
  have "enrollIdleTTL < time_sub (4000 * Second) (last_seen \<lparr>tokens = 0, last_seen = 7\<rparr>)"
    by (simp add: enrollIdleTTL_def time_sub_def int64_min_def int64_max_def Second_def)
  from forgetting_is_invisible [OF exact_rounding used_up_ok(1) used_up_get(1) this] show ?thesis by blast
qed

end
