(* ===== verification/Gate.thy ===== *)
theory Gate
  imports Auth Events RateLimit Delivery
begin

text \<open>
  The doors of the control plane (\<open>server.go\<close>): how an agent is let in by its certificate, an operator or
  the installation's administrator by a credential, and what the unauthenticated health check answers. A
  response is its status, the code of the problem document and its headers, or the body; its sentences are
  left out. Between two calls of the store other requests run: the \<open>k\<close>-th call meets the store \<open>st k\<close>.
\<close>

section \<open>Responses\<close>

text \<open>A panicking handler answers nothing: the connection is closed.\<close>

datatype 'a reply = Denied int bytes "(bytes \<times> bytes) list" | Replied int 'a | Aborted

abbreviation problem :: "int \<Rightarrow> bytes \<Rightarrow> 'a reply" where
  "problem status code \<equiv> Denied status code []"

abbreviation internal :: "'a reply" where
  "internal \<equiv> problem 500 ''internal''"

definition status_of :: "'a reply \<Rightarrow> int" where
  "status_of r = (case r of Denied s _ _ \<Rightarrow> s | Replied s _ \<Rightarrow> s | Aborted \<Rightarrow> 0)"

text \<open>How reading a request's body can fail.\<close>

datatype decode_failure = TooLarge | TrailingData | Unreadable

definition writeDecodeError :: "decode_failure \<Rightarrow> 'a reply" where
  "writeDecodeError e = (case e of
      TooLarge \<Rightarrow> problem 413 ''too_large''
    | TrailingData \<Rightarrow> problem 400 ''malformed''
    | Unreadable \<Rightarrow> problem 400 ''malformed'')"

text \<open>\<open>Retry-After\<close>: whole seconds.\<close>

definition rate_limited :: "rate_limiter \<Rightarrow> 'a reply" where
  "rate_limited l = Denied 429 ''rate_limited'' [(''Retry-After'', itoa (retryAfter l div Second))]"

section \<open>Agents\<close>

record caller =
  cl_Host :: host
  cl_Fingerprint :: bytes
  cl_Tenant :: tenant_id       \<comment> \<open>the tenant of the scoped store\<close>

definition Fingerprint :: "(bytes \<Rightarrow> bytes) \<Rightarrow> bytes \<Rightarrow> bytes" where
  "Fingerprint sha256_hex raw = sha256_hex raw"

definition requireAgent ::
  "(bytes \<Rightarrow> bytes) \<Rightarrow> reach \<Rightarrow> (nat \<Rightarrow> memory) \<Rightarrow> instant \<Rightarrow> bytes option \<Rightarrow> ('a reply, caller) result" where
  "requireAgent sha256_hex up st now peer = (case peer of
      None \<Rightarrow> Inl (problem 401 ''no_client_certificate'')
    | Some raw \<Rightarrow>
        (let fp = Fingerprint sha256_hex raw in
         case call up ''LookupCertificate'' (LookupCertificate fp (st 0)) of
           Inl e \<Rightarrow> Inl (if e = Refusal ErrNotFound then problem 401 ''unknown_certificate'' else internal)
         | Inr cert \<Rightarrow>
             if c_Revoked cert then Inl (problem 401 ''revoked'')
             else if \<not> is_zero (c_SupersededAt cert) \<and> \<not> now < c_SupersededAt cert then Inl (problem 401 ''superseded'')
             else (case call up ''GetTenant'' (GetTenant (c_TenantID cert) (st 1)) of
                 Inl e \<Rightarrow> Inl internal
               | Inr tenant \<Rightarrow>
                   if t_Suspended tenant then Inl (problem 403 ''tenant_suspended'')
                   else (case call up ''GetHost'' (GetHost (c_TenantID cert) (c_HostID cert) (st 2)) of
                       Inl e \<Rightarrow> Inl (if e = Refusal ErrNotFound then problem 401 ''unknown_host'' else internal)
                     | Inr h \<Rightarrow>
                         if h_Revoked h then Inl (problem 401 ''revoked'')
                         else Inr \<lparr>cl_Host = h, cl_Fingerprint = fp, cl_Tenant = c_TenantID cert\<rparr>))))"

section \<open>Operators and administrators\<close>

definition refuseOrFail :: "auth_error \<Rightarrow> 'a reply" where
  "refuseOrFail e =
     (if e \<noteq> ErrUnauthenticated then internal
      else Denied 401 ''unauthenticated'' [(''WWW-Authenticate'', ''Bearer realm='' @ [CHR 0x22] @ ''hostseal'' @ [CHR 0x22])])"

record operator =
  op_Identity :: identity
  op_Tenant :: tenant_id       \<comment> \<open>the tenant of the scoped store\<close>

definition requireOperator :: "provider \<Rightarrow> http_request \<Rightarrow> memory \<Rightarrow> ('a reply, operator) result \<times> memory" where
  "requireOperator authenticate r m = (case authenticate r m of
      (Inl e, m') \<Rightarrow> (Inl (refuseOrFail e), m')
    | (Inr i, m') \<Rightarrow>
        if id_Platform i \<or> id_Tenant i = [] then (Inl (problem 403 ''not_an_operator''), m')
        else (Inr \<lparr>op_Identity = i, op_Tenant = id_Tenant i\<rparr>, m'))"

definition requireIdentity :: "provider \<Rightarrow> http_request \<Rightarrow> memory \<Rightarrow> ('a reply, identity) result \<times> memory" where
  "requireIdentity authenticate r m = (case authenticate r m of
      (Inl e, m') \<Rightarrow> (Inl (refuseOrFail e), m')
    | (Inr i, m') \<Rightarrow> (Inr i, m'))"

definition requirePlatform :: "provider \<Rightarrow> http_request \<Rightarrow> memory \<Rightarrow> ('a reply, identity) result \<times> memory" where
  "requirePlatform authenticate r m = (case authenticate r m of
      (Inl e, m') \<Rightarrow> (Inl (refuseOrFail e), m')
    | (Inr i, m') \<Rightarrow> if \<not> id_Platform i then (Inl (problem 403 ''not_a_platform_administrator''), m') else (Inr i, m'))"

section \<open>The health check\<close>

definition handleHealth :: "(rat \<Rightarrow> rat) \<Rightarrow> reach \<Rightarrow> instant \<Rightarrow> http_request \<Rightarrow> rate_limiter \<Rightarrow> bytes reply \<times> rate_limiter" where
  "handleHealth fl up now r l = (case allow fl (RequestSource r) now l of
      (ok, l') \<Rightarrow>
        if \<not> ok then (rate_limited l', l')
        else if \<not> up ''Ping'' then (problem 503 ''database'', l')
        else (Replied 200 ''ok'', l'))"

section \<open>Who gets in\<close>

lemma admitted_by:
  assumes "requireAgent sha256_hex up st now peer = Inr cl"
  shows "\<exists>raw cert tenant. peer = Some raw \<and> cl_Fingerprint cl = sha256_hex raw \<and>
    get (m_certs (st 0)) (sha256_hex raw) = Some cert \<and> \<not> c_Revoked cert \<and> (c_SupersededAt cert = 0 \<or> now < c_SupersededAt cert) \<and>
    get (m_tenants (st 1)) (c_TenantID cert) = Some tenant \<and> \<not> t_Suspended tenant \<and> cl_Tenant cl = c_TenantID cert \<and>
    get (m_hosts (st 2)) (c_HostID cert) = Some (cl_Host cl, c_TenantID cert) \<and> \<not> h_Revoked (cl_Host cl)"
proof -
  from assms obtain raw cert tenant h where "peer = Some raw" and
    l: "call up ''LookupCertificate'' (LookupCertificate (sha256_hex raw) (st 0)) = Inr cert" and
    "\<not> c_Revoked cert" "is_zero (c_SupersededAt cert) \<or> now < c_SupersededAt cert" and
    t: "call up ''GetTenant'' (GetTenant (c_TenantID cert) (st 1)) = Inr tenant" and "\<not> t_Suspended tenant" and
    h: "call up ''GetHost'' (GetHost (c_TenantID cert) (c_HostID cert) (st 2)) = Inr h" and "\<not> h_Revoked h" and
    "cl = \<lparr>cl_Host = h, cl_Fingerprint = sha256_hex raw, cl_Tenant = c_TenantID cert\<rparr>"
    unfolding requireAgent_def Fingerprint_def Let_def by (auto split: option.splits sum.splits if_splits)
  moreover have "get (m_certs (st 0)) (sha256_hex raw) = Some cert"
    using l by (auto simp: res_simps LookupCertificate_def split: option.splits)
  moreover have "get (m_tenants (st 1)) (c_TenantID cert) = Some tenant"
    using t by (auto simp: res_simps GetTenant_def split: option.splits)
  moreover have "get (m_hosts (st 2)) (c_HostID cert) = Some (h, c_TenantID cert)"
    using h by (auto simp: res_simps GetHost_def scoped_host_Some split: option.splits)
  ultimately show ?thesis by (auto simp: is_zero_def)
qed

text \<open>Property C22: an agent is let in only on a certificate the store knows, neither revoked nor replaced by a renewal whose
  overlap is over, of a tenant that is not suspended, for a host of that tenant that is not revoked; its
  tenant is the certificate's, and nothing the agent sends besides the certificate counts.\<close>

theorem agent_admitted:
  assumes "requireAgent sha256_hex up st now peer = Inr cl"
  shows "\<exists>raw cert tenant. peer = Some raw \<and> cl_Fingerprint cl = sha256_hex raw \<and>
    get (m_certs (st 0)) (sha256_hex raw) = Some cert \<and> \<not> c_Revoked cert \<and> (c_SupersededAt cert = 0 \<or> now < c_SupersededAt cert) \<and>
    get (m_tenants (st 1)) (c_TenantID cert) = Some tenant \<and> \<not> t_Suspended tenant \<and> cl_Tenant cl = c_TenantID cert \<and>
    get (m_hosts (st 2)) (c_HostID cert) = Some (cl_Host cl, c_TenantID cert) \<and> \<not> h_Revoked (cl_Host cl)"
  by (rule admitted_by [OF assms])

lemma requireOperator_Inr:
  assumes "fst (requireOperator (operators h ac up now) r m) = Inr who"
  obtains a where "presents h m r a" "op_Tenant who = a_TenantID a" "a_TenantID a \<noteq> []"
    "stands_for (hs_lower h) a (op_Identity who)"
proof -
  obtain x m' where x: "operators h ac up now r m = (x, m')" by fastforce
  from assms obtain i where i: "x = Inr i" "id_Tenant i \<noteq> []" "who = \<lparr>op_Identity = i, op_Tenant = id_Tenant i\<rparr>"
    by (auto simp: requireOperator_def x split: sum.splits if_splits)
  have "fst (operators h ac up now r m) = Inr i" by (simp add: x i(1))
  then obtain a where "presents h m r a" "stands_for (hs_lower h) a i" by (rule operators_Inr)
  with i that show ?thesis by (simp add: stands_for_def)
qed

text \<open>Property C23: an operator's requests reach the tenant of the account whose credential they carry and no other: the
  handlers get a handle of that tenant, an administrator of the installation gets none, and the routes of
  the installation are refused to every operator.\<close>

theorem operator_confined:
  assumes "fst (requireOperator (operators h ac up now) r m) = Inr who" "store_ok m"
  shows "(\<exists>a. presents h m r a \<and> get (m_accounts m) (a_ID a) = Some a \<and> op_Tenant who = a_TenantID a \<and> a_TenantID a \<noteq> []) \<and>
    (\<exists>p. fst (requirePlatform (operators h ac up now) r m) = Inl p \<and> status_of p = 403)"
proof -
  obtain a where a: "presents h m r a" "op_Tenant who = a_TenantID a" "a_TenantID a \<noteq> []"
    by (rule requireOperator_Inr [OF assms(1)])
  obtain x m' where x: "operators h ac up now r m = (x, m')" by fastforce
  from assms(1) have "\<exists>i. x = Inr i \<and> \<not> id_Platform i"
    by (auto simp: requireOperator_def x split: sum.splits if_splits)
  then have "\<exists>p. fst (requirePlatform (operators h ac up now) r m) = Inl p \<and> status_of p = 403"
    by (auto simp: requirePlatform_def x status_of_def)
  with a presents_row [OF a(1) assms(2)] show ?thesis by blast
qed

theorem agent_admitted_witness:
  "\<exists>cl. requireAgent (\<lambda>x. x) (\<lambda>_. True) (\<lambda>_. demo_enrolled) 5 (Some ''fp'') = (Inr cl :: (bytes reply, caller) result) \<and>
    cl_Tenant cl = DefaultTenant \<and> \<not> h_Revoked (cl_Host cl)"
proof -
  have "requireAgent (\<lambda>x. x) (\<lambda>_. True) (\<lambda>_. demo_enrolled) 5 (Some ''fp'') =
      (Inr \<lparr>cl_Host = demo_host, cl_Fingerprint = ''fp'', cl_Tenant = DefaultTenant\<rparr> :: (bytes reply, caller) result)"
    by (simp add: requireAgent_def Fingerprint_def call_def LookupCertificate_def GetTenant_def GetHost_def scoped_host_def
        demo_enrolled_def demo_defs is_zero_def get_put)
  from agent_admitted [OF this] this show ?thesis by auto
qed

theorem operator_confined_witness:
  "\<exists>who. fst (requireOperator (operators demo_hashing (NewAccounts 0 0) (\<lambda>_. True) 5) demo_request demo_memory) =
      (Inr who :: (bytes reply, operator) result) \<and> op_Tenant who = ''default''"
proof -
  have t: "trim_space ''cookie'' = ''cookie''" by code_simp
  obtain who where who: "fst (requireOperator (operators demo_hashing (NewAccounts 0 0) (\<lambda>_. True) 5) demo_request demo_memory) =
      (Inr who :: (bytes reply, operator) result)"
    by (simp add: requireOperator_def operators_def chain_Authenticate_def Accounts_Authenticate_def APITokens_Authenticate_def
        Let_def demo_request_def demo_memory_def demo_hashing_def HashSessionToken_def t call_def SessionByToken_def get_put
        session_Valid_def withinMaxAge_def NewAccounts_def go_defs bearerToken_def account_identity_def identityFor_def
        demo_account_def split: prod.splits)
  with operator_confined [OF who demo_ok] show ?thesis
    by (auto simp: demo_memory_def get_put demo_account_def split: if_splits)
qed

end
