(* ===== verification/Handling.thy ===== *)
theory Handling
  imports Gate
begin

text \<open>
  How the handlers of \<open>internal/server\<close> are put together: a step works on the control plane and either goes on
  with a value or writes the response and returns. \<open>w k\<close> is what other requests do to the store before
  the \<open>k\<close>-th call of the request at hand.
\<close>

section \<open>Steps\<close>

type_synonym ('r, 'a) step = "server \<Rightarrow> ('r reply, 'a) result \<times> server"

definition going :: "'a \<Rightarrow> ('r, 'a) step" where
  "going x = (\<lambda>s. (Inr x, s))"

definition denied :: "'r reply \<Rightarrow> ('r, 'a) step" where
  "denied r = (\<lambda>s. (Inl r, s))"

definition andThen :: "('r, 'a) step \<Rightarrow> ('a \<Rightarrow> ('r, 'b) step) \<Rightarrow> ('r, 'b) step" where
  "andThen a k = (\<lambda>s. case a s of (Inl r, s') \<Rightarrow> (Inl r, s') | (Inr x, s') \<Rightarrow> k x s')"

definition gap :: "(nat \<Rightarrow> memory \<Rightarrow> memory) \<Rightarrow> nat \<Rightarrow> server \<Rightarrow> server" where
  "gap w k s = s\<lparr>sv_store := w k (sv_store s)\<rparr>"

text \<open>A call that reads the store, and one that changes it.\<close>

definition asks ::
  "reach \<Rightarrow> (nat \<Rightarrow> memory \<Rightarrow> memory) \<Rightarrow> nat \<Rightarrow> bytes \<Rightarrow> (memory \<Rightarrow> (store_error, 'a) result) \<Rightarrow>
   (call_error \<Rightarrow> 'r reply) \<Rightarrow> ('r, 'a) step" where
  "asks up w k name q refusal = (\<lambda>s. case call up name (q (sv_store (gap w k s))) of
      Inl e \<Rightarrow> (Inl (refusal e), gap w k s)
    | Inr x \<Rightarrow> (Inr x, gap w k s))"

definition changes ::
  "reach \<Rightarrow> (nat \<Rightarrow> memory \<Rightarrow> memory) \<Rightarrow> nat \<Rightarrow> bytes \<Rightarrow> (memory \<Rightarrow> (store_error, 'a \<times> memory) result) \<Rightarrow>
   (call_error \<Rightarrow> 'r reply) \<Rightarrow> ('r, 'a) step" where
  "changes up w k name q refusal = (\<lambda>s. case call up name (q (sv_store (gap w k s))) of
      Inl e \<Rightarrow> (Inl (refusal e), gap w k s)
    | Inr (x, m) \<Rightarrow> (Inr x, (gap w k s)\<lparr>sv_store := m\<rparr>))"

definition only :: "(store_error, memory) result \<Rightarrow> (store_error, unit \<times> memory) result" where
  "only r = map_sum id (Pair ()) r"

definition emits :: "tenant_id \<Rightarrow> instant \<Rightarrow> bytes option \<Rightarrow> notification \<Rightarrow> ('r, unit) step" where
  "emits tn now new_id ev = (\<lambda>s. (Inr (), emit tn now new_id ev s))"

text \<open>A handler ends with the response it reached.\<close>

definition answer :: "('r, 'r reply) step \<Rightarrow> server \<Rightarrow> 'r reply \<times> server" where
  "answer a s = (case a s of (Inl r, s') \<Rightarrow> (r, s') | (Inr r, s') \<Rightarrow> (r, s'))"

text \<open>A call that gets through may panic.\<close>

definition called :: "reach \<Rightarrow> bytes \<Rightarrow> (store_error, 'a) result option \<Rightarrow> (call_error, 'a) result option" where
  "called up name r = (if up name then map_option (call up name) r else Some (Inl Unreachable))"

section \<open>Reading them\<close>

named_theorems step_simps

lemma gap_store [simp]: "sv_store (gap w k s) = w k (sv_store s)"
  by (simp add: gap_def)

lemma called_Inr [res_simps]: "called up name r = Some (Inr a) \<longleftrightarrow> up name \<and> r = Some (Inr a)"
  by (cases r) (auto simp: called_def call_def split: sum.splits)

lemma going_run [step_simps]: "going x s = (r, s') \<longleftrightarrow> r = Inr x \<and> s' = s"
  by (auto simp: going_def)

lemma denied_run [step_simps]: "denied p s = (r, s') \<longleftrightarrow> r = Inl p \<and> s' = s"
  by (auto simp: denied_def)

lemma andThen_Inr [step_simps]: "andThen a k s = (Inr y, s'') \<longleftrightarrow> (\<exists>x s'. a s = (Inr x, s') \<and> k x s' = (Inr y, s''))"
  by (auto simp: andThen_def split: prod.splits sum.splits)

lemma andThen_Inl: "andThen a k s = (Inl p, s'') \<longleftrightarrow>
    a s = (Inl p, s'') \<or> (\<exists>x s'. a s = (Inr x, s') \<and> k x s' = (Inl p, s''))"
  by (auto simp: andThen_def split: prod.splits sum.splits)

lemma asks_Inr [step_simps]: "asks up w k name q f s = (Inr x, s') \<longleftrightarrow>
    up name \<and> q (w k (sv_store s)) = Inr x \<and> s' = gap w k s"
  by (auto simp: asks_def call_def split: sum.splits if_splits)

lemma asks_Inl: "asks up w k name q f s = (Inl p, s') \<longleftrightarrow>
    (\<exists>e. call up name (q (w k (sv_store s))) = Inl e \<and> p = f e) \<and> s' = gap w k s"
  by (auto simp: asks_def split: sum.splits)

lemma changes_Inr [step_simps]: "changes up w k name q f s = (Inr x, s') \<longleftrightarrow>
    up name \<and> (\<exists>m. q (w k (sv_store s)) = Inr (x, m) \<and> s' = (gap w k s)\<lparr>sv_store := m\<rparr>)"
  by (auto simp: changes_def call_def split: sum.splits if_splits)

lemma changes_Inl: "changes up w k name q f s = (Inl p, s') \<longleftrightarrow>
    (\<exists>e. call up name (q (w k (sv_store s))) = Inl e \<and> p = f e) \<and> s' = gap w k s"
  by (auto simp: changes_def split: sum.splits)

lemma only_Inr [step_simps]: "only r = Inr (x, m) \<longleftrightarrow> r = Inr m"
  by (cases r) (auto simp: only_def)

lemma only_Inl [step_simps]: "only r = Inl e \<longleftrightarrow> r = Inl e"
  by (cases r) (auto simp: only_def)

lemma emits_run [step_simps]: "emits tn now i ev s = (r, s') \<longleftrightarrow> r = Inr () \<and> s' = emit tn now i ev s"
  by (auto simp: emits_def)

lemma answer_run: "answer a s = (p, s') \<longleftrightarrow> a s = (Inl p, s') \<or> a s = (Inr p, s')"
  by (auto simp: answer_def split: prod.splits sum.splits)

lemma if_step [step_simps]: "(if b then denied p else k) s = (Inr y, s') \<longleftrightarrow> \<not> b \<and> k s = (Inr y, s')"
  by (simp add: denied_def)

lemma gap_idle [simp]: "gap (\<lambda>_ m. m) k s = s"
  by (simp add: gap_def)

text \<open>A step that stops has refused.\<close>

definition refuses :: "('r, 'a) step \<Rightarrow> bool" where
  "refuses a \<longleftrightarrow> (\<forall>s p s'. a s = (Inl p, s') \<longrightarrow> (\<exists>c e hs. p = Denied c e hs))"

lemma refusesD: "refuses a \<Longrightarrow> a s = (Inl p, s') \<Longrightarrow> \<exists>c e hs. p = Denied c e hs"
  unfolding refuses_def by blast

named_theorems refuse_intros

lemma refuses_going [refuse_intros]: "refuses (going x)"
  by (simp add: refuses_def going_run)

lemma refuses_denied [refuse_intros]: "refuses (denied (Denied c e hs))"
  by (simp add: refuses_def denied_run)

lemma refuses_andThen [refuse_intros]: "refuses a \<Longrightarrow> (\<And>x. refuses (k x)) \<Longrightarrow> refuses (andThen a k)"
  by (fastforce simp: refuses_def andThen_Inl)

lemma refuses_asks [refuse_intros]: "(\<And>x. \<exists>c e hs. f x = Denied c e hs) \<Longrightarrow> refuses (asks up w k name q f)"
  by (auto simp: refuses_def asks_Inl)

lemma refuses_changes [refuse_intros]: "(\<And>x. \<exists>c e hs. f x = Denied c e hs) \<Longrightarrow> refuses (changes up w k name q f)"
  by (auto simp: refuses_def changes_Inl)

lemma refuses_emits [refuse_intros]: "refuses (emits tn now i ev)"
  by (simp add: refuses_def emits_run)

lemma refuses_if [refuse_intros]: "(b \<Longrightarrow> refuses a) \<Longrightarrow> (\<not> b \<Longrightarrow> refuses a') \<Longrightarrow> refuses (if b then a else a')"
  by simp

lemma refuses_option [refuse_intros]:
  "refuses a \<Longrightarrow> (\<And>x. refuses (k x)) \<Longrightarrow> refuses (case o' of None \<Rightarrow> a | Some x \<Rightarrow> k x)"
  by (cases o') simp_all

lemma refuses_sum [refuse_intros]:
  "(\<And>e. refuses (f e)) \<Longrightarrow> (\<And>x. refuses (k x)) \<Longrightarrow> refuses (case r of Inl e \<Rightarrow> f e | Inr x \<Rightarrow> k x)"
  by (cases r) simp_all

lemma refuses_prod [refuse_intros]: "(\<And>x y. refuses (k x y)) \<Longrightarrow> refuses (case p of (x, y) \<Rightarrow> k x y)"
  by (cases p) simp

text \<open>A step that only reads, with nobody else at the store.\<close>

definition reads_only :: "('r, 'a) step \<Rightarrow> bool" where
  "reads_only a \<longleftrightarrow> (\<forall>s. snd (a s) = s)"

lemma reads_onlyD: "reads_only a \<Longrightarrow> a s = (r, s') \<Longrightarrow> s' = s"
  unfolding reads_only_def by (metis snd_conv)

named_theorems reading_intros

lemma reads_basic [reading_intros]: "reads_only (going x)" "reads_only (denied p)" "reads_only (asks up (\<lambda>_ m. m) k name q f)"
  by (auto simp: reads_only_def going_def denied_def asks_def split: sum.splits)

lemma reads_andThen [reading_intros]: "reads_only a \<Longrightarrow> (\<And>x. reads_only (k x)) \<Longrightarrow> reads_only (andThen a k)"
  by (auto simp: reads_only_def andThen_def split: prod.splits sum.splits) (metis snd_conv)+

lemma reads_if [reading_intros]: "(b \<Longrightarrow> reads_only a) \<Longrightarrow> (\<not> b \<Longrightarrow> reads_only a') \<Longrightarrow> reads_only (if b then a else a')"
  by simp

lemma reads_option [reading_intros]:
  "reads_only a \<Longrightarrow> (\<And>x. reads_only (k x)) \<Longrightarrow> reads_only (case o' of None \<Rightarrow> a | Some x \<Rightarrow> k x)"
  by (cases o') simp_all

end
