(* ===== verification/JobsAPI.thy ===== *)
theory JobsAPI
  imports Handling Acceptance
begin

text \<open>
  Queueing and releasing work (\<open>jobsapi.go\<close>): what is checked before a job is created, how a job is built
  and a routine one signed, creation, approval and the reads. \<open>w k\<close> is what other requests do to the store
  before the \<open>k\<close>-th call of the request at hand; a request body is what decoding it gave.
\<close>

section \<open>Requests\<close>

definition ReadJobValidity :: duration where [go_defs]: "ReadJobValidity = 86400 * Second"
definition RoutineJobValidity :: duration where [go_defs]: "RoutineJobValidity = 21600 * Second"

record job_request =
  jr_ID :: bytes
  jr_HostID :: bytes
  jr_Intent :: bytes
  jr_Params :: "(bytes \<times> json) list option"
  jr_NotBefore :: instant
  jr_NotAfter :: instant
  jr_Nonce :: bytes
  jr_Signature :: bytes
  jr_SignerKeyID :: bytes
  jr_SignerAlgorithm :: bytes

text \<open>The control plane's own key: what it signs, and its name.\<close>

record online_key =
  ok_Sign :: "bytes \<Rightarrow> bytes option"
  ok_KeyID :: bytes
  ok_Algorithm :: bytes

definition params_value :: "(bytes \<times> json) list option \<Rightarrow> json" where
  "params_value ps = (case ps of None \<Rightarrow> JNull | Some ms \<Rightarrow> JObj ms)"

text \<open>The rules of the class: what a request may and must carry besides its parameters.\<close>

definition class_refusal :: "online_key option \<Rightarrow> job_request \<Rightarrow> spec \<Rightarrow> 'a reply option" where
  "class_refusal online r s =
     (let chosen = jr_Signature r \<noteq> [] \<or> jr_SignerKeyID r \<noteq> [] \<or> jr_Nonce r \<noteq> [] \<or> jr_ID r \<noteq> [] in
      if Class s = ClassRoutine then
        (if online = None then Some (problem 501 ''no_online_key'')
         else if chosen then Some (problem 400 ''malformed'') else None)
      else if Class s = ClassDestructive then
        (if jr_Signature r = [] \<or> jr_SignerKeyID r = [] \<or> jr_SignerAlgorithm r = [] then Some (problem 400 ''unsigned'')
         else if jr_ID r = [] \<or> jr_Nonce r = [] \<or> is_zero (jr_NotBefore r) \<or> is_zero (jr_NotAfter r)
         then Some (problem 400 ''malformed'')
         else if \<not> ValidJobID (jr_ID r) then Some (problem 400 ''malformed'')
         else if \<not> jr_NotBefore r < jr_NotAfter r then Some (problem 400 ''malformed'')
         else None)
      else if chosen then Some (problem 400 ''malformed'') else None)"

definition validateJobRequest :: "online_key option \<Rightarrow> job_request \<Rightarrow> ('a reply, spec \<times> params) result" where
  "validateJobRequest online r =
     (if jr_HostID r = [] then Inl (problem 400 ''malformed'')
      else case json_marshal (params_value (jr_Params r)) of
        Inl _ \<Rightarrow> Inl (problem 400 ''malformed'')
      | Inr rawParams \<Rightarrow>
          (case Decode (jr_Intent r) rawParams of
             Inl _ \<Rightarrow> Inl (problem 400 ''unsupported_intent'')
           | Inr (s, ps) \<Rightarrow>
               (case class_refusal online r s of
                  Some p \<Rightarrow> Inl p
                | None \<Rightarrow> if \<not> Implemented s then Inl (problem 501 ''unsupported_intent'') else Inr (s, ps))))"

text \<open>What a handler takes from the machine: the clock and the randomness of its identifiers.\<close>

record chance =
  ch_now :: instant
  ch_id1 :: "bytes option"      \<comment> \<open>\<open>NewID()\<close>, the first and the second call\<close>
  ch_id2 :: "bytes option"

datatype build_error = NoIdentifier | NotCanonical canonical_error | NotSigned

definition signRoutine :: "online_key \<Rightarrow> job \<Rightarrow> bytes \<Rightarrow> (build_error, job) result" where
  "signRoutine key j hostID =
     (let now = job_IssuedAt j;
          j1 = j\<lparr>NotBefore := now - MaxClockSkewSeconds * Second, NotAfter := now + RoutineJobValidity\<rparr>
      in case Marshal (SignedPayload j1 hostID) of
           Inl e \<Rightarrow> Inl (NotCanonical e)
         | Inr payload \<Rightarrow>
             (case ok_Sign key payload of
                None \<Rightarrow> Inl NotSigned
              | Some sig \<Rightarrow> Inr (j1\<lparr>Signature := b64_encode sig, SignerKeyID := ok_KeyID key,
                  SignerAlgorithm := ok_Algorithm key\<rparr>)))"

definition buildJob :: "online_key option \<Rightarrow> chance \<Rightarrow> job_request \<Rightarrow> spec \<Rightarrow> bytes \<Rightarrow> (build_error, job) result" where
  "buildJob online ch r s hostID =
     (let j = \<lparr>ID = jr_ID r, job_Intent = spec_Name s, job_Params = Some (case jr_Params r of None \<Rightarrow> [] | Some ps \<Rightarrow> ps),
            job_Class = Class s, job_IssuedAt = ch_now ch, NotBefore = jr_NotBefore r, NotAfter = jr_NotAfter r,
            Nonce = jr_Nonce r, Signature = jr_Signature r, SignerKeyID = jr_SignerKeyID r,
            SignerAlgorithm = jr_SignerAlgorithm r\<rparr>
      in if Signature j \<noteq> [] then Inr j
         else case ch_id1 ch of
           None \<Rightarrow> Inl NoIdentifier
         | Some i \<Rightarrow>
             (case ch_id2 ch of
                None \<Rightarrow> Inl NoIdentifier
              | Some n \<Rightarrow>
                  let j' = j\<lparr>ID := i, Nonce := n, NotBefore := 0, NotAfter := job_IssuedAt j + ReadJobValidity\<rparr>
                  in if Class s = ClassRoutine then
                       (case online of None \<Rightarrow> Inl NotSigned | Some key \<Rightarrow> signRoutine key j' hostID)
                     else Inr j'))"

section \<open>Views\<close>

definition jobState :: "job_record \<Rightarrow> bytes" where
  "jobState rec = (case j_Result rec of
      Some res \<Rightarrow> Status res
    | None \<Rightarrow> if \<not> is_zero (j_ClaimedAt rec) then ''running''
              else if AwaitingApproval rec then ''awaiting_approval'' else ''queued'')"

record job_view =
  jv_ID :: bytes
  jv_HostID :: bytes
  jv_Intent :: bytes
  jv_Params :: "(bytes \<times> json) list"
  jv_Class :: bytes
  jv_CreatedAt :: instant
  jv_CreatedBy :: bytes
  jv_NotBefore :: "instant option"
  jv_NotAfter :: instant
  jv_Signed :: bool
  jv_SignerKeyID :: bytes
  jv_ApprovalRequired :: bool
  jv_ApprovalDistinctOperator :: bool
  jv_ApprovedAt :: "instant option"
  jv_ApprovedBy :: bytes
  jv_ClaimedAt :: "instant option"
  jv_State :: bytes
  jv_Result :: "bytes result_request option"

definition unless_zero :: "instant \<Rightarrow> instant option" where
  "unless_zero t = (if is_zero t then None else Some t)"

definition toJobView :: "job_record \<Rightarrow> job_view" where
  "toJobView rec =
     \<lparr>jv_ID = ID (j_Job rec), jv_HostID = j_HostID rec, jv_Intent = job_Intent (j_Job rec),
      jv_Params = (case job_Params (j_Job rec) of None \<Rightarrow> [] | Some ps \<Rightarrow> ps), jv_Class = job_Class (j_Job rec),
      jv_CreatedAt = j_CreatedAt rec, jv_CreatedBy = j_CreatedBy rec, jv_NotBefore = unless_zero (NotBefore (j_Job rec)),
      jv_NotAfter = NotAfter (j_Job rec), jv_Signed = (Signature (j_Job rec) \<noteq> []), jv_SignerKeyID = SignerKeyID (j_Job rec),
      jv_ApprovalRequired = j_ApprovalRequired rec, jv_ApprovalDistinctOperator = j_ApprovalDistinctOperator rec,
      jv_ApprovedAt = unless_zero (j_ApprovedAt rec), jv_ApprovedBy = j_ApprovedBy rec,
      jv_ClaimedAt = unless_zero (j_ClaimedAt rec), jv_State = jobState rec, jv_Result = j_Result rec\<rparr>"

section \<open>Creating\<close>

definition created_event :: "operator \<Rightarrow> job_request \<Rightarrow> host \<Rightarrow> params \<Rightarrow> job \<Rightarrow> new_job \<Rightarrow> notification" where
  "created_event who r h ps j n =
     \<lparr>ne_Kind = KindJobCreated, ne_TenantID = [], ne_HostID = jr_HostID r, ne_Hostname = h_Hostname h,
      ne_Summary = Describe ps @ '' queued for '' @ h_Hostname h @ '' by '' @ Principal (op_Identity who),
      ne_At = job_IssuedAt j,
      ne_Detail = [(''jobId'', JStr (ID j)), (''intent'', JStr (job_Intent j)), (''class'', JStr (job_Class j)),
        (''approvalRequired'', JBool (n_ApprovalRequired n)), (''signerKeyId'', JStr (SignerKeyID j))]\<rparr>"

definition handleCreateJob ::
  "online_key option \<Rightarrow> reach \<Rightarrow> (nat \<Rightarrow> memory \<Rightarrow> memory) \<Rightarrow> chance \<Rightarrow> bytes option \<Rightarrow> operator \<Rightarrow>
   (decode_failure, job_request) result \<Rightarrow> server \<Rightarrow> job_view reply \<times> server" where
  "handleCreateJob online up w ch event_id who body s = (case body of
      Inl e \<Rightarrow> (writeDecodeError e, s)
    | Inr r \<Rightarrow>
        (case validateJobRequest online r of
           Inl p \<Rightarrow> (p, s)
         | Inr (sp, ps) \<Rightarrow>
             (let tn = op_Tenant who; s = gap w 0 s in
              case call up ''GetHost'' (GetHost tn (jr_HostID r) (sv_store s)) of
                Inl e \<Rightarrow> (if e = Refusal ErrNotFound then problem 404 ''unknown_host'' else internal, s)
              | Inr h \<Rightarrow>
                  if h_Revoked h then (problem 409 ''revoked'', s)
                  else (case buildJob online ch r sp (jr_HostID r) of
                      Inl _ \<Rightarrow> (internal, s)
                    | Inr j \<Rightarrow>
                        (let s = gap w 1 s in
                         case call up ''GetTenant'' (GetTenant tn (sv_store s)) of
                           Inl _ \<Rightarrow> (internal, s)
                         | Inr t \<Rightarrow>
                             (let destructive = (Class sp = ClassDestructive);
                                  n = \<lparr>n_Job = j, n_HostID = jr_HostID r, n_CreatedBy = Principal (op_Identity who),
                                       n_ApprovalRequired = (destructive \<and> RequiresApproval (t_ApprovalMode t)),
                                       n_ApprovalDistinctOperator = (destructive \<and> RequiresDistinctOperator (t_ApprovalMode t))\<rparr>;
                                  s = gap w 2 s
                              in case called up ''CreateJob'' (CreateJob tn n (sv_store s)) of
                                   None \<Rightarrow> (Aborted, s)
                                 | Some made \<Rightarrow>
                                     (case made of
                                        Inl e \<Rightarrow>
                                          (if e = Refusal ErrConflict then problem 409 ''duplicate''
                                           else if e = Refusal ErrNotFound then problem 404 ''unknown_host'' else internal, s)
                                      | Inr m \<Rightarrow>
                                          (let s = emit tn (ch_now ch) event_id (created_event who r h ps j n) (s\<lparr>sv_store := m\<rparr>);
                                               s = gap w 3 s
                                           in case call up ''GetJob'' (GetJob tn (ID j) (sv_store s)) of
                                                Inl _ \<Rightarrow> (internal, s)
                                              | Inr stored \<Rightarrow> (Replied 201 (toJobView stored), s)))))))))"

section \<open>Approving\<close>

definition approved_event :: "operator \<Rightarrow> bytes \<Rightarrow> job_record \<Rightarrow> instant \<Rightarrow> notification" where
  "approved_event who jobID before now =
     \<lparr>ne_Kind = KindJobApproved, ne_TenantID = [], ne_HostID = j_HostID before, ne_Hostname = [],
      ne_Summary = job_Intent (j_Job before) @ '' on '' @ j_HostID before @ '' approved by '' @
        Principal (op_Identity who) @ '', created by '' @ j_CreatedBy before,
      ne_At = now, ne_Detail = [(''jobId'', JStr jobID), (''intent'', JStr (job_Intent (j_Job before)))]\<rparr>"

definition handleApproveJob ::
  "reach \<Rightarrow> (nat \<Rightarrow> memory \<Rightarrow> memory) \<Rightarrow> instant \<Rightarrow> bytes option \<Rightarrow> operator \<Rightarrow> bytes \<Rightarrow> server \<Rightarrow> job_view reply \<times> server" where
  "handleApproveJob up w now event_id who jobID s =
     (let tn = op_Tenant who; p = Principal (op_Identity who); s = gap w 0 s in
      case call up ''GetJob'' (GetJob tn jobID (sv_store s)) of
        Inl e \<Rightarrow> (if e = Refusal ErrNotFound then problem 404 ''unknown_job'' else internal, s)
      | Inr before \<Rightarrow>
          if \<not> j_ApprovalRequired before then (problem 409 ''no_approval_required'', s)
          else if \<not> is_zero (j_ApprovedAt before) then (problem 409 ''already_approved'', s)
          else if j_ApprovalDistinctOperator before \<and> j_CreatedBy before = p then (problem 409 ''self_approval'', s)
          else let s = gap w 1 s in
            (case called up ''ApproveJob'' (ApproveJob tn jobID p now (sv_store s)) of
               None \<Rightarrow> (Aborted, s)
             | Some made \<Rightarrow>
                 (case made of
                    Inl e \<Rightarrow>
                      (if e = Refusal ErrConflict \<or> e = Refusal ErrNotFound then problem 409 ''not_approvable'' else internal, s)
                  | Inr m \<Rightarrow>
                      (let s = emit tn now event_id (approved_event who jobID before now) (s\<lparr>sv_store := m\<rparr>);
                           s = gap w 2 s
                       in case call up ''GetJob'' (GetJob tn jobID (sv_store s)) of
                            Inl _ \<Rightarrow> (internal, s)
                          | Inr after \<Rightarrow> (Replied 200 (toJobView after), s)))))"

section \<open>Reading\<close>

definition jobLimit :: "bytes \<Rightarrow> int option" where
  "jobLimit raw =
     (if raw = [] then Some 0
      else case parse_int64 raw of None \<Rightarrow> None | Some n \<Rightarrow> if n < 1 \<or> n > MaxJobLimit then None else Some n)"

record job_page =
  jp_jobs :: "job_view list"
  jp_limit :: int
  jp_truncated :: bool

definition handleListJobs :: "reach \<Rightarrow> operator \<Rightarrow> bytes \<Rightarrow> bytes \<Rightarrow> bytes \<Rightarrow> memory \<Rightarrow> job_page reply" where
  "handleListJobs up who limit_text host awaiting m = (case jobLimit limit_text of
      None \<Rightarrow> problem 400 ''malformed''
    | Some limit \<Rightarrow>
        if \<not> up ''ListJobs'' then internal
        else let f = \<lparr>f_HostID = host, f_Limit = limit, f_AwaitingApproval = (awaiting = ''true'')\<rparr>;
                 views = map toJobView (ListJobs (op_Tenant who) f m);
                 effective = (if f_Limit f \<le> 0 then DefaultJobLimit else f_Limit f)
             in Replied 200 \<lparr>jp_jobs = views, jp_limit = effective, jp_truncated = (effective \<le> int (length views))\<rparr>)"

definition handleGetJob :: "reach \<Rightarrow> operator \<Rightarrow> bytes \<Rightarrow> memory \<Rightarrow> job_view reply" where
  "handleGetJob up who jobID m = (case call up ''GetJob'' (GetJob (op_Tenant who) jobID m) of
      Inl e \<Rightarrow> if e = Refusal ErrNotFound then problem 404 ''unknown_job'' else internal
    | Inr rec \<Rightarrow> Replied 200 (toJobView rec))"

section \<open>What a reply says of the request\<close>

text \<open>The record a creation makes for a tenant in a given approval mode.\<close>

definition new_job_for :: "operator \<Rightarrow> job_request \<Rightarrow> spec \<Rightarrow> bytes \<Rightarrow> job \<Rightarrow> new_job" where
  "new_job_for who r sp mode j =
     \<lparr>n_Job = j, n_HostID = jr_HostID r, n_CreatedBy = Principal (op_Identity who),
      n_ApprovalRequired = (Class sp = ClassDestructive \<and> RequiresApproval mode),
      n_ApprovalDistinctOperator = (Class sp = ClassDestructive \<and> RequiresDistinctOperator mode)\<rparr>"


section \<open>Destructive work needs the people the tenant asks for\<close>

text \<open>Other requests may do anything to the store but delete job records.\<close>

definition keeps_records :: "(nat \<Rightarrow> memory \<Rightarrow> memory) \<Rightarrow> bool" where
  "keeps_records w \<longleftrightarrow> (\<forall>k m. \<exists>ds. run ds m (w k m))"

lemma keeps_ok: "keeps_records w \<Longrightarrow> store_ok m \<Longrightarrow> store_ok (w k m)"
  using run_ok unfolding keeps_records_def by blast






lemma class_refusal_None:
  "class_refusal online r s = None \<longleftrightarrow>
     (if Class s = ClassDestructive then
        jr_Signature r \<noteq> [] \<and> jr_SignerKeyID r \<noteq> [] \<and> jr_SignerAlgorithm r \<noteq> [] \<and> jr_ID r \<noteq> [] \<and> jr_Nonce r \<noteq> [] \<and>
        jr_NotBefore r \<noteq> 0 \<and> jr_NotAfter r \<noteq> 0 \<and> ValidJobID (jr_ID r) \<and> jr_NotBefore r < jr_NotAfter r
      else (Class s = ClassRoutine \<longrightarrow> online \<noteq> None) \<and>
        jr_Signature r = [] \<and> jr_SignerKeyID r = [] \<and> jr_Nonce r = [] \<and> jr_ID r = [])"
  unfolding class_refusal_def Let_def is_zero_def ClassDestructive_def ClassRoutine_def
  by (cases "Class s = ''routine''"; cases "Class s = ''destructive''"; force)






section \<open>A routine job reaches the host in a form the agent takes\<close>





section \<open>Refusals\<close>

lemma CreateJob_panics_not: "store_ok m \<Longrightarrow> called up name (CreateJob tn n m) \<noteq> None"
  using waiters_ok_CreateJob(1) [of m tn n] by (auto simp: called_def store_ok_def)

lemma validate_Inl: "validateJobRequest online r = Inl p \<Longrightarrow> \<exists>c e hs. p = Denied c e hs"
  by (auto simp: validateJobRequest_def class_refusal_def Let_def split: sum.splits if_splits option.splits)

text \<open>A creation that is refused changed nothing, announced nothing and started no delivery: all that happened
  to the store is what the requests in between did; and the handler never panics.\<close>

theorem create_job_refusal:
  assumes "handleCreateJob online up w ch event_id who body s = (reply, s')" "keeps_records w" "store_ok (sv_store s)"
  shows "reply \<noteq> Aborted \<and>
    ((\<exists>c e hs. reply = Denied c e hs \<and> c \<noteq> 500) \<longrightarrow>
       s' \<in> {s, gap w 0 s, gap w 1 (gap w 0 s), gap w 2 (gap w 1 (gap w 0 s))})"
proof -
  have ok: "store_ok (w 2 (w 1 (w 0 (sv_store s))))" by (intro keeps_ok [OF assms(2)] assms(3))
  have total: "called up name (CreateJob tn n (w 2 (w 1 (w 0 (sv_store s))))) \<noteq> None" for name tn n
    by (rule CreateJob_panics_not [OF ok])
  let ?s0 = "gap w 0 s" and ?s1 = "gap w 1 (gap w 0 s)" and ?tn = "op_Tenant who"
  show ?thesis
  proof (cases body)
    case (Inl e)
    with assms(1) show ?thesis by (auto simp: handleCreateJob_def writeDecodeError_def split: decode_failure.splits)
  next
    case body: (Inr r)
    show ?thesis
    proof (cases "validateJobRequest online r :: (job_view reply, spec \<times> params) result")
      case (Inl p)
      with assms(1) body validate_Inl [OF Inl] show ?thesis by (auto simp: handleCreateJob_def)
    next
      case (Inr x)
      obtain sp ps where v: "validateJobRequest online r = (Inr (sp, ps) :: (job_view reply, _) result)" using Inr by (cases x) simp
      note H = handleCreateJob_def body v Let_def
      show ?thesis
      proof (cases "call up ''GetHost'' (GetHost ?tn (jr_HostID r) (sv_store ?s0))")
        case (Inl e)
        with assms(1) show ?thesis by (auto simp: H split: if_splits)
      next
        case host: (Inr h)
        show ?thesis
        proof (cases "h_Revoked h \<or> (\<exists>e. buildJob online ch r sp (jr_HostID r) = Inl e)")
          case True
          with assms(1) host show ?thesis by (auto simp: H split: if_splits)
        next
          case False
          then obtain j where j: "\<not> h_Revoked h" "buildJob online ch r sp (jr_HostID r) = Inr j"
            by (cases "buildJob online ch r sp (jr_HostID r)") auto
          show ?thesis
          proof (cases "call up ''GetTenant'' (GetTenant ?tn (sv_store ?s1))")
            case (Inl e)
            with assms(1) host j show ?thesis by (auto simp: H simp del: One_nat_def)
          next
            case tenant: (Inr t)
            note H' = H host j tenant
            from total [of "''CreateJob''" ?tn "new_job_for who r sp (t_ApprovalMode t) j"] obtain made where
              made: "called up ''CreateJob'' (CreateJob ?tn (new_job_for who r sp (t_ApprovalMode t) j)
                (w 2 (w 1 (w 0 (sv_store s))))) = Some made" by blast
            with assms(1) tenant show ?thesis
              by (cases made) (auto simp: H host j new_job_for_def simp del: One_nat_def split: sum.splits if_splits)
          qed
        qed
      qed
    qed
  qed
qed

section \<open>Instances\<close>

definition two_person :: memory where
  "two_person = demo_enrolled\<lparr>m_tenants := put DefaultTenant
     \<lparr>t_ID = DefaultTenant, t_Slug = ''default'', t_DisplayName = ''Default'', t_CreatedAt = 1,
      t_ApprovalMode = ApprovalSecondPerson, t_WebhookURL = [], t_HostLimit = None, t_Suspended = False\<rparr> no_entries\<rparr>"

definition eve :: operator where
  "eve = \<lparr>op_Identity = \<lparr>id_Subject = ''eve'', id_Display = ''Eve'', id_Provider = ''p'', id_Tenant = DefaultTenant,
     id_Credential = CredentialSession, id_Platform = False\<rparr>, op_Tenant = DefaultTenant\<rparr>"

definition upgrade :: job_request where
  "upgrade = \<lparr>jr_ID = ''J1'', jr_HostID = ''h1'', jr_Intent = PackagesApplyAll, jr_Params = None, jr_NotBefore = 2,
     jr_NotAfter = 50, jr_Nonce = ''n1'', jr_Signature = ''sig'', jr_SignerKeyID = ''ops'', jr_SignerAlgorithm = ''ed25519''\<rparr>"


definition apply_all :: spec where
  "apply_all = the (Lookup PackagesApplyAll)"

lemma apply_all: "Lookup PackagesApplyAll = Some apply_all" "Class apply_all = ClassDestructive" "spec_Name apply_all = PackagesApplyAll"
proof -
  show l: "Lookup PackagesApplyAll = Some apply_all" by (simp add: apply_all_def Lookup_def catalogue_def mk_spec_def go_defs)
  show "spec_Name apply_all = PackagesApplyAll" by (rule spec_Name_Lookup [OF l])
  show "Class apply_all = ClassDestructive" by (simp add: apply_all_def Lookup_def catalogue_def mk_spec_def go_defs)
qed

lemma upgrade_class: "class_refusal online (upgrade\<lparr>jr_HostID := h\<rparr>) apply_all = None"
  by (simp add: class_refusal_None apply_all(2) upgrade_def ValidJobID_def jobIDPattern_def id_char_def MaxJobIDBytes_def is_digit_def)

lemma upgrade_elsewhere:
  assumes "h \<noteq> []"
  shows "validateJobRequest online (upgrade\<lparr>jr_HostID := h\<rparr>) = Inr (apply_all, ApplyParams PackagesApplyAll False)"
proof -
  have "decodeApplyAll ''null'' = Inr (ApplyParams PackagesApplyAll False)" by code_simp
  moreover have "spec_Decode apply_all = decodeApplyAll" by (rule Lookup_cases [OF apply_all(1)]) (simp_all add: go_defs)
  ultimately have "Decode PackagesApplyAll ''null'' = Inr (apply_all, ApplyParams PackagesApplyAll False)"
    by (simp add: Decode_def apply_all(1))
  then have "Decode (jr_Intent upgrade) ''null'' = Inr (apply_all, ApplyParams PackagesApplyAll False)" by (simp add: upgrade_def)
  moreover have "params_value (jr_Params upgrade) = JNull" by (simp add: upgrade_def params_value_def)
  ultimately show ?thesis using assms
    by (simp add: validateJobRequest_def json_marshal_def Lookup_Implemented [OF apply_all(1)] upgrade_class)
qed



lemma ok_tenants: "store_ok m \<Longrightarrow> hosts_ok ts (m_hosts m) \<Longrightarrow> store_ok (m\<lparr>m_tenants := ts\<rparr>)"
  by (simp add: store_ok_def)

lemma two_person_ok: "store_ok two_person"
  unfolding two_person_def
proof (rule ok_tenants)
  show ok: "store_ok demo_enrolled" by (rule reachable_ok [OF demo_reachable(1)])
  then have h: "hosts_ok (m_tenants demo_enrolled) (m_hosts demo_enrolled)" by (simp add: store_ok_def)
  have t: "tn = DefaultTenant" if "get (m_tenants demo_enrolled) tn \<noteq> None" for tn
    using that by (auto simp: demo_enrolled_def NewMemory_def get_put split: if_splits)
  show "hosts_ok (put DefaultTenant x no_entries) (m_hosts demo_enrolled)" for x
    by (rule hosts_ok_tenants [OF h], drule t, simp)
qed


lemma idle_keeps: "keeps_records (\<lambda>_ m. m)"
  unfolding keeps_records_def using run.idle by blast










theorem create_job_refusal_witness:
  "\<exists>reply s'. handleCreateJob None (\<lambda>_. True) (\<lambda>_ m. m) \<lparr>ch_now = 2, ch_id1 = None, ch_id2 = None\<rparr> None eve
      (Inr (upgrade\<lparr>jr_HostID := ''h9''\<rparr>)) (server_of two_person) = (reply, s') \<and> reply = problem 404 ''unknown_host'' \<and>
    s' = server_of two_person"
proof -
  let ?r = "upgrade\<lparr>jr_HostID := ''h9''\<rparr>"
  have v: "validateJobRequest None ?r = Inr (apply_all, ApplyParams PackagesApplyAll False)" by (rule upgrade_elsewhere) simp
  have h: "GetHost DefaultTenant ''h9'' two_person = Inl ErrNotFound"
    by (simp add: GetHost_def scoped_host_def two_person_def demo_enrolled_def)
  obtain reply s' where e: "handleCreateJob None (\<lambda>_. True) (\<lambda>_ m. m) \<lparr>ch_now = 2, ch_id1 = None, ch_id2 = None\<rparr> None eve
      (Inr ?r) (server_of two_person) = (reply, s')" by fastforce
  have "reply = problem 404 ''unknown_host''"
    using e by (simp add: handleCreateJob_def v Let_def gap_def server_of_def call_def h eve_def)
  moreover have "gap (\<lambda>_ m. m) k s = s" for k s by (simp add: gap_def)
  ultimately show ?thesis
    using create_job_refusal [OF e idle_keeps] e two_person_ok by (simp add: server_of_def)
qed

end
