(* ===== verification/Authority.thy ===== *)
theory Authority
  imports GoTime Go_Strings
begin

text \<open>
  The control plane's two keepers of secrets: the authority that signs an agent's certificate
  (\<open>internal/ca/ca.go\<close>) and the key that seals stored templates (\<open>internal/seal/seal.go\<close>). What X.509, PEM and
  the cipher do is the standard library's and a parameter.
\<close>

section \<open>Certificates\<close>

definition AgentCertLifetime :: duration where [go_defs]: "AgentCertLifetime = 7776000 * Second"

text \<open>The template of a certificate, as far as the code fills it in.\<close>

record cert_template =
  tp_SerialNumber :: nat
  tp_CommonName :: bytes
  tp_Organization :: "bytes list"
  tp_NotBefore :: instant
  tp_NotAfter :: instant
  tp_KeyUsage :: "bytes list"
  tp_ExtKeyUsage :: "bytes list"
  tp_DNSNames :: "bytes list"

record x509_cert =
  crt_Raw :: bytes
  crt_SerialNumber :: nat
  crt_CommonName :: bytes
  crt_NotBefore :: instant
  crt_NotAfter :: instant

record cert_request =
  csr_Subject :: bytes
  csr_PublicKey :: bytes

record x509_lib =
  xl_pem :: "bytes \<Rightarrow> (bytes \<times> bytes) option"          \<comment> \<open>the first block's type and bytes\<close>
  xl_ParseRequest :: "bytes \<Rightarrow> cert_request option"
  xl_CheckSignature :: "cert_request \<Rightarrow> bool"
  xl_Create :: "cert_template \<Rightarrow> bytes \<Rightarrow> bytes option"  \<comment> \<open>signed for a public key with the authority's own\<close>
  xl_Parse :: "bytes \<Rightarrow> x509_cert option"
  xl_encode :: "bytes \<Rightarrow> bytes"

datatype issue_error =
    HostIDRequired
  | NotARequest
  | RequestUnreadable
  | RequestSignature
  | NoSerial
  | SigningFailed
  | Unreparsable

definition agent_template :: "nat \<Rightarrow> instant \<Rightarrow> bytes \<Rightarrow> cert_template" where
  "agent_template serial now hostID =
     \<lparr>tp_SerialNumber = serial, tp_CommonName = hostID, tp_Organization = [''HostSeal Agents''],
      tp_NotBefore = now - 300 * Second, tp_NotAfter = now + AgentCertLifetime,
      tp_KeyUsage = [''digitalSignature'', ''keyEncipherment''], tp_ExtKeyUsage = [''clientAuth''], tp_DNSNames = []\<rparr>"

text \<open>\<open>serial\<close> is what \<open>randomSerial\<close> drew, \<open>None\<close> where it failed.\<close>

definition Issue :: "x509_lib \<Rightarrow> nat option \<Rightarrow> instant \<Rightarrow> bytes \<Rightarrow> bytes \<Rightarrow> (issue_error, bytes \<times> x509_cert) result" where
  "Issue lib serial now csrPEM hostID =
     (if hostID = [] then Inl HostIDRequired
      else case xl_pem lib csrPEM of
        None \<Rightarrow> Inl NotARequest
      | Some (kind, raw) \<Rightarrow>
          if kind \<noteq> ''CERTIFICATE REQUEST'' then Inl NotARequest
          else case xl_ParseRequest lib raw of
            None \<Rightarrow> Inl RequestUnreadable
          | Some csr \<Rightarrow>
              if \<not> xl_CheckSignature lib csr then Inl RequestSignature
              else case serial of
                None \<Rightarrow> Inl NoSerial
              | Some n \<Rightarrow>
                  (case xl_Create lib (agent_template n now hostID) (csr_PublicKey csr) of
                     None \<Rightarrow> Inl SigningFailed
                   | Some der \<Rightarrow>
                       (case xl_Parse lib der of
                          None \<Rightarrow> Inl Unreparsable
                        | Some cert \<Rightarrow> Inr (xl_encode lib der, cert))))"

text \<open>\<open>SerialNumber.Text(16)\<close>.\<close>

definition hex_digit :: "nat \<Rightarrow> char" where
  "hex_digit d = (if d < 10 then char_of (48 + d) else char_of (87 + d))"

fun hex_text :: "nat \<Rightarrow> bytes" where
  "hex_text n = (if n < 16 then [hex_digit n] else hex_text (n div 16) @ [hex_digit (n mod 16)])"

declare hex_text.simps [simp del]

section \<open>The template key\<close>

record aead =
  ae_NonceSize :: nat
  ae_Seal :: "bytes \<Rightarrow> bytes \<Rightarrow> bytes"            \<comment> \<open>nonce, plaintext\<close>
  ae_Open :: "bytes \<Rightarrow> bytes \<Rightarrow> bytes option"     \<comment> \<open>nonce, ciphertext\<close>

text \<open>\<open>Seal\<close> with the nonce it drew, and \<open>Open\<close>.\<close>

definition key_Seal :: "aead \<Rightarrow> bytes option \<Rightarrow> bytes \<Rightarrow> bytes option" where
  "key_Seal k nonce plaintext = map_option (\<lambda>n. n @ ae_Seal k n plaintext) nonce"

definition key_Open :: "aead \<Rightarrow> bytes \<Rightarrow> bytes option" where
  "key_Open k sealed =
     (if length sealed < ae_NonceSize k then None
      else ae_Open k (take (ae_NonceSize k) sealed) (drop (ae_NonceSize k) sealed))"

section \<open>Properties\<close>

lemma Issue_Inr:
  assumes "Issue lib serial now csrPEM hostID = Inr (pem, cert)"
  obtains raw csr n der where "hostID \<noteq> []" "xl_pem lib csrPEM = Some (''CERTIFICATE REQUEST'', raw)"
    "xl_ParseRequest lib raw = Some csr" "xl_CheckSignature lib csr" "serial = Some n"
    "xl_Create lib (agent_template n now hostID) (csr_PublicKey csr) = Some der" "xl_Parse lib der = Some cert"
    "pem = xl_encode lib der"
  using assms by (auto simp: Issue_def split: if_splits option.splits)

text \<open>Signing a template and reading the certificate back gives what the template says.\<close>

definition reads_back :: "x509_lib \<Rightarrow> bool" where
  "reads_back lib \<longleftrightarrow> (\<forall>t key der c. xl_Create lib t key = Some der \<longrightarrow> xl_Parse lib der = Some c \<longrightarrow>
      crt_CommonName c = tp_CommonName t \<and> crt_NotBefore c = tp_NotBefore t \<and> crt_NotAfter c = tp_NotAfter t)"

text \<open>The certificate names the host the caller authenticated, whatever subject the request carries: two
  requests for the same key are answered alike, so a host cannot ask for another host's name. The
  certificate is for clients only and lives ninety days.\<close>

theorem Issue_names_the_caller:
  assumes "Issue lib serial now csrPEM hostID = Inr (pem, cert)"
    and "reads_back lib"
  shows "crt_CommonName cert = hostID \<and> crt_NotAfter cert = now + 90 * 24 * 3600 * Second \<and> hostID \<noteq> [] \<and>
    (\<forall>csrPEM' raw csr raw' csr'.
       xl_pem lib csrPEM = Some (''CERTIFICATE REQUEST'', raw) \<and> xl_ParseRequest lib raw = Some csr \<and>
       xl_pem lib csrPEM' = Some (''CERTIFICATE REQUEST'', raw') \<and> xl_ParseRequest lib raw' = Some csr' \<and>
       xl_CheckSignature lib csr' \<and> csr_PublicKey csr' = csr_PublicKey csr \<longrightarrow>
       Issue lib serial now csrPEM' hostID = Inr (pem, cert))"
proof -
  obtain raw csr n der where i: "hostID \<noteq> []" "xl_pem lib csrPEM = Some (''CERTIFICATE REQUEST'', raw)"
    "xl_ParseRequest lib raw = Some csr" "xl_CheckSignature lib csr" "serial = Some n"
    "xl_Create lib (agent_template n now hostID) (csr_PublicKey csr) = Some der" "xl_Parse lib der = Some cert"
    "pem = xl_encode lib der"
    by (rule Issue_Inr [OF assms(1)])
  with assms(2) have "crt_CommonName cert = hostID" "crt_NotAfter cert = now + AgentCertLifetime"
    unfolding reads_back_def agent_template_def by force+
  with i show ?thesis by (auto simp: AgentCertLifetime_def Issue_def)
qed

text \<open>A sealed template opens to the body that was sealed, with a cipher that opens what it sealed.\<close>

theorem seal_roundtrip:
  assumes "\<And>nonce plaintext. length nonce = ae_NonceSize k \<Longrightarrow> ae_Open k nonce (ae_Seal k nonce plaintext) = Some plaintext"
    and "length nonce = ae_NonceSize k"
  shows "Option.bind (key_Seal k (Some nonce) body) (key_Open k) = Some body"
  using assms by (simp add: key_Seal_def key_Open_def)

section \<open>Instances\<close>

text \<open>An authority that has one certificate to give: for \<open>H1\<close>, at time 5.\<close>

definition toy_cert :: "bytes \<Rightarrow> x509_cert" where
  "toy_cert der = \<lparr>crt_Raw = der, crt_SerialNumber = 1, crt_CommonName = ''H1'', crt_NotBefore = 5 - 300 * Second,
     crt_NotAfter = 5 + AgentCertLifetime\<rparr>"

definition toy_x509 :: x509_lib where
  "toy_x509 = \<lparr>xl_pem = (\<lambda>s. Some (''CERTIFICATE REQUEST'', s)),
     xl_ParseRequest = (\<lambda>s. Some \<lparr>csr_Subject = take 2 s, csr_PublicKey = drop 2 s\<rparr>), xl_CheckSignature = (\<lambda>_. True),
     xl_Create = (\<lambda>t key. if t = agent_template 1 5 ''H1'' then Some (''der'' @ key) else None),
     xl_Parse = (\<lambda>der. Some (toy_cert der)), xl_encode = (\<lambda>s. s)\<rparr>"

lemma toy_Issue: "Issue toy_x509 (Some 1) 5 csr ''H1'' = Inr (''der'' @ drop 2 csr, toy_cert (''der'' @ drop 2 csr))"
  by (simp add: Issue_def toy_x509_def)

theorem Issue_names_the_caller_witness:
  "\<exists>cert. Issue toy_x509 (Some 1) 5 ''H2key'' ''H1'' = Inr (''derkey'', cert) \<and> crt_CommonName cert = ''H1'' \<and>
    Issue toy_x509 (Some 1) 5 ''H3key'' ''H1'' = Inr (''derkey'', cert)"
proof -
  have i: "Issue toy_x509 (Some 1) 5 ''H2key'' ''H1'' = Inr (''derkey'', toy_cert ''derkey'')"
    using toy_Issue [of "''H2key''"] by simp
  have "reads_back toy_x509" by (auto simp: reads_back_def toy_x509_def toy_cert_def agent_template_def split: if_splits)
  note I = Issue_names_the_caller [OF i this]
  from I have "crt_CommonName (toy_cert ''derkey'') = ''H1''" by blast
  moreover have "Issue toy_x509 (Some 1) 5 ''H3key'' ''H1'' = Inr (''derkey'', toy_cert ''derkey'')"
    using I by (simp add: toy_x509_def)
  ultimately show ?thesis using i by blast
qed

definition toy_aead :: aead where
  "toy_aead = \<lparr>ae_NonceSize = 2, ae_Seal = (\<lambda>n p. rev p @ n), ae_Open = (\<lambda>n c. if has_suffix c n then Some (rev (take (length c - length n) c)) else None)\<rparr>"

lemma suffix_append: "has_suffix (x @ n) n" by (simp add: has_suffix_def has_prefix_def)

theorem seal_roundtrip_witness:
  "Option.bind (key_Seal toy_aead (Some ''ab'') ''runcmd'') (key_Open toy_aead) = Some ''runcmd''"
  by (rule seal_roundtrip) (simp_all add: toy_aead_def suffix_append)

end
