(* ===== verification/Provision.thy ===== *)
theory Provision
  imports Go_Strings GoMap "HOL-Library.List_Lexorder" "HOL-Library.Char_ord"
begin

text \<open>
  \<open>internal/provision/render.go\<close>: rendering a cloud-init template by substituting values for placeholders.
  The regular expression of a placeholder is written out: two braces, spaces, a name, spaces, two braces.
  Spaces, names and braces are disjoint sets of bytes, so the leftmost match at a position is the only one.
\<close>

section \<open>Placeholders\<close>

definition MaxBodyBytes :: nat where [go_defs]: "MaxBodyBytes = 65536"
definition MaxRenderedBytes :: nat where [go_defs]: "MaxRenderedBytes = 262144"
definition TokenPlaceholder :: bytes where [go_defs]: "TokenPlaceholder = ''enrollmentToken''"

definition lower_or_digit :: "char \<Rightarrow> bool" where
  "lower_or_digit c \<longleftrightarrow> 97 \<le> bv c \<and> bv c \<le> 122 \<or> is_digit c"

definition ValidName :: "bytes \<Rightarrow> bool" where
  "ValidName name \<longleftrightarrow> (case name of [] \<Rightarrow> False
     | c # cs \<Rightarrow> lower_or_digit c \<and> length cs \<le> 63 \<and> list_all (\<lambda>d. lower_or_digit d \<or> d = CHR ''-'') cs)"

definition re_space :: "char \<Rightarrow> bool" where
  "re_space c \<longleftrightarrow> bv c = 9 \<or> bv c = 10 \<or> bv c = 12 \<or> bv c = 13 \<or> bv c = 32"

definition parameter_char :: "char \<Rightarrow> bool" where
  "parameter_char c \<longleftrightarrow> 65 \<le> bv c \<and> bv c \<le> 90 \<or> 97 \<le> bv c \<and> bv c \<le> 122 \<or> is_digit c \<or>
     c = CHR ''_'' \<or> c = CHR ''.'' \<or> c = CHR ''-''"

text \<open>The site a text starts with: its name and what follows it.\<close>

definition site_at :: "bytes \<Rightarrow> (bytes \<times> bytes) option" where
  "site_at s =
     (if take 2 s \<noteq> ''{{'' then None
      else let r = dropWhile re_space (drop 2 s);
               name = takeWhile parameter_char r;
               r' = dropWhile re_space (dropWhile parameter_char r)
           in if name \<noteq> [] \<and> take 2 r' = ''}}'' then Some (name, drop 2 r') else None)"

lemma site_at_shorter: "site_at s = Some (name, rest) \<Longrightarrow> length rest < length s"
proof -
  assume *: "site_at s = Some (name, rest)"
  then have "2 \<le> length s" by (cases s; cases "tl s") (auto simp: site_at_def split: if_splits)
  moreover have "length rest \<le> length (dropWhile re_space (dropWhile parameter_char (dropWhile re_space (drop 2 s))))"
    using * by (auto simp: site_at_def Let_def split: if_splits)
  moreover have "\<dots> \<le> length s - 2"
    by (metis length_dropWhile_le le_trans length_drop)
  ultimately show ?thesis by linarith
qed

text \<open>Where each site starts and ends, and its name, as \<open>FindAllStringSubmatchIndex\<close> reports them.\<close>

function find_sites :: "nat \<Rightarrow> bytes \<Rightarrow> (nat \<times> nat \<times> bytes) list" where
  "find_sites i [] = []"
| "find_sites i (c # cs) = (case site_at (c # cs) of
      None \<Rightarrow> find_sites (Suc i) cs
    | Some (name, rest) \<Rightarrow>
        let e = i + (length (c # cs) - length rest) in (i, e, name) # find_sites e rest)"
  by pat_completeness auto
termination
  by (relation "measure (\<lambda>(i, s). length s)") (auto dest: site_at_shorter)

definition site_names :: "bytes \<Rightarrow> bytes list" where
  "site_names body = map (\<lambda>(a, e, name). name) (find_sites 0 body)"

definition Placeholders :: "bytes \<Rightarrow> bytes list" where
  "Placeholders body = sort (remdups (site_names body))"

section \<open>Rendering\<close>

type_synonym parameters = "(bytes, bytes) gomap"

datatype render_error =
    TooManyBytes int
  | NeedsValues "bytes list"
  | NoPlaceholders "bytes list"

definition value_of :: "parameters \<Rightarrow> bytes \<Rightarrow> bytes" where
  "value_of ps name = (case get ps name of None \<Rightarrow> [] | Some v \<Rightarrow> v)"

definition rendered_size :: "parameters \<Rightarrow> bytes \<Rightarrow> int" where
  "rendered_size ps body = foldl (\<lambda>size (a, e, name). case get ps name of
      None \<Rightarrow> size
    | Some v \<Rightarrow> size + (int (length v) - (int e - int a))) (int (length body)) (find_sites 0 body)"

definition without_value :: "parameters \<Rightarrow> bytes \<Rightarrow> bytes list" where
  "without_value ps body = filter (\<lambda>name. get ps name = None) (site_names body)"

definition unused_names :: "parameters \<Rightarrow> bytes \<Rightarrow> bytes list" where
  "unused_names ps body = filter (\<lambda>name. name \<notin> set (site_names body)) (map fst (entries ps))"

fun write_sites :: "parameters \<Rightarrow> bytes \<Rightarrow> nat \<Rightarrow> (nat \<times> nat \<times> bytes) list \<Rightarrow> bytes" where
  "write_sites ps body e [] = drop e body"
| "write_sites ps body e ((a, b, name) # sites) =
     take (a - e) (drop e body) @ value_of ps name @ write_sites ps body b sites"

definition Render :: "bytes \<Rightarrow> parameters \<Rightarrow> (render_error, bytes) result" where
  "Render body ps =
     (if rendered_size ps body > int MaxRenderedBytes then Inl (TooManyBytes (rendered_size ps body))
      else if without_value ps body \<noteq> [] then Inl (NeedsValues (remdups_adj (sort (without_value ps body))))
      else if unused_names ps body \<noteq> [] then Inl (NoPlaceholders (sort (unused_names ps body)))
      else Inr (write_sites ps body 0 (find_sites 0 body)))"

section \<open>What a placeholder is\<close>

lemma disjoint_chars: "re_space c \<Longrightarrow> \<not> parameter_char c" "parameter_char c \<Longrightarrow> c \<noteq> CHR ''{'' \<and> c \<noteq> CHR ''}''"
    "re_space c \<Longrightarrow> c \<noteq> CHR ''{'' \<and> c \<noteq> CHR ''}''"
  by (auto simp: re_space_def parameter_char_def is_digit_def)

lemma dropWhile_block: "\<forall>c\<in>set ws. P c \<Longrightarrow> (\<And>c cs. s = c # cs \<Longrightarrow> \<not> P c) \<Longrightarrow> dropWhile P (ws @ s) = s"
  by (induction ws) (cases s; simp)+

lemma takeWhile_block: "\<forall>c\<in>set ws. P c \<Longrightarrow> (\<And>c cs. s = c # cs \<Longrightarrow> \<not> P c) \<Longrightarrow> takeWhile P (ws @ s) = ws"
  by (induction ws) (cases s; simp)+

definition is_site :: "bytes \<Rightarrow> bytes \<Rightarrow> bool" where
  "is_site name tx \<longleftrightarrow> name \<noteq> [] \<and> list_all parameter_char name \<and>
     (\<exists>ws ws'. tx = ''{{'' @ ws @ name @ ws' @ ''}}'' \<and> list_all re_space ws \<and> list_all re_space ws')"

lemma site_at_site:
  assumes "is_site name tx"
  shows "site_at (tx @ rest) = Some (name, rest)"
proof -
  obtain ws ws' where t: "tx = ''{{'' @ ws @ name @ ws' @ ''}}''" and n: "name \<noteq> []" "\<forall>c\<in>set name. parameter_char c"
    "\<forall>c\<in>set ws. re_space c" "\<forall>c\<in>set ws'. re_space c"
    using assms by (auto simp: is_site_def list_all_iff)
  have "dropWhile re_space (ws @ name @ ws' @ ''}}'' @ rest) = name @ ws' @ ''}}'' @ rest"
    by (rule dropWhile_block [OF n(3)]) (use n disjoint_chars in \<open>cases name; auto\<close>)
  moreover have e: "s = c # cs \<Longrightarrow> s = ws' @ ''}}'' @ rest \<Longrightarrow> \<not> parameter_char c" for s c cs
    using n(4) disjoint_chars by (cases ws') auto
  have "dropWhile parameter_char (name @ ws' @ ''}}'' @ rest) = ws' @ ''}}'' @ rest"
    by (rule dropWhile_block [OF n(2)]) (rule e [OF _ refl])
  moreover have "takeWhile parameter_char (name @ ws' @ ''}}'' @ rest) = name"
    by (rule takeWhile_block [OF n(2)]) (rule e [OF _ refl])
  moreover have "dropWhile re_space (ws' @ ''}}'' @ rest) = ''}}'' @ rest"
    by (rule dropWhile_block [OF n(4)]) (use disjoint_chars in auto)
  ultimately show ?thesis by (simp add: t site_at_def n(1))
qed

lemma site_at_Some: "site_at s = Some (name, rest) \<longleftrightarrow> (\<exists>tx. is_site name tx \<and> s = tx @ rest)"
proof
  assume *: "site_at s = Some (name, rest)"
  let ?r = "dropWhile re_space (drop 2 s)"
  let ?r' = "dropWhile re_space (dropWhile parameter_char ?r)"
  have s: "take 2 s = ''{{''" "name = takeWhile parameter_char ?r" "name \<noteq> []" "take 2 ?r' = ''}}''" "rest = drop 2 ?r'"
    using * by (auto simp: site_at_def Let_def split: if_splits)
  have "s = take 2 s @ takeWhile re_space (drop 2 s) @ ?r" by simp
  also have "?r = name @ takeWhile re_space (dropWhile parameter_char ?r) @ ?r'" unfolding s(2) by simp
  also have "?r' = ''}}'' @ rest" using s(4,5) by (metis append_take_drop_id)
  finally have "s = (''{{'' @ takeWhile re_space (drop 2 s) @ name @ takeWhile re_space (dropWhile parameter_char ?r) @ ''}}'') @ rest"
    using s(1) by simp
  moreover have "is_site name (''{{'' @ takeWhile re_space (drop 2 s) @ name @ takeWhile re_space (dropWhile parameter_char ?r) @ ''}}'')"
    unfolding is_site_def list_all_iff using s(2,3) by (auto dest: set_takeWhileD)
  ultimately show "\<exists>tx. is_site name tx \<and> s = tx @ rest" by blast
qed (auto simp: site_at_site)

lemma site_tail:
  assumes "is_site name tx"
  shows "5 \<le> length tx" "\<And>k. 2 \<le> k \<Longrightarrow> k < length tx \<Longrightarrow> tx ! k \<noteq> CHR ''{''"
proof -
  obtain ws ws' where t: "tx = ''{{'' @ ws @ name @ ws' @ ''}}''" and n: "name \<noteq> []" "\<forall>c\<in>set name. parameter_char c"
    "\<forall>c\<in>set ws. re_space c" "\<forall>c\<in>set ws'. re_space c"
    using assms by (auto simp: is_site_def list_all_iff)
  have "1 \<le> length name" using n(1) by (cases name) auto
  then show "5 \<le> length tx" by (simp add: t)
  fix k assume k: "2 \<le> k" "k < length tx"
  have e: "2 + (k - 2) = k" using k(1) by linarith
  have "2 \<le> length tx" using k by linarith
  then have "tx ! k = drop 2 tx ! (k - 2)" by (simp only: nth_drop e)
  moreover have "k - 2 < length (drop 2 tx)" using k by simp
  ultimately have "tx ! k \<in> set (drop 2 tx)" by (metis nth_mem)
  moreover have "drop 2 tx = ws @ name @ ws' @ ''}}''" by (simp add: t)
  ultimately show "tx ! k \<noteq> CHR ''{''" using n(2-4) disjoint_chars(2,3) by auto
qed

lemma site_head: "is_site name tx \<Longrightarrow> tx ! 0 = CHR ''{'' \<and> tx ! 1 = CHR ''{''"
  by (auto simp: is_site_def)

text \<open>Two sites of a text do not overlap.\<close>

lemma sites_apart:
  assumes "is_site name tx" "is_site name' tx'" "tx @ rest = pre @ tx' @ post" "pre \<noteq> []"
  shows "length tx \<le> length pre"
proof (rule ccontr)
  assume "\<not> length tx \<le> length pre"
  then have l: "length pre < length tx" by simp
  have at: "tx ! k = tx' ! (k - length pre)" if "length pre \<le> k" "k < length tx" "k - length pre < length tx'" for k
  proof -
    have "tx ! k = (pre @ tx' @ post) ! k" using that(2) assms(3) by (metis nth_append)
    also have "\<dots> = tx' ! (k - length pre)" using that by (simp add: nth_append)
    finally show ?thesis .
  qed
  have p: "1 \<le> length pre" using assms(4) by (cases pre) auto
  note t = site_tail [OF assms(1)] and t' = site_tail(1) [OF assms(2)] and h = site_head [OF assms(2)]
  show False
  proof (cases "length pre = 1")
    case True
    then have "tx ! 2 = tx' ! 1" using at [of 2] t(1) t' by simp
    then show False using t(2) [of 2] t(1) h by simp
  next
    case False
    have "0 < length tx'" using t' by linarith
    then have "tx ! length pre = tx' ! 0" using at [of "length pre"] l by simp
    then show False using t(2) [of "length pre"] l h p False by simp
  qed
qed

lemma names_are_sites:
  "name \<in> (\<lambda>(a, e, n). n) ` set (find_sites i s) \<longleftrightarrow> (\<exists>pre tx post. s = pre @ tx @ post \<and> is_site name tx)"
proof (induction i s rule: find_sites.induct)
  case (1 i)
  then show ?case by (auto dest: site_tail(1))
next
  case (2 i c cs)
  show ?case
  proof (cases "site_at (c # cs)")
    case None
    have "(\<exists>pre tx post. c # cs = pre @ tx @ post \<and> is_site name tx) \<longleftrightarrow>
        (\<exists>pre tx post. cs = pre @ tx @ post \<and> is_site name tx)" (is "?L \<longleftrightarrow> ?R")
    proof
      assume ?L
      then obtain pre tx post where *: "c # cs = pre @ tx @ post" "is_site name tx" by blast
      with None have "pre \<noteq> []" by (auto simp: site_at_site)
      with * show ?R by (cases pre) auto
    qed (metis append_Cons)
    with 2(1) [OF None] None show ?thesis by simp
  next
    case (Some x)
    obtain n rest where x: "x = (n, rest)" by fastforce
    then obtain tx where t: "is_site n tx" "c # cs = tx @ rest" using Some by (auto simp: site_at_Some)
    have "(\<exists>pre tx post. c # cs = pre @ tx @ post \<and> is_site name tx) \<longleftrightarrow>
        name = n \<or> (\<exists>pre tx post. rest = pre @ tx @ post \<and> is_site name tx)" (is "?L \<longleftrightarrow> ?R")
    proof
      assume ?L
      then obtain pre tx' post where *: "tx @ rest = pre @ tx' @ post" "is_site name tx'" using t(2) by auto
      show ?R
      proof (cases "pre = []")
        case True
        with * site_at_site [OF *(2)] site_at_site [OF t(1)] show ?R by (metis append_Nil option.inject prod.inject)
      next
        case False
        from sites_apart [OF t(1) *(2,1) False] obtain q where "pre = tx @ q" using *(1)
          by (metis append_eq_append_conv_if append_take_drop_id)
        with * show ?R by auto
      qed
    next
      assume ?R
      then show ?L
      proof
        assume "name = n"
        with t show ?L by (metis append_Nil)
      next
        assume "\<exists>pre tx post. rest = pre @ tx @ post \<and> is_site name tx"
        then obtain pre tx' post where "rest = pre @ tx' @ post" "is_site name tx'" by blast
        with t(2) have "c # cs = (tx @ pre) @ tx' @ post" by simp
        with \<open>is_site name tx'\<close> show ?L by blast
      qed
    qed
    with 2(2) [OF Some x [symmetric] refl] Some x show ?thesis by (simp add: Let_def)
  qed
qed

text \<open>The parameters a template takes are the names written between double braces, with nothing else between
  them but spaces: anything that is not an identifier is no parameter and takes no value. They are listed
  once each, in order.\<close>

theorem Placeholders_identifiers:
  "sorted (Placeholders body) \<and> distinct (Placeholders body) \<and>
   (name \<in> set (Placeholders body) \<longleftrightarrow>
     name \<noteq> [] \<and> list_all parameter_char name \<and>
     (\<exists>pre ws ws' post. body = pre @ ''{{'' @ ws @ name @ ws' @ ''}}'' @ post \<and> list_all re_space ws \<and> list_all re_space ws'))"
proof -
  let ?D = "\<exists>pre ws ws' post. body = pre @ ''{{'' @ ws @ name @ ws' @ ''}}'' @ post \<and> list_all re_space ws \<and> list_all re_space ws'"
  have "name \<in> set (Placeholders body) \<longleftrightarrow> (\<exists>pre tx post. body = pre @ tx @ post \<and> is_site name tx)"
    using names_are_sites [of name 0 body] by (simp add: Placeholders_def site_names_def)
  also have "\<dots> \<longleftrightarrow> name \<noteq> [] \<and> list_all parameter_char name \<and> ?D"
  proof
    assume "\<exists>pre tx post. body = pre @ tx @ post \<and> is_site name tx"
    then obtain pre post ws ws' where "body = pre @ (''{{'' @ ws @ name @ ws' @ ''}}'') @ post" "name \<noteq> []" "list_all parameter_char name"
      "list_all re_space ws" "list_all re_space ws'" unfolding is_site_def by blast
    moreover from this(1) have "body = pre @ ''{{'' @ ws @ name @ ws' @ ''}}'' @ post" by simp
    ultimately show "name \<noteq> [] \<and> list_all parameter_char name \<and> ?D" by blast
  next
    assume *: "name \<noteq> [] \<and> list_all parameter_char name \<and> ?D"
    then obtain pre post ws ws' where "body = pre @ ''{{'' @ ws @ name @ ws' @ ''}}'' @ post" and w: "list_all re_space ws" "list_all re_space ws'"
      by blast
    then have "body = pre @ (''{{'' @ ws @ name @ ws' @ ''}}'') @ post" by simp
    moreover have "is_site name (''{{'' @ ws @ name @ ws' @ ''}}'')" unfolding is_site_def using * w by blast
    ultimately show "\<exists>pre tx post. body = pre @ tx @ post \<and> is_site name tx" by blast
  qed
  finally show ?thesis by (simp add: Placeholders_def)
qed

section \<open>What rendering gives\<close>

text \<open>The reference: one pass over the tx, in which a value is never read again.\<close>

function substituted :: "parameters \<Rightarrow> bytes \<Rightarrow> bytes" where
  "substituted ps [] = []"
| "substituted ps (c # cs) = (case site_at (c # cs) of
      None \<Rightarrow> c # substituted ps cs
    | Some (name, rest) \<Rightarrow> value_of ps name @ substituted ps rest)"
  by pat_completeness auto
termination
  by (relation "measure (\<lambda>(ps, s). length s)") (auto dest: site_at_shorter)

lemma write_sites_reference:
  "drop i body = s \<Longrightarrow> i \<le> length body \<Longrightarrow> e \<le> i \<Longrightarrow>
   write_sites ps body e (find_sites i s) = take (i - e) (drop e body) @ substituted ps s"
proof (induction i s arbitrary: e rule: find_sites.induct)
  case (1 i)
  then show ?case by simp
next
  case (2 i c cs)
  have i: "i < length body" "drop (Suc i) body = cs" "body ! i = c" using 2(3,4)
    by (metis drop_eq_Nil linorder_not_le list.discI, metis drop_Suc list.sel(3) tl_drop, metis drop_eq_Nil hd_drop_conv_nth linorder_not_le list.discI list.sel(1))
  show ?case
  proof (cases "site_at (c # cs)")
    case None
    have "take (Suc i - e) (drop e body) = take (i - e) (drop e body) @ [c]"
      using i 2(5) by (simp add: Suc_diff_le take_Suc_conv_app_nth)
    with 2(1) [OF None i(2)] i(1) 2(5) None show ?thesis by simp
  next
    case (Some x)
    obtain n rest where x: "x = (n, rest)" by fastforce
    then obtain tx where t: "c # cs = tx @ rest" using Some by (auto simp: site_at_Some)
    let ?e = "i + (length (c # cs) - length rest)"
    have e: "?e = i + length tx" using t by simp
    have "drop ?e body = rest" using 2(3) t unfolding e by (metis add.commute append_eq_conv_conj drop_drop)
    moreover have "?e \<le> length body"
    proof -
      have "length (c # cs) = length body - i" using 2(3) by (metis length_drop)
      then show ?thesis using 2(4) t unfolding e by (metis add_le_cancel_left le_add1 le_add_diff_inverse length_append)
    qed
    ultimately have "write_sites ps body ?e (find_sites ?e rest) = substituted ps rest"
      using 2(2) [OF Some x [symmetric] refl, of ?e] by simp
    with Some x show ?thesis by (simp add: Let_def)
  qed
qed

lemma size_reference:
  assumes "\<forall>(a, e, n) \<in> set (find_sites i s). get ps n \<noteq> None"
  shows "foldl (\<lambda>size (a, e, name). case get ps name of None \<Rightarrow> size | Some v \<Rightarrow> size + (int (length v) - (int e - int a))) z
      (find_sites i s) = z + int (length (substituted ps s)) - int (length s)"
  using assms
proof (induction i s arbitrary: z rule: find_sites.induct)
  case (1 i)
  then show ?case by simp
next
  case (2 i c cs)
  show ?case
  proof (cases "site_at (c # cs)")
    case None
    with 2(1) [OF None] 2(3) show ?thesis by simp
  next
    case (Some x)
    obtain n rest where x: "x = (n, rest)" by fastforce
    then obtain tx where t: "c # cs = tx @ rest" using Some by (auto simp: site_at_Some)
    then have l: "length (c # cs) = length tx + length rest" by simp
    from 2(3) Some x obtain v where v: "get ps n = Some v" by (auto simp: Let_def)
    from 2(3) Some x have r: "\<forall>(a, e, n) \<in> set (find_sites (i + length tx) rest). get ps n \<noteq> None"
      using l by (simp add: Let_def)
    have e: "i + (length (c # cs) - length rest) = i + length tx" using l by simp
    have "find_sites i (c # cs) = (i, i + length tx, n) # find_sites (i + length tx) rest"
      using Some x l by (simp add: Let_def)
    moreover have "substituted ps (c # cs) = v @ substituted ps rest" using Some x v by (simp add: value_of_def)
    ultimately show ?thesis
      using 2(2) [OF Some x [symmetric] refl, unfolded e, OF r] v l by simp
  qed
qed

text \<open>Property C40: rendering succeeds exactly when the parameters given are the ones the template names, none missing and
  none left over, and the result fits the limit. It is then the template with each site replaced by its
  value, in one pass, so that nothing in a value is substituted again.\<close>

theorem Render_strict:
  "Render body ps = Inr out \<longleftrightarrow>
     out = substituted ps body \<and> set (Placeholders body) = {name. get ps name \<noteq> None} \<and> length out \<le> MaxRenderedBytes"
proof (cases "without_value ps body = []")
  case True
  then have all: "\<forall>(a, e, n) \<in> set (find_sites 0 body). get ps n \<noteq> None"
    by (auto simp: without_value_def site_names_def filter_empty_conv)
  have size: "rendered_size ps body = int (length (substituted ps body))"
    using size_reference [OF all] by (simp add: rendered_size_def)
  have out: "write_sites ps body 0 (find_sites 0 body) = substituted ps body" by (simp add: write_sites_reference)
  have sub: "set (site_names body) \<subseteq> {name. get ps name \<noteq> None}" using True by (auto simp: without_value_def filter_empty_conv)
  have "unused_names ps body = [] \<longleftrightarrow> {name. get ps name \<noteq> None} \<subseteq> set (site_names body)"
    by (force simp: unused_names_def filter_empty_conv get_iff)
  with sub have "unused_names ps body = [] \<longleftrightarrow> set (Placeholders body) = {name. get ps name \<noteq> None}"
    by (auto simp: Placeholders_def)
  with True size out show ?thesis by (auto simp: Render_def)
next
  case False
  then have "set (Placeholders body) \<noteq> {name. get ps name \<noteq> None}"
    by (auto simp: without_value_def Placeholders_def filter_empty_conv)
  with False show ?thesis by (auto simp: Render_def)
qed

end
