(* ===== verification/EnrollAPI.thy ===== *)
theory EnrollAPI
  imports Handling Authority Provision
begin

text \<open>
  Enrolment as the control plane answers it (\<open>handleEnroll\<close>, \<open>resolveBootstrap\<close> and \<open>bootstrapSurvivedRedemption\<close> of
  \<open>internal/server/agentapi.go\<close>): a token and a certificate request for a host identity, with the one bootstrap
  template the token names. \<open>clock k\<close> is the \<open>k\<close>-th reading of the clock.
\<close>

section \<open>Requests and responses\<close>

record config =
  cf_HeartbeatSeconds :: int
  cf_x509 :: x509_lib
  cf_CABundle :: bytes
  cf_OnlineKey :: "bytes option option"      \<comment> \<open>the key, if there is one, and what \<open>PublicLine\<close> gives of it\<close>
  cf_TemplateKey :: aead
  cf_sha256_hex :: "bytes \<Rightarrow> bytes"

record enroll_request =
  en_Token :: bytes
  en_CSR :: bytes
  en_Hostname :: bytes
  en_MachineIDHash :: bytes
  en_AgentVersion :: bytes
  en_RequestedBootstrap :: bytes

record enroll_reply =
  ep_OnlineKey :: bytes
  ep_HostID :: bytes
  ep_Certificate :: bytes
  ep_CABundle :: bytes
  ep_ServerTime :: instant
  ep_NextHeartbeatSeconds :: int
  ep_Bootstrap :: "bootstrap option"

abbreviation token_hash :: "config \<Rightarrow> enroll_request \<Rightarrow> bytes" where
  "token_hash cf r \<equiv> HashToken (cf_sha256_hex cf) (en_Token r)"

definition onlineKeyLine :: "config \<Rightarrow> bytes" where
  "onlineKeyLine cf = (case cf_OnlineKey cf of None \<Rightarrow> [] | Some k \<Rightarrow> (case k of None \<Rightarrow> [] | Some line \<Rightarrow> line))"

text \<open>The row of an issued certificate, and of a host that has just enrolled.\<close>

definition certificate_for :: "config \<Rightarrow> x509_cert \<Rightarrow> bytes \<Rightarrow> tenant_id \<Rightarrow> instant \<Rightarrow> certificate" where
  "certificate_for cf cert hostID tn now =
     \<lparr>c_Fingerprint = Fingerprint (cf_sha256_hex cf) (crt_Raw cert), c_HostID = hostID, c_TenantID = tn,
      c_Serial = hex_text (crt_SerialNumber cert), c_IssuedAt = now, c_NotAfter = crt_NotAfter cert, c_Revoked = False,
      c_RevokedAt = 0, c_SupersededAt = 0\<rparr>"

definition new_host :: "enroll_request \<Rightarrow> bytes \<Rightarrow> bytes \<Rightarrow> instant \<Rightarrow> host" where
  "new_host r hostID grp now =
     \<lparr>h_ID = hostID, h_Hostname = en_Hostname r, h_MachineIDHash = en_MachineIDHash r, h_Group = grp,
      h_AgentVersion = en_AgentVersion r, h_EnrolledAt = now, h_LastSeen = 0, h_BootID = [], h_UptimeSeconds = 0,
      h_ClockOffsetSeconds = 0, h_Paused = False, h_FactsDigest = [], h_PolicyDigest = [], h_SignersDigest = [],
      h_Facts = [], h_Policy = [], h_Signers = [], h_Revoked = False\<rparr>"

section \<open>The bootstrap template\<close>

definition bootstrapDoesNotMintItsOwnToken :: "bytes \<Rightarrow> bool" where
  "bootstrapDoesNotMintItsOwnToken body \<longleftrightarrow> TokenPlaceholder \<notin> set (Placeholders body)"

definition or_internal :: "store_error \<Rightarrow> 'r reply \<Rightarrow> call_error \<Rightarrow> 'r reply" where
  "or_internal e r = (\<lambda>x. if x = Refusal e then r else internal)"

definition resolveBootstrap ::
  "config \<Rightarrow> reach \<Rightarrow> (nat \<Rightarrow> memory \<Rightarrow> memory) \<Rightarrow> instant \<Rightarrow> tenant_id \<Rightarrow> bytes \<Rightarrow> bytes \<Rightarrow> ('r, bootstrap option) step" where
  "resolveBootstrap cf up w now tn tokenHash requested =
     (if requested = [] then going None
      else andThen (asks up w 4 ''GetEnrollmentToken'' (GetEnrollmentToken tn now tokenHash) (\<lambda>_. problem 401 ''token_unusable''))
        (\<lambda>token. if et_Bootstrap token \<noteq> requested then denied (problem 403 ''bootstrap_not_authorised'')
        else andThen (asks up w 5 ''GetTemplateVersion'' (GetTemplateVersion tn requested 0)
            (or_internal ErrNotFound (problem 409 ''no_such_template'')))
        (\<lambda>tv. andThen (asks up w 6 ''GetTemplateArchival'' (\<lambda>m. Inr (GetTemplateArchival tn requested m)) (\<lambda>_. internal))
        (\<lambda>archival. if Archived archival then denied (problem 409 ''archived_template'')
        else if \<not> template_Signed tv then denied (problem 409 ''unsigned_template'')
        else case key_Open (cf_TemplateKey cf) (tv_BodySealed tv) of
            None \<Rightarrow> denied (problem 500 ''sealed'')
          | Some body \<Rightarrow>
              if \<not> bootstrapDoesNotMintItsOwnToken body then denied (problem 409 ''unrendered_template'')
              else going (Some \<lparr>bs_Name = tv_Name tv, bs_Version = tv_Version tv, bs_Body = body,
                bs_Signature = tv_Signature tv, bs_SignerKeyID = tv_SignerKeyID tv\<rparr>)))))"

definition bootstrapSurvivedRedemption :: "reach \<Rightarrow> (nat \<Rightarrow> memory \<Rightarrow> memory) \<Rightarrow> tenant_id \<Rightarrow> bytes \<Rightarrow> ('r, unit) step" where
  "bootstrapSurvivedRedemption up w tn name =
     andThen (asks up w 8 ''GetTemplateArchival'' (\<lambda>m. Inr (GetTemplateArchival tn name m)) (\<lambda>_. internal))
       (\<lambda>archival. if Archived archival then denied (problem 409 ''archived_template'') else going ())"

section \<open>Enrolling\<close>

text \<open>The machine must not be enrolled already.\<close>

definition machine_is_new :: "reach \<Rightarrow> (nat \<Rightarrow> memory \<Rightarrow> memory) \<Rightarrow> tenant_id \<Rightarrow> bytes \<Rightarrow> ('r, unit) step" where
  "machine_is_new up w tn machine =
     (if machine = [] then going ()
      else (\<lambda>s. case call up ''GetHostByMachineID'' (GetHostByMachineID tn machine (sv_store (gap w 1 s))) of
          Inr _ \<Rightarrow> (Inl (problem 409 ''already_enrolled''), gap w 1 s)
        | Inl e \<Rightarrow> if e \<noteq> Refusal ErrNotFound then (Inl internal, gap w 1 s) else (Inr (), gap w 1 s)))"

definition fleet_has_room :: "reach \<Rightarrow> (nat \<Rightarrow> memory \<Rightarrow> memory) \<Rightarrow> tenant_id \<Rightarrow> tenant \<Rightarrow> ('r, unit) step" where
  "fleet_has_room up w tn t =
     (if t_Suspended t then denied (problem 403 ''tenant_suspended'')
      else case t_HostLimit t of
        None \<Rightarrow> going ()
      | Some limit \<Rightarrow>
          andThen (asks up w 3 ''CountHosts'' (\<lambda>m. Inr (CountHosts tn m)) (\<lambda>_. internal))
            (\<lambda>counts. if int (Active counts) \<ge> limit then denied (problem 403 ''host_limit_reached'') else going ()))"

definition not_recorded :: "call_error \<Rightarrow> 'r reply" where
  "not_recorded e =
     (if e = Refusal ErrConflict then problem 409 ''already_enrolled''
      else if e = Refusal ErrHostLimitReached then problem 403 ''host_limit_reached'' else internal)"

definition enrolled_event :: "enroll_request \<Rightarrow> bytes \<Rightarrow> bytes \<Rightarrow> instant \<Rightarrow> notification" where
  "enrolled_event r hostID grp now =
     \<lparr>ne_Kind = KindHostEnrolled, ne_TenantID = [], ne_HostID = hostID, ne_Hostname = en_Hostname r,
      ne_Summary = en_Hostname r @ '' enrolled into group '' @ grp, ne_At = now, ne_Detail = []\<rparr>"

text \<open>What is decided before the token is redeemed: the tenant and the template.\<close>

definition before_redemption ::
  "config \<Rightarrow> reach \<Rightarrow> (nat \<Rightarrow> memory \<Rightarrow> memory) \<Rightarrow> (nat \<Rightarrow> instant) \<Rightarrow> enroll_request \<Rightarrow> ('r, tenant_id \<times> bootstrap option) step" where
  "before_redemption cf up w clock r =
     andThen (asks up w 0 ''TenantForEnrollmentToken'' (TenantForEnrollmentToken (clock 1) (token_hash cf r))
        (or_internal ErrTokenUnusable (problem 401 ''token_unusable'')))
     (\<lambda>tn. andThen (machine_is_new up w tn (en_MachineIDHash r))
     (\<lambda>_. andThen (asks up w 2 ''GetTenant'' (GetTenant tn) (\<lambda>_. internal))
     (\<lambda>t. andThen (fleet_has_room up w tn t)
     (\<lambda>_. andThen (resolveBootstrap cf up w (clock 2) tn (token_hash cf r) (en_RequestedBootstrap r))
     (\<lambda>b. going (tn, b))))))"

definition redeem_and_record ::
  "config \<Rightarrow> reach \<Rightarrow> (nat \<Rightarrow> memory \<Rightarrow> memory) \<Rightarrow> instant \<Rightarrow> bytes option \<Rightarrow> enroll_request \<Rightarrow> tenant_id \<Rightarrow> bootstrap option \<Rightarrow>
   bytes \<Rightarrow> bytes \<Rightarrow> x509_cert \<Rightarrow> (enroll_reply, enroll_reply reply) step" where
  "redeem_and_record cf up w now event_id r tn b hostID pem cert =
     andThen (changes up w 7 ''ConsumeEnrollmentToken'' (ConsumeEnrollmentToken tn (token_hash cf r) hostID now)
        (or_internal ErrTokenUnusable (problem 401 ''token_unusable'')))
     (\<lambda>token. andThen (case b of None \<Rightarrow> going () | Some bs \<Rightarrow> bootstrapSurvivedRedemption up w tn (bs_Name bs))
     (\<lambda>_. andThen (changes up w 9 ''CreateEnrolledHost''
         (\<lambda>m. only (CreateEnrolledHost tn (new_host r hostID (et_Group token) now) (certificate_for cf cert hostID tn now) m))
         not_recorded)
     (\<lambda>_. andThen (emits tn now event_id (enrolled_event r hostID (et_Group token) now))
     (\<lambda>_. going (Replied 200 \<lparr>ep_OnlineKey = onlineKeyLine cf, ep_HostID = hostID, ep_Certificate = pem,
            ep_CABundle = cf_CABundle cf, ep_ServerTime = now, ep_NextHeartbeatSeconds = cf_HeartbeatSeconds cf,
            ep_Bootstrap = b\<rparr>)))))"

definition issue_and_redeem ::
  "config \<Rightarrow> reach \<Rightarrow> (nat \<Rightarrow> memory \<Rightarrow> memory) \<Rightarrow> (nat \<Rightarrow> instant) \<Rightarrow> bytes option \<Rightarrow> nat option \<Rightarrow> bytes option \<Rightarrow> enroll_request \<Rightarrow>
   tenant_id \<Rightarrow> bootstrap option \<Rightarrow> (enroll_reply, enroll_reply reply) step" where
  "issue_and_redeem cf up w clock new_id serial event_id r tn b = (case new_id of
      None \<Rightarrow> denied internal
    | Some hostID \<Rightarrow>
        (case Issue (cf_x509 cf) serial (clock 3) (en_CSR r) hostID of
           Inl _ \<Rightarrow> denied (problem 400 ''bad_csr'')
         | Inr (pem, cert) \<Rightarrow> redeem_and_record cf up w (clock 4) event_id r tn b hostID pem cert))"

definition enroll ::
  "config \<Rightarrow> reach \<Rightarrow> (nat \<Rightarrow> memory \<Rightarrow> memory) \<Rightarrow> (nat \<Rightarrow> instant) \<Rightarrow> bytes option \<Rightarrow> nat option \<Rightarrow> bytes option \<Rightarrow>
   (decode_failure, enroll_request) result \<Rightarrow> (enroll_reply, enroll_reply reply) step" where
  "enroll cf up w clock new_id serial event_id body = (case body of
      Inl _ \<Rightarrow> denied (problem 400 ''malformed'')
    | Inr r \<Rightarrow>
        if en_Token r = [] \<or> en_CSR r = [] then denied (problem 400 ''malformed'')
        else andThen (before_redemption cf up w clock r)
          (\<lambda>(tn, b). issue_and_redeem cf up w clock new_id serial event_id r tn b))"

definition handleEnroll ::
  "config \<Rightarrow> (rat \<Rightarrow> rat) \<Rightarrow> reach \<Rightarrow> (nat \<Rightarrow> memory \<Rightarrow> memory) \<Rightarrow> (nat \<Rightarrow> instant) \<Rightarrow> bytes option \<Rightarrow> nat option \<Rightarrow> bytes option \<Rightarrow>
   http_request \<Rightarrow> (decode_failure, enroll_request) result \<Rightarrow> rate_limiter \<Rightarrow> server \<Rightarrow> (enroll_reply reply \<times> server) \<times> rate_limiter" where
  "handleEnroll cf fl up w clock new_id serial event_id q body l s = (case allow fl (RequestSource q) (clock 0) l of
      (ok, l') \<Rightarrow>
        if \<not> ok then ((rate_limited l', s), l')
        else (answer (enroll cf up w clock new_id serial event_id body) s, l'))"

section \<open>What an enrolment does\<close>

abbreviation nobody_else :: "nat \<Rightarrow> memory \<Rightarrow> memory" where
  "nobody_else \<equiv> \<lambda>_ m. m"

lemma machine_is_new_Inr: "machine_is_new up w tn machine s = (Inr x, s') \<longleftrightarrow>
    s' = (if machine = [] then s else gap w 1 s) \<and>
    (machine \<noteq> [] \<longrightarrow> call up ''GetHostByMachineID'' (GetHostByMachineID tn machine (w 1 (sv_store s))) = Inl (Refusal ErrNotFound))"
  by (auto simp: machine_is_new_def going_run split: sum.splits if_splits)

lemma fleet_has_room_Inr: "fleet_has_room up w tn t s = (Inr x, s') \<longleftrightarrow>
    \<not> t_Suspended t \<and> (case t_HostLimit t of None \<Rightarrow> s' = s
      | Some limit \<Rightarrow> up ''CountHosts'' \<and> int (Active (CountHosts tn (w 3 (sv_store s)))) < limit \<and> s' = gap w 3 s)"
  by (auto simp: fleet_has_room_def step_simps denied_run split: option.splits)

definition template_given :: "config \<Rightarrow> tenant_id \<Rightarrow> bytes \<Rightarrow> memory \<Rightarrow> bootstrap \<Rightarrow> bool" where
  "template_given cf tn name m b \<longleftrightarrow>
     (\<exists>tv. GetTemplateVersion tn name 0 m = Inr tv \<and> template_Signed tv \<and> \<not> Archived (GetTemplateArchival tn name m) \<and>
        key_Open (cf_TemplateKey cf) (tv_BodySealed tv) = Some (bs_Body b) \<and> TokenPlaceholder \<notin> set (Placeholders (bs_Body b)) \<and>
        bs_Name b = tv_Name tv \<and> bs_Version b = tv_Version tv \<and> bs_Signature b = tv_Signature tv \<and>
        bs_SignerKeyID b = tv_SignerKeyID tv)"

lemma resolveBootstrap_alone:
  "resolveBootstrap cf up nobody_else now tn h requested s = (Inr b, s') \<Longrightarrow>
   s' = s \<and> (case b of None \<Rightarrow> requested = []
     | Some bs \<Rightarrow> requested \<noteq> [] \<and> (\<exists>token. GetEnrollmentToken tn now h (sv_store s) = Inr token \<and> et_Bootstrap token = requested) \<and>
        template_given cf tn requested (sv_store s) bs)"
  by (auto simp: resolveBootstrap_def step_simps denied_run bootstrapDoesNotMintItsOwnToken_def template_given_def
      split: if_splits option.splits)

lemma GetEnrollmentToken_Inr: "GetEnrollmentToken tn now h m = Inr token \<longleftrightarrow>
    get (m_tokens m) h = Some (token, tn) \<and> token_Usable token now"
  by (auto simp: GetEnrollmentToken_def split: option.splits if_splits)

lemma ConsumeEnrollmentToken_Inr: "ConsumeEnrollmentToken tn h hostID now m = Inr (token', m') \<longleftrightarrow>
    (\<exists>token. get (m_tokens m) h = Some (token, tn) \<and> token_Usable token now \<and>
       token' = token\<lparr>et_ConsumedAt := now, et_ConsumedByHost := hostID\<rparr> \<and> m' = m\<lparr>m_tokens := put h (token', tn) (m_tokens m)\<rparr>)"
  by (auto simp: ConsumeEnrollmentToken_def Let_def split: option.splits if_splits)

lemma before_redemption_alone:
  assumes "before_redemption cf up nobody_else clock r s = (Inr (tn, b) :: ('r reply, tenant_id \<times> bootstrap option) result, s')"
  shows "s' = s \<and> (\<exists>token t. get (m_tokens (sv_store s)) (token_hash cf r) = Some (token, tn) \<and>
      get (m_tenants (sv_store s)) tn = Some t \<and> \<not> t_Suspended t \<and>
      (\<forall>limit. t_HostLimit t = Some limit \<longrightarrow> int (active_hosts tn (sv_store s)) < limit) \<and>
      (en_MachineIDHash r = [] \<or> GetHostByMachineID tn (en_MachineIDHash r) (sv_store s) = Inl ErrNotFound) \<and>
      (case b of None \<Rightarrow> en_RequestedBootstrap r = []
       | Some bs \<Rightarrow> en_RequestedBootstrap r \<noteq> [] \<and> et_Bootstrap token = en_RequestedBootstrap r \<and>
          template_given cf tn (en_RequestedBootstrap r) (sv_store s) bs))"
proof -
  from assms obtain t where f: "TenantForEnrollmentToken (clock 1) (token_hash cf r) (sv_store s) = Inr tn"
      "en_MachineIDHash r = [] \<or> call up ''GetHostByMachineID'' (GetHostByMachineID tn (en_MachineIDHash r) (sv_store s)) = Inl (Refusal ErrNotFound)"
      "GetTenant tn (sv_store s) = Inr t" "\<not> t_Suspended t"
      "\<forall>limit. t_HostLimit t = Some limit \<longrightarrow> int (Active (CountHosts tn (sv_store s))) < limit"
    and b: "resolveBootstrap cf up nobody_else (clock 2) tn (token_hash cf r) (en_RequestedBootstrap r) s =
        (Inr b :: ('r reply, bootstrap option) result, s')"
    by (auto simp: before_redemption_def step_simps machine_is_new_Inr fleet_has_room_Inr split: option.splits if_splits)
  from f(1) obtain token where token: "get (m_tokens (sv_store s)) (token_hash cf r) = Some (token, tn)"
    by (auto simp: TenantForEnrollmentToken_def split: option.splits if_splits)
  from f(2) have "en_MachineIDHash r = [] \<or> GetHostByMachineID tn (en_MachineIDHash r) (sv_store s) = Inl ErrNotFound"
    by (auto simp: call_def split: sum.splits if_splits)
  moreover have "Active (CountHosts tn (sv_store s)) = active_hosts tn (sv_store s)"
    by (simp add: CountHosts_def active_hosts_def)
  moreover have "get (m_tenants (sv_store s)) tn = Some t" using f(3) by (auto simp: GetTenant_def split: option.splits)
  moreover note R = resolveBootstrap_alone [OF b]
  ultimately show ?thesis using f token
    by (intro conjI exI [of _ token] exI [of _ t]) (auto simp: GetEnrollmentToken_Inr split: option.splits)
qed

definition redeemed :: "enrollment_token \<Rightarrow> bytes \<Rightarrow> instant \<Rightarrow> enrollment_token" where
  "redeemed token hostID now = token\<lparr>et_ConsumedAt := now, et_ConsumedByHost := hostID\<rparr>"

text \<open>The store after an enrolment, before its announcement.\<close>

definition enrolled_store ::
  "config \<Rightarrow> enroll_request \<Rightarrow> tenant_id \<Rightarrow> enrollment_token \<Rightarrow> bytes \<Rightarrow> x509_cert \<Rightarrow> instant \<Rightarrow> memory \<Rightarrow> memory" where
  "enrolled_store cf r tn token hostID cert now m =
     m\<lparr>m_tokens := put (token_hash cf r) (redeemed token hostID now, tn) (m_tokens m),
       m_hosts := put hostID (new_host r hostID (et_Group token) now, tn) (m_hosts m),
       m_certs := put (cf_sha256_hex cf (crt_Raw cert)) (certificate_for cf cert hostID tn now) (m_certs m)\<rparr>"

lemma stamp_certificate_for: "stampCertificate tn (certificate_for cf cert h tn now) = Inr (certificate_for cf cert h tn now)"
  by (simp add: stampCertificate_def certificate_for_def)

lemma CreateEnrolledHost_new:
  "CreateEnrolledHost tn (new_host r h grp now) (certificate_for cf cert h tn now) m = Inr m' \<longleftrightarrow>
   (\<exists>t. get (m_tenants m) tn = Some t \<and> (\<forall>limit. t_HostLimit t = Some limit \<longrightarrow> int (active_hosts tn m) < limit)) \<and>
   get (m_hosts m) h = None \<and> get (m_certs m) (cf_sha256_hex cf (crt_Raw cert)) = None \<and>
   (en_MachineIDHash r = [] \<or> \<not> any_entry (\<lambda>_ row. snd row = tn \<and> \<not> h_Revoked (fst row) \<and>
       h_MachineIDHash (fst row) = en_MachineIDHash r) (m_hosts m)) \<and>
   m' = m\<lparr>m_hosts := put h (new_host r h grp now, tn) (m_hosts m),
          m_certs := put (cf_sha256_hex cf (crt_Raw cert)) (certificate_for cf cert h tn now) (m_certs m)\<rparr>"
proof -
  have f: "c_HostID (certificate_for cf cert h tn now) = h" "h_ID (new_host r h grp now) = h"
    "c_Fingerprint (certificate_for cf cert h tn now) = cf_sha256_hex cf (crt_Raw cert)"
    "h_MachineIDHash (new_host r h grp now) = en_MachineIDHash r"
    by (simp_all add: certificate_for_def new_host_def Fingerprint_def)
  show ?thesis
    by (cases "get (m_hosts m) h"; cases "get (m_tenants m) tn")
      (auto simp: CreateEnrolledHost_def stamp_certificate_for f split: option.splits)
qed

lemma redeem_and_record_alone:
  assumes "redeem_and_record cf up nobody_else now event_id r tn b hostID pem cert s = (Inr reply, s')"
  shows "\<exists>token. get (m_tokens (sv_store s)) (token_hash cf r) = Some (token, tn) \<and> token_Usable token now \<and>
    get (m_hosts (sv_store s)) hostID = None \<and>
    s' = emit tn now event_id (enrolled_event r hostID (et_Group token) now)
      (s\<lparr>sv_store := enrolled_store cf r tn token hostID cert now (sv_store s)\<rparr>) \<and>
    reply = Replied 200 \<lparr>ep_OnlineKey = onlineKeyLine cf, ep_HostID = hostID, ep_Certificate = pem,
      ep_CABundle = cf_CABundle cf, ep_ServerTime = now, ep_NextHeartbeatSeconds = cf_HeartbeatSeconds cf, ep_Bootstrap = b\<rparr>"
  using assms
  by (auto simp: redeem_and_record_def step_simps ConsumeEnrollmentToken_Inr CreateEnrolledHost_new bootstrapSurvivedRedemption_def
      enrolled_store_def redeemed_def split: option.splits)

lemma denies: "\<exists>c' e' hs. or_internal e (Denied c code []) x = Denied c' e' hs" "\<exists>c' e' hs. not_recorded x = Denied c' e' hs"
  by (simp_all add: or_internal_def not_recorded_def)

lemma refuses_machine: "refuses (machine_is_new up w tn machine)"
  by (auto simp: refuses_def machine_is_new_def going_run split: sum.splits if_splits)

lemma refuses_resolve: "refuses (resolveBootstrap cf up w now tn h requested)"
  unfolding resolveBootstrap_def by (intro refuse_intros denies) simp_all

lemma refuses_before: "refuses (before_redemption cf up w clock r)"
  unfolding before_redemption_def fleet_has_room_def
  by (intro refuse_intros denies refuses_machine refuses_resolve) simp_all

lemma refuses_issue: "refuses (issue_and_redeem cf up w clock new_id serial event_id r tn b)"
  unfolding issue_and_redeem_def redeem_and_record_def bootstrapSurvivedRedemption_def
  by (intro refuse_intros denies) simp_all

lemmas not_Replied = refusesD [OF refuses_before] refusesD [OF refuses_issue]

lemma enrolment_done:
  assumes "answer (enroll cf up nobody_else clock new_id serial event_id (Inr r)) s = (Replied code v, s')"
  shows "\<exists>tn token t cert. code = 200 \<and> new_id = Some (ep_HostID v) \<and>
    Issue (cf_x509 cf) serial (clock 3) (en_CSR r) (ep_HostID v) = Inr (ep_Certificate v, cert) \<and>
    get (m_tokens (sv_store s)) (token_hash cf r) = Some (token, tn) \<and> token_Usable token (clock 4) \<and>
    get (m_tenants (sv_store s)) tn = Some t \<and> \<not> t_Suspended t \<and>
    (\<forall>limit. t_HostLimit t = Some limit \<longrightarrow> int (active_hosts tn (sv_store s)) < limit) \<and>
    s' = emit tn (clock 4) event_id (enrolled_event r (ep_HostID v) (et_Group token) (clock 4))
      (s\<lparr>sv_store := enrolled_store cf r tn token (ep_HostID v) cert (clock 4) (sv_store s)\<rparr>) \<and>
    get (m_hosts (sv_store s)) (ep_HostID v) = None \<and>
    (case ep_Bootstrap v of None \<Rightarrow> en_RequestedBootstrap r = []
     | Some b \<Rightarrow> en_RequestedBootstrap r = et_Bootstrap token \<and> et_Bootstrap token \<noteq> [] \<and>
         template_given cf tn (et_Bootstrap token) (sv_store s) b)"
proof -
  from assms have "\<exists>tn b s1. before_redemption cf up nobody_else clock r s = (Inr (tn, b) :: (enroll_reply reply, _) result, s1) \<and>
      (issue_and_redeem cf up nobody_else clock new_id serial event_id r tn b s1 = (Inl (Replied code v), s') \<or>
       issue_and_redeem cf up nobody_else clock new_id serial event_id r tn b s1 = (Inr (Replied code v), s'))"
    by (auto simp: enroll_def answer_run andThen_Inl andThen_Inr denied_run dest: not_Replied split: if_splits)
  then obtain tn b s1 where b: "before_redemption cf up nobody_else clock r s = (Inr (tn, b) :: (enroll_reply reply, _) result, s1)" and
    c: "issue_and_redeem cf up nobody_else clock new_id serial event_id r tn b s1 = (Inl (Replied code v), s') \<or>
      issue_and_redeem cf up nobody_else clock new_id serial event_id r tn b s1 = (Inr (Replied code v), s')"
    by blast
  note B = before_redemption_alone [OF b]
  from c have "issue_and_redeem cf up nobody_else clock new_id serial event_id r tn b s = (Inr (Replied code v), s')"
    using B not_Replied(2) by blast
  then obtain hostID pem cert where i: "new_id = Some hostID"
    "Issue (cf_x509 cf) serial (clock 3) (en_CSR r) hostID = Inr (pem, cert)"
    and d: "redeem_and_record cf up nobody_else (clock 4) event_id r tn b hostID pem cert s = (Inr (Replied code v), s')"
    by (auto simp: issue_and_redeem_def denied_run split: option.splits sum.splits)
  from redeem_and_record_alone [OF d] obtain token where
    t: "get (m_tokens (sv_store s)) (token_hash cf r) = Some (token, tn)" "token_Usable token (clock 4)"
      "get (m_hosts (sv_store s)) hostID = None"
      "s' = emit tn (clock 4) event_id (enrolled_event r hostID (et_Group token) (clock 4))
        (s\<lparr>sv_store := enrolled_store cf r tn token hostID cert (clock 4) (sv_store s)\<rparr>)" and
    v: "code = 200" "ep_HostID v = hostID" "ep_Certificate v = pem" "ep_Bootstrap v = b"
    by auto
  from B t(1) obtain t where B': "get (m_tenants (sv_store s)) tn = Some t" "\<not> t_Suspended t"
      "\<forall>limit. t_HostLimit t = Some limit \<longrightarrow> int (active_hosts tn (sv_store s)) < limit"
      "case b of None \<Rightarrow> en_RequestedBootstrap r = []
       | Some bs \<Rightarrow> en_RequestedBootstrap r \<noteq> [] \<and> et_Bootstrap token = en_RequestedBootstrap r \<and>
          template_given cf tn (en_RequestedBootstrap r) (sv_store s) bs" by auto
  from B'(4) have "case ep_Bootstrap v of None \<Rightarrow> en_RequestedBootstrap r = []
     | Some b \<Rightarrow> en_RequestedBootstrap r = et_Bootstrap token \<and> et_Bootstrap token \<noteq> [] \<and>
         template_given cf tn (et_Bootstrap token) (sv_store s) b" unfolding v(4) by (auto split: option.splits)
  with i t v B'(1-3) show ?thesis by (intro exI [of _ tn] exI [of _ token] exI [of _ t] exI [of _ cert]) simp
qed

text \<open>Property C12: an enrolment that succeeds, with nobody else at the store, redeems the token it was given for the host it
  makes, and makes that host in the token's tenant and group with the one certificate it answers with; the
  tenant was not suspended and had room. A template it hands out is the one the token names, the newest
  version the store has, in use and signed, byte for byte; and where one was asked for, one is handed out.\<close>

theorem enrolment_effect:
  assumes "answer (enroll cf up nobody_else clock new_id serial event_id (Inr r)) s = (Replied code v, s')"
  shows "\<exists>tn token t cert. code = 200 \<and> new_id = Some (ep_HostID v) \<and>
    Issue (cf_x509 cf) serial (clock 3) (en_CSR r) (ep_HostID v) = Inr (ep_Certificate v, cert) \<and>
    get (m_tokens (sv_store s)) (token_hash cf r) = Some (token, tn) \<and> token_Usable token (clock 4) \<and>
    get (m_tenants (sv_store s)) tn = Some t \<and> \<not> t_Suspended t \<and>
    (\<forall>limit. t_HostLimit t = Some limit \<longrightarrow> int (active_hosts tn (sv_store s)) < limit) \<and>
    s' = emit tn (clock 4) event_id (enrolled_event r (ep_HostID v) (et_Group token) (clock 4))
      (s\<lparr>sv_store := enrolled_store cf r tn token (ep_HostID v) cert (clock 4) (sv_store s)\<rparr>) \<and>
    get (m_hosts (sv_store s)) (ep_HostID v) = None \<and>
    (case ep_Bootstrap v of None \<Rightarrow> en_RequestedBootstrap r = []
     | Some b \<Rightarrow> en_RequestedBootstrap r = et_Bootstrap token \<and> et_Bootstrap token \<noteq> [] \<and>
         template_given cf tn (et_Bootstrap token) (sv_store s) b)"
  by (rule enrolment_done [OF assms])

lemma reads_before: "reads_only (before_redemption cf up nobody_else clock r)"
proof -
  have "reads_only (machine_is_new up nobody_else tn machine)" for tn machine
    by (auto simp: reads_only_def machine_is_new_def going_def split: sum.splits)
  then show ?thesis unfolding before_redemption_def fleet_has_room_def resolveBootstrap_def by (intro reading_intros)
qed

lemma GetHostByMachineID_none: "GetHostByMachineID tn machine m = Inl ErrNotFound \<Longrightarrow> machine \<noteq> [] \<Longrightarrow>
    \<not> any_entry (\<lambda>_ row. snd row = tn \<and> \<not> h_Revoked (fst row) \<and> h_MachineIDHash (fst row) = machine) (m_hosts m)"
  by (auto simp: GetHostByMachineID_def first_entry_None any_entry_iff split: option.splits)

text \<open>The versions of a template are kept under its name.\<close>

definition templates_named :: "memory \<Rightarrow> bool" where
  "templates_named m \<longleftrightarrow> (\<forall>tn name k tv. get (m_templates m) (tn, name, k) = Some tv \<longrightarrow> tv_Name tv = name)"

lemma newest_version_in: "newest_version ts = Some t \<Longrightarrow> t \<in> set ts"
proof -
  let ?f = "\<lambda>found t. case found of None \<Rightarrow> Some t | Some held \<Rightarrow> if tv_Version t > tv_Version held then Some t else found"
  have "foldl ?f found ts = Some t \<Longrightarrow> found = Some t \<or> t \<in> set ts" for found
  proof (induction ts arbitrary: found)
    case (Cons x xs)
    from Cons.IH [of "?f found x"] Cons.prems show ?case by (auto split: option.splits if_splits)
  qed simp
  then show "newest_version ts = Some t \<Longrightarrow> t \<in> set ts" by (auto simp: newest_version_def)
qed

lemma template_name:
  assumes "templates_named m" "template_given cf tn name m b"
  shows "bs_Name b = name"
proof -
  from assms(2) obtain tv where tv: "GetTemplateVersion tn name 0 m = Inr tv" "bs_Name b = tv_Name tv"
    by (auto simp: template_given_def)
  then have "newest_version (collect_if (\<lambda>key _. fst key = tn \<and> fst (snd key) = name) (m_templates m)) = Some tv"
    by (auto simp: GetTemplateVersion_def split: option.splits)
  then have "tv \<in> set (collect_if (\<lambda>key _. fst key = tn \<and> fst (snd key) = name) (m_templates m))" by (rule newest_version_in)
  with assms(1) tv(2) show ?thesis by (auto simp: set_collect_if templates_named_def)
qed

text \<open>Property C13: a refused enrolment costs nothing: with nobody else at the store and the store reachable, whatever the
  reason of the refusal, the token is as usable as before and nothing is written, so that the operator can
  put right what was named and try again. (The certificate is issued before the token is redeemed, and what
  is checked before redemption is what recording the host checks again.)\<close>

theorem refused_enrolment_is_free:
  assumes "answer (enroll cf (\<lambda>_. True) nobody_else clock new_id serial event_id body) s = (Denied c e hs, s')"
    and "\<And>i. new_id = Some i \<Longrightarrow> get (m_hosts (sv_store s)) i = None"
    and "templates_named (sv_store s)"
    and fresh: "\<And>r i pem cert. body = Inr r \<Longrightarrow> Issue (cf_x509 cf) serial (clock 3) (en_CSR r) i = Inr (pem, cert) \<Longrightarrow>
      get (m_certs (sv_store s)) (cf_sha256_hex cf (crt_Raw cert)) = None"
  shows "s' = s"
proof (cases body)
  case (Inl x)
  with assms(1) show ?thesis by (simp add: enroll_def answer_run denied_run)
next
  case body: (Inr r)
  show ?thesis
  proof (cases "en_Token r = [] \<or> en_CSR r = []")
    case True
    with assms(1) body show ?thesis by (simp add: enroll_def answer_run denied_run)
  next
    case False
    let ?up = "\<lambda>_. True"
    obtain x s1 where x: "before_redemption cf ?up nobody_else clock r s = (x :: (enroll_reply reply, _) result, s1)" by fastforce
    have s1: "s1 = s" by (rule reads_onlyD [OF reads_before x])
    show ?thesis
    proof (cases x)
      case (Inl p)
      with x s1 assms(1) body False show ?thesis by (auto simp: enroll_def answer_def andThen_def)
    next
      case (Inr y)
      obtain tn b where y: "y = (tn, b)" by fastforce
      note B = before_redemption_alone [OF x [unfolded Inr y]]
      let ?I = "issue_and_redeem cf ?up nobody_else clock new_id serial event_id r tn b"
      from x s1 Inr y assms(1) body False have i: "?I s = (Inl (Denied c e hs), s') \<or> ?I s = (Inr (Denied c e hs), s')"
        by (auto simp: enroll_def answer_def andThen_def split: prod.splits sum.splits)
      show ?thesis
      proof (cases "\<exists>i pem cert. new_id = Some i \<and> Issue (cf_x509 cf) serial (clock 3) (en_CSR r) i = Inr (pem, cert)")
        case no_issue: False
        with i show ?thesis by (cases new_id) (auto simp: issue_and_redeem_def denied_def split: sum.splits)
      next
        case True
        then obtain h pem cert where h: "new_id = Some h" "Issue (cf_x509 cf) serial (clock 3) (en_CSR r) h = Inr (pem, cert)" by blast
        from B obtain token where t: "get (m_tokens (sv_store s)) (token_hash cf r) = Some (token, tn)" by blast
        let ?R = "redeem_and_record cf ?up nobody_else (clock 4) event_id r tn b h pem cert"
        from i h have r: "?R s = (Inl (Denied c e hs), s') \<or> ?R s = (Inr (Denied c e hs), s')" by (simp add: issue_and_redeem_def)
        show ?thesis
        proof (cases "token_Usable token (clock 4)")
          case False
          with r t show ?thesis
            by (auto simp: redeem_and_record_def andThen_def changes_def call_def ConsumeEnrollmentToken_def)
        next
          case True
          let ?m = "(sv_store s)\<lparr>m_tokens := put (token_hash cf r) (redeemed token h (clock 4), tn) (m_tokens (sv_store s))\<rparr>"
          have "active_hosts tn ?m = active_hosts tn (sv_store s)" by (simp add: active_hosts_def)
          with B assms(2) [OF h(1)] fresh [OF body h(2)] obtain m' where m':
            "CreateEnrolledHost tn (new_host r h (et_Group token) (clock 4)) (certificate_for cf cert h tn (clock 4)) ?m = Inr m'"
            by (auto simp: CreateEnrolledHost_new dest: GetHostByMachineID_none)
          have c: "ConsumeEnrollmentToken tn (token_hash cf r) h (clock 4) (sv_store s) = Inr (redeemed token h (clock 4), ?m)"
            by (simp add: ConsumeEnrollmentToken_Inr t True redeemed_def)
          have g: "et_Group (redeemed token h (clock 4)) = et_Group token" by (simp add: redeemed_def)
          have "\<exists>v s2. ?R s = (Inr (Replied 200 v), s2)"
          proof (cases b)
            case None
            then show ?thesis using c m' g
              by (simp add: redeem_and_record_def andThen_def changes_def call_def only_def going_def emits_def)
          next
            case (Some bs)
            with B have "\<not> Archived (GetTemplateArchival tn (bs_Name bs) (sv_store s))"
              using template_name [OF assms(3), of cf tn "en_RequestedBootstrap r" bs] by (auto simp: template_given_def)
            then have "\<not> Archived (GetTemplateArchival tn (bs_Name bs) ?m)" by (simp add: GetTemplateArchival_def archival_of_def)
            then show ?thesis using c m' g Some
              by (simp add: redeem_and_record_def andThen_def changes_def call_def only_def going_def emits_def
                  bootstrapSurvivedRedemption_def asks_def)
          qed
          with r show ?thesis by auto
        qed
      qed
    qed
  qed
qed

text \<open>Property C14: a machine that enrolled is let in by the certificate it was given.\<close>

theorem enrolled_then_admitted:
  assumes "answer (enroll cf up nobody_else clock new_id serial event_id (Inr r)) s = (Replied code v, s')"
  shows "\<exists>cert tn h. Issue (cf_x509 cf) serial (clock 3) (en_CSR r) (ep_HostID v) = Inr (ep_Certificate v, cert) \<and>
    requireAgent (cf_sha256_hex cf) (\<lambda>_. True) (\<lambda>_. sv_store s') now (Some (crt_Raw cert)) =
      (Inr \<lparr>cl_Host = h, cl_Fingerprint = cf_sha256_hex cf (crt_Raw cert), cl_Tenant = tn\<rparr> :: ('r reply, caller) result) \<and>
    h_ID h = ep_HostID v \<and> TenantForEnrollmentToken (clock 4) (token_hash cf r) (sv_store s) = Inr tn"
proof -
  obtain tn token t cert where i: "Issue (cf_x509 cf) serial (clock 3) (en_CSR r) (ep_HostID v) = Inr (ep_Certificate v, cert)" and
    k: "get (m_tokens (sv_store s)) (token_hash cf r) = Some (token, tn)" "token_Usable token (clock 4)" and
    t: "get (m_tenants (sv_store s)) tn = Some t" "\<not> t_Suspended t" and
    s': "s' = emit tn (clock 4) event_id (enrolled_event r (ep_HostID v) (et_Group token) (clock 4))
      (s\<lparr>sv_store := enrolled_store cf r tn token (ep_HostID v) cert (clock 4) (sv_store s)\<rparr>)"
    using enrolment_done [OF assms] by auto
  obtain evs where m: "sv_store s' = (enrolled_store cf r tn token (ep_HostID v) cert (clock 4) (sv_store s))\<lparr>m_events := evs\<rparr>"
    using emit_frame [of tn "clock 4" event_id "enrolled_event r (ep_HostID v) (et_Group token) (clock 4)"
        "s\<lparr>sv_store := enrolled_store cf r tn token (ep_HostID v) cert (clock 4) (sv_store s)\<rparr>"] s' by auto
  let ?c = "certificate_for cf cert (ep_HostID v) tn (clock 4)" and ?h = "new_host r (ep_HostID v) (et_Group token) (clock 4)"
  have "LookupCertificate (cf_sha256_hex cf (crt_Raw cert)) (sv_store s') = Inr ?c" "GetTenant tn (sv_store s') = Inr t"
    "GetHost tn (ep_HostID v) (sv_store s') = Inr ?h"
    by (simp_all add: m enrolled_store_def LookupCertificate_def GetTenant_def GetHost_def scoped_host_def get_put t(1))
  then have "requireAgent (cf_sha256_hex cf) (\<lambda>_. True) (\<lambda>_. sv_store s') now (Some (crt_Raw cert)) =
      (Inr \<lparr>cl_Host = ?h, cl_Fingerprint = cf_sha256_hex cf (crt_Raw cert), cl_Tenant = tn\<rparr> :: ('r reply, caller) result)"
    using t(2) by (simp add: requireAgent_def Fingerprint_def call_def Let_def certificate_for_def new_host_def is_zero_def)
  moreover have "h_ID ?h = ep_HostID v" by (simp add: new_host_def)
  moreover have "TenantForEnrollmentToken (clock 4) (token_hash cf r) (sv_store s) = Inr tn"
    using k by (simp add: TenantForEnrollmentToken_def)
  ultimately show ?thesis using i by blast
qed

section \<open>Instances\<close>

definition demo_config :: config where
  "demo_config = \<lparr>cf_HeartbeatSeconds = 60, cf_x509 = toy_x509, cf_CABundle = ''ca'', cf_OnlineKey = None, cf_TemplateKey = toy_aead,
     cf_sha256_hex = (\<lambda>x. x)\<rparr>"

definition join_token :: enrollment_token where
  "join_token = \<lparr>et_Hash = ''tok'', et_Label = [], et_Group = ''web'', et_Bootstrap = ''base'', et_CreatedAt = 1, et_ExpiresAt = 50,
     et_ConsumedAt = 0, et_ConsumedByHost = []\<rparr>"

definition base_template :: template_version where
  "base_template = \<lparr>tv_Name = ''base'', tv_Version = 1, tv_BodySealed = ''abdmcnurab'', tv_Signature = ''sig'', tv_SignerKeyID = ''ops'',
     tv_SignerAlgorithm = ''ed25519'', tv_CreatedAt = 1, tv_CreatedBy = ''p:bob''\<rparr>"

definition inviting :: memory where
  "inviting = (NewMemory 1)\<lparr>m_tokens := put ''tok'' (join_token, DefaultTenant) no_entries,
     m_templates := put (DefaultTenant, ''base'', 1) base_template no_entries\<rparr>"

definition joining :: enroll_request where
  "joining = \<lparr>en_Token = ''tok'', en_CSR = ''H2key'', en_Hostname = ''web1'', en_MachineIDHash = ''mid'', en_AgentVersion = [],
     en_RequestedBootstrap = ''base''\<rparr>"

lemma demo_computed:
  "trim_space ''tok'' = ''tok''" "key_Open toy_aead ''abdmcnurab'' = Some ''runcmd''" "Placeholders ''runcmd'' = []"
  by code_simp+

lemma demo_store: "GetTemplateVersion DefaultTenant ''base'' 0 inviting = Inr base_template"
  "GetEnrollmentToken DefaultTenant 5 ''tok'' inviting = Inr join_token"
  "TenantForEnrollmentToken 5 ''tok'' inviting = Inr DefaultTenant"
  "\<not> Archived (GetTemplateArchival DefaultTenant ''base'' inviting)"
  "GetHostByMachineID DefaultTenant ''mid'' inviting = Inl ErrNotFound"
  "\<exists>t. GetTenant DefaultTenant inviting = Inr t \<and> \<not> t_Suspended t \<and> t_HostLimit t = None"
  by (simp_all add: inviting_def GetTemplateVersion_def collect_if_def newest_version_def entries_put NewMemory_def DAList.empty.rep_eq
      GetEnrollmentToken_def TenantForEnrollmentToken_def token_Usable_def join_token_def is_zero_def GetTemplateArchival_def
      archival_of_def Archived_def GetHostByMachineID_def first_entry_def GetTenant_def get_put base_template_def)

lemma demo_before: "before_redemption demo_config (\<lambda>_. True) nobody_else (\<lambda>_. 5) joining (server_of inviting) =
   (Inr (DefaultTenant, Some \<lparr>bs_Name = ''base'', bs_Version = 1, bs_Body = ''runcmd'', bs_Signature = ''sig'', bs_SignerKeyID = ''ops''\<rparr>),
    server_of inviting)"
proof -
  obtain t where t: "GetTenant DefaultTenant inviting = Inr t" "\<not> t_Suspended t" "t_HostLimit t = None" using demo_store(6) by blast
  show ?thesis
    by (simp add: before_redemption_def andThen_def asks_def call_def machine_is_new_def fleet_has_room_def resolveBootstrap_def going_def
        demo_store(1-5) t demo_computed demo_config_def joining_def server_of_def HashToken_def join_token_def base_template_def
        template_Signed_def bootstrapDoesNotMintItsOwnToken_def)
qed

lemma demo_issued: "Issue (cf_x509 demo_config) (Some 1) 5 (en_CSR joining) ''H1'' = Inr (''derkey'', toy_cert ''derkey'')"
  using toy_Issue [of "''H2key''"] by (simp add: demo_config_def joining_def)

lemma demo_enrolment: "\<exists>v s'. answer (enroll demo_config (\<lambda>_. True) nobody_else (\<lambda>_. 5) (Some ''H1'') (Some 1) None (Inr joining))
    (server_of inviting) = (Replied 200 v, s') \<and> ep_HostID v = ''H1'' \<and> (\<exists>b. ep_Bootstrap v = Some b \<and> bs_Body b = ''runcmd'')"
proof -
  let ?b = "\<lparr>bs_Name = ''base'', bs_Version = 1, bs_Body = ''runcmd'', bs_Signature = ''sig'', bs_SignerKeyID = ''ops''\<rparr>"
  let ?t = "redeemed join_token ''H1'' 5"
  let ?m = "inviting\<lparr>m_tokens := put ''tok'' (?t, DefaultTenant) (m_tokens inviting)\<rparr>"
  have h: "token_hash demo_config joining = ''tok''" by (simp add: HashToken_def demo_config_def joining_def demo_computed)
  have c: "ConsumeEnrollmentToken DefaultTenant ''tok'' ''H1'' 5 inviting = Inr (?t, ?m)"
    by (simp add: ConsumeEnrollmentToken_Inr redeemed_def inviting_def token_Usable_def join_token_def is_zero_def)
  have "\<exists>m'. CreateEnrolledHost DefaultTenant (new_host joining ''H1'' (et_Group ?t) 5)
      (certificate_for demo_config (toy_cert ''derkey'') ''H1'' DefaultTenant 5) ?m = Inr m'"
    by (simp add: CreateEnrolledHost_new inviting_def NewMemory_def get_put any_entry_iff)
  then obtain m' where m': "CreateEnrolledHost DefaultTenant (new_host joining ''H1'' (et_Group ?t) 5)
      (certificate_for demo_config (toy_cert ''derkey'') ''H1'' DefaultTenant 5) ?m = Inr m'" by blast
  have "GetTemplateArchival DefaultTenant ''base'' ?m = GetTemplateArchival DefaultTenant ''base'' inviting"
    by (simp add: GetTemplateArchival_def archival_of_def)
  with demo_store(4) have "\<not> Archived (GetTemplateArchival DefaultTenant ''base'' ?m)" by simp
  then have "\<exists>v s'. issue_and_redeem demo_config (\<lambda>_. True) nobody_else (\<lambda>_. 5) (Some ''H1'') (Some 1) None joining DefaultTenant (Some ?b)
      (server_of inviting) = (Inr (Replied 200 v), s') \<and> ep_HostID v = ''H1'' \<and> ep_Bootstrap v = Some ?b"
    using demo_issued c m'
    by (simp add: issue_and_redeem_def redeem_and_record_def h andThen_def changes_def call_def only_def going_def emits_def
        bootstrapSurvivedRedemption_def asks_def server_of_def)
  then obtain v s' where i: "issue_and_redeem demo_config (\<lambda>_. True) nobody_else (\<lambda>_. 5) (Some ''H1'') (Some 1) None joining DefaultTenant
      (Some ?b) (server_of inviting) = (Inr (Replied 200 v), s')" "ep_HostID v = ''H1''" "ep_Bootstrap v = Some ?b" by blast
  have "en_Token joining \<noteq> []" "en_CSR joining \<noteq> []" by (simp_all add: joining_def)
  with i(1) have "answer (enroll demo_config (\<lambda>_. True) nobody_else (\<lambda>_. 5) (Some ''H1'') (Some 1) None (Inr joining)) (server_of inviting) =
      (Replied 200 v, s')"
    by (simp add: enroll_def answer_def andThen_def demo_before del: One_nat_def)
  with i show ?thesis by auto
qed

theorem enrolment_effect_witness:
  "\<exists>v s' token tn. answer (enroll demo_config (\<lambda>_. True) nobody_else (\<lambda>_. 5) (Some ''H1'') (Some 1) None (Inr joining))
    (server_of inviting) = (Replied 200 v, s') \<and>
    get (m_tokens inviting) (token_hash demo_config joining) = Some (token, tn) \<and> token_Usable token 5 \<and> et_Bootstrap token = ''base''"
proof -
  obtain v s' b where e: "answer (enroll demo_config (\<lambda>_. True) nobody_else (\<lambda>_. 5) (Some ''H1'') (Some 1) None (Inr joining))
    (server_of inviting) = (Replied 200 v, s')" "ep_Bootstrap v = Some b" using demo_enrolment by blast
  have "en_RequestedBootstrap joining = ''base''" "sv_store (server_of inviting) = inviting" by (simp_all add: joining_def server_of_def)
  with enrolment_effect [OF e(1)] e show ?thesis by fastforce
qed

theorem enrolled_then_admitted_witness:
  "\<exists>v s' raw cl. answer (enroll demo_config (\<lambda>_. True) nobody_else (\<lambda>_. 5) (Some ''H1'') (Some 1) None (Inr joining))
    (server_of inviting) = (Replied 200 v, s') \<and>
    (requireAgent (\<lambda>x. x) (\<lambda>_. True) (\<lambda>_. sv_store s') 6 (Some raw) :: (unit reply, caller) result) = Inr cl \<and> h_ID (cl_Host cl) = ''H1''"
proof -
  obtain v s' where e: "answer (enroll demo_config (\<lambda>_. True) nobody_else (\<lambda>_. 5) (Some ''H1'') (Some 1) None (Inr joining))
    (server_of inviting) = (Replied 200 v, s')" "ep_HostID v = ''H1''" using demo_enrolment by blast
  have "cf_sha256_hex demo_config = (\<lambda>x. x)" by (simp add: demo_config_def)
  with enrolled_then_admitted [OF e(1), where now = 6 and ?'r = unit] e obtain raw cl where
    "(requireAgent (\<lambda>x. x) (\<lambda>_. True) (\<lambda>_. sv_store s') 6 (Some raw) :: (unit reply, caller) result) = Inr cl \<and> h_ID (cl_Host cl) = ''H1''"
    by force
  with e show ?thesis by blast
qed

text \<open>The same request for a template the token does not name.\<close>

theorem refused_enrolment_is_free_witness:
  "\<exists>s'. answer (enroll demo_config (\<lambda>_. True) nobody_else (\<lambda>_. 5) (Some ''H1'') (Some 1) None
      (Inr (joining\<lparr>en_RequestedBootstrap := ''other''\<rparr>))) (server_of inviting) = (Denied 403 ''bootstrap_not_authorised'' [], s') \<and>
    s' = server_of inviting"
proof -
  let ?r = "joining\<lparr>en_RequestedBootstrap := ''other''\<rparr>"
  obtain t where t: "GetTenant DefaultTenant inviting = Inr t" "\<not> t_Suspended t" "t_HostLimit t = None" using demo_store(6) by blast
  have "before_redemption demo_config (\<lambda>_. True) nobody_else (\<lambda>_. 5) ?r (server_of inviting) =
      (Inl (Denied 403 ''bootstrap_not_authorised'' []) :: (enroll_reply reply, _) result, server_of inviting)"
    by (simp add: before_redemption_def andThen_def asks_def call_def machine_is_new_def fleet_has_room_def resolveBootstrap_def going_def
        denied_def demo_store(1-5) t demo_computed demo_config_def joining_def server_of_def HashToken_def join_token_def)
  then have e: "answer (enroll demo_config (\<lambda>_. True) nobody_else (\<lambda>_. 5) (Some ''H1'') (Some 1) None (Inr ?r)) (server_of inviting) =
      (Denied 403 ''bootstrap_not_authorised'' [], server_of inviting)"
    by (simp add: enroll_def answer_def andThen_def joining_def)
  have "server_of inviting = server_of inviting"
    by (rule refused_enrolment_is_free [OF e])
      (auto simp: server_of_def inviting_def NewMemory_def templates_named_def get_put base_template_def split: if_splits)
  with e show ?thesis by blast
qed

end
