(* ===== verification/UnitWatch.thy ===== *)
theory UnitWatch
  imports Handling JSON_Struct Glob
begin

text \<open>
  What the control plane reads out of a stored facts document (\<open>factsProbe\<close> of \<open>internal/server/alerts.go\<close>) and how
  it turns two reports of a host's units into history rows and events (\<open>internal/server/servicesapi.go\<close>).
\<close>

section \<open>Reading stored documents\<close>

text \<open>\<open>json.Unmarshal\<close>: one value and nothing after it, into a struct given by its fields.\<close>

definition json_unmarshal :: "'a field list \<Rightarrow> 'a \<Rightarrow> bytes \<Rightarrow> (decode_error, 'a) result" where
  "json_unmarshal fs st raw = (case parse_json raw of
      None \<Rightarrow> Inl DecSyntax
    | Some (v, rest) \<Rightarrow> if skip_ws rest \<noteq> [] then Inl DecSyntax else decode_struct False fs v st)"

text \<open>A slice: an element is decoded into the one already at its place, or into a zero value.\<close>

fun decode_elems :: "(json \<Rightarrow> 'b \<Rightarrow> (decode_error, 'b) result) \<Rightarrow> 'b \<Rightarrow> json list \<Rightarrow> 'b list \<Rightarrow> (decode_error, 'b list) result" where
  "decode_elems f zero [] held = Inr []"
| "decode_elems f zero (v # vs) held =
     (case f v (case held of [] \<Rightarrow> zero | x # _ \<Rightarrow> x) of
        Inl e \<Rightarrow> Inl e
      | Inr x \<Rightarrow> (case decode_elems f zero vs (drop 1 held) of Inl e \<Rightarrow> Inl e | Inr xs \<Rightarrow> Inr (x # xs)))"

definition store_list ::
  "(json \<Rightarrow> 'b \<Rightarrow> (decode_error, 'b) result) \<Rightarrow> 'b \<Rightarrow> ('a \<Rightarrow> 'b list) \<Rightarrow> ('b list \<Rightarrow> 'a \<Rightarrow> 'a) \<Rightarrow> json \<Rightarrow> 'a \<Rightarrow> (decode_error, 'a) result" where
  "store_list f zero sel upd v st = (case v of
      JArr vs \<Rightarrow> (case decode_elems f zero vs (sel st) of Inl e \<Rightarrow> Inl e | Inr xs \<Rightarrow> Inr (upd xs st))
    | JNull \<Rightarrow> Inr (upd [] st)
    | _ \<Rightarrow> Inl DecType)"

record unit_probe =
  un_Name :: bytes
  un_LoadState :: bytes
  un_ActiveState :: bytes
  un_SubState :: bytes

record facts_probe =
  fp_UpgradableSecurity :: int
  fp_Incomplete :: bool
  fp_RebootRequired :: bool
  fp_Conclusive :: bool
  fp_Services :: "unit_probe list"
  fp_ServicesTruncated :: bool

definition no_unit :: unit_probe where
  "no_unit = \<lparr>un_Name = [], un_LoadState = [], un_ActiveState = [], un_SubState = []\<rparr>"

definition no_facts :: facts_probe where
  "no_facts = \<lparr>fp_UpgradableSecurity = 0, fp_Incomplete = False, fp_RebootRequired = False, fp_Conclusive = False,
     fp_Services = [], fp_ServicesTruncated = False\<rparr>"

definition unit_fields :: "unit_probe field list" where
  "unit_fields = [
     (''name'', store_string (\<lambda>x u. u\<lparr>un_Name := x\<rparr>)),
     (''loadState'', store_string (\<lambda>x u. u\<lparr>un_LoadState := x\<rparr>)),
     (''activeState'', store_string (\<lambda>x u. u\<lparr>un_ActiveState := x\<rparr>)),
     (''subState'', store_string (\<lambda>x u. u\<lparr>un_SubState := x\<rparr>))]"

definition facts_fields :: "facts_probe field list" where
  "facts_fields = [
     (''packages'', decode_struct False [
        (''upgradableSecurity'', store_int (\<lambda>i p. p\<lparr>fp_UpgradableSecurity := i\<rparr>)),
        (''incomplete'', store_bool (\<lambda>b p. p\<lparr>fp_Incomplete := b\<rparr>))]),
     (''reboot'', decode_struct False [
        (''required'', store_bool (\<lambda>b p. p\<lparr>fp_RebootRequired := b\<rparr>)),
        (''conclusive'', store_bool (\<lambda>b p. p\<lparr>fp_Conclusive := b\<rparr>))]),
     (''services'', store_list (decode_struct False unit_fields) no_unit fp_Services (\<lambda>us p. p\<lparr>fp_Services := us\<rparr>)),
     (''servicesTruncated'', store_bool (\<lambda>b p. p\<lparr>fp_ServicesTruncated := b\<rparr>))]"

definition parseFactsProbe :: "bytes \<Rightarrow> facts_probe option" where
  "parseFactsProbe raw =
     (if raw = [] then None
      else case json_unmarshal facts_fields no_facts raw of Inl _ \<Rightarrow> None | Inr p \<Rightarrow> Some p)"

text \<open>The watch list of a host's policy document.\<close>

definition parseWatched :: "bytes \<Rightarrow> bytes list" where
  "parseWatched doc =
     (if doc = [] then []
      else case json_unmarshal [(''services'', decode_struct False
            [(''watched'', store_list (store_string (\<lambda>x _. x)) [] (\<lambda>ws. ws) (\<lambda>xs _. xs))])] [] doc of
        Inl _ \<Rightarrow> []
      | Inr ws \<Rightarrow> ws)"

definition watch_matches :: "bytes list \<Rightarrow> bytes \<Rightarrow> bool" where
  "watch_matches watched u \<longleftrightarrow> watched = [] \<or> list_ex (\<lambda>pattern. glob_match pattern u = Some True) watched"

section \<open>Transitions\<close>

definition UnitStateAbsent :: bytes where [go_defs]: "UnitStateAbsent = ''absent''"
definition MaxUnitEventsPerBeat :: nat where [go_defs]: "MaxUnitEventsPerBeat = 10"

text \<open>A row of the history and the event that goes with it, if any.\<close>

type_synonym change = "unit_transition \<times> notification option"

definition unit_row :: "bytes \<Rightarrow> bytes \<Rightarrow> bytes \<Rightarrow> instant \<Rightarrow> unit_transition" where
  "unit_row u before after now = \<lparr>ut_HostID = [], ut_Unit = u, ut_From = before, ut_To = after, ut_At = now\<rparr>"

definition unit_event :: "kind \<Rightarrow> host \<Rightarrow> bytes \<Rightarrow> instant \<Rightarrow> (bytes \<times> json) list \<Rightarrow> notification" where
  "unit_event kind h what now detail =
     \<lparr>ne_Kind = kind, ne_TenantID = [], ne_HostID = h_ID h, ne_Hostname = h_Hostname h, ne_Summary = h_Hostname h @ what,
      ne_At = now, ne_Detail = detail\<rparr>"

definition failed_event :: "host \<Rightarrow> unit_probe \<Rightarrow> unit_probe \<Rightarrow> instant \<Rightarrow> notification" where
  "failed_event h was u now = unit_event KindServiceFailed h ('': '' @ un_Name u @ '' failed ('' @ un_SubState u @ '')'') now
     [(''unit'', JStr (un_Name u)), (''from'', JStr (un_ActiveState was)), (''to'', JStr (un_ActiveState u)),
      (''subState'', JStr (un_SubState u))]"

definition running_event :: "host \<Rightarrow> unit_probe \<Rightarrow> unit_probe \<Rightarrow> instant \<Rightarrow> notification" where
  "running_event h was u now = unit_event KindServiceRecovered h ('': '' @ un_Name u @ '' is running again'') now
     [(''unit'', JStr (un_Name u)), (''from'', JStr (un_ActiveState was))]"

definition gone_event :: "host \<Rightarrow> unit_probe \<Rightarrow> instant \<Rightarrow> notification" where
  "gone_event h u now = unit_event KindServiceRecovered h
     ('': '' @ un_Name u @ '' is no longer reported; it was failing when it was last seen'') now
     [(''unit'', JStr (un_Name u)), (''from'', JStr (un_ActiveState u)), (''to'', JStr UnitStateAbsent)]"

definition prior_of :: "unit_probe list \<Rightarrow> bytes \<Rightarrow> unit_probe option" where
  "prior_of before = map_of (rev (map (\<lambda>u. (un_Name u, u)) before))"

definition moved :: "bytes list \<Rightarrow> host \<Rightarrow> instant \<Rightarrow> unit_probe list \<Rightarrow> unit_probe \<Rightarrow> change list" where
  "moved watched h now before u = (case prior_of before (un_Name u) of
      None \<Rightarrow> []
    | Some was \<Rightarrow>
        if un_ActiveState was = un_ActiveState u then []
        else [(unit_row (un_Name u) (un_ActiveState was) (un_ActiveState u) now,
          if \<not> watch_matches watched (un_Name u) then None
          else if un_ActiveState u = ''failed'' then Some (failed_event h was u now)
          else if un_ActiveState was = ''failed'' \<and> un_ActiveState u = ''active'' then Some (running_event h was u now)
          else None)])"

definition gone :: "bytes list \<Rightarrow> host \<Rightarrow> instant \<Rightarrow> unit_probe list \<Rightarrow> unit_probe \<Rightarrow> change list" where
  "gone watched h now after u =
     (if un_Name u \<in> un_Name ` set after then []
      else [(unit_row (un_Name u) (un_ActiveState u) UnitStateAbsent now,
         if watch_matches watched (un_Name u) \<and> un_ActiveState u = ''failed'' then Some (gone_event h u now) else None)])"

definition unit_changes :: "bytes list \<Rightarrow> host \<Rightarrow> instant \<Rightarrow> facts_probe \<Rightarrow> facts_probe \<Rightarrow> change list" where
  "unit_changes watched h now before after =
     concat (map (moved watched h now (fp_Services before)) (fp_Services after)) @
     (if \<not> fp_ServicesTruncated after \<and> \<not> fp_ServicesTruncated before
      then concat (map (gone watched h now (fp_Services after)) (fp_Services before)) else [])"

definition unit_events :: "change list \<Rightarrow> notification list" where
  "unit_events cs = take MaxUnitEventsPerBeat (List.map_filter snd cs)"

fun emit_all :: "(nat \<Rightarrow> memory \<Rightarrow> memory) \<Rightarrow> nat \<Rightarrow> tenant_id \<Rightarrow> instant \<Rightarrow> (nat \<Rightarrow> bytes option) \<Rightarrow> notification list \<Rightarrow> server \<Rightarrow> server" where
  "emit_all w k tn now new_id [] s = s"
| "emit_all w k tn now new_id (ev # evs) s = emit_all w (Suc k) tn now new_id evs (emit tn now (new_id k) ev (gap w k s))"

text \<open>\<open>now\<close> is the time the changes are stamped with.\<close>

definition detectUnitTransitions ::
  "reach \<Rightarrow> (nat \<Rightarrow> memory \<Rightarrow> memory) \<Rightarrow> nat \<Rightarrow> instant \<Rightarrow> (nat \<Rightarrow> bytes option) \<Rightarrow> caller \<Rightarrow> bytes \<Rightarrow> bytes \<Rightarrow> server \<Rightarrow> server" where
  "detectUnitTransitions up w k now new_id who previous current s =
     (if previous = [] then s
      else case (parseFactsProbe previous, parseFactsProbe current) of
        (Some before, Some after) \<Rightarrow>
          (let h = cl_Host who;
               cs = unit_changes (parseWatched (h_Policy h)) h now before after;
               s1 = emit_all w k (cl_Tenant who) now new_id (unit_events cs) s;
               s2 = gap w (k + length (unit_events cs)) s1
           in if cs = [] then s1
              else case call up ''RecordUnitTransitions''
                  (RecordUnitTransitions (cl_Tenant who) (h_ID h) (map fst cs) (sv_store s2)) of
                Inl _ \<Rightarrow> s2
              | Inr m \<Rightarrow> s2\<lparr>sv_store := m\<rparr>)
      | _ \<Rightarrow> s)"

section \<open>Properties\<close>

definition state_of :: "unit_probe list \<Rightarrow> bytes \<Rightarrow> bytes option" where
  "state_of us n = map_option un_ActiveState (prior_of us n)"

lemma prior_of_distinct:
  "distinct (map un_Name us) \<Longrightarrow> prior_of us n = Some u \<longleftrightarrow> u \<in> set us \<and> un_Name u = n"
proof -
  assume d: "distinct (map un_Name us)"
  have "distinct (map fst (rev (map (\<lambda>u. (un_Name u, u)) us)))" using d by (simp add: rev_map comp_def flip: rev_map)
  then have "prior_of us n = Some u \<longleftrightarrow> (n, u) \<in> set (rev (map (\<lambda>u. (un_Name u, u)) us))"
    unfolding prior_of_def by (rule map_of_eq_Some_iff)
  then show ?thesis by auto
qed

lemma prior_of_None: "prior_of us n = None \<longleftrightarrow> n \<notin> un_Name ` set us"
  by (force simp: prior_of_def map_of_eq_None_iff)

lemma map_fst_moved: "map fst (moved watched h now before u) = (case prior_of before (un_Name u) of
      None \<Rightarrow> [] | Some was \<Rightarrow> if un_ActiveState was = un_ActiveState u then []
        else [unit_row (un_Name u) (un_ActiveState was) (un_ActiveState u) now])"
  unfolding moved_def by (cases "prior_of before (un_Name u)") simp_all

lemma moved_rows: "row \<in> fst ` set (moved watched h now before u) \<longleftrightarrow>
    (\<exists>was. prior_of before (un_Name u) = Some was \<and> un_ActiveState was \<noteq> un_ActiveState u \<and>
       row = unit_row (un_Name u) (un_ActiveState was) (un_ActiveState u) now)"
  unfolding set_map [symmetric] map_fst_moved by (cases "prior_of before (un_Name u)") auto

lemma gone_rows: "row \<in> fst ` set (gone watched h now after u) \<longleftrightarrow>
    un_Name u \<notin> un_Name ` set after \<and> row = unit_row (un_Name u) (un_ActiveState u) UnitStateAbsent now"
  by (auto simp: gone_def)

text \<open>The history rows of two whole reports are the difference between them: one for each unit the first report
  has whose state is another in the second, or that the second no longer has, with its old state and its new
  one; none for a unit that did not change, and none for a unit seen for the first time.\<close>

theorem history_is_the_difference:
  assumes "distinct (map un_Name (fp_Services before))" "distinct (map un_Name (fp_Services after))"
    and "\<not> fp_ServicesTruncated before" "\<not> fp_ServicesTruncated after"
  shows "row \<in> fst ` set (unit_changes watched h now before after) \<longleftrightarrow>
    (\<exists>n a b. row = unit_row n a b now \<and> state_of (fp_Services before) n = Some a \<and>
       (state_of (fp_Services after) n = Some b \<and> a \<noteq> b \<or> state_of (fp_Services after) n = None \<and> b = UnitStateAbsent))"
    (is "_ \<longleftrightarrow> ?R")
proof -
  let ?b = "fp_Services before" and ?a = "fp_Services after"
  have "row \<in> fst ` set (unit_changes watched h now before after) \<longleftrightarrow>
      (\<exists>u\<in>set ?a. row \<in> fst ` set (moved watched h now ?b u)) \<or> (\<exists>u\<in>set ?b. row \<in> fst ` set (gone watched h now ?a u))"
    using assms(3,4) by (auto simp: unit_changes_def image_Un image_UN)
  also have "\<dots> \<longleftrightarrow> ?R"
  proof
    assume "(\<exists>u\<in>set ?a. row \<in> fst ` set (moved watched h now ?b u)) \<or> (\<exists>u\<in>set ?b. row \<in> fst ` set (gone watched h now ?a u))"
    then show ?R
    proof
      assume "\<exists>u\<in>set ?a. row \<in> fst ` set (moved watched h now ?b u)"
      then obtain u was where u: "u \<in> set ?a" "prior_of ?b (un_Name u) = Some was" "un_ActiveState was \<noteq> un_ActiveState u"
        "row = unit_row (un_Name u) (un_ActiveState was) (un_ActiveState u) now" unfolding moved_rows by blast
      moreover have "prior_of ?a (un_Name u) = Some u" using u(1) by (simp add: prior_of_distinct [OF assms(2)])
      ultimately show ?R
        by (intro exI [of _ "un_Name u"] exI [of _ "un_ActiveState was"] exI [of _ "un_ActiveState u"]) (auto simp: state_of_def)
    next
      assume "\<exists>u\<in>set ?b. row \<in> fst ` set (gone watched h now ?a u)"
      then obtain u where u: "u \<in> set ?b" "un_Name u \<notin> un_Name ` set ?a" "row = unit_row (un_Name u) (un_ActiveState u) UnitStateAbsent now"
        unfolding gone_rows by blast
      moreover have "prior_of ?b (un_Name u) = Some u" using u(1) by (simp add: prior_of_distinct [OF assms(1)])
      moreover have "prior_of ?a (un_Name u) = None" using u(2) by (simp add: prior_of_None)
      ultimately show ?R
        by (intro exI [of _ "un_Name u"] exI [of _ "un_ActiveState u"] exI [of _ UnitStateAbsent]) (simp add: state_of_def)
    qed
  next
    assume ?R
    then obtain n was b where n: "row = unit_row n (un_ActiveState was) b now" "prior_of ?b n = Some was"
      "state_of ?a n = Some b \<and> un_ActiveState was \<noteq> b \<or> state_of ?a n = None \<and> b = UnitStateAbsent"
      by (auto simp: state_of_def)
    from n(2) have was: "was \<in> set ?b" "un_Name was = n" by (simp_all add: prior_of_distinct [OF assms(1)])
    from n(3) show "(\<exists>u\<in>set ?a. row \<in> fst ` set (moved watched h now ?b u)) \<or> (\<exists>u\<in>set ?b. row \<in> fst ` set (gone watched h now ?a u))"
    proof
      assume "state_of ?a n = Some b \<and> un_ActiveState was \<noteq> b"
      then obtain u where u: "prior_of ?a n = Some u" "b = un_ActiveState u" "un_ActiveState was \<noteq> b" by (auto simp: state_of_def)
      then have "u \<in> set ?a" "un_Name u = n" by (simp_all add: prior_of_distinct [OF assms(2)])
      with u n(1,2) show ?thesis unfolding moved_rows by blast
    next
      assume "state_of ?a n = None \<and> b = UnitStateAbsent"
      with n(1) was show ?thesis unfolding gone_rows by (auto simp: state_of_def prior_of_None)
    qed
  qed
  finally show ?thesis .
qed

lemma set_map_filter: "x \<in> set (List.map_filter f xs) \<longleftrightarrow> (\<exists>y\<in>set xs. f y = Some x)"
  by (force simp: List.map_filter_def)

text \<open>A watched unit that has come to fail is announced, unless the report holds more than ten announcements.\<close>

theorem failure_announced:
  assumes "u \<in> set (fp_Services after)" "un_ActiveState u = ''failed''" "watch_matches watched (un_Name u)"
    and "prior_of (fp_Services before) (un_Name u) = Some was" "un_ActiveState was \<noteq> ''failed''"
    and "length (List.map_filter snd (unit_changes watched h now before after)) \<le> 10"
  shows "failed_event h was u now \<in> set (unit_events (unit_changes watched h now before after))"
proof -
  have "(unit_row (un_Name u) (un_ActiveState was) (un_ActiveState u) now, Some (failed_event h was u now))
      \<in> set (moved watched h now (fp_Services before) u)"
    using assms by (auto simp: moved_def)
  then have "(unit_row (un_Name u) (un_ActiveState was) (un_ActiveState u) now, Some (failed_event h was u now))
      \<in> set (unit_changes watched h now before after)"
    using assms(1) by (auto simp: unit_changes_def)
  then have "failed_event h was u now \<in> set (List.map_filter snd (unit_changes watched h now before after))"
    unfolding set_map_filter by force
  then show ?thesis using assms(6) by (simp add: unit_events_def MaxUnitEventsPerBeat_def)
qed

lemma unnoticed:
  assumes "a \<noteq> b" "b \<noteq> ''failed''" "\<not> (a = ''failed'' \<and> b = ''active'')"
  shows "unit_events (unit_changes watched h now (no_facts\<lparr>fp_Services := [u\<lparr>un_ActiveState := a\<rparr>]\<rparr>)
    (no_facts\<lparr>fp_Services := [u\<lparr>un_ActiveState := b\<rparr>]\<rparr>)) = []"
proof -
  have "prior_of [u\<lparr>un_ActiveState := a\<rparr>] (un_Name u) = Some (u\<lparr>un_ActiveState := a\<rparr>)" by (simp add: prior_of_def)
  then have "moved watched h now [u\<lparr>un_ActiveState := a\<rparr>] (u\<lparr>un_ActiveState := b\<rparr>) = [(unit_row (un_Name u) a b now, None)]"
    using assms unfolding moved_def by auto
  then show ?thesis by (simp add: unit_events_def unit_changes_def no_facts_def gone_def List.map_filter_def)
qed

text \<open>A unit whose restart is caught in the act recovers unannounced: where one report shows it failed, the next
  activating and the next active, neither step announces anything, and nothing else ever ends an alert that
  fired on the failure.\<close>

theorem recovery_through_activating:
  "let seen = (\<lambda>state. no_facts\<lparr>fp_Services := [u\<lparr>un_ActiveState := state\<rparr>]\<rparr>) in
   unit_events (unit_changes watched h now (seen ''failed'') (seen ''activating'')) = [] \<and>
   unit_events (unit_changes watched h now' (seen ''activating'') (seen ''active'')) = []"
  unfolding Let_def by (intro conjI unnoticed) simp_all

section \<open>Instances\<close>

definition report :: "bytes \<Rightarrow> facts_probe" where
  "report state = no_facts\<lparr>fp_Services := [\<lparr>un_Name = ''nginx.service'', un_LoadState = ''loaded'', un_ActiveState = state,
     un_SubState = ''dead''\<rparr>]\<rparr>"

theorem history_is_the_difference_witness:
  "unit_row ''nginx.service'' ''active'' ''failed'' 5 \<in> fst ` set (unit_changes [] demo_host 5 (report ''active'') (report ''failed''))"
proof -
  have d: "distinct (map un_Name (fp_Services (report x)))" "\<not> fp_ServicesTruncated (report x)" for x
    by (simp_all add: report_def no_facts_def)
  show ?thesis
    by (subst history_is_the_difference [OF d(1) d(1) d(2) d(2)]) (auto simp: report_def no_facts_def state_of_def prior_of_def)
qed

theorem failure_announced_witness:
  "\<exists>ev. ev \<in> set (unit_events (unit_changes [] demo_host 5 (report ''active'') (report ''failed''))) \<and> ne_Kind ev = ''service.failed''"
proof -
  let ?u = "\<lambda>state. \<lparr>un_Name = ''nginx.service'', un_LoadState = ''loaded'', un_ActiveState = state, un_SubState = ''dead''\<rparr>"
  have "failed_event demo_host (?u ''active'') (?u ''failed'') 5 \<in>
      set (unit_events (unit_changes [] demo_host 5 (report ''active'') (report ''failed'')))"
    by (rule failure_announced)
      (simp_all add: report_def no_facts_def watch_matches_def prior_of_def unit_changes_def moved_def gone_def List.map_filter_def)
  then show ?thesis by (intro exI [of _ "failed_event demo_host (?u ''active'') (?u ''failed'') 5"])
      (simp add: failed_event_def unit_event_def KindServiceFailed_def)
qed

end
