(* ===== verification/AgentAPI.thy ===== *)
theory AgentAPI
  imports EnrollAPI UnitWatch Canonical
begin

text \<open>
  What an enrolled agent asks of the control plane (\<open>internal/server/agentapi.go\<close>): the heartbeat with its digests,
  the long poll for work, the result of a job and the renewal of its certificate.
\<close>

section \<open>The heartbeat\<close>

record signer_summary =
  sg_KeyID :: bytes
  sg_Algorithm :: bytes
  sg_Backend :: bytes

definition signers_json :: "signer_summary list \<Rightarrow> json" where
  "signers_json gs = JArr (map (\<lambda>g. JObj ([(''keyId'', JStr (sg_KeyID g)), (''algorithm'', JStr (sg_Algorithm g))] @
     (if sg_Backend g = [] then [] else [(''backend'', JStr (sg_Backend g))]))) gs)"

text \<open>\<open>Signers\<close> is \<open>None\<close> where the list is nil, which an empty list is not.\<close>

record heartbeat_request =
  hb_AgentVersion :: bytes
  hb_BootID :: bytes
  hb_UptimeSeconds :: int
  hb_FactsDigest :: bytes
  hb_PolicyDigest :: bytes
  hb_SignersDigest :: bytes
  hb_ClockOffsetSeconds :: int
  hb_Paused :: bool
  hb_Facts :: "json option"
  hb_Policy :: "json option"
  hb_Signers :: "signer_summary list option"

record heartbeat_reply =
  hr_OnlineKey :: bytes
  hr_ServerTime :: instant
  hr_NextHeartbeatSeconds :: int
  hr_WantFullReport :: bool
  hr_WantFacts :: bool
  hr_WantPolicy :: bool
  hr_WantSigners :: bool

datatype document_kind = FactsDocument | PolicyDocument | SignersDocument

definition store_document :: "document_kind \<Rightarrow> tenant_id \<Rightarrow> bytes \<Rightarrow> bytes \<Rightarrow> bytes \<Rightarrow> memory \<Rightarrow> (store_error, memory) result" where
  "store_document kind = (case kind of FactsDocument \<Rightarrow> StoreFacts | PolicyDocument \<Rightarrow> StorePolicy | SignersDocument \<Rightarrow> StoreSigners)"

text \<open>The claimed digest is only compared, and a difference logged.\<close>

definition storeDocumentIfPresent ::
  "config \<Rightarrow> reach \<Rightarrow> (nat \<Rightarrow> memory \<Rightarrow> memory) \<Rightarrow> nat \<Rightarrow> instant \<Rightarrow> (nat \<Rightarrow> bytes option) \<Rightarrow> caller \<Rightarrow> document_kind \<Rightarrow> json option \<Rightarrow>
   server \<Rightarrow> server" where
  "storeDocumentIfPresent cf up w k now new_id who kind document s = (case document of
      None \<Rightarrow> s
    | Some v \<Rightarrow>
        (case Marshal v of
           Inl _ \<Rightarrow> s
         | Inr encoded \<Rightarrow>
             let s1 = gap w k s; hostID = h_ID (cl_Host who)
             in (case call up ''StoreDocument''
                   (store_document kind (cl_Tenant who) hostID (DigestBytes (cf_sha256_hex cf) encoded) encoded (sv_store s1)) of
                   Inl _ \<Rightarrow> s1
                 | Inr m \<Rightarrow>
                     if kind = FactsDocument
                     then detectUnitTransitions up w (Suc k) now new_id who (h_Facts (cl_Host who)) encoded (s1\<lparr>sv_store := m\<rparr>)
                     else s1\<lparr>sv_store := m\<rparr>)))"

definition wants :: "bytes \<Rightarrow> bytes \<Rightarrow> bool \<Rightarrow> bool" where
  "wants claimed held sent \<longleftrightarrow> claimed \<noteq> [] \<and> claimed \<noteq> held \<and> \<not> sent"

definition beat_of :: "heartbeat_request \<Rightarrow> instant \<Rightarrow> heartbeat_update" where
  "beat_of r now = \<lparr>u_AgentVersion = hb_AgentVersion r, u_BootID = hb_BootID r, u_UptimeSeconds = hb_UptimeSeconds r,
     u_ClockOffsetSeconds = hb_ClockOffsetSeconds r, u_Paused = hb_Paused r, u_LastSeen = now\<rparr>"

definition store_documents ::
  "config \<Rightarrow> reach \<Rightarrow> (nat \<Rightarrow> memory \<Rightarrow> memory) \<Rightarrow> instant \<Rightarrow> (nat \<Rightarrow> bytes option) \<Rightarrow> caller \<Rightarrow> heartbeat_request \<Rightarrow> server \<Rightarrow> server" where
  "store_documents cf up w now new_id who r s =
     storeDocumentIfPresent cf up w 2 now new_id who SignersDocument (map_option signers_json (hb_Signers r))
       (storeDocumentIfPresent cf up w 1 now new_id who PolicyDocument (hb_Policy r)
         (storeDocumentIfPresent cf up w 3 now new_id who FactsDocument (hb_Facts r) s))"

definition handleHeartbeat ::
  "config \<Rightarrow> reach \<Rightarrow> (nat \<Rightarrow> memory \<Rightarrow> memory) \<Rightarrow> instant \<Rightarrow> instant \<Rightarrow> (nat \<Rightarrow> bytes option) \<Rightarrow> caller \<Rightarrow>
   (decode_failure, heartbeat_request) result \<Rightarrow> server \<Rightarrow> heartbeat_reply reply \<times> server" where
  "handleHeartbeat cf up w now now' new_id who body s = (case body of
      Inl e \<Rightarrow> (if e = TooLarge then problem 413 ''too_large'' else problem 400 ''malformed'', s)
    | Inr r \<Rightarrow>
        let h = cl_Host who; s1 = gap w 0 s
        in (case call up ''RecordHeartbeat'' (RecordHeartbeat (cl_Tenant who) (h_ID h) (beat_of r now) (sv_store s1)) of
              Inl _ \<Rightarrow> (internal, s1)
            | Inr m \<Rightarrow>
                let wantFacts = wants (hb_FactsDigest r) (h_FactsDigest h) (hb_Facts r \<noteq> None);
                    wantPolicy = wants (hb_PolicyDigest r) (h_PolicyDigest h) (hb_Policy r \<noteq> None)
                in (Replied 200 \<lparr>hr_OnlineKey = onlineKeyLine cf, hr_ServerTime = now,
                      hr_NextHeartbeatSeconds = cf_HeartbeatSeconds cf, hr_WantFullReport = (wantFacts \<and> wantPolicy),
                      hr_WantFacts = wantFacts, hr_WantPolicy = wantPolicy,
                      hr_WantSigners = wants (hb_SignersDigest r) (h_SignersDigest h) (hb_Signers r \<noteq> None)\<rparr>,
                    store_documents cf up w now' new_id who r (s1\<lparr>sv_store := m\<rparr>))))"

section \<open>The long poll\<close>

definition DefaultJobWaitSeconds :: int where [go_defs]: "DefaultJobWaitSeconds = 25"
definition MaxJobWaitSeconds :: int where [go_defs]: "MaxJobWaitSeconds = 60"

definition poll_wait :: "bytes \<Rightarrow> int option" where
  "poll_wait raw =
     (if raw = [] then Some DefaultJobWaitSeconds
      else map_option (\<lambda>n. min (max n 0) MaxJobWaitSeconds) (parse_int64 raw))"

text \<open>The poll subscribes, reads the queue and, where that is empty, waits: \<open>timed_out\<close> says that its deadline
  passed and was what ended the wait. While neither that nor a wake-up has happened it has no answer.\<close>

definition handleJobs ::
  "reach \<Rightarrow> (nat \<Rightarrow> memory \<Rightarrow> memory) \<Rightarrow> (nat \<Rightarrow> instant) \<Rightarrow> bool \<Rightarrow> bytes \<Rightarrow> caller \<Rightarrow> server \<Rightarrow> job list reply option \<times> server" where
  "handleJobs up w clock timed_out wait_text who s = (case poll_wait wait_text of
      None \<Rightarrow> (Some (problem 400 ''malformed''), s)
    | Some wait \<Rightarrow>
        let h = h_ID (cl_Host who); tn = cl_Tenant who in
        (case Subscribe h (w 0 (sv_store s)) of (wake, m0) \<Rightarrow>
           let leave = (\<lambda>m. s\<lparr>sv_store := removeWaiter h wake (w 4 m)\<rparr>); m1 = w 1 m0
           in if \<not> up ''ClaimJobs'' then (Some internal, leave m1)
              else (case ClaimJobs tn (clock 0) h 10 m1 of (jobs, m2) \<Rightarrow>
                if jobs \<noteq> [] \<or> wait = 0 then (Some (Replied 200 jobs), leave m2)
                else let m3 = w 2 m2
                  in if timed_out then (Some (Replied 200 []), leave m3)
                     else if wake \<notin> set (m_closed m3) then (None, s\<lparr>sv_store := m3\<rparr>)
                     else if \<not> up ''ClaimJobs again'' then (Some internal, leave (w 3 m3))
                     else (case ClaimJobs tn (clock 1) h 10 (w 3 m3) of (jobs', m4) \<Rightarrow> (Some (Replied 200 jobs'), leave m4)))))"

section \<open>Results\<close>

text \<open>\<open>utf8.RuneStart\<close>; the ellipsis is one rune of three bytes.\<close>

definition rune_start :: "char \<Rightarrow> bool" where
  "rune_start c \<longleftrightarrow> \<not> cont_byte c"

fun rune_cut :: "bytes \<Rightarrow> nat \<Rightarrow> nat" where
  "rune_cut s 0 = 0"
| "rune_cut s (Suc k) = (if rune_start (s ! Suc k) then Suc k else rune_cut s k)"

definition firstLine :: "bytes \<Rightarrow> bytes" where
  "firstLine s =
     (if s = [] then ''no error text was reported''
      else let l = takeWhile (\<lambda>c. c \<noteq> CHR 0x0A) s
           in if length l > 200 then take (rune_cut l 200) l @ [CHR 0xE2, CHR 0x80, CHR 0xA6] else l)"

definition error_text :: "bytes result_request \<Rightarrow> bytes" where
  "error_text r = (case res_Error r of None \<Rightarrow> [] | Some e \<Rightarrow> e)"

definition result_event :: "host \<Rightarrow> bytes result_request \<Rightarrow> instant \<Rightarrow> notification option" where
  "result_event h r now =
     (if Status r = StatusFailed then Some \<lparr>ne_Kind = KindJobFailed, ne_TenantID = [], ne_HostID = h_ID h, ne_Hostname = h_Hostname h,
        ne_Summary = ''a job failed on '' @ h_Hostname h @ '': '' @ firstLine (error_text r), ne_At = now,
        ne_Detail = [(''jobId'', JStr (JobID r)), (''status'', JStr (Status r)), (''exitCode'', JNum (itoa (res_ExitCode r)))]\<rparr>
      else if Status r = StatusExpired then Some \<lparr>ne_Kind = KindJobExpired, ne_TenantID = [], ne_HostID = h_ID h, ne_Hostname = h_Hostname h,
        ne_Summary = ''a job expired unexecuted on '' @ h_Hostname h @
          ''; it sat past its validity window and the host refused to run stale work'', ne_At = now,
        ne_Detail = [(''jobId'', JStr (JobID r)), (''status'', JStr (Status r))]\<rparr>
      else None)"

definition handleResult ::
  "reach \<Rightarrow> (nat \<Rightarrow> memory \<Rightarrow> memory) \<Rightarrow> (nat \<Rightarrow> instant) \<Rightarrow> bytes option \<Rightarrow> bytes \<Rightarrow> caller \<Rightarrow>
   (decode_failure, bytes result_request) result \<Rightarrow> server \<Rightarrow> bytes reply \<times> server" where
  "handleResult up w clock event_id jobID who body s =
     (if jobID = [] then (problem 400 ''malformed'', s)
      else case body of
        Inl e \<Rightarrow> (if e = TooLarge then problem 413 ''too_large'' else problem 400 ''malformed'', s)
      | Inr r \<Rightarrow>
          if JobID r \<noteq> [] \<and> JobID r \<noteq> jobID then (problem 400 ''malformed'', s)
          else if \<not> ValidStatus (Status r) then (problem 400 ''malformed'', s)
          else
            (case TruncateOutput (Output r) of (out, cut_off) \<Rightarrow>
               let r' = r\<lparr>JobID := jobID, Output := out, OutputTruncated := cut_off\<rparr>;
                   h = cl_Host who; tn = cl_Tenant who; s1 = gap w 0 s
               in (case call up ''RecordResult'' (RecordResult tn (clock 0) (h_ID h) r' (sv_store s1)) of
                     Inl e \<Rightarrow> (if e = Refusal ErrNotFound then problem 404 ''unknown_job'' else internal, s1)
                   | Inr (first, m) \<Rightarrow>
                       (Replied 200 ''recorded'',
                        let s2 = s1\<lparr>sv_store := m\<rparr>
                        in if \<not> first then s2
                           else (case result_event h r' (clock 1) of
                                None \<Rightarrow> s2 | Some ev \<Rightarrow> emit tn (clock 2) event_id ev (gap w 1 s2))))))"

section \<open>Renewals\<close>

record renew_reply =
  rn_Certificate :: bytes
  rn_CABundle :: bytes
  rn_NotAfter :: instant

definition renewal_of :: "config \<Rightarrow> caller \<Rightarrow> x509_cert \<Rightarrow> instant \<Rightarrow> renewal" where
  "renewal_of cf who cert now =
     \<lparr>Replacement = certificate_for cf cert (h_ID (cl_Host who)) (cl_Tenant who) now, Presented = cl_Fingerprint who,
      SupersedeAt = now + renewalOverlap, MaxLive = maxLiveCertificatesPerHost, r_Now = now\<rparr>"

definition renew_certificate ::
  "config \<Rightarrow> reach \<Rightarrow> (nat \<Rightarrow> memory \<Rightarrow> memory) \<Rightarrow> instant \<Rightarrow> instant \<Rightarrow> nat option \<Rightarrow> duration \<Rightarrow> caller \<Rightarrow>
   (decode_failure, bytes) result \<Rightarrow> (renew_reply, renew_reply reply) step" where
  "renew_certificate cf up w now now' serial wait who body = (case body of
      Inl _ \<Rightarrow> denied (problem 400 ''malformed'')
    | Inr csr \<Rightarrow>
        if csr = [] then denied (problem 400 ''malformed'')
        else (case Issue (cf_x509 cf) serial now' csr (h_ID (cl_Host who)) of
            Inl _ \<Rightarrow> denied (problem 400 ''bad_csr'')
          | Inr (pem, cert) \<Rightarrow>
              andThen (changes up w 0 ''RenewCertificate''
                  (\<lambda>m. only (RenewCertificate (cl_Tenant who) (renewal_of cf who cert now) m))
                  (\<lambda>e. if e = Refusal ErrTooManyCertificates
                       then Denied 429 ''too_many_certificates'' [(''Retry-After'', itoa (wait div Second))] else internal))
                (\<lambda>_. going (Replied 200 \<lparr>rn_Certificate = pem, rn_CABundle = cf_CABundle cf, rn_NotAfter = crt_NotAfter cert\<rparr>))))"

definition handleRenew ::
  "config \<Rightarrow> (rat \<Rightarrow> rat) \<Rightarrow> reach \<Rightarrow> (nat \<Rightarrow> memory \<Rightarrow> memory) \<Rightarrow> instant \<Rightarrow> instant \<Rightarrow> nat option \<Rightarrow> caller \<Rightarrow>
   (decode_failure, bytes) result \<Rightarrow> rate_limiter \<Rightarrow> server \<Rightarrow> (renew_reply reply \<times> server) \<times> rate_limiter" where
  "handleRenew cf fl up w now now' serial who body l s = (case allow fl (h_ID (cl_Host who)) now l of
      (ok, l') \<Rightarrow>
        if \<not> ok then ((rate_limited l', s), l')
        else (answer (renew_certificate cf up w now now' serial (retryAfter l') who body) s, l'))"

section \<open>What a heartbeat leaves\<close>

lemma emit_all_frame: "\<exists>evs. sv_store (emit_all nobody_else k tn now ids es s) = (sv_store s)\<lparr>m_events := evs\<rparr>"
proof (induction es arbitrary: k s)
  case Nil
  have "sv_store s = (sv_store s)\<lparr>m_events := m_events (sv_store s)\<rparr>" by simp
  then show ?case by (metis emit_all.simps(1))
next
  case (Cons e es)
  obtain evs where e: "sv_store (emit tn now (ids k) e s) = (sv_store s)\<lparr>m_events := evs\<rparr>" using emit_frame by blast
  from Cons.IH [of "Suc k" "emit tn now (ids k) e s"] e show ?case by auto
qed

text \<open>The rows of hosts are left alone by what follows a facts report.\<close>

lemma detect_hosts: "m_hosts (sv_store (detectUnitTransitions up nobody_else k now ids who previous current s)) = m_hosts (sv_store s)"
proof -
  have e: "m_hosts (sv_store (emit_all nobody_else k tn now ids es s)) = m_hosts (sv_store s)" for tn es k s
    using emit_all_frame [of k tn now ids es s] by auto
  have r: "RecordUnitTransitions tn h trs m = Inr m' \<Longrightarrow> m_hosts m' = m_hosts m" for tn h trs m m'
    by (auto simp: RecordUnitTransitions_def split: if_splits)
  show ?thesis
    by (auto simp: detectUnitTransitions_def Let_def e call_def r split: option.splits sum.splits)
qed

definition set_document :: "document_kind \<Rightarrow> bytes \<Rightarrow> bytes \<Rightarrow> host \<Rightarrow> host" where
  "set_document kind digest document h = (case kind of
      FactsDocument \<Rightarrow> h\<lparr>h_Facts := document, h_FactsDigest := digest\<rparr>
    | PolicyDocument \<Rightarrow> h\<lparr>h_Policy := document, h_PolicyDigest := digest\<rparr>
    | SignersDocument \<Rightarrow> h\<lparr>h_Signers := document, h_SignersDigest := digest\<rparr>)"

text \<open>A document that has a canonical form is kept in that form, under the digest of that form.\<close>

definition kept :: "config \<Rightarrow> document_kind \<Rightarrow> json option \<Rightarrow> host \<Rightarrow> host" where
  "kept cf kind document h = (case document of
      None \<Rightarrow> h
    | Some v \<Rightarrow> (case Marshal v of Inl _ \<Rightarrow> h | Inr e \<Rightarrow> set_document kind (DigestBytes (cf_sha256_hex cf) e) e h))"

lemma storeDocument_host:
  assumes "get (m_hosts (sv_store s)) (h_ID (cl_Host who)) = Some (h, cl_Tenant who)"
  shows "get (m_hosts (sv_store (storeDocumentIfPresent cf (\<lambda>_. True) nobody_else k now ids who kind document s))) (h_ID (cl_Host who)) =
    Some (kept cf kind document h, cl_Tenant who)"
proof (cases document)
  case None
  with assms show ?thesis by (simp add: storeDocumentIfPresent_def kept_def)
next
  case (Some v)
  show ?thesis
  proof (cases "Marshal v")
    case (Inl e)
    with assms Some show ?thesis by (simp add: storeDocumentIfPresent_def kept_def)
  next
    case (Inr e)
    let ?d = "DigestBytes (cf_sha256_hex cf) e"
    have "store_document kind (cl_Tenant who) (h_ID (cl_Host who)) ?d e (sv_store s) =
        Inr ((sv_store s)\<lparr>m_hosts := put (h_ID (cl_Host who)) (set_document kind ?d e h, cl_Tenant who) (m_hosts (sv_store s))\<rparr>)"
      using assms by (cases kind) (simp_all add: store_document_def StoreFacts_def StorePolicy_def StoreSigners_def update_host_def
          scoped_host_def set_document_def)
    with Some Inr show ?thesis
      by (simp add: storeDocumentIfPresent_def kept_def call_def detect_hosts get_put)
  qed
qed

lemma heartbeat_host:
  assumes "handleHeartbeat cf (\<lambda>_. True) nobody_else now now' ids who (Inr r) s = (Replied 200 v, s')"
    and "get (m_hosts (sv_store s)) (h_ID (cl_Host who)) = Some (h, cl_Tenant who)"
  shows "get (m_hosts (sv_store s')) (h_ID (cl_Host who)) = Some
      (kept cf SignersDocument (map_option signers_json (hb_Signers r)) (kept cf PolicyDocument (hb_Policy r)
        (kept cf FactsDocument (hb_Facts r) (h\<lparr>h_AgentVersion := hb_AgentVersion r, h_BootID := hb_BootID r,
           h_UptimeSeconds := hb_UptimeSeconds r, h_ClockOffsetSeconds := hb_ClockOffsetSeconds r, h_Paused := hb_Paused r,
           h_LastSeen := now\<rparr>))), cl_Tenant who)"
    "hr_WantFacts v = wants (hb_FactsDigest r) (h_FactsDigest (cl_Host who)) (hb_Facts r \<noteq> None)"
proof -
  let ?h = "h\<lparr>h_AgentVersion := hb_AgentVersion r, h_BootID := hb_BootID r, h_UptimeSeconds := hb_UptimeSeconds r,
     h_ClockOffsetSeconds := hb_ClockOffsetSeconds r, h_Paused := hb_Paused r, h_LastSeen := now\<rparr>"
  let ?m = "(sv_store s)\<lparr>m_hosts := put (h_ID (cl_Host who)) (?h, cl_Tenant who) (m_hosts (sv_store s))\<rparr>"
  have rec: "RecordHeartbeat (cl_Tenant who) (h_ID (cl_Host who)) (beat_of r now) (sv_store s) = Inr ?m"
    using assms(2) by (simp add: RecordHeartbeat_def update_host_def scoped_host_def beat_of_def)
  have g: "get (m_hosts (sv_store (s\<lparr>sv_store := ?m\<rparr>))) (h_ID (cl_Host who)) = Some (?h, cl_Tenant who)" by simp
  have s': "s' = store_documents cf (\<lambda>_. True) nobody_else now' ids who r (s\<lparr>sv_store := ?m\<rparr>)"
    and "hr_WantFacts v = wants (hb_FactsDigest r) (h_FactsDigest (cl_Host who)) (hb_Facts r \<noteq> None)"
    using assms(1) by (auto simp: handleHeartbeat_def Let_def call_def rec)
  then show "hr_WantFacts v = wants (hb_FactsDigest r) (h_FactsDigest (cl_Host who)) (hb_Facts r \<noteq> None)" by simp
  show "get (m_hosts (sv_store s')) (h_ID (cl_Host who)) = Some
      (kept cf SignersDocument (map_option signers_json (hb_Signers r)) (kept cf PolicyDocument (hb_Policy r)
        (kept cf FactsDocument (hb_Facts r) ?h)), cl_Tenant who)"
    unfolding s' store_documents_def by (intro storeDocument_host g)
qed

lemma kept_other: "kind \<noteq> FactsDocument \<Longrightarrow> h_FactsDigest (kept cf kind d h) = h_FactsDigest h \<and> h_ID (kept cf kind d h) = h_ID h"
  by (cases kind) (auto simp: kept_def set_document_def split: option.splits sum.splits)

lemma kept_id: "h_ID (kept cf kind d h) = h_ID h"
  by (cases kind) (auto simp: kept_def set_document_def split: option.splits sum.splits)

text \<open>Property C17: a facts report is asked for until it arrives, and then no longer. What a beat claims is never what the
  control plane holds: a beat that carries the document leaves its digest, computed here, whatever digest it
  claimed; and one that carries none leaves the digest held as it was. So the next beat, which claims a
  digest and sends nothing, is asked for the document exactly if what is held is another one.\<close>

theorem report_asked_until_held:
  assumes "handleHeartbeat cf (\<lambda>_. True) nobody_else now now' ids who (Inr r) s = (Replied 200 v, s')"
    and "get (m_hosts (sv_store s)) (h_ID (cl_Host who)) = Some (h, cl_Tenant who)"
    and "GetHost (cl_Tenant who) (h_ID (cl_Host who)) (sv_store s') = Inr h'"
    and "handleHeartbeat cf (\<lambda>_. True) nobody_else now2 now2' ids2 (who\<lparr>cl_Host := h'\<rparr>) (Inr r2) s' = (Replied 200 v2, s2)"
    and "hb_Facts r2 = None" "hb_FactsDigest r2 \<noteq> []"
  shows "(\<forall>d e. hb_Facts r = Some d \<and> Marshal d = Inr e \<longrightarrow>
      (hr_WantFacts v2 \<longleftrightarrow> hb_FactsDigest r2 \<noteq> DigestBytes (cf_sha256_hex cf) e)) \<and>
    (hb_Facts r = None \<longrightarrow> (hr_WantFacts v2 \<longleftrightarrow> hb_FactsDigest r2 \<noteq> h_FactsDigest h))"
proof -
  note H = heartbeat_host [OF assms(1,2)]
  let ?b = "h\<lparr>h_AgentVersion := hb_AgentVersion r, h_BootID := hb_BootID r, h_UptimeSeconds := hb_UptimeSeconds r,
     h_ClockOffsetSeconds := hb_ClockOffsetSeconds r, h_Paused := hb_Paused r, h_LastSeen := now\<rparr>"
  have "h' = kept cf SignersDocument (map_option signers_json (hb_Signers r)) (kept cf PolicyDocument (hb_Policy r)
        (kept cf FactsDocument (hb_Facts r) ?b))"
    using assms(3) H(1) by (simp add: GetHost_def scoped_host_def)
  then have d: "h_FactsDigest h' = h_FactsDigest (kept cf FactsDocument (hb_Facts r) ?b)" and i: "h_ID h' = h_ID h"
    by (simp_all add: kept_other kept_id)
  have w: "hr_WantFacts v2 = wants (hb_FactsDigest r2) (h_FactsDigest h') (hb_Facts r2 \<noteq> None)"
    using assms(4) by (auto simp: handleHeartbeat_def Let_def split: sum.splits)
  then have "hr_WantFacts v2 \<longleftrightarrow> hb_FactsDigest r2 \<noteq> h_FactsDigest (kept cf FactsDocument (hb_Facts r) ?b)"
    using assms(5,6) by (simp add: wants_def d)
  then show ?thesis by (auto simp: kept_def set_document_def)
qed

section \<open>A poll sees what is queued while it waits\<close>

text \<open>The calls that leave queues and subscriptions alone, or only take jobs out of queues.\<close>

definition undisturbed :: "memory \<Rightarrow> memory \<Rightarrow> bool" where
  "undisturbed m m' \<longleftrightarrow> m_waiters m' = m_waiters m \<and> m_closed m' = m_closed m \<and>
     (\<forall>key. set (queue_of (m_jobs m') key) \<subseteq> set (queue_of (m_jobs m) key))"

lemma undisturbed_same: "m_waiters m' = m_waiters m \<Longrightarrow> m_closed m' = m_closed m \<Longrightarrow> m_jobs m' = m_jobs m \<Longrightarrow> undisturbed m m'"
  by (simp add: undisturbed_def)

lemma undisturbed_accounts:
  "CreateAccount s now a m = Inr m' \<Longrightarrow> undisturbed m m'"
  "updateAccount s i f m = Inr m' \<Longrightarrow> undisturbed m m'"
  "DeleteAccount s i m = Inr m' \<Longrightarrow> undisturbed m m'"
  "CreateSession s ss m = Inr m' \<Longrightarrow> undisturbed m m'"
  "TouchSession s i hash e u m = Inr m' \<Longrightarrow> undisturbed m m'"
  "DeleteSession s i hash m = Inr m' \<Longrightarrow> undisturbed m m'"
  "DeleteSessionsFor s i m = Inr (n, m') \<Longrightarrow> undisturbed m m'"
  "CreateAPIToken s y m = Inr m' \<Longrightarrow> undisturbed m m'"
  "TouchAPIToken s i hash u m = Inr m' \<Longrightarrow> undisturbed m m'"
  "DeleteAPIToken s i hash m = Inr m' \<Longrightarrow> undisturbed m m'"
  by (auto simp: Let_def CreateAccount_def updateAccount_def DeleteAccount_def CreateSession_def TouchSession_def
      DeleteSession_def DeleteSessionsFor_def CreateAPIToken_def TouchAPIToken_def DeleteAPIToken_def
      split: if_splits option.splits intro!: undisturbed_same)

lemma undisturbed_records:
  "RecordEvent s ev m = Inr m' \<Longrightarrow> undisturbed m m'"
  "RecordUnitTransitions s h trs m = Inr m' \<Longrightarrow> undisturbed m m'"
  "CreateAlertRule s ar m = Inr m' \<Longrightarrow> undisturbed m m'"
  "UpdateAlertRule s ar m = Inr m' \<Longrightarrow> undisturbed m m'"
  "DeleteAlertRule s i m = Inr m' \<Longrightarrow> undisturbed m m'"
  "UpsertAlertState s st m = Inr m' \<Longrightarrow> undisturbed m m'"
  "ReleaseAlertFiring s k m = (b, m') \<Longrightarrow> undisturbed m m'"
  "ClaimAlertNotification s k u cd m = Inr (b, m') \<Longrightarrow> undisturbed m m'"
  "CreateTemplateVersion s tv m = Inr (v, m') \<Longrightarrow> undisturbed m m'"
  "ArchiveTemplate s ta m = Inr m' \<Longrightarrow> undisturbed m m'"
  "RestoreTemplate s name m = Inr m' \<Longrightarrow> undisturbed m m'"
  "CreateWallboardShare s now w m = Inr m' \<Longrightarrow> undisturbed m m'"
  "DeleteWallboardShare s i m = Inr m' \<Longrightarrow> undisturbed m m'"
  by (auto simp: Let_def RecordEvent_def RecordUnitTransitions_def CreateAlertRule_def UpdateAlertRule_def
      DeleteAlertRule_def UpsertAlertState_def ReleaseAlertFiring_def ClaimAlertNotification_def
      CreateTemplateVersion_def ArchiveTemplate_def RestoreTemplate_def CreateWallboardShare_def
      DeleteWallboardShare_def split: if_splits option.splits intro!: undisturbed_same)

lemma undisturbed_hosts:
  "update_host s k f m = Inr m' \<Longrightarrow> undisturbed m m'"
  "RevokeHost s now k m = Inr m' \<Longrightarrow> undisturbed m m'"
  "CreateEnrolledHost s hst c m = Inr m' \<Longrightarrow> undisturbed m m'"
  "CreateEnrollmentToken s x m = Inr m' \<Longrightarrow> undisturbed m m'"
  "ConsumeEnrollmentToken s hash h now m = Inr (tk, m') \<Longrightarrow> undisturbed m m'"
  "AddCertificate s c m = Inr m' \<Longrightarrow> undisturbed m m'"
  "undisturbed m (SupersedeCertificate s fp u m)"
  "CreateTenant now t m = Inr m' \<Longrightarrow> undisturbed m m'"
  "UpdateTenant s pt m = Inr (t, m') \<Longrightarrow> undisturbed m m'"
  by (auto simp: update_host_def RevokeHost_def CreateEnrolledHost_def CreateEnrollmentToken_def ConsumeEnrollmentToken_def
      AddCertificate_def SupersedeCertificate_def CreateTenant_def UpdateTenant_def Let_def
      split: if_splits option.splits sum.splits intro!: undisturbed_same)

lemma undisturbed_trans: "undisturbed a b \<Longrightarrow> undisturbed b c \<Longrightarrow> undisturbed a c"
  unfolding undisturbed_def by force

lemma undisturbed_renew: "RenewCertificate s r m = Inr m' \<Longrightarrow> undisturbed m m'"
  by (auto simp: RenewCertificate_def Let_def split: if_splits sum.splits intro!: undisturbed_trans [OF undisturbed_same undisturbed_hosts(7)])

lemma undisturbed_reports:
  "RecordHeartbeat s k u m = Inr m' \<Longrightarrow> undisturbed m m'"
  "StoreFacts s k digest document m = Inr m' \<Longrightarrow> undisturbed m m'"
  "StorePolicy s k digest document m = Inr m' \<Longrightarrow> undisturbed m m'"
  "StoreSigners s k digest document m = Inr m' \<Longrightarrow> undisturbed m m'"
  "UpdateAccountPassword s i pw m = Inr m' \<Longrightarrow> undisturbed m m'"
  "RecordAccountSignIn s i seen_at m = Inr m' \<Longrightarrow> undisturbed m m'"
  "undisturbed m (RecordAlertDelivery s i seen_at failure m)" "undisturbed m (TouchWallboardShare s i seen_at m)"
  by (auto simp: RecordHeartbeat_def StoreFacts_def StorePolicy_def StoreSigners_def UpdateAccountPassword_def RecordAccountSignIn_def
      RecordAlertDelivery_def TouchWallboardShare_def elim!: undisturbed_hosts(1) undisturbed_accounts(2) split: option.splits intro!: undisturbed_same)

lemma queue_taken: "set (queue_of (del key q) k) \<subseteq> set (queue_of q k)" "set (queue_of (sweep P q) k) \<subseteq> set (queue_of q k)"
  by (auto simp: queue_of_def lookup_delete get_sweep split: option.splits)

lemma undisturbed_deletions:
  "DeleteHost s k m = Inr m' \<Longrightarrow> undisturbed m m'" "DeleteTenant s m = Inr m' \<Longrightarrow> undisturbed m m'"
  by (auto simp: DeleteHost_def DeleteTenant_def Let_def undisturbed_def split: if_splits
      dest: subsetD [OF queue_taken(1)] subsetD [OF queue_taken(2)])

lemma undisturbed_claims:
  "ClaimJobs s now k page m = (js, m') \<Longrightarrow> undisturbed m m'"
  "RecordResult s now k r m = Inr (b, m') \<Longrightarrow> undisturbed m m'"
proof -
  assume c: "ClaimJobs s now k page m = (js, m')"
  then have "set (queue_of (m_jobs m') key) \<subseteq> set (queue_of (m_jobs m) key)" for key
  proof (cases rule: ClaimJobs_cases)
    case (some deferred)
    from some(2) have "set deferred \<subseteq> set (queue_of (m_jobs m) (s, k))" by (metis mset_subset_eq_add_right set_mset_mono set_mset_mset)
    with some(6) show ?thesis by auto
  qed simp
  with claim_frames [OF c] show "undisturbed m m'" by (simp add: undisturbed_def)
next
  assume "RecordResult s now k r m = Inr (b, m')"
  then show "undisturbed m m'" by (auto simp: RecordResult_def Let_def split: option.splits if_splits intro!: undisturbed_same)
qed

lemmas undisturbed_steps = undisturbed_accounts undisturbed_records undisturbed_hosts undisturbed_renew undisturbed_reports undisturbed_deletions undisturbed_claims

lemma job_calls:
  "CreateJob s j m = Some (Inr m') \<Longrightarrow> undisturbed m m' \<or> (\<exists>h b recs. enqueue_and_wake s h b (m\<lparr>m_records := recs\<rparr>) = Some m')"
  "ApproveJob s i approver now m = Some (Inr m') \<Longrightarrow> undisturbed m m' \<or> (\<exists>h b recs. enqueue_and_wake s h b (m\<lparr>m_records := recs\<rparr>) = Some m')"
proof -
  have undisturbed: "undisturbed m (m\<lparr>m_records := recs\<rparr>)" for recs by (simp add: undisturbed_same)
  show "CreateJob s j m = Some (Inr m') \<Longrightarrow> undisturbed m m' \<or> (\<exists>h b recs. enqueue_and_wake s h b (m\<lparr>m_records := recs\<rparr>) = Some m')"
    using undisturbed by (cases "n_ApprovalRequired j") (auto simp: CreateJob_def Let_def split: if_splits)
  show "ApproveJob s i approver now m = Some (Inr m') \<Longrightarrow> undisturbed m m' \<or> (\<exists>h b recs. enqueue_and_wake s h b (m\<lparr>m_records := recs\<rparr>) = Some m')"
    by (auto simp: ApproveJob_def Let_def split: option.splits if_splits)
qed

text \<open>A call leaves queues and subscriptions alone, or queues one job and closes its host's channels.\<close>

lemma scoped_calls:
  assumes "scoped_step s ds m m'"
  shows "undisturbed m m' \<or> (\<exists>tn h b recs. enqueue_and_wake tn h b (m\<lparr>m_records := recs\<rparr>) = Some m')"
proof -
  have undisturbed: "undisturbed m m' \<Longrightarrow> ?thesis" by blast
  from assms show ?thesis
  proof cases
    case (create_job j)
    from job_calls(1) [OF this(2)] show ?thesis by blast
  next
    case (approve_job i approver now)
    from job_calls(2) [OF this(2)] show ?thesis by blast
  qed (rule undisturbed; (erule undisturbed_steps | simp add: undisturbed_steps; fail))+
qed

text \<open>What a call does to a poll that waits at \<open>h\<close> with the channel \<open>wake\<close>: its channel stays until it is closed, and
  the host's queue only grows when it is.\<close>

definition heard :: "tenant_id \<Rightarrow> bytes \<Rightarrow> nat \<Rightarrow> memory \<Rightarrow> memory \<Rightarrow> bool" where
  "heard tn h wake m m' \<longleftrightarrow> wake \<in> set (m_closed m') \<or>
     wake \<in> set (waiting m' h) \<and> set (queue_of (m_jobs m') (tn, h)) \<subseteq> set (queue_of (m_jobs m) (tn, h))"

lemma heard_calm: "undisturbed m m' \<Longrightarrow> wake \<in> set (waiting m h) \<Longrightarrow> heard tn h wake m m'"
  by (simp add: undisturbed_def heard_def)

lemma heard_enqueue:
  assumes "enqueue_and_wake tn' h' j (m\<lparr>m_records := recs\<rparr>) = Some m'" "wake \<in> set (waiting m h)"
  shows "heard tn h wake m m'"
  using enqueue_and_wake_Some [OF assms(1)] assms(2)
  by (cases "h' = h") (auto simp: heard_def waiting_in_def queue_of_def get_put lookup_delete)

lemma heard_scoped:
  assumes "scoped_step s ds m m'" "wake \<in> set (waiting m h)"
  shows "heard tn h wake m m'"
  using scoped_calls [OF assms(1)] heard_calm [OF _ assms(2)] heard_enqueue [OF _ assms(2)] by blast

lemma scoped_closed: "scoped_step s ds m m' \<Longrightarrow> set (m_closed m) \<subseteq> set (m_closed m')"
  by (drule scoped_calls) (auto simp: undisturbed_def dest!: enqueue_and_wake_Some)

text \<open>Whatever other requests do while a poll is subscribed: every call of the store but taking that poll's channel away,
  which only the poll itself does.\<close>

inductive meanwhile :: "bytes \<Rightarrow> nat \<Rightarrow> memory \<Rightarrow> memory \<Rightarrow> bool" for h wake where
  nothing: "meanwhile h wake m m"
| call: "meanwhile h wake m m' \<Longrightarrow> scoped_step s ds m' m'' \<Longrightarrow> meanwhile h wake m m''"
| tenants: "meanwhile h wake m m' \<Longrightarrow>
    CreateTenant now t m' = Inr m'' \<or> UpdateTenant tn patch m' = Inr (t, m'') \<or> DeleteTenant tn m' = Inr m'' \<Longrightarrow> meanwhile h wake m m''"
| joins: "meanwhile h wake m m' \<Longrightarrow> meanwhile h wake m (snd (Subscribe h' m'))"
| leaves: "meanwhile h wake m m' \<Longrightarrow> w \<noteq> wake \<Longrightarrow> meanwhile h wake m (removeWaiter h' w m')"

lemma meanwhile_heard: "meanwhile h wake m m' \<Longrightarrow> wake \<in> set (m_closed m) \<or> wake \<in> set (waiting m h) \<Longrightarrow> heard tn h wake m m'"
proof (induction rule: meanwhile.induct)
  case (nothing m)
  then show ?case by (auto simp: heard_def)
next
  case (call m m' s ds m'')
  then show ?case using heard_scoped [OF call.hyps(2), of wake h tn] scoped_closed [OF call.hyps(2)] by (auto simp: heard_def)
next
  case (tenants m m' now t m'' tn' patch)
  then have "undisturbed m' m''" using undisturbed_steps by metis
  with tenants.IH [OF tenants.prems] show ?case by (auto simp: heard_def undisturbed_def)
next
  case (joins m m' h')
  have "m_closed (snd (Subscribe h' m')) = m_closed m'" "m_jobs (snd (Subscribe h' m')) = m_jobs m'"
    by (simp_all add: Subscribe_def Let_def)
  with joins show ?case by (auto simp: heard_def waiting_Subscribe)
next
  case (leaves m m' w h')
  have "m_closed (removeWaiter h' w m') = m_closed m'" "m_jobs (removeWaiter h' w m') = m_jobs m'"
    by (simp_all add: removeWaiter_def Let_def)
  with leaves show ?case by (auto simp: heard_def waiting_removeWaiter)
qed

text \<open>A look at a queue of at most a page finds every job that is due.\<close>

lemma ClaimJobs_finds:
  assumes "ClaimJobs tn now h 10 m = (jobs, m')" "length (queue_of (m_jobs m) (tn, h)) \<le> 10"
    and "j \<in> set (queue_of (m_jobs m) (tn, h))" "NotBefore j \<le> now"
  shows "j \<in> set jobs"
  using assms(1)
proof (cases rule: ClaimJobs_cases)
  case none
  with assms(3,4) show ?thesis by auto
next
  case (some deferred)
  have "length jobs + length deferred = length (queue_of (m_jobs m) (tn, h))"
    using arg_cong [OF some(2), of size] by simp
  moreover have "j \<in> set jobs \<or> j \<in> set deferred" using assms(3) some(2) by (metis Un_iff set_mset_mset set_mset_union)
  moreover have "length jobs < 10" if "j \<in> set deferred"
    using calculation(1) assms(2) length_pos_if_in_set [OF that] by linarith
  ultimately show ?thesis using some(5) assms(4) by fastforce
qed

text \<open>Property C16: a job that is due is in the answer of the poll its host has open, whatever other requests run in
  between: when it is queued after the poll has subscribed and before its first look at the queue, and when it is queued
  after a first look that found nothing, is still there at the second look, and the wait has not run out before. The queue
  is no longer than a page, and the store answers the looks.\<close>

theorem no_lost_wakeup:
  assumes "poll_wait wait_text = Some wait" "0 < wait" "up ''ClaimJobs''" "up ''ClaimJobs again''"
    and sub: "Subscribe (h_ID (cl_Host who)) (w 0 (sv_store s)) = (wake, m0)"
    and "meanwhile (h_ID (cl_Host who)) wake m0 (w 1 m0)"
    and look: "ClaimJobs (cl_Tenant who) (clock 0) (h_ID (cl_Host who)) 10 (w 1 m0) = (jobs, m2)"
    and "meanwhile (h_ID (cl_Host who)) wake m2 (w 2 m2)"
    and page: "length (queue_of (m_jobs (w 1 m0)) (cl_Tenant who, h_ID (cl_Host who))) \<le> 10"
      "length (queue_of (m_jobs (w 3 (w 2 m2))) (cl_Tenant who, h_ID (cl_Host who))) \<le> 10"
    and due: "NotBefore j \<le> clock 0" "clock 0 \<le> clock 1"
    and queued: "j \<in> set (queue_of (m_jobs (w 1 m0)) (cl_Tenant who, h_ID (cl_Host who))) \<or>
      jobs = [] \<and> j \<in> set (queue_of (m_jobs (w 2 m2)) (cl_Tenant who, h_ID (cl_Host who))) \<and>
        j \<in> set (queue_of (m_jobs (w 3 (w 2 m2))) (cl_Tenant who, h_ID (cl_Host who)))"
  shows "\<exists>given. fst (handleJobs up w clock False wait_text who s) = Some (Replied 200 given) \<and> j \<in> set given"
proof (cases "j \<in> set (queue_of (m_jobs (w 1 m0)) (cl_Tenant who, h_ID (cl_Host who)))")
  case True
  have "j \<in> set jobs" by (rule ClaimJobs_finds [OF look page(1) True due(1)])
  then show ?thesis using assms(1,3) by (auto simp: handleJobs_def Let_def sub look simp del: One_nat_def)
next
  case False
  let ?h = "h_ID (cl_Host who)" and ?tn = "cl_Tenant who"
  from queued False have q: "jobs = []" "j \<in> set (queue_of (m_jobs (w 2 m2)) (?tn, ?h))" "j \<in> set (queue_of (m_jobs (w 3 (w 2 m2))) (?tn, ?h))"
    by auto
  have undisturbed: "undisturbed (w 1 m0) m2" by (rule undisturbed_claims(1) [OF look])
  from sub have "wake \<in> set (waiting m0 ?h)" using waiting_Subscribe [of ?h "w 0 (sv_store s)" ?h] by (auto simp: Subscribe_def Let_def)
  with meanwhile_heard [OF assms(6)] have "wake \<in> set (m_closed (w 1 m0)) \<or> wake \<in> set (waiting (w 1 m0) ?h)" by (auto simp: heard_def)
  with undisturbed have "wake \<in> set (m_closed m2) \<or> wake \<in> set (waiting m2 ?h)" by (simp add: undisturbed_def)
  from meanwhile_heard [OF assms(8) this, of ?tn] q(2) False undisturbed have woken: "wake \<in> set (m_closed (w 2 m2))"
    by (auto simp: heard_def undisturbed_def)
  obtain given m4 where again: "ClaimJobs ?tn (clock 1) ?h 10 (w 3 (w 2 m2)) = (given, m4)" by fastforce
  have "j \<in> set given" by (rule ClaimJobs_finds [OF again page(2) q(3)]) (use due in simp)
  with woken show ?thesis using assms(1-4) q(1) by (simp add: handleJobs_def Let_def sub look again del: One_nat_def)
qed

section \<open>A result is recorded once\<close>

lemma RecordResult_again:
  assumes "RecordResult tn now h r m = Inr (first, m')" "JobID r' = JobID r"
    and "m_records m2 = m_records m'" "m_results m2 = m_results m'"
  shows "RecordResult tn now' h r' m2 = Inr (False, m2)"
proof -
  obtain rec where rec: "get (m_records m) (tn, JobID r) = Some rec" "j_HostID rec = h" "\<not> is_zero (j_ClaimedAt rec)"
    using assms(1) by (auto simp: RecordResult_def Let_def split: option.splits if_splits)
  with assms(1) have "\<exists>rec' res. get (m_records m') (tn, JobID r) = Some rec' \<and> j_HostID rec' = h \<and> \<not> is_zero (j_ClaimedAt rec') \<and>
      get (m_results m') (tn, JobID r) = Some res"
    by (cases "get (m_results m) (tn, JobID r)") (auto simp: RecordResult_def Let_def)
  with assms(2-4) show ?thesis by (auto simp: RecordResult_def Let_def)
qed

text \<open>An agent may send a result as often as it likes: once one was acknowledged, every later one for the same job
  is acknowledged too and changes nothing, whatever it says: no row, no event, no delivery.\<close>

theorem result_recorded_once:
  assumes "handleResult (\<lambda>_. True) nobody_else clock event_id jobID who (Inr r) s = (Replied 200 x, s')"
    and "ValidStatus (Status r')" "JobID r' = [] \<or> JobID r' = jobID"
  shows "handleResult (\<lambda>_. True) nobody_else clock' event_id' jobID who (Inr r') s' = (Replied 200 ''recorded'', s')"
proof -
  let ?tn = "cl_Tenant who" and ?h = "h_ID (cl_Host who)"
  obtain out cut_off where t: "TruncateOutput (Output r) = (out, cut_off)" by fastforce
  obtain out' cut_off' where t': "TruncateOutput (Output r') = (out', cut_off')" by fastforce
  let ?r = "r\<lparr>JobID := jobID, Output := out, OutputTruncated := cut_off\<rparr>"
  let ?r' = "r'\<lparr>JobID := jobID, Output := out', OutputTruncated := cut_off'\<rparr>"
  have j: "jobID \<noteq> []" using assms(1) by (auto simp: handleResult_def)
  obtain first m where m: "RecordResult ?tn (clock 0) ?h ?r (sv_store s) = Inr (first, m)" and
    s': "s' = (if \<not> first then s\<lparr>sv_store := m\<rparr> else (case result_event (cl_Host who) ?r (clock 1) of
        None \<Rightarrow> s\<lparr>sv_store := m\<rparr> | Some ev \<Rightarrow> emit ?tn (clock 2) event_id ev (gap nobody_else 1 (s\<lparr>sv_store := m\<rparr>))))"
    using assms(1) by (auto simp: handleResult_def t Let_def call_def simp del: One_nat_def split: if_splits sum.splits)
  have "\<exists>evs. sv_store s' = m\<lparr>m_events := evs\<rparr>"
  proof (cases "first \<and> result_event (cl_Host who) ?r (clock 1) \<noteq> None")
    case True
    then obtain ev where "s' = emit ?tn (clock 2) event_id ev (s\<lparr>sv_store := m\<rparr>)" using s' by auto
    with emit_frame [of ?tn "clock 2" event_id ev "s\<lparr>sv_store := m\<rparr>"] show ?thesis by simp
  next
    case False
    then have "sv_store s' = m" using s' by (auto split: option.splits)
    then have "sv_store s' = m\<lparr>m_events := m_events m\<rparr>" by simp
    then show ?thesis by blast
  qed
  then obtain evs where evs: "sv_store s' = m\<lparr>m_events := evs\<rparr>" ..
  have "RecordResult ?tn (clock' 0) ?h ?r' (sv_store s') = Inr (False, sv_store s')"
    by (rule RecordResult_again [OF m]) (simp_all add: evs)
  then show ?thesis using assms(2,3) j
    by (auto simp: handleResult_def t' Let_def call_def)
qed

section \<open>A renewal retires what it replaces\<close>

lemma renewed:
  assumes "answer (renew_certificate cf up nobody_else now now' serial wait who (Inr csr)) s = (Replied code v, s')"
  shows "\<exists>cert m. Issue (cf_x509 cf) serial now' csr (h_ID (cl_Host who)) = Inr (rn_Certificate v, cert) \<and>
    RenewCertificate (cl_Tenant who) (renewal_of cf who cert now) (sv_store s) = Inr m \<and> s' = s\<lparr>sv_store := m\<rparr>"
proof -
  have "csr \<noteq> []" using assms by (auto simp: renew_certificate_def answer_def denied_def)
  moreover obtain pem cert where i: "Issue (cf_x509 cf) serial now' csr (h_ID (cl_Host who)) = Inr (pem, cert)"
    using assms by (cases "Issue (cf_x509 cf) serial now' csr (h_ID (cl_Host who))")
      (auto simp: renew_certificate_def answer_def denied_def split: if_splits)
  ultimately have "answer (andThen (changes up nobody_else 0 ''RenewCertificate''
          (\<lambda>m. only (RenewCertificate (cl_Tenant who) (renewal_of cf who cert now) m))
          (\<lambda>e. if e = Refusal ErrTooManyCertificates
               then Denied 429 ''too_many_certificates'' [(''Retry-After'', itoa (wait div Second))] else internal))
        (\<lambda>_. going (Replied 200 \<lparr>rn_Certificate = pem, rn_CABundle = cf_CABundle cf, rn_NotAfter = crt_NotAfter cert\<rparr>))) s
      = (Replied code v, s')"
    using assms by (simp add: renew_certificate_def)
  then obtain m where "RenewCertificate (cl_Tenant who) (renewal_of cf who cert now) (sv_store s) = Inr m" "s' = s\<lparr>sv_store := m\<rparr>"
    "rn_Certificate v = pem"
    by (auto simp: answer_run step_simps andThen_Inl changes_Inl denied_run split: if_splits)
  with i show ?thesis by blast
qed

lemma RenewCertificate_done:
  assumes "RenewCertificate tn (renewal_of cf who cert now) m = Inr m'" "tn = cl_Tenant who"
    and "get (m_certs m) (cf_sha256_hex cf (crt_Raw cert)) = None"
    and old: "get (m_certs m) (cl_Fingerprint who) = Some c" "c_TenantID c = tn" and "now + renewalOverlap \<noteq> 0"
  shows "get (m_certs m') (cf_sha256_hex cf (crt_Raw cert)) = Some (certificate_for cf cert (h_ID (cl_Host who)) tn now)"
    "\<exists>until. get (m_certs m') (cl_Fingerprint who) = Some (c\<lparr>c_SupersededAt := until\<rparr>) \<and> until \<noteq> 0 \<and> until \<le> now + renewalOverlap"
    "m_hosts m' = m_hosts m" "m_tenants m' = m_tenants m"
proof -
  let ?new = "certificate_for cf cert (h_ID (cl_Host who)) tn now" and ?fp = "cf_sha256_hex cf (crt_Raw cert)"
  have ne: "?fp \<noteq> cl_Fingerprint who" using assms(3) old(1) by auto
  have f: "c_Fingerprint ?new = ?fp" by (simp add: certificate_for_def Fingerprint_def)
  have r: "Replacement (renewal_of cf who cert now) = ?new" "Presented (renewal_of cf who cert now) = cl_Fingerprint who"
    "SupersedeAt (renewal_of cf who cert now) = now + renewalOverlap"
    by (simp_all add: renewal_of_def assms(2))
  let ?m1 = "m\<lparr>m_certs := put ?fp ?new (m_certs m)\<rparr>"
  have m': "m' = SupersedeCertificate tn (cl_Fingerprint who) (now + renewalOverlap) ?m1"
    using assms(1,3) unfolding RenewCertificate_def r stamp_certificate_for f by (simp add: Let_def f split: if_splits)
  have g: "get (m_certs ?m1) (cl_Fingerprint who) = Some c" using ne old(1) by (simp add: get_put)
  show "m_hosts m' = m_hosts m" "m_tenants m' = m_tenants m"
    using g old(2) by (simp_all add: m' SupersedeCertificate_def)
  show "get (m_certs m') ?fp = Some ?new"
    using g old(2) ne by (simp add: m' SupersedeCertificate_def get_put)
  show "\<exists>until. get (m_certs m') (cl_Fingerprint who) = Some (c\<lparr>c_SupersededAt := until\<rparr>) \<and> until \<noteq> 0 \<and> until \<le> now + renewalOverlap"
  proof (cases "is_zero (c_SupersededAt c) \<or> now + renewalOverlap < c_SupersededAt c")
    case True
    then show ?thesis using g old(2) assms(6)
      by (intro exI [of _ "now + renewalOverlap"]) (simp add: m' SupersedeCertificate_def)
  next
    case False
    then show ?thesis using g old(2)
      by (intro exI [of _ "c_SupersededAt c"]) (simp add: m' SupersedeCertificate_def is_zero_def)
  qed
qed

text \<open>Property C18: a renewal puts the new certificate in the old one's place: the new one lets the same host in at once, and
  the old one, which goes on working for the overlap, lets nobody in from two days later on, with nothing
  else having to happen.\<close>

theorem renewal_retires:
  assumes "requireAgent (cf_sha256_hex cf) (\<lambda>_. True) (\<lambda>_. sv_store s) t (Some raw) = (Inr who :: ('r reply, caller) result)"
    and "answer (renew_certificate cf (\<lambda>_. True) nobody_else now now' serial wait who (Inr csr)) s = (Replied code v, s')"
    and "store_ok (sv_store s)" "0 \<le> now"
    and fresh: "\<forall>pem cert. Issue (cf_x509 cf) serial now' csr (h_ID (cl_Host who)) = Inr (pem, cert) \<longrightarrow>
      get (m_certs (sv_store s)) (cf_sha256_hex cf (crt_Raw cert)) = None"
  shows "\<exists>cert. Issue (cf_x509 cf) serial now' csr (h_ID (cl_Host who)) = Inr (rn_Certificate v, cert) \<and>
    requireAgent (cf_sha256_hex cf) (\<lambda>_. True) (\<lambda>_. sv_store s') later (Some (crt_Raw cert)) =
      (Inr (who\<lparr>cl_Fingerprint := cf_sha256_hex cf (crt_Raw cert)\<rparr>) :: ('r reply, caller) result) \<and>
    (now + 48 * 3600 * Second \<le> later \<longrightarrow>
     requireAgent (cf_sha256_hex cf) (\<lambda>_. True) (\<lambda>_. sv_store s') later (Some raw) =
       (Inl (problem 401 ''superseded'') :: ('r reply, caller) result))"
proof -
  let ?sha = "cf_sha256_hex cf" and ?tn = "cl_Tenant who"
  obtain c tenant where a: "cl_Fingerprint who = ?sha raw" "get (m_certs (sv_store s)) (?sha raw) = Some c" "\<not> c_Revoked c"
    "get (m_tenants (sv_store s)) (c_TenantID c) = Some tenant" "\<not> t_Suspended tenant" "?tn = c_TenantID c"
    "get (m_hosts (sv_store s)) (c_HostID c) = Some (cl_Host who, c_TenantID c)" "\<not> h_Revoked (cl_Host who)"
    using admitted_by [OF assms(1)] by auto
  obtain cert m where r: "Issue (cf_x509 cf) serial now' csr (h_ID (cl_Host who)) = Inr (rn_Certificate v, cert)"
    "RenewCertificate ?tn (renewal_of cf who cert now) (sv_store s) = Inr m" "s' = s\<lparr>sv_store := m\<rparr>"
    using renewed [OF assms(2)] by blast
  have nz: "now + renewalOverlap \<noteq> 0" using assms(4) by (simp add: renewalOverlap_def Second_def)
  note D = RenewCertificate_done [OF r(2) refl fresh [rule_format, OF r(1)] _ _ nz, unfolded a(1), OF a(2) a(6) [symmetric]]
  from D(2) obtain until where o: "get (m_certs m) (?sha raw) = Some (c\<lparr>c_SupersededAt := until\<rparr>)" "until \<noteq> 0" "until \<le> now + renewalOverlap" by blast
  have h: "h_ID (cl_Host who) = c_HostID c" using hosts_okD(1) [OF _ a(7)] assms(3) by (auto simp: store_ok_def)
  let ?new = "certificate_for cf cert (h_ID (cl_Host who)) ?tn now"
  have s': "sv_store s' = m" by (simp add: r(3))
  have "LookupCertificate (?sha (crt_Raw cert)) m = Inr ?new" "GetTenant ?tn m = Inr tenant" "GetHost ?tn (c_HostID c) m = Inr (cl_Host who)"
    using D(1,3,4) a by (simp_all add: LookupCertificate_def GetTenant_def GetHost_def scoped_host_def)
  moreover have "c_HostID ?new = c_HostID c" "c_TenantID ?new = ?tn" "\<not> c_Revoked ?new" "c_SupersededAt ?new = 0"
    by (simp_all add: certificate_for_def h)
  ultimately have new: "requireAgent ?sha (\<lambda>_. True) (\<lambda>_. sv_store s') later (Some (crt_Raw cert)) =
      (Inr (who\<lparr>cl_Fingerprint := ?sha (crt_Raw cert)\<rparr>) :: ('r reply, caller) result)"
    using a(5,8) by (simp add: requireAgent_def Fingerprint_def call_def Let_def is_zero_def s')
  have "LookupCertificate (?sha raw) m = Inr (c\<lparr>c_SupersededAt := until\<rparr>)" using o(1) by (simp add: LookupCertificate_def)
  then have "requireAgent ?sha (\<lambda>_. True) (\<lambda>_. sv_store s') later (Some raw) =
      (Inl (problem 401 ''superseded'') :: ('r reply, caller) result)" if "now + 48 * 3600 * Second \<le> later"
    using that a(3) o(2,3) by (simp add: requireAgent_def Fingerprint_def call_def Let_def is_zero_def s' renewalOverlap_def)
  with new r(1) show ?thesis by blast
qed

section \<open>Instances\<close>

definition h1 :: caller where
  "h1 = \<lparr>cl_Host = demo_host, cl_Fingerprint = ''fp'', cl_Tenant = DefaultTenant\<rparr>"

lemma h1: "cl_Host h1 = demo_host" "cl_Tenant h1 = DefaultTenant" "cl_Fingerprint h1 = ''fp''" "h_ID demo_host = ''h1''"
  by (simp_all add: h1_def demo_host_def)

definition beat :: "bytes \<Rightarrow> json option \<Rightarrow> heartbeat_request" where
  "beat digest facts = \<lparr>hb_AgentVersion = [], hb_BootID = [], hb_UptimeSeconds = 0, hb_FactsDigest = digest, hb_PolicyDigest = [],
     hb_SignersDigest = [], hb_ClockOffsetSeconds = 0, hb_Paused = False, hb_Facts = facts, hb_Policy = None, hb_Signers = None\<rparr>"

lemma beat_answered:
  assumes "get (m_hosts (sv_store s)) (h_ID (cl_Host who)) = Some (h, cl_Tenant who)"
  shows "\<exists>v s'. handleHeartbeat cf (\<lambda>_. True) nobody_else now now' ids who (Inr r) s = (Replied 200 v, s')"
  using assms by (simp add: handleHeartbeat_def Let_def call_def RecordHeartbeat_def update_host_def scoped_host_def)

theorem report_asked_until_held_witness:
  "\<exists>v s' h' v2 s2. handleHeartbeat demo_config (\<lambda>_. True) nobody_else 5 5 (\<lambda>_. None) h1 (Inr (beat ''lie'' (Some (JObj []))))
      (server_of demo_enrolled) = (Replied 200 v, s') \<and>
    handleHeartbeat demo_config (\<lambda>_. True) nobody_else 6 6 (\<lambda>_. None) (h1\<lparr>cl_Host := h'\<rparr>) (Inr (beat ''sha256:{}'' None)) s' = (Replied 200 v2, s2) \<and>
    \<not> hr_WantFacts v2"
proof -
  let ?r = "beat ''lie'' (Some (JObj []))" and ?r2 = "beat ''sha256:{}'' None"
  have m: "Marshal (JObj []) = Inr ''{}''" by code_simp
  have g: "get (m_hosts (sv_store (server_of demo_enrolled))) (h_ID (cl_Host h1)) = Some (demo_host, cl_Tenant h1)"
    by (simp add: server_of_def demo_enrolled_def h1)
  obtain v s' where b: "handleHeartbeat demo_config (\<lambda>_. True) nobody_else 5 5 (\<lambda>_. None) h1 (Inr ?r) (server_of demo_enrolled) = (Replied 200 v, s')"
    using beat_answered [OF g] by blast
  obtain h' where h': "get (m_hosts (sv_store s')) ''h1'' = Some (h', DefaultTenant)" "h_ID h' = ''h1''"
    using heartbeat_host(1) [OF b g] by (simp add: h1 kept_id)
  have g': "get (m_hosts (sv_store s')) (h_ID (cl_Host (h1\<lparr>cl_Host := h'\<rparr>))) = Some (h', cl_Tenant (h1\<lparr>cl_Host := h'\<rparr>))"
    by (simp add: h' h1)
  obtain v2 s2 where b2: "handleHeartbeat demo_config (\<lambda>_. True) nobody_else 6 6 (\<lambda>_. None) (h1\<lparr>cl_Host := h'\<rparr>) (Inr ?r2) s' = (Replied 200 v2, s2)"
    using beat_answered [OF g'] by blast
  have "GetHost (cl_Tenant h1) (h_ID (cl_Host h1)) (sv_store s') = Inr h'" by (simp add: GetHost_def scoped_host_def h' h1)
  from report_asked_until_held [OF b g this b2] m have "\<not> hr_WantFacts v2"
    by (simp add: beat_def demo_config_def DigestBytes_def DigestPrefix_def)
  with b b2 show ?thesis by blast
qed

definition demo_read :: new_job where
  "demo_read = \<lparr>n_Job = demo_job\<lparr>job_Class := ''read'', Signature := []\<rparr>, n_HostID = ''h1'', n_CreatedBy = ''p:bob'',
     n_ApprovalRequired = False, n_ApprovalDistinctOperator = False\<rparr>"

theorem no_lost_wakeup_witness:
  "\<exists>m given. CreateJob DefaultTenant demo_read (snd (Subscribe ''h1'' demo_enrolled)) = Some (Inr m) \<and>
    fst (handleJobs (\<lambda>_. True) (nobody_else(2 := \<lambda>_. m)) (\<lambda>_. 5) False ''30'' h1 (server_of demo_enrolled)) = Some (Replied 200 given) \<and>
    n_Job demo_read \<in> set given"
proof -
  have ok: "store_ok demo_enrolled" by (rule reachable_ok [OF demo_reachable(1)])
  have s: "sv_store (server_of demo_enrolled) = demo_enrolled" by (simp add: server_of_def)
  obtain wake m0 where sub: "Subscribe ''h1'' demo_enrolled = (wake, m0)" by fastforce
  have w: "waiters_ok m0" using waiters_ok_Subscribe [of demo_enrolled "''h1''"] ok sub by (simp add: store_ok_def)
  have e: "queue_of (m_jobs m0) (DefaultTenant, ''h1'') = []"
    using sub by (auto simp: Subscribe_def Let_def demo_enrolled_def NewMemory_def queue_of_def)
  have "\<exists>m. CreateJob DefaultTenant demo_read m0 = Some (Inr m)"
    using waiters_ok_CreateJob(1) [OF w, of DefaultTenant demo_read] sub
    by (auto simp: CreateJob_def Subscribe_def Let_def scoped_host_def demo_enrolled_def demo_read_def demo_job_def NewMemory_def
        split: if_splits)
  then obtain m where m: "CreateJob DefaultTenant demo_read m0 = Some (Inr m)" by blast
  then have q: "queue_of (m_jobs m) (DefaultTenant, ''h1'') = [n_Job demo_read]"
    using e by (auto simp: CreateJob_def Let_def demo_read_def queue_of_def split: if_splits dest!: enqueue_and_wake_Some)
  have c: "ClaimJobs DefaultTenant 5 ''h1'' 10 m0 = ([], m0)" using e by (simp add: ClaimJobs_def Let_def)
  have "\<exists>given. fst (handleJobs (\<lambda>_. True) (nobody_else(2 := \<lambda>_. m)) (\<lambda>_. 5) False ''30'' h1 (server_of demo_enrolled)) =
      Some (Replied 200 given) \<and> n_Job demo_read \<in> set given"
  proof (rule no_lost_wakeup [where j = "n_Job demo_read"])
    show "poll_wait ''30'' = Some 30" by code_simp
    show "Subscribe (h_ID (cl_Host h1)) ((nobody_else(2 := \<lambda>_. m)) 0 (sv_store (server_of demo_enrolled))) = (wake, m0)"
      using sub by (simp add: s h1)
    show "meanwhile (h_ID (cl_Host h1)) wake m0 ((nobody_else(2 := \<lambda>_. m)) 1 m0)" by (simp add: meanwhile.nothing)
    show "ClaimJobs (cl_Tenant h1) 5 (h_ID (cl_Host h1)) 10 ((nobody_else(2 := \<lambda>_. m)) 1 m0) = ([], m0)" using c by (simp add: h1)
    show "meanwhile (h_ID (cl_Host h1)) wake m0 ((nobody_else(2 := \<lambda>_. m)) 2 m0)"
      using meanwhile.call [OF meanwhile.nothing scoped_step.create_job [OF m]] by (simp add: h1)
  qed (use q e in \<open>simp_all add: h1 demo_read_def demo_job_def\<close>)
  with m sub show ?thesis by auto
qed

definition demo_result :: "bytes result_request" where
  "demo_result = \<lparr>JobID = [], Status = ''failed'', StartedAt = 4, FinishedAt = 5, res_ExitCode = 1, Output = [], OutputTruncated = False,
     Result = None, res_Error = Some ''no''\<rparr>"

theorem result_recorded_once_witness:
  "\<exists>s'. handleResult (\<lambda>_. True) nobody_else (\<lambda>_. 5) None ''j1'' h1 (Inr demo_result) (server_of demo_delivered) = (Replied 200 ''recorded'', s') \<and>
    handleResult (\<lambda>_. True) nobody_else (\<lambda>_. 9) None ''j1'' h1 (Inr (demo_result\<lparr>Status := ''succeeded''\<rparr>)) s' = (Replied 200 ''recorded'', s')"
proof -
  have d: "get (m_records demo_delivered) (DefaultTenant, ''j1'') =
      Some ((job_entry demo_new)\<lparr>j_ApprovedAt := 3, j_ApprovedBy := ''bob'', j_ClaimedAt := 4\<rparr>)" "m_results demo_delivered = no_entries"
    by (simp_all add: demo_delivered_def ClaimJobs_def queue_of_def demo_approved_def demo_created_def demo_enrolled_def demo_defs Let_def
        stamp_claimed_def)
  have "ValidStatus ''failed''" "ValidStatus ''succeeded''" by code_simp+
  then have v: "ValidStatus (Status demo_result)" "ValidStatus (Status (demo_result\<lparr>Status := ''succeeded''\<rparr>))" by (simp_all add: demo_result_def)
  have j: "JobID demo_result = []" by (simp add: demo_result_def)
  obtain out c where t: "TruncateOutput (Output demo_result) = (out, c)" by fastforce
  let ?r = "demo_result\<lparr>JobID := ''j1'', Output := out, OutputTruncated := c\<rparr>"
  have "\<exists>m. RecordResult DefaultTenant 5 ''h1'' ?r demo_delivered = Inr (True, m)"
    by (simp add: RecordResult_def d Let_def is_zero_def job_entry_def demo_new_def)
  then obtain m where m: "RecordResult DefaultTenant 5 ''h1'' ?r demo_delivered = Inr (True, m)" by blast
  have "\<exists>s'. handleResult (\<lambda>_. True) nobody_else (\<lambda>_. 5) None ''j1'' h1 (Inr demo_result) (server_of demo_delivered) = (Replied 200 ''recorded'', s')"
    using m by (simp add: handleResult_def v j t Let_def h1 call_def server_of_def)
  then obtain s' where s': "handleResult (\<lambda>_. True) nobody_else (\<lambda>_. 5) None ''j1'' h1 (Inr demo_result) (server_of demo_delivered) =
      (Replied 200 ''recorded'', s')" by blast
  moreover have "handleResult (\<lambda>_. True) nobody_else (\<lambda>_. 9) None ''j1'' h1 (Inr (demo_result\<lparr>Status := ''succeeded''\<rparr>)) s' =
      (Replied 200 ''recorded'', s')"
    by (rule result_recorded_once [OF s' v(2)]) (simp add: j)
  ultimately show ?thesis by blast
qed

definition renewing_config :: config where
  "renewing_config = demo_config\<lparr>cf_x509 := toy_x509\<lparr>xl_Create := (\<lambda>t key. Some (''der'' @ key))\<rparr>\<rparr>"

theorem renewal_retires_witness:
  "\<exists>v s' cl. answer (renew_certificate renewing_config (\<lambda>_. True) nobody_else 5 5 (Some 1) 60 h1 (Inr ''H2key'')) (server_of demo_enrolled) =
      (Replied 200 v, s') \<and>
    requireAgent (\<lambda>x. x) (\<lambda>_. True) (\<lambda>_. sv_store s') (5 + 48 * 3600 * Second) (Some ''derkey'') = (Inr cl :: (unit reply, caller) result) \<and>
    requireAgent (\<lambda>x. x) (\<lambda>_. True) (\<lambda>_. sv_store s') (5 + 48 * 3600 * Second) (Some ''fp'') = (Inl (problem 401 ''superseded'') :: (unit reply, caller) result)"
proof -
  let ?cert = "toy_cert ''derkey''"
  have sha: "cf_sha256_hex renewing_config = (\<lambda>x. x)" by (simp add: renewing_config_def demo_config_def)
  have i: "Issue (cf_x509 renewing_config) (Some 1) 5 ''H2key'' (h_ID (cl_Host h1)) = Inr (''derkey'', ?cert)"
    by (simp add: Issue_def renewing_config_def demo_config_def toy_x509_def h1)
  have raw: "crt_Raw ?cert = ''derkey''" by (simp add: toy_cert_def)
  have s: "sv_store (server_of demo_enrolled) = demo_enrolled" by (simp add: server_of_def)
  have a: "requireAgent (cf_sha256_hex renewing_config) (\<lambda>_. True) (\<lambda>_. sv_store (server_of demo_enrolled)) 4 (Some ''fp'') =
      (Inr h1 :: (unit reply, caller) result)"
    unfolding s sha
  proof -
    have "LookupCertificate ''fp'' demo_enrolled = Inr demo_cert" "GetHost DefaultTenant ''h1'' demo_enrolled = Inr demo_host"
      "\<exists>t. GetTenant DefaultTenant demo_enrolled = Inr t \<and> \<not> t_Suspended t"
      by (simp_all add: LookupCertificate_def GetTenant_def GetHost_def scoped_host_def demo_enrolled_def NewMemory_def)
    then show "requireAgent (\<lambda>x. x) (\<lambda>_. True) (\<lambda>_. demo_enrolled) 4 (Some ''fp'') = (Inr h1 :: (unit reply, caller) result)"
      by (auto simp: requireAgent_def Fingerprint_def Let_def call_def demo_cert_def h1_def demo_host_def is_zero_def)
  qed
  have new: "get (m_certs demo_enrolled) ''derkey'' = None" by (simp add: demo_enrolled_def NewMemory_def get_put)
  have "CountLiveCertificates DefaultTenant ''h1'' 5 demo_enrolled \<le> 1"
    by (simp add: CountLiveCertificates_def demo_enrolled_def NewMemory_def count_if_def entries_put DAList.empty.rep_eq)
  moreover have "scoped_host DefaultTenant ''h1'' demo_enrolled \<noteq> None"
    by (simp add: demo_enrolled_def NewMemory_def scoped_host_def)
  moreover have "c_HostID (certificate_for renewing_config ?cert ''h1'' DefaultTenant 5) = ''h1''" by (simp add: certificate_for_def)
  ultimately obtain m where m: "RenewCertificate DefaultTenant (renewal_of renewing_config h1 ?cert 5) demo_enrolled = Inr m"
    by (auto simp: RenewCertificate_def renewal_of_def h1 stamp_certificate_for maxLiveCertificatesPerHost_def Let_def)
  then have "\<exists>v s'. answer (renew_certificate renewing_config (\<lambda>_. True) nobody_else 5 5 (Some 1) 60 h1 (Inr ''H2key'')) (server_of demo_enrolled) =
      (Replied 200 v, s')"
    using i by (simp add: renew_certificate_def answer_def andThen_def changes_def call_def only_def going_def s h1)
  then obtain v s' where r: "answer (renew_certificate renewing_config (\<lambda>_. True) nobody_else 5 5 (Some 1) 60 h1 (Inr ''H2key'')) (server_of demo_enrolled) =
      (Replied 200 v, s')" by blast
  have ok: "store_ok (sv_store (server_of demo_enrolled))" unfolding s by (rule reachable_ok [OF demo_reachable(1)])
  have f: "\<forall>pem cert. Issue (cf_x509 renewing_config) (Some 1) 5 ''H2key'' (h_ID (cl_Host h1)) = Inr (pem, cert) \<longrightarrow>
      get (m_certs (sv_store (server_of demo_enrolled))) (cf_sha256_hex renewing_config (crt_Raw cert)) = None"
    using new unfolding i s sha by (auto simp: raw)
  obtain cert where "Issue (cf_x509 renewing_config) (Some 1) 5 ''H2key'' (h_ID (cl_Host h1)) = Inr (rn_Certificate v, cert)" and
    n: "requireAgent (\<lambda>x. x) (\<lambda>_. True) (\<lambda>_. sv_store s') (5 + 48 * 3600 * Second) (Some (crt_Raw cert)) =
      (Inr (h1\<lparr>cl_Fingerprint := crt_Raw cert\<rparr>) :: (unit reply, caller) result)" and
    o: "requireAgent (\<lambda>x. x) (\<lambda>_. True) (\<lambda>_. sv_store s') (5 + 48 * 3600 * Second) (Some ''fp'') =
      (Inl (problem 401 ''superseded'') :: (unit reply, caller) result)"
    using renewal_retires [OF a r ok _ f, where later = "5 + 48 * 3600 * Second"] unfolding sha by auto
  from this(1) i have "cert = ?cert" by simp
  with n o r raw show ?thesis by auto
qed

end
