(* ===== verification/AccountAPI.thy ===== *)
theory AccountAPI
  imports Handling
begin

text \<open>
  What a person may do to their own account (\<open>internal/server/accountapi.go\<close>): change the password, see and end
  the sessions, issue and revoke the tokens of scripts. The account page opens to a session and never to a
  token. \<open>w 0\<close> is what other requests do between authenticating a request and reading its account.
\<close>

section \<open>Who is at the door\<close>

record account_caller =
  acl_Identity :: identity
  acl_Account :: account
  acl_Scope :: tenant_id
  acl_SessionHash :: bytes

definition presentedSessionHash :: "hashing \<Rightarrow> http_request \<Rightarrow> bytes" where
  "presentedSessionHash h r = (case rq_cookie r of
      None \<Rightarrow> []
    | Some v \<Rightarrow> if v = [] then [] else HashSessionToken (hs_sha256_hex h) v)"

definition requireAccount ::
  "hashing \<Rightarrow> bool \<Rightarrow> reach \<Rightarrow> (nat \<Rightarrow> memory \<Rightarrow> memory) \<Rightarrow> provider \<Rightarrow> http_request \<Rightarrow> memory \<Rightarrow> ('r reply, account_caller) result \<times> memory" where
  "requireAccount h has_accounts up w authenticate r m =
     (if \<not> has_accounts then (Inl (problem 404 ''not_found''), m)
      else case authenticate r m of
        (Inl e, m1) \<Rightarrow> (Inl (refuseOrFail e), m1)
      | (Inr i, m1) \<Rightarrow>
          if id_Credential i \<noteq> CredentialSession then (Inl (problem 403 ''session_required''), m1)
          else let m2 = w 0 m1 in
            case call up ''AccountByEmail'' (AccountByEmail (EmailKey (hs_sha256_hex h) (hs_lower h) (id_Subject i)) m2) of
              Inl e \<Rightarrow> (Inl (if e = Refusal ErrNotFound then problem 401 ''unauthenticated'' else internal), m2)
            | Inr a \<Rightarrow> (Inr \<lparr>acl_Identity = i, acl_Account = a, acl_Scope = scopeFor a,
                acl_SessionHash = presentedSessionHash h r\<rparr>, m2))"

definition timeOrNull :: "instant \<Rightarrow> instant option" where
  "timeOrNull t = (if is_zero t then None else Some t)"

record account_view =
  av_email :: bytes
  av_displayName :: bytes
  av_createdAt :: instant
  av_lastSignedIn :: "instant option"
  av_platform :: bool
  av_principal :: bytes

definition handleGetAccount :: "account_caller \<Rightarrow> account_view reply" where
  "handleGetAccount who = Replied 200
     \<lparr>av_email = a_Email (acl_Account who), av_displayName = a_DisplayName (acl_Account who),
      av_createdAt = a_CreatedAt (acl_Account who), av_lastSignedIn = timeOrNull (a_LastSignedInAt (acl_Account who)),
      av_platform = (a_TenantID (acl_Account who) = []), av_principal = Principal (acl_Identity who)\<rparr>"

section \<open>The password\<close>

definition passwordBurst :: int where [go_defs]: "passwordBurst = 5"
definition passwordRefill :: duration where [go_defs]: "passwordRefill = 30 * Second"

text \<open>The body is the current password and the new one.\<close>

definition change_password ::
  "hashing \<Rightarrow> reach \<Rightarrow> (nat \<Rightarrow> memory \<Rightarrow> memory) \<Rightarrow> bytes option \<Rightarrow> account_caller \<Rightarrow> (decode_failure, bytes \<times> bytes) result \<Rightarrow>
   (unit, unit reply) step" where
  "change_password h up w salt who body = (case body of
      Inl e \<Rightarrow> denied (writeDecodeError e)
    | Inr (current, new) \<Rightarrow>
        if \<not> fst (VerifyPassword (hs_argon h) (a_PasswordHash (acl_Account who)) current) then denied (problem 401 ''wrong_password'')
        else if length (runes new) < MinPasswordLength then denied (problem 400 ''password_too_short'')
        else if MaxPasswordLength < length new then denied (problem 400 ''password_too_long'')
        else if new = current then denied (problem 400 ''password_unchanged'')
        else (case HashPassword (hs_argon h) salt new of
            Inl _ \<Rightarrow> denied internal
          | Inr hashed \<Rightarrow>
              andThen (changes up w 1 ''UpdateAccountPassword''
                  (\<lambda>m. only (UpdateAccountPassword (acl_Scope who) (a_ID (acl_Account who)) hashed m)) (\<lambda>_. internal))
                (\<lambda>_. going (Replied 204 ()))))"

definition handleChangePassword ::
  "hashing \<Rightarrow> (rat \<Rightarrow> rat) \<Rightarrow> reach \<Rightarrow> (nat \<Rightarrow> memory \<Rightarrow> memory) \<Rightarrow> instant \<Rightarrow> bytes option \<Rightarrow> account_caller \<Rightarrow>
   (decode_failure, bytes \<times> bytes) result \<Rightarrow> rate_limiter \<Rightarrow> server \<Rightarrow> (unit reply \<times> server) \<times> rate_limiter" where
  "handleChangePassword h fl up w now salt who body l s = (case allow fl (a_ID (acl_Account who)) now l of
      (ok, l') \<Rightarrow>
        if \<not> ok then ((rate_limited l', s), l')
        else (answer (change_password h up w salt who body) s, l'))"

section \<open>Sessions\<close>

record session_view =
  sw_createdAt :: instant
  sw_expiresAt :: instant
  sw_lastUsed :: "instant option"
  sw_userAgent :: bytes
  sw_source :: bytes
  sw_expired :: bool
  sw_current :: bool

definition session_view_of :: "account_caller \<Rightarrow> instant \<Rightarrow> session_row \<Rightarrow> session_view" where
  "session_view_of who now x =
     \<lparr>sw_createdAt = s_CreatedAt x, sw_expiresAt = s_ExpiresAt x, sw_lastUsed = timeOrNull (s_LastUsedAt x),
      sw_userAgent = s_UserAgent x, sw_source = s_Source x, sw_expired = (\<not> session_Valid x now),
      sw_current = (s_TokenHash x = acl_SessionHash who \<and> acl_SessionHash who \<noteq> [])\<rparr>"

definition handleListSessions ::
  "reach \<Rightarrow> (nat \<Rightarrow> memory \<Rightarrow> memory) \<Rightarrow> instant \<Rightarrow> account_caller \<Rightarrow> server \<Rightarrow> session_view list reply \<times> server" where
  "handleListSessions up w now who = answer
     (andThen (asks up w 1 ''ListSessions'' (ListSessions (acl_Scope who) (a_ID (acl_Account who))) (\<lambda>_. internal))
       (\<lambda>xs. going (Replied 200 (map (session_view_of who now) xs))))"

text \<open>Ending every session also clears the cookie of this one; that a failure to do so is only logged.\<close>

definition handleRevokeSessions ::
  "hashing \<Rightarrow> reach \<Rightarrow> (nat \<Rightarrow> memory \<Rightarrow> memory) \<Rightarrow> http_request \<Rightarrow> account_caller \<Rightarrow> server \<Rightarrow> (nat \<times> cookie) reply \<times> server" where
  "handleRevokeSessions h up w r who = answer
     (andThen (changes up w 1 ''DeleteSessionsFor'' (DeleteSessionsFor (acl_Scope who) (a_ID (acl_Account who))) (\<lambda>_. internal))
       (\<lambda>ended s. case SignOut h up r (sv_store (gap w 2 s)) of (_, cleared, m) \<Rightarrow>
          (Inr (Replied 200 (ended, cleared)), (gap w 2 s)\<lparr>sv_store := m\<rparr>)))"

section \<open>The tokens of scripts\<close>

definition MaxAPITokenLabel :: nat where [go_defs]: "MaxAPITokenLabel = 100"
definition MaxAPITokenDays :: int where [go_defs]: "MaxAPITokenDays = 730"

record api_token_view =
  tv_id :: bytes
  tv_label :: bytes
  tv_createdAt :: instant
  tv_expiresAt :: "instant option"
  tv_lastUsed :: "instant option"
  tv_usable :: bool

definition api_token_view_of :: "instant \<Rightarrow> api_token \<Rightarrow> api_token_view" where
  "api_token_view_of now x =
     \<lparr>tv_id = at_Hash x, tv_label = at_Label x, tv_createdAt = at_CreatedAt x, tv_expiresAt = timeOrNull (at_ExpiresAt x),
      tv_lastUsed = timeOrNull (at_LastUsedAt x), tv_usable = api_Usable x now\<rparr>"

definition handleListAPITokens ::
  "reach \<Rightarrow> (nat \<Rightarrow> memory \<Rightarrow> memory) \<Rightarrow> instant \<Rightarrow> account_caller \<Rightarrow> server \<Rightarrow> api_token_view list reply \<times> server" where
  "handleListAPITokens up w now who = answer
     (andThen (asks up w 1 ''ListAPITokens'' (ListAPITokens (acl_Scope who) (a_ID (acl_Account who))) (\<lambda>_. internal))
       (\<lambda>xs. going (Replied 200 (map (api_token_view_of now) xs))))"

record issued_token =
  it_id :: bytes
  it_label :: bytes
  it_createdAt :: instant
  it_expiresAt :: "instant option"
  it_token :: bytes

definition token_row :: "hashing \<Rightarrow> instant \<Rightarrow> account_caller \<Rightarrow> bytes \<Rightarrow> bytes \<Rightarrow> int \<Rightarrow> api_token" where
  "token_row h now who token label days =
     \<lparr>at_Hash = HashAPIToken (hs_sha256_hex h) token, at_AccountID = a_ID (acl_Account who), at_Label = label, at_CreatedAt = now,
      at_ExpiresAt = (if 0 < days then add_days UTC now days else 0), at_LastUsedAt = 0\<rparr>"

text \<open>The body is the label and the days the token lasts.\<close>

definition handleCreateAPIToken ::
  "hashing \<Rightarrow> reach \<Rightarrow> (nat \<Rightarrow> memory \<Rightarrow> memory) \<Rightarrow> instant \<Rightarrow> bytes option \<Rightarrow> account_caller \<Rightarrow>
   (decode_failure, bytes \<times> int) result \<Rightarrow> server \<Rightarrow> issued_token reply \<times> server" where
  "handleCreateAPIToken h up w now rnd who body = answer (case body of
      Inl e \<Rightarrow> denied (writeDecodeError e)
    | Inr (raw_label, days) \<Rightarrow>
        let label = trim_space raw_label in
        if label = [] then denied (problem 400 ''label_required'')
        else if MaxAPITokenLabel < length (runes label) then denied (problem 400 ''label_too_long'')
        else if days < 0 \<or> MaxAPITokenDays < days then denied (problem 400 ''bad_expiry'')
        else (case GenerateAPIToken rnd of
            None \<Rightarrow> denied internal
          | Some token \<Rightarrow>
              let row = token_row h now who token label days in
              andThen (changes up w 1 ''CreateAPIToken'' (\<lambda>m. only (CreateAPIToken (acl_Scope who) row m)) (\<lambda>_. internal))
                (\<lambda>_. going (Replied 201 \<lparr>it_id = at_Hash row, it_label = label, it_createdAt = now,
                    it_expiresAt = timeOrNull (at_ExpiresAt row), it_token = token\<rparr>))))"

definition handleDeleteAPIToken ::
  "reach \<Rightarrow> (nat \<Rightarrow> memory \<Rightarrow> memory) \<Rightarrow> bytes \<Rightarrow> account_caller \<Rightarrow> server \<Rightarrow> unit reply \<times> server" where
  "handleDeleteAPIToken up w i who = answer
     (andThen (changes up w 1 ''DeleteAPIToken'' (\<lambda>m. only (DeleteAPIToken (acl_Scope who) (a_ID (acl_Account who)) i m))
         (\<lambda>e. if e = Refusal ErrNotFound then problem 404 ''not_found'' else internal))
       (\<lambda>_. going (Replied 204 ())))"

section \<open>The page opens to a session\<close>

lemma requireAccount_Inr:
  assumes "requireAccount h has_accounts up w authenticate r m = (Inr who, m')"
  obtains i m1 a where "authenticate r m = (Inr i, m1)" "id_Credential i = CredentialSession"
    "AccountByEmail (EmailKey (hs_sha256_hex h) (hs_lower h) (id_Subject i)) (w 0 m1) = Inr a" "m' = w 0 m1"
    "who = \<lparr>acl_Identity = i, acl_Account = a, acl_Scope = scopeFor a, acl_SessionHash = presentedSessionHash h r\<rparr>"
proof -
  obtain x m1 where x: "authenticate r m = (x, m1)" by fastforce
  from assms x obtain i where i: "x = Inr i" "id_Credential i = CredentialSession" "has_accounts"
    by (cases x) (simp_all add: requireAccount_def split: if_splits)
  let ?q = "call up ''AccountByEmail'' (AccountByEmail (EmailKey (hs_sha256_hex h) (hs_lower h) (id_Subject i)) (w 0 m1))"
  from assms obtain a where "?q = Inr a" "m' = w 0 m1"
    "who = \<lparr>acl_Identity = i, acl_Account = a, acl_Scope = scopeFor a, acl_SessionHash = presentedSessionHash h r\<rparr>"
    by (cases ?q) (simp_all add: requireAccount_def x i Let_def)
  with x i show ?thesis by (intro that [of i m1 a]) (simp_all add: res_simps)
qed

lemma token_credential: "id_Credential (token_identity lower t a) = CredentialAPIToken"
  by (simp add: token_identity_def Let_def)

lemma account_credential: "id_Credential (account_identity lower a) = CredentialSession"
  by (simp add: account_identity_def)

lemma operators_session:
  assumes "operators h ac up now r m = (Inr i, m')" "id_Credential i = CredentialSession"
  obtains token s a where "rq_cookie r = Some token" "token \<noteq> []" "rq_session_header r \<noteq> []"
    "SessionByToken (HashSessionToken (hs_sha256_hex h) token) m = Inr (s, a)" "session_Valid s now"
    "withinMaxAge ac s now" "i = account_identity (hs_lower h) a"
proof -
  obtain x1 m1 where A: "Accounts_Authenticate h ac up now r m = (x1, m1)" by fastforce
  obtain x2 m2 where T: "APITokens_Authenticate h up now r m1 = (x2, m2)" by fastforce
  consider "x1 = Inr i" | "x2 = Inr i"
    using assms(1) A T by (auto simp: operators_def chain_Authenticate_def split: sum.splits if_splits option.splits)
  then show ?thesis
  proof cases
    case 1
    with A have "Accounts_Authenticate h ac up now r m = (Inr i, m1)" by simp
    then show ?thesis by (rule Accounts_Inr) (rule that)
  next
    case 2
    with T have "APITokens_Authenticate h up now r m1 = (Inr i, m2)" by simp
    then obtain t a where "i = token_identity (hs_lower h) t a" by (rule APITokens_Inr)
    with assms(2) show ?thesis by (simp add: token_credential go_defs)
  qed
qed

lemma operators_accounts: "m_accounts (snd (operators h ac up now r m)) = m_accounts m"
proof -
  obtain x1 m1 where A: "Accounts_Authenticate h ac up now r m = (x1, m1)" by fastforce
  have "m_accounts (attempted (call up n (TouchAPIToken tn i k u m1)) m1) = m_accounts m1" for n tn i k u
    by (auto simp: attempted_def res_simps TouchAPIToken_def split: sum.splits option.splits if_splits)
  then have "m_accounts (snd (APITokens_Authenticate h up now r m1)) = m_accounts m1"
    by (auto simp: APITokens_Authenticate_def touch_def Let_def split: sum.splits prod.splits)
  moreover have "m_accounts m1 = m_accounts m" using after_Accounts [of h ac up now r m] A by auto
  ultimately show ?thesis
    by (auto simp: operators_def chain_Authenticate_def A split: sum.splits prod.splits option.splits)
qed

text \<open>The account page opens only to a session that is valid and not too old, and shows the account that session
  is of: a token of the same account, which acts under the same principal everywhere else, is refused there.\<close>

theorem account_page_is_of_the_session:
  assumes "requireAccount h has_accounts up w (operators h ac up' now) r m = (Inr who, m')"
    and "store_ok m" "keyed_by_address h m"
    and "\<And>k x. get (m_accounts m) k = Some x \<Longrightarrow>
      NormaliseEmail (hs_lower h) (NormaliseEmail (hs_lower h) (a_Email x)) = NormaliseEmail (hs_lower h) (a_Email x)"
    and "\<And>n. m_accounts (w 0 n) = m_accounts n"
  shows "\<exists>token s a. rq_cookie r = Some token \<and> acl_SessionHash who = HashSessionToken (hs_sha256_hex h) token \<and>
    SessionByToken (acl_SessionHash who) m = Inr (s, a) \<and> session_Valid s now \<and> withinMaxAge ac s now \<and>
    acl_Account who = a \<and> acl_Scope who = a_TenantID a"
proof -
  from assms(1) obtain i m1 a' where i: "operators h ac up' now r m = (Inr i, m1)" "id_Credential i = CredentialSession"
    and e: "AccountByEmail (EmailKey (hs_sha256_hex h) (hs_lower h) (id_Subject i)) (w 0 m1) = Inr a'"
    and who: "who = \<lparr>acl_Identity = i, acl_Account = a', acl_Scope = scopeFor a', acl_SessionHash = presentedSessionHash h r\<rparr>"
    by (rule requireAccount_Inr)
  from i obtain token s a where t: "rq_cookie r = Some token" "token \<noteq> []"
    "SessionByToken (HashSessionToken (hs_sha256_hex h) token) m = Inr (s, a)" "session_Valid s now"
    "withinMaxAge ac s now" "i = account_identity (hs_lower h) a" by (rule operators_session)
  have ok: "accounts_ok (m_accounts m) (m_sessions m) (m_apiTokens m)" using assms(2) by (simp add: store_ok_def)
  have accs: "m_accounts (w 0 m1) = m_accounts m"
    using operators_accounts [of h ac up' now r m] i(1) assms(5) by simp
  from t(3) have a: "get (m_accounts m) (s_AccountID s) = Some a"
    by (auto simp: SessionByToken_def split: option.splits)
  from e accs have "first_entry (\<lambda>_ x. a_EmailKey x = EmailKey (hs_sha256_hex h) (hs_lower h) (id_Subject i)) (m_accounts m) = Some a'"
    by (simp add: AccountByEmail_def split: option.splits)
  then obtain k where k: "get (m_accounts m) k = Some a'"
    "a_EmailKey a' = EmailKey (hs_sha256_hex h) (hs_lower h) (id_Subject i)" by (auto dest: first_entry_Some)
  have "id_Subject i = NormaliseEmail (hs_lower h) (a_Email a)"
    by (simp add: t(6) account_identity_def identityFor_def)
  with assms(4) [OF a] have "EmailKey (hs_sha256_hex h) (hs_lower h) (id_Subject i) = EmailKey (hs_sha256_hex h) (hs_lower h) (a_Email a)"
    by (simp add: EmailKey_def)
  with a assms(3) k(2) have "a_EmailKey a' = a_EmailKey a" by (simp add: keyed_by_address_def)
  with accounts_okD(2) [OF ok k(1) a] k(1) a have "a' = a" by simp
  then show ?thesis using t by (simp add: who presentedSessionHash_def scopeFor_def)
qed

section \<open>Tokens are as good as their account\<close>

lemma trim_space_graphic:
  assumes "\<forall>c \<in> set s. bv c < 128 \<and> \<not> is_space_rune [c]"
  shows "trim_space s = s"
proof -
  have r: "runes s = map (\<lambda>c. [c]) s" using assms by (intro runes_ascii) blast
  have "dropWhile is_space_rune (map (\<lambda>c. [c]) s) = map (\<lambda>c. [c]) s"
    using assms by (cases s) simp_all
  moreover have "dropWhile is_space_rune (rev (map (\<lambda>c. [c]) s)) = rev (map (\<lambda>c. [c]) s)"
    using assms by (cases s rule: rev_cases) simp_all
  moreover have "concat (map (\<lambda>c. [c]) s) = s" by (induction s) simp_all
  ultimately show ?thesis by (simp add: trim_space_def r)
qed

definition url64_char :: "nat \<Rightarrow> char" where
  "url64_char v = (let c = b64_char v in if c = CHR ''+'' then CHR ''-'' else if c = CHR ''/'' then CHR ''_'' else c)"

lemma url64_chars: "v < 64 \<Longrightarrow> bv (url64_char v) < 128 \<and> \<not> is_space_rune [url64_char v]"
proof -
  have "list_all (\<lambda>v. bv (url64_char v) < 128 \<and> \<not> is_space_rune [url64_char v]) [0..<64]" by code_simp
  then show "v < 64 \<Longrightarrow> ?thesis" by (simp add: list_all_iff)
qed

lemma issued_graphic:
  assumes "GenerateAPIToken rnd = Some token"
  shows "trim_space token = token" "token \<noteq> []"
proof -
  from assms obtain raw where token: "token = ''hsl_'' @ url64_encode raw" by (auto simp: GenerateAPIToken_def go_defs)
  have "bv c < 128 \<and> \<not> is_space_rune [c]" if "c \<in> set (url64_encode raw)" for c
  proof -
    from that obtain d where "d \<in> set (raw64_encode raw)"
      "c = (if d = CHR ''+'' then CHR ''-'' else if d = CHR ''/'' then CHR ''_'' else d)"
      unfolding url64_encode_def set_map by (rule imageE)
    moreover from this(1) obtain v where "v < 64" "d = b64_char v" using raw64_chars by blast
    ultimately have "c = url64_char v" by (simp only: url64_char_def Let_def)
    with url64_chars [OF \<open>v < 64\<close>] show ?thesis by simp
  qed
  moreover have "list_all (\<lambda>c. bv c < 128 \<and> \<not> is_space_rune [c]) ''hsl_''" by code_simp
  ultimately show "trim_space token = token" unfolding token by (intro trim_space_graphic) (auto simp: list_all_iff)
  show "token \<noteq> []" by (simp add: token)
qed

lemma bearer_issued:
  assumes "GenerateAPIToken rnd = Some token" "rq_authorization r = ''Bearer '' @ token"
  shows "bearerToken r = token"
proof -
  have "cut (CHR '' '') (''Bearer'' @ CHR '' '' # token) = (''Bearer'', token, True)" by (rule cut_append) simp
  moreover have "to_lower ''Bearer'' = ''bearer''" by code_simp
  ultimately show ?thesis using issued_graphic(1) [OF assms(1)] by (simp add: bearerToken_def assms(2))
qed

lemma answer_denied: "answer (denied (Denied c e hs)) s \<noteq> (Replied code v, s')"
  by (simp add: answer_def denied_def)

lemma answer_unless:
  "answer (if b then denied (Denied c e hs) else k) s = (Replied code v, s') \<longleftrightarrow> \<not> b \<and> answer k s = (Replied code v, s')"
  by (simp add: answer_denied)

lemma answer_changed:
  "answer (andThen (changes up w k name q (\<lambda>_. Denied c e hs)) (\<lambda>x. going (Replied code' (f x)))) s = (Replied code v, s') \<longleftrightarrow>
    up name \<and> (\<exists>x m. q (w k (sv_store s)) = Inr (x, m) \<and> s' = (gap w k s)\<lparr>sv_store := m\<rparr> \<and> code = code' \<and> v = f x)"
  by (auto simp: answer_run step_simps andThen_Inl changes_Inl)

lemmas answer_simps = answer_denied answer_unless answer_changed

lemma created_token:
  assumes "handleCreateAPIToken h up w now rnd who body s = (Replied code v, s')"
  obtains label days where "GenerateAPIToken rnd = Some (it_token v)" "code = 201" "0 \<le> days" "days \<le> 730"
    "it_expiresAt v = timeOrNull (at_ExpiresAt (token_row h now who (it_token v) label days))"
    "CreateAPIToken (acl_Scope who) (token_row h now who (it_token v) label days) (w 1 (sv_store s)) = Inr (sv_store s')"
proof (cases body)
  case (Inl e)
  with assms show ?thesis by (cases e) (simp_all add: handleCreateAPIToken_def answer_simps writeDecodeError_def)
next
  case body: (Inr p)
  obtain raw days where p: "p = (raw, days)" by fastforce
  note run = assms [unfolded handleCreateAPIToken_def body p sum.case prod.case Let_def answer_unless]
  from run obtain token where token: "GenerateAPIToken rnd = Some token"
    by (cases "GenerateAPIToken rnd") (simp_all add: answer_denied)
  show ?thesis
    using run token that [of days "trim_space raw"]
    by (auto simp: answer_changed step_simps MaxAPITokenDays_def)
qed

text \<open>Property C39: a token that was issued speaks for the account that asked for it, under the account's principal, until it expires,
  and is refused from then on; and it never opens the account page, so no token makes another.\<close>

theorem issued_token_speaks:
  assumes "handleCreateAPIToken h up w now rnd who body s = (Replied code v, s')"
    and "rq_cookie r = None" "rq_authorization r = ''Bearer '' @ it_token v" "up' ''APITokenByHash''"
  shows "if it_expiresAt v = None \<or> now' < the (it_expiresAt v)
    then \<exists>a i m'. get (m_accounts (sv_store s')) (a_ID (acl_Account who)) = Some a \<and> a_TenantID a = acl_Scope who \<and>
      operators h ac up' now' r (sv_store s') = (Inr i, m') \<and> stands_for (hs_lower h) a i \<and>
      requireAccount h True up' w' (operators h ac up' now') r (sv_store s') =
        (Inl (problem 403 ''session_required'') :: ('r reply, account_caller) result, m')
    else fst (operators h ac up' now' r (sv_store s')) = Inl ErrUnauthenticated"
proof -
  from assms(1) obtain label days where token: "GenerateAPIToken rnd = Some (it_token v)"
    and exp: "it_expiresAt v = timeOrNull (at_ExpiresAt (token_row h now who (it_token v) label days))"
    and c: "CreateAPIToken (acl_Scope who) (token_row h now who (it_token v) label days) (w 1 (sv_store s)) = Inr (sv_store s')"
    by (rule created_token)
  let ?row = "token_row h now who (it_token v) label days"
  have hash: "at_Hash ?row = HashAPIToken (hs_sha256_hex h) (bearerToken r)" "at_AccountID ?row = a_ID (acl_Account who)"
    by (simp_all add: token_row_def bearer_issued [OF token assms(3)])
  from c have s': "sv_store s' = (w 1 (sv_store s))\<lparr>m_apiTokens := put (at_Hash ?row) ?row (m_apiTokens (w 1 (sv_store s)))\<rparr>"
    by (simp add: CreateAPIToken_def split: if_splits)
  from c obtain a where "scoped_account (acl_Scope who) (a_ID (acl_Account who)) (w 1 (sv_store s)) = Some a"
    by (auto simp: CreateAPIToken_def hash(2) split: if_splits)
  then have a: "get (m_accounts (sv_store s')) (a_ID (acl_Account who)) = Some a" "a_TenantID a = acl_Scope who"
    "get (m_apiTokens (sv_store s')) (at_Hash ?row) = Some ?row"
    by (simp_all add: s' scoped_account_Some get_put)
  then have q: "APITokenByHash (HashAPIToken (hs_sha256_hex h) (bearerToken r)) (sv_store s') = Inr (?row, a)"
    by (simp add: APITokenByHash_def hash)
  have b: "bearerToken r \<noteq> []" using issued_graphic(2) [OF token] by (simp add: bearer_issued [OF token assms(3)])
  have use: "it_expiresAt v = None \<or> now' < the (it_expiresAt v) \<longleftrightarrow> api_Usable ?row now'"
    by (simp add: exp timeOrNull_def api_Usable_def)
  have "operators h ac up' now' r (sv_store s') = (if api_Usable ?row now'
      then (Inr (token_identity (hs_lower h) ?row a), touch up' ?row a now' (sv_store s')) else (Inl ErrUnauthenticated, sv_store s'))"
    by (simp add: operators_def chain_Authenticate_def Accounts_Authenticate_def APITokens_Authenticate_def assms(2) b q call_def assms(4))
  then show ?thesis
    using a(1,2) by (simp add: use requireAccount_def token_credential go_defs identity_stands_for)
qed

section \<open>Signing out everywhere\<close>

lemma DeleteSessionsFor_Inr:
  assumes "DeleteSessionsFor tn i m = Inr (n, m')"
  shows "m' = m\<lparr>m_sessions := sweep (\<lambda>_ held. s_AccountID held = i) (m_sessions m)\<rparr>"
    "n = count_if (\<lambda>_ held. s_AccountID held = i) (m_sessions m)" "scoped_account tn i m \<noteq> None"
  using assms by (simp_all add: DeleteSessionsFor_def split: if_splits)

lemma SignOut_unknown:
  assumes "\<And>v. rq_cookie r = Some v \<Longrightarrow> v \<noteq> [] \<Longrightarrow> get (m_sessions m) (HashSessionToken (hs_sha256_hex h) v) = None"
  shows "\<exists>e. SignOut h up r m = (e, session_cookie [] UnixEpoch, m)"
proof (cases "rq_cookie r")
  case (Some v)
  with assms have "SessionByToken (HashSessionToken (hs_sha256_hex h) v) m = Inl ErrNotFound" if "v \<noteq> []"
    using that by (simp add: SessionByToken_def)
  then show ?thesis by (simp add: SignOut_def Some Let_def call_def)
qed (simp add: SignOut_def Let_def)

text \<open>After an account is signed out everywhere no browser is signed in as it, the one that asked included and its cookie
  cleared, while every session of another account and every token of a script stands.\<close>

theorem signed_out_everywhere:
  assumes "handleRevokeSessions h up w r who s = (Replied code (n, c), s')" "w 2 = (\<lambda>m. m)"
    and "\<And>v x. rq_cookie r = Some v \<Longrightarrow>
      get (m_sessions (w 1 (sv_store s))) (HashSessionToken (hs_sha256_hex h) v) = Some x \<Longrightarrow> s_AccountID x = a_ID (acl_Account who)"
  shows "(\<forall>i. fst (Accounts_Authenticate h ac up' now' r' (sv_store s')) = Inr i \<longrightarrow>
      (\<exists>k a. k \<noteq> a_ID (acl_Account who) \<and> get (m_accounts (sv_store s')) k = Some a \<and> i = account_identity (hs_lower h) a)) \<and>
    c = session_cookie [] UnixEpoch \<and>
    (\<forall>k x. get (m_sessions (w 1 (sv_store s))) k = Some x \<longrightarrow> s_AccountID x \<noteq> a_ID (acl_Account who) \<longrightarrow>
      get (m_sessions (sv_store s')) k = Some x) \<and>
    m_apiTokens (sv_store s') = m_apiTokens (w 1 (sv_store s))"
proof -
  let ?m = "w 1 (sv_store s)" and ?i = "a_ID (acl_Account who)"
  let ?left = "?m\<lparr>m_sessions := sweep (\<lambda>_ held. s_AccountID held = ?i) (m_sessions ?m)\<rparr>"
  have "\<exists>e. SignOut h up r ?left = (e, session_cookie [] UnixEpoch, ?left)"
    by (rule SignOut_unknown) (use assms(3) in \<open>auto simp: get_sweep split: option.splits\<close>)
  then obtain e where out: "SignOut h up r ?left = (e, session_cookie [] UnixEpoch, ?left)" by blast
  have g: "gap w 2 t = t" for t using assms(2) by (simp add: gap_def)
  obtain n' where del: "DeleteSessionsFor (acl_Scope who) ?i ?m = Inr (n', ?left)" "up ''DeleteSessionsFor''"
  proof (cases "call up ''DeleteSessionsFor'' (DeleteSessionsFor (acl_Scope who) ?i ?m)")
    case (Inl e)
    with assms(1) show ?thesis by (simp add: handleRevokeSessions_def answer_def andThen_def changes_def)
  next
    case (Inr p)
    then show ?thesis using that DeleteSessionsFor_Inr(1) by (cases p) (auto simp: res_simps)
  qed
  have "gap w 1 s\<lparr>sv_store := ?left\<rparr> = s\<lparr>sv_store := ?left\<rparr>" by (simp add: gap_def)
  with assms(1) have "c = session_cookie [] UnixEpoch \<and> sv_store s' = ?left"
    by (auto simp: handleRevokeSessions_def answer_def andThen_def changes_def call_def del g out simp del: One_nat_def)
  then have c: "c = session_cookie [] UnixEpoch" and s': "sv_store s' = ?left" by simp_all
  have "\<exists>k a. k \<noteq> ?i \<and> get (m_accounts (sv_store s')) k = Some a \<and> i = account_identity (hs_lower h) a"
    if i: "fst (Accounts_Authenticate h ac up' now' r' (sv_store s')) = Inr i" for i
  proof -
    from i obtain m'' where "Accounts_Authenticate h ac up' now' r' (sv_store s') = (Inr i, m'')"
      by (cases "Accounts_Authenticate h ac up' now' r' (sv_store s')") simp
    then obtain t x a where "SessionByToken (HashSessionToken (hs_sha256_hex h) t) (sv_store s') = Inr (x, a)"
      "i = account_identity (hs_lower h) a" by (rule Accounts_Inr)
    moreover from this(1) have "get (m_sessions (sv_store s')) (HashSessionToken (hs_sha256_hex h) t) = Some x"
      "get (m_accounts (sv_store s')) (s_AccountID x) = Some a" by (auto simp: SessionByToken_def split: option.splits)
    moreover from this(1) have "s_AccountID x \<noteq> ?i" by (auto simp: s' get_sweep split: option.splits if_splits)
    ultimately show ?thesis by blast
  qed
  moreover have "get (m_sessions (sv_store s')) k = Some x"
    if "get (m_sessions ?m) k = Some x" "s_AccountID x \<noteq> ?i" for k x using that by (simp add: s' get_sweep)
  moreover have "m_apiTokens (sv_store s') = m_apiTokens ?m" by (simp add: s')
  ultimately show ?thesis using c by blast
qed

section \<open>Changing the password\<close>

lemma stored_password:
  assumes "HashPassword argon (Some salt) password = Inr encoded" "length salt = 16" "\<And>d. length (argon d) = dv_length d"
  shows "fst (VerifyPassword argon encoded password)" "\<not> NeedsRehash encoded" "12 \<le> length (runes password)" "length password \<le> 256"
  by (rule stored_form [OF assms]; simp add: VerifyPassword_def NeedsRehash_def Let_def MaxPasswordLength_def argonKeyLength_def)+

text \<open>A password is changed only for who knows the current one and is within the limit; the account then verifies the
  new one, which is another one of a length within the bounds, and nobody is signed out.\<close>

theorem password_changed:
  assumes "handleChangePassword h fl up w now (Some salt) who body l s = ((Replied code v, s'), l')"
    and "length salt = 16" "\<And>d. length (hs_argon h d) = dv_length d"
  shows "\<exists>current new a hashed. body = Inr (current, new) \<and> fst (allow fl (a_ID (acl_Account who)) now l) \<and>
    fst (VerifyPassword (hs_argon h) (a_PasswordHash (acl_Account who)) current) \<and> new \<noteq> current \<and>
    12 \<le> length (runes new) \<and> length new \<le> 256 \<and>
    get (m_accounts (w 1 (sv_store s))) (a_ID (acl_Account who)) = Some a \<and>
    sv_store s' = (w 1 (sv_store s))\<lparr>m_accounts :=
      put (a_ID (acl_Account who)) (a\<lparr>a_PasswordHash := hashed\<rparr>) (m_accounts (w 1 (sv_store s)))\<rparr> \<and>
    fst (VerifyPassword (hs_argon h) hashed new) \<and> \<not> NeedsRehash hashed"
proof -
  from assms(1) have ok: "fst (allow fl (a_ID (acl_Account who)) now l)"
    and run: "answer (change_password h up w (Some salt) who body) s = (Replied code v, s')"
    by (auto simp: handleChangePassword_def rate_limited_def split: prod.splits if_splits)
  from run obtain current new where body: "body = Inr (current, new)"
  proof (cases body)
    case (Inl e)
    with run show ?thesis by (cases e) (simp_all add: change_password_def answer_simps writeDecodeError_def)
  next
    case (Inr p)
    with that show ?thesis by (cases p) simp
  qed
  note run = run [unfolded change_password_def body sum.case prod.case answer_unless]
  from run obtain hashed where hashed: "HashPassword (hs_argon h) (Some salt) new = Inr hashed"
    by (cases "HashPassword (hs_argon h) (Some salt) new") (simp_all add: answer_denied)
  from run have "UpdateAccountPassword (acl_Scope who) (a_ID (acl_Account who)) hashed (w 1 (sv_store s)) = Inr (sv_store s')"
    by (auto simp: hashed answer_changed step_simps)
  then obtain a where "get (m_accounts (w 1 (sv_store s))) (a_ID (acl_Account who)) = Some a"
    "sv_store s' = (w 1 (sv_store s))\<lparr>m_accounts :=
      put (a_ID (acl_Account who)) (a\<lparr>a_PasswordHash := hashed\<rparr>) (m_accounts (w 1 (sv_store s)))\<rparr>"
    by (auto simp: UpdateAccountPassword_def updateAccount_def scoped_account_Some split: option.splits)
  moreover note stored_password [OF hashed assms(2,3)]
  ultimately show ?thesis using ok run body by blast
qed

section \<open>Instances\<close>

definition demo_who :: account_caller where
  "demo_who = \<lparr>acl_Identity = account_identity (\<lambda>x. x) demo_account, acl_Account = demo_account, acl_Scope = ''default'',
     acl_SessionHash = ''cookie''\<rparr>"

lemma demo_trims: "trim_space ''cookie'' = ''cookie''" "trim_space ''eve'' = ''eve''" "trim_space ''ci'' = ''ci''"
  by code_simp+

lemma demo_admitted:
  "requireAccount demo_hashing True (\<lambda>_. True) (\<lambda>_ m. m) (operators demo_hashing (NewAccounts 0 0) (\<lambda>_. True) 5) demo_request
    demo_memory = (Inr demo_who :: ('r reply, account_caller) result, demo_memory)"
proof -
  have "SessionByToken ''cookie'' demo_memory = Inr (\<lparr>s_TokenHash = ''cookie'', s_AccountID = ''A1'', s_CreatedAt = 1,
      s_ExpiresAt = 100, s_LastUsedAt = 0, s_UserAgent = [], s_Source = []\<rparr>, demo_account)"
    by (simp add: SessionByToken_def demo_memory_def get_put)
  then have "operators demo_hashing (NewAccounts 0 0) (\<lambda>_. True) 5 demo_request demo_memory =
      (Inr (account_identity (\<lambda>x. x) demo_account), demo_memory)"
    by (simp add: operators_def chain_Authenticate_def Accounts_Authenticate_def APITokens_Authenticate_def Let_def
        demo_request_def demo_hashing_def HashSessionToken_def demo_trims call_def session_Valid_def withinMaxAge_def
        NewAccounts_def go_defs bearerToken_def renew_def time_sub_def int64_min_def int64_max_def is_zero_def)
  moreover have "id_Subject (account_identity (\<lambda>x. x) demo_account) = ''eve''"
    by (simp add: account_identity_def identityFor_def NormaliseEmail_def demo_account_def demo_trims)
  moreover have "presentedSessionHash demo_hashing demo_request = ''cookie''"
    by (simp add: presentedSessionHash_def demo_request_def HashSessionToken_def demo_hashing_def demo_trims)
  ultimately show ?thesis using demo_by_email(1)
    by (simp add: requireAccount_def account_credential Let_def call_def demo_hashing_def demo_who_def scopeFor_def)
      (simp add: demo_account_def)
qed

theorem account_page_is_of_the_session_witness:
  "\<exists>s a. SessionByToken (acl_SessionHash demo_who) demo_memory = Inr (s, a) \<and> session_Valid s 5 \<and> acl_Account demo_who = a"
proof -
  have lower: "NormaliseEmail (hs_lower demo_hashing) (NormaliseEmail (hs_lower demo_hashing) (a_Email x)) =
      NormaliseEmail (hs_lower demo_hashing) (a_Email x)" if "get (m_accounts demo_memory) k = Some x" for k x
    using that by (auto simp: demo_memory_def get_put demo_account_def demo_hashing_def NormaliseEmail_def demo_trims split: if_splits)
  show ?thesis
    using account_page_is_of_the_session [OF demo_admitted demo_ok demo_keyed] lower by blast
qed

lemma demo_scoped: "scoped_account ''default'' ''A1'' demo_memory = Some demo_account"
  by (simp add: scoped_account_def demo_memory_def get_put demo_account_def)

lemma demo_who_simps: "acl_Scope demo_who = ''default''" "acl_Account demo_who = demo_account" "a_ID demo_account = ''A1''"
  by (simp_all add: demo_who_def demo_account_def)

theorem issued_token_speaks_witness:
  "\<exists>token s' m' i. fst (handleCreateAPIToken demo_hashing (\<lambda>_. True) (\<lambda>_ m. m) 10 (Some ''k'') demo_who (Inr (''ci'', 0))
      (server_of demo_memory)) = Replied 201 \<lparr>it_id = token, it_label = ''ci'', it_createdAt = 10, it_expiresAt = None, it_token = token\<rparr> \<and>
    operators demo_hashing (NewAccounts 0 0) (\<lambda>_. True) 20 (demo_request\<lparr>rq_cookie := None, rq_authorization := ''Bearer '' @ token\<rparr>) s' =
      (Inr i, m') \<and> id_Tenant i = ''default''"
proof -
  obtain token where token: "GenerateAPIToken (Some ''k'') = Some token" by (simp add: GenerateAPIToken_def)
  have k: "get (m_apiTokens demo_memory) token = None"
  proof -
    have "GenerateAPIToken (Some ''k'') \<noteq> Some ''hsl_k''" by code_simp
    with token show ?thesis by (auto simp: demo_memory_def get_put)
  qed
  have len: "length (runes ''ci'') = 2" by code_simp
  obtain s' where c: "handleCreateAPIToken demo_hashing (\<lambda>_. True) (\<lambda>_ m. m) 10 (Some ''k'') demo_who (Inr (''ci'', 0))
      (server_of demo_memory) = (Replied 201 \<lparr>it_id = token, it_label = ''ci'', it_createdAt = 10, it_expiresAt = None, it_token = token\<rparr>, s')"
    by (simp add: handleCreateAPIToken_def Let_def demo_trims len token answer_simps step_simps MaxAPITokenLabel_def MaxAPITokenDays_def
        token_row_def demo_hashing_def HashAPIToken_def issued_graphic [OF token] CreateAPIToken_def demo_who_simps demo_scoped k
        timeOrNull_def is_zero_def server_of_def)
  let ?r = "demo_request\<lparr>rq_cookie := None, rq_authorization := ''Bearer '' @ token\<rparr>"
  obtain a i m' where "get (m_accounts (sv_store s')) (a_ID (acl_Account demo_who)) = Some a" "a_TenantID a = acl_Scope demo_who"
    "operators demo_hashing (NewAccounts 0 0) (\<lambda>_. True) 20 ?r (sv_store s') = (Inr i, m')"
    "stands_for (hs_lower demo_hashing) a i"
    using issued_token_speaks [OF c, where r = ?r and up' = "\<lambda>_. True" and now' = 20 and ac = "NewAccounts 0 0" and w' = "\<lambda>_ m. m"]
    by auto
  then show ?thesis using c by (auto simp: stands_for_def demo_who_simps intro: exI [of _ token])
qed

theorem signed_out_everywhere_witness:
  "\<exists>n s'. handleRevokeSessions demo_hashing (\<lambda>_. True) (\<lambda>_ m. m) demo_request demo_who (server_of demo_memory) =
      (Replied 200 (n, session_cookie [] UnixEpoch), s') \<and> n = 1 \<and> m_apiTokens (sv_store s') = m_apiTokens demo_memory"
proof -
  have st: "sv_store (server_of demo_memory) = demo_memory" by (simp add: server_of_def)
  have cookie: "HashSessionToken (hs_sha256_hex demo_hashing) ''cookie'' = ''cookie''"
    by (simp add: HashSessionToken_def demo_hashing_def demo_trims)
  let ?left = "demo_memory\<lparr>m_sessions := sweep (\<lambda>_ held. s_AccountID held = ''A1'') (m_sessions demo_memory)\<rparr>"
  have "\<exists>e. SignOut demo_hashing (\<lambda>_. True) demo_request ?left = (e, session_cookie [] UnixEpoch, ?left)"
    by (rule SignOut_unknown) (simp add: demo_request_def get_sweep demo_memory_def get_put cookie)
  then obtain e where e: "SignOut demo_hashing (\<lambda>_. True) demo_request ?left = (e, session_cookie [] UnixEpoch, ?left)" by blast
  have "count_if (\<lambda>_ held. s_AccountID held = ''A1'') (m_sessions demo_memory) = 1"
    by (simp add: count_if_def demo_memory_def entries_put DAList.empty.rep_eq)
  then have run: "handleRevokeSessions demo_hashing (\<lambda>_. True) (\<lambda>_ m. m) demo_request demo_who (server_of demo_memory) =
      (Replied 200 (1, session_cookie [] UnixEpoch), (server_of demo_memory)\<lparr>sv_store := ?left\<rparr>)"
    by (simp add: handleRevokeSessions_def answer_def andThen_def changes_def call_def DeleteSessionsFor_def demo_who_simps st
        demo_scoped e)
  have own: "s_AccountID x = a_ID (acl_Account demo_who)" if "get (m_sessions demo_memory) k = Some x" for k x
    using that by (auto simp: demo_memory_def get_put demo_who_simps split: if_splits)
  show ?thesis
    using signed_out_everywhere [OF run refl, unfolded st, where ac = "NewAccounts 0 0" and up' = "\<lambda>_. True" and now' = 5
        and r' = demo_request] run own by auto
qed

theorem password_changed_witness:
  "\<exists>s' l'. handleChangePassword demo_hashing (\<lambda>x. x) (\<lambda>_. True) (\<lambda>_ m. m) 5 (Some ''0123456789abcdef'') demo_who
      (Inr (''correct horse'', ''battery staple'')) (newRateLimiter (\<lambda>x. x) passwordBurst passwordRefill) (server_of demo_memory) =
      ((Replied 204 (), s'), l') \<and>
    (\<exists>hashed. fst (VerifyPassword toy_argon hashed ''battery staple'') \<and>
      get (m_accounts (sv_store s')) ''A1'' = Some (demo_account\<lparr>a_PasswordHash := hashed\<rparr>))"
proof -
  have st: "sv_store (server_of demo_memory) = demo_memory" by (simp add: server_of_def)
  have len: "length (runes ''battery staple'') = 14" by code_simp
  obtain hashed where hashed: "HashPassword toy_argon (Some ''0123456789abcdef'') ''battery staple'' = Inr hashed"
    by (simp add: HashPassword_def MinPasswordLength_def MaxPasswordLength_def len Let_def)
  have v: "fst (VerifyPassword toy_argon (a_PasswordHash demo_account) ''correct horse'')"
    by (simp add: demo_account_def demo_stored(2))
  let ?l = "newRateLimiter (\<lambda>x. x) passwordBurst passwordRefill"
  have ok: "fst (allow (\<lambda>x. x) ''A1'' 5 ?l)" by (simp add: allow_def newRateLimiter_def)
  have "\<exists>s'. change_password demo_hashing (\<lambda>_. True) (\<lambda>_ m. m) (Some ''0123456789abcdef'') demo_who
      (Inr (''correct horse'', ''battery staple'')) (server_of demo_memory) = (Inr (Replied 204 ()), s')"
    by (simp add: change_password_def demo_who_simps demo_hashing_def v len MinPasswordLength_def MaxPasswordLength_def hashed
        step_simps UpdateAccountPassword_def updateAccount_def demo_scoped st)
  then obtain s' where s': "answer (change_password demo_hashing (\<lambda>_. True) (\<lambda>_ m. m) (Some ''0123456789abcdef'') demo_who
      (Inr (''correct horse'', ''battery staple''))) (server_of demo_memory) = (Replied 204 (), s')" by (auto simp: answer_def)
  obtain l' where run: "handleChangePassword demo_hashing (\<lambda>x. x) (\<lambda>_. True) (\<lambda>_ m. m) 5 (Some ''0123456789abcdef'') demo_who
      (Inr (''correct horse'', ''battery staple'')) ?l (server_of demo_memory) = ((Replied 204 (), s'), l')"
    using ok by (cases "allow (\<lambda>x. x) ''A1'' 5 ?l") (simp add: handleChangePassword_def demo_who_simps s')
  have "\<exists>hashed. fst (VerifyPassword toy_argon hashed ''battery staple'') \<and>
      get (m_accounts (sv_store s')) ''A1'' = Some (demo_account\<lparr>a_PasswordHash := hashed\<rparr>)"
    using password_changed [OF run] demo_scoped
    by (auto simp: st demo_who_simps demo_hashing_def toy_length get_put scoped_account_Some)
  with run show ?thesis by blast
qed

end
