(* ===== verification/FleetAPI.thy ===== *)
theory FleetAPI
  imports AccountAPI EnrollAPI Intent
begin

text \<open>
  The operators' view of the fleet (\<open>internal/server/adminapi.go\<close>), signing in (\<open>sessionapi.go\<close>) and the routes of the
  installation's administrator (\<open>tenantapi.go\<close>). The administrator's name, which only the log carries, and the
  sentences of the answers are left out.
\<close>

section \<open>Hosts\<close>

record fleet_host =
  hv_ID :: bytes
  hv_Hostname :: bytes
  hv_Group :: bytes
  hv_AgentVersion :: bytes
  hv_EnrolledAt :: instant
  hv_LastSeen :: "instant option"
  hv_Online :: bool
  hv_UptimeSeconds :: int
  hv_ClockOffsetSeconds :: int
  hv_ClockSkewed :: bool
  hv_Paused :: bool
  hv_Revoked :: bool
  hv_FactsDigest :: bytes
  hv_PolicyDigest :: bytes
  hv_SignersDigest :: bytes
  hv_Facts :: bytes
  hv_Policy :: bytes
  hv_Signers :: bytes

definition jsonOrNull :: "bytes \<Rightarrow> bytes" where
  "jsonOrNull raw = (if raw = [] then ''null'' else raw)"

definition toView :: "int \<Rightarrow> host \<Rightarrow> instant \<Rightarrow> fleet_host" where
  "toView heartbeat h now =
     \<lparr>hv_ID = h_ID h, hv_Hostname = h_Hostname h, hv_Group = h_Group h, hv_AgentVersion = h_AgentVersion h,
      hv_EnrolledAt = h_EnrolledAt h, hv_LastSeen = (if is_zero (h_LastSeen h) then None else Some (h_LastSeen h)),
      hv_Online = host_Online h now heartbeat, hv_UptimeSeconds = h_UptimeSeconds h,
      hv_ClockOffsetSeconds = h_ClockOffsetSeconds h,
      hv_ClockSkewed = (300 < h_ClockOffsetSeconds h \<or> h_ClockOffsetSeconds h < - 300), hv_Paused = h_Paused h,
      hv_Revoked = h_Revoked h, hv_FactsDigest = h_FactsDigest h, hv_PolicyDigest = h_PolicyDigest h,
      hv_SignersDigest = h_SignersDigest h, hv_Facts = jsonOrNull (h_Facts h), hv_Policy = jsonOrNull (h_Policy h),
      hv_Signers = jsonOrNull (h_Signers h)\<rparr>"

text \<open>The fleet, the pace of heartbeats and the time.\<close>

definition handleListHosts ::
  "config \<Rightarrow> reach \<Rightarrow> (nat \<Rightarrow> memory \<Rightarrow> memory) \<Rightarrow> instant \<Rightarrow> operator \<Rightarrow> server \<Rightarrow> (fleet_host list \<times> int \<times> instant) reply \<times> server" where
  "handleListHosts cf up w now who = answer
     (andThen (asks up w 0 ''ListHosts'' (\<lambda>m. Inr (ListHosts (op_Tenant who) m)) (\<lambda>_. internal))
       (\<lambda>hs. going (Replied 200 (map (\<lambda>h. toView (cf_HeartbeatSeconds cf) h now) hs, cf_HeartbeatSeconds cf, now))))"

definition handleGetHost ::
  "config \<Rightarrow> reach \<Rightarrow> (nat \<Rightarrow> memory \<Rightarrow> memory) \<Rightarrow> instant \<Rightarrow> bytes \<Rightarrow> operator \<Rightarrow> server \<Rightarrow> fleet_host reply \<times> server" where
  "handleGetHost cf up w now i who = answer
     (andThen (asks up w 0 ''GetHost'' (GetHost (op_Tenant who) i) (or_internal ErrNotFound (problem 404 ''not_found'')))
       (\<lambda>h. going (Replied 200 (toView (cf_HeartbeatSeconds cf) h now))))"

definition handleRevokeHost ::
  "reach \<Rightarrow> (nat \<Rightarrow> memory \<Rightarrow> memory) \<Rightarrow> instant \<Rightarrow> bytes \<Rightarrow> operator \<Rightarrow> server \<Rightarrow> bytes reply \<times> server" where
  "handleRevokeHost up w now i who = answer
     (andThen (changes up w 0 ''RevokeHost'' (\<lambda>m. only (RevokeHost (op_Tenant who) now i m))
         (or_internal ErrNotFound (problem 404 ''not_found'')))
       (\<lambda>_. going (Replied 200 ''revoked'')))"

definition handleDeleteHost ::
  "reach \<Rightarrow> (nat \<Rightarrow> memory \<Rightarrow> memory) \<Rightarrow> bytes \<Rightarrow> operator \<Rightarrow> server \<Rightarrow> bytes reply \<times> server" where
  "handleDeleteHost up w i who = answer
     (andThen (changes up w 0 ''DeleteHost'' (\<lambda>m. only (DeleteHost (op_Tenant who) i m))
         (or_internal ErrNotFound (problem 404 ''not_found'')))
       (\<lambda>_. going (Replied 200 ''deleted'')))"

section \<open>Enrolment tokens\<close>

record token_view =
  tk_Label :: bytes
  tk_Group :: bytes
  tk_CreatedAt :: instant
  tk_ExpiresAt :: instant
  tk_Consumed :: bool
  tk_ConsumedByHost :: bytes
  tk_Usable :: bool
  tk_Bootstrap :: bytes

definition token_view_of :: "instant \<Rightarrow> enrollment_token \<Rightarrow> token_view" where
  "token_view_of now t =
     \<lparr>tk_Label = et_Label t, tk_Group = et_Group t, tk_CreatedAt = et_CreatedAt t, tk_ExpiresAt = et_ExpiresAt t,
      tk_Consumed = (\<not> is_zero (et_ConsumedAt t)), tk_ConsumedByHost = et_ConsumedByHost t,
      tk_Usable = token_Usable t now, tk_Bootstrap = et_Bootstrap t\<rparr>"

definition handleListTokens ::
  "reach \<Rightarrow> (nat \<Rightarrow> memory \<Rightarrow> memory) \<Rightarrow> instant \<Rightarrow> operator \<Rightarrow> server \<Rightarrow> token_view list reply \<times> server" where
  "handleListTokens up w now who = answer
     (andThen (asks up w 0 ''ListEnrollmentTokens'' (\<lambda>m. Inr (ListEnrollmentTokens (op_Tenant who) m)) (\<lambda>_. internal))
       (\<lambda>ts. going (Replied 200 (map (token_view_of now) ts))))"

definition templateIsLive :: "reach \<Rightarrow> (nat \<Rightarrow> memory \<Rightarrow> memory) \<Rightarrow> tenant_id \<Rightarrow> bytes \<Rightarrow> ('r, unit) step" where
  "templateIsLive up w tn name =
     andThen (asks up w 0 ''GetTemplateArchival'' (\<lambda>m. Inr (GetTemplateArchival tn name m)) (\<lambda>_. internal))
       (\<lambda>archival. if Archived archival then denied (problem 409 ''archived_template'') else going ())"

definition checkBootstrapIsIssuable ::
  "config \<Rightarrow> reach \<Rightarrow> (nat \<Rightarrow> memory \<Rightarrow> memory) \<Rightarrow> tenant_id \<Rightarrow> bytes \<Rightarrow> ('r, unit) step" where
  "checkBootstrapIsIssuable cf up w tn name =
     (if name = [] then going ()
      else andThen (templateIsLive up w tn name)
        (\<lambda>_. andThen (asks up w 1 ''GetTemplateVersion'' (GetTemplateVersion tn name 0)
            (or_internal ErrNotFound (problem 404 ''not_found'')))
        (\<lambda>tv. if \<not> template_Signed tv then denied (problem 409 ''unsigned_template'')
          else case key_Open (cf_TemplateKey cf) (tv_BodySealed tv) of
              None \<Rightarrow> denied (problem 500 ''sealed'')
            | Some body \<Rightarrow>
                if \<not> bootstrapDoesNotMintItsOwnToken body then denied (problem 409 ''unrendered_template'') else going ())))"

record token_request =
  tq_Label :: bytes
  tq_Group :: bytes
  tq_TTLSeconds :: int
  tq_Bootstrap :: bytes

record minted_token =
  mt_Token :: bytes
  mt_Label :: bytes
  mt_Group :: bytes
  mt_Bootstrap :: bytes
  mt_ExpiresAt :: instant

definition token_ttl :: "duration \<Rightarrow> token_request \<Rightarrow> duration" where
  "token_ttl std q = (if 0 < tq_TTLSeconds q then duration_mul (tq_TTLSeconds q) Second else std)"

definition minted_row :: "token_request \<Rightarrow> bytes \<Rightarrow> duration \<Rightarrow> instant \<Rightarrow> enrollment_token" where
  "minted_row q hash ttl now =
     \<lparr>et_Hash = hash, et_Label = tq_Label q, et_Group = tq_Group q, et_Bootstrap = tq_Bootstrap q, et_CreatedAt = now,
      et_ExpiresAt = now + ttl, et_ConsumedAt = 0, et_ConsumedByHost = []\<rparr>"

definition handleCreateToken ::
  "config \<Rightarrow> duration \<Rightarrow> reach \<Rightarrow> (nat \<Rightarrow> memory \<Rightarrow> memory) \<Rightarrow> instant \<Rightarrow> bytes option \<Rightarrow> operator \<Rightarrow>
   (decode_failure, token_request) result \<Rightarrow> server \<Rightarrow> minted_token reply \<times> server" where
  "handleCreateToken cf std up w now rnd who body = answer (case body of
      Inl _ \<Rightarrow> denied (problem 400 ''malformed'')
    | Inr q \<Rightarrow>
        andThen (checkBootstrapIsIssuable cf up w (op_Tenant who) (tq_Bootstrap q))
          (\<lambda>_. case NewEnrollmentToken (cf_sha256_hex cf) rnd of
              None \<Rightarrow> denied internal
            | Some (token, hash) \<Rightarrow>
                let row = minted_row q hash (token_ttl std q) now in
                andThen (changes up w 2 ''CreateEnrollmentToken'' (\<lambda>m. only (CreateEnrollmentToken (op_Tenant who) row m)) (\<lambda>_. internal))
                  (\<lambda>_. going (Replied 201 \<lparr>mt_Token = token, mt_Label = tq_Label q, mt_Group = tq_Group q,
                      mt_Bootstrap = tq_Bootstrap q, mt_ExpiresAt = et_ExpiresAt row\<rparr>))))"

section \<open>The catalogue\<close>

record catalogue_entry =
  cg_Name :: bytes
  cg_Class :: bytes
  cg_Summary :: bytes
  cg_Implemented :: bool
  cg_RequiresOfflineSignature :: bool

definition entry_of :: "spec \<Rightarrow> catalogue_entry" where
  "entry_of s = \<lparr>cg_Name = spec_Name s, cg_Class = Class s, cg_Summary = Summary s, cg_Implemented = Implemented s,
     cg_RequiresOfflineSignature = RequiresOfflineSignature (Class s)\<rparr>"

definition handleCatalogue :: "(catalogue_entry list \<times> bytes list) reply" where
  "handleCatalogue = Replied 200 (map entry_of All_specs, Refused)"

section \<open>Signing in and out\<close>

definition signInBurst :: int where [go_defs]: "signInBurst = 10"
definition signInRefill :: duration where [go_defs]: "signInRefill = 6 * Second"

text \<open>The body is the address and the password; the answer names the identity and sets a cookie.\<close>

definition sign_in ::
  "hashing \<Rightarrow> accounts \<Rightarrow> bytes \<Rightarrow> reach \<Rightarrow> instant \<Rightarrow> bytes option \<Rightarrow> bytes option \<Rightarrow> http_request \<Rightarrow>
   (decode_failure, bytes \<times> bytes) result \<Rightarrow> memory \<Rightarrow> ((bytes \<times> bytes \<times> bytes \<times> bytes) \<times> cookie option) reply \<times> memory" where
  "sign_in h ac decoy up now salt rnd r body m = (case body of
      Inl e \<Rightarrow> (writeDecodeError e, m)
    | Inr (email, password) \<Rightarrow>
        (case SignIn h ac decoy up now salt rnd r email password m of (si, m') \<Rightarrow>
          (case si_result si of
             Inl e \<Rightarrow> (refuseOrFail e, m')
           | Inr i \<Rightarrow> (Replied 200 ((id_Subject i, id_Display i, id_Provider i, Principal i), si_cookie si), m'))))"

definition handleSignIn ::
  "hashing \<Rightarrow> accounts option \<Rightarrow> bytes \<Rightarrow> (rat \<Rightarrow> rat) \<Rightarrow> reach \<Rightarrow> instant \<Rightarrow> bytes option \<Rightarrow> bytes option \<Rightarrow> http_request \<Rightarrow>
   (decode_failure, bytes \<times> bytes) result \<Rightarrow> rate_limiter \<Rightarrow> memory \<Rightarrow> (((bytes \<times> bytes \<times> bytes \<times> bytes) \<times> cookie option) reply \<times> memory) \<times> rate_limiter" where
  "handleSignIn h accts decoy fl up now salt rnd r body l m = (case accts of
      None \<Rightarrow> ((problem 404 ''not_found'', m), l)
    | Some ac \<Rightarrow>
        if rq_session_header r = [] then ((problem 400 ''missing_header'', m), l)
        else (case allow fl (RequestSource r) now l of (ok, l') \<Rightarrow>
          if \<not> ok then ((rate_limited l', m), l')
          else (sign_in h ac decoy up now salt rnd r body m, l')))"

definition handleSignOut ::
  "hashing \<Rightarrow> bool \<Rightarrow> reach \<Rightarrow> http_request \<Rightarrow> memory \<Rightarrow> unit reply \<times> cookie option \<times> memory" where
  "handleSignOut h has_accounts up r m =
     (if \<not> has_accounts then (problem 404 ''not_found'', None, m)
      else case SignOut h up r m of (e, cleared, m') \<Rightarrow>
        (if e \<noteq> None then internal else Replied 204 (), Some cleared, m'))"

section \<open>Tenants\<close>

text \<open>\<open>^[a-z0-9][a-z0-9-]{0,62}$\<close>\<close>

definition slug_char :: "char \<Rightarrow> bool" where
  "slug_char c \<longleftrightarrow> is_digit c \<or> (97 \<le> bv c \<and> bv c \<le> 122)"

definition slugPattern :: "bytes \<Rightarrow> bool" where
  "slugPattern s = (case s of
      [] \<Rightarrow> False
    | c # cs \<Rightarrow> slug_char c \<and> length cs \<le> 62 \<and> list_all (\<lambda>c. slug_char c \<or> c = CHR ''-'') cs)"

text \<open>A number that was not sent, was sent as null, or was sent.\<close>

record nullable_int =
  ni_Set :: bool
  ni_Value :: "int option"

record tenant_request =
  tr_Slug :: bytes
  tr_DisplayName :: "bytes option"
  tr_ApprovalMode :: "bytes option"
  tr_WebhookURL :: "bytes option"
  tr_HostLimit :: nullable_int
  tr_Suspended :: "bool option"

record tenant_view =
  tw_ID :: tenant_id
  tw_Slug :: bytes
  tw_DisplayName :: bytes
  tw_CreatedAt :: instant
  tw_ApprovalMode :: bytes
  tw_WebhookURL :: bytes
  tw_HostLimit :: "int option"
  tw_Suspended :: bool

definition toTenantView :: "tenant \<Rightarrow> tenant_view" where
  "toTenantView t =
     \<lparr>tw_ID = t_ID t, tw_Slug = t_Slug t, tw_DisplayName = t_DisplayName t, tw_CreatedAt = t_CreatedAt t,
      tw_ApprovalMode = t_ApprovalMode t, tw_WebhookURL = t_WebhookURL t, tw_HostLimit = t_HostLimit t,
      tw_Suspended = t_Suspended t\<rparr>"

definition valueOr :: "bytes option \<Rightarrow> bytes \<Rightarrow> bytes" where
  "valueOr p fallback = (case p of None \<Rightarrow> fallback | Some v \<Rightarrow> v)"

definition checkHostLimit :: "nullable_int \<Rightarrow> bool" where
  "checkHostLimit limit = (case ni_Value limit of None \<Rightarrow> True | Some n \<Rightarrow> 0 \<le> n)"

definition checkWebhookURL :: "(bytes \<Rightarrow> (bytes \<times> bytes) option) \<Rightarrow> bytes \<Rightarrow> bool" where
  "checkWebhookURL url_parse raw \<longleftrightarrow> raw = [] \<or> ValidateWebhookURL url_parse raw = None"

abbreviation malformed :: "'r reply" where
  "malformed \<equiv> problem 400 ''malformed''"

definition handleListTenants :: "reach \<Rightarrow> (nat \<Rightarrow> memory \<Rightarrow> memory) \<Rightarrow> server \<Rightarrow> tenant_view list reply \<times> server" where
  "handleListTenants up w = answer
     (andThen (asks up w 0 ''ListTenants'' (\<lambda>m. Inr (ListTenants m)) (\<lambda>_. internal))
       (\<lambda>ts. going (Replied 200 (map toTenantView ts))))"

definition handleGetTenant :: "reach \<Rightarrow> (nat \<Rightarrow> memory \<Rightarrow> memory) \<Rightarrow> tenant_id \<Rightarrow> server \<Rightarrow> tenant_view reply \<times> server" where
  "handleGetTenant up w tn = answer
     (andThen (asks up w 0 ''GetTenant'' (GetTenant tn) (or_internal ErrNotFound (problem 404 ''unknown_tenant'')))
       (\<lambda>t. going (Replied 200 (toTenantView t))))"

definition tenant_of :: "tenant_request \<Rightarrow> bytes \<Rightarrow> bytes \<Rightarrow> instant \<Rightarrow> tenant" where
  "tenant_of q i mode now =
     \<lparr>t_ID = i, t_Slug = tr_Slug q, t_DisplayName = valueOr (tr_DisplayName q) (tr_Slug q), t_CreatedAt = now,
      t_ApprovalMode = mode, t_WebhookURL = valueOr (tr_WebhookURL q) [], t_HostLimit = ni_Value (tr_HostLimit q),
      t_Suspended = (tr_Suspended q = Some True)\<rparr>"

definition handleCreateTenant ::
  "(bytes \<Rightarrow> (bytes \<times> bytes) option) \<Rightarrow> reach \<Rightarrow> (nat \<Rightarrow> memory \<Rightarrow> memory) \<Rightarrow> instant \<Rightarrow> bytes option \<Rightarrow>
   (decode_failure, tenant_request) result \<Rightarrow> server \<Rightarrow> tenant_view reply \<times> server" where
  "handleCreateTenant url_parse up w now new_id body = answer (case body of
      Inl e \<Rightarrow> denied (writeDecodeError e)
    | Inr q \<Rightarrow>
        let mode = valueOr (tr_ApprovalMode q) ApprovalNone in
        if \<not> slugPattern (tr_Slug q) then denied malformed
        else if tr_ApprovalMode q \<noteq> None \<and> \<not> mode_Valid mode then denied malformed
        else (case new_id of
            None \<Rightarrow> denied internal
          | Some i \<Rightarrow>
              if \<not> checkWebhookURL url_parse (valueOr (tr_WebhookURL q) []) then denied malformed
              else if \<not> checkHostLimit (tr_HostLimit q) then denied malformed
              else let t = tenant_of q i mode now in
                andThen (changes up w 0 ''CreateTenant'' (\<lambda>m. only (CreateTenant now t m))
                    (or_internal ErrConflict (problem 409 ''duplicate'')))
                  (\<lambda>_. going (Replied 201 (toTenantView t)))))"

definition patch_of :: "tenant_request \<Rightarrow> tenant_patch" where
  "patch_of q =
     \<lparr>p_DisplayName = tr_DisplayName q, p_ApprovalMode = tr_ApprovalMode q, p_WebhookURL = tr_WebhookURL q,
      p_HostLimit = (if ni_Set (tr_HostLimit q) then ni_Value (tr_HostLimit q) else None),
      p_SetHostLimit = ni_Set (tr_HostLimit q), p_Suspended = tr_Suspended q\<rparr>"

definition handleUpdateTenant ::
  "(bytes \<Rightarrow> (bytes \<times> bytes) option) \<Rightarrow> reach \<Rightarrow> (nat \<Rightarrow> memory \<Rightarrow> memory) \<Rightarrow> tenant_id \<Rightarrow>
   (decode_failure, tenant_request) result \<Rightarrow> server \<Rightarrow> tenant_view reply \<times> server" where
  "handleUpdateTenant url_parse up w tn body = answer (case body of
      Inl e \<Rightarrow> denied (writeDecodeError e)
    | Inr q \<Rightarrow>
        andThen (asks up w 0 ''GetTenant'' (GetTenant tn) (or_internal ErrNotFound (problem 404 ''unknown_tenant'')))
          (\<lambda>t. if tr_Slug q \<noteq> [] \<and> tr_Slug q \<noteq> t_Slug t then denied (problem 409 ''immutable'')
            else if tr_WebhookURL q \<noteq> None \<and> \<not> checkWebhookURL url_parse (valueOr (tr_WebhookURL q) []) then denied malformed
            else if tr_ApprovalMode q \<noteq> None \<and> \<not> mode_Valid (valueOr (tr_ApprovalMode q) []) then denied malformed
            else if ni_Set (tr_HostLimit q) \<and> \<not> checkHostLimit (tr_HostLimit q) then denied malformed
            else andThen (changes up w 1 ''UpdateTenant'' (UpdateTenant tn (patch_of q)) (\<lambda>_. internal))
              (\<lambda>t'. going (Replied 200 (toTenantView t')))))"

definition handleDeleteTenant :: "reach \<Rightarrow> (nat \<Rightarrow> memory \<Rightarrow> memory) \<Rightarrow> tenant_id \<Rightarrow> server \<Rightarrow> unit reply \<times> server" where
  "handleDeleteTenant up w tn = answer
     (andThen (changes up w 0 ''DeleteTenant'' (\<lambda>m. only (DeleteTenant tn m)) (or_internal ErrNotFound (problem 404 ''unknown_tenant'')))
       (\<lambda>_. going (Replied 204 ())))"

text \<open>The answer to \<open>whoami\<close>, less the build it reports.\<close>

record whoami =
  wi_Subject :: bytes
  wi_Display :: bytes
  wi_Provider :: bytes
  wi_Principal :: bytes
  wi_Platform :: bool
  wi_Tenant :: "tenant_view option"

definition whoami_of :: "identity \<Rightarrow> tenant_view option \<Rightarrow> whoami" where
  "whoami_of i t = \<lparr>wi_Subject = id_Subject i, wi_Display = id_Display i, wi_Provider = id_Provider i,
     wi_Principal = Principal i, wi_Platform = id_Platform i, wi_Tenant = t\<rparr>"

definition handleWhoami :: "reach \<Rightarrow> (nat \<Rightarrow> memory \<Rightarrow> memory) \<Rightarrow> identity \<Rightarrow> server \<Rightarrow> whoami reply \<times> server" where
  "handleWhoami up w i = answer
     (if id_Platform i \<or> id_Tenant i = [] then going (Replied 200 (whoami_of i None))
      else andThen (asks up w 0 ''GetTenant'' (GetTenant (id_Tenant i)) (\<lambda>_. internal))
        (\<lambda>t. going (Replied 200 (whoami_of i (Some (toTenantView t))))))"

record tenant_usage =
  us_Tenant :: tenant_id
  us_Slug :: bytes
  us_Hosts :: int
  us_ActiveHosts :: int
  us_RevokedHosts :: int
  us_HostLimit :: "int option"
  us_Suspended :: bool
  us_AsOf :: instant

definition handleTenantUsage ::
  "reach \<Rightarrow> (nat \<Rightarrow> memory \<Rightarrow> memory) \<Rightarrow> instant \<Rightarrow> tenant_id \<Rightarrow> server \<Rightarrow> tenant_usage reply \<times> server" where
  "handleTenantUsage up w now tn = answer
     (andThen (asks up w 0 ''GetTenant'' (GetTenant tn) (or_internal ErrNotFound (problem 404 ''unknown_tenant'')))
       (\<lambda>t. andThen (asks up w 1 ''CountHosts'' (\<lambda>m. Inr (CountHosts tn m)) (\<lambda>_. internal))
         (\<lambda>n. going (Replied 200 \<lparr>us_Tenant = tn, us_Slug = t_Slug t, us_Hosts = int (Total n), us_ActiveHosts = int (Active n),
            us_RevokedHosts = int (Total n) - int (Active n), us_HostLimit = t_HostLimit t, us_Suspended = t_Suspended t,
            us_AsOf = now\<rparr>))))"

section \<open>Reading the handlers\<close>

lemma answer_andThen:
  assumes "refuses a"
  shows "answer (andThen a k) s = (Replied code v, s') \<longleftrightarrow> (\<exists>x s1. a s = (Inr x, s1) \<and> answer (k x) s1 = (Replied code v, s'))"
proof (cases "a s")
  case (Pair r s1)
  with refusesD [OF assms] show ?thesis by (cases r) (fastforce simp: answer_def andThen_def)+
qed

lemma refuses_templateIsLive: "refuses (templateIsLive up w tn name)"
  unfolding templateIsLive_def by (auto intro!: refuse_intros)

lemma refuses_issuable: "refuses (checkBootstrapIsIssuable cf up w tn name)"
  unfolding checkBootstrapIsIssuable_def by (intro refuse_intros refuses_templateIsLive denies)

lemma answer_going: "answer (going (Replied c x)) s = (Replied code v, s') \<longleftrightarrow> code = c \<and> v = x \<and> s' = s"
  by (auto simp: answer_def going_def)

lemma refuses_or_internal: "refuses (asks up w k name q (or_internal e (Denied c code [])))"
  "refuses (changes up w k name q' (or_internal e (Denied c code [])))"
  by (simp_all add: refuses_asks refuses_changes denies)

lemma refuses_internal: "refuses (asks up w k name q (\<lambda>_. internal))" "refuses (changes up w k name q' (\<lambda>_. internal))"
  by (simp_all add: refuses_asks refuses_changes)

lemmas read_answer = answer_andThen [OF refuses_or_internal(1)] answer_andThen [OF refuses_or_internal(2)]
  answer_andThen [OF refuses_internal(1)] answer_andThen [OF refuses_internal(2)] answer_going answer_simps

section \<open>A revoked host stays out\<close>

definition barred :: "bytes \<Rightarrow> memory \<Rightarrow> bool" where
  "barred i m \<longleftrightarrow> (\<forall>h t. get (m_hosts m) i = Some (h, t) \<longrightarrow> h_Revoked h)"

text \<open>Any calls at all, of whatever tenant, that do not reuse the identifier of a host that is gone.\<close>

inductive later :: "bytes \<Rightarrow> memory \<Rightarrow> memory \<Rightarrow> bool" for i where
  at_once: "later i m m"
| after_call: "later i m m' \<Longrightarrow> store_step ds m' m'' \<Longrightarrow> (get (m_hosts m') i = None \<Longrightarrow> get (m_hosts m'') i = None) \<Longrightarrow> later i m m''"

lemma barred_same: "m_hosts m' = m_hosts m \<Longrightarrow> barred i m \<Longrightarrow> barred i m'"
  by (simp add: barred_def)

lemma barred_host_updates:
  "update_host s k f m = Inr m' \<Longrightarrow> (\<And>h. h_Revoked (f h) = h_Revoked h) \<Longrightarrow> barred i m \<Longrightarrow> barred i m'"
  "RevokeHost s now k m = Inr m' \<Longrightarrow> barred i m \<Longrightarrow> barred i m'"
  "DeleteHost s k m = Inr m' \<Longrightarrow> barred i m \<Longrightarrow> barred i m'"
  by (auto simp: update_host_def RevokeHost_def DeleteHost_def Let_def barred_def get_put scoped_host_Some split: option.splits if_splits)

lemma revoked_barred: "RevokeHost tn now i m = Inr m' \<Longrightarrow> barred i m'"
  by (auto simp: RevokeHost_def barred_def get_put split: option.splits)

lemma barred_enrol:
  assumes "CreateEnrolledHost s h c m = Inr m'" "barred i m" "get (m_hosts m) i = None \<Longrightarrow> get (m_hosts m') i = None"
  shows "barred i m'"
  using assms
  by (cases "get (m_hosts m) i"; cases "h_ID h = i")
    (auto simp: CreateEnrolledHost_def barred_def get_put split: option.splits if_splits sum.splits)

lemma barred_reports:
  "RecordHeartbeat s k u m = Inr m' \<Longrightarrow> barred i m \<Longrightarrow> barred i m'"
  "StoreFacts s k digest document m = Inr m' \<Longrightarrow> barred i m \<Longrightarrow> barred i m'"
  "StorePolicy s k digest document m = Inr m' \<Longrightarrow> barred i m \<Longrightarrow> barred i m'"
  "StoreSigners s k digest document m = Inr m' \<Longrightarrow> barred i m \<Longrightarrow> barred i m'"
  unfolding RecordHeartbeat_def StoreFacts_def StorePolicy_def StoreSigners_def
  by (erule barred_host_updates(1); simp)+

lemma account_hosts:
  "CreateAccount s now a m = Inr m' \<Longrightarrow> m_hosts m' = m_hosts m"
  "updateAccount s i f m = Inr m' \<Longrightarrow> m_hosts m' = m_hosts m"
  "DeleteAccount s i m = Inr m' \<Longrightarrow> m_hosts m' = m_hosts m"
  "CreateSession s ss m = Inr m' \<Longrightarrow> m_hosts m' = m_hosts m"
  "TouchSession s i hash e u m = Inr m' \<Longrightarrow> m_hosts m' = m_hosts m"
  "DeleteSession s i hash m = Inr m' \<Longrightarrow> m_hosts m' = m_hosts m"
  "DeleteSessionsFor s i m = Inr (n, m') \<Longrightarrow> m_hosts m' = m_hosts m"
  "CreateAPIToken s y m = Inr m' \<Longrightarrow> m_hosts m' = m_hosts m"
  "TouchAPIToken s i hash u m = Inr m' \<Longrightarrow> m_hosts m' = m_hosts m"
  "DeleteAPIToken s i hash m = Inr m' \<Longrightarrow> m_hosts m' = m_hosts m"
  by (auto simp: Let_def CreateAccount_def updateAccount_def DeleteAccount_def CreateSession_def TouchSession_def
      DeleteSession_def DeleteSessionsFor_def CreateAPIToken_def TouchAPIToken_def DeleteAPIToken_def
      split: if_splits option.splits)

lemma fleet_hosts:
  "RecordEvent s ev m = Inr m' \<Longrightarrow> m_hosts m' = m_hosts m"
  "RecordUnitTransitions s h trs m = Inr m' \<Longrightarrow> m_hosts m' = m_hosts m"
  "CreateAlertRule s ar m = Inr m' \<Longrightarrow> m_hosts m' = m_hosts m"
  "UpdateAlertRule s ar m = Inr m' \<Longrightarrow> m_hosts m' = m_hosts m"
  "DeleteAlertRule s i m = Inr m' \<Longrightarrow> m_hosts m' = m_hosts m"
  "UpsertAlertState s st m = Inr m' \<Longrightarrow> m_hosts m' = m_hosts m"
  "ReleaseAlertFiring s k m = (b, m') \<Longrightarrow> m_hosts m' = m_hosts m"
  "ClaimAlertNotification s k u cd m = Inr (b, m') \<Longrightarrow> m_hosts m' = m_hosts m"
  "CreateTemplateVersion s tv m = Inr (v, m') \<Longrightarrow> m_hosts m' = m_hosts m"
  "ArchiveTemplate s ta m = Inr m' \<Longrightarrow> m_hosts m' = m_hosts m"
  "RestoreTemplate s name m = Inr m' \<Longrightarrow> m_hosts m' = m_hosts m"
  "CreateWallboardShare s now w m = Inr m' \<Longrightarrow> m_hosts m' = m_hosts m"
  "DeleteWallboardShare s i m = Inr m' \<Longrightarrow> m_hosts m' = m_hosts m"
  by (auto simp: Let_def RecordEvent_def RecordUnitTransitions_def CreateAlertRule_def UpdateAlertRule_def
      DeleteAlertRule_def UpsertAlertState_def ReleaseAlertFiring_def ClaimAlertNotification_def
      CreateTemplateVersion_def ArchiveTemplate_def RestoreTemplate_def CreateWallboardShare_def
      DeleteWallboardShare_def split: if_splits option.splits)

lemma certificate_hosts:
  "CreateEnrollmentToken s x m = Inr m' \<Longrightarrow> m_hosts m' = m_hosts m"
  "ConsumeEnrollmentToken s hash h now m = Inr (tk, m') \<Longrightarrow> m_hosts m' = m_hosts m"
  "AddCertificate s c m = Inr m' \<Longrightarrow> m_hosts m' = m_hosts m"
  "m_hosts (SupersedeCertificate s fp u m) = m_hosts m"
  by (auto simp: CreateEnrollmentToken_def ConsumeEnrollmentToken_def AddCertificate_def SupersedeCertificate_def Let_def
      split: if_splits option.splits sum.splits)

lemma renew_hosts: "RenewCertificate s r m = Inr m' \<Longrightarrow> m_hosts m' = m_hosts m"
  by (auto simp: RenewCertificate_def Let_def certificate_hosts split: if_splits sum.splits)

lemma job_hosts:
  "CreateJob s j m = Some (Inr m') \<Longrightarrow> m_hosts m' = m_hosts m"
  "ApproveJob s i approver now m = Some (Inr m') \<Longrightarrow> m_hosts m' = m_hosts m"
  "ClaimJobs s now hh l m = (js, m') \<Longrightarrow> m_hosts m' = m_hosts m"
  "RecordResult s now hh r m = Inr (b, m') \<Longrightarrow> m_hosts m' = m_hosts m"
  by (cases "get (m_records m) (s, i)"; cases "get (m_records m) (s, JobID r)";
      auto simp: CreateJob_def ApproveJob_def ClaimJobs_def RecordResult_def Let_def split: if_splits prod.splits
        dest!: enqueue_and_wake_Some)+

lemma other_hosts:
  "UpdateAccountPassword s i pw m = Inr m' \<Longrightarrow> m_hosts m' = m_hosts m"
  "RecordAccountSignIn s i u m = Inr m' \<Longrightarrow> m_hosts m' = m_hosts m"
  "m_hosts (RecordAlertDelivery s i u failure m) = m_hosts m" "m_hosts (TouchWallboardShare s i u m) = m_hosts m"
  by (auto simp: UpdateAccountPassword_def RecordAccountSignIn_def account_hosts RecordAlertDelivery_def TouchWallboardShare_def
      split: option.splits)

lemmas hosts_frames = certificate_hosts renew_hosts job_hosts account_hosts fleet_hosts other_hosts

lemma barred_scoped:
  assumes "scoped_step s ds m m'" "barred i m" "get (m_hosts m) i = None \<Longrightarrow> get (m_hosts m') i = None"
  shows "barred i m'"
proof -
  have same: "m_hosts m' = m_hosts m \<Longrightarrow> ?thesis" using assms(2) by (rule barred_same [rotated])
  from assms(1) show ?thesis
    by cases
      ((rule barred_enrol [OF _ assms(2,3)]; assumption) | (rule barred_host_updates(2,3) [OF _ assms(2)]; assumption)
        | (rule barred_reports [OF _ assms(2)]; assumption) | (rule same, drule hosts_frames, assumption)
        | (rule same, simp add: hosts_frames; fail))+
qed

lemma barred_step:
  assumes "store_step ds m m'" "barred i m" "get (m_hosts m) i = None \<Longrightarrow> get (m_hosts m') i = None"
  shows "barred i m'"
  using assms(1)
proof cases
  case (scoped s es)
  from scoped(2) assms(2,3) show ?thesis by (rule barred_scoped)
next
  case (create_tenant now t)
  then have "m_hosts m' = m_hosts m" by (auto simp: CreateTenant_def Let_def split: if_splits sum.splits)
  then show ?thesis using assms(2) by (rule barred_same)
next
  case (update_tenant tn p t)
  then have "m_hosts m' = m_hosts m" by (auto simp: UpdateTenant_def split: option.splits sum.splits)
  then show ?thesis using assms(2) by (rule barred_same)
next
  case (delete_tenant tn)
  then show ?thesis using assms(2) by (auto simp: DeleteTenant_def Let_def barred_def get_sweep_Some split: if_splits)
qed (use assms(2) in \<open>simp_all add: barred_def Subscribe_def removeWaiter_def Let_def\<close>)

lemma barred_later: "later i m m' \<Longrightarrow> barred i m \<Longrightarrow> barred i m'"
  by (induction rule: later.induct) (auto intro: barred_step)

text \<open>Property C21: a host that was revoked is let in no more, whatever certificate it shows, then or at any later time, whatever
  is called on the store meanwhile, its own renewals and re-enrolments of the machine included.\<close>

theorem revoked_for_good:
  assumes "handleRevokeHost up w now i who s = (Replied code v, s')"
    and "later i (sv_store s') m" "requireAgent sha256_hex up' (\<lambda>_. m) now' peer = Inr cl"
  shows "\<exists>k. k \<noteq> i \<and> get (m_hosts m) k = Some (cl_Host cl, cl_Tenant cl)"
proof -
  from assms(1) have "RevokeHost (op_Tenant who) now i (w 0 (sv_store s)) = Inr (sv_store s')"
    by (auto simp: handleRevokeHost_def read_answer step_simps answer_andThen [OF refuses_or_internal(2)])
  then have "barred i (sv_store s')" by (rule revoked_barred)
  with assms(2) have b: "barred i m" by (rule barred_later)
  from admitted_by [OF assms(3)] obtain k where "get (m_hosts m) k = Some (cl_Host cl, cl_Tenant cl)" "\<not> h_Revoked (cl_Host cl)"
    by auto
  moreover from this b have "k \<noteq> i" by (auto simp: barred_def)
  ultimately show ?thesis by blast
qed

section \<open>A patch is a patch\<close>

lemma normalise_valid: "mode_Valid mode \<Longrightarrow> normaliseApprovalMode mode = Inr mode"
  by (auto simp: normaliseApprovalMode_def mode_Valid_def go_defs)

lemma patched_fields:
  assumes "patched p t = Inr t'" "\<And>mode. p_ApprovalMode p = Some mode \<Longrightarrow> mode_Valid mode"
  shows "t' = t\<lparr>t_DisplayName := case_option (t_DisplayName t) id (p_DisplayName p),
      t_ApprovalMode := case_option (t_ApprovalMode t) id (p_ApprovalMode p),
      t_WebhookURL := case_option (t_WebhookURL t) id (p_WebhookURL p),
      t_HostLimit := (if p_SetHostLimit p then p_HostLimit p else t_HostLimit t),
      t_Suspended := case_option (t_Suspended t) id (p_Suspended p)\<rparr>"
proof -
  have m: "normaliseApprovalMode mode = Inr mode" if "p_ApprovalMode p = Some mode" for mode
    using that assms(2) by (intro normalise_valid) simp
  show ?thesis
    using assms(1)
    by (cases "p_ApprovalMode p"; cases "p_DisplayName p"; cases "p_WebhookURL p"; cases "p_Suspended p")
      (simp_all add: patched_def Let_def m split: if_splits)
qed

text \<open>An update of a tenant changes the fields the request sent and no others: what it did not mention stays as it is
  when the row is written, even where another administrator changed it after this request had read the row.\<close>

theorem update_is_a_patch:
  assumes "handleUpdateTenant url_parse up w tn (Inr q) s = (Replied code v, s')"
  shows "\<exists>t t'. get (m_tenants (w 1 (w 0 (sv_store s)))) tn = Some t \<and> v = toTenantView t' \<and>
    sv_store s' = (w 1 (w 0 (sv_store s)))\<lparr>m_tenants := put tn t' (m_tenants (w 1 (w 0 (sv_store s))))\<rparr> \<and>
    t' = t\<lparr>t_DisplayName := case_option (t_DisplayName t) id (tr_DisplayName q),
      t_ApprovalMode := case_option (t_ApprovalMode t) id (tr_ApprovalMode q),
      t_WebhookURL := case_option (t_WebhookURL t) id (tr_WebhookURL q),
      t_HostLimit := (if ni_Set (tr_HostLimit q) then ni_Value (tr_HostLimit q) else t_HostLimit t),
      t_Suspended := case_option (t_Suspended t) id (tr_Suspended q)\<rparr> \<and>
    (\<forall>mode. tr_ApprovalMode q = Some mode \<longrightarrow> mode_Valid mode) \<and> (\<forall>n. ni_Set (tr_HostLimit q) \<and> ni_Value (tr_HostLimit q) = Some n \<longrightarrow> 0 \<le> n)"
proof -
  from assms obtain t' where upd: "UpdateTenant tn (patch_of q) (w 1 (w 0 (sv_store s))) = Inr (t', sv_store s')"
    and v: "v = toTenantView t'" and mode: "tr_ApprovalMode q \<noteq> None \<longrightarrow> mode_Valid (valueOr (tr_ApprovalMode q) [])"
    and limit: "ni_Set (tr_HostLimit q) \<longrightarrow> checkHostLimit (tr_HostLimit q)"
    by (auto simp: handleUpdateTenant_def read_answer step_simps)
  from upd obtain t where t: "get (m_tenants (w 1 (w 0 (sv_store s)))) tn = Some t" "patched (patch_of q) t = Inr t'"
    "sv_store s' = (w 1 (w 0 (sv_store s)))\<lparr>m_tenants := put tn t' (m_tenants (w 1 (w 0 (sv_store s))))\<rparr>"
    by (auto simp: UpdateTenant_def split: option.splits sum.splits)
  have m: "mode_Valid md" if "tr_ApprovalMode q = Some md" for md using mode that by (simp add: valueOr_def)
  have "t' = t\<lparr>t_DisplayName := case_option (t_DisplayName t) id (tr_DisplayName q),
      t_ApprovalMode := case_option (t_ApprovalMode t) id (tr_ApprovalMode q),
      t_WebhookURL := case_option (t_WebhookURL t) id (tr_WebhookURL q),
      t_HostLimit := (if ni_Set (tr_HostLimit q) then ni_Value (tr_HostLimit q) else t_HostLimit t),
      t_Suspended := case_option (t_Suspended t) id (tr_Suspended q)\<rparr>"
    using patched_fields [OF t(2)] m by (simp add: patch_of_def)
  moreover have "0 \<le> n" if "ni_Set (tr_HostLimit q)" "ni_Value (tr_HostLimit q) = Some n" for n
    using limit that by (simp add: checkHostLimit_def)
  ultimately show ?thesis using t v m by blast
qed

section \<open>A token that was minted enrols\<close>

lemma minted:
  assumes "handleCreateToken cf std up w now rnd who (Inr q) s = (Replied code v, s')"
  obtains hash s1 where "code = 201" "NewEnrollmentToken (cf_sha256_hex cf) rnd = Some (mt_Token v, hash)"
    "mt_ExpiresAt v = now + token_ttl std q" "mt_Bootstrap v = tq_Bootstrap q"
    "checkBootstrapIsIssuable cf up w (op_Tenant who) (tq_Bootstrap q) s = (Inr () :: (minted_token reply, unit) result, s1)"
    "CreateEnrollmentToken (op_Tenant who) (minted_row q hash (token_ttl std q) now) (w 2 (sv_store s1)) = Inr (sv_store s')"
proof -
  from assms obtain s1 where c: "checkBootstrapIsIssuable cf up w (op_Tenant who) (tq_Bootstrap q) s =
      (Inr () :: (minted_token reply, unit) result, s1)"
    and r: "answer (case NewEnrollmentToken (cf_sha256_hex cf) rnd of None \<Rightarrow> denied internal
      | Some (token, hash) \<Rightarrow> let row = minted_row q hash (token_ttl std q) now in
          andThen (changes up w 2 ''CreateEnrollmentToken'' (\<lambda>m. only (CreateEnrollmentToken (op_Tenant who) row m)) (\<lambda>_. internal))
            (\<lambda>_. going (Replied 201 \<lparr>mt_Token = token, mt_Label = tq_Label q, mt_Group = tq_Group q,
               mt_Bootstrap = tq_Bootstrap q, mt_ExpiresAt = et_ExpiresAt row\<rparr>))) s1 = (Replied code v, s')"
    by (auto simp: handleCreateToken_def answer_andThen [OF refuses_issuable])
  from r obtain token hash where t: "NewEnrollmentToken (cf_sha256_hex cf) rnd = Some (token, hash)"
    by (cases "NewEnrollmentToken (cf_sha256_hex cf) rnd") (auto simp: answer_denied)
  with r c that [of hash s1] show ?thesis
    by (auto simp: t read_answer step_simps Let_def minted_row_def)
qed

lemma issuable_alone:
  assumes "checkBootstrapIsIssuable cf up nobody_else tn name s = (Inr (), s1)"
  shows "s1 = s" "name \<noteq> [] \<Longrightarrow> \<exists>b. template_given cf tn name (sv_store s) b"
proof -
  have "s1 = s \<and> (name \<noteq> [] \<longrightarrow> (\<exists>tv body. GetTemplateVersion tn name 0 (sv_store s) = Inr tv \<and> template_Signed tv \<and>
      \<not> Archived (GetTemplateArchival tn name (sv_store s)) \<and> key_Open (cf_TemplateKey cf) (tv_BodySealed tv) = Some body \<and>
      TokenPlaceholder \<notin> set (Placeholders body)))"
    using assms by (auto simp: checkBootstrapIsIssuable_def templateIsLive_def step_simps denied_run bootstrapDoesNotMintItsOwnToken_def
        split: if_splits option.splits)
  moreover from this have "\<exists>b. template_given cf tn name (sv_store s) b" if name: "name \<noteq> []"
  proof -
    from calculation name obtain tv body where "GetTemplateVersion tn name 0 (sv_store s) = Inr tv" "template_Signed tv"
      "\<not> Archived (GetTemplateArchival tn name (sv_store s))" "key_Open (cf_TemplateKey cf) (tv_BodySealed tv) = Some body"
      "TokenPlaceholder \<notin> set (Placeholders body)" by blast
    then have "template_given cf tn name (sv_store s) \<lparr>bs_Name = tv_Name tv, bs_Version = tv_Version tv, bs_Body = body,
        bs_Signature = tv_Signature tv, bs_SignerKeyID = tv_SignerKeyID tv\<rparr>" by (simp add: template_given_def)
    then show ?thesis by blast
  qed
  ultimately show "s1 = s" "name \<noteq> [] \<Longrightarrow> \<exists>b. template_given cf tn name (sv_store s) b" by blast+
qed

lemma resolve_given:
  assumes "get (m_tokens (sv_store s)) h = Some (token, tn)" "token_Usable token now" "et_Bootstrap token = name"
    and "name \<noteq> [] \<Longrightarrow> \<exists>b. template_given cf tn name (sv_store s) b"
  shows "\<exists>b. resolveBootstrap cf (\<lambda>_. True) nobody_else now tn h name s = (Inr b, s) \<and>
    (if name = [] then b = None else \<exists>bs. b = Some bs \<and> template_given cf tn name (sv_store s) bs)"
proof (cases "name = []")
  case False
  with assms(4) obtain bs tv where bs: "template_given cf tn name (sv_store s) bs" and
    "GetTemplateVersion tn name 0 (sv_store s) = Inr tv" "template_Signed tv" "\<not> Archived (GetTemplateArchival tn name (sv_store s))"
    "key_Open (cf_TemplateKey cf) (tv_BodySealed tv) = Some (bs_Body bs)" "TokenPlaceholder \<notin> set (Placeholders (bs_Body bs))"
    "bs = \<lparr>bs_Name = tv_Name tv, bs_Version = tv_Version tv, bs_Body = bs_Body bs, bs_Signature = tv_Signature tv,
      bs_SignerKeyID = tv_SignerKeyID tv\<rparr>" by (auto simp: template_given_def)
  moreover have "GetEnrollmentToken tn now h (sv_store s) = Inr token" using assms(1,2) by (simp add: GetEnrollmentToken_Inr)
  ultimately show ?thesis using False assms(3)
    by (intro exI [of _ "Some bs"]) (simp add: resolveBootstrap_def andThen_def asks_def call_def going_def
        bootstrapDoesNotMintItsOwnToken_def)
qed (simp add: resolveBootstrap_def going_def)

lemma redeem_succeeds:
  assumes "get (m_tokens (sv_store s)) (token_hash cf r) = Some (token, tn)" "token_Usable token now"
    and "get (m_tenants (sv_store s)) tn = Some t" "\<And>limit. t_HostLimit t = Some limit \<Longrightarrow> int (active_hosts tn (sv_store s)) < limit"
    and "en_MachineIDHash r = [] \<or> GetHostByMachineID tn (en_MachineIDHash r) (sv_store s) = Inl ErrNotFound"
    and "get (m_hosts (sv_store s)) i = None" "get (m_certs (sv_store s)) (cf_sha256_hex cf (crt_Raw cert)) = None"
    and "\<And>bs. b = Some bs \<Longrightarrow> \<not> Archived (GetTemplateArchival tn (bs_Name bs) (sv_store s))"
  shows "\<exists>e s'. redeem_and_record cf (\<lambda>_. True) nobody_else now event_id r tn b i pem cert s = (Inr (Replied 200 e), s') \<and>
    ep_HostID e = i \<and> ep_Bootstrap e = b"
proof -
  let ?m = "(sv_store s)\<lparr>m_tokens := put (token_hash cf r) (redeemed token i now, tn) (m_tokens (sv_store s))\<rparr>"
  have "active_hosts tn ?m = active_hosts tn (sv_store s)" by (simp add: active_hosts_def)
  with assms(3-7) obtain m' where m': "CreateEnrolledHost tn (new_host r i (et_Group token) now) (certificate_for cf cert i tn now) ?m = Inr m'"
    by (auto simp: CreateEnrolledHost_new dest: GetHostByMachineID_none)
  have c: "ConsumeEnrollmentToken tn (token_hash cf r) i now (sv_store s) = Inr (redeemed token i now, ?m)"
    by (simp add: ConsumeEnrollmentToken_Inr assms(1,2) redeemed_def)
  have g: "et_Group (redeemed token i now) = et_Group token" by (simp add: redeemed_def)
  show ?thesis
  proof (cases b)
    case None
    then show ?thesis using c m' g
      by (simp add: redeem_and_record_def andThen_def changes_def call_def only_def going_def emits_def)
  next
    case (Some bs)
    then have "\<not> Archived (GetTemplateArchival tn (bs_Name bs) ?m)" using assms(8) by (simp add: GetTemplateArchival_def archival_of_def)
    then show ?thesis using c m' g Some
      by (simp add: redeem_and_record_def andThen_def changes_def call_def only_def going_def emits_def
          bootstrapSurvivedRedemption_def asks_def)
  qed
qed

lemma token_not_empty: "NewEnrollmentToken sha256_hex rnd = Some (token, hash) \<Longrightarrow> token \<noteq> [] \<and> hash = HashToken sha256_hex token"
  by (auto simp: NewEnrollmentToken_def enrollmentTokenPrefix_def Let_def split: option.splits)

text \<open>Property C36: a token that was minted enrols a machine: in a fleet that is not suspended and has room, a new machine that asks
  with it, before it expires, for the template it names is enrolled and given that template. What minting
  checks is enough for enrolment to succeed.\<close>

theorem minted_token_enrols:
  assumes "handleCreateToken cf std (\<lambda>_. True) nobody_else now rnd who (Inr q) s = (Replied code v, s')"
    and r: "en_Token r = mt_Token v" "en_RequestedBootstrap r = mt_Bootstrap v" "en_CSR r \<noteq> []"
    and clock: "\<And>k. clock k < mt_ExpiresAt v"
    and fleet: "get (m_tenants (sv_store s)) (op_Tenant who) = Some t" "\<not> t_Suspended t"
      "\<And>limit. t_HostLimit t = Some limit \<Longrightarrow> int (active_hosts (op_Tenant who) (sv_store s)) < limit"
    and machine: "en_MachineIDHash r = [] \<or> GetHostByMachineID (op_Tenant who) (en_MachineIDHash r) (sv_store s) = Inl ErrNotFound"
    and issued: "Issue (cf_x509 cf) serial (clock 3) (en_CSR r) i = Inr (pem, cert)" "get (m_hosts (sv_store s)) i = None"
      "get (m_certs (sv_store s)) (cf_sha256_hex cf (crt_Raw cert)) = None"
    and "templates_named (sv_store s)"
  shows "\<exists>e s''. answer (enroll cf (\<lambda>_. True) nobody_else clock (Some i) serial event_id (Inr r)) s' = (Replied 200 e, s'') \<and>
    ep_HostID e = i \<and> (if tq_Bootstrap q = [] then ep_Bootstrap e = None
      else \<exists>b. ep_Bootstrap e = Some b \<and> template_given cf (op_Tenant who) (tq_Bootstrap q) (sv_store s) b)"
proof -
  let ?tn = "op_Tenant who"
  from assms(1) obtain hash s1 where h: "NewEnrollmentToken (cf_sha256_hex cf) rnd = Some (mt_Token v, hash)"
    and x: "mt_ExpiresAt v = now + token_ttl std q" "mt_Bootstrap v = tq_Bootstrap q"
    and i: "checkBootstrapIsIssuable cf (\<lambda>_. True) nobody_else ?tn (tq_Bootstrap q) s = (Inr () :: (minted_token reply, unit) result, s1)"
    and c: "CreateEnrollmentToken ?tn (minted_row q hash (token_ttl std q) now) (sv_store s1) = Inr (sv_store s')"
    by (rule minted) auto
  let ?row = "minted_row q hash (token_ttl std q) now"
  have hash: "token_hash cf r = hash" "en_Token r \<noteq> []" using token_not_empty [OF h] r(1) by simp_all
  from c issuable_alone(1) [OF i] have s': "sv_store s' = (sv_store s)\<lparr>m_tokens := put hash (?row, ?tn) (m_tokens (sv_store s))\<rparr>"
    by (auto simp: CreateEnrollmentToken_def minted_row_def split: if_splits)
  have k: "get (m_tokens (sv_store s')) (token_hash cf r) = Some (?row, ?tn)" by (simp add: s' hash get_put)
  have use: "token_Usable ?row (clock j)" for j
    using clock [of j] x(1) by (simp add: token_Usable_def minted_row_def is_zero_def)
  have same: "template_given cf ?tn n (sv_store s') b = template_given cf ?tn n (sv_store s) b"
    "GetTemplateArchival ?tn n (sv_store s') = GetTemplateArchival ?tn n (sv_store s)" "active_hosts ?tn (sv_store s') = active_hosts ?tn (sv_store s)"
    "GetHostByMachineID ?tn mid (sv_store s') = GetHostByMachineID ?tn mid (sv_store s)" for n b mid
    by (simp_all add: s' template_given_def GetTemplateVersion_def GetTemplateArchival_def archival_of_def active_hosts_def
        GetHostByMachineID_def)
  have rq: "en_RequestedBootstrap r = tq_Bootstrap q" by (simp add: r(2) x(2))
  have "\<exists>b. resolveBootstrap cf (\<lambda>_. True) nobody_else (clock 2) ?tn (token_hash cf r) (tq_Bootstrap q) s' =
      (Inr b :: (enroll_reply reply, bootstrap option) result, s') \<and>
      (if tq_Bootstrap q = [] then b = None else \<exists>bs. b = Some bs \<and> template_given cf ?tn (tq_Bootstrap q) (sv_store s') bs)"
    by (rule resolve_given [OF k use]) (use issuable_alone(2) [OF i] in \<open>simp_all add: same minted_row_def\<close>)
  then obtain b where b: "resolveBootstrap cf (\<lambda>_. True) nobody_else (clock 2) ?tn (token_hash cf r) (tq_Bootstrap q) s' =
      (Inr b :: (enroll_reply reply, bootstrap option) result, s')"
    "if tq_Bootstrap q = [] then b = None else \<exists>bs. b = Some bs \<and> template_given cf ?tn (tq_Bootstrap q) (sv_store s') bs" by blast
  have "TenantForEnrollmentToken (clock 1) (token_hash cf r) (sv_store s') = Inr ?tn"
    using k use by (simp add: TenantForEnrollmentToken_def)
  moreover have "GetTenant ?tn (sv_store s') = Inr t" using fleet(1) by (simp add: GetTenant_def s')
  moreover have "machine_is_new (\<lambda>_. True) nobody_else ?tn (en_MachineIDHash r) s' = (Inr () :: (enroll_reply reply, unit) result, s')"
    using machine by (auto simp: machine_is_new_Inr call_def same)
  moreover have "fleet_has_room (\<lambda>_. True) nobody_else ?tn t s' = (Inr () :: (enroll_reply reply, unit) result, s')"
    using fleet same(3) by (auto simp: fleet_has_room_Inr CountHosts_def active_hosts_def split: option.splits)
  ultimately have before: "before_redemption cf (\<lambda>_. True) nobody_else clock r s' = (Inr (?tn, b) :: (enroll_reply reply, _) result, s')"
    by (simp add: before_redemption_def andThen_def asks_def call_def rq b(1) going_def)
  have arch: "\<not> Archived (GetTemplateArchival ?tn (bs_Name bs) (sv_store s'))" if "b = Some bs" for bs
  proof -
    from that b(2) have g: "template_given cf ?tn (tq_Bootstrap q) (sv_store s) bs" by (auto simp: same split: if_splits)
    from template_name [OF assms(13) this] g show ?thesis by (auto simp: same template_given_def)
  qed
  have "\<exists>e s''. redeem_and_record cf (\<lambda>_. True) nobody_else (clock 4) event_id r ?tn b i pem cert s' = (Inr (Replied 200 e), s'') \<and>
      ep_HostID e = i \<and> ep_Bootstrap e = b"
    by (rule redeem_succeeds [OF k use, where t = t]) (use fleet machine issued arch in \<open>auto simp: same\<close>, auto simp: s' fleet issued)
  then obtain e s'' where e: "redeem_and_record cf (\<lambda>_. True) nobody_else (clock 4) event_id r ?tn b i pem cert s' = (Inr (Replied 200 e), s'')"
    "ep_HostID e = i" "ep_Bootstrap e = b" by blast
  have "answer (enroll cf (\<lambda>_. True) nobody_else clock (Some i) serial event_id (Inr r)) s' = (Replied 200 e, s'')"
    using hash(2) r(3) e(1) issued(1) by (simp add: enroll_def answer_def andThen_def before issue_and_redeem_def)
  then show ?thesis using e(2,3) b(2) by (auto simp: same split: if_splits)
qed

text \<open>A lifetime in seconds is not bounded: one of some 292 years wraps, and the token is minted expired.\<close>

theorem huge_lifetime_wraps:
  "9223372036 < tq_TTLSeconds q \<Longrightarrow> tq_TTLSeconds q < 18446744073 \<Longrightarrow> token_ttl std q < 0"
proof -
  let ?n = "tq_TTLSeconds q * 1000000000 + 9223372036854775808"
  assume q: "9223372036 < tq_TTLSeconds q" "tq_TTLSeconds q < 18446744073"
  have "?n mod 18446744073709551616 = (?n - 18446744073709551616) mod 18446744073709551616"
    by (rule minus_mod_self2 [symmetric])
  also have "\<dots> = ?n - 18446744073709551616" by (rule mod_pos_pos_trivial) (use q in linarith)+
  finally have "?n mod 18446744073709551616 < 9223372036854775808" using q by linarith
  then show ?thesis using q(1) by (simp add: token_ttl_def duration_mul_def Second_def wrap64_mod)
qed

section \<open>Instances\<close>

definition demo_operator :: operator where
  "demo_operator = \<lparr>op_Identity = account_identity (\<lambda>x. x) demo_account, op_Tenant = DefaultTenant\<rparr>"

definition two_hosts :: memory where
  "two_hosts = demo_enrolled\<lparr>m_hosts := put ''h2'' (demo_host\<lparr>h_ID := ''h2'', h_MachineIDHash := []\<rparr>, DefaultTenant) (m_hosts demo_enrolled),
     m_certs := put ''fp2'' (demo_cert\<lparr>c_Fingerprint := ''fp2'', c_HostID := ''h2''\<rparr>) (m_certs demo_enrolled)\<rparr>"

theorem revoked_for_good_witness:
  "\<exists>s' cl. handleRevokeHost (\<lambda>_. True) (\<lambda>_ m. m) 5 ''h1'' demo_operator (server_of two_hosts) = (Replied 200 ''revoked'', s') \<and>
    requireAgent (\<lambda>x. x) (\<lambda>_. True) (\<lambda>_. sv_store s') 6 (Some ''fp2'') = (Inr cl :: (unit reply, caller) result) \<and>
    (\<exists>k. k \<noteq> ''h1'' \<and> get (m_hosts (sv_store s')) k = Some (cl_Host cl, DefaultTenant))"
proof -
  have st: "sv_store (server_of two_hosts) = two_hosts" by (simp add: server_of_def)
  have "\<exists>m. RevokeHost DefaultTenant 5 ''h1'' two_hosts = Inr m \<and> get (m_hosts m) ''h2'' = get (m_hosts two_hosts) ''h2'' \<and>
      get (m_certs m) ''fp2'' = get (m_certs two_hosts) ''fp2'' \<and> m_tenants m = m_tenants two_hosts"
    by (simp add: RevokeHost_def scoped_host_def two_hosts_def demo_enrolled_def get_put get_rewrite demo_cert_def)
  then obtain m where m: "RevokeHost DefaultTenant 5 ''h1'' two_hosts = Inr m" "get (m_hosts m) ''h2'' = get (m_hosts two_hosts) ''h2''"
    "get (m_certs m) ''fp2'' = get (m_certs two_hosts) ''fp2''" "m_tenants m = m_tenants two_hosts" by blast
  let ?s = "(server_of two_hosts)\<lparr>sv_store := m\<rparr>"
  have run: "handleRevokeHost (\<lambda>_. True) (\<lambda>_ m. m) 5 ''h1'' demo_operator (server_of two_hosts) = (Replied 200 ''revoked'', ?s)"
    by (simp add: handleRevokeHost_def read_answer step_simps st m(1) demo_operator_def)
  obtain cl where cl: "requireAgent (\<lambda>x. x) (\<lambda>_. True) (\<lambda>_. sv_store ?s) 6 (Some ''fp2'') = (Inr cl :: (unit reply, caller) result)"
      "cl_Tenant cl = DefaultTenant"
    by (simp add: requireAgent_def Fingerprint_def call_def LookupCertificate_def GetTenant_def GetHost_def scoped_host_def m
        two_hosts_def demo_enrolled_def demo_cert_def demo_host_def NewMemory_def is_zero_def get_put)
  show ?thesis
    using revoked_for_good [OF run at_once cl(1)] run cl by (simp add: demo_operator_def)
qed

text \<open>Another administrator suspends the tenant between the read and the write of this request.\<close>

definition meanwhile_suspended :: "nat \<Rightarrow> memory \<Rightarrow> memory" where
  "meanwhile_suspended k m = (if k = 1 then m\<lparr>m_tenants := rewrite (\<lambda>_ t. t\<lparr>t_Suspended := True\<rparr>) (m_tenants m)\<rparr> else m)"

definition renaming :: tenant_request where
  "renaming = \<lparr>tr_Slug = [], tr_DisplayName = Some ''Ours'', tr_ApprovalMode = None, tr_WebhookURL = None,
     tr_HostLimit = \<lparr>ni_Set = False, ni_Value = None\<rparr>, tr_Suspended = None\<rparr>"

theorem update_is_a_patch_witness:
  "\<exists>v s'. handleUpdateTenant (\<lambda>_. None) (\<lambda>_. True) meanwhile_suspended DefaultTenant (Inr renaming) (server_of (NewMemory 1)) =
      (Replied 200 v, s') \<and> tw_DisplayName v = ''Ours'' \<and> tw_Suspended v"
proof -
  have st: "sv_store (server_of (NewMemory 1)) = NewMemory 1" by (simp add: server_of_def)
  have g: "\<exists>t. get (m_tenants (NewMemory 1)) DefaultTenant = Some t" by (simp add: NewMemory_def get_put)
  then obtain t where t: "get (m_tenants (NewMemory 1)) DefaultTenant = Some t" by blast
  then have t1: "get (m_tenants (meanwhile_suspended 1 (meanwhile_suspended 0 (NewMemory 1)))) DefaultTenant = Some (t\<lparr>t_Suspended := True\<rparr>)"
    by (simp add: meanwhile_suspended_def get_rewrite)
  have "\<exists>v s'. handleUpdateTenant (\<lambda>_. None) (\<lambda>_. True) meanwhile_suspended DefaultTenant (Inr renaming) (server_of (NewMemory 1)) =
      (Replied 200 v, s')"
    using t t1
    by (simp add: handleUpdateTenant_def read_answer step_simps st GetTenant_def renaming_def UpdateTenant_def patched_def patch_of_def
        meanwhile_suspended_def del: One_nat_def)
  then obtain v s' where run: "handleUpdateTenant (\<lambda>_. None) (\<lambda>_. True) meanwhile_suspended DefaultTenant (Inr renaming)
      (server_of (NewMemory 1)) = (Replied 200 v, s')" by blast
  from update_is_a_patch [OF this, unfolded st t1] have "tw_DisplayName v = ''Ours'' \<and> tw_Suspended v"
    by (auto simp: renaming_def toTenantView_def)
  with run show ?thesis by blast
qed

definition minting :: token_request where
  "minting = \<lparr>tq_Label = ''rack 4'', tq_Group = ''web'', tq_TTLSeconds = 60, tq_Bootstrap = ''base''\<rparr>"

theorem minted_token_enrols_witness:
  "\<exists>v s' e s''. handleCreateToken demo_config 3600 (\<lambda>_. True) nobody_else 1 (Some ''k'') demo_operator (Inr minting) (server_of inviting) =
      (Replied 201 v, s') \<and>
    answer (enroll demo_config (\<lambda>_. True) nobody_else (\<lambda>_. 5) (Some ''H1'') (Some 1) None (Inr (joining\<lparr>en_Token := mt_Token v\<rparr>))) s' =
      (Replied 200 e, s'') \<and> ep_Bootstrap e \<noteq> None"
proof -
  have st: "sv_store (server_of inviting) = inviting" by (simp add: server_of_def)
  obtain token hash where t: "NewEnrollmentToken (cf_sha256_hex demo_config) (Some ''k'') = Some (token, hash)"
    by (simp add: NewEnrollmentToken_def Let_def)
  have "map_option snd (NewEnrollmentToken (\<lambda>x. x) (Some ''k'')) \<noteq> Some ''tok''" by code_simp
  with t have hash: "hash \<noteq> ''tok''" by (auto simp: demo_config_def)
  have ttl: "token_ttl 3600 minting = 60000000000"
    by (simp add: token_ttl_def minting_def duration_mul_def Second_def wrap64_id in_int64_def int64_min_def int64_max_def)
  have inv: "get (m_tenants inviting) DefaultTenant \<noteq> None" "get (m_tokens inviting) hash = None"
    using hash by (simp_all add: inviting_def NewMemory_def get_put)
  let ?row = "minted_row minting hash 60000000000 1"
  have "checkBootstrapIsIssuable demo_config (\<lambda>_. True) nobody_else DefaultTenant ''base'' (server_of inviting) =
      (Inr () :: (minted_token reply, unit) result, server_of inviting)"
    by (simp add: checkBootstrapIsIssuable_def templateIsLive_def andThen_def asks_def call_def going_def st demo_store demo_computed
        demo_config_def base_template_def template_Signed_def bootstrapDoesNotMintItsOwnToken_def)
  then have run: "handleCreateToken demo_config 3600 (\<lambda>_. True) nobody_else 1 (Some ''k'') demo_operator (Inr minting) (server_of inviting) =
      (Replied 201 \<lparr>mt_Token = token, mt_Label = ''rack 4'', mt_Group = ''web'', mt_Bootstrap = ''base'', mt_ExpiresAt = 60000000001\<rparr>,
       (server_of inviting)\<lparr>sv_store := inviting\<lparr>m_tokens := put hash (?row, DefaultTenant) (m_tokens inviting)\<rparr>\<rparr>)"
    by (simp add: handleCreateToken_def demo_operator_def minting_def answer_andThen [OF refuses_issuable] t ttl [unfolded minting_def]
        read_answer step_simps CreateEnrollmentToken_def minted_row_def st inv Let_def)
  obtain x where x: "get (m_tenants inviting) DefaultTenant = Some x" "\<not> t_Suspended x" "t_HostLimit x = None"
    using demo_store(6) by (auto simp: GetTenant_def split: option.splits)
  have "\<exists>e s''. answer (enroll demo_config (\<lambda>_. True) nobody_else (\<lambda>_. 5) (Some ''H1'') (Some 1) None (Inr (joining\<lparr>en_Token := token\<rparr>)))
      ((server_of inviting)\<lparr>sv_store := inviting\<lparr>m_tokens := put hash (?row, DefaultTenant) (m_tokens inviting)\<rparr>\<rparr>) = (Replied 200 e, s'') \<and>
      ep_HostID e = ''H1'' \<and> (if tq_Bootstrap minting = [] then ep_Bootstrap e = None
      else \<exists>b. ep_Bootstrap e = Some b \<and> template_given demo_config (op_Tenant demo_operator) (tq_Bootstrap minting) (sv_store (server_of inviting)) b)"
  proof (rule minted_token_enrols [OF run, where t = x and pem = "''derkey''" and cert = "toy_cert ''derkey''"])
    show "Issue (cf_x509 demo_config) (Some 1) 5 (en_CSR (joining\<lparr>en_Token := token\<rparr>)) ''H1'' = Inr (''derkey'', toy_cert ''derkey'')"
      using demo_issued by (simp add: joining_def)
    show "en_MachineIDHash (joining\<lparr>en_Token := token\<rparr>) = [] \<or>
        GetHostByMachineID (op_Tenant demo_operator) (en_MachineIDHash (joining\<lparr>en_Token := token\<rparr>)) (sv_store (server_of inviting)) = Inl ErrNotFound"
      using demo_store(5) by (simp add: joining_def demo_operator_def st)
    show "templates_named (sv_store (server_of inviting))"
      unfolding st by (auto simp: inviting_def NewMemory_def templates_named_def get_put base_template_def split: if_splits)
  qed (use x in \<open>unfold st, simp_all add: joining_def demo_operator_def inviting_def NewMemory_def\<close>)
  with run show ?thesis by (auto simp: minting_def)
qed

theorem huge_lifetime_wraps_witness: "token_ttl 3600 (minting\<lparr>tq_TTLSeconds := 10000000000\<rparr>) < 0"
  by (rule huge_lifetime_wraps) simp_all

end
