(* ===== verification/Alerts.thy ===== *)
theory Alerts
  imports UnitWatch Protocol StoreLaws
begin

text \<open>
  The alert evaluator of \<open>internal/server/alerts.go\<close>: one pass reads the rules, hosts and alert states of a tenant,
  advances the state of every pair of a rule and a host, and announces the pairs that began or ended firing.
  Other control planes run the same pass against the same store: \<open>w k\<close> is what they do to it before the
  \<open>k\<close>-th host of a rule is settled.
\<close>

section \<open>The words of a notification\<close>

definition Hour :: duration where [go_defs]: "Hour = 3600000000000"

text \<open>\<open>Duration.Round\<close> for a unit above zero: to the nearest multiple, halves away from zero, and the last
  \<open>int64\<close> where that would not fit; the remainder of Go's division has the sign of the duration.\<close>

definition duration_round :: "duration \<Rightarrow> duration \<Rightarrow> duration" where
  "duration_round d step =
     (let r = abs d mod step in
      if d < 0 then
        (if r + r < step then d + r
         else let d1 = wrap64 (d - step + r) in if d1 < d then d1 else int64_min)
      else
        (if r + r < step then d - r
         else let d1 = wrap64 (d + step - r) in if d < d1 then d1 else int64_max))"

definition frac_text :: "nat \<Rightarrow> bytes" where
  "frac_text ns = (if ns = 0 then [] else ''.'' @ rev (dropWhile (\<lambda>c. c = CHR ''0'') (rev (append_int (int ns) 9))))"

text \<open>\<open>Duration.String\<close> of zero and of durations of a second or more, which are the ones that rounding to
  minutes or hours leaves.\<close>

definition duration_text :: "duration \<Rightarrow> bytes" where
  "duration_text d =
     (let u = nat (abs d); secs = u div 1000000000; mins = secs div 60
      in if u = 0 then ''0s''
         else (if d < 0 then ''-'' else []) @
              (if mins div 60 > 0 then nat_digits (mins div 60) @ ''h'' else []) @
              (if mins > 0 then nat_digits (mins mod 60) @ ''m'' else []) @
              nat_digits (secs mod 60) @ frac_text (u mod 1000000000) @ ''s'')"

text \<open>The days are whole days of the duration, truncated towards zero: the floating point quotient the source
  truncates differs from this only in the last nanoseconds of a day.\<close>

definition plainDays :: "duration \<Rightarrow> bytes" where
  "plainDays d =
     (let days = (if d < 0 then 0 else d div (24 * Hour))
      in if days \<le> 0 then ''under a day'' else if days = 1 then ''1 day'' else itoa days @ '' days'')"

definition firingKind :: "bytes \<Rightarrow> kind" where
  "firingKind c =
     (if c = ConditionHostSilent then KindHostSilent
      else if c = ConditionSecurityUpdates \<or> c = ConditionSecurityUpdatesAge then KindUpdatesPending
      else KindRebootOverdue)"

definition recoveryKind :: "bytes \<Rightarrow> kind" where
  "recoveryKind c =
     (if c = ConditionHostSilent then KindHostRecovered
      else if c = ConditionSecurityUpdates \<or> c = ConditionSecurityUpdatesAge then KindUpdatesResolved
      else KindRebootDone)"

definition conditionPhrase :: "alert_rule \<Rightarrow> bytes" where
  "conditionPhrase r =
     (if ar_Condition r = ConditionHostSilent then ''silent for over '' @ itoa (ar_Threshold r) @ '' minutes''
      else if ar_Condition r = ConditionSecurityUpdates then ''with '' @ itoa (ar_Threshold r) @ ''+ security updates pending''
      else if ar_Condition r = ConditionSecurityUpdatesAge
        then ''with security updates pending for over '' @ itoa (ar_Threshold r) @ '' days''
      else ''awaiting a reboot for over '' @ itoa (ar_Threshold r) @ '' days'')"

definition recoveryPhrase :: "alert_rule \<Rightarrow> bytes" where
  "recoveryPhrase r =
     (if ar_Condition r = ConditionHostSilent then ''are heartbeating again''
      else if ar_Condition r = ConditionSecurityUpdates then ''are back under '' @ itoa (ar_Threshold r) @ '' security updates''
      else if ar_Condition r = ConditionSecurityUpdatesAge then ''have no security updates pending''
      else ''no longer need a reboot'')"

definition recoverySummary :: "alert_rule \<Rightarrow> host \<Rightarrow> bytes" where
  "recoverySummary r h =
     (if ar_Condition r = ConditionHostSilent then h_Hostname h @ '': heartbeating again''
      else if ar_Condition r = ConditionSecurityUpdates
        then h_Hostname h @ '': security backlog back under '' @ itoa (ar_Threshold r)
      else if ar_Condition r = ConditionSecurityUpdatesAge then h_Hostname h @ '': security backlog cleared''
      else h_Hostname h @ '': no longer needs a reboot'')"

section \<open>Conditions\<close>

text \<open>Whether the condition holds right now, and the line a notification would carry.\<close>

definition conditionHolds :: "alert_rule \<Rightarrow> host \<Rightarrow> alert_state \<Rightarrow> instant \<Rightarrow> bool \<times> bytes" where
  "conditionHolds r h st now =
     (if ar_Condition r = ConditionHostSilent then
        (if is_zero (h_LastSeen h) then (False, [])
         else let silent = time_sub now (h_LastSeen h)
           in (duration_mul (ar_Threshold r) Minute < silent,
               h_Hostname h @ '': silent for '' @ duration_text (duration_round silent Minute) @ '', last heard '' @
                 format_rfc3339 (h_LastSeen h)))
      else if ar_Condition r = ConditionSecurityUpdates then
        (case parseFactsProbe (h_Facts h) of
           None \<Rightarrow> (False, [])
         | Some p \<Rightarrow> (ar_Threshold r \<le> fp_UpgradableSecurity p,
               h_Hostname h @ '': '' @ itoa (fp_UpgradableSecurity p) @ '' security updates pending''))
      else if ar_Condition r = ConditionSecurityUpdatesAge then
        (case parseFactsProbe (h_Facts h) of
           None \<Rightarrow> (False, [])
         | Some p \<Rightarrow> (0 < fp_UpgradableSecurity p,
               h_Hostname h @ '': '' @ itoa (fp_UpgradableSecurity p) @ '' security updates pending'' @
                 (if is_zero (as_Since st) then [] else '', '' @ plainDays (time_sub now (as_Since st)) @ '' old'')))
      else if ar_Condition r = ConditionRebootRequired then
        (case parseFactsProbe (h_Facts h) of
           None \<Rightarrow> (False, [])
         | Some p \<Rightarrow> (fp_RebootRequired p,
               h_Hostname h @ '': reboot required'' @
                 (if is_zero (as_Since st) then []
                  else '' for '' @ duration_text (duration_round (time_sub now (as_Since st)) Hour))))
      else (False, []))"

definition conditionRipe :: "alert_rule \<Rightarrow> alert_state \<Rightarrow> instant \<Rightarrow> bool" where
  "conditionRipe r st now \<longleftrightarrow>
     (if \<not> MeasuredInDays (ar_Condition r) then True
      else if is_zero (as_Since st) then False
      else duration_mul (duration_mul (ar_Threshold r) 24) Hour \<le> time_sub now (as_Since st))"

section \<open>One rule\<close>

definition DefaultAlertCooldownSeconds :: int where [go_defs]: "DefaultAlertCooldownSeconds = 4 * 60 * 60"
definition alertDigestThreshold :: nat where [go_defs]: "alertDigestThreshold = 3"

text \<open>A host and the line its notification carries.\<close>

type_synonym firing_host = "host \<times> bytes"

text \<open>What a pass holds while it goes over the hosts: the control plane, its copy of the alert states, and the two
  batches.\<close>

record sweep_state =
  ss_server :: server
  ss_held :: "alert_key \<Rightarrow> alert_state"
  ss_firing :: "firing_host list"
  ss_recovered :: "firing_host list"

definition key_of :: "alert_rule \<Rightarrow> host \<Rightarrow> alert_key" where
  "key_of r h = \<lparr>ak_RuleID = ar_ID r, ak_HostID = h_ID h, ak_Subject = []\<rparr>"

text \<open>The state of a pair with its \<open>Since\<close> brought up to date.\<close>

definition since_updated :: "bool \<Rightarrow> instant \<Rightarrow> alert_state \<Rightarrow> alert_state" where
  "since_updated raw now st =
     (if raw \<and> is_zero (as_Since st) then st\<lparr>as_Since := now\<rparr> else if \<not> raw then st\<lparr>as_Since := 0\<rparr> else st)"

definition evaluation_cooldown :: "alert_rule \<Rightarrow> duration" where
  "evaluation_cooldown r =
     (let c = duration_mul (ar_CooldownSeconds r) Second
      in if c \<le> 0 then DefaultAlertCooldownSeconds * Second else c)"

text \<open>The three things that can happen to a pair: its notification is claimed, its firing is released, or only its
  bookkeeping is written.\<close>

definition fire_host ::
  "reach \<Rightarrow> instant \<Rightarrow> tenant_id \<Rightarrow> alert_rule \<Rightarrow> host \<Rightarrow> bytes \<Rightarrow> server \<Rightarrow> sweep_state \<Rightarrow> sweep_state" where
  "fire_host up now tn r h line s x =
     (case call up ''ClaimAlertNotification'' (ClaimAlertNotification tn (key_of r h) now (evaluation_cooldown r) (sv_store s)) of
        Inl _ \<Rightarrow> x\<lparr>ss_server := s\<rparr>
      | Inr (won, m) \<Rightarrow> x\<lparr>ss_server := s\<lparr>sv_store := m\<rparr>,
            ss_firing := (if won then ss_firing x @ [(h, line)] else ss_firing x)\<rparr>)"

definition end_firing :: "reach \<Rightarrow> tenant_id \<Rightarrow> alert_rule \<Rightarrow> host \<Rightarrow> server \<Rightarrow> sweep_state \<Rightarrow> sweep_state" where
  "end_firing up tn r h s x =
     (if \<not> up ''ReleaseAlertFiring'' then x\<lparr>ss_server := s\<rparr>
      else case ReleaseAlertFiring tn (key_of r h) (sv_store s) of (won, m) \<Rightarrow>
        x\<lparr>ss_server := s\<lparr>sv_store := m\<rparr>,
          ss_recovered := (if won then ss_recovered x @ [(h, recoverySummary r h)] else ss_recovered x)\<rparr>)"

definition keep_state :: "reach \<Rightarrow> tenant_id \<Rightarrow> alert_state \<Rightarrow> server \<Rightarrow> sweep_state \<Rightarrow> sweep_state" where
  "keep_state up tn st s x =
     x\<lparr>ss_server := s\<lparr>sv_store := attempted (call up ''UpsertAlertState'' (UpsertAlertState tn st (sv_store s))) (sv_store s)\<rparr>,
       ss_held := (ss_held x)(as_Key st := st)\<rparr>"

definition settle_host ::
  "reach \<Rightarrow> (nat \<Rightarrow> memory \<Rightarrow> memory) \<Rightarrow> nat \<Rightarrow> instant \<Rightarrow> tenant_id \<Rightarrow> alert_rule \<Rightarrow> host \<Rightarrow> sweep_state \<Rightarrow> sweep_state" where
  "settle_host up w k now tn r h x =
     (if h_Revoked h then x
      else
        let held = ss_held x (key_of r h);
            st0 = held\<lparr>as_Key := key_of r h\<rparr>;
            (raw, line) = conditionHolds r h st0 now;
            st = since_updated raw now st0;
            s = gap w k (ss_server x)
        in if raw \<and> conditionRipe r st now then fire_host up now tn r h line s x
           else if as_Firing st then end_firing up tn r h s x
           else if st \<noteq> held then keep_state up tn st s x
           else x\<lparr>ss_server := s\<rparr>)"

fun settle_hosts ::
  "reach \<Rightarrow> (nat \<Rightarrow> memory \<Rightarrow> memory) \<Rightarrow> nat \<Rightarrow> instant \<Rightarrow> tenant_id \<Rightarrow> alert_rule \<Rightarrow> host list \<Rightarrow> sweep_state \<Rightarrow> sweep_state" where
  "settle_hosts up w k now tn r [] x = x"
| "settle_hosts up w k now tn r (h # hs) x = settle_hosts up w (Suc k) now tn r hs (settle_host up w k now tn r h x)"

section \<open>Announcing\<close>

definition rule_detail :: "alert_rule \<Rightarrow> (bytes \<times> json) list" where
  "rule_detail r = [(''ruleId'', JStr (ar_ID r)), (''condition'', JStr (ar_Condition r))]"

definition host_alert :: "alert_rule \<Rightarrow> kind \<Rightarrow> instant \<Rightarrow> (bytes \<times> json) list \<Rightarrow> firing_host \<Rightarrow> notification" where
  "host_alert r kind now extra f =
     \<lparr>ne_Kind = kind, ne_TenantID = [], ne_HostID = h_ID (fst f), ne_Hostname = h_Hostname (fst f), ne_Summary = snd f,
      ne_At = now, ne_Detail = rule_detail r @ extra\<rparr>"

definition ellipsis :: bytes where
  "ellipsis = [CHR 0xE2, CHR 0x80, CHR 0xA6]"

fun strings_join :: "bytes \<Rightarrow> bytes list \<Rightarrow> bytes" where
  "strings_join sep [] = []"
| "strings_join sep [x] = x"
| "strings_join sep (x # y # xs) = x @ sep @ strings_join sep (y # xs)"

definition digest_alert :: "alert_rule \<Rightarrow> kind \<Rightarrow> instant \<Rightarrow> bool \<Rightarrow> firing_host list \<Rightarrow> notification" where
  "digest_alert r kind now isFiring batch =
     \<lparr>ne_Kind = kind, ne_TenantID = [], ne_HostID = [], ne_Hostname = [],
      ne_Summary = itoa (int (length batch)) @ '' hosts '' @ (if isFiring then conditionPhrase r else recoveryPhrase r) @ '': '' @
        strings_join '', '' (map (\<lambda>f. h_Hostname (fst f)) (take alertDigestThreshold batch)) @ '', '' @ ellipsis,
      ne_At = now, ne_Detail = rule_detail r @ [(''hosts'', JNum (itoa (int (length batch))))]\<rparr>"

text \<open>\<open>notifyAlert\<close>: the answer is why the mail was not started.\<close>

definition notifyAlert ::
  "tenant_id \<Rightarrow> instant \<Rightarrow> bytes option \<Rightarrow> alert_rule \<Rightarrow> notification \<Rightarrow> server \<Rightarrow> not_started option \<times> server" where
  "notifyAlert tn clock new_id r ev s =
     (let s1 = emit tn clock new_id ev s
      in if ar_EmailTo r = [] then (None, s1) else detach (MailPass tn r ev) s1)"

text \<open>A digest records every host and announces once; \<open>new_id i\<close> is the identifier drawn for the \<open>i\<close>-th event.\<close>

fun record_all :: "tenant_id \<Rightarrow> instant \<Rightarrow> (nat \<Rightarrow> bytes option) \<Rightarrow> notification list \<Rightarrow> server \<Rightarrow> server" where
  "record_all tn clock new_id [] s = s"
| "record_all tn clock new_id (ev # evs) s =
     record_all tn clock (\<lambda>i. new_id (Suc i)) evs (snd (snd (record_event tn clock (new_id 0) ev s)))"

fun notify_each :: "tenant_id \<Rightarrow> instant \<Rightarrow> (nat \<Rightarrow> bytes option) \<Rightarrow> alert_rule \<Rightarrow> notification list \<Rightarrow> server \<Rightarrow>
    not_started option \<times> server" where
  "notify_each tn clock new_id r [] s = (None, s)"
| "notify_each tn clock new_id r (ev # evs) s =
     (case notifyAlert tn clock (new_id 0) r ev s of (reason, s1) \<Rightarrow>
      case notify_each tn clock (\<lambda>i. new_id (Suc i)) r evs s1 of (later, s2) \<Rightarrow>
        (if later = None then reason else later, s2))"

definition notifyBatch ::
  "tenant_id \<Rightarrow> instant \<Rightarrow> (nat \<Rightarrow> bytes option) \<Rightarrow> alert_rule \<Rightarrow> firing_host list \<Rightarrow> instant \<Rightarrow> kind \<Rightarrow> bool \<Rightarrow> server \<Rightarrow>
   not_started option \<times> server" where
  "notifyBatch tn clock new_id r batch now kind isFiring s =
     (if batch = [] then (None, s)
      else if alertDigestThreshold < length batch then
        notifyAlert tn clock (new_id (length batch)) r (digest_alert r kind now isFiring batch)
          (record_all tn clock new_id (map (host_alert r kind now [(''digested'', JBool True)]) batch) s)
      else notify_each tn clock new_id r (map (host_alert r kind now []) batch) s)"

text \<open>Why a delivery did not start, in the words of \<open>detach\<close>.\<close>

definition reason_text :: "not_started \<Rightarrow> bytes" where
  "reason_text x = (case x of
      Stopping \<Rightarrow> ''the control plane was stopping and did not start this delivery''
    | TooManyInFlight \<Rightarrow> ''too many deliveries were already in flight; this one was not started'')"

definition recordDelivery :: "reach \<Rightarrow> tenant_id \<Rightarrow> bytes \<Rightarrow> instant \<Rightarrow> bytes \<Rightarrow> server \<Rightarrow> server" where
  "recordDelivery up tn ruleID clock failure s =
     (if up ''RecordAlertDelivery'' then s\<lparr>sv_store := RecordAlertDelivery tn ruleID clock failure (sv_store s)\<rparr> else s)"

section \<open>Passes\<close>

text \<open>\<open>now\<close> is the time of the pass, \<open>clock\<close> the one read while it announces; \<open>new_id b i\<close> are the identifiers drawn for
  the events of the batch of firings (\<open>True\<close>) and of recoveries (\<open>False\<close>).\<close>

definition evaluateRule ::
  "reach \<Rightarrow> (nat \<Rightarrow> memory \<Rightarrow> memory) \<Rightarrow> instant \<Rightarrow> instant \<Rightarrow> (bool \<Rightarrow> nat \<Rightarrow> bytes option) \<Rightarrow> tenant_id \<Rightarrow> alert_rule \<Rightarrow>
   host list \<Rightarrow> (alert_key \<Rightarrow> alert_state) \<Rightarrow> server \<Rightarrow> (alert_key \<Rightarrow> alert_state) \<times> server" where
  "evaluateRule up w now clock new_id tn r hosts held s =
     (let x = settle_hosts up w 0 now tn r hosts \<lparr>ss_server = s, ss_held = held, ss_firing = [], ss_recovered = []\<rparr>;
          (refused1, s1) = notifyBatch tn clock (new_id True) r (ss_firing x) now (firingKind (ar_Condition r)) True (ss_server x);
          (refused2, s2) = notifyBatch tn clock (new_id False) r (ss_recovered x) now (recoveryKind (ar_Condition r)) False s1
      in (ss_held x,
          case (if refused2 = None then refused1 else refused2) of
            None \<Rightarrow> s2
          | Some reason \<Rightarrow> recordDelivery up tn (ar_ID r) clock (reason_text reason) s2))"

fun evaluate_rules ::
  "reach \<Rightarrow> (nat \<Rightarrow> nat \<Rightarrow> memory \<Rightarrow> memory) \<Rightarrow> nat \<Rightarrow> instant \<Rightarrow> instant \<Rightarrow> (nat \<Rightarrow> bool \<Rightarrow> nat \<Rightarrow> bytes option) \<Rightarrow> tenant_id \<Rightarrow>
   alert_rule list \<Rightarrow> host list \<Rightarrow> (alert_key \<Rightarrow> alert_state) \<Rightarrow> server \<Rightarrow> server" where
  "evaluate_rules up w k now clock new_id tn [] hosts held s = s"
| "evaluate_rules up w k now clock new_id tn (r # rs) hosts held s =
     (case evaluateRule up (w k) now clock (new_id k) tn r hosts held s of (held', s') \<Rightarrow>
        evaluate_rules up w (Suc k) now clock new_id tn rs hosts held' s')"

text \<open>The states a pass starts from: what was listed, and Go's zero value for every other key.\<close>

definition held_states :: "alert_state list \<Rightarrow> alert_key \<Rightarrow> alert_state" where
  "held_states sts key = (case map_of (rev (map (\<lambda>st. (as_Key st, st)) sts)) key of None \<Rightarrow> no_alert | Some st \<Rightarrow> st)"

text \<open>Failing to list anything ends the pass of this tenant, which is logged; \<open>w n k\<close> is what others do before the
  \<open>k\<close>-th host of the \<open>n\<close>-th rule.\<close>

definition evaluateTenantAlerts ::
  "reach \<Rightarrow> (nat \<Rightarrow> nat \<Rightarrow> memory \<Rightarrow> memory) \<Rightarrow> instant \<Rightarrow> instant \<Rightarrow> (nat \<Rightarrow> bool \<Rightarrow> nat \<Rightarrow> bytes option) \<Rightarrow> tenant_id \<Rightarrow> server \<Rightarrow> server" where
  "evaluateTenantAlerts up w now clock new_id tn s =
     (if \<not> up ''ListAlertRules'' then s
      else
        let evaluated = filter (\<lambda>r. ar_Enabled r \<and> Evaluated (ar_Condition r)) (ListAlertRules tn (sv_store s))
        in if evaluated = [] then s
           else if \<not> up ''ListHosts'' then s
           else if \<not> up ''ListAlertStates'' then s
           else evaluate_rules up w 0 now clock new_id tn evaluated (ListHosts tn (sv_store s))
             (held_states (ListAlertStates tn (sv_store s))) s)"

text \<open>One pass over every tenant; the functions are those of the tenant at hand.\<close>

definition evaluateAlerts ::
  "reach \<Rightarrow> (tenant_id \<Rightarrow> reach) \<Rightarrow> (tenant_id \<Rightarrow> nat \<Rightarrow> nat \<Rightarrow> memory \<Rightarrow> memory) \<Rightarrow> instant \<Rightarrow> instant \<Rightarrow>
   (tenant_id \<Rightarrow> nat \<Rightarrow> bool \<Rightarrow> nat \<Rightarrow> bytes option) \<Rightarrow> server \<Rightarrow> server" where
  "evaluateAlerts up up_for w now clock new_id s =
     (if \<not> up ''ListTenants'' then s
      else fold (\<lambda>t. evaluateTenantAlerts (up_for (t_ID t)) (w (t_ID t)) now clock (new_id (t_ID t)) (t_ID t))
        (ListTenants (sv_store s)) s)"

section \<open>What a pass leaves alone\<close>

text \<open>Two stores that differ in the inbox, the alert states and the rules only.\<close>

definition besides_alerts :: "memory \<Rightarrow> memory" where
  "besides_alerts m = m\<lparr>m_events := [], m_states := no_entries, m_rules := no_entries\<rparr>"

definition minded :: "memory \<Rightarrow> memory \<Rightarrow> bool" where
  "minded m m' \<longleftrightarrow> besides_alerts m' = besides_alerts m"

lemma minded_refl [simp]: "minded m m"
  by (simp add: minded_def)

lemma minded_trans [trans]: "minded a b \<Longrightarrow> minded b c \<Longrightarrow> minded a c"
  by (simp add: minded_def)

lemma minded_fields [simp]: "minded m (m\<lparr>m_events := evs\<rparr>)" "minded m (m\<lparr>m_states := sts\<rparr>)" "minded m (m\<lparr>m_rules := rls\<rparr>)"
  by (simp_all add: minded_def besides_alerts_def)

lemma emit_events: obtains evs where "sv_store (emit tn now i ev s) = (sv_store s)\<lparr>m_events := evs\<rparr>"
  using emit_frame [of tn now i ev s] by blast

lemma record_events: obtains evs where "sv_store (snd (snd (record_event tn now i ev s))) = (sv_store s)\<lparr>m_events := evs\<rparr>"
proof -
  have "\<exists>evs. sv_store (snd (snd (record_event tn now i ev s))) = (sv_store s)\<lparr>m_events := evs\<rparr>"
    using emit_frame [of tn now i ev s] by (simp add: record_event_store emit_store)
  then show ?thesis using that by blast
qed

lemma notifyAlert_events: obtains evs where "sv_store (snd (notifyAlert tn c i r ev s)) = (sv_store s)\<lparr>m_events := evs\<rparr>"
proof -
  obtain evs where "sv_store (emit tn c i ev s) = (sv_store s)\<lparr>m_events := evs\<rparr>" by (rule emit_events)
  then show ?thesis using that by (simp add: notifyAlert_def Let_def)
qed

lemma record_all_events: "\<exists>evs'. sv_store (record_all tn c ids evs s) = (sv_store s)\<lparr>m_events := evs'\<rparr>"
proof (induction evs arbitrary: ids s)
  case Nil
  then show ?case by (simp add: exI [of _ "m_events (sv_store s)"])
next
  case (Cons ev evs)
  obtain es where "sv_store (snd (snd (record_event tn c (ids 0) ev s))) = (sv_store s)\<lparr>m_events := es\<rparr>" by (rule record_events)
  with Cons.IH [of "\<lambda>i. ids (Suc i)" "snd (snd (record_event tn c (ids 0) ev s))"] show ?case by auto
qed

lemma notify_each_events: "\<exists>evs'. sv_store (snd (notify_each tn c ids r evs s)) = (sv_store s)\<lparr>m_events := evs'\<rparr>"
proof (induction evs arbitrary: ids s)
  case Nil
  then show ?case by (simp add: exI [of _ "m_events (sv_store s)"])
next
  case (Cons ev evs)
  obtain es where "sv_store (snd (notifyAlert tn c (ids 0) r ev s)) = (sv_store s)\<lparr>m_events := es\<rparr>" by (rule notifyAlert_events)
  with Cons.IH [of "\<lambda>i. ids (Suc i)" "snd (notifyAlert tn c (ids 0) r ev s)"] show ?case by (auto split: prod.splits)
qed

lemma notifyBatch_events: "\<exists>evs. sv_store (snd (notifyBatch tn c ids r batch now kind b s)) = (sv_store s)\<lparr>m_events := evs\<rparr>"
proof -
  let ?d = "map (host_alert r kind now [(''digested'', JBool True)]) batch"
  obtain e1 where 1: "sv_store (record_all tn c ids ?d s) = (sv_store s)\<lparr>m_events := e1\<rparr>" using record_all_events by blast
  obtain e2 where 2: "sv_store (snd (notifyAlert tn c (ids (length batch)) r (digest_alert r kind now b batch) (record_all tn c ids ?d s))) =
      (sv_store (record_all tn c ids ?d s))\<lparr>m_events := e2\<rparr>" by (rule notifyAlert_events)
  from 1 2 notify_each_events show ?thesis
    by (auto simp: notifyBatch_def intro: exI [of _ "m_events (sv_store s)"])
qed

lemma alert_ops_minded:
  "ClaimAlertNotification tn key now cd m = Inr (b, m') \<Longrightarrow> minded m m'"
  "minded m (snd (ReleaseAlertFiring tn key m))"
  "minded m (attempted (call up nm (UpsertAlertState tn st m)) m)"
  by (auto simp: ClaimAlertNotification_def Let_def ReleaseAlertFiring_def attempted_def call_def UpsertAlertState_def
      split: if_splits option.splits)

lemma settled_minded:
  "minded (sv_store s) (sv_store (ss_server (fire_host up now tn r h line s x)))"
  "minded (sv_store s) (sv_store (ss_server (end_firing up tn r h s x)))"
  "minded (sv_store s) (sv_store (ss_server (keep_state up tn st s x)))"
  by (auto simp: fire_host_def end_firing_def keep_state_def call_Inr alert_ops_minded split: sum.splits prod.splits
      dest: alert_ops_minded(1)) (metis alert_ops_minded(2) snd_conv)

lemma settle_host_minded:
  assumes "\<And>k m. minded m (w k m)"
  shows "minded (sv_store (ss_server x)) (sv_store (ss_server (settle_host up w k now tn r h x)))"
proof (cases "h_Revoked h")
  case False
  have "minded (sv_store (gap w k (ss_server x))) (sv_store (ss_server (settle_host up w k now tn r h x)))"
    by (simp add: settle_host_def Let_def False settled_minded del: gap_store split: prod.splits)
  then show ?thesis using minded_trans [OF assms] by simp
qed (simp add: settle_host_def)

lemma settle_hosts_minded:
  assumes "\<And>k m. minded m (w k m)"
  shows "minded (sv_store (ss_server x)) (sv_store (ss_server (settle_hosts up w k now tn r hs x)))"
proof (induction hs arbitrary: k x)
  case (Cons h hs)
  show ?case using minded_trans [OF settle_host_minded [OF assms] Cons.IH] by simp
qed simp

lemma recordDelivery_minded: "minded (sv_store s) (sv_store (recordDelivery up tn i c f s))"
  by (auto simp: recordDelivery_def RecordAlertDelivery_def split: option.splits)

lemma evaluateRule_minded:
  assumes "\<And>k m. minded m (w k m)"
  shows "minded (sv_store s) (sv_store (snd (evaluateRule up w now c ids tn r hs held s)))"
proof -
  let ?x = "settle_hosts up w 0 now tn r hs \<lparr>ss_server = s, ss_held = held, ss_firing = [], ss_recovered = []\<rparr>"
  let ?b1 = "notifyBatch tn c (ids True) r (ss_firing ?x) now (firingKind (ar_Condition r)) True (ss_server ?x)"
  let ?b2 = "notifyBatch tn c (ids False) r (ss_recovered ?x) now (recoveryKind (ar_Condition r)) False (snd ?b1)"
  have "minded (sv_store s) (sv_store (ss_server ?x))" using settle_hosts_minded [OF assms, of "\<lparr>ss_server = s, ss_held = held, ss_firing = [], ss_recovered = []\<rparr>"] by simp
  also have "minded \<dots> (sv_store (snd ?b1))"
    using notifyBatch_events [of tn c "ids True" r "ss_firing ?x" now "firingKind (ar_Condition r)" True "ss_server ?x"] by auto
  also have "minded \<dots> (sv_store (snd ?b2))"
    using notifyBatch_events [of tn c "ids False" r "ss_recovered ?x" now "recoveryKind (ar_Condition r)" False "snd ?b1"] by auto
  finally have "minded (sv_store s) (sv_store (snd ?b2))" .
  then show ?thesis
    by (auto simp: evaluateRule_def Let_def split: prod.splits option.splits intro: minded_trans recordDelivery_minded)
qed

lemma evaluate_rules_minded:
  assumes "\<And>n k m. minded m (w n k m)"
  shows "minded (sv_store s) (sv_store (evaluate_rules up w n now c ids tn rs hs held s))"
proof (induction rs arbitrary: n held s)
  case (Cons r rs)
  obtain held' s' where e: "evaluateRule up (w n) now c (ids n) tn r hs held s = (held', s')" by fastforce
  with evaluateRule_minded [of "w n" s up now c "ids n" tn r hs held] assms have "minded (sv_store s) (sv_store s')" by simp
  with Cons.IH [of s' "Suc n" held'] show ?case by (simp add: e minded_trans)
qed simp

lemma evaluateTenantAlerts_minded:
  assumes "\<And>n k m. minded m (w n k m)"
  shows "minded (sv_store s) (sv_store (evaluateTenantAlerts up w now c ids tn s))"
  by (auto simp: evaluateTenantAlerts_def Let_def intro: evaluate_rules_minded [OF assms])

lemma tenants_minded:
  assumes "\<And>t n k m. minded m (w t n k m)"
  shows "minded (sv_store s) (sv_store (fold (\<lambda>t. evaluateTenantAlerts (up_for (t_ID t)) (w (t_ID t)) now c (ids (t_ID t)) (t_ID t)) ts s))"
proof (induction ts arbitrary: s)
  case (Cons t ts)
  show ?case using minded_trans [OF evaluateTenantAlerts_minded [OF assms] Cons.IH] by simp
qed simp

text \<open>Alerting never acts on the fleet: a pass over every tenant, whatever the other control planes record of
  their own alerts meanwhile, leaves every job, queue, host, token, account and template as it was; it
  writes the inbox, the alert states and the delivery fields of the rules.\<close>

theorem alerts_create_no_job:
  assumes "\<forall>t n k m. minded m (w t n k m)"
  shows "minded (sv_store s) (sv_store (evaluateAlerts up up_for w now c ids s))"
  using assms by (auto simp: evaluateAlerts_def intro: tenants_minded)

section \<open>What a pass sends\<close>

lemma detach_started: "length (sv_started (snd (detach p s))) \<le> Suc (length (sv_started s))"
  by (simp add: detach_def)

lemma record_event_started [simp]: "sv_started (snd (snd (record_event tn c i ev s))) = sv_started s"
  using record_event_other [of tn c i ev s] by (metis prod.collapse)

lemma emit_started: "length (sv_started (emit tn c i ev s)) \<le> Suc (length (sv_started s))"
proof -
  obtain e b s1 where r: "record_event tn c i ev s = (e, b, s1)" by (metis prod.exhaust)
  have "sv_started s1 = sv_started s" using record_event_started [of tn c i ev s] by (simp add: r)
  with detach_started [of "EventPass tn e" s1] show ?thesis by (simp add: emit_def r)
qed

lemma notifyAlert_started: "length (sv_started (snd (notifyAlert tn c i r ev s))) \<le> length (sv_started s) + 2"
  using emit_started [of tn c i ev s] detach_started [of "MailPass tn r ev" "emit tn c i ev s"]
  by (auto simp: notifyAlert_def Let_def)

lemma record_all_started [simp]: "sv_started (record_all tn c ids evs s) = sv_started s"
  by (induction evs arbitrary: ids s) simp_all

lemma notify_each_started: "length (sv_started (snd (notify_each tn c ids r evs s))) \<le> length (sv_started s) + 2 * length evs"
proof (induction evs arbitrary: ids s)
  case (Cons ev evs)
  obtain z s1 where n: "notifyAlert tn c (ids 0) r ev s = (z, s1)" by fastforce
  obtain z' s2 where n2: "notify_each tn c (\<lambda>i. ids (Suc i)) r evs s1 = (z', s2)" by fastforce
  from notifyAlert_started [of tn c "ids 0" r ev s] Cons.IH [of "\<lambda>i. ids (Suc i)" s1] show ?case by (simp add: n n2)
qed simp

lemma notifyBatch_started:
  "length (sv_started (snd (notifyBatch tn c ids r batch now kind b s))) \<le> length (sv_started s) + 6"
  using notifyAlert_started [of tn c "ids (length batch)" r "digest_alert r kind now b batch"
      "record_all tn c ids (map (host_alert r kind now [(''digested'', JBool True)]) batch) s"]
    notify_each_started [of tn c ids r "map (host_alert r kind now []) batch" s]
  by (auto simp: notifyBatch_def alertDigestThreshold_def)

lemma settled_started:
  "sv_started (ss_server (fire_host up now tn r h line s x)) = sv_started s"
  "sv_started (ss_server (end_firing up tn r h s x)) = sv_started s"
  "sv_started (ss_server (keep_state up tn st s x)) = sv_started s"
  by (simp_all add: fire_host_def end_firing_def keep_state_def split: sum.splits prod.splits)

lemma settle_host_started [simp]: "sv_started (ss_server (settle_host up w k now tn r h x)) = sv_started (ss_server x)"
  by (simp add: settle_host_def Let_def settled_started gap_def split: prod.splits)

lemma settle_hosts_started [simp]: "sv_started (ss_server (settle_hosts up w k now tn r hs x)) = sv_started (ss_server x)"
  by (induction hs arbitrary: k x) simp_all

lemma recordDelivery_started [simp]: "sv_started (recordDelivery up tn i c f s) = sv_started s"
  by (simp add: recordDelivery_def)

text \<open>Property C38: however many hosts cross a rule's line in one pass, and however many come back, the pass starts at most
  twelve deliveries for the rule: a partition of three hundred hosts is one mail and one webhook call.\<close>

theorem a_pass_is_a_handful:
  "length (sv_started (snd (evaluateRule up w now c ids tn r hs held s))) \<le> length (sv_started s) + 12"
proof -
  let ?x = "settle_hosts up w 0 now tn r hs \<lparr>ss_server = s, ss_held = held, ss_firing = [], ss_recovered = []\<rparr>"
  let ?b1 = "notifyBatch tn c (ids True) r (ss_firing ?x) now (firingKind (ar_Condition r)) True (ss_server ?x)"
  have "length (sv_started (snd ?b1)) \<le> length (sv_started s) + 6"
    using notifyBatch_started [of tn c "ids True" r "ss_firing ?x" now "firingKind (ar_Condition r)" True "ss_server ?x"] by simp
  with notifyBatch_started [of tn c "ids False" r "ss_recovered ?x" now "recoveryKind (ar_Condition r)" False "snd ?b1"]
  show ?thesis by (auto simp: evaluateRule_def Let_def split: prod.splits option.splits)
qed

section \<open>The end of an incident\<close>

definition holds_now :: "alert_rule \<Rightarrow> host \<Rightarrow> instant \<Rightarrow> bool" where
  "holds_now r h now = fst (conditionHolds r h no_alert now)"

lemma conditionHolds_fst: "fst (conditionHolds r h st now) = holds_now r h now"
  unfolding holds_now_def conditionHolds_def Let_def by (auto split: option.splits)

text \<open>Other control planes leave the tenant and the state of one pair alone.\<close>

definition leaves :: "tenant_id \<Rightarrow> alert_key \<Rightarrow> (nat \<Rightarrow> memory \<Rightarrow> memory) \<Rightarrow> bool" where
  "leaves tn key w \<longleftrightarrow> (\<forall>k m. get (m_states (w k m)) (tn, key) = get (m_states m) (tn, key) \<and>
     get (m_tenants (w k m)) tn = get (m_tenants m) tn)"

text \<open>What a step of the pass keeps of a pair that is not at hand.\<close>

definition keeps_pair :: "tenant_id \<Rightarrow> alert_key \<Rightarrow> nat \<Rightarrow> sweep_state \<Rightarrow> sweep_state \<Rightarrow> bool" where
  "keeps_pair tn key n x y \<longleftrightarrow>
     get (m_states (sv_store (ss_server y))) (tn, key) = get (m_states (sv_store (ss_server x))) (tn, key) \<and>
     get (m_tenants (sv_store (ss_server y))) tn = get (m_tenants (sv_store (ss_server x))) tn \<and>
     ss_held y key = ss_held x key \<and> set (ss_recovered x) \<subseteq> set (ss_recovered y) \<and>
     length (ss_recovered y) \<le> n + length (ss_recovered x)"

lemma keeps_pair_refl: "keeps_pair tn key n x x"
  by (simp add: keeps_pair_def)

lemma keeps_pair_trans: "keeps_pair tn key i x y \<Longrightarrow> keeps_pair tn key j y z \<Longrightarrow> keeps_pair tn key (i + j) x z"
  by (auto simp: keeps_pair_def)

lemma alert_ops_other:
  "ClaimAlertNotification tn key' now cd m = Inr (b, m') \<Longrightarrow> key' \<noteq> key \<Longrightarrow>
     get (m_states m') (tn, key) = get (m_states m) (tn, key) \<and> m_tenants m' = m_tenants m"
  "ReleaseAlertFiring tn key' m = (b, m') \<Longrightarrow> key' \<noteq> key \<Longrightarrow>
     get (m_states m') (tn, key) = get (m_states m) (tn, key) \<and> m_tenants m' = m_tenants m"
  "UpsertAlertState tn st m = Inr m' \<Longrightarrow> as_Key st \<noteq> key \<Longrightarrow>
     get (m_states m') (tn, key) = get (m_states m) (tn, key) \<and> m_tenants m' = m_tenants m"
  by (auto simp: ClaimAlertNotification_def ReleaseAlertFiring_def UpsertAlertState_def Let_def get_put
      split: if_splits option.splits)

lemma settled_keeps_pair:
  assumes "key_of r h \<noteq> key"
  shows "keeps_pair tn key 1 (x\<lparr>ss_server := s\<rparr>) (fire_host up now tn r h line s x)"
    "keeps_pair tn key 1 (x\<lparr>ss_server := s\<rparr>) (end_firing up tn r h s x)"
  using assms alert_ops_other(1,2)
  by (auto simp: keeps_pair_def fire_host_def end_firing_def call_Inr split: sum.splits prod.splits)

lemma keep_state_keeps_pair:
  assumes "as_Key st \<noteq> key"
  shows "keeps_pair tn key 1 (x\<lparr>ss_server := s\<rparr>) (keep_state up tn st s x)"
  using assms alert_ops_other(3)
  by (auto simp: keeps_pair_def keep_state_def attempted_def call_Inr split: sum.splits)

lemma since_updated_fields [simp]: "as_Key (since_updated raw now st) = as_Key st" "as_Firing (since_updated raw now st) = as_Firing st"
  by (simp_all add: since_updated_def)

lemma settle_host_keeps_pair:
  assumes "key_of r h \<noteq> key" "leaves tn key w"
  shows "keeps_pair tn key 1 x (settle_host up w k now tn r h x)"
proof -
  have gap: "keeps_pair tn key 1 x (x\<lparr>ss_server := gap w k (ss_server x)\<rparr>)"
    using assms(2) by (simp add: keeps_pair_def leaves_def)
  have step: "keeps_pair tn key 1 x y" if "keeps_pair tn key 1 (x\<lparr>ss_server := gap w k (ss_server x)\<rparr>) y" for y
    using that assms(2) by (simp add: keeps_pair_def leaves_def)
  show ?thesis
    by (simp add: settle_host_def Let_def gap assms(1) keeps_pair_refl step [OF settled_keeps_pair(1) [OF assms(1)]]
        step [OF settled_keeps_pair(2) [OF assms(1)]] step [OF keep_state_keeps_pair] del: One_nat_def split: prod.splits)
qed

lemma settle_hosts_keep_pair:
  assumes "\<forall>h'\<in>set hs. key_of r h' \<noteq> key" "leaves tn key w"
  shows "keeps_pair tn key (length hs) x (settle_hosts up w k now tn r hs x)"
  using assms(1)
proof (induction hs arbitrary: k x)
  case (Cons h hs)
  from Cons.prems have "key_of r h \<noteq> key" by simp
  then have "keeps_pair tn key 1 x (settle_host up w k now tn r h x)" by (rule settle_host_keeps_pair [OF _ assms(2)])
  from keeps_pair_trans [OF this Cons.IH] Cons.prems show ?case by simp
qed (simp add: keeps_pair_refl)

lemma settle_hosts_append:
  "settle_hosts up w k now tn r (as1 @ bs) x = settle_hosts up w (k + length as1) now tn r bs (settle_hosts up w k now tn r as1 x)"
  by (induction as1 arbitrary: k x) simp_all

text \<open>The pair at hand, which does not count as an incident any more.\<close>

definition incident_now :: "alert_rule \<Rightarrow> host \<Rightarrow> instant \<Rightarrow> alert_state \<Rightarrow> bool" where
  "incident_now r h now held \<longleftrightarrow> holds_now r h now \<and>
     conditionRipe r (since_updated True now (held\<lparr>as_Key := key_of r h\<rparr>)) now"

lemma settle_host_ends:
  assumes "\<not> h_Revoked h" "\<not> incident_now r h now (ss_held x (key_of r h))" "as_Firing (ss_held x (key_of r h))" "up ''ReleaseAlertFiring''"
    and "get (m_states (sv_store (ss_server x))) (tn, key_of r h) = Some st" "as_Firing st" "leaves tn (key_of r h) w"
  shows "get (m_states (sv_store (ss_server (settle_host up w k now tn r h x)))) (tn, key_of r h) = Some (st\<lparr>as_Firing := False, as_Since := 0\<rparr>)"
    "get (m_tenants (sv_store (ss_server (settle_host up w k now tn r h x)))) tn = get (m_tenants (sv_store (ss_server x))) tn"
    "ss_recovered (settle_host up w k now tn r h x) = ss_recovered x @ [(h, recoverySummary r h)]"
proof -
  obtain raw line where c: "conditionHolds r h ((ss_held x (key_of r h))\<lparr>as_Key := key_of r h\<rparr>) now = (raw, line)" by fastforce
  then have raw: "holds_now r h now = raw"
    using conditionHolds_fst [of r h "(ss_held x (key_of r h))\<lparr>as_Key := key_of r h\<rparr>" now] by simp
  have "settle_host up w k now tn r h x = end_firing up tn r h (gap w k (ss_server x)) x"
    using assms(1-3) unfolding incident_now_def raw by (cases raw) (simp_all add: settle_host_def Let_def c)
  moreover have "get (m_states (w k (sv_store (ss_server x)))) (tn, key_of r h) = Some st"
    "get (m_tenants (w k (sv_store (ss_server x)))) tn = get (m_tenants (sv_store (ss_server x))) tn"
    using assms(5,7) by (simp_all add: leaves_def)
  ultimately show "get (m_states (sv_store (ss_server (settle_host up w k now tn r h x)))) (tn, key_of r h) = Some (st\<lparr>as_Firing := False, as_Since := 0\<rparr>)"
    "get (m_tenants (sv_store (ss_server (settle_host up w k now tn r h x)))) tn = get (m_tenants (sv_store (ss_server x))) tn"
    "ss_recovered (settle_host up w k now tn r h x) = ss_recovered x @ [(h, recoverySummary r h)]"
    using assms(4,6) by (simp_all add: end_firing_def ReleaseAlertFiring_def get_put)
qed

text \<open>The inbox of a tenant keeps the newest rows; a batch adds a row for each of its hosts and at most one more.\<close>

abbreviation inbox :: "tenant_id \<Rightarrow> server \<Rightarrow> event list" where
  "inbox tn s \<equiv> map fst (filter (\<lambda>row. snd row = tn) (m_events (sv_store s)))"

definition newest :: "'a list \<Rightarrow> 'a list" where
  "newest xs = drop (length xs - MaxEventsPerTenant) xs"

lemma newest_newest: "newest (newest xs @ ys) = newest (xs @ ys)"
proof (cases "length xs \<le> MaxEventsPerTenant")
  case False
  then have "drop (MaxEventsPerTenant + length ys - MaxEventsPerTenant) (drop (length xs - MaxEventsPerTenant) xs @ ys) =
      drop (length xs + length ys - MaxEventsPerTenant) (xs @ ys)"
    by (simp add: drop_append add.commute)
  with False show ?thesis by (simp add: newest_def)
qed (simp add: newest_def)

lemma in_newest: "length ys \<le> MaxEventsPerTenant \<Longrightarrow> y \<in> set ys \<Longrightarrow> y \<in> set (newest (xs @ ys))"
  by (simp add: newest_def drop_append)

text \<open>\<open>evs\<close> have reached the inbox.\<close>

definition posts :: "tenant_id \<Rightarrow> instant \<Rightarrow> notification list \<Rightarrow> server \<Rightarrow> server \<Rightarrow> bool" where
  "posts tn clock evs s s' \<longleftrightarrow> m_tenants (sv_store s') = m_tenants (sv_store s) \<and> m_states (sv_store s') = m_states (sv_store s) \<and>
     (\<exists>ids. length ids = length evs \<and> inbox tn s' = newest (inbox tn s @ map2 (\<lambda>i. inbox_entry i clock) ids evs))"

lemma map2_posts: "map2 (\<lambda>i. inbox_entry i clock) [i] [ev] = [inbox_entry i clock ev]"
  by simp

lemma posts_record:
  assumes "get (m_tenants (sv_store s)) tn \<noteq> None" "kind_Valid (ne_Kind ev)"
    and "sv_store s' = (case RecordEvent tn (inbox_entry i clock ev) (sv_store s) of Inl _ \<Rightarrow> sv_store s | Inr m \<Rightarrow> m)"
  shows "posts tn clock [ev] s s'"
proof -
  have s': "sv_store s' = (sv_store s)\<lparr>m_events := evict (\<lambda>row. snd row = tn) MaxEventsPerTenant
      (m_events (sv_store s) @ [(inbox_entry i clock ev, tn)])\<rparr>"
    using assms by (auto simp: RecordEvent_def)
  have "inbox tn s' = newest (inbox tn s @ [inbox_entry i clock ev])"
    by (simp add: s' filter_evict_own newest_def flip: drop_map del: drop_append)
  then show ?thesis unfolding posts_def s' by (intro conjI exI [of _ "[i]"]) simp_all
qed

lemma posts_trans:
  assumes "posts tn clock evs s s1" "posts tn clock evs' s1 s2"
  shows "posts tn clock (evs @ evs') s s2"
proof -
  from assms(1) obtain ids1 where 1: "m_tenants (sv_store s1) = m_tenants (sv_store s)" "m_states (sv_store s1) = m_states (sv_store s)"
      "length ids1 = length evs" "inbox tn s1 = newest (inbox tn s @ map2 (\<lambda>i. inbox_entry i clock) ids1 evs)" unfolding posts_def by blast
  from assms(2) obtain ids2 where 2: "m_tenants (sv_store s2) = m_tenants (sv_store s1)" "m_states (sv_store s2) = m_states (sv_store s1)"
      "length ids2 = length evs'" "inbox tn s2 = newest (inbox tn s1 @ map2 (\<lambda>i. inbox_entry i clock) ids2 evs')" unfolding posts_def by blast
  have "inbox tn s2 = newest (inbox tn s @ map2 (\<lambda>i. inbox_entry i clock) (ids1 @ ids2) (evs @ evs'))"
    using 1(3) by (simp add: 2(4) 1(4) newest_newest)
  with 1 2 show ?thesis unfolding posts_def by (intro conjI exI [of _ "ids1 @ ids2"]) simp_all
qed

lemma posts_emit:
  assumes "get (m_tenants (sv_store s)) tn \<noteq> None" "kind_Valid (ne_Kind ev)"
  shows "posts tn clock [ev] s (emit tn clock i ev s)"
  by (rule posts_record [OF assms]) (simp add: emit_store assms(2))

lemma posts_record_event:
  assumes "get (m_tenants (sv_store s)) tn \<noteq> None" "kind_Valid (ne_Kind ev)"
  shows "posts tn clock [ev] s (snd (snd (record_event tn clock i ev s)))"
  by (rule posts_record [OF assms]) (simp add: record_event_store assms(2))

lemma posts_notifyAlert:
  assumes "get (m_tenants (sv_store s)) tn \<noteq> None" "kind_Valid (ne_Kind ev)"
  shows "posts tn clock [ev] s (snd (notifyAlert tn clock i r ev s))"
  using posts_emit [OF assms, of clock i] by (simp add: notifyAlert_def Let_def posts_def)

lemma posts_tenants: "posts tn clock evs s s' \<Longrightarrow> m_tenants (sv_store s') = m_tenants (sv_store s)"
  by (simp add: posts_def)

lemma posts_record_all:
  assumes "get (m_tenants (sv_store s)) tn \<noteq> None" "list_all (\<lambda>ev. kind_Valid (ne_Kind ev)) (ev # evs)"
  shows "posts tn clock (ev # evs) s (record_all tn clock ids (ev # evs) s)"
  using assms
proof (induction evs arbitrary: ev ids s)
  case Nil
  then show ?case by (simp add: posts_record_event)
next
  case (Cons ev' evs)
  let ?s = "snd (snd (record_event tn clock (ids 0) ev s))"
  from Cons.prems have p: "posts tn clock [ev] s ?s" by (simp add: posts_record_event)
  have t: "get (m_tenants (sv_store ?s)) tn \<noteq> None" using posts_tenants [OF p] Cons.prems(1) by simp
  have v: "list_all (\<lambda>ev. kind_Valid (ne_Kind ev)) (ev' # evs)" using Cons.prems(2) by simp
  from posts_trans [OF p Cons.IH [OF t v, of "\<lambda>i. ids (Suc i)"]] show ?case by simp
qed

lemma posts_notify_each:
  assumes "get (m_tenants (sv_store s)) tn \<noteq> None" "list_all (\<lambda>ev. kind_Valid (ne_Kind ev)) (ev # evs)"
  shows "posts tn clock (ev # evs) s (snd (notify_each tn clock ids r (ev # evs) s))"
  using assms
proof (induction evs arbitrary: ev ids s)
  case Nil
  with posts_notifyAlert [of s tn ev clock "ids 0" r] show ?case by (simp split: prod.splits)
next
  case (Cons ev' evs)
  let ?s = "snd (notifyAlert tn clock (ids 0) r ev s)"
  from Cons.prems have p: "posts tn clock [ev] s ?s" by (simp add: posts_notifyAlert)
  have t: "get (m_tenants (sv_store ?s)) tn \<noteq> None" using posts_tenants [OF p] Cons.prems(1) by simp
  have v: "list_all (\<lambda>ev. kind_Valid (ne_Kind ev)) (ev' # evs)" using Cons.prems(2) by simp
  obtain z s1 where n: "notifyAlert tn clock (ids 0) r ev s = (z, s1)" by fastforce
  obtain z2 s2 where n2: "notify_each tn clock (\<lambda>i. ids (Suc i)) r (ev' # evs) s1 = (z2, s2)" by fastforce
  have "snd (notify_each tn clock ids r (ev # ev' # evs) s) = s2"
    unfolding notify_each.simps(2) [of _ _ _ _ ev] n prod.case n2 by simp
  with posts_trans [OF p Cons.IH [OF t v, of "\<lambda>i. ids (Suc i)"]] show ?case by (simp only: n n2 snd_conv append_Cons append_Nil)
qed

text \<open>Every host of a batch has a row, with its own line, whether or not the batch was told as a digest.\<close>

lemma posts_batch:
  assumes "get (m_tenants (sv_store s)) tn \<noteq> None" "kind_Valid kind" "batch \<noteq> []"
  obtains evs where "posts tn clock evs s (snd (notifyBatch tn clock ids r batch now kind b s))" "length evs \<le> Suc (length batch)"
    "\<forall>f\<in>set batch. \<exists>extra. host_alert r kind now extra f \<in> set evs"
proof -
  have v: "list_all (\<lambda>ev. kind_Valid (ne_Kind ev)) (map (host_alert r kind now extra) batch)" for extra
    using assms(2) by (simp add: list_all_iff host_alert_def)
  obtain f fs where batch: "batch = f # fs" using assms(3) by (cases batch) auto
  show ?thesis
  proof (cases "alertDigestThreshold < length batch")
    case True
    let ?es = "map (host_alert r kind now [(''digested'', JBool True)]) batch"
    let ?d = "digest_alert r kind now b batch"
    have p: "posts tn clock ?es s (record_all tn clock ids ?es s)"
      using posts_record_all [OF assms(1)] v [of "[(''digested'', JBool True)]"] by (simp add: batch)
    then have t: "get (m_tenants (sv_store (record_all tn clock ids ?es s))) tn \<noteq> None"
      using assms(1) posts_tenants by simp
    have k: "kind_Valid (ne_Kind ?d)" using assms(2) by (simp add: digest_alert_def)
    from posts_trans [OF p posts_notifyAlert [OF t k]] True assms(3)
    have "posts tn clock (?es @ [?d]) s (snd (notifyBatch tn clock ids r batch now kind b s))" by (simp add: notifyBatch_def)
    then show ?thesis by (rule that) auto
  next
    case False
    have "posts tn clock (map (host_alert r kind now []) batch) s (snd (notifyBatch tn clock ids r batch now kind b s))"
      using posts_notify_each [OF assms(1), of "host_alert r kind now [] f" "map (host_alert r kind now []) fs" clock ids r]
        v [of "[]"] False by (simp add: notifyBatch_def batch del: notify_each.simps)
    then show ?thesis by (rule that) auto
  qed
qed

lemma posted_in_inbox:
  assumes "posts tn clock evs s s'" "length evs \<le> MaxEventsPerTenant" "ev \<in> set evs"
  shows "\<exists>i. (inbox_entry i clock ev, tn) \<in> set (m_events (sv_store s'))"
proof -
  from assms(1) obtain ids where i: "length ids = length evs" "inbox tn s' = newest (inbox tn s @ map2 (\<lambda>i. inbox_entry i clock) ids evs)"
    unfolding posts_def by blast
  from assms(3) obtain n where n: "n < length evs" "ev = evs ! n" by (auto simp: in_set_conv_nth)
  then have "inbox_entry (ids ! n) clock ev \<in> set (map2 (\<lambda>i. inbox_entry i clock) ids evs)"
    using i(1) by (force simp: set_zip)
  then have "inbox_entry (ids ! n) clock ev \<in> set (inbox tn s')"
    unfolding i(2) using assms(2) i(1) by (intro in_newest) simp_all
  then show ?thesis by auto
qed

lemma notifyBatch_frame: "m_states (sv_store (snd (notifyBatch tn c ids r batch now kind b s))) = m_states (sv_store s) \<and>
    m_tenants (sv_store (snd (notifyBatch tn c ids r batch now kind b s))) = m_tenants (sv_store s)"
proof -
  obtain evs where "sv_store (snd (notifyBatch tn c ids r batch now kind b s)) = (sv_store s)\<lparr>m_events := evs\<rparr>"
    using notifyBatch_events by blast
  then show ?thesis by simp
qed

lemma recordDelivery_frame [simp]: "m_states (sv_store (recordDelivery up tn i c f s)) = m_states (sv_store s)"
  "m_events (sv_store (recordDelivery up tn i c f s)) = m_events (sv_store s)"
  by (auto simp: recordDelivery_def RecordAlertDelivery_def split: option.splits)

lemma pair_ends:
  assumes "distinct (map h_ID hosts)" "h \<in> set hosts" "\<not> h_Revoked h" "length hosts < MaxEventsPerTenant"
    and "as_Firing (held (key_of r h))" "get (m_states (sv_store s)) (tn, key_of r h) = Some st" "as_Firing st"
    and "get (m_tenants (sv_store s)) tn \<noteq> None" "\<not> incident_now r h now (held (key_of r h))" "up ''ReleaseAlertFiring''" "leaves tn (key_of r h) w"
    and "s' = snd (evaluateRule up w now clock ids tn r hosts held s)"
  shows "get (m_states (sv_store s')) (tn, key_of r h) = Some (st\<lparr>as_Firing := False, as_Since := 0\<rparr>) \<and>
    (\<exists>e. (e, tn) \<in> set (m_events (sv_store s')) \<and> e_Kind e = recoveryKind (ar_Condition r) \<and> e_HostID e = h_ID h \<and>
       e_Summary e = recoverySummary r h)"
proof -
  let ?key = "key_of r h"
  obtain as1 bs where split: "hosts = as1 @ h # bs" using assms(2) by (meson split_list)
  have "h_ID h \<notin> h_ID ` set as1" "h_ID h \<notin> h_ID ` set bs" using assms(1) unfolding split by auto
  then have others: "\<forall>h'\<in>set as1. key_of r h' \<noteq> ?key" "\<forall>h'\<in>set bs. key_of r h' \<noteq> ?key"
    by (metis alert_key.select_convs(2) imageI key_of_def)+
  define x0 where "x0 = \<lparr>ss_server = s, ss_held = held, ss_firing = [], ss_recovered = []\<rparr>"
  define x1 where "x1 = settle_hosts up w 0 now tn r as1 x0"
  define x2 where "x2 = settle_host up w (length as1) now tn r h x1"
  define x where "x = settle_hosts up w 0 now tn r hosts x0"
  have x: "x = settle_hosts up w (Suc (length as1)) now tn r bs x2"
    by (simp add: x_def split settle_hosts_append x1_def x2_def)
  have k1: "keeps_pair tn ?key (length as1) x0 x1" unfolding x1_def by (rule settle_hosts_keep_pair [OF others(1) assms(11)])
  have k2: "keeps_pair tn ?key (length bs) x2 x" unfolding x by (rule settle_hosts_keep_pair [OF others(2) assms(11)])
  from k1 have held1: "as_Firing (ss_held x1 ?key)" and st1: "get (m_states (sv_store (ss_server x1))) (tn, ?key) = Some st"
    using assms(5,6) by (simp_all add: keeps_pair_def x0_def)
  have out: "\<not> incident_now r h now (ss_held x1 ?key)" using k1 assms(9) by (simp add: keeps_pair_def x0_def)
  note ends = settle_host_ends [of h r now x1 up tn st w "length as1", OF assms(3) out held1 assms(10) st1 assms(7,11), folded x2_def]
  have rec: "(h, recoverySummary r h) \<in> set (ss_recovered x)" "length (ss_recovered x) \<le> length hosts"
    and st: "get (m_states (sv_store (ss_server x))) (tn, ?key) = Some (st\<lparr>as_Firing := False, as_Since := 0\<rparr>)"
    and t: "get (m_tenants (sv_store (ss_server x))) tn \<noteq> None"
    using k1 k2 ends assms(8) unfolding keeps_pair_def x0_def split by auto
  let ?k1 = "firingKind (ar_Condition r)" and ?k2 = "recoveryKind (ar_Condition r)"
  define s1 where "s1 = snd (notifyBatch tn clock (ids True) r (ss_firing x) now ?k1 True (ss_server x))"
  define s2 where "s2 = snd (notifyBatch tn clock (ids False) r (ss_recovered x) now ?k2 False s1)"
  have t1: "get (m_tenants (sv_store s1)) tn \<noteq> None" using t by (simp add: s1_def notifyBatch_frame)
  have "kind_Valid ?k2" by (simp add: recoveryKind_def kind_Valid_def Kinds_def)
  then obtain evs where p: "posts tn clock evs s1 s2" "length evs \<le> Suc (length (ss_recovered x))"
    "\<forall>f\<in>set (ss_recovered x). \<exists>extra. host_alert r ?k2 now extra f \<in> set evs"
    using rec(1) unfolding s2_def by (elim posts_batch [OF t1, of ?k2 "ss_recovered x" clock "ids False" r now False]) auto
  from p(3) rec(1) obtain extra where "host_alert r ?k2 now extra (h, recoverySummary r h) \<in> set evs" by blast
  with posted_in_inbox [OF p(1)] p(2) rec(2) assms(4) obtain i where
    "(inbox_entry i clock (host_alert r ?k2 now extra (h, recoverySummary r h)), tn) \<in> set (m_events (sv_store s2))" by fastforce
  then have e: "\<exists>e. (e, tn) \<in> set (m_events (sv_store s2)) \<and> e_Kind e = ?k2 \<and> e_HostID e = h_ID h \<and> e_Summary e = recoverySummary r h"
    by (intro exI conjI) (assumption, simp_all add: inbox_entry_def host_alert_def)
  have s': "m_states (sv_store s') = m_states (sv_store s2)" "m_events (sv_store s') = m_events (sv_store s2)"
    by (simp_all add: assms(12) evaluateRule_def Let_def x0_def [symmetric] x_def [symmetric] s1_def s2_def split: prod.splits option.splits)
  have "m_states (sv_store s2) = m_states (sv_store (ss_server x))" by (simp add: s2_def s1_def notifyBatch_frame)
  with st e show ?thesis by (simp add: s')
qed

text \<open>Property C37: a rule that fires also un-fires: when a pass finds that the condition of a firing pair no longer holds, the
  pair is no longer firing after the pass and the host's recovery is in the tenant's inbox with the line
  that says so, even where its announcement was collapsed into a digest or could not be mailed.\<close>

theorem incident_ends:
  assumes "distinct (map h_ID hosts)" "h \<in> set hosts" "\<not> h_Revoked h" "length hosts < MaxEventsPerTenant"
    and "as_Firing (held (key_of r h))" "get (m_states (sv_store s)) (tn, key_of r h) = Some st" "as_Firing st"
    and "get (m_tenants (sv_store s)) tn \<noteq> None" "\<not> holds_now r h now" "up ''ReleaseAlertFiring''" "leaves tn (key_of r h) w"
    and "s' = snd (evaluateRule up w now clock ids tn r hosts held s)"
  shows "get (m_states (sv_store s')) (tn, key_of r h) = Some (st\<lparr>as_Firing := False, as_Since := 0\<rparr>) \<and>
    (\<exists>e. (e, tn) \<in> set (m_events (sv_store s')) \<and> e_Kind e = recoveryKind (ar_Condition r) \<and> e_HostID e = h_ID h \<and>
       e_Summary e = recoverySummary r h)"
  using assms(9) by (intro pair_ends [OF assms(1-8) _ assms(10-12)]) (simp add: incident_now_def)

text \<open>The same happens to a pair whose condition still holds when the days of its rule are raised above the age of
  the condition: the pass announces the end of an incident that has not ended.\<close>

theorem raised_threshold_recovers:
  assumes "distinct (map h_ID hosts)" "h \<in> set hosts" "\<not> h_Revoked h" "length hosts < MaxEventsPerTenant"
    and "as_Firing (held (key_of r h))" "get (m_states (sv_store s)) (tn, key_of r h) = Some st" "as_Firing st"
    and "get (m_tenants (sv_store s)) tn \<noteq> None" "up ''ReleaseAlertFiring''" "leaves tn (key_of r h) w"
    and "s' = snd (evaluateRule up w now clock ids tn r hosts held s)"
    and "MeasuredInDays (ar_Condition r)" "holds_now r h now" "as_Since (held (key_of r h)) \<noteq> 0"
    and "time_sub now (as_Since (held (key_of r h))) < duration_mul (duration_mul (ar_Threshold r) 24) Hour"
  shows "get (m_states (sv_store s')) (tn, key_of r h) = Some (st\<lparr>as_Firing := False, as_Since := 0\<rparr>) \<and>
    (\<exists>e. (e, tn) \<in> set (m_events (sv_store s')) \<and> e_Kind e = recoveryKind (ar_Condition r) \<and> e_HostID e = h_ID h \<and>
       e_Summary e = recoverySummary r h)"
  using assms(12-15) by (intro pair_ends [OF assms(1-8) _ assms(9-11)])
    (simp add: incident_now_def conditionRipe_def since_updated_def is_zero_def)

section \<open>Instances\<close>

definition backlog_rule :: alert_rule where
  "backlog_rule = \<lparr>ar_ID = ''r1'', ar_Condition = ConditionSecurityUpdatesAge, ar_Threshold = 30, ar_CooldownSeconds = 60,
     ar_EmailTo = [], ar_Enabled = True, ar_CreatedAt = 1, ar_CreatedBy = ''ops'', ar_LastDeliveryAt = 0, ar_LastDeliveryError = []\<rparr>"

definition backlog_host :: host where
  "backlog_host = demo_host\<lparr>h_Facts := ''{\"packages\":{\"upgradableSecurity\":5}}''\<rparr>"

lemma backlog_facts: "parseFactsProbe ''{\"packages\":{\"upgradableSecurity\":5}}'' = Some (no_facts\<lparr>fp_UpgradableSecurity := 5\<rparr>)"
  by code_simp

lemma backlog_still: "holds_now backlog_rule backlog_host now"
  by (simp add: holds_now_def conditionHolds_def backlog_rule_def backlog_host_def backlog_facts ConditionSecurityUpdatesAge_def
      ConditionHostSilent_def ConditionSecurityUpdates_def no_facts_def)

definition firing_since :: "alert_rule \<Rightarrow> instant \<Rightarrow> alert_state" where
  "firing_since r t = \<lparr>as_Key = key_of r demo_host, as_Firing = True, as_Since = t, as_LastNotified = t\<rparr>"

definition with_firing :: "alert_rule \<Rightarrow> instant \<Rightarrow> server" where
  "with_firing r t = server_of ((NewMemory 1)\<lparr>m_states := put (DefaultTenant, key_of r demo_host) (firing_since r t) no_entries\<rparr>)"

lemma with_firing: "get (m_states (sv_store (with_firing r t))) (DefaultTenant, key_of r demo_host) = Some (firing_since r t)"
  "get (m_tenants (sv_store (with_firing r t))) DefaultTenant \<noteq> None"
  by (simp_all add: with_firing_def server_of_def NewMemory_def get_put)

lemma idle_leaves: "leaves tn key (\<lambda>_ m. m)"
  by (simp add: leaves_def)

lemma key_of_facts: "h_ID h = h_ID demo_host \<Longrightarrow> key_of r h = key_of r demo_host"
  by (simp add: key_of_def)

definition silent_rule :: alert_rule where
  "silent_rule = backlog_rule\<lparr>ar_Condition := ConditionHostSilent, ar_Threshold := 5\<rparr>"

theorem incident_ends_witness:
  "\<exists>e. (e, DefaultTenant) \<in> set (m_events (sv_store (snd (evaluateRule (\<lambda>_. True) (\<lambda>_ m. m) 101 101 (\<lambda>_ _. None) DefaultTenant silent_rule
      [demo_host\<lparr>h_LastSeen := 100\<rparr>] (\<lambda>_. firing_since silent_rule 7) (with_firing silent_rule 7))))) \<and> e_Kind e = ''host.recovered''"
proof -
  let ?h = "demo_host\<lparr>h_LastSeen := 100\<rparr>"
  have k: "key_of silent_rule ?h = key_of silent_rule demo_host" by (simp add: key_of_def)
  have "\<not> holds_now silent_rule ?h 101"
    by (simp add: holds_now_def conditionHolds_def silent_rule_def is_zero_def time_sub_def duration_mul_def Minute_def wrap64_mod
        int64_min_def int64_max_def Let_def)
  moreover have "as_Firing (firing_since silent_rule 7)" "\<not> h_Revoked ?h" "length [?h] < MaxEventsPerTenant"
    by (simp_all add: firing_since_def demo_host_def MaxEventsPerTenant_def)
  moreover have "ar_Condition silent_rule = ConditionHostSilent" by (simp add: silent_rule_def)
  ultimately show ?thesis
    using incident_ends [where hosts = "[?h]" and h = ?h and r = silent_rule and s = "with_firing silent_rule 7" and tn = DefaultTenant
        and up = "\<lambda>_. True" and w = "\<lambda>_ m. m" and held = "\<lambda>_. firing_since silent_rule 7" and now = 101
        and st = "firing_since silent_rule 7" and clock = 101 and ids = "\<lambda>_ _. None", unfolded k,
        OF _ _ _ _ _ with_firing(1) _ with_firing(2) _ _ idle_leaves refl]
    by (auto simp: recoveryKind_def KindHostRecovered_def)
qed

theorem raised_threshold_recovers_witness:
  "\<exists>e. (e, DefaultTenant) \<in> set (m_events (sv_store (snd (evaluateRule (\<lambda>_. True) (\<lambda>_ m. m) 101 101 (\<lambda>_ _. None) DefaultTenant backlog_rule
      [backlog_host] (\<lambda>_. firing_since backlog_rule 7) (with_firing backlog_rule 7))))) \<and> e_Kind e = ''updates.resolved''"
proof -
  have k: "key_of backlog_rule backlog_host = key_of backlog_rule demo_host" by (simp add: key_of_def backlog_host_def)
  have "as_Firing (firing_since backlog_rule 7)" "\<not> h_Revoked backlog_host" "length [backlog_host] < MaxEventsPerTenant"
    "as_Since (firing_since backlog_rule 7) \<noteq> 0"
    by (simp_all add: firing_since_def backlog_host_def demo_host_def MaxEventsPerTenant_def)
  moreover have "time_sub 101 (as_Since (firing_since backlog_rule 7)) < duration_mul (duration_mul (ar_Threshold backlog_rule) 24) Hour"
    by (simp add: firing_since_def backlog_rule_def time_sub_def duration_mul_def Hour_def wrap64_mod int64_min_def int64_max_def)
  moreover have "MeasuredInDays (ar_Condition backlog_rule)" "ar_Condition backlog_rule = ConditionSecurityUpdatesAge"
    by (simp_all add: backlog_rule_def MeasuredInDays_def)
  ultimately show ?thesis
    using raised_threshold_recovers [where hosts = "[backlog_host]" and h = backlog_host and r = backlog_rule
        and s = "with_firing backlog_rule 7" and tn = DefaultTenant
        and up = "\<lambda>_. True" and w = "\<lambda>_ m. m" and held = "\<lambda>_. firing_since backlog_rule 7" and now = 101
        and st = "firing_since backlog_rule 7" and clock = 101 and ids = "\<lambda>_ _. None", unfolded k,
        OF _ _ _ _ _ with_firing(1) _ with_firing(2) _ idle_leaves refl _ backlog_still]
    by (auto simp: recoveryKind_def KindUpdatesResolved_def ConditionHostSilent_def ConditionSecurityUpdatesAge_def)
qed

theorem alerts_create_no_job_witness:
  "minded (NewMemory 1) (sv_store (evaluateAlerts (\<lambda>_. True) (\<lambda>_ _. True) (\<lambda>_ _ _ m. m) 5 5 (\<lambda>_ _ _ _. None) (server_of (NewMemory 1))))"
  using alerts_create_no_job [of "\<lambda>_ _ _ m. m" "server_of (NewMemory 1)"] by (simp add: server_of_def)

end
