(* ===== verification/Routing.thy ===== *)
theory Routing
  imports Alerts
begin

text \<open>
  What a detached delivery does (\<open>deliverOutside\<close> of \<open>internal/server/eventsapi.go\<close> and the mail routing of
  \<open>internal/server/alerts.go\<close>): it posts an event to the tenant's webhook and mails the rules that route it.
  The relay, the endpoints and the clocks are arguments.
\<close>

section \<open>Mailing one rule\<close>

text \<open>The relay as each attempt finds it, whether the context ends in the pause after an attempt, and the time at
  which the outcome is written.\<close>

record mail_net =
  mn_relay :: "nat \<Rightarrow> relay"
  mn_cancelled :: "nat \<Rightarrow> bool"
  mn_clock :: instant

definition no_relay_text :: bytes where
  "no_relay_text = ''no SMTP relay is configured on this control plane; the event was delivered everywhere except mail''"

text \<open>The text of an error is the library's; a mail is the conversation with the relay.\<close>

type_synonym failure_text = "smtp_error delivery_error \<Rightarrow> bytes"

definition mailRule ::
  "reach \<Rightarrow> smtp_config \<Rightarrow> failure_text \<Rightarrow> mail_net \<Rightarrow> tenant_id \<Rightarrow> alert_rule \<Rightarrow> notification \<Rightarrow> server \<Rightarrow> smtp_action list \<times> server" where
  "mailRule up cfg words net tn r ev s =
     (if ar_EmailTo r = [] then ([], s)
      else if \<not> Configured cfg then ([], recordDelivery up tn (ar_ID r) (mn_clock net) no_relay_text s)
      else
        let try = (\<lambda>i. smtp_Deliver cfg (ar_EmailTo r) (mn_relay net i) ev);
            (err, attempts) = DeliverWithRetry (\<lambda>i. fst (try i)) (mn_cancelled net)
        in (concat (map (\<lambda>i. snd (try i)) [0..<attempts]),
            recordDelivery up tn (ar_ID r) (mn_clock net) (case err of None \<Rightarrow> [] | Some e \<Rightarrow> words e) s))"

section \<open>Routing an event\<close>

text \<open>The condition that routes a kind, and whether the event is a firing.\<close>

definition routedCondition :: "kind \<Rightarrow> (bytes \<times> bool) option" where
  "routedCondition k =
     (if k = KindServiceFailed then Some (ConditionUnitFailed, True)
      else if k = KindServiceRecovered then Some (ConditionUnitFailed, False)
      else if k = KindJobFailed \<or> k = KindJobExpired then Some (ConditionJobFailed, True)
      else None)"

definition eventSubject :: "notification \<Rightarrow> bytes" where
  "eventSubject ev = (case map_of (ne_Detail ev) ''unit'' of Some (JStr u) \<Rightarrow> u | _ \<Rightarrow> [])"

definition ruleCooldown :: "alert_rule \<Rightarrow> duration" where
  "ruleCooldown r =
     (if 0 < ar_CooldownSeconds r then duration_mul (ar_CooldownSeconds r) Second else DefaultAlertCooldownSeconds * Second)"

definition routes :: "bytes \<Rightarrow> alert_rule \<Rightarrow> bool" where
  "routes condition r \<longleftrightarrow> \<not> (\<not> ar_Enabled r \<or> ar_Condition r \<noteq> condition \<or> ar_EmailTo r = [])"

definition event_key :: "alert_rule \<Rightarrow> notification \<Rightarrow> alert_key" where
  "event_key r ev = \<lparr>ak_RuleID = ar_ID r, ak_HostID = ne_HostID ev, ak_Subject = eventSubject ev\<rparr>"

definition last_notified :: "alert_state list \<Rightarrow> alert_key \<Rightarrow> instant" where
  "last_notified states key = fold (\<lambda>st last. if as_Key st = key then as_LastNotified st else last) states 0"

definition dueRules :: "alert_rule list \<Rightarrow> alert_state list \<Rightarrow> bytes \<Rightarrow> notification \<Rightarrow> instant \<Rightarrow> alert_rule list" where
  "dueRules rules states condition ev now =
     filter (\<lambda>r. routes condition r \<and>
        (let last = last_notified states (event_key r ev)
         in \<not> (\<not> is_zero last \<and> time_sub now last < ruleCooldown r))) rules"

text \<open>\<open>recordSkipped\<close>: \<open>expired i\<close> tells whether its context has ended before the \<open>i\<close>-th rule.\<close>

fun recordSkipped :: "reach \<Rightarrow> (nat \<Rightarrow> bool) \<Rightarrow> tenant_id \<Rightarrow> instant \<Rightarrow> bytes \<Rightarrow> alert_rule list \<Rightarrow> server \<Rightarrow> server" where
  "recordSkipped up expired tn clock reason [] s = s"
| "recordSkipped up expired tn clock reason (r # rs) s =
     (if expired 0 then s
      else recordSkipped up (\<lambda>i. expired (Suc i)) tn clock reason rs (recordDelivery up tn (ar_ID r) clock reason s))"

definition notMailedReason :: "bool \<Rightarrow> bytes \<Rightarrow> bytes" where
  "notMailedReason stopped whatFailed =
     (if stopped then ''the control plane stopped before mailing this event'' else whatFailed)"

text \<open>What the pass meets at its \<open>k\<close>-th rule: whether the process is stopping or too little time is left when
  the rule is reached, whether it is stopping once a claim has failed, the text of that failure, and the
  relay.\<close>

record pass_env =
  pe_stopping :: "nat \<Rightarrow> bool"
  pe_late :: "nat \<Rightarrow> bool"
  pe_stopped :: "nat \<Rightarrow> bool"
  pe_claim_text :: "nat \<Rightarrow> bytes"
  pe_expired :: "nat \<Rightarrow> nat \<Rightarrow> bool"
  pe_clock :: "nat \<Rightarrow> instant"
  pe_mail :: "nat \<Rightarrow> mail_net"

definition out_of_time_text :: bytes where
  "out_of_time_text = ''the control plane ran out of time to mail this event; the relay or the database is not keeping up''"

definition unclaimed_text :: bytes where
  "unclaimed_text = ''the control plane could not reach its database to claim this notification, so the mail was not sent: ''"

text \<open>The answer is the mails: a rule and the conversation with its relay.\<close>

type_synonym mails = "(alert_rule \<times> smtp_action list) list"

fun mail_due ::
  "reach \<Rightarrow> (nat \<Rightarrow> memory \<Rightarrow> memory) \<Rightarrow> smtp_config \<Rightarrow> failure_text \<Rightarrow> pass_env \<Rightarrow> nat \<Rightarrow> instant \<Rightarrow> tenant_id \<Rightarrow> notification \<Rightarrow>
   alert_rule list \<Rightarrow> server \<Rightarrow> mails \<times> server" where
  "mail_due up w cfg words env k now tn ev [] s = ([], s)"
| "mail_due up w cfg words env k now tn ev (r # rs) s =
     (if pe_stopping env k \<or> pe_late env k then
        ([], recordSkipped up (pe_expired env k) tn (pe_clock env k) (notMailedReason (pe_stopping env k) out_of_time_text) (r # rs) s)
      else
        let s1 = gap w k s in
        case call up ''ClaimAlertNotification'' (ClaimAlertNotification tn (event_key r ev) now (ruleCooldown r) (sv_store s1)) of
          Inl e \<Rightarrow> mail_due up w cfg words env (Suc k) now tn ev rs
            (recordSkipped up (pe_expired env k) tn (pe_clock env k)
               (notMailedReason (pe_stopped env k) (unclaimed_text @ pe_claim_text env k)) [r] s1)
        | Inr (won, m) \<Rightarrow>
            (let s2 = s1\<lparr>sv_store := m\<rparr> in
             if \<not> won then mail_due up w cfg words env (Suc k) now tn ev rs s2
             else case mailRule up cfg words (pe_mail env k) tn r ev s2 of (said, s3) \<Rightarrow>
               case mail_due up w cfg words env (Suc k) now tn ev rs s3 of (later, s4) \<Rightarrow> ((r, said) # later, s4)))"

definition routeToRules ::
  "reach \<Rightarrow> (nat \<Rightarrow> memory \<Rightarrow> memory) \<Rightarrow> smtp_config \<Rightarrow> failure_text \<Rightarrow> pass_env \<Rightarrow> instant \<Rightarrow> tenant_id \<Rightarrow> notification \<Rightarrow>
   bytes \<Rightarrow> alert_rule list \<Rightarrow> alert_state list \<Rightarrow> server \<Rightarrow> mails \<times> server" where
  "routeToRules up w cfg words env now tn ev condition rules states s =
     mail_due up w cfg words env 0 now tn ev (dueRules rules states condition ev now) s"

fun routeRecoveryToRules ::
  "reach \<Rightarrow> (nat \<Rightarrow> memory \<Rightarrow> memory) \<Rightarrow> smtp_config \<Rightarrow> failure_text \<Rightarrow> pass_env \<Rightarrow> nat \<Rightarrow> tenant_id \<Rightarrow> notification \<Rightarrow>
   bytes \<Rightarrow> alert_rule list \<Rightarrow> server \<Rightarrow> mails \<times> server" where
  "routeRecoveryToRules up w cfg words env k tn ev condition [] s = ([], s)"
| "routeRecoveryToRules up w cfg words env k tn ev condition (r # rs) s =
     (if \<not> routes condition r then routeRecoveryToRules up w cfg words env (Suc k) tn ev condition rs s
      else if pe_stopping env k \<or> pe_late env k then ([], s)
      else
        let s1 = gap w k s in
        if \<not> up ''ReleaseAlertFiring'' then routeRecoveryToRules up w cfg words env (Suc k) tn ev condition rs s1
        else case ReleaseAlertFiring tn (event_key r ev) (sv_store s1) of (won, m) \<Rightarrow>
          (let s2 = s1\<lparr>sv_store := m\<rparr> in
           if \<not> won then routeRecoveryToRules up w cfg words env (Suc k) tn ev condition rs s2
           else case mailRule up cfg words (pe_mail env k) tn r ev s2 of (said, s3) \<Rightarrow>
             case routeRecoveryToRules up w cfg words env (Suc k) tn ev condition rs s3 of (later, s4) \<Rightarrow> ((r, said) # later, s4)))"

definition routeEventMail ::
  "reach \<Rightarrow> (nat \<Rightarrow> memory \<Rightarrow> memory) \<Rightarrow> smtp_config \<Rightarrow> failure_text \<Rightarrow> pass_env \<Rightarrow> instant \<Rightarrow> tenant_id \<Rightarrow> notification \<Rightarrow> server \<Rightarrow>
   mails \<times> server" where
  "routeEventMail up w cfg words env now tn ev s =
     (case routedCondition (ne_Kind ev) of
        None \<Rightarrow> ([], s)
      | Some (condition, firing) \<Rightarrow>
          if \<not> up ''ListAlertRules'' then ([], s)
          else if \<not> up ''ListAlertStates'' then ([], s)
          else
            let rules = ListAlertRules tn (sv_store s); states = ListAlertStates tn (sv_store s)
            in if \<not> firing then routeRecoveryToRules up w cfg words env 0 tn ev condition rules s
               else routeToRules up w cfg words env now tn ev condition rules states s)"

section \<open>A whole delivery\<close>

text \<open>The webhook as each attempt finds it; the identifier and the time of the notice, and the text of the error.\<close>

record hook_net =
  hn_parse :: "bytes \<Rightarrow> (bytes \<times> bytes) option"
  hn_encode :: "notification \<Rightarrow> bytes option"
  hn_endpoint :: "nat \<Rightarrow> bytes \<Rightarrow> endpoint"
  hn_cancelled :: "nat \<Rightarrow> bool"
  hn_id :: "bytes option"
  hn_clock :: instant
  hn_words :: "webhook_error delivery_error \<Rightarrow> bytes"

definition failure_notice :: "instant \<Rightarrow> bytes \<Rightarrow> notification \<Rightarrow> notification" where
  "failure_notice clock err ev =
     \<lparr>ne_Kind = KindDeliveryFailed, ne_TenantID = [], ne_HostID = ne_HostID ev, ne_Hostname = ne_Hostname ev,
      ne_Summary = ''the tenant webhook did not accept '' @ ne_Kind ev @ ''; the event is in this inbox and went nowhere else'',
      ne_At = clock,
      ne_Detail = [(''sink'', JStr ''tenant-webhook''), (''kind'', JStr (ne_Kind ev)), (''error'', JStr err)]\<rparr>"

text \<open>The posts that left for the tenant's webhook, and the control plane after its failure was recorded.\<close>

definition post_webhook ::
  "reach \<Rightarrow> hook_net \<Rightarrow> tenant_id \<Rightarrow> notification \<Rightarrow> server \<Rightarrow> (bytes \<times> bytes) list \<times> server" where
  "post_webhook up net tn ev s =
     (case call up ''GetTenant'' (GetTenant tn (sv_store s)) of
        Inl _ \<Rightarrow> ([], s)
      | Inr t \<Rightarrow>
          if t_WebhookURL t = [] then ([], s)
          else
            let try = (\<lambda>i. webhook_Deliver (hn_parse net) (hn_encode net) (hn_endpoint net i) (t_WebhookURL t) ev);
                (err, attempts) = DeliverWithRetry (\<lambda>i. fst (try i)) (hn_cancelled net)
            in (concat (map (\<lambda>i. snd (try i)) [0..<attempts]),
                case err of
                  None \<Rightarrow> s
                | Some e \<Rightarrow> snd (snd (record_event tn (hn_clock net) (hn_id net) (failure_notice (hn_clock net) (hn_words net e) ev) s))))"

definition deliverOutside ::
  "reach \<Rightarrow> (nat \<Rightarrow> memory \<Rightarrow> memory) \<Rightarrow> smtp_config \<Rightarrow> failure_text \<Rightarrow> hook_net \<Rightarrow> pass_env \<Rightarrow> instant \<Rightarrow> tenant_id \<Rightarrow> notification \<Rightarrow>
   server \<Rightarrow> (bytes \<times> bytes) list \<times> mails \<times> server" where
  "deliverOutside up w cfg words net env now tn ev s =
     (case post_webhook up net tn ev s of (posted, s1) \<Rightarrow>
      case routeEventMail up w cfg words env now tn ev s1 of (mailed, s2) \<Rightarrow> (posted, mailed, s2))"

section \<open>How alerts are filed\<close>

text \<open>Rules and alert states are filed under the keys they carry.\<close>

definition alerts_keyed :: "memory \<Rightarrow> bool" where
  "alerts_keyed m \<longleftrightarrow> (\<forall>k r. get (m_rules m) k = Some r \<longrightarrow> ar_ID r = snd k) \<and> (\<forall>k st. get (m_states m) k = Some st \<longrightarrow> as_Key st = snd k)"

lemma alerts_keyed_rule: "alerts_keyed m \<Longrightarrow> get (m_rules m) k = Some r \<Longrightarrow> ar_ID r = snd k"
  unfolding alerts_keyed_def by blast

lemma alerts_keyed_state: "alerts_keyed m \<Longrightarrow> get (m_states m) k = Some st \<Longrightarrow> as_Key st = snd k"
  unfolding alerts_keyed_def by blast

text \<open>Every operation on rules and states keeps them filed under their keys.\<close>

lemma alerts_stay_keyed:
  assumes "alerts_keyed m"
  shows "CreateAlertRule tn r m = Inr m' \<Longrightarrow> alerts_keyed m'" "UpdateAlertRule tn r m = Inr m' \<Longrightarrow> alerts_keyed m'"
    "DeleteAlertRule tn i m = Inr m' \<Longrightarrow> alerts_keyed m'" "alerts_keyed (RecordAlertDelivery tn i now failure m)"
    "UpsertAlertState tn st m = Inr m' \<Longrightarrow> alerts_keyed m'" "alerts_keyed (snd (ReleaseAlertFiring tn key m))"
    "ClaimAlertNotification tn key now cd m = Inr (won, m') \<Longrightarrow> alerts_keyed m'"
  using assms
  by (auto simp: alerts_keyed_def CreateAlertRule_def UpdateAlertRule_def DeleteAlertRule_def RecordAlertDelivery_def UpsertAlertState_def
      ReleaseAlertFiring_def ClaimAlertNotification_def Let_def get_put get_sweep_Some split: if_splits option.splits)

lemma distinct_collect:
  assumes "\<And>k v. get m k = Some v \<Longrightarrow> P k v \<Longrightarrow> k = f (g v)"
  shows "distinct (map g (collect_if P m))"
proof -
  let ?es = "filter (\<lambda>(k, v). P k v) (entries m)"
  have "map fst ?es = map f (map g (map snd ?es))"
    unfolding map_map by (rule map_cong [OF refl]) (auto simp: get_iff [symmetric] dest: assms)
  moreover have "distinct (map fst ?es)" by (rule distinct_map_fst_filter) simp
  ultimately have "distinct (map f (map g (map snd ?es)))" by (simp only:)
  then show ?thesis unfolding collect_if_def by (simp only: distinct_map)
qed

lemma distinct_map_sort_by: "distinct (map g (sort_by lt xs)) \<longleftrightarrow> distinct (map g xs)"
  by (metis mset_map mset_sort_by mset_eq_imp_distinct_iff)

lemma rules_listed: "alerts_keyed m \<Longrightarrow> r \<in> set (ListAlertRules tn m) \<longleftrightarrow> get (m_rules m) (tn, ar_ID r) = Some r"
  by (auto simp: ListAlertRules_def set_collect_if dest: alerts_keyed_rule)

lemma rules_distinct: "alerts_keyed m \<Longrightarrow> distinct (map ar_ID (ListAlertRules tn m))"
  unfolding ListAlertRules_def distinct_map_sort_by
  by (rule distinct_collect [of _ _ "Pair tn"]) (auto dest: alerts_keyed_rule)

lemma states_listed: "alerts_keyed m \<Longrightarrow> st \<in> set (ListAlertStates tn m) \<longleftrightarrow> get (m_states m) (tn, as_Key st) = Some st"
  by (auto simp: ListAlertStates_def set_collect_if dest: alerts_keyed_state)

lemma last_notified_fold:
  "(\<And>st. st \<in> set sts \<Longrightarrow> as_Key st = key \<Longrightarrow> as_LastNotified st = v) \<Longrightarrow>
   fold (\<lambda>st last. if as_Key st = key then as_LastNotified st else last) sts a = (if key \<in> as_Key ` set sts then v else a)"
  by (induction sts arbitrary: a) auto

lemma last_notified_listed:
  assumes "alerts_keyed m"
  shows "last_notified (ListAlertStates tn m) key = (case get (m_states m) (tn, key) of None \<Rightarrow> 0 | Some st \<Rightarrow> as_LastNotified st)"
proof (cases "get (m_states m) (tn, key)")
  case None
  then have "key \<notin> as_Key ` set (ListAlertStates tn m)" by (auto simp: states_listed [OF assms])
  then show ?thesis unfolding last_notified_def by (subst last_notified_fold [of _ _ 0]) (auto simp: None)
next
  case (Some st)
  with alerts_keyed_state [OF assms] have "as_Key st = key" by fastforce
  with Some have "key \<in> as_Key ` set (ListAlertStates tn m)" by (force simp: states_listed [OF assms])
  then show ?thesis unfolding last_notified_def
    by (subst last_notified_fold [of _ _ "as_LastNotified st"]) (auto simp: Some states_listed [OF assms])
qed

section \<open>Which rules are mailed\<close>

text \<open>No notification of the pair within the cooldown.\<close>

definition rested :: "tenant_id \<Rightarrow> alert_key \<Rightarrow> instant \<Rightarrow> duration \<Rightarrow> memory \<Rightarrow> bool" where
  "rested tn key now cd m \<longleftrightarrow> (case get (m_states m) (tn, key) of
      None \<Rightarrow> True
    | Some st \<Rightarrow> as_LastNotified st = 0 \<or> cd \<le> now - as_LastNotified st)"

definition bounded_cooldown :: "alert_rule \<Rightarrow> bool" where
  "bounded_cooldown r \<longleftrightarrow> in_int64 (ar_CooldownSeconds r * Second)"

lemma ruleCooldown_range: "bounded_cooldown r \<Longrightarrow> 0 < ruleCooldown r \<and> ruleCooldown r \<le> int64_max"
  by (auto simp: bounded_cooldown_def ruleCooldown_def duration_mul_def wrap64_id Second_def DefaultAlertCooldownSeconds_def
      in_int64_def int64_max_def)

lemma before_cooldown: "0 < cd \<Longrightarrow> cd \<le> int64_max \<Longrightarrow> time_sub now t < cd \<longleftrightarrow> now - t < cd"
  by (auto simp: time_sub_def int64_min_def int64_max_def)

lemma wrap_neg: "0 < cd \<Longrightarrow> cd \<le> int64_max \<Longrightarrow> wrap64 (- cd) = - cd"
  by (rule wrap64_id) (auto simp: in_int64_def int64_min_def int64_max_def)

definition claimed_state :: "tenant_id \<Rightarrow> alert_key \<Rightarrow> instant \<Rightarrow> memory \<Rightarrow> alert_state" where
  "claimed_state tn key now m =
     (let held = (case get (m_states m) (tn, key) of None \<Rightarrow> no_alert | Some st \<Rightarrow> st)
      in held\<lparr>as_Key := key, as_Firing := True, as_Since := (if is_zero (as_Since held) then now else as_Since held),
              as_LastNotified := now\<rparr>)"

lemma claim_result:
  assumes "get (m_rules m) (tn, ak_RuleID key) \<noteq> None" "0 < cd" "cd \<le> int64_max"
  shows "ClaimAlertNotification tn key now cd m =
    (if rested tn key now cd m then Inr (True, m\<lparr>m_states := put (tn, key) (claimed_state tn key now m) (m_states m)\<rparr>)
     else Inr (False, m))"
  using assms
  by (cases "get (m_states m) (tn, key)")
    (auto simp: ClaimAlertNotification_def rested_def claimed_state_def Let_def is_zero_def wrap_neg)

lemma mailRule_store: "\<exists>f. sv_store (snd (mailRule up cfg words net tn r ev s)) = sv_store s \<or>
    sv_store (snd (mailRule up cfg words net tn r ev s)) = RecordAlertDelivery tn (ar_ID r) (mn_clock net) f (sv_store s)"
  by (auto simp: mailRule_def Let_def recordDelivery_def split: prod.splits)

lemma mailRule_alerts:
  "m_states (sv_store (snd (mailRule up cfg words net tn r ev s))) = m_states (sv_store s)"
  "get (m_rules (sv_store (snd (mailRule up cfg words net tn r ev s)))) key = None \<longleftrightarrow> get (m_rules (sv_store s)) key = None"
  using mailRule_store [of up cfg words net tn r ev s]
  by (auto simp: RecordAlertDelivery_def get_put split: option.splits if_splits)

text \<open>A pass that meets no obstacle.\<close>

definition unhindered :: "pass_env \<Rightarrow> bool" where
  "unhindered env \<longleftrightarrow> (\<forall>k. \<not> pe_stopping env k \<and> \<not> pe_late env k)"

definition stamped :: "tenant_id \<Rightarrow> instant \<Rightarrow> alert_key set \<Rightarrow> memory \<Rightarrow> memory \<Rightarrow> bool" where
  "stamped tn now keys m m' \<longleftrightarrow> (\<forall>key. get (m_states m') (tn, key) =
     (if key \<in> keys then Some (claimed_state tn key now m) else get (m_states m) (tn, key)))"

lemma event_key_inj: "event_key r ev = event_key r' ev \<longleftrightarrow> ar_ID r = ar_ID r'"
  by (simp add: event_key_def)

lemma event_key_rule [simp]: "ak_RuleID (event_key r ev) = ar_ID r"
  by (simp add: event_key_def)

text \<open>One rule of an unhindered pass.\<close>

lemma mail_due_step:
  assumes "unhindered env" "\<forall>n. up n" "bounded_cooldown r" "get (m_rules (sv_store s)) (tn, ar_ID r) \<noteq> None"
  shows "mail_due up (\<lambda>_ m. m) cfg words env k now tn ev (r # rs) s =
    (if rested tn (event_key r ev) now (ruleCooldown r) (sv_store s) then
       (let s2 = s\<lparr>sv_store := (sv_store s)\<lparr>m_states := put (tn, event_key r ev) (claimed_state tn (event_key r ev) now (sv_store s))
              (m_states (sv_store s))\<rparr>\<rparr>;
            (said, s3) = mailRule up cfg words (pe_mail env k) tn r ev s2;
            (later, s4) = mail_due up (\<lambda>_ m. m) cfg words env (Suc k) now tn ev rs s3
        in ((r, said) # later, s4))
     else mail_due up (\<lambda>_ m. m) cfg words env (Suc k) now tn ev rs s)"
proof -
  have c: "ClaimAlertNotification tn (event_key r ev) now (ruleCooldown r) (sv_store s) =
    (if rested tn (event_key r ev) now (ruleCooldown r) (sv_store s)
     then Inr (True, (sv_store s)\<lparr>m_states := put (tn, event_key r ev) (claimed_state tn (event_key r ev) now (sv_store s)) (m_states (sv_store s))\<rparr>)
     else Inr (False, sv_store s))"
    using claim_result ruleCooldown_range [OF assms(3)] assms(4) by simp
  show ?thesis
    using assms(1,2) by (simp add: unhindered_def Let_def c call_def gap_idle split: prod.splits)
qed

lemma mail_due_unhindered:
  assumes "unhindered env" "\<forall>n. up n" "\<forall>r\<in>set rs. bounded_cooldown r" "distinct (map ar_ID rs)"
    and "\<forall>r\<in>set rs. get (m_rules (sv_store s)) (tn, ar_ID r) \<noteq> None"
    and "mail_due up (\<lambda>_ m. m) cfg words env k now tn ev rs s = (mails, s')"
  shows "map fst mails = filter (\<lambda>r. rested tn (event_key r ev) now (ruleCooldown r) (sv_store s)) rs \<and>
    stamped tn now ((\<lambda>r. event_key r ev) ` fst ` set mails) (sv_store s) (sv_store s')"
  using assms(3-6)
proof (induction rs arbitrary: k s mails s')
  case Nil
  then show ?case by (simp add: stamped_def)
next
  case (Cons r rs)
  from Cons.prems(1) have cd: "bounded_cooldown r" by simp
  from Cons.prems(3) have known: "get (m_rules (sv_store s)) (tn, ar_ID r) \<noteq> None" by simp
  note step = mail_due_step [OF assms(1,2) cd known, of cfg words k now ev rs]
  let ?key = "event_key r ev"
  show ?case
  proof (cases "rested tn ?key now (ruleCooldown r) (sv_store s)")
    case False
    with step Cons.prems(4) have "mail_due up (\<lambda>_ m. m) cfg words env (Suc k) now tn ev rs s = (mails, s')" by simp
    from Cons.IH [OF _ _ _ this] Cons.prems(1-3) False show ?thesis by simp
  next
    case True
    define s2 where "s2 = s\<lparr>sv_store := (sv_store s)\<lparr>m_states := put (tn, ?key) (claimed_state tn ?key now (sv_store s)) (m_states (sv_store s))\<rparr>\<rparr>"
    obtain said s3 where m: "mailRule up cfg words (pe_mail env k) tn r ev s2 = (said, s3)" by fastforce
    obtain later where l: "mail_due up (\<lambda>_ m. m) cfg words env (Suc k) now tn ev rs s3 = (later, s')" "mails = (r, said) # later"
      using step Cons.prems(4) True by (auto simp: s2_def [symmetric] m Let_def split: prod.splits)
    have s2: "m_states (sv_store s2) = put (tn, ?key) (claimed_state tn ?key now (sv_store s)) (m_states (sv_store s))"
      "m_rules (sv_store s2) = m_rules (sv_store s)" by (simp_all add: s2_def)
    from mailRule_alerts [of up cfg words "pe_mail env k" tn r ev s2] have
      st: "m_states (sv_store s3) = put (tn, ?key) (claimed_state tn ?key now (sv_store s)) (m_states (sv_store s))" and
      rl: "get (m_rules (sv_store s3)) x = None \<longleftrightarrow> get (m_rules (sv_store s)) x = None" for x
      by (simp_all add: m s2)
    have apart: "event_key r' ev \<noteq> ?key" if "r' \<in> set rs" for r'
    proof -
      have "ar_ID r \<notin> ar_ID ` set rs" using Cons.prems(2) by simp
      with that show ?thesis by (metis event_key_inj imageI)
    qed
    from Cons.IH [OF _ _ _ l(1)] Cons.prems(1-3) have
      ih: "map fst later = filter (\<lambda>r. rested tn (event_key r ev) now (ruleCooldown r) (sv_store s3)) rs"
        "stamped tn now ((\<lambda>r. event_key r ev) ` fst ` set later) (sv_store s3) (sv_store s')" by (simp_all add: rl)
    have same: "get (m_states (sv_store s3)) (tn, event_key r' ev) = get (m_states (sv_store s)) (tn, event_key r' ev)" if "r' \<in> set rs" for r'
      using apart [OF that] by (simp add: st get_put)
    have f: "filter (\<lambda>r. rested tn (event_key r ev) now (ruleCooldown r) (sv_store s3)) rs =
        filter (\<lambda>r. rested tn (event_key r ev) now (ruleCooldown r) (sv_store s)) rs"
      by (rule filter_cong [OF refl]) (simp add: rested_def same)
    have sub: "fst ` set later \<subseteq> set rs" unfolding set_map [symmetric] ih(1) by auto
    have "stamped tn now ((\<lambda>r. event_key r ev) ` fst ` set mails) (sv_store s) (sv_store s')"
      unfolding stamped_def
    proof
      fix key
      show "get (m_states (sv_store s')) (tn, key) = (if key \<in> (\<lambda>r. event_key r ev) ` fst ` set mails
          then Some (claimed_state tn key now (sv_store s)) else get (m_states (sv_store s)) (tn, key))"
      proof (cases "key \<in> (\<lambda>r. event_key r ev) ` fst ` set later")
        case True
        then obtain r' where r': "r' \<in> set rs" "key = event_key r' ev" using sub by auto
        have "get (m_states (sv_store s')) (tn, key) = Some (claimed_state tn key now (sv_store s3))"
          using ih(2) True unfolding stamped_def by simp
        also have "claimed_state tn key now (sv_store s3) = claimed_state tn key now (sv_store s)"
          by (simp add: claimed_state_def same [OF r'(1)] r'(2))
        finally show ?thesis using True l(2) by auto
      next
        case False
        then have "get (m_states (sv_store s')) (tn, key) = get (m_states (sv_store s3)) (tn, key)"
          using ih(2) unfolding stamped_def by simp
        with False l(2) show ?thesis by (auto simp: st get_put)
      qed
    qed
    with True ih(1) f l(2) show ?thesis by simp
  qed
qed

text \<open>What comes of mailing a rule, and what is written on the rule about it: without a relay nothing is said, and the
  rule says why; a relay that takes the mail in one of the three attempts hears all of it, and the rule is cleared; and
  otherwise the rule carries the error.\<close>

definition mail_outcome ::
  "smtp_config \<Rightarrow> failure_text \<Rightarrow> mail_net \<Rightarrow> alert_rule \<Rightarrow> notification \<Rightarrow> smtp_action list \<Rightarrow> bytes \<Rightarrow> bool" where
  "mail_outcome cfg words net r ev said why \<longleftrightarrow>
     (if \<not> Configured cfg then said = [] \<and> why = no_relay_text
      else if \<exists>i < 3. takes_mail (mn_relay net i) cfg (ar_EmailTo r) ev \<and> (\<forall>j < i. \<not> mn_cancelled net j)
      then why = [] \<and> (\<exists>refused. said = refused @ whole_conversation cfg (ar_EmailTo r) ev)
      else \<exists>e. why = words e)"

lemma mailRule_outcome:
  assumes "up ''RecordAlertDelivery''" "ar_EmailTo r \<noteq> []"
  obtains said why where "mail_outcome cfg words net r ev said why"
    "mailRule up cfg words net tn r ev s = (said, s\<lparr>sv_store := RecordAlertDelivery tn (ar_ID r) (mn_clock net) why (sv_store s)\<rparr>)"
proof (cases "Configured cfg")
  case False
  with assms show thesis by (intro that [of "[]" no_relay_text]) (simp_all add: mail_outcome_def mailRule_def recordDelivery_def)
next
  case True
  let ?talk = "\<lambda>i. smtp_Deliver cfg (ar_EmailTo r) (mn_relay net i) ev"
  let ?sink = "\<lambda>i. fst (?talk i)"
  note takes = smtp_Deliver_takes [OF True assms(2)]
  obtain n where n: "snd (DeliverWithRetry ?sink (mn_cancelled net)) = Suc n" "n < 3"
      "fst (DeliverWithRetry ?sink (mn_cancelled net)) = None \<longleftrightarrow> ?sink n = None"
      "\<forall>i < n. ?sink i \<noteq> None \<and> \<not> mn_cancelled net i"
      "(\<exists>i < 3. ?sink i = None \<and> (\<forall>k < i. \<not> mn_cancelled net k)) \<longrightarrow> fst (DeliverWithRetry ?sink (mn_cancelled net)) = None"
    using DeliverWithRetry_result [of ?sink "mn_cancelled net"] by (elim exE conjE) (rule that)
  define err said where "err = fst (DeliverWithRetry ?sink (mn_cancelled net))" and "said = concat (map (\<lambda>i. snd (?talk i)) [0..<Suc n])"
  define why where "why = (case err of None \<Rightarrow> [] | Some e \<Rightarrow> words e)"
  have retry: "DeliverWithRetry ?sink (mn_cancelled net) = (err, Suc n)" by (simp add: err_def prod_eq_iff n(1))
  have mailed: "mailRule up cfg words net tn r ev s = (said, s\<lparr>sv_store := RecordAlertDelivery tn (ar_ID r) (mn_clock net) why (sv_store s)\<rparr>)"
    using assms True by (simp add: mailRule_def Let_def retry recordDelivery_def said_def why_def)
  have "mail_outcome cfg words net r ev said why"
  proof (cases "\<exists>i < 3. takes_mail (mn_relay net i) cfg (ar_EmailTo r) ev \<and> (\<forall>j < i. \<not> mn_cancelled net j)")
    case taken: True
    with n(5) have "err = None" unfolding err_def takes(1) by blast
    with n(3) have "takes_mail (mn_relay net n) cfg (ar_EmailTo r) ev" by (simp add: err_def takes(1))
    from takes(2) [OF this] have "said = concat (map (\<lambda>i. snd (?talk i)) [0..<n]) @ whole_conversation cfg (ar_EmailTo r) ev"
      by (simp add: said_def)
    with taken True \<open>err = None\<close> show ?thesis unfolding mail_outcome_def why_def by auto
  next
    case False
    have "err \<noteq> None"
    proof
      assume "err = None"
      with n(3) have "takes_mail (mn_relay net n) cfg (ar_EmailTo r) ev" by (simp add: err_def takes(1))
      with False n(2,4) show False by blast
    qed
    with False True show ?thesis unfolding mail_outcome_def why_def by auto
  qed
  with mailed show thesis by (rule that [rotated])
qed

lemma recorded_rules:
  "get (m_rules (RecordAlertDelivery tn i c f m)) key =
    (if key = (tn, i) then map_option (\<lambda>r. r\<lparr>ar_LastDeliveryAt := c, ar_LastDeliveryError := f\<rparr>) (get (m_rules m) key) else get (m_rules m) key)"
  by (auto simp: RecordAlertDelivery_def get_put split: option.splits)

text \<open>Every rule of a pass whose rules all are due: the mail it sent and the record on it.\<close>

definition all_recorded ::
  "smtp_config \<Rightarrow> failure_text \<Rightarrow> (nat \<Rightarrow> mail_net) \<Rightarrow> tenant_id \<Rightarrow> notification \<Rightarrow> mails \<Rightarrow> memory \<Rightarrow> bool" where
  "all_recorded cfg words net tn ev mails m \<longleftrightarrow> (\<forall>i < length mails. case mails ! i of (r, said) \<Rightarrow>
     \<exists>why. mail_outcome cfg words (net i) r ev said why \<and>
       get (m_rules m) (tn, ar_ID r) = Some (r\<lparr>ar_LastDeliveryAt := mn_clock (net i), ar_LastDeliveryError := why\<rparr>))"

lemma all_recorded_Cons:
  "all_recorded cfg words net tn ev ((r, said) # mails) m \<longleftrightarrow>
    (\<exists>why. mail_outcome cfg words (net 0) r ev said why \<and>
       get (m_rules m) (tn, ar_ID r) = Some (r\<lparr>ar_LastDeliveryAt := mn_clock (net 0), ar_LastDeliveryError := why\<rparr>)) \<and>
    all_recorded cfg words (\<lambda>i. net (Suc i)) tn ev mails m"
  by (simp add: all_recorded_def All_less_Suc2)

lemma mail_due_recorded:
  assumes "unhindered env" "\<forall>n. up n" "\<forall>r\<in>set rs. bounded_cooldown r" "distinct (map ar_ID rs)"
    and "\<forall>r\<in>set rs. get (m_rules (sv_store s)) (tn, ar_ID r) = Some r \<and> ar_EmailTo r \<noteq> [] \<and>
        rested tn (event_key r ev) now (ruleCooldown r) (sv_store s)"
    and "mail_due up (\<lambda>_ m. m) cfg words env k now tn ev rs s = (mails, s')"
  shows "all_recorded cfg words (\<lambda>i. pe_mail env (k + i)) tn ev mails (sv_store s') \<and>
    (\<forall>key. key \<notin> (\<lambda>r. (tn, ar_ID r)) ` set rs \<longrightarrow> get (m_rules (sv_store s')) key = get (m_rules (sv_store s)) key)"
  using assms(3-6)
proof (induction rs arbitrary: k s mails)
  case Nil
  then show ?case by (simp add: all_recorded_def)
next
  case (Cons r rs)
  let ?key = "event_key r ev"
  from Cons.prems(1,3) have r: "bounded_cooldown r" "get (m_rules (sv_store s)) (tn, ar_ID r) = Some r" "ar_EmailTo r \<noteq> []"
    "rested tn ?key now (ruleCooldown r) (sv_store s)" by simp_all
  define s2 where "s2 = s\<lparr>sv_store := (sv_store s)\<lparr>m_states := put (tn, ?key) (claimed_state tn ?key now (sv_store s)) (m_states (sv_store s))\<rparr>\<rparr>"
  have "up ''RecordAlertDelivery''" using assms(2) by blast
  then obtain said why where m: "mail_outcome cfg words (pe_mail env k) r ev said why"
    "mailRule up cfg words (pe_mail env k) tn r ev s2 =
      (said, s2\<lparr>sv_store := RecordAlertDelivery tn (ar_ID r) (mn_clock (pe_mail env k)) why (sv_store s2)\<rparr>)"
    by (rule mailRule_outcome [OF _ r(3)])
  define s3 where "s3 = s2\<lparr>sv_store := RecordAlertDelivery tn (ar_ID r) (mn_clock (pe_mail env k)) why (sv_store s2)\<rparr>"
  have "get (m_rules (sv_store s)) (tn, ar_ID r) \<noteq> None" using r(2) by simp
  note step = mail_due_step [OF assms(1,2) r(1) this, of cfg words k now ev rs]
  obtain later where l: "mail_due up (\<lambda>_ m. m) cfg words env (Suc k) now tn ev rs s3 = (later, s')" "mails = (r, said) # later"
    using step Cons.prems(4) r(4) by (auto simp: s2_def [symmetric] m(2) s3_def [symmetric] Let_def split: prod.splits)
  have rules: "get (m_rules (sv_store s3)) key = (if key = (tn, ar_ID r)
      then Some (r\<lparr>ar_LastDeliveryAt := mn_clock (pe_mail env k), ar_LastDeliveryError := why\<rparr>) else get (m_rules (sv_store s)) key)" for key
    by (simp add: s3_def recorded_rules s2_def r(2))
  have states: "m_states (sv_store s3) = put (tn, ?key) (claimed_state tn ?key now (sv_store s)) (m_states (sv_store s))"
    by (auto simp: s3_def s2_def RecordAlertDelivery_def split: option.split)
  have apart: "ar_ID r' \<noteq> ar_ID r" if "r' \<in> set rs" for r'
    using Cons.prems(2) that by (metis distinct.simps(2) imageI list.simps(9) set_map)
  have "\<forall>r\<in>set rs. get (m_rules (sv_store s3)) (tn, ar_ID r) = Some r \<and> ar_EmailTo r \<noteq> [] \<and>
      rested tn (event_key r ev) now (ruleCooldown r) (sv_store s3)"
    using Cons.prems(3) apart by (auto simp: rules rested_def states get_put event_key_inj)
  moreover have "\<forall>r\<in>set rs. bounded_cooldown r" "distinct (map ar_ID rs)" using Cons.prems(1,2) by simp_all
  ultimately have "all_recorded cfg words (\<lambda>i. pe_mail env (Suc k + i)) tn ev later (sv_store s') \<and>
      (\<forall>key. key \<notin> (\<lambda>r. (tn, ar_ID r)) ` set rs \<longrightarrow> get (m_rules (sv_store s')) key = get (m_rules (sv_store s3)) key)"
    using Cons.IH l(1) by blast
  then have ih: "all_recorded cfg words (\<lambda>i. pe_mail env (Suc k + i)) tn ev later (sv_store s')"
    "key \<notin> (\<lambda>r. (tn, ar_ID r)) ` set rs \<Longrightarrow> get (m_rules (sv_store s')) key = get (m_rules (sv_store s3)) key" for key by blast+
  have "get (m_rules (sv_store s')) (tn, ar_ID r) = Some (r\<lparr>ar_LastDeliveryAt := mn_clock (pe_mail env k), ar_LastDeliveryError := why\<rparr>)"
    using ih(2) [of "(tn, ar_ID r)"] Cons.prems(2) by (auto simp: rules)
  with m(1) ih(1) have "all_recorded cfg words (\<lambda>i. pe_mail env (k + i)) tn ev mails (sv_store s')"
    by (auto simp: l(2) all_recorded_Cons)
  moreover have "get (m_rules (sv_store s')) key = get (m_rules (sv_store s)) key"
    if "key \<notin> (\<lambda>r. (tn, ar_ID r)) ` set (r # rs)" for key using that by (simp add: ih(2) rules)
  ultimately show ?case by blast
qed

text \<open>Property C35: where the store answers, nothing else runs, neither the process nor its time ends, and no cooldown
  overflows, the rules mailed for an event are exactly the enabled rules of its condition that name recipients
  and whose pair of host and subject has not been notified within their cooldown, in the order of the rules.
  For each of them the relay, if it takes the mail in one of three attempts, hears it with every recipient, and
  the rule records the success; otherwise the rule records the error, or that there is no relay. The pass marks the
  pairs it mailed as firing and notified now, and touches no other pair and no other rule, so that one failing
  unit never silences another.\<close>

theorem event_mails_the_due:
  assumes "alerts_keyed (sv_store s)" "unhindered env" "\<forall>n. up n" "\<forall>r\<in>set (ListAlertRules tn (sv_store s)). bounded_cooldown r"
    and "routedCondition (ne_Kind ev) = Some (condition, True)"
    and "routeEventMail up (\<lambda>_ m. m) cfg words env now tn ev s = (mails, s')"
  shows "map fst mails = filter (\<lambda>r. routes condition r \<and> rested tn (event_key r ev) now (ruleCooldown r) (sv_store s))
      (ListAlertRules tn (sv_store s)) \<and>
    all_recorded cfg words (pe_mail env) tn ev mails (sv_store s') \<and>
    stamped tn now ((\<lambda>r. event_key r ev) ` fst ` set mails) (sv_store s) (sv_store s') \<and>
    (\<forall>key. key \<notin> (\<lambda>r. (tn, ar_ID r)) ` fst ` set mails \<longrightarrow> get (m_rules (sv_store s')) key = get (m_rules (sv_store s)) key)"
proof -
  let ?rules = "ListAlertRules tn (sv_store s)" and ?states = "ListAlertStates tn (sv_store s)"
  let ?ripe = "\<lambda>r. rested tn (event_key r ev) now (ruleCooldown r) (sv_store s)"
  let ?due = "dueRules ?rules ?states condition ev now"
  have d: "?due = filter (\<lambda>r. routes condition r \<and> ?ripe r) ?rules"
    unfolding dueRules_def
  proof (rule filter_cong [OF refl])
    fix r assume "r \<in> set ?rules"
    with assms(4) have "0 < ruleCooldown r \<and> ruleCooldown r \<le> int64_max" by (simp add: ruleCooldown_range)
    then show "(routes condition r \<and> (let last = last_notified ?states (event_key r ev)
        in \<not> (\<not> is_zero last \<and> time_sub now last < ruleCooldown r))) = (routes condition r \<and> ?ripe r)"
      by (auto simp: Let_def last_notified_listed [OF assms(1)] rested_def before_cooldown is_zero_def split: option.splits)
  qed
  have pass: "mail_due up (\<lambda>_ m. m) cfg words env 0 now tn ev ?due s = (mails, s')"
    using assms(3,5,6) by (simp add: routeEventMail_def routeToRules_def Let_def)
  have apart: "distinct (map ar_ID ?due)" unfolding d by (rule distinct_map_filter) (rule rules_distinct [OF assms(1)])
  have held: "\<forall>r\<in>set ?due. bounded_cooldown r" "\<forall>r\<in>set ?due. get (m_rules (sv_store s)) (tn, ar_ID r) = Some r \<and> ar_EmailTo r \<noteq> [] \<and> ?ripe r"
    using assms(4) by (auto simp: d rules_listed [OF assms(1)] routes_def)
  then have "\<forall>r\<in>set ?due. get (m_rules (sv_store s)) (tn, ar_ID r) \<noteq> None" by simp
  from mail_due_unhindered [OF assms(2,3) held(1) apart this pass]
  have mailed: "map fst mails = filter ?ripe ?due"
      "stamped tn now ((\<lambda>r. event_key r ev) ` fst ` set mails) (sv_store s) (sv_store s')" by blast+
  have all: "filter ?ripe ?due = ?due" using held(2) by (simp add: filter_id_conv)
  then have sent: "map fst mails = ?due" by (simp only: mailed(1))
  have "(\<lambda>r. (tn, ar_ID r)) ` fst ` set mails = (\<lambda>r. (tn, ar_ID r)) ` set ?due" unfolding sent [symmetric] set_map by (rule refl)
  with mail_due_recorded [OF assms(2,3) held(1) apart held(2) pass] mailed(2) sent d show ?thesis by simp
qed

section \<open>Recoveries\<close>

definition fired :: "tenant_id \<Rightarrow> alert_key \<Rightarrow> memory \<Rightarrow> bool" where
  "fired tn key m \<longleftrightarrow> (case get (m_states m) (tn, key) of None \<Rightarrow> False | Some st \<Rightarrow> as_Firing st)"

lemma release_fired: "ReleaseAlertFiring tn key m = (won, m') \<Longrightarrow> won = fired tn key m"
  by (auto simp: ReleaseAlertFiring_def fired_def split: option.splits if_splits)

lemma released_fired: "fired tn key' (snd (ReleaseAlertFiring tn key m)) \<longleftrightarrow> key' \<noteq> key \<and> fired tn key' m"
  by (auto simp: ReleaseAlertFiring_def fired_def get_put split: option.splits)

lemma mailRule_fired: "fired tn key (sv_store (snd (mailRule up cfg words net tn' r ev s))) = fired tn key (sv_store s)"
  by (simp add: fired_def mailRule_alerts)

lemma recovery_pass:
  assumes "unhindered env" "\<forall>n. up n" "distinct (map ar_ID rs)"
    and "routeRecoveryToRules up (\<lambda>_ m. m) cfg words env k tn ev condition rs s = (mails, s')"
  shows "map fst mails = filter (\<lambda>r. routes condition r \<and> fired tn (event_key r ev) (sv_store s)) rs \<and>
    (\<forall>key. fired tn key (sv_store s') \<longleftrightarrow> fired tn key (sv_store s) \<and> key \<notin> (\<lambda>r. event_key r ev) ` {r \<in> set rs. routes condition r})"
  using assms(3,4)
proof (induction rs arbitrary: k s mails s')
  case (Cons r rs)
  let ?key = "event_key r ev"
  have up: "up = (\<lambda>_. True)" using assms(2) by auto
  have skip: "routes condition r \<Longrightarrow> \<not> fired tn ?key (sv_store s) \<Longrightarrow> ReleaseAlertFiring tn ?key (sv_store s) = (False, sv_store s)"
    by (auto simp: ReleaseAlertFiring_def fired_def split: option.splits)
  have apart: "event_key r' ev \<noteq> ?key" if "r' \<in> set rs" for r'
    proof -
      have "ar_ID r \<notin> ar_ID ` set rs" using Cons.prems(1) by simp
      with that show ?thesis by (metis event_key_inj imageI)
    qed
  show ?case
  proof (cases "routes condition r \<and> fired tn ?key (sv_store s)")
    case False
    then have "routeRecoveryToRules up (\<lambda>_ m. m) cfg words env (Suc k) tn ev condition rs s = (mails, s')"
      using Cons.prems(2) assms(1) skip by (cases "routes condition r") (auto simp: unhindered_def Let_def up)
    from Cons.IH [OF _ this] Cons.prems(1) False show ?thesis by auto
  next
    case True
    obtain m where rel: "ReleaseAlertFiring tn ?key (sv_store s) = (True, m)"
      using True release_fired [of tn ?key "sv_store s"] by (metis prod.exhaust)
    define s2 where "s2 = s\<lparr>sv_store := m\<rparr>"
    obtain said s3 where mr: "mailRule up cfg words (pe_mail env k) tn r ev s2 = (said, s3)" by fastforce
    obtain later where l: "routeRecoveryToRules up (\<lambda>_ m. m) cfg words env (Suc k) tn ev condition rs s3 = (later, s')" "mails = (r, said) # later"
      using Cons.prems(2) assms(1) True by (auto simp: unhindered_def Let_def up rel s2_def [symmetric] mr [unfolded up] split: prod.splits)
    have f3: "fired tn key (sv_store s3) \<longleftrightarrow> key \<noteq> ?key \<and> fired tn key (sv_store s)" for key
    proof -
      have "sv_store s2 = m" by (simp add: s2_def)
      then show ?thesis
        using mailRule_fired [of tn key up cfg words "pe_mail env k" tn r ev s2] released_fired [of tn key ?key "sv_store s"]
        by (simp add: mr rel)
    qed
    from Cons.IH [OF _ l(1)] Cons.prems(1) have
      ih: "map fst later = filter (\<lambda>r. routes condition r \<and> fired tn (event_key r ev) (sv_store s3)) rs"
        "\<forall>key. fired tn key (sv_store s') \<longleftrightarrow> fired tn key (sv_store s3) \<and> key \<notin> (\<lambda>r. event_key r ev) ` {r \<in> set rs. routes condition r}"
      by simp_all
    have "filter (\<lambda>r. routes condition r \<and> fired tn (event_key r ev) (sv_store s3)) rs =
        filter (\<lambda>r. routes condition r \<and> fired tn (event_key r ev) (sv_store s)) rs"
      by (rule filter_cong [OF refl]) (simp add: f3 apart)
    with ih True l(2) show ?thesis by (auto simp: f3)
  qed
qed simp

text \<open>A recovery is mailed by exactly the rules that had told the failure, and by each of them once: the pass ends the
  firing of every rule it concerns, so the same recovery arriving again mails nobody.\<close>

theorem recovery_mails_the_told:
  assumes "alerts_keyed (sv_store s)" "unhindered env" "\<forall>n. up n" "routedCondition (ne_Kind ev) = Some (condition, False)"
    and "routeEventMail up (\<lambda>_ m. m) cfg words env now tn ev s = (mails, s')"
  shows "map fst mails = filter (\<lambda>r. routes condition r \<and> fired tn (event_key r ev) (sv_store s)) (ListAlertRules tn (sv_store s)) \<and>
    (\<forall>r. get (m_rules (sv_store s)) (tn, ar_ID r) = Some r \<longrightarrow> routes condition r \<longrightarrow> \<not> fired tn (event_key r ev) (sv_store s'))"
proof -
  have "routeRecoveryToRules up (\<lambda>_ m. m) cfg words env 0 tn ev condition (ListAlertRules tn (sv_store s)) s = (mails, s')"
    using assms(3-5) by (simp add: routeEventMail_def Let_def)
  from recovery_pass [OF assms(2,3) rules_distinct [OF assms(1)] this] show ?thesis
    by (auto simp: rules_listed [OF assms(1)])
qed

section \<open>Webhook and mail\<close>

text \<open>Two control planes with the same rules and alert states.\<close>

definition same_alerts :: "server \<Rightarrow> server \<Rightarrow> bool" where
  "same_alerts s s' \<longleftrightarrow> m_rules (sv_store s) = m_rules (sv_store s') \<and> m_states (sv_store s) = m_states (sv_store s')"

lemma recordDelivery_same: "same_alerts s s' \<Longrightarrow> same_alerts (recordDelivery up tn i c f s) (recordDelivery up tn i c f s')"
  by (auto simp: same_alerts_def recordDelivery_def RecordAlertDelivery_def split: option.splits)

lemma mailRule_same:
  assumes "same_alerts s s'"
  shows "fst (mailRule up cfg words net tn r ev s) = fst (mailRule up cfg words net tn r ev s') \<and>
    same_alerts (snd (mailRule up cfg words net tn r ev s)) (snd (mailRule up cfg words net tn r ev s'))"
  by (auto simp: mailRule_def Let_def assms recordDelivery_same split: prod.splits)

lemma recordSkipped_same: "same_alerts s s' \<Longrightarrow> same_alerts (recordSkipped up x tn c f rs s) (recordSkipped up x tn c f rs s')"
  by (induction rs arbitrary: x s s') (simp_all add: recordDelivery_same)

lemma claim_same:
  assumes "m_rules m = m_rules m'" "m_states m = m_states m'"
  shows "case ClaimAlertNotification tn key now cd m of
      Inl e \<Rightarrow> ClaimAlertNotification tn key now cd m' = Inl e
    | Inr (won, n) \<Rightarrow> \<exists>n'. ClaimAlertNotification tn key now cd m' = Inr (won, n') \<and> m_rules n = m_rules n' \<and> m_states n = m_states n'"
  using assms by (auto simp: ClaimAlertNotification_def Let_def)

lemma mail_due_same:
  "same_alerts s s' \<Longrightarrow> fst (mail_due up (\<lambda>_ m. m) cfg words env k now tn ev rs s) = fst (mail_due up (\<lambda>_ m. m) cfg words env k now tn ev rs s')"
proof (induction rs arbitrary: k s s')
  case (Cons r rs)
  let ?c = "\<lambda>s. ClaimAlertNotification tn (event_key r ev) now (ruleCooldown r) (sv_store s)"
  have ih: "same_alerts t t' \<Longrightarrow> fst (mail_due up (\<lambda>_ m. m) cfg words env (Suc k) now tn ev rs t) =
      fst (mail_due up (\<lambda>_ m. m) cfg words env (Suc k) now tn ev rs t')" for t t' by (rule Cons.IH)
  note skip = ih [OF recordSkipped_same [OF Cons.prems]]
  show ?case
  proof (cases "(pe_stopping env k \<or> pe_late env k) \<or> \<not> up ''ClaimAlertNotification''")
    case True
    then show ?thesis by (auto simp: Let_def call_def skip simp del: recordSkipped.simps)
  next
    case False
    have c: "case ?c s of Inl e \<Rightarrow> ?c s' = Inl e | Inr (won, n) \<Rightarrow>
        \<exists>n'. ?c s' = Inr (won, n') \<and> m_rules n = m_rules n' \<and> m_states n = m_states n'"
      using Cons.prems by (intro claim_same) (simp_all add: same_alerts_def)
    show ?thesis
    proof (cases "?c s")
      case (Inl e)
      with c False show ?thesis by (simp add: Let_def call_def skip del: recordSkipped.simps)
    next
      case (Inr p)
      obtain won n where p: "p = (won, n)" by fastforce
      with c Inr obtain n' where n': "?c s' = Inr (won, n')" "m_rules n = m_rules n'" "m_states n = m_states n'" by auto
      then have same: "same_alerts (s\<lparr>sv_store := n\<rparr>) (s'\<lparr>sv_store := n'\<rparr>)" by (simp add: same_alerts_def)
      note ih' = ih [OF same]
      note mr = mailRule_same [OF same, of up cfg words "pe_mail env k" tn r ev]
      note ih'' = ih [OF conjunct2 [OF mr]]
      from False Inr n'(1) mr ih' ih'' show ?thesis by (cases won) (auto simp: p Let_def call_def split: prod.splits)
    qed
  qed
qed simp

lemma recoveries_same:
  "same_alerts s s' \<Longrightarrow> fst (routeRecoveryToRules up (\<lambda>_ m. m) cfg words env k tn ev condition rs s) =
     fst (routeRecoveryToRules up (\<lambda>_ m. m) cfg words env k tn ev condition rs s')"
proof (induction rs arbitrary: k s s')
  case (Cons r rs)
  let ?c = "\<lambda>s. ReleaseAlertFiring tn (event_key r ev) (sv_store s)"
  obtain won n n' where n: "?c s = (won, n)" "?c s' = (won, n')" "m_rules n = m_rules n'" "m_states n = m_states n'"
    using Cons.prems by (cases "?c s", cases "?c s'") (auto simp: same_alerts_def ReleaseAlertFiring_def split: option.splits if_splits)
  then have same: "same_alerts (s\<lparr>sv_store := n\<rparr>) (s'\<lparr>sv_store := n'\<rparr>)" by (simp add: same_alerts_def)
  note mr = mailRule_same [OF same, of up cfg words "pe_mail env k" tn r ev]
  note ih = Cons.IH [OF Cons.prems, of "Suc k"] Cons.IH [OF same, of "Suc k"] Cons.IH [OF conjunct2 [OF mr], of "Suc k"]
  from mr ih show ?case by (cases won) (auto simp: n Let_def split: prod.splits)
qed simp

lemma post_webhook_same: "same_alerts (snd (post_webhook up net tn ev s)) s"
proof -
  have r: "same_alerts (snd (snd (record_event tn c i e s))) s" for c i e
  proof -
    obtain evs where "sv_store (snd (snd (record_event tn c i e s))) = (sv_store s)\<lparr>m_events := evs\<rparr>" by (rule record_events)
    then show ?thesis by (simp add: same_alerts_def)
  qed
  have "same_alerts s s" by (simp add: same_alerts_def)
  with r show ?thesis by (auto simp: post_webhook_def Let_def split: sum.splits prod.splits option.splits)
qed

text \<open>The webhook and the mail of an event have nothing to do with each other: whatever the webhook's address, its
  answers and the reachability of the tenant's row, the mails are those the event would have sent alone.\<close>

theorem webhook_never_silences_mail:
  "fst (snd (deliverOutside up (\<lambda>_ m. m) cfg words net env now tn ev s)) = fst (routeEventMail up (\<lambda>_ m. m) cfg words env now tn ev s)"
proof -
  obtain posted s1 where p: "post_webhook up net tn ev s = (posted, s1)" by fastforce
  then have same: "same_alerts s1 s" using post_webhook_same [of up net tn ev s] by simp
  then have lists: "ListAlertRules tn (sv_store s1) = ListAlertRules tn (sv_store s)" "ListAlertStates tn (sv_store s1) = ListAlertStates tn (sv_store s)"
    by (simp_all add: same_alerts_def ListAlertRules_def ListAlertStates_def)
  have "fst (routeEventMail up (\<lambda>_ m. m) cfg words env now tn ev s1) = fst (routeEventMail up (\<lambda>_ m. m) cfg words env now tn ev s)"
    using mail_due_same [OF same] recoveries_same [OF same]
    by (simp add: routeEventMail_def routeToRules_def lists Let_def split: option.splits prod.splits)
  then show ?thesis by (simp add: deliverOutside_def p split: prod.splits)
qed

section \<open>Instances\<close>

definition unit_rule :: alert_rule where
  "unit_rule = \<lparr>ar_ID = ''r1'', ar_Condition = ConditionUnitFailed, ar_Threshold = 0, ar_CooldownSeconds = 60,
     ar_EmailTo = [''ops@example.com''], ar_Enabled = True, ar_CreatedAt = 1, ar_CreatedBy = ''ops'', ar_LastDeliveryAt = 0, ar_LastDeliveryError = []\<rparr>"

definition unit_news :: "kind \<Rightarrow> notification" where
  "unit_news k = unit_event k demo_host '': nginx.service'' 5 [(''unit'', JStr ''nginx.service'')]"

definition watched_store :: "(state_key, alert_state) gomap \<Rightarrow> memory" where
  "watched_store states = (NewMemory 1)\<lparr>m_rules := put (DefaultTenant, ''r1'') unit_rule no_entries, m_states := states\<rparr>"

definition calm :: pass_env where
  "calm = \<lparr>pe_stopping = \<lambda>_. False, pe_late = \<lambda>_. False, pe_stopped = \<lambda>_. False, pe_claim_text = \<lambda>_. [], pe_expired = \<lambda>_ _. False,
     pe_clock = \<lambda>_. 9, pe_mail = \<lambda>_. \<lparr>mn_relay = \<lambda>_. \<lparr>rl_ok = \<lambda>_. True, rl_starttls = True\<rparr>, mn_cancelled = \<lambda>_. False, mn_clock = 9\<rparr>\<rparr>"

lemma calm: "unhindered calm" "\<forall>n. (\<lambda>_. True) n"
  by (simp_all add: calm_def unhindered_def)

lemma watched_rule: "get (m_rules (watched_store st)) k = (if k = (DefaultTenant, ''r1'') then Some unit_rule else None)"
  "m_states (watched_store st) = st"
  by (simp_all add: watched_store_def get_put)

lemma unit_rule_fields: "ar_ID unit_rule = ''r1''" "ar_CooldownSeconds unit_rule = 60" "ar_EmailTo unit_rule \<noteq> []" "ar_Enabled unit_rule"
  "ar_Condition unit_rule = ConditionUnitFailed"
  by (simp_all add: unit_rule_def)

lemma unit_rule_routes: "routes ConditionUnitFailed unit_rule"
  by (simp add: routes_def unit_rule_fields)

definition no_smtp :: smtp_config where
  "no_smtp = \<lparr>smtp_Host = [], smtp_Port = 25, smtp_From = [], smtp_Username = [], smtp_Password = []\<rparr>"

text \<open>A relay that takes every mail.\<close>

definition demo_smtp :: smtp_config where
  "demo_smtp = \<lparr>smtp_Host = ''mx'', smtp_Port = 587, smtp_From = ''hostseal@example.com'', smtp_Username = [], smtp_Password = []\<rparr>"

theorem event_mails_the_due_witness:
  "let (mails, s') = routeEventMail (\<lambda>_. True) (\<lambda>_ m. m) demo_smtp (\<lambda>_. ''failed'') calm 7 DefaultTenant (unit_news KindServiceFailed)
       (server_of (watched_store no_entries))
   in (\<exists>refused. (unit_rule, refused @ whole_conversation demo_smtp [''ops@example.com''] (unit_news KindServiceFailed)) \<in> set mails) \<and>
     get (m_rules (sv_store s')) (DefaultTenant, ''r1'') = Some (unit_rule\<lparr>ar_LastDeliveryAt := 9, ar_LastDeliveryError := []\<rparr>)"
proof -
  let ?s = "server_of (watched_store no_entries)" and ?ev = "unit_news KindServiceFailed"
  have st: "sv_store ?s = watched_store no_entries" by (simp add: server_of_def)
  have keyed: "alerts_keyed (sv_store ?s)" unfolding st by (simp add: alerts_keyed_def watched_rule unit_rule_fields)
  have listed: "r \<in> set (ListAlertRules DefaultTenant (sv_store ?s)) \<longleftrightarrow> r = unit_rule" for r
    unfolding rules_listed [OF keyed] unfolding st by (auto simp: watched_rule unit_rule_fields split: if_splits)
  have cd: "\<forall>r\<in>set (ListAlertRules DefaultTenant (sv_store ?s)). bounded_cooldown r"
    by (simp add: listed bounded_cooldown_def unit_rule_fields in_int64_def int64_min_def int64_max_def Second_def)
  have k: "routedCondition (ne_Kind ?ev) = Some (ConditionUnitFailed, True)"
    by (simp add: unit_news_def unit_event_def routedCondition_def KindServiceFailed_def)
  obtain mails s' where m: "routeEventMail (\<lambda>_. True) (\<lambda>_ m. m) demo_smtp (\<lambda>_. ''failed'') calm 7 DefaultTenant ?ev ?s = (mails, s')"
    by fastforce
  note due = event_mails_the_due [OF keyed calm(1) calm(2) cd k m]
  from due have "unit_rule \<in> set (map fst mails)" using listed unit_rule_routes by (simp add: st rested_def watched_rule)
  then obtain said where said: "(unit_rule, said) \<in> set mails" by auto
  then obtain i where i: "i < length mails" "mails ! i = (unit_rule, said)" by (auto simp: in_set_conv_nth)
  from due have "\<forall>i < length mails. case mails ! i of (r, said) \<Rightarrow>
      \<exists>why. mail_outcome demo_smtp (\<lambda>_. ''failed'') (pe_mail calm i) r ?ev said why \<and> get (m_rules (sv_store s')) (DefaultTenant, ar_ID r) =
        Some (r\<lparr>ar_LastDeliveryAt := mn_clock (pe_mail calm i), ar_LastDeliveryError := why\<rparr>)"
    unfolding all_recorded_def by (elim conjE)
  from this [rule_format, OF i(1)] obtain why where why: "mail_outcome demo_smtp (\<lambda>_. ''failed'') (pe_mail calm i) unit_rule ?ev said why"
    "get (m_rules (sv_store s')) (DefaultTenant, ar_ID unit_rule) =
      Some (unit_rule\<lparr>ar_LastDeliveryAt := mn_clock (pe_mail calm i), ar_LastDeliveryError := why\<rparr>)"
    unfolding i(2) prod.case by (elim exE conjE)
  have relay: "Configured demo_smtp" "takes_mail (mn_relay (pe_mail calm i) 0) demo_smtp to ev" for to ev
    by (simp_all add: Configured_def demo_smtp_def takes_mail_def calm_def list_all_iff)
  have to: "ar_EmailTo unit_rule = [''ops@example.com'']" by (simp add: unit_rule_def)
  have "\<exists>j < 3. takes_mail (mn_relay (pe_mail calm i) j) demo_smtp (ar_EmailTo unit_rule) ?ev \<and> (\<forall>l < j. \<not> mn_cancelled (pe_mail calm i) l)"
    by (intro exI [of _ 0]) (simp add: relay(2))
  with why(1) relay(1) obtain refused where "why = []" "said = refused @ whole_conversation demo_smtp [''ops@example.com''] ?ev"
    unfolding mail_outcome_def to by auto
  moreover note said
  moreover have "mn_clock (pe_mail calm i) = 9" by (simp add: calm_def)
  ultimately show ?thesis using why(2) unfolding m by (auto simp: unit_rule_fields)
qed

definition told_state :: alert_state where
  "told_state = \<lparr>as_Key = event_key unit_rule (unit_news KindServiceRecovered), as_Firing = True, as_Since = 3, as_LastNotified = 3\<rparr>"

definition told_states :: "(state_key, alert_state) gomap" where
  "told_states = put (DefaultTenant, event_key unit_rule (unit_news KindServiceRecovered)) told_state no_entries"

theorem recovery_mails_the_told_witness:
  "unit_rule \<in> set (map fst (fst (routeEventMail (\<lambda>_. True) (\<lambda>_ m. m) no_smtp (\<lambda>_. []) calm 7 DefaultTenant (unit_news KindServiceRecovered)
     (server_of (watched_store told_states)))))"
proof -
  let ?s = "server_of (watched_store told_states)" and ?ev = "unit_news KindServiceRecovered"
  have st: "sv_store ?s = watched_store told_states" by (simp add: server_of_def)
  have keyed: "alerts_keyed (sv_store ?s)"
    unfolding st by (simp add: alerts_keyed_def watched_rule unit_rule_fields told_states_def get_put told_state_def)
  have listed: "r \<in> set (ListAlertRules DefaultTenant (sv_store ?s)) \<longleftrightarrow> r = unit_rule" for r
    unfolding rules_listed [OF keyed] unfolding st by (auto simp: watched_rule unit_rule_fields split: if_splits)
  have k: "routedCondition (ne_Kind ?ev) = Some (ConditionUnitFailed, False)"
    by (simp add: unit_news_def unit_event_def routedCondition_def KindServiceFailed_def KindServiceRecovered_def)
  obtain mails s' where m: "routeEventMail (\<lambda>_. True) (\<lambda>_ m. m) no_smtp (\<lambda>_. []) calm 7 DefaultTenant ?ev ?s = (mails, s')" by fastforce
  from recovery_mails_the_told [OF keyed calm(1) calm(2) k m] listed unit_rule_routes
  have "unit_rule \<in> set (map fst mails)" unfolding st by (simp add: fired_def watched_rule told_states_def get_put told_state_def)
  then show ?thesis by (simp add: m)
qed

end
