(* ===== verification/Spec2Isabelle.thy ===== *)
theory Spec2Isabelle
  imports Runner Replay StoreLaws Enrolment JobsAPI AgentAPI FleetAPI Routing
begin

text \<open>
  HostSeal, verified: a shallow embedding of its Go sources (\<open>src/\<close>).

  The program. HostSeal lets an operator run a closed catalogue of maintenance operations on a fleet of
  hosts through a control plane that is not trusted with them. On a host an unprivileged agent polls the
  control plane for jobs, checks each one and hands privileged ones, over Unix sockets, to three small
  root helpers; a helper decides again against the host's own policy file before it acts. Destructive
  jobs carry a signature by a key the operator keeps offline, routine ones a signature by the control
  plane's own key.

  The theories, in the order in which they build on each other:

  \<^item> \<open>HS_Prelude\<close>, \<open>Go_Strings\<close>, \<open>GoTime\<close>, \<open>Base64\<close>: the vocabulary. Go strings are byte lists, \<open>(T, error)\<close> is a
    sum, \<open>int64\<close> arithmetic wraps where the source can overflow, \<open>time.Time\<close> is the number of
    nanoseconds since year 1, a time zone is its table of transitions.
  \<^item> \<open>JSON\<close>, \<open>JSON_Write\<close>, \<open>JSON_Struct\<close>: \<open>encoding/json\<close> as the sources use it: parser (with fuel bounded by the
    length of the input, so that it never runs out), encoder, decoding into structs with Go's rules for
    case, duplicates and null. The locales \<open>json_strings\<close> and \<open>json_codec\<close> state when an encoder can be read
    back.
  \<^item> \<open>Canonical\<close> (\<open>internal/canonical\<close>): the canonical encoding that signatures and digests are over.
  \<^item> \<open>Intent\<close> (\<open>internal/intent\<close>): catalogue, classes, decoders and their validators, host profiles.
  \<^item> \<open>Window\<close>, \<open>Glob\<close>, \<open>Policy\<close> (\<open>internal/policy\<close>): maintenance windows, unit patterns (\<open>path.Match\<close>), the policy
    file and \<open>Decide\<close>, against the abstract relation \<open>permitted\<close>.
  \<^item> \<open>Run\<close> (\<open>internal/run\<close>), \<open>Protocol\<close> (\<open>internal/protocol\<close>), \<open>Privsep\<close> (\<open>internal/privsep\<close>): the allowlisted command
    runner, jobs and results on the wire, sockets and peer checks.
  \<^item> \<open>Helper\<close>, \<open>Executors\<close> (\<open>internal/helper\<close>, \<open>helpers/\<close>): what root does. The contract of an executor is the
    locale \<open>executor\<close>; the three helpers are its instances.
  \<^item> \<open>Signing\<close> (\<open>internal/signing\<close>): keys, the trusted-signers file, verification.
  \<^item> \<open>Files\<close>, \<open>Nonces\<close>, \<open>Acceptance\<close>, \<open>Runner\<close>, \<open>Replay\<close> (\<open>internal/agent\<close>): durable writes as sequences of system calls
    with crashes between them (locale \<open>publisher\<close>), the replay store, the acceptance of jobs (locale
    \<open>trust_anchor\<close>, one instance per signature check), running them, and the life of an agent as a step
    relation that the replay store's runs simulate.
  \<^item> \<open>GoMap\<close>, \<open>Store\<close>, \<open>MemStore\<close>, \<open>JobStore\<close>, \<open>AccountStore\<close>, \<open>FleetStore\<close> (\<open>internal/store\<close>): Go's maps and sorting, the store's
    records, and every operation of the in-memory store. \<open>Tenancy\<close> gives each tenant's view of the shared maps,
    \<open>StoreRun\<close> the step relation of the store with its invariant, \<open>Delivery\<close> what the job queue promises, \<open>StoreLaws\<close> what deletion, renewal, tokens and reads promise.
  \<^item> \<open>Results\<close>, \<open>Credential\<close>, \<open>AgentLoop\<close>, \<open>Enrolment\<close> (\<open>internal/agent\<close>): the spool of results, the pair of certificate and
    key with its predecessor, the main loop with its pauses, and enrolling with the one template a host may
    be given, as chains of actions that may stop after any of them.
  \<^item> \<open>RateLimit\<close>, \<open>Identifier\<close>, \<open>Notify\<close>, \<open>Events\<close> (\<open>internal/server\<close>, \<open>internal/id\<close>, \<open>internal/notify\<close>): limits on attempts,
    identifiers that sort by time, the sinks with their retry, and the record \<open>server\<close>: the state of a control
    plane process (store, live streams, detached deliveries), which every theory below works on.
  \<^item> \<open>Password\<close>, \<open>Auth\<close>, \<open>Gate\<close> (\<open>internal/auth\<close>, \<open>internal/server/server.go\<close>): password hashes, sessions, API tokens, and who
    is let in: agents by certificate, operators, administrators of the installation.
  \<^item> \<open>Handling\<close>: how a handler is put together, with the lemmas that read a chain of steps. Every store call may be
    unreachable (\<open>reach\<close>), and before the \<open>k\<close>-th call other requests do \<open>w k\<close> to the store.
  \<^item> \<open>JobsAPI\<close>, \<open>Provision\<close>, \<open>Authority\<close>, \<open>EnrollAPI\<close>, \<open>UnitWatch\<close>, \<open>AgentAPI\<close> (\<open>internal/server\<close>, \<open>internal/provision\<close>,
    \<open>internal/ca\<close>, \<open>internal/seal\<close>): creating and approving jobs, rendering templates, certificates, enrolment as
    the control plane answers it, the reports of a host's units, and the rest of an agent's requests.
  \<^item> \<open>AccountAPI\<close> (\<open>internal/server/accountapi.go\<close>): what a person does to their own account, and what a token cannot.
  \<^item> \<open>FleetAPI\<close> (\<open>adminapi.go\<close>, \<open>sessionapi.go\<close>, \<open>tenantapi.go\<close>): hosts and enrolment tokens as operators see them, signing in
    and out, and the tenants of an installation. \<open>later\<close> is the rest of a store's life.
  \<^item> \<open>Alerts\<close>, \<open>Routing\<close> (\<open>internal/server/alerts.go\<close>, \<open>eventsapi.go\<close>): a pass of the evaluator over rules and hosts, with its
    digests, and what a detached delivery does: the webhook, and the rules an event or a recovery mails, to the last word
    said to the relay and the record on the rule.

  How the models correspond to the code. Each Go function that decides something is one definition with
  the function's name (with a prefix where the name is taken), its early returns as branches and its errors
  as constructors of a datatype. What a function reads from outside (clock, files, kernel, collectors) is
  an argument; what it does outside is returned as a list of effects or events in their order. Third-party
  code (the TOML decoder, the SSH key format) and cryptographic primitives are arguments; what is
  assumed of them, that keys verify only what was signed, is the hypothesis \<open>signs_only\<close> of the theorems that
  need it, and of the encoding of a result that it decodes to a result of the same job (\<open>codec_ok\<close>).

  What is shown. Helpers: every command and unit operation is permitted by the policy the helper itself
  read, and has the shape its intent names. Agent: what is accepted is signed by the right anchor over a
  payload that binds host, intent, parameters, window and nonce; a nonce is used once, across restarts and
  failed writes; a job that may not return has its result on disk first. Together: \<open>host_effect_authorised\<close> and
  \<open>shutdown_approved\<close> below. Policy: \<open>Decide\<close> equals its specification, is monotone, and fails closed. Windows:
  \<open>Contains\<close> equals its specification also around clock changes, for windows they cannot carry over the ends of their
  days, and \<open>NextOpen\<close> in zones of a fixed offset. Store: a tenant's calls leave every other tenant's rows alone (but
  for a session whose token hash a new one takes); a job reaches its host at most once, only when approved as its record
  requires, and does reach it. Control plane: an agent is let in by its certificate alone and an operator only
  to their own tenant; a second operator's release cannot be bypassed; an enrolment that succeeds makes
  exactly the host the token provides for, lets it in afterwards, and one that is refused costs nothing; a
  poll loses no wake-up; a report is asked for until it is held; a renewal retires the old certificate; a
  routine job it builds is one the agent accepts. Alerts: they change nothing of the fleet, a pass starts a
  handful of deliveries, incidents end, an event mails exactly the rules that are due. Encodings: canonical
  forms are idempotent and determine the value; parameters and passwords round-trip. Some theorems record
  where the code departs from its documentation.

  Bounds. JSON is parsed up to Go's nesting limit of 10000, which is a hypothesis (\<open>max_nesting\<close>) where two
  payloads are compared. What is shown of \<open>NextOpen\<close> is for zones without transitions; the operations themselves
  are modelled for every zone. The retry of a delivery and every other loop is structural recursion or has a
  termination proof; no fuel is chosen anywhere but in the JSON parser.

  Not modelled: network transport, TLS, the route table and middleware; the bytes of request and response bodies
  (handlers take the decoded body or the failure to decode it); the text of mails and error messages, where
  nothing reads them; the event stream and the listings for the browser; the handlers for templates and alert rules,
  which validate a body and call store operations that are modelled; the PostgreSQL store (its SQL is text to Go; the
  in-memory store the sources keep as its stand-in is modelled); signing backends, the local signing server, the collectors that read
  the operating system, the Windows interfaces, entry points and build tools. They are listed in the manifest
  with the reason.
\<close>

section \<open>Agent and helpers together\<close>

text \<open>The three helpers behind their sockets, and the agent's route to them: \<open>privsep.Client.Invoke\<close>, with
  the exchange on a socket being the \<open>Perform\<close> of the helper that listens there.\<close>

definition helpers :: "world \<Rightarrow> helper list" where
  "helpers w = [apply_helper w, unit_helper w, reboot_helper w]"

definition call_helper :: "world \<Rightarrow> host_view \<Rightarrow> bytes \<Rightarrow> priv_request \<Rightarrow> (invoke_error, helper_error response) result \<times> effect list" where
  "call_helper w hv path req = (case find (\<lambda>h. Socket h = path) (helpers w) of
      None \<Rightarrow> (Inl (ErrUnreachable path), [])
    | Some h \<Rightarrow> (case Perform h hv req of (resp, effs) \<Rightarrow> (Inr resp, effs)))"

definition route :: "world \<Rightarrow> host_view \<Rightarrow> priv_request \<Rightarrow> (invoke_error, helper_error response) result \<times> effect list" where
  "route w hv req = (Invoke (\<lambda>path r. fst (call_helper w hv path r)) req,
     case Endpoint (pr_Intent req) of None \<Rightarrow> [] | Some path \<Rightarrow> snd (call_helper w hv path req))"

lemma route_effect:
  assumes "eff \<in> set (snd (route w hv req))"
  obtains h resp effs where "h \<in> set (helpers w)" "Perform h hv req = (resp, effs)" "eff \<in> set effs"
    "Endpoint (pr_Intent req) = Some (Socket h)"
proof -
  from assms obtain path where p: "Endpoint (pr_Intent req) = Some path" "eff \<in> set (snd (call_helper w hv path req))"
    by (cases "Endpoint (pr_Intent req)") (auto simp: route_def)
  then obtain h where h: "find (\<lambda>h. Socket h = path) (helpers w) = Some h" "eff \<in> set (snd (Perform h hv req))"
    by (auto simp: call_helper_def split: option.splits prod.splits)
  then have "h \<in> set (helpers w)" "Socket h = path" by (auto simp: find_Some_iff)
  with p h show thesis by (intro that [of h "fst (Perform h hv req)" "snd (Perform h hv req)"]) simp_all
qed

text \<open>What a helper may do is named by the intent: for each effect, which intents can cause it.\<close>

definition causes :: "name \<Rightarrow> params \<Rightarrow> effect \<Rightarrow> bool" where
  "causes n ps eff \<longleftrightarrow> (case eff of
      UnitJob v u m \<Rightarrow> n \<in> {ServiceStart, ServiceStop, ServiceRestart} \<and> v = verb n \<and> ps = UnitParams n u
    | Exec p args _ _ _ \<Rightarrow>
        if p = Shutdown then n = HostReboot \<or> n = PackagesApplyAll \<and> ps = ApplyParams n True
        else updateCommand n = Some (p, args))"

lemma helper_effect:
  assumes "h \<in> set (helpers w)" and "Perform h hv req = (resp, effs)" and "eff \<in> set effs"
  shows "\<exists>s ps p. Decode (pr_Intent req) (pr_Params req) = Inr (s, ps) \<and> policy_in_force hv = Some p \<and>
    Allowed (Decide p (decided req ps) (seen_env hv)) \<and> causes (pr_Intent req) ps eff"
proof -
  consider "h = apply_helper w" | "h = unit_helper w" | "h = reboot_helper w" using assms(1) by (auto simp: helpers_def)
  then show ?thesis
  proof cases
    case 1
    then have "Execute h = Some (apply_updates w)" by (simp add: apply_helper_def)
    from updating.effect_authorised [OF assms(2) this assms(3)] obtain s ps p where
      f: "Endpoint (pr_Intent req) = Some ApplyUpdatesSocket" "Decode (pr_Intent req) (pr_Params req) = Inr (s, ps)"
        "policy_in_force hv = Some p" "Allowed (Decide p (decided req ps) (seen_env hv))" "may_apply w (pr_Intent req) ps eff"
      using 1 by (auto simp: apply_helper_def)
    have "params_Intent ps = pr_Intent req" using f(2) Decode_ok by blast
    with f(5) Endpoint_inv(1) [OF f(1)] have "causes (pr_Intent req) ps eff"
      by (auto simp: may_apply_def causes_def updateCommand_def go_defs split: if_splits)
    with f show ?thesis by blast
  next
    case 2
    then have "Execute h = Some (act w)" by (simp add: unit_helper_def)
    from acting.effect_authorised [OF assms(2) this assms(3)] obtain s ps p where
      f: "Decode (pr_Intent req) (pr_Params req) = Inr (s, ps)"
        "policy_in_force hv = Some p" "Allowed (Decide p (decided req ps) (seen_env hv))" "may_act (pr_Intent req) ps eff"
      by auto
    have "params_Intent ps = pr_Intent req" using f(1) Decode_ok by blast
    with f(4) have "causes (pr_Intent req) ps eff" by (auto simp: may_act_def causes_def)
    with f show ?thesis by blast
  next
    case 3
    then have "Execute h = Some (reboot w)" by (simp add: reboot_helper_def)
    from rebooting.effect_authorised [OF assms(2) this assms(3)] obtain s ps p where
      f: "Endpoint (pr_Intent req) = Some RebootHostSocket" "Decode (pr_Intent req) (pr_Params req) = Inr (s, ps)"
        "policy_in_force hv = Some p" "Allowed (Decide p (decided req ps) (seen_env hv))" "may_reboot (pr_Intent req) ps eff"
      using 3 by (auto simp: reboot_helper_def)
    with Endpoint_inv(3) [OF f(1)] have "causes (pr_Intent req) ps eff" by (auto simp: may_reboot_def causes_def)
    with f show ?thesis by blast
  qed
qed

text \<open>Where an effect comes from: an accepted job, and a helper that permitted the same request.\<close>

lemma host_effect_source:
  assumes "Run cr ae r j started finished = (res, st, evs)" and "HostEffect eff \<in> set evs"
    and "Elevate r = Some (route w hv)"
  obtains a p where "accepts cr ae r j started = (Inr a, st)" "Privileged (Class (acc_spec a))"
    "Lookup (job_Intent j) = Some (acc_spec a)" "policy_in_force hv = Some p"
    "Allowed (Decide p \<lparr>req_Intent = job_Intent j, req_Params = Some (acc_params a), IssuedAt = NotBefore j\<rparr> (seen_env hv))"
    "causes (job_Intent j) (acc_params a) eff"
proof -
  from assms(2) have "HelperCall req \<in> set evs \<or> HostEffect eff \<in> set evs" for req by simp
  then obtain a ivk where a: "accepts cr ae r j started = (Inr a, st)" "Privileged (Class (acc_spec a))"
    "Elevate r = Some ivk"
    "evs = (if MayNotReturn (acc_spec a) (acc_params a)
            then [SpoolAttempt (provisional (new_result (ID j) started) (acc_spec a) started)] else []) @
       HelperCall (request_of j a) # map HostEffect (snd (ivk (request_of j a)))"
    "MayNotReturn (acc_spec a) (acc_params a) \<longrightarrow>
       (\<exists>sp. Spool r = Some sp \<and> sp (provisional (new_result (ID j) started) (acc_spec a) started))"
    by (rule Run_call [OF assms(1)])
  have "eff \<in> set (snd (route w hv (request_of j a)))"
    using a(3,4) assms(2,3) by (auto split: if_splits)
  then obtain h resp effs where "h \<in> set (helpers w)" "Perform h hv (request_of j a) = (resp, effs)" "eff \<in> set effs"
    by (rule route_effect)
  from helper_effect [OF this] obtain s ps p where h: "Decode (pr_Intent (request_of j a)) (pr_Params (request_of j a)) = Inr (s, ps)"
    "policy_in_force hv = Some p" "Allowed (Decide p (decided (request_of j a) ps) (seen_env hv))"
    "causes (pr_Intent (request_of j a)) ps eff" by blast
  note acc = accept_facts [OF a(1,2)]
  have n: "Lookup (job_Intent j) = Some (acc_spec a)" using acc(1) by (simp add: Decode_Inr)
  moreover have "ps = acc_params a" using h(1) acc(1) n by (simp add: Decode_Inr spec_Name_Lookup)
  ultimately show thesis using h acc(10) a(1,2) by (intro that [of a p]) (simp_all add: spec_Name_Lookup)
qed

text \<open>Property C2: end to end, nothing happens to the host that was not authorised twice. Whatever a job
  causes through the agent and the root helpers was accepted by the agent (signature by the anchor
  of its class over the payload for this host, clock inside the signed window, nonce not seen
  before and recorded) and was permitted, independently, by the policy the helper read itself, for
  the same intent and parameters and with its age counted from the signed start; and it is one of
  the effects its intent names.\<close>

theorem host_effect_authorised:
  assumes "Run cr ae r j started finished = (res, st, evs)" and "HostEffect eff \<in> set evs"
    and "Elevate r = Some (route w hv)"
  shows "\<exists>s ps p. Lookup (job_Intent j) = Some s \<and> Privileged (Class s) \<and>
    authorised_by cr j (HostID r) (if Class s = ClassDestructive then Signers r else Online r) \<and>
    NotBefore j \<le> started \<and> started \<le> NotAfter j \<and>
    seen (Nonces_of r) (Nonce j) = None \<and> seen st (Nonce j) = Some (NotAfter j) \<and>
    policy_in_force hv = Some p \<and>
    Allowed (Decide p \<lparr>req_Intent = job_Intent j, req_Params = Some ps, IssuedAt = NotBefore j\<rparr> (seen_env hv)) \<and>
    causes (job_Intent j) ps eff"
proof -
  obtain a p where a: "accepts cr ae r j started = (Inr a, st)" "Privileged (Class (acc_spec a))"
    and h: "Lookup (job_Intent j) = Some (acc_spec a)" "policy_in_force hv = Some p"
      "Allowed (Decide p \<lparr>req_Intent = job_Intent j, req_Params = Some (acc_params a), IssuedAt = NotBefore j\<rparr> (seen_env hv))"
      "causes (job_Intent j) (acc_params a) eff" by (rule host_effect_source [OF assms])
  with accept_facts [OF a] show ?thesis by (auto simp: anchor_for_def)
qed

lemma reboot_job_run:
  "\<exists>res st evs eff. Run reboot_crypto (sample_env last_second) (sample_runner (route sample_world (sample_view last_second)))
      (signed_with ''ops'' reboot_job) last_second last_second = (res, st, evs) \<and> HostEffect eff \<in> set evs \<and>
     (\<exists>envs dir tmo. eff = Exec Shutdown [''-r'', ''--'', ''now''] envs dir tmo)"
proof (rule reboot_run [of "route sample_world (sample_view last_second)" last_second])
  fix res st prov s
  let ?req = "\<lparr>pr_JobID = ''J2'', pr_Intent = HostReboot, pr_Params = ''null'', pr_IssuedAt = NotBefore reboot_job\<rparr>"
  assume r: "Run reboot_crypto (sample_env last_second) (sample_runner (route sample_world (sample_view last_second)))
      (signed_with ''ops'' reboot_job) last_second last_second = (res, st, SpoolAttempt prov # HelperCall ?req #
        map HostEffect (snd (route sample_world (sample_view last_second) ?req)))"
  have "decodeReboot HostReboot ''null'' = Inr (RebootParams HostReboot 0 [])" by code_simp
  note e = sample_reboot_effects [OF this, of "NotBefore reboot_job"]
  have args: "rebootArgs 0 [] = [''-r'', ''--'', ''now'']" by code_simp
  have "snd (route sample_world (sample_view last_second) ?req) =
      snd (Perform (reboot_helper sample_world) (sample_view last_second) ?req)"
    by (simp add: route_def call_helper_def helpers_def Endpoint_def endpoints_def intent_names apply_helper_def unit_helper_def
        reboot_helper_def ApplyUpdatesSocket_def RestartUnitSocket_def RebootHostSocket_def split: prod.split)
  with r e args show ?thesis
    by (auto simp: sample_reboot_def reboot_job_def Second_def)
qed

theorem host_effect_authorised_witness:
  "\<exists>s. Lookup HostReboot = Some s \<and> Class s = ClassDestructive \<and>
     authorised_by reboot_crypto (signed_with ''ops'' reboot_job) ''H1'' ops_keys"
proof -
  let ?r = "sample_runner (route sample_world (sample_view last_second))"
  obtain res st evs eff where r: "Run reboot_crypto (sample_env last_second) ?r
      (signed_with ''ops'' reboot_job) last_second last_second = (res, st, evs)" and e: "HostEffect eff \<in> set evs"
    using reboot_job_run by blast
  have el: "Elevate ?r = Some (route sample_world (sample_view last_second))" by (simp add: sample_runner_def)
  obtain s where s: "Lookup HostReboot = Some s" "Class s = ClassDestructive"
    by (simp add: Lookup_def catalogue_def mk_spec_def intent_names)
  from host_effect_authorised [OF r e el] s show ?thesis by (auto simp: sample_runner_def reboot_job_def)
qed

text \<open>Property C1: no reboot without the operator. When the keys in the host's trusted signers verify only
  payloads that were signed, and only payloads of approved jobs are signed, the agent and the helpers
  start \<open>shutdown\<close> only for a job that agrees with an approved one in everything a signature covers,
  and only when the policy the helper read permits reboots and its window contains the helper's
  clock. Nothing the control plane holds is enough.\<close>

theorem shutdown_approved:
  assumes "Run cr ae r j started finished = (res, st, evs)" and "HostEffect (Exec Shutdown args envs dir tmo) \<in> set evs"
    and "Elevate r = Some (route w hv)" and "signs_only cr (Signers r) issued"
    and "\<forall>q \<in> issued. \<exists>(j0, h0) \<in> approved.
      Marshal (SignedPayload j0 h0) = Inr q \<and> jdepth (SignedPayload j0 h0) \<le> max_nesting"
    and "jdepth (SignedPayload j (HostID r)) \<le> max_nesting"
  shows "(\<exists>(j0, h0) \<in> approved. same_content j (HostID r) j0 h0) \<and>
    (\<exists>p. policy_in_force hv = Some p \<and> reboot_ok p (seen_env hv) \<and> \<not> hv_paused hv)"
proof -
  obtain a p where a: "accepts cr ae r j started = (Inr a, st)" "Privileged (Class (acc_spec a))"
    and h: "Lookup (job_Intent j) = Some (acc_spec a)" "policy_in_force hv = Some p"
      "Allowed (Decide p \<lparr>req_Intent = job_Intent j, req_Params = Some (acc_params a), IssuedAt = NotBefore j\<rparr> (seen_env hv))"
      "causes (job_Intent j) (acc_params a) (Exec Shutdown args envs dir tmo)" by (rule host_effect_source [OF assms(1-3)])
  have n: "job_Intent j = HostReboot \<or> job_Intent j = PackagesApplyAll \<and> acc_params a = ApplyParams PackagesApplyAll True"
    using h(4) by (auto simp: causes_def)
  with h(1) have "Class (acc_spec a) = ClassDestructive"
    by (cases rule: Lookup_cases) (auto simp: intent_names)
  with offline.verified_approved [OF accept_offline [OF a(1)] assms(4,6), of approved] assms(5)
  have "\<exists>(j0, h0) \<in> approved. same_content j (HostID r) j0 h0" by blast
  moreover have "Endpoint (job_Intent j) \<noteq> None" using n by (auto simp: Endpoint_def endpoints_def intent_names)
  with Decide_privileged [OF h(3)] n have "\<not> hv_paused hv" "reboot_ok p (seen_env hv)"
    by (auto simp: permitted_def wants_reboot_def Let_def intent_names)
  ultimately show ?thesis using h(2) by blast
qed

theorem shutdown_approved_witness:
  "\<exists>(j0, h0) \<in> {(reboot_job, ''H1'')}. same_content (signed_with ''ops'' reboot_job) ''H1'' j0 h0"
proof -
  let ?r = "sample_runner (route sample_world (sample_view last_second))"
  obtain res st evs envs dir tmo where r: "Run reboot_crypto (sample_env last_second) ?r
      (signed_with ''ops'' reboot_job) last_second last_second = (res, st, evs)"
    and e: "HostEffect (Exec Shutdown [''-r'', ''--'', ''now''] envs dir tmo) \<in> set evs"
    using reboot_job_run by blast
  have el: "Elevate ?r = Some (route sample_world (sample_view last_second))"
    and sg: "Signers ?r = ops_keys" and hid: "HostID ?r = ''H1''" by (simp_all add: sample_runner_def)
  have only: "signs_only reboot_crypto (Signers ?r) {sample_payload_of reboot_job}"
    by (simp add: signs_only_def sg ops_keys_def set_Keys_def key_Verify_def signing_only_def)
  have d: "jdepth (SignedPayload reboot_job ''H1'') \<le> max_nesting" by code_simp
  from reboot_payload have p: "Marshal (SignedPayload reboot_job ''H1'') = Inr (sample_payload_of reboot_job)"
    by (auto simp: sample_payload_of_def)
  from shutdown_approved [OF r e el only, of "{(reboot_job, ''H1'')}"] p d hid show ?thesis by simp
qed

end
